(* ===== verification/Prelude.thy ===== *)
theory Prelude
  imports Main "HOL-Library.Word" "HOL-Library.Char_ord" "HOL-Library.List_Lexorder"
    "HOL-Library.Product_Lexorder"
begin

text \<open>
  Shared ground of the development: the machine types, the standard-library containers and
  the result type as every component uses them, with the generic lemmas and the
  \<open>named_theorems\<close> collections the component proofs draw on.

  \<^item> A Rust \<open>String\<close> is its UTF-8 byte sequence, a \<^typ>\<open>string\<close>; its derived order is the
    bytewise lexicographic one of \<open>HOL-Library.List_Lexorder\<close>.
  \<^item> \<open>u64\<close> is \<^typ>\<open>64 word\<close>, with the wrap-around of a release build.
  \<^item> A \<open>HashMap\<close> is a partial function and a \<open>HashSet\<close> a set: neither exposes an order the
    modelled code relies on.
  \<^item> A \<open>BTreeSet\<close> is the strictly increasing list of its elements, since the code observes
    its iteration order.
  \<^item> \<open>Result<T, E>\<close> is \<open>'e + 't\<close>, with \<open>Inl\<close> the error.
\<close>

section \<open>Types and collections of rules\<close>

type_synonym u64 = "64 word"

named_theorems inv_intros "introduction rules that establish a component invariant"
named_theorems op_simps "characteristic equations of operations on a component's fields"

section \<open>Results\<close>

definition and_then :: "'e + 'a \<Rightarrow> ('a \<Rightarrow> 'e + 'b) \<Rightarrow> 'e + 'b" where
  "and_then r f = (case r of Inl e \<Rightarrow> Inl e | Inr x \<Rightarrow> f x)"

lemma and_then_simps [simp]:
  "and_then (Inl e) f = Inl e"
  "and_then (Inr x) f = f x"
  by (simp_all add: and_then_def)

lemma and_then_Inr_conv: "and_then r f = Inr y \<longleftrightarrow> (\<exists>x. r = Inr x \<and> f x = Inr y)"
  by (cases r) auto

lemma and_then_Inl_conv:
  "and_then r f = Inl e \<longleftrightarrow> r = Inl e \<or> (\<exists>x. r = Inr x \<and> f x = Inl e)"
  by (cases r) auto

section \<open>Ordered sets as strictly increasing lists\<close>

definition bset_insert :: "'a::linorder \<Rightarrow> 'a list \<Rightarrow> 'a list" where
  "bset_insert x xs = (if x \<in> set xs then xs else insort x xs)"

definition bset_inv :: "'a::linorder list \<Rightarrow> bool" where
  "bset_inv xs \<longleftrightarrow> sorted xs \<and> distinct xs"

lemma set_bset_insert [simp]: "set (bset_insert x xs) = insert x (set xs)"
  by (auto simp: bset_insert_def set_insort_key)

lemma bset_inv_Nil [simp, inv_intros]: "bset_inv []"
  by (simp add: bset_inv_def)

lemma bset_inv_insert [simp, inv_intros]: "bset_inv xs \<Longrightarrow> bset_inv (bset_insert x xs)"
  by (simp add: bset_inv_def bset_insert_def sorted_insort distinct_insort)

lemma bset_eqI: "bset_inv xs \<Longrightarrow> bset_inv ys \<Longrightarrow> set xs = set ys \<Longrightarrow> xs = ys"
  by (auto simp: bset_inv_def intro: sorted_distinct_set_unique)

definition bset_of :: "'a::linorder list \<Rightarrow> 'a list" where
  "bset_of xs = fold bset_insert xs []"

lemma bset_fold_insert:
  "bset_inv ys \<Longrightarrow> bset_inv (fold bset_insert xs ys) \<and> set (fold bset_insert xs ys) = set xs \<union> set ys"
  by (induction xs arbitrary: ys) auto

lemma bset_inv_of [simp, inv_intros]: "bset_inv (bset_of xs)"
  by (simp add: bset_of_def bset_fold_insert)

lemma set_bset_of [simp]: "set (bset_of xs) = set xs"
  by (simp add: bset_of_def bset_fold_insert)

section \<open>Maps of sets\<close>

text \<open>
  \<open>members m k\<close> is the set a \<open>HashMap<K, HashSet<V>>\<close> holds under a key, empty by default: what
  \<open>entry(k).or_default()\<close> gives the code to insert into.
\<close>

definition members :: "('k \<rightharpoonup> 'a set) \<Rightarrow> 'k \<Rightarrow> 'a set" where
  "members m k = (case m k of None \<Rightarrow> {} | Some S \<Rightarrow> S)"

lemma members_simps:
  "m k = None \<Longrightarrow> members m k = {}"
  "m k = Some S \<Longrightarrow> members m k = S"
  by (simp_all add: members_def)

lemma members_upd [simp]:
  "members (m(k \<mapsto> S)) j = (if j = k then S else members m j)"
  "members (m(k := None)) j = (if j = k then {} else members m j)"
  by (simp_all add: members_def)

definition no_empty :: "('k \<rightharpoonup> 'a set) \<Rightarrow> bool" where
  "no_empty m \<longleftrightarrow> (\<forall>k. m k \<noteq> Some {})"

lemma no_empty_upd [simp, inv_intros]:
  "no_empty m \<Longrightarrow> S \<noteq> {} \<Longrightarrow> no_empty (m(k \<mapsto> S))"
  "no_empty m \<Longrightarrow> no_empty (m(k := None))"
  by (simp_all add: no_empty_def)

lemma no_empty_empty [simp, inv_intros]: "no_empty Map.empty"
  by (simp add: no_empty_def)

section \<open>Linear orders through an injective key\<close>

text \<open>
  The derived \<open>Ord\<close> of a Rust enum compares the variant first and then the fields from left
  to right. Each such order is stated through a key into a lexicographically ordered type;
  the class laws follow from the injectivity of the key.
\<close>

lemma key_order_less:
  fixes key :: "'a \<Rightarrow> 'k::linorder"
  assumes "inj key"
  shows "(key x \<le> key y \<and> x \<noteq> y) = (key x < key y)"
  using assms by (auto simp: order.strict_iff_order inj_eq)

section \<open>Byte strings\<close>

lemma sint_rowid: "- (2 ^ 63) \<le> i \<Longrightarrow> i \<le> 2 ^ 63 - 1 \<Longrightarrow> sint (of_int i :: 64 word) = i"
  by (simp add: sint_sbintrunc' signed_take_bit_int_eq_self_iff)

definition le_bytes64 :: "u64 \<Rightarrow> string" where
  "le_bytes64 w = map (\<lambda>i. char_of (unat (drop_bit (8 * i) w) mod 256)) [0..<8]"

lemma length_le_bytes64 [simp]: "length (le_bytes64 w) = 8"
  by (simp add: le_bytes64_def)

definition strip_prefix :: "string \<Rightarrow> string \<Rightarrow> string option" where
  "strip_prefix p s = (if take (length p) s = p then Some (drop (length p) s) else None)"

lemma strip_prefix_Some [simp]: "strip_prefix p s = Some r \<longleftrightarrow> s = p @ r"
proof
  assume "strip_prefix p s = Some r"
  then have "take (length p) s = p" and "drop (length p) s = r"
    by (simp_all add: strip_prefix_def split: if_splits)
  then show "s = p @ r" by (metis append_take_drop_id)
qed (simp add: strip_prefix_def)

lemma strip_prefix_append [simp]: "strip_prefix p (p @ s) = Some s"
  by simp

definition starts_with :: "string \<Rightarrow> string \<Rightarrow> bool" where
  "starts_with s p \<longleftrightarrow> strip_prefix p s \<noteq> None"

lemma starts_with_append [simp]: "starts_with (p @ s) p"
  by (simp add: starts_with_def)

text \<open>\<open>str::replace\<close> with a non-empty pattern, and the decimal syntax of signed integers.\<close>

function replace_all :: "string \<Rightarrow> string \<Rightarrow> string \<Rightarrow> string" where
  "replace_all p r s =
     (if s = [] then []
      else if p \<noteq> [] \<and> take (length p) s = p then r @ replace_all p r (drop (length p) s)
      else hd s # replace_all p r (tl s))"
  by pat_completeness auto

termination
  by (relation "measure (\<lambda>(p, r, s). length s)") auto

declare replace_all.simps [simp del]

definition is_digit :: "char \<Rightarrow> bool" where
  "is_digit c \<longleftrightarrow> 48 \<le> (of_char c :: nat) \<and> (of_char c :: nat) \<le> 57"

definition digit_value :: "char \<Rightarrow> nat" where
  "digit_value c = of_char c - 48"

definition digits_value :: "string \<Rightarrow> nat" where
  "digits_value s = foldl (\<lambda>n c. 10 * n + digit_value c) 0 s"

definition parse_nat :: "string \<Rightarrow> nat option" where
  "parse_nat s = (if s \<noteq> [] \<and> list_all is_digit s then Some (digits_value s) else None)"

definition parse_int :: "int \<Rightarrow> int \<Rightarrow> string \<Rightarrow> int option" where
  "parse_int lo hi s =
     (let n = (case s of
          CHR ''-'' # t \<Rightarrow> map_option (\<lambda>n. - int n) (parse_nat t)
        | CHR ''+'' # t \<Rightarrow> map_option int (parse_nat t)
        | _ \<Rightarrow> map_option int (parse_nat s))
      in case n of None \<Rightarrow> None | Some i \<Rightarrow> if lo \<le> i \<and> i \<le> hi then Some i else None)"

abbreviation parse_i64 :: "string \<Rightarrow> int option" where
  "parse_i64 \<equiv> parse_int (- (2 ^ 63)) (2 ^ 63 - 1)"

fun show_nat :: "nat \<Rightarrow> string" where
  "show_nat n = (if n < 10 then [char_of (48 + n)] else show_nat (n div 10) @ [char_of (48 + n mod 10)])"

declare show_nat.simps [simp del]

definition show_int :: "int \<Rightarrow> string" where
  "show_int i = (if i < 0 then CHR ''-'' # show_nat (nat (- i)) else show_nat (nat i))"

lemma digit_char [simp]: "n < 10 \<Longrightarrow> is_digit (char_of (48 + n))" "n < 10 \<Longrightarrow> digit_value (char_of (48 + n)) = n"
  by (simp_all add: is_digit_def digit_value_def)

lemma digits_value_snoc: "digits_value (s @ [c]) = 10 * digits_value s + digit_value c"
  by (simp add: digits_value_def)

lemma show_nat_digits: "show_nat n \<noteq> [] \<and> list_all is_digit (show_nat n) \<and> digits_value (show_nat n) = n"
proof (induction n rule: show_nat.induct)
  case (1 n)
  show ?case
  proof (cases "n < 10")
    case True
    then show ?thesis by (subst (1 2 3) show_nat.simps) (simp add: digits_value_def)
  next
    case False
    with 1 show ?thesis
      by (subst (1 2 3) show_nat.simps) (simp add: digits_value_snoc)
  qed
qed

lemma parse_show_nat [simp]: "parse_nat (show_nat n) = Some n"
  using show_nat_digits [of n] by (simp add: parse_nat_def)

lemma show_nat_hd: "show_nat n = c # t \<Longrightarrow> is_digit c"
  using show_nat_digits [of n] by simp

lemma parse_int_bounds: "parse_int lo hi s = Some i \<Longrightarrow> lo \<le> i \<and> i \<le> hi"
  by (auto simp: parse_int_def Let_def split: if_splits option.splits)

lemma parse_show_int: "lo \<le> i \<Longrightarrow> i \<le> hi \<Longrightarrow> parse_int lo hi (show_int i) = Some i"
proof -
  assume b: "lo \<le> i" "i \<le> hi"
  show ?thesis
  proof (cases "i < 0")
    case True
    with b show ?thesis by (simp add: parse_int_def show_int_def)
  next
    case False
    obtain c t where ct: "show_nat (nat i) = c # t" using show_nat_digits [of "nat i"] by (cases "show_nat (nat i)") auto
    then have d: "is_digit c" by (rule show_nat_hd)
    then have "c \<noteq> CHR ''-''" "c \<noteq> CHR ''+''" by (auto simp: is_digit_def)
    then have "(case show_nat (nat i) of
          CHR ''-'' # t \<Rightarrow> map_option (\<lambda>n. - int n) (parse_nat t)
        | CHR ''+'' # t \<Rightarrow> map_option int (parse_nat t)
        | _ \<Rightarrow> map_option int (parse_nat (show_nat (nat i)))) = map_option int (parse_nat (show_nat (nat i)))"
      unfolding ct by (auto split: char.splits bool.splits)
    with False b show ?thesis by (simp add: parse_int_def show_int_def)
  qed
qed

text \<open>\<open>str::split_once\<close> with a pattern that is not empty.\<close>

fun split_once :: "string \<Rightarrow> string \<Rightarrow> (string \<times> string) option" where
  "split_once p [] = None"
| "split_once p (c # s) = (case strip_prefix p (c # s) of
     Some r \<Rightarrow> Some ([], r)
   | None \<Rightarrow> map_option (\<lambda>(a, b). (c # a, b)) (split_once p s))"

lemma split_once_char: "c \<notin> set a \<Longrightarrow> split_once [c] (a @ c # b) = Some (a, b)"
  by (induction a) (auto simp: strip_prefix_def)

lemma split_once_none: "c \<notin> set a \<Longrightarrow> split_once [c] a = None"
  by (induction a) (auto simp: strip_prefix_def)

text \<open>\<open>str::split\<close> at a character.\<close>

fun split_at :: "char \<Rightarrow> string \<Rightarrow> string list" where
  "split_at d [] = [[]]"
| "split_at d (c # s) =
     (if c = d then [] # split_at d s else case split_at d s of [] \<Rightarrow> [[c]] | w # ws \<Rightarrow> (c # w) # ws)"

section \<open>Lines\<close>

text \<open>
  \<open>str::lines\<close> splits at line feeds and drops a carriage return before one;
  \<open>str::split_once\<close> with a line feed.
\<close>

abbreviation nl :: char where
  "nl \<equiv> CHR 0x0A"

definition strip_cr :: "string \<Rightarrow> string" where
  "strip_cr s = (if s \<noteq> [] \<and> last s = CHR 0x0D then butlast s else s)"

fun lines_from :: "string \<Rightarrow> string \<Rightarrow> string list" where
  "lines_from acc [] = (if acc = [] then [] else [acc])"
| "lines_from acc (c # s) = (if c = nl then strip_cr acc # lines_from [] s else lines_from (acc @ [c]) s)"

definition text_lines :: "string \<Rightarrow> string list" where
  "text_lines s = lines_from [] s"

fun split_once_nl :: "string \<Rightarrow> (string \<times> string) option" where
  "split_once_nl [] = None"
| "split_once_nl (c # s) =
     (if c = nl then Some ([], s) else map_option (\<lambda>(a, b). (c # a, b)) (split_once_nl s))"

lemma lines_from_append: "nl \<notin> set h \<Longrightarrow> lines_from acc (h @ s) = lines_from (acc @ h) s"
  by (induction h arbitrary: acc) auto

lemma text_lines_cons: "nl \<notin> set h \<Longrightarrow> text_lines (h @ nl # s) = strip_cr h # text_lines s"
  by (simp add: text_lines_def lines_from_append)

lemma split_once_nl_append: "nl \<notin> set h \<Longrightarrow> split_once_nl (h @ nl # s) = Some (h, s)"
  by (induction h) auto

lemma split_once_nl_SomeD: "split_once_nl s = Some (a, b) \<Longrightarrow> s = a @ nl # b \<and> nl \<notin> set a"
  by (induction s arbitrary: a) (auto split: if_splits)

section \<open>White space\<close>

text \<open>
  \<open>str::trim\<close> removes the characters with the Unicode property \<open>White_Space\<close>;
  \<open>space_len\<close> is the length in bytes of such a character at the head of a text.
\<close>

abbreviation byte :: "char \<Rightarrow> nat" where
  "byte c \<equiv> of_char c"

definition space_len :: "string \<Rightarrow> nat" where
  "space_len s = (case map byte (take 3 s) of
      [] \<Rightarrow> 0
    | b # bs \<Rightarrow>
        (if 9 \<le> b \<and> b \<le> 13 \<or> b = 32 then 1
         else case bs of
             [] \<Rightarrow> 0
           | b2 # bs2 \<Rightarrow>
               (if b = 194 \<and> (b2 = 133 \<or> b2 = 160) then 2
                else case bs2 of
                    [] \<Rightarrow> 0
                  | b3 # _ \<Rightarrow>
                      (if b = 225 \<and> b2 = 154 \<and> b3 = 128
                        \<or> b = 226 \<and> b2 = 128 \<and> (128 \<le> b3 \<and> b3 \<le> 138 \<or> b3 \<in> {168, 169, 175})
                        \<or> b = 226 \<and> b2 = 129 \<and> b3 = 159
                        \<or> b = 227 \<and> b2 = 128 \<and> b3 = 128
                       then 3 else 0))))"

function trim_start :: "string \<Rightarrow> string" where
  "trim_start s = (if s = [] \<or> space_len s = 0 then s else trim_start (drop (space_len s) s))"
  by pat_completeness auto

termination
  by (relation "measure length") auto

declare trim_start.simps [simp del]

text \<open>The length of a white-space character at the end.\<close>

definition space_len_end :: "string \<Rightarrow> nat" where
  "space_len_end s =
     (if s \<noteq> [] \<and> space_len (drop (length s - 1) s) = 1 then 1
      else if 2 \<le> length s \<and> space_len (drop (length s - 2) s) = 2 then 2
      else if 3 \<le> length s \<and> space_len (drop (length s - 3) s) = 3 then 3
      else 0)"

lemma space_len_end_le: "space_len_end s \<le> length s"
  by (auto simp: space_len_end_def Suc_le_eq)

lemma trim_end_less: "space_len_end s \<noteq> 0 \<Longrightarrow> length s - space_len_end s < length s"
  using space_len_end_le [of s] by linarith

function trim_end :: "string \<Rightarrow> string" where
  "trim_end s = (if space_len_end s = 0 then s else trim_end (take (length s - space_len_end s) s))"
  by pat_completeness auto

termination
  by (relation "measure length") (use trim_end_less in auto)

declare trim_end.simps [simp del]

definition trim :: "string \<Rightarrow> string" where
  "trim s = trim_end (trim_start s)"

definition is_blank :: "string \<Rightarrow> bool" where
  "is_blank s \<longleftrightarrow> trim s = []"

section \<open>Searching\<close>

text \<open>\<open>str::contains\<close>.\<close>

fun contains :: "string \<Rightarrow> string \<Rightarrow> bool" where
  "contains p [] \<longleftrightarrow> p = []"
| "contains p (c # s) \<longleftrightarrow> take (length p) (c # s) = p \<or> contains p s"

section \<open>ASCII case, joining and paths\<close>

definition ascii_lower :: "char \<Rightarrow> char" where
  "ascii_lower c = (if 65 \<le> byte c \<and> byte c \<le> 90 then char_of (byte c + 32) else c)"

definition eq_ignore_ascii_case :: "string \<Rightarrow> string \<Rightarrow> bool" where
  "eq_ignore_ascii_case s t \<longleftrightarrow> map ascii_lower s = map ascii_lower t"

definition is_alnum :: "char \<Rightarrow> bool" where
  "is_alnum c \<longleftrightarrow> is_digit c \<or> 65 \<le> byte c \<and> byte c \<le> 90 \<or> 97 \<le> byte c \<and> byte c \<le> 122"

fun join_with :: "string \<Rightarrow> string list \<Rightarrow> string" where
  "join_with sep [] = []"
| "join_with sep [s] = s"
| "join_with sep (s # t # ss) = s @ sep @ join_with sep (t # ss)"

text \<open>The last component of a path, as \<open>Path::file_name\<close> gives it.\<close>

abbreviation split_slash :: "string \<Rightarrow> string list" where
  "split_slash \<equiv> split_at (CHR ''/'')"

definition file_name :: "string \<Rightarrow> string option" where
  "file_name p =
     (let parts = filter (\<lambda>w. w \<noteq> [] \<and> w \<noteq> ''.'') (split_slash p) in
      if parts = [] \<or> last parts = ''..'' then None else Some (last parts))"

section \<open>Association lists\<close>

lemma find_SomeD: "List.find P xs = Some x \<Longrightarrow> x \<in> set xs \<and> P x"
  by (induction xs) (auto split: if_splits)

lemma map_of_pairs: "map_of (List.map_filter (\<lambda>k. map_option (Pair k) (f k)) ks) = f |` set ks"
proof
  fix k
  show "map_of (List.map_filter (\<lambda>k. map_option (Pair k) (f k)) ks) k = (f |` set ks) k"
    by (induction ks) (auto simp: List.map_filter_simps restrict_map_def split: option.split)
qed

section \<open>Ordered maps as association lists\<close>

text \<open>A \<open>BTreeMap\<close> is the list of its entries by increasing key.\<close>

type_synonym ('k, 'v) bmap = "('k \<times> 'v) list"

fun bmap_insert :: "'k::linorder \<Rightarrow> 'v \<Rightarrow> ('k, 'v) bmap \<Rightarrow> ('k, 'v) bmap" where
  "bmap_insert k v [] = [(k, v)]"
| "bmap_insert k v ((j, w) # m) =
     (if k < j then (k, v) # (j, w) # m else if k = j then (k, v) # m else (j, w) # bmap_insert k v m)"

lemma map_of_bmap_insert [simp]: "map_of (bmap_insert k v m) = (map_of m)(k \<mapsto> v)"
  by (induction k v m rule: bmap_insert.induct) auto

definition bmap_ok :: "('k::linorder, 'v) bmap \<Rightarrow> bool" where
  "bmap_ok m \<longleftrightarrow> sorted_wrt (<) (map fst m)"

lemma keys_bmap_insert [simp]: "fst ` set (bmap_insert k v m) = insert k (fst ` set m)"
  by (induction k v m rule: bmap_insert.induct) auto

lemma bmap_ok_insert [simp, inv_intros]: "bmap_ok m \<Longrightarrow> bmap_ok (bmap_insert k v m)"
proof (induction k v m rule: bmap_insert.induct)
  case (2 k v j w m)
  moreover have "fst ` set (bmap_insert k v m) = insert k (fst ` set m)" by simp
  ultimately show ?case
    by (auto simp: bmap_ok_def)
qed (simp add: bmap_ok_def)

lemma bmap_ok_Nil [simp, inv_intros]: "bmap_ok []"
  by (simp add: bmap_ok_def)

lemma bmap_eqI:
  assumes "bmap_ok m" "bmap_ok n" "map_of m = map_of n"
  shows "m = n"
  using assms
proof -
  have ok: "distinct (map fst m)" "distinct (map fst n)" "sorted (map fst m)" "sorted (map fst n)"
    using assms(1,2) by (simp_all add: bmap_ok_def strict_sorted_iff)
  then have "set m = set n"
    using assms(3) map_of_inject_set by blast
  moreover have "inj_on fst (set m)" using ok(1) by (simp add: distinct_map)
  ultimately show ?thesis
    using ok by (intro map_sorted_distinct_set_unique [of fst]) simp_all
qed

end
