(* ===== verification/Command_Text.thy ===== *)
theory Command_Text
  imports Prelude
begin

text \<open>
  The text of Exo commands: quoting (\<open>tools/exo/src/cli_quote.rs\<close>), the tokenizer with its
  placeholders, global format and help detection (\<open>command_text.rs\<close>) and the typed command
  references rendered into such text (\<open>command_reference.rs\<close>). Every character the code treats
  specially is ASCII, so it is a byte of the UTF-8 text. Compiling tokens against the command
  specification is a parameter.
\<close>

section \<open>Characters\<close>

abbreviation quote1 :: char where "quote1 \<equiv> CHR 0x27"
abbreviation quote2 :: char where "quote2 \<equiv> CHR 0x22"
abbreviation backslash :: char where "backslash \<equiv> CHR 0x5C"
abbreviation backtick :: char where "backtick \<equiv> CHR 0x60"

definition is_ascii_alphabetic :: "char \<Rightarrow> bool" where
  "is_ascii_alphabetic c \<longleftrightarrow> 65 \<le> byte c \<and> byte c \<le> 90 \<or> 97 \<le> byte c \<and> byte c \<le> 122"

definition is_ascii_alphanumeric :: "char \<Rightarrow> bool" where
  "is_ascii_alphanumeric c \<longleftrightarrow> is_ascii_alphabetic c \<or> is_digit c"

definition ends_with :: "string \<Rightarrow> string \<Rightarrow> bool" where
  "ends_with s p \<longleftrightarrow> starts_with (rev s) (rev p)"

definition in_quotes :: "string \<Rightarrow> string" where
  "in_quotes s = quote1 # s @ [quote1]"

section \<open>Quoting\<close>

definition shell_plain :: "char \<Rightarrow> bool" where
  "shell_plain c \<longleftrightarrow> is_ascii_alphanumeric c \<or> c \<in> {CHR ''/'', CHR ''.'', CHR ''_'', CHR ''-''}"

definition shell_quote_arg :: "string \<Rightarrow> string" where
  "shell_quote_arg raw =
     (if list_all shell_plain raw then raw
      else in_quotes (replace_all [quote1] [quote1, backslash, quote1, quote1] raw))"

section \<open>The tokenizer\<close>

datatype quote_state = Unquoted | Single | Double

definition push_current_token :: "string list \<Rightarrow> string \<Rightarrow> string list" where
  "push_current_token tokens cur = (if cur \<noteq> [] then tokens @ [cur] else tokens)"

text \<open>The operators the tokenizer refuses outside quotes; \<open>rest\<close> gives the lookahead.\<close>

definition operator_error :: "char \<Rightarrow> string \<Rightarrow> string option" where
  "operator_error c rest =
     (if c \<in> {CHR ''|'', CHR '';'', CHR ''<'', CHR ''>''} then Some (''Unsupported shell operator token '' @ in_quotes [c])
      else if c = CHR ''&'' then
        Some (''Unsupported shell operator token '' @ in_quotes (if take 1 rest = ''&'' then ''&&'' else ''&''))
      else if c = CHR ''$'' \<and> take 1 rest = ''('' then Some (''Unsupported shell substitution '' @ in_quotes ''$('')
      else if c = backtick then Some (''Unsupported shell substitution '' @ in_quotes [backtick])
      else if c \<in> {CHR ''*'', CHR ''?''} then Some (''Unsupported shell glob token '' @ in_quotes [c])
      else None)"

definition substitution_error :: "char \<Rightarrow> string \<Rightarrow> string option" where
  "substitution_error c rest =
     (if c = CHR ''$'' \<and> take 1 rest = ''('' then Some (''Unsupported shell substitution '' @ in_quotes ''$('')
      else if c = backtick then Some (''Unsupported shell substitution '' @ in_quotes [backtick])
      else None)"

definition double_escape :: "char \<Rightarrow> string" where
  "double_escape c =
     (if c = CHR ''n'' then [nl] else if c = CHR ''t'' then [CHR 0x09]
      else if c = backslash then [backslash] else if c = quote2 then [quote2] else [backslash, c])"

fun scan_tokens :: "quote_state \<Rightarrow> string list \<Rightarrow> string \<Rightarrow> string \<Rightarrow> string + string list" where
  "scan_tokens q tokens cur [] =
     (if q = Unquoted then Inr (push_current_token tokens cur) else Inl ''Unterminated quoted string'')"
| "scan_tokens Unquoted tokens cur (c # s) =
     (if c = quote1 then scan_tokens Single tokens cur s
      else if c = quote2 then scan_tokens Double tokens cur s
      else if c = CHR '' '' \<or> c = CHR 0x09 then scan_tokens Unquoted (push_current_token tokens cur) [] s
      else case operator_error c s of
          Some e \<Rightarrow> Inl e
        | None \<Rightarrow> scan_tokens Unquoted tokens (cur @ [c]) s)"
| "scan_tokens Single tokens cur (c # s) =
     (if c = quote1 then scan_tokens Unquoted tokens cur s else scan_tokens Single tokens (cur @ [c]) s)"
| "scan_tokens Double tokens cur (c # s) =
     (if c = quote2 then scan_tokens Unquoted tokens cur s
      else if c = backslash then
        (case s of
           [] \<Rightarrow> scan_tokens Double tokens (cur @ [backslash]) []
         | n # s' \<Rightarrow> scan_tokens Double tokens (cur @ double_escape n) s')
      else case substitution_error c s of
          Some e \<Rightarrow> Inl e
        | None \<Rightarrow> scan_tokens Double tokens (cur @ [c]) s)"

definition looks_like_env_assignment :: "string \<Rightarrow> bool" where
  "looks_like_env_assignment token \<longleftrightarrow> CHR ''='' \<in> set token \<and>
     (case takeWhile (\<lambda>c. c \<noteq> CHR ''='') token of
        [] \<Rightarrow> False
      | c # cs \<Rightarrow> (c = CHR ''_'' \<or> is_ascii_alphabetic c) \<and> list_all (\<lambda>c. c = CHR ''_'' \<or> is_ascii_alphanumeric c) cs)"

definition reject_env_assignment_prefix :: "string list \<Rightarrow> string + unit" where
  "reject_env_assignment_prefix tokens =
     (case tokens of
        [] \<Rightarrow> Inr ()
      | t # _ \<Rightarrow>
          (if looks_like_env_assignment t then Inl (''Unsupported environment assignment prefix '' @ in_quotes t)
           else Inr ()))"

definition substitute_placeholder :: "string list \<Rightarrow> string \<Rightarrow> string + string" where
  "substitute_placeholder argv token =
     (case strip_prefix ''$'' token of
        None \<Rightarrow> Inr token
      | Some rest \<Rightarrow>
          (case parse_nat rest of
             None \<Rightarrow> Inr token
           | Some i \<Rightarrow>
               (if 2 ^ 64 \<le> i then Inl (''Invalid placeholder '' @ in_quotes token)
                else if i = 0 then Inl ''Placeholder $0 is invalid (placeholders are 1-indexed)''
                else if length argv < i then Inl (''Placeholder $'' @ show_nat i @ '' has no corresponding arg'')
                else Inr (argv ! (i - 1)))))"

fun substitute_placeholders :: "string list \<Rightarrow> string list \<Rightarrow> string + string list" where
  "substitute_placeholders argv [] = Inr []"
| "substitute_placeholders argv (t # ts) =
     and_then (substitute_placeholder argv t) (\<lambda>u.
       and_then (substitute_placeholders argv ts) (\<lambda>us. Inr (u # us)))"

definition tokenize_command :: "string \<Rightarrow> string list \<Rightarrow> string + string list" where
  "tokenize_command command argv =
     and_then (scan_tokens Unquoted [] [] command) (\<lambda>tokens.
       and_then (reject_env_assignment_prefix tokens) (\<lambda>_. substitute_placeholders argv tokens))"

section \<open>Global format and help\<close>

fun tokens_request_json_output :: "string list \<Rightarrow> bool" where
  "tokens_request_json_output [] = False"
| "tokens_request_json_output (t # ts) =
     (t = ''--format'' \<and> (case ts of [] \<Rightarrow> False | v # _ \<Rightarrow> eq_ignore_ascii_case v ''json'')
      \<or> (case strip_prefix ''--format='' t of None \<Rightarrow> False | Some v \<Rightarrow> eq_ignore_ascii_case v ''json'')
      \<or> tokens_request_json_output ts)"

fun tokens_without_global_format :: "string list \<Rightarrow> string list" where
  "tokens_without_global_format [] = []"
| "tokens_without_global_format (t # ts) =
     (if t = ''--format'' \<and> ts \<noteq> [] then tokens_without_global_format (tl ts)
      else if starts_with t ''--format='' then tokens_without_global_format ts
      else t # tokens_without_global_format ts)"

definition route_target_tokens :: "string list \<Rightarrow> string list" where
  "route_target_tokens tokens = takeWhile (\<lambda>t. \<not> starts_with t ''-'') tokens"

definition is_help_flag :: "string \<Rightarrow> bool" where
  "is_help_flag t \<longleftrightarrow> t = ''--help'' \<or> t = ''-h''"

definition explicit_help_target :: "string list \<Rightarrow> string list option" where
  "explicit_help_target all_tokens =
     (let tokens = tokens_without_global_format all_tokens in
      if tokens = [] then None
      else if hd tokens = ''help'' then Some (route_target_tokens (tl tokens))
      else if list_ex is_help_flag tokens then Some (route_target_tokens (takeWhile (\<lambda>t. \<not> is_help_flag t) tokens))
      else if last tokens = ''help'' then Some (route_target_tokens (butlast tokens))
      else None)"

datatype command_text_intent = Call | Help "string list"

record parsed_command_text =
  tokens :: "string list"
  intent :: command_text_intent

definition parse_argv_tokens :: "string list \<Rightarrow> parsed_command_text" where
  "parse_argv_tokens ts =
     \<lparr>tokens = ts, intent = (case explicit_help_target ts of None \<Rightarrow> Call | Some target \<Rightarrow> Help target)\<rparr>"

definition parse_argv :: "string list \<Rightarrow> parsed_command_text" where
  "parse_argv argv = parse_argv_tokens argv"

definition parse_command_text :: "string \<Rightarrow> string list \<Rightarrow> string + parsed_command_text" where
  "parse_command_text command argv = and_then (tokenize_command command argv) (\<lambda>ts. Inr (parse_argv_tokens ts))"

definition help_target :: "parsed_command_text \<Rightarrow> string list option" where
  "help_target p = (case intent p of Help target \<Rightarrow> Some target | Call \<Rightarrow> None)"

section \<open>Command references\<close>

datatype command_reference_value = Literal string | Placeholder (placeholder_label: string) (placeholder_sample: string)

datatype command_reference_arg =
    Positional command_reference_value
  | Flag string
  | Option string command_reference_value

record exo_command_reference =
  ref_path :: "string list"
  ref_args :: "command_reference_arg list"

definition command_new :: "string list \<Rightarrow> exo_command_reference" where
  "command_new p = \<lparr>ref_path = p, ref_args = []\<rparr>"

definition add_arg :: "command_reference_arg \<Rightarrow> exo_command_reference \<Rightarrow> exo_command_reference" where
  "add_arg a r = r\<lparr>ref_args := ref_args r @ [a]\<rparr>"

definition positional :: "string \<Rightarrow> exo_command_reference \<Rightarrow> exo_command_reference" where
  "positional v = add_arg (Positional (Literal v))"

definition positional_placeholder :: "string \<Rightarrow> string \<Rightarrow> exo_command_reference \<Rightarrow> exo_command_reference" where
  "positional_placeholder label sample = add_arg (Positional (Placeholder label sample))"

definition flag :: "string \<Rightarrow> exo_command_reference \<Rightarrow> exo_command_reference" where
  "flag name = add_arg (Flag name)"

definition option_value :: "string \<Rightarrow> string \<Rightarrow> exo_command_reference \<Rightarrow> exo_command_reference" where
  "option_value name v = add_arg (Option name (Literal v))"

definition option_placeholder :: "string \<Rightarrow> string \<Rightarrow> string \<Rightarrow> exo_command_reference \<Rightarrow> exo_command_reference" where
  "option_placeholder name label sample = add_arg (Option name (Placeholder label sample))"

definition flag_token :: "string \<Rightarrow> string" where
  "flag_token name = (if starts_with name ''-'' then name else ''--'' @ name)"

definition is_rendered_placeholder :: "string \<Rightarrow> bool" where
  "is_rendered_placeholder token \<longleftrightarrow>
     starts_with token ''<'' \<and> ends_with token ''>''
   \<or> (case strip_prefix ''$'' token of None \<Rightarrow> False | Some rest \<Rightarrow> rest \<noteq> [] \<and> list_all is_digit rest)"

definition join_command_tokens :: "string list \<Rightarrow> string" where
  "join_command_tokens ts =
     join_with '' '' (map (\<lambda>t. if is_rendered_placeholder t then t else shell_quote_arg t) ts)"

fun sample_text :: "command_reference_value \<Rightarrow> string" where
  "sample_text (Literal v) = v"
| "sample_text (Placeholder label sample) = sample"

fun render_value :: "command_reference_value \<Rightarrow> string" where
  "render_value (Literal v) = v"
| "render_value (Placeholder label sample) = ''<'' @ label @ ''>''"

fun render_value_exo_run :: "command_reference_value \<Rightarrow> string list \<Rightarrow> string list \<times> string" where
  "render_value_exo_run (Literal v) argv = (argv, v)"
| "render_value_exo_run (Placeholder label sample) argv = (argv @ [sample], ''$'' @ show_nat (length argv + 1))"

fun arg_tokens :: "(command_reference_value \<Rightarrow> string) \<Rightarrow> command_reference_arg \<Rightarrow> string list" where
  "arg_tokens f (Positional v) = [f v]"
| "arg_tokens f (Flag name) = [flag_token name]"
| "arg_tokens f (Option name v) = [flag_token name, f v]"

definition validation_tokens :: "exo_command_reference \<Rightarrow> string list" where
  "validation_tokens r = ref_path r @ concat (map (arg_tokens sample_text) (ref_args r))"

definition render_tokens :: "exo_command_reference \<Rightarrow> string list" where
  "render_tokens r = ref_path r @ concat (map (arg_tokens render_value) (ref_args r))"

fun exo_run_arg_tokens :: "command_reference_arg list \<Rightarrow> string list \<Rightarrow> string list \<times> string list" where
  "exo_run_arg_tokens [] argv = (argv, [])"
| "exo_run_arg_tokens (Positional v # rest) argv =
     (case render_value_exo_run v argv of (argv1, t) \<Rightarrow>
        (case exo_run_arg_tokens rest argv1 of (argv2, ts) \<Rightarrow> (argv2, t # ts)))"
| "exo_run_arg_tokens (Flag name # rest) argv =
     (case exo_run_arg_tokens rest argv of (argv1, ts) \<Rightarrow> (argv1, flag_token name # ts))"
| "exo_run_arg_tokens (Option name v # rest) argv =
     (case render_value_exo_run v argv of (argv1, t) \<Rightarrow>
        (case exo_run_arg_tokens rest argv1 of (argv2, ts) \<Rightarrow> (argv2, flag_token name # t # ts)))"

definition render_exo_run_tokens :: "exo_command_reference \<Rightarrow> string list \<times> string list" where
  "render_exo_run_tokens r = (case exo_run_arg_tokens (ref_args r) [] of (argv, ts) \<Rightarrow> (argv, ref_path r @ ts))"

definition render_cli :: "exo_command_reference \<Rightarrow> string" where
  "render_cli r = join_command_tokens (''exo'' # render_tokens r)"

definition render_exo_run :: "exo_command_reference \<Rightarrow> string \<times> string list" where
  "render_exo_run r = (case render_exo_run_tokens r of (argv, ts) \<Rightarrow> (join_command_tokens ts, argv))"

record command_reference_error =
  failed_command :: string
  diagnostics :: "string list"

text \<open>\<open>compile\<close> stands for \<open>compile_argv_v2\<close> on a specification: an invocation, or diagnostics.\<close>

definition validate_reference ::
  "(string list \<Rightarrow> 'i option \<times> string list) \<Rightarrow> exo_command_reference \<Rightarrow> command_reference_error + 'i" where
  "validate_reference compile r =
     (case compile (validation_tokens r) of
        (Some invocation, _) \<Rightarrow> Inr invocation
      | (None, ds) \<Rightarrow> Inl \<lparr>failed_command = render_cli r, diagnostics = ds\<rparr>)"

definition display_reference_error :: "command_reference_error \<Rightarrow> string" where
  "display_reference_error e =
     ''Command reference did not compile: '' @ failed_command e
     @ (if diagnostics e = [] then [] else '' ('' @ join_with ''; '' (diagnostics e) @ '')'')"

end
