(* ===== verification/Command_Text_Facts.thy ===== *)
theory Command_Text_Facts
  imports Command_Text
begin

text \<open>
  Rendering and parsing command text agree: the tokens a rendered reference parses to are the
  tokens its validation compiled, for every text outside the stated exceptions; the exceptions
  are real. Stripping the global format is idempotent, so help is found with and without it.
\<close>

section \<open>Rendered tokens scan back\<close>

text \<open>A literal that survives: not empty, no single quote, not in the form of a placeholder.\<close>

definition literal_ok :: "string \<Rightarrow> bool" where
  "literal_ok t \<longleftrightarrow> t \<noteq> [] \<and> quote1 \<notin> set t \<and> \<not> is_rendered_placeholder t"

definition placeholder_token :: "nat \<Rightarrow> string" where
  "placeholder_token k = CHR ''$'' # show_nat k"

lemma special_chars:
  "\<not> shell_plain quote1" "\<not> shell_plain quote2" "\<not> shell_plain (CHR '' '')" "\<not> shell_plain (CHR 0x09)"
  "\<not> shell_plain (CHR ''$'')" "\<not> shell_plain (CHR ''|'')" "\<not> shell_plain (CHR '';'')" "\<not> shell_plain (CHR ''<'')"
  "\<not> shell_plain (CHR ''>'')" "\<not> shell_plain (CHR ''&'')" "\<not> shell_plain backtick" "\<not> shell_plain (CHR ''*'')"
  "\<not> shell_plain (CHR ''?'')"
  by (simp_all add: shell_plain_def is_ascii_alphanumeric_def is_ascii_alphabetic_def is_digit_def)

lemma plain_char:
  assumes "shell_plain c"
  shows "c \<noteq> quote1" "c \<noteq> quote2" "c \<noteq> CHR '' ''" "c \<noteq> CHR 0x09" "c \<noteq> CHR ''$''" "operator_error c s = None"
proof -
  note ne = special_chars assms
  show "c \<noteq> quote1" "c \<noteq> quote2" "c \<noteq> CHR '' ''" "c \<noteq> CHR 0x09" and d: "c \<noteq> CHR ''$''" using ne by metis+
  have "c \<notin> {CHR ''|'', CHR '';'', CHR ''<'', CHR ''>''}" "c \<noteq> CHR ''&''" "c \<noteq> backtick" "c \<notin> {CHR ''*'', CHR ''?''}"
    using ne by (metis insertE emptyE)+
  with d show "operator_error c s = None" by (simp only: operator_error_def if_False simp_thms)
qed

lemma scan_plain:
  "list_all shell_plain t \<Longrightarrow> scan_tokens Unquoted ts cur (t @ s) = scan_tokens Unquoted ts (cur @ t) s"
  by (induction t arbitrary: cur) (simp_all add: plain_char)

lemma scan_single:
  "quote1 \<notin> set t \<Longrightarrow> scan_tokens Single ts cur (t @ quote1 # s) = scan_tokens Unquoted ts (cur @ t) s"
  by (induction t arbitrary: cur) auto

lemma replace_absent: "c \<notin> set s \<Longrightarrow> replace_all [c] r s = s"
proof (induction s)
  case (Cons a s)
  then show ?case by (subst replace_all.simps) auto
qed (simp add: replace_all.simps)

lemma digit_plain: "is_digit c \<Longrightarrow> shell_plain c"
  by (simp add: shell_plain_def is_ascii_alphanumeric_def)

lemma scan_placeholder:
  "scan_tokens Unquoted ts [] (placeholder_token k @ s) = scan_tokens Unquoted ts (placeholder_token k) s"
proof -
  have d: "list_all is_digit (show_nat k)" and ne: "show_nat k \<noteq> []" using show_nat_digits [of k] by auto
  then obtain c cs where c: "show_nat k = c # cs" "is_digit c" by (cases "show_nat k") auto
  then have "c \<noteq> CHR ''(''" by (auto simp: is_digit_def)
  with c have "operator_error (CHR ''$'') (show_nat k @ s) = None" by (simp add: operator_error_def)
  moreover have "list_all shell_plain (show_nat k)" using d by (simp add: list_all_iff digit_plain)
  ultimately show ?thesis by (simp add: placeholder_token_def scan_plain)
qed

lemma placeholder_rendered [simp]: "is_rendered_placeholder (placeholder_token k)"
  using show_nat_digits [of k]
  by (simp add: is_rendered_placeholder_def placeholder_token_def strip_prefix_def)

text \<open>How a token is written into a command.\<close>

definition written_token :: "string \<Rightarrow> string" where
  "written_token t = (if is_rendered_placeholder t then t else shell_quote_arg t)"

definition scannable :: "string \<Rightarrow> bool" where
  "scannable t \<longleftrightarrow> literal_ok t \<or> (\<exists>k. t = placeholder_token k)"

lemma scannable_nonempty: "scannable t \<Longrightarrow> t \<noteq> []"
  by (auto simp: scannable_def literal_ok_def placeholder_token_def)

lemma scan_written:
  assumes "scannable t"
  shows "scan_tokens Unquoted ts [] (written_token t @ s) = scan_tokens Unquoted ts t s"
  using assms unfolding scannable_def
proof
  assume "literal_ok t"
  then show ?thesis
    by (cases "list_all shell_plain t")
      (simp_all add: literal_ok_def written_token_def shell_quote_arg_def scan_plain replace_absent in_quotes_def scan_single)
next
  assume "\<exists>k. t = placeholder_token k"
  then show ?thesis by (auto simp: written_token_def scan_placeholder)
qed

lemma scan_joined:
  "list_all scannable us \<Longrightarrow>
   scan_tokens Unquoted ts [] (join_with '' '' (map written_token us)) = Inr (ts @ us)"
proof (induction us arbitrary: ts rule: induct_list012)
  case 1
  then show ?case by (simp add: push_current_token_def)
next
  case (2 u)
  then show ?case
    using scan_written [of u ts "[]"] scannable_nonempty [of u] by (simp add: push_current_token_def)
next
  case (3 u v us)
  then have "scan_tokens Unquoted ts [] (join_with '' '' (map written_token (u # v # us))) =
      scan_tokens Unquoted (ts @ [u]) [] (join_with '' '' (map written_token (v # us)))"
    using scan_written [of u ts "'' '' @ join_with '' '' (map written_token (v # us))"] scannable_nonempty [of u]
    by (simp add: push_current_token_def)
  with 3 show ?case by simp
qed

lemma join_command_tokens_eq: "join_command_tokens us = join_with '' '' (map written_token us)"
  by (simp add: join_command_tokens_def written_token_def [abs_def])

section \<open>Placeholders are filled in\<close>

lemma substitute_literal: "literal_ok t \<Longrightarrow> substitute_placeholder argv t = Inr t"
proof (cases "strip_prefix ''$'' t")
  case (Some rest)
  assume "literal_ok t"
  with Some have "parse_nat rest = None"
    by (auto simp: literal_ok_def is_rendered_placeholder_def parse_nat_def simp del: strip_prefix_Some)
  with Some show ?thesis by (simp add: substitute_placeholder_def del: strip_prefix_Some)
qed (simp add: substitute_placeholder_def)

lemma substitute_index:
  "0 < k \<Longrightarrow> k \<le> length argv \<Longrightarrow> k < 2 ^ 64 \<Longrightarrow> substitute_placeholder argv (placeholder_token k) = Inr (argv ! (k - 1))"
  by (simp add: substitute_placeholder_def placeholder_token_def strip_prefix_def)

text \<open>A token and what it stands for, given the arguments.\<close>

definition stands_for :: "string list \<Rightarrow> string \<Rightarrow> string \<Rightarrow> bool" where
  "stands_for argv t u \<longleftrightarrow> scannable t \<and> substitute_placeholder argv t = Inr u"

lemma stands_forI:
  "literal_ok t \<Longrightarrow> stands_for argv t t"
  "0 < k \<Longrightarrow> k \<le> length argv \<Longrightarrow> k < 2 ^ 64 \<Longrightarrow> stands_for argv (placeholder_token k) (argv ! (k - 1))"
  by (auto simp: stands_for_def scannable_def substitute_literal substitute_index)

lemma substitute_all: "list_all2 (stands_for argv) ts us \<Longrightarrow> substitute_placeholders argv ts = Inr us"
  by (induction rule: list_all2_induct) (simp_all add: stands_for_def)

lemma tokens_scannable: "list_all2 (stands_for argv) ts us \<Longrightarrow> list_all scannable ts"
  by (induction rule: list_all2_induct) (simp_all add: stands_for_def)

section \<open>References\<close>

fun value_ok :: "command_reference_value \<Rightarrow> bool" where
  "value_ok (Literal v) = literal_ok v"
| "value_ok (Placeholder label sample) = True"

fun arg_ok :: "command_reference_arg \<Rightarrow> bool" where
  "arg_ok (Positional v) = value_ok v"
| "arg_ok (Flag name) = literal_ok (flag_token name)"
| "arg_ok (Option name v) = (literal_ok (flag_token name) \<and> value_ok v)"

definition reference_ok :: "exo_command_reference \<Rightarrow> bool" where
  "reference_ok r \<longleftrightarrow> list_all literal_ok (ref_path r) \<and> list_all arg_ok (ref_args r)
     \<and> length (ref_args r) < 2 ^ 64 \<and> \<not> looks_like_env_assignment (hd (ref_path r)) \<and> ref_path r \<noteq> []"

lemma render_value_stands_for:
  assumes "value_ok v" and "render_value_exo_run v argv = (argv', t)" and "length argv' < 2 ^ 64"
  shows "\<exists>new. argv' = argv @ new \<and> length new \<le> 1 \<and> (\<forall>more. stands_for (argv' @ more) t (sample_text v))"
proof (cases v)
  case (Literal x)
  with assms stands_forI(1) show ?thesis by auto
next
  case (Placeholder label sample)
  with assms(2) have t: "argv' = argv @ [sample]" "t = placeholder_token (length argv + 1)"
    by (auto simp: placeholder_token_def)
  have "stands_for (argv' @ more) t ((argv' @ more) ! (length argv + 1 - 1))" for more
    unfolding t(2) by (rule stands_forI(2)) (use t(1) assms(3) in simp_all)
  with t(1) Placeholder show ?thesis by (simp add: nth_append)
qed

lemma stands_for_more_literal: "literal_ok t \<Longrightarrow> stands_for argv t t"
  by (rule stands_forI(1))

lemma exo_run_args_stand_for:
  assumes "list_all arg_ok args" and "exo_run_arg_tokens args argv = (argv', ts)"
    and "length argv + length args < 2 ^ 64"
  shows "\<exists>new. argv' = argv @ new \<and> length new \<le> length args
    \<and> list_all2 (stands_for argv') ts (concat (map (arg_tokens sample_text) args))"
  using assms
proof (induction args arbitrary: argv argv' ts)
  case Nil
  then show ?case by simp
next
  case (Cons a args)
  have step: "\<exists>new. argv' = argv @ new \<and> length new \<le> length (a # args)
      \<and> list_all2 (stands_for argv') (t # ts') (sample_text v # concat (map (arg_tokens sample_text) args))"
    if v: "value_ok v" and r: "render_value_exo_run v argv = (argv1, t)" and e: "exo_run_arg_tokens args argv1 = (argv', ts')"
    for v argv1 t ts'
  proof -
    have "length argv1 \<le> length argv + 1" using r by (cases v) auto
    then have b: "length argv1 < 2 ^ 64" "length argv1 + length args < 2 ^ 64" using Cons.prems(3) by simp_all
    from render_value_stands_for [OF v r b(1)] obtain new1 where
      n1: "argv1 = argv @ new1" "length new1 \<le> 1" "\<And>more. stands_for (argv1 @ more) t (sample_text v)" by blast
    from Cons.IH [OF _ e b(2)] Cons.prems(1) obtain new2 where
      n2: "argv' = argv1 @ new2" "length new2 \<le> length args"
        "list_all2 (stands_for argv') ts' (concat (map (arg_tokens sample_text) args))" by auto
    show ?thesis by (intro exI [of _ "new1 @ new2"]) (use n1 n2 in auto)
  qed
  show ?case
  proof (cases a)
    case (Positional v)
    then obtain argv1 t ts' where r: "render_value_exo_run v argv = (argv1, t)" "exo_run_arg_tokens args argv1 = (argv', ts')"
      "ts = t # ts'" using Cons.prems(2) by (auto split: prod.splits)
    from step [OF _ r(1,2)] Cons.prems(1) Positional r(3) show ?thesis by simp
  next
    case (Flag name)
    then obtain ts' where r: "exo_run_arg_tokens args argv = (argv', ts')" "ts = flag_token name # ts'"
      using Cons.prems(2) by (auto split: prod.splits)
    from Cons.IH [OF _ r(1)] Cons.prems(1,3) obtain new where
      n: "argv' = argv @ new" "length new \<le> length args"
        "list_all2 (stands_for argv') ts' (concat (map (arg_tokens sample_text) args))" by auto
    with Flag r(2) Cons.prems(1) show ?thesis by (auto intro: stands_forI(1))
  next
    case (Option name v)
    then obtain argv1 t ts' where r: "render_value_exo_run v argv = (argv1, t)" "exo_run_arg_tokens args argv1 = (argv', ts')"
      "ts = flag_token name # t # ts'" using Cons.prems(2) by (auto split: prod.splits)
    from step [OF _ r(1,2)] Cons.prems(1) Option r(3) show ?thesis by (auto intro: stands_forI(1))
  qed
qed

text \<open>
  C27. A reference whose literals can be quoted comes back from \<open>exo-run\<close>: when its path and literals
  are not empty, hold no single quote and do not look like a placeholder, and its first word does
  not look like an assignment, rendering it and parsing the command with its arguments gives exactly
  the tokens that were compiled when the reference was validated, whatever the samples of its
  placeholders contain (spaces, quotes, shell operators, nothing at all). Literals with single quotes
  do not come back, \<open>single_quotes_do_not_survive\<close> below.
\<close>

theorem exo_run_round_trip:
  assumes "reference_ok r" and "render_exo_run r = (command, argv)"
  shows "parse_command_text command argv = Inr (parse_argv_tokens (validation_tokens r))"
proof -
  obtain ts where ts: "exo_run_arg_tokens (ref_args r) [] = (argv, ts)" "command = join_command_tokens (ref_path r @ ts)"
    using assms(2) by (auto simp: render_exo_run_def render_exo_run_tokens_def split: prod.splits)
  from exo_run_args_stand_for [OF _ ts(1)] assms(1)
  have "list_all2 (stands_for argv) ts (concat (map (arg_tokens sample_text) (ref_args r)))"
    by (auto simp: reference_ok_def)
  moreover have "list_all2 (stands_for argv) p p" if "list_all literal_ok p" for p
    using that by (induction p) (auto intro: stands_forI(1))
  ultimately have all: "list_all2 (stands_for argv) (ref_path r @ ts) (validation_tokens r)"
    using assms(1) by (auto simp: reference_ok_def validation_tokens_def intro: list_all2_appendI)
  have "reject_env_assignment_prefix (ref_path r @ ts) = Inr ()"
    using assms(1) by (cases "ref_path r") (auto simp: reference_ok_def reject_env_assignment_prefix_def)
  with scan_joined [OF tokens_scannable [OF all], of "[]"] substitute_all [OF all] ts(2) show ?thesis
    by (simp add: parse_command_text_def tokenize_command_def join_command_tokens_eq)
qed

definition toy_reference :: exo_command_reference where
  "toy_reference = option_placeholder ''log'' ''summary'' ''it is | done'' (positional ''two words'' (command_new [''goal'']))"

lemma toy_reference_ok: "reference_ok toy_reference"
  by (simp add: toy_reference_def option_placeholder_def positional_def add_arg_def command_new_def reference_ok_def
      literal_ok_def is_rendered_placeholder_def flag_token_def starts_with_def ends_with_def strip_prefix_def
      looks_like_env_assignment_def)

theorem exo_run_round_trip_witness:
  "\<exists>command argv p. render_exo_run toy_reference = (command, argv) \<and> argv = [''it is | done'']
     \<and> parse_command_text command argv = Inr p \<and> tokens p = [''goal'', ''two words'', ''--log'', ''it is | done'']"
proof -
  obtain command argv where r: "render_exo_run toy_reference = (command, argv)" by fastforce
  then have "argv = [''it is | done'']"
    by (auto simp: toy_reference_def option_placeholder_def positional_def add_arg_def command_new_def
        render_exo_run_def render_exo_run_tokens_def)
  with exo_run_round_trip [OF toy_reference_ok r] r show ?thesis
    by (simp add: parse_argv_tokens_def validation_tokens_def toy_reference_def option_placeholder_def positional_def
        add_arg_def command_new_def flag_token_def starts_with_def strip_prefix_def)
qed

section \<open>Literals that do not survive\<close>

lemma replace_plain:
  "list_all shell_plain x \<Longrightarrow> replace_all [quote1] r (x @ s) = x @ replace_all [quote1] r s"
proof (induction x)
  case (Cons a x)
  then have "a \<noteq> quote1" by (simp add: plain_char)
  with Cons show ?case by (subst replace_all.simps) simp
qed simp

lemma replace_quote: "replace_all [quote1] r (quote1 # s) = r @ replace_all [quote1] r s"
  by (subst replace_all.simps) simp

lemma plain_quote1: "list_all shell_plain x \<Longrightarrow> quote1 \<notin> set x"
  using special_chars(1) by (auto simp: list_all_iff)

lemma not_placeholder_plain: "list_all shell_plain x \<Longrightarrow> x \<noteq> [] \<Longrightarrow> \<not> is_rendered_placeholder (x @ s)"
  using special_chars(5,8)
  by (cases x) (auto simp: is_rendered_placeholder_def starts_with_def strip_prefix_def split: if_splits)

lemma operator_error_backslash [simp]: "operator_error backslash s = None"
  by (simp add: operator_error_def)

definition one_literal :: "string list \<Rightarrow> string \<Rightarrow> exo_command_reference" where
  "one_literal p v = positional v (command_new p)"

text \<open>
  A literal with single quotes does not come back: rendered for \<open>exo-run\<close>, a reference
  with the literal \<open>x'y\<close> no longer parses (the quote is reported as unterminated), and one
  with \<open>x'y'z\<close> parses to a different argument, in which the quotes have become backslashes.
\<close>

theorem single_quotes_do_not_survive:
  assumes "list_all shell_plain c" "list_all shell_plain x" "list_all shell_plain y" "list_all shell_plain z"
    and "c \<noteq> []" "x \<noteq> []"
  shows "parse_command_text (fst (render_exo_run (one_literal [c] (x @ quote1 # y)))) [] = Inl ''Unterminated quoted string''
    \<and> parse_command_text (fst (render_exo_run (one_literal [c] (x @ quote1 # y @ quote1 # z)))) [] =
      Inr (parse_argv_tokens [c, x @ backslash # y @ backslash # z])"
proof -
  have command: "fst (render_exo_run (one_literal [c] (x @ quote1 # s))) =
      c @ '' '' @ in_quotes (x @ quote1 # backslash # quote1 # quote1 # replace_all [quote1] [quote1, backslash, quote1, quote1] s)" for s
    using assms(1,2,5,6) special_chars(1) not_placeholder_plain [of c "[]"] not_placeholder_plain [of x "quote1 # s"]
    by (simp add: one_literal_def positional_def add_arg_def command_new_def render_exo_run_def render_exo_run_tokens_def
        join_command_tokens_def shell_quote_arg_def replace_plain replace_quote)
  have start: "scan_tokens Unquoted [] [] (c @ '' '' @ in_quotes (x @ quote1 # s)) = scan_tokens Unquoted [c] x (s @ [quote1])" for s
    using assms(1,2,5) plain_quote1 by (simp add: scan_plain in_quotes_def push_current_token_def scan_single)
  have plain: "substitute_placeholder [] t = Inr t" if "\<not> starts_with t ''$''" for t
    using that by (simp add: substitute_placeholder_def starts_with_def del: strip_prefix_Some)
  have dollar: "\<not> starts_with (u @ s) ''$''" if "list_all shell_plain u" "u \<noteq> []" for u s
    using that special_chars(5) by (cases u) (auto simp: starts_with_def strip_prefix_def split: if_splits)
  have "CHR ''='' \<notin> set c"
    using assms(1) by (auto simp: list_all_iff shell_plain_def is_ascii_alphanumeric_def is_ascii_alphabetic_def is_digit_def)
  then have env: "reject_env_assignment_prefix [c, t] = Inr ()" for t
    by (simp add: reject_env_assignment_prefix_def looks_like_env_assignment_def)
  have ry: "replace_all [quote1] r y = y" "replace_all [quote1] r (y @ quote1 # z) = y @ r @ z" for r
    using assms(3,4) plain_quote1 by (simp_all add: replace_plain replace_quote replace_absent)
  have "scan_tokens Unquoted [] [] (fst (render_exo_run (one_literal [c] (x @ quote1 # y)))) = Inl ''Unterminated quoted string''"
    unfolding command start ry using assms(3) by (simp add: scan_plain)
  moreover have "scan_tokens Unquoted [] [] (fst (render_exo_run (one_literal [c] (x @ quote1 # y @ quote1 # z)))) =
      Inr [c, x @ backslash # y @ backslash # z]"
    unfolding command start ry using assms(3,4,6) plain_quote1 by (simp add: scan_plain scan_single push_current_token_def)
  moreover have "substitute_placeholders [] [c, x @ backslash # y @ backslash # z] = Inr [c, x @ backslash # y @ backslash # z]"
    using plain [OF dollar [OF assms(1,5), of "[]"]] plain [OF dollar [OF assms(2,6)]] by simp
  ultimately show ?thesis by (simp add: parse_command_text_def tokenize_command_def env)
qed

theorem single_quotes_do_not_survive_witness:
  "parse_command_text (fst (render_exo_run (one_literal [''log''] (''it'' @ quote1 # ''s'')))) [] =
     Inl ''Unterminated quoted string''"
  using single_quotes_do_not_survive [of "''log''" "''it''" "''s''" "''s''"]
  by (simp add: shell_plain_def is_ascii_alphanumeric_def is_ascii_alphabetic_def)

section \<open>The global format\<close>

lemma format_stripped_after:
  "''--format'' \<notin> set pre \<Longrightarrow>
   tokens_without_global_format (pre @ post) =
     filter (\<lambda>t. \<not> starts_with t ''--format='') pre @ tokens_without_global_format post"
  by (induction pre) auto

lemma json_requested_after: "tokens_request_json_output post \<Longrightarrow> tokens_request_json_output (pre @ post)"
  by (induction pre) auto

text \<open>
  The output format may be given anywhere, in either of its two forms, without changing
  what the rest of the command means: the help target found is the one of the command without
  it, and a request for JSON is seen wherever it stands, in any case of the letters.
\<close>

theorem format_is_transparent:
  assumes "''--format'' \<notin> set pre"
  shows "explicit_help_target (pre @ [''--format'', v] @ post) = explicit_help_target (pre @ post)
    \<and> explicit_help_target (pre @ [''--format='' @ v] @ post) = explicit_help_target (pre @ post)
    \<and> (eq_ignore_ascii_case v ''json'' \<longrightarrow> tokens_request_json_output (pre @ [''--format'', v] @ post)
         \<and> tokens_request_json_output (pre @ [''--format='' @ v] @ post))"
proof -
  have "tokens_without_global_format (pre @ [''--format'', v] @ post) = tokens_without_global_format (pre @ post)"
    "tokens_without_global_format (pre @ [''--format='' @ v] @ post) = tokens_without_global_format (pre @ post)"
    using starts_with_append [of "''--format=''" v] by (simp_all add: format_stripped_after [OF assms])
  moreover have "tokens_request_json_output ([''--format'', v] @ post) \<and> tokens_request_json_output ([''--format='' @ v] @ post)"
    if "eq_ignore_ascii_case v ''json''"
    using that strip_prefix_append [of "''--format=''" v] by (simp del: strip_prefix_Some)
  ultimately show ?thesis unfolding explicit_help_target_def using json_requested_after by simp
qed

theorem format_is_transparent_witness:
  "explicit_help_target [''rfc'', ''promote'', ''--format'', ''JSON'', ''--help''] = Some [''rfc'', ''promote'']
     \<and> tokens_request_json_output [''rfc'', ''promote'', ''--format'', ''JSON'', ''--help'']"
proof -
  have "explicit_help_target [''rfc'', ''promote'', ''--help''] = Some [''rfc'', ''promote'']"
    by (simp add: explicit_help_target_def Let_def is_help_flag_def route_target_tokens_def starts_with_def strip_prefix_def)
  moreover have "eq_ignore_ascii_case ''JSON'' ''json''" by code_simp
  moreover have "''--format'' \<notin> set [''rfc'', ''promote'']" by simp
  note format_is_transparent [OF this, of "''JSON''" "[''--help'']"]
  ultimately show ?thesis by (simp del: tokens_request_json_output.simps)
qed

end
