(* ===== verification/Protocol.thy ===== *)
theory Protocol
  imports Prelude
begin

text \<open>
  The messages between a client and the daemon, \<open>tools/exo/src/api/protocol.rs\<close>, and the JSON
  values they carry. The parts of a response that the daemon only passes on (steering, reminders,
  display, preview) are one field of a type of the caller's choice. Encoding to text, decoding
  and hashing are \<open>serde_json\<close>'s and \<open>blake3\<close>'s: a parameter with the laws relied on.
\<close>

section \<open>JSON values\<close>

datatype json =
    JNull
  | JBool bool
  | JInt int
  | JFloat string
  | JString string
  | JArray "json list"
  | JObject "(string \<times> json) list"

definition json_get :: "string \<Rightarrow> json \<Rightarrow> json option" where
  "json_get key v = (case v of JObject fields \<Rightarrow> map_of fields key | _ \<Rightarrow> None)"

definition as_str :: "json \<Rightarrow> string option" where
  "as_str v = (case v of JString s \<Rightarrow> Some s | _ \<Rightarrow> None)"

definition as_bool :: "json \<Rightarrow> bool option" where
  "as_bool v = (case v of JBool b \<Rightarrow> Some b | _ \<Rightarrow> None)"

definition as_u64 :: "json \<Rightarrow> nat option" where
  "as_u64 v = (case v of JInt i \<Rightarrow> if 0 \<le> i \<and> i < 2 ^ 64 then Some (nat i) else None | _ \<Rightarrow> None)"

definition get_str :: "string \<Rightarrow> json \<Rightarrow> string option" where
  "get_str key v = Option.bind (json_get key v) as_str"

definition get_bool :: "string \<Rightarrow> json \<Rightarrow> bool option" where
  "get_bool key v = Option.bind (json_get key v) as_bool"

lemma size_map_of: "map_of fields key = Some v \<Longrightarrow> size v < Suc (size_list (size_prod (\<lambda>_. 0) size) fields)"
  by (induction fields) (auto split: if_splits)

lemma size_json_get [termination_simp]: "json_get key v = Some x \<Longrightarrow> size x < size v"
  by (auto simp: json_get_def split: json.splits dest: size_map_of)

section \<open>Requests\<close>

datatype status = Ok_status | NeedsInput | ConfirmRequired_status | Error_status

datatype effect = Pure | Write | Exec

datatype recovery_class = ReplayableRead | AtomicProjectState | ExternalAtMostOnce

datatype error_code =
    UnknownAddress | UnknownListKind | InvalidInput | UnknownCommand | MissingArg | TypeMismatch
  | MissingTicket | TicketInvalid | ConfirmRequired | NotFound | Internal | VersionMismatch | PreconditionFailed

record error_body =
  error_kind :: error_code
  error_message :: string
  error_details :: "json option"

datatype address = Root_address | Namespace_address "string list" | Operation_address "string list"

record auth =
  auth_ticket :: string
  auth_confirm :: bool
  auth_request_id :: "string option"
  auth_workspace_root :: "string option"

datatype confirmation_decision = YesComplete | ReviseOutcome | NotCompleteYet | Discuss

record workflow_confirmation =
  confirmation_kind :: string
  confirmation_entity_type :: string
  confirmation_entity_id :: string
  confirmation_decision :: confirmation_decision
  confirmation_outcome :: string

record call_params =
  call_address :: address
  call_input :: json

datatype op =
    Help_op address
  | List_op address string "string option" "32 word"
  | Call_op call_params
  | Preview_op call_params

record request =
  req_version :: "32 word"
  req_id :: string
  req_op :: op
  req_workspace_root :: "string option"
  req_auth :: "auth option"
  req_confirmation :: "workflow_confirmation option"
  req_agent :: "string option"

section \<open>Responses\<close>

record 'x response =
  resp_version :: "32 word"
  resp_id :: string
  resp_status :: status
  resp_result :: "json option"
  resp_error :: "error_body option"
  resp_ticket :: "string option"
  resp_extra :: "'x option"
  resp_effect :: "effect option"
  resp_trace :: "json option"

definition protocol_version :: "32 word" where
  "protocol_version = 1"

definition effect_name :: "effect \<Rightarrow> string" where
  "effect_name e = (case e of Pure \<Rightarrow> ''pure'' | Write \<Rightarrow> ''write'' | Exec \<Rightarrow> ''exec'')"

definition effect_from_name :: "string \<Rightarrow> effect option" where
  "effect_from_name s =
     (if s = ''pure'' then Some Pure else if s = ''write'' then Some Write else if s = ''exec'' then Some Exec else None)"

definition recovery_class_name :: "recovery_class \<Rightarrow> string" where
  "recovery_class_name c = (case c of ReplayableRead \<Rightarrow> ''replayable_read''
     | AtomicProjectState \<Rightarrow> ''atomic_project_state'' | ExternalAtMostOnce \<Rightarrow> ''external_at_most_once'')"

definition recovery_class_from_name :: "string \<Rightarrow> recovery_class option" where
  "recovery_class_from_name s =
     (if s = ''replayable_read'' then Some ReplayableRead else if s = ''atomic_project_state'' then Some AtomicProjectState
      else if s = ''external_at_most_once'' then Some ExternalAtMostOnce else None)"

lemma effect_round_trip [simp]: "effect_from_name (effect_name e) = Some e"
  by (cases e) (simp_all add: effect_name_def effect_from_name_def)

lemma recovery_class_round_trip [simp]: "recovery_class_from_name (recovery_class_name c) = Some c"
  by (cases c) (simp_all add: recovery_class_name_def recovery_class_from_name_def)

text \<open>The path of the command a request calls.\<close>

definition request_command_path :: "request \<Rightarrow> (string \<times> string) option" where
  "request_command_path r =
     (case req_op r of
        Call_op p \<Rightarrow> (case call_address p of
            Operation_address path \<Rightarrow> (case path of
                [operation] \<Rightarrow> Some ([], operation)
              | [namespace, operation] \<Rightarrow> Some (namespace, operation)
              | [namespace, first, second] \<Rightarrow> Some (namespace, first @ ''.'' @ second)
              | _ \<Rightarrow> None)
          | _ \<Rightarrow> None)
      | _ \<Rightarrow> None)"

definition is_workbench_launch_request :: "request \<Rightarrow> bool" where
  "is_workbench_launch_request r \<longleftrightarrow> request_command_path r = Some (''workbench'', ''launch'')"

section \<open>The text form\<close>

record 'x codec =
  to_text :: "'x response \<Rightarrow> string option"
  to_json :: "string \<Rightarrow> json option"
  to_response :: "json \<Rightarrow> 'x response option"
  fingerprint :: "request \<Rightarrow> string option"

definition launch_marker_json :: string where
  "launch_marker_json = ''{'' @ [CHR 0x22] @ ''kind'' @ [CHR 0x22] @ '':'' @ [CHR 0x22] @ ''workbench.launch.completed'' @ [CHR 0x22]
     @ '','' @ [CHR 0x22] @ ''schema_version'' @ [CHR 0x22] @ '':1}''"

text \<open>A response is decoded from its text form and is never taken for the marker, which is decoded
  to its object.\<close>

definition codec_laws :: "'x codec \<Rightarrow> bool" where
  "codec_laws C \<longleftrightarrow>
     (\<forall>r s. to_text C r = Some s \<longrightarrow>
        (\<exists>v. to_json C s = Some v \<and> json_get ''kind'' v = None \<and> to_response C v = Some r))
     \<and> to_json C launch_marker_json = Some (JObject [(''kind'', JString ''workbench.launch.completed''), (''schema_version'', JInt 1)])"

end
