(* ===== verification/Steering.thy ===== *)
theory Steering
  imports Command_Text Protocol
begin

text \<open>
  Suggested actions and failures: the vocabulary of \<open>tools/exo/src/steering.rs\<close> (intents,
  progress modes, actions and the tool call an action is offered as) and the failure type of
  \<open>failure.rs\<close>. The \<open>f32\<close> constants are given in hundredths; nothing here computes
  with them.
\<close>

section \<open>Intents and modes\<close>

datatype work_intent = Orient | Plan | Execute | Record | Verify | Ship

definition intent_str :: "work_intent \<Rightarrow> string" where
  "intent_str i = (case i of Orient \<Rightarrow> ''orient'' | Plan \<Rightarrow> ''plan'' | Execute \<Rightarrow> ''execute''
     | Record \<Rightarrow> ''record'' | Verify \<Rightarrow> ''verify'' | Ship \<Rightarrow> ''ship'')"

datatype progress_mode = RoadmapRevision | BetweenEpochs | BetweenPhases | Planning | Executing | Verifying

definition mode_str :: "progress_mode \<Rightarrow> string" where
  "mode_str m = (case m of RoadmapRevision \<Rightarrow> ''roadmap-revision'' | BetweenEpochs \<Rightarrow> ''between-epochs''
     | BetweenPhases \<Rightarrow> ''between-phases'' | Planning \<Rightarrow> ''planning'' | Executing \<Rightarrow> ''executing''
     | Verifying \<Rightarrow> ''verifying'')"

fun confidence_multiplier_for_intent :: "progress_mode \<Rightarrow> work_intent \<Rightarrow> nat" where
  "confidence_multiplier_for_intent RoadmapRevision i = (case i of Orient \<Rightarrow> 115 | Plan \<Rightarrow> 110 | _ \<Rightarrow> 80)"
| "confidence_multiplier_for_intent BetweenEpochs i =
     (case i of Orient \<Rightarrow> 115 | Plan \<Rightarrow> 105 | Record \<Rightarrow> 100 | _ \<Rightarrow> 85)"
| "confidence_multiplier_for_intent BetweenPhases i = (case i of Orient \<Rightarrow> 110 | Plan \<Rightarrow> 110 | _ \<Rightarrow> 85)"
| "confidence_multiplier_for_intent Planning i = (case i of Plan \<Rightarrow> 120 | Orient \<Rightarrow> 105 | _ \<Rightarrow> 85)"
| "confidence_multiplier_for_intent Executing i = (case i of Execute \<Rightarrow> 115 | Record \<Rightarrow> 110 | _ \<Rightarrow> 95)"
| "confidence_multiplier_for_intent Verifying i = (case i of Verify \<Rightarrow> 120 | Execute \<Rightarrow> 105 | _ \<Rightarrow> 90)"

definition is_between_state :: "progress_mode \<Rightarrow> bool" where
  "is_between_state m \<longleftrightarrow> m \<in> {RoadmapRevision, BetweenEpochs, BetweenPhases}"

definition is_phase_active :: "progress_mode \<Rightarrow> bool" where
  "is_phase_active m \<longleftrightarrow> m \<in> {Planning, Executing, Verifying}"

section \<open>Actions\<close>

record suggested_action =
  action_label :: string
  action_command :: string
  rationale :: string
  action_intent :: work_intent
  confidence :: "nat option"

definition action_exo :: "string \<Rightarrow> exo_command_reference \<Rightarrow> string \<Rightarrow> work_intent \<Rightarrow> nat option \<Rightarrow> suggested_action" where
  "action_exo label reference why i c =
     \<lparr>action_label = label, action_command = render_cli reference, rationale = why, action_intent = i, confidence = c\<rparr>"

definition action_text :: "string \<Rightarrow> string \<Rightarrow> string \<Rightarrow> work_intent \<Rightarrow> nat option \<Rightarrow> suggested_action" where
  "action_text label command why i c =
     \<lparr>action_label = label, action_command = command, rationale = why, action_intent = i, confidence = c\<rparr>"

text \<open>\<open>str::split_whitespace\<close>: the maximal runs of characters that are not white space.\<close>

function words_from :: "string \<Rightarrow> string \<Rightarrow> string list" where
  "words_from cur s =
     (if s = [] then (if cur = [] then [] else [cur])
      else if space_len s = 0 then words_from (cur @ [hd s]) (tl s)
      else (if cur = [] then [] else [cur]) @ words_from [] (drop (space_len s) s))"
  by pat_completeness auto

termination
  by (relation "measure (\<lambda>(cur, s). length s)") auto

declare words_from.simps [simp del]

definition split_whitespace :: "string \<Rightarrow> string list" where
  "split_whitespace s = words_from [] s"

definition trim_quotes :: "string \<Rightarrow> string" where
  "trim_quotes s =
     (let drop_quotes = dropWhile (\<lambda>c. c = quote2 \<or> c = quote1)
      in rev (drop_quotes (rev (drop_quotes s))))"

definition is_placeholder :: "string \<Rightarrow> bool" where
  "is_placeholder s \<longleftrightarrow> trim_quotes s \<in>
     {''...'', ''<id>'', ''<message>'', ''<phase-id>'', ''<summary>'', ''<title>''}"

definition is_placeholder_argument :: "string \<Rightarrow> bool" where
  "is_placeholder_argument s \<longleftrightarrow>
     is_placeholder (trim_quotes
       (if CHR ''='' \<in> set s then tl (dropWhile (\<lambda>c. c \<noteq> CHR ''='') s) else s))"

text \<open>The command of the \<open>exo-run\<close> tool an action is offered as, if it is.\<close>

definition tool_suggestion_for_command :: "string \<Rightarrow> string option" where
  "tool_suggestion_for_command command =
     (let trimmed = trim command; parts = split_whitespace trimmed in
      if trimmed = [] \<or> length parts < 2 \<or> hd parts \<noteq> ''exo'' then None
      else case strip_prefix ''exo'' trimmed of
          None \<Rightarrow> None
        | Some rest \<Rightarrow>
            (let exo_command = trim_start rest; p = tl parts in
             if p = [''status''] then Some ''status''
             else if p = [''plan'', ''review''] then Some exo_command
             else if p = [''plan'', ''show''] then Some ''plan review''
             else if take 2 p = [''phase'', ''status''] then Some exo_command
             else if p = [''phase'', ''start''] then Some exo_command
             else if take 2 p = [''phase'', ''start''] then (if is_placeholder (p ! 2) then None else Some exo_command)
             else if take 2 p = [''task'', ''complete''] \<and> length p = 3 then
               (if is_placeholder (p ! 2) then None else Some exo_command)
             else if take 2 p = [''phase'', ''finish''] then
               (if list_ex is_placeholder_argument (drop 2 p) then Some ''phase finish'' else Some exo_command)
             else None))"

section \<open>Failures\<close>

text \<open>Blocks carry the fields the modelled failures set.\<close>

record steering_block =
  primary_intent :: work_intent
  progress :: progress_mode
  situation :: string
  next_actions :: "suggested_action list"
  repair_actions :: "suggested_action list"

record 'd exo_failure =
  failure_code :: error_code
  failure_message :: string
  details :: "'d option"
  steering :: steering_block

definition failure_new :: "error_code \<Rightarrow> string \<Rightarrow> steering_block \<Rightarrow> 'd exo_failure" where
  "failure_new code message block = \<lparr>failure_code = code, failure_message = message, details = None, steering = block\<rparr>"

definition with_details :: "'d \<Rightarrow> 'd exo_failure \<Rightarrow> 'd exo_failure" where
  "with_details d f = f\<lparr>details := Some d\<rparr>"

definition orienting_steering :: "suggested_action list \<Rightarrow> steering_block" where
  "orienting_steering actions =
     \<lparr>primary_intent = Orient, progress = BetweenPhases,
      situation = ''An error occurred. Follow the suggested actions to recover.'',
      next_actions = actions, repair_actions = []\<rparr>"

end
