(* ===== verification/Act.thy ===== *)
theory Act
  imports Prelude
begin

text \<open>
  Code that reads and writes a store and may fail half way: a function from the store to the
  store it leaves and an error or a value. An error keeps what the code wrote before, as a
  failing sequence of SQL statements does; only a savepoint takes it back. \<open>wp\<close> is the weakest
  precondition of a condition on the value and one on the store an error leaves.
\<close>

type_synonym ('s, 'e, 'a) act = "'s \<Rightarrow> 's \<times> ('e + 'a)"

definition ok :: "'a \<Rightarrow> ('s, 'e, 'a) act" where
  "ok x w = (w, Inr x)"

definition err :: "'e \<Rightarrow> ('s, 'e, 'a) act" where
  "err e w = (w, Inl e)"

definition bind_act :: "('s, 'e, 'a) act \<Rightarrow> ('a \<Rightarrow> ('s, 'e, 'b) act) \<Rightarrow> ('s, 'e, 'b) act" where
  "bind_act m f w = (case m w of (w', Inl e) \<Rightarrow> (w', Inl e) | (w', Inr x) \<Rightarrow> f x w')"

text \<open>Reading, writing, a check, a loop, and a savepoint.\<close>

definition ask :: "('s \<Rightarrow> 'a) \<Rightarrow> ('s, 'e, 'a) act" where
  "ask f w = (w, Inr (f w))"

definition found :: "('s \<Rightarrow> 'a option) \<Rightarrow> 'e \<Rightarrow> ('s, 'e, 'a) act" where
  "found f e w = (case f w of None \<Rightarrow> (w, Inl e) | Some x \<Rightarrow> (w, Inr x))"

definition change :: "('s \<Rightarrow> 's) \<Rightarrow> ('s, 'e, unit) act" where
  "change f w = (f w, Inr ())"

definition demand :: "('s \<Rightarrow> bool) \<Rightarrow> 'e \<Rightarrow> ('s, 'e, unit) act" where
  "demand P e w = (if P w then (w, Inr ()) else (w, Inl e))"

definition lift_sum :: "'e + 'a \<Rightarrow> ('s, 'e, 'a) act" where
  "lift_sum r w = (w, r)"

fun for_each :: "('x \<Rightarrow> ('s, 'e, unit) act) \<Rightarrow> 'x list \<Rightarrow> ('s, 'e, unit) act" where
  "for_each f [] = ok ()"
| "for_each f (x # xs) = bind_act (f x) (\<lambda>_. for_each f xs)"

definition savepoint :: "('s, 'e, 'a) act \<Rightarrow> ('s, 'e, 'a) act" where
  "savepoint m w = (case m w of (w', Inl e) \<Rightarrow> (w, Inl e) | (w', Inr x) \<Rightarrow> (w', Inr x))"

section \<open>Laws\<close>

lemma bind_err [simp]: "bind_act (err e) f = err e"
  by (simp add: bind_act_def err_def fun_eq_iff)

lemma bind_ok [simp]: "bind_act (ok x) f = f x"
  by (simp add: bind_act_def ok_def fun_eq_iff)

lemma bind_Inr: "bind_act m f w = (w', Inr y) \<longleftrightarrow> (\<exists>w1 x. m w = (w1, Inr x) \<and> f x w1 = (w', Inr y))"
  by (auto simp: bind_act_def split: prod.split sum.split)

lemma ok_eq [simp]: "ok x w = (w', r) \<longleftrightarrow> w' = w \<and> r = Inr x" "err e w = (w', r) \<longleftrightarrow> w' = w \<and> r = Inl e"
  by (auto simp: ok_def err_def)

lemma act_Inr [simp]:
  "ask f w = (w', r) \<longleftrightarrow> w' = w \<and> r = Inr (f w)"
  "change g w = (w', Inr u) \<longleftrightarrow> w' = g w"
  "found h e w = (w', Inr x) \<longleftrightarrow> w' = w \<and> h w = Some x"
  "demand P e w = (w', Inr u) \<longleftrightarrow> w' = w \<and> P w"
  "lift_sum s w = (w', r) \<longleftrightarrow> w' = w \<and> r = s"
  by (auto simp: ask_def change_def found_def demand_def lift_sum_def split: option.split)

lemma savepoint_Inr [simp]: "savepoint m w = (w', Inr x) \<longleftrightarrow> m w = (w', Inr x)"
  by (auto simp: savepoint_def split: prod.split sum.split)

lemma savepoint_Inl: "savepoint m w = (w', Inl e) \<Longrightarrow> w' = w"
  by (auto simp: savepoint_def split: prod.splits sum.splits)

section \<open>Weakest preconditions\<close>

definition wp :: "('s, 'e, 'a) act \<Rightarrow> ('a \<Rightarrow> 's \<Rightarrow> bool) \<Rightarrow> ('s \<Rightarrow> bool) \<Rightarrow> 's \<Rightarrow> bool" where
  "wp m Q E w = (case m w of (w', Inl e) \<Rightarrow> E w' | (w', Inr x) \<Rightarrow> Q x w')"

lemma wp_ok [simp]: "wp (ok x) Q E w = Q x w"
  by (simp add: wp_def ok_def)

lemma wp_err [simp]: "wp (err e) Q E w = E w"
  by (simp add: wp_def err_def)

lemma wp_bind [simp]: "wp (bind_act m f) Q E w = wp m (\<lambda>x. wp (f x) Q E) E w"
  by (simp add: wp_def bind_act_def split: prod.split sum.split)

lemma wp_ask [simp]: "wp (ask g) Q E w = Q (g w) w"
  by (simp add: wp_def ask_def)

lemma wp_change [simp]: "wp (change h) Q E w = Q () (h w)"
  by (simp add: wp_def change_def)

lemma wp_found [simp]: "wp (found k e) Q E w = (case k w of None \<Rightarrow> E w | Some y \<Rightarrow> Q y w)"
  by (simp add: wp_def found_def split: option.split)

lemma wp_demand [simp]: "wp (demand P e) Q E w = (if P w then Q () w else E w)"
  by (simp add: wp_def demand_def)

lemma wp_savepoint [simp]: "wp (savepoint m) Q E w = wp m Q (\<lambda>_. E w) w"
  by (simp add: wp_def savepoint_def split: prod.split sum.split)

lemma wp_lift_sum [simp]: "wp (lift_sum r) Q E w = (case r of Inl e \<Rightarrow> E w | Inr x \<Rightarrow> Q x w)"
  by (auto simp: wp_def lift_sum_def split: sum.split)

lemma wp_if [simp]: "wp (if b then m else m') Q E w = (if b then wp m Q E w else wp m' Q E w)"
  by simp

lemma wp_option: "wp (case x of None \<Rightarrow> m | Some y \<Rightarrow> f y) Q E w = (case x of None \<Rightarrow> wp m Q E w | Some y \<Rightarrow> wp (f y) Q E w)"
  by (simp split: option.split)

lemma wp_mono: "wp m Q E w \<Longrightarrow> (\<And>x w. Q x w \<Longrightarrow> Q' x w) \<Longrightarrow> (\<And>w. E w \<Longrightarrow> E' w) \<Longrightarrow> wp m Q' E' w"
  by (auto simp: wp_def split: prod.splits sum.splits)

lemma wp_Inr: "wp m Q E w \<Longrightarrow> m w = (w', Inr x) \<Longrightarrow> Q x w'"
  by (simp add: wp_def)

lemma wp_fst: "wp m (\<lambda>_. I) I w = I (fst (m w))"
  by (simp add: wp_def split: prod.split sum.split)

lemma wp_for_each:
  "I w \<Longrightarrow> (\<And>x w. x \<in> set xs \<Longrightarrow> I w \<Longrightarrow> wp (f x) (\<lambda>_. I) E w) \<Longrightarrow> (\<And>w. I w \<Longrightarrow> Q () w) \<Longrightarrow> wp (for_each f xs) Q E w"
proof (induction xs arbitrary: w)
  case (Cons x xs)
  have "wp (f x) (\<lambda>_. I) E w" using Cons.prems by simp
  then show ?case
    by (simp, rule wp_mono) (use Cons in auto)
qed simp

text \<open>An act that keeps a condition, whether it succeeds or fails.\<close>

definition keeps :: "('s \<Rightarrow> bool) \<Rightarrow> ('s, 'e, 'a) act \<Rightarrow> bool" where
  "keeps I m \<longleftrightarrow> (\<forall>w. I w \<longrightarrow> wp m (\<lambda>_. I) I w)"

named_theorems keeps_intros "acts that keep a condition"

lemma keepsI: "(\<And>w. I w \<Longrightarrow> wp m (\<lambda>_. I) I w) \<Longrightarrow> keeps I m"
  by (simp add: keeps_def)

lemma keepsD: "keeps I m \<Longrightarrow> I w \<Longrightarrow> I (fst (m w))"
  by (simp add: keeps_def wp_fst)

lemma keeps_wp: "keeps I m \<Longrightarrow> I w \<Longrightarrow> wp m (\<lambda>_. I) I w"
  by (simp add: keeps_def)

lemma keeps_basic [keeps_intros]: "keeps I (ok x)" "keeps I (err e)" "keeps I (ask g)" "keeps I (found k e')"
  "keeps I (demand P e'')" "keeps I (lift_sum r)"
  by (auto simp: keeps_def split: option.split sum.split)

lemma keeps_bind [keeps_intros]: "keeps I m \<Longrightarrow> (\<And>x. keeps I (f x)) \<Longrightarrow> keeps I (bind_act m f)"
  unfolding keeps_def by (auto intro: wp_mono)

lemma keeps_savepoint [keeps_intros]: "keeps I m \<Longrightarrow> keeps I (savepoint m)"
  unfolding keeps_def by (auto intro: wp_mono)

lemma keeps_for_each [keeps_intros]: "(\<And>x. x \<in> set xs \<Longrightarrow> keeps I (f x)) \<Longrightarrow> keeps I (for_each f xs)"
  by (induction xs) (auto intro!: keeps_intros)

end
