(* ===== verification/Phase_Owner.thy ===== *)
theory Phase_Owner
  imports Steering Act
begin

text \<open>
  Phase ownership across worktrees: \<open>tools/exo/src/phase_owner.rs\<close>, with the ownership
  statements of \<open>context/sqlite_writer.rs\<close> and the query of \<open>context/sqlite_loader.rs\<close> it
  calls. Each SQL statement is one atomic step on the database; before it, the other processes
  may have done anything (\<open>others\<close>). The world keeps a log of what each own statement found and
  left. The file system, git and BLAKE3 are parameters; a request transaction is not open.
\<close>

section \<open>Data\<close>

record phase_owner_data =
  owner_kind :: string
  owner_id :: string
  claimed_by_workspace_id :: "string option"
  claimed_by_workspace_root :: "string option"
  claimed_at :: string
  updated_at :: string

record current_phase_owner =
  current_kind :: string
  current_id :: string
  owner_basis :: string
  workspace_id_of :: string
  workspace_root_of :: "string option"
  branch_of :: "string option"

record phase_owner_view =
  view_kind :: string
  view_id :: string
  view_workspace_id :: "string option"
  view_workspace_root :: "string option"
  view_claimed_at :: string
  view_updated_at :: string
  owned_here :: bool
  owned_elsewhere :: bool
  stale :: bool
  stale_reason :: "string option"
  view_label :: string

record phase_ownership_transition =
  owner :: phase_owner_view
  previous_owner :: "phase_owner_view option"
  took_over :: bool

text \<open>A \<open>PathBuf\<close> compares by its components.\<close>

type_synonym path_key = "bool \<times> string list"

definition path_key :: "string \<Rightarrow> path_key" where
  "path_key p =
     (let parts = split_slash p in
      (starts_with p ''/'',
       (if hd parts = ''.'' then [''.''] else []) @ filter (\<lambda>w. w \<noteq> [] \<and> w \<noteq> ''.'') parts))"

record owner_project =
  project_id :: string
  project_root :: "string option"
  project_branch :: "string option"
  project_branches :: "string set option"
  project_worktrees :: "(path_key \<rightharpoonup> bool) option"

record owner_db =
  phase_ids :: "string \<rightharpoonup> int"
  ownership :: "int \<rightharpoonup> phase_owner_data"

text \<open>A git command fails to start, or ends with success or not and an output.\<close>

record owner_env =
  path_exists :: "string \<Rightarrow> bool"
  canonicalize :: "string \<Rightarrow> string option"
  git_head :: "string \<Rightarrow> (bool \<times> string) option"
  git_refs :: "string \<Rightarrow> (bool \<times> string) option"
  git_worktrees :: "string \<Rightarrow> (bool \<times> string) option"
  hex_blake3 :: "string \<Rightarrow> string"
  others :: "nat \<Rightarrow> owner_db \<Rightarrow> owner_db"
  now :: "nat \<Rightarrow> string"

section \<open>Who is asking\<close>

definition canonical_or_original :: "owner_env \<Rightarrow> string \<Rightarrow> string" where
  "canonical_or_original V p = (case canonicalize V p of None \<Rightarrow> p | Some q \<Rightarrow> q)"

definition workspace_root_text :: "owner_env \<Rightarrow> string \<Rightarrow> owner_project option \<Rightarrow> string option" where
  "workspace_root_text V root project =
     (case Option.bind project project_root of
        Some r \<Rightarrow> Some r
      | None \<Rightarrow> (case canonicalize V root of Some r \<Rightarrow> Some r | None \<Rightarrow> Some root))"

definition workspace_id :: "owner_env \<Rightarrow> string \<Rightarrow> string \<Rightarrow> string" where
  "workspace_id V pid root =
     ''workspace:'' @ pid @ '':'' @ take 16 (hex_blake3 V (pid @ CHR 0x00 # root))"

definition is_codex_worktree :: "string \<Rightarrow> bool" where
  "is_codex_worktree root \<longleftrightarrow> contains ''/.codex/worktrees/'' (map (\<lambda>c. if c = backslash then CHR ''/'' else c) root)"

definition current_branch :: "owner_env \<Rightarrow> string \<Rightarrow> string option" where
  "current_branch V root =
     (case git_head V root of
        Some (True, out) \<Rightarrow> (if trim out = [] then None else Some (trim out))
      | _ \<Rightarrow> None)"

definition local_branch_names :: "owner_env \<Rightarrow> string \<Rightarrow> string set option" where
  "local_branch_names V root =
     (case git_refs V root of
        None \<Rightarrow> None
      | Some (False, _) \<Rightarrow> Some {}
      | Some (True, out) \<Rightarrow> Some (set (filter (\<lambda>b. b \<noteq> []) (map trim (text_lines out)))))"

record worktree_block =
  block_path :: "string option"
  block_prunable :: bool

definition worktree_line ::
  "owner_env \<Rightarrow> string \<Rightarrow> (path_key \<rightharpoonup> bool) \<times> worktree_block \<Rightarrow> (path_key \<rightharpoonup> bool) \<times> worktree_block" where
  "worktree_line V line = (\<lambda>(worktrees, b).
     if line = [] then
       (case block_path b of
          None \<Rightarrow> worktrees
        | Some p \<Rightarrow> worktrees(path_key (canonical_or_original V p) \<mapsto> block_prunable b),
        \<lparr>block_path = None, block_prunable = False\<rparr>)
     else case strip_prefix ''worktree '' line of
         Some p \<Rightarrow> (worktrees, b\<lparr>block_path := Some p\<rparr>)
       | None \<Rightarrow> (worktrees, if starts_with line ''prunable'' then b\<lparr>block_prunable := True\<rparr> else b))"

definition parse_worktree_index :: "owner_env \<Rightarrow> string \<Rightarrow> path_key \<rightharpoonup> bool" where
  "parse_worktree_index V out =
     fst (fold (worktree_line V) (text_lines out @ [[]]) (Map.empty, \<lparr>block_path = None, block_prunable = False\<rparr>))"

definition worktree_index :: "owner_env \<Rightarrow> string \<Rightarrow> (path_key \<rightharpoonup> bool) option" where
  "worktree_index V root =
     (case git_worktrees V root of Some (True, out) \<Rightarrow> Some (parse_worktree_index V out) | _ \<Rightarrow> None)"

definition derive_current_owner :: "owner_env \<Rightarrow> string \<Rightarrow> string option \<Rightarrow> string option \<Rightarrow> current_phase_owner" where
  "derive_current_owner V pid root branch =
     (let ws = workspace_id V pid (case root of None \<Rightarrow> [] | Some r \<Rightarrow> r);
          codex = is_codex_worktree (case root of None \<Rightarrow> [] | Some r \<Rightarrow> r)
      in case branch of
          Some b \<Rightarrow>
            (if \<not> codex then
               \<lparr>current_kind = ''branch'', current_id = b, owner_basis = ''branch'', workspace_id_of = ws,
                workspace_root_of = root, branch_of = branch\<rparr>
             else \<lparr>current_kind = ''workspace'', current_id = ws, owner_basis = ''codex_workspace'', workspace_id_of = ws,
                workspace_root_of = root, branch_of = branch\<rparr>)
        | None \<Rightarrow>
            \<lparr>current_kind = ''workspace'', current_id = ws,
             owner_basis = (if codex then ''codex_workspace'' else if root \<noteq> None then ''detached_workspace''
               else ''unresolved_workspace''),
             workspace_id_of = ws, workspace_root_of = root, branch_of = branch\<rparr>)"

definition current_owner :: "owner_env \<Rightarrow> string \<Rightarrow> owner_project option \<Rightarrow> current_phase_owner" where
  "current_owner V root project =
     derive_current_owner V (case project of None \<Rightarrow> ''unresolved'' | Some p \<Rightarrow> project_id p)
       (workspace_root_text V root project)
       (case Option.bind project project_branch of Some b \<Rightarrow> Some b | None \<Rightarrow> current_branch V root)"

definition current_owner_basis_label :: "current_phase_owner \<Rightarrow> string" where
  "current_owner_basis_label c =
     (let basis = owner_basis c in
      if basis = ''branch'' then (case branch_of c of None \<Rightarrow> ''branch'' | Some b \<Rightarrow> ''branch '' @ b)
      else if basis = ''codex_workspace'' then ''codex workspace''
      else if basis = ''detached_workspace'' then ''detached workspace''
      else if basis = ''unresolved_workspace'' then ''unresolved workspace''
      else map (\<lambda>ch. if ch = CHR ''_'' then CHR '' '' else ch) basis)"

section \<open>Views of an owner\<close>

record view_context =
  context_current :: current_phase_owner
  local_branches :: "string set option"
  worktrees :: "(path_key \<rightharpoonup> bool) option"

definition view_context_new :: "owner_env \<Rightarrow> string \<Rightarrow> owner_project option \<Rightarrow> view_context" where
  "view_context_new V root project =
     \<lparr>context_current = current_owner V root project,
      local_branches = (case Option.bind project project_branches of Some b \<Rightarrow> Some b | None \<Rightarrow> local_branch_names V root),
      worktrees = (case Option.bind project project_worktrees of Some w \<Rightarrow> Some w | None \<Rightarrow> worktree_index V root)\<rparr>"

definition owner_matches :: "phase_owner_data \<Rightarrow> current_phase_owner \<Rightarrow> bool" where
  "owner_matches d c \<longleftrightarrow> owner_kind d = current_kind c \<and> owner_id d = current_id c"

definition workspace_stale_reason :: "owner_env \<Rightarrow> view_context \<Rightarrow> string option \<Rightarrow> string option" where
  "workspace_stale_reason V vc workspace_root =
     (case workspace_root of
        None \<Rightarrow> None
      | Some r \<Rightarrow>
          (if \<not> path_exists V r then Some ''workspace root is missing''
           else case worktrees vc of
               None \<Rightarrow> None
             | Some wt \<Rightarrow>
                 (case wt (path_key (canonical_or_original V r)) of
                    Some True \<Rightarrow> Some ''workspace root is prunable''
                  | Some False \<Rightarrow> None
                  | None \<Rightarrow> Some ''workspace root is not a registered git worktree'')))"

definition branch_stale_reason :: "view_context \<Rightarrow> string \<Rightarrow> string option" where
  "branch_stale_reason vc branch =
     (case local_branches vc of
        None \<Rightarrow> None
      | Some bs \<Rightarrow> if branch \<notin> bs then Some ''branch is missing locally'' else None)"

definition stale_reason_of :: "owner_env \<Rightarrow> view_context \<Rightarrow> phase_owner_data \<Rightarrow> string option" where
  "stale_reason_of V vc d =
     (if owner_kind d = ''workspace'' then workspace_stale_reason V vc (claimed_by_workspace_root d)
      else if owner_kind d = ''branch'' then branch_stale_reason vc (owner_id d)
      else None)"

text \<open>\<open>str::get(..8)\<close> needs a character boundary; otherwise the whole suffix is taken.\<close>

definition short_id :: "string \<Rightarrow> string" where
  "short_id s =
     (let suffix = rev (takeWhile (\<lambda>c. c \<noteq> CHR '':'') (rev s)) in
      if length suffix = 8 \<or> 8 < length suffix \<and> \<not> (128 \<le> byte (suffix ! 8) \<and> byte (suffix ! 8) < 192)
      then take 8 suffix else suffix)"

definition owner_label :: "phase_owner_data \<Rightarrow> string" where
  "owner_label d =
     (if owner_kind d = ''branch'' then ''branch '' @ owner_id d
      else if owner_kind d = ''workspace'' then
        (case Option.bind (claimed_by_workspace_root d) file_name of
           None \<Rightarrow> ''workspace '' @ short_id (owner_id d)
         | Some n \<Rightarrow> ''workspace '' @ n)
      else if owner_kind d = ''pr'' then ''PR '' @ owner_id d
      else owner_kind d @ '' '' @ owner_id d)"

definition owner_view :: "owner_env \<Rightarrow> view_context \<Rightarrow> phase_owner_data \<Rightarrow> phase_owner_view" where
  "owner_view V vc d =
     (let here = owner_matches d (context_current vc); reason = stale_reason_of V vc d in
      \<lparr>view_kind = owner_kind d, view_id = owner_id d, view_workspace_id = claimed_by_workspace_id d,
       view_workspace_root = claimed_by_workspace_root d, view_claimed_at = claimed_at d, view_updated_at = updated_at d,
       owned_here = here, owned_elsewhere = \<not> here, stale = (reason \<noteq> None), stale_reason = reason,
       view_label = owner_label d\<rparr>)"

section \<open>Failures\<close>

record owner_details =
  phase_of :: string
  owner_of :: "phase_owner_view option"

definition ownership_conflict_failure :: "string \<Rightarrow> phase_owner_view \<Rightarrow> owner_details exo_failure" where
  "ownership_conflict_failure phase v =
     with_details \<lparr>phase_of = phase, owner_of = Some v\<rparr>
       (failure_new PreconditionFailed
         (''Phase '' @ in_quotes phase @ '' is owned by another '' @ view_kind v @ '' ('' @ view_label v @ '')'')
         (orienting_steering
           ([action_text ''Inspect phase'' (''exo phase read-details '' @ phase)
               ''Read the phase without changing its owner.'' Orient (Some 90),
             action_text ''Focus read-only'' (''exo phase focus '' @ phase)
               ''Point this workspace at the phase without taking its mutation claim.'' Orient (Some 80)]
            @ (if stale v then
                 [action_text ''Release stale owner'' (''exo phase release '' @ phase)
                    ''Clear the stale phase owner before claiming the phase.'' Execute (Some 80)]
               else [])
            @ [action_text ''Take over phase'' (''exo phase start '' @ phase @ '' --take-over'')
                 (''Explicitly replace the current phase owner with this workspace'' @ [quote1] @ ''s owner.'') Execute (Some 50)])))"

definition ownership_changed_failure :: "string \<Rightarrow> owner_details exo_failure" where
  "ownership_changed_failure phase =
     with_details \<lparr>phase_of = phase, owner_of = None\<rparr>
       (failure_new PreconditionFailed
         (''Phase '' @ in_quotes phase @ '' ownership changed while claiming it'')
         (orienting_steering
           [action_text ''Retry phase start'' (''exo phase start '' @ phase)
              ''Reload the current phase owner and retry the claim.'' Execute (Some 70)]))"

datatype owner_error =
    EntityNotFound string
  | SqlConstraint
  | PhaseOwnerMissing
  | PhaseOwnerNotSet string
  | Refused "owner_details exo_failure"

section \<open>Statements\<close>

record owner_world =
  odb :: owner_db
  clock :: nat
  statements :: "(owner_db \<times> owner_db) list"

type_synonym 'a owner_act = "(owner_world, owner_error, 'a) act"

definition sql :: "owner_env \<Rightarrow> (string \<Rightarrow> owner_db \<Rightarrow> owner_error + 'a \<times> owner_db) \<Rightarrow> 'a owner_act" where
  "sql V f w =
     (let d = others V (clock w) (odb w) in
      case f (now V (clock w)) d of
        Inl e \<Rightarrow> (\<lparr>odb = d, clock = Suc (clock w), statements = statements w @ [(d, d)]\<rparr>, Inl e)
      | Inr (x, d') \<Rightarrow> (\<lparr>odb = d', clock = Suc (clock w), statements = statements w @ [(d, d')]\<rparr>, Inr x))"

definition load_phase_owner :: "owner_env \<Rightarrow> string \<Rightarrow> phase_owner_data option owner_act" where
  "load_phase_owner V phase = sql V (\<lambda>t d. Inr (Option.bind (phase_ids d phase) (ownership d), d))"

definition resolve_id :: "owner_env \<Rightarrow> string \<Rightarrow> int owner_act" where
  "resolve_id V phase = sql V (\<lambda>t d. case phase_ids d phase of
      None \<Rightarrow> Inl (EntityNotFound phase) | Some i \<Rightarrow> Inr (i, d))"

record owner_claim =
  claim_kind :: string
  claim_id :: string
  claim_workspace_id :: "string option"
  claim_workspace_root :: "string option"

definition valid_kind :: "string \<Rightarrow> bool" where
  "valid_kind k \<longleftrightarrow> k \<in> {''workspace'', ''branch'', ''pr''}"

definition claimed_row :: "owner_claim \<Rightarrow> string \<Rightarrow> phase_owner_data option \<Rightarrow> phase_owner_data" where
  "claimed_row c t old =
     \<lparr>owner_kind = claim_kind c, owner_id = claim_id c, claimed_by_workspace_id = claim_workspace_id c,
      claimed_by_workspace_root = claim_workspace_root c,
      claimed_at = (case old of
          Some d \<Rightarrow> (if owner_kind d \<noteq> claim_kind c \<or> owner_id d \<noteq> claim_id c then t else claimed_at d)
        | None \<Rightarrow> t),
      updated_at = t\<rparr>"

text \<open>\<open>UPDATE \<dots> WHERE phase_id = ?\<close>, with the further condition \<open>guard\<close>; the number of rows.\<close>

definition update_owner :: "owner_env \<Rightarrow> int \<Rightarrow> owner_claim \<Rightarrow> (phase_owner_data \<Rightarrow> bool) \<Rightarrow> nat owner_act" where
  "update_owner V i c guard = sql V (\<lambda>t d. case ownership d i of
      None \<Rightarrow> Inr (0, d)
    | Some old \<Rightarrow>
        (if \<not> guard old then Inr (0, d)
         else if \<not> valid_kind (claim_kind c) then Inl SqlConstraint
         else Inr (1, d\<lparr>ownership := (ownership d)(i \<mapsto> claimed_row c t (Some old))\<rparr>)))"

text \<open>
  \<open>INSERT OR IGNORE \<dots> WHERE NOT EXISTS\<close>: a bad kind is ignored, a vanished phase breaks the
  foreign key.
\<close>

definition insert_owner :: "owner_env \<Rightarrow> int \<Rightarrow> owner_claim \<Rightarrow> nat owner_act" where
  "insert_owner V i c = sql V (\<lambda>t d.
     if ownership d i \<noteq> None \<or> \<not> valid_kind (claim_kind c) then Inr (0, d)
     else if i \<notin> ran (phase_ids d) then Inl SqlConstraint
     else Inr (1, d\<lparr>ownership := (ownership d)(i \<mapsto> claimed_row c t None)\<rparr>))"

definition delete_owner :: "owner_env \<Rightarrow> int \<Rightarrow> (phase_owner_data \<Rightarrow> bool) \<Rightarrow> nat owner_act" where
  "delete_owner V i guard = sql V (\<lambda>t d. case ownership d i of
      None \<Rightarrow> Inr (0, d)
    | Some old \<Rightarrow> (if guard old then Inr (1, d\<lparr>ownership := (ownership d)(i := None)\<rparr>) else Inr (0, d)))"

definition is_owner :: "string \<Rightarrow> string \<Rightarrow> phase_owner_data \<Rightarrow> bool" where
  "is_owner k i d \<longleftrightarrow> owner_kind d = k \<and> owner_id d = i"

section \<open>The writer\<close>

definition set_phase_owner :: "owner_env \<Rightarrow> string \<Rightarrow> owner_claim \<Rightarrow> unit owner_act" where
  "set_phase_owner V phase c =
     bind_act (resolve_id V phase) (\<lambda>i.
     bind_act (update_owner V i c (\<lambda>_. True)) (\<lambda>rows.
       if rows \<noteq> 0 then ok ()
       else bind_act (insert_owner V i c) (\<lambda>inserted.
         if inserted \<noteq> 0 then ok ()
         else bind_act (update_owner V i c (\<lambda>_. True)) (\<lambda>rows.
           if rows = 0 then err (PhaseOwnerNotSet phase) else ok ()))))"

definition claim_phase_owner_if_current ::
  "owner_env \<Rightarrow> string \<Rightarrow> owner_claim \<Rightarrow> (string \<times> string) option \<Rightarrow> bool owner_act" where
  "claim_phase_owner_if_current V phase c expected =
     bind_act (resolve_id V phase) (\<lambda>i.
     bind_act (case expected of
         Some (k, j) \<Rightarrow> update_owner V i c (is_owner k j)
       | None \<Rightarrow> insert_owner V i c) (\<lambda>rows. ok (0 < rows)))"

definition clear_phase_owner :: "owner_env \<Rightarrow> string \<Rightarrow> unit owner_act" where
  "clear_phase_owner V phase =
     bind_act (resolve_id V phase) (\<lambda>i. bind_act (delete_owner V i (\<lambda>_. True)) (\<lambda>_. ok ()))"

definition clear_phase_owner_if_current :: "owner_env \<Rightarrow> string \<Rightarrow> string \<Rightarrow> string \<Rightarrow> bool owner_act" where
  "clear_phase_owner_if_current V phase k j =
     bind_act (resolve_id V phase) (\<lambda>i. bind_act (delete_owner V i (is_owner k j)) (\<lambda>rows. ok (0 < rows)))"

section \<open>Claiming, checking and releasing\<close>

definition claim_of :: "current_phase_owner \<Rightarrow> owner_claim" where
  "claim_of c = \<lparr>claim_kind = current_kind c, claim_id = current_id c,
     claim_workspace_id = Some (workspace_id_of c), claim_workspace_root = workspace_root_of c\<rparr>"

definition owner_view_for_phase :: "owner_env \<Rightarrow> string \<Rightarrow> owner_project option \<Rightarrow> string \<Rightarrow> phase_owner_view option owner_act" where
  "owner_view_for_phase V root project phase =
     bind_act (load_phase_owner V phase) (\<lambda>loaded. ok (map_option (owner_view V (view_context_new V root project)) loaded))"

definition claim_phase_for_current_owner ::
  "owner_env \<Rightarrow> string \<Rightarrow> owner_project option \<Rightarrow> string \<Rightarrow> bool \<Rightarrow> phase_ownership_transition owner_act" where
  "claim_phase_for_current_owner V root project phase take_over =
     (let vc = view_context_new V root project; current = context_current vc in
      bind_act (load_phase_owner V phase) (\<lambda>previous.
      bind_act (case previous of
          Some p \<Rightarrow>
            (if \<not> owner_matches p current \<and> \<not> take_over
             then err (Refused (ownership_conflict_failure phase (owner_view V vc p))) else ok ())
        | None \<Rightarrow> ok ()) (\<lambda>_.
      bind_act (claim_phase_owner_if_current V phase (claim_of current)
          (map_option (\<lambda>p. (owner_kind p, owner_id p)) previous)) (\<lambda>claimed.
      bind_act (if claimed then ok ()
         else bind_act (load_phase_owner V phase) (\<lambda>loaded.
           case loaded of
             Some p \<Rightarrow>
               (if owner_matches p current then ok ()
                else err (Refused (ownership_conflict_failure phase (owner_view V vc p))))
           | None \<Rightarrow> err (Refused (ownership_changed_failure phase)))) (\<lambda>_.
      bind_act (load_phase_owner V phase) (\<lambda>loaded.
        case loaded of
          None \<Rightarrow> err PhaseOwnerMissing
        | Some p \<Rightarrow>
            (let new = owner_view V vc p; old = map_option (owner_view V vc) previous in
             ok \<lparr>owner = new, previous_owner = old,
                took_over = (case old of
                    None \<Rightarrow> False
                  | Some q \<Rightarrow> view_kind q \<noteq> view_kind new \<or> view_id q \<noteq> view_id new)\<rparr>)))))))"

definition ensure_phase_write_allowed ::
  "owner_env \<Rightarrow> string \<Rightarrow> owner_project option \<Rightarrow> string \<Rightarrow> unit owner_act" where
  "ensure_phase_write_allowed V root project phase =
     (let vc = view_context_new V root project; current = context_current vc in
      bind_act (load_phase_owner V phase) (\<lambda>loaded.
        case loaded of
          None \<Rightarrow>
            bind_act (claim_phase_owner_if_current V phase (claim_of current) None) (\<lambda>claimed.
              if claimed then ok ()
              else bind_act (load_phase_owner V phase) (\<lambda>loaded.
                case loaded of
                  None \<Rightarrow> err (Refused (ownership_changed_failure phase))
                | Some p \<Rightarrow>
                    (if owner_matches p current then ok ()
                     else err (Refused (ownership_conflict_failure phase (owner_view V vc p))))))
        | Some p \<Rightarrow>
            (if owner_matches p current then ok ()
             else err (Refused (ownership_conflict_failure phase (owner_view V vc p))))))"

definition release_phase_owner ::
  "owner_env \<Rightarrow> string \<Rightarrow> owner_project option \<Rightarrow> string \<Rightarrow> phase_owner_view option owner_act" where
  "release_phase_owner V root project phase =
     bind_act (load_phase_owner V phase) (\<lambda>loaded.
       case loaded of
         None \<Rightarrow> ok None
       | Some p \<Rightarrow>
           (let vc = view_context_new V root project; view = owner_view V vc p in
            if \<not> owner_matches p (context_current vc) \<and> \<not> stale view
            then err (Refused (ownership_conflict_failure phase view))
            else bind_act (clear_phase_owner_if_current V phase (owner_kind p) (owner_id p)) (\<lambda>cleared.
              if \<not> cleared then err (Refused (ownership_changed_failure phase)) else ok (Some view))))"

end
