(* ===== verification/Phase_Owner_Facts.thy ===== *)
theory Phase_Owner_Facts
  imports Phase_Owner
begin

text \<open>
  Ownership changes hands only through guarded statements: whatever other processes do between
  the statements of an operation, a claim without take-over and a write check never displace
  another owner, a take-over displaces only the owner it reports, and a release removes only an
  owner that was the caller's own or stale.
\<close>

section \<open>What an operation does to the database\<close>

definition all_steps :: "(owner_db \<Rightarrow> owner_db \<Rightarrow> bool) \<Rightarrow> owner_world \<Rightarrow> bool" where
  "all_steps Q w \<longleftrightarrow> (\<forall>(d, d') \<in> set (statements w). Q d d')"

text \<open>An act all of whose own statements satisfy \<open>Q\<close>, and an act that keeps the log.\<close>

definition acts :: "(owner_db \<Rightarrow> owner_db \<Rightarrow> bool) \<Rightarrow> 'a owner_act \<Rightarrow> bool" where
  "acts Q m \<longleftrightarrow> (\<forall>w. all_steps Q w \<longrightarrow> all_steps Q (fst (m w)))"

definition grows :: "'a owner_act \<Rightarrow> bool" where
  "grows m \<longleftrightarrow> (\<forall>w. set (statements w) \<subseteq> set (statements (fst (m w))))"

named_theorems act_intros "rules for acts and grows"

lemma acts_ok [act_intros]: "acts Q (ok x)" "acts Q (err e)" "grows (ok x)" "grows (err e)"
  by (simp_all add: acts_def grows_def ok_def err_def)

lemma acts_bind [act_intros]: "acts Q m \<Longrightarrow> (\<And>x. acts Q (f x)) \<Longrightarrow> acts Q (bind_act m f)"
  unfolding acts_def bind_act_def by (auto split: prod.split sum.split)

lemma grows_bind [act_intros]: "grows m \<Longrightarrow> (\<And>x. grows (f x)) \<Longrightarrow> grows (bind_act m f)"
  unfolding grows_def bind_act_def by (auto split: prod.split sum.split) (metis fst_conv subsetD)+

lemma acts_sql [act_intros]:
  "(\<And>t d. Q d d) \<Longrightarrow> (\<And>t d x d'. f t d = Inr (x, d') \<Longrightarrow> Q d d') \<Longrightarrow> acts Q (sql V f)"
  by (auto simp: acts_def all_steps_def sql_def Let_def split: sum.split)

lemma grows_sql [act_intros]: "grows (sql V f)"
  by (auto simp: grows_def sql_def Let_def split: sum.split)

text \<open>A step that changes one row at most, and only if \<open>over\<close> allows what was there.\<close>

definition claims :: "current_phase_owner \<Rightarrow> (phase_owner_data \<Rightarrow> bool) \<Rightarrow> owner_db \<Rightarrow> owner_db \<Rightarrow> bool" where
  "claims c over d d' \<longleftrightarrow> phase_ids d' = phase_ids d \<and> (\<forall>i. ownership d' i = ownership d i
     \<or> (\<exists>row. ownership d' i = Some row \<and> owner_matches row c \<and> (\<forall>o'. ownership d i = Some o' \<longrightarrow> over o')))"

lemma claims_refl [simp]: "claims c over d d"
  by (simp add: claims_def)

lemma claims_mono: "claims c over d d' \<Longrightarrow> (\<And>x. over x \<Longrightarrow> over' x) \<Longrightarrow> claims c over' d d'"
  unfolding claims_def by meson

lemma acts_mono: "acts Q m \<Longrightarrow> (\<And>d d'. Q d d' \<Longrightarrow> Q' d d') \<Longrightarrow> (\<And>w. all_steps Q' w) \<Longrightarrow> acts Q' m"
  by (simp add: acts_def)

lemma claimed_row_matches: "owner_matches (claimed_row (claim_of c) t old) c"
  by (simp add: owner_matches_def claimed_row_def claim_of_def)

lemma acts_load [act_intros]: "(\<And>d. Q d d) \<Longrightarrow> acts Q (load_phase_owner V p)" "grows (load_phase_owner V p)"
  unfolding load_phase_owner_def by (auto intro!: act_intros)

lemma acts_resolve [act_intros]: "(\<And>d. Q d d) \<Longrightarrow> acts Q (resolve_id V p)" "grows (resolve_id V p)"
  unfolding resolve_id_def by (auto intro!: act_intros split: option.splits)

lemma acts_update: "(\<And>x. guard x \<Longrightarrow> over x) \<Longrightarrow> acts (claims c over) (update_owner V i (claim_of c) guard)"
  unfolding update_owner_def
  by (rule acts_sql) (auto simp: claims_def claimed_row_matches split: option.splits if_splits)

lemma acts_insert: "acts (claims c over) (insert_owner V i (claim_of c))"
  unfolding insert_owner_def by (rule acts_sql) (auto simp: claims_def claimed_row_matches split: if_splits)

lemma grows_owner [act_intros]:
  "grows (update_owner V i c guard)" "grows (insert_owner V i c)" "grows (delete_owner V i guard)"
  unfolding update_owner_def insert_owner_def delete_owner_def by (rule grows_sql)+

lemma acts_claim_if_current:
  assumes "\<And>k j x. expected = Some (k, j) \<Longrightarrow> is_owner k j x \<Longrightarrow> over x"
  shows "acts (claims c over) (claim_phase_owner_if_current V p (claim_of c) expected)"
  unfolding claim_phase_owner_if_current_def
  by (intro act_intros) (use assms in \<open>auto intro!: acts_update acts_insert split: option.split\<close>)

lemma grows_claim_if_current [act_intros]: "grows (claim_phase_owner_if_current V p c expected)"
  unfolding claim_phase_owner_if_current_def by (intro act_intros) (auto intro!: act_intros split: option.split)

section \<open>Having held the phase\<close>

text \<open>At one of the operation's own statements the phase's row carried the caller's name.\<close>

definition held :: "current_phase_owner \<Rightarrow> string \<Rightarrow> owner_world \<Rightarrow> bool" where
  "held c p w \<longleftrightarrow> (\<exists>(d, d') \<in> set (statements w). \<exists>(e, e') \<in> set (statements w). \<exists>i row.
     phase_ids d p = Some i \<and> ownership e' i = Some row \<and> owner_matches row c)"

lemma held_grows: "held c p w \<Longrightarrow> grows m \<Longrightarrow> m w = (w', r) \<Longrightarrow> held c p w'"
proof -
  assume h: "held c p w" and g: "grows m" "m w = (w', r)"
  then have "set (statements w) \<subseteq> set (statements w')" by (metis fst_conv grows_def)
  with h show ?thesis unfolding held_def by blast
qed

lemma load_held: "load_phase_owner V p w = (w', Inr (Some row)) \<Longrightarrow> owner_matches row c \<Longrightarrow> held c p w'"
  by (auto simp: load_phase_owner_def sql_def Let_def held_def bind_eq_Some_conv)

lemma claim_held:
  assumes "claim_phase_owner_if_current V p (claim_of c) expected w = (w', Inr True)"
  shows "held c p w'"
proof -
  from assms obtain w1 i w2 rows where r: "resolve_id V p w = (w1, Inr i)"
    and u: "(case expected of Some (k, j) \<Rightarrow> update_owner V i (claim_of c) (is_owner k j) | None \<Rightarrow> insert_owner V i (claim_of c)) w1 = (w2, Inr rows)"
    and w2: "0 < rows" "w' = w2"
    by (auto simp: claim_phase_owner_if_current_def bind_Inr)
  from r obtain d where d: "(d, d) \<in> set (statements w1)" "phase_ids d p = Some i"
    by (fastforce simp: resolve_id_def sql_def Let_def split: option.splits)
  have "\<exists>e e' row. statements w2 = statements w1 @ [(e, e')] \<and> ownership e' i = Some row \<and> owner_matches row c"
    using u w2(1) claimed_row_matches
    by (auto simp: update_owner_def insert_owner_def sql_def Let_def split: option.splits if_splits prod.splits sum.splits)
  with d w2(2) show ?thesis unfolding held_def by force
qed

lemma context_current_new: "context_current (view_context_new V root project) = current_owner V root project"
  by (simp add: view_context_new_def)

lemma owner_matches_key: "owner_matches p c \<Longrightarrow> is_owner (owner_kind p) (owner_id p) x \<Longrightarrow> owner_matches x c"
  by (simp add: owner_matches_def is_owner_def)

lemma acts_reload:
  "acts (claims c over) (bind_act (load_phase_owner V p) (\<lambda>loaded. case loaded of
     None \<Rightarrow> err e | Some q \<Rightarrow> if P q then ok x else err (g q)))"
  by (intro act_intros) (auto intro!: act_intros split: option.split)

lemma acts_ensure:
  "acts (claims (current_owner V root project) (\<lambda>row. owner_matches row (current_owner V root project)))
     (ensure_phase_write_allowed V root project phase)"
  unfolding ensure_phase_write_allowed_def Let_def context_current_new
proof (rule acts_bind)
  fix loaded
  show "acts (claims (current_owner V root project) (\<lambda>row. owner_matches row (current_owner V root project)))
     (case loaded of
        None \<Rightarrow> bind_act (claim_phase_owner_if_current V phase (claim_of (current_owner V root project)) None)
          (\<lambda>claimed. if claimed then ok () else bind_act (load_phase_owner V phase) (\<lambda>loaded. case loaded of
             None \<Rightarrow> err (Refused (ownership_changed_failure phase))
           | Some p \<Rightarrow> if owner_matches p (current_owner V root project) then ok ()
               else err (Refused (ownership_conflict_failure phase (owner_view V (view_context_new V root project) p)))))
      | Some p \<Rightarrow> if owner_matches p (current_owner V root project) then ok ()
          else err (Refused (ownership_conflict_failure phase (owner_view V (view_context_new V root project) p))))"
    by (cases loaded) (auto intro!: acts_bind acts_claim_if_current acts_reload acts_ok)
qed (auto intro: acts_load)

text \<open>The part of a claim that follows the first load.\<close>

definition claim_rest ::
  "owner_env \<Rightarrow> string \<Rightarrow> owner_project option \<Rightarrow> string \<Rightarrow> bool \<Rightarrow> phase_owner_data option \<Rightarrow> phase_ownership_transition owner_act" where
  "claim_rest V root project phase take_over previous =
     (let vc = view_context_new V root project; current = context_current vc in
      bind_act (case previous of
          Some p \<Rightarrow>
            (if \<not> owner_matches p current \<and> \<not> take_over
             then err (Refused (ownership_conflict_failure phase (owner_view V vc p))) else ok ())
        | None \<Rightarrow> ok ()) (\<lambda>_.
      bind_act (claim_phase_owner_if_current V phase (claim_of current)
          (map_option (\<lambda>p. (owner_kind p, owner_id p)) previous)) (\<lambda>claimed.
      bind_act (if claimed then ok ()
         else bind_act (load_phase_owner V phase) (\<lambda>loaded.
           case loaded of
             Some p \<Rightarrow>
               (if owner_matches p current then ok ()
                else err (Refused (ownership_conflict_failure phase (owner_view V vc p))))
           | None \<Rightarrow> err (Refused (ownership_changed_failure phase)))) (\<lambda>_.
      bind_act (load_phase_owner V phase) (\<lambda>loaded.
        case loaded of
          None \<Rightarrow> err PhaseOwnerMissing
        | Some p \<Rightarrow>
            (let new = owner_view V vc p; old = map_option (owner_view V vc) previous in
             ok \<lparr>owner = new, previous_owner = old,
                took_over = (case old of
                    None \<Rightarrow> False
                  | Some q \<Rightarrow> view_kind q \<noteq> view_kind new \<or> view_id q \<noteq> view_id new)\<rparr>))))))"

lemma claim_split:
  "claim_phase_for_current_owner V root project phase take_over =
     bind_act (load_phase_owner V phase) (claim_rest V root project phase take_over)"
  unfolding claim_phase_for_current_owner_def claim_rest_def [abs_def] Let_def ..

lemma acts_claim_rest:
  assumes "\<And>p x. previous = Some p \<Longrightarrow> take_over \<or> owner_matches p (current_owner V root project) \<Longrightarrow>
    is_owner (owner_kind p) (owner_id p) x \<Longrightarrow> over x"
  shows "acts (claims (current_owner V root project) over) (claim_rest V root project phase take_over previous)"
proof -
  let ?c = "current_owner V root project"
  show ?thesis
  proof (cases "\<exists>p. previous = Some p \<and> \<not> owner_matches p ?c \<and> \<not> take_over")
    case True
    then show ?thesis by (auto simp: claim_rest_def Let_def context_current_new intro!: acts_ok)
  next
    case False
    then have "(case previous of Some p \<Rightarrow> if \<not> owner_matches p ?c \<and> \<not> take_over
        then err (Refused (ownership_conflict_failure phase (owner_view V (view_context_new V root project) p))) else ok ()
      | None \<Rightarrow> ok ()) = (ok () :: unit owner_act)" by (auto split: option.split)
    then show ?thesis
      unfolding claim_rest_def Let_def context_current_new
      by (simp only: bind_ok)
        (rule acts_bind [OF acts_claim_if_current],
          use assms False in \<open>force\<close>,
          rule acts_bind, auto intro!: acts_ok acts_bind acts_load split: option.split)
  qed
qed

lemma reload_Inr:
  "bind_act (load_phase_owner V p) (\<lambda>loaded. case loaded of
     Some q \<Rightarrow> (if P q then ok () else err (g q)) | None \<Rightarrow> err e) w = (w', Inr ()) \<Longrightarrow>
   \<exists>q. load_phase_owner V p w = (w', Inr (Some q)) \<and> P q"
  unfolding bind_Inr by (auto split: option.splits if_splits)

lemma claim_rest_held:
  assumes "claim_rest V root project phase take_over previous w = (w', Inr t)"
  shows "held (current_owner V root project) phase w'"
proof -
  let ?c = "current_owner V root project" and ?vc = "view_context_new V root project"
  from assms obtain w0 w1 claimed w2 w3 loaded and u :: unit where
    c: "claim_phase_owner_if_current V phase (claim_of ?c) (map_option (\<lambda>p. (owner_kind p, owner_id p)) previous) w0 = (w1, Inr claimed)"
    and l: "(if claimed then ok () else bind_act (load_phase_owner V phase) (\<lambda>loaded. case loaded of
        Some p \<Rightarrow> (if owner_matches p ?c then ok () else err (Refused (ownership_conflict_failure phase (owner_view V ?vc p))))
      | None \<Rightarrow> err (Refused (ownership_changed_failure phase)))) w1 = (w2, Inr u)"
    and e: "load_phase_owner V phase w2 = (w3, Inr loaded)" "(case loaded of None \<Rightarrow> err PhaseOwnerMissing
        | Some p \<Rightarrow> ok \<lparr>owner = owner_view V ?vc p, previous_owner = map_option (owner_view V ?vc) previous,
                took_over = (case map_option (owner_view V ?vc) previous of None \<Rightarrow> False
                  | Some q \<Rightarrow> view_kind q \<noteq> view_kind (owner_view V ?vc p) \<or> view_id q \<noteq> view_id (owner_view V ?vc p))\<rparr>) w3 = (w', Inr t)"
    unfolding claim_rest_def Let_def bind_Inr context_current_new by blast
  have "held ?c phase w2"
  proof (cases claimed)
    case True
    with l c have "claim_phase_owner_if_current V phase (claim_of ?c) (map_option (\<lambda>p. (owner_kind p, owner_id p)) previous) w0 = (w2, Inr True)"
      by simp
    then show ?thesis by (rule claim_held)
  next
    case False
    with l have "bind_act (load_phase_owner V phase) (\<lambda>loaded. case loaded of
        Some p \<Rightarrow> (if owner_matches p ?c then ok () else err (Refused (ownership_conflict_failure phase (owner_view V ?vc p))))
      | None \<Rightarrow> err (Refused (ownership_changed_failure phase))) w1 = (w2, Inr ())" by simp
    from reload_Inr [OF this] load_held show ?thesis by blast
  qed
  moreover have "w' = w3" using e(2) by (auto split: option.splits)
  ultimately show ?thesis using held_grows acts_load(2) e(1) by blast
qed

lemma ensure_held:
  assumes "ensure_phase_write_allowed V root project phase w = (w', Inr ())"
  shows "held (current_owner V root project) phase w'"
proof -
  let ?c = "current_owner V root project" and ?vc = "view_context_new V root project"
  from assms obtain w1 loaded where l: "load_phase_owner V phase w = (w1, Inr loaded)"
    and cont: "(case loaded of
        None \<Rightarrow> bind_act (claim_phase_owner_if_current V phase (claim_of ?c) None)
          (\<lambda>claimed. if claimed then ok () else bind_act (load_phase_owner V phase) (\<lambda>loaded. case loaded of
             None \<Rightarrow> err (Refused (ownership_changed_failure phase))
           | Some p \<Rightarrow> if owner_matches p ?c then ok ()
               else err (Refused (ownership_conflict_failure phase (owner_view V ?vc p)))))
      | Some p \<Rightarrow> if owner_matches p ?c then ok ()
          else err (Refused (ownership_conflict_failure phase (owner_view V ?vc p)))) w1 = (w', Inr ())"
    unfolding ensure_phase_write_allowed_def Let_def bind_Inr context_current_new by blast
  show ?thesis
  proof (cases loaded)
    case (Some p)
    with cont l show ?thesis by (auto split: if_splits intro: load_held)
  next
    case None
    with cont obtain w2 claimed where
      c: "claim_phase_owner_if_current V phase (claim_of ?c) None w1 = (w2, Inr claimed)"
      and r: "(if claimed then ok () else bind_act (load_phase_owner V phase) (\<lambda>loaded. case loaded of
             None \<Rightarrow> err (Refused (ownership_changed_failure phase))
           | Some p \<Rightarrow> if owner_matches p ?c then ok ()
               else err (Refused (ownership_conflict_failure phase (owner_view V ?vc p))))) w2 = (w', Inr ())"
      by (auto simp: bind_Inr)
    show ?thesis
    proof (cases claimed)
      case True
      with r c claim_held show ?thesis by auto
    next
      case False
      with r have "bind_act (load_phase_owner V phase) (\<lambda>loaded. case loaded of
          Some p \<Rightarrow> (if owner_matches p ?c then ok () else err (Refused (ownership_conflict_failure phase (owner_view V ?vc p))))
        | None \<Rightarrow> err (Refused (ownership_changed_failure phase))) w2 = (w', Inr ())" by simp
      from reload_Inr [OF this] load_held show ?thesis by blast
    qed
  qed
qed

section \<open>A sample\<close>

text \<open>
  Two worktrees of one repository; another process claims the phase for branch \<open>topic\<close> just
  before the second statement runs.
\<close>

definition sample_owner :: "string \<Rightarrow> phase_owner_data" where
  "sample_owner branch = \<lparr>owner_kind = ''branch'', owner_id = branch, claimed_by_workspace_id = None,
     claimed_by_workspace_root = None, claimed_at = ''t0'', updated_at = ''t0''\<rparr>"

definition sample_env :: owner_env where
  "sample_env = \<lparr>path_exists = (\<lambda>_. True), canonicalize = (\<lambda>_. None), git_head = (\<lambda>_. Some (True, ''main'')),
     git_refs = (\<lambda>_. Some (True, ''main'')), git_worktrees = (\<lambda>_. None), hex_blake3 = (\<lambda>_. ''0123''),
     others = (\<lambda>n d. if n = 1 then d\<lparr>ownership := (ownership d)(7 \<mapsto> sample_owner ''topic'')\<rparr> else d),
     now = (\<lambda>n. ''t1'')\<rparr>"

definition sample_world :: "nat \<Rightarrow> owner_world" where
  "sample_world n = \<lparr>odb = \<lparr>phase_ids = [''p'' \<mapsto> 7], ownership = Map.empty\<rparr>, clock = n, statements = []\<rparr>"

lemma sample_current:
  "current_owner sample_env ''/w'' None = \<lparr>current_kind = ''branch'', current_id = ''main'', owner_basis = ''branch'',
     workspace_id_of = ''workspace:unresolved:0123'', workspace_root_of = Some ''/w'', branch_of = Some ''main''\<rparr>"
  by code_simp

lemma sample_others:
  "others sample_env n d = (if n = 1 then d\<lparr>ownership := (ownership d)(7 \<mapsto> sample_owner ''topic'')\<rparr> else d)"
  "now sample_env n = ''t1''"
  by (simp_all add: sample_env_def)

lemma sample_owner_key [simp]: "owner_kind (sample_owner b) = ''branch''" "owner_id (sample_owner b) = b"
  by (simp_all add: sample_owner_def)

lemma sample_branches: "local_branches (view_context_new sample_env ''/w'' None) = Some {''main''}"
  by code_simp

lemma sample_stale: "stale (owner_view sample_env (view_context_new sample_env ''/w'' None) (sample_owner ''topic''))"
  by (simp add: owner_view_def Let_def stale_reason_of_def sample_owner_def branch_stale_reason_def sample_branches)

lemmas sample_simps =
  sample_env_def sample_world_def sample_owner_def bind_act_def sql_def load_phase_owner_def resolve_id_def insert_owner_def
  update_owner_def delete_owner_def claim_phase_owner_if_current_def clear_phase_owner_if_current_def ok_def err_def Let_def
  context_current_new valid_kind_def owner_matches_def is_owner_def claim_of_def claimed_row_def

text \<open>
  C25. No race lets a write slip past ownership: whatever other processes do between its
  statements, checking for write permission or claiming a phase without take-over never
  changes a row another owner holds; every change it makes puts the caller's name on a free
  row or on one that was already the caller's. If it succeeds, the phase's row carried the
  caller's name at one of its statements.
\<close>

theorem ownership_needs_free_or_own:
  assumes "statements w = []"
    and "m = (bind_act (claim_phase_for_current_owner V root project phase False) (\<lambda>_. ok ())) \<or>
         m = ensure_phase_write_allowed V root project phase"
    and "m w = (w', r)"
  shows "(\<forall>(d, d') \<in> set (statements w').
      claims (current_owner V root project) (\<lambda>row. owner_matches row (current_owner V root project)) d d')
    \<and> (r = Inr () \<longrightarrow> held (current_owner V root project) phase w')"
proof -
  let ?c = "current_owner V root project" and ?Q = "claims (current_owner V root project) (\<lambda>row. owner_matches row (current_owner V root project))"
  have "acts ?Q (bind_act (claim_phase_for_current_owner V root project phase False) (\<lambda>_. ok ()))"
    unfolding claim_split by (intro acts_bind acts_ok acts_load acts_claim_rest) (auto intro: owner_matches_key)
  with assms(2) acts_ensure have "acts ?Q m" by blast
  moreover have "all_steps ?Q w" using assms(1) by (simp add: all_steps_def)
  ultimately have "all_steps ?Q w'" using assms(3) by (metis acts_def fst_conv)
  moreover have "held ?c phase w'" if "r = Inr ()"
    using assms(2)
  proof
    assume "m = bind_act (claim_phase_for_current_owner V root project phase False) (\<lambda>_. ok ())"
    with assms(3) that obtain t w1 x where "claim_rest V root project phase False t w1 = (w', Inr x)"
      unfolding claim_split by (auto simp: bind_Inr)
    then show ?thesis using claim_rest_held by blast
  next
    assume "m = ensure_phase_write_allowed V root project phase"
    with assms(3) that ensure_held show ?thesis by blast
  qed
  ultimately show ?thesis by (simp add: all_steps_def)
qed

theorem ownership_needs_free_or_own_witness:
  "held (current_owner sample_env ''/w'' None) ''p''
     (fst (ensure_phase_write_allowed sample_env ''/w'' None ''p'' (sample_world 2)))"
proof -
  have "snd (ensure_phase_write_allowed sample_env ''/w'' None ''p'' (sample_world 2)) = Inr ()"
    unfolding ensure_phase_write_allowed_def context_current_new sample_current Let_def
    by (simp add: sample_simps ran_def)
  then have "ensure_phase_write_allowed sample_env ''/w'' None ''p'' (sample_world 2) =
      (fst (ensure_phase_write_allowed sample_env ''/w'' None ''p'' (sample_world 2)), Inr ())"
    by (metis prod.collapse)
  from ownership_needs_free_or_own [OF _ disjI2 [OF refl] this] show ?thesis by (simp add: sample_world_def)
qed

text \<open>A step that removes rows at most, and only those \<open>over\<close> allows.\<close>

definition removes :: "(phase_owner_data \<Rightarrow> bool) \<Rightarrow> owner_db \<Rightarrow> owner_db \<Rightarrow> bool" where
  "removes over d d' \<longleftrightarrow> phase_ids d' = phase_ids d \<and> (\<forall>i. ownership d' i = ownership d i
     \<or> (ownership d' i = None \<and> (\<exists>row. ownership d i = Some row \<and> over row)))"

lemma removes_refl [simp]: "removes over d d"
  by (simp add: removes_def)

lemma acts_clear_if_current: "acts (removes (is_owner k j)) (clear_phase_owner_if_current V p k j)"
  unfolding clear_phase_owner_if_current_def delete_owner_def
  by (intro act_intros) (auto simp: removes_def split: option.splits if_splits)

lemma load_steps:
  "load_phase_owner V p w = (w', r) \<Longrightarrow> all_steps Q w \<Longrightarrow> (\<And>d. Q d d) \<Longrightarrow> all_steps Q w'"
  using acts_load(1) [of Q V p] by (metis acts_def fst_conv)

lemma claim_rest_previous:
  assumes "claim_rest V root project phase take_over previous w = (w', Inr t)"
  shows "previous_owner t = map_option (owner_view V (view_context_new V root project)) previous"
  using assms unfolding claim_rest_def Let_def bind_Inr by (auto split: option.splits)

lemma view_key [simp]: "view_kind (owner_view V vc p) = owner_kind p" "view_id (owner_view V vc p) = owner_id p"
  "owned_here (owner_view V vc p) = owner_matches p (context_current vc)"
  by (simp_all add: owner_view_def Let_def)

text \<open>
  A take-over reports whom it displaced: when claiming a phase (with or without
  \<open>--take-over\<close>) succeeds, every change its own statements made wrote the caller's name over a
  free row or over a row of exactly the owner returned as \<open>previous_owner\<close>, even if that owner
  changed between the load and the claim.
\<close>

theorem take_over_reports_displaced:
  assumes "statements w = []"
    and "claim_phase_for_current_owner V root project phase take_over w = (w', Inr t)"
  shows "all_steps (claims (current_owner V root project)
      (\<lambda>row. \<exists>q. previous_owner t = Some q \<and> is_owner (view_kind q) (view_id q) row)) w'"
proof -
  from assms(2) obtain previous w1 where l: "load_phase_owner V phase w = (w1, Inr previous)"
    and r: "claim_rest V root project phase take_over previous w1 = (w', Inr t)"
    unfolding claim_split bind_Inr by blast
  let ?over = "\<lambda>row. \<exists>q. previous_owner t = Some q \<and> is_owner (view_kind q) (view_id q) row"
  let ?Q = "claims (current_owner V root project) ?over"
  have "acts ?Q (claim_rest V root project phase take_over previous)"
    using claim_rest_previous [OF r] by (intro acts_claim_rest) auto
  moreover have "all_steps ?Q w1"
    by (rule load_steps [OF l]) (simp_all add: all_steps_def assms(1))
  ultimately show ?thesis using r by (metis acts_def fst_conv)
qed

theorem take_over_reports_displaced_witness:
  "\<exists>w' t. claim_phase_for_current_owner sample_env ''/w'' None ''p'' True (sample_world 1) = (w', Inr t)
     \<and> all_steps (claims (current_owner sample_env ''/w'' None)
         (\<lambda>row. \<exists>q. previous_owner t = Some q \<and> is_owner (view_kind q) (view_id q) row)) w'"
proof -
  have "\<exists>w' t. claim_phase_for_current_owner sample_env ''/w'' None ''p'' True (sample_world 1) = (w', Inr t)"
    unfolding claim_phase_for_current_owner_def context_current_new sample_current Let_def
    by (simp add: sample_simps)
  then obtain w' t where c: "claim_phase_for_current_owner sample_env ''/w'' None ''p'' True (sample_world 1) = (w', Inr t)"
    by blast
  with take_over_reports_displaced [OF _ c] show ?thesis by (auto simp: sample_world_def)
qed

text \<open>
  A release removes only what it says: if \<open>phase release\<close> reports a view, every change its
  own statements made deleted a row of exactly that owner, and that owner was the caller's own or
  found stale; if it reports nothing or fails, it changed nothing.
\<close>

theorem release_removes_own_or_stale:
  assumes "statements w = []"
    and "release_phase_owner V root project phase w = (w', r)"
  shows "case r of
      Inr (Some v) \<Rightarrow> (owned_here v \<or> stale v) \<and> all_steps (removes (is_owner (view_kind v) (view_id v))) w'
    | _ \<Rightarrow> all_steps (=) w'"
proof -
  let ?vc = "view_context_new V root project"
  obtain w1 previous where l: "load_phase_owner V phase w = (w1, Inr previous)"
    by (simp add: load_phase_owner_def sql_def Let_def)
  have s1: "all_steps Q w1" if "\<And>d. Q d d" for Q :: "owner_db \<Rightarrow> owner_db \<Rightarrow> bool"
    by (rule load_steps [OF l]) (simp_all add: all_steps_def assms(1) that)
  show ?thesis
  proof (cases "previous = None \<or> (\<exists>p. previous = Some p \<and> \<not> owner_matches p (context_current ?vc) \<and> \<not> stale (owner_view V ?vc p))")
    case True
    with assms(2) l s1 [of "(=)"] show ?thesis
      unfolding release_phase_owner_def bind_act_def Let_def by (auto simp: ok_def err_def)
  next
    case False
    then obtain p where p: "previous = Some p" "owner_matches p (context_current ?vc) \<or> stale (owner_view V ?vc p)" by auto
    obtain w2 r2 where c: "clear_phase_owner_if_current V phase (owner_kind p) (owner_id p) w1 = (w2, r2)" by fastforce
    have r: "w' = w2" "r = (case r2 of Inl e \<Rightarrow> Inl e | Inr cleared \<Rightarrow>
        if cleared then Inr (Some (owner_view V ?vc p)) else Inl (Refused (ownership_changed_failure phase)))"
      using assms(2) l p c unfolding release_phase_owner_def bind_act_def Let_def
      by (auto simp: ok_def err_def split: sum.splits if_splits)
    show ?thesis
    proof (cases "r2 = Inr True")
      case True
      have "all_steps (removes (is_owner (owner_kind p) (owner_id p))) w2"
        using acts_clear_if_current s1 c removes_refl by (metis acts_def fst_conv)
      with True p(2) r show ?thesis by simp
    next
      case False
      with c have "statements w2 = statements w1 \<or> (\<exists>d. statements w2 = statements w1 @ [(d, d)])
          \<or> (\<exists>d e. statements w2 = statements w1 @ [(d, d), (e, e)])"
        by (auto simp: clear_phase_owner_if_current_def delete_owner_def resolve_id_def bind_act_def sql_def Let_def ok_def
            split: option.splits if_splits)
      with s1 [of "(=)"] have "all_steps (=) w2" by (auto simp: all_steps_def)
      with False r show ?thesis by (cases r2) auto
    qed
  qed
qed

theorem release_removes_own_or_stale_witness:
  "\<exists>w' v. release_phase_owner sample_env ''/w'' None ''p'' (sample_world 1) = (w', Inr (Some v))
     \<and> stale v \<and> all_steps (removes (is_owner (view_kind v) (view_id v))) w'"
proof -
  have "\<exists>w' v. release_phase_owner sample_env ''/w'' None ''p'' (sample_world 1) = (w', Inr (Some v)) \<and> \<not> owned_here v"
    unfolding release_phase_owner_def Let_def view_key context_current_new sample_current
    using sample_stale
    by (simp add: context_current_new sample_current load_phase_owner_def sql_def sample_world_def sample_others bind_act_def ok_def
        clear_phase_owner_if_current_def resolve_id_def delete_owner_def owner_matches_def is_owner_def Let_def)
  then obtain w' v where c: "release_phase_owner sample_env ''/w'' None ''p'' (sample_world 1) = (w', Inr (Some v))"
    and "\<not> owned_here v" by blast
  with release_removes_own_or_stale [OF _ c] show ?thesis by (auto simp: sample_world_def)
qed

end
