(* ===== verification/Reactive_Core.thy ===== *)
theory Reactive_Core
  imports Prelude
begin

text \<open>
  The shared vocabulary of the reactive crates: cell ids, revisions and traces
  (\<open>crates/exosuit-reactivity-core/src\<close>) and the trace digest
  (\<open>crates/exosuit-reactivity/src/trace.rs\<close>). \<open>Trace::validate\<close> is generic over the
  \<open>StateProvider\<close> trait; the trait is the locale \<open>state_provider\<close>, which the engine and the
  SQLite revision store interpret in their own theories.
\<close>

section \<open>Cell ids and revisions\<close>

datatype cell_id = CellId (source_id: string) (pointer: string)

definition cell_new :: "string \<Rightarrow> string \<Rightarrow> cell_id" where
  "cell_new s p = CellId s p"

definition cell_root :: "string \<Rightarrow> cell_id" where
  "cell_root s = CellId s []"

lemma cell_root_simps [simp]: "source_id (cell_root s) = s" "pointer (cell_root s) = []"
  by (simp_all add: cell_root_def)

lemma cell_root_eq_iff [simp]: "cell_root s = cell_root t \<longleftrightarrow> s = t"
  by (simp add: cell_root_def)

datatype epoch = Epoch (uuid: "128 word")

datatype revision =
    Memory epoch u64
  | Disk string
  | Counter u64
  | Impure string u64

text \<open>The derived orders.\<close>

fun revision_key :: "revision \<Rightarrow> nat \<times> nat \<times> string \<times> nat" where
  "revision_key (Memory e c) = (0, unat (uuid e), [], unat c)"
| "revision_key (Disk h) = (1, 0, h, 0)"
| "revision_key (Counter v) = (2, 0, [], unat v)"
| "revision_key (Impure h n) = (3, 0, h, unat n)"

lemma inj_revision_key: "inj revision_key"
proof (rule injI)
  fix x y :: revision
  assume "revision_key x = revision_key y"
  then show "x = y" by (cases x; cases y) (auto simp: word_unat_eq_iff intro: epoch.expand)
qed

instantiation cell_id :: linorder
begin

definition "less_eq (a::cell_id) b \<longleftrightarrow> (source_id a, pointer a) \<le> (source_id b, pointer b)"
definition "less (a::cell_id) b \<longleftrightarrow> (source_id a, pointer a) < (source_id b, pointer b)"

instance
  by standard (auto simp: less_eq_cell_id_def less_cell_id_def intro: cell_id.expand)

end

instantiation revision :: linorder
begin

definition "less_eq (a::revision) b \<longleftrightarrow> revision_key a \<le> revision_key b"
definition "less (a::revision) b \<longleftrightarrow> revision_key a < revision_key b"

instance
proof
  fix x y :: revision
  assume "x \<le> y" "y \<le> x"
  then show "x = y"
    by (metis antisym inj_revision_key injD less_eq_revision_def)
qed (auto simp: less_eq_revision_def less_revision_def)

end

datatype trace_entry = TraceEntry (entry_cell: cell_id) (entry_revision: revision)

instantiation trace_entry :: linorder
begin

definition "less_eq (a::trace_entry) b \<longleftrightarrow>
  (entry_cell a, entry_revision a) \<le> (entry_cell b, entry_revision b)"
definition "less (a::trace_entry) b \<longleftrightarrow>
  (entry_cell a, entry_revision a) < (entry_cell b, entry_revision b)"

instance
  by standard (auto simp: less_eq_trace_entry_def less_trace_entry_def intro: trace_entry.expand)

end

section \<open>Traces\<close>

text \<open>
  Resource arguments are \<open>serde_json\<close> values, a type of another crate: the model is
  polymorphic in them.
\<close>

record 'v resource_spec =
  type_id :: string
  args :: 'v

record 'v trace =
  dependencies :: "trace_entry list"
  resources :: "'v resource_spec list"

definition trace_new :: "'v trace" where
  "trace_new = \<lparr>dependencies = [], resources = []\<rparr>"

definition trace_record :: "cell_id \<Rightarrow> revision \<Rightarrow> 'v trace \<Rightarrow> 'v trace" where
  "trace_record c r t = t\<lparr>dependencies := bset_insert (TraceEntry c r) (dependencies t)\<rparr>"

definition record_resource :: "'v resource_spec \<Rightarrow> 'v trace \<Rightarrow> 'v trace" where
  "record_resource s t = t\<lparr>resources := resources t @ [s]\<rparr>"

definition trace_inv :: "'v trace \<Rightarrow> bool" where
  "trace_inv t \<longleftrightarrow> bset_inv (dependencies t)"

lemma trace_inv_new [simp, inv_intros]: "trace_inv trace_new"
  by (simp add: trace_inv_def trace_new_def)

lemma trace_inv_record [simp, inv_intros]: "trace_inv t \<Longrightarrow> trace_inv (trace_record c r t)"
  by (simp add: trace_inv_def trace_record_def)

lemma trace_inv_resource [simp, inv_intros]: "trace_inv t \<Longrightarrow> trace_inv (record_resource s t)"
  by (simp add: trace_inv_def record_resource_def)

lemma trace_record_simps [simp]:
  "set (dependencies (trace_record c r t)) = insert (TraceEntry c r) (set (dependencies t))"
  "resources (trace_record c r t) = resources t"
  by (simp_all add: trace_record_def)

section \<open>Validation against a state provider\<close>

text \<open>
  \<open>get_revision\<close> takes the provider by mutable reference, so it returns the provider's next
  state; \<open>None\<close> at the outer level is a call that does not return (the engine's lookup is
  recursive). The loop of \<open>Trace::validate\<close> visits the entries in the order of the
  \<open>BTreeSet\<close> and returns at the first mismatch.
\<close>

type_synonym 'st provider = "'st \<Rightarrow> cell_id \<Rightarrow> ('st \<times> revision option) option"

fun validate_entries :: "'st provider \<Rightarrow> trace_entry list \<Rightarrow> 'st \<Rightarrow> ('st \<times> bool) option" where
  "validate_entries get [] st = Some (st, True)"
| "validate_entries get (e # es) st =
     (case get st (entry_cell e) of
        None \<Rightarrow> None
      | Some (st', Some current_rev) \<Rightarrow>
          (if current_rev \<noteq> entry_revision e then Some (st', False)
           else validate_entries get es st')
      | Some (st', None) \<Rightarrow> Some (st', False))"

definition validate :: "'st provider \<Rightarrow> 'v trace \<Rightarrow> 'st \<Rightarrow> ('st \<times> bool) option" where
  "validate get t st = validate_entries get (dependencies t) st"

lemma validate_entries_preserves:
  assumes "\<And>st c st' r. get st c = Some (st', r) \<Longrightarrow> f st' = f st"
  shows "validate_entries get es st = Some (st', b) \<Longrightarrow> f st' = f st"
proof (induction es arbitrary: st)
  case Nil
  then show ?case by simp
next
  case (Cons e es)
  then obtain st1 r where g: "get st (entry_cell e) = Some (st1, r)"
    by (auto split: option.splits)
  with Cons.prems have "st' = st1 \<or> validate_entries get es st1 = Some (st', b)"
    by (auto split: option.splits if_splits)
  then show ?case using Cons.IH assms [OF g] by auto
qed

lemma validate_preserves:
  assumes "validate get t st = Some (st', b)"
    and "\<And>st c st' r. get st c = Some (st', r) \<Longrightarrow> f st' = f st"
  shows "f st' = f st"
  using validate_entries_preserves [of get f] assms by (simp add: validate_def)

text \<open>
  The contract of a provider: an answer is the provider's observable revision, a lookup
  leaves every observable revision and the acceptance as they were (it may refresh caches
  and usage marks), and on a cell the provider accepts the lookup returns.
\<close>

locale state_provider =
  fixes get :: "'st provider"
    and look :: "'st \<Rightarrow> cell_id \<Rightarrow> revision option"
    and ok :: "'st \<Rightarrow> cell_id \<Rightarrow> bool"
  assumes get_sound: "get st c = Some (st', r) \<Longrightarrow> r = look st c"
    and get_frame: "get st c = Some (st', r) \<Longrightarrow> look st' = look st \<and> ok st' = ok st"
    and get_total: "ok st c \<Longrightarrow> get st c \<noteq> None"
begin

lemma validate_entries_sound:
  "validate_entries get es st = Some (st', b) \<Longrightarrow>
     b = (\<forall>e \<in> set es. look st (entry_cell e) = Some (entry_revision e))
   \<and> look st' = look st \<and> ok st' = ok st"
proof (induction es arbitrary: st)
  case Nil
  then show ?case by simp
next
  case (Cons e es)
  then obtain st1 r where g: "get st (entry_cell e) = Some (st1, r)"
    by (auto split: option.splits)
  note facts = get_sound [OF g] get_frame [OF g]
  show ?case
  proof (cases "r = Some (entry_revision e)")
    case True
    with Cons.prems g have "validate_entries get es st1 = Some (st', b)" by simp
    from Cons.IH [OF this] facts True show ?thesis by auto
  next
    case False
    with Cons.prems g have "st' = st1 \<and> \<not> b" by (auto split: option.splits if_splits)
    with facts False show ?thesis by auto
  qed
qed

lemma validate_entries_total:
  "\<forall>e \<in> set es. ok st (entry_cell e) \<Longrightarrow> validate_entries get es st \<noteq> None"
proof (induction es arbitrary: st)
  case Nil
  then show ?case by simp
next
  case (Cons e es)
  then obtain st1 r where g: "get st (entry_cell e) = Some (st1, r)"
    using get_total [of st "entry_cell e"] by auto
  with Cons show ?case
    using get_frame [OF g] by (auto split: option.splits)
qed

lemma validate_sound:
  "validate get t st = Some (st', b) \<Longrightarrow>
     b = (\<forall>e \<in> set (dependencies t). look st (entry_cell e) = Some (entry_revision e))"
  using validate_entries_sound by (auto simp: validate_def)

lemma validate_frame:
  "validate get t st = Some (st', b) \<Longrightarrow> look st' = look st \<and> ok st' = ok st"
  using validate_entries_sound by (auto simp: validate_def)

lemma validate_total:
  "\<forall>e \<in> set (dependencies t). ok st (entry_cell e) \<Longrightarrow> validate get t st \<noteq> None"
  using validate_entries_total by (simp add: validate_def)

lemma validate_correct:
  assumes "\<forall>e \<in> set (dependencies t). ok st (entry_cell e)"
  shows "\<exists>st'. validate get t st =
      Some (st', \<forall>e \<in> set (dependencies t). look st (entry_cell e) = Some (entry_revision e))
    \<and> look st' = look st"
proof -
  from validate_total [OF assms] obtain st' b where "validate get t st = Some (st', b)" by auto
  then show ?thesis using validate_sound validate_frame by blast
qed

end

section \<open>The trace digest\<close>

text \<open>
  SHA-256, hex encoding, \<open>bincode\<close> and JSON printing are functions of other crates; the
  digest is parameterised over them. Feeding a hasher piece by piece is hashing the
  concatenation.
\<close>

record 'v digest_fns =
  sha256 :: "string \<Rightarrow> string"
  hex_encode :: "string \<Rightarrow> string"
  epoch_bytes :: "epoch \<Rightarrow> string"
  args_string :: "'v \<Rightarrow> string"

fun revision_bytes :: "'v digest_fns \<Rightarrow> revision \<Rightarrow> string" where
  "revision_bytes D (Memory e c) = ''mem'' @ epoch_bytes D e @ le_bytes64 c"
| "revision_bytes D (Disk h) = ''disk'' @ h"
| "revision_bytes D (Counter v) = ''counter'' @ le_bytes64 v"
| "revision_bytes D (Impure h n) = ''impure'' @ h @ le_bytes64 n"

definition entry_bytes :: "'v digest_fns \<Rightarrow> trace_entry \<Rightarrow> string" where
  "entry_bytes D e = source_id (entry_cell e) @ pointer (entry_cell e) @ revision_bytes D (entry_revision e)"

definition resource_bytes :: "'v digest_fns \<Rightarrow> 'v resource_spec \<Rightarrow> string" where
  "resource_bytes D r = type_id r @ args_string D (args r)"

definition digest :: "'v digest_fns \<Rightarrow> 'v trace \<Rightarrow> string" where
  "digest D t = hex_encode D (sha256 D
     (concat (map (sha256 D \<circ> entry_bytes D) (dependencies t)) @
      concat (map (sha256 D \<circ> resource_bytes D) (resources t))))"

text \<open>Recording order does not reach the digest: the dependencies are an ordered set.\<close>

fun record_all :: "(cell_id \<times> revision) list \<Rightarrow> 'v trace \<Rightarrow> 'v trace" where
  "record_all [] t = t"
| "record_all ((c, r) # ps) t = record_all ps (trace_record c r t)"

lemma record_all_simps [simp]:
  "set (dependencies (record_all ps t)) = (\<lambda>(c, r). TraceEntry c r) ` set ps \<union> set (dependencies t)"
  "resources (record_all ps t) = resources t"
  by (induction ps t rule: record_all.induct) auto

lemma trace_inv_record_all [simp, inv_intros]: "trace_inv t \<Longrightarrow> trace_inv (record_all ps t)"
  by (induction ps t rule: record_all.induct) auto

text \<open>
  The digest of a recorded trace does not depend on the order in which the reads were
  recorded nor on how often one was repeated.
\<close>

theorem digest_order_independent:
  fixes D :: "'v digest_fns"
  assumes "set ps = set qs"
  shows "digest D (record_all ps trace_new) = digest D (record_all qs trace_new)"
proof -
  let ?p = "record_all ps trace_new :: 'v trace" and ?q = "record_all qs trace_new :: 'v trace"
  have "bset_inv (dependencies ?p)" "bset_inv (dependencies ?q)"
    using trace_inv_record_all [OF trace_inv_new] by (simp_all add: trace_inv_def)
  moreover have "set (dependencies ?p) = set (dependencies ?q)" using assms by simp
  ultimately have "dependencies ?p = dependencies ?q" by (rule bset_eqI)
  then show ?thesis by (simp add: digest_def)
qed

definition plain_fns :: "unit digest_fns" where
  "plain_fns = \<lparr>sha256 = id, hex_encode = id, epoch_bytes = (\<lambda>_. []), args_string = (\<lambda>_. [])\<rparr>"

theorem digest_order_independent_witness:
  "digest plain_fns (record_all [(cell_root ''a'', Disk ''1''), (cell_root ''b'', Disk ''2'')] trace_new) =
   digest plain_fns (record_all [(cell_root ''b'', Disk ''2''), (cell_root ''a'', Disk ''1''),
     (cell_root ''b'', Disk ''2'')] trace_new)"
  by (rule digest_order_independent) auto

text \<open>
  The digest does not see where the source id of a cell ends and its pointer begins: both
  are hashed without a separator, so two traces over different cells have the same digest.
\<close>

theorem digest_ignores_cell_boundary:
  "digest D (trace_record (CellId (s @ t) p) r trace_new) = digest D (trace_record (CellId s (t @ p)) r trace_new)
   \<and> (t \<noteq> [] \<longrightarrow> CellId (s @ t) p \<noteq> CellId s (t @ p))"
  by (simp add: digest_def trace_record_def trace_new_def bset_insert_def entry_bytes_def)

theorem digest_ignores_cell_boundary_witness:
  "digest plain_fns (trace_record (CellId ''ab'' ''c'') (Disk ''1'') trace_new) =
   digest plain_fns (trace_record (CellId ''a'' ''bc'') (Disk ''1'') trace_new)"
  using digest_ignores_cell_boundary [of plain_fns "''a''" "''b''" "''c''" "Disk ''1''"] by simp

end
