(* ===== verification/Engine.thy ===== *)
theory Engine
  imports Reactive_Core
begin

text \<open>
  The reactive engine, \<open>crates/exosuit-reactivity/src/engine.rs\<close>: the cells' revisions with
  their usage marks, the registered roots, the snapshots pinned by digest, the reverse
  dependency index and the source index. One definition per method, in the file's order.

  Instants are nanoseconds on the monotonic clock and are arguments of the operations that
  read it. \<open>get_revision\<close> and \<open>Trace::validate\<close> call each other through the roots; the call
  depth is the fuel of the model, and running out of it is the stack overflow of the code.
\<close>

section \<open>State\<close>

record 'v root =
  root_trace :: "'v trace"
  root_value :: 'v
  root_digest :: string

datatype fetch_error =
    NotFound
  | Stale string string
  | Corrupted

record cell_entry =
  ce_revision :: revision
  last_used :: u64

record 'v engine =
  current_state :: "cell_id \<rightharpoonup> cell_entry"
  snapshots :: "string \<rightharpoonup> 'v root \<times> nat"
  retention_window :: nat
  roots :: "string \<rightharpoonup> 'v root"
  reverse_deps :: "cell_id \<rightharpoonup> string set"
  source_index :: "string \<rightharpoonup> cell_id set"
  current_transaction :: u64

definition engine_new :: "nat \<Rightarrow> 'v engine" where
  "engine_new window =
     \<lparr>current_state = Map.empty, snapshots = Map.empty, retention_window = window,
      roots = Map.empty, reverse_deps = Map.empty, source_index = Map.empty,
      current_transaction = 1\<rparr>"

section \<open>Transactions\<close>

definition begin_transaction :: "'v engine \<Rightarrow> 'v engine" where
  "begin_transaction e = e\<lparr>current_transaction := current_transaction e + 1\<rparr>"

text \<open>
  \<open>end_transaction\<close> collects the ids of the unused cells, then removes each; \<open>keys\<close> is the
  iteration order of the \<open>HashMap\<close> of cells.
\<close>

definition unused :: "'v engine \<Rightarrow> cell_id \<Rightarrow> bool" where
  "unused e c = (case current_state e c of
      None \<Rightarrow> False
    | Some entry \<Rightarrow> last_used entry < current_transaction e)"

definition collect_cell :: "cell_id \<Rightarrow> 'v engine \<Rightarrow> 'v engine" where
  "collect_cell c e =
     (let e' = e\<lparr>current_state := (current_state e)(c := None)\<rparr> in
      case source_index e' (source_id c) of
        None \<Rightarrow> e'
      | Some cells \<Rightarrow>
          (let cells' = cells - {c} in
           e'\<lparr>source_index := (source_index e')(source_id c :=
               (if cells' = {} then None else Some cells'))\<rparr>))"

definition end_transaction :: "cell_id list \<Rightarrow> 'v engine \<Rightarrow> 'v engine" where
  "end_transaction keys e = fold collect_cell (filter (unused e) keys) e"

section \<open>Cells\<close>

definition set_cell :: "cell_id \<Rightarrow> revision \<Rightarrow> 'v engine \<Rightarrow> 'v engine" where
  "set_cell c r e =
     e\<lparr>current_state := (current_state e)
         (c \<mapsto> \<lparr>ce_revision = r, last_used = current_transaction e\<rparr>),
       source_index := (source_index e)
         (source_id c \<mapsto> insert c (members (source_index e) (source_id c)))\<rparr>"

definition bump_cell :: "cell_id \<Rightarrow> revision \<Rightarrow> 'v engine \<Rightarrow> 'v engine" where
  "bump_cell c new_revision e = set_cell c new_revision e"

definition subscribers :: "'v engine \<Rightarrow> cell_id \<Rightarrow> string set" where
  "subscribers e c = members (reverse_deps e) c"

definition invalidate_cell :: "cell_id \<Rightarrow> 'v engine \<Rightarrow> 'v engine \<times> string set" where
  "invalidate_cell c e =
     (case (if pointer c = [] then source_index e (source_id c) else None) of
        Some cells \<Rightarrow>
          (e\<lparr>source_index := (source_index e)(source_id c := None),
             current_state := (\<lambda>d. if d \<in> cells then None else current_state e d)\<rparr>,
           \<Union> (subscribers e ` cells))
      | None \<Rightarrow>
          (e\<lparr>current_state := (current_state e)(c := None)\<rparr>, subscribers e c))"

definition get_root :: "string \<Rightarrow> 'v engine \<Rightarrow> 'v root option" where
  "get_root root_id e = roots e root_id"

definition get_revision_snapshot :: "cell_id \<Rightarrow> 'v engine \<Rightarrow> revision option" where
  "get_revision_snapshot c e = map_option ce_revision (current_state e c)"

section \<open>Roots\<close>

fun remove_reverse_deps ::
  "string \<Rightarrow> trace_entry list \<Rightarrow> (cell_id \<rightharpoonup> string set) \<Rightarrow> (cell_id \<rightharpoonup> string set)" where
  "remove_reverse_deps r [] rd = rd"
| "remove_reverse_deps r (d # ds) rd =
     remove_reverse_deps r ds
       (case rd (entry_cell d) of
          None \<Rightarrow> rd
        | Some S \<Rightarrow> rd(entry_cell d := (if S - {r} = {} then None else Some (S - {r}))))"

fun add_reverse_deps ::
  "string \<Rightarrow> trace_entry list \<Rightarrow> (cell_id \<rightharpoonup> string set) \<Rightarrow> (cell_id \<rightharpoonup> string set)" where
  "add_reverse_deps r [] rd = rd"
| "add_reverse_deps r (d # ds) rd =
     add_reverse_deps r ds
       (rd(entry_cell d \<mapsto> insert r (members rd (entry_cell d))))"

fun mark_used :: "trace_entry list \<Rightarrow> u64 \<Rightarrow> (cell_id \<rightharpoonup> cell_entry) \<Rightarrow> (cell_id \<rightharpoonup> cell_entry)" where
  "mark_used [] tx cs = cs"
| "mark_used (d # ds) tx cs =
     mark_used ds tx
       (case cs (entry_cell d) of
          None \<Rightarrow> cs
        | Some entry \<Rightarrow> cs(entry_cell d \<mapsto> entry\<lparr>last_used := tx\<rparr>))"

definition remove_root :: "string \<Rightarrow> 'v engine \<Rightarrow> 'v engine" where
  "remove_root root_id e =
     (case roots e root_id of
        None \<Rightarrow> e
      | Some rt \<Rightarrow>
          e\<lparr>roots := (roots e)(root_id := None),
            reverse_deps :=
              remove_reverse_deps root_id (dependencies (root_trace rt)) (reverse_deps e)\<rparr>)"

definition prune_snapshots :: "nat \<Rightarrow> 'v engine \<Rightarrow> 'v engine" where
  "prune_snapshots now e =
     e\<lparr>snapshots := (\<lambda>d. case snapshots e d of
          None \<Rightarrow> None
        | Some (rt, timestamp) \<Rightarrow>
            (if now - timestamp < retention_window e then Some (rt, timestamp) else None))\<rparr>"

text \<open>\<open>t_insert\<close> and \<open>t_prune\<close> are the two readings of the clock.\<close>

definition register_root ::
  "'v digest_fns \<Rightarrow> nat \<Rightarrow> nat \<Rightarrow> string \<Rightarrow> 'v trace \<Rightarrow> 'v \<Rightarrow> bool \<Rightarrow> 'v engine \<Rightarrow> 'v engine" where
  "register_root D t_insert t_prune root_id tr v is_subscriber e =
     (let cs = mark_used (dependencies tr) (current_transaction e) (current_state e);
          rd0 = (case roots e root_id of
                   None \<Rightarrow> reverse_deps e
                 | Some old_root \<Rightarrow>
                     remove_reverse_deps root_id (dependencies (root_trace old_root)) (reverse_deps e));
          rd1 = (if is_subscriber then add_reverse_deps root_id (dependencies tr) rd0 else rd0);
          dg = digest D tr;
          rt = \<lparr>root_trace = tr, root_value = v, root_digest = dg\<rparr>;
          e1 = e\<lparr>current_state := cs, reverse_deps := rd1, roots := (roots e)(root_id \<mapsto> rt)\<rparr>;
          e2 = set_cell (cell_root root_id) (Disk dg) e1;
          e3 = e2\<lparr>snapshots := (snapshots e2)(dg \<mapsto> (rt, t_insert))\<rparr>
      in prune_snapshots t_prune e3)"

definition fetch_root :: "string \<Rightarrow> string \<Rightarrow> 'v engine \<Rightarrow> fetch_error + 'v" where
  "fetch_root root_id expected_digest e =
     (case snapshots e expected_digest of
        Some (rt, _) \<Rightarrow> Inr (root_value rt)
      | None \<Rightarrow>
          (case roots e root_id of
             Some rt \<Rightarrow>
               (if root_digest rt = expected_digest then Inr (root_value rt)
                else Inl (Stale expected_digest (root_digest rt)))
           | None \<Rightarrow> Inl (Stale expected_digest [])))"

section \<open>The engine as a state provider\<close>

definition touch :: "'v engine \<Rightarrow> cell_id \<Rightarrow> 'v engine \<times> revision option" where
  "touch e c = (case current_state e c of
      Some entry \<Rightarrow>
        (e\<lparr>current_state := (current_state e)(c \<mapsto> entry\<lparr>last_used := current_transaction e\<rparr>)\<rparr>,
         Some (ce_revision entry))
    | None \<Rightarrow> (e, None))"

primrec get_revision :: "nat \<Rightarrow> 'v engine provider" where
  "get_revision 0 = (\<lambda>e c. None)"
| "get_revision (Suc depth) = (\<lambda>e c.
     (case (if pointer c = [] then roots e (source_id c) else None) of
        None \<Rightarrow> Some (touch e c)
      | Some rt \<Rightarrow>
          (case validate (get_revision depth) (root_trace rt) e of
             None \<Rightarrow> None
           | Some (e', valid) \<Rightarrow> if valid then Some (touch e' c) else Some (e', None))))"

definition validate_root ::
  "nat \<Rightarrow> string \<Rightarrow> string \<Rightarrow> 'v engine \<Rightarrow> ('v engine \<times> bool) option" where
  "validate_root depth root_id client_digest e =
     (case roots e root_id of
        Some rt \<Rightarrow>
          (if root_digest rt = client_digest then validate (get_revision depth) (root_trace rt) e
           else Some (e, False))
      | None \<Rightarrow> Some (e, False))"

section \<open>What a lookup means\<close>

text \<open>
  The specification of \<open>get_revision\<close>, free of depth and of usage marks: a cell is current
  at its recorded revision; if it is a root, every entry of the root's trace must itself be
  current at the recorded revision.
\<close>

definition root_of :: "'v engine \<Rightarrow> cell_id \<Rightarrow> 'v root option" where
  "root_of e c = (if pointer c = [] then roots e (source_id c) else None)"

inductive current :: "'v engine \<Rightarrow> cell_id \<Rightarrow> revision \<Rightarrow> bool" for e :: "'v engine" where
  plain: "root_of e c = None \<Longrightarrow> get_revision_snapshot c e = Some r \<Longrightarrow> current e c r"
| derived: "root_of e c = Some rt \<Longrightarrow>
    \<forall>d \<in> set (dependencies (root_trace rt)). current e (entry_cell d) (entry_revision d) \<Longrightarrow>
    get_revision_snapshot c e = Some r \<Longrightarrow> current e c r"

inductive_simps current_iff: "current e c r"

definition current_rev :: "'v engine \<Rightarrow> cell_id \<Rightarrow> revision option" where
  "current_rev e c = (case get_revision_snapshot c e of
      None \<Rightarrow> None | Some r \<Rightarrow> if current e c r then Some r else None)"

lemma current_snapshot: "current e c r \<Longrightarrow> get_revision_snapshot c e = Some r"
  by (auto elim: current.cases)

lemma current_rev_Some [simp]: "current_rev e c = Some r \<longleftrightarrow> current e c r"
  using current_snapshot [of e c r] by (auto simp: current_rev_def split: option.splits if_splits)

lemma current_rev_plain: "root_of e c = None \<Longrightarrow> current_rev e c = get_revision_snapshot c e"
  by (auto simp: current_rev_def intro: current.plain split: option.splits)

lemma current_rev_derived:
  "root_of e c = Some rt \<Longrightarrow> current_rev e c =
     (if \<forall>d \<in> set (dependencies (root_trace rt)). current e (entry_cell d) (entry_revision d)
      then get_revision_snapshot c e else None)"
  by (auto simp: current_rev_def current_iff [of e c] split: option.splits)

text \<open>The part of the engine a lookup may depend on and never changes.\<close>

definition view :: "'v engine \<Rightarrow> (string \<rightharpoonup> 'v root) \<times> (cell_id \<Rightarrow> revision option)" where
  "view e = (roots e, \<lambda>c. get_revision_snapshot c e)"

lemma view_D: "view e' = view e \<Longrightarrow> roots e' = roots e"
    "view e' = view e \<Longrightarrow> get_revision_snapshot c e' = get_revision_snapshot c e"
    "view e' = view e \<Longrightarrow> root_of e' c = root_of e c"
  by (auto simp: view_def root_of_def dest: fun_cong)

lemma current_mono_view: "current e c r \<Longrightarrow> view e' = view e \<Longrightarrow> current e' c r"
proof (induction rule: current.induct)
  case (plain c r)
  note vD = view_D [OF plain.prems]
  from plain.hyps show ?case by (auto simp: vD intro: current.plain)
next
  case (derived c rt r)
  note vD = view_D [OF derived.prems]
  from derived show ?case by (auto simp: vD intro: current.derived)
qed

lemma current_view: "view e' = view e \<Longrightarrow> current e' = current e"
  by (intro ext iffI) (blast intro: current_mono_view sym)+

lemma current_rev_view:
  assumes "view e' = view e"
  shows "current_rev e' = current_rev e"
  by (rule ext)
    (simp add: current_rev_def current_view [OF assms] view_D(2) [OF assms] split: option.split)

lemma view_touch: "touch e c = (e', r) \<Longrightarrow> view e' = view e \<and> r = get_revision_snapshot c e"
  by (auto simp: touch_def view_def get_revision_snapshot_def fun_eq_iff split: option.splits)

lemma get_revision_Suc:
  "get_revision (Suc n) e c =
     (case root_of e c of
        None \<Rightarrow> Some (touch e c)
      | Some rt \<Rightarrow>
          (case validate (get_revision n) (root_trace rt) e of
             None \<Rightarrow> None
           | Some (e', valid) \<Rightarrow> if valid then Some (touch e' c) else Some (e', None)))"
  by (simp add: root_of_def)

lemmas get_revision_simps = get_revision.simps(1) get_revision_Suc
declare get_revision.simps [simp del]

lemma get_revision_view: "get_revision n e c = Some (e', r) \<Longrightarrow> view e' = view e"
proof (induction n arbitrary: e c e' r)
  case 0
  then show ?case by (simp add: get_revision_simps)
next
  case (Suc n)
  have step: "view e1 = view e" if "validate (get_revision n) t e = Some (e1, b)" for t e1 b
    by (rule validate_preserves [where f = view, OF that]) (rule Suc.IH)
  from Suc.prems show ?case
    by (auto simp: get_revision_simps dest!: view_touch step split: option.splits if_splits)
qed

text \<open>
  The height of the graph of roots below a cell, as a bound: \<open>within n e c\<close> holds when no
  chain of roots from \<open>c\<close> is longer than \<open>n\<close> calls.
\<close>

primrec within :: "nat \<Rightarrow> 'v engine \<Rightarrow> cell_id \<Rightarrow> bool" where
  "within 0 = (\<lambda>e c. False)"
| "within (Suc n) = (\<lambda>e c. case root_of e c of
      None \<Rightarrow> True
    | Some rt \<Rightarrow> (\<forall>d \<in> set (dependencies (root_trace rt)). within n e (entry_cell d)))"

lemma within_view:
  assumes "view e' = view e"
  shows "within n e' = within n e"
  using view_D(3) [OF assms] by (induction n) (simp_all add: fun_eq_iff split: option.split)

lemma engine_provider:
  "state_provider (get_revision n :: 'v engine provider) current_rev (within n)"
proof (induction n)
  case 0
  show ?case by unfold_locales (auto simp: get_revision_simps)
next
  case (Suc n)
  note sound = state_provider.validate_sound [OF Suc.IH]
    and total = state_provider.validate_total [OF Suc.IH]
  have val_view: "view e' = view e" if "validate (get_revision n) t e = Some (e', b)" for t e e' b
    by (rule validate_preserves [where f = view, OF that]) (rule get_revision_view)
  show ?case
  proof
    fix e e' :: "'v engine" and c r
    assume got: "get_revision (Suc n) e c = Some (e', r)"
    then show "current_rev e' = current_rev e \<and> within (Suc n) e' = within (Suc n) e"
      using get_revision_view current_rev_view within_view by blast
    show "r = current_rev e c"
    proof (cases "root_of e c")
      case None
      with got show ?thesis
        by (auto simp: get_revision_simps current_rev_plain dest: view_touch)
    next
      case (Some rt)
      with got obtain e1 b where v: "validate (get_revision n) (root_trace rt) e = Some (e1, b)"
        and rest: "Some (e', r) = (if b then Some (touch e1 c) else Some (e1, None))"
        by (auto simp: get_revision_simps split: option.splits)
      from sound [OF v] have b: "b = (\<forall>d \<in> set (dependencies (root_trace rt)).
          current e (entry_cell d) (entry_revision d))" by simp
      from rest Some b view_D(2) [OF val_view [OF v]] show ?thesis
        by (auto simp: current_rev_derived dest!: view_touch [OF sym] split: if_splits)
    qed
  next
    fix e :: "'v engine" and c
    assume below: "within (Suc n) e c"
    show "get_revision (Suc n) e c \<noteq> None"
    proof (cases "root_of e c")
      case None
      then show ?thesis by (simp add: get_revision_simps)
    next
      case (Some rt)
      with below have "\<forall>d \<in> set (dependencies (root_trace rt)). within n e (entry_cell d)"
        by simp
      from total [OF this] Some show ?thesis
        by (auto simp: get_revision_simps split: option.splits)
    qed
  qed
qed

interpretation engine: state_provider "get_revision n" current_rev "within n" for n
  by (rule engine_provider)

section \<open>Termination of the mutual recursion\<close>

definition ranked :: "(string \<Rightarrow> nat) \<Rightarrow> 'v engine \<Rightarrow> bool" where
  "ranked rank e \<longleftrightarrow> (\<forall>r rt d. roots e r = Some rt \<longrightarrow> d \<in> set (dependencies (root_trace rt)) \<longrightarrow>
     pointer (entry_cell d) = [] \<longrightarrow> roots e (source_id (entry_cell d)) \<noteq> None \<longrightarrow>
     rank (source_id (entry_cell d)) < rank r)"

lemma ranked_within: "ranked rank e \<Longrightarrow> rank (source_id c) + 1 < n \<Longrightarrow> within n e c"
proof (induction n arbitrary: c)
  case 0
  then show ?case by simp
next
  case (Suc n)
  show ?case
  proof (cases "root_of e c")
    case None
    then show ?thesis by simp
  next
    case (Some rt)
    then have reg: "roots e (source_id c) = Some rt" by (simp add: root_of_def split: if_splits)
    have "within n e (entry_cell d)" if d: "d \<in> set (dependencies (root_trace rt))" for d
    proof (cases "root_of e (entry_cell d)")
      case None
      with Suc.prems(2) show ?thesis by (cases n) auto
    next
      case (Some rt')
      with Suc.prems(1) reg d have "rank (source_id (entry_cell d)) < rank (source_id c)"
        by (auto simp: ranked_def root_of_def split: if_splits)
      with Suc show ?thesis by simp
    qed
    with Some show ?thesis by simp
  qed
qed

text \<open>A depth above the rank of a root is enough for the entries of its trace.\<close>

lemma ranked_entry:
  "ranked rank e \<Longrightarrow> rank r < n \<Longrightarrow> roots e r = Some rt \<Longrightarrow> d \<in> set (dependencies (root_trace rt)) \<Longrightarrow> within n e (entry_cell d)"
proof (induction n arbitrary: r rt d)
  case (Suc n)
  show ?case
  proof (cases "root_of e (entry_cell d)")
    case (Some rt')
    then have reg: "roots e (source_id (entry_cell d)) = Some rt'" by (simp add: root_of_def split: if_splits)
    from Suc.prems Some have "rank (source_id (entry_cell d)) < rank r"
      by (auto simp: ranked_def root_of_def split: if_splits)
    with Suc.prems(2) have "rank (source_id (entry_cell d)) < n" by simp
    from Suc.IH [OF Suc.prems(1) this reg] Some show ?thesis by simp
  qed simp
qed simp

lemma get_revision_answers:
  assumes "within n e c"
  shows "\<exists>e'. get_revision n e c = Some (e', current_rev e c) \<and> view e' = view e"
proof -
  from engine.get_total [OF assms] obtain e' r where "get_revision n e c = Some (e', r)" by auto
  then show ?thesis using engine.get_sound get_revision_view by blast
qed

lemma validate_root_sound:
  assumes "validate_root n r dg e = Some (e', b)"
  shows "b \<longleftrightarrow> (\<exists>rt. roots e r = Some rt \<and> root_digest rt = dg \<and>
            (\<forall>d \<in> set (dependencies (root_trace rt)). current e (entry_cell d) (entry_revision d)))"
    and "view e' = view e"
proof -
  have frame: "view e1 = view e" if "validate (get_revision n) t e = Some (e1, b1)" for t e1 b1
    by (rule validate_preserves [where f = view, OF that]) (rule get_revision_view)
  from assms show "view e' = view e"
    by (auto simp: validate_root_def dest: frame split: option.splits if_splits)
  from assms show "b \<longleftrightarrow> (\<exists>rt. roots e r = Some rt \<and> root_digest rt = dg \<and>
      (\<forall>d \<in> set (dependencies (root_trace rt)). current e (entry_cell d) (entry_revision d)))"
    by (auto simp: validate_root_def dest: engine.validate_sound split: option.splits if_splits)
qed

lemma validate_root_total:
  assumes "\<And>rt d. roots e r = Some rt \<Longrightarrow> root_digest rt = dg \<Longrightarrow>
      d \<in> set (dependencies (root_trace rt)) \<Longrightarrow> within n e (entry_cell d)"
  shows "validate_root n r dg e \<noteq> None"
proof (cases "\<exists>rt. roots e r = Some rt \<and> root_digest rt = dg")
  case True
  then obtain rt where rt: "roots e r = Some rt" "root_digest rt = dg" by blast
  with assms have "\<forall>d \<in> set (dependencies (root_trace rt)). within n e (entry_cell d)" by blast
  from engine.validate_total [OF this] rt show ?thesis by (simp add: validate_root_def)
next
  case False
  then show ?thesis by (auto simp: validate_root_def split: option.splits)
qed

text \<open>A root whose trace starts with its own cell is never answered.\<close>

lemma self_root_diverges:
  assumes "roots e r = Some rt" and "dependencies (root_trace rt) = TraceEntry (cell_root r) rv # ds"
  shows "get_revision n e (cell_root r) = None"
  by (induction n) (simp_all add: get_revision_simps root_of_def validate_def assms)

section \<open>Field equations\<close>

lemma mark_used_eq:
  "mark_used ds tx cs c =
     (if c \<in> entry_cell ` set ds then map_option (\<lambda>en. en\<lparr>last_used := tx\<rparr>) (cs c) else cs c)"
  by (induction ds arbitrary: cs) (auto split: option.splits)

lemma members_remove_reverse_deps:
  "members (remove_reverse_deps r ds rd) c =
     (if c \<in> entry_cell ` set ds then members rd c - {r} else members rd c)"
proof (induction ds arbitrary: rd)
  case (Cons d ds)
  show ?case
  proof (cases "rd (entry_cell d)")
    case None
    with Cons show ?thesis by (auto simp: members_simps)
  next
    case (Some S)
    with Cons show ?thesis by (auto simp: members_simps split: if_splits)
  qed
qed simp

lemma members_add_reverse_deps:
  "members (add_reverse_deps r ds rd) c =
     (if c \<in> entry_cell ` set ds then insert r (members rd c) else members rd c)"
  by (induction ds arbitrary: rd) auto

lemma no_empty_remove: "no_empty rd \<Longrightarrow> no_empty (remove_reverse_deps r ds rd)"
  by (induction ds arbitrary: rd) (auto split: option.splits)

lemma no_empty_add: "no_empty rd \<Longrightarrow> no_empty (add_reverse_deps r ds rd)"
  by (induction ds arbitrary: rd) auto

lemma register_root_simps [op_simps]:
  "roots (register_root D t1 t2 r tr v s e) =
     (roots e)(r \<mapsto> \<lparr>root_trace = tr, root_value = v, root_digest = digest D tr\<rparr>)"
  "current_transaction (register_root D t1 t2 r tr v s e) = current_transaction e"
  "retention_window (register_root D t1 t2 r tr v s e) = retention_window e"
  "current_state (register_root D t1 t2 r tr v s e) =
     (mark_used (dependencies tr) (current_transaction e) (current_state e))
       (cell_root r \<mapsto> \<lparr>ce_revision = Disk (digest D tr), last_used = current_transaction e\<rparr>)"
  "source_index (register_root D t1 t2 r tr v s e) = (source_index e)
     (r \<mapsto> insert (cell_root r) (members (source_index e) r))"
  by (simp_all add: register_root_def Let_def prune_snapshots_def set_cell_def members_def)

lemma register_root_snapshots [op_simps]:
  "snapshots (register_root D t1 t2 r tr v s e) = (\<lambda>d.
     case ((snapshots e)(digest D tr \<mapsto>
        (\<lparr>root_trace = tr, root_value = v, root_digest = digest D tr\<rparr>, t1))) d of
       None \<Rightarrow> None
     | Some (rt, t) \<Rightarrow> if t2 - t < retention_window e then Some (rt, t) else None)"
  by (rule ext) (simp add: register_root_def Let_def prune_snapshots_def set_cell_def split: option.split)

lemma register_root_reverse_deps [op_simps]:
  "reverse_deps (register_root D t1 t2 r tr v s e) =
     (let rd = (case roots e r of None \<Rightarrow> reverse_deps e
         | Some old \<Rightarrow> remove_reverse_deps r (dependencies (root_trace old)) (reverse_deps e))
      in if s then add_reverse_deps r (dependencies tr) rd else rd)"
  by (simp add: register_root_def Let_def prune_snapshots_def set_cell_def)

lemma get_revision_snapshot_set_cell [simp]:
  "get_revision_snapshot d (set_cell c r e) = (if d = c then Some r else get_revision_snapshot d e)"
  by (simp add: get_revision_snapshot_def set_cell_def)

lemma get_revision_snapshot_register [simp]:
  "get_revision_snapshot d (register_root D t1 t2 r tr v s e) =
     (if d = cell_root r then Some (Disk (digest D tr)) else get_revision_snapshot d e)"
  by (auto simp: get_revision_snapshot_def op_simps mark_used_eq option.map_comp comp_def)

lemma set_cell_simps [op_simps]:
  "roots (set_cell c r e) = roots e" "reverse_deps (set_cell c r e) = reverse_deps e"
  "snapshots (set_cell c r e) = snapshots e"
  "current_transaction (set_cell c r e) = current_transaction e"
  "source_index (set_cell c r e) = (source_index e)
     (source_id c \<mapsto> insert c (members (source_index e) (source_id c)))"
  by (simp_all add: set_cell_def members_def)

end
