(* ===== verification/Engine_Facts.thy ===== *)
theory Engine_Facts
  imports Engine
begin

text \<open>
  Invariants of the engine over every sequence of its public operations, garbage collection
  at the end of a transaction, source-scoped invalidation and the snapshots.
\<close>

section \<open>The invariant\<close>

text \<open>
  The source index covers the live cells (it may keep ids of cells invalidated one by one);
  a subscriber in the reverse index is a registered root that depends on the cell; a root and
  a snapshot carry the digest of their own trace.
\<close>

definition index_inv :: "'v engine \<Rightarrow> bool" where
  "index_inv e \<longleftrightarrow> no_empty (source_index e)
     \<and> (\<forall>c. current_state e c \<noteq> None \<longrightarrow> c \<in> members (source_index e) (source_id c))
     \<and> (\<forall>s. \<forall>c \<in> members (source_index e) s. source_id c = s)"

definition depends :: "'v engine \<Rightarrow> string \<Rightarrow> cell_id \<Rightarrow> bool" where
  "depends e r c \<longleftrightarrow> (\<exists>rt. roots e r = Some rt \<and> c \<in> entry_cell ` set (dependencies (root_trace rt)))"

definition rdeps_inv :: "'v engine \<Rightarrow> bool" where
  "rdeps_inv e \<longleftrightarrow> no_empty (reverse_deps e) \<and> (\<forall>c. \<forall>r \<in> subscribers e c. depends e r c)"

definition digest_inv :: "'v digest_fns \<Rightarrow> 'v engine \<Rightarrow> bool" where
  "digest_inv D e \<longleftrightarrow>
     (\<forall>r rt. roots e r = Some rt \<longrightarrow> root_digest rt = digest D (root_trace rt) \<and> trace_inv (root_trace rt))
   \<and> (\<forall>d rt t. snapshots e d = Some (rt, t) \<longrightarrow> root_digest rt = d \<and> d = digest D (root_trace rt))"

definition engine_inv :: "'v digest_fns \<Rightarrow> 'v engine \<Rightarrow> bool" where
  "engine_inv D e \<longleftrightarrow> index_inv e \<and> rdeps_inv e \<and> digest_inv D e"

text \<open>The public operations as one step relation.\<close>

inductive engine_step :: "'v digest_fns \<Rightarrow> 'v engine \<Rightarrow> 'v engine \<Rightarrow> bool" for D where
  begin_tx: "engine_step D e (begin_transaction e)"
| end_tx: "set keys = dom (current_state e) \<Longrightarrow> engine_step D e (end_transaction keys e)"
| set_cell: "engine_step D e (set_cell c r e)"
| bump_cell: "engine_step D e (bump_cell c r e)"
| invalidate: "engine_step D e (fst (invalidate_cell c e))"
| remove_root: "engine_step D e (remove_root r e)"
| register: "trace_inv tr \<Longrightarrow> engine_step D e (register_root D t1 t2 r tr v s e)"
| lookup: "get_revision n e c = Some (e', a) \<Longrightarrow> engine_step D e e'"
| check: "validate_root n r dg e = Some (e', b) \<Longrightarrow> engine_step D e e'"

inductive engine_reachable :: "'v digest_fns \<Rightarrow> nat \<Rightarrow> 'v engine \<Rightarrow> bool" for D w where
  start: "engine_reachable D w (engine_new w)"
| step: "engine_reachable D w e \<Longrightarrow> engine_step D e e' \<Longrightarrow> engine_reachable D w e'"

text \<open>Everything but the usage marks of the cells is a function of these fields.\<close>

definition same_frame :: "'v engine \<Rightarrow> 'v engine \<Rightarrow> bool" where
  "same_frame e e' \<longleftrightarrow> roots e' = roots e \<and> reverse_deps e' = reverse_deps e
     \<and> snapshots e' = snapshots e \<and> source_index e' = source_index e
     \<and> retention_window e' = retention_window e \<and> current_transaction e' = current_transaction e
     \<and> dom (current_state e') = dom (current_state e)"

lemma same_frame_refl [simp]: "same_frame e e"
  by (simp add: same_frame_def)

lemma same_frame_trans: "same_frame e1 e2 \<Longrightarrow> same_frame e2 e3 \<Longrightarrow> same_frame e1 e3"
  by (simp add: same_frame_def)

lemma same_frame_inv: "same_frame e e' \<Longrightarrow> engine_inv D e \<Longrightarrow> engine_inv D e'"
  by (simp add: same_frame_def engine_inv_def index_inv_def rdeps_inv_def digest_inv_def
      subscribers_def depends_def domIff set_eq_iff)

lemma same_frame_touch: "touch e c = (e', r) \<Longrightarrow> same_frame e e'"
  by (auto simp: touch_def same_frame_def split: option.splits if_splits)

lemma same_frame_validate:
  assumes "validate get t e = Some (e', b)"
    and "\<And>e c e' r. get e c = Some (e', r) \<Longrightarrow> same_frame e e'"
  shows "same_frame e e'"
proof -
  have "(roots e', reverse_deps e', snapshots e', source_index e', retention_window e',
         current_transaction e', dom (current_state e')) =
        (roots e, reverse_deps e, snapshots e, source_index e, retention_window e,
         current_transaction e, dom (current_state e))"
    by (rule validate_preserves [where f = "\<lambda>e. (roots e, reverse_deps e, snapshots e,
          source_index e, retention_window e, current_transaction e, dom (current_state e))",
          OF assms(1)])
      (use assms(2) in \<open>auto simp: same_frame_def\<close>)
  then show ?thesis by (simp add: same_frame_def)
qed

lemma same_frame_get_revision: "get_revision n e c = Some (e', r) \<Longrightarrow> same_frame e e'"
proof (induction n arbitrary: e c e' r)
  case 0
  then show ?case by (simp add: get_revision_simps)
next
  case (Suc n)
  have step: "same_frame e e1" if "validate (get_revision n) t e = Some (e1, b)" for t e1 b
    using that Suc.IH by (rule same_frame_validate)
  from Suc.prems show ?case
    by (auto simp: get_revision_simps intro: same_frame_trans dest!: step same_frame_touch [OF sym]
        same_frame_touch split: option.splits if_splits)
qed

lemma same_frame_validate_root: "validate_root n r dg e = Some (e', b) \<Longrightarrow> same_frame e e'"
  by (auto simp: validate_root_def intro: same_frame_get_revision
      elim: same_frame_validate split: option.splits if_splits)

section \<open>Every operation keeps the invariant\<close>

lemma inv_new: "engine_inv D (engine_new w)"
  by (simp add: engine_inv_def index_inv_def rdeps_inv_def digest_inv_def engine_new_def
      subscribers_def members_def)

lemma inv_begin: "engine_inv D e \<Longrightarrow> engine_inv D (begin_transaction e)"
  by (simp add: engine_inv_def index_inv_def rdeps_inv_def digest_inv_def begin_transaction_def
      subscribers_def depends_def)

lemma rdeps_inv_cong:
  "roots e' = roots e \<Longrightarrow> reverse_deps e' = reverse_deps e \<Longrightarrow> rdeps_inv e' = rdeps_inv e"
  by (simp add: rdeps_inv_def subscribers_def depends_def)

lemma digest_inv_cong:
  "roots e' = roots e \<Longrightarrow> snapshots e' = snapshots e \<Longrightarrow> digest_inv D e' = digest_inv D e"
  by (simp add: digest_inv_def)

lemma index_invI [intro?]:
  assumes "no_empty (source_index e)"
    and "\<And>c en. current_state e c = Some en \<Longrightarrow> c \<in> members (source_index e) (source_id c)"
    and "\<And>s c. c \<in> members (source_index e) s \<Longrightarrow> source_id c = s"
  shows "index_inv e"
  using assms by (auto simp: index_inv_def)

lemma index_invD:
  assumes "index_inv e"
  shows "no_empty (source_index e)"
    and "current_state e c = Some en \<Longrightarrow> c \<in> members (source_index e) (source_id c)"
    and "c \<in> members (source_index e) s \<Longrightarrow> source_id c = s"
  using assms by (auto simp: index_inv_def)

lemma collect_cell_simps [op_simps]:
  "roots (collect_cell c e) = roots e" "reverse_deps (collect_cell c e) = reverse_deps e"
  "snapshots (collect_cell c e) = snapshots e"
  "current_transaction (collect_cell c e) = current_transaction e"
  "current_state (collect_cell c e) = (current_state e)(c := None)"
  by (simp_all add: collect_cell_def Let_def split: option.split)

lemma members_collect_cell:
  "members (source_index (collect_cell c e)) s =
     (if s = source_id c then members (source_index e) s - {c} else members (source_index e) s)"
  by (simp add: collect_cell_def Let_def members_simps split: option.split)

lemma no_empty_collect_cell:
  "no_empty (source_index e) \<Longrightarrow> no_empty (source_index (collect_cell c e))"
  by (simp add: collect_cell_def Let_def split: option.split)

lemma index_collect: "index_inv e \<Longrightarrow> index_inv (collect_cell c e)"
  by (rule index_invI)
    (auto simp: op_simps members_collect_cell no_empty_collect_cell index_invD(1,3)
      dest: index_invD(2) split: if_splits)

lemma inv_collect: "engine_inv D e \<Longrightarrow> engine_inv D (collect_cell c e)"
  using rdeps_inv_cong [of "collect_cell c e" e] digest_inv_cong [of "collect_cell c e" e D]
  by (simp add: engine_inv_def index_collect op_simps)

lemma inv_fold_collect: "engine_inv D e \<Longrightarrow> engine_inv D (fold collect_cell cs e)"
  by (induction cs arbitrary: e) (simp_all add: inv_collect)

lemma index_set_cell: "index_inv e \<Longrightarrow> index_inv (set_cell c r e)"
  by (rule index_invI)
    (auto simp: set_cell_def index_invD(1,3) dest: index_invD(2) split: if_splits)

lemma inv_set_cell: "engine_inv D e \<Longrightarrow> engine_inv D (set_cell c r e)"
  using rdeps_inv_cong [of "set_cell c r e" e] digest_inv_cong [of "set_cell c r e" e D]
  by (simp add: engine_inv_def index_set_cell op_simps)

lemma invalidate_cell_simps [op_simps]:
  "roots (fst (invalidate_cell c e)) = roots e"
  "reverse_deps (fst (invalidate_cell c e)) = reverse_deps e"
  "snapshots (fst (invalidate_cell c e)) = snapshots e"
  by (simp_all add: invalidate_cell_def split: option.split)

lemma index_invalidate: "index_inv e \<Longrightarrow> index_inv (fst (invalidate_cell c e))"
proof (cases "if pointer c = [] then source_index e (source_id c) else None")
  case None
  assume inv: "index_inv e"
  from None show ?thesis
    by (intro index_invI) (auto simp: invalidate_cell_def index_invD [OF inv] split: if_splits)
next
  case (Some cells)
  assume inv: "index_inv e"
  from Some have idx: "members (source_index e) (source_id c) = cells" "pointer c = []"
    by (simp_all add: members_simps split: if_splits)
  show ?thesis
  proof (rule index_invI)
    show "no_empty (source_index (fst (invalidate_cell c e)))"
      using Some index_invD(1) [OF inv] by (simp add: invalidate_cell_def)
  next
    fix d en
    assume "current_state (fst (invalidate_cell c e)) d = Some en"
    with Some have d: "d \<notin> cells" "current_state e d = Some en"
      by (simp_all add: invalidate_cell_def split: if_splits)
    with index_invD(2) [OF inv] idx have "source_id d \<noteq> source_id c" by metis
    with Some index_invD(2) [OF inv d(2)]
    show "d \<in> members (source_index (fst (invalidate_cell c e))) (source_id d)"
      by (simp add: invalidate_cell_def)
  next
    fix s d
    assume "d \<in> members (source_index (fst (invalidate_cell c e))) s"
    with Some index_invD(3) [OF inv] show "source_id d = s"
      by (auto simp: invalidate_cell_def split: if_splits)
  qed
qed

lemma inv_invalidate: "engine_inv D e \<Longrightarrow> engine_inv D (fst (invalidate_cell c e))"
  using rdeps_inv_cong [of "fst (invalidate_cell c e)" e]
    digest_inv_cong [of "fst (invalidate_cell c e)" e D]
  by (simp add: engine_inv_def index_invalidate op_simps)

lemma rdeps_drop_root:
  assumes "rdeps_inv e" and "roots e r = Some rt"
  shows "no_empty (remove_reverse_deps r (dependencies (root_trace rt)) (reverse_deps e))"
    and "q \<in> members (remove_reverse_deps r (dependencies (root_trace rt)) (reverse_deps e)) c
         \<Longrightarrow> q \<noteq> r \<and> depends e q c"
  using assms
  by (auto simp: rdeps_inv_def no_empty_remove members_remove_reverse_deps subscribers_def
      depends_def split: if_splits) fastforce+

lemma inv_remove_root: "engine_inv D e \<Longrightarrow> engine_inv D (remove_root r e)"
proof (cases "roots e r")
  case None
  then show "engine_inv D e \<Longrightarrow> ?thesis" by (simp add: remove_root_def)
next
  case (Some rt)
  assume inv: "engine_inv D e"
  then have "rdeps_inv e" by (simp add: engine_inv_def)
  note drop = rdeps_drop_root [OF this Some]
  have "rdeps_inv (remove_root r e)"
    using drop Some
    by (auto simp: rdeps_inv_def remove_root_def subscribers_def depends_def)
  with inv Some show ?thesis
    by (auto simp: engine_inv_def index_inv_def digest_inv_def remove_root_def)
qed

lemma rdeps_register: "rdeps_inv e \<Longrightarrow> rdeps_inv (register_root D t1 t2 r tr v s e)"
proof -
  assume inv: "rdeps_inv e"
  define rd where "rd = (case roots e r of None \<Rightarrow> reverse_deps e
      | Some old \<Rightarrow> remove_reverse_deps r (dependencies (root_trace old)) (reverse_deps e))"
  have ne: "no_empty rd"
    using inv rdeps_drop_root(1) [OF inv] by (auto simp: rd_def rdeps_inv_def split: option.splits)
  have mem: "q \<noteq> r \<and> depends e q c" if "q \<in> members rd c" for q c
  proof (cases "roots e r")
    case None
    with that inv show ?thesis
      by (fastforce simp: rd_def rdeps_inv_def subscribers_def depends_def)
  next
    case (Some old)
    with that rdeps_drop_root(2) [OF inv Some] show ?thesis by (simp add: rd_def)
  qed
  have "reverse_deps (register_root D t1 t2 r tr v s e) =
      (if s then add_reverse_deps r (dependencies tr) rd else rd)"
    by (simp add: op_simps rd_def)
  then show ?thesis
    using ne mem
    by (auto simp: rdeps_inv_def no_empty_add members_add_reverse_deps subscribers_def depends_def
        op_simps split: if_splits)
qed

lemma inv_register:
  assumes "engine_inv D e" and "trace_inv tr"
  shows "engine_inv D (register_root D t1 t2 r tr v s e)"
proof -
  have "index_inv (register_root D t1 t2 r tr v s e)"
    using assms(1) by (auto simp: engine_inv_def index_inv_def op_simps mark_used_eq split: if_splits)
  moreover have "digest_inv D (register_root D t1 t2 r tr v s e)"
    using assms by (auto simp: engine_inv_def digest_inv_def op_simps split: option.splits if_splits)
  ultimately show ?thesis
    using assms(1) by (simp add: engine_inv_def rdeps_register)
qed

lemma engine_step_inv: "engine_step D e e' \<Longrightarrow> engine_inv D e \<Longrightarrow> engine_inv D e'"
proof (induction rule: engine_step.induct)
  case (end_tx keys e)
  then show ?case by (simp add: end_transaction_def inv_fold_collect)
next
  case (bump_cell e c r)
  then show ?case by (simp add: bump_cell_def inv_set_cell)
next
  case (lookup n e c e' a)
  then show ?case using same_frame_get_revision same_frame_inv by blast
next
  case (check n r dg e e' b)
  then show ?case using same_frame_validate_root same_frame_inv by blast
qed (simp_all add: inv_begin inv_set_cell inv_invalidate inv_remove_root inv_register)

lemma engine_reachable_inv: "engine_reachable D w e \<Longrightarrow> engine_inv D e"
  by (induction rule: engine_reachable.induct) (auto intro: inv_new engine_step_inv)

section \<open>Garbage collection\<close>

lemma fold_collect_state:
  "current_state (fold collect_cell cs e) c = (if c \<in> set cs then None else current_state e c)"
  by (induction cs arbitrary: e) (auto simp: op_simps)

lemma fold_collect_index:
  "members (source_index (fold collect_cell cs e)) s =
     members (source_index e) s - {c \<in> set cs. source_id c = s}"
  by (induction cs arbitrary: e) (auto simp: members_collect_cell)

lemma unused_live: "unused e c \<Longrightarrow> current_state e c \<noteq> None"
  by (auto simp: unused_def split: option.splits)

lemma end_transaction_state:
  "set keys = dom (current_state e) \<Longrightarrow>
     current_state (end_transaction keys e) c = (if unused e c then None else current_state e c)"
  using unused_live [of e c] by (auto simp: end_transaction_def fold_collect_state)

section \<open>Concrete inputs for the witnesses\<close>

definition toy_fns :: "nat digest_fns" where
  "toy_fns = \<lparr>sha256 = (\<lambda>s. s), hex_encode = (\<lambda>s. s), epoch_bytes = (\<lambda>_. []), args_string = (\<lambda>_. [])\<rparr>"

abbreviation file_cell :: cell_id where
  "file_cell \<equiv> CellId ''f'' ''/a''"

definition toy_trace :: "nat trace" where
  "toy_trace = trace_record file_cell (Counter 1) trace_new"

definition toy_engine :: "nat engine" where
  "toy_engine = register_root toy_fns 0 0 ''r'' toy_trace 7 True
     (set_cell file_cell (Counter 1) (engine_new 60))"

lemma toy_trace_deps [simp]: "dependencies toy_trace = [TraceEntry file_cell (Counter 1)]"
  by (simp add: toy_trace_def trace_record_def trace_new_def bset_insert_def)

lemma toy_engine_reachable: "engine_reachable toy_fns 60 toy_engine"
  unfolding toy_engine_def toy_trace_def
  by (rule engine_reachable.step [OF engine_reachable.step [OF engine_reachable.start
        engine_step.set_cell] engine_step.register]) simp

lemma toy_engine_roots [simp]:
  "roots toy_engine = [''r'' \<mapsto> \<lparr>root_trace = toy_trace, root_value = 7, root_digest = digest toy_fns toy_trace\<rparr>]"
  by (simp add: toy_engine_def op_simps engine_new_def)

lemma toy_engine_keys: "set [cell_root ''r'', file_cell] = dom (current_state toy_engine)"
  by (auto simp: toy_engine_def op_simps mark_used_eq set_cell_def engine_new_def cell_root_def
      split: if_splits)

section \<open>Properties\<close>

text \<open>
  C35. Termination and answer of the recursive lookup: when the registered roots form an
  acyclic graph (a rank decreases along every dependency of a root on another root), a call
  depth above the rank is enough, and \<open>get_revision\<close> then answers exactly the current
  revision, changing nothing but usage marks.
\<close>
theorem lookup_terminates:
  assumes "ranked rank e" and "rank (source_id c) + 1 < n"
  shows "\<exists>e'. get_revision n e c = Some (e', current_rev e c) \<and> view e' = view e"
  using get_revision_answers [OF ranked_within [OF assms]] .

theorem lookup_terminates_witness:
  "\<exists>e'. get_revision 3 toy_engine (cell_root ''r'') =
     Some (e', current_rev toy_engine (cell_root ''r'')) \<and> view e' = view toy_engine"
  by (rule lookup_terminates [where rank = "\<lambda>_. 0"]) (auto simp: ranked_def split: if_splits)

text \<open>
  A root registered with a trace that names the root's own cell makes the lookup and the
  validation recurse without end, whatever the depth of the stack.
\<close>
theorem self_dependent_root_diverges:
  "validate_root n r (digest D (trace_record (cell_root r) rv trace_new))
     (register_root D t1 t2 r (trace_record (cell_root r) rv trace_new) v s e) = None"
proof -
  have tr: "dependencies (trace_record (cell_root r) rv trace_new) = [TraceEntry (cell_root r) rv]"
    by (simp add: trace_record_def trace_new_def bset_insert_def)
  let ?tr = "trace_record (cell_root r) rv trace_new"
  have "get_revision n (register_root D t1 t2 r ?tr v s e) (cell_root r) = None"
    by (rule self_root_diverges
        [where rt = "\<lparr>root_trace = ?tr, root_value = v, root_digest = digest D ?tr\<rparr>"])
      (simp_all add: op_simps tr)
  then show ?thesis
    by (simp add: validate_root_def validate_def op_simps tr)
qed

text \<open>
  C36. \<open>validate_root\<close> answers and is exact: when the registered roots form an acyclic graph, a call
  depth above the rank of the root is enough for an answer, and a root and a client digest are
  accepted if and only if the root is registered under that digest and every entry of its trace is
  current, through derived roots to any depth; the check itself changes no revision and no root.
\<close>
theorem validate_root_exact:
  assumes "ranked rank e" and "rank r < n"
  shows "\<exists>e'. validate_root n r dg e = Some (e', \<exists>rt. roots e r = Some rt \<and> root_digest rt = dg \<and>
            (\<forall>d \<in> set (dependencies (root_trace rt)). current e (entry_cell d) (entry_revision d)))
       \<and> view e' = view e"
proof -
  have "within n e (entry_cell d)" if "roots e r = Some rt" "d \<in> set (dependencies (root_trace rt))" for rt d
    by (rule ranked_entry [OF assms that])
  then have "validate_root n r dg e \<noteq> None" by (intro validate_root_total)
  then obtain e' b where "validate_root n r dg e = Some (e', b)" by auto
  with validate_root_sound [OF this] show ?thesis by auto
qed

theorem validate_root_exact_witness:
  "\<exists>e'. validate_root 1 ''r'' (digest toy_fns toy_trace) toy_engine = Some (e', current toy_engine file_cell (Counter 1))"
proof -
  have "ranked (\<lambda>_. 0) toy_engine" by (auto simp: ranked_def split: if_splits)
  from validate_root_exact [OF this, where r = "''r''" and n = 1 and dg = "digest toy_fns toy_trace"] show ?thesis by auto
qed

text \<open>
  C34. In every state reachable through the public operations the source index covers every
  live cell, every subscriber in the reverse index is a registered root that depends on the
  cell, and roots and snapshots are filed under the digest of their own trace.
\<close>
theorem engine_invariant: "engine_reachable D w e \<Longrightarrow> engine_inv D e"
  by (rule engine_reachable_inv)

theorem engine_invariant_witness: "engine_inv toy_fns toy_engine"
  by (rule engine_invariant [OF toy_engine_reachable])

text \<open>
  Source invalidation removes every cell of the source and no other cell; it reports only
  roots that depend on the source and misses no subscriber of a live cell of it.
\<close>
theorem source_invalidation:
  assumes "engine_reachable D w e" and "invalidate_cell (cell_root s) e = (e', affected)"
  shows "(\<forall>c. current_state e' c = (if source_id c = s then None else current_state e c))
       \<and> (\<forall>r \<in> affected. \<exists>c. source_id c = s \<and> depends e r c)
       \<and> (\<forall>c r. current_state e c \<noteq> None \<and> source_id c = s \<and> r \<in> subscribers e c \<longrightarrow> r \<in> affected)"
proof -
  from engine_reachable_inv [OF assms(1)] have idx: "index_inv e" and dep: "rdeps_inv e"
    by (simp_all add: engine_inv_def)
  have sub: "depends e r c" if "r \<in> subscribers e c" for r c
    using dep that by (simp add: rdeps_inv_def)
  show ?thesis
  proof (cases "source_index e s")
    case None
    then have "current_state e c = None" if "source_id c = s" for c
      using index_invD(2) [OF idx, of c] that by (cases "current_state e c") (auto simp: members_simps)
    with None assms(2) sub show ?thesis
      by (auto simp: invalidate_cell_def) (metis cell_root_simps(1))
  next
    case (Some cells)
    then have cells: "members (source_index e) s = cells" by (simp add: members_simps)
    have live: "c \<in> cells" if "current_state e c \<noteq> None" "source_id c = s" for c
      using index_invD(2) [OF idx, of c] that cells by auto
    have src: "source_id c = s" if "c \<in> cells" for c
      using index_invD(3) [OF idx, of c s] that cells by simp
    from Some assms(2) have e': "current_state e' c = (if c \<in> cells then None else current_state e c)"
      and affected: "affected = \<Union> (subscribers e ` cells)" for c
      by (auto simp: invalidate_cell_def)
    have "current_state e' c = (if source_id c = s then None else current_state e c)" for c
      using e' [of c] live [of c] src [of c] by (cases "current_state e c = None") auto
    moreover have "\<exists>c. source_id c = s \<and> depends e r c" if "r \<in> affected" for r
      using that src sub unfolding affected by blast
    ultimately show ?thesis using live unfolding affected by blast
  qed
qed

theorem source_invalidation_witness:
  "current_state (fst (invalidate_cell (cell_root ''f'') toy_engine)) file_cell = None
   \<and> ''r'' \<in> snd (invalidate_cell (cell_root ''f'') toy_engine)"
proof -
  obtain e' R where inv: "invalidate_cell (cell_root ''f'') toy_engine = (e', R)" by fastforce
  have live: "current_state toy_engine file_cell \<noteq> None \<and> source_id file_cell = ''f'' \<and>
      ''r'' \<in> subscribers toy_engine file_cell"
    by (simp_all add: toy_engine_def op_simps mark_used_eq set_cell_def engine_new_def
        subscribers_def members_add_reverse_deps cell_root_def Let_def)
  note facts = source_invalidation [OF toy_engine_reachable inv]
  from facts live have "''r'' \<in> R" by blast
  moreover from facts have "current_state e' file_cell = None" by simp
  ultimately show ?thesis by (simp add: inv)
qed

text \<open>
  The end of a transaction collects exactly the cells not used in it, whatever the order
  in which the map is scanned, and keeps the source index exact for what is left.
\<close>
theorem end_transaction_collects:
  assumes "set keys = dom (current_state e)"
  shows "current_state (end_transaction keys e) c = (if unused e c then None else current_state e c)
       \<and> members (source_index (end_transaction keys e)) s =
           members (source_index e) s - {c. unused e c \<and> source_id c = s}"
  using end_transaction_state [OF assms] assms unused_live
  by (auto simp: end_transaction_def fold_collect_index)

theorem end_transaction_collects_witness:
  "current_state (end_transaction [cell_root ''r'', file_cell] toy_engine) file_cell =
     (if unused toy_engine file_cell then None else current_state toy_engine file_cell)"
  using end_transaction_collects [OF toy_engine_keys, of file_cell] by simp

text \<open>
  Registering a root protects its dependencies: a live cell the new trace names survives
  the end of the same transaction.
\<close>
theorem registered_dependencies_survive:
  assumes "c \<in> entry_cell ` set (dependencies tr)" and "current_state e c \<noteq> None"
    and "set keys = dom (current_state (register_root D t1 t2 r tr v s e))"
  shows "current_state (end_transaction keys (register_root D t1 t2 r tr v s e)) c \<noteq> None"
proof -
  have "\<not> unused (register_root D t1 t2 r tr v s e) c"
    using assms(1,2) by (auto simp: unused_def op_simps mark_used_eq split: option.splits if_splits)
  moreover have "current_state (register_root D t1 t2 r tr v s e) c \<noteq> None"
    using assms(1,2) by (simp add: op_simps mark_used_eq)
  ultimately show ?thesis by (simp add: end_transaction_state [OF assms(3)])
qed

theorem registered_dependencies_survive_witness:
  "current_state (end_transaction [cell_root ''r'', file_cell] toy_engine) file_cell \<noteq> None"
  unfolding toy_engine_def
  by (rule registered_dependencies_survive)
    (use toy_engine_keys in \<open>simp_all add: toy_engine_def set_cell_def\<close>)

text \<open>
  Snapshots are pinned by digest: right after a root is registered, a fetch with the
  digest of its trace returns its value as long as the retention window is not over.
\<close>
theorem snapshot_pinned:
  assumes "t2 - t1 < retention_window e"
  shows "fetch_root q (digest D tr) (register_root D t1 t2 r tr v s e) = Inr v"
  using assms by (simp add: fetch_root_def op_simps)

theorem snapshot_pinned_witness:
  "fetch_root ''r'' (digest toy_fns toy_trace) toy_engine = Inr 7"
  unfolding toy_engine_def by (rule snapshot_pinned) (simp add: set_cell_def engine_new_def)

text \<open>
  A fetch that succeeds returns the value of a root registered with a trace of exactly the
  requested digest, in every reachable state; a fetch that fails reports the requested digest
  and the digest the root has now.
\<close>
theorem fetch_root_sound:
  fixes e :: "'v engine"
  assumes "engine_reachable D w e"
  shows "case fetch_root r dg e of
      Inr v \<Rightarrow> \<exists>rt :: 'v root. root_value rt = v \<and> digest D (root_trace rt) = dg
    | Inl err \<Rightarrow> err = Stale dg (case roots e r of None \<Rightarrow> [] | Some rt \<Rightarrow> digest D (root_trace rt))
        \<and> snapshots e dg = None"
proof -
  from engine_reachable_inv [OF assms] have dig: "digest_inv D e" by (simp add: engine_inv_def)
  show ?thesis
  proof (cases "snapshots e dg")
    case (Some p)
    then obtain rt t where p: "snapshots e dg = Some (rt, t)" by (cases p) simp
    with dig have "digest D (root_trace rt) = dg" by (metis digest_inv_def)
    with p show ?thesis by (auto simp: fetch_root_def)
  next
    case None
    have "root_digest rt = digest D (root_trace rt)" if "roots e r = Some rt" for rt
      using dig that by (simp add: digest_inv_def)
    with None show ?thesis by (auto simp: fetch_root_def split: option.split)
  qed
qed

theorem fetch_root_sound_witness:
  "\<exists>rt :: nat root. root_value rt = 7 \<and> digest toy_fns (root_trace rt) = digest toy_fns toy_trace"
  using fetch_root_sound [OF toy_engine_reachable, where r = "''r''" and dg = "digest toy_fns toy_trace"]
  by (simp add: toy_engine_def fetch_root_def op_simps set_cell_def engine_new_def)

text \<open>
  The digest identifies a trace and not a root: two roots registered with the same trace
  share one snapshot, so fetching the first root under its own current digest returns the
  value of the second.
\<close>
theorem fetch_root_confuses_roots:
  assumes "a \<noteq> b" and "t4 - t3 < retention_window e"
  shows "fetch_root a (digest D tr)
      (register_root D t3 t4 b tr vb sb (register_root D t1 t2 a tr va sa e)) = Inr vb
    \<and> map_option root_digest (roots
      (register_root D t3 t4 b tr vb sb (register_root D t1 t2 a tr va sa e)) a) = Some (digest D tr)"
  using assms by (simp add: fetch_root_def op_simps)

theorem fetch_root_confuses_roots_witness:
  "fetch_root ''r'' (digest toy_fns toy_trace)
     (register_root toy_fns 1 1 ''q'' toy_trace 8 True toy_engine) = Inr 8"
  unfolding toy_engine_def
  by (rule fetch_root_confuses_roots [THEN conjunct1]) (simp_all add: set_cell_def engine_new_def)

text \<open>
  A registered root stays valid exactly until one of its cells changes revision: after
  \<open>register_root\<close> on a state that agrees with the trace and any later \<open>set_cell\<close>, validation
  accepts iff the new revision is the recorded one wherever the trace names the cell.
\<close>
theorem validity_tracks_cells:
  assumes "\<forall>d \<in> set (dependencies tr). pointer (entry_cell d) \<noteq> [] \<and>
      get_revision_snapshot (entry_cell d) e = Some (entry_revision d)"
  shows "\<exists>e'. validate_root (Suc n) r (digest D tr) (set_cell c q (register_root D t1 t2 r tr v s e))
      = Some (e', \<forall>d \<in> set (dependencies tr). entry_cell d = c \<longrightarrow> entry_revision d = q)"
proof -
  let ?e = "set_cell c q (register_root D t1 t2 r tr v s e)"
  have plain: "root_of ?e (entry_cell d) = None" if "d \<in> set (dependencies tr)" for d
    using assms that by (simp add: root_of_def)
  then have ok: "\<forall>d \<in> set (dependencies tr). within (Suc n) ?e (entry_cell d)" by simp
  have "current_rev ?e (entry_cell d) = Some (entry_revision d) \<longleftrightarrow>
      (entry_cell d = c \<longrightarrow> entry_revision d = q)" if "d \<in> set (dependencies tr)" for d
    using that assms unfolding current_rev_plain [OF plain [OF that]]
    by (auto dest: bspec)
  then have "(\<forall>d \<in> set (dependencies tr). current_rev ?e (entry_cell d) = Some (entry_revision d)) \<longleftrightarrow>
      (\<forall>d \<in> set (dependencies tr). entry_cell d = c \<longrightarrow> entry_revision d = q)" by blast
  with engine.validate_correct [OF ok] show ?thesis
    by (auto simp: validate_root_def op_simps)
qed

theorem validity_tracks_cells_witness:
  "\<exists>e'. validate_root 1 ''r'' (digest toy_fns toy_trace) (set_cell file_cell (Counter 2) toy_engine)
     = Some (e', False)"
  using validity_tracks_cells [of toy_trace "set_cell file_cell (Counter 1) (engine_new 60)" 0
      "''r''" toy_fns file_cell "Counter 2" 0 0 7 True]
  by (simp add: toy_engine_def)

end
