(* ===== verification/Runtime.thy ===== *)
theory Runtime
  imports Engine_Facts
begin

text \<open>
  The reactive runtime, \<open>crates/exosuit-reactivity/src/runtime.rs\<close> with
  \<open>availability.rs\<close>: cells, computed values with their caches, resources and the stack of
  active traces. The world record gathers the fields of \<open>Runtime\<close>, the thread-local trace
  stack and the interior state of the \<open>Computed\<close> objects, which the code keeps in the objects
  themselves; \<open>None\<close> is a panic or a call that does not return.

  The values of cells are JSON values and resource instances are trait objects of the
  client: both are type variables, and what the code asks of them are the fields of \<open>env\<close>.
  Time stands still within one operation and is advanced by the environment between them.
\<close>

section \<open>Availability\<close>

datatype reason = Loading | Error string | Corrupted_data

datatype 'a availability = Present 'a | Absent reason

fun av_map :: "('a \<Rightarrow> 'b) \<Rightarrow> 'a availability \<Rightarrow> 'b availability" where
  "av_map f (Present v) = Present (f v)"
| "av_map f (Absent r) = Absent r"

fun av_and_then :: "('a \<Rightarrow> 'b availability) \<Rightarrow> 'a availability \<Rightarrow> 'b availability" where
  "av_and_then f (Present v) = f v"
| "av_and_then f (Absent r) = Absent r"

fun av_unwrap :: "'a availability \<Rightarrow> 'a option" where
  "av_unwrap (Present v) = Some v"
| "av_unwrap (Absent r) = None"

fun av_unwrap_or :: "'a \<Rightarrow> 'a availability \<Rightarrow> 'a" where
  "av_unwrap_or d (Present v) = v"
| "av_unwrap_or d (Absent r) = d"

section \<open>The world\<close>

type_synonym handle = nat

record ('v, 'r) env =
  digest_env :: "'v digest_fns"
  null_value :: 'v
  to_value :: "'v availability \<Rightarrow> 'v"
  any_value :: "'r \<Rightarrow> 'v"
  stack_depth :: nat

record 'v computed =
  computed_id :: string
  last_digest :: "string option"
  last_value :: "'v availability option"
  hysteresis :: "nat option"
  last_valid_time :: "nat option"
  last_present_value :: "'v option"

record ('v, 'r) world =
  eng :: "'v engine"
  store :: "cell_id \<rightharpoonup> 'v"
  rt_epoch :: epoch
  counter :: u64
  active :: "string \<rightharpoonup> ('v resource_spec \<times> 'r) list"
  registry :: "string \<rightharpoonup> ('v \<Rightarrow> 'r)"
  current_computation :: "string list"
  resource_cursor :: "nat list"
  invalidation_tx :: "string list option"
  active_trace :: "'v trace list"
  computeds :: "handle \<rightharpoonup> 'v computed"
  timers :: "(nat \<times> string) list"
  now :: nat

text \<open>The stacks have their top at the head. \<open>Runtime::new\<close> keeps snapshots for 60 seconds.\<close>

definition runtime_new :: "epoch \<Rightarrow> nat \<Rightarrow> ('v, 'r) world" where
  "runtime_new ep t =
     \<lparr>eng = engine_new (60 * 10 ^ 9), store = Map.empty, rt_epoch = ep, counter = 0,
      active = Map.empty, registry = Map.empty, current_computation = [], resource_cursor = [],
      invalidation_tx = None, active_trace = [], computeds = Map.empty, timers = [], now = t\<rparr>"

definition set_invalidation_sender :: "('v, 'r) world \<Rightarrow> ('v, 'r) world" where
  "set_invalidation_sender w = w\<lparr>invalidation_tx := Some []\<rparr>"

definition register_resource :: "string \<Rightarrow> ('v \<Rightarrow> 'r) \<Rightarrow> ('v, 'r) world \<Rightarrow> ('v, 'r) world" where
  "register_resource ty factory w = w\<lparr>registry := (registry w)(ty \<mapsto> factory)\<rparr>"

section \<open>Cells\<close>

text \<open>
  \<open>sent\<close> is the order in which the affected roots, a hash set, are sent on the channel.
\<close>

definition runtime_remove_cell :: "string list \<Rightarrow> cell_id \<Rightarrow> ('v, 'r) world \<Rightarrow> ('v, 'r) world" where
  "runtime_remove_cell sent c w =
     w\<lparr>store := (store w)(c := None), eng := fst (invalidate_cell c (eng w)),
       invalidation_tx := map_option (\<lambda>msgs. msgs @ sent) (invalidation_tx w)\<rparr>"

definition runtime_invalidate :: "string list \<Rightarrow> string \<Rightarrow> ('v, 'r) world \<Rightarrow> ('v, 'r) world" where
  "runtime_invalidate sent s w = runtime_remove_cell sent (cell_root s) w"

definition next_revision :: "('v, 'r) world \<Rightarrow> revision" where
  "next_revision w = Memory (rt_epoch w) (counter w + 1)"

definition cell_set :: "cell_id \<Rightarrow> 'v \<Rightarrow> ('v, 'r) world \<Rightarrow> ('v, 'r) world" where
  "cell_set c v w =
     w\<lparr>store := (store w)(c \<mapsto> v), counter := counter w + 1,
       eng := Engine.set_cell c (next_revision w) (eng w)\<rparr>"

definition runtime_cell :: "string \<Rightarrow> 'v \<Rightarrow> ('v, 'r) world \<Rightarrow> ('v, 'r) world \<times> cell_id" where
  "runtime_cell s v w = (cell_set (cell_root s) v w, cell_root s)"

definition runtime_get_cell :: "cell_id \<Rightarrow> ('v, 'r) world \<Rightarrow> cell_id option" where
  "runtime_get_cell c w = (if store w c = None then None else Some c)"

text \<open>Recording into the innermost active trace, if there is one.\<close>

definition record_top :: "cell_id \<Rightarrow> revision \<Rightarrow> 'v trace list \<Rightarrow> 'v trace list" where
  "record_top c r stack = (case stack of [] \<Rightarrow> [] | t # ts \<Rightarrow> trace_record c r t # ts)"

definition cell_get ::
  "('v, 'r) env \<Rightarrow> cell_id \<Rightarrow> ('v, 'r) world \<Rightarrow> (('v, 'r) world \<times> 'v availability) option" where
  "cell_get E c w =
     (let finish = (\<lambda>w. (w, Present (case store w c of None \<Rightarrow> null_value E | Some v \<Rightarrow> v))) in
      if active_trace w = [] then Some (finish w)
      else case get_revision (stack_depth E) (eng w) c of
          None \<Rightarrow> None
        | Some (e', None) \<Rightarrow> Some (finish (w\<lparr>eng := e'\<rparr>))
        | Some (e', Some rv) \<Rightarrow>
            Some (finish (w\<lparr>eng := e', active_trace := record_top c rv (active_trace w)\<rparr>)))"

section \<open>Resources\<close>

definition use_resource ::
  "('v, 'r) env \<Rightarrow> string \<Rightarrow> 'v \<Rightarrow> ('v, 'r) world \<Rightarrow> ('v, 'r) world \<times> 'v availability" where
  "use_resource E ty a w =
     (let spec = \<lparr>type_id = ty, args = a\<rparr>;
          w1 = w\<lparr>active_trace := (case active_trace w of
                   [] \<Rightarrow> [] | t # ts \<Rightarrow> record_resource spec t # ts)\<rparr>
      in case (current_computation w1, resource_cursor w1) of
           (comp_id # _, cursor # cursors) \<Rightarrow>
             (let w2 = w1\<lparr>resource_cursor := (cursor + 1) # cursors\<rparr> in
              case active w2 comp_id of
                Some active_list \<Rightarrow>
                  (if cursor < length active_list \<and>
                      type_id (fst (active_list ! cursor)) = ty \<and> args (fst (active_list ! cursor)) = a
                   then (w2, Present (any_value E (snd (active_list ! cursor))))
                   else (w2, Absent Loading))
              | None \<Rightarrow> (w2, Absent Loading))
         | _ \<Rightarrow> (w1, Absent Loading))"

text \<open>\<open>reconcile\<close> walks the new specs in step with the old instances.\<close>

fun reconcile_list ::
  "(string \<rightharpoonup> ('v \<Rightarrow> 'r)) \<Rightarrow> 'v resource_spec list \<Rightarrow> ('v resource_spec \<times> 'r) list
   \<Rightarrow> ('v resource_spec \<times> 'r) list option" where
  "reconcile_list reg [] old_iter = Some []"
| "reconcile_list reg (spec # specs) old_iter =
     (let instance_opt =
        (case old_iter of
           (old_spec, old_inst) # _ \<Rightarrow>
             (if old_spec = spec then Some old_inst
              else map_option (\<lambda>factory. factory (args spec)) (reg (type_id spec)))
         | [] \<Rightarrow> map_option (\<lambda>factory. factory (args spec)) (reg (type_id spec)))
      in case instance_opt of
           None \<Rightarrow> None
         | Some inst \<Rightarrow> map_option (Cons (spec, inst)) (reconcile_list reg specs (tl old_iter)))"

definition reconcile :: "string \<Rightarrow> 'v trace \<Rightarrow> ('v, 'r) world \<Rightarrow> ('v, 'r) world option" where
  "reconcile i t w =
     (let old_resources = (case active w i of None \<Rightarrow> [] | Some l \<Rightarrow> l) in
      map_option (\<lambda>final_resources. w\<lparr>active := (active w)(i \<mapsto> final_resources)\<rparr>)
        (reconcile_list (registry w) (resources t) old_resources))"

section \<open>Computed values\<close>

definition runtime_computed :: "handle \<Rightarrow> string \<Rightarrow> ('v, 'r) world \<Rightarrow> ('v, 'r) world" where
  "runtime_computed h i w =
     w\<lparr>computeds := (computeds w)(h \<mapsto>
        \<lparr>computed_id = i, last_digest = None, last_value = None, hysteresis = None,
         last_valid_time = None, last_present_value = None\<rparr>)\<rparr>"

definition with_hysteresis :: "handle \<Rightarrow> nat \<Rightarrow> ('v, 'r) world \<Rightarrow> ('v, 'r) world" where
  "with_hysteresis h d w =
     w\<lparr>computeds := (computeds w)(h := map_option (\<lambda>cp. cp\<lparr>hysteresis := Some d\<rparr>) (computeds w h))\<rparr>"

definition drop_computed :: "handle \<Rightarrow> ('v, 'r) world \<Rightarrow> ('v, 'r) world" where
  "drop_computed h w =
     (case computeds w h of
        None \<Rightarrow> w
      | Some cp \<Rightarrow> w\<lparr>computeds := (computeds w)(h := None), eng := remove_root (computed_id cp) (eng w)\<rparr>)"

fun replay :: "trace_entry list \<Rightarrow> 'v trace list \<Rightarrow> 'v trace list" where
  "replay [] stack = stack"
| "replay (d # ds) stack = replay ds (record_top (entry_cell d) (entry_revision d) stack)"

text \<open>The cached branch of \<open>Computed::read\<close>.\<close>

definition read_cached ::
  "'v computed \<Rightarrow> ('v, 'r) world \<Rightarrow> (('v, 'r) world \<times> 'v availability) option" where
  "read_cached cp w =
     (let w1 = (case roots (eng w) (computed_id cp) of
          None \<Rightarrow> w
        | Some rt \<Rightarrow>
            w\<lparr>active_trace := replay (dependencies (root_trace rt)) (active_trace w)\<rparr>)
      in map_option (Pair w1) (last_value cp))"

text \<open>
  The recomputing branch: a fresh trace and resource context around the closure, the
  flattening of its trace into the enclosing one, resource reconciliation, registration of
  the root and the update of the cache.
\<close>

definition read_recompute ::
  "('v, 'r) env \<Rightarrow> handle \<Rightarrow> (('v, 'r) world \<Rightarrow> (('v, 'r) world \<times> 'v availability) option)
   \<Rightarrow> 'v computed \<Rightarrow> ('v, 'r) world \<Rightarrow> (('v, 'r) world \<times> 'v availability) option" where
  "read_recompute E h compute cp w =
     (let i = computed_id cp;
          w1 = w\<lparr>active_trace := trace_new # active_trace w,
                 current_computation := i # current_computation w,
                 resource_cursor := 0 # resource_cursor w\<rparr>
      in case compute w1 of
           None \<Rightarrow> None
         | Some (w2, value) \<Rightarrow>
             (case active_trace w2 of
                [] \<Rightarrow> None
              | tr # outer \<Rightarrow>
                  (let w3 = w2\<lparr>current_computation := tl (current_computation w2),
                               resource_cursor := tl (resource_cursor w2),
                               active_trace := replay (dependencies tr) outer\<rparr>
                   in case reconcile i tr w3 of
                        None \<Rightarrow> None
                      | Some w4 \<Rightarrow>
                          Some (w4\<lparr>eng := register_root (digest_env E) (now w4) (now w4) i tr
                                       (to_value E value) False (eng w4),
                                   computeds := (computeds w4)(h := map_option
                                     (\<lambda>cp. cp\<lparr>last_digest := Some (digest (digest_env E) tr),
                                              last_value := Some value\<rparr>) (computeds w4 h))\<rparr>,
                                value))))"

text \<open>
  The tail of \<open>read\<close>: an absent result may be replaced by the last present one within the
  grace period, with a timer that reports the root when the period is over.
\<close>

definition apply_hysteresis ::
  "handle \<Rightarrow> ('v, 'r) world \<times> 'v availability \<Rightarrow> (('v, 'r) world \<times> 'v availability) option" where
  "apply_hysteresis h res =
     (case res of (w, value) \<Rightarrow>
       (case computeds w h of
          None \<Rightarrow> None
        | Some cp \<Rightarrow>
            (case value of
               Present v \<Rightarrow>
                 Some (w\<lparr>computeds := (computeds w)(h \<mapsto>
                    cp\<lparr>last_valid_time := Some (now w), last_present_value := Some v\<rparr>)\<rparr>, value)
             | Absent _ \<Rightarrow>
                 (case (hysteresis cp, last_valid_time cp, last_present_value cp) of
                    (Some duration, Some last_time, Some old_val) \<Rightarrow>
                      (if now w - last_time < duration then
                         (let remaining = duration - (now w - last_time);
                              w' = (if invalidation_tx w = None then w
                                    else w\<lparr>timers := timers w @ [(now w + remaining, computed_id cp)]\<rparr>)
                          in Some (w', Present old_val))
                       else Some (w, value))
                  | _ \<Rightarrow> Some (w, value)))))"

definition computed_read ::
  "('v, 'r) env \<Rightarrow> handle \<Rightarrow> (('v, 'r) world \<Rightarrow> (('v, 'r) world \<times> 'v availability) option)
   \<Rightarrow> ('v, 'r) world \<Rightarrow> (('v, 'r) world \<times> 'v availability) option" where
  "computed_read E h compute w =
     (case computeds w h of
        None \<Rightarrow> None
      | Some cp \<Rightarrow>
          Option.bind
            (case last_digest cp of
               None \<Rightarrow> read_recompute E h compute cp w
             | Some dg \<Rightarrow>
                 (case validate_root (stack_depth E) (computed_id cp) dg (eng w) of
                    None \<Rightarrow> None
                  | Some (e', is_valid) \<Rightarrow>
                      (if is_valid then read_cached cp (w\<lparr>eng := e'\<rparr>)
                       else read_recompute E h compute cp (w\<lparr>eng := e'\<rparr>))))
            (apply_hysteresis h))"

section \<open>Closures\<close>

text \<open>
  A closure passed to \<open>Runtime::computed\<close> talks to the runtime by reading cells, reading
  other computed values and asking for resources, and otherwise computes. It is the tree of
  these calls; \<open>run\<close> executes it.
\<close>

datatype 'v closure =
    Return "'v availability"
  | GetCell cell_id "'v availability \<Rightarrow> 'v closure"
  | ReadComputed handle "'v availability \<Rightarrow> 'v closure"
  | UseResource string 'v "'v availability \<Rightarrow> 'v closure"

primrec run ::
  "('v, 'r) env \<Rightarrow> (handle \<Rightarrow> ('v, 'r) world \<Rightarrow> (('v, 'r) world \<times> 'v availability) option)
   \<Rightarrow> 'v closure \<Rightarrow> ('v, 'r) world \<Rightarrow> (('v, 'r) world \<times> 'v availability) option" where
  "run E rd (Return a) = (\<lambda>w. Some (w, a))"
| "run E rd (GetCell c k) = (\<lambda>w. case cell_get E c w of
      None \<Rightarrow> None | Some (w', a) \<Rightarrow> run E rd (k a) w')"
| "run E rd (ReadComputed h k) = (\<lambda>w. case rd h w of
      None \<Rightarrow> None | Some (w', a) \<Rightarrow> run E rd (k a) w')"
| "run E rd (UseResource ty v k) = (\<lambda>w. case use_resource E ty v w of
      (w', a) \<Rightarrow> run E rd (k a) w')"

text \<open>Reading the computed value \<open>h\<close> whose closure is \<open>code h\<close>; the fuel bounds the nesting.\<close>

primrec read_at ::
  "nat \<Rightarrow> ('v, 'r) env \<Rightarrow> (handle \<Rightarrow> 'v closure) \<Rightarrow> handle \<Rightarrow> ('v, 'r) world
   \<Rightarrow> (('v, 'r) world \<times> 'v availability) option" where
  "read_at 0 = (\<lambda>E code h w. None)"
| "read_at (Suc n) = (\<lambda>E code h w. computed_read E h (run E (read_at n E code) (code h)) w)"

end
