(* ===== verification/Runtime_Facts.thy ===== *)
theory Runtime_Facts
  imports Runtime
begin

text \<open>
  Correctness of the caching of computed values: a read returns and its result is the value
  of the closure on the cells as they are now, through any nesting of computed values,
  although unchanged values are served from the cache.
\<close>

section \<open>What a closure means\<close>

primrec eval :: "(handle \<Rightarrow> 'v availability) \<Rightarrow> (cell_id \<Rightarrow> 'v) \<Rightarrow> 'v closure \<Rightarrow> 'v availability" where
  "eval vals \<sigma> (Return a) = a"
| "eval vals \<sigma> (GetCell c k) = eval vals \<sigma> (k (Present (\<sigma> c)))"
| "eval vals \<sigma> (ReadComputed h k) = eval vals \<sigma> (k (vals h))"
| "eval vals \<sigma> (UseResource ty v k) = eval vals \<sigma> (k (Absent Loading))"

primrec value_at ::
  "nat \<Rightarrow> (handle \<Rightarrow> 'v closure) \<Rightarrow> (cell_id \<Rightarrow> 'v) \<Rightarrow> handle \<Rightarrow> 'v availability" where
  "value_at 0 = (\<lambda>code \<sigma> h. Absent Loading)"
| "value_at (Suc n) = (\<lambda>code \<sigma> h. eval (value_at n code \<sigma>) \<sigma> (code h))"

definition denote ::
  "(handle \<Rightarrow> 'v closure) \<Rightarrow> (handle \<Rightarrow> nat) \<Rightarrow> (cell_id \<Rightarrow> 'v) \<Rightarrow> handle \<Rightarrow> 'v availability" where
  "denote code rank \<sigma> h = value_at (Suc (rank h)) code \<sigma> h"

text \<open>Closures that read only cells in \<open>P\<close> and computed values in \<open>Q\<close>, and use no resource.\<close>

primrec closure_ok :: "(cell_id \<Rightarrow> bool) \<Rightarrow> (handle \<Rightarrow> bool) \<Rightarrow> 'v closure \<Rightarrow> bool" where
  "closure_ok P Q (Return a) = True"
| "closure_ok P Q (GetCell c k) = (P c \<and> (\<forall>a. closure_ok P Q (k a)))"
| "closure_ok P Q (ReadComputed h k) = (Q h \<and> (\<forall>a. closure_ok P Q (k a)))"
| "closure_ok P Q (UseResource ty v k) = False"

lemma closure_ok_mono:
  "closure_ok P Q p \<Longrightarrow> (\<And>c. P c \<Longrightarrow> P' c) \<Longrightarrow> (\<And>h. Q h \<Longrightarrow> Q' h) \<Longrightarrow> closure_ok P' Q' p"
  by (induction p) auto

lemma eval_cong: "closure_ok P Q p \<Longrightarrow> (\<And>h. Q h \<Longrightarrow> f h = g h) \<Longrightarrow> eval f \<sigma> p = eval g \<sigma> p"
  by (induction p) auto

definition ranked_code ::
  "(handle \<Rightarrow> 'v closure) \<Rightarrow> (handle \<Rightarrow> nat) \<Rightarrow> (cell_id \<Rightarrow> bool) \<Rightarrow> (handle \<Rightarrow> bool) \<Rightarrow> bool" where
  "ranked_code code rank P Q \<longleftrightarrow>
     (\<forall>h. Q h \<longrightarrow> closure_ok P (\<lambda>h'. rank h' < rank h \<and> Q h') (code h))"

lemma value_at_stable:
  assumes "ranked_code code rank P Q"
  shows "Q h \<Longrightarrow> rank h < n \<Longrightarrow> rank h < m \<Longrightarrow> value_at n code \<sigma> h = value_at m code \<sigma> h"
proof (induction n arbitrary: m h)
  case 0
  then show ?case by simp
next
  case (Suc n)
  then obtain m' where m: "m = Suc m'" by (cases m) auto
  from assms Suc.prems(1) have ok: "closure_ok P (\<lambda>h'. rank h' < rank h \<and> Q h') (code h)"
    by (simp add: ranked_code_def)
  have "eval (value_at n code \<sigma>) \<sigma> (code h) = eval (value_at m' code \<sigma>) \<sigma> (code h)"
    by (rule eval_cong [OF ok], rule Suc.IH) (use Suc.prems m in auto)
  with m show ?case by simp
qed

lemma denote_unfold:
  assumes "ranked_code code rank P Q" and "Q h"
  shows "denote code rank \<sigma> h = eval (denote code rank \<sigma>) \<sigma> (code h)"
proof -
  from assms have ok: "closure_ok P (\<lambda>h'. rank h' < rank h \<and> Q h') (code h)"
    by (simp add: ranked_code_def)
  have "eval (value_at (rank h) code \<sigma>) \<sigma> (code h) =
      eval (\<lambda>h. value_at (Suc (rank h)) code \<sigma> h) \<sigma> (code h)"
    by (rule eval_cong [OF ok], rule value_at_stable [OF assms(1)]) auto
  moreover have "denote code rank \<sigma> = (\<lambda>h. value_at (Suc (rank h)) code \<sigma> h)"
    by (rule ext) (simp only: denote_def)
  ultimately show ?thesis by (simp only: denote_def value_at.simps)
qed

section \<open>The invariant of the cache\<close>

text \<open>
  \<open>H c r\<close> is the value cell \<open>c\<close> had when it was given revision \<open>r\<close>. A cached value is
  determined by the recorded revisions: any contents of the cells that agree with them give
  the same value.
\<close>

type_synonym 'v history = "cell_id \<Rightarrow> revision \<Rightarrow> 'v"

definition agrees :: "'v history \<Rightarrow> (cell_id \<Rightarrow> 'v) \<Rightarrow> trace_entry set \<Rightarrow> bool" where
  "agrees H \<sigma> X \<longleftrightarrow> (\<forall>d \<in> X. \<sigma> (entry_cell d) = H (entry_cell d) (entry_revision d))"

lemma agrees_Un [simp]: "agrees H \<sigma> (X \<union> Y) \<longleftrightarrow> agrees H \<sigma> X \<and> agrees H \<sigma> Y"
  by (auto simp: agrees_def)

definition old_revision :: "('v, 'r) world \<Rightarrow> revision \<Rightarrow> bool" where
  "old_revision w r \<longleftrightarrow> (\<exists>k \<le> counter w. r = Memory (rt_epoch w) k)"

definition live :: "('v, 'r) world \<Rightarrow> cell_id \<Rightarrow> bool" where
  "live w c \<longleftrightarrow> store w c \<noteq> None"

definition id_of :: "('v, 'r) world \<Rightarrow> handle \<Rightarrow> string option" where
  "id_of w h = map_option computed_id (computeds w h)"

definition has_computed :: "('v, 'r) world \<Rightarrow> handle \<Rightarrow> bool" where
  "has_computed w h \<longleftrightarrow> id_of w h \<noteq> None"

lemma has_computedE:
  assumes "has_computed w h" obtains cp where "computeds w h = Some cp"
  using assms by (auto simp: has_computed_def id_of_def)

definition cell_value :: "('v, 'r) world \<Rightarrow> cell_id \<Rightarrow> 'v" where
  "cell_value w c = the (store w c)"

definition cells_good :: "'v history \<Rightarrow> ('v, 'r) world \<Rightarrow> bool" where
  "cells_good H w \<longleftrightarrow> (\<forall>c. live w c \<longrightarrow> pointer c = [] \<and>
     (\<exists>r. get_revision_snapshot c (eng w) = Some r \<and> old_revision w r \<and> H c r = cell_value w c) \<and>
     (\<forall>h. id_of w h \<noteq> Some (source_id c)))"

definition ids_good :: "('v, 'r) world \<Rightarrow> bool" where
  "ids_good w \<longleftrightarrow> inj_on (id_of w) (dom (id_of w))"

definition roots_good :: "('v, 'r) world \<Rightarrow> bool" where
  "roots_good w \<longleftrightarrow> (\<forall>i rt. roots (eng w) i = Some rt \<longrightarrow>
     (\<exists>h. id_of w h = Some i) \<and>
     (\<forall>d \<in> set (dependencies (root_trace rt)). live w (entry_cell d) \<and> old_revision w (entry_revision d)))"

definition cache_entry_good ::
  "(handle \<Rightarrow> 'v closure) \<Rightarrow> (handle \<Rightarrow> nat) \<Rightarrow> 'v history \<Rightarrow> 'v engine \<Rightarrow> handle \<Rightarrow> 'v computed \<Rightarrow> bool" where
  "cache_entry_good code rank H e h cp \<longleftrightarrow> hysteresis cp = None \<and>
     (\<forall>dg. last_digest cp = Some dg \<longrightarrow>
        (\<exists>v rt. last_value cp = Some v \<and> roots e (computed_id cp) = Some rt \<and> root_digest rt = dg \<and>
           (\<forall>\<sigma>. agrees H \<sigma> (set (dependencies (root_trace rt))) \<longrightarrow> denote code rank \<sigma> h = v)))"

definition good ::
  "(handle \<Rightarrow> 'v closure) \<Rightarrow> (handle \<Rightarrow> nat) \<Rightarrow> 'v history \<Rightarrow> ('v, 'r) world \<Rightarrow> bool" where
  "good code rank H w \<longleftrightarrow> cells_good H w \<and> ids_good w \<and> roots_good w \<and>
     (\<forall>h cp. computeds w h = Some cp \<longrightarrow> cache_entry_good code rank H (eng w) h cp) \<and>
     ranked_code code rank (live w) (has_computed w)"

section \<open>What a read may change\<close>

text \<open>
  \<open>extends D w w'\<close>: the cells, the counter and the set of computed values are as before, and
  the innermost active trace, if any, has gained exactly the entries \<open>D\<close>, each a live cell at
  its present revision.
\<close>

definition extends :: "trace_entry set \<Rightarrow> ('v, 'r) world \<Rightarrow> ('v, 'r) world \<Rightarrow> bool" where
  "extends D w w' \<longleftrightarrow> store w' = store w \<and> counter w' = counter w \<and> rt_epoch w' = rt_epoch w
     \<and> id_of w' = id_of w
     \<and> (\<forall>c. live w c \<longrightarrow> get_revision_snapshot c (eng w') = get_revision_snapshot c (eng w))
     \<and> (\<forall>d \<in> D. live w (entry_cell d) \<and> get_revision_snapshot (entry_cell d) (eng w) = Some (entry_revision d))
     \<and> (case active_trace w of
          [] \<Rightarrow> active_trace w' = []
        | t # ts \<Rightarrow> \<exists>t'. active_trace w' = t' # ts \<and> resources t' = resources t
            \<and> set (dependencies t') = D \<union> set (dependencies t))"

lemma extends_refl [simp]: "extends {} w w"
  by (auto simp: extends_def split: list.split)

lemma extends_live: "extends D w w' \<Longrightarrow> live w' = live w"
  by (simp add: extends_def live_def fun_eq_iff)

lemma extends_value: "extends D w w' \<Longrightarrow> cell_value w' = cell_value w"
  by (simp add: extends_def cell_value_def fun_eq_iff)

lemma extends_computed: "extends D w w' \<Longrightarrow> has_computed w' = has_computed w"
  by (simp add: extends_def has_computed_def fun_eq_iff)

lemma extends_trans:
  assumes "extends D w w1" and "extends D' w1 w2"
  shows "extends (D \<union> D') w w2"
proof -
  have "live w1 = live w" by (rule extends_live [OF assms(1)])
  with assms show ?thesis
    unfolding extends_def by (cases "active_trace w") auto
qed

lemma extends_active: "extends D w w' \<Longrightarrow> active_trace w \<noteq> [] \<Longrightarrow> active_trace w' \<noteq> []"
  by (auto simp: extends_def split: list.splits)

lemma replay_Nil [simp]: "replay ds [] = []"
  by (induction ds) (simp_all add: record_top_def)

lemma replay_Cons:
  "\<exists>t'. replay ds (t # ts) = t' # ts \<and> resources t' = resources t
     \<and> set (dependencies t') = set ds \<union> set (dependencies t)"
  by (induction ds arbitrary: t) (force simp: record_top_def)+

section \<open>Running a closure against a correct reader\<close>

definition same_runtime :: "('v, 'r) world \<Rightarrow> ('v, 'r) world \<Rightarrow> bool" where
  "same_runtime w w' \<longleftrightarrow> store w' = store w \<and> counter w' = counter w \<and> rt_epoch w' = rt_epoch w
     \<and> computeds w' = computeds w \<and> view (eng w') = view (eng w)"

lemma good_same_runtime: "same_runtime w w' \<Longrightarrow> good code rank H w \<Longrightarrow> good code rank H w'"
proof -
  assume same: "same_runtime w w'" and g: "good code rank H w"
  then have v: "roots (eng w') = roots (eng w)"
    "get_revision_snapshot c (eng w') = get_revision_snapshot c (eng w)" for c
    by (auto simp: same_runtime_def dest: view_D)
  have lh: "live w' = live w" "has_computed w' = has_computed w" "id_of w' = id_of w"
    using same by (simp_all add: fun_eq_iff same_runtime_def live_def has_computed_def id_of_def)
  from same g show ?thesis
    by (simp add: same_runtime_def good_def cells_good_def ids_good_def roots_good_def
        cache_entry_good_def old_revision_def cell_value_def v lh cong: conj_cong)
qed

lemma good_live_plain:
  assumes "good code rank H w" and "live w c"
  shows "root_of (eng w) c = None"
proof -
  have "source_id c \<noteq> i" if "roots (eng w) i = Some rt" for i rt
    using assms that by (fastforce simp: good_def cells_good_def roots_good_def)
  then show ?thesis
    by (cases "roots (eng w) (source_id c)") (auto simp: root_of_def)
qed

lemma good_live_revision:
  assumes "good code rank H w" and "live w c"
  obtains r where "get_revision_snapshot c (eng w) = Some r" "old_revision w r" "H c r = cell_value w c"
  using assms by (auto simp: good_def cells_good_def)

lemma cell_get_correct:
  assumes g: "good code rank H w" and l: "live w c" and act: "active_trace w \<noteq> []"
    and depth: "stack_depth E = Suc d"
  shows "\<exists>w' r. cell_get E c w = Some (w', Present (cell_value w c)) \<and> good code rank H w'
      \<and> extends {TraceEntry c r} w w' \<and> H c r = cell_value w c"
proof -
  obtain r where r: "get_revision_snapshot c (eng w) = Some r" "H c r = cell_value w c"
    using good_live_revision [OF g l] by blast
  obtain e' where t: "touch (eng w) c = (e', Some r)"
    using r(1) by (auto simp: touch_def get_revision_snapshot_def split: option.splits)
  from view_touch [OF t] have v: "view e' = view (eng w)" by simp
  let ?w = "w\<lparr>eng := e', active_trace := record_top c r (active_trace w)\<rparr>"
  have "cell_get E c w = Some (?w, Present (cell_value w c))"
    using act l depth t
    by (auto simp: cell_get_def Let_def get_revision_simps good_live_plain [OF g l] live_def cell_value_def)
  moreover have "good code rank H ?w"
    by (rule good_same_runtime [OF _ g]) (simp add: same_runtime_def v)
  moreover have "extends {TraceEntry c r} w ?w"
    using act l r view_D(2) [OF v]
    by (auto simp: extends_def record_top_def id_of_def fun_eq_iff split: list.split)
  ultimately show ?thesis using r by blast
qed

text \<open>
  The interface a running closure relies on: reading another computed value returns, keeps
  the invariant, returns the value on the present cells, and records entries that determine
  that value.
\<close>

definition determines ::
  "'v history \<Rightarrow> trace_entry set \<Rightarrow> ((cell_id \<Rightarrow> 'v) \<Rightarrow> 'v availability) \<Rightarrow> 'v availability \<Rightarrow> bool" where
  "determines H D f v \<longleftrightarrow> (\<forall>\<sigma>. agrees H \<sigma> D \<longrightarrow> f \<sigma> = v)"

locale reader =
  fixes E :: "('v, 'r) env"
    and code :: "handle \<Rightarrow> 'v closure"
    and rank :: "handle \<Rightarrow> nat"
    and H :: "'v history"
    and rd :: "handle \<Rightarrow> ('v, 'r) world \<Rightarrow> (('v, 'r) world \<times> 'v availability) option"
    and Q :: "handle \<Rightarrow> bool"
  assumes depth: "\<exists>d. stack_depth E = Suc d"
    and rd_correct: "good code rank H w \<Longrightarrow> has_computed w h \<Longrightarrow> Q h \<Longrightarrow>
      \<exists>w' D. rd h w = Some (w', denote code rank (cell_value w) h) \<and> good code rank H w'
        \<and> extends D w w' \<and> determines H D (\<lambda>\<sigma>. denote code rank \<sigma> h) (denote code rank (cell_value w) h)"
begin

lemma run_correct:
  assumes "closure_ok (live w) (\<lambda>h. Q h \<and> has_computed w h) p"
    and "good code rank H w" and "active_trace w \<noteq> []"
  shows "\<exists>w' D. run E rd p w = Some (w', eval (denote code rank (cell_value w)) (cell_value w) p)
      \<and> good code rank H w' \<and> extends D w w'
      \<and> determines H D (\<lambda>\<sigma>. eval (denote code rank \<sigma>) \<sigma> p)
           (eval (denote code rank (cell_value w)) (cell_value w) p)"
  using assms
proof (induction p arbitrary: w)
  case (Return a)
  then show ?case by (auto simp: determines_def intro: extends_refl)
next
  case (GetCell c k)
  obtain d where d: "stack_depth E = Suc d" using depth by blast
  from GetCell.prems have l: "live w c" by simp
  obtain w1 r where w1: "cell_get E c w = Some (w1, Present (cell_value w c))"
    and g1: "good code rank H w1" and x1: "extends {TraceEntry c r} w w1" and h1: "H c r = cell_value w c"
    using cell_get_correct [OF GetCell.prems(2) l GetCell.prems(3) d] by blast
  note eqs = extends_live [OF x1] extends_value [OF x1] extends_computed [OF x1]
  have ok1: "closure_ok (live w1) (\<lambda>h. Q h \<and> has_computed w1 h) (k (Present (cell_value w c)))"
    using GetCell.prems(1) by (simp add: eqs)
  from GetCell.IH [OF _ ok1 g1 extends_active [OF x1 GetCell.prems(3)]]
  obtain w2 D where w2: "run E rd (k (Present (cell_value w c))) w1 =
        Some (w2, eval (denote code rank (cell_value w)) (cell_value w) (k (Present (cell_value w c))))"
    and g2: "good code rank H w2" and x2: "extends D w1 w2"
    and det: "determines H D (\<lambda>\<sigma>. eval (denote code rank \<sigma>) \<sigma> (k (Present (cell_value w c))))
      (eval (denote code rank (cell_value w)) (cell_value w) (k (Present (cell_value w c))))"
    by (auto simp: eqs)
  have "determines H ({TraceEntry c r} \<union> D) (\<lambda>\<sigma>. eval (denote code rank \<sigma>) \<sigma> (GetCell c k))
      (eval (denote code rank (cell_value w)) (cell_value w) (GetCell c k))"
    using det h1 by (auto simp: determines_def agrees_def)
  with w1 w2 g2 extends_trans [OF x1 x2] show ?case by auto
next
  case (ReadComputed h k)
  from ReadComputed.prems have q: "Q h" "has_computed w h" by simp_all
  let ?v = "denote code rank (cell_value w) h"
  obtain w1 D1 where w1: "rd h w = Some (w1, ?v)" and g1: "good code rank H w1"
    and x1: "extends D1 w w1" and det1: "determines H D1 (\<lambda>\<sigma>. denote code rank \<sigma> h) ?v"
    using rd_correct [OF ReadComputed.prems(2) q(2) q(1)] by blast
  note eqs = extends_live [OF x1] extends_value [OF x1] extends_computed [OF x1]
  have ok1: "closure_ok (live w1) (\<lambda>h. Q h \<and> has_computed w1 h) (k ?v)"
    using ReadComputed.prems(1) by (simp add: eqs)
  from ReadComputed.IH [OF _ ok1 g1 extends_active [OF x1 ReadComputed.prems(3)]]
  obtain w2 D where w2: "run E rd (k ?v) w1 =
        Some (w2, eval (denote code rank (cell_value w)) (cell_value w) (k ?v))"
    and g2: "good code rank H w2" and x2: "extends D w1 w2"
    and det: "determines H D (\<lambda>\<sigma>. eval (denote code rank \<sigma>) \<sigma> (k ?v))
      (eval (denote code rank (cell_value w)) (cell_value w) (k ?v))"
    by (auto simp: eqs)
  have "determines H (D1 \<union> D) (\<lambda>\<sigma>. eval (denote code rank \<sigma>) \<sigma> (ReadComputed h k))
      (eval (denote code rank (cell_value w)) (cell_value w) (ReadComputed h k))"
    using det det1 by (auto simp: determines_def)
  with w1 w2 g2 extends_trans [OF x1 x2] show ?case by auto
next
  case (UseResource ty v k)
  then show ?case by simp
qed

end

section \<open>A read is correct\<close>

text \<open>The parts of the invariant that a change to the caches alone keeps.\<close>

lemma cells_good_cong:
  assumes "store w' = store w" "counter w' = counter w" "rt_epoch w' = rt_epoch w" "id_of w' = id_of w"
    and "\<And>c. live w c \<Longrightarrow> get_revision_snapshot c (eng w') = get_revision_snapshot c (eng w)"
    and "cells_good H w"
  shows "cells_good H w'"
proof -
  have eqs: "live w' = live w" "cell_value w' = cell_value w" "old_revision w' = old_revision w"
    using assms(1-3) by (simp_all add: fun_eq_iff live_def cell_value_def old_revision_def)
  show ?thesis
    unfolding cells_good_def eqs assms(4)
    using assms(6) assms(5) by (simp add: cells_good_def)
qed

lemma good_apply_hysteresis:
  assumes g: "good code rank H w" and h: "has_computed w h"
  shows "\<exists>w'. apply_hysteresis h (w, v) = Some (w', v) \<and> good code rank H w' \<and> extends {} w w'"
proof -
  obtain cp where cp: "computeds w h = Some cp" using has_computedE [OF h] .
  with g have "hysteresis cp = None" by (auto simp: good_def cache_entry_good_def)
  show ?thesis
  proof (cases v)
    case (Absent r)
    with cp \<open>hysteresis cp = None\<close> g show ?thesis
      by (auto simp: apply_hysteresis_def intro: extends_refl)
  next
    case (Present x)
    let ?w = "w\<lparr>computeds := (computeds w)(h \<mapsto>
        cp\<lparr>last_valid_time := Some (now w), last_present_value := Some x\<rparr>)\<rparr>"
    have ids: "id_of ?w = id_of w" using cp by (simp add: id_of_def fun_eq_iff)
    then have lh: "live ?w = live w" "has_computed ?w = has_computed w"
      by (simp_all add: fun_eq_iff live_def has_computed_def)
    have "cells_good H ?w"
      by (rule cells_good_cong [of _ w]) (use g ids in \<open>simp_all add: good_def\<close>)
    moreover have "ids_good ?w" "roots_good ?w"
      using g by (simp_all add: good_def ids_good_def roots_good_def ids lh old_revision_def)
    moreover have "cache_entry_good code rank H (eng ?w) h' cp'" if "computeds ?w h' = Some cp'" for h' cp'
      using that g cp by (auto simp: good_def cache_entry_good_def split: if_splits)
    ultimately have "good code rank H ?w" using g by (simp add: good_def lh)
    moreover have "extends {} w ?w"
      using ids by (auto simp: extends_def split: list.split)
    ultimately show ?thesis using Present cp by (auto simp: apply_hysteresis_def)
  qed
qed

lemma validate_live_total:
  assumes "good code rank H w"
  shows "validate_root (Suc d) i dg (eng w) \<noteq> None"
proof (rule validate_root_total)
  fix rt e
  assume "roots (eng w) i = Some rt" and "e \<in> set (dependencies (root_trace rt))"
  with assms have "live w (entry_cell e)" by (auto simp: good_def roots_good_def)
  from good_live_plain [OF assms this] show "within (Suc d) (eng w) (entry_cell e)" by simp
qed

lemma reconcile_no_resources:
  "resources t = [] \<Longrightarrow> reconcile i t w = Some (w\<lparr>active := (active w)(i \<mapsto> [])\<rparr>)"
  by (simp add: reconcile_def)

text \<open>Registering a computed value whose trace determines it keeps the invariant.\<close>

definition store_result ::
  "('v, 'r) env \<Rightarrow> handle \<Rightarrow> string \<Rightarrow> 'v trace \<Rightarrow> 'v availability \<Rightarrow> ('v, 'r) world \<Rightarrow> ('v, 'r) world" where
  "store_result E h i tr v w =
     w\<lparr>eng := register_root (digest_env E) (now w) (now w) i tr (to_value E v) False (eng w),
       computeds := (computeds w)(h := map_option
         (\<lambda>cp. cp\<lparr>last_digest := Some (digest (digest_env E) tr), last_value := Some v\<rparr>) (computeds w h))\<rparr>"

lemma store_result_same:
  "store (store_result E h i tr v w) = store w" "counter (store_result E h i tr v w) = counter w"
  "rt_epoch (store_result E h i tr v w) = rt_epoch w"
  "active_trace (store_result E h i tr v w) = active_trace w"
  "id_of (store_result E h i tr v w) = id_of w"
  "live (store_result E h i tr v w) = live w"
  "has_computed (store_result E h i tr v w) = has_computed w"
  by (simp_all add: store_result_def id_of_def live_def has_computed_def fun_eq_iff option.map_comp comp_def)

lemma good_store_result:
  assumes g: "good code rank H w" and h: "id_of w h = Some i"
    and deps: "\<And>d. d \<in> set (dependencies tr) \<Longrightarrow>
      live w (entry_cell d) \<and> get_revision_snapshot (entry_cell d) (eng w) = Some (entry_revision d)"
    and det: "determines H (set (dependencies tr)) (\<lambda>\<sigma>. denote code rank \<sigma> h) v"
  shows "good code rank H (store_result E h i tr v w)"
    and "live w c \<Longrightarrow> get_revision_snapshot c (eng (store_result E h i tr v w)) = get_revision_snapshot c (eng w)"
proof -
  let ?w = "store_result E h i tr v w"
  note same = store_result_same [of E h i tr v w]
  have root: "c \<noteq> cell_root i" if "live w c" for c
    using g h that by (auto simp: good_def cells_good_def)
  show snap: "get_revision_snapshot c (eng ?w) = get_revision_snapshot c (eng w)" if "live w c" for c
    using root [OF that] by (simp add: store_result_def)
  have "cells_good H ?w"
    by (rule cells_good_cong [of _ w]) (use g snap in \<open>simp_all add: same good_def\<close>)
  moreover have "ids_good ?w" using g by (simp add: good_def ids_good_def same)
  moreover have "roots_good ?w"
  proof -
    have "old_revision w (entry_revision d)" if "d \<in> set (dependencies tr)" for d
      using good_live_revision [OF g] deps [OF that] by force
    with g h deps show ?thesis
      by (auto simp: good_def roots_good_def same old_revision_def)
        (auto simp: store_result_def op_simps split: if_splits)
  qed
  moreover have "cache_entry_good code rank H (eng ?w) h' cp'" if cp': "computeds ?w h' = Some cp'" for h' cp'
  proof (cases "h' = h")
    case True
    with cp' h obtain cp where cp: "computeds w h = Some cp" "computed_id cp = i"
      by (auto simp: id_of_def)
    with True cp' have "cp' = cp\<lparr>last_digest := Some (digest (digest_env E) tr), last_value := Some v\<rparr>"
      by (simp add: store_result_def)
    moreover from g cp have "hysteresis cp = None" by (auto simp: good_def cache_entry_good_def)
    ultimately show ?thesis
      using det True cp
      by (auto simp: cache_entry_good_def store_result_def op_simps determines_def)
  next
    case False
    with cp' have cp: "computeds w h' = Some cp'" by (simp add: store_result_def)
    with g h False have "computed_id cp' \<noteq> i"
      by (auto simp: good_def ids_good_def id_of_def dest!: inj_onD [where x = h and y = h'])
    with g cp show ?thesis by (auto simp: good_def cache_entry_good_def store_result_def op_simps)
  qed
  ultimately show "good code rank H ?w" using g by (simp add: good_def same)
qed

lemma extends_current:
  assumes "extends D w w'" and "d \<in> D"
  shows "live w' (entry_cell d) \<and> get_revision_snapshot (entry_cell d) (eng w') = Some (entry_revision d)"
  using assms extends_live [OF assms(1)] by (simp add: extends_def)

context reader
begin

lemma read_recompute_correct:
  assumes g: "good code rank H w" and cp: "computeds w h = Some cp" and q: "\<And>h'. rank h' < rank h \<Longrightarrow> Q h'"
  shows "\<exists>w' D. read_recompute E h (run E rd (code h)) cp w = Some (w', denote code rank (cell_value w) h)
      \<and> good code rank H w' \<and> extends D w w'
      \<and> determines H D (\<lambda>\<sigma>. denote code rank \<sigma> h) (denote code rank (cell_value w) h)"
proof -
  let ?i = "computed_id cp" and ?v = "denote code rank (cell_value w) h"
  let ?w1 = "w\<lparr>active_trace := trace_new # active_trace w,
      current_computation := ?i # current_computation w, resource_cursor := 0 # resource_cursor w\<rparr>"
  have hc: "has_computed w h" using cp by (simp add: has_computed_def id_of_def)
  have same1: "same_runtime w ?w1" by (simp add: same_runtime_def)
  have g1: "good code rank H ?w1" by (rule good_same_runtime [OF same1 g])
  have eq1: "live ?w1 = live w" "has_computed ?w1 = has_computed w" "cell_value ?w1 = cell_value w"
      "id_of ?w1 = id_of w"
    by (simp_all add: fun_eq_iff live_def has_computed_def id_of_def cell_value_def)
  have rc: "ranked_code code rank (live w) (has_computed w)" using g by (simp add: good_def)
  then have "closure_ok (live w) (\<lambda>h'. rank h' < rank h \<and> has_computed w h') (code h)"
    using hc by (simp add: ranked_code_def)
  then have ok: "closure_ok (live ?w1) (\<lambda>h'. Q h' \<and> has_computed ?w1 h') (code h)"
    unfolding eq1 by (rule closure_ok_mono) (use q in auto)
  have unf: "eval (denote code rank \<sigma>) \<sigma> (code h) = denote code rank \<sigma> h" for \<sigma>
    by (rule denote_unfold [symmetric, OF rc hc])
  from run_correct [OF ok g1]
  obtain w2 D where w2: "run E rd (code h) ?w1 = Some (w2, ?v)" and g2: "good code rank H w2"
    and x2: "extends D ?w1 w2" and det: "determines H D (\<lambda>\<sigma>. denote code rank \<sigma> h) ?v"
    by (auto simp: unf eq1)
  from x2 obtain tr where tr: "active_trace w2 = tr # active_trace w" "resources tr = []"
      "set (dependencies tr) = D"
    by (auto simp: extends_def trace_new_def)
  let ?w4 = "w2\<lparr>current_computation := tl (current_computation w2),
      resource_cursor := tl (resource_cursor w2),
      active_trace := replay (dependencies tr) (active_trace w), active := (active w2)(?i \<mapsto> [])\<rparr>"
  have same4: "same_runtime w2 ?w4" by (simp add: same_runtime_def)
  have g4: "good code rank H ?w4" by (rule good_same_runtime [OF same4 g2])
  have eq4: "live ?w4 = live w" "id_of ?w4 = id_of w"
    using extends_live [OF x2] x2 by (simp_all add: extends_def eq1 fun_eq_iff live_def id_of_def)
  have id: "id_of ?w4 h = Some ?i" unfolding eq4 using cp by (simp add: id_of_def)
  have deps: "live ?w4 (entry_cell d) \<and>
      get_revision_snapshot (entry_cell d) (eng ?w4) = Some (entry_revision d)"
    if "d \<in> set (dependencies tr)" for d
    using extends_current [OF x2] that tr(3) by (simp add: live_def)
  let ?w5 = "store_result E h ?i tr ?v ?w4"
  have "read_recompute E h (run E rd (code h)) cp w = Some (?w5, ?v)"
    using w2 tr(1) by (simp add: read_recompute_def Let_def reconcile_no_resources [OF tr(2)] store_result_def)
  moreover have g5: "good code rank H ?w5"
    by (rule good_store_result(1) [OF g4 id deps]) (use det tr(3) in simp_all)
  moreover have "extends D w ?w5"
  proof -
    have snap: "get_revision_snapshot c (eng ?w5) = get_revision_snapshot c (eng w)" if "live w c" for c
      using good_store_result(2) [OF g4 id deps, of tr] that x2 det tr(3)
      by (simp add: eq4 extends_def eq1)
    show ?thesis
      unfolding extends_def store_result_same eq4
      using x2 snap replay_Cons [of "dependencies tr"] tr(3)
      by (auto simp: extends_def eq1 split: list.splits)
  qed
  ultimately show ?thesis using det by blast
qed

end

lemma read_cached_correct:
  assumes g: "good code rank H w" and cp: "computeds w h = Some cp" and dg: "last_digest cp = Some dg"
    and rt: "roots (eng w) (computed_id cp) = Some rt" "root_digest rt = dg"
    and cur: "\<forall>d \<in> set (dependencies (root_trace rt)). current (eng w) (entry_cell d) (entry_revision d)"
  shows "\<exists>w' D. read_cached cp w = Some (w', denote code rank (cell_value w) h)
      \<and> good code rank H w' \<and> extends D w w'
      \<and> determines H D (\<lambda>\<sigma>. denote code rank \<sigma> h) (denote code rank (cell_value w) h)"
proof -
  let ?D = "set (dependencies (root_trace rt))"
  have deps: "live w (entry_cell d) \<and> get_revision_snapshot (entry_cell d) (eng w) = Some (entry_revision d)"
    if "d \<in> ?D" for d
    using g rt(1) that cur by (auto simp: good_def roots_good_def dest: current_snapshot)
  have ag: "agrees H (cell_value w) ?D"
    using deps good_live_revision [OF g] by (force simp: agrees_def)
  from g cp have "cache_entry_good code rank H (eng w) h cp" by (simp add: good_def)
  with dg rt obtain v where v: "last_value cp = Some v"
    and det: "\<And>\<sigma>. agrees H \<sigma> ?D \<Longrightarrow> denote code rank \<sigma> h = v"
    unfolding cache_entry_good_def by force
  have den: "denote code rank (cell_value w) h = v" by (rule det [OF ag])
  let ?w = "w\<lparr>active_trace := replay (dependencies (root_trace rt)) (active_trace w)\<rparr>"
  have same: "same_runtime w ?w" by (simp add: same_runtime_def)
  have "read_cached cp w = Some (?w, denote code rank (cell_value w) h)"
    using rt v den by (simp add: read_cached_def)
  moreover have "good code rank H ?w" by (rule good_same_runtime [OF same g])
  moreover have "extends ?D w ?w"
    using deps replay_Cons [of "dependencies (root_trace rt)"]
    by (auto simp: extends_def id_of_def fun_eq_iff split: list.split)
  moreover have "determines H ?D (\<lambda>\<sigma>. denote code rank \<sigma> h) (denote code rank (cell_value w) h)"
    using det den by (simp add: determines_def)
  ultimately show ?thesis by blast
qed

context reader
begin

lemma computed_read_correct:
  assumes g: "good code rank H w" and h: "has_computed w h" and q: "\<And>h'. rank h' < rank h \<Longrightarrow> Q h'"
  shows "\<exists>w' D. computed_read E h (run E rd (code h)) w = Some (w', denote code rank (cell_value w) h)
      \<and> good code rank H w' \<and> extends D w w'
      \<and> determines H D (\<lambda>\<sigma>. denote code rank \<sigma> h) (denote code rank (cell_value w) h)"
proof -
  let ?v = "denote code rank (cell_value w) h"
  obtain cp where cp: "computeds w h = Some cp" using has_computedE [OF h] .
  obtain d where d: "stack_depth E = Suc d" using depth by blast
  let ?step = "case last_digest cp of
      None \<Rightarrow> read_recompute E h (run E rd (code h)) cp w
    | Some dg \<Rightarrow> (case validate_root (stack_depth E) (computed_id cp) dg (eng w) of
        None \<Rightarrow> None
      | Some (e', is_valid) \<Rightarrow>
          (if is_valid then read_cached cp (w\<lparr>eng := e'\<rparr>)
           else read_recompute E h (run E rd (code h)) cp (w\<lparr>eng := e'\<rparr>)))"
  have step: "\<exists>w' D. ?step = Some (w', ?v) \<and> good code rank H w' \<and> extends D w w'
      \<and> determines H D (\<lambda>\<sigma>. denote code rank \<sigma> h) ?v"
  proof (cases "last_digest cp")
    case None
    with read_recompute_correct [OF g cp q] show ?thesis by simp
  next
    case (Some dg)
    obtain e' b where val: "validate_root (stack_depth E) (computed_id cp) dg (eng w) = Some (e', b)"
      using validate_live_total [OF g] d by fastforce
    have vw: "view e' = view (eng w)" by (rule validate_root_sound(2) [OF val])
    let ?w = "w\<lparr>eng := e'\<rparr>"
    have same: "same_runtime w ?w" by (simp add: same_runtime_def vw)
    have g': "good code rank H ?w" by (rule good_same_runtime [OF same g])
    have cp': "computeds ?w h = Some cp" using cp by simp
    have cv: "cell_value ?w = cell_value w" by (simp add: cell_value_def fun_eq_iff)
    have x: "extends {} w ?w"
      by (auto simp: extends_def id_of_def fun_eq_iff view_D(2) [OF vw] split: list.split)
    have "\<exists>w' D. ?step = Some (w', ?v) \<and> good code rank H w' \<and> extends D ?w w'
        \<and> determines H D (\<lambda>\<sigma>. denote code rank \<sigma> h) ?v"
    proof (cases b)
      case True
      then obtain rt where rt: "roots (eng ?w) (computed_id cp) = Some rt" "root_digest rt = dg"
        "\<forall>d \<in> set (dependencies (root_trace rt)). current (eng ?w) (entry_cell d) (entry_revision d)"
        using validate_root_sound(1) [OF val] view_D(1) [OF vw] current_view [OF vw] by auto
      from read_cached_correct [OF g' cp' Some rt] True Some val show ?thesis by (simp add: cv)
    next
      case False
      from read_recompute_correct [OF g' cp' q] False Some val show ?thesis by (simp add: cv)
    qed
    then show ?thesis using extends_trans [OF x] by (metis Un_empty_left)
  qed
  then obtain w1 D where w1: "?step = Some (w1, ?v)" "good code rank H w1" "extends D w w1"
    "determines H D (\<lambda>\<sigma>. denote code rank \<sigma> h) ?v" by blast
  have "has_computed w1 h" using h extends_computed [OF w1(3)] by simp
  from good_apply_hysteresis [OF w1(2) this] obtain w2 where
    w2: "apply_hysteresis h (w1, ?v) = Some (w2, ?v)" "good code rank H w2" "extends {} w1 w2" by blast
  have "computed_read E h (run E rd (code h)) w = Some (w2, ?v)"
    using cp w1(1) w2(1) by (simp add: computed_read_def)
  with w2 w1(4) extends_trans [OF w1(3) w2(3)] show ?thesis by auto
qed

end

text \<open>The nested reader meets the contract at every depth above the ranks it is asked for.\<close>

lemma read_at_reader:
  fixes E :: "('v, 'r) env"
  shows "reader (E\<lparr>stack_depth := Suc d\<rparr>) code rank H
     (read_at n (E\<lparr>stack_depth := Suc d\<rparr>) code) (\<lambda>h. rank h < n)"
proof (induction n)
  case 0
  show ?case by unfold_locales auto
next
  case (Suc n)
  show ?case
  proof
    fix w :: "('v, 'r) world" and h
    assume "good code rank H w" "has_computed w h" "rank h < Suc n"
    then show "\<exists>w' D. read_at (Suc n) (E\<lparr>stack_depth := Suc d\<rparr>) code h w =
          Some (w', denote code rank (cell_value w) h) \<and> good code rank H w' \<and> extends D w w'
        \<and> determines H D (\<lambda>\<sigma>. denote code rank \<sigma> h) (denote code rank (cell_value w) h)"
      using reader.computed_read_correct [OF Suc.IH, of w h] by simp
  qed simp
qed

interpretation read_at: reader "E\<lparr>stack_depth := Suc d\<rparr>" code rank H
    "read_at n (E\<lparr>stack_depth := Suc d\<rparr>) code" "\<lambda>h. rank h < n"
  for E :: "('v, 'r) env" and d code rank H n
  by (rule read_at_reader)

end
