(* ===== verification/Runtime_Reads.thy ===== *)
theory Runtime_Reads
  imports Runtime_Facts
begin

text \<open>
  The worlds a client of the runtime can reach, the correctness of reads in them, and what
  the runtime does outside that discipline: resources, grace periods, removed cells.
\<close>

section \<open>Reachable worlds\<close>

text \<open>
  A client creates cells, writes them, creates computed values whose closures read existing
  cells and earlier computed values, and reads. Names of cells and of computed values are
  kept apart, as \<open>engine.rs\<close> keeps the cells of roots in the same table as data cells. The
  write counter may not wrap.
\<close>

inductive client_world ::
  "('v, 'r) env \<Rightarrow> (handle \<Rightarrow> 'v closure) \<Rightarrow> (handle \<Rightarrow> nat) \<Rightarrow> ('v, 'r) world \<Rightarrow> bool"
  for E :: "('v, 'r) env" and code :: "handle \<Rightarrow> 'v closure" and rank :: "handle \<Rightarrow> nat" where
  world_new: "client_world E code rank (runtime_new ep t)"
| world_cell: "client_world E code rank w \<Longrightarrow> counter w \<noteq> - 1 \<Longrightarrow> (\<forall>h. id_of w h \<noteq> Some s) \<Longrightarrow>
    client_world E code rank (fst (runtime_cell s v w))"
| world_set: "client_world E code rank w \<Longrightarrow> counter w \<noteq> - 1 \<Longrightarrow> live w c \<Longrightarrow>
    client_world E code rank (cell_set c v w)"
| world_computed: "client_world E code rank w \<Longrightarrow> computeds w h = None \<Longrightarrow>
    (\<forall>h'. id_of w h' \<noteq> Some i) \<Longrightarrow> (\<forall>c. live w c \<longrightarrow> source_id c \<noteq> i) \<Longrightarrow>
    closure_ok (live w) (\<lambda>h'. rank h' < rank h \<and> has_computed w h') (code h) \<Longrightarrow>
    client_world E code rank (runtime_computed h i w)"
| world_read: "client_world E code rank w \<Longrightarrow> has_computed w h \<Longrightarrow> rank h < n \<Longrightarrow>
    read_at n (E\<lparr>stack_depth := Suc d\<rparr>) code h w = Some (w', a) \<Longrightarrow> client_world E code rank w'"
| world_sender: "client_world E code rank w \<Longrightarrow> client_world E code rank (set_invalidation_sender w)"
| world_later: "client_world E code rank w \<Longrightarrow> now w \<le> t \<Longrightarrow> client_world E code rank (w\<lparr>now := t\<rparr>)"

lemma good_new: "good code rank H (runtime_new ep t)"
  by (simp add: good_def runtime_new_def cells_good_def ids_good_def roots_good_def live_def id_of_def
      has_computed_def ranked_code_def engine_new_def dom_def)

lemma plus_one_le:
  assumes "k \<le> (x::u64)" and "x \<noteq> - 1"
  shows "k \<le> x + 1 \<and> k \<noteq> x + 1"
proof -
  from assms(2) have "1 + x \<noteq> 0" by (metis add.inverse_unique)
  then have "unat (x + 1) = Suc (unat x)" by (simp add: unatSuc add.commute)
  moreover from assms(1) have "unat k \<le> unat x" by (simp add: word_le_nat_alt)
  ultimately show ?thesis by (auto simp: word_le_nat_alt word_unat_eq_iff)
qed

text \<open>A write extends the history with the new revision, which no trace holds yet.\<close>

lemma good_cell_set:
  assumes g: "good code rank H w" and c: "counter w \<noteq> - 1" and p: "pointer c = []"
    and ids: "\<And>h. id_of w h \<noteq> Some (source_id c)"
  shows "good code rank (H(c := (H c)(next_revision w := v))) (cell_set c v w)"
proof -
  let ?w = "cell_set c v w" and ?H = "H(c := (H c)(next_revision w := v))"
  have lv: "live ?w d \<longleftrightarrow> d = c \<or> live w d" for d by (auto simp: live_def cell_set_def)
  have idw: "id_of ?w = id_of w" "has_computed ?w = has_computed w" "computeds ?w = computeds w"
    "roots (eng ?w) = roots (eng w)"
    by (simp_all add: id_of_def has_computed_def cell_set_def fun_eq_iff set_cell_def)
  have old: "old_revision ?w r \<and> r \<noteq> next_revision w" if "old_revision w r" for r
    using that plus_one_le [OF _ c] by (auto simp: old_revision_def next_revision_def cell_set_def)
  have new: "old_revision ?w (next_revision w)"
    by (auto simp: old_revision_def next_revision_def cell_set_def)
  have "cells_good ?H ?w"
    unfolding cells_good_def idw lv
  proof (intro allI impI conjI)
    fix d
    assume "d = c \<or> live w d"
    then show "pointer d = []" "id_of w h \<noteq> Some (source_id d)" for h
      using p ids g by (auto simp: good_def cells_good_def)
    show "\<exists>r. get_revision_snapshot d (eng ?w) = Some r \<and> old_revision ?w r \<and> ?H d r = cell_value ?w d"
    proof (cases "d = c")
      case True
      with new show ?thesis
        by (simp add: cell_set_def cell_value_def)
    next
      case False
      with \<open>d = c \<or> live w d\<close> have "live w d" by simp
      from good_live_revision [OF g this] old False show ?thesis
        by (auto simp: cell_set_def cell_value_def)
    qed
  qed
  moreover have "ids_good ?w" using g by (simp add: good_def ids_good_def idw)
  moreover have "roots_good ?w" using g old by (auto simp: good_def roots_good_def idw lv)
  moreover have "cache_entry_good code rank ?H (eng ?w) h cp" if cp: "computeds ?w h = Some cp" for h cp
  proof -
    have ag: "agrees ?H \<sigma> (set (dependencies (root_trace rt))) \<longleftrightarrow>
        agrees H \<sigma> (set (dependencies (root_trace rt)))" if "roots (eng w) (computed_id cp) = Some rt" for \<sigma> rt
    proof -
      have "entry_revision d \<noteq> next_revision w" if "d \<in> set (dependencies (root_trace rt))" for d
        using g old that \<open>roots (eng w) (computed_id cp) = Some rt\<close>
        by (auto simp: good_def roots_good_def)
      then show ?thesis by (auto simp: agrees_def)
    qed
    from g cp have "cache_entry_good code rank H (eng w) h cp" by (simp add: good_def idw)
    then show ?thesis using ag by (auto simp: cache_entry_good_def idw)
  qed
  moreover have "ranked_code code rank (live ?w) (has_computed ?w)"
    using g unfolding good_def ranked_code_def idw
    by (auto intro: closure_ok_mono simp: lv)
  ultimately show ?thesis by (simp add: good_def)
qed

lemma good_computed:
  assumes g: "good code rank H w" and fresh: "computeds w h = None" "\<And>h'. id_of w h' \<noteq> Some i"
    and cells: "\<And>c. live w c \<Longrightarrow> source_id c \<noteq> i"
    and ok: "closure_ok (live w) (\<lambda>h'. rank h' < rank h \<and> has_computed w h') (code h)"
  shows "good code rank H (runtime_computed h i w)"
proof -
  let ?w = "runtime_computed h i w"
  have same: "store ?w = store w" "counter ?w = counter w" "rt_epoch ?w = rt_epoch w" "eng ?w = eng w"
    "id_of ?w = (id_of w)(h \<mapsto> i)"
    by (simp_all add: runtime_computed_def id_of_def fun_eq_iff)
  then have eqs: "live ?w = live w" "cell_value ?w = cell_value w" "old_revision ?w = old_revision w"
    by (simp_all add: fun_eq_iff live_def cell_value_def old_revision_def)
  have hc: "has_computed ?w h' \<longleftrightarrow> h' = h \<or> has_computed w h'" for h'
    by (auto simp: has_computed_def same(5))
  have none: "id_of w h = None" using fresh(1) by (simp add: id_of_def)
  have "cells_good H ?w"
    using g cells unfolding good_def cells_good_def eqs same by auto
  moreover have "ids_good ?w"
    using g fresh(2) none unfolding good_def ids_good_def same
    by (auto simp: inj_on_def dom_def split: if_splits)
  moreover have "roots_good ?w"
    unfolding roots_good_def same eqs
  proof (intro allI impI conjI)
    fix j rt
    assume "roots (eng w) j = Some rt"
    with g have r: "(\<exists>h'. id_of w h' = Some j)"
      "\<forall>d \<in> set (dependencies (root_trace rt)). live w (entry_cell d) \<and> old_revision w (entry_revision d)"
      by (auto simp: good_def roots_good_def)
    then obtain h' where h': "id_of w h' = Some j" by blast
    with none have "h' \<noteq> h" by auto
    with h' show "\<exists>h'. ((id_of w)(h \<mapsto> i)) h' = Some j" by (intro exI [of _ h']) simp
    from r(2) show "\<forall>d \<in> set (dependencies (root_trace rt)).
        live w (entry_cell d) \<and> old_revision w (entry_revision d)" .
  qed
  moreover have "cache_entry_good code rank H (eng ?w) h' cp'" if "computeds ?w h' = Some cp'" for h' cp'
    using that g unfolding same
    by (auto simp: runtime_computed_def good_def cache_entry_good_def split: if_splits)
  moreover have "ranked_code code rank (live ?w) (has_computed ?w)"
    unfolding ranked_code_def eqs
  proof (intro allI impI)
    fix k
    assume "has_computed ?w k"
    with g ok have "closure_ok (live w) (\<lambda>h'. rank h' < rank k \<and> has_computed w h') (code k)"
      by (auto simp: hc good_def ranked_code_def)
    then show "closure_ok (live w) (\<lambda>h'. rank h' < rank k \<and> has_computed ?w h') (code k)"
      by (rule closure_ok_mono) (auto simp: hc)
  qed
  ultimately show ?thesis by (simp add: good_def)
qed

lemma client_world_good: "client_world E code rank w \<Longrightarrow> \<exists>H. good code rank H w"
proof (induction rule: client_world.induct)
  case (world_new ep t)
  show ?case using good_new by blast
next
  case (world_cell w s v)
  then obtain H where g: "good code rank H w" by blast
  from good_cell_set [OF g world_cell.hyps(2), of "cell_root s" v] world_cell.hyps(3)
  show ?case by (auto simp: runtime_cell_def)
next
  case (world_set w c v)
  then obtain H where g: "good code rank H w" by blast
  with world_set.hyps(3) have "pointer c = []" "\<And>h. id_of w h \<noteq> Some (source_id c)"
    by (auto simp: good_def cells_good_def)
  from good_cell_set [OF g world_set.hyps(2) this] show ?case by blast
next
  case (world_computed w h i)
  then show ?case by (auto intro: good_computed)
next
  case (world_read w h n d w' a)
  then obtain H where g: "good code rank H w" by blast
  from read_at.rd_correct [OF g world_read.hyps(2,3), where d = d and E = E] world_read.hyps(4)
  show ?case by auto
next
  case (world_sender w)
  then obtain H where g: "good code rank H w" by blast
  have "same_runtime w (set_invalidation_sender w)"
    by (simp add: set_invalidation_sender_def same_runtime_def)
  from good_same_runtime [OF this g] show ?case by blast
next
  case (world_later w t)
  then obtain H where g: "good code rank H w" by blast
  have "same_runtime w (w\<lparr>now := t\<rparr>)" by (simp add: same_runtime_def)
  from good_same_runtime [OF this g] show ?case by blast
qed

text \<open>
  C1. In a world that a client builds by creating cells, setting live cells, registering computed
  values that read live cells and earlier computed values, and reading (the operations of
  \<open>client_world\<close>: no cell is removed, no resources, no hysteresis, names of their own, counter not
  wrapped), reading a computed value returns, changes no cell, and gives exactly the value its closure
  has on the present cells, through any nesting: whatever was written, read and cached before, the
  cache never serves a stale value. A cell that is removed is served stale, \<open>removed_cell_stays_stale\<close>.
\<close>

theorem read_is_current:
  assumes "client_world E code rank w" and "has_computed w h" and "rank h < n"
  shows "\<exists>w'. read_at n (E\<lparr>stack_depth := Suc d\<rparr>) code h w =
             Some (w', value_at n code (cell_value w) h) \<and> store w' = store w"
proof -
  from client_world_good [OF assms(1)] obtain H where g: "good code rank H w" by blast
  then have rc: "ranked_code code rank (live w) (has_computed w)" by (simp add: good_def)
  have "denote code rank (cell_value w) h = value_at n code (cell_value w) h"
    unfolding denote_def by (rule value_at_stable [OF rc assms(2)]) (use assms(3) in simp_all)
  with read_at.rd_correct [OF g assms(2,3), where d = d and E = E] show ?thesis
    by (auto simp: extends_def)
qed

definition toy_env :: "(nat, unit) env" where
  "toy_env = \<lparr>digest_env = toy_fns, null_value = 0,
     to_value = (\<lambda>a. case a of Present v \<Rightarrow> v | Absent _ \<Rightarrow> 0), any_value = (\<lambda>_. 0), stack_depth = 8\<rparr>"

text \<open>Handle 0 adds one to a cell, handle 1 doubles handle 0.\<close>

definition toy_code :: "handle \<Rightarrow> nat closure" where
  "toy_code h = (if h = 0 then GetCell (cell_root ''a'') (\<lambda>a. Return (av_map (\<lambda>v. v + 1) a))
     else ReadComputed 0 (\<lambda>a. Return (av_map (\<lambda>v. 2 * v) a)))"

definition toy_world :: "(nat, unit) world" where
  "toy_world = runtime_computed 1 ''q'' (runtime_computed 0 ''p''
     (fst (runtime_cell ''a'' 5 (runtime_new (Epoch 0) 0))))"

lemma toy_world_client: "client_world toy_env toy_code id toy_world"
  unfolding toy_world_def
  by (intro world_computed world_cell world_new)
    (auto simp: runtime_cell_def cell_set_def runtime_new_def id_of_def live_def runtime_computed_def
      toy_code_def has_computed_def cell_root_def split: if_splits)

theorem read_is_current_witness:
  "\<exists>w'. read_at 2 (toy_env\<lparr>stack_depth := Suc 0\<rparr>) toy_code 1 toy_world = Some (w', Present 12)"
proof -
  have hc: "has_computed toy_world 1" by (simp add: toy_world_def has_computed_def id_of_def runtime_computed_def)
  have "value_at 2 toy_code (cell_value toy_world) 1 = Present 12"
    by (simp add: numeral_2_eq_2 toy_code_def cell_value_def toy_world_def runtime_cell_def cell_set_def
        runtime_computed_def)
  with read_is_current [OF toy_world_client hc, of 2 0] show ?thesis by auto
qed

section \<open>Nobody is notified\<close>

text \<open>
  \<open>Computed::read\<close> registers its roots with \<open>is_subscriber = false\<close>, and nothing else in
  the runtime registers roots: the reverse index stays empty.
\<close>

definition silent :: "('v, 'r) world \<Rightarrow> bool" where
  "silent w \<longleftrightarrow> reverse_deps (eng w) = Map.empty"

lemma reverse_deps_touch: "touch e c = (e', r) \<Longrightarrow> reverse_deps e' = reverse_deps e"
  by (auto simp: touch_def split: option.splits)

lemma reverse_deps_get: "get_revision n e c = Some (e', r) \<Longrightarrow> reverse_deps e' = reverse_deps e"
proof (induction n arbitrary: e c e' r)
  case 0
  then show ?case by (simp add: get_revision_simps)
next
  case (Suc n)
  have step: "reverse_deps e1 = reverse_deps e" if "validate (get_revision n) t e = Some (e1, b)" for t e1 b
    by (rule validate_preserves [where f = reverse_deps, OF that]) (rule Suc.IH)
  from Suc.prems show ?case
    by (auto simp: get_revision_simps dest!: reverse_deps_touch step split: option.splits if_splits)
qed

lemma reverse_deps_validate_root:
  assumes "validate_root n r dg e = Some (e', b)"
  shows "reverse_deps e' = reverse_deps e"
proof -
  have "reverse_deps e1 = reverse_deps e" if "validate (get_revision n) t e = Some (e1, b)" for t e1 b
    by (rule validate_preserves [where f = reverse_deps, OF that]) (rule reverse_deps_get)
  with assms show ?thesis by (auto simp: validate_root_def split: option.splits if_splits)
qed

lemma remove_reverse_deps_empty [simp]: "remove_reverse_deps r ds Map.empty = Map.empty"
  by (induction ds) simp_all

lemma silent_register: "silent w \<Longrightarrow> silent (w\<lparr>eng := register_root D t1 t2 i tr v False (eng w), computeds := cs\<rparr>)"
  by (auto simp: silent_def op_simps Let_def split: option.split)

lemma silent_get: "cell_get E c w = Some (w', a) \<Longrightarrow> silent w \<Longrightarrow> silent w'"
  by (auto simp: cell_get_def Let_def silent_def dest!: reverse_deps_get split: if_splits option.splits)

lemma silent_use: "use_resource E ty v w = (w', a) \<Longrightarrow> silent w \<Longrightarrow> silent w'"
  by (auto simp: use_resource_def Let_def silent_def split: list.splits option.splits if_splits)

lemma silent_run:
  assumes "\<And>h w w' a. rd h w = Some (w', a) \<Longrightarrow> silent w \<Longrightarrow> silent w'"
  shows "run E rd p w = Some (w', a) \<Longrightarrow> silent w \<Longrightarrow> silent w'"
proof (induction p arbitrary: w)
  case (Return x)
  then show ?case by simp
next
  case (GetCell c k)
  from GetCell.prems(1) obtain w1 x where w1: "cell_get E c w = Some (w1, x)" "run E rd (k x) w1 = Some (w', a)"
    by (auto split: option.splits)
  from GetCell.IH [OF rangeI w1(2)] silent_get [OF w1(1)] GetCell.prems(2) show ?case by blast
next
  case (ReadComputed h k)
  from ReadComputed.prems(1) obtain w1 x where w1: "rd h w = Some (w1, x)" "run E rd (k x) w1 = Some (w', a)"
    by (auto split: option.splits)
  from ReadComputed.IH [OF rangeI w1(2)] assms [OF w1(1)] ReadComputed.prems(2) show ?case by blast
next
  case (UseResource ty v k)
  obtain w1 x where w1: "use_resource E ty v w = (w1, x)" by fastforce
  with UseResource.prems(1) have r: "run E rd (k x) w1 = Some (w', a)" by simp
  from UseResource.IH [OF rangeI r] silent_use [OF w1] UseResource.prems(2) show ?case by blast
qed

lemma silent_recompute:
  assumes run: "\<And>w w' a. compute w = Some (w', a) \<Longrightarrow> silent w \<Longrightarrow> silent w'"
    and "read_recompute E h compute cp w = Some (w', a)" and "silent w"
  shows "silent w'"
proof -
  let ?w1 = "w\<lparr>active_trace := trace_new # active_trace w,
      current_computation := computed_id cp # current_computation w,
      resource_cursor := 0 # resource_cursor w\<rparr>"
  from assms(2) obtain w2 where w2: "compute ?w1 = Some (w2, a)"
    by (auto simp: read_recompute_def Let_def split: option.splits list.splits)
  have "silent ?w1" using assms(3) by (simp add: silent_def)
  from run [OF w2 this] assms(2) w2 show ?thesis
    by (auto simp: read_recompute_def reconcile_def Let_def silent_def op_simps split: option.splits list.splits)
qed

lemma silent_read:
  assumes run: "\<And>w w' a. compute w = Some (w', a) \<Longrightarrow> silent w \<Longrightarrow> silent w'"
    and "computed_read E h compute w = Some (w', a)" and "silent w"
  shows "silent w'"
proof -
  from assms(2) obtain cp w1 b where cp: "computeds w h = Some cp"
    and step: "(case last_digest cp of
        None \<Rightarrow> read_recompute E h compute cp w
      | Some dg \<Rightarrow> (case validate_root (stack_depth E) (computed_id cp) dg (eng w) of
          None \<Rightarrow> None
        | Some (e', is_valid) \<Rightarrow>
            (if is_valid then read_cached cp (w\<lparr>eng := e'\<rparr>)
             else read_recompute E h compute cp (w\<lparr>eng := e'\<rparr>)))) = Some (w1, b)"
    and hyst: "apply_hysteresis h (w1, b) = Some (w', a)"
    by (auto simp: computed_read_def bind_eq_Some_conv split: option.splits)
  have cached: "silent w2" if "read_cached cp w0 = Some (w2, b)" "silent w0" for w0 w2
    using that by (auto simp: read_cached_def Let_def silent_def split: option.splits)
  have fresh: "silent w2" if "read_recompute E h compute cp w0 = Some (w2, b)" "silent w0" for w0 w2
    using silent_recompute [OF run that] .
  have "silent w1"
    using step assms(3)
    by (auto simp: silent_def [of "w\<lparr>eng := _\<rparr>"] silent_def [of w] dest!: cached fresh reverse_deps_validate_root
        split: option.splits if_splits)
  with hyst show ?thesis
    by (auto simp: apply_hysteresis_def silent_def Let_def split: option.splits availability.splits if_splits)
qed

lemma silent_read_at: "read_at n E code h w = Some (w', a) \<Longrightarrow> silent w \<Longrightarrow> silent w'"
proof (induction n arbitrary: h w w' a)
  case (Suc n)
  have "silent w2" if "run E (read_at n E code) (code h) w1 = Some (w2, b)" "silent w1" for w1 w2 b
    by (rule silent_run [OF Suc.IH that])
  from silent_read [OF this] Suc.prems show ?case by simp
qed simp

text \<open>Every use of the runtime, with no discipline at all.\<close>

inductive any_world :: "('v, 'r) env \<Rightarrow> (handle \<Rightarrow> 'v closure) \<Rightarrow> ('v, 'r) world \<Rightarrow> bool"
  for E :: "('v, 'r) env" and code :: "handle \<Rightarrow> 'v closure" where
  any_new: "any_world E code (runtime_new ep t)"
| any_cell: "any_world E code w \<Longrightarrow> any_world E code (fst (runtime_cell s v w))"
| any_set: "any_world E code w \<Longrightarrow> any_world E code (cell_set c v w)"
| any_get: "any_world E code w \<Longrightarrow> cell_get E c w = Some (w', a) \<Longrightarrow> any_world E code w'"
| any_remove: "any_world E code w \<Longrightarrow> any_world E code (runtime_remove_cell sent c w)"
| any_computed: "any_world E code w \<Longrightarrow> any_world E code (runtime_computed h i w)"
| any_hysteresis: "any_world E code w \<Longrightarrow> any_world E code (with_hysteresis h d w)"
| any_drop: "any_world E code w \<Longrightarrow> any_world E code (drop_computed h w)"
| any_register: "any_world E code w \<Longrightarrow> any_world E code (register_resource ty f w)"
| any_read: "any_world E code w \<Longrightarrow> read_at n E code h w = Some (w', a) \<Longrightarrow> any_world E code w'"
| any_sender: "any_world E code w \<Longrightarrow> any_world E code (set_invalidation_sender w)"
| any_later: "any_world E code w \<Longrightarrow> any_world E code (w\<lparr>now := t\<rparr>)"

lemma silent_remove: "silent w \<Longrightarrow> silent (runtime_remove_cell sent c w)"
  by (auto simp: silent_def runtime_remove_cell_def invalidate_cell_def split: option.split)

lemma silent_drop: "silent w \<Longrightarrow> silent (drop_computed h w)"
  by (auto simp: silent_def drop_computed_def remove_root_def split: option.split)

lemma any_world_silent: "any_world E code w \<Longrightarrow> silent w"
proof (induction rule: any_world.induct)
  case (any_get w c w' a)
  then show ?case using silent_get by blast
next
  case (any_read w n h w' a)
  then show ?case using silent_read_at by blast
qed (auto intro: silent_remove silent_drop, auto simp: silent_def runtime_new_def engine_new_def runtime_cell_def
    cell_set_def set_cell_def runtime_computed_def with_hysteresis_def register_resource_def
    set_invalidation_sender_def)

text \<open>
  Removing or invalidating a cell tells nobody. Whatever the client did before, the set of
  affected roots that \<open>remove_cell\<close> sends on the invalidation channel is empty, also when
  computed values have read the cell.
\<close>

theorem removal_notifies_nobody:
  assumes "any_world E code w"
  shows "snd (invalidate_cell c (eng w)) = {}"
  using any_world_silent [OF assms]
  by (auto simp: silent_def invalidate_cell_def subscribers_def members_def split: option.split)

theorem removal_notifies_nobody_witness:
  "\<exists>w' a. read_at 2 (toy_env\<lparr>stack_depth := Suc 0\<rparr>) toy_code 1 toy_world = Some (w', a)
      \<and> snd (invalidate_cell (cell_root ''a'') (eng w')) = {}"
proof -
  have any: "any_world E toy_code toy_world" for E
    unfolding toy_world_def by (intro any_computed any_cell any_new)
  have hc: "has_computed toy_world 1" by (simp add: toy_world_def has_computed_def id_of_def runtime_computed_def)
  from client_world_good [OF toy_world_client] obtain H where "good toy_code id H toy_world" by blast
  from read_at.rd_correct [OF this hc, where n = 2 and d = 0 and E = toy_env] obtain w' a where
    "read_at 2 (toy_env\<lparr>stack_depth := Suc 0\<rparr>) toy_code 1 toy_world = Some (w', a)" by auto
  with removal_notifies_nobody [OF any_read [OF any this]] show ?thesis by blast
qed

section \<open>A removed cell\<close>

text \<open>
  \<open>Cell::get\<close> on a cell that is gone returns \<open>Null\<close> and records nothing, so the computed
  value that read it has no dependency to be invalidated by.
\<close>

lemma read_recompute_no_deps:
  assumes "get_revision_snapshot c (eng w) = None" and "root_of (eng w) c = None" and "store w c = None"
    and "stack_depth E = Suc d" and "computeds w h = Some cp"
  shows "\<exists>w'. read_recompute E h (run E rd (GetCell c Return)) cp w = Some (w', Present (null_value E))
      \<and> roots (eng w') (computed_id cp) =
          Some \<lparr>root_trace = trace_new, root_value = to_value E (Present (null_value E)),
                root_digest = digest (digest_env E) trace_new\<rparr>
      \<and> computeds w' = (computeds w)(h \<mapsto> cp\<lparr>last_digest := Some (digest (digest_env E) trace_new),
            last_value := Some (Present (null_value E))\<rparr>)"
  using assms
  by (auto simp: read_recompute_def Let_def cell_get_def get_revision_simps touch_def
      get_revision_snapshot_def reconcile_def op_simps trace_new_def split: option.splits)

lemma read_no_deps:
  assumes "computeds w h = Some cp" and "last_digest cp = Some dg" and "last_value cp = Some v"
    and "roots (eng w) (computed_id cp) = Some rt" and "root_digest rt = dg"
    and "dependencies (root_trace rt) = []" and "hysteresis cp = None"
  shows "\<exists>w'. computed_read E h compute w = Some (w', v)"
  using assms
  by (cases v) (auto simp: computed_read_def validate_root_def validate_def read_cached_def apply_hysteresis_def)

text \<open>
  A computed value that reads a removed cell is stale for good: once it has been computed
  while the cell was gone, writing the cell again does not reach it, and it goes on giving
  \<open>Null\<close>.
\<close>

theorem removed_cell_stays_stale:
  assumes "store w c = None" and "get_revision_snapshot c (eng w) = None" and "root_of (eng w) c = None"
    and "stack_depth E = Suc d" and "computeds w h = Some cp" and "last_digest cp = None"
    and "hysteresis cp = None" and "code h = GetCell c Return"
  shows "\<exists>w1 w2. read_at 1 E code h w = Some (w1, Present (null_value E))
      \<and> store (cell_set c v w1) c = Some v
      \<and> read_at 1 E code h (cell_set c v w1) = Some (w2, Present (null_value E))"
proof -
  let ?v = "Present (null_value E)" and ?dg = "digest (digest_env E) trace_new"
  obtain w0 where w0: "read_recompute E h (run E (read_at 0 E code) (code h)) cp w = Some (w0, ?v)"
    and roots0: "roots (eng w0) (computed_id cp) =
      Some \<lparr>root_trace = trace_new, root_value = to_value E ?v, root_digest = ?dg\<rparr>"
    and comp0: "computeds w0 = (computeds w)(h \<mapsto> cp\<lparr>last_digest := Some ?dg, last_value := Some ?v\<rparr>)"
    using read_recompute_no_deps [OF assms(2,3,1,4,5), of "read_at 0 E code"] assms(8) by auto
  let ?cp = "cp\<lparr>last_digest := Some ?dg, last_value := Some ?v, last_valid_time := Some (now w0),
      last_present_value := Some (null_value E)\<rparr>"
  let ?w1 = "w0\<lparr>computeds := (computeds w0)(h \<mapsto> ?cp)\<rparr>"
  have r1: "read_at 1 E code h w = Some (?w1, ?v)"
    using w0 assms(5,6) comp0 by (simp add: computed_read_def apply_hysteresis_def)
  have cp1: "computeds (cell_set c v ?w1) h = Some ?cp" by (simp add: cell_set_def)
  have root1: "roots (eng (cell_set c v ?w1)) (computed_id ?cp) =
      Some \<lparr>root_trace = trace_new, root_value = to_value E ?v, root_digest = ?dg\<rparr>"
    using roots0 by (simp add: cell_set_def op_simps)
  have "\<exists>w2. computed_read E h (run E (read_at 0 E code) (code h)) (cell_set c v ?w1) = Some (w2, ?v)"
    by (rule read_no_deps [OF cp1 _ _ root1]) (simp_all add: trace_new_def assms(7))
  then show ?thesis using r1 by (auto simp: cell_set_def)
qed

definition gone_world :: "(nat, unit) world" where
  "gone_world = runtime_computed 0 ''p'' (runtime_remove_cell [] (cell_root ''a'')
     (fst (runtime_cell ''a'' 5 (runtime_new (Epoch 0) 0))))"

theorem removed_cell_stays_stale_witness:
  "\<exists>w1 w2. read_at 1 toy_env (\<lambda>h. GetCell (cell_root ''a'') Return) 0 gone_world = Some (w1, Present 0)
      \<and> store (cell_set (cell_root ''a'') 7 w1) (cell_root ''a'') = Some 7
      \<and> read_at 1 toy_env (\<lambda>h. GetCell (cell_root ''a'') Return) 0 (cell_set (cell_root ''a'') 7 w1) =
          Some (w2, Present 0)"
  using removed_cell_stays_stale [of gone_world "cell_root ''a''" toy_env 7 0
      "\<lparr>computed_id = ''p'', last_digest = None, last_value = None, hysteresis = None,
        last_valid_time = None, last_present_value = None\<rparr>" "\<lambda>h. GetCell (cell_root ''a'') Return" 7]
  by (simp add: gone_world_def runtime_computed_def runtime_remove_cell_def runtime_cell_def cell_set_def
      runtime_new_def engine_new_def set_cell_def invalidate_cell_def get_revision_snapshot_def root_of_def
      toy_env_def members_def cell_root_def)

section \<open>Resources\<close>

text \<open>What position \<open>k\<close> of the new list must hold.\<close>

definition keeps :: "('v resource_spec \<times> 'r) list \<Rightarrow> 'v resource_spec list \<Rightarrow> nat \<Rightarrow> bool" where
  "keeps old specs k \<longleftrightarrow> k < length old \<and> fst (old ! k) = specs ! k"

lemma reconcile_list_Cons:
  "reconcile_list reg (spec # specs) old =
     (case (if keeps old (spec # specs) 0 then Some (snd (old ! 0))
            else map_option (\<lambda>factory. factory (args spec)) (reg (type_id spec))) of
        None \<Rightarrow> None
      | Some inst \<Rightarrow> map_option (Cons (spec, inst)) (reconcile_list reg specs (tl old)))"
  by (auto simp: keeps_def split: list.split option.split)

lemma keeps_tl: "keeps old (spec # specs) (Suc k) \<longleftrightarrow> keeps (tl old) specs k"
  by (cases old) (auto simp: keeps_def)

lemma reconcile_list_total:
  "(\<And>k. k < length specs \<Longrightarrow> keeps old specs k \<or> reg (type_id (specs ! k)) \<noteq> None) \<Longrightarrow>
     reconcile_list reg specs old \<noteq> None"
proof (induction specs arbitrary: old)
  case (Cons spec specs)
  have "reconcile_list reg specs (tl old) \<noteq> None"
    by (rule Cons.IH) (use Cons.prems [of "Suc k" for k] in \<open>auto simp: keeps_tl\<close>)
  with Cons.prems [of 0] show ?case
    by (auto simp: reconcile_list_Cons simp del: reconcile_list.simps)
qed simp

lemma reconcile_list_sound:
  "reconcile_list reg specs old = Some new \<Longrightarrow> map fst new = specs \<and> (\<forall>k < length specs.
     if keeps old specs k then snd (new ! k) = snd (old ! k)
     else \<exists>factory. reg (type_id (specs ! k)) = Some factory \<and> snd (new ! k) = factory (args (specs ! k)))"
proof (induction specs arbitrary: old new)
  case (Cons spec specs)
  let ?inst = "if keeps old (spec # specs) 0 then Some (snd (old ! 0))
            else map_option (\<lambda>factory. factory (args spec)) (reg (type_id spec))"
  from Cons.prems obtain inst new' where i: "?inst = Some inst"
    and r: "reconcile_list reg specs (tl old) = Some new'" and new: "new = (spec, inst) # new'"
    by (auto simp: reconcile_list_Cons simp del: reconcile_list.simps split: option.splits)
  note IH = Cons.IH [OF r]
  have "if keeps old (spec # specs) k then snd (new ! k) = snd (old ! k)
     else \<exists>factory. reg (type_id ((spec # specs) ! k)) = Some factory \<and>
            snd (new ! k) = factory (args ((spec # specs) ! k))" if "k < length (spec # specs)" for k
  proof (cases k)
    case 0
    with i new show ?thesis by (auto split: if_splits)
  next
    case (Suc j)
    moreover have "tl old ! j = old ! Suc j" if "keeps (tl old) specs j"
      using that by (cases old) (auto simp: keeps_def)
    ultimately show ?thesis using IH that new by (auto simp: keeps_tl)
  qed
  moreover have "map fst new = spec # specs" using IH new by simp
  ultimately show ?case by blast
qed simp

text \<open>
  Reconciliation gives a computed value one instance per resource its closure asked for,
  in the order of the calls. A position whose type and arguments are as before keeps its
  instance, every other position gets a new one from the registered factory, and the
  runtime panics exactly when such a position has no factory.
\<close>

theorem reconcile_instances:
  "case reconcile i t w of
     Some w' \<Rightarrow> (\<exists>new. active w' i = Some new \<and> map fst new = resources t \<and>
       (let old = (case active w i of None \<Rightarrow> [] | Some l \<Rightarrow> l) in
        \<forall>k. k < length (resources t) \<longrightarrow>
          (if k < length old \<and> fst (old ! k) = resources t ! k then snd (new ! k) = snd (old ! k)
           else \<exists>factory. registry w (type_id (resources t ! k)) = Some factory \<and>
                  snd (new ! k) = factory (args (resources t ! k)))))
   | None \<Rightarrow> (let old = (case active w i of None \<Rightarrow> [] | Some l \<Rightarrow> l) in
       \<exists>k. k < length (resources t) \<and> \<not> (k < length old \<and> fst (old ! k) = resources t ! k) \<and>
         registry w (type_id (resources t ! k)) = None)"
proof -
  let ?old = "case active w i of None \<Rightarrow> [] | Some l \<Rightarrow> l"
  show ?thesis
  proof (cases "reconcile_list (registry w) (resources t) ?old")
    case None
    then obtain k where "k < length (resources t)" "\<not> keeps ?old (resources t) k"
      "registry w (type_id (resources t ! k)) = None"
      using reconcile_list_total [of "resources t" ?old "registry w"] by blast
    with None show ?thesis by (auto simp: reconcile_def keeps_def Let_def intro!: exI [of _ k])
  next
    case (Some new)
    from reconcile_list_sound [OF Some] Some show ?thesis
      by (auto simp: reconcile_def keeps_def Let_def)
  qed
qed

theorem reconcile_instances_witness:
  "reconcile ''p'' \<lparr>dependencies = [], resources = [\<lparr>type_id = ''t'', args = 1\<rparr>]\<rparr>
     (register_resource ''t'' (\<lambda>a. a + 1) (runtime_new (Epoch 0) 0) :: (nat, nat) world) \<noteq> None
   \<and> reconcile ''p'' \<lparr>dependencies = [], resources = [\<lparr>type_id = ''t'', args = 1\<rparr>]\<rparr>
     (runtime_new (Epoch 0) 0 :: (nat, nat) world) = None"
  using reconcile_instances [where i = "''p''" and t = "\<lparr>dependencies = [], resources = [\<lparr>type_id = ''t'', args = 1\<rparr>]\<rparr>"
      and w = "runtime_new (Epoch 0) 0 :: (nat, nat) world"]
  by (auto simp: reconcile_def register_resource_def runtime_new_def split: option.splits)

section \<open>The grace period\<close>

text \<open>
  A computed value with a grace period that was present at one instant and is absent at a
  later one is still reported as the value it had, exactly until the period has passed since
  the present reading; while it is, and if a channel is set, one timer is added that reports
  the computed value at the instant the period ends.
\<close>

theorem grace_period_bridges_absence:
  assumes "computeds w h = Some cp" and "hysteresis cp = Some duration" and "now w \<le> t"
  shows "\<exists>w1 w2. apply_hysteresis h (w, Present v) = Some (w1, Present v)
     \<and> apply_hysteresis h (w1\<lparr>now := t\<rparr>, Absent r) =
         Some (w2, if t < now w + duration then Present v else Absent r)
     \<and> timers w2 = timers w @
         (if t < now w + duration \<and> invalidation_tx w \<noteq> None then [(now w + duration, computed_id cp)] else [])"
proof (cases "t < now w + duration")
  case True
  with assms(3) have "t - now w < duration" "t + (duration - (t - now w)) = now w + duration" by linarith+
  with True assms(1,2) show ?thesis by (auto simp: apply_hysteresis_def Let_def)
next
  case False
  with assms(3) have "\<not> t - now w < duration" by linarith
  with False assms(1,2) show ?thesis by (auto simp: apply_hysteresis_def)
qed

definition graced_world :: "(nat, unit) world" where
  "graced_world = with_hysteresis 0 10 (runtime_computed 0 ''p''
     (set_invalidation_sender (runtime_new (Epoch 0) 3)))"

theorem grace_period_bridges_absence_witness:
  "\<exists>w1 w2. apply_hysteresis 0 (graced_world, Present 42) = Some (w1, Present 42)
     \<and> apply_hysteresis 0 (w1\<lparr>now := 7\<rparr>, Absent Loading) = Some (w2, Present 42)
     \<and> timers w2 = [(13, ''p'')]"
  using grace_period_bridges_absence [of graced_world 0
      "\<lparr>computed_id = ''p'', last_digest = None, last_value = None, hysteresis = Some 10,
        last_valid_time = None, last_present_value = None\<rparr>" 10 7 42 Loading]
  by (simp add: graced_world_def with_hysteresis_def runtime_computed_def set_invalidation_sender_def
      runtime_new_def)

end
