(* ===== verification/Collections.thy ===== *)
theory Collections
  imports Runtime_Reads
begin

text \<open>
  The reactive collections of \<open>crates/exosuit-core/src\<close>: sequences, maps and nodes, each a
  structure cell with one value cell per element in the runtime. \<open>None\<close> is a panic
  (\<open>expect\<close> on a lost cell, an index out of bounds) or a lookup that does not return. Serde's
  conversions are parameters, and so are the random names of new cells. Dropping the last
  reference runs \<open>seq_drop\<close>, \<open>rmap_drop\<close> or \<open>node_drop\<close>.
\<close>

section \<open>Operations shared by the collections\<close>

record ('a, 'v) serde =
  to_json :: "'a \<Rightarrow> 'v"
  from_json :: "'v \<Rightarrow> 'a option"

definition read_cell ::
  "('v, 'r) env \<Rightarrow> cell_id \<Rightarrow> ('v, 'r) world \<Rightarrow> (('v, 'r) world \<times> 'v availability) option" where
  "read_cell E c w = Option.bind (runtime_get_cell c w) (\<lambda>c. cell_get E c w)"

definition read_structure :: "('v, 'r) env \<Rightarrow> cell_id \<Rightarrow> ('v, 'r) world \<Rightarrow> ('v, 'r) world option" where
  "read_structure E c w = map_option fst (read_cell E c w)"

definition notify_structure :: "('v, 'r) env \<Rightarrow> cell_id \<Rightarrow> ('v, 'r) world \<Rightarrow> ('v, 'r) world option" where
  "notify_structure E c w = map_option (\<lambda>c. cell_set c (null_value E) w) (runtime_get_cell c w)"

fun present :: "'v availability \<Rightarrow> 'v option" where
  "present (Present v) = Some v"
| "present (Absent r) = None"

definition remove_cells :: "(cell_id \<Rightarrow> string list) \<Rightarrow> cell_id list \<Rightarrow> ('v, 'r) world \<Rightarrow> ('v, 'r) world" where
  "remove_cells sent cs w = fold (\<lambda>c. runtime_remove_cell (sent c) c) cs w"

text \<open>Writing a value cell, except when the new value equals the old one.\<close>

definition update_cell ::
  "('v, 'r) env \<Rightarrow> cell_id \<Rightarrow> 'v \<Rightarrow> ('v, 'r) world \<Rightarrow> (('v, 'r) world \<times> 'v option) option" where
  "update_cell E c new_json w =
     (case read_cell E c w of
        None \<Rightarrow> None
      | Some (w1, a) \<Rightarrow>
          (let old_json = present a in
           if old_json = Some new_json then Some (w1, old_json)
           else Some (cell_set c new_json w1, old_json)))"

section \<open>Sequences\<close>

record reactive_sequence =
  seq_structure :: cell_id
  seq_values :: "cell_id list"

definition seq_new :: "('v, 'r) env \<Rightarrow> string \<Rightarrow> ('v, 'r) world \<Rightarrow> ('v, 'r) world \<times> reactive_sequence" where
  "seq_new E id_str w =
     (case runtime_cell (id_str @ ''_structure'') (null_value E) w of
        (w', c) \<Rightarrow> (w', \<lparr>seq_structure = c, seq_values = []\<rparr>))"

definition seq_len :: "('v, 'r) env \<Rightarrow> reactive_sequence \<Rightarrow> ('v, 'r) world \<Rightarrow> (('v, 'r) world \<times> nat) option" where
  "seq_len E s w = map_option (\<lambda>w'. (w', length (seq_values s))) (read_structure E (seq_structure s) w)"

definition seq_push ::
  "('v, 'r) env \<Rightarrow> ('a, 'v) serde \<Rightarrow> string \<Rightarrow> 'a \<Rightarrow> reactive_sequence \<Rightarrow> ('v, 'r) world
   \<Rightarrow> (('v, 'r) world \<times> reactive_sequence) option" where
  "seq_push E J id_str item s w =
     (case runtime_cell id_str (to_json J item) w of
        (w1, c) \<Rightarrow>
          map_option (\<lambda>w2. (w2, s\<lparr>seq_values := seq_values s @ [c]\<rparr>))
            (notify_structure E (seq_structure s) w1))"

definition seq_get ::
  "('v, 'r) env \<Rightarrow> ('a, 'v) serde \<Rightarrow> nat \<Rightarrow> reactive_sequence \<Rightarrow> ('v, 'r) world
   \<Rightarrow> (('v, 'r) world \<times> 'a option) option" where
  "seq_get E J i s w =
     (if i < length (seq_values s) then
        map_option (\<lambda>(w', a). (w', Option.bind (present a) (from_json J))) (read_cell E (seq_values s ! i) w)
      else map_option (\<lambda>w'. (w', None)) (read_structure E (seq_structure s) w))"

definition seq_set ::
  "('v, 'r) env \<Rightarrow> ('a, 'v) serde \<Rightarrow> nat \<Rightarrow> 'a \<Rightarrow> reactive_sequence \<Rightarrow> ('v, 'r) world
   \<Rightarrow> ('v, 'r) world option" where
  "seq_set E J i value s w =
     (if i < length (seq_values s) then map_option fst (update_cell E (seq_values s ! i) (to_json J value) w)
      else None)"

fun read_values ::
  "('v, 'r) env \<Rightarrow> ('a, 'v) serde \<Rightarrow> cell_id list \<Rightarrow> ('v, 'r) world \<Rightarrow> (('v, 'r) world \<times> 'a list) option" where
  "read_values E J [] w = Some (w, [])"
| "read_values E J (c # cs) w =
     (case read_cell E c w of
        None \<Rightarrow> None
      | Some (w1, a) \<Rightarrow>
          map_option (\<lambda>(w2, rest). (w2, (case Option.bind (present a) (from_json J) of
              None \<Rightarrow> rest | Some v \<Rightarrow> v # rest))) (read_values E J cs w1))"

definition seq_to_vec ::
  "('v, 'r) env \<Rightarrow> ('a, 'v) serde \<Rightarrow> reactive_sequence \<Rightarrow> ('v, 'r) world
   \<Rightarrow> (('v, 'r) world \<times> 'a list) option" where
  "seq_to_vec E J s w = Option.bind (read_structure E (seq_structure s) w) (read_values E J (seq_values s))"

definition seq_drop :: "(cell_id \<Rightarrow> string list) \<Rightarrow> reactive_sequence \<Rightarrow> ('v, 'r) world \<Rightarrow> ('v, 'r) world" where
  "seq_drop sent s w = remove_cells sent (seq_structure s # seq_values s) w"

section \<open>Maps\<close>

text \<open>\<open>keys\<close> is the iteration order of the hash map, where the code iterates.\<close>

record 'k reactive_map =
  map_structure :: cell_id
  map_values :: "'k \<rightharpoonup> cell_id"

definition rmap_new :: "('v, 'r) env \<Rightarrow> string \<Rightarrow> ('v, 'r) world \<Rightarrow> ('v, 'r) world \<times> 'k reactive_map" where
  "rmap_new E id_str w =
     (case runtime_cell (id_str @ ''_structure'') (null_value E) w of
        (w', c) \<Rightarrow> (w', \<lparr>map_structure = c, map_values = Map.empty\<rparr>))"

definition rmap_insert ::
  "('v, 'r) env \<Rightarrow> ('a, 'v) serde \<Rightarrow> string \<Rightarrow> 'k \<Rightarrow> 'a \<Rightarrow> 'k reactive_map \<Rightarrow> ('v, 'r) world
   \<Rightarrow> (('v, 'r) world \<times> 'k reactive_map \<times> 'a option) option" where
  "rmap_insert E J id_str key value m w =
     (case map_values m key of
        Some c \<Rightarrow>
          map_option (\<lambda>(w', old_json). (w', m, Option.bind old_json (from_json J)))
            (update_cell E c (to_json J value) w)
      | None \<Rightarrow>
          (case runtime_cell id_str (to_json J value) w of
             (w1, c) \<Rightarrow>
               map_option (\<lambda>w2. (w2, m\<lparr>map_values := (map_values m)(key \<mapsto> c)\<rparr>, None))
                 (notify_structure E (map_structure m) w1)))"

definition rmap_remove ::
  "('v, 'r) env \<Rightarrow> ('a, 'v) serde \<Rightarrow> string list \<Rightarrow> 'k \<Rightarrow> 'k reactive_map \<Rightarrow> ('v, 'r) world
   \<Rightarrow> (('v, 'r) world \<times> 'k reactive_map \<times> 'a option) option" where
  "rmap_remove E J sent key m w =
     (case map_values m key of
        None \<Rightarrow> Some (w, m, None)
      | Some c \<Rightarrow>
          (case read_cell E c w of
             None \<Rightarrow> None
           | Some (w1, a) \<Rightarrow>
               map_option (\<lambda>w2. (w2, m\<lparr>map_values := (map_values m)(key := None)\<rparr>,
                   Option.bind (present a) (from_json J)))
                 (notify_structure E (map_structure m) (runtime_remove_cell sent c w1))))"

definition rmap_get ::
  "('v, 'r) env \<Rightarrow> ('a, 'v) serde \<Rightarrow> 'k \<Rightarrow> 'k reactive_map \<Rightarrow> ('v, 'r) world
   \<Rightarrow> (('v, 'r) world \<times> 'a option) option" where
  "rmap_get E J key m w =
     (case map_values m key of
        Some c \<Rightarrow> map_option (\<lambda>(w', a). (w', Option.bind (present a) (from_json J))) (read_cell E c w)
      | None \<Rightarrow> map_option (\<lambda>w'. (w', None)) (read_structure E (map_structure m) w))"

definition rmap_contains_key ::
  "('v, 'r) env \<Rightarrow> 'k \<Rightarrow> 'k reactive_map \<Rightarrow> ('v, 'r) world \<Rightarrow> (('v, 'r) world \<times> bool) option" where
  "rmap_contains_key E key m w =
     map_option (\<lambda>w'. (w', map_values m key \<noteq> None)) (read_structure E (map_structure m) w)"

definition rmap_keys ::
  "('v, 'r) env \<Rightarrow> 'k list \<Rightarrow> 'k reactive_map \<Rightarrow> ('v, 'r) world \<Rightarrow> (('v, 'r) world \<times> 'k list) option" where
  "rmap_keys E keys m w =
     map_option (\<lambda>w'. (w', filter (\<lambda>k. map_values m k \<noteq> None) keys)) (read_structure E (map_structure m) w)"

definition rmap_len ::
  "('v, 'r) env \<Rightarrow> 'k list \<Rightarrow> 'k reactive_map \<Rightarrow> ('v, 'r) world \<Rightarrow> (('v, 'r) world \<times> nat) option" where
  "rmap_len E keys m w = map_option (\<lambda>(w', ks). (w', length ks)) (rmap_keys E keys m w)"

fun read_entries ::
  "('v, 'r) env \<Rightarrow> ('a, 'v) serde \<Rightarrow> ('k \<rightharpoonup> cell_id) \<Rightarrow> 'k list \<Rightarrow> ('v, 'r) world
   \<Rightarrow> (('v, 'r) world \<times> ('k \<times> 'a) list) option" where
  "read_entries E J values [] w = Some (w, [])"
| "read_entries E J values (k # ks) w =
     (case values k of
        None \<Rightarrow> read_entries E J values ks w
      | Some c \<Rightarrow>
          (case read_cell E c w of
             None \<Rightarrow> None
           | Some (w1, a) \<Rightarrow>
               map_option (\<lambda>(w2, rest). (w2, (case Option.bind (present a) (from_json J) of
                   None \<Rightarrow> rest | Some v \<Rightarrow> (k, v) # rest))) (read_entries E J values ks w1)))"

definition rmap_entries ::
  "('v, 'r) env \<Rightarrow> ('a, 'v) serde \<Rightarrow> 'k list \<Rightarrow> 'k reactive_map \<Rightarrow> ('v, 'r) world
   \<Rightarrow> (('v, 'r) world \<times> ('k \<times> 'a) list) option" where
  "rmap_entries E J keys m w =
     Option.bind (read_structure E (map_structure m) w) (read_entries E J (map_values m) keys)"

definition rmap_to_hashmap ::
  "('v, 'r) env \<Rightarrow> ('a, 'v) serde \<Rightarrow> 'k list \<Rightarrow> 'k reactive_map \<Rightarrow> ('v, 'r) world
   \<Rightarrow> (('v, 'r) world \<times> ('k \<rightharpoonup> 'a)) option" where
  "rmap_to_hashmap E J keys m w = map_option (\<lambda>(w', es). (w', map_of es)) (rmap_entries E J keys m w)"

definition rmap_drop :: "(cell_id \<Rightarrow> string list) \<Rightarrow> 'k list \<Rightarrow> 'k reactive_map \<Rightarrow> ('v, 'r) world \<Rightarrow> ('v, 'r) world" where
  "rmap_drop sent keys m w =
     remove_cells sent (map_structure m # List.map_filter (map_values m) keys) w"

section \<open>Nodes\<close>

definition node_new :: "string \<Rightarrow> 'v \<Rightarrow> ('v, 'r) world \<Rightarrow> ('v, 'r) world \<times> cell_id" where
  "node_new id_str value w = runtime_cell id_str value w"

definition node_get ::
  "('v, 'r) env \<Rightarrow> ('a, 'v) serde \<Rightarrow> cell_id \<Rightarrow> ('v, 'r) world \<Rightarrow> (('v, 'r) world \<times> 'a) option" where
  "node_get E J c w =
     Option.bind (read_cell E c w) (\<lambda>(w', a).
       map_option (Pair w') (Option.bind (present a) (from_json J)))"

definition node_drop :: "string list \<Rightarrow> cell_id \<Rightarrow> ('v, 'r) world \<Rightarrow> ('v, 'r) world" where
  "node_drop sent c w = runtime_remove_cell sent c w"

end
