(* ===== verification/Collection_Facts.thy ===== *)
theory Collection_Facts
  imports Collections
begin

text \<open>
  The collections as their clients see them: a sequence is a list and a map a finite map,
  whatever the runtime does underneath, and a trace that read a collection stops being valid
  exactly when what it read changes.
\<close>

section \<open>Reading plain cells\<close>

definition plain_cell :: "('v, 'r) world \<Rightarrow> cell_id \<Rightarrow> bool" where
  "plain_cell w c \<longleftrightarrow> store w c \<noteq> None \<and> root_of (eng w) c = None"

definition unchanged :: "('v, 'r) world \<Rightarrow> ('v, 'r) world \<Rightarrow> bool" where
  "unchanged w w' \<longleftrightarrow> store w' = store w \<and> counter w' = counter w \<and> rt_epoch w' = rt_epoch w
     \<and> view (eng w') = view (eng w)"

lemma unchanged_refl [simp]: "unchanged w w"
  by (simp add: unchanged_def)

lemma unchanged_trans: "unchanged w w1 \<Longrightarrow> unchanged w1 w2 \<Longrightarrow> unchanged w w2"
  by (simp add: unchanged_def)

lemma unchanged_plain: "unchanged w w' \<Longrightarrow> plain_cell w' = plain_cell w"
  using view_D(3) [of "eng w'" "eng w"] by (auto simp: unchanged_def plain_cell_def fun_eq_iff)

lemma unchanged_store: "unchanged w w' \<Longrightarrow> store w' = store w"
  by (simp add: unchanged_def)

lemma unchanged_snapshot:
  "unchanged w w' \<Longrightarrow> get_revision_snapshot c (eng w') = get_revision_snapshot c (eng w)"
  by (auto simp: unchanged_def dest: view_D(2))

text \<open>The innermost trace gains the present revisions of the cells \<open>cs\<close> and nothing else.\<close>

definition noted :: "cell_id list \<Rightarrow> ('v, 'r) world \<Rightarrow> trace_entry set" where
  "noted cs w = {TraceEntry c r |c r. c \<in> set cs \<and> get_revision_snapshot c (eng w) = Some r}"

definition logged :: "cell_id list \<Rightarrow> ('v, 'r) world \<Rightarrow> ('v, 'r) world \<Rightarrow> bool" where
  "logged cs w w' \<longleftrightarrow> (case active_trace w of
      [] \<Rightarrow> active_trace w' = []
    | t # ts \<Rightarrow> \<exists>t'. active_trace w' = t' # ts \<and> resources t' = resources t
        \<and> set (dependencies t') = set (dependencies t) \<union> noted cs w)"

lemma noted_simps [simp]: "noted [] w = {}" "noted (cs @ ds) w = noted cs w \<union> noted ds w"
  by (auto simp: noted_def)

lemma noted_unchanged: "unchanged w w' \<Longrightarrow> noted cs w' = noted cs w"
  by (simp add: noted_def unchanged_snapshot)

lemma logged_Nil [simp]: "logged [] w w"
  by (auto simp: logged_def split: list.split)

lemma logged_trans:
  assumes "logged ds w w1" and "unchanged w w1" and "logged cs w1 w2"
  shows "logged (ds @ cs) w w2"
proof (cases "active_trace w")
  case Nil
  with assms show ?thesis by (simp add: logged_def)
next
  case (Cons t ts)
  with assms(1) obtain t1 where t1: "active_trace w1 = t1 # ts" "resources t1 = resources t"
    "set (dependencies t1) = set (dependencies t) \<union> noted ds w" by (auto simp: logged_def)
  with assms(3) obtain t2 where "active_trace w2 = t2 # ts" "resources t2 = resources t1"
    "set (dependencies t2) = set (dependencies t1) \<union> noted cs w1" by (auto simp: logged_def)
  with t1 Cons show ?thesis
    by (simp add: logged_def noted_unchanged [OF assms(2)] Un_assoc)
qed

lemma read_cell_plain:
  assumes "plain_cell w c" and "stack_depth E = Suc d"
  shows "\<exists>w'. read_cell E c w = Some (w', Present (the (store w c))) \<and> unchanged w w' \<and> logged [c] w w'"
proof -
  from assms(1) obtain v where v: "store w c = Some v" and r: "root_of (eng w) c = None"
    by (auto simp: plain_cell_def)
  obtain e' rv where t: "touch (eng w) c = (e', rv)" by fastforce
  note vw = view_touch [OF t]
  show ?thesis
  proof (cases "active_trace w")
    case Nil
    with v show ?thesis by (simp add: read_cell_def runtime_get_cell_def cell_get_def logged_def)
  next
    case (Cons tr ts)
    let ?w = "case rv of None \<Rightarrow> w\<lparr>eng := e'\<rparr>
      | Some x \<Rightarrow> w\<lparr>eng := e', active_trace := trace_record c x tr # ts\<rparr>"
    have "read_cell E c w = Some (?w, Present (the (store w c)))"
      using v r t Cons assms(2)
      by (cases rv) (simp_all add: read_cell_def runtime_get_cell_def cell_get_def get_revision_simps record_top_def)
    moreover have "unchanged w ?w" using vw by (simp add: unchanged_def split: option.split)
    moreover have "logged [c] w ?w"
    proof (cases rv)
      case None
      with vw have "noted [c] w = {}" by (auto simp: noted_def)
      with None Cons show ?thesis by (simp add: logged_def)
    next
      case (Some x)
      with vw have "noted [c] w = {TraceEntry c x}" by (auto simp: noted_def)
      with Some Cons show ?thesis by (simp add: logged_def)
    qed
    ultimately show ?thesis by blast
  qed
qed

lemma update_cell_plain:
  assumes "plain_cell w c" and "stack_depth E = Suc d"
  shows "\<exists>w1. update_cell E c v w =
      Some (if store w c = Some v then w1 else cell_set c v w1, store w c) \<and> unchanged w w1 \<and> logged [c] w w1"
  using read_cell_plain [OF assms] assms(1)
  by (auto simp: update_cell_def Let_def plain_cell_def)

lemma read_structure_plain:
  assumes "plain_cell w c" and "stack_depth E = Suc d"
  shows "\<exists>w'. read_structure E c w = Some w' \<and> unchanged w w' \<and> logged [c] w w'"
  using read_cell_plain [OF assms] by (auto simp: read_structure_def)

lemma cell_set_simps [op_simps]:
  "store (cell_set c v w) = (store w)(c \<mapsto> v)"
  "counter (cell_set c v w) = counter w + 1"
  "rt_epoch (cell_set c v w) = rt_epoch w"
  "roots (eng (cell_set c v w)) = roots (eng w)"
  "root_of (eng (cell_set c v w)) d = root_of (eng w) d"
  "get_revision_snapshot d (eng (cell_set c v w)) =
     (if d = c then Some (next_revision w) else get_revision_snapshot d (eng w))"
  "plain_cell (cell_set c v w) d \<longleftrightarrow> (if d = c then root_of (eng w) c = None else plain_cell w d)"
  by (auto simp: cell_set_def root_of_def set_cell_def get_revision_snapshot_def plain_cell_def)

section \<open>Sequences are lists\<close>

definition seq_inv :: "('v, 'r) world \<Rightarrow> reactive_sequence \<Rightarrow> bool" where
  "seq_inv w s \<longleftrightarrow> (\<forall>c \<in> set (seq_structure s # seq_values s). plain_cell w c)
     \<and> distinct (seq_structure s # seq_values s)"

definition seq_view :: "('a, 'v) serde \<Rightarrow> ('v, 'r) world \<Rightarrow> reactive_sequence \<Rightarrow> 'a option list" where
  "seq_view J w s = map (\<lambda>c. Option.bind (store w c) (from_json J)) (seq_values s)"

definition seq_view_is :: "('a, 'v) serde \<Rightarrow> 'a list \<Rightarrow> ('v, 'r) world \<times> reactive_sequence \<Rightarrow> bool" where
  "seq_view_is J xs st \<longleftrightarrow> seq_inv (fst st) (snd st) \<and> seq_view J (fst st) (snd st) = map Some xs"

definition fresh_name :: "string \<Rightarrow> ('v, 'r) world \<Rightarrow> bool" where
  "fresh_name n w \<longleftrightarrow> store w (cell_root n) = None \<and> root_of (eng w) (cell_root n) = None"

definition serde_ok :: "('a, 'v) serde \<Rightarrow> bool" where
  "serde_ok J \<longleftrightarrow> (\<forall>x. from_json J (to_json J x) = Some x)"

lemma seq_view_unchanged: "unchanged w w' \<Longrightarrow> seq_view J w' s = seq_view J w s \<and> seq_inv w' s = seq_inv w s"
  by (simp add: seq_view_def seq_inv_def unchanged_store unchanged_plain)

lemma seq_push_correct:
  assumes "seq_view_is J xs (w, s)" and "serde_ok J" and "fresh_name n w"
  shows "\<exists>w' s'. seq_push E J n x s w = Some (w', s') \<and> seq_view_is J (xs @ [x]) (w', s')
    \<and> (\<forall>m. fresh_name m w \<longrightarrow> m \<noteq> n \<longrightarrow> fresh_name m w')"
proof -
  let ?c = "cell_root n" and ?j = "to_json J x"
  let ?w1 = "cell_set ?c ?j w"
  let ?w2 = "cell_set (seq_structure s) (null_value E) ?w1"
  let ?s = "s\<lparr>seq_values := seq_values s @ [?c]\<rparr>"
  from assms(1) have inv: "seq_inv w s" and vw: "seq_view J w s = map Some xs"
    by (simp_all add: seq_view_is_def)
  from inv assms(3) have new: "?c \<noteq> seq_structure s" "?c \<notin> set (seq_values s)"
    by (auto simp: seq_inv_def plain_cell_def fresh_name_def)
  have run: "seq_push E J n x s w = Some (?w2, ?s)"
    using inv by (auto simp: seq_push_def runtime_cell_def notify_structure_def runtime_get_cell_def
        seq_inv_def plain_cell_def op_simps)
  have "seq_inv ?w2 ?s"
    using inv assms(3) new by (auto simp: seq_inv_def op_simps fresh_name_def plain_cell_def)
  moreover have "seq_view J ?w2 ?s = map Some (xs @ [x])"
  proof -
    have "store ?w2 c = store w c" if "c \<in> set (seq_values s)" for c
      using inv new that by (auto simp: seq_inv_def op_simps)
    then have "seq_view J ?w2 s = map Some xs" unfolding seq_view_def vw [unfolded seq_view_def, symmetric] by simp
    moreover have "store ?w2 ?c = Some ?j" using new by (simp add: op_simps)
    ultimately show ?thesis using assms(2) by (simp add: seq_view_def serde_ok_def)
  qed
  moreover have "fresh_name m ?w2" if "fresh_name m w" "m \<noteq> n" for m
    using that inv by (auto simp: fresh_name_def op_simps seq_inv_def plain_cell_def)
  ultimately show ?thesis using run by (auto simp: seq_view_is_def)
qed

lemma read_values_correct:
  assumes "stack_depth E = Suc d"
  shows "(\<forall>c \<in> set cs. plain_cell w c) \<Longrightarrow>
    \<exists>w'. read_values E J cs w =
        Some (w', List.map_filter (\<lambda>c. Option.bind (store w c) (from_json J)) cs)
      \<and> unchanged w w' \<and> logged cs w w'"
proof (induction cs arbitrary: w)
  case Nil
  then show ?case by (auto simp: List.map_filter_def)
next
  case (Cons c cs)
  obtain w1 where w1: "read_cell E c w = Some (w1, Present (the (store w c)))" "unchanged w w1" "logged [c] w w1"
    using read_cell_plain [of w c E d] assms Cons.prems by fastforce
  have "\<forall>c \<in> set cs. plain_cell w1 c" using Cons.prems unchanged_plain [OF w1(2)] by simp
  from Cons.IH [OF this] obtain w2 where w2:
    "read_values E J cs w1 = Some (w2, List.map_filter (\<lambda>c. Option.bind (store w c) (from_json J)) cs)"
    "unchanged w1 w2" "logged cs w1 w2"
    by (auto simp: unchanged_store [OF w1(2)])
  from Cons.prems obtain v where "store w c = Some v" by (auto simp: plain_cell_def)
  then have "read_values E J (c # cs) w =
      Some (w2, List.map_filter (\<lambda>c. Option.bind (store w c) (from_json J)) (c # cs))"
    using w1(1) w2(1) by (simp add: List.map_filter_def split: option.split)
  with unchanged_trans [OF w1(2) w2(2)] logged_trans [OF w1(3) w1(2) w2(3)] show ?case by auto
qed

lemma seq_to_vec_correct:
  assumes "seq_inv w s" and "stack_depth E = Suc d"
  shows "\<exists>w'. seq_to_vec E J s w = Some (w', List.map_filter id (seq_view J w s)) \<and> unchanged w w'
      \<and> logged (seq_structure s # seq_values s) w w'"
proof -
  obtain w1 where w1: "read_structure E (seq_structure s) w = Some w1" "unchanged w w1"
      "logged [seq_structure s] w w1"
    using read_structure_plain [of w "seq_structure s" E d] assms by (auto simp: seq_inv_def)
  have "\<forall>c \<in> set (seq_values s). plain_cell w1 c"
    using assms(1) unchanged_plain [OF w1(2)] by (simp add: seq_inv_def)
  from read_values_correct [OF assms(2) this] obtain w2 where w2:
    "read_values E J (seq_values s) w1 =
       Some (w2, List.map_filter (\<lambda>c. Option.bind (store w c) (from_json J)) (seq_values s))"
    "unchanged w1 w2" "logged (seq_values s) w1 w2"
    by (auto simp: unchanged_store [OF w1(2)])
  have "List.map_filter id (seq_view J w s) =
      List.map_filter (\<lambda>c. Option.bind (store w c) (from_json J)) (seq_values s)"
    by (simp add: seq_view_def List.map_filter_def filter_map comp_def)
  with w1 w2 unchanged_trans [OF w1(2) w2(2)] logged_trans [OF w1(3) w1(2) w2(3)] show ?thesis
    by (simp add: seq_to_vec_def)
qed

text \<open>What a client that appends and reads back relies on, for any list-like collection.\<close>

primrec push_all :: "('n \<Rightarrow> 'a \<Rightarrow> 'st \<Rightarrow> 'st option) \<Rightarrow> ('n \<times> 'a) list \<Rightarrow> 'st \<Rightarrow> 'st option" where
  "push_all push [] st = Some st"
| "push_all push (p # ps) st = Option.bind (push (fst p) (snd p) st) (push_all push ps)"

locale list_collection =
  fixes holds :: "'a list \<Rightarrow> 'st \<Rightarrow> bool"
    and fresh :: "'n \<Rightarrow> 'st \<Rightarrow> bool"
    and push :: "'n \<Rightarrow> 'a \<Rightarrow> 'st \<Rightarrow> 'st option"
    and to_list :: "'st \<Rightarrow> ('st \<times> 'a list) option"
  assumes push_holds: "holds xs st \<Longrightarrow> fresh n st \<Longrightarrow>
      \<exists>st'. push n x st = Some st' \<and> holds (xs @ [x]) st' \<and> (\<forall>m. fresh m st \<longrightarrow> m \<noteq> n \<longrightarrow> fresh m st')"
    and to_list_holds: "holds xs st \<Longrightarrow> \<exists>st'. to_list st = Some (st', xs) \<and> holds xs st'"
begin

lemma push_all_holds:
  "holds xs st \<Longrightarrow> distinct (map fst ps) \<Longrightarrow> (\<forall>n \<in> set (map fst ps). fresh n st) \<Longrightarrow>
     \<exists>st'. push_all push ps st = Some st' \<and> holds (xs @ map snd ps) st'"
proof (induction ps arbitrary: xs st)
  case (Cons p ps)
  obtain st1 where st1: "push (fst p) (snd p) st = Some st1" "holds (xs @ [snd p]) st1"
    "\<forall>m. fresh m st \<longrightarrow> m \<noteq> fst p \<longrightarrow> fresh m st1"
    using push_holds [OF Cons.prems(1), of "fst p" "snd p"] Cons.prems(3) by auto
  have "\<forall>n \<in> set (map fst ps). fresh n st1"
  proof
    fix n assume n: "n \<in> set (map fst ps)"
    with Cons.prems(2) have "n \<noteq> fst p" by force
    moreover from n Cons.prems(3) have "fresh n st" by auto
    ultimately show "fresh n st1" using st1(3) by blast
  qed
  from Cons.IH [OF st1(2) _ this] Cons.prems(2) st1(1) show ?case by simp
qed simp

lemma round_trip:
  assumes "holds [] st" and "distinct (map fst ps)" and "\<forall>n \<in> set (map fst ps). fresh n st"
  shows "\<exists>st' st''. push_all push ps st = Some st' \<and> to_list st' = Some (st'', map snd ps)"
  using push_all_holds [OF assms] to_list_holds by fastforce

end

definition push_st ::
  "('v, 'r) env \<Rightarrow> ('a, 'v) serde \<Rightarrow> string \<Rightarrow> 'a \<Rightarrow> ('v, 'r) world \<times> reactive_sequence
   \<Rightarrow> (('v, 'r) world \<times> reactive_sequence) option" where
  "push_st E J n x st = seq_push E J n x (snd st) (fst st)"

definition to_vec_st ::
  "('v, 'r) env \<Rightarrow> ('a, 'v) serde \<Rightarrow> ('v, 'r) world \<times> reactive_sequence
   \<Rightarrow> ((('v, 'r) world \<times> reactive_sequence) \<times> 'a list) option" where
  "to_vec_st E J st = map_option (\<lambda>(w', xs). ((w', snd st), xs)) (seq_to_vec E J (snd st) (fst st))"

lemma map_filter_Some [simp]: "List.map_filter id (map Some xs) = xs"
  by (induction xs) (simp_all add: List.map_filter_simps)

interpretation sequence: list_collection
  "\<lambda>xs st. serde_ok J \<and> seq_view_is J xs st" "\<lambda>n st. fresh_name n (fst st)"
  "push_st (E\<lparr>stack_depth := Suc d\<rparr>) J" "to_vec_st (E\<lparr>stack_depth := Suc d\<rparr>) J"
  for E :: "('v, 'r) env" and J :: "('a, 'v) serde" and d
proof
  fix xs :: "'a list" and st :: "('v, 'r) world \<times> reactive_sequence" and n x
  assume "serde_ok J \<and> seq_view_is J xs st" and "fresh_name n (fst st)"
  then show "\<exists>st'. push_st (E\<lparr>stack_depth := Suc d\<rparr>) J n x st = Some st' \<and>
      (serde_ok J \<and> seq_view_is J (xs @ [x]) st') \<and>
      (\<forall>m. fresh_name m (fst st) \<longrightarrow> m \<noteq> n \<longrightarrow> fresh_name m (fst st'))"
    using seq_push_correct [of J xs "fst st" "snd st" n "E\<lparr>stack_depth := Suc d\<rparr>" x]
    by (auto simp: push_st_def)
next
  fix xs :: "'a list" and st :: "('v, 'r) world \<times> reactive_sequence"
  assume "serde_ok J \<and> seq_view_is J xs st"
  then have vw: "seq_view_is J xs st" and J: "serde_ok J" by simp_all
  then have inv: "seq_inv (fst st) (snd st)" by (simp add: seq_view_is_def)
  obtain w' where w': "seq_to_vec (E\<lparr>stack_depth := Suc d\<rparr>) J (snd st) (fst st) = Some (w', xs)"
    "unchanged (fst st) w'"
    using seq_to_vec_correct [OF inv, of "E\<lparr>stack_depth := Suc d\<rparr>" d J] vw by (auto simp: seq_view_is_def)
  have "seq_view_is J xs (w', snd st)"
    using vw seq_view_unchanged [OF w'(2), of J "snd st"] by (simp add: seq_view_is_def)
  with w'(1) J show "\<exists>st'. to_vec_st (E\<lparr>stack_depth := Suc d\<rparr>) J st = Some (st', xs) \<and>
      (serde_ok J \<and> seq_view_is J xs st')"
    by (simp add: to_vec_st_def)
qed

lemma seq_new_holds:
  assumes "root_of (eng w) (cell_root (n @ ''_structure'')) = None"
  shows "seq_view_is J [] (seq_new E n w)"
  using assms by (simp add: seq_new_def runtime_cell_def seq_view_is_def seq_inv_def seq_view_def op_simps)

text \<open>
  A sequence filled by pushes is read back as it was filled: from the creation of the
  sequence, pushing any items under fresh cell names never panics and \<open>to_vec\<close> returns the
  items in the order in which they were pushed.
\<close>

theorem sequence_round_trip:
  assumes "serde_ok J" and "root_of (eng w) (cell_root (n @ ''_structure'')) = None"
    and "distinct (map fst ps)" and "\<forall>m \<in> set (map fst ps). fresh_name m w \<and> m \<noteq> n @ ''_structure''"
  shows "\<exists>w1 s w2. push_all (push_st (E\<lparr>stack_depth := Suc d\<rparr>) J) ps
        (seq_new (E\<lparr>stack_depth := Suc d\<rparr>) n w) = Some (w1, s)
      \<and> seq_to_vec (E\<lparr>stack_depth := Suc d\<rparr>) J s w1 = Some (w2, map snd ps)"
proof -
  let ?E = "E\<lparr>stack_depth := Suc d\<rparr>"
  have "serde_ok J \<and> seq_view_is J [] (seq_new ?E n w)" using assms(1,2) seq_new_holds by blast
  moreover have "\<forall>m \<in> set (map fst ps). fresh_name m (fst (seq_new ?E n w))"
    using assms(4) by (auto simp: seq_new_def runtime_cell_def fresh_name_def op_simps)
  ultimately show ?thesis
    using sequence.round_trip [where st = "seq_new ?E n w" and J = J and ps = ps and E = E and d = d] assms(3) by (auto simp: to_vec_st_def)
qed

definition nat_serde :: "(nat, nat) serde" where
  "nat_serde = \<lparr>to_json = (\<lambda>n. n + 1), from_json = (\<lambda>v. if v = 0 then None else Some (v - 1))\<rparr>"

lemma nat_serde_ok [simp]: "serde_ok nat_serde"
  by (simp add: serde_ok_def nat_serde_def)

theorem sequence_round_trip_witness:
  "\<exists>w1 s w2. push_all (push_st (toy_env\<lparr>stack_depth := Suc 0\<rparr>) nat_serde) [(''x'', 3), (''y'', 1)]
        (seq_new (toy_env\<lparr>stack_depth := Suc 0\<rparr>) ''s'' (runtime_new (Epoch 0) 0)) = Some (w1, s)
      \<and> seq_to_vec (toy_env\<lparr>stack_depth := Suc 0\<rparr>) nat_serde s w1 = Some (w2, [3, 1])"
  using sequence_round_trip [where J = nat_serde and w = "runtime_new (Epoch 0) 0" and n = "''s''"
      and ps = "[(''x'', 3), (''y'', 1)]" and E = toy_env and d = 0]
  by (simp add: runtime_new_def engine_new_def root_of_def fresh_name_def)

section \<open>What a trace over a sequence sees\<close>

lemma plain_validate:
  assumes "\<forall>x \<in> set (dependencies t). root_of e (entry_cell x) = None"
  shows "\<exists>e'. validate (get_revision (Suc n)) t e =
     Some (e', \<forall>x \<in> set (dependencies t). get_revision_snapshot (entry_cell x) e = Some (entry_revision x))"
proof -
  from assms have "\<forall>x \<in> set (dependencies t). within (Suc n) e (entry_cell x)" by simp
  from engine.validate_correct [OF this] obtain e' where "validate (get_revision (Suc n)) t e =
      Some (e', \<forall>x \<in> set (dependencies t). current_rev e (entry_cell x) = Some (entry_revision x))" by blast
  moreover have "(\<forall>x \<in> set (dependencies t). current_rev e (entry_cell x) = Some (entry_revision x)) \<longleftrightarrow>
      (\<forall>x \<in> set (dependencies t). get_revision_snapshot (entry_cell x) e = Some (entry_revision x))"
    using assms current_rev_plain by (metis (no_types, lifting))
  ultimately show ?thesis by simp
qed

definition settled :: "('v, 'r) world \<Rightarrow> reactive_sequence \<Rightarrow> bool" where
  "settled w s \<longleftrightarrow> (\<forall>c \<in> set (seq_structure s # seq_values s).
     \<exists>r. get_revision_snapshot c (eng w) = Some r \<and> old_revision w r)"

lemma next_revision_new: "counter w \<noteq> - 1 \<Longrightarrow> old_revision w r \<Longrightarrow> r \<noteq> next_revision w"
  by (auto simp: old_revision_def next_revision_def dest: plus_one_le)

text \<open>
  C28. A computation that read a whole sequence depends on exactly what can change its result:
  its trace is valid right after the read, invalid once an item was pushed, and after
  \<open>set\<close> on an element valid if and only if the new item is stored as the old one was.
\<close>

theorem sequence_reads_tracked:
  fixes w :: "('v, 'r) world"
  assumes inv: "seq_inv w s" and set: "settled w s" and no_wrap: "counter w \<noteq> - 1" "counter w + 1 \<noteq> - 1"
    and depth: "stack_depth E = Suc d" and i: "i < length (seq_values s)" and fresh: "fresh_name m w"
  shows "\<exists>w1 xs t e1. seq_to_vec E J s (w\<lparr>active_trace := [trace_new]\<rparr>) = Some (w1, xs)
      \<and> active_trace w1 = [t] \<and> validate (get_revision (Suc n)) t (eng w1) = Some (e1, True)
      \<and> (\<exists>w2 s2 e2. seq_push E J m x s w = Some (w2, s2) \<and>
           validate (get_revision (Suc n)) t (eng w2) = Some (e2, False))
      \<and> (\<exists>w3 e3. seq_set E J i y s w = Some w3 \<and>
           validate (get_revision (Suc n)) t (eng w3) =
             Some (e3, store w (seq_values s ! i) = Some (to_json J y)))"
proof -
  let ?w = "w\<lparr>active_trace := [trace_new]\<rparr>" and ?cs = "seq_structure s # seq_values s"
  have un: "unchanged w ?w" by (simp add: unchanged_def)
  have "seq_inv ?w s" using inv seq_view_unchanged [OF un, of J s] by simp
  from seq_to_vec_correct [OF this depth, of J] obtain w1 xs t where
    run: "seq_to_vec E J s ?w = Some (w1, xs)" and un1: "unchanged ?w w1"
    and t: "active_trace w1 = [t]" "set (dependencies t) = noted ?cs ?w"
    by (auto simp: logged_def trace_new_def)
  have deps: "set (dependencies t) = noted ?cs w" using t(2) noted_unchanged [OF un, of ?cs] by simp
  have plain: "root_of (eng w) (entry_cell x) = None" if "x \<in> set (dependencies t)" for x
    using that inv by (auto simp: deps noted_def seq_inv_def plain_cell_def)
  have val: "\<exists>e'. validate (get_revision (Suc n)) t (eng w') = Some (e',
      \<forall>c \<in> set ?cs. get_revision_snapshot c (eng w') = get_revision_snapshot c (eng w))"
    if roots: "\<And>c. root_of (eng w') c = root_of (eng w) c" for w' :: "('v, 'r) world"
  proof -
    have "(\<forall>x \<in> set (dependencies t). get_revision_snapshot (entry_cell x) (eng w') = Some (entry_revision x))
        \<longleftrightarrow> (\<forall>c \<in> set ?cs. get_revision_snapshot c (eng w') = get_revision_snapshot c (eng w))"
      using set unfolding deps noted_def settled_def by fastforce
    with plain_validate [of t "eng w'" n] plain show ?thesis by (simp add: roots)
  qed
  have u1: "unchanged w w1" by (rule unchanged_trans [OF un un1])
  have r1: "root_of (eng w1) c = root_of (eng w) c" for c
    using u1 view_D(3) [of "eng w1" "eng w"] by (simp add: unchanged_def)
  have v1: "\<exists>e1. validate (get_revision (Suc n)) t (eng w1) = Some (e1, True)"
    using val [of w1] r1 by (simp add: unchanged_snapshot [OF u1])
  let ?w2 = "cell_set (seq_structure s) (null_value E) (cell_set (cell_root m) (to_json J x) w)"
  have push: "\<exists>s2. seq_push E J m x s w = Some (?w2, s2)"
    using inv by (auto simp: seq_push_def runtime_cell_def notify_structure_def runtime_get_cell_def
        seq_inv_def plain_cell_def op_simps)
  have far: "\<not> counter w + 1 + 1 \<le> counter w"
    using plus_one_le [OF plus_one_le [THEN conjunct1, OF _ no_wrap(1)] no_wrap(2)] by blast
  have "get_revision_snapshot (seq_structure s) (eng ?w2) \<noteq> get_revision_snapshot (seq_structure s) (eng w)"
    using set far by (auto simp: op_simps settled_def next_revision_def old_revision_def)
  with val [of ?w2] have v2: "\<exists>e2. validate (get_revision (Suc n)) t (eng ?w2) = Some (e2, False)"
    by (auto simp: op_simps)
  let ?c = "seq_values s ! i"
  have ci: "?c \<in> set ?cs" "plain_cell w ?c" using i inv by (auto simp: seq_inv_def)
  obtain w4 where up: "update_cell E ?c (to_json J y) w =
      Some (if store w ?c = Some (to_json J y) then w4 else cell_set ?c (to_json J y) w4, store w ?c)"
    and u4: "unchanged w w4"
    using update_cell_plain [OF ci(2) depth] by blast
  let ?w3 = "if store w ?c = Some (to_json J y) then w4 else cell_set ?c (to_json J y) w4"
  have r4: "root_of (eng w4) c = root_of (eng w) c" for c
    using u4 view_D(3) [of "eng w4" "eng w"] by (simp add: unchanged_def)
  have "next_revision w4 = next_revision w" using u4 by (simp add: next_revision_def unchanged_def)
  then have "get_revision_snapshot ?c (eng w) \<noteq> Some (next_revision w4)"
    using set ci(1) next_revision_new [OF no_wrap(1)] unfolding settled_def by fastforce
  then have "(\<forall>c \<in> set ?cs. get_revision_snapshot c (eng ?w3) = get_revision_snapshot c (eng w)) \<longleftrightarrow>
      store w ?c = Some (to_json J y)"
    using ci(1) by (auto simp: op_simps unchanged_snapshot [OF u4])
  with val [of ?w3] r4 have v3: "\<exists>e3. validate (get_revision (Suc n)) t (eng ?w3) =
      Some (e3, store w ?c = Some (to_json J y))"
    by (auto simp: op_simps)
  have "seq_set E J i y s w = Some ?w3" using up i by (simp add: seq_set_def)
  with run t(1) v1 push v2 v3 show ?thesis by blast
qed

definition toy_seq :: "(nat, unit) world \<times> reactive_sequence" where
  "toy_seq = the (seq_push toy_env nat_serde ''x'' 3
     (snd (seq_new toy_env ''s'' (runtime_new (Epoch 0) 0)))
     (fst (seq_new toy_env ''s'' (runtime_new (Epoch 0) 0))))"

lemma toy_seq_eq:
  "toy_seq = (cell_set (cell_root ''s_structure'') 0 (cell_set (cell_root ''x'') 4
      (cell_set (cell_root ''s_structure'') 0 (runtime_new (Epoch 0) 0))),
     \<lparr>seq_structure = cell_root ''s_structure'', seq_values = [cell_root ''x'']\<rparr>)"
  by (simp add: toy_seq_def seq_push_def seq_new_def runtime_cell_def notify_structure_def toy_env_def
      runtime_get_cell_def op_simps nat_serde_def runtime_new_def)

theorem sequence_reads_tracked_witness:
  "\<exists>w3. seq_set toy_env nat_serde 0 3 (snd toy_seq) (fst toy_seq) = Some w3"
proof -
  have inv: "seq_inv (fst toy_seq) (snd toy_seq)"
    by (simp add: toy_seq_eq seq_inv_def op_simps runtime_new_def engine_new_def root_of_def)
  have set: "settled (fst toy_seq) (snd toy_seq)"
    by (auto simp: toy_seq_eq settled_def op_simps next_revision_def old_revision_def runtime_new_def
        intro!: exI [of _ 2] exI [of _ 3])
  have c: "counter (fst toy_seq) = 3" by (simp add: toy_seq_eq op_simps runtime_new_def)
  have "fresh_name ''z'' (fst toy_seq)"
    by (simp add: toy_seq_eq fresh_name_def op_simps runtime_new_def engine_new_def root_of_def)
  moreover have "stack_depth toy_env = Suc 7" by (simp add: toy_env_def)
  ultimately show ?thesis
    using sequence_reads_tracked [where w = "fst toy_seq" and s = "snd toy_seq" and E = toy_env and d = 7
        and i = 0 and m = "''z''" and J = nat_serde and y = 3 and n = 0, OF inv set] c
    by (auto simp: toy_seq_eq)
qed

section \<open>Maps are finite maps\<close>

definition map_inv :: "('v, 'r) world \<Rightarrow> 'k reactive_map \<Rightarrow> bool" where
  "map_inv w m \<longleftrightarrow> plain_cell w (map_structure m)
     \<and> (\<forall>k c. map_values m k = Some c \<longrightarrow> plain_cell w c \<and> c \<noteq> map_structure m)
     \<and> inj_on (map_values m) (dom (map_values m))"

definition map_is :: "('a, 'v) serde \<Rightarrow> ('k \<rightharpoonup> 'a) \<Rightarrow> ('v, 'r) world \<Rightarrow> 'k reactive_map \<Rightarrow> bool" where
  "map_is J f w m \<longleftrightarrow> map_inv w m \<and> dom f = dom (map_values m) \<and>
     (\<forall>k c. map_values m k = Some c \<longrightarrow> Option.bind (store w c) (from_json J) = f k)"

lemma map_is_unchanged: "unchanged w w' \<Longrightarrow> map_is J f w m \<Longrightarrow> map_is J f w' m"
  by (simp add: map_is_def map_inv_def unchanged_store unchanged_plain)

lemma map_inv_inj: "map_inv w m \<Longrightarrow> map_values m k = Some c \<Longrightarrow> map_values m k' = Some c \<Longrightarrow> k = k'"
  unfolding map_inv_def by (metis domI inj_onD)

lemma map_is_set_value:
  assumes m: "map_is J f w m" and J: "serde_ok J" and k: "map_values m k = Some c"
  shows "map_is J (f(k \<mapsto> x)) (cell_set c (to_json J x) w) m"
proof -
  have inv: "map_inv w m" using m by (simp add: map_is_def)
  then have "map_inv (cell_set c (to_json J x) w) m"
    using k by (auto simp: map_inv_def op_simps plain_cell_def)
  moreover have "Option.bind (store (cell_set c (to_json J x) w) c') (from_json J) = (f(k \<mapsto> x)) k'"
    if "map_values m k' = Some c'" for k' c'
    using that m k J map_inv_inj [OF inv k, of k'] by (auto simp: map_is_def op_simps serde_ok_def)
  ultimately show ?thesis using m k by (auto simp: map_is_def)
qed

lemma map_is_notify:
  assumes "map_is J f w m"
  shows "notify_structure E (map_structure m) w = Some (cell_set (map_structure m) (null_value E) w)"
    and "map_is J f (cell_set (map_structure m) v w) m"
  using assms by (auto simp: map_is_def map_inv_def notify_structure_def runtime_get_cell_def plain_cell_def op_simps)

lemma map_is_new_value:
  assumes m: "map_is J f w m" and J: "serde_ok J" and new: "map_values m k = None" and n: "fresh_name n w"
  shows "map_is J (f(k \<mapsto> x)) (cell_set (cell_root n) (to_json J x) w)
      (m\<lparr>map_values := (map_values m)(k \<mapsto> cell_root n)\<rparr>)"
proof -
  have un: "map_values m k' \<noteq> Some (cell_root n)" for k'
    using m n by (fastforce simp: map_is_def map_inv_def plain_cell_def fresh_name_def)
  have st: "map_structure m \<noteq> cell_root n"
    using m n by (auto simp: map_is_def map_inv_def plain_cell_def fresh_name_def)
  have "inj_on ((map_values m)(k \<mapsto> cell_root n)) (insert k (dom (map_values m)))"
    using m un by (auto simp: map_is_def map_inv_def inj_on_def)
  moreover have "plain_cell w c" if "map_values m k' = Some c" for k' c
    using m that by (simp add: map_is_def map_inv_def)
  ultimately show ?thesis
    using m J un st n new
    by (auto simp: map_is_def map_inv_def op_simps fresh_name_def serde_ok_def)
qed

lemma remove_cell_simps [op_simps]:
  "store (runtime_remove_cell sent c w) = (store w)(c := None)"
  "root_of (eng (runtime_remove_cell sent c w)) d = root_of (eng w) d"
  "plain_cell (runtime_remove_cell sent c w) d \<longleftrightarrow> d \<noteq> c \<and> plain_cell w d"
  by (auto simp: runtime_remove_cell_def root_of_def invalidate_cell_def plain_cell_def split: option.split)

lemma map_is_remove_value:
  assumes m: "map_is J f w m" and k: "map_values m k = Some c"
  shows "map_is J (f(k := None)) (runtime_remove_cell sent c w) (m\<lparr>map_values := (map_values m)(k := None)\<rparr>)"
proof -
  have inv: "map_inv w m" using m by (simp add: map_is_def)
  have "c' \<noteq> c" if "map_values m k' = Some c'" "k' \<noteq> k" for k' c'
    using map_inv_inj [OF inv] that k by blast
  moreover have "inj_on ((map_values m)(k := None)) (dom (map_values m) - {k})"
    using inv by (auto simp: map_inv_def inj_on_def)
  moreover have "c \<noteq> map_structure m" using inv k by (simp add: map_inv_def)
  ultimately show ?thesis using m k by (auto simp: map_is_def map_inv_def op_simps)
qed

lemma read_entries_correct:
  assumes "stack_depth E = Suc d"
  shows "map_is J f w m \<Longrightarrow> \<exists>w'. read_entries E J (map_values m) ks w =
      Some (w', List.map_filter (\<lambda>k. map_option (Pair k) (f k)) ks) \<and> unchanged w w'"
proof (induction ks arbitrary: w)
  case Nil
  then show ?case by (auto simp: List.map_filter_def)
next
  case (Cons k ks)
  show ?case
  proof (cases "map_values m k")
    case None
    with Cons.prems have "f k = None" by (auto simp: map_is_def)
    with Cons None show ?thesis by (simp add: List.map_filter_def)
  next
    case (Some c)
    with Cons.prems have p: "plain_cell w c" and v: "Option.bind (store w c) (from_json J) = f k"
      by (auto simp: map_is_def map_inv_def)
    from Some Cons.prems have fk: "f k \<noteq> None" by (auto simp: map_is_def)
    obtain w1 where w1: "read_cell E c w = Some (w1, Present (the (store w c)))" "unchanged w w1"
      using read_cell_plain [OF p assms] by blast
    from Cons.IH [OF map_is_unchanged [OF w1(2) Cons.prems]] obtain w2 where
      "read_entries E J (map_values m) ks w1 = Some (w2, List.map_filter (\<lambda>k. map_option (Pair k) (f k)) ks)"
      "unchanged w1 w2" by blast
    with w1 Some v p fk show ?thesis
      by (auto simp: plain_cell_def List.map_filter_def dest: unchanged_trans split: option.split)
  qed
qed

text \<open>
  C30. A reactive map behaves as a finite map: \<open>insert\<close> and \<open>remove\<close> return the previous
  binding and update it, \<open>get\<close> looks it up and \<open>to_hashmap\<close> returns the whole map, and none of
  them panics on a map the operations have built.
\<close>

theorem map_refines_map:
  assumes m: "map_is J f w m" and J: "serde_ok J" and depth: "stack_depth E = Suc d" and n: "fresh_name n w"
  shows "(\<exists>w' m'. rmap_insert E J n k x m w = Some (w', m', f k) \<and> map_is J (f(k \<mapsto> x)) w' m')
    \<and> (\<exists>w' m'. rmap_remove E J sent k m w = Some (w', m', f k) \<and> map_is J (f(k := None)) w' m')
    \<and> (\<exists>w'. rmap_get E J k m w = Some (w', f k) \<and> map_is J f w' m)
    \<and> (\<exists>w'. rmap_to_hashmap E J keys m w = Some (w', f |` set keys) \<and> map_is J f w' m)"
proof -
  have st: "plain_cell w (map_structure m)" using m by (simp add: map_is_def map_inv_def)
  obtain w1 where w1: "read_structure E (map_structure m) w = Some w1" "unchanged w w1"
    using read_structure_plain [OF st depth] by blast
  obtain w2 where "read_entries E J (map_values m) keys w1 =
      Some (w2, List.map_filter (\<lambda>k. map_option (Pair k) (f k)) keys)" "unchanged w1 w2"
    using read_entries_correct [OF depth map_is_unchanged [OF w1(2) m]] by blast
  then have all: "\<exists>w'. rmap_to_hashmap E J keys m w = Some (w', f |` set keys) \<and> map_is J f w' m"
    using w1 map_is_unchanged [OF unchanged_trans m]
    by (auto simp: rmap_to_hashmap_def rmap_entries_def map_of_pairs)
  show ?thesis
  proof (cases "map_values m k")
    case None
    then have fk: "f k = None" using m by (auto simp: map_is_def)
    then have fd: "f(k := None) = f" by (simp add: fun_eq_iff)
    note new = map_is_new_value [OF m J None n, of x]
    from None fk new map_is_notify(1) [OF new, where E = E] map_is_notify(2) [OF new, where v = "null_value E"]
    have "\<exists>w' m'. rmap_insert E J n k x m w = Some (w', m', f k) \<and> map_is J (f(k \<mapsto> x)) w' m'"
      by (simp add: rmap_insert_def runtime_cell_def)
    moreover have "\<exists>w'. rmap_get E J k m w = Some (w', f k) \<and> map_is J f w' m"
      using None fk w1 map_is_unchanged [OF w1(2) m] by (simp add: rmap_get_def)
    moreover have "rmap_remove E J sent k m w = Some (w, m, f k)" using None fk by (simp add: rmap_remove_def)
    ultimately show ?thesis using all m fd by auto
  next
    case (Some c)
    have p: "plain_cell w c" and v: "Option.bind (store w c) (from_json J) = f k"
      using m Some by (auto simp: map_is_def map_inv_def)
    obtain w3 where w3: "read_cell E c w = Some (w3, Present (the (store w c)))" "unchanged w w3"
      using read_cell_plain [OF p depth] by blast
    note m3 = map_is_unchanged [OF w3(2) m]
    have here: "Option.bind (Some (the (store w c))) (from_json J) = f k"
      using p v by (auto simp: plain_cell_def)
    have "map_is J (f(k \<mapsto> x)) w3 m" if "store w c = Some (to_json J x)"
      using m3 v J that Some by (simp add: serde_ok_def map_is_def)
    then have "\<exists>w' m'. rmap_insert E J n k x m w = Some (w', m', f k) \<and> map_is J (f(k \<mapsto> x)) w' m'"
      using Some w3(1) here p map_is_set_value [OF m3 J Some, of x]
      by (auto simp: rmap_insert_def update_cell_def Let_def plain_cell_def)
    moreover have "\<exists>w'. rmap_get E J k m w = Some (w', f k) \<and> map_is J f w' m"
      using Some w3(1) here m3 by (simp add: rmap_get_def)
    moreover have "\<exists>w' m'. rmap_remove E J sent k m w = Some (w', m', f k) \<and> map_is J (f(k := None)) w' m'"
      using Some w3(1) here map_is_notify(1) [OF map_is_remove_value [OF m3 Some, of sent], where E = E]
        map_is_notify(2) [OF map_is_remove_value [OF m3 Some, of sent], where v = "null_value E"]
      by (simp add: rmap_remove_def)
    ultimately show ?thesis using all by blast
  qed
qed

definition toy_map :: "(nat, unit) world \<times> nat reactive_map" where
  "toy_map = rmap_new toy_env ''m'' (runtime_new (Epoch 0) 0)"

theorem map_refines_map_witness:
  "\<exists>w' m'. rmap_insert toy_env nat_serde ''x'' 7 3 (snd toy_map) (fst toy_map) = Some (w', m', None)
    \<and> map_is nat_serde [7 \<mapsto> 3] w' m'"
proof -
  have "map_is nat_serde Map.empty (fst toy_map) (snd toy_map)"
    by (simp add: toy_map_def rmap_new_def runtime_cell_def map_is_def map_inv_def op_simps runtime_new_def
        engine_new_def root_of_def)
  moreover have "fresh_name ''x'' (fst toy_map)"
    by (simp add: toy_map_def rmap_new_def runtime_cell_def fresh_name_def op_simps runtime_new_def
        engine_new_def root_of_def)
  moreover have "stack_depth toy_env = Suc 7" by (simp add: toy_env_def)
  ultimately show ?thesis
    using map_refines_map [where f = Map.empty and J = nat_serde and w = "fst toy_map" and m = "snd toy_map"
        and E = toy_env and d = 7 and k = 7 and x = 3] by fastforce
qed

end
