(* ===== verification/Revision_Store.thy ===== *)
theory Revision_Store
  imports Reactive_Core
begin

text \<open>
  Row and row-set revisions in SQLite: \<open>crates/exosuit-storage/src/revisions.rs\<close> and the
  observation scopes of \<open>trace.rs\<close> beside it. The database is what the statements of these
  files touch: the data tables, the revision tables \<open>*_rev\<close> and the table of row-set counters;
  a statement on a missing table fails. A connection outside a transaction commits each
  statement; inside one it can return to the state at \<open>BEGIN\<close>. Counters stay below \<open>2 ^ 63\<close>.

  BLAKE3 and hex encoding are parameters; \<open>begin_ok\<close> and \<open>commit_ok\<close> say whether the database
  grants the lock when it is asked to begin or to commit.
\<close>

section \<open>Data\<close>

datatype sql_value = SqlNull | SqlInteger "64 word" | SqlReal "64 word" | SqlText string | SqlBlob string

record database =
  data_tables :: "string \<rightharpoonup> (int \<times> sql_value list) list"
  rev_tables :: "string \<rightharpoonup> (int \<rightharpoonup> string)"
  counters :: "string \<rightharpoonup> int"

record connection =
  db :: database
  saved :: "database option"

record revision_store =
  row_cache :: "string \<times> int \<rightharpoonup> string"
  rowset_cache :: "string \<rightharpoonup> u64"

datatype db_error = NoSuchTable string | DbBusy

record sql_env =
  blake3 :: "string \<Rightarrow> string"
  hex :: "string \<Rightarrow> string"
  begin_ok :: bool
  commit_ok :: bool

type_synonym storage = "connection \<times> revision_store"

section \<open>Digests of rows\<close>

definition hash_variable_bytes :: "string \<Rightarrow> string" where
  "hash_variable_bytes bytes = le_bytes64 (of_nat (length bytes)) @ bytes"

fun value_bytes :: "sql_value \<Rightarrow> string" where
  "value_bytes SqlNull = [CHR 0x00]"
| "value_bytes (SqlInteger i) = CHR 0x01 # le_bytes64 i"
| "value_bytes (SqlReal f) = CHR 0x02 # le_bytes64 f"
| "value_bytes (SqlText s) = CHR 0x03 # hash_variable_bytes s"
| "value_bytes (SqlBlob b) = CHR 0x04 # hash_variable_bytes b"

definition compute_row_digest :: "sql_env \<Rightarrow> sql_value list \<Rightarrow> string" where
  "compute_row_digest V row = blake3 V (concat (map value_bytes row))"

section \<open>The revision store\<close>

definition rev_table :: "string \<Rightarrow> string" where
  "rev_table table = replace_all ''_data'' ''_rev'' table"

definition set_db :: "database \<Rightarrow> connection \<Rightarrow> connection" where
  "set_db d conn = conn\<lparr>db := d\<rparr>"

definition store_new :: "connection \<Rightarrow> revision_store" where
  "store_new conn = \<lparr>row_cache = Map.empty,
     rowset_cache = (\<lambda>t. map_option of_int (counters (db conn) t))\<rparr>"

definition cache_row_digest :: "string \<Rightarrow> int \<Rightarrow> string \<Rightarrow> revision_store \<Rightarrow> revision_store" where
  "cache_row_digest table rowid d st = st\<lparr>row_cache := (row_cache st)((table, rowid) \<mapsto> d)\<rparr>"

definition uncache_row_digest :: "string \<Rightarrow> int \<Rightarrow> revision_store \<Rightarrow> revision_store" where
  "uncache_row_digest table rowid st = st\<lparr>row_cache := (row_cache st)((table, rowid) := None)\<rparr>"

definition clear_table_row_cache :: "string \<Rightarrow> revision_store \<Rightarrow> revision_store" where
  "clear_table_row_cache table st =
     st\<lparr>row_cache := (\<lambda>k. if fst k = table then None else row_cache st k)\<rparr>"

definition cache_rowset_counter :: "string \<Rightarrow> u64 \<Rightarrow> revision_store \<Rightarrow> revision_store" where
  "cache_rowset_counter table c st = st\<lparr>rowset_cache := (rowset_cache st)(table \<mapsto> c)\<rparr>"

definition get_rowset_counter :: "string \<Rightarrow> revision_store \<Rightarrow> u64" where
  "get_rowset_counter table st = (case rowset_cache st table of None \<Rightarrow> 0 | Some c \<Rightarrow> c)"

definition get_row_digest :: "string \<Rightarrow> int \<Rightarrow> storage \<Rightarrow> db_error + storage \<times> string option" where
  "get_row_digest table rowid = (\<lambda>(conn, st).
     case rev_tables (db conn) (rev_table table) of
       None \<Rightarrow> Inl (NoSuchTable (rev_table table))
     | Some rows \<Rightarrow>
         (case rows rowid of
            Some bytes \<Rightarrow>
              (if length bytes = 32 then Inr ((conn, cache_row_digest table rowid bytes st), Some bytes)
               else Inr ((conn, uncache_row_digest table rowid st), None))
          | None \<Rightarrow> Inr ((conn, uncache_row_digest table rowid st), None)))"

definition write_rev :: "string \<Rightarrow> int \<Rightarrow> string option \<Rightarrow> storage \<Rightarrow> db_error + storage" where
  "write_rev t rowid v = (\<lambda>(conn, st).
     case rev_tables (db conn) t of
       None \<Rightarrow> Inl (NoSuchTable t)
     | Some rows \<Rightarrow>
         Inr (set_db ((db conn)\<lparr>rev_tables := (rev_tables (db conn))(t \<mapsto> rows(rowid := v))\<rparr>) conn, st))"

text \<open>
  The caches are interior state of the store and keep a change when the statement after it
  fails, so an error carries the storage as it is then.
\<close>

definition set_row_digest ::
  "string \<Rightarrow> int \<Rightarrow> string \<Rightarrow> storage \<Rightarrow> (db_error \<times> storage) + storage" where
  "set_row_digest table rowid d = (\<lambda>(conn, st).
     let s1 = (conn, cache_row_digest table rowid d st) in
     case write_rev (rev_table table) rowid (Some d) s1 of
       Inl e \<Rightarrow> Inl (e, s1) | Inr s2 \<Rightarrow> Inr s2)"

definition remove_row_digest :: "string \<Rightarrow> int \<Rightarrow> storage \<Rightarrow> (db_error \<times> storage) + storage" where
  "remove_row_digest table rowid = (\<lambda>(conn, st).
     let s1 = (conn, uncache_row_digest table rowid st) in
     case write_rev (rev_table table) rowid None s1 of
       Inl e \<Rightarrow> Inl (e, s1) | Inr s2 \<Rightarrow> Inr s2)"

text \<open>
  The table of counters is created with the store and never dropped, so reading it fails only
  when the database file does; such a failure is not modelled.
\<close>

definition get_rowset_counter_from_db :: "string \<Rightarrow> storage \<Rightarrow> storage \<times> u64" where
  "get_rowset_counter_from_db table = (\<lambda>(conn, st).
     let counter = of_int (case counters (db conn) table of None \<Rightarrow> 0 | Some c \<Rightarrow> c) in
     ((conn, cache_rowset_counter table counter st), counter))"

definition bump_rowset_counter :: "string \<Rightarrow> storage \<Rightarrow> storage \<times> u64" where
  "bump_rowset_counter table = (\<lambda>(conn, st).
     let c = (case counters (db conn) table of None \<Rightarrow> 1 | Some c \<Rightarrow> c + 1) in
     get_rowset_counter_from_db table
       (set_db ((db conn)\<lparr>counters := (counters (db conn))(table \<mapsto> c)\<rparr>) conn, st))"

section \<open>Backfilling\<close>

fun set_row_digests ::
  "string \<Rightarrow> (int \<rightharpoonup> string) \<Rightarrow> int list \<Rightarrow> storage \<Rightarrow> (db_error \<times> storage) + storage" where
  "set_row_digests table digests [] s = Inr s"
| "set_row_digests table digests (rowid # rowids) s =
     (case digests rowid of
        None \<Rightarrow> set_row_digests table digests rowids s
      | Some d \<Rightarrow> and_then (set_row_digest table rowid d s) (set_row_digests table digests rowids))"

text \<open>\<open>order\<close> is the iteration order of the hash map of the current digests.\<close>

definition backfill_row_digests_locked ::
  "sql_env \<Rightarrow> int list \<Rightarrow> string \<Rightarrow> storage \<Rightarrow> (db_error \<times> storage) + storage" where
  "backfill_row_digests_locked V order table = (\<lambda>(conn, st0).
     let st = clear_table_row_cache table st0; t = rev_table table in
     case data_tables (db conn) table of
       None \<Rightarrow> Inl (NoSuchTable table, (conn, st))
     | Some rows \<Rightarrow>
         (let current_digests = map_of (rev (map (\<lambda>(rowid, row).
                (rowid, compute_row_digest V (SqlInteger (of_int rowid) # row))) rows)) in
          case rev_tables (db conn) t of
            None \<Rightarrow> Inl (NoSuchTable t, (conn, st))
          | Some existing_digests \<Rightarrow>
              (let rowset_may_have_changed = (existing_digests \<noteq> current_digests);
                   cleared = set_db ((db conn)\<lparr>rev_tables := (rev_tables (db conn))(t \<mapsto> Map.empty)\<rparr>) conn in
               and_then (set_row_digests table current_digests order (cleared, st)) (\<lambda>s.
                 Inr (if rowset_may_have_changed then fst (bump_rowset_counter table s) else s)))))"

definition rollback :: "connection \<Rightarrow> connection" where
  "rollback conn = (case saved conn of None \<Rightarrow> conn | Some d \<Rightarrow> \<lparr>db = d, saved = None\<rparr>)"

definition backfill_row_digests ::
  "sql_env \<Rightarrow> int list \<Rightarrow> string \<Rightarrow> storage \<Rightarrow> (db_error \<times> storage) + storage" where
  "backfill_row_digests V order table = (\<lambda>(conn, st).
     if saved conn \<noteq> None then backfill_row_digests_locked V order table (conn, st)
     else if \<not> begin_ok V then Inl (DbBusy, (conn, st))
     else case backfill_row_digests_locked V order table (conn\<lparr>saved := Some (db conn)\<rparr>, st) of
         Inr (conn', st') \<Rightarrow>
           (if commit_ok V then Inr (conn'\<lparr>saved := None\<rparr>, st')
            else Inl (DbBusy, (rollback conn', clear_table_row_cache table st')))
       | Inl (err, (conn', st')) \<Rightarrow> Inl (err, (rollback conn', clear_table_row_cache table st')))"

section \<open>The store as a state provider\<close>

definition digest_revision :: "sql_env \<Rightarrow> string \<Rightarrow> revision" where
  "digest_revision V hash = Disk (hex V hash)"

definition counter_revision :: "u64 \<Rightarrow> revision" where
  "counter_revision counter = Counter counter"

definition row_cell_id :: "string \<Rightarrow> int \<Rightarrow> cell_id" where
  "row_cell_id table rowid = cell_new table (show_int rowid)"

definition table_membership_cell_id :: "string \<Rightarrow> cell_id" where
  "table_membership_cell_id table = cell_root table"

definition sqlite_get_revision :: "sql_env \<Rightarrow> storage provider" where
  "sqlite_get_revision V s c =
     (if pointer c = [] then
        (case get_rowset_counter_from_db (source_id c) s of (s', n) \<Rightarrow> Some (s', Some (Counter n)))
      else case parse_i64 (pointer c) of
          None \<Rightarrow> Some (s, None)
        | Some rowid \<Rightarrow>
            (case get_row_digest (source_id c) rowid s of
               Inl e \<Rightarrow> Some (s, None)
             | Inr (s', d) \<Rightarrow> Some (s', map_option (digest_revision V) d)))"

section \<open>Observation scopes\<close>

text \<open>
  The thread-local scope is passed through; the closure given to \<open>TraceScope::run\<close> is a
  function on it.
\<close>

type_synonym scope = "trace_entry list option"

definition scope_record :: "cell_id \<Rightarrow> revision \<Rightarrow> scope \<Rightarrow> scope" where
  "scope_record c r sc = map_option (bset_insert (TraceEntry c r)) sc"

definition is_active :: "scope \<Rightarrow> bool" where
  "is_active sc \<longleftrightarrow> sc \<noteq> None"

definition scope_run :: "(scope \<Rightarrow> scope \<times> 'r) \<Rightarrow> scope \<Rightarrow> scope \<times> 'r \<times> 'v trace" where
  "scope_run f previous =
     (case f (Some []) of
        (sc, result) \<Rightarrow>
          (previous, result, \<lparr>dependencies = (case sc of None \<Rightarrow> [] | Some entries \<Rightarrow> entries), resources = []\<rparr>))"

end
