(* ===== verification/Reactive_Table.thy ===== *)
theory Reactive_Table
  imports Revision_Store
begin

text \<open>
  The reactive virtual table, \<open>crates/exosuit-storage/src/vtab/reactive.rs\<close>: the module that
  wraps a shadow table \<open>*_data\<close>, records what a query observes and keeps the revisions of rows
  and row sets up to date with every write. SQLite itself is the parameter \<open>sql_engine\<close>: what
  it executes on a shadow table, constraints, conflict clauses and cascades included, is one of
  its fields; the statements on the revision tables are written out. A failing callback returns
  the storage as it is at that point; SQLite undoes the statement then.
\<close>

section \<open>SQLite\<close>

datatype conflict_mode = OnRollback | OnIgnore | OnFail | OnAbort | OnReplace

record column_info =
  ci_name :: "string option"
  ci_type :: "string option"
  ci_notnull :: int
  ci_default :: "string option"
  ci_pk :: int

text \<open>
  An insertion gives the number of changes and the last inserted rowid, an update and a
  deletion the number of changes.
\<close>

record sql_engine =
  table_info :: "string \<Rightarrow> column_info list"
  exec_insert :: "conflict_mode \<Rightarrow> string \<Rightarrow> (string \<times> sql_value) list \<Rightarrow> database \<Rightarrow> string + (nat \<times> int) \<times> database"
  exec_update :: "conflict_mode \<Rightarrow> string \<Rightarrow> (string \<times> sql_value) list \<Rightarrow> int \<Rightarrow> database \<Rightarrow> string + nat \<times> database"
  exec_delete :: "string \<Rightarrow> int \<Rightarrow> database \<Rightarrow> string + nat \<times> database"

datatype vtab_error = ModuleError string | SqliteFailure string

type_synonym 'a callback = "storage \<Rightarrow> (vtab_error \<times> storage) + 'a \<times> storage"

definition vreturn :: "'a \<Rightarrow> 'a callback" where
  "vreturn x s = Inr (x, s)"

definition vfail :: "vtab_error \<Rightarrow> 'a callback" where
  "vfail e s = Inl (e, s)"

definition vbind :: "'a callback \<Rightarrow> ('a \<Rightarrow> 'b callback) \<Rightarrow> 'b callback" where
  "vbind m f s = (case m s of Inl e \<Rightarrow> Inl e | Inr (x, s') \<Rightarrow> f x s')"

definition statement :: "(database \<Rightarrow> string + 'a \<times> database) \<Rightarrow> 'a callback" where
  "statement f = (\<lambda>(conn, st). case f (db conn) of
      Inl e \<Rightarrow> Inl (ModuleError e, (conn, st))
    | Inr (x, d) \<Rightarrow> Inr (x, (set_db d conn, st)))"

definition on_store :: "(revision_store \<Rightarrow> revision_store) \<Rightarrow> unit callback" where
  "on_store f = (\<lambda>(conn, st). Inr ((), (conn, f st)))"

definition no_such_table :: "string \<Rightarrow> string" where
  "no_such_table t = ''Failed to prepare statement: no such table: '' @ t"

definition quoted :: "string \<Rightarrow> string" where
  "quoted s = CHR 0x27 # s @ [CHR 0x27]"

section \<open>Statements on the revision tables\<close>

text \<open>\<open>REACTIVE_TABLES\<close> of \<open>schema.rs\<close>.\<close>

definition reactive_tables :: "(string \<times> string) list" where
  "reactive_tables = map (\<lambda>t. (t, t @ ''_data''))
     [''epochs'', ''phases'', ''goals'', ''tasks'', ''phase_rfcs'', ''ideas'', ''inbox'', ''rfcs'',
      ''rfc_workspace_snapshots'', ''rfc_workspace_observations'', ''rfc_workspace_diagnostics'',
      ''workspace_active_phase'', ''phase_ownership'', ''workbench_lanes'', ''workspace_lane_focus'']"

definition update_rev :: "string \<Rightarrow> ((int \<rightharpoonup> string) \<Rightarrow> 'a \<times> (int \<rightharpoonup> string)) \<Rightarrow> database \<Rightarrow> string + 'a \<times> database" where
  "update_rev t f d = (case rev_tables d t of
       None \<Rightarrow> Inl (no_such_table t)
     | Some r \<Rightarrow> (case f r of (x, r') \<Rightarrow> Inr (x, d\<lparr>rev_tables := (rev_tables d)(t \<mapsto> r')\<rparr>)))"

definition table_row_count :: "string \<Rightarrow> database \<Rightarrow> string + nat \<times> database" where
  "table_row_count table d = (case data_tables d table of
       None \<Rightarrow> Inl (no_such_table table)
     | Some rows \<Rightarrow> Inr (length rows, d))"

fun row_counts_of :: "string list \<Rightarrow> (string \<times> nat) list callback" where
  "row_counts_of [] = vreturn []"
| "row_counts_of (t # ts) =
     vbind (statement (table_row_count t)) (\<lambda>n. vbind (row_counts_of ts) (\<lambda>cs. vreturn ((t, n) # cs)))"

definition row_counts :: "(string \<times> nat) list callback" where
  "row_counts = row_counts_of (map snd reactive_tables)"

definition rowset_counter_raw :: "string \<Rightarrow> database \<Rightarrow> u64" where
  "rowset_counter_raw table d = (case counters d table of Some counter \<Rightarrow> of_int counter | None \<Rightarrow> 0)"

definition clear_row_revision :: "string \<Rightarrow> int \<Rightarrow> unit callback" where
  "clear_row_revision table rowid =
     vbind (statement (update_rev (rev_table table) (\<lambda>r. ((), r(rowid := None)))))
       (\<lambda>_. on_store (uncache_row_digest table rowid))"

definition row_with_id :: "int \<Rightarrow> (int \<times> sql_value list) list \<Rightarrow> sql_value list option" where
  "row_with_id rowid rows = map_option (Cons (SqlInteger (of_int rowid))) (map_of rows rowid)"

definition refresh_row_revision :: "sql_env \<Rightarrow> string \<Rightarrow> int \<Rightarrow> unit callback" where
  "refresh_row_revision V table rowid s =
     (case data_tables (db (fst s)) table of
        None \<Rightarrow> vfail (ModuleError (no_such_table table)) s
      | Some rows \<Rightarrow>
          (case row_with_id rowid rows of
             None \<Rightarrow> clear_row_revision table rowid s
           | Some row \<Rightarrow>
               (let digest = compute_row_digest V row in
                vbind (statement (update_rev (rev_table table) (\<lambda>r. ((), r(rowid \<mapsto> digest)))))
                  (\<lambda>_. on_store (cache_row_digest table rowid digest)) s)))"

definition clear_stale_row_revisions :: "string \<Rightarrow> nat callback" where
  "clear_stale_row_revisions table s =
     (case data_tables (db (fst s)) table of
        None \<Rightarrow> vfail (ModuleError (no_such_table table)) s
      | Some rows \<Rightarrow>
          vbind (statement (update_rev (rev_table table) (\<lambda>r. (card (dom r - fst ` set rows), r |` (fst ` set rows)))))
            (\<lambda>removed. vbind (on_store (if 0 < removed then clear_table_row_cache table else id))
              (\<lambda>_. vreturn removed)) s)"

definition bump_rowset_revision_for :: "string \<Rightarrow> unit callback" where
  "bump_rowset_revision_for table = (\<lambda>(conn, st).
     let changed = (counters (db conn) table \<noteq> None);
         c = (if changed then the (counters (db conn) table) + 1 else 1);
         d = (db conn)\<lparr>counters := (counters (db conn))(table \<mapsto> c)\<rparr>
     in Inr ((), (set_db d conn, cache_rowset_counter table (rowset_counter_raw table d) st)))"

section \<open>The table\<close>

record reactive_vtab =
  vt_name :: string
  shadow_table :: string
  vt_columns :: "string list"
  column_defaults :: "string option list"
  rowid_column_index :: "nat option"

definition quote_identifier :: "string \<Rightarrow> string" where
  "quote_identifier s = CHR 0x22 # concat (map (\<lambda>c. if c = CHR 0x22 then [c, c] else [c]) s) @ [CHR 0x22]"

definition vtab_default_sql :: "string \<Rightarrow> string" where
  "vtab_default_sql s =
     (let t = trim s in
      if CHR ''('' \<in> set t \<and> \<not> starts_with t ''('' then ''('' @ t @ '')'' else t)"

definition text_or_empty :: "string option \<Rightarrow> string" where
  "text_or_empty s = (case s of None \<Rightarrow> [] | Some t \<Rightarrow> t)"

definition is_rowid_column :: "column_info \<Rightarrow> bool" where
  "is_rowid_column ci \<longleftrightarrow> 0 < ci_pk ci \<and> eq_ignore_ascii_case (text_or_empty (ci_type ci)) ''INTEGER''"

definition schema_part :: "column_info \<Rightarrow> string" where
  "schema_part ci =
     quote_identifier (text_or_empty (ci_name ci)) @ '' '' @ text_or_empty (ci_type ci)
     @ (if 0 < ci_pk ci then '' PRIMARY KEY'' else '''')
     @ (if ci_notnull ci \<noteq> 0 then '' NOT NULL'' else '''')
     @ (case ci_default ci of None \<Rightarrow> '''' | Some d \<Rightarrow> '' DEFAULT '' @ vtab_default_sql d)"

fun last_rowid_column :: "nat \<Rightarrow> column_info list \<Rightarrow> nat option \<Rightarrow> nat option" where
  "last_rowid_column n [] acc = acc"
| "last_rowid_column n (ci # cis) acc =
     last_rowid_column (n + 1) cis (if is_rowid_column ci then Some n else acc)"

text \<open>The arguments are the module, the database, the table and its shadow table.\<close>

definition connect :: "sql_engine \<Rightarrow> string list \<Rightarrow> vtab_error + string \<times> reactive_vtab" where
  "connect E argv =
     (if length argv < 4 then Inl (ModuleError ''Usage: CREATE VIRTUAL TABLE t USING reactive(shadow_table)'')
      else (let info = table_info E (argv ! 3) in
        if info = [] then Inl (ModuleError (''Shadow table '' @ quoted (argv ! 3) @ '' not found or has no columns''))
        else Inr (''CREATE TABLE x('' @ join_with '', '' (map schema_part info) @ '')'',
          \<lparr>vt_name = argv ! 2, shadow_table = argv ! 3,
           vt_columns = map (text_or_empty \<circ> ci_name) info, column_defaults = map ci_default info,
           rowid_column_index = last_rowid_column 0 info None\<rparr>)))"

section \<open>Writing\<close>

definition refresh_cascaded_step :: "reactive_vtab \<Rightarrow> (string \<times> nat) list \<Rightarrow> string \<Rightarrow> unit callback" where
  "refresh_cascaded_step v before table =
     (if table = shadow_table v then vreturn ()
      else vbind (statement (table_row_count table)) (\<lambda>after_count.
        (let before_count = (case map_of before table of None \<Rightarrow> 0 | Some n \<Rightarrow> n) in
         if before_count \<noteq> after_count
         then vbind (clear_stale_row_revisions table) (\<lambda>_. bump_rowset_revision_for table)
         else vreturn ())))"

fun each_table :: "(string \<Rightarrow> unit callback) \<Rightarrow> string list \<Rightarrow> unit callback" where
  "each_table f [] = vreturn ()"
| "each_table f (t # ts) = vbind (f t) (\<lambda>_. each_table f ts)"

definition refresh_cascaded_revision_metadata :: "reactive_vtab \<Rightarrow> (string \<times> nat) list \<Rightarrow> unit callback" where
  "refresh_cascaded_revision_metadata v before =
     each_table (refresh_cascaded_step v before) (map snd reactive_tables)"

definition counts_if :: "bool \<Rightarrow> (string \<times> nat) list option callback" where
  "counts_if replace_mode = (if replace_mode then vbind row_counts (\<lambda>cs. vreturn (Some cs)) else vreturn None)"

text \<open>What follows the statement that wrote the row: its revision, cascades, the row set.\<close>

definition settle_write :: "sql_env \<Rightarrow> reactive_vtab \<Rightarrow> (string \<times> nat) list option \<Rightarrow> int \<Rightarrow> unit callback" where
  "settle_write V v before rowid =
     vbind (case before of
         Some counts \<Rightarrow>
           vbind (refresh_row_revision V (shadow_table v) rowid) (\<lambda>_.
           vbind (clear_stale_row_revisions (shadow_table v)) (\<lambda>_.
             refresh_cascaded_revision_metadata v counts))
       | None \<Rightarrow> refresh_row_revision V (shadow_table v) rowid)
     (\<lambda>_. bump_rowset_revision_for (shadow_table v))"

definition rowid_request_error :: "reactive_vtab \<Rightarrow> int option \<Rightarrow> sql_value list \<Rightarrow> vtab_error option" where
  "rowid_request_error v requested values =
     (case requested of
        None \<Rightarrow> None
      | Some r \<Rightarrow>
          (case Option.bind (rowid_column_index v) (\<lambda>k. if k < length values then Some (values ! k) else None) of
             Some (SqlInteger c) \<Rightarrow>
               (if sint c = r then None
                else Some (ModuleError (''Reactive virtual table '' @ quoted (vt_name v) @ '' received conflicting rowid values'')))
           | Some SqlNull \<Rightarrow>
               Some (ModuleError (''Reactive virtual table '' @ quoted (vt_name v) @ '' does not support rowid-only inserts''))
           | None \<Rightarrow>
               Some (ModuleError (''Reactive virtual table '' @ quoted (vt_name v) @ '' does not support rowid-only inserts''))
           | Some _ \<Rightarrow>
               Some (ModuleError (''Reactive virtual table '' @ quoted (vt_name v) @ '' received a non-integer rowid value''))))"

definition included_columns :: "reactive_vtab \<Rightarrow> sql_value list \<Rightarrow> bool list \<Rightarrow> (string \<times> sql_value) list" where
  "included_columns v values explicit_nulls =
     map (fst \<circ> fst) (filter (\<lambda>(((column, val), explicit_null), dflt). val \<noteq> SqlNull \<or> explicit_null \<or> dflt = None)
       (zip (zip (zip (vt_columns v) values) explicit_nulls) (column_defaults v)))"

definition ignored_insert_error :: "string \<Rightarrow> vtab_error" where
  "ignored_insert_error name = SqliteFailure (''Reactive virtual table '' @ quoted name @ '' ignored insert due to conflict'')"

definition insert_row ::
  "sql_env \<Rightarrow> sql_engine \<Rightarrow> reactive_vtab \<Rightarrow> int option \<Rightarrow> sql_value list \<Rightarrow> bool list \<Rightarrow> conflict_mode \<Rightarrow> int callback" where
  "insert_row V E v requested values explicit_nulls mode =
     (case rowid_request_error v requested values of
        Some e \<Rightarrow> vfail e
      | None \<Rightarrow>
          vbind (counts_if (mode = OnReplace)) (\<lambda>before.
          vbind (statement (exec_insert E mode (shadow_table v) (included_columns v values explicit_nulls))) (\<lambda>(changed, rowid).
            if changed = 0 then vfail (ignored_insert_error (vt_name v))
            else vbind (settle_write V v before rowid) (\<lambda>_. vreturn rowid))))"

definition changed_columns :: "reactive_vtab \<Rightarrow> sql_value list \<Rightarrow> bool list \<Rightarrow> (string \<times> sql_value) list" where
  "changed_columns v values no_change =
     map fst (filter (\<lambda>(_, unchanged). \<not> unchanged) (zip (zip (vt_columns v) values) no_change))"

definition update_row ::
  "sql_env \<Rightarrow> sql_engine \<Rightarrow> reactive_vtab \<Rightarrow> int \<Rightarrow> sql_value list \<Rightarrow> bool list \<Rightarrow> conflict_mode \<Rightarrow> unit callback" where
  "update_row V E v old_rowid values no_change mode =
     (if length values \<noteq> length no_change then
        vfail (ModuleError (''Mismatched update values for '' @ quoted (vt_name v) @ '': '' @ show_nat (length values) @
          '' values, '' @ show_nat (length no_change) @ '' no-change markers''))
      else if changed_columns v values no_change = [] then vreturn ()
      else vbind (counts_if (mode = OnReplace)) (\<lambda>before.
        vbind (statement (exec_update E mode (shadow_table v) (changed_columns v values no_change) old_rowid)) (\<lambda>changed.
          if changed = 0 then vreturn () else settle_write V v before old_rowid)))"

definition delete_row :: "sql_engine \<Rightarrow> reactive_vtab \<Rightarrow> int \<Rightarrow> unit callback" where
  "delete_row E v rowid =
     vbind row_counts (\<lambda>before.
     vbind (statement (exec_delete E (shadow_table v) rowid)) (\<lambda>changed.
       if changed = 0 then vreturn ()
       else vbind (clear_row_revision (shadow_table v) rowid) (\<lambda>_.
            vbind (bump_rowset_revision_for (shadow_table v)) (\<lambda>_.
              refresh_cascaded_revision_metadata v before))))"

section \<open>The update callbacks\<close>

record xarg =
  arg_value :: sql_value
  from_bind :: bool
  arg_no_change :: bool

definition column_values :: "reactive_vtab \<Rightarrow> xarg list \<Rightarrow> vtab_error + sql_value list" where
  "column_values v argv =
     (let expected = length (vt_columns v) + 2 in
      if length argv \<noteq> expected then
        Inl (ModuleError (''Expected '' @ show_nat expected @ '' xUpdate arguments for '' @ quoted (vt_name v) @ '', got '' @
          show_nat (length argv)))
      else Inr (map (\<lambda>idx. arg_value (argv ! (idx + 2))) [0..<length (vt_columns v)]))"

definition explicit_bound_null_columns :: "xarg list \<Rightarrow> nat \<Rightarrow> bool list" where
  "explicit_bound_null_columns argv n =
     map (\<lambda>idx. arg_value (argv ! (idx + 2)) = SqlNull \<and> from_bind (argv ! (idx + 2))) [0..<n]"

definition update_no_change_columns :: "xarg list \<Rightarrow> nat \<Rightarrow> bool list" where
  "update_no_change_columns argv n = map (\<lambda>idx. arg_no_change (argv ! (idx + 2))) [0..<n]"

definition vtab_delete :: "sql_engine \<Rightarrow> reactive_vtab \<Rightarrow> sql_value \<Rightarrow> unit callback" where
  "vtab_delete E v arg =
     (case arg of
        SqlInteger w \<Rightarrow> delete_row E v (sint w)
      | _ \<Rightarrow> vfail (ModuleError ''Invalid delete rowid: Invalid type''))"

definition vtab_insert :: "sql_env \<Rightarrow> sql_engine \<Rightarrow> reactive_vtab \<Rightarrow> xarg list \<Rightarrow> conflict_mode \<Rightarrow> int callback" where
  "vtab_insert V E v argv mode =
     (case column_values v argv of
        Inl e \<Rightarrow> vfail e
      | Inr values \<Rightarrow>
          (let nulls = explicit_bound_null_columns argv (length (vt_columns v)) in
           case arg_value (argv ! 1) of
             SqlInteger w \<Rightarrow> insert_row V E v (Some (sint w)) values nulls mode
           | SqlNull \<Rightarrow> insert_row V E v None values nulls mode
           | _ \<Rightarrow> vfail (ModuleError ''Invalid insert rowid argument'')))"

definition rowid_update_error :: "reactive_vtab \<Rightarrow> vtab_error" where
  "rowid_update_error v = ModuleError (''Reactive virtual table '' @ quoted (vt_name v) @ '' does not support rowid updates'')"

definition new_rowid :: "int \<Rightarrow> sql_value \<Rightarrow> int option" where
  "new_rowid old a = (case a of SqlInteger w \<Rightarrow> Some (sint w) | SqlNull \<Rightarrow> Some old | _ \<Rightarrow> None)"

definition rowid_changed :: "reactive_vtab \<Rightarrow> int \<Rightarrow> sql_value list \<Rightarrow> bool list \<Rightarrow> bool" where
  "rowid_changed v old_rowid values no_change =
     (case rowid_column_index v of
        None \<Rightarrow> False
      | Some k \<Rightarrow> \<not> no_change ! k \<and> k < length values \<and> values ! k \<noteq> SqlInteger (of_int old_rowid))"

definition vtab_update :: "sql_env \<Rightarrow> sql_engine \<Rightarrow> reactive_vtab \<Rightarrow> xarg list \<Rightarrow> conflict_mode \<Rightarrow> unit callback" where
  "vtab_update V E v argv mode =
     (case arg_value (argv ! 0) of
        SqlInteger w \<Rightarrow>
          (let old_rowid = sint w in
           case new_rowid old_rowid (arg_value (argv ! 1)) of
             None \<Rightarrow> vfail (ModuleError ''Invalid update rowid'')
           | Some r \<Rightarrow>
               (if r \<noteq> old_rowid then vfail (rowid_update_error v)
                else case column_values v argv of
                    Inl e \<Rightarrow> vfail e
                  | Inr values \<Rightarrow>
                      (let no_change = update_no_change_columns argv (length (vt_columns v)) in
                       if rowid_changed v old_rowid values no_change then vfail (rowid_update_error v)
                       else update_row V E v old_rowid values no_change mode)))
      | _ \<Rightarrow> vfail (ModuleError ''Invalid update rowid''))"

section \<open>Reading\<close>

record cursor =
  current_row :: "sql_value list option"
  cursor_rows :: "sql_value list list"
  position :: nat

definition cursor_new :: cursor where
  "cursor_new = \<lparr>current_row = None, cursor_rows = [], position = 0\<rparr>"

text \<open>\<open>SELECT rowid, *\<close> on the shadow table.\<close>

definition fetch_rows :: "reactive_vtab \<Rightarrow> database \<Rightarrow> vtab_error + cursor" where
  "fetch_rows v d =
     (case data_tables d (shadow_table v) of
        None \<Rightarrow> Inl (ModuleError (no_such_table (shadow_table v)))
      | Some rows \<Rightarrow>
          (let rs = map (\<lambda>(rowid, row). SqlInteger (of_int rowid) # row) rows in
           Inr \<lparr>current_row = (if rs = [] then None else Some (hd rs)), cursor_rows = rs, position = 0\<rparr>))"

definition cursor_filter ::
  "reactive_vtab \<Rightarrow> storage \<times> scope \<times> cursor \<Rightarrow> storage \<times> scope \<times> (vtab_error + cursor)" where
  "cursor_filter v = (\<lambda>((conn, st), sc, cur).
     let counter = rowset_counter_raw (shadow_table v) (db conn);
         st' = cache_rowset_counter (shadow_table v) counter st;
         sc' = scope_record (table_membership_cell_id (shadow_table v)) (counter_revision counter) sc
     in ((conn, st'), sc', fetch_rows v (db conn)))"

definition cursor_next :: "cursor \<Rightarrow> cursor" where
  "cursor_next cur =
     (let p = position cur + 1 in
      cur\<lparr>position := p, current_row := (if p < length (cursor_rows cur) then Some (cursor_rows cur ! p) else None)\<rparr>)"

definition cursor_eof :: "cursor \<Rightarrow> bool" where
  "cursor_eof cur \<longleftrightarrow> length (cursor_rows cur) \<le> position cur"

definition cursor_rowid :: "cursor \<Rightarrow> int" where
  "cursor_rowid cur = (case current_row cur of Some (SqlInteger w # _) \<Rightarrow> sint w | _ \<Rightarrow> 0)"

definition cursor_column ::
  "sql_env \<Rightarrow> reactive_vtab \<Rightarrow> bool \<Rightarrow> nat \<Rightarrow> cursor \<Rightarrow> scope \<Rightarrow> scope \<times> sql_value option" where
  "cursor_column V v no_change col cur sc =
     (if no_change then (sc, None)
      else case current_row cur of
          None \<Rightarrow> (sc, None)
        | Some row \<Rightarrow>
            (scope_record (row_cell_id (shadow_table v) (cursor_rowid cur)) (digest_revision V (compute_row_digest V row)) sc,
             if col + 1 < length row then Some (row ! (col + 1)) else None))"

end
