(* ===== verification/Revision_Store_Facts.thy ===== *)
theory Revision_Store_Facts
  imports Revision_Store
begin

text \<open>
  The revision store: the row encoding is injective, backfilling restores the digests of the
  data in one transaction, and the store is a state provider whose answers come from the
  database alone, whatever its caches hold.
\<close>

section \<open>The row encoding is injective\<close>

lemma bit_of_byte: "j < 8 \<Longrightarrow> bit (unat (drop_bit (8 * i) (w::u64)) mod 256) j = bit w (8 * i + j)"
proof -
  assume j: "j < 8"
  have "unat (drop_bit (8 * i) w) mod 256 = take_bit 8 (unat (drop_bit (8 * i) w))"
    by (simp add: take_bit_eq_mod)
  with j show ?thesis by (simp add: bit_take_bit_iff bit_unsigned_iff bit_drop_bit_eq)
qed

lemma le_bytes64_inj [simp]: "le_bytes64 a = le_bytes64 b \<longleftrightarrow> a = b"
proof
  assume eq: "le_bytes64 a = le_bytes64 b"
  have bytes: "unat (drop_bit (8 * i) a) mod 256 = unat (drop_bit (8 * i) b) mod 256" if "i < 8" for i
  proof -
    have "le_bytes64 a ! i = le_bytes64 b ! i" using eq by simp
    with that have "char_of (unat (drop_bit (8 * i) a) mod 256) = char_of (unat (drop_bit (8 * i) b) mod 256)"
      by (simp add: le_bytes64_def del: char_of_mod_256)
    then show ?thesis by simp
  qed
  show "a = b"
  proof (rule bit_word_eqI)
    fix n
    assume "n < LENGTH(64)"
    then have n: "n div 8 < 8" by simp
    from bytes [OF n] have "bit (unat (drop_bit (8 * (n div 8)) a) mod 256) (n mod 8) =
        bit (unat (drop_bit (8 * (n div 8)) b) mod 256) (n mod 8)" by simp
    then show "bit a n \<longleftrightarrow> bit b n" by (simp add: bit_of_byte)
  qed
qed simp

definition value_ok :: "sql_value \<Rightarrow> bool" where
  "value_ok v \<longleftrightarrow> (case v of SqlText s \<Rightarrow> length s < 2 ^ 64 | SqlBlob s \<Rightarrow> length s < 2 ^ 64 | _ \<Rightarrow> True)"

lemma le_bytes64_append: "le_bytes64 a @ r = le_bytes64 b @ s \<longleftrightarrow> a = b \<and> r = s"
  by (simp add: append_eq_append_conv)

lemma variable_append:
  assumes "length a < 2 ^ 64" and "length b < 2 ^ 64"
  shows "hash_variable_bytes a @ r = hash_variable_bytes b @ s \<longleftrightarrow> a = b \<and> r = s"
proof
  assume "hash_variable_bytes a @ r = hash_variable_bytes b @ s"
  then have w: "(of_nat (length a) :: u64) = of_nat (length b)" and rest: "a @ r = b @ s"
    by (simp_all add: hash_variable_bytes_def le_bytes64_append)
  have "unat (of_nat (length a) :: u64) = length a" "unat (of_nat (length b) :: u64) = length b"
    using assms by (simp_all add: unat_of_nat)
  with w have "length a = length b" by metis
  with rest show "a = b \<and> r = s" by simp
qed simp

lemma value_bytes_append:
  "value_ok v \<Longrightarrow> value_ok w \<Longrightarrow> value_bytes v @ r = value_bytes w @ s \<longleftrightarrow> v = w \<and> r = s"
  by (cases v; cases w) (auto simp: value_ok_def le_bytes64_append variable_append)

lemma value_bytes_nonempty: "value_bytes v \<noteq> []"
  by (cases v) simp_all

text \<open>
  Two rows are hashed over the same bytes only if they are equal: type tags and the
  length prefixes of texts and blobs leave no room for confusion, in any combination of
  columns.
\<close>

theorem row_encoding_injective:
  "list_all value_ok xs \<Longrightarrow> list_all value_ok ys \<Longrightarrow>
     concat (map value_bytes xs) = concat (map value_bytes ys) \<longleftrightarrow> xs = ys"
proof (induction xs arbitrary: ys)
  case Nil
  then show ?case by (cases ys) (auto simp: value_bytes_nonempty)
next
  case (Cons x xs)
  show ?case
  proof (cases ys)
    case Nil
    then show ?thesis by (simp add: value_bytes_nonempty)
  next
    case (Cons y ys')
    with \<open>list_all value_ok (x # xs)\<close> \<open>list_all value_ok ys\<close> Cons.IH [of ys'] show ?thesis
      by (simp add: value_bytes_append)
  qed
qed

theorem row_encoding_injective_witness:
  "concat (map value_bytes [SqlText ''a'', SqlText ''bc'']) \<noteq> concat (map value_bytes [SqlText ''ab'', SqlText ''c''])"
  using row_encoding_injective [of "[SqlText ''a'', SqlText ''bc'']" "[SqlText ''ab'', SqlText ''c'']"]
  by (simp add: value_ok_def)

section \<open>The store answers from the database\<close>

definition db_revision :: "sql_env \<Rightarrow> database \<Rightarrow> cell_id \<Rightarrow> revision option" where
  "db_revision V d c =
     (if pointer c = [] then Some (Counter (of_int (case counters d (source_id c) of None \<Rightarrow> 0 | Some n \<Rightarrow> n)))
      else Option.bind (parse_i64 (pointer c)) (\<lambda>rowid.
        Option.bind (rev_tables d (rev_table (source_id c))) (\<lambda>rows.
          Option.bind (rows rowid) (\<lambda>bytes.
            if length bytes = 32 then Some (digest_revision V bytes) else None))))"

lemma sqlite_get_revision_eq:
  "\<exists>st'. sqlite_get_revision V (conn, st) c = Some ((conn, st'), db_revision V (db conn) c)"
  by (auto simp: sqlite_get_revision_def get_rowset_counter_from_db_def get_row_digest_def db_revision_def
      Let_def split: option.splits)

interpretation sqlite: state_provider "sqlite_get_revision V"
    "\<lambda>s. db_revision V (db (fst s))" "\<lambda>s c. True" for V
proof
  fix s s' :: storage and c r
  assume "sqlite_get_revision V s c = Some (s', r)"
  moreover obtain conn st where "s = (conn, st)" by (cases s)
  ultimately show "r = db_revision V (db (fst s)) c"
    and "db_revision V (db (fst s')) = db_revision V (db (fst s)) \<and> (\<lambda>c. True) = (\<lambda>c. True)"
    using sqlite_get_revision_eq [of V conn st c] by auto
next
  fix s :: storage and c
  show "sqlite_get_revision V s c \<noteq> None"
    using sqlite_get_revision_eq [of V "fst s" "snd s" c] by auto
qed

lemma sqlite_validate_eq:
  "\<exists>st'. validate (sqlite_get_revision V) t (conn, st) =
     Some ((conn, st'), \<forall>e \<in> set (dependencies t). db_revision V (db conn) (entry_cell e) = Some (entry_revision e))"
proof -
  obtain s' where s': "validate (sqlite_get_revision V) t (conn, st) =
      Some (s', \<forall>e \<in> set (dependencies t). db_revision V (db (fst (conn, st))) (entry_cell e) = Some (entry_revision e))"
    using sqlite.validate_correct [where st = "(conn, st)" and t = t and V = V] by auto
  have "fst s' = fst (conn, st)"
    by (rule validate_preserves [where f = fst, OF s'])
      (use sqlite_get_revision_eq in \<open>metis Pair_inject fst_conv option.inject prod.exhaust_sel\<close>)
  with s' show ?thesis by (cases s') auto
qed

text \<open>
  C31. Validating a trace against SQLite always returns, leaves the connection as it is and
  accepts exactly if every entry equals the revision persisted in the database: the caches of
  the store, which may be left over from a transaction that was rolled back or from before
  another process wrote, never decide.
\<close>

theorem sqlite_validation_exact:
  "\<exists>st'. validate (sqlite_get_revision V) t (conn, st) =
     Some ((conn, st'), \<forall>e \<in> set (dependencies t). db_revision V (db conn) (entry_cell e) = Some (entry_revision e))"
  by (rule sqlite_validate_eq)

theorem sqlite_validation_exact_witness:
  "\<exists>st'. validate (sqlite_get_revision \<lparr>blake3 = id, hex = id, begin_ok = True, commit_ok = True\<rparr>)
      (trace_record (table_membership_cell_id ''goals_data'') (Counter 3) trace_new :: unit trace)
      (\<lparr>db = \<lparr>data_tables = Map.empty, rev_tables = Map.empty, counters = [''goals_data'' \<mapsto> 3]\<rparr>, saved = None\<rparr>,
       \<lparr>row_cache = Map.empty, rowset_cache = [''goals_data'' \<mapsto> 7]\<rparr>) =
    Some ((\<lparr>db = \<lparr>data_tables = Map.empty, rev_tables = Map.empty, counters = [''goals_data'' \<mapsto> 3]\<rparr>,
      saved = None\<rparr>, st'), True)"
  using sqlite_validation_exact [of "\<lparr>blake3 = id, hex = id, begin_ok = True, commit_ok = True\<rparr>"
      "trace_record (table_membership_cell_id ''goals_data'') (Counter 3) trace_new :: unit trace"
      "\<lparr>db = \<lparr>data_tables = Map.empty, rev_tables = Map.empty, counters = [''goals_data'' \<mapsto> 3]\<rparr>, saved = None\<rparr>"
      "\<lparr>row_cache = Map.empty, rowset_cache = [''goals_data'' \<mapsto> 7]\<rparr>"]
  by (simp add: db_revision_def table_membership_cell_id_def trace_new_def)

section \<open>Rows observed and written\<close>

lemma row_cell_pointer [simp]:
  "pointer (row_cell_id table rowid) = show_int rowid" "source_id (row_cell_id table rowid) = table"
  by (simp_all add: row_cell_id_def cell_new_def)

lemma show_int_nonempty [simp]: "show_int i \<noteq> []"
  using show_nat_digits [of "nat i"] show_nat_digits [of "nat (- i)"] by (simp add: show_int_def)

lemma db_revision_row:
  assumes "- (2 ^ 63) \<le> rowid" "rowid \<le> 2 ^ 63 - 1" and "rev_tables d (rev_table table) = Some rows"
    and "rows rowid = Some b" and "length b = 32"
  shows "db_revision V d (row_cell_id table rowid) = Some (digest_revision V b)"
  using assms by (simp add: db_revision_def parse_show_int)

text \<open>
  An observation of a row holds exactly as long as the row's digest does: after a digest
  is stored for a row, a trace that recorded a digest for this row is accepted if and only if
  the two digests are the same, whatever the tables and caches held before.
\<close>

theorem row_observation_tracks_digest:
  assumes "- (2 ^ 63) \<le> rowid" "rowid \<le> 2 ^ 63 - 1" and "rev_tables (db conn) (rev_table table) \<noteq> None"
    and "length d1 = 32" "length d2 = 32" and "inj (hex V)"
  shows "\<exists>s1 s2. set_row_digest table rowid d2 (conn, st) = Inr s1
     \<and> validate (sqlite_get_revision V)
         (trace_record (row_cell_id table rowid) (digest_revision V d1) trace_new :: 'v trace) s1 =
       Some (s2, d1 = d2)"
proof -
  from assms(3) obtain rows where rows: "rev_tables (db conn) (rev_table table) = Some rows" by blast
  let ?conn = "set_db ((db conn)\<lparr>rev_tables := (rev_tables (db conn))(rev_table table \<mapsto> rows(rowid \<mapsto> d2))\<rparr>) conn"
  let ?st = "cache_row_digest table rowid d2 st"
  let ?t = "trace_record (row_cell_id table rowid) (digest_revision V d1) trace_new :: 'v trace"
  have "set_row_digest table rowid d2 (conn, st) = Inr (?conn, ?st)"
    using rows by (simp add: set_row_digest_def write_rev_def Let_def)
  moreover have "db_revision V (db ?conn) (row_cell_id table rowid) = Some (digest_revision V d2)"
    by (rule db_revision_row [where rows = "rows(rowid \<mapsto> d2)"]) (use assms in \<open>simp_all add: set_db_def\<close>)
  then have "(\<forall>e \<in> set (dependencies ?t). db_revision V (db ?conn) (entry_cell e) = Some (entry_revision e))
      \<longleftrightarrow> d1 = d2"
    using assms(6) by (auto simp: trace_new_def digest_revision_def dest: injD)
  ultimately show ?thesis using sqlite_validate_eq [of V ?t ?conn ?st] by auto
qed

definition bytes32 :: "nat \<Rightarrow> string" where
  "bytes32 n = replicate 32 (char_of n)"

definition toy_sql :: sql_env where
  "toy_sql = \<lparr>blake3 = (\<lambda>s. take 32 (rev s @ bytes32 0)), hex = id, begin_ok = True, commit_ok = True\<rparr>"

definition toy_conn :: connection where
  "toy_conn = \<lparr>db = \<lparr>data_tables = [''goals_data'' \<mapsto> [(1, [SqlText ''t''])]],
     rev_tables = [''goals_rev'' \<mapsto> Map.empty], counters = [''goals_data'' \<mapsto> 4]\<rparr>, saved = None\<rparr>"

lemma rev_goals [simp]: "rev_table ''goals_data'' = ''goals_rev''"
  by (simp add: rev_table_def replace_all.simps)

theorem row_observation_tracks_digest_witness:
  "\<exists>s1 s2. set_row_digest ''goals_data'' 1 (bytes32 7) (toy_conn, store_new toy_conn) = Inr s1
     \<and> validate (sqlite_get_revision toy_sql)
         (trace_record (row_cell_id ''goals_data'' 1) (digest_revision toy_sql (bytes32 8)) trace_new :: unit trace) s1 =
       Some (s2, False)"
  using row_observation_tracks_digest [of 1 toy_conn "''goals_data''" "bytes32 8" "bytes32 7" toy_sql
      "store_new toy_conn"]
  by (simp add: toy_conn_def toy_sql_def bytes32_def)

section \<open>Backfilling\<close>

lemma set_row_digests_eq:
  "rev_tables (db conn) (rev_table table) = Some rows \<Longrightarrow>
   \<exists>st'. set_row_digests table ds order (conn, st) =
     Inr (set_db ((db conn)\<lparr>rev_tables := (rev_tables (db conn))(rev_table table \<mapsto>
        (\<lambda>r. if r \<in> set order \<and> ds r \<noteq> None then ds r else rows r))\<rparr>) conn, st')"
proof (induction order arbitrary: conn st rows)
  case Nil
  then show ?case by (simp add: set_db_def fun_upd_idem)
next
  case (Cons r order)
  show ?case
  proof (cases "ds r")
    case None
    then have "(\<lambda>q. if q \<in> set (r # order) \<and> ds q \<noteq> None then ds q else rows q) =
        (\<lambda>q. if q \<in> set order \<and> ds q \<noteq> None then ds q else rows q)"
      by (auto simp: fun_eq_iff)
    with Cons.IH [OF Cons.prems, of st] None show ?thesis
      by (simp only: set_row_digests.simps option.case)
  next
    case (Some d)
    let ?conn = "set_db ((db conn)\<lparr>rev_tables := (rev_tables (db conn))(rev_table table \<mapsto> rows(r \<mapsto> d))\<rparr>) conn"
    let ?st = "cache_row_digest table r d st"
    have step: "set_row_digest table r d (conn, st) = Inr (?conn, ?st)"
      using Cons.prems by (simp add: set_row_digest_def write_rev_def Let_def)
    have "rev_tables (db ?conn) (rev_table table) = Some (rows(r \<mapsto> d))" by (simp add: set_db_def)
    from Cons.IH [OF this, of ?st] obtain st' where
      "set_row_digests table ds order (?conn, ?st) =
         Inr (set_db ((db ?conn)\<lparr>rev_tables := (rev_tables (db ?conn))(rev_table table \<mapsto>
        (\<lambda>q. if q \<in> set order \<and> ds q \<noteq> None then ds q else (rows(r \<mapsto> d)) q))\<rparr>) ?conn, st')"
      by blast
    moreover have "(\<lambda>q. if q \<in> set order \<and> ds q \<noteq> None then ds q else (rows(r \<mapsto> d)) q) =
        (\<lambda>q. if q \<in> set (r # order) \<and> ds q \<noteq> None then ds q else rows q)"
      using Some by (auto simp: fun_eq_iff)
    ultimately show ?thesis using Some step by (simp add: set_db_def) (simp add: fun_upd_def)
  qed
qed

definition row_digests :: "sql_env \<Rightarrow> (int \<times> sql_value list) list \<Rightarrow> int \<rightharpoonup> string" where
  "row_digests V rows = map_of (rev (map (\<lambda>(rowid, row).
     (rowid, compute_row_digest V (SqlInteger (of_int rowid) # row))) rows))"

lemma dom_row_digests: "dom (row_digests V rows) = fst ` set rows"
  by (auto simp: row_digests_def dom_map_of_conv_image_fst image_image case_prod_unfold)

text \<open>The database a backfill is meant to leave.\<close>

definition backfilled :: "sql_env \<Rightarrow> string \<Rightarrow> database \<Rightarrow> database" where
  "backfilled V table d =
     (let ds = row_digests V (the (data_tables d table)); t = rev_table table in
      d\<lparr>rev_tables := (rev_tables d)(t \<mapsto> ds),
        counters := (if rev_tables d t = Some ds then counters d
           else (counters d)(table \<mapsto> (case counters d table of None \<Rightarrow> 1 | Some c \<Rightarrow> c + 1)))\<rparr>)"

lemma backfill_locked_eq:
  assumes "data_tables (db conn) table = Some rows" and "rev_tables (db conn) (rev_table table) = Some old"
    and "fst ` set rows \<subseteq> set order"
  shows "\<exists>st'. backfill_row_digests_locked V order table (conn, st) =
      Inr (set_db (backfilled V table (db conn)) conn, st')"
proof -
  let ?ds = "row_digests V rows" and ?t = "rev_table table"
  let ?cleared = "set_db ((db conn)\<lparr>rev_tables := (rev_tables (db conn))(?t \<mapsto> Map.empty)\<rparr>) conn"
  have "rev_tables (db ?cleared) ?t = Some Map.empty" by (simp add: set_db_def)
  from set_row_digests_eq [OF this, of ?ds order "clear_table_row_cache table st"]
  obtain st' where st': "set_row_digests table ?ds order (?cleared, clear_table_row_cache table st) =
      Inr (set_db ((db conn)\<lparr>rev_tables := (rev_tables (db conn))(?t \<mapsto>
        (\<lambda>r. if r \<in> set order \<and> ?ds r \<noteq> None then ?ds r else None))\<rparr>) conn, st')"
    by (auto simp: set_db_def)
  moreover have "(\<lambda>r. if r \<in> set order \<and> ?ds r \<noteq> None then ?ds r else None) = ?ds"
  proof
    fix r
    show "(if r \<in> set order \<and> ?ds r \<noteq> None then ?ds r else None) = ?ds r"
      using assms(3) domI [of ?ds r] unfolding dom_row_digests by (cases "?ds r") auto
  qed
  ultimately show ?thesis
    using assms(1,2)
    by (auto simp: backfill_row_digests_locked_def row_digests_def [symmetric] backfilled_def Let_def
        bump_rowset_counter_def get_rowset_counter_from_db_def set_db_def)
qed

text \<open>
  C26. Backfilling is all or nothing. If the transaction can begin and commit, the revision
  table afterwards holds exactly the digests of the rows, in whatever order they were written,
  and the row-set counter has moved by one if and only if that changed the table; if the
  commit fails, the database is as it was and no digest of the table stays cached.
\<close>

theorem backfill_restores_digests:
  assumes "data_tables (db conn) table = Some rows" and "rev_tables (db conn) (rev_table table) = Some old"
    and "fst ` set rows \<subseteq> set order" and "saved conn = None" and "begin_ok V"
  shows "case backfill_row_digests V order table (conn, st) of
      Inr (conn', st') \<Rightarrow> commit_ok V \<and> conn' = \<lparr>db = backfilled V table (db conn), saved = None\<rparr>
        \<and> backfilled V table (db conn') = db conn'
    | Inl (e, (conn', st')) \<Rightarrow> \<not> commit_ok V \<and> e = DbBusy \<and> conn' = conn \<and> (\<forall>r. row_cache st' (table, r) = None)"
proof -
  have "backfilled V table (backfilled V table (db conn)) = backfilled V table (db conn)"
    by (simp add: backfilled_def Let_def)
  moreover have "\<exists>st'. backfill_row_digests_locked V order table (conn\<lparr>saved := Some (db conn)\<rparr>, st) =
      Inr (set_db (backfilled V table (db conn)) (conn\<lparr>saved := Some (db conn)\<rparr>), st')"
    using backfill_locked_eq [of "conn\<lparr>saved := Some (db conn)\<rparr>" table rows old order V st] assms(1-3) by simp
  ultimately show ?thesis
    using assms(4,5)
    by (cases conn) (auto simp: backfill_row_digests_def set_db_def rollback_def clear_table_row_cache_def)
qed

theorem backfill_restores_digests_witness:
  "\<exists>conn' st'. backfill_row_digests toy_sql [1] ''goals_data'' (toy_conn, store_new toy_conn) = Inr (conn', st')
     \<and> counters (db conn') ''goals_data'' = Some 5"
proof -
  have "commit_ok toy_sql" by (simp add: toy_sql_def)
  moreover have "counters (backfilled toy_sql ''goals_data'' (db toy_conn)) ''goals_data'' = Some 5"
    by (simp add: backfilled_def Let_def toy_conn_def row_digests_def fun_eq_iff)
  ultimately show ?thesis
    using backfill_restores_digests [of toy_conn "''goals_data''" "[(1, [SqlText ''t''])]" Map.empty "[1]" toy_sql
        "store_new toy_conn"]
    by (auto simp: toy_conn_def toy_sql_def split: sum.splits)
qed

end
