(* ===== verification/Reactive_Table_Facts.thy ===== *)
theory Reactive_Table_Facts
  imports Reactive_Table Revision_Store_Facts "HOL-Library.Sublist"
begin

text \<open>
  Every write through a reactive virtual table keeps the persisted revisions exact, cascades
  and replaced rows included, and moves the counter of every row set it changes; a trace of
  a scan is therefore accepted exactly as long as no write has changed the table.
\<close>

section \<open>What the table relies on in SQLite\<close>

definition rows_of :: "database \<Rightarrow> string \<Rightarrow> (int \<times> sql_value list) list" where
  "rows_of d t = (case data_tables d t of None \<Rightarrow> [] | Some rows \<Rightarrow> rows)"

definition counter_of :: "database \<Rightarrow> string \<Rightarrow> int" where
  "counter_of d t = (case counters d t of None \<Rightarrow> 0 | Some c \<Rightarrow> c)"

definition shadows :: "string set" where
  "shadows = set (map snd reactive_tables)"

text \<open>Rowids are unique 64-bit integers.\<close>

definition rows_ok :: "(int \<times> sql_value list) list \<Rightarrow> bool" where
  "rows_ok rows \<longleftrightarrow> distinct (map fst rows) \<and> fst ` set rows \<subseteq> {- (2 ^ 63)..2 ^ 63 - 1}"

text \<open>
  A statement on a shadow table leaves the revision tables alone; in other tables it can only
  delete rows (cascades), and without \<open>OR REPLACE\<close> an insertion or update does not even that.
\<close>

definition own_data_only :: "string \<Rightarrow> database \<Rightarrow> database \<Rightarrow> bool" where
  "own_data_only t d d' \<longleftrightarrow> rev_tables d' = rev_tables d \<and> counters d' = counters d
     \<and> dom (data_tables d') = dom (data_tables d)
     \<and> (rows_ok (rows_of d t) \<longrightarrow> rows_ok (rows_of d' t))
     \<and> (\<forall>u. u \<noteq> t \<longrightarrow> subseq (rows_of d' u) (rows_of d u))"

definition writes_row :: "conflict_mode \<Rightarrow> string \<Rightarrow> int \<Rightarrow> database \<Rightarrow> database \<Rightarrow> bool" where
  "writes_row mode t i d d' \<longleftrightarrow> own_data_only t d d'
     \<and> (\<forall>j. j \<noteq> i \<longrightarrow> map_of (rows_of d' t) j = map_of (rows_of d t) j
          \<or> mode = OnReplace \<and> map_of (rows_of d' t) j = None)
     \<and> (mode \<noteq> OnReplace \<longrightarrow> (\<forall>u. u \<noteq> t \<longrightarrow> rows_of d' u = rows_of d u))"

text \<open>The column that is the rowid: the only key column, if it has the type \<open>INTEGER\<close>.\<close>

definition rowid_alias :: "sql_engine \<Rightarrow> string \<Rightarrow> string option" where
  "rowid_alias E t =
     (case filter (\<lambda>ci. 0 < ci_pk ci) (table_info E t) of
        [ci] \<Rightarrow> if is_rowid_column ci then Some (text_or_empty (ci_name ci)) else None
      | _ \<Rightarrow> None)"

definition keeps_rowid :: "sql_engine \<Rightarrow> string \<Rightarrow> (string \<times> sql_value) list \<Rightarrow> int \<Rightarrow> bool" where
  "keeps_rowid E t vals i \<longleftrightarrow> (\<forall>c x. rowid_alias E t = Some c \<longrightarrow> (c, x) \<in> set vals \<longrightarrow> x = SqlInteger (of_int i))"

definition engine_ok :: "sql_engine \<Rightarrow> bool" where
  "engine_ok E \<longleftrightarrow>
     (\<forall>t. distinct (map (text_or_empty \<circ> ci_name) (table_info E t)))
   \<and> (\<forall>mode t vals d n i d'. exec_insert E mode t vals d = Inr ((n, i), d') \<longrightarrow>
        (if n = 0 then d' = d else writes_row mode t i d d'))
   \<and> (\<forall>mode t vals i d n d'. exec_update E mode t vals i d = Inr (n, d') \<longrightarrow> keeps_rowid E t vals i \<longrightarrow>
        (if n = 0 then d' = d else writes_row mode t i d d'))
   \<and> (\<forall>t i d n d'. exec_delete E t i d = Inr (n, d') \<longrightarrow>
        (if n = 0 then d' = d
         else own_data_only t d d' \<and> map_of (rows_of d' t) = (map_of (rows_of d t))(i := None)))"

section \<open>The invariant\<close>

definition tracked :: "sql_env \<Rightarrow> database \<Rightarrow> bool" where
  "tracked V d \<longleftrightarrow> (\<forall>t \<in> shadows. data_tables d t \<noteq> None \<and> rows_ok (rows_of d t)
     \<and> rev_tables d (rev_table t) = Some (row_digests V (rows_of d t)))"

definition coherent :: "database \<Rightarrow> revision_store \<Rightarrow> bool" where
  "coherent d st \<longleftrightarrow> (\<forall>t \<in> shadows. \<forall>i b r. row_cache st (t, i) = Some b \<longrightarrow>
     rev_tables d (rev_table t) = Some r \<longrightarrow> r i = Some b)"

lemma rev_table_shadows: "map (\<lambda>t. rev_table (snd t)) reactive_tables = map (\<lambda>t. fst t @ ''_rev'') reactive_tables"
  by (simp add: reactive_tables_def rev_table_def replace_all.simps)

lemma inj_rev_table: "inj_on rev_table shadows"
proof -
  have "distinct (map (\<lambda>t. fst t @ ''_rev'') reactive_tables)"
    by (simp add: reactive_tables_def)
  then have "distinct (map rev_table (map snd reactive_tables))"
    by (simp only: map_map comp_def rev_table_shadows)
  then show ?thesis unfolding shadows_def distinct_map by blast
qed

lemma rev_table_eq [simp]: "t \<in> shadows \<Longrightarrow> u \<in> shadows \<Longrightarrow> rev_table t = rev_table u \<longleftrightarrow> t = u"
  using inj_rev_table by (auto dest: inj_onD)

lemma digests_lookup:
  "distinct (map fst rows) \<Longrightarrow>
   row_digests V rows i = map_option (\<lambda>row. compute_row_digest V (SqlInteger (of_int i) # row)) (map_of rows i)"
proof -
  assume d: "distinct (map fst rows)"
  have eq: "map fst (map (\<lambda>(r, row). (r, compute_row_digest V (SqlInteger (of_int r) # row))) rows) = map fst rows"
    by (simp add: case_prod_unfold comp_def)
  have "map_of (map (\<lambda>(r, row). (r, compute_row_digest V (SqlInteger (of_int r) # row))) rows) i =
      map_option (\<lambda>row. compute_row_digest V (SqlInteger (of_int i) # row)) (map_of rows i)"
    by (induction rows) auto
  moreover have "map_of (rev xs) = map_of xs" if "distinct (map fst xs)" for xs :: "(int \<times> string) list"
    using that by (intro map_of_inject_set [THEN iffD2]) (simp_all flip: rev_map)
  note this [of "map (\<lambda>(r, row). (r, compute_row_digest V (SqlInteger (of_int r) # row))) rows", unfolded eq, OF d]
  ultimately show ?thesis unfolding row_digests_def by simp
qed

lemma digests_eqI:
  "distinct (map fst rows) \<Longrightarrow> distinct (map fst rows') \<Longrightarrow> map_of rows i = map_of rows' i \<Longrightarrow>
   row_digests V rows i = row_digests V rows' i"
  by (simp add: digests_lookup)

lemma digests_none: "row_digests V rows i = None \<longleftrightarrow> i \<notin> fst ` set rows"
  using dom_row_digests [of V rows] by blast

lemma subseq_set: "subseq xs ys \<Longrightarrow> x \<in> set xs \<Longrightarrow> x \<in> set ys"
  by (erule list_emb_set) auto

lemma subseq_distinct: "subseq xs ys \<Longrightarrow> distinct ys \<Longrightarrow> distinct xs"
  by (induction rule: list_emb.induct) (auto dest: subseq_set)

lemma subseq_lookup:
  "subseq rows' rows \<Longrightarrow> distinct (map fst rows) \<Longrightarrow> i \<in> fst ` set rows' \<Longrightarrow> map_of rows' i = map_of rows i"
proof -
  assume a: "subseq rows' rows" "distinct (map fst rows)" "i \<in> fst ` set rows'"
  then obtain row where row: "(i, row) \<in> set rows'" by auto
  have "distinct (map fst rows')" using a(1,2) by (meson subseq_map subseq_distinct)
  with row have "map_of rows' i = Some row" by simp
  moreover have "(i, row) \<in> set rows" by (rule subseq_set [OF a(1) row])
  with a(2) have "map_of rows i = Some row" by simp
  ultimately show ?thesis by simp
qed

lemma subseq_rows_ok:
  assumes "subseq rows' rows" and "rows_ok rows"
  shows "rows_ok rows'"
proof -
  from assms(1) have "subseq (map fst rows') (map fst rows)" by (rule subseq_map)
  with assms(2) have "distinct (map fst rows')" by (auto simp: rows_ok_def dest: subseq_distinct)
  moreover have "fst ` set rows' \<subseteq> fst ` set rows" by (auto intro: subseq_set [OF assms(1)] rev_image_eqI)
  ultimately show ?thesis using assms(2) by (auto simp: rows_ok_def)
qed

lemma digests_restrict:
  "subseq rows' rows \<Longrightarrow> distinct (map fst rows) \<Longrightarrow> row_digests V rows |` (fst ` set rows') = row_digests V rows'"
proof
  fix i
  assume a: "subseq rows' rows" "distinct (map fst rows)"
  have d: "distinct (map fst rows')" using a by (meson subseq_map subseq_distinct)
  show "(row_digests V rows |` (fst ` set rows')) i = row_digests V rows' i"
  proof (cases "i \<in> fst ` set rows'")
    case True
    then show ?thesis using digests_eqI [OF a(2) d] subseq_lookup [OF a True] by simp
  next
    case False
    then show ?thesis using digests_none [of V rows' i] by simp
  qed
qed

section \<open>The statements\<close>

lemmas callback_defs = vbind_def vreturn_def vfail_def statement_def on_store_def set_db_def

lemma set_db_simps [simp]:
  "db (set_db d conn) = d" "set_db d (set_db d' conn) = set_db d conn" "set_db (db conn) conn = conn"
  by (simp_all add: set_db_def)

lemma vbind_Inr: "vbind m f s = Inr r \<longleftrightarrow> (\<exists>x s'. m s = Inr (x, s') \<and> f x s' = Inr r)"
  by (auto simp: vbind_def split: sum.split)

lemma vreturn_Inr [simp]: "vreturn x s = Inr r \<longleftrightarrow> r = (x, s)"
  by (auto simp: vreturn_def)

lemma vfail_Inr [simp]: "vfail e s \<noteq> Inr r"
  by (simp add: vfail_def)

definition set_rev :: "string \<Rightarrow> (int \<rightharpoonup> string) \<Rightarrow> database \<Rightarrow> database" where
  "set_rev t r d = d\<lparr>rev_tables := (rev_tables d)(t \<mapsto> r)\<rparr>"

lemma set_rev_simps [simp]:
  "data_tables (set_rev t r d) = data_tables d" "counters (set_rev t r d) = counters d"
  "rev_tables (set_rev t r d) = (rev_tables d)(t \<mapsto> r)" "rows_of (set_rev t r d) = rows_of d"
  "counter_of (set_rev t r d) = counter_of d"
  by (simp_all add: set_rev_def rows_of_def counter_of_def fun_eq_iff)

lemma rows_of_eq: "data_tables d t \<noteq> None \<Longrightarrow> data_tables d t = Some (rows_of d t)"
  by (auto simp: rows_of_def)

lemma clear_row_revision_eq:
  "rev_tables (db conn) (rev_table t) = Some r \<Longrightarrow>
   clear_row_revision t i (conn, st) =
     Inr ((), (set_db (set_rev (rev_table t) (r(i := None)) (db conn)) conn, uncache_row_digest t i st))"
  by (simp add: clear_row_revision_def callback_defs update_rev_def set_rev_def)

lemma refresh_row_revision_eq:
  assumes "data_tables (db conn) t \<noteq> None" and "rows_ok (rows_of (db conn) t)"
    and "rev_tables (db conn) (rev_table t) = Some r"
  shows "\<exists>st'. refresh_row_revision V t i (conn, st) =
      Inr ((), (set_db (set_rev (rev_table t) (r(i := row_digests V (rows_of (db conn) t) i)) (db conn)) conn, st'))
    \<and> row_cache st' = (row_cache st)((t, i) := row_digests V (rows_of (db conn) t) i)"
proof (cases "map_of (rows_of (db conn) t) i")
  case None
  then have "row_digests V (rows_of (db conn) t) i = None"
    using assms(2) by (simp add: digests_lookup rows_ok_def)
  moreover have "refresh_row_revision V t i (conn, st) = clear_row_revision t i (conn, st)"
    using rows_of_eq [OF assms(1)] None by (simp add: refresh_row_revision_def row_with_id_def)
  ultimately show ?thesis using clear_row_revision_eq [OF assms(3)] by (simp add: uncache_row_digest_def)
next
  case (Some row)
  then have "row_digests V (rows_of (db conn) t) i = Some (compute_row_digest V (SqlInteger (of_int i) # row))"
    using assms(2) by (simp add: digests_lookup rows_ok_def)
  then show ?thesis
    using rows_of_eq [OF assms(1)] Some assms(3)
    by (simp add: refresh_row_revision_def row_with_id_def Let_def callback_defs update_rev_def set_rev_def cache_row_digest_def)
qed

lemma clear_stale_eq:
  assumes "data_tables (db conn) t \<noteq> None" and "rev_tables (db conn) (rev_table t) = Some r" and "finite (dom r)"
  shows "\<exists>n st'. clear_stale_row_revisions t (conn, st) =
      Inr (n, (set_db (set_rev (rev_table t) (r |` (fst ` set (rows_of (db conn) t))) (db conn)) conn, st'))
    \<and> (st' = clear_table_row_cache t st \<or> st' = st \<and> dom r \<subseteq> fst ` set (rows_of (db conn) t))"
proof -
  have "card (dom r - fst ` set (rows_of (db conn) t)) = 0 \<longleftrightarrow> dom r \<subseteq> fst ` set (rows_of (db conn) t)"
    using assms(3) by auto
  with rows_of_eq [OF assms(1)] assms(2) show ?thesis
    by (simp add: clear_stale_row_revisions_def callback_defs update_rev_def set_rev_def)
qed

definition bump :: "string \<Rightarrow> database \<Rightarrow> database" where
  "bump t d = d\<lparr>counters := (counters d)(t \<mapsto> counter_of d t + 1)\<rparr>"

lemma bump_simps [simp]:
  "data_tables (bump t d) = data_tables d" "rev_tables (bump t d) = rev_tables d" "rows_of (bump t d) = rows_of d"
  "counter_of (bump t d) u = (if u = t then counter_of d t + 1 else counter_of d u)"
  by (simp_all add: bump_def rows_of_def counter_of_def fun_eq_iff)

lemma bump_eq:
  "\<exists>st'. bump_rowset_revision_for t (conn, st) = Inr ((), (set_db (bump t (db conn)) conn, st'))
     \<and> row_cache st' = row_cache st"
  by (auto simp: bump_rowset_revision_for_def Let_def bump_def counter_of_def cache_rowset_counter_def split: option.split)

lemma row_counts_of_eq:
  "(\<And>t. t \<in> set ts \<Longrightarrow> data_tables (db conn) t \<noteq> None) \<Longrightarrow>
   row_counts_of ts (conn, st) = Inr (map (\<lambda>t. (t, length (rows_of (db conn) t))) ts, (conn, st))"
proof (induction ts)
  case Nil
  then show ?case by (simp add: vreturn_def)
next
  case (Cons t ts)
  then have "data_tables (db conn) t = Some (rows_of (db conn) t)" by (simp add: rows_of_eq)
  with Cons show ?case by (simp add: vbind_def statement_def table_row_count_def vreturn_def)
qed

lemma row_counts_eq:
  "tracked V (db conn) \<Longrightarrow>
   row_counts (conn, st) = Inr (map (\<lambda>t. (t, length (rows_of (db conn) t))) (map snd reactive_tables), (conn, st))"
  unfolding row_counts_def by (rule row_counts_of_eq) (auto simp: tracked_def shadows_def)

section \<open>Cascades\<close>

definition exact :: "sql_env \<Rightarrow> string \<Rightarrow> database \<Rightarrow> bool" where
  "exact V t d \<longleftrightarrow> rev_tables d (rev_table t) = Some (row_digests V (rows_of d t))"

definition coh :: "string \<Rightarrow> database \<Rightarrow> revision_store \<Rightarrow> bool" where
  "coh t d st \<longleftrightarrow> (\<forall>i b r. row_cache st (t, i) = Some b \<longrightarrow> rev_tables d (rev_table t) = Some r \<longrightarrow> r i = Some b)"

lemma coherent_coh: "coherent d st \<longleftrightarrow> (\<forall>t \<in> shadows. coh t d st)"
  by (simp add: coherent_def coh_def)

lemma coh_same:
  "coh t d st \<Longrightarrow> rev_tables d' (rev_table t) = rev_tables d (rev_table t) \<Longrightarrow>
   (\<And>i. row_cache st' (t, i) = row_cache st (t, i)) \<Longrightarrow> coh t d' st'"
  by (simp add: coh_def)

text \<open>What the loop over the tables has done once it has visited the tables \<open>U\<close>.\<close>

definition cascaded ::
  "sql_env \<Rightarrow> string set \<Rightarrow> database \<Rightarrow> storage \<Rightarrow> storage \<Rightarrow> bool" where
  "cascaded V U d0 s s' \<longleftrightarrow> (\<exists>d' st'. s' = (set_db d' (fst s), st')
     \<and> data_tables d' = data_tables (db (fst s)) \<and> (\<forall>u \<in> U. exact V u d')
     \<and> (\<forall>w. w \<notin> rev_table ` U \<longrightarrow> rev_tables d' w = rev_tables (db (fst s)) w)
     \<and> (\<forall>w. counter_of d' w = counter_of (db (fst s)) w
          + (if w \<in> U \<and> rows_of (db (fst s)) w \<noteq> rows_of d0 w then 1 else 0))
     \<and> (\<forall>w \<in> shadows. coh w (db (fst s)) (snd s) \<longrightarrow> coh w d' st'))"

text \<open>A table whose revisions are still those of \<open>d0\<close>, from which rows were only deleted.\<close>

definition pending :: "sql_env \<Rightarrow> database \<Rightarrow> database \<Rightarrow> string \<Rightarrow> bool" where
  "pending V d0 d u \<longleftrightarrow> data_tables d u \<noteq> None \<and> rows_ok (rows_of d0 u) \<and> subseq (rows_of d u) (rows_of d0 u)
     \<and> rev_tables d (rev_table u) = Some (row_digests V (rows_of d0 u))"

lemma dom_restrict_same: "dom m \<subseteq> A \<Longrightarrow> m |` A = m"
  by (rule map_le_antisym) (auto simp: map_le_def restrict_map_def)

lemma subseq_length_eq: "subseq xs ys \<Longrightarrow> length xs = length ys \<longleftrightarrow> xs = ys"
  by (auto intro: subseq_same_length)

lemma refresh_cascaded_step_eq:
  assumes "u \<in> shadows" and "u \<noteq> shadow_table v" and "pending V d0 (db conn) u"
    and "map_of before u = Some (length (rows_of d0 u))"
  shows "\<exists>s'. refresh_cascaded_step v before u (conn, st) = Inr ((), s') \<and> cascaded V {u} d0 (conn, st) s'"
proof -
  let ?d = "db conn"
  have p: "data_tables ?d u = Some (rows_of ?d u)" "rows_ok (rows_of d0 u)" "subseq (rows_of ?d u) (rows_of d0 u)"
    "rev_tables ?d (rev_table u) = Some (row_digests V (rows_of d0 u))"
    using assms(3) rows_of_eq by (auto simp: pending_def)
  have count: "statement (table_row_count u) (conn, st) = Inr (length (rows_of ?d u), (conn, st))"
    using p(1) by (simp add: statement_def table_row_count_def)
  show ?thesis
  proof (cases "rows_of ?d u = rows_of d0 u")
    case True
    then have "refresh_cascaded_step v before u (conn, st) = Inr ((), (conn, st))"
      using assms(2,4) count by (simp add: refresh_cascaded_step_def vbind_def vreturn_def)
    moreover have "cascaded V {u} d0 (conn, st) (conn, st)"
      unfolding cascaded_def using True p(4) by (intro exI [of _ ?d]) (simp add: exact_def)
    ultimately show ?thesis by blast
  next
    case False
    then have less: "length (rows_of d0 u) \<noteq> length (rows_of ?d u)" using subseq_length_eq [OF p(3)] by auto
    let ?r = "row_digests V (rows_of d0 u)"
    have dom: "dom ?r = fst ` set (rows_of d0 u)" by (rule dom_row_digests)
    have restrict: "?r |` (fst ` set (rows_of ?d u)) = row_digests V (rows_of ?d u)"
      using p(2) by (intro digests_restrict p(3)) (simp add: rows_ok_def)
    obtain n st1 where st1: "clear_stale_row_revisions u (conn, st) =
        Inr (n, (set_db (set_rev (rev_table u) (row_digests V (rows_of ?d u)) ?d) conn, st1))"
      and keep: "st1 = clear_table_row_cache u st \<or> st1 = st \<and> dom ?r \<subseteq> fst ` set (rows_of ?d u)"
      using clear_stale_eq [of conn u ?r st] p(1,4) dom restrict by auto
    let ?d1 = "set_rev (rev_table u) (row_digests V (rows_of ?d u)) ?d"
    obtain st2 where st2: "bump_rowset_revision_for u (set_db ?d1 conn, st1) =
        Inr ((), (set_db (bump u ?d1) conn, st2))" and rc: "row_cache st2 = row_cache st1"
      using bump_eq [of u "set_db ?d1 conn" st1] by auto
    have "refresh_cascaded_step v before u (conn, st) = Inr ((), (set_db (bump u ?d1) conn, st2))"
      using assms(2,4) count less st1 st2 by (simp add: refresh_cascaded_step_def vbind_def)
    moreover have "coh w (bump u ?d1) st2" if w: "w \<in> shadows" "coh w ?d st" for w
    proof (cases "w = u")
      case True
      from keep show ?thesis
      proof
        assume "st1 = clear_table_row_cache u st"
        with True rc show ?thesis by (simp add: coh_def clear_table_row_cache_def)
      next
        assume "st1 = st \<and> dom ?r \<subseteq> fst ` set (rows_of ?d u)"
        then have "row_digests V (rows_of ?d u) = ?r" and "st1 = st"
          using restrict dom_restrict_same [of ?r "fst ` set (rows_of ?d u)"] by simp_all
        with True rc w(2) p(4) show ?thesis by (simp add: coh_def)
      qed
    next
      case False
      show ?thesis
        by (rule coh_same [OF w(2)]) (use False keep rc w(1) assms(1) in \<open>auto simp: clear_table_row_cache_def\<close>)
    qed
    then have "cascaded V {u} d0 (conn, st) (set_db (bump u ?d1) conn, st2)"
      unfolding cascaded_def using False by (intro exI [of _ "bump u ?d1"]) (auto simp: exact_def)
    ultimately show ?thesis by blast
  qed
qed

lemma exact_same:
  "exact V u d \<Longrightarrow> data_tables d' = data_tables d \<Longrightarrow> rev_tables d' (rev_table u) = rev_tables d (rev_table u) \<Longrightarrow>
   exact V u d'"
  by (simp add: exact_def rows_of_def)

lemma rows_of_cong: "data_tables d' = data_tables d \<Longrightarrow> rows_of d' = rows_of d"
  by (simp add: rows_of_def fun_eq_iff)

lemma cascaded_empty: "cascaded V {} d0 s s"
  unfolding cascaded_def by (intro exI [of _ "db (fst s)"] exI [of _ "snd s"]) simp

lemma cascaded_trans:
  assumes "cascaded V {u} d0 s s1" and "cascaded V U d0 s1 s2" and "u \<notin> U" and "insert u U \<subseteq> shadows"
  shows "cascaded V (insert u U) d0 s s2"
proof -
  from assms(1) obtain d1 st1 where 1: "s1 = (set_db d1 (fst s), st1)" "data_tables d1 = data_tables (db (fst s))"
      "exact V u d1" "\<And>w. w \<noteq> rev_table u \<Longrightarrow> rev_tables d1 w = rev_tables (db (fst s)) w"
      "\<And>w. counter_of d1 w = counter_of (db (fst s)) w
          + (if w = u \<and> rows_of (db (fst s)) w \<noteq> rows_of d0 w then 1 else 0)"
      "\<And>w. w \<in> shadows \<Longrightarrow> coh w (db (fst s)) (snd s) \<Longrightarrow> coh w d1 st1"
    unfolding cascaded_def by auto
  with assms(2) obtain d2 st2 where 2: "s2 = (set_db d2 (fst s), st2)" "data_tables d2 = data_tables d1"
      "\<forall>w \<in> U. exact V w d2" "\<And>w. w \<notin> rev_table ` U \<Longrightarrow> rev_tables d2 w = rev_tables d1 w"
      "\<And>w. counter_of d2 w = counter_of d1 w + (if w \<in> U \<and> rows_of d1 w \<noteq> rows_of d0 w then 1 else 0)"
      "\<And>w. w \<in> shadows \<Longrightarrow> coh w d1 st1 \<Longrightarrow> coh w d2 st2"
    unfolding cascaded_def by auto
  have "rev_table u \<notin> rev_table ` U"
    using assms(3,4) inj_rev_table by (auto dest: inj_onD)
  then have "exact V u d2" by (intro exact_same [OF 1(3) 2(2)] 2(4))
  moreover have "rows_of d1 = rows_of (db (fst s))" by (rule rows_of_cong [OF 1(2)])
  ultimately show ?thesis
    unfolding cascaded_def using 1 2 assms(3) by (intro exI [of _ d2] exI [of _ st2]) auto
qed

lemma pending_same:
  "pending V d0 d u \<Longrightarrow> data_tables d' = data_tables d \<Longrightarrow> rev_tables d' (rev_table u) = rev_tables d (rev_table u) \<Longrightarrow>
   pending V d0 d' u"
  by (simp add: pending_def rows_of_def)

lemma each_cascaded:
  assumes "distinct ts" and "set ts \<subseteq> shadows"
    and "\<And>u. u \<in> set ts \<Longrightarrow> u \<noteq> shadow_table v \<Longrightarrow> pending V d0 (db conn) u"
    and "\<And>u. u \<in> set ts \<Longrightarrow> map_of before u = Some (length (rows_of d0 u))"
  shows "\<exists>s'. each_table (refresh_cascaded_step v before) ts (conn, st) = Inr ((), s')
    \<and> cascaded V (set ts - {shadow_table v}) d0 (conn, st) s'"
  using assms
proof (induction ts arbitrary: conn st)
  case Nil
  then show ?case using cascaded_empty by (auto simp: vreturn_def)
next
  case (Cons t ts)
  show ?case
  proof (cases "t = shadow_table v")
    case True
    with Cons.prems have "set (t # ts) - {shadow_table v} = set ts - {shadow_table v}" by auto
    moreover have "each_table (refresh_cascaded_step v before) (t # ts) (conn, st) =
        each_table (refresh_cascaded_step v before) ts (conn, st)"
      using True by (simp add: refresh_cascaded_step_def vbind_def vreturn_def)
    ultimately show ?thesis using Cons.IH [of conn st] Cons.prems by simp
  next
    case False
    obtain s1 where s1: "refresh_cascaded_step v before t (conn, st) = Inr ((), s1)" "cascaded V {t} d0 (conn, st) s1"
      using refresh_cascaded_step_eq [of t v V d0 conn before st] Cons.prems False by auto
    then obtain d1 st1 where d1: "s1 = (set_db d1 conn, st1)" "data_tables d1 = data_tables (db conn)"
        "\<And>w. w \<noteq> rev_table t \<Longrightarrow> rev_tables d1 w = rev_tables (db conn) w"
      unfolding cascaded_def by auto
    have "pending V d0 (db (set_db d1 conn)) u" if "u \<in> set ts" "u \<noteq> shadow_table v" for u
    proof (rule pending_same)
      show "pending V d0 (db conn) u" using Cons.prems(3) that by simp
      have "rev_table u \<noteq> rev_table t" using that Cons.prems(1,2) by auto
      then show "rev_tables (db (set_db d1 conn)) (rev_table u) = rev_tables (db conn) (rev_table u)"
        using d1(3) by simp
    qed (simp add: d1(2))
    with Cons.IH [of "set_db d1 conn" st1] Cons.prems obtain s2 where
      s2: "each_table (refresh_cascaded_step v before) ts (set_db d1 conn, st1) = Inr ((), s2)"
        "cascaded V (set ts - {shadow_table v}) d0 (set_db d1 conn, st1) s2" by auto
    have "cascaded V (insert t (set ts - {shadow_table v})) d0 (conn, st) s2"
      by (rule cascaded_trans [OF s1(2)]) (use s2 d1(1) Cons.prems(1,2) in auto)
    moreover have "insert t (set ts - {shadow_table v}) = set (t # ts) - {shadow_table v}" using False by auto
    ultimately show ?thesis using s1(1) s2(1) d1(1) by (simp add: vbind_def)
  qed
qed

lemma refresh_cascaded_eq:
  assumes "\<And>u. u \<in> shadows \<Longrightarrow> u \<noteq> shadow_table v \<Longrightarrow> pending V d0 (db conn) u"
  shows "\<exists>s'. refresh_cascaded_revision_metadata v (map (\<lambda>t. (t, length (rows_of d0 t))) (map snd reactive_tables)) (conn, st)
      = Inr ((), s') \<and> cascaded V (shadows - {shadow_table v}) d0 (conn, st) s'"
proof -
  have lookup: "map_of (map (\<lambda>t. (t, length (rows_of d0 t))) ts) u = Some (length (rows_of d0 u))"
    if "u \<in> set ts" for u ts using that by (induction ts) auto
  show ?thesis
    unfolding refresh_cascaded_revision_metadata_def shadows_def
  proof (rule each_cascaded)
    show "distinct (map snd reactive_tables)" by (simp add: reactive_tables_def)
    show "set (map snd reactive_tables) \<subseteq> shadows" by (simp add: shadows_def)
  qed (use assms in \<open>simp_all only: lookup shadows_def\<close>)
qed

section \<open>Writes\<close>

text \<open>
  What a write to the table \<open>t\<close> leaves: exact revisions, a coherent cache, and a counter that
  has moved for \<open>t\<close> and for every other table that lost rows, and for no other.
\<close>

definition settled :: "sql_env \<Rightarrow> string \<Rightarrow> database \<Rightarrow> storage \<Rightarrow> bool" where
  "settled V t d0 s \<longleftrightarrow> tracked V (db (fst s)) \<and> coherent (db (fst s)) (snd s)
     \<and> (\<forall>u \<in> shadows. counter_of (db (fst s)) u =
          counter_of d0 u + (if u = t \<or> rows_of (db (fst s)) u \<noteq> rows_of d0 u then 1 else 0))"

lemma tracked_pending:
  assumes "tracked V d0" and "own_data_only t d0 d" and "u \<in> shadows" and "u \<noteq> t"
  shows "pending V d0 d u"
proof -
  have "u \<in> dom (data_tables d)" using assms by (auto simp: tracked_def own_data_only_def)
  then show ?thesis using assms by (auto simp: pending_def tracked_def own_data_only_def)
qed

lemma data_kept: "data_tables d' = data_tables d \<Longrightarrow> data_tables d u \<noteq> None \<Longrightarrow> data_tables d' u \<noteq> None"
  by simp

lemma settledI:
  assumes "tracked V d0" and "own_data_only t d0 d1" and "t \<in> shadows"
    and "data_tables d2 = data_tables d1" and "exact V t d2"
    and "\<And>u. u \<in> shadows \<Longrightarrow> u \<noteq> t \<Longrightarrow> exact V u d2"
    and "\<And>u. u \<in> shadows \<Longrightarrow> coh u d2 st"
    and "\<And>u. u \<in> shadows \<Longrightarrow> counter_of d2 u = counter_of d0 u + (if u = t \<or> rows_of d1 u \<noteq> rows_of d0 u then 1 else 0)"
  shows "settled V t d0 (set_db d2 conn, st)"
proof -
  have rows: "rows_of d2 = rows_of d1" by (rule rows_of_cong [OF assms(4)])
  have "tracked V d2"
    unfolding tracked_def
  proof (intro ballI conjI)
    fix u
    assume u: "u \<in> shadows"
    have "u \<in> dom (data_tables d1)" using u assms(1,2) by (auto simp: tracked_def own_data_only_def)
    then show "data_tables d2 u \<noteq> None" using assms(4) by auto
    have "rows_ok (rows_of d0 u)" using u assms(1) by (simp add: tracked_def)
    then show "rows_ok (rows_of d2 u)"
      unfolding rows using assms(2) subseq_rows_ok by (cases "u = t") (auto simp: own_data_only_def)
    show "rev_tables d2 (rev_table u) = Some (row_digests V (rows_of d2 u))"
      using assms(5,6) u by (cases "u = t") (auto simp: exact_def)
  qed
  with assms(7,8) rows show ?thesis by (simp add: settled_def coherent_coh)
qed

lemma own_row_digests:
  assumes "writes_row mode t i d0 d1" and "rows_ok (rows_of d0 t)"
  shows "((row_digests V (rows_of d0 t))(i := row_digests V (rows_of d1 t) i)) |` (fst ` set (rows_of d1 t)) =
      row_digests V (rows_of d1 t)"
    and "mode \<noteq> OnReplace \<Longrightarrow> (row_digests V (rows_of d0 t))(i := row_digests V (rows_of d1 t) i) =
      row_digests V (rows_of d1 t)"
proof -
  have dist: "distinct (map fst (rows_of d0 t))" "distinct (map fst (rows_of d1 t))"
    using assms by (auto simp: writes_row_def own_data_only_def rows_ok_def)
  have other: "map_of (rows_of d1 t) j = map_of (rows_of d0 t) j" if "j \<noteq> i" "j \<in> fst ` set (rows_of d1 t) \<or> mode \<noteq> OnReplace" for j
    using that assms(1) by (auto simp: writes_row_def map_of_eq_None_iff)
  show "((row_digests V (rows_of d0 t))(i := row_digests V (rows_of d1 t) i)) |` (fst ` set (rows_of d1 t)) =
      row_digests V (rows_of d1 t)"
  proof
    fix j
    show "(((row_digests V (rows_of d0 t))(i := row_digests V (rows_of d1 t) i)) |` (fst ` set (rows_of d1 t))) j =
        row_digests V (rows_of d1 t) j"
      using other [of j] digests_eqI [OF dist, of j] digests_none [of V "rows_of d1 t" j]
      by (cases "j \<in> fst ` set (rows_of d1 t)") auto
  qed
  show "(row_digests V (rows_of d0 t))(i := row_digests V (rows_of d1 t) i) = row_digests V (rows_of d1 t)"
    if "mode \<noteq> OnReplace"
    using other that digests_eqI [OF dist] by (auto simp: fun_eq_iff)
qed

lemma finite_digests: "finite (dom (row_digests V rows))"
  by (simp add: dom_row_digests)

lemma coherent_after_exec: "coherent d0 st \<Longrightarrow> own_data_only t d0 d1 \<Longrightarrow> u \<in> shadows \<Longrightarrow> coh u d1 st"
  by (auto simp: coherent_coh coh_def own_data_only_def)

lemma coh_set:
  assumes "t \<in> shadows" "u \<in> shadows" and "coh u d st"
    and "row_cache st' = (row_cache st)((t, i) := x)" and "rev_tables d (rev_table t) = Some r"
  shows "coh u (set_rev (rev_table t) (r(i := x)) d) st'"
  using assms by (cases "u = t") (auto simp: coh_def)

lemma after_exec:
  assumes "tracked V d0" and "own_data_only t d0 d"
  shows "u \<in> shadows \<Longrightarrow> rev_tables d (rev_table u) = Some (row_digests V (rows_of d0 u))"
    and "u \<in> shadows \<Longrightarrow> data_tables d u \<noteq> None"
    and "t \<in> shadows \<Longrightarrow> rows_ok (rows_of d0 t)" and "t \<in> shadows \<Longrightarrow> rows_ok (rows_of d t)"
    and "counter_of d = counter_of d0"
proof -
  assume "u \<in> shadows"
  with assms have "u \<in> dom (data_tables d)" by (auto simp: tracked_def own_data_only_def)
  then show "data_tables d u \<noteq> None" by auto
qed (use assms in \<open>auto simp: tracked_def own_data_only_def counter_of_def\<close>)

lemma settle_write_plain:
  assumes d0: "tracked V d0" "coherent d0 st" and t: "shadow_table v \<in> shadows"
    and w: "writes_row mode (shadow_table v) i d0 (db conn)" "mode \<noteq> OnReplace"
  shows "\<exists>s'. settle_write V v None i (conn, st) = Inr ((), s') \<and> settled V (shadow_table v) d0 s'"
proof -
  let ?t = "shadow_table v" and ?d = "db conn"
  let ?r = "(row_digests V (rows_of d0 ?t))(i := row_digests V (rows_of ?d ?t) i)"
  let ?d1 = "set_rev (rev_table ?t) ?r ?d"
  have own: "own_data_only ?t d0 ?d" and same: "\<And>u. u \<noteq> ?t \<Longrightarrow> rows_of ?d u = rows_of d0 u"
    using w by (auto simp: writes_row_def)
  note d = after_exec [OF d0(1) own]
  obtain st1 where st1: "refresh_row_revision V ?t i (conn, st) = Inr ((), (set_db ?d1 conn, st1))"
    "row_cache st1 = (row_cache st)((?t, i) := row_digests V (rows_of ?d ?t) i)"
    using refresh_row_revision_eq [OF d(2) [OF t] d(4) [OF t] d(1) [OF t]] by blast
  obtain st2 where st2: "bump_rowset_revision_for ?t (set_db ?d1 conn, st1) =
      Inr ((), (set_db (bump ?t ?d1) conn, st2))" "row_cache st2 = row_cache st1"
    using bump_eq [of ?t "set_db ?d1 conn" st1] by auto
  have "settled V ?t d0 (set_db (bump ?t ?d1) conn, st2)"
  proof (rule settledI [OF d0(1) own t])
    show "exact V ?t (bump ?t ?d1)"
      using own_row_digests(2) [OF w(1) d(3) [OF t] w(2)] by (simp add: exact_def)
    show "exact V u (bump ?t ?d1)" if "u \<in> shadows" "u \<noteq> ?t" for u
      using that d(1) same t by (simp add: exact_def)
    show "coh u (bump ?t ?d1) st2" if "u \<in> shadows" for u
    proof (rule coh_same)
      show "coh u ?d1 st1"
        by (rule coh_set [OF t that coherent_after_exec [OF d0(2) own that] st1(2) d(1) [OF t]])
    qed (simp_all add: st2(2))
    show "counter_of (bump ?t ?d1) u = counter_of d0 u + (if u = ?t \<or> rows_of ?d u \<noteq> rows_of d0 u then 1 else 0)"
      if "u \<in> shadows" for u using same d(5) by simp
  qed simp
  with st1(1) st2(1) show ?thesis by (auto simp: settle_write_def vbind_def)
qed

lemma cascadedD:
  assumes "cascaded V U d0 (conn, st) s'" and "U \<subseteq> shadows"
  obtains d' st' where "s' = (set_db d' conn, st')" "data_tables d' = data_tables (db conn)"
    "\<And>u. u \<in> U \<Longrightarrow> exact V u d'"
    "\<And>u. u \<in> shadows \<Longrightarrow> u \<notin> U \<Longrightarrow> rev_tables d' (rev_table u) = rev_tables (db conn) (rev_table u)"
    "\<And>u. counter_of d' u = counter_of (db conn) u + (if u \<in> U \<and> rows_of (db conn) u \<noteq> rows_of d0 u then 1 else 0)"
    "\<And>u. u \<in> shadows \<Longrightarrow> coh u (db conn) st \<Longrightarrow> coh u d' st'"
proof -
  from assms(1) obtain d' st' where c: "s' = (set_db d' conn, st')" "data_tables d' = data_tables (db conn)"
    "\<forall>u \<in> U. exact V u d'" "\<forall>w. w \<notin> rev_table ` U \<longrightarrow> rev_tables d' w = rev_tables (db conn) w"
    "\<forall>u. counter_of d' u = counter_of (db conn) u + (if u \<in> U \<and> rows_of (db conn) u \<noteq> rows_of d0 u then 1 else 0)"
    "\<forall>u \<in> shadows. coh u (db conn) st \<longrightarrow> coh u d' st'"
    unfolding cascaded_def by auto
  show ?thesis
  proof (rule that [of d' st'])
    show "rev_tables d' (rev_table u) = rev_tables (db conn) (rev_table u)" if "u \<in> shadows" "u \<notin> U" for u
    proof -
      have "rev_table u \<notin> rev_table ` U" using that assms(2) inj_rev_table by (auto dest: inj_onD)
      with c(4) show ?thesis by blast
    qed
  qed (use c in auto)
qed

lemma pending_after:
  assumes "tracked V d0" and "own_data_only t d0 d" and "data_tables d1 = data_tables d" and "t \<in> shadows"
    and "\<And>w. w \<noteq> rev_table t \<Longrightarrow> rev_tables d1 w = rev_tables d w"
  shows "u \<in> shadows \<Longrightarrow> u \<noteq> t \<Longrightarrow> pending V d0 d1 u"
  by (rule pending_same [OF tracked_pending [OF assms(1,2)] assms(3) assms(5)]) (use assms(4) in auto)

abbreviation all_counts :: "database \<Rightarrow> (string \<times> nat) list" where
  "all_counts d \<equiv> map (\<lambda>t. (t, length (rows_of d t))) (map snd reactive_tables)"

lemma coh_stale:
  assumes "t \<in> shadows" "u \<in> shadows" and "coh u d st" and "rev_tables d (rev_table t) = Some r"
    and "st' = clear_table_row_cache t st \<or> st' = st \<and> dom r \<subseteq> A"
  shows "coh u (set_rev (rev_table t) (r |` A) d) st'"
proof (cases "u = t")
  case True
  from assms(5) show ?thesis
  proof
    assume "st' = clear_table_row_cache t st"
    with True show ?thesis by (simp add: coh_def clear_table_row_cache_def)
  next
    assume "st' = st \<and> dom r \<subseteq> A"
    with True assms(3,4) dom_restrict_same [of r A] show ?thesis by (simp add: coh_def)
  qed
next
  case False
  show ?thesis
    by (rule coh_same [OF assms(3)]) (use False assms in \<open>auto simp: clear_table_row_cache_def\<close>)
qed

lemma settle_write_replace:
  assumes d0: "tracked V d0" "coherent d0 st" and t: "shadow_table v \<in> shadows"
    and w: "writes_row mode (shadow_table v) i d0 (db conn)"
  shows "\<exists>s'. settle_write V v (Some (all_counts d0)) i (conn, st) = Inr ((), s')
    \<and> settled V (shadow_table v) d0 s'"
proof -
  let ?t = "shadow_table v" and ?d = "db conn"
  let ?r = "(row_digests V (rows_of d0 ?t))(i := row_digests V (rows_of ?d ?t) i)"
  let ?d1 = "set_rev (rev_table ?t) ?r ?d" and ?ids = "fst ` set (rows_of ?d ?t)"
  let ?d2 = "set_rev (rev_table ?t) (?r |` ?ids) ?d1"
  have own: "own_data_only ?t d0 ?d" using w by (simp add: writes_row_def)
  note d = after_exec [OF d0(1) own]
  obtain st1 where st1: "refresh_row_revision V ?t i (conn, st) = Inr ((), (set_db ?d1 conn, st1))"
    "row_cache st1 = (row_cache st)((?t, i) := row_digests V (rows_of ?d ?t) i)"
    using refresh_row_revision_eq [OF d(2) [OF t] d(4) [OF t] d(1) [OF t]] by blast
  have fin: "finite (dom ?r)" using finite_digests by simp
  obtain n st2 where st2: "clear_stale_row_revisions ?t (set_db ?d1 conn, st1) = Inr (n, (set_db ?d2 conn, st2))"
    and keep: "st2 = clear_table_row_cache ?t st1 \<or> st2 = st1 \<and> dom ?r \<subseteq> ?ids"
    using clear_stale_eq [of "set_db ?d1 conn" ?t ?r st1] d(2) [OF t] fin by auto
  have data: "data_tables ?d2 = data_tables ?d" by simp
  have "\<exists>s'. refresh_cascaded_revision_metadata v (all_counts d0) (set_db ?d2 conn, st2) = Inr ((), s')
      \<and> cascaded V (shadows - {?t}) d0 (set_db ?d2 conn, st2) s'"
  proof (rule refresh_cascaded_eq)
    show "pending V d0 (db (set_db ?d2 conn)) u" if "u \<in> shadows" "u \<noteq> ?t" for u
      by (rule pending_after [OF d0(1) own _ t _ that]) simp_all
  qed
  then obtain s3 where s3: "refresh_cascaded_revision_metadata v (all_counts d0) (set_db ?d2 conn, st2) = Inr ((), s3)"
    "cascaded V (shadows - {?t}) d0 (set_db ?d2 conn, st2) s3" by blast
  obtain d3 st3 where d3: "s3 = (set_db d3 conn, st3)" "data_tables d3 = data_tables ?d"
    "\<And>u. u \<in> shadows - {?t} \<Longrightarrow> exact V u d3" "rev_tables d3 (rev_table ?t) = Some (?r |` ?ids)"
    "\<And>u. counter_of d3 u = counter_of ?d u + (if u \<in> shadows - {?t} \<and> rows_of ?d u \<noteq> rows_of d0 u then 1 else 0)"
    "\<And>u. u \<in> shadows \<Longrightarrow> coh u ?d2 st2 \<Longrightarrow> coh u d3 st3"
    by (rule cascadedD [OF s3(2)]) (use t in auto)
  obtain st4 where st4: "bump_rowset_revision_for ?t (set_db d3 conn, st3) =
      Inr ((), (set_db (bump ?t d3) conn, st4))" "row_cache st4 = row_cache st3"
    using bump_eq [of ?t "set_db d3 conn" st3] by auto
  have rows3: "rows_of d3 = rows_of ?d" by (rule rows_of_cong [OF d3(2)])
  have "settled V ?t d0 (set_db (bump ?t d3) conn, st4)"
  proof (rule settledI [OF d0(1) own t])
    show "exact V ?t (bump ?t d3)"
      using own_row_digests(1) [OF w d(3) [OF t]] d3(4) rows3 by (simp add: exact_def)
    show "exact V u (bump ?t d3)" if "u \<in> shadows" "u \<noteq> ?t" for u
      using d3(3) [of u] that by (simp add: exact_def)
    show "coh u (bump ?t d3) st4" if "u \<in> shadows" for u
    proof (rule coh_same)
      have "coh u ?d1 st1"
        by (rule coh_set [OF t that coherent_after_exec [OF d0(2) own that] st1(2) d(1) [OF t]])
      then have "coh u ?d2 st2" by (rule coh_stale [OF t that]) (use keep in simp_all)
      then show "coh u d3 st3" by (rule d3(6) [OF that])
    qed (simp_all add: st4(2))
    show "counter_of (bump ?t d3) u = counter_of d0 u + (if u = ?t \<or> rows_of ?d u \<noteq> rows_of d0 u then 1 else 0)"
      if "u \<in> shadows" for u using that d3(5) d(5) by simp
  qed (simp add: d3(2))
  with st1(1) st2 s3(1) st4(1) d3(1) show ?thesis by (auto simp: settle_write_def vbind_def)
qed

lemma delete_settled:
  assumes d0: "tracked V d0" "coherent d0 st" and t: "shadow_table v \<in> shadows"
    and own: "own_data_only (shadow_table v) d0 (db conn)"
    and gone: "map_of (rows_of (db conn) (shadow_table v)) = (map_of (rows_of d0 (shadow_table v)))(i := None)"
  shows "\<exists>s'. vbind (clear_row_revision (shadow_table v) i) (\<lambda>_. vbind (bump_rowset_revision_for (shadow_table v))
      (\<lambda>_. refresh_cascaded_revision_metadata v (all_counts d0))) (conn, st) = Inr ((), s')
    \<and> settled V (shadow_table v) d0 s' \<and> data_tables (db (fst s')) = data_tables (db conn)"
proof -
  let ?t = "shadow_table v" and ?d = "db conn"
  let ?r = "(row_digests V (rows_of d0 ?t))(i := None)"
  let ?d1 = "set_rev (rev_table ?t) ?r ?d" and ?st1 = "uncache_row_digest ?t i st"
  note d = after_exec [OF d0(1) own]
  have c1: "clear_row_revision ?t i (conn, st) = Inr ((), (set_db ?d1 conn, ?st1))"
    by (rule clear_row_revision_eq [OF d(1) [OF t]])
  obtain st2 where st2: "bump_rowset_revision_for ?t (set_db ?d1 conn, ?st1) =
      Inr ((), (set_db (bump ?t ?d1) conn, st2))" "row_cache st2 = row_cache ?st1"
    using bump_eq [of ?t "set_db ?d1 conn" ?st1] by auto
  let ?d2 = "bump ?t ?d1"
  have "\<exists>s'. refresh_cascaded_revision_metadata v (all_counts d0) (set_db ?d2 conn, st2) = Inr ((), s')
      \<and> cascaded V (shadows - {?t}) d0 (set_db ?d2 conn, st2) s'"
  proof (rule refresh_cascaded_eq)
    show "pending V d0 (db (set_db ?d2 conn)) u" if "u \<in> shadows" "u \<noteq> ?t" for u
      by (rule pending_after [OF d0(1) own _ t _ that]) simp_all
  qed
  then obtain s3 where s3: "refresh_cascaded_revision_metadata v (all_counts d0) (set_db ?d2 conn, st2) = Inr ((), s3)"
    "cascaded V (shadows - {?t}) d0 (set_db ?d2 conn, st2) s3" by blast
  obtain d3 st3 where d3: "s3 = (set_db d3 conn, st3)" "data_tables d3 = data_tables ?d"
    "\<And>u. u \<in> shadows - {?t} \<Longrightarrow> exact V u d3" "rev_tables d3 (rev_table ?t) = Some ?r"
    "\<And>u. counter_of d3 u = counter_of ?d2 u + (if u \<in> shadows - {?t} \<and> rows_of ?d u \<noteq> rows_of d0 u then 1 else 0)"
    "\<And>u. u \<in> shadows \<Longrightarrow> coh u ?d2 st2 \<Longrightarrow> coh u d3 st3"
    by (rule cascadedD [OF s3(2)]) (use t in auto)
  have rows3: "rows_of d3 = rows_of ?d" by (rule rows_of_cong [OF d3(2)])
  have dist: "distinct (map fst (rows_of d0 ?t))" "distinct (map fst (rows_of ?d ?t))"
    using d(3,4) [OF t] by (auto simp: rows_ok_def)
  have "?r = row_digests V (rows_of ?d ?t)" by (rule ext) (simp add: digests_lookup dist gone)
  then have "settled V ?t d0 (set_db d3 conn, st3)"
  proof (intro settledI [OF d0(1) own t])
    show "exact V ?t d3" if "?r = row_digests V (rows_of ?d ?t)" using that d3(4) rows3 by (simp add: exact_def)
    show "coh u d3 st3" if "u \<in> shadows" for u
    proof (rule d3(6) [OF that], rule coh_same)
      show "coh u ?d1 ?st1"
        by (rule coh_set [OF t that coherent_after_exec [OF d0(2) own that] _ d(1) [OF t]])
          (simp add: uncache_row_digest_def)
    qed (simp_all add: st2(2))
    show "counter_of d3 u = counter_of d0 u + (if u = ?t \<or> rows_of ?d u \<noteq> rows_of d0 u then 1 else 0)"
      if "u \<in> shadows" for u using that d3(5) d(5) by simp
  qed (use d3(2,3) in auto)
  with c1 st2 s3(1) d3(1,2) show ?thesis by (auto simp: vbind_def)
qed

lemma counts_if_eq:
  "tracked V (db conn) \<Longrightarrow> counts_if b (conn, st) =
     Inr (if b then Some (all_counts (db conn)) else None, (conn, st))"
  using row_counts_eq [of V conn st] by (simp add: counts_if_def vbind_def vreturn_def)

lemma settle_write_settled:
  assumes "tracked V d0" "coherent d0 st" and "shadow_table v \<in> shadows"
    and "writes_row mode (shadow_table v) i d0 (db conn)"
  shows "\<exists>s'. settle_write V v (if mode = OnReplace then Some (all_counts d0) else None) i (conn, st) = Inr ((), s')
    \<and> settled V (shadow_table v) d0 s'"
  using settle_write_plain [OF assms] settle_write_replace [OF assms] by simp

text \<open>The three writes on the rows: each changes nothing or leaves a settled state.\<close>

abbreviation written :: "sql_env \<Rightarrow> string \<Rightarrow> storage \<Rightarrow> storage \<Rightarrow> bool" where
  "written V t s s' \<equiv> s' = s \<or> settled V t (db (fst s)) s'"

lemma insert_row_written:
  assumes ok: "engine_ok E" "shadow_table v \<in> shadows" "tracked V (db conn)" "coherent (db conn) st"
    and a: "insert_row V E v requested vals nulls mode (conn, st) = Inr (i, s')"
  shows "settled V (shadow_table v) (db conn) s'"
proof -
  let ?before = "if mode = OnReplace then Some (all_counts (db conn)) else None"
  from a obtain n d1 where e: "exec_insert E mode (shadow_table v) (included_columns v vals nulls) (db conn) = Inr ((n, i), d1)"
    and n: "n \<noteq> 0" and w: "settle_write V v ?before i (set_db d1 conn, st) = Inr ((), s')"
    using counts_if_eq [OF ok(3), of "mode = OnReplace" st]
    by (auto simp: insert_row_def vbind_Inr statement_def split: option.splits sum.splits if_splits)
  from e n ok(1) have "writes_row mode (shadow_table v) i (db conn) (db (set_db d1 conn))"
    unfolding engine_ok_def by fastforce
  with settle_write_settled [OF ok(3,4,2) this] w show ?thesis by auto
qed

lemma update_row_written:
  assumes ok: "engine_ok E" "shadow_table v \<in> shadows" "tracked V (db conn)" "coherent (db conn) st"
    and a: "update_row V E v i vals no_change mode (conn, st) = Inr ((), s')"
    and k: "keeps_rowid E (shadow_table v) (changed_columns v vals no_change) i"
  shows "written V (shadow_table v) (conn, st) s'"
proof -
  let ?before = "if mode = OnReplace then Some (all_counts (db conn)) else None"
  consider "s' = (conn, st)"
    | n d1 where "exec_update E mode (shadow_table v) (changed_columns v vals no_change) i (db conn) = Inr (n, d1)"
      "if n = 0 then s' = (set_db d1 conn, st) else settle_write V v ?before i (set_db d1 conn, st) = Inr ((), s')"
    using a counts_if_eq [OF ok(3), of "mode = OnReplace" st]
    by (auto simp: update_row_def vbind_Inr statement_def split: sum.splits if_splits)
  then show ?thesis
  proof cases
    case 2
    from 2(1) k ok(1) have law: "if n = 0 then d1 = db conn else writes_row mode (shadow_table v) i (db conn) d1"
      unfolding engine_ok_def by blast
    show ?thesis
    proof (cases "n = 0")
      case False
      with law have "writes_row mode (shadow_table v) i (db conn) (db (set_db d1 conn))" by simp
      with settle_write_settled [OF ok(3,4,2) this] 2(2) False show ?thesis by auto
    qed (use law 2(2) in simp)
  qed simp
qed

lemma delete_row_written:
  assumes ok: "engine_ok E" "shadow_table v \<in> shadows" "tracked V (db conn)" "coherent (db conn) st"
    and a: "delete_row E v i (conn, st) = Inr ((), s')"
  shows "written V (shadow_table v) (conn, st) s'"
proof -
  let ?rest = "vbind (clear_row_revision (shadow_table v) i) (\<lambda>_. vbind (bump_rowset_revision_for (shadow_table v))
      (\<lambda>_. refresh_cascaded_revision_metadata v (all_counts (db conn))))"
  from a obtain n d1 where e: "exec_delete E (shadow_table v) i (db conn) = Inr (n, d1)"
    and w: "if n = 0 then s' = (set_db d1 conn, st) else ?rest (set_db d1 conn, st) = Inr ((), s')"
    using row_counts_eq [OF ok(3), of st]
    by (auto simp: delete_row_def vbind_Inr statement_def split: sum.splits if_splits)
  from e ok(1) have law: "if n = 0 then d1 = db conn else own_data_only (shadow_table v) (db conn) d1
      \<and> map_of (rows_of d1 (shadow_table v)) = (map_of (rows_of (db conn) (shadow_table v)))(i := None)"
    unfolding engine_ok_def by blast
  show ?thesis
  proof (cases "n = 0")
    case False
    with law have "own_data_only (shadow_table v) (db conn) (db (set_db d1 conn))"
      "map_of (rows_of (db (set_db d1 conn)) (shadow_table v)) = (map_of (rows_of (db conn) (shadow_table v)))(i := None)"
      by simp_all
    from delete_settled [OF ok(3,4,2) this] w False show ?thesis by auto
  qed (use law w in simp)
qed

section \<open>The connected table\<close>

lemma last_rowid_column_append:
  "last_rowid_column n (xs @ ys) acc = last_rowid_column (n + length xs) ys (last_rowid_column n xs acc)"
  by (induction xs arbitrary: n acc) auto

lemma last_rowid_column_none: "\<forall>ci \<in> set cis. \<not> is_rowid_column ci \<Longrightarrow> last_rowid_column n cis acc = acc"
  by (induction cis arbitrary: n) auto

lemma connect_rowid:
  assumes "connect E argv = Inr (schema, v)" and "rowid_alias E (shadow_table v) = Some c"
  shows "\<exists>k < length (vt_columns v). rowid_column_index v = Some k \<and> vt_columns v ! k = c"
proof -
  let ?info = "table_info E (shadow_table v)"
  from assms(1) have v: "vt_columns v = map (text_or_empty \<circ> ci_name) ?info" "rowid_column_index v = last_rowid_column 0 ?info None"
    by (auto simp: connect_def Let_def split: if_splits)
  from assms(2) obtain ci where ci: "filter (\<lambda>ci. 0 < ci_pk ci) ?info = [ci]" "is_rowid_column ci"
      "c = text_or_empty (ci_name ci)"
    by (auto simp: rowid_alias_def split: list.splits if_splits)
  from ci(1) obtain us vs where i: "?info = us @ ci # vs" and others: "\<forall>x \<in> set us. \<not> 0 < ci_pk x"
      "filter (\<lambda>ci. 0 < ci_pk ci) vs = []"
    unfolding filter_eq_Cons_iff by auto
  have "\<forall>x \<in> set us. \<not> is_rowid_column x" "\<forall>x \<in> set vs. \<not> is_rowid_column x"
    using others by (auto simp: is_rowid_column_def filter_empty_conv)
  then have "rowid_column_index v = Some (length us)"
    using v(2) i ci(2) by (simp add: last_rowid_column_append last_rowid_column_none)
  moreover have "vt_columns v ! length us = c" "length us < length (vt_columns v)"
    using v(1) i ci(3) by (simp_all add: nth_append)
  ultimately show ?thesis by blast
qed

lemma changed_columnsD:
  assumes "(c, x) \<in> set (changed_columns v vals no_change)"
  obtains j where "j < length (vt_columns v)" "j < length vals" "vt_columns v ! j = c" "vals ! j = x" "\<not> no_change ! j"
  using assms by (force simp: changed_columns_def set_zip)

lemma guarded_update_keeps_rowid:
  assumes "engine_ok E" and "connect E argv = Inr (schema, v)" and "\<not> rowid_changed v i vals no_change"
  shows "keeps_rowid E (shadow_table v) (changed_columns v vals no_change) i"
  unfolding keeps_rowid_def
proof (intro allI impI)
  fix c x
  assume al: "rowid_alias E (shadow_table v) = Some c" and "(c, x) \<in> set (changed_columns v vals no_change)"
  then obtain j where j: "j < length (vt_columns v)" "j < length vals" "vt_columns v ! j = c" "vals ! j = x" "\<not> no_change ! j"
    using changed_columnsD by blast
  obtain k where k: "k < length (vt_columns v)" "rowid_column_index v = Some k" "vt_columns v ! k = c"
    using connect_rowid [OF assms(2) al] by blast
  have "distinct (vt_columns v)"
    using assms(1,2) by (auto simp: engine_ok_def connect_def Let_def split: if_splits)
  with j(1,3) k(1,3) have "j = k" using nth_eq_iff_index_eq by metis
  with assms(3) k(2) j show "x = SqlInteger (of_int i)" by (auto simp: rowid_changed_def)
qed

text \<open>A write by SQLite through one of the three callbacks that succeeds.\<close>

definition vtab_write :: "sql_env \<Rightarrow> sql_engine \<Rightarrow> reactive_vtab \<Rightarrow> storage \<Rightarrow> storage \<Rightarrow> bool" where
  "vtab_write V E v s s' \<longleftrightarrow>
     (\<exists>argv mode i. vtab_insert V E v argv mode s = Inr (i, s'))
   \<or> (\<exists>argv mode. vtab_update V E v argv mode s = Inr ((), s'))
   \<or> (\<exists>a. vtab_delete E v a s = Inr ((), s'))"

lemma vtab_write_written:
  assumes "engine_ok E" "connect E argv = Inr (schema, v)" "shadow_table v \<in> shadows"
    and "tracked V (db conn)" "coherent (db conn) st" and "vtab_write V E v (conn, st) s'"
  shows "written V (shadow_table v) (conn, st) s'"
proof -
  consider (ins) a mode i where "vtab_insert V E v a mode (conn, st) = Inr (i, s')"
    | (upd) a mode where "vtab_update V E v a mode (conn, st) = Inr ((), s')"
    | (del) a where "vtab_delete E v a (conn, st) = Inr ((), s')"
    using assms(6) unfolding vtab_write_def by blast
  then show ?thesis
  proof cases
    case ins
    then obtain r vals nulls where "insert_row V E v r vals nulls mode (conn, st) = Inr (i, s')"
      by (auto simp: vtab_insert_def Let_def split: sum.splits sql_value.splits)
    from insert_row_written [OF assms(1,3-5) this] show ?thesis by simp
  next
    case upd
    then obtain i vals no_change where "update_row V E v i vals no_change mode (conn, st) = Inr ((), s')"
        "\<not> rowid_changed v i vals no_change"
      by (auto simp: vtab_update_def Let_def split: sum.splits sql_value.splits option.splits if_splits)
    from update_row_written [OF assms(1,3-5) this(1) guarded_update_keeps_rowid [OF assms(1,2) this(2)]]
    show ?thesis .
  next
    case del
    then obtain i where "delete_row E v i (conn, st) = Inr ((), s')"
      by (auto simp: vtab_delete_def split: sql_value.splits)
    from delete_row_written [OF assms(1,3-5) this] show ?thesis .
  qed
qed

text \<open>
  C5. Every write SQLite makes through a reactive table (insert, update or delete, with any
  conflict clause) keeps the revisions exact: afterwards each row of every reactive table has
  exactly its current digest stored, rows deleted by cascades or replaced have none, the
  cache holds no other digest, and the counter of every table whose rows changed has moved
  by one, while a table the write left alone keeps its counter unless it is the one written.
\<close>

theorem vtab_writes_keep_revisions:
  assumes "engine_ok E" "connect E argv = Inr (schema, v)" "shadow_table v \<in> shadows"
    and "tracked V (db conn)" "coherent (db conn) st" and "vtab_write V E v (conn, st) (conn', st')"
  shows "tracked V (db conn') \<and> coherent (db conn') st' \<and> (\<forall>t \<in> shadows.
    (rows_of (db conn') t \<noteq> rows_of (db conn) t \<longrightarrow> counter_of (db conn') t = counter_of (db conn) t + 1) \<and>
    (t \<noteq> shadow_table v \<and> rows_of (db conn') t = rows_of (db conn) t \<longrightarrow> counter_of (db conn') t = counter_of (db conn) t))"
  using vtab_write_written [OF assms] assms(4,5) by (auto simp: settled_def)

section \<open>An engine\<close>

text \<open>
  An engine that meets the laws: two columns, no constraints, and goals that refer to a phase
  by their second column and are deleted with it.
\<close>

definition toy_next :: "(int \<times> sql_value list) list \<Rightarrow> int" where
  "toy_next rows = fold max (map fst rows) 0 + 1"

definition toy_delete :: "string \<Rightarrow> int \<Rightarrow> database \<Rightarrow> string \<Rightarrow> (int \<times> sql_value list) list \<Rightarrow> (int \<times> sql_value list) list" where
  "toy_delete t i d u rows =
     (if u = t then filter (\<lambda>r. fst r \<noteq> i) rows
      else if t = ''phases_data'' \<and> u = ''goals_data'' then filter (\<lambda>r. snd r \<noteq> [SqlInteger (of_int i)]) rows
      else rows)"

definition toy_engine :: sql_engine where
  "toy_engine = \<lparr>
     table_info = (\<lambda>t. [\<lparr>ci_name = Some ''id'', ci_type = Some ''INTEGER'', ci_notnull = 0, ci_default = None, ci_pk = 1\<rparr>,
       \<lparr>ci_name = Some ''parent'', ci_type = Some ''INTEGER'', ci_notnull = 0, ci_default = None, ci_pk = 0\<rparr>]),
     exec_insert = (\<lambda>mode t vals d. case data_tables d t of
         None \<Rightarrow> Inl (no_such_table t)
       | Some rows \<Rightarrow>
           (if toy_next rows \<le> 2 ^ 63 - 1 then
              Inr ((1, toy_next rows), d\<lparr>data_tables := (data_tables d)(t \<mapsto> rows @ [(toy_next rows, map snd vals)])\<rparr>)
            else Inl ''database or disk is full'')),
     exec_update = (\<lambda>mode t vals i d. case data_tables d t of
         None \<Rightarrow> Inl (no_such_table t)
       | Some rows \<Rightarrow>
           (if i \<in> fst ` set rows then
              Inr (1, d\<lparr>data_tables := (data_tables d)(t \<mapsto> map (\<lambda>(k, row). (k, if k = i then map snd vals else row)) rows)\<rparr>)
            else Inr (0, d))),
     exec_delete = (\<lambda>t i d. case data_tables d t of
         None \<Rightarrow> Inl (no_such_table t)
       | Some rows \<Rightarrow>
           (if i \<in> fst ` set rows then Inr (1, d\<lparr>data_tables := (\<lambda>u. map_option (toy_delete t i d u) (data_tables d u))\<rparr>)
            else Inr (0, d)))\<rparr>"

lemma toy_next_fresh: "i \<in> fst ` set rows \<Longrightarrow> i < toy_next rows" "0 < toy_next rows"
proof -
  have m: "a \<le> fold max xs (a::int) \<and> (\<forall>x \<in> set xs. x \<le> fold max xs a)" for xs a
    by (induction xs arbitrary: a) force+
  show "i < toy_next rows" if "i \<in> fst ` set rows"
    using m [of 0 "map fst rows"] that by (auto simp: toy_next_def)
  show "0 < toy_next rows" using m [of 0 "map fst rows"] by (simp add: toy_next_def)
qed

lemma map_of_replace:
  "j \<noteq> i \<Longrightarrow> map_of (map (\<lambda>(k, row). (k, if k = i then x else row)) rows) j = map_of rows j"
  by (induction rows) auto

lemma map_of_filter_id: "map_of (filter (\<lambda>r. fst r \<noteq> i) rows) = (map_of rows)(i := None)"
  by (induction rows) (auto simp: fun_eq_iff)

lemma map_fst_replace:
  "map fst (map (\<lambda>(k, row). (k, if k = i then x else row)) rows) = map fst rows"
  "fst ` set (map (\<lambda>(k, row). (k, if k = i then x else row)) rows) = fst ` set rows"
  by (simp_all add: case_prod_unfold comp_def image_image)

lemma rows_of_upd: "rows_of (d\<lparr>data_tables := (data_tables d)(t \<mapsto> rows)\<rparr>) u = (if u = t then rows else rows_of d u)"
  by (simp add: rows_of_def)

lemma toy_insert_law:
  assumes "exec_insert toy_engine mode t vals d = Inr ((n, i), d')"
  shows "if n = 0 then d' = d else writes_row mode t i d d'"
proof -
  from assms obtain rows where rows: "data_tables d t = Some rows" and b: "toy_next rows \<le> 2 ^ 63 - 1"
    and r: "n = 1" "i = toy_next rows" "d' = d\<lparr>data_tables := (data_tables d)(t \<mapsto> rows @ [(toy_next rows, map snd vals)])\<rparr>"
    by (auto simp: toy_engine_def split: option.splits if_splits)
  have rt: "rows_of d t = rows" using rows by (simp add: rows_of_def)
  have "rows_ok (rows @ [(i, map snd vals)])" if "rows_ok rows"
    using that toy_next_fresh [where rows = rows] b r(2) by (force simp: rows_ok_def)
  then have "own_data_only t d d'"
    using rows r rt by (auto simp: own_data_only_def rows_of_upd)
  moreover have "map_of (rows_of d' t) j = map_of (rows_of d t) j" if "j \<noteq> i" for j
    using that r rt by (simp add: rows_of_upd map_add_def split: option.split)
  ultimately show ?thesis using r by (simp add: writes_row_def rows_of_upd)
qed

lemma toy_update_law:
  assumes "exec_update toy_engine mode t vals i d = Inr (n, d')"
  shows "if n = 0 then d' = d else writes_row mode t i d d'"
proof -
  from assms obtain rows where rows: "data_tables d t = Some rows"
    and r: "n = 0 \<and> d' = d \<or> n = 1 \<and> i \<in> fst ` set rows \<and>
      d' = d\<lparr>data_tables := (data_tables d)(t \<mapsto> map (\<lambda>(k, row). (k, if k = i then map snd vals else row)) rows)\<rparr>"
    by (auto simp: toy_engine_def split: option.splits if_splits)
  have rt: "rows_of d t = rows" using rows by (simp add: rows_of_def)
  show ?thesis
  proof (cases "n = 0")
    case False
    with r have n: "i \<in> fst ` set rows"
      "d' = d\<lparr>data_tables := (data_tables d)(t \<mapsto> map (\<lambda>(k, row). (k, if k = i then map snd vals else row)) rows)\<rparr>" by auto
    have "own_data_only t d d'"
      using rows rt n(2) by (auto simp: own_data_only_def rows_of_upd rows_ok_def map_fst_replace simp del: map_map set_map list.map_comp)
    then show ?thesis using False n rt by (simp add: writes_row_def rows_of_upd map_of_replace)
  qed (use r in auto)
qed

lemma toy_delete_law:
  assumes "exec_delete toy_engine t i d = Inr (n, d')"
  shows "if n = 0 then d' = d else own_data_only t d d' \<and> map_of (rows_of d' t) = (map_of (rows_of d t))(i := None)"
proof -
  from assms obtain rows where rows: "data_tables d t = Some rows"
    and r: "n = 0 \<and> d' = d \<or> n = 1 \<and> d' = d\<lparr>data_tables := (\<lambda>u. map_option (toy_delete t i d u) (data_tables d u))\<rparr>"
    by (auto simp: toy_engine_def split: option.splits if_splits)
  show ?thesis
  proof (cases "n = 0")
    case False
    with r have d': "d' = d\<lparr>data_tables := (\<lambda>u. map_option (toy_delete t i d u) (data_tables d u))\<rparr>" by auto
    then have rows': "rows_of d' u = toy_delete t i d u (rows_of d u)" for u
      by (simp add: rows_of_def toy_delete_def split: option.split)
    have sub: "subseq (toy_delete t i d u rs) rs" for u rs by (simp add: toy_delete_def)
    then have "own_data_only t d d'"
      unfolding own_data_only_def rows' using subseq_rows_ok [OF sub] d' by (auto simp: dom_def)
    then show ?thesis using False by (simp add: rows') (simp add: toy_delete_def map_of_filter_id)
  qed (use r in auto)
qed

lemma toy_engine_ok: "engine_ok toy_engine"
  unfolding engine_ok_def
  by (intro conjI allI impI toy_insert_law toy_update_law toy_delete_law) (simp_all add: toy_engine_def text_or_empty_def)

definition toy_vtab :: reactive_vtab where
  "toy_vtab = \<lparr>vt_name = ''phases'', shadow_table = ''phases_data'', vt_columns = [''id'', ''parent''],
     column_defaults = [None, None], rowid_column_index = Some 0\<rparr>"

lemma toy_connect: "connect toy_engine [''reactive'', ''main'', ''phases'', ''phases_data''] =
    Inr (''CREATE TABLE x('' @ join_with '', '' (map schema_part (table_info toy_engine ''phases_data'')) @ '')'', toy_vtab)"
  by (simp add: connect_def toy_engine_def toy_vtab_def text_or_empty_def is_rowid_column_def
      eq_ignore_ascii_case_def ascii_lower_def)

definition toy_rows :: "string \<Rightarrow> (int \<times> sql_value list) list" where
  "toy_rows t = (if t = ''phases_data'' then [(1, [SqlNull]), (2, [SqlNull])]
     else if t = ''goals_data'' then [(5, [SqlInteger 1]), (6, [SqlInteger 2])] else [])"

definition toy_tables :: connection where
  "toy_tables = \<lparr>db = \<lparr>data_tables = map_of (map (\<lambda>t. (t, toy_rows t)) (map snd reactive_tables)),
     rev_tables = map_of (map (\<lambda>t. (rev_table t, row_digests toy_sql (toy_rows t))) (map snd reactive_tables)),
     counters = Map.empty\<rparr>, saved = None\<rparr>"

lemma map_of_inj: "inj_on f (set ts) \<Longrightarrow> t \<in> set ts \<Longrightarrow> map_of (map (\<lambda>t. (f t, g t)) ts) (f t) = Some (g t)"
  by (induction ts) (auto simp: inj_on_def)

lemma toy_data: "t \<in> shadows \<Longrightarrow> data_tables (db toy_tables) t = Some (toy_rows t)"
  using map_of_inj [of id "map snd reactive_tables" t toy_rows] by (simp add: toy_tables_def shadows_def comp_def)

lemma toy_tracked: "tracked toy_sql (db toy_tables)"
  unfolding tracked_def
proof
  fix t
  assume t: "t \<in> shadows"
  have rows: "rows_of (db toy_tables) t = toy_rows t" using toy_data [OF t] by (simp add: rows_of_def)
  have "rev_tables (db toy_tables) (rev_table t) = Some (row_digests toy_sql (toy_rows t))"
    unfolding toy_tables_def using map_of_inj [OF _ t [unfolded shadows_def], of rev_table] inj_rev_table
    by (simp add: shadows_def)
  moreover have "rows_ok (toy_rows t)" by (auto simp: toy_rows_def rows_ok_def)
  ultimately show "data_tables (db toy_tables) t \<noteq> None \<and> rows_ok (rows_of (db toy_tables) t) \<and>
      rev_tables (db toy_tables) (rev_table t) = Some (row_digests toy_sql (rows_of (db toy_tables) t))"
    using toy_data [OF t] rows by simp
qed

lemma toy_coherent: "coherent (db toy_tables) (store_new toy_tables)"
  by (simp add: coherent_def store_new_def)

lemma toy_shadows: "''phases_data'' \<in> shadows" "''goals_data'' \<in> shadows" "shadow_table toy_vtab = ''phases_data''"
  by (simp_all add: shadows_def reactive_tables_def toy_vtab_def)

lemma toy_deletes:
  "\<exists>conn' st'. vtab_delete toy_engine toy_vtab (SqlInteger 1) (toy_tables, store_new toy_tables) = Inr ((), (conn', st'))
     \<and> rows_of (db conn') ''goals_data'' = [(6, [SqlInteger 2])]"
proof -
  let ?old = "db toy_tables"
  let ?new = "?old\<lparr>data_tables := (\<lambda>u. map_option (toy_delete ''phases_data'' 1 ?old u) (data_tables ?old u))\<rparr>"
  have ex: "exec_delete toy_engine ''phases_data'' 1 ?old = Inr (1, ?new)"
    using toy_data [OF toy_shadows(1)] by (simp add: toy_engine_def toy_rows_def)
  from toy_delete_law [OF ex] have law: "own_data_only ''phases_data'' ?old ?new"
    "map_of (rows_of ?new ''phases_data'') = (map_of (rows_of ?old ''phases_data''))(1 := None)" by simp_all
  obtain s' where "vbind (clear_row_revision ''phases_data'' 1) (\<lambda>_. vbind (bump_rowset_revision_for ''phases_data'')
      (\<lambda>_. refresh_cascaded_revision_metadata toy_vtab (all_counts ?old))) (set_db ?new toy_tables, store_new toy_tables) = Inr ((), s')"
    "data_tables (db (fst s')) = data_tables ?new"
    using delete_settled [OF toy_tracked toy_coherent, of toy_vtab "set_db ?new toy_tables" 1] law toy_shadows
    by (auto simp del: split_paired_Ex)
  moreover from this have "rows_of (db (fst s')) ''goals_data'' = [(6, [SqlInteger 2])]"
    using toy_data [OF toy_shadows(2)] by (simp add: rows_of_def toy_delete_def toy_rows_def)
  ultimately show ?thesis
    using ex row_counts_eq [OF toy_tracked, of "store_new toy_tables"] toy_shadows(3)
    by (cases s') (simp add: vtab_delete_def delete_row_def vbind_def statement_def)
qed

theorem vtab_writes_keep_revisions_witness:
  "\<exists>conn' st'. vtab_delete toy_engine toy_vtab (SqlInteger 1) (toy_tables, store_new toy_tables) = Inr ((), (conn', st'))
     \<and> tracked toy_sql (db conn') \<and> counter_of (db conn') ''goals_data'' = 1"
proof -
  obtain conn' st' where w: "vtab_delete toy_engine toy_vtab (SqlInteger 1) (toy_tables, store_new toy_tables) = Inr ((), (conn', st'))"
    "rows_of (db conn') ''goals_data'' = [(6, [SqlInteger 2])]" using toy_deletes by blast
  have "vtab_write toy_sql toy_engine toy_vtab (toy_tables, store_new toy_tables) (conn', st')"
    unfolding vtab_write_def using w(1) by blast
  note vtab_writes_keep_revisions [OF toy_engine_ok toy_connect _ toy_tracked toy_coherent this]
  moreover have "rows_of (db toy_tables) ''goals_data'' \<noteq> rows_of (db conn') ''goals_data''"
    using w(2) toy_data [OF toy_shadows(2)] by (simp add: rows_of_def toy_rows_def)
  moreover have "counter_of (db toy_tables) ''goals_data'' = 0" by (simp add: counter_of_def toy_tables_def)
  ultimately show ?thesis using w(1) toy_shadows by auto
qed

section \<open>Reading through the table\<close>

text \<open>
  SQLite's loop over a cursor: it asks for the columns it needs of every row. \<open>scan\<close> is one
  such query in a scope of its own; its result is the trace.
\<close>

fun scan_rows :: "sql_env \<Rightarrow> reactive_vtab \<Rightarrow> nat list \<Rightarrow> nat \<Rightarrow> cursor \<Rightarrow> scope \<Rightarrow> scope" where
  "scan_rows V v cols 0 cur sc = sc"
| "scan_rows V v cols (Suc n) cur sc =
     (if cursor_eof cur then sc
      else scan_rows V v cols n (cursor_next cur) (fold (\<lambda>col sc. fst (cursor_column V v False col cur sc)) cols sc))"

definition scan :: "sql_env \<Rightarrow> reactive_vtab \<Rightarrow> nat list \<Rightarrow> storage \<Rightarrow> scope \<Rightarrow> scope \<times> storage" where
  "scan V v cols s sc =
     (case cursor_filter v (s, sc, cursor_new) of
        (s', sc', Inl e) \<Rightarrow> (sc', s')
      | (s', sc', Inr cur) \<Rightarrow> (scan_rows V v cols (length (cursor_rows cur)) cur sc', s'))"

definition query_trace :: "sql_env \<Rightarrow> reactive_vtab \<Rightarrow> nat list \<Rightarrow> storage \<Rightarrow> 'v trace" where
  "query_trace V v cols s = snd (snd (scope_run (scan V v cols s) None))"

definition row_entry :: "sql_env \<Rightarrow> string \<Rightarrow> sql_value list \<Rightarrow> trace_entry" where
  "row_entry V t row = TraceEntry (row_cell_id t (case row of SqlInteger w # _ \<Rightarrow> sint w | _ \<Rightarrow> 0))
     (digest_revision V (compute_row_digest V row))"

lemma cursor_column_scope:
  "current_row cur = Some row \<Longrightarrow> fst (cursor_column V v False col cur (Some es)) =
     Some (bset_insert (row_entry V (shadow_table v) row) es)"
  by (simp add: cursor_column_def scope_record_def row_entry_def cursor_rowid_def)

lemma fold_columns:
  "current_row cur = Some row \<Longrightarrow>
   \<exists>es'. fold (\<lambda>col sc. fst (cursor_column V v False col cur sc)) cols (Some es) = Some es'
     \<and> set es \<subseteq> set es' \<and> set es' \<subseteq> insert (row_entry V (shadow_table v) row) (set es)"
proof (induction cols arbitrary: es)
  case (Cons c cols)
  from Cons.IH [OF Cons.prems, of "bset_insert (row_entry V (shadow_table v) row) es"] Cons.prems show ?case
    by (auto simp: cursor_column_scope)
qed auto

definition cursor_ok :: "cursor \<Rightarrow> bool" where
  "cursor_ok cur \<longleftrightarrow> current_row cur =
     (if position cur < length (cursor_rows cur) then Some (cursor_rows cur ! position cur) else None)"

lemma cursor_ok_next: "cursor_ok (cursor_next cur)" "cursor_rows (cursor_next cur) = cursor_rows cur"
  by (simp_all add: cursor_ok_def cursor_next_def Let_def)

lemma scan_rows_entries:
  "cursor_ok cur \<Longrightarrow> \<exists>es'. scan_rows V v cols n cur (Some es) = Some es' \<and> set es \<subseteq> set es'
     \<and> set es' \<subseteq> set es \<union> row_entry V (shadow_table v) ` set (cursor_rows cur)"
proof (induction n arbitrary: cur es)
  case (Suc n)
  show ?case
  proof (cases "cursor_eof cur")
    case False
    then have cur: "current_row cur = Some (cursor_rows cur ! position cur)" "position cur < length (cursor_rows cur)"
      using Suc.prems by (auto simp: cursor_ok_def cursor_eof_def)
    obtain es1 where es1: "fold (\<lambda>col sc. fst (cursor_column V v False col cur sc)) cols (Some es) = Some es1"
      "set es \<subseteq> set es1" "set es1 \<subseteq> insert (row_entry V (shadow_table v) (cursor_rows cur ! position cur)) (set es)"
      using fold_columns [OF cur(1), of V v cols es] by blast
    obtain es2 where "scan_rows V v cols n (cursor_next cur) (Some es1) = Some es2" "set es1 \<subseteq> set es2"
      "set es2 \<subseteq> set es1 \<union> row_entry V (shadow_table v) ` set (cursor_rows cur)"
      using Suc.IH [OF cursor_ok_next(1), of cur es1] by (auto simp: cursor_ok_next(2))
    moreover have "cursor_rows cur ! position cur \<in> set (cursor_rows cur)" using cur(2) by (rule nth_mem)
    ultimately show ?thesis using False es1 by auto
  qed simp
qed simp

lemma query_trace_entries:
  assumes "data_tables (db conn) (shadow_table v) \<noteq> None" and "rows_ok (rows_of (db conn) (shadow_table v))"
  shows "TraceEntry (table_membership_cell_id (shadow_table v)) (Counter (of_int (counter_of (db conn) (shadow_table v))))
      \<in> set (dependencies (query_trace V v cols (conn, st) :: 'v trace))"
    and "e \<in> set (dependencies (query_trace V v cols (conn, st) :: 'v trace)) \<Longrightarrow>
      e = TraceEntry (table_membership_cell_id (shadow_table v)) (Counter (of_int (counter_of (db conn) (shadow_table v))))
    \<or> (\<exists>i. e = TraceEntry (row_cell_id (shadow_table v) i)
          (digest_revision V (the (row_digests V (rows_of (db conn) (shadow_table v)) i)))
        \<and> i \<in> fst ` set (rows_of (db conn) (shadow_table v)))"
proof -
  let ?t = "shadow_table v" and ?rows = "rows_of (db conn) (shadow_table v)"
  let ?m = "TraceEntry (table_membership_cell_id ?t) (Counter (of_int (counter_of (db conn) ?t)))"
  let ?rs = "map (\<lambda>(rowid, row). SqlInteger (of_int rowid) # row) ?rows"
  let ?cur = "\<lparr>current_row = (if ?rs = [] then None else Some (hd ?rs)), cursor_rows = ?rs, position = 0\<rparr>"
  have "rowset_counter_raw ?t (db conn) = of_int (counter_of (db conn) ?t)"
    by (simp add: rowset_counter_raw_def counter_of_def split: option.split)
  then have scan: "fst (scan V v cols (conn, st) (Some [])) = scan_rows V v cols (length ?rs) ?cur (Some [?m])"
    using rows_of_eq [OF assms(1)]
    by (simp add: scan_def cursor_filter_def fetch_rows_def Let_def scope_record_def counter_revision_def bset_insert_def)
  have "cursor_ok ?cur" by (auto simp: cursor_ok_def hd_conv_nth)
  from scan_rows_entries [OF this, of V v cols "length ?rs" "[?m]"] obtain es where
    es: "fst (scan V v cols (conn, st) (Some [])) = Some es" "?m \<in> set es" "set es \<subseteq> {?m} \<union> row_entry V ?t ` set ?rs"
    unfolding scan by auto
  have deps: "dependencies (query_trace V v cols (conn, st) :: 'v trace) = es"
    using es(1) by (cases "scan V v cols (conn, st) (Some [])") (simp add: query_trace_def scope_run_def)
  show "?m \<in> set (dependencies (query_trace V v cols (conn, st) :: 'v trace))" using es(2) deps by simp
  assume "e \<in> set (dependencies (query_trace V v cols (conn, st) :: 'v trace))"
  with deps es(3) consider "e = ?m" | i row where "(i, row) \<in> set ?rows" "e = row_entry V ?t (SqlInteger (of_int i) # row)"
    by auto
  then show "e = ?m \<or> (\<exists>i. e = TraceEntry (row_cell_id ?t i) (digest_revision V (the (row_digests V ?rows i)))
      \<and> i \<in> fst ` set ?rows)"
  proof cases
    case 2
    have "i \<in> {- (2 ^ 63)..2 ^ 63 - 1}" using 2(1) assms(2) by (auto simp: rows_ok_def)
    then have s: "sint (of_int i :: 64 word) = i" by (intro sint_rowid) auto
    have "map_of ?rows i = Some row" using 2(1) assms(2) by (simp add: rows_ok_def)
    then have "row_digests V ?rows i = Some (compute_row_digest V (SqlInteger (of_int i) # row))"
      using assms(2) by (simp add: digests_lookup rows_ok_def)
    with 2 s show ?thesis by (force simp: row_entry_def)
  qed simp
qed

text \<open>
  A run of writes through reactive tables, with the set of tables that were written or lost
  rows to a cascade.
\<close>

inductive vtab_run :: "sql_env \<Rightarrow> sql_engine \<Rightarrow> string set \<Rightarrow> storage \<Rightarrow> storage \<Rightarrow> bool" for V E where
  idle: "vtab_run V E {} s s"
| step: "vtab_run V E T s s' \<Longrightarrow> connect E argv = Inr (schema, v) \<Longrightarrow> shadow_table v \<in> shadows \<Longrightarrow>
    vtab_write V E v s' s'' \<Longrightarrow>
    vtab_run V E (T \<union> {shadow_table v} \<union> {t \<in> shadows. rows_of (db (fst s'')) t \<noteq> rows_of (db (fst s')) t}) s s''"

lemma vtab_run_tracked:
  assumes "vtab_run V E T s s'" and "engine_ok E" and "tracked V (db (fst s))" "coherent (db (fst s)) (snd s)"
  shows "tracked V (db (fst s')) \<and> coherent (db (fst s')) (snd s')
    \<and> (\<forall>t \<in> shadows. counter_of (db (fst s)) t \<le> counter_of (db (fst s')) t
        \<and> (t \<notin> T \<longrightarrow> counter_of (db (fst s')) t = counter_of (db (fst s)) t)
        \<and> (counter_of (db (fst s')) t = counter_of (db (fst s)) t \<longrightarrow> rows_of (db (fst s')) t = rows_of (db (fst s)) t))"
  using assms
proof (induction rule: vtab_run.induct)
  case (step T s s' argv schema v s'')
  obtain conn st where s': "s' = (conn, st)" by (cases s')
  note IH = step.IH [OF step.prems]
  have "written V (shadow_table v) (conn, st) s''"
    by (rule vtab_write_written [OF step.prems(1) step.hyps(2,3)]) (use IH step.hyps(4) s' in auto)
  then consider "s'' = s'" | "settled V (shadow_table v) (db conn) s''" using s' by auto
  then show ?case
  proof cases
    case 2
    have "counter_of (db (fst s)) t \<le> counter_of (db (fst s'')) t
        \<and> (t \<notin> T \<union> {shadow_table v} \<union> {t \<in> shadows. rows_of (db (fst s'')) t \<noteq> rows_of (db (fst s')) t} \<longrightarrow>
             counter_of (db (fst s'')) t = counter_of (db (fst s)) t)
        \<and> (counter_of (db (fst s'')) t = counter_of (db (fst s)) t \<longrightarrow> rows_of (db (fst s'')) t = rows_of (db (fst s)) t)"
      if t: "t \<in> shadows" for t
    proof -
      have "counter_of (db (fst s'')) t = counter_of (db conn) t +
          (if t = shadow_table v \<or> rows_of (db (fst s'')) t \<noteq> rows_of (db conn) t then 1 else 0)"
        using 2 t by (simp add: settled_def)
      moreover have "counter_of (db (fst s)) t \<le> counter_of (db conn) t
        \<and> (t \<notin> T \<longrightarrow> counter_of (db conn) t = counter_of (db (fst s)) t)
        \<and> (counter_of (db conn) t = counter_of (db (fst s)) t \<longrightarrow> rows_of (db conn) t = rows_of (db (fst s)) t)"
        using IH t s' by simp
      ultimately show ?thesis using s' t by (auto split: if_splits)
    qed
    moreover have "tracked V (db (fst s'')) \<and> coherent (db (fst s'')) (snd s'')" using 2 by (simp add: settled_def)
    ultimately show ?thesis by blast
  qed (use IH in auto)
qed auto

lemma db_revision_members:
  "db_revision V d (table_membership_cell_id t) = Some (Counter (of_int (counter_of d t)))"
  by (simp add: db_revision_def table_membership_cell_id_def cell_root_def counter_of_def)

lemma of_int_u64_eq:
  "0 \<le> a \<Longrightarrow> a < 2 ^ 64 \<Longrightarrow> 0 \<le> b \<Longrightarrow> b < 2 ^ 64 \<Longrightarrow> (of_int a :: u64) = of_int b \<longleftrightarrow> a = b"
  by (simp add: word_of_int_eq_iff take_bit_int_eq_self)

text \<open>
  C2. A query's trace goes stale exactly when it has to: run a query on a reactive table in a
  scope and let any sequence of writes through reactive tables follow. If the rows of the
  table changed, validating the trace answers no, even if a later write restored them; if no
  write was addressed to the table and no cascade removed a row of it, the answer is yes.
\<close>

theorem query_stale_iff_written:
  assumes "engine_ok E" and "shadow_table v \<in> shadows" and "tracked V (db conn)" "coherent (db conn) st"
    and "\<And>s. length (blake3 V s) = 32" and "vtab_run V E T (conn, st) (conn', st')"
    and "0 \<le> counter_of (db conn) (shadow_table v)" and "counter_of (db conn') (shadow_table v) < 2 ^ 64"
  shows "\<exists>s valid. validate (sqlite_get_revision V) (query_trace V v cols (conn, st) :: 'v trace) (conn', st') = Some (s, valid)
    \<and> (valid \<longleftrightarrow> counter_of (db conn') (shadow_table v) = counter_of (db conn) (shadow_table v))
    \<and> (rows_of (db conn') (shadow_table v) \<noteq> rows_of (db conn) (shadow_table v) \<longrightarrow> \<not> valid)
    \<and> (shadow_table v \<notin> T \<longrightarrow> valid)"
proof -
  let ?t = "shadow_table v" and ?tr = "query_trace V v cols (conn, st) :: 'v trace"
  let ?valid = "\<forall>e \<in> set (dependencies ?tr). db_revision V (db conn') (entry_cell e) = Some (entry_revision e)"
  note run = vtab_run_tracked [OF assms(6,1), simplified, OF assms(3,4)]
  have t: "data_tables (db conn) ?t \<noteq> None" "rows_ok (rows_of (db conn) ?t)"
    using assms(2,3) by (auto simp: tracked_def)
  note entries = query_trace_entries [where V = V and cols = cols and st = st, OF t]
  have le: "counter_of (db conn) ?t \<le> counter_of (db conn') ?t" using run assms(2) by auto
  have fwd: "counter_of (db conn') ?t = counter_of (db conn) ?t" if ?valid
    using that entries(1) assms(7,8) le by (force simp: db_revision_members of_int_u64_eq)
  have bwd: ?valid if c: "counter_of (db conn') ?t = counter_of (db conn) ?t"
  proof
    fix e
    assume "e \<in> set (dependencies ?tr)"
    from entries(2) [OF this] show "db_revision V (db conn') (entry_cell e) = Some (entry_revision e)"
    proof (elim disjE exE conjE)
      fix i
      assume e: "e = TraceEntry (row_cell_id ?t i) (digest_revision V (the (row_digests V (rows_of (db conn) ?t) i)))"
        and i: "i \<in> fst ` set (rows_of (db conn) ?t)"
      have rows: "rows_of (db conn') ?t = rows_of (db conn) ?t" using run assms(2) c by auto
      then have rev: "rev_tables (db conn') (rev_table ?t) = Some (row_digests V (rows_of (db conn) ?t))"
        using run assms(2) by (auto simp: tracked_def)
      from i obtain row where "map_of (rows_of (db conn) ?t) i = Some row"
        by (metis domD dom_map_of_conv_image_fst)
      with t(2) have "row_digests V (rows_of (db conn) ?t) i = Some (compute_row_digest V (SqlInteger (of_int i) # row))"
        by (simp add: digests_lookup rows_ok_def)
      moreover have "- (2 ^ 63) \<le> i" "i \<le> 2 ^ 63 - 1" using i t(2) by (auto simp: rows_ok_def)
      ultimately show ?thesis
        using db_revision_row [OF _ _ rev] assms(5) e by (simp add: compute_row_digest_def)
    qed (use c in \<open>simp add: db_revision_members\<close>)
  qed
  obtain st'' where "validate (sqlite_get_revision V) ?tr (conn', st') = Some ((conn', st''), ?valid)"
    using sqlite_validate_eq by blast
  with fwd bwd run assms(2) show ?thesis by (intro exI [of _ "(conn', st'')"] exI [of _ ?valid]) auto
qed

theorem query_stale_iff_written_witness:
  "\<exists>conn' st' s. vtab_delete toy_engine toy_vtab (SqlInteger 1) (toy_tables, store_new toy_tables) = Inr ((), (conn', st'))
     \<and> validate (sqlite_get_revision toy_sql)
         (query_trace toy_sql (toy_vtab\<lparr>shadow_table := ''goals_data''\<rparr>) [0] (toy_tables, store_new toy_tables) :: unit trace)
         (conn', st') = Some (s, False)"
proof -
  let ?v = "toy_vtab\<lparr>shadow_table := ''goals_data''\<rparr>"
  obtain conn' st' where w: "vtab_delete toy_engine toy_vtab (SqlInteger 1) (toy_tables, store_new toy_tables) = Inr ((), (conn', st'))"
    "rows_of (db conn') ''goals_data'' = [(6, [SqlInteger 2])]" using toy_deletes by blast
  have wr: "vtab_write toy_sql toy_engine toy_vtab (toy_tables, store_new toy_tables) (conn', st')"
    unfolding vtab_write_def using w(1) by blast
  have "shadow_table toy_vtab \<in> shadows" using toy_shadows by simp
  note run = vtab_run.step [OF vtab_run.idle toy_connect this wr]
  have ne: "rows_of (db conn') ''goals_data'' \<noteq> rows_of (db toy_tables) ''goals_data''"
    using w(2) toy_data [OF toy_shadows(2)] by (simp add: rows_of_def toy_rows_def)
  have c0: "counter_of (db toy_tables) ''goals_data'' = 0" by (simp add: counter_of_def toy_tables_def)
  have "written toy_sql (shadow_table toy_vtab) (toy_tables, store_new toy_tables) (conn', st')"
    by (rule vtab_write_written [OF toy_engine_ok toy_connect _ toy_tracked toy_coherent wr]) (use toy_shadows in simp)
  with ne c0 toy_shadows have c1: "counter_of (db conn') ''goals_data'' = 1" by (auto simp: settled_def)
  have len: "length (blake3 toy_sql s) = 32" for s by (simp add: toy_sql_def bytes32_def)
  obtain s valid where "validate (sqlite_get_revision toy_sql)
      (query_trace toy_sql ?v [0] (toy_tables, store_new toy_tables) :: unit trace) (conn', st') = Some (s, valid)"
    "\<not> valid"
    using query_stale_iff_written [OF toy_engine_ok _ toy_tracked toy_coherent len run, of ?v "[0]"] ne c0 c1 toy_shadows(2)
    by auto
  with w(1) show ?thesis by simp
qed

end
