(* ===== verification/Writer_Fence.thy ===== *)
theory Writer_Fence
  imports Prelude
begin

text \<open>
  Cross-version writer compatibility, \<open>crates/exosuit-storage/src/compatibility.rs\<close>, and the
  migrations of \<open>migrations.rs\<close> that raise the required generation. SQLite executing a
  statement is a parameter; files, locks and connections are reduced to what the protocol
  depends on: the generation stored in the database, the schema history, who holds the
  compatibility lock in which mode, and how far each process has come.
\<close>

section \<open>Generations\<close>

definition supported_writer_generation :: int where
  "supported_writer_generation = 0"

definition max_writer_generation :: int where
  "max_writer_generation = 2 ^ 31 - 1"

definition projection_generation_prefix :: string where
  "projection_generation_prefix = ''-- exo:minimum-writer-generation=''"

datatype state_surface = Database | Projection

fun surface_str :: "state_surface \<Rightarrow> string" where
  "surface_str Database = ''database''"
| "surface_str Projection = ''projection''"

datatype compatibility_error =
    Incompatible int int state_surface
  | MetadataInvalid state_surface string
  | Busy string
  | Io string

fun error_kind :: "compatibility_error \<Rightarrow> string" where
  "error_kind (Incompatible _ _ _) = ''storage.writer_incompatible''"
| "error_kind (MetadataInvalid _ _) = ''storage.writer_metadata_invalid''"
| "error_kind (Busy _) = ''storage.compatibility_busy''"
| "error_kind (Io _) = ''storage.compatibility_io''"

fun error_surface :: "compatibility_error \<Rightarrow> state_surface option" where
  "error_surface (Incompatible _ _ s) = Some s"
| "error_surface (MetadataInvalid s _) = Some s"
| "error_surface (Busy _) = None"
| "error_surface (Io _) = None"

definition ensure_supported :: "int \<Rightarrow> int \<Rightarrow> state_surface \<Rightarrow> compatibility_error + unit" where
  "ensure_supported supported required surface =
     (if supported < required then Inl (Incompatible required supported surface) else Inr ())"

text \<open>The reasons carry the offending text, as the error messages of the code do.\<close>

definition validate_database_generation :: "int \<Rightarrow> compatibility_error + int" where
  "validate_database_generation g =
     (if g < 0 \<or> max_writer_generation < g then Inl (MetadataInvalid Database (show_int g)) else Inr g)"

definition projection_metadata_invalid :: "string \<Rightarrow> compatibility_error" where
  "projection_metadata_invalid line = MetadataInvalid Projection line"

definition parse_projection_generation :: "string \<Rightarrow> compatibility_error + int" where
  "parse_projection_generation content =
     (case text_lines content of
        [] \<Rightarrow> Inr 0
      | first_line # _ \<Rightarrow>
          (case strip_prefix projection_generation_prefix first_line of
             Some v \<Rightarrow>
               (if v = [] \<or> (length v > 1 \<and> starts_with v ''0'') \<or> \<not> list_all is_digit v
                then Inl (projection_metadata_invalid first_line)
                else case parse_i64 v of
                    None \<Rightarrow> Inl (projection_metadata_invalid first_line)
                  | Some g \<Rightarrow>
                      (if g < 0 \<or> max_writer_generation < g then Inl (projection_metadata_invalid first_line)
                       else Inr g))
           | None \<Rightarrow>
               (if starts_with first_line ''-- exo:minimum-writer-generation''
                then Inl (projection_metadata_invalid first_line) else Inr 0)))"

definition render_projection_generation_header :: "int \<Rightarrow> compatibility_error + string" where
  "render_projection_generation_header g =
     (if g < 0 \<or> max_writer_generation < g then Inl (MetadataInvalid Projection (show_int g))
      else Inr (projection_generation_prefix @ show_int g))"

definition projection_body :: "string \<Rightarrow> string" where
  "projection_body content =
     (case text_lines content of
        line # _ \<Rightarrow>
          (if starts_with line projection_generation_prefix
           then (case split_once_nl content of None \<Rightarrow> [] | Some (_, body) \<Rightarrow> body) else content)
      | [] \<Rightarrow> content)"

definition with_projection_generation :: "string \<Rightarrow> int \<Rightarrow> compatibility_error + string" where
  "with_projection_generation content g =
     and_then (render_projection_generation_header g) (\<lambda>header.
       let body = projection_body content in
       Inr (if body = [] then header @ [nl] else header @ [nl] @ body))"

section \<open>Waiting for a lock, retrying a probe\<close>

text \<open>
  One round of \<open>acquire_with_timeout\<close> is the answer of the lock call and the time read after
  it; the rounds are supplied by the environment.
\<close>

datatype try_lock = Granted | WouldBlock | LockError

fun acquire_loop :: "string \<Rightarrow> nat \<Rightarrow> (try_lock \<times> nat) list \<Rightarrow> (compatibility_error + unit) option" where
  "acquire_loop path deadline [] = None"
| "acquire_loop path deadline ((answer, now) # rounds) =
     (case answer of
        Granted \<Rightarrow> Some (Inr ())
      | WouldBlock \<Rightarrow> (if deadline \<le> now then Some (Inl (Busy path)) else acquire_loop path deadline rounds)
      | LockError \<Rightarrow> Some (Inl (Io path)))"

datatype database_error = Sqlite string | WriterCompatibility compatibility_error | OtherError string

definition retryable :: "database_error \<Rightarrow> bool" where
  "retryable e = (case e of Sqlite _ \<Rightarrow> True | WriterCompatibility (Io _) \<Rightarrow> True | _ \<Rightarrow> False)"

definition database_probe_attempts :: nat where
  "database_probe_attempts = 3"

text \<open>\<open>probe attempt\<close> is the outcome of the probe at that attempt.\<close>

function retry_probe_from :: "(nat \<Rightarrow> database_error + int) \<Rightarrow> nat \<Rightarrow> (database_error + int) option" where
  "retry_probe_from probe attempt =
     (if database_probe_attempts \<le> attempt then None
      else case probe attempt of
          Inr g \<Rightarrow> Some (Inr g)
        | Inl e \<Rightarrow>
            (if attempt + 1 < database_probe_attempts \<and> retryable e then retry_probe_from probe (attempt + 1)
             else Some (Inl e)))"
  by pat_completeness auto

termination
  by (relation "measure (\<lambda>(probe, attempt). database_probe_attempts - attempt)") auto

definition retry_database_generation_probe :: "(nat \<Rightarrow> database_error + int) \<Rightarrow> (database_error + int) option" where
  "retry_database_generation_probe probe = retry_probe_from probe 0"

section \<open>Migrations\<close>

record migration =
  version :: nat
  migration_name :: string
  sql :: string
  required_writer_generation :: int

definition migration_at :: "nat \<times> string \<Rightarrow> migration" where
  "migration_at = (\<lambda>(v, n). \<lparr>version = v, migration_name = n, sql = n, required_writer_generation = 0\<rparr>)"

text \<open>The SQL text of a migration is included at build time and is named by the migration.\<close>

definition migrations :: "migration list" where
  "migrations = map migration_at
    [(1, ''core_tables''), (2, ''shadow_tables''), (3, ''revision_tables''), (4, ''ideas_table''),
     (5, ''inbox_table''), (6, ''expand_status_constraints''), (7, ''add_sort_key''),
     (8, ''task_logs_and_verifications''), (9, ''task_notes_and_started_at''), (10, ''epoch_sort_key''),
     (11, ''persistent_rowset_counters''), (12, ''axioms_table''), (13, ''perception_event_schema''),
     (14, ''agent_id''), (15, ''rfcs_table''), (16, ''agent_events''), (17, ''workspace_active_phase''),
     (18, ''inbox_action_payload''), (19, ''phase_ownership''), (20, ''reactive_revision_coverage''),
     (21, ''atomic_request_outcomes''), (22, ''rfc_workspace_observations''), (23, ''workbench_lanes''),
     (24, ''phase_completion_time'')]"

text \<open>
  The database as migrations see it. Each statement commits by itself, so a run is the list
  of the states it commits, newest last, and its outcome: a crash leaves any prefix. The SQL of
  a migration is a batch of statements, which may fail midway: executing it gives the schemas
  that its statements commit before the last, and the outcome of the last.
\<close>

record 's migrating =
  user_version :: int
  history :: "(nat \<times> string) list"
  schema :: 's

type_synonym 's batch = "string \<Rightarrow> 's \<Rightarrow> 's list \<times> (database_error + 's)"

type_synonym 's run = "'s migrating list \<times> (database_error + 's migrating)"

definition applied_versions :: "'s migrating \<Rightarrow> nat set" where
  "applied_versions d = fst ` set (history d)"

definition has_pending :: "migration list \<Rightarrow> 's migrating \<Rightarrow> bool" where
  "has_pending ms d \<longleftrightarrow> list_ex (\<lambda>m. version m \<notin> applied_versions d) ms"

definition read_database_generation :: "'s migrating \<Rightarrow> compatibility_error + int" where
  "read_database_generation d = validate_database_generation (user_version d)"

definition set_database_generation :: "int \<Rightarrow> 's migrating \<Rightarrow> database_error + 's migrating" where
  "set_database_generation g d =
     (if g < 0 \<or> max_writer_generation < g
      then Inl (WriterCompatibility (MetadataInvalid Database (show_int g)))
      else Inr (d\<lparr>user_version := g\<rparr>))"

fun apply_pending ::
  "'s batch \<Rightarrow> nat set \<Rightarrow> migration list \<Rightarrow> 's migrating \<Rightarrow> 's run" where
  "apply_pending exec applied [] d = ([], Inr d)"
| "apply_pending exec applied (m # ms) d =
     (if version m \<in> applied then apply_pending exec applied ms d
      else (let batch = exec (sql m) (schema d); log = map (\<lambda>s. d\<lparr>schema := s\<rparr>) (fst batch) in
        case snd batch of
          Inl e \<Rightarrow> (log, Inl e)
        | Inr s \<Rightarrow>
            (let d1 = d\<lparr>schema := s\<rparr> in
             if version m \<in> applied_versions d1 then (log @ [d1], Inl (Sqlite ''UNIQUE constraint failed''))
             else (let d2 = d1\<lparr>history := history d1 @ [(version m, migration_name m)]\<rparr>;
                       r = apply_pending exec applied ms d2
                   in (log @ d1 # d2 # fst r, snd r)))))"

definition required_generation :: "int \<Rightarrow> migration list \<Rightarrow> int" where
  "required_generation current ms = fold max (map required_writer_generation ms) current"

definition run_migrations_with_hook ::
  "'s batch \<Rightarrow> migration list \<Rightarrow> int
   \<Rightarrow> (int \<Rightarrow> database_error + unit) \<Rightarrow> 's migrating \<Rightarrow> 's run" where
  "run_migrations_with_hook exec ms supported after_raise d =
     (let applied = applied_versions d in
      case read_database_generation d of
        Inl e \<Rightarrow> ([], Inl (WriterCompatibility e))
      | Inr current \<Rightarrow>
          (let required = required_generation current ms in
           if supported < required then ([], Inl (WriterCompatibility (Incompatible required supported Database)))
           else if current < required then
             (case set_database_generation required d of
                Inl e \<Rightarrow> ([], Inl e)
              | Inr d1 \<Rightarrow>
                  (case after_raise required of
                     Inl e \<Rightarrow> ([d1], Inl e)
                   | Inr _ \<Rightarrow>
                       (let r = apply_pending exec applied ms d1 in (d1 # fst r, snd r))))
           else apply_pending exec applied ms d))"

definition run_migrations ::
  "'s batch \<Rightarrow> 's migrating \<Rightarrow> 's run" where
  "run_migrations exec d =
     run_migrations_with_hook exec migrations supported_writer_generation (\<lambda>_. Inr ()) d"

section \<open>The lease protocol\<close>

text \<open>
  Processes of different Exo versions share one database; \<open>supports p\<close> is the writer
  generation the binary of \<open>p\<close> supports. The stages are the points between the calls of
  \<open>open_database_connection_with_hook\<close>, \<open>migrate_under_exclusive_lease\<close>,
  \<open>acquire_exclusive_compatibility_authority\<close> and the \<open>open_fenced_*\<close> functions: the first
  probe has passed, the lease is held, the second probe has passed under the lease, a
  connection is open. A process that has migrated closes its connection with the exclusive
  lease, takes the shared one and probes under it. The operating system grants a shared lock beside shared ones and an
  exclusive lock alone, and drops the locks of a process that ends.
\<close>

datatype lease_mode = Shared | Exclusive

datatype stage =
    Idle
  | Probed
  | Leased lease_mode
  | Verified lease_mode
  | Open_connection lease_mode

record 'p fence =
  generation :: int
  leases :: "'p \<rightharpoonup> lease_mode"
  stages :: "'p \<Rightarrow> stage"

definition fence_new :: "int \<Rightarrow> 'p fence" where
  "fence_new g = \<lparr>generation = g, leases = Map.empty, stages = (\<lambda>_. Idle)\<rparr>"

definition lock_free :: "'p fence \<Rightarrow> 'p \<Rightarrow> lease_mode \<Rightarrow> bool" where
  "lock_free f p mode \<longleftrightarrow> (\<forall>q. q \<noteq> p \<longrightarrow>
     (case mode of Shared \<Rightarrow> leases f q \<noteq> Some Exclusive | Exclusive \<Rightarrow> leases f q = None))"

definition at_stage :: "'p \<Rightarrow> stage \<Rightarrow> 'p fence \<Rightarrow> 'p fence" where
  "at_stage p s f = f\<lparr>stages := (stages f)(p := s)\<rparr>"

definition end_process :: "'p \<Rightarrow> 'p fence \<Rightarrow> 'p fence" where
  "end_process p f = f\<lparr>stages := (stages f)(p := Idle), leases := (leases f)(p := None)\<rparr>"

inductive fence_step :: "('p \<Rightarrow> int) \<Rightarrow> 'p fence \<Rightarrow> 'p fence \<Rightarrow> bool" for supports :: "'p \<Rightarrow> int" where
  probe: "stages f p = Idle \<Longrightarrow> ensure_supported (supports p) (generation f) Database = Inr () \<Longrightarrow>
    fence_step supports f (at_stage p Probed f)"
| acquire: "stages f p = Probed \<Longrightarrow> lock_free f p mode \<Longrightarrow>
    fence_step supports f ((at_stage p (Leased mode) f)\<lparr>leases := (leases f)(p \<mapsto> mode)\<rparr>)"
| probe_again: "stages f p = Leased mode \<Longrightarrow>
    ensure_supported (supports p) (generation f) Database = Inr () \<Longrightarrow>
    fence_step supports f (at_stage p (Verified mode) f)"
| fence_out: "stages f p = Leased mode \<Longrightarrow>
    ensure_supported (supports p) (generation f) Database = Inl e \<Longrightarrow> fence_step supports f (end_process p f)"
| open_connection: "stages f p = Verified mode \<Longrightarrow>
    fence_step supports f (at_stage p (Open_connection mode) f)"
| drop_lease: "stages f p \<in> {Verified mode, Open_connection Exclusive} \<Longrightarrow>
    fence_step supports f ((at_stage p Probed f)\<lparr>leases := (leases f)(p := None)\<rparr>)"
| raise_generation: "stages f p \<in> {Verified Exclusive, Open_connection Exclusive} \<Longrightarrow> generation f \<le> g \<Longrightarrow>
    ensure_supported (supports p) g surface = Inr () \<Longrightarrow> fence_step supports f (f\<lparr>generation := g\<rparr>)"
| end_process: "fence_step supports f (end_process p f)"

inductive fence_reachable :: "('p \<Rightarrow> int) \<Rightarrow> int \<Rightarrow> 'p fence \<Rightarrow> bool" for supports :: "'p \<Rightarrow> int" and g0 :: int where
  fence_init: "fence_reachable supports g0 (fence_new g0)"
| fence_next: "fence_reachable supports g0 f \<Longrightarrow> fence_step supports f f' \<Longrightarrow> fence_reachable supports g0 f'"

inductive_cases fence_stepE: "fence_step supports f f'"

end
