(* ===== verification/Writer_Fence_Facts.thy ===== *)
theory Writer_Fence_Facts
  imports Writer_Fence
begin

text \<open>
  The writer fence: the generation header of a projection survives rendering and parsing,
  migrations raise the generation before any other effect, and the double check under the
  compatibility lock keeps a process that does not support a generation away from a database
  that requires it.
\<close>

section \<open>The projection header\<close>

lemma show_nat_no_leading_zero: "show_nat n = CHR ''0'' # t \<Longrightarrow> t = []"
proof (induction n arbitrary: t rule: show_nat.induct)
  case (1 n)
  show ?case
  proof (cases "n < 10")
    case True
    with 1 show ?thesis by (simp add: show_nat.simps)
  next
    case False
    with 1(2) have eq: "show_nat (n div 10) @ [char_of (48 + n mod 10)] = CHR ''0'' # t"
      by (simp add: show_nat.simps [of n])
    obtain c s where cs: "show_nat (n div 10) = c # s"
      using show_nat_digits [of "n div 10"] by (cases "show_nat (n div 10)") auto
    with eq have "c = CHR ''0''" by simp
    with cs 1(1) [OF False, of s] have "show_nat (n div 10) = CHR ''0'' # []" by simp
    then have "n div 10 = 0" using show_nat_digits [of "n div 10"] by (simp add: digits_value_def digit_value_def)
    with False show ?thesis by simp
  qed
qed

lemma show_int_nonneg: "0 \<le> i \<Longrightarrow> show_int i = show_nat (nat i)"
  by (simp add: show_int_def)

lemma digits_no_break:
  assumes "list_all is_digit s"
  shows "nl \<notin> set s" and "s \<noteq> [] \<Longrightarrow> last s \<noteq> CHR 0x0D"
proof -
  from assms have d: "is_digit c" if "c \<in> set s" for c using that by (simp add: list_all_iff)
  have "\<not> is_digit nl" "\<not> is_digit (CHR 0x0D)" by (simp_all add: is_digit_def)
  then show "nl \<notin> set s" and "s \<noteq> [] \<Longrightarrow> last s \<noteq> CHR 0x0D"
    using d last_in_set [of s] by metis+
qed

lemma header_line:
  assumes "0 \<le> g"
  shows "nl \<notin> set (projection_generation_prefix @ show_int g)"
    and "strip_cr (projection_generation_prefix @ show_int g) = projection_generation_prefix @ show_int g"
  using digits_no_break [of "show_nat (nat g)"] show_nat_digits [of "nat g"] assms
  by (simp_all add: show_int_nonneg strip_cr_def projection_generation_prefix_def)

lemma header_lines:
  assumes "0 \<le> g"
  shows "text_lines ((projection_generation_prefix @ show_int g) @ nl # body) =
      (projection_generation_prefix @ show_int g) # text_lines body"
  by (rule text_lines_cons [OF header_line(1) [OF assms], of body, unfolded header_line(2) [OF assms]])

lemma parse_header:
  assumes "0 \<le> g" and "g \<le> max_writer_generation"
  shows "parse_projection_generation ((projection_generation_prefix @ show_int g) @ nl # body) = Inr g"
proof -
  note lines = header_lines [OF assms(1), of body]
  have "\<not> (length (show_nat (nat g)) > 1 \<and> starts_with (show_nat (nat g)) ''0'')"
  proof
    assume a: "length (show_nat (nat g)) > 1 \<and> starts_with (show_nat (nat g)) ''0''"
    then obtain t where "show_nat (nat g) = CHR ''0'' # t" by (auto simp: starts_with_def)
    with show_nat_no_leading_zero [OF this] a show False by simp
  qed
  moreover have "parse_i64 (show_int g) = Some g"
    by (rule parse_show_int) (use assms in \<open>simp_all add: max_writer_generation_def\<close>)
  ultimately show ?thesis
    using show_nat_digits [of "nat g"] assms lines
    by (simp add: parse_projection_generation_def show_int_nonneg)
qed

lemma body_of_header:
  assumes "0 \<le> g"
  shows "projection_body ((projection_generation_prefix @ show_int g) @ nl # body) = body"
proof -
  note header_lines [OF assms, of body]
  moreover have "split_once_nl ((projection_generation_prefix @ show_int g) @ nl # body) =
      Some (projection_generation_prefix @ show_int g, body)"
    by (rule split_once_nl_append [OF header_line(1) [OF assms]])
  ultimately show ?thesis by (simp add: projection_body_def)
qed

lemma with_generation_eq:
  assumes "0 \<le> g" and "g \<le> max_writer_generation"
  shows "with_projection_generation content g =
    Inr ((projection_generation_prefix @ show_int g) @ nl # projection_body content)"
  using assms by (simp add: with_projection_generation_def render_projection_generation_header_def Let_def)

text \<open>
  Stamping a projection with a generation in range succeeds for every content, parsing
  the result gives the generation back, and stamping changes nothing else: the body behind
  the header is kept, so that stamping again replaces the generation and only that.
\<close>

theorem projection_generation_round_trip:
  assumes "0 \<le> g" "g \<le> max_writer_generation" and "0 \<le> g'" "g' \<le> max_writer_generation"
  shows "\<exists>stamped. with_projection_generation content g = Inr stamped
    \<and> parse_projection_generation stamped = Inr g
    \<and> projection_body stamped = projection_body content
    \<and> with_projection_generation stamped g' = with_projection_generation content g'"
  using assms by (simp add: with_generation_eq parse_header body_of_header del: append_assoc append.simps)

theorem projection_generation_round_trip_witness:
  "\<exists>stamped. with_projection_generation ''INSERT'' 12 = Inr stamped
    \<and> parse_projection_generation stamped = Inr 12"
  using projection_generation_round_trip [of 12 12 "''INSERT''"] by (auto simp: max_writer_generation_def)

section \<open>Migrations\<close>

lemma apply_pending_log:
  assumes "s \<in> set (fst (apply_pending exec applied ms d))"
  shows "user_version s = user_version d"
  using assms
  by (induction ms arbitrary: d) (auto simp: Let_def split: if_splits sum.splits)

lemma apply_pending_versions:
  "apply_pending exec applied ms d = (log, out) \<Longrightarrow> s \<in> set log \<Longrightarrow> user_version s = user_version d"
  using apply_pending_log [of s exec applied ms d] by simp

lemma apply_pending_done:
  "snd (apply_pending exec applied ms d) = Inr d' \<Longrightarrow> applied \<subseteq> applied_versions d \<Longrightarrow>
     user_version d' = user_version d \<and> applied_versions d \<subseteq> applied_versions d'
     \<and> (\<forall>m \<in> set ms. version m \<in> applied_versions d')"
proof (induction ms arbitrary: d)
  case Nil
  then show ?case by simp
next
  case (Cons m ms)
  show ?case
  proof (cases "version m \<in> applied")
    case True
    with Cons.prems Cons.IH [of d] show ?thesis by auto
  next
    case False
    from Cons.prems(1) False obtain s where s: "snd (exec (sql m) (schema d)) = Inr s"
      by (auto simp: Let_def split: sum.splits)
    let ?d2 = "d\<lparr>schema := s, history := history d @ [(version m, migration_name m)]\<rparr>"
    from Cons.prems(1) False s have new: "version m \<notin> applied_versions d"
      and rest: "snd (apply_pending exec applied ms ?d2) = Inr d'"
      by (auto simp: Let_def applied_versions_def split: if_splits)
    have av: "applied_versions ?d2 = insert (version m) (applied_versions d)"
      by (auto simp: applied_versions_def)
    from Cons.IH [OF rest] Cons.prems(2) show ?thesis by (auto simp: av)
  qed
qed

lemma apply_pending_nothing:
  "(\<forall>m \<in> set ms. version m \<in> applied) \<Longrightarrow> apply_pending exec applied ms d = ([], Inr d)"
  by (induction ms) auto

lemma fold_max: "a \<le> fold max xs a \<and> (\<forall>x \<in> set xs. x \<le> fold max xs (a::int))"
proof (induction xs arbitrary: a)
  case (Cons x xs)
  from Cons.IH [of "max x a"] show ?case by auto
qed simp

lemma fold_max_id: "\<forall>x \<in> set xs. x \<le> (a::int) \<Longrightarrow> fold max xs a = a"
  by (induction xs) (auto simp: max_def)

lemma required_ge: "current \<le> required_generation current ms"
    "m \<in> set ms \<Longrightarrow> required_writer_generation m \<le> required_generation current ms"
  using fold_max [of current "map required_writer_generation ms"] by (auto simp: required_generation_def)

text \<open>
  C23. A crash leaves the database over-fenced, never under-fenced: in every state a migration
  run commits, and whatever statement fails, the stored generation already is at least what
  every migration of the list requires. If a migration requires more than this Exo supports,
  nothing is committed at all.
\<close>

theorem migrations_never_under_fenced:
  assumes "run_migrations_with_hook exec ms supported after_raise d = (log, outcome)"
  shows "(\<forall>s \<in> set log. user_version d \<le> user_version s \<and>
            (\<forall>m \<in> set ms. required_writer_generation m \<le> user_version s))
    \<and> ((\<exists>m \<in> set ms. supported < required_writer_generation m) \<longrightarrow> log = [] \<and> (\<exists>e. outcome = Inl e))"
proof (cases "read_database_generation d")
  case (Inl e)
  with assms show ?thesis by (auto simp: run_migrations_with_hook_def Let_def)
next
  case (Inr current)
  then have cur: "current = user_version d"
    by (simp add: read_database_generation_def validate_database_generation_def split: if_splits)
  let ?req = "required_generation current ms"
  show ?thesis
  proof (cases "supported < ?req")
    case True
    with assms Inr show ?thesis by (auto simp: run_migrations_with_hook_def Let_def)
  next
    case False
    then have no: "\<not> (\<exists>m \<in> set ms. supported < required_writer_generation m)"
      using required_ge(2) [of _ ms current] by fastforce
    have "?req \<le> user_version s \<and> current \<le> user_version s" if s: "s \<in> set log" for s
      using assms Inr False s required_ge(1) [of current ms]
      by (auto simp: run_migrations_with_hook_def Let_def set_database_generation_def cur
          dest!: apply_pending_log dest: apply_pending_versions split: if_splits sum.splits)
    with no cur show ?thesis using required_ge(2) [of _ ms current] by fastforce
  qed
qed

text \<open>
  A migration run that succeeds leaves nothing pending, keeps what was applied, and a
  second run commits nothing.
\<close>

theorem migrations_complete:
  assumes "run_migrations_with_hook exec ms supported after_raise d = (log, Inr d')"
  shows "\<not> has_pending ms d' \<and> applied_versions d \<subseteq> applied_versions d'
    \<and> run_migrations_with_hook exec ms supported after_raise d' = ([], Inr d')"
proof -
  obtain current where cur: "read_database_generation d = Inr current" "current = user_version d"
    "0 \<le> current" "current \<le> max_writer_generation"
    using assms by (auto simp: run_migrations_with_hook_def Let_def read_database_generation_def
        validate_database_generation_def split: if_splits)
  let ?req = "required_generation current ms"
  have sup: "?req \<le> supported"
    using assms cur(1) by (auto simp: run_migrations_with_hook_def Let_def split: if_splits)
  have le: "current \<le> ?req" by (rule required_ge(1))
  obtain d1 where d1: "snd (apply_pending exec (applied_versions d) ms d1) = Inr d'"
    "user_version d1 = ?req" "history d1 = history d" "?req \<le> max_writer_generation"
    using assms cur sup le
    by (auto simp: run_migrations_with_hook_def Let_def set_database_generation_def
        split: if_splits sum.splits prod.splits) (metis eq_iff leI snd_conv)
  have av: "applied_versions d1 = applied_versions d" using d1(3) by (simp add: applied_versions_def)
  from apply_pending_done [OF d1(1)] av have fin:
    "user_version d' = ?req" "applied_versions d \<subseteq> applied_versions d'"
    "\<forall>m \<in> set ms. version m \<in> applied_versions d'" using d1(2) by auto
  have "required_generation ?req ms = ?req"
    unfolding required_generation_def [of ?req]
    by (rule fold_max_id) (use required_ge(2) in auto)
  moreover have "0 \<le> ?req" using le cur(3) by simp
  ultimately have "run_migrations_with_hook exec ms supported after_raise d' =
      apply_pending exec (applied_versions d') ms d'"
    using fin(1) sup d1(4)
    by (simp add: run_migrations_with_hook_def Let_def read_database_generation_def validate_database_generation_def)
  with fin apply_pending_nothing [OF fin(3), of exec d'] show ?thesis
    by (auto simp: has_pending_def list_ex_iff)
qed

definition toy_migration :: migration where
  "toy_migration = \<lparr>version = 1, migration_name = ''m'', sql = ''CREATE'', required_writer_generation = 3\<rparr>"

definition toy_exec :: "string list batch" where
  "toy_exec q s = ([], Inr (s @ [q]))"

definition toy_db :: "string list migrating" where
  "toy_db = \<lparr>user_version = 0, history = [], schema = []\<rparr>"

definition toy_run :: "string list run" where
  "toy_run = run_migrations_with_hook toy_exec [toy_migration] 3 (\<lambda>_. Inr ()) toy_db"

lemma toy_run_eq:
  "toy_run = ([toy_db\<lparr>user_version := 3\<rparr>, toy_db\<lparr>user_version := 3, schema := [''CREATE'']\<rparr>,
      \<lparr>user_version = 3, history = [(1, ''m'')], schema = [''CREATE'']\<rparr>],
    Inr \<lparr>user_version = 3, history = [(1, ''m'')], schema = [''CREATE'']\<rparr>)"
  by (simp add: toy_run_def run_migrations_with_hook_def Let_def toy_db_def toy_exec_def toy_migration_def
      applied_versions_def read_database_generation_def validate_database_generation_def
      set_database_generation_def required_generation_def max_writer_generation_def)

theorem migrations_never_under_fenced_witness:
  "length (fst toy_run) = 3 \<and> list_all (\<lambda>s. 3 \<le> user_version s) (fst toy_run)"
proof
  have "run_migrations_with_hook toy_exec [toy_migration] 3 (\<lambda>_. Inr ()) toy_db = (fst toy_run, snd toy_run)"
    by (simp add: toy_run_def)
  from conjunct1 [OF migrations_never_under_fenced [OF this]] show "list_all (\<lambda>s. 3 \<le> user_version s) (fst toy_run)"
    unfolding list_all_iff by (simp only: toy_migration_def) simp
qed (simp add: toy_run_eq)

theorem migrations_complete_witness:
  "\<exists>d'. snd toy_run = Inr d' \<and> \<not> has_pending [toy_migration] d'
     \<and> run_migrations_with_hook toy_exec [toy_migration] 3 (\<lambda>_. Inr ()) d' = ([], Inr d')"
proof -
  obtain log d' where "toy_run = (log, Inr d')" by (simp add: toy_run_eq)
  with migrations_complete [of toy_exec "[toy_migration]" 3 "\<lambda>_. Inr ()" toy_db log d'] show ?thesis
    by (simp add: toy_run_def)
qed

section \<open>The fence is safe\<close>

definition lease_at :: "stage \<Rightarrow> lease_mode option" where
  "lease_at s = (case s of Leased m \<Rightarrow> Some m | Verified m \<Rightarrow> Some m | Open_connection m \<Rightarrow> Some m | _ \<Rightarrow> None)"

definition checked :: "stage \<Rightarrow> bool" where
  "checked s \<longleftrightarrow> (case s of Verified _ \<Rightarrow> True | Open_connection _ \<Rightarrow> True | _ \<Rightarrow> False)"

definition fence_inv :: "('p \<Rightarrow> int) \<Rightarrow> 'p fence \<Rightarrow> bool" where
  "fence_inv supports f \<longleftrightarrow> (\<forall>p. leases f p = lease_at (stages f p))
     \<and> (\<forall>p q. leases f p = Some Exclusive \<longrightarrow> q \<noteq> p \<longrightarrow> leases f q = None)
     \<and> (\<forall>p. checked (stages f p) \<longrightarrow> generation f \<le> supports p)"

lemma ensure_supported_ok [simp]: "ensure_supported s g surface = Inr u \<longleftrightarrow> g \<le> s"
  by (auto simp: ensure_supported_def)

lemma stage_simps [simp]:
  "lease_at Idle = None" "lease_at Probed = None" "lease_at (Leased m) = Some m"
  "lease_at (Verified m) = Some m" "lease_at (Open_connection m) = Some m"
  "\<not> checked Idle" "\<not> checked Probed" "\<not> checked (Leased m)" "checked (Verified m)"
  "checked (Open_connection m)"
  by (simp_all add: lease_at_def checked_def)

lemma fence_invD:
  assumes "fence_inv supports f"
  shows "leases f p = lease_at (stages f p)"
    and "leases f p = Some Exclusive \<Longrightarrow> q \<noteq> p \<Longrightarrow> leases f q = None"
    and "checked (stages f p) \<Longrightarrow> generation f \<le> supports p"
  using assms by (auto simp: fence_inv_def)

lemma fence_inv_acquire:
  assumes "fence_inv supports f" and "stages f p = Probed" and "lock_free f p mode"
  shows "fence_inv supports ((at_stage p (Leased mode) f)\<lparr>leases := (leases f)(p \<mapsto> mode)\<rparr>)"
proof (cases mode)
  case Shared
  with assms show ?thesis by (auto simp: fence_inv_def at_stage_def lock_free_def)
next
  case Exclusive
  with assms show ?thesis by (auto simp: fence_inv_def at_stage_def lock_free_def)
qed

lemma fence_inv_raise:
  assumes inv: "fence_inv supports f" and st: "stages f p \<in> {Verified Exclusive, Open_connection Exclusive}"
    and g: "g \<le> supports p"
  shows "fence_inv supports (f\<lparr>generation := g\<rparr>)"
proof -
  have ex: "leases f p = Some Exclusive" using fence_invD(1) [OF inv, of p] st by auto
  have "q = p" if "checked (stages f q)" for q
    using fence_invD(2) [OF inv ex, of q] fence_invD(1) [OF inv, of q] that
    by (cases "stages f q") auto
  with inv g show ?thesis by (auto simp: fence_inv_def)
qed

lemma fence_step_inv: "fence_step supports f f' \<Longrightarrow> fence_inv supports f \<Longrightarrow> fence_inv supports f'"
proof (induction rule: fence_step.induct)
  case (acquire f p mode)
  then show ?case by (intro fence_inv_acquire)
next
  case (raise_generation f p g surface)
  then show ?case by (intro fence_inv_raise) simp_all
qed (auto simp: fence_inv_def at_stage_def end_process_def)

lemma fence_reachable_inv: "fence_reachable supports g0 f \<Longrightarrow> fence_inv supports f"
proof (induction rule: fence_reachable.induct)
  case fence_init
  show ?case by (simp add: fence_inv_def fence_new_def)
next
  case (fence_next f f')
  then show ?case by (blast intro: fence_step_inv)
qed

text \<open>
  C4. No interleaving of openers, importers, migrations and crashes, by binaries of any
  versions, ever has a process with an open connection to a database whose generation its
  binary does not support; and the holder of an exclusive lease is alone.
\<close>

theorem fence_safe:
  assumes "fence_reachable supports g0 f" and "stages f p = Open_connection mode"
  shows "generation f \<le> supports p \<and> leases f p = Some mode
    \<and> (mode = Exclusive \<longrightarrow> (\<forall>q. q \<noteq> p \<longrightarrow> leases f q = None))"
proof -
  note inv = fence_reachable_inv [OF assms(1)]
  show ?thesis using fence_invD(1) [OF inv, of p] fence_invD(2) [OF inv, of p] fence_invD(3) [OF inv, of p] assms(2)
    by auto
qed

text \<open>Process 0 supports generation 0 and process 1 generation 5; process 1 has raised it to 4.\<close>

definition toy_supports :: "nat \<Rightarrow> int" where
  "toy_supports p = (if p = 0 then 0 else 5)"

lemma toy_fence_reachable:
  "\<exists>f. fence_reachable toy_supports 0 f \<and> stages f 1 = Open_connection Exclusive \<and> generation f = 4"
proof -
  define f1 where "f1 = at_stage (1::nat) Probed (fence_new 0)"
  define f2 where "f2 = (at_stage 1 (Leased Exclusive) f1)\<lparr>leases := (leases f1)(1 \<mapsto> Exclusive)\<rparr>"
  define f3 where "f3 = at_stage 1 (Verified Exclusive) f2"
  define f4 where "f4 = f3\<lparr>generation := 4\<rparr>"
  define f5 where "f5 = at_stage 1 (Open_connection Exclusive) f4"
  note defs = f5_def f4_def f3_def f2_def f1_def
  have "fence_reachable toy_supports 0 f1"
    unfolding f1_def by (rule fence_next [OF fence_init], rule probe) (simp_all add: fence_new_def toy_supports_def)
  then have "fence_reachable toy_supports 0 f2"
    unfolding f2_def by (rule fence_next, intro acquire) (simp_all add: defs lock_free_def at_stage_def fence_new_def)
  then have "fence_reachable toy_supports 0 f3"
    unfolding f3_def by (rule fence_next, intro probe_again)
      (simp_all add: defs at_stage_def fence_new_def toy_supports_def)
  then have "fence_reachable toy_supports 0 f4"
    unfolding f4_def by (rule fence_next, intro raise_generation [where p = 1 and surface = Database])
      (simp_all add: defs at_stage_def fence_new_def toy_supports_def)
  then have "fence_reachable toy_supports 0 f5"
    unfolding f5_def by (rule fence_next, intro open_connection) (simp_all add: defs at_stage_def)
  then show ?thesis by (intro exI [of _ f5]) (simp add: defs at_stage_def)
qed

theorem fence_safe_witness:
  "\<exists>f. fence_reachable toy_supports 0 f \<and> generation f \<le> toy_supports 1 \<and> leases f 0 = None"
proof -
  obtain f where f: "fence_reachable toy_supports 0 f" "stages f 1 = Open_connection Exclusive"
    using toy_fence_reachable by blast
  from fence_safe [OF f] f(1) show ?thesis by auto
qed

end
