(* ===== verification/Request_Scope.thy ===== *)
theory Request_Scope
  imports Prelude
begin

text \<open>
  Request-scoped transactions, \<open>crates/exosuit-storage/src/request_transaction.rs\<close>: one
  connection, published in a thread-local slot, that every loader and writer of a request
  shares. A database file holds a value of type \<open>'d\<close>; a connection outside a transaction
  writes through, inside one it works on a copy that \<open>COMMIT\<close> stores. Opening, path
  normalisation and the statements may fail, as the environment says.
\<close>

datatype request_error = RequestScope string string | OpenFailed | SqlFailed

record connection_state =
  conn_path :: string
  in_transaction :: bool

record 'd request_world =
  files :: "string \<Rightarrow> 'd"
  connections :: "nat \<rightharpoonup> connection_state"
  pending :: "nat \<Rightarrow> 'd"
  next_connection :: nat
  slot :: "(string \<times> nat) option"

record request_env =
  normalize :: "string \<Rightarrow> string option"
  can_open :: "string \<Rightarrow> bool"
  can_begin :: bool
  can_commit :: bool
  can_rollback :: bool

record request_transaction =
  database :: nat
  active :: bool

section \<open>Connections\<close>

definition normalized_database_path :: "request_env \<Rightarrow> string \<Rightarrow> request_error + string" where
  "normalized_database_path V path = (case normalize V path of None \<Rightarrow> Inl OpenFailed | Some p \<Rightarrow> Inr p)"

definition open_database :: "request_env \<Rightarrow> string \<Rightarrow> 'd request_world \<Rightarrow> request_error + 'd request_world \<times> nat" where
  "open_database V path w =
     (if can_open V path then
        (let i = next_connection w in
         Inr (w\<lparr>connections := (connections w)(i \<mapsto> \<lparr>conn_path = path, in_transaction = False\<rparr>),
                next_connection := i + 1\<rparr>, i))
      else Inl OpenFailed)"

definition execute_begin :: "request_env \<Rightarrow> nat \<Rightarrow> 'd request_world \<Rightarrow> request_error + 'd request_world" where
  "execute_begin V i w =
     (case connections w i of
        None \<Rightarrow> Inl SqlFailed
      | Some c \<Rightarrow>
          (if in_transaction c \<or> \<not> can_begin V then Inl SqlFailed
           else Inr (w\<lparr>connections := (connections w)(i \<mapsto> c\<lparr>in_transaction := True\<rparr>),
                       pending := (pending w)(i := files w (conn_path c))\<rparr>)))"

definition execute_commit :: "request_env \<Rightarrow> nat \<Rightarrow> 'd request_world \<Rightarrow> request_error + 'd request_world" where
  "execute_commit V i w =
     (case connections w i of
        None \<Rightarrow> Inl SqlFailed
      | Some c \<Rightarrow>
          (if \<not> in_transaction c \<or> \<not> can_commit V then Inl SqlFailed
           else Inr (w\<lparr>connections := (connections w)(i \<mapsto> c\<lparr>in_transaction := False\<rparr>),
                       files := (files w)(conn_path c := pending w i)\<rparr>)))"

definition execute_rollback :: "request_env \<Rightarrow> nat \<Rightarrow> 'd request_world \<Rightarrow> request_error + 'd request_world" where
  "execute_rollback V i w =
     (case connections w i of
        None \<Rightarrow> Inl SqlFailed
      | Some c \<Rightarrow>
          (if \<not> in_transaction c \<or> \<not> can_rollback V then Inl SqlFailed
           else Inr (w\<lparr>connections := (connections w)(i \<mapsto> c\<lparr>in_transaction := False\<rparr>)\<rparr>)))"

definition write_database :: "nat \<Rightarrow> ('d \<Rightarrow> 'd) \<Rightarrow> 'd request_world \<Rightarrow> 'd request_world" where
  "write_database i f w =
     (case connections w i of
        None \<Rightarrow> w
      | Some c \<Rightarrow>
          (if in_transaction c then w\<lparr>pending := (pending w)(i := f (pending w i))\<rparr>
           else w\<lparr>files := (files w)(conn_path c := f (files w (conn_path c)))\<rparr>))"

text \<open>The last reference to a connection closes it; SQLite rolls back an open transaction.\<close>

definition close_connection :: "nat \<Rightarrow> 'd request_world \<Rightarrow> 'd request_world" where
  "close_connection i w = w\<lparr>connections := (connections w)(i := None)\<rparr>"

section \<open>The request transaction\<close>

definition begin_request :: "request_env \<Rightarrow> string \<Rightarrow> 'd request_world
    \<Rightarrow> (request_error \<times> 'd request_world) + 'd request_world \<times> request_transaction" where
  "begin_request V path w =
     (case normalized_database_path V path of
        Inl e \<Rightarrow> Inl (e, w)
      | Inr p \<Rightarrow>
          (if slot w \<noteq> None then Inl (RequestScope ''a request transaction is already active on this thread'' [], w)
           else case open_database V p w of
               Inl e \<Rightarrow> Inl (e, w)
             | Inr (w1, i) \<Rightarrow>
                 (case execute_begin V i w1 of
                    Inl e \<Rightarrow> Inl (e, close_connection i w1)
                  | Inr w2 \<Rightarrow> Inr (w2\<lparr>slot := Some (p, i)\<rparr>, \<lparr>database = i, active = True\<rparr>))))"

definition clear_binding :: "request_transaction \<Rightarrow> 'd request_world \<Rightarrow> 'd request_world" where
  "clear_binding t w =
     (case slot w of
        Some (_, i) \<Rightarrow> if i = database t then w\<lparr>slot := None\<rparr> else w
      | None \<Rightarrow> w)"

definition drop_request :: "request_env \<Rightarrow> request_transaction \<Rightarrow> 'd request_world \<Rightarrow> 'd request_world" where
  "drop_request V t w =
     (if \<not> active t then w
      else clear_binding t (case execute_rollback V (database t) w of Inl _ \<Rightarrow> w | Inr w' \<Rightarrow> w'))"

text \<open>
  \<open>commit\<close> and \<open>rollback\<close> consume the transaction: on an error the early return drops it,
  still active.
\<close>

definition commit_request :: "request_env \<Rightarrow> request_transaction \<Rightarrow> 'd request_world
    \<Rightarrow> 'd request_world \<times> (request_error + unit)" where
  "commit_request V t w =
     (case execute_commit V (database t) w of
        Inl e \<Rightarrow> (drop_request V t w, Inl e)
      | Inr w1 \<Rightarrow> (drop_request V (t\<lparr>active := False\<rparr>) (clear_binding t w1), Inr ()))"

definition rollback_request :: "request_env \<Rightarrow> request_transaction \<Rightarrow> 'd request_world
    \<Rightarrow> 'd request_world \<times> (request_error + unit)" where
  "rollback_request V t w =
     (case execute_rollback V (database t) w of
        Inl e \<Rightarrow> (drop_request V t w, Inl e)
      | Inr w1 \<Rightarrow> (drop_request V (t\<lparr>active := False\<rparr>) (clear_binding t w1), Inr ()))"

definition open_request_database :: "request_env \<Rightarrow> string \<Rightarrow> 'd request_world
    \<Rightarrow> request_error + 'd request_world \<times> nat" where
  "open_request_database V path w =
     and_then (normalized_database_path V path) (\<lambda>p.
       case slot w of
         Some (active_path, i) \<Rightarrow>
           (if active_path = p then Inr (w, i) else Inl (RequestScope active_path p))
       | None \<Rightarrow> open_database V p w)"

definition active_request_database :: "request_env \<Rightarrow> string \<Rightarrow> 'd request_world
    \<Rightarrow> request_error + nat option" where
  "active_request_database V path w =
     and_then (normalized_database_path V path) (\<lambda>p.
       case slot w of
         Some (active_path, i) \<Rightarrow> (if active_path = p then Inr (Some i) else Inl (RequestScope active_path p))
       | None \<Rightarrow> Inr None)"

section \<open>Requests are atomic\<close>

text \<open>A loader or writer of the request: it opens the database by any name and writes.\<close>

fun request_writes :: "request_env \<Rightarrow> (string \<times> ('d \<Rightarrow> 'd)) list \<Rightarrow> 'd request_world \<Rightarrow> request_error + 'd request_world" where
  "request_writes V [] w = Inr w"
| "request_writes V ((path, f) # ws) w =
     and_then (open_request_database V path w) (\<lambda>(w', i). request_writes V ws (write_database i f w'))"

definition in_request :: "string \<Rightarrow> nat \<Rightarrow> 'd request_world \<Rightarrow> bool" where
  "in_request p i w \<longleftrightarrow> slot w = Some (p, i) \<and> connections w i = Some \<lparr>conn_path = p, in_transaction = True\<rparr>"

lemma request_writes_run:
  "in_request p i w \<Longrightarrow> (\<forall>(path, f) \<in> set ws. normalize V path = Some p) \<Longrightarrow>
     \<exists>w'. request_writes V ws w = Inr w' \<and> in_request p i w' \<and> files w' = files w
       \<and> pending w' i = fold (\<lambda>(path, f). f) ws (pending w i)"
proof (induction ws arbitrary: w)
  case Nil
  then show ?case by simp
next
  case (Cons pf ws)
  obtain path f where pf: "pf = (path, f)" by (cases pf)
  let ?w = "write_database i f w"
  from Cons.prems pf have op: "open_request_database V path w = Inr (w, i)"
    by (simp add: open_request_database_def normalized_database_path_def in_request_def)
  have st: "in_request p i ?w" "files ?w = files w" "pending ?w i = f (pending w i)"
    using Cons.prems(1) by (simp_all add: in_request_def write_database_def)
  from Cons.IH [OF st(1)] Cons.prems(2) pf op st show ?case by auto
qed

lemma begin_request_Inr:
  assumes "begin_request V path w = Inr (w', t)"
  shows "\<exists>p. normalize V path = Some p \<and> in_request p (database t) w' \<and> active t \<and> files w' = files w
    \<and> pending w' (database t) = files w p"
  using assms
  by (auto simp: begin_request_def normalized_database_path_def open_database_def execute_begin_def Let_def
      in_request_def split: option.splits if_splits sum.splits)

text \<open>
  C13. A request is atomic: once it has begun, every loader and writer that opens the same
  database, under any name, works in its transaction and none is refused; if the commit
  succeeds, the file holds all their writes in order, and if it fails or the transaction is
  dropped, the file is as it was. In each case the thread is free for the next request, and a
  dropped transaction is rolled back, so its connection holds no lock, if SQLite can do it.
\<close>

theorem request_atomic:
  assumes "begin_request V path w = Inr (w1, t)"
    and "\<forall>(path', f) \<in> set ws. normalize V path' = normalize V path"
  shows "\<exists>w2. request_writes V ws w1 = Inr w2 \<and> files w2 = files w
    \<and> (case commit_request V t w2 of
         (w3, Inr _) \<Rightarrow> slot w3 = None \<and>
           files w3 = (files w)(the (normalize V path) := fold (\<lambda>(path', f). f) ws (files w (the (normalize V path))))
       | (w3, Inl _) \<Rightarrow> slot w3 = None \<and> files w3 = files w)
    \<and> slot (drop_request V t w2) = None \<and> files (drop_request V t w2) = files w
    \<and> (can_rollback V \<longrightarrow> map_option in_transaction (connections (drop_request V t w2) (database t)) = Some False)"
proof -
  from begin_request_Inr [OF assms(1)] obtain p where p: "normalize V path = Some p"
    "in_request p (database t) w1" "active t" "files w1 = files w" "pending w1 (database t) = files w p" by blast
  from request_writes_run [OF p(2), of ws V] assms(2) p(1) obtain w2 where w2:
    "request_writes V ws w1 = Inr w2" "in_request p (database t) w2" "files w2 = files w1"
    "pending w2 (database t) = fold (\<lambda>(path, f). f) ws (pending w1 (database t))" by auto
  then show ?thesis
    using p by (auto simp: in_request_def commit_request_def drop_request_def execute_commit_def
        execute_rollback_def clear_binding_def)
qed

definition toy_request_env :: request_env where
  "toy_request_env = \<lparr>normalize = (\<lambda>s. Some (filter (\<lambda>c. c \<noteq> CHR ''.'') s)), can_open = (\<lambda>_. True),
     can_begin = True, can_commit = True, can_rollback = True\<rparr>"

definition toy_request_world :: "nat request_world" where
  "toy_request_world = \<lparr>files = (\<lambda>_. 0), connections = Map.empty, pending = (\<lambda>_. 0),
     next_connection = 0, slot = None\<rparr>"

theorem request_atomic_witness:
  "\<exists>w1 t w2. begin_request toy_request_env ''a'' toy_request_world = Inr (w1, t)
     \<and> request_writes toy_request_env [(''.a'', \<lambda>n. n + 2)] w1 = Inr w2
     \<and> files (drop_request toy_request_env t w2) = files toy_request_world"
proof -
  obtain w1 t where b: "begin_request toy_request_env ''a'' toy_request_world = Inr (w1, t)"
    by (simp add: begin_request_def toy_request_env_def toy_request_world_def normalized_database_path_def
        open_database_def execute_begin_def Let_def)
  have "\<forall>(path', f) \<in> set [(''.a'', \<lambda>n::nat. n + 2)]. normalize toy_request_env path' = normalize toy_request_env ''a''"
    by (simp add: toy_request_env_def)
  from request_atomic [OF b this] b show ?thesis by blast
qed

end
