(* ===== verification/Merge_Driver.thy ===== *)
theory Merge_Driver
  imports Writer_Fence
begin

text \<open>
  The git merge driver for the projections, \<open>tools/exo/src/merge_driver.rs\<close>: the generation
  rule for \<open>epochs.sql\<close> and the structural three-way merge of TOML documents. A table is the
  association list of its entries in key order, which is how \<open>toml::map::Map\<close> iterates. The
  type \<open>'f\<close> stands for floats other than NaN with their \<open>==\<close>, so that equality of values is
  equality. Parsing and printing TOML, \<open>git merge-file\<close> and the file system are parameters.
\<close>

section \<open>TOML values\<close>

datatype 'f toml =
    TString string
  | TInteger "64 word"
  | TFloat 'f
  | TBoolean bool
  | TDatetime string
  | TArray "'f toml list"
  | TTable "(string \<times> 'f toml) list"

type_synonym 'f toml_table = "(string \<times> 'f toml) list"

definition as_str :: "'f toml \<Rightarrow> string option" where
  "as_str v = (case v of TString s \<Rightarrow> Some s | _ \<Rightarrow> None)"

section \<open>Tables\<close>

type_synonym 'f merge = "'f toml \<Rightarrow> 'f toml \<Rightarrow> 'f toml \<Rightarrow> 'f toml \<times> bool"

text \<open>What becomes of one key: its new value, if it stays, and whether there was a conflict.\<close>

definition merge_key ::
  "'f merge \<Rightarrow> 'f toml option \<Rightarrow> 'f toml option \<Rightarrow> 'f toml option \<Rightarrow> 'f toml option \<times> bool" where
  "merge_key merge b a c =
     (case (a, c) of
        (Some a_v, Some c_v) \<Rightarrow>
          (case merge (case b of None \<Rightarrow> TTable [] | Some b_v \<Rightarrow> b_v) a_v c_v of (m, d) \<Rightarrow> (Some m, d))
      | (Some a_v, None) \<Rightarrow>
          (case b of
             Some b_orig \<Rightarrow> (if a_v = b_orig then (None, False) else (Some a_v, True))
           | None \<Rightarrow> (Some a_v, False))
      | (None, Some c_v) \<Rightarrow>
          (case b of
             Some b_orig \<Rightarrow> (if c_v = b_orig then (None, False) else (Some c_v, True))
           | None \<Rightarrow> (Some c_v, False))
      | (None, None) \<Rightarrow> (None, False))"

definition merge_keys :: "'f toml_table \<Rightarrow> 'f toml_table \<Rightarrow> 'f toml_table \<Rightarrow> string list" where
  "merge_keys b a c = bset_of (map fst b @ map fst a @ map fst c)"

definition merge_table :: "'f merge \<Rightarrow> 'f toml_table \<Rightarrow> 'f toml_table \<Rightarrow> 'f toml_table \<Rightarrow> 'f toml_table \<times> bool" where
  "merge_table merge b a c =
     (let keys = merge_keys b a c;
          at = (\<lambda>k. merge_key merge (map_of b k) (map_of a k) (map_of c k))
      in (List.map_filter (\<lambda>k. map_option (Pair k) (fst (at k))) keys, list_ex (\<lambda>k. snd (at k)) keys))"

section \<open>Arrays of tables\<close>

fun index_array_of_tables_by_id :: "'f toml list \<Rightarrow> (string \<times> 'f toml) list option" where
  "index_array_of_tables_by_id [] = Some []"
| "index_array_of_tables_by_id (v # vs) =
     (case v of
        TTable t \<Rightarrow>
          (case Option.bind (map_of t ''id'') as_str of
             None \<Rightarrow> None
           | Some i \<Rightarrow> map_option (Cons (i, TTable t)) (index_array_of_tables_by_id vs))
      | _ \<Rightarrow> None)"

text \<open>The map of the index keeps the last row of an id, the order lists the ids as they come.\<close>

definition row_map :: "(string \<times> 'f toml) list \<Rightarrow> string \<rightharpoonup> 'f toml" where
  "row_map rows = map_of (rev rows)"

definition merge_row ::
  "'f merge \<Rightarrow> 'f toml option \<Rightarrow> 'f toml option \<Rightarrow> 'f toml option \<Rightarrow> 'f toml option \<times> bool" where
  "merge_row merge b a c =
     (case (b, a, c) of
        (_, Some a_v, Some c_v) \<Rightarrow>
          (case merge (case b of None \<Rightarrow> a_v | Some b_v \<Rightarrow> b_v) a_v c_v of (m, d) \<Rightarrow> (Some m, d))
      | (Some b_v, Some a_v, None) \<Rightarrow> (if a_v = b_v then (None, False) else (Some a_v, True))
      | (Some b_v, None, Some c_v) \<Rightarrow> (if c_v = b_v then (None, False) else (Some c_v, True))
      | (None, Some a_v, None) \<Rightarrow> (Some a_v, False)
      | (None, None, Some c_v) \<Rightarrow> (Some c_v, False)
      | (_, None, None) \<Rightarrow> (None, False))"

definition merge_array_of_tables_by_id ::
  "'f merge \<Rightarrow> 'f toml list \<Rightarrow> 'f toml list \<Rightarrow> 'f toml list \<Rightarrow> ('f toml list \<times> bool) option" where
  "merge_array_of_tables_by_id merge base current other =
     (case (index_array_of_tables_by_id base, index_array_of_tables_by_id current,
            index_array_of_tables_by_id other) of
        (Some b, Some a, Some c) \<Rightarrow>
          (let at = (\<lambda>i. merge_row merge (row_map b i) (row_map a i) (row_map c i));
               ids = bset_of (map fst b @ map fst a @ map fst c);
               current_order = map fst a;
               other_order = filter (\<lambda>i. row_map a i = None) (map fst c);
               base_order = filter (\<lambda>i. row_map a i = None \<and> row_map c i = None) (map fst b)
           in Some (List.map_filter (fst \<circ> at) (current_order @ other_order @ base_order),
                    list_ex (snd \<circ> at) ids))
      | _ \<Rightarrow> None)"

section \<open>The recursion\<close>

lemma size_table_value: "(k, v) \<in> set t \<Longrightarrow> size v < size (TTable t)"
  by (induction t) auto

lemma size_array_value: "v \<in> set xs \<Longrightarrow> size v < size (TArray xs)"
  by (induction xs) auto

lemma row_in_array: "index_array_of_tables_by_id arr = Some rows \<Longrightarrow> (i, v) \<in> set rows \<Longrightarrow> v \<in> set arr"
  by (induction arr arbitrary: rows) (auto split: toml.splits option.splits)

lemma merge_key_cong:
  "(\<And>x y z. a = Some y \<Longrightarrow> c = Some z \<Longrightarrow> f x y z = g x y z) \<Longrightarrow> merge_key f b a c = merge_key g b a c"
  by (auto simp: merge_key_def split: option.split)

lemma merge_table_cong [fundef_cong]:
  assumes "b = b'" "a = a'" "c = c'"
    and "\<And>x k y z. (k, y) \<in> set a' \<Longrightarrow> (k, z) \<in> set c' \<Longrightarrow> f x y z = g x y z"
  shows "merge_table f b a c = merge_table g b' a' c'"
proof -
  have "merge_key f (map_of b' k) (map_of a' k) (map_of c' k) = merge_key g (map_of b' k) (map_of a' k) (map_of c' k)" for k
    by (rule merge_key_cong) (use assms(4) map_of_SomeD in fast)
  with assms(1-3) show ?thesis by (simp add: merge_table_def)
qed

lemma merge_row_cong:
  "(\<And>x y z. a = Some y \<Longrightarrow> c = Some z \<Longrightarrow> f x y z = g x y z) \<Longrightarrow> merge_row f b a c = merge_row g b a c"
  by (auto simp: merge_row_def split: option.split)

lemma merge_array_cong [fundef_cong]:
  assumes "b = b'" "a = a'" "c = c'" and "\<And>x y z. y \<in> set a' \<Longrightarrow> z \<in> set c' \<Longrightarrow> f x y z = g x y z"
  shows "merge_array_of_tables_by_id f b a c = merge_array_of_tables_by_id g b' a' c'"
proof -
  have "merge_row f (row_map rb i) (row_map ra i) (row_map rc i) = merge_row g (row_map rb i) (row_map ra i) (row_map rc i)"
    if "index_array_of_tables_by_id a' = Some ra" "index_array_of_tables_by_id c' = Some rc" for rb ra rc i
  proof (rule merge_row_cong)
    fix x y z
    assume "row_map ra i = Some y" "row_map rc i = Some z"
    then have "(i, y) \<in> set ra" "(i, z) \<in> set rc" by (auto simp: row_map_def dest: map_of_SomeD)
    with that row_in_array have "y \<in> set a'" "z \<in> set c'" by blast+
    then show "f x y z = g x y z" by (rule assms(4))
  qed
  with assms(1-3) show ?thesis
    by (auto simp: merge_array_of_tables_by_id_def Let_def comp_def split: option.split)
qed

function merge_value :: "'f toml \<Rightarrow> 'f toml \<Rightarrow> 'f toml \<Rightarrow> 'f toml \<times> bool" where
  "merge_value base current other =
     (if current = other then (current, False)
      else if current = base then (other, False)
      else if other = base then (current, False)
      else case (base, current, other) of
          (TTable b, TTable a, TTable c) \<Rightarrow>
            (case merge_table merge_value b a c of (out, conflicted) \<Rightarrow> (TTable out, conflicted))
        | (TArray b, TArray a, TArray c) \<Rightarrow>
            (case merge_array_of_tables_by_id merge_value b a c of
               Some (out, conflicted) \<Rightarrow> (TArray out, conflicted)
             | None \<Rightarrow> (current, True))
        | _ \<Rightarrow> (current, True))"
  by pat_completeness auto

termination
  by (relation "measure (\<lambda>(b, a, c). size a)")
    (auto dest: size_table_value size_array_value simp del: toml.size)

declare merge_value.simps [simp del]

section \<open>The driver\<close>

text \<open>A file is missing, unreadable or has a text; a driver returns its code and what it writes.\<close>

datatype file_state = Missing | Unreadable | Content string

fun read_to_string_or_empty :: "file_state \<Rightarrow> string option" where
  "read_to_string_or_empty Missing = Some []"
| "read_to_string_or_empty Unreadable = None"
| "read_to_string_or_empty (Content s) = Some s"

definition projection_generations :: "string list \<Rightarrow> int list option" where
  "projection_generations contents =
     those (map (\<lambda>s. case parse_projection_generation s of Inl _ \<Rightarrow> None | Inr g \<Rightarrow> Some g) contents)"

definition run_sql :: "file_state \<Rightarrow> file_state \<Rightarrow> file_state \<Rightarrow> string option \<Rightarrow> (int \<times> string option) option" where
  "run_sql base current other logical_path =
     (if Option.bind logical_path file_name \<noteq> Some ''epochs.sql'' then Some (0, None)
      else case those (map read_to_string_or_empty [base, current, other]) of
          None \<Rightarrow> None
        | Some contents \<Rightarrow>
            (case projection_generations contents of
               None \<Rightarrow> None
             | Some gs \<Rightarrow>
                 (let g = fold max gs 0 in
                  case ensure_supported supported_writer_generation g Projection of
                    Inl _ \<Rightarrow> None
                  | Inr _ \<Rightarrow>
                      (case with_projection_generation (contents ! 1) g of
                         Inl _ \<Rightarrow> None
                       | Inr rendered \<Rightarrow> Some (0, Some rendered)))))"

record 'f toml_env =
  from_str :: "string \<Rightarrow> 'f toml option"
  to_string_pretty :: "'f toml \<Rightarrow> string option"
  git_merge_file :: "file_state \<Rightarrow> file_state \<Rightarrow> file_state \<Rightarrow> string option"

definition parse_toml_or_empty :: "'f toml_env \<Rightarrow> string \<Rightarrow> 'f toml option" where
  "parse_toml_or_empty V s = (if is_blank s then Some (TTable []) else from_str V s)"

definition run_toml :: "'f toml_env \<Rightarrow> file_state \<Rightarrow> file_state \<Rightarrow> file_state \<Rightarrow> (int \<times> string option) option" where
  "run_toml V base current other =
     (case those (map (\<lambda>f. Option.bind (read_to_string_or_empty f) (parse_toml_or_empty V)) [base, current, other]) of
        Some [base_v, current_v, other_v] \<Rightarrow>
          (case merge_value base_v current_v other_v of
             (merged, False) \<Rightarrow> map_option (\<lambda>s. (0, Some s)) (to_string_pretty V merged)
           | (merged, True) \<Rightarrow> map_option (\<lambda>s. (1, Some s)) (git_merge_file V current base other))
      | _ \<Rightarrow> None)"

datatype merge_driver_kind = Sql | Toml

definition run_driver ::
  "'f toml_env \<Rightarrow> merge_driver_kind \<Rightarrow> file_state \<Rightarrow> file_state \<Rightarrow> file_state \<Rightarrow> string option \<Rightarrow> int \<times> string option" where
  "run_driver V kind base current other path =
     (case (case kind of Sql \<Rightarrow> run_sql base current other path | Toml \<Rightarrow> run_toml V base current other) of
        None \<Rightarrow> (2, None)
      | Some r \<Rightarrow> r)"

end
