(* ===== verification/Merge_Driver_Facts.thy ===== *)
theory Merge_Driver_Facts
  imports Merge_Driver Writer_Fence_Facts
begin

text \<open>
  The structural merge is a three-way merge: key by key and row by row, a change made on one
  side only is taken and equal changes are taken once. The exceptions are stated too.
\<close>

section \<open>Keys\<close>

text \<open>What every three-way merge of optional values has to satisfy.\<close>

definition three_way :: "'a option \<Rightarrow> 'a option \<Rightarrow> 'a option \<Rightarrow> 'a option \<Rightarrow> bool" where
  "three_way b a c m \<longleftrightarrow> (a = b \<longrightarrow> m = c) \<and> (c = b \<longrightarrow> m = a) \<and> (a = c \<longrightarrow> m = a)"

definition one_sided :: "'a option \<Rightarrow> 'a option \<Rightarrow> 'a option \<Rightarrow> bool" where
  "one_sided b a c \<longleftrightarrow> a = b \<or> c = b \<or> a = c"

text \<open>A merge of values that respects unchanged sides.\<close>

definition takes_sides :: "'f merge \<Rightarrow> bool" where
  "takes_sides merge \<longleftrightarrow> (\<forall>x y. merge x x y = (y, False) \<and> merge x y x = (y, False) \<and> merge x y y = (y, False))"

lemma takes_sides_merge_value: "takes_sides merge_value"
  by (auto simp: takes_sides_def merge_value.simps)

lemma takes_sidesD:
  "takes_sides merge \<Longrightarrow> merge x x y = (y, False)" "takes_sides merge \<Longrightarrow> merge x y x = (y, False)"
  "takes_sides merge \<Longrightarrow> merge x y y = (y, False)"
  by (simp_all add: takes_sides_def)

lemma merge_key_three_way:
  assumes "takes_sides merge"
  shows "three_way b a c (fst (merge_key merge b a c))"
    and "one_sided b a c \<Longrightarrow> \<not> snd (merge_key merge b a c)"
  using takes_sidesD [OF assms]
  by (auto simp: three_way_def one_sided_def merge_key_def split: option.split)

lemma merge_row_three_way:
  assumes "takes_sides merge"
  shows "three_way b a c (fst (merge_row merge b a c))"
    and "one_sided b a c \<Longrightarrow> \<not> snd (merge_row merge b a c)"
  using takes_sidesD [OF assms]
  by (auto simp: three_way_def one_sided_def merge_row_def split: option.split)

lemma merge_table_lookup:
  "map_of (fst (merge_table merge b a c)) k = fst (merge_key merge (map_of b k) (map_of a k) (map_of c k))"
proof -
  have "map_of (fst (merge_table merge b a c)) =
      (\<lambda>k. fst (merge_key merge (map_of b k) (map_of a k) (map_of c k))) |` set (merge_keys b a c)"
    by (simp add: merge_table_def Let_def map_of_pairs)
  moreover have "map_of b k = None \<and> map_of a k = None \<and> map_of c k = None" if "k \<notin> set (merge_keys b a c)"
    using that by (auto simp: merge_keys_def map_of_eq_None_iff)
  ultimately show ?thesis by (auto simp: restrict_map_def merge_key_def)
qed

lemma merge_table_conflict:
  "snd (merge_table merge b a c) \<longleftrightarrow> (\<exists>k. snd (merge_key merge (map_of b k) (map_of a k) (map_of c k)))"
proof -
  have "k \<in> set (merge_keys b a c)" if "snd (merge_key merge (map_of b k) (map_of a k) (map_of c k))" for k
  proof (rule ccontr)
    assume "k \<notin> set (merge_keys b a c)"
    then have "map_of b k = None \<and> map_of a k = None \<and> map_of c k = None"
      by (auto simp: merge_keys_def map_of_eq_None_iff)
    with that show False by (simp add: merge_key_def)
  qed
  then show ?thesis by (auto simp: merge_table_def Let_def list_ex_iff)
qed

lemma three_way_trivial: "three_way b b c c" "three_way b a b a" "three_way b a a a"
  by (auto simp: three_way_def)

lemma merge_tables_keys:
  "\<exists>t conflicted. merge_value (TTable b) (TTable a) (TTable c) = (TTable t, conflicted)
    \<and> (\<forall>k. three_way (map_of b k) (map_of a k) (map_of c k) (map_of t k))"
proof (cases "a = c \<or> a = b \<or> c = b")
  case True
  then show ?thesis by (auto simp: merge_value.simps [of "TTable b"] three_way_trivial)
next
  case False
  let ?r = "merge_table merge_value b a c"
  have "merge_value (TTable b) (TTable a) (TTable c) = (TTable (fst ?r), snd ?r)"
    using False by (simp add: merge_value.simps [of "TTable b"] split: prod.split)
  moreover have "\<forall>k. three_way (map_of b k) (map_of a k) (map_of c k) (map_of (fst ?r) k)"
    unfolding merge_table_lookup by (intro allI) (rule merge_key_three_way(1) [OF takes_sides_merge_value])
  ultimately show ?thesis by blast
qed

section \<open>Paths of keys\<close>

fun at_path :: "'f toml option \<Rightarrow> string list \<Rightarrow> 'f toml option" where
  "at_path v [] = v"
| "at_path v (k # p) = (case v of Some (TTable t) \<Rightarrow> at_path (map_of t k) p | _ \<Rightarrow> None)"

lemma at_path_None [simp]: "at_path None p = None"
  by (cases p) simp_all

lemma at_path_empty: "at_path (Some (TTable [])) p = (if p = [] then Some (TTable []) else None)"
  by (cases p) simp_all

lemma at_path_array: "at_path (Some (TArray xs)) p = (if p = [] then Some (TArray xs) else None)"
  by (cases p) simp_all

text \<open>What both sides may change and still merge: two tables, key by key, and two arrays of rows
  that merge row by row. A key that both sides add counts as an empty table before.\<close>

definition before :: "'f toml option \<Rightarrow> 'f toml option \<Rightarrow> 'f toml option \<Rightarrow> 'f toml option" where
  "before b a c = (if b = None \<and> a \<noteq> None \<and> c \<noteq> None then Some (TTable []) else b)"

definition merged_by_key :: "'f toml option \<Rightarrow> 'f toml option \<Rightarrow> 'f toml option \<Rightarrow> bool" where
  "merged_by_key b a c \<longleftrightarrow> (\<exists>tb ta tc. b = Some (TTable tb) \<and> a = Some (TTable ta) \<and> c = Some (TTable tc))"

definition merged_by_row :: "'f toml option \<Rightarrow> 'f toml option \<Rightarrow> 'f toml option \<Rightarrow> bool" where
  "merged_by_row b a c \<longleftrightarrow> (\<exists>rb ra rc out. b = Some (TArray rb) \<and> a = Some (TArray ra) \<and> c = Some (TArray rc)
     \<and> merge_array_of_tables_by_id merge_value rb ra rc = Some (out, False))"

definition clash :: "'f toml option \<Rightarrow> 'f toml option \<Rightarrow> 'f toml option \<Rightarrow> bool" where
  "clash b a c \<longleftrightarrow> \<not> one_sided (before b a c) a c \<and> \<not> merged_by_key (before b a c) a c \<and> \<not> merged_by_row (before b a c) a c"

definition clash_within :: "'f toml option \<Rightarrow> 'f toml option \<Rightarrow> 'f toml option \<Rightarrow> bool" where
  "clash_within b a c \<longleftrightarrow> (\<exists>p. clash (at_path b p) (at_path a p) (at_path c p))"

definition three_way_within :: "'f toml option \<Rightarrow> 'f toml option \<Rightarrow> 'f toml option \<Rightarrow> 'f toml option \<Rightarrow> bool" where
  "three_way_within b a c m \<longleftrightarrow> (\<forall>p. three_way (at_path b p) (at_path a p) (at_path c p) (at_path m p))"

lemma no_clash: "a = b \<or> c = b \<or> a = c \<Longrightarrow> \<not> clash b a c"
  by (auto simp: clash_def one_sided_def before_def)

lemma one_side_within:
  assumes "a = b \<or> c = b \<or> a = c"
  shows "\<not> clash_within b a c" and "m = (if a = b then c else a) \<Longrightarrow> three_way_within b a c m"
  using assms by (auto simp: clash_within_def three_way_within_def three_way_def intro!: no_clash)

lemma before_within: "a \<noteq> None \<Longrightarrow> c \<noteq> None \<Longrightarrow> clash_within (before b a c) a c \<longleftrightarrow> clash_within b a c"
  unfolding clash_within_def
  by (intro ex_cong1, cases b) (auto simp: before_def clash_def at_path_empty)

lemma three_way_before:
  assumes "a \<noteq> None" "c \<noteq> None" "three_way_within (before b a c) a c m"
  shows "three_way_within b a c m"
proof (cases b)
  case None
  then have "three_way_within (Some (TTable [])) a c m" using assms by (simp add: before_def)
  then have step: "three_way (if p = [] then Some (TTable []) else None) (at_path a p) (at_path c p) (at_path m p)" for p
    by (simp add: three_way_within_def at_path_empty)
  have "three_way None (at_path a p) (at_path c p) (at_path m p)" for p
    using assms(1,2) step [of p] by (cases "p = []") (auto simp: three_way_def)
  then show ?thesis using None by (simp add: three_way_within_def)
qed (use assms in \<open>simp add: before_def\<close>)

lemma ex_paths: "(\<exists>p. P p) \<longleftrightarrow> P [] \<or> (\<exists>k p. P (k # p))"
  by (metis list.exhaust)

lemma all_paths: "(\<forall>p. P p) \<longleftrightarrow> P [] \<and> (\<forall>k p. P (k # p))"
  by (metis list.exhaust)

lemma within_tables:
  "clash_within (Some (TTable b)) (Some (TTable a)) (Some (TTable c)) \<longleftrightarrow> (\<exists>k. clash_within (map_of b k) (map_of a k) (map_of c k))"
  "three_way_within (Some (TTable b)) (Some (TTable a)) (Some (TTable c)) (Some (TTable m)) \<longleftrightarrow>
     three_way (Some (TTable b)) (Some (TTable a)) (Some (TTable c)) (Some (TTable m))
     \<and> (\<forall>k. three_way_within (map_of b k) (map_of a k) (map_of c k) (map_of m k))"
proof -
  have "\<not> clash (Some (TTable b)) (Some (TTable a)) (Some (TTable c))"
    by (simp add: clash_def before_def merged_by_key_def)
  then show "clash_within (Some (TTable b)) (Some (TTable a)) (Some (TTable c)) \<longleftrightarrow> (\<exists>k. clash_within (map_of b k) (map_of a k) (map_of c k))"
    unfolding clash_within_def by (subst ex_paths) simp
  show "three_way_within (Some (TTable b)) (Some (TTable a)) (Some (TTable c)) (Some (TTable m)) \<longleftrightarrow>
     three_way (Some (TTable b)) (Some (TTable a)) (Some (TTable c)) (Some (TTable m))
     \<and> (\<forall>k. three_way_within (map_of b k) (map_of a k) (map_of c k) (map_of m k))"
    unfolding three_way_within_def by (subst all_paths) simp
qed

lemma clash_here: "clash b a c \<Longrightarrow> clash_within b a c"
  unfolding clash_within_def by (rule exI [of _ "[]"]) simp

text \<open>One key: both sides have it and are merged, or one has lost it.\<close>

definition merge_exact :: "'f toml \<Rightarrow> 'f toml \<Rightarrow> 'f toml \<Rightarrow> bool" where
  "merge_exact b a c \<longleftrightarrow> (snd (merge_value b a c) \<longleftrightarrow> clash_within (Some b) (Some a) (Some c))
     \<and> (\<not> snd (merge_value b a c) \<longrightarrow> three_way_within (Some b) (Some a) (Some c) (Some (fst (merge_value b a c))))"

lemma merge_key_exact:
  assumes "\<And>x y z. a = Some y \<Longrightarrow> c = Some z \<Longrightarrow> merge_exact x y z"
  shows "snd (merge_key merge_value b a c) \<longleftrightarrow> clash_within b a c"
    and "\<not> snd (merge_key merge_value b a c) \<Longrightarrow> three_way_within b a c (fst (merge_key merge_value b a c))"
proof -
  have "(snd (merge_key merge_value b a c) \<longleftrightarrow> clash_within b a c)
      \<and> (\<not> snd (merge_key merge_value b a c) \<longrightarrow> three_way_within b a c (fst (merge_key merge_value b a c)))"
  proof (cases "a \<noteq> None \<and> c \<noteq> None")
    case True
    then obtain y z where yz: "a = Some y" "c = Some z" by blast
    let ?x = "case b of None \<Rightarrow> TTable [] | Some x \<Rightarrow> x"
    have "merge_key merge_value b a c = (case merge_value ?x y z of (m, d) \<Rightarrow> (Some m, d))"
      using yz by (simp add: merge_key_def)
    moreover have "before b a c = Some ?x" using yz by (simp add: before_def split: option.split)
    moreover have "merge_exact ?x y z" using assms yz by blast
    ultimately show ?thesis
      using yz before_within [of a c b] three_way_before [of a c b] by (auto simp: merge_exact_def split: prod.split)
  next
    case False
    then consider "a = None" "c = None" | y where "a = Some y" "c = None" | z where "a = None" "c = Some z" by auto
    then show ?thesis
    proof cases
      case 1
      then show ?thesis using one_side_within [of a b c] by (simp add: merge_key_def three_way_within_def three_way_def)
    next
      case (2 y)
      show ?thesis
      proof (cases "b = None \<or> b = Some y")
        case True
        then show ?thesis using 2 one_side_within [of a b c] by (auto simp: merge_key_def)
      next
        case False
        with 2 have "clash b a c"
          by (auto simp: clash_def before_def one_sided_def merged_by_key_def merged_by_row_def)
        from clash_here [OF this] 2 False show ?thesis by (auto simp: merge_key_def)
      qed
    next
      case (3 z)
      show ?thesis
      proof (cases "b = None \<or> b = Some z")
        case True
        then show ?thesis using 3 one_side_within [of a b c] by (auto simp: merge_key_def)
      next
        case False
        with 3 have "clash b a c"
          by (auto simp: clash_def before_def one_sided_def merged_by_key_def merged_by_row_def)
        from clash_here [OF this] 3 False show ?thesis by (auto simp: merge_key_def)
      qed
    qed
  qed
  then show "snd (merge_key merge_value b a c) \<longleftrightarrow> clash_within b a c"
    "\<not> snd (merge_key merge_value b a c) \<Longrightarrow> three_way_within b a c (fst (merge_key merge_value b a c))" by blast+
qed

lemma merge_array_exact:
  assumes "\<not> one_sided (Some (TArray b)) (Some (TArray a)) (Some (TArray c))"
  shows "merge_exact (TArray b) (TArray a) (TArray c)"
proof -
  let ?m = "merge_array_of_tables_by_id merge_value b a c"
  have run: "merge_value (TArray b) (TArray a) (TArray c) =
      (case ?m of Some (out, d) \<Rightarrow> (TArray out, d) | None \<Rightarrow> (TArray a, True))"
    using assms by (simp add: merge_value.simps [of "TArray b"] one_sided_def)
  have "clash_within (Some (TArray b)) (Some (TArray a)) (Some (TArray c)) \<longleftrightarrow>
      clash (Some (TArray b)) (Some (TArray a)) (Some (TArray c))"
    using no_clash [of "None :: 'a toml option" None None] unfolding clash_within_def at_path_array by auto
  moreover have "clash (Some (TArray b)) (Some (TArray a)) (Some (TArray c)) \<longleftrightarrow> \<not> (\<exists>out. ?m = Some (out, False))"
    using assms by (auto simp: clash_def before_def merged_by_key_def merged_by_row_def)
  moreover have "three_way_within (Some (TArray b)) (Some (TArray a)) (Some (TArray c)) (Some (TArray out))" for out
    using assms unfolding three_way_within_def at_path_array by (auto simp: three_way_def one_sided_def)
  ultimately show ?thesis
    by (auto simp: merge_exact_def run split: option.split prod.split)
qed

lemma merge_value_exact: "merge_exact b a c"
proof (induction a arbitrary: b c rule: measure_induct_rule [where f = size])
  case (less a b c)
  show ?case
  proof (cases "a = c \<or> a = b \<or> c = b")
    case True
    then have "merge_value b a c = (if a = b then c else a, False)"
      by (auto simp: merge_value.simps)
    moreover have "Some a = Some b \<or> Some c = Some b \<or> Some a = Some c" using True by auto
    note one_side_within(1) [OF this] one_side_within(2) [OF this, where m = "Some (if a = b then c else a)"]
    ultimately show ?thesis by (auto simp: merge_exact_def)
  next
    case two: False
    then have sides: "\<not> one_sided (Some b) (Some a) (Some c)" by (auto simp: one_sided_def)
    show ?thesis
    proof (cases "merged_by_key (Some b) (Some a) (Some c)")
      case True
      then obtain tb ta tc where t: "b = TTable tb" "a = TTable ta" "c = TTable tc"
        by (auto simp: merged_by_key_def)
      let ?r = "merge_table merge_value tb ta tc"
      have run: "merge_value (TTable tb) (TTable ta) (TTable tc) = (TTable (fst ?r), snd ?r)"
        using two t by (simp add: merge_value.simps [of "TTable tb"] split: prod.split)
      have key: "merge_exact x y z" if "map_of ta k = Some y" "map_of tc k = Some z" for x y z k
        by (rule less) (use size_table_value [OF map_of_SomeD [OF that(1)]] t in simp)
      have k: "snd (merge_key merge_value (map_of tb k) (map_of ta k) (map_of tc k)) \<longleftrightarrow> clash_within (map_of tb k) (map_of ta k) (map_of tc k)"
        "\<not> snd (merge_key merge_value (map_of tb k) (map_of ta k) (map_of tc k)) \<Longrightarrow>
          three_way_within (map_of tb k) (map_of ta k) (map_of tc k) (fst (merge_key merge_value (map_of tb k) (map_of ta k) (map_of tc k)))" for k
        by (rule merge_key_exact, erule key, assumption)+
      have "three_way (Some b) (Some a) (Some c) m" for m
        using sides by (auto simp: three_way_def one_sided_def)
      then show ?thesis
        using k unfolding t merge_exact_def run fst_conv snd_conv within_tables merge_table_lookup merge_table_conflict by auto
    next
      case False
      show ?thesis
      proof (cases "\<exists>rb ra rc. b = TArray rb \<and> a = TArray ra \<and> c = TArray rc")
        case True
        then show ?thesis using merge_array_exact sides by blast
      next
        case arrays: False
        have "merge_value b a c = (a, True)"
          using two False arrays by (cases b; cases a; cases c) (auto simp: merge_value.simps merged_by_key_def)
        moreover have "clash (Some b) (Some a) (Some c)"
          using sides False arrays by (auto simp: clash_def before_def merged_by_row_def)
        ultimately show ?thesis using clash_here by (simp add: merge_exact_def)
      qed
    qed
  qed
qed

text \<open>
  C29. The merge of documents is exact at every path of keys. It reports a conflict if and only if
  at some path both sides changed what was there differently and the two are neither tables (then
  the paths below decide) nor arrays of rows that merge without conflict; deleting on one side what
  the other changed is such a case. Otherwise every path follows the three-way rule: what only one
  side changed is taken from that side, what both changed alike is taken once, deletions included.
  A key added on both sides counts as an empty table before; rows within arrays follow their own rule.
\<close>

theorem merge_value_three_way:
  "case merge_value b a c of (m, conflicted) \<Rightarrow>
     (conflicted \<longleftrightarrow> (\<exists>p. clash (at_path (Some b) p) (at_path (Some a) p) (at_path (Some c) p)))
     \<and> (conflicted \<or> (\<forall>p. three_way (at_path (Some b) p) (at_path (Some a) p) (at_path (Some c) p) (at_path (Some m) p)))"
  using merge_value_exact [of b a c]
  by (auto simp: merge_exact_def clash_within_def three_way_within_def split: prod.split)

section \<open>Rows\<close>

definition toy_pair :: "bool \<Rightarrow> bool \<Rightarrow> unit toml" where
  "toy_pair u v = TTable [(''x'', TTable [(''u'', TBoolean u), (''v'', TBoolean v)])]"

theorem merge_value_three_way_witness:
  "case merge_value (toy_pair False False) (toy_pair True False) (toy_pair False True) of (m, conflicted) \<Rightarrow>
     \<not> conflicted \<and> at_path (Some m) [''x'', ''u''] = Some (TBoolean True) \<and> at_path (Some m) [''x'', ''v''] = Some (TBoolean True)"
proof -
  have "\<not> snd (merge_value (toy_pair False False) (toy_pair True False) (toy_pair False True))"
    by (simp add: toy_pair_def merge_value.simps merge_table_def merge_keys_def merge_key_def bset_of_def bset_insert_def Let_def
        List.map_filter_simps)
  with merge_value_three_way [of "toy_pair False False" "toy_pair True False" "toy_pair False True"]
  have "three_way (at_path (Some (toy_pair False False)) p) (at_path (Some (toy_pair True False)) p) (at_path (Some (toy_pair False True)) p)
      (at_path (Some (fst (merge_value (toy_pair False False) (toy_pair True False) (toy_pair False True)))) p)" for p
    by (auto simp: case_prod_unfold)
  from this [of "[''x'', ''u'']"] this [of "[''x'', ''v'']"] show ?thesis
    using \<open>\<not> snd _\<close> by (auto simp: toy_pair_def three_way_def case_prod_unfold)
qed

section \<open>Rows\<close>

lemma index_rows_append:
  "index_array_of_tables_by_id (xs @ ys) =
     (case (index_array_of_tables_by_id xs, index_array_of_tables_by_id ys) of
        (Some a, Some b) \<Rightarrow> Some (a @ b) | _ \<Rightarrow> None)"
  by (induction xs) (auto split: toml.split option.split)

definition row_of :: "string \<Rightarrow> 'f toml \<Rightarrow> bool" where
  "row_of i v \<longleftrightarrow> (\<exists>t. v = TTable t \<and> Option.bind (map_of t ''id'') as_str = Some i)"

lemma row_ofD: "row_of i v \<Longrightarrow> \<exists>t. v = TTable t \<and> map_of t ''id'' = Some (TString i)"
proof -
  assume "row_of i v"
  then obtain t y where "v = TTable t" "map_of t ''id'' = Some y" "as_str y = Some i"
    by (auto simp: row_of_def bind_eq_Some_conv)
  then show ?thesis by (cases y) (auto simp: as_str_def)
qed

lemma index_rows_all:
  "index_array_of_tables_by_id arr = Some rows \<Longrightarrow> (i, v) \<in> set rows \<Longrightarrow> row_of i v"
  by (induction arr arbitrary: rows) (auto simp: row_of_def split: toml.splits option.splits)

lemma index_rows_map_filter:
  "(\<And>i v. i \<in> set ids \<Longrightarrow> g i = Some v \<Longrightarrow> row_of i v) \<Longrightarrow>
     index_array_of_tables_by_id (List.map_filter g ids) =
       Some (List.map_filter (\<lambda>i. map_option (Pair i) (g i)) ids)"
proof (induction ids)
  case (Cons i ids)
  then have IH: "index_array_of_tables_by_id (List.map_filter g ids) =
       Some (List.map_filter (\<lambda>i. map_option (Pair i) (g i)) ids)" by simp
  show ?case
  proof (cases "g i")
    case None
    with IH show ?thesis by (simp add: List.map_filter_simps)
  next
    case (Some v)
    with Cons.prems obtain t where "v = TTable t" "Option.bind (map_of t ''id'') as_str = Some i"
      by (force simp: row_of_def)
    with IH Some show ?thesis by (simp add: List.map_filter_simps)
  qed
qed (simp add: List.map_filter_simps)

text \<open>Merging two rows of one id gives a row of this id.\<close>

lemma merge_row_id:
  assumes "\<And>v. b = Some v \<Longrightarrow> row_of i v" "\<And>v. a = Some v \<Longrightarrow> row_of i v" "\<And>v. c = Some v \<Longrightarrow> row_of i v"
    and "fst (merge_row merge_value b a c) = Some m"
  shows "row_of i m"
proof (cases "a \<noteq> None \<and> c \<noteq> None")
  case True
  then obtain x y where xy: "a = Some x" "c = Some y" by blast
  let ?b = "case b of None \<Rightarrow> x | Some v \<Rightarrow> v"
  obtain ta tc where ac: "x = TTable ta" "y = TTable tc"
    "map_of ta ''id'' = Some (TString i)" "map_of tc ''id'' = Some (TString i)"
    using assms(2) [OF xy(1), THEN row_ofD] assms(3) [OF xy(2), THEN row_ofD] by blast
  have "\<exists>tb. ?b = TTable tb"
    using assms(1) [THEN row_ofD] ac(1) by (cases b) auto
  with ac obtain tb where t: "?b = TTable tb" "x = TTable ta" "y = TTable tc"
    "map_of ta ''id'' = Some (TString i)" "map_of tc ''id'' = Some (TString i)" by blast
  from merge_tables_keys [of tb ta tc] obtain u d where
    u: "merge_value (TTable tb) (TTable ta) (TTable tc) = (TTable u, d)"
      "three_way (map_of tb ''id'') (map_of ta ''id'') (map_of tc ''id'') (map_of u ''id'')" by blast
  from assms(4) xy t u(1) have "m = TTable u" by (auto simp: merge_row_def split: option.splits prod.splits)
  with u(2) t show ?thesis by (simp add: three_way_def row_of_def as_str_def)
next
  case False
  with assms show ?thesis by (auto simp: merge_row_def split: option.splits if_splits)
qed

lemma map_fst_pairs: "map fst (List.map_filter (\<lambda>i. map_option (Pair i) (g i)) ids) = filter (\<lambda>i. g i \<noteq> None) ids"
  by (induction ids) (auto simp: List.map_filter_simps)

lemma row_map_eq: "distinct (map fst rows) \<Longrightarrow> row_map rows = map_of rows"
  unfolding row_map_def by (subst map_of_inject_set) (simp_all flip: rev_map)

lemma row_map_row_of:
  "index_array_of_tables_by_id arr = Some rows \<Longrightarrow> row_map rows i = Some v \<Longrightarrow> row_of i v"
  by (auto simp: row_map_def dest!: map_of_SomeD intro: index_rows_all)

lemma row_map_None: "row_map rows i = None \<longleftrightarrow> i \<notin> fst ` set rows"
  by (simp add: row_map_def map_of_eq_None_iff)

text \<open>
  C33. Merging three arrays whose rows have pairwise different ids gives such an array again:
  the rows of the current side in their order, then the new rows of the other side in theirs,
  and each id follows the three-way rule, rows deleted on one side and unchanged on the other
  being gone.
\<close>

theorem merge_rows_three_way:
  fixes base current other :: "'f toml list"
  assumes b: "index_array_of_tables_by_id base = Some b" and a: "index_array_of_tables_by_id current = Some a"
    and c: "index_array_of_tables_by_id other = Some c"
    and dist: "distinct (map fst b)" "distinct (map fst a)" "distinct (map fst c)"
  shows "\<exists>out conflicted rows. merge_array_of_tables_by_id merge_value base current other = Some (out, conflicted)
    \<and> index_array_of_tables_by_id out = Some rows \<and> distinct (map fst rows)
    \<and> (\<forall>i. three_way (map_of b i) (map_of a i) (map_of c i) (map_of rows i))
    \<and> (\<exists>P. map fst rows = filter P (map fst a @ filter (\<lambda>i. i \<notin> set (map fst a)) (map fst c)))"
proof -
  let ?at = "\<lambda>i. merge_row merge_value (row_map b i) (row_map a i) (row_map c i)"
  let ?g = "\<lambda>i. fst (?at i)"
  let ?co = "filter (\<lambda>i. row_map a i = None) (map fst c)"
    and ?bo = "filter (\<lambda>i. row_map a i = None \<and> row_map c i = None) (map fst b)"
  let ?ids = "map fst a @ ?co @ ?bo"
  let ?rows = "List.map_filter (\<lambda>i. map_option (Pair i) (?g i)) ?ids"
  have run: "merge_array_of_tables_by_id merge_value base current other =
      Some (List.map_filter ?g ?ids, list_ex (\<lambda>i. snd (?at i)) (bset_of (map fst b @ map fst a @ map fst c)))"
    using a b c by (simp add: merge_array_of_tables_by_id_def Let_def comp_def)
  have rows: "index_array_of_tables_by_id (List.map_filter ?g ?ids) = Some ?rows"
  proof (rule index_rows_map_filter)
    fix i v
    assume "?g i = Some v"
    then show "row_of i v"
      by (rule merge_row_id [rotated 3]) (use row_map_row_of a b c in blast)+
  qed
  have gone: "?g i = None" if "row_map a i = None" "row_map c i = None" for i
    using that by (auto simp: merge_row_def split: option.split)
  have "\<not> ?g i \<noteq> None" if i: "i \<in> set ?bo" for i
  proof -
    from i have "row_map a i = None" "row_map c i = None" by simp_all
    from gone [OF this] show ?thesis by (simp only: not_not)
  qed
  then have "filter (\<lambda>i. ?g i \<noteq> None) ?bo = []" by (intro filter_False ballI)
  then have fst_rows: "map fst ?rows = filter (\<lambda>i. ?g i \<noteq> None) (map fst a @ ?co)"
    unfolding map_fst_pairs filter_append by (simp only: append_Nil2)
  have co: "?co = filter (\<lambda>i. i \<notin> set (map fst a)) (map fst c)" by (simp add: row_map_None)
  have "distinct (map fst a @ ?co)" unfolding co using dist by auto
  then have d: "distinct (map fst ?rows)" unfolding fst_rows by (rule distinct_filter)
  have "map_of ?rows i = ?g i" for i
  proof -
    have "map_of ?rows i = (?g |` set ?ids) i" by (simp only: map_of_pairs)
    moreover have "?g i = None" if "i \<notin> set ?ids"
    proof (rule gone)
      from that show "row_map a i = None" by (auto simp: row_map_None)
      then show "row_map c i = None" using that by (auto simp: row_map_None)
    qed
    ultimately show ?thesis by (cases "i \<in> set ?ids") (simp_all add: restrict_map_def)
  qed
  then have tw: "\<forall>i. three_way (map_of b i) (map_of a i) (map_of c i) (map_of ?rows i)"
    using merge_row_three_way(1) [OF takes_sides_merge_value, of "row_map b i" "row_map a i" "row_map c i" for i]
    by (simp add: row_map_eq dist)
  have "\<exists>P. map fst ?rows = filter P (map fst a @ filter (\<lambda>i. i \<notin> set (map fst a)) (map fst c))"
    by (intro exI, rule trans [OF fst_rows]) (rule arg_cong [OF arg_cong [OF co]])
  then obtain R where R: "R = ?rows"
    "\<exists>P. map fst R = filter P (map fst a @ filter (\<lambda>i. i \<notin> set (map fst a)) (map fst c))" by blast
  obtain res where res: "res = List.map_filter ?g ?ids" by blast
  from run rows d tw R(2) show ?thesis
    unfolding R(1) [symmetric] res [symmetric] by blast
qed

definition toy_row :: "string \<Rightarrow> string \<Rightarrow> unit toml" where
  "toy_row i x = TTable [(''id'', TString i), (''x'', TString x)]"

lemma index_toy_row [simp]:
  "index_array_of_tables_by_id (toy_row i x # rs) = map_option (Cons (i, toy_row i x)) (index_array_of_tables_by_id rs)"
  by (simp add: toy_row_def as_str_def)

theorem merge_rows_three_way_witness:
  "\<exists>out conflicted rows. merge_array_of_tables_by_id merge_value [toy_row ''a'' ''1'', toy_row ''b'' ''1'']
        [toy_row ''b'' ''2'', toy_row ''a'' ''1''] [toy_row ''b'' ''1'', toy_row ''c'' ''3''] = Some (out, conflicted)
     \<and> index_array_of_tables_by_id out = Some rows
     \<and> map_of rows ''a'' = None \<and> map_of rows ''b'' = Some (toy_row ''b'' ''2'')
     \<and> map_of rows ''c'' = Some (toy_row ''c'' ''3'')"
proof -
  let ?b = "[(''a'', toy_row ''a'' ''1''), (''b'', toy_row ''b'' ''1'')]"
    and ?a = "[(''b'', toy_row ''b'' ''2''), (''a'', toy_row ''a'' ''1'')]"
    and ?c = "[(''b'', toy_row ''b'' ''1''), (''c'', toy_row ''c'' ''3'')]"
  obtain out conflicted rows where m: "merge_array_of_tables_by_id merge_value [toy_row ''a'' ''1'', toy_row ''b'' ''1'']
        [toy_row ''b'' ''2'', toy_row ''a'' ''1''] [toy_row ''b'' ''1'', toy_row ''c'' ''3''] = Some (out, conflicted)"
    "index_array_of_tables_by_id out = Some rows"
    "\<forall>i. three_way (map_of ?b i) (map_of ?a i) (map_of ?c i) (map_of rows i)"
    using merge_rows_three_way [of "[toy_row ''a'' ''1'', toy_row ''b'' ''1'']" ?b
        "[toy_row ''b'' ''2'', toy_row ''a'' ''1'']" ?a "[toy_row ''b'' ''1'', toy_row ''c'' ''3'']" ?c]
    by (auto simp del: index_array_of_tables_by_id.simps(2))
  with spec [OF m(3), of "''a''"] spec [OF m(3), of "''b''"] spec [OF m(3), of "''c''"] show ?thesis
    by (auto simp: three_way_def)
qed

section \<open>A row added on both sides\<close>

text \<open>
  Two sides that add different rows under the same id do not conflict: the merge is
  reported as clean and holds the other side's row alone, while the same two additions to a
  table are reported as a conflict.
\<close>

theorem both_added_row_is_lost:
  fixes x y :: "'f toml"
  assumes "row_of i x" and "row_of i y" and "x \<noteq> y" and "u \<noteq> v"
  shows "merge_value (TArray []) (TArray [x]) (TArray [y]) = (TArray [y], False)
    \<and> snd (merge_value (TTable []) (TTable [(k, TString u)]) (TTable [(k, TString v :: 'f toml)]))"
proof
  have "index_array_of_tables_by_id [x] = Some [(i, x)]" "index_array_of_tables_by_id [y] = Some [(i, y)]"
    using assms(1,2) by (auto simp: row_of_def)
  moreover have "merge_value x x y = (y, False)"
    using takes_sidesD(1) [OF takes_sides_merge_value] by blast
  ultimately have "merge_array_of_tables_by_id merge_value [] [x] [y] = Some ([y], False)"
    by (simp add: merge_array_of_tables_by_id_def Let_def row_map_def merge_row_def bset_of_def bset_insert_def
        List.map_filter_simps)
  with assms(3) show "merge_value (TArray []) (TArray [x]) (TArray [y]) = (TArray [y], False)"
    by (simp add: merge_value.simps [of "TArray []"])
  have "merge_value (TTable []) (TString u) (TString v :: 'f toml) = (TString u, True)"
    using assms(4) by (simp add: merge_value.simps)
  then have "snd (merge_table merge_value [] [(k, TString u)] [(k, TString v :: 'f toml)])"
    by (simp add: merge_table_def Let_def merge_keys_def merge_key_def bset_of_def bset_insert_def)
  then show "snd (merge_value (TTable []) (TTable [(k, TString u)]) (TTable [(k, TString v :: 'f toml)]))"
    using assms(4) by (auto simp: merge_value.simps [of "TTable []" "TTable [(k, TString u)]"] split: prod.split)
qed

theorem both_added_row_is_lost_witness:
  "merge_value (TArray []) (TArray [toy_row ''a'' ''1'']) (TArray [toy_row ''a'' ''2'']) =
     (TArray [toy_row ''a'' ''2''], False)"
  using both_added_row_is_lost [of "''a''" "toy_row ''a'' ''1''" "toy_row ''a'' ''2''" "''u''" "''v''"]
  by (simp add: row_of_def toy_row_def as_str_def)

section \<open>The generation of epochs.sql\<close>

text \<open>
  Merging \<open>epochs.sql\<close> never loses a generation: the driver succeeds only if all three
  versions have a valid header and none requires a newer writer; it then keeps the current
  content under a header with the highest of the three generations. Otherwise the driver
  fails with code 2 and writes nothing.
\<close>

theorem epochs_merge_keeps_generation:
  fixes V :: "'f toml_env"
  assumes "file_name path = Some ''epochs.sql''"
  shows "case run_driver V Sql (Content b) (Content a) (Content c) (Some path) of
      (code, Some written) \<Rightarrow> code = 0 \<and> (\<exists>gb ga gc.
         parse_projection_generation b = Inr gb \<and> parse_projection_generation a = Inr ga \<and>
         parse_projection_generation c = Inr gc \<and>
         parse_projection_generation written = Inr (max gb (max ga gc)) \<and>
         projection_body written = projection_body a)
    | (code, None) \<Rightarrow> code = 2 \<and> ((\<exists>e. parse_projection_generation b = Inl e) \<or>
         (\<exists>e. parse_projection_generation a = Inl e) \<or> (\<exists>e. parse_projection_generation c = Inl e) \<or>
         (\<exists>s \<in> {b, a, c}. \<exists>g. parse_projection_generation s = Inr g \<and> supported_writer_generation < g))"
proof -
  have range: "0 \<le> g \<and> g \<le> max_writer_generation" if "parse_projection_generation s = Inr g" for s g
    using that by (auto simp: parse_projection_generation_def max_writer_generation_def
        split: list.splits option.splits if_splits)
  show ?thesis
  proof (cases "parse_projection_generation b")
    case (Inl e)
    with assms show ?thesis by (simp add: run_driver_def run_sql_def projection_generations_def)
  next
    case b: (Inr gb)
    show ?thesis
    proof (cases "parse_projection_generation a")
      case (Inl e)
      with assms b show ?thesis by (simp add: run_driver_def run_sql_def projection_generations_def)
    next
      case a: (Inr ga)
      show ?thesis
      proof (cases "parse_projection_generation c")
        case (Inl e)
        with assms a b show ?thesis by (simp add: run_driver_def run_sql_def projection_generations_def)
      next
        case c: (Inr gc)
        let ?g = "max gb (max ga gc)"
        have g: "0 \<le> ?g" "?g \<le> max_writer_generation" and fm: "max gc (max ga (max gb 0)) = ?g"
          using range [OF a] range [OF b] range [OF c] by (auto simp: max_def)
        show ?thesis
        proof (cases "supported_writer_generation < ?g")
          case False
          have "run_driver V Sql (Content b) (Content a) (Content c) (Some path) =
              (0, Some ((projection_generation_prefix @ show_int ?g) @ nl # projection_body a))"
            using assms a b c False g fm
            by (simp add: run_driver_def run_sql_def projection_generations_def Let_def with_generation_eq
                ensure_supported_def del: max_less_iff_conj less_max_iff_disj)
          with a b c parse_header [OF g] body_of_header [OF g(1)] show ?thesis by simp
        next
          case True
          with assms a b c fm have "run_driver V Sql (Content b) (Content a) (Content c) (Some path) = (2, None)"
            by (simp add: run_driver_def run_sql_def projection_generations_def Let_def ensure_supported_def
                del: less_max_iff_disj)
          with True a b c show ?thesis by (auto simp: less_max_iff_disj)
        qed
      qed
    qed
  qed
qed

theorem epochs_merge_keeps_generation_witness:
  "\<exists>written. run_driver \<lparr>from_str = \<lambda>_. None :: unit toml option, to_string_pretty = \<lambda>_. None, git_merge_file = \<lambda>_ _ _. None\<rparr> Sql (Content []) (Content ''INSERT'') (Content []) (Some ''docs/epochs.sql'') =
     (0, Some written) \<and> parse_projection_generation written = Inr 0"
proof -
  have name: "file_name ''docs/epochs.sql'' = Some ''epochs.sql''" by (simp add: file_name_def)
  have p: "parse_projection_generation ''INSERT'' = Inr 0" "parse_projection_generation [] = Inr 0"
    by (simp_all add: parse_projection_generation_def text_lines_def projection_generation_prefix_def
        strip_prefix_def starts_with_def)
  from epochs_merge_keeps_generation [OF name, where V = "\<lparr>from_str = \<lambda>_. None :: unit toml option, to_string_pretty = \<lambda>_. None, git_merge_file = \<lambda>_ _ _. None\<rparr>" and b = "[]" and a = "''INSERT''" and c = "[]"] p show ?thesis
    by (auto simp: supported_writer_generation_def split: prod.splits option.splits)
qed

end
