(* ===== verification/Plan_State.thy ===== *)
theory Plan_State
  imports Steering
begin

text \<open>
  The plan as commands see it: \<open>Goal\<close>, \<open>Phase\<close>, \<open>Epoch\<close> and \<open>ExoState\<close> of
  \<open>tools/exo/src/context.rs\<close> with their status derivation and lookups, the identifiers of
  \<open>ulid_util.rs\<close>, and the workspace's active phase. The ULID codec is a parameter; a point in
  time is its nanoseconds.
\<close>

section \<open>Identifiers\<close>

type_synonym ulid = "128 word"

record ulid_lib =
  ulid_from_string :: "string \<Rightarrow> ulid option"
  ulid_to_string :: "ulid \<Rightarrow> string"

definition canonical_ref :: "ulid_lib \<Rightarrow> string \<Rightarrow> ulid \<Rightarrow> string" where
  "canonical_ref L type_name u = type_name @ ''@'' @ ulid_to_string L u"

definition parse_canonical_ref :: "ulid_lib \<Rightarrow> string \<Rightarrow> (string \<times> ulid) option" where
  "parse_canonical_ref L s =
     Option.bind (split_once ''@'' s) (\<lambda>(type_name, u).
       if type_name = [] then None else map_option (Pair type_name) (ulid_from_string L u))"

datatype id_match = UlidMatch ulid | SlugMatch string | LegacyId string

text \<open>What \<open>UlidResolvable\<close> asks of an entity.\<close>

record entity =
  id_of :: string
  ulid_of :: "ulid option"
  slug_of :: "string option"
  aliases_of :: "string list"

definition matches_id :: "ulid_lib \<Rightarrow> 'a entity_scheme \<Rightarrow> string \<Rightarrow> id_match option" where
  "matches_id L x lookup =
     (case parse_canonical_ref L lookup of
        Some (_, u) \<Rightarrow> if ulid_of x = Some u then Some (UlidMatch u) else None
      | None \<Rightarrow>
          (if ulid_from_string L lookup \<noteq> None \<and> ulid_of x = ulid_from_string L lookup
           then map_option UlidMatch (ulid_of x)
           else if slug_of x = Some lookup then Some (SlugMatch lookup)
           else if id_of x = lookup then Some (LegacyId lookup)
           else if lookup \<in> set (aliases_of x) then Some (LegacyId lookup)
           else None))"

definition echo_canonical :: "ulid_lib \<Rightarrow> 'a entity_scheme \<Rightarrow> string \<Rightarrow> string" where
  "echo_canonical L x type_name =
     (case ulid_of x of
        Some u \<Rightarrow> type_name @ ''@'' @ ulid_to_string L u
          @ (case slug_of x of None \<Rightarrow> [] | Some s \<Rightarrow> '' ('' @ s @ '')'')
      | None \<Rightarrow> type_name @ '':'' @ (case slug_of x of Some s \<Rightarrow> s | None \<Rightarrow> id_of x))"

section \<open>Goals, phases, epochs\<close>

type_synonym instant = int

record goal = entity +
  goal_label :: string
  goal_status :: string
  goal_kind :: "string option"
  goal_started_at :: "instant option"
  goal_description :: "string option"
  goal_completion_log :: "string option"
  goal_rfc :: "string option"
  goal_target_stage :: "8 word option"

record phase_rfc =
  rfc_id :: string
  rfc_target :: "8 word option"
  rfc_relation :: string

datatype phase_kind = Regular | Chore

record phase = entity +
  phase_title :: string
  phase_status :: string
  phase_completed_at :: "instant option"
  phase_goals :: "goal list"
  phase_rfcs :: "phase_rfc list"
  phase_kind :: phase_kind

record epoch = entity +
  epoch_title :: string
  epoch_phases :: "phase list"
  epoch_reviewed :: bool

definition phase_kind_str :: "phase_kind \<Rightarrow> string" where
  "phase_kind_str k = (case k of Regular \<Rightarrow> ''regular'' | Chore \<Rightarrow> ''chore'')"

definition phase_kind_from_str :: "string \<Rightarrow> string + phase_kind" where
  "phase_kind_from_str s =
     (if s = ''regular'' then Inr Regular else if s = ''chore'' then Inr Chore
      else Inl (''Invalid phase kind: '' @ s))"

definition canonical_or_id :: "ulid_lib \<Rightarrow> string \<Rightarrow> 'a entity_scheme \<Rightarrow> string" where
  "canonical_or_id L type_name x = (case ulid_of x of Some u \<Rightarrow> canonical_ref L type_name u | None \<Rightarrow> id_of x)"

definition is_terminal :: "goal \<Rightarrow> bool" where
  "is_terminal g \<longleftrightarrow> goal_status g \<in> {''completed'', ''red'', ''green'', ''aborted'', ''skipped'', ''abandoned''}"

definition driving :: "string \<Rightarrow> 8 word \<Rightarrow> phase_rfc" where
  "driving i target = \<lparr>rfc_id = i, rfc_target = Some target, rfc_relation = ''driving''\<rparr>"

definition related :: "string \<Rightarrow> phase_rfc" where
  "related i = \<lparr>rfc_id = i, rfc_target = None, rfc_relation = ''related''\<rparr>"

definition blocked :: "string \<Rightarrow> phase_rfc" where
  "blocked i = \<lparr>rfc_id = i, rfc_target = None, rfc_relation = ''blocked''\<rparr>"

definition is_driving :: "phase_rfc \<Rightarrow> bool" where
  "is_driving r \<longleftrightarrow> rfc_relation r = ''driving''"

text \<open>\<open>Epoch::derived_status\<close>, test by test.\<close>

definition derived_status :: "epoch \<Rightarrow> string" where
  "derived_status e =
     (let has = (\<lambda>s. list_ex (\<lambda>p. phase_status p = s) (epoch_phases e)) in
      if has ''in-progress'' then ''in-progress''
      else if has ''abandoned'' then ''abandoned''
      else if epoch_phases e = [] then ''pending''
      else if list_all (\<lambda>p. phase_status p = ''completed'') (epoch_phases e) then ''completed''
      else if list_all (\<lambda>p. phase_status p = ''deferred'')
          (filter (\<lambda>p. phase_status p \<noteq> ''completed'') (epoch_phases e)) then ''deferred''
      else if has ''completed'' \<and> has ''pending'' then ''in-progress''
      else ''pending'')"

definition needs_review :: "epoch \<Rightarrow> bool" where
  "needs_review e \<longleftrightarrow> derived_status e = ''completed'' \<and> \<not> epoch_reviewed e"

section \<open>Reading legacy plans\<close>

definition normalize_status :: "string \<Rightarrow> string" where
  "normalize_status s =
     (if s = ''active'' then ''in-progress'' else if s = ''complete'' then ''completed''
      else if s = ''bankrupt'' then ''abandoned'' else if s = ''aborted'' then ''abandoned'' else s)"

fun slug_chars :: "bool \<Rightarrow> string \<Rightarrow> string" where
  "slug_chars prev_dash [] = []"
| "slug_chars prev_dash (c # s) =
     (if is_alnum (ascii_lower c) then ascii_lower c # slug_chars False s
      else if \<not> prev_dash then CHR ''-'' # slug_chars True s
      else slug_chars prev_dash s)"

definition trim_dashes :: "string \<Rightarrow> string" where
  "trim_dashes s = (let cut = dropWhile (\<lambda>c. c = CHR ''-'') in rev (cut (rev (cut s))))"

definition slugify_task_id :: "string \<Rightarrow> string" where
  "slugify_task_id label = trim_dashes (slug_chars False label)"

text \<open>The loop of \<open>upgrade_goal_labels\<close>: \<open>seen\<close> counts the uses of a base.\<close>

fun upgrade_labels :: "(string \<Rightarrow> nat) \<Rightarrow> string \<Rightarrow> string list \<Rightarrow> goal list" where
  "upgrade_labels seen status [] = []"
| "upgrade_labels seen status (label # labels) =
     (let slug = slugify_task_id label;
          base = if slug = [] then ''goal'' else slug;
          n = Suc (seen base)
      in \<lparr>id_of = if n = 1 then base else base @ ''-'' @ show_nat n, ulid_of = None, slug_of = None, aliases_of = [],
          goal_label = label, goal_status = status, goal_kind = None, goal_started_at = None, goal_description = None,
          goal_completion_log = None, goal_rfc = None, goal_target_stage = None\<rparr>
         # upgrade_labels (seen(base := n)) status labels)"

definition upgrade_goal_labels :: "string list \<Rightarrow> string \<Rightarrow> goal list" where
  "upgrade_goal_labels labels status = upgrade_labels (\<lambda>_. 0) status labels"

datatype goals_input = Structured "goal list" | Labels "string list"

datatype rfc_input = RfcRecord phase_rfc | RfcSimple string

record phase_input = entity +
  input_title :: string
  input_status :: string
  input_completed_at :: "instant option"
  input_tasks :: "goals_input option"
  input_goals :: "goals_input option"
  input_rfcs :: "rfc_input list option"
  input_kind :: phase_kind

definition phase_of_input :: "phase_input \<Rightarrow> phase" where
  "phase_of_input i =
     (let status = normalize_status (input_status i);
          task_status = if status = ''completed'' then ''completed'' else ''pending'';
          goals = (case (case input_goals i of Some g \<Rightarrow> Some g | None \<Rightarrow> input_tasks i) of
              None \<Rightarrow> []
            | Some (Structured gs) \<Rightarrow> gs
            | Some (Labels ls) \<Rightarrow> upgrade_goal_labels ls task_status);
          rfcs = map (\<lambda>r. case r of RfcRecord x \<Rightarrow> x | RfcSimple s \<Rightarrow> related s)
            (case input_rfcs i of None \<Rightarrow> [] | Some rs \<Rightarrow> rs)
      in \<lparr>id_of = id_of i, ulid_of = ulid_of i, slug_of = slug_of i, aliases_of = aliases_of i,
          phase_title = input_title i, phase_status = status, phase_completed_at = input_completed_at i,
          phase_goals = goals, phase_rfcs = rfcs, phase_kind = input_kind i\<rparr>)"

section \<open>Lookups in the plan\<close>

record phase_info =
  info_epoch :: epoch
  info_phase :: phase
  info_epoch_idx :: nat
  info_phase_idx :: nat

text \<open>The phases in the order the nested loops visit them.\<close>

definition plan_phases :: "epoch list \<Rightarrow> phase_info list" where
  "plan_phases plan =
     concat (map (\<lambda>(i, e). map (\<lambda>(j, p). \<lparr>info_epoch = e, info_phase = p, info_epoch_idx = i, info_phase_idx = j\<rparr>)
       (enumerate 0 (epoch_phases e))) (enumerate 0 plan))"

definition find_active_phase :: "epoch list \<Rightarrow> phase_info option" where
  "find_active_phase plan = List.find (\<lambda>x. phase_status (info_phase x) = ''in-progress'') (plan_phases plan)"

definition find_active_epoch :: "epoch list \<Rightarrow> epoch option" where
  "find_active_epoch plan = List.find (\<lambda>e. derived_status e = ''in-progress'') plan"

fun next_pending :: "string option \<Rightarrow> bool \<Rightarrow> phase_info list \<Rightarrow> phase_info option" where
  "next_pending anchor seen [] = None"
| "next_pending anchor seen (x # xs) =
     (if \<not> seen then next_pending anchor (Some (id_of (info_phase x)) = anchor) xs
      else if phase_status (info_phase x) = ''pending'' then Some x
      else next_pending anchor seen xs)"

definition find_next_pending_phase :: "epoch list \<Rightarrow> string option \<Rightarrow> phase_info option" where
  "find_next_pending_phase plan anchor = next_pending anchor (anchor = None) (plan_phases plan)"

definition find_phase_by_id :: "ulid_lib \<Rightarrow> epoch list \<Rightarrow> string \<Rightarrow> phase_info option" where
  "find_phase_by_id L plan i = List.find (\<lambda>x. matches_id L (info_phase x) i \<noteq> None) (plan_phases plan)"

definition find_epoch_by_id :: "ulid_lib \<Rightarrow> epoch list \<Rightarrow> string \<Rightarrow> epoch option" where
  "find_epoch_by_id L plan i = List.find (\<lambda>e. matches_id L e i \<noteq> None) plan"

definition find_goal_in_active_phase :: "ulid_lib \<Rightarrow> epoch list \<Rightarrow> string \<Rightarrow> (phase \<times> goal) option" where
  "find_goal_in_active_phase L plan i =
     Option.bind (find_active_phase plan) (\<lambda>x.
       map_option (Pair (info_phase x)) (List.find (\<lambda>g. matches_id L g i \<noteq> None) (phase_goals (info_phase x))))"

definition find_goal_by_id :: "ulid_lib \<Rightarrow> epoch list \<Rightarrow> string \<Rightarrow> (phase_info \<times> goal) option" where
  "find_goal_by_id L plan i =
     List.find (\<lambda>(x, g). matches_id L g i \<noteq> None)
       (concat (map (\<lambda>x. map (Pair x) (phase_goals (info_phase x))) (plan_phases plan)))"

definition find_unreviewed_epochs :: "epoch list \<Rightarrow> epoch list" where
  "find_unreviewed_epochs plan = filter needs_review plan"

section \<open>The workspace's active phase\<close>

text \<open>The pin is what the store answers for this workspace; it may fail to answer.\<close>

record 'e agent_context =
  plan_of :: "epoch list"
  workspace_pin :: "'e + string option"

definition find_phase_info_by_text_id :: "epoch list \<Rightarrow> string \<Rightarrow> phase_info option" where
  "find_phase_info_by_text_id plan i = List.find (\<lambda>x. id_of (info_phase x) = i) (plan_phases plan)"

fun single_active :: "phase_info option \<Rightarrow> phase_info list \<Rightarrow> phase_info option" where
  "single_active active [] = active"
| "single_active active (x # xs) =
     (if phase_status (info_phase x) \<noteq> ''in-progress'' then single_active active xs
      else if active \<noteq> None then None
      else single_active (Some x) xs)"

definition find_single_global_active_phase :: "epoch list \<Rightarrow> phase_info option" where
  "find_single_global_active_phase plan = single_active None (plan_phases plan)"

definition find_workspace_active_phase :: "'e agent_context \<Rightarrow> 'e + phase_info option" where
  "find_workspace_active_phase c =
     map_sum id (\<lambda>pin. case pin of
         Some pinned \<Rightarrow>
           (case find_phase_info_by_text_id (plan_of c) pinned of
              Some x \<Rightarrow> if phase_status (info_phase x) = ''in-progress'' then Some x else None
            | None \<Rightarrow> None)
       | None \<Rightarrow> find_single_global_active_phase (plan_of c)) (workspace_pin c)"

definition find_workspace_active_phase_id :: "'e agent_context \<Rightarrow> 'e + string option" where
  "find_workspace_active_phase_id c = map_sum id (map_option (id_of \<circ> info_phase)) (find_workspace_active_phase c)"

definition find_workspace_active_epoch :: "'e agent_context \<Rightarrow> 'e + epoch option" where
  "find_workspace_active_epoch c =
     map_sum id (\<lambda>pin. case pin of
         Some pinned \<Rightarrow>
           (case find_phase_info_by_text_id (plan_of c) pinned of
              Some x \<Rightarrow> if derived_status (info_epoch x) \<noteq> ''completed'' then Some (info_epoch x) else None
            | None \<Rightarrow> None)
       | None \<Rightarrow> map_option info_epoch (find_single_global_active_phase (plan_of c))) (workspace_pin c)"

definition workspace_anchor_phase_id :: "'e agent_context \<Rightarrow> 'e + string option" where
  "workspace_anchor_phase_id c = and_then (workspace_pin c) (\<lambda>pin.
     case pin of
       Some pinned \<Rightarrow>
         (if find_phase_info_by_text_id (plan_of c) pinned \<noteq> None then Inr (Some pinned)
          else find_workspace_active_phase_id c)
     | None \<Rightarrow> find_workspace_active_phase_id c)"

end
