(* ===== verification/State_Machine.thy ===== *)
theory State_Machine
  imports Plan_State Act
begin

text \<open>
  The phase state machine (\<open>tools/exo/src/state_machine.rs\<close>) and the upgrade registry it gates
  on (\<open>upgrade/mod.rs\<close>). A plugin is the record of its trait methods; what a plugin does to the
  project is a parameter.
\<close>

section \<open>Upgrades\<close>

datatype severity = Critical | Warning | Info

definition is_blocking :: "severity \<Rightarrow> bool" where
  "is_blocking s \<longleftrightarrow> s = Critical"

definition severity_str :: "severity \<Rightarrow> string" where
  "severity_str s = (case s of Critical \<Rightarrow> ''critical'' | Warning \<Rightarrow> ''warning'' | Info \<Rightarrow> ''info'')"

datatype upgrade_status = NotNeeded | Needed severity string

definition is_needed_status :: "upgrade_status \<Rightarrow> bool" where
  "is_needed_status s \<longleftrightarrow> s \<noteq> NotNeeded"

definition status_severity :: "upgrade_status \<Rightarrow> severity option" where
  "status_severity s = (case s of NotNeeded \<Rightarrow> None | Needed v _ \<Rightarrow> Some v)"

record upgrade_report =
  report_plugin :: string
  report_applied :: bool
  report_changes :: "string list"
  report_warnings :: "string list"

definition no_changes :: "string \<Rightarrow> upgrade_report" where
  "no_changes p = \<lparr>report_plugin = p, report_applied = False, report_changes = [], report_warnings = []\<rparr>"

definition with_changes :: "string \<Rightarrow> string list \<Rightarrow> upgrade_report" where
  "with_changes p cs = \<lparr>report_plugin = p, report_applied = True, report_changes = cs, report_warnings = []\<rparr>"

definition with_warning :: "string \<Rightarrow> upgrade_report \<Rightarrow> upgrade_report" where
  "with_warning w r = r\<lparr>report_warnings := report_warnings r @ [w]\<rparr>"

record upgrade_needed =
  needed_plugin :: string
  needed_reason :: string

record upgrade_check =
  check_critical :: "upgrade_needed list"
  check_warning :: "upgrade_needed list"
  check_info :: "upgrade_needed list"

definition no_upgrades :: upgrade_check where
  "no_upgrades = \<lparr>check_critical = [], check_warning = [], check_info = []\<rparr>"

definition any_needed :: "upgrade_check \<Rightarrow> bool" where
  "any_needed c \<longleftrightarrow> check_critical c \<noteq> [] \<or> check_warning c \<noteq> [] \<or> check_info c \<noteq> []"

definition has_blocking :: "upgrade_check \<Rightarrow> bool" where
  "has_blocking c \<longleftrightarrow> check_critical c \<noteq> []"

definition total_count :: "upgrade_check \<Rightarrow> nat" where
  "total_count c = length (check_critical c) + length (check_warning c) + length (check_info c)"

record upgrade_summary =
  summary_reports :: "upgrade_report list"
  applied_count :: nat
  skipped_count :: nat

definition add_report :: "upgrade_report \<Rightarrow> upgrade_summary \<Rightarrow> upgrade_summary" where
  "add_report r s =
     (let s' = (if report_applied r then s\<lparr>applied_count := Suc (applied_count s)\<rparr>
                else s\<lparr>skipped_count := Suc (skipped_count s)\<rparr>)
      in s'\<lparr>summary_reports := summary_reports s' @ [r]\<rparr>)"

record ('s, 'e) plugin =
  plugin_id :: string
  is_needed :: "'s \<Rightarrow> 'e + upgrade_status"
  apply_plugin :: "('s, 'e, upgrade_report) act"
  verify :: "'s \<Rightarrow> 'e + unit"

fun check_plugins :: "('s, 'e) plugin list \<Rightarrow> 's \<Rightarrow> upgrade_check \<Rightarrow> 'e + upgrade_check" where
  "check_plugins [] s c = Inr c"
| "check_plugins (p # ps) s c = and_then (is_needed p s) (\<lambda>st. case st of
     NotNeeded \<Rightarrow> check_plugins ps s c
   | Needed v reason \<Rightarrow>
       (let item = \<lparr>needed_plugin = plugin_id p, needed_reason = reason\<rparr> in
        check_plugins ps s (case v of
            Critical \<Rightarrow> c\<lparr>check_critical := check_critical c @ [item]\<rparr>
          | Warning \<Rightarrow> c\<lparr>check_warning := check_warning c @ [item]\<rparr>
          | Info \<Rightarrow> c\<lparr>check_info := check_info c @ [item]\<rparr>)))"

definition check_all :: "('s, 'e) plugin list \<Rightarrow> 's \<Rightarrow> 'e + upgrade_check" where
  "check_all ps s = check_plugins ps s no_upgrades"

fun apply_plugins :: "('s, 'e) plugin list \<Rightarrow> upgrade_summary \<Rightarrow> ('s, 'e, upgrade_summary) act" where
  "apply_plugins [] summary = ok summary"
| "apply_plugins (p # ps) summary =
     bind_act (bind_act (ask (is_needed p)) lift_sum) (\<lambda>st.
       if is_needed_status st then
         bind_act (apply_plugin p) (\<lambda>report.
         bind_act (bind_act (ask (verify p)) lift_sum) (\<lambda>_. apply_plugins ps (add_report report summary)))
       else apply_plugins ps (add_report (no_changes (plugin_id p)) summary))"

definition apply_all :: "('s, 'e) plugin list \<Rightarrow> ('s, 'e, upgrade_summary) act" where
  "apply_all ps = apply_plugins ps \<lparr>summary_reports = [], applied_count = 0, skipped_count = 0\<rparr>"

section \<open>States and operations\<close>

datatype primary_state =
    NoActivePhase
  | ActivePhaseNeedsUpgrade
  | ActivePhaseUnprepared
  | ActivePhaseExecuting
  | PreparingNextPhase
  | PreparingNextEpoch
  | StrikeActive string

definition display_name :: "primary_state \<Rightarrow> string" where
  "display_name s = (case s of
     NoActivePhase \<Rightarrow> ''No Active Phase''
   | ActivePhaseNeedsUpgrade \<Rightarrow> ''Active Phase (Needs Upgrade)''
   | ActivePhaseUnprepared \<Rightarrow> ''Active Phase (Unprepared)''
   | ActivePhaseExecuting \<Rightarrow> ''Active Phase (Executing)''
   | PreparingNextPhase \<Rightarrow> ''Preparing Next Phase''
   | PreparingNextEpoch \<Rightarrow> ''Preparing Next Epoch''
   | StrikeActive _ \<Rightarrow> ''Strike Active'')"

definition state_intent :: "primary_state \<Rightarrow> work_intent" where
  "state_intent s = (case s of
     NoActivePhase \<Rightarrow> Orient | ActivePhaseNeedsUpgrade \<Rightarrow> Orient | ActivePhaseUnprepared \<Rightarrow> Plan
   | ActivePhaseExecuting \<Rightarrow> Execute | PreparingNextPhase \<Rightarrow> Plan | PreparingNextEpoch \<Rightarrow> Plan
   | StrikeActive _ \<Rightarrow> Execute)"

definition is_active_phase :: "primary_state \<Rightarrow> bool" where
  "is_active_phase s \<longleftrightarrow> s \<in> {ActivePhaseNeedsUpgrade, ActivePhaseUnprepared, ActivePhaseExecuting}"

datatype operation =
    PhaseStart | PhaseFinish | TaskAdd | TaskStart | TaskComplete | TaskRemove | TaskReorder | TaskUpdate
  | ImplPlanMutate | StatusView | UpgradeMigrate

record ('s, 'e) project_context = "'e agent_context" +
  project_state :: 's
  plugins :: "('s, 'e) plugin list"
  update_workspace :: bool

definition detect_active_strike :: "('s, 'e) project_context \<Rightarrow> 'e + string option" where
  "detect_active_strike c = and_then (find_workspace_active_phase (agent_context.truncate c)) (\<lambda>active.
     Inr (case active of
        None \<Rightarrow> None
      | Some x \<Rightarrow> map_option id_of (List.find (\<lambda>g. goal_kind g = Some ''strike'' \<and> goal_status g = ''in-progress'')
          (phase_goals (info_phase x)))))"

definition resolve_primary_state :: "ulid_lib \<Rightarrow> ('s, 'e) project_context \<Rightarrow> 'e + primary_state" where
  "resolve_primary_state L c = and_then (detect_active_strike c) (\<lambda>strike. case strike of
     Some i \<Rightarrow> Inr (StrikeActive i)
   | None \<Rightarrow> and_then (find_workspace_active_phase_id (agent_context.truncate c)) (\<lambda>active. Inr (case active of
       Some i \<Rightarrow>
         (if (case check_all (plugins c) (project_state c) of Inr check \<Rightarrow> has_blocking check | Inl _ \<Rightarrow> False)
          then ActivePhaseNeedsUpgrade
          else if (case find_phase_by_id L (plan_of c) i of None \<Rightarrow> True | Some x \<Rightarrow> phase_goals (info_phase x) = [])
          then ActivePhaseUnprepared
          else ActivePhaseExecuting)
     | None \<Rightarrow>
         (if find_next_pending_phase (plan_of c) None \<noteq> None then PreparingNextPhase
          else if list_ex (\<lambda>e. (derived_status e = ''in-progress'' \<or> derived_status e = ''pending'')
              \<and> list_ex (\<lambda>p. phase_status p = ''pending'') (epoch_phases e)) (plan_of c)
          then PreparingNextPhase
          else PreparingNextEpoch))))"

definition is_operation_allowed :: "primary_state \<Rightarrow> operation \<Rightarrow> bool" where
  "is_operation_allowed s op = (case op of
     StatusView \<Rightarrow> True
   | UpgradeMigrate \<Rightarrow> s = ActivePhaseNeedsUpgrade
   | PhaseStart \<Rightarrow> s \<in> {NoActivePhase, PreparingNextPhase, PreparingNextEpoch}
   | PhaseFinish \<Rightarrow> s = ActivePhaseExecuting
   | _ \<Rightarrow> s = ActivePhaseUnprepared \<or> s = ActivePhaseExecuting \<or> (\<exists>i. s = StrikeActive i))"

definition state_action :: "string \<Rightarrow> string \<Rightarrow> string \<Rightarrow> work_intent \<Rightarrow> nat \<Rightarrow> suggested_action" where
  "state_action label command why i c = action_text label command why i (Some c)"

definition generate_steering :: "primary_state \<Rightarrow> suggested_action list" where
  "generate_steering s = (case s of
     NoActivePhase \<Rightarrow>
       [state_action ''Start next phase'' ''exo phase start'' ''No active phase. Start the next pending phase.'' Execute 90]
   | ActivePhaseNeedsUpgrade \<Rightarrow>
       [state_action ''Migrate deprecated projections'' ''exo update''
          ''Deprecated projections detected. Run exo update to migrate them.'' Orient 95,
        state_action ''Check phase status'' ''exo phase status''
          ''View current phase status and blocking issues.'' Orient 70]
   | ActivePhaseUnprepared \<Rightarrow>
       [state_action ''Add a task'' ''exo task add <title> --id <id>''
          ''Phase needs work items. Add tasks to track progress.'' Plan 90,
        state_action ''Check phase status'' ''exo phase status'' ''View current phase details.'' Orient 60]
   | ActivePhaseExecuting \<Rightarrow>
       [state_action ''Complete a task'' ''exo task complete <id>''
          ''Work in progress. Complete tasks as you finish them.'' Record 80,
        state_action ''Check phase status'' ''exo phase status'' ''View current phase status and progress.'' Orient 70,
        state_action ''Finish phase'' ''exo phase finish'' ''All goals complete. Finish this phase.'' Ship 60]
   | PreparingNextPhase \<Rightarrow>
       [state_action ''Start next phase'' ''exo phase start'' ''Next phase is pending. Start it when ready.'' Execute 85,
        state_action ''Review plan'' ''exo plan review'' ''Review the project plan before starting.'' Orient 60]
   | PreparingNextEpoch \<Rightarrow>
       [state_action ''Add new epoch'' ''exo epoch add --title <title>''
          ''No pending phases. Add a new epoch to continue.'' Plan 80,
        state_action ''Review plan'' ''exo plan review'' ''Review the project plan and completed work.'' Orient 70]
   | StrikeActive i \<Rightarrow>
       [state_action ''Finish strike'' ''exo strike finish''
          (''Strike '' @ in_quotes i @ '' is active. Finish when done.'') Ship 80,
        state_action ''Check strike status'' ''exo strike status'' ''View current strike details.'' Orient 60])"

section \<open>Gates\<close>

text \<open>The bullet the message lists a reason with, in UTF-8.\<close>

definition bullet :: string where
  "bullet = ''  '' @ [CHR 0xE2, CHR 0x80, CHR 0xA2] @ '' ''"

definition check_upgrade_gate :: "('s, 'e) project_context \<Rightarrow> ('e + unit exo_failure) + unit" where
  "check_upgrade_gate c = and_then (map_sum Inl id (detect_active_strike c)) (\<lambda>strike.
     if strike \<noteq> None then Inr ()
     else and_then (map_sum Inl id (check_all (plugins c) (project_state c))) (\<lambda>check.
       if check_critical check \<noteq> [] then
         Inl (Inr (failure_new PreconditionFailed
           (''Project requires critical upgrades before mutations are allowed:'' @ [nl, nl]
             @ join_with [nl] (map (\<lambda>u. bullet @ needed_reason u) (check_critical check))
             @ [nl, nl] @ ''Run `exo update` to apply all pending upgrades.'')
           (orienting_steering [state_action ''Run upgrade migrations'' ''exo update''
             (show_nat (length (check_critical check)) @ '' critical upgrade(s) must be applied before proceeding.'')
             Orient 100])))
       else Inr ()))"

definition command_requires_upgrade_gate :: "string \<Rightarrow> string \<Rightarrow> effect \<Rightarrow> bool" where
  "command_requires_upgrade_gate namespace op effect \<longleftrightarrow>
     effect \<noteq> Pure \<and>
     \<not> (namespace = [] \<and> op = ''update'' \<or> namespace = ''update'' \<and> op = []
        \<or> namespace = ''sidecar'' \<and> op = ''init'')"

definition check_command_upgrade_gate ::
  "('s, 'e) project_context \<Rightarrow> string \<Rightarrow> string \<Rightarrow> effect \<Rightarrow> ('e + unit exo_failure) + unit" where
  "check_command_upgrade_gate c namespace op effect =
     (if \<not> command_requires_upgrade_gate namespace op effect \<or> \<not> update_workspace c then Inr ()
      else check_upgrade_gate c)"

text \<open>The daemon's entry point: the context is loaded only when the gate applies.\<close>

definition load_and_check_command_upgrade_gate ::
  "('e + ('s, 'e) project_context) \<Rightarrow> bool \<Rightarrow> string \<Rightarrow> string \<Rightarrow> effect \<Rightarrow> ('e + unit exo_failure) + unit" where
  "load_and_check_command_upgrade_gate load workspace namespace op effect =
     (if \<not> command_requires_upgrade_gate namespace op effect \<or> \<not> workspace then Inr ()
      else and_then (map_sum Inl id load) check_upgrade_gate)"

definition action_name :: "operation \<Rightarrow> string" where
  "action_name op = (case op of
     PhaseStart \<Rightarrow> ''start a phase'' | PhaseFinish \<Rightarrow> ''finish the phase'' | TaskAdd \<Rightarrow> ''add a task''
   | TaskStart \<Rightarrow> ''start a task'' | TaskComplete \<Rightarrow> ''complete a task'' | TaskRemove \<Rightarrow> ''remove a task''
   | TaskReorder \<Rightarrow> ''reorder a task'' | TaskUpdate \<Rightarrow> ''update a task''
   | ImplPlanMutate \<Rightarrow> ''modify the implementation plan'' | StatusView \<Rightarrow> ''view status''
   | UpgradeMigrate \<Rightarrow> ''run upgrade migration'')"

definition check_operation_allowed ::
  "ulid_lib \<Rightarrow> ('s, 'e) project_context \<Rightarrow> operation \<Rightarrow> ('e + unit exo_failure) + unit" where
  "check_operation_allowed L c op = and_then (map_sum Inl id (resolve_primary_state L c)) (\<lambda>s.
     if \<not> is_operation_allowed s op then
       Inl (Inr (failure_new PreconditionFailed
         (''Cannot '' @ action_name op @ '' in current state: '' @ display_name s)
         (orienting_steering (generate_steering s))))
     else Inr ())"

end
