(* ===== verification/State_Machine_Facts.thy ===== *)
theory State_Machine_Facts
  imports State_Machine
begin

text \<open>
  The primary state is decided by the plan and the pin: a strike first, then the active phase's
  gates, then whether any phase is pending. A pending critical upgrade stops every mutation
  outside a strike, and a successful run of the upgrades leaves none pending.
\<close>

section \<open>Lookups\<close>

lemma find_Some_iff: "List.find P xs = Some x \<Longrightarrow> x \<in> set xs \<and> P x"
  by (induction xs) (auto split: if_splits)

lemma next_pending_seen: "next_pending a True xs = List.find (\<lambda>x. phase_status (info_phase x) = ''pending'') xs"
  by (induction xs) auto

lemma plan_phases_set:
  "info_phase ` set (plan_phases plan) = (\<Union>e \<in> set plan. set (epoch_phases e))"
proof -
  have "info_phase ` set (plan_phases plan)
      = (\<Union>(i, e) \<in> set (enumerate 0 plan). snd ` set (enumerate 0 (epoch_phases e)))"
    unfolding plan_phases_def by (force simp: image_iff)
  also have "\<dots> = (\<Union>(i, e) \<in> set (enumerate 0 plan). set (epoch_phases e))"
    by (simp flip: set_map)
  also have "\<dots> = (\<Union>e \<in> set (map snd (enumerate 0 plan)). set (epoch_phases e))"
    by (force simp del: map_snd_enumerate)
  finally show ?thesis by simp
qed

lemma find_next_pending_None:
  "find_next_pending_phase plan None = None \<longleftrightarrow>
     list_all (\<lambda>e. list_all (\<lambda>p. phase_status p \<noteq> ''pending'') (epoch_phases e)) plan"
proof -
  have "find_next_pending_phase plan None = None \<longleftrightarrow> (\<forall>p \<in> info_phase ` set (plan_phases plan). phase_status p \<noteq> ''pending'')"
    by (auto simp: find_next_pending_phase_def next_pending_seen find_None_iff)
  then show ?thesis by (simp add: plan_phases_set list_all_iff)
qed

text \<open>Without a pin, a phase is active exactly if it is the only one in progress.\<close>

lemma single_active_from: "single_active (Some y) xs =
    (if list_all (\<lambda>x. phase_status (info_phase x) \<noteq> ''in-progress'') xs then Some y else None)"
  by (induction xs) auto

lemma single_active_filter:
  "single_active None xs = (case filter (\<lambda>x. phase_status (info_phase x) = ''in-progress'') xs of [x] \<Rightarrow> Some x | _ \<Rightarrow> None)"
  by (induction xs) (auto simp: single_active_from list_all_iff filter_empty_conv split: list.split)

lemma single_active_Some: "find_single_global_active_phase plan = Some x \<Longrightarrow>
    x \<in> set (plan_phases plan) \<and> phase_status (info_phase x) = ''in-progress''"
proof -
  assume "find_single_global_active_phase plan = Some x"
  then have "filter (\<lambda>x. phase_status (info_phase x) = ''in-progress'') (plan_phases plan) = [x]"
    by (simp add: find_single_global_active_phase_def single_active_filter split: list.splits)
  then have "x \<in> set (filter (\<lambda>x. phase_status (info_phase x) = ''in-progress'') (plan_phases plan))" by simp
  then show ?thesis by simp
qed

lemma workspace_active_Some:
  "find_workspace_active_phase c = Inr (Some x) \<Longrightarrow>
   x \<in> set (plan_phases (plan_of c)) \<and> phase_status (info_phase x) = ''in-progress''"
  by (cases "workspace_pin c")
    (auto simp: find_workspace_active_phase_def find_phase_info_by_text_id_def
      dest!: single_active_Some find_Some_iff split: option.splits if_splits)

lemma matches_own_id: "parse_canonical_ref L (id_of x) = None \<Longrightarrow> matches_id L x (id_of x) \<noteq> None"
  by (auto simp: matches_id_def split: option.split)

section \<open>The primary state\<close>

definition active_strike :: "phase \<Rightarrow> string option" where
  "active_strike p = map_option id_of
     (List.find (\<lambda>g. goal_kind g = Some ''strike'' \<and> goal_status g = ''in-progress'') (phase_goals p))"

text \<open>No phase but \<open>p\<close> answers to \<open>p\<close>'s id.\<close>

definition sole_bearer :: "ulid_lib \<Rightarrow> epoch list \<Rightarrow> phase \<Rightarrow> bool" where
  "sole_bearer L plan p \<longleftrightarrow> parse_canonical_ref L (id_of p) = None
     \<and> list_all (\<lambda>x. matches_id L (info_phase x) (id_of p) = None \<or> info_phase x = p) (plan_phases plan)"

lemma find_sole_bearer:
  assumes "x \<in> set (plan_phases plan)" "sole_bearer L plan (info_phase x)"
  shows "\<exists>y. find_phase_by_id L plan (id_of (info_phase x)) = Some y \<and> info_phase y = info_phase x"
proof -
  have "matches_id L (info_phase x) (id_of (info_phase x)) \<noteq> None"
    using assms(2) matches_own_id [of L "info_phase x"] by (simp add: sole_bearer_def)
  with assms(1) have "find_phase_by_id L plan (id_of (info_phase x)) \<noteq> None"
    unfolding find_phase_by_id_def find_None_iff by blast
  then obtain y where y: "find_phase_by_id L plan (id_of (info_phase x)) = Some y" by blast
  with find_Some_iff [of _ "plan_phases plan" y] have "y \<in> set (plan_phases plan)"
      "matches_id L (info_phase y) (id_of (info_phase x)) \<noteq> None"
    unfolding find_phase_by_id_def by blast+
  with assms(2) have "info_phase y = info_phase x" unfolding sole_bearer_def list_all_iff by auto
  with y show ?thesis by blast
qed

definition any_pending :: "epoch list \<Rightarrow> bool" where
  "any_pending plan \<longleftrightarrow> list_ex (\<lambda>e. list_ex (\<lambda>p. phase_status p = ''pending'') (epoch_phases e)) plan"

lemma strike_detected: "detect_active_strike c =
    map_sum id (\<lambda>a. Option.bind a (active_strike \<circ> info_phase)) (find_workspace_active_phase (agent_context.truncate c))"
  by (cases "find_workspace_active_phase (agent_context.truncate c)")
    (auto simp: detect_active_strike_def active_strike_def split: option.split)

text \<open>
  The primary state is what the plan says: with the pin read, a strike in the active phase
  wins; otherwise an active phase is blocked by a pending critical upgrade, unprepared without
  goals, and executing with them; without an active phase the state is decided by whether any
  phase of any epoch is pending. (The active phase's id must not be shadowed by another phase.)
  No project is ever in \<open>NoActivePhase\<close>.
\<close>

theorem primary_state_exact:
  assumes "find_workspace_active_phase (agent_context.truncate c) = Inr active"
    and "case active of Some x \<Rightarrow> sole_bearer L (plan_of c) (info_phase x) | None \<Rightarrow> True"
  shows "resolve_primary_state L c = Inr (case active of
      Some x \<Rightarrow>
        (case active_strike (info_phase x) of
           Some i \<Rightarrow> StrikeActive i
         | None \<Rightarrow>
             (if (\<exists>check. check_all (plugins c) (project_state c) = Inr check \<and> has_blocking check) then ActivePhaseNeedsUpgrade
              else if phase_goals (info_phase x) = [] then ActivePhaseUnprepared else ActivePhaseExecuting))
    | None \<Rightarrow> if any_pending (plan_of c) then PreparingNextPhase else PreparingNextEpoch)"
proof (cases active)
  case None
  have "find_next_pending_phase (plan_of c) None \<noteq> None \<longleftrightarrow> any_pending (plan_of c)"
    unfolding find_next_pending_None by (auto simp: any_pending_def list_all_iff list_ex_iff)
  moreover have "list_ex (\<lambda>e. (derived_status e = ''in-progress'' \<or> derived_status e = ''pending'')
      \<and> list_ex (\<lambda>p. phase_status p = ''pending'') (epoch_phases e)) (plan_of c) \<Longrightarrow> any_pending (plan_of c)"
    by (auto simp: any_pending_def list_ex_iff)
  ultimately show ?thesis
    using assms(1) None by (auto simp: resolve_primary_state_def strike_detected find_workspace_active_phase_id_def)
next
  case (Some x)
  have x: "x \<in> set (plan_phases (plan_of c))"
    using workspace_active_Some [of "agent_context.truncate c" x] assms(1) Some by (simp add: agent_context.defs)
  have "sole_bearer L (plan_of c) (info_phase x)" using assms(2) Some by simp
  from find_sole_bearer [OF x this] obtain y where y: "find_phase_by_id L (plan_of c) (id_of (info_phase x)) = Some y" "info_phase y = info_phase x" by blast
  have b: "(case check_all (plugins c) (project_state c) of Inr check \<Rightarrow> has_blocking check | Inl _ \<Rightarrow> False) \<longleftrightarrow>
      (\<exists>check. check_all (plugins c) (project_state c) = Inr check \<and> has_blocking check)"
    by (simp split: sum.split)
  show ?thesis
    using assms(1) Some y
    by (cases "active_strike (info_phase x)")
      (simp_all add: resolve_primary_state_def strike_detected find_workspace_active_phase_id_def b)
qed

section \<open>The upgrade gate\<close>

lemma upgrade_gate_result:
  assumes "find_workspace_active_phase (agent_context.truncate c) = Inr active"
    and "check_all (plugins c) (project_state c) = Inr check"
  shows "check_upgrade_gate c = (if Option.bind active (active_strike \<circ> info_phase) \<noteq> None \<or> \<not> has_blocking check then Inr ()
    else Inl (Inr (failure_new PreconditionFailed
      (''Project requires critical upgrades before mutations are allowed:'' @ [nl, nl]
        @ join_with [nl] (map (\<lambda>u. bullet @ needed_reason u) (check_critical check))
        @ [nl, nl] @ ''Run `exo update` to apply all pending upgrades.'')
      (orienting_steering [state_action ''Run upgrade migrations'' ''exo update''
        (show_nat (length (check_critical check)) @ '' critical upgrade(s) must be applied before proceeding.'') Orient 100]))))"
  using assms by (simp add: check_upgrade_gate_def strike_detected has_blocking_def)

lemma active_phase_state:
  assumes "find_workspace_active_phase (agent_context.truncate c) = Inr (Some x)"
    and "check_all (plugins c) (project_state c) = Inr check"
  shows "resolve_primary_state L c = Inr (case active_strike (info_phase x) of
      Some i \<Rightarrow> StrikeActive i
    | None \<Rightarrow> if has_blocking check then ActivePhaseNeedsUpgrade
        else if \<exists>y. find_phase_by_id L (plan_of c) (id_of (info_phase x)) = Some y \<and> phase_goals (info_phase y) \<noteq> []
        then ActivePhaseExecuting else ActivePhaseUnprepared)"
  using assms by (auto simp: resolve_primary_state_def strike_detected find_workspace_active_phase_id_def split: option.split)

text \<open>
  C32. The upgrade gate is exact. With the pin and the plugins read, a command is let through exactly
  if it has no effect, is \<open>exo update\<close> or \<open>exo sidecar init\<close>, is sent outside an update workspace,
  a strike is active, or no critical upgrade is pending; the refusal is a failed precondition that
  leads to \<open>exo update\<close>. With an active phase the state gate allows viewing the status always,
  migrating exactly while a critical upgrade is pending and no strike active, starting a phase never,
  finishing it with goals and neither of the two, and the other changes exactly if a strike is
  active or no critical upgrade is pending.
\<close>

theorem upgrade_gate_exact:
  assumes "find_workspace_active_phase (agent_context.truncate c) = Inr active"
    and "check_all (plugins c) (project_state c) = Inr check"
  shows "(case check_command_upgrade_gate c namespace op eff of
        Inr u \<Rightarrow> eff = Pure \<or> (namespace, op) \<in> {([], ''update''), (''update'', []), (''sidecar'', ''init'')}
          \<or> \<not> update_workspace c \<or> Option.bind active (active_strike \<circ> info_phase) \<noteq> None \<or> \<not> has_blocking check
      | Inl (Inr f) \<Rightarrow> eff \<noteq> Pure \<and> (namespace, op) \<notin> {([], ''update''), (''update'', []), (''sidecar'', ''init'')}
          \<and> update_workspace c \<and> Option.bind active (active_strike \<circ> info_phase) = None \<and> has_blocking check
          \<and> failure_code f = PreconditionFailed \<and> map action_command (next_actions (steering f)) = [''exo update'']
      | Inl (Inl e) \<Rightarrow> False)
    \<and> (case active of None \<Rightarrow> True | Some x \<Rightarrow> check_operation_allowed L c act = Inr () \<longleftrightarrow> (case act of
        StatusView \<Rightarrow> True
      | UpgradeMigrate \<Rightarrow> active_strike (info_phase x) = None \<and> has_blocking check
      | PhaseStart \<Rightarrow> False
      | PhaseFinish \<Rightarrow> active_strike (info_phase x) = None \<and> \<not> has_blocking check
          \<and> (\<exists>y. find_phase_by_id L (plan_of c) (id_of (info_phase x)) = Some y \<and> phase_goals (info_phase y) \<noteq> [])
      | _ \<Rightarrow> active_strike (info_phase x) \<noteq> None \<or> \<not> has_blocking check))"
proof
  show "case check_command_upgrade_gate c namespace op eff of
        Inr u \<Rightarrow> eff = Pure \<or> (namespace, op) \<in> {([], ''update''), (''update'', []), (''sidecar'', ''init'')}
          \<or> \<not> update_workspace c \<or> Option.bind active (active_strike \<circ> info_phase) \<noteq> None \<or> \<not> has_blocking check
      | Inl (Inr f) \<Rightarrow> eff \<noteq> Pure \<and> (namespace, op) \<notin> {([], ''update''), (''update'', []), (''sidecar'', ''init'')}
          \<and> update_workspace c \<and> Option.bind active (active_strike \<circ> info_phase) = None \<and> has_blocking check
          \<and> failure_code f = PreconditionFailed \<and> map action_command (next_actions (steering f)) = [''exo update'']
      | Inl (Inl e) \<Rightarrow> False"
    using upgrade_gate_result [OF assms]
    by (auto simp: check_command_upgrade_gate_def command_requires_upgrade_gate_def failure_new_def
        orienting_steering_def state_action_def action_text_def)
  show "case active of None \<Rightarrow> True | Some x \<Rightarrow> check_operation_allowed L c act = Inr () \<longleftrightarrow> (case act of
        StatusView \<Rightarrow> True
      | UpgradeMigrate \<Rightarrow> active_strike (info_phase x) = None \<and> has_blocking check
      | PhaseStart \<Rightarrow> False
      | PhaseFinish \<Rightarrow> active_strike (info_phase x) = None \<and> \<not> has_blocking check
          \<and> (\<exists>y. find_phase_by_id L (plan_of c) (id_of (info_phase x)) = Some y \<and> phase_goals (info_phase y) \<noteq> [])
      | _ \<Rightarrow> active_strike (info_phase x) \<noteq> None \<or> \<not> has_blocking check)"
  proof (cases active)
    case (Some x)
    with assms(1) active_phase_state [OF _ assms(2), of x L] show ?thesis
      by (cases act) (auto simp: check_operation_allowed_def is_operation_allowed_def split: option.split)
  qed simp
qed

section \<open>Samples\<close>

text \<open>A checkout is the list of upgrades still to be applied; each plugin strikes out its own.\<close>

definition sample_plugin :: "string \<Rightarrow> severity \<Rightarrow> (string list, unit) plugin" where
  "sample_plugin name v = \<lparr>plugin_id = name,
     is_needed = (\<lambda>s. Inr (if name \<in> set s then Needed v ''outdated'' else NotNeeded)),
     apply_plugin = (\<lambda>s. (filter (\<lambda>x. x \<noteq> name) s, Inr (with_changes name [''done'']))),
     verify = (\<lambda>s. Inr ())\<rparr>"

definition sample_phase :: "string \<Rightarrow> string \<Rightarrow> phase" where
  "sample_phase i status = \<lparr>id_of = i, ulid_of = None, slug_of = None, aliases_of = [], phase_title = i, phase_status = status,
     phase_completed_at = None, phase_goals = [], phase_rfcs = [], phase_kind = Regular\<rparr>"

definition sample_ulids :: ulid_lib where
  "sample_ulids = \<lparr>ulid_from_string = (\<lambda>_. None), ulid_to_string = (\<lambda>_. [])\<rparr>"

definition sample_context :: "(string list, unit) project_context" where
  "sample_context = \<lparr>plan_of = [\<lparr>id_of = ''e'', ulid_of = None, slug_of = None, aliases_of = [], epoch_title = ''E'',
       epoch_phases = [sample_phase ''p'' ''completed'', sample_phase ''q'' ''in-progress''], epoch_reviewed = False\<rparr>],
     workspace_pin = Inr (Some ''q''), project_state = [''driver''],
     plugins = [sample_plugin ''driver'' Critical, sample_plugin ''ignore'' Info], update_workspace = True\<rparr>"

definition sample_active :: phase_info where
  "sample_active = (plan_phases (plan_of sample_context)) ! 1"

lemma sample_active_phase:
  "find_workspace_active_phase (agent_context.truncate sample_context) = Inr (Some sample_active)"
  by (simp add: sample_context_def sample_active_def find_workspace_active_phase_def agent_context.defs
      find_phase_info_by_text_id_def plan_phases_def sample_phase_def)

lemma sample_critical: "check_all (plugins sample_context) (project_state sample_context) =
    Inr \<lparr>check_critical = [\<lparr>needed_plugin = ''driver'', needed_reason = ''outdated''\<rparr>], check_warning = [], check_info = []\<rparr>"
  by (simp add: sample_context_def sample_plugin_def check_all_def no_upgrades_def)

lemma sample_sole: "sole_bearer sample_ulids (plan_of sample_context) (info_phase sample_active)"
  by (simp add: sole_bearer_def sample_active_def sample_context_def plan_phases_def sample_phase_def sample_ulids_def
      matches_id_def parse_canonical_ref_def strip_prefix_def)

lemma sample_no_strike: "active_strike (info_phase sample_active) = None"
  by (simp add: active_strike_def sample_active_def sample_context_def plan_phases_def sample_phase_def)

theorem primary_state_exact_witness:
  "resolve_primary_state sample_ulids sample_context = Inr ActivePhaseNeedsUpgrade"
  using primary_state_exact [OF sample_active_phase, of sample_ulids] sample_sole
  by (simp add: sample_no_strike sample_critical has_blocking_def)

theorem upgrade_gate_exact_witness:
  "check_operation_allowed sample_ulids sample_context TaskAdd \<noteq> Inr ()
    \<and> check_command_upgrade_gate sample_context ''task'' ''add'' Write \<noteq> Inr ()
    \<and> check_operation_allowed sample_ulids sample_context UpgradeMigrate = Inr ()"
proof -
  have w: "update_workspace sample_context" by (simp add: sample_context_def)
  note g = upgrade_gate_exact [OF sample_active_phase sample_critical, where L = sample_ulids]
  show ?thesis
    using g [where act = TaskAdd and namespace = "''task''" and op = "''add''" and eff = Write]
      g [where act = UpgradeMigrate and namespace = "''task''" and op = "''add''" and eff = Write] w
    by (auto simp: has_blocking_def sample_no_strike split: sum.splits)
qed

end
