(* ===== verification/Plan_Store.thy ===== *)
theory Plan_Store
  imports Act Plan_State
begin

text \<open>
  The tables behind the plan (migrations V001 to V024 of \<open>crates/exosuit-storage\<close>) and the SQL
  statements \<open>tools/exo/src/context/sqlite_writer.rs\<close> runs on them: uniqueness, checks, foreign
  keys with their cascades and restrictions. A table is the list of its rows in the order of
  their row ids; a statement is atomic and sees the store alone, as inside a request
  transaction. Of the inbox and the agent events only the references to entities are kept; the
  ownership table has its own theory.
\<close>

section \<open>Tables\<close>

datatype entity_kind = EpochKind | PhaseKind | GoalKind | TaskKind

record epoch_row =
  e_id :: int
  e_text :: string
  e_title :: string
  e_slug :: "string option"
  e_reviewed :: bool
  e_key :: string

record phase_row =
  p_id :: int
  p_text :: string
  p_title :: string
  p_status :: string
  p_epoch :: int
  p_kind :: string
  p_slug :: "string option"
  p_key :: "string option"
  p_completed_at :: "string option"

record goal_row =
  g_id :: int
  g_text :: string
  g_label :: string
  g_status :: string
  g_phase :: int
  g_kind :: "string option"
  g_rfc :: "string option"
  g_target_stage :: "int option"
  g_started_at :: "string option"
  g_description :: "string option"
  g_completion_log :: "string option"
  g_slug :: "string option"
  g_key :: "string option"

record task_row =
  t_id :: int
  t_text :: string
  t_title :: string
  t_status :: string
  t_goal :: int
  t_completed_at :: "string option"
  t_completion_log :: "string option"
  t_slug :: "string option"
  t_key :: "string option"
  t_notes :: "string option"
  t_started_at :: "string option"

record alias_row =
  a_kind :: entity_kind
  a_entity :: int
  a_alias :: string

record phase_rfc_row =
  r_id :: int
  r_phase :: int
  r_rfc :: string
  r_target :: "int option"
  r_relation :: string

record lane_row =
  l_id :: int
  l_text :: string
  l_title :: string
  l_intent :: string
  l_state :: string
  l_phase :: int
  l_created_at :: string
  l_updated_at :: string

record pin_row =
  pin_root :: string
  pin_phase :: int
  pin_updated_at :: string

record focus_row =
  focus_root :: string
  focus_lane :: int
  focus_updated_at :: string

record task_log_row =
  log_task :: int
  log_kind :: string
  log_message :: string

record verification_row =
  v_task :: int
  v_kind :: string
  v_command :: "string option"
  v_result :: string
  v_details :: "string option"

record entity_ref =
  ref_type :: string
  ref_entity :: "string option"

record store =
  epochs_data :: "epoch_row list"
  phases_data :: "phase_row list"
  goals_data :: "goal_row list"
  tasks_data :: "task_row list"
  entity_aliases :: "alias_row list"
  phase_rfcs_data :: "phase_rfc_row list"
  lanes_data :: "lane_row list"
  active_phase_data :: "pin_row list"
  lane_focus_data :: "focus_row list"
  task_logs :: "task_log_row list"
  task_verifications :: "verification_row list"
  entity_refs :: "entity_ref list"

definition empty_store :: store where
  "empty_store = \<lparr>epochs_data = [], phases_data = [], goals_data = [], tasks_data = [], entity_aliases = [],
     phase_rfcs_data = [], lanes_data = [], active_phase_data = [], lane_focus_data = [], task_logs = [],
     task_verifications = [], entity_refs = []\<rparr>"

text \<open>The first text names the table or the kind of entity the message does.\<close>

datatype store_error =
    SqlConstraint
  | NoEntity string string
  | NotFoundError string string
  | InvalidSortKey string
  | AnchorNotFound string
  | NoKeyBetween
  | InvalidPosition string
  | PinNotSet string
  | LaneState string string
  | LanePhaseNotInProgress string string string
  | LaneNotAttached string string
  | LaneChanged string
  | InvalidHandle string
  | TaskChanged string
  | RowNotFound int

type_synonym 'a store_act = "(store, store_error, 'a) act"

section \<open>Statements\<close>

text \<open>An \<open>INTEGER PRIMARY KEY\<close> takes the largest row id plus one.\<close>

definition next_id :: "int list \<Rightarrow> int" where
  "next_id ids = foldr max ids 0 + 1"

definition upd :: "('r \<Rightarrow> bool) \<Rightarrow> ('r \<Rightarrow> 'r) \<Rightarrow> 'r list \<Rightarrow> 'r list" where
  "upd P f rows = map (\<lambda>r. if P r then f r else r) rows"

text \<open>\<open>UPDATE \<dots> WHERE\<close> under a row check; the number of rows.\<close>

definition update_rows ::
  "(store \<Rightarrow> 'r list) \<Rightarrow> (('r list \<Rightarrow> 'r list) \<Rightarrow> store \<Rightarrow> store) \<Rightarrow> ('r \<Rightarrow> bool) \<Rightarrow> ('r \<Rightarrow> bool) \<Rightarrow> ('r \<Rightarrow> 'r) \<Rightarrow> nat store_act" where
  "update_rows get put good P f d =
     (if list_ex (\<lambda>r. P r \<and> \<not> good (f r)) (get d) then (d, Inl SqlConstraint)
      else (put (upd P f) d, Inr (length (filter P (get d)))))"

abbreviation any_row :: "'r \<Rightarrow> bool" where
  "any_row \<equiv> \<lambda>_. True"

definition phase_check :: "phase_row \<Rightarrow> bool" where
  "phase_check r \<longleftrightarrow> p_status r \<in> {''pending'', ''in-progress'', ''completed'', ''deferred'', ''abandoned''}
     \<and> p_kind r \<in> {''regular'', ''chore''}"

definition goal_check :: "goal_row \<Rightarrow> bool" where
  "goal_check r \<longleftrightarrow> g_status r \<in> {''pending'', ''in-progress'', ''completed'', ''deferred'', ''abandoned''}
     \<and> g_kind r \<in> {None, Some ''regular'', Some ''strike''}"

definition task_check :: "task_row \<Rightarrow> bool" where
  "task_check r \<longleftrightarrow> t_status r \<in> {''pending'', ''in-progress'', ''completed'', ''deferred'', ''skipped''}"

definition rfc_check :: "phase_rfc_row \<Rightarrow> bool" where
  "rfc_check r \<longleftrightarrow> r_relation r \<in> {''driving'', ''related'', ''blocked''}"

text \<open>\<open>length(trim(x, \<dots>)) > 0\<close>; SQLite's \<open>length\<close> stops at a NUL.\<close>

definition sql_blank :: "string \<Rightarrow> bool" where
  "sql_blank s =
     (let cut = dropWhile (\<lambda>c. 9 \<le> byte c \<and> byte c \<le> 13 \<or> c = CHR '' '')
      in takeWhile (\<lambda>c. c \<noteq> CHR 0x00) (rev (cut (rev (cut s)))) = [])"

definition lane_check :: "lane_row \<Rightarrow> bool" where
  "lane_check r \<longleftrightarrow> \<not> sql_blank (l_title r) \<and> \<not> sql_blank (l_intent r) \<and> l_state r \<in> {''prepared'', ''executing''}"

definition update_epochs :: "(epoch_row \<Rightarrow> bool) \<Rightarrow> (epoch_row \<Rightarrow> epoch_row) \<Rightarrow> nat store_act" where
  "update_epochs = update_rows epochs_data epochs_data_update any_row"

definition update_phases :: "(phase_row \<Rightarrow> bool) \<Rightarrow> (phase_row \<Rightarrow> phase_row) \<Rightarrow> nat store_act" where
  "update_phases = update_rows phases_data phases_data_update phase_check"

definition update_goals :: "(goal_row \<Rightarrow> bool) \<Rightarrow> (goal_row \<Rightarrow> goal_row) \<Rightarrow> nat store_act" where
  "update_goals = update_rows goals_data goals_data_update goal_check"

definition update_tasks :: "(task_row \<Rightarrow> bool) \<Rightarrow> (task_row \<Rightarrow> task_row) \<Rightarrow> nat store_act" where
  "update_tasks = update_rows tasks_data tasks_data_update task_check"

definition update_lanes :: "(lane_row \<Rightarrow> bool) \<Rightarrow> (lane_row \<Rightarrow> lane_row) \<Rightarrow> nat store_act" where
  "update_lanes = update_rows lanes_data lanes_data_update lane_check"

text \<open>Inserts. The row is given without its id.\<close>

definition insert_epoch :: "epoch_row \<Rightarrow> int store_act" where
  "insert_epoch r = bind_act (demand (\<lambda>d. e_text r \<notin> set (map e_text (epochs_data d))) SqlConstraint) (\<lambda>_.
     bind_act (ask (\<lambda>d. next_id (map e_id (epochs_data d)))) (\<lambda>i.
     bind_act (change (epochs_data_update (\<lambda>rs. rs @ [r\<lparr>e_id := i\<rparr>]))) (\<lambda>_. ok i)))"

definition insert_phase :: "phase_row \<Rightarrow> int store_act" where
  "insert_phase r = bind_act (demand (\<lambda>d. p_text r \<notin> set (map p_text (phases_data d)) \<and> phase_check r
       \<and> p_epoch r \<in> set (map e_id (epochs_data d))) SqlConstraint) (\<lambda>_.
     bind_act (ask (\<lambda>d. next_id (map p_id (phases_data d)))) (\<lambda>i.
     bind_act (change (phases_data_update (\<lambda>rs. rs @ [r\<lparr>p_id := i\<rparr>]))) (\<lambda>_. ok i)))"

definition insert_goal :: "goal_row \<Rightarrow> int store_act" where
  "insert_goal r = bind_act (demand (\<lambda>d. g_text r \<notin> set (map g_text (goals_data d)) \<and> goal_check r
       \<and> g_phase r \<in> set (map p_id (phases_data d))) SqlConstraint) (\<lambda>_.
     bind_act (ask (\<lambda>d. next_id (map g_id (goals_data d)))) (\<lambda>i.
     bind_act (change (goals_data_update (\<lambda>rs. rs @ [r\<lparr>g_id := i\<rparr>]))) (\<lambda>_. ok i)))"

definition insert_task :: "task_row \<Rightarrow> int store_act" where
  "insert_task r = bind_act (demand (\<lambda>d. t_text r \<notin> set (map t_text (tasks_data d)) \<and> task_check r
       \<and> t_goal r \<in> set (map g_id (goals_data d))) SqlConstraint) (\<lambda>_.
     bind_act (ask (\<lambda>d. next_id (map t_id (tasks_data d)))) (\<lambda>i.
     bind_act (change (tasks_data_update (\<lambda>rs. rs @ [r\<lparr>t_id := i\<rparr>]))) (\<lambda>_. ok i)))"

definition insert_alias :: "entity_kind \<Rightarrow> int \<Rightarrow> string \<Rightarrow> unit store_act" where
  "insert_alias k i a = bind_act (demand (\<lambda>d. (k, a) \<notin> set (map (\<lambda>x. (a_kind x, a_alias x)) (entity_aliases d))) SqlConstraint) (\<lambda>_.
     change (entity_aliases_update (\<lambda>xs. xs @ [\<lparr>a_kind = k, a_entity = i, a_alias = a\<rparr>])))"

definition insert_phase_rfc :: "phase_rfc_row \<Rightarrow> unit store_act" where
  "insert_phase_rfc r = bind_act (demand (\<lambda>d. (r_phase r, r_rfc r) \<notin> set (map (\<lambda>x. (r_phase x, r_rfc x)) (phase_rfcs_data d))
       \<and> rfc_check r \<and> r_phase r \<in> set (map p_id (phases_data d))) SqlConstraint) (\<lambda>_.
     bind_act (ask (\<lambda>d. next_id (map r_id (phase_rfcs_data d)))) (\<lambda>i.
     change (phase_rfcs_data_update (\<lambda>rs. rs @ [r\<lparr>r_id := i\<rparr>]))))"

definition insert_lane :: "lane_row \<Rightarrow> unit store_act" where
  "insert_lane r = bind_act (demand (\<lambda>d. l_text r \<notin> set (map l_text (lanes_data d)) \<and> lane_check r
       \<and> l_phase r \<in> set (map p_id (phases_data d))) SqlConstraint) (\<lambda>_.
     bind_act (ask (\<lambda>d. next_id (map l_id (lanes_data d)))) (\<lambda>i.
     change (lanes_data_update (\<lambda>rs. rs @ [r\<lparr>l_id := i\<rparr>]))))"

section \<open>Deletes and their cascades\<close>

definition drop_tasks :: "int list \<Rightarrow> store \<Rightarrow> store" where
  "drop_tasks is d = d\<lparr>tasks_data := filter (\<lambda>t. t_id t \<notin> set is) (tasks_data d),
     task_logs := filter (\<lambda>l. log_task l \<notin> set is) (task_logs d),
     task_verifications := filter (\<lambda>v. v_task v \<notin> set is) (task_verifications d)\<rparr>"

definition drop_goals :: "int list \<Rightarrow> store \<Rightarrow> store" where
  "drop_goals is d = drop_tasks (map t_id (filter (\<lambda>t. t_goal t \<in> set is) (tasks_data d)))
     (d\<lparr>goals_data := filter (\<lambda>g. g_id g \<notin> set is) (goals_data d)\<rparr>)"

definition drop_phases :: "int list \<Rightarrow> store \<Rightarrow> store" where
  "drop_phases is d = drop_goals (map g_id (filter (\<lambda>g. g_phase g \<in> set is) (goals_data d)))
     (d\<lparr>phases_data := filter (\<lambda>p. p_id p \<notin> set is) (phases_data d),
        phase_rfcs_data := filter (\<lambda>r. r_phase r \<notin> set is) (phase_rfcs_data d),
        active_phase_data := filter (\<lambda>w. pin_phase w \<notin> set is) (active_phase_data d)\<rparr>)"

definition drop_epochs :: "int list \<Rightarrow> store \<Rightarrow> store" where
  "drop_epochs is d = drop_phases (map p_id (filter (\<lambda>p. p_epoch p \<in> set is) (phases_data d)))
     (d\<lparr>epochs_data := filter (\<lambda>e. e_id e \<notin> set is) (epochs_data d)\<rparr>)"

text \<open>A lane restricts the deletion of its phase.\<close>

definition unrestricted :: "int list \<Rightarrow> store \<Rightarrow> bool" where
  "unrestricted is d \<longleftrightarrow> list_all (\<lambda>l. l_phase l \<notin> set is) (lanes_data d)"

definition delete_epoch :: "string \<Rightarrow> nat store_act" where
  "delete_epoch t = bind_act (ask (\<lambda>d. map e_id (filter (\<lambda>e. e_text e = t) (epochs_data d)))) (\<lambda>is.
     bind_act (demand (\<lambda>d. unrestricted (map p_id (filter (\<lambda>p. p_epoch p \<in> set is) (phases_data d))) d) SqlConstraint) (\<lambda>_.
     bind_act (change (drop_epochs is)) (\<lambda>_. ok (length is))))"

definition delete_phase :: "string \<Rightarrow> nat store_act" where
  "delete_phase t = bind_act (ask (\<lambda>d. map p_id (filter (\<lambda>p. p_text p = t) (phases_data d)))) (\<lambda>is.
     bind_act (demand (unrestricted is) SqlConstraint) (\<lambda>_.
     bind_act (change (drop_phases is)) (\<lambda>_. ok (length is))))"

definition delete_goal :: "string \<Rightarrow> nat store_act" where
  "delete_goal t = bind_act (ask (\<lambda>d. map g_id (filter (\<lambda>g. g_text g = t) (goals_data d)))) (\<lambda>is.
     bind_act (change (drop_goals is)) (\<lambda>_. ok (length is)))"

definition delete_task :: "int \<Rightarrow> nat store_act" where
  "delete_task i = bind_act (ask (\<lambda>d. map t_id (filter (\<lambda>t. t_id t = i) (tasks_data d)))) (\<lambda>is.
     bind_act (change (drop_tasks is)) (\<lambda>_. ok (length is)))"

definition delete_aliases :: "(alias_row \<Rightarrow> bool) \<Rightarrow> unit store_act" where
  "delete_aliases P = change (entity_aliases_update (filter (\<lambda>x. \<not> P x)))"

definition delete_focus :: "(focus_row \<Rightarrow> bool) \<Rightarrow> unit store_act" where
  "delete_focus P = change (lane_focus_data_update (filter (\<lambda>w. \<not> P w)))"

text \<open>Deleting a lane deletes the focuses on it.\<close>

definition delete_lanes :: "(lane_row \<Rightarrow> bool) \<Rightarrow> nat store_act" where
  "delete_lanes P = bind_act (ask (\<lambda>d. map l_id (filter P (lanes_data d)))) (\<lambda>is.
     bind_act (change (\<lambda>d. d\<lparr>lanes_data := filter (\<lambda>l. \<not> P l) (lanes_data d),
       lane_focus_data := filter (\<lambda>w. focus_lane w \<notin> set is) (lane_focus_data d)\<rparr>)) (\<lambda>_. ok (length is)))"

section \<open>Row ids of text ids\<close>

definition epoch_row_id :: "string \<Rightarrow> store \<Rightarrow> int option" where
  "epoch_row_id t d = map_option e_id (List.find (\<lambda>e. e_text e = t) (epochs_data d))"

definition phase_row_id :: "string \<Rightarrow> store \<Rightarrow> int option" where
  "phase_row_id t d = map_option p_id (List.find (\<lambda>p. p_text p = t) (phases_data d))"

definition goal_row_id :: "string \<Rightarrow> store \<Rightarrow> int option" where
  "goal_row_id t d = map_option g_id (List.find (\<lambda>g. g_text g = t) (goals_data d))"

definition task_row_id :: "string \<Rightarrow> store \<Rightarrow> int option" where
  "task_row_id t d = map_option t_id (List.find (\<lambda>x. t_text x = t) (tasks_data d))"

definition lane_row_id :: "string \<Rightarrow> store \<Rightarrow> int option" where
  "lane_row_id t d = map_option l_id (List.find (\<lambda>l. l_text l = t) (lanes_data d))"

end
