(* ===== verification/Plan_Writer.thy ===== *)
theory Plan_Writer
  imports Plan_Store
begin

text \<open>
  The write path of the plan: \<open>SqliteWriter\<close> of \<open>tools/exo/src/context/sqlite_writer.rs\<close>, epochs,
  phases, lanes, goals and tasks with their ordering and their references. Fresh identifiers and
  the time are arguments; the \<open>fractional_index\<close> crate is the parameter \<open>F\<close>.
\<close>

section \<open>Order keys\<close>

record 'k frac =
  key_default :: 'k
  key_before :: "'k \<Rightarrow> 'k"
  key_after :: "'k \<Rightarrow> 'k"
  key_between :: "'k \<Rightarrow> 'k \<Rightarrow> 'k option"
  key_parse :: "string \<Rightarrow> 'k option"
  key_show :: "'k \<Rightarrow> string"

definition parse_key :: "'k frac \<Rightarrow> string \<Rightarrow> store_error + 'k" where
  "parse_key F s = (case key_parse F s of None \<Rightarrow> Inl (InvalidSortKey s) | Some k \<Rightarrow> Inr k)"

text \<open>The key after the largest of the given ones.\<close>

definition key_after_last :: "'k frac \<Rightarrow> string list \<Rightarrow> store_error + string" where
  "key_after_last F keys =
     (if keys = [] then Inr (key_show F (key_default F))
      else and_then (parse_key F (Max (set keys))) (\<lambda>k. Inr (key_show F (key_after F k))))"

definition index_of :: "'a \<Rightarrow> 'a list \<Rightarrow> nat option" where
  "index_of x xs = (let n = length (takeWhile (\<lambda>y. y \<noteq> x) xs) in if n < length xs then Some n else None)"

definition parse_usize :: "string \<Rightarrow> nat option" where
  "parse_usize s =
     (case parse_nat (case s of CHR ''+'' # t \<Rightarrow> t | _ \<Rightarrow> s) of
        None \<Rightarrow> None
      | Some n \<Rightarrow> if n < 2 ^ 64 then Some n else None)"

definition key_between_at :: "'k frac \<Rightarrow> (string \<times> string) list \<Rightarrow> nat \<Rightarrow> store_error + 'k" where
  "key_between_at F others i =
     and_then (parse_key F (snd (others ! (i - 1)))) (\<lambda>a.
     and_then (parse_key F (snd (others ! i))) (\<lambda>b.
       case key_between F a b of None \<Rightarrow> Inl NoKeyBetween | Some k \<Rightarrow> Inr k))"

definition key_before_first :: "'k frac \<Rightarrow> (string \<times> string) list \<Rightarrow> store_error + 'k" where
  "key_before_first F others = and_then (parse_key F (snd (hd others))) (\<lambda>k. Inr (key_before F k))"

definition key_after_end :: "'k frac \<Rightarrow> (string \<times> string) list \<Rightarrow> store_error + 'k" where
  "key_after_end F others = and_then (parse_key F (snd (last others))) (\<lambda>k. Inr (key_after F k))"

definition compute_position :: "'k frac \<Rightarrow> string \<Rightarrow> (string \<times> string) list \<Rightarrow> store_error + 'k" where
  "compute_position F position others =
     (case strip_prefix ''before:'' position of
        Some anchor \<Rightarrow>
          (case index_of anchor (map fst others) of
             None \<Rightarrow> Inl (AnchorNotFound anchor)
           | Some i \<Rightarrow> if i = 0 then key_before_first F others else key_between_at F others i)
      | None \<Rightarrow> (case strip_prefix ''after:'' position of
        Some anchor \<Rightarrow>
          (case index_of anchor (map fst others) of
             None \<Rightarrow> Inl (AnchorNotFound anchor)
           | Some i \<Rightarrow> if i = length others - 1 then key_after_end F others else key_between_at F others (Suc i))
      | None \<Rightarrow>
          (if position = ''top'' then
             (if others = [] then Inr (key_default F) else key_before_first F others)
           else if position = ''bottom'' then
             (if others = [] then Inr (key_default F) else key_after_end F others)
           else case parse_usize position of
               None \<Rightarrow> Inl (InvalidPosition position)
             | Some i \<Rightarrow>
                 (if others = [] then Inr (key_default F)
                  else if i = 0 then key_before_first F others
                  else if length others \<le> i then key_after_end F others
                  else key_between_at F others i))))"

text \<open>The columns the generic reordering statements are given the names of.\<close>

record 'r ordered_table =
  rows_of :: "store \<Rightarrow> 'r list"
  update_row :: "('r \<Rightarrow> bool) \<Rightarrow> ('r \<Rightarrow> 'r) \<Rightarrow> nat store_act"
  row_text :: "'r \<Rightarrow> string"
  row_key :: "'r \<Rightarrow> string option"
  set_key :: "string \<Rightarrow> 'r \<Rightarrow> 'r"
  row_parent :: "'r \<Rightarrow> int"
  set_parent :: "int \<Rightarrow> 'r \<Rightarrow> 'r"

definition phases_table :: "phase_row ordered_table" where
  "phases_table = \<lparr>rows_of = phases_data, update_row = update_phases, row_text = p_text, row_key = p_key,
     set_key = (\<lambda>k. p_key_update (\<lambda>_. Some k)), row_parent = p_epoch, set_parent = (\<lambda>i. p_epoch_update (\<lambda>_. i))\<rparr>"

definition goals_table :: "goal_row ordered_table" where
  "goals_table = \<lparr>rows_of = goals_data, update_row = update_goals, row_text = g_text, row_key = g_key,
     set_key = (\<lambda>k. g_key_update (\<lambda>_. Some k)), row_parent = g_phase, set_parent = (\<lambda>i. g_phase_update (\<lambda>_. i))\<rparr>"

definition tasks_table :: "task_row ordered_table" where
  "tasks_table = \<lparr>rows_of = tasks_data, update_row = update_tasks, row_text = t_text, row_key = t_key,
     set_key = (\<lambda>k. t_key_update (\<lambda>_. Some k)), row_parent = t_goal, set_parent = (\<lambda>i. t_goal_update (\<lambda>_. i))\<rparr>"

text \<open>\<open>ORDER BY sort_key, id\<close> over rows in the order of their ids.\<close>

definition siblings :: "'r ordered_table \<Rightarrow> int \<Rightarrow> store \<Rightarrow> (string \<times> string) list" where
  "siblings T parent d =
     map (\<lambda>r. (row_text T r, the (row_key T r)))
       (sort_key (\<lambda>r. the (row_key T r)) (filter (\<lambda>r. row_parent T r = parent \<and> row_key T r \<noteq> None) (rows_of T d)))"

definition append_sort_key :: "'k frac \<Rightarrow> 'r ordered_table \<Rightarrow> int \<Rightarrow> string store_act" where
  "append_sort_key F T parent =
     bind_act (ask (siblings T parent)) (\<lambda>rows. lift_sum (key_after_last F (map snd rows)))"

definition reorder_entity :: "'k frac \<Rightarrow> 'r ordered_table \<Rightarrow> string \<Rightarrow> string \<Rightarrow> int \<Rightarrow> unit store_act" where
  "reorder_entity F T t position parent =
     bind_act (ask (siblings T parent)) (\<lambda>rows.
     bind_act (lift_sum (compute_position F position (filter (\<lambda>(i, _). i \<noteq> t) rows))) (\<lambda>k.
     bind_act (update_row T (\<lambda>r. row_text T r = t) (set_key T (key_show F k))) (\<lambda>_. ok ())))"

definition move_entity_to_parent ::
  "'k frac \<Rightarrow> 'r ordered_table \<Rightarrow> string \<Rightarrow> string option \<Rightarrow> int \<Rightarrow> string \<Rightarrow> unit store_act" where
  "move_entity_to_parent F T t position parent label =
     bind_act (demand (\<lambda>d. list_ex (\<lambda>r. row_text T r = t) (rows_of T d)) (NotFoundError label t)) (\<lambda>_.
     bind_act (ask (siblings T parent)) (\<lambda>rows.
     bind_act (lift_sum (compute_position F (case position of None \<Rightarrow> ''bottom'' | Some p \<Rightarrow> p)
       (filter (\<lambda>(i, _). i \<noteq> t) rows))) (\<lambda>k.
     bind_act (update_row T (\<lambda>r. row_text T r = t) (set_key T (key_show F k) \<circ> set_parent T parent)) (\<lambda>n.
       if n = 0 then err (NotFoundError label t) else ok ()))))"

section \<open>Epochs\<close>

definition expect_rows :: "string \<Rightarrow> string \<Rightarrow> nat store_act \<Rightarrow> unit store_act" where
  "expect_rows label t m = bind_act m (\<lambda>n. if n = 0 then err (NotFoundError label t) else ok ())"

definition resolve_epoch :: "string \<Rightarrow> int store_act" where
  "resolve_epoch t = found (epoch_row_id t) (NoEntity ''epochs_data'' t)"

definition resolve_phase :: "string \<Rightarrow> int store_act" where
  "resolve_phase t = found (phase_row_id t) (NoEntity ''phases_data'' t)"

definition resolve_goal :: "string \<Rightarrow> int store_act" where
  "resolve_goal t = found (goal_row_id t) (NoEntity ''goals_data'' t)"

definition resolve_lane :: "string \<Rightarrow> int store_act" where
  "resolve_lane t = found (lane_row_id t) (NoEntity ''workbench_lanes_data'' t)"

definition add_epoch :: "'k frac \<Rightarrow> string \<Rightarrow> string \<Rightarrow> string option \<Rightarrow> string list \<Rightarrow> string store_act" where
  "add_epoch F tid title slug aliases =
     bind_act (ask (\<lambda>d. map e_key (epochs_data d))) (\<lambda>keys.
     bind_act (lift_sum (key_after_last F keys)) (\<lambda>key.
     bind_act (insert_epoch \<lparr>e_id = 0, e_text = tid, e_title = title, e_slug = slug, e_reviewed = False, e_key = key\<rparr>) (\<lambda>i.
     bind_act (for_each (insert_alias EpochKind i) aliases) (\<lambda>_. ok tid))))"

text \<open>\<open>delete_entity_aliases\<close>: the entity's own aliases, then those of every descendant.\<close>

definition delete_kind_aliases :: "entity_kind \<Rightarrow> (store \<Rightarrow> int list) \<Rightarrow> unit store_act" where
  "delete_kind_aliases k q = bind_act (ask q) (\<lambda>is. delete_aliases (\<lambda>x. a_kind x = k \<and> a_entity x \<in> set is))"

definition phases_under :: "int list \<Rightarrow> store \<Rightarrow> int list" where
  "phases_under is d = map p_id (filter (\<lambda>p. p_epoch p \<in> set is) (phases_data d))"

definition goals_under :: "int list \<Rightarrow> store \<Rightarrow> int list" where
  "goals_under is d = map g_id (filter (\<lambda>g. g_phase g \<in> set is) (goals_data d))"

definition tasks_under :: "int list \<Rightarrow> store \<Rightarrow> int list" where
  "tasks_under is d = map t_id (filter (\<lambda>t. t_goal t \<in> set is) (tasks_data d))"

definition delete_entity_aliases :: "entity_kind \<Rightarrow> int option \<Rightarrow> unit store_act" where
  "delete_entity_aliases kind row = (case row of
     None \<Rightarrow> ok ()
   | Some i \<Rightarrow> bind_act (delete_kind_aliases kind (\<lambda>_. [i])) (\<lambda>_. case kind of
       EpochKind \<Rightarrow>
         bind_act (delete_kind_aliases PhaseKind (phases_under [i])) (\<lambda>_.
         bind_act (delete_kind_aliases GoalKind (\<lambda>d. goals_under (phases_under [i] d) d)) (\<lambda>_.
           delete_kind_aliases TaskKind (\<lambda>d. tasks_under (goals_under (phases_under [i] d) d) d)))
     | PhaseKind \<Rightarrow>
         bind_act (delete_kind_aliases GoalKind (goals_under [i])) (\<lambda>_.
           delete_kind_aliases TaskKind (\<lambda>d. tasks_under (goals_under [i] d) d))
     | GoalKind \<Rightarrow> delete_kind_aliases TaskKind (tasks_under [i])
     | TaskKind \<Rightarrow> ok ()))"

definition remove_epoch :: "string \<Rightarrow> unit store_act" where
  "remove_epoch t = savepoint (
     bind_act (ask (epoch_row_id t)) (\<lambda>row. bind_act (delete_entity_aliases EpochKind row) (\<lambda>_.
       expect_rows ''Epoch'' t (delete_epoch t))))"

definition update_epoch_reviewed :: "string \<Rightarrow> bool \<Rightarrow> unit store_act" where
  "update_epoch_reviewed t reviewed =
     expect_rows ''Epoch'' t (update_epochs (\<lambda>e. e_text e = t) (e_reviewed_update (\<lambda>_. reviewed)))"

definition update_epoch_title :: "string \<Rightarrow> string \<Rightarrow> unit store_act" where
  "update_epoch_title t title =
     expect_rows ''Epoch'' t (update_epochs (\<lambda>e. e_text e = t) (e_title_update (\<lambda>_. title)))"

definition lanes_of_phases :: "(phase_row \<Rightarrow> bool) \<Rightarrow> store \<Rightarrow> int list" where
  "lanes_of_phases P d = map l_id (filter (\<lambda>l. list_ex (\<lambda>p. p_id p = l_phase l \<and> P p) (phases_data d)) (lanes_data d))"

definition clear_focus_on :: "(store \<Rightarrow> int list) \<Rightarrow> unit store_act" where
  "clear_focus_on q = bind_act (ask q) (\<lambda>is. delete_focus (\<lambda>w. focus_lane w \<in> set is))"

definition bankrupt_epoch :: "string \<Rightarrow> unit store_act" where
  "bankrupt_epoch t = savepoint (
     bind_act (resolve_epoch t) (\<lambda>i.
     bind_act (update_phases (\<lambda>p. p_epoch p = i \<and> p_status p \<in> {''pending'', ''in-progress''})
       (p_status_update (\<lambda>_. ''abandoned''))) (\<lambda>_.
     bind_act (ask (phases_under [i])) (\<lambda>ps.
     bind_act (update_goals (\<lambda>g. g_phase g \<in> set ps \<and> g_status g \<in> {''pending'', ''in-progress''})
       (g_status_update (\<lambda>_. ''abandoned''))) (\<lambda>_.
       clear_focus_on (lanes_of_phases (\<lambda>p. p_epoch p = i \<and> p_status p = ''abandoned'')))))))"

definition reorder_epoch :: "'k frac \<Rightarrow> string \<Rightarrow> string \<Rightarrow> unit store_act" where
  "reorder_epoch F t position =
     bind_act (found (epoch_row_id t) (NotFoundError ''Epoch'' t)) (\<lambda>_.
     bind_act (ask (\<lambda>d. map (\<lambda>e. (e_text e, e_key e)) (sort_key e_key (epochs_data d)))) (\<lambda>rows.
     bind_act (lift_sum (compute_position F position (filter (\<lambda>(i, _). i \<noteq> t) rows))) (\<lambda>k.
     bind_act (update_epochs (\<lambda>e. e_text e = t) (e_key_update (\<lambda>_. key_show F k))) (\<lambda>_. ok ()))))"

section \<open>Phases\<close>

definition add_phase ::
  "'k frac \<Rightarrow> string \<Rightarrow> string \<Rightarrow> string \<Rightarrow> string \<Rightarrow> string option \<Rightarrow> string list \<Rightarrow> string store_act" where
  "add_phase F tid epoch title kind slug aliases =
     bind_act (resolve_epoch epoch) (\<lambda>e.
     bind_act (append_sort_key F phases_table e) (\<lambda>key.
     bind_act (insert_phase \<lparr>p_id = 0, p_text = tid, p_title = title, p_status = ''pending'', p_epoch = e, p_kind = kind,
       p_slug = slug, p_key = Some key, p_completed_at = None\<rparr>) (\<lambda>i.
     bind_act (for_each (insert_alias PhaseKind i) aliases) (\<lambda>_. ok tid))))"

definition remove_phase :: "string \<Rightarrow> unit store_act" where
  "remove_phase t = savepoint (
     bind_act (ask (phase_row_id t)) (\<lambda>row. bind_act (delete_entity_aliases PhaseKind row) (\<lambda>_.
       expect_rows ''Phase'' t (delete_phase t))))"

definition update_phase_status :: "string \<Rightarrow> string \<Rightarrow> string \<Rightarrow> unit store_act" where
  "update_phase_status now t status = savepoint (
     bind_act (expect_rows ''Phase'' t (update_phases (\<lambda>p. p_text p = t) (\<lambda>p. p\<lparr>p_status := status,
       p_completed_at := (if status = ''completed'' then
           (case p_completed_at p of Some x \<Rightarrow> Some x | None \<Rightarrow> Some now) else None)\<rparr>))) (\<lambda>_.
       if status \<noteq> ''in-progress'' then clear_focus_on (lanes_of_phases (\<lambda>p. p_text p = t)) else ok ()))"

definition update_phase_title :: "string \<Rightarrow> string \<Rightarrow> unit store_act" where
  "update_phase_title t title =
     expect_rows ''Phase'' t (update_phases (\<lambda>p. p_text p = t) (p_title_update (\<lambda>_. title)))"

definition replace_phase_rfcs :: "string \<Rightarrow> string list \<Rightarrow> unit store_act" where
  "replace_phase_rfcs t rfcs =
     bind_act (resolve_phase t) (\<lambda>i.
     bind_act (change (phase_rfcs_data_update (filter (\<lambda>r. r_phase r \<noteq> i)))) (\<lambda>_.
       for_each (\<lambda>rfc. insert_phase_rfc
         \<lparr>r_id = 0, r_phase = i, r_rfc = rfc, r_target = None, r_relation = ''related''\<rparr>) rfcs))"

definition reorder_phase :: "'k frac \<Rightarrow> string \<Rightarrow> string \<Rightarrow> unit store_act" where
  "reorder_phase F t position =
     bind_act (found (\<lambda>d. map_option p_epoch (List.find (\<lambda>p. p_text p = t) (phases_data d))) (NotFoundError ''Phase'' t))
       (reorder_entity F phases_table t position)"

definition move_phase_to_epoch :: "'k frac \<Rightarrow> string \<Rightarrow> string \<Rightarrow> string option \<Rightarrow> unit store_act" where
  "move_phase_to_epoch F t epoch position =
     bind_act (found (epoch_row_id epoch) (NotFoundError ''Target epoch'' epoch)) (\<lambda>e.
       move_entity_to_parent F phases_table t position e ''Phase'')"

section \<open>Workspace focus and lanes\<close>

definition update_pin :: "string \<Rightarrow> int \<Rightarrow> string \<Rightarrow> nat store_act" where
  "update_pin root p now = update_rows active_phase_data active_phase_data_update any_row (\<lambda>w. pin_root w = root)
     (\<lambda>w. w\<lparr>pin_phase := p, pin_updated_at := now\<rparr>)"

definition insert_pin :: "string \<Rightarrow> int \<Rightarrow> string \<Rightarrow> nat store_act" where
  "insert_pin root p now = bind_act (ask (\<lambda>d. root \<in> set (map pin_root (active_phase_data d)))) (\<lambda>exists.
     if exists then ok 0
     else bind_act (demand (\<lambda>d. p \<in> set (map p_id (phases_data d))) SqlConstraint) (\<lambda>_.
       bind_act (change (active_phase_data_update (\<lambda>ws. ws @ [\<lparr>pin_root = root, pin_phase = p, pin_updated_at = now\<rparr>]))) (\<lambda>_. ok 1)))"

definition set_workspace_active_phase :: "string \<Rightarrow> string \<Rightarrow> string \<Rightarrow> unit store_act" where
  "set_workspace_active_phase now root phase =
     bind_act (resolve_phase phase) (\<lambda>p.
     bind_act (update_pin root p now) (\<lambda>n.
       if n \<noteq> 0 then ok ()
       else bind_act (insert_pin root p now) (\<lambda>inserted.
         if inserted \<noteq> 0 then ok ()
         else bind_act (update_pin root p now) (\<lambda>n. if n = 0 then err (PinNotSet root) else ok ()))))"

definition clear_workspace_active_phase :: "string \<Rightarrow> unit store_act" where
  "clear_workspace_active_phase root = change (active_phase_data_update (filter (\<lambda>w. pin_root w \<noteq> root)))"

definition add_workbench_lane :: "string \<Rightarrow> string \<Rightarrow> string \<Rightarrow> string \<Rightarrow> string \<Rightarrow> string store_act" where
  "add_workbench_lane now tid title purpose phase =
     bind_act (resolve_phase phase) (\<lambda>p.
     bind_act (insert_lane \<lparr>l_id = 0, l_text = tid, l_title = title, l_intent = purpose, l_state = ''prepared'', l_phase = p,
       l_created_at = now, l_updated_at = now\<rparr>) (\<lambda>_. ok tid))"

definition lane_state_error :: "string \<Rightarrow> 'a store_act" where
  "lane_state_error t = bind_act (ask (\<lambda>d. List.find (\<lambda>l. l_text l = t) (lanes_data d))) (\<lambda>row. case row of
     Some l \<Rightarrow> err (LaneState t (l_state l)) | None \<Rightarrow> err (NotFoundError ''Workbench lane'' t))"

definition start_workbench_lane :: "string \<Rightarrow> string \<Rightarrow> unit store_act" where
  "start_workbench_lane now t =
     bind_act (update_lanes (\<lambda>l. l_text l = t \<and> l_state l = ''prepared'') (\<lambda>l. l\<lparr>l_state := ''executing'', l_updated_at := now\<rparr>)) (\<lambda>n.
       if n = 0 then lane_state_error t else ok ())"

definition update_focus :: "string \<Rightarrow> int \<Rightarrow> string \<Rightarrow> nat store_act" where
  "update_focus root l now = update_rows lane_focus_data lane_focus_data_update any_row (\<lambda>w. focus_root w = root)
     (\<lambda>w. w\<lparr>focus_lane := l, focus_updated_at := now\<rparr>)"

definition insert_focus :: "string \<Rightarrow> int \<Rightarrow> string \<Rightarrow> nat store_act" where
  "insert_focus root l now = bind_act (ask (\<lambda>d. root \<in> set (map focus_root (lane_focus_data d)))) (\<lambda>exists.
     if exists then ok 0
     else bind_act (demand (\<lambda>d. l \<in> set (map l_id (lanes_data d))) SqlConstraint) (\<lambda>_.
       bind_act (change (lane_focus_data_update (\<lambda>ws. ws @ [\<lparr>focus_root = root, focus_lane = l, focus_updated_at = now\<rparr>]))) (\<lambda>_. ok 1)))"

definition set_workspace_lane_focus :: "string \<Rightarrow> string \<Rightarrow> string \<Rightarrow> unit store_act" where
  "set_workspace_lane_focus now root lane =
     bind_act (resolve_lane lane) (\<lambda>l.
     bind_act (update_focus root l now) (\<lambda>n.
       if n \<noteq> 0 then ok ()
       else bind_act (insert_focus root l now) (\<lambda>inserted.
         if inserted \<noteq> 0 then ok ()
         else bind_act (update_focus root l now) (\<lambda>n. if n = 0 then err (PinNotSet root) else ok ()))))"

definition clear_workspace_lane_focus :: "string \<Rightarrow> unit store_act" where
  "clear_workspace_lane_focus root = delete_focus (\<lambda>w. focus_root w = root)"

definition focus_phase_for_workspace :: "string \<Rightarrow> string \<Rightarrow> string \<Rightarrow> unit store_act" where
  "focus_phase_for_workspace now root phase = savepoint (
     bind_act (set_workspace_active_phase now root phase) (\<lambda>_.
     bind_act (ask (\<lambda>d. list_ex (\<lambda>w. focus_root w = root \<and> focus_lane w \<in>
         set (lanes_of_phases (\<lambda>p. p_text p = phase \<and> p_status p = ''in-progress'') d)) (lane_focus_data d))) (\<lambda>matching.
       if \<not> matching then clear_workspace_lane_focus root else ok ())))"

definition complete_phase_and_clear_lane_focus :: "string \<Rightarrow> string \<Rightarrow> unit store_act" where
  "complete_phase_and_clear_lane_focus now t = savepoint (
     bind_act (resolve_phase t) (\<lambda>i.
     bind_act (expect_rows ''Phase'' t (update_phases (\<lambda>p. p_id p = i) (\<lambda>p. p\<lparr>p_status := ''completed'',
       p_completed_at := (case p_completed_at p of Some x \<Rightarrow> Some x | None \<Rightarrow> Some now)\<rparr>))) (\<lambda>_.
       clear_focus_on (\<lambda>d. map l_id (filter (\<lambda>l. l_phase l = i) (lanes_data d))))))"

definition require_lane_phase_in_progress :: "string \<Rightarrow> string \<Rightarrow> unit store_act" where
  "require_lane_phase_in_progress lane phase =
     bind_act (ask (\<lambda>d. Option.bind (List.find (\<lambda>l. l_text l = lane) (lanes_data d)) (\<lambda>l.
         map_option p_status (List.find (\<lambda>p. p_text p = phase \<and> p_id p = l_phase l) (phases_data d))))) (\<lambda>status.
       case status of
         None \<Rightarrow> err (LaneNotAttached lane phase)
       | Some s \<Rightarrow> if s = ''in-progress'' then ok () else err (LanePhaseNotInProgress lane phase s))"

definition focus_workbench_lane :: "string \<Rightarrow> string \<Rightarrow> string \<Rightarrow> string \<Rightarrow> unit store_act" where
  "focus_workbench_lane now root lane phase = savepoint (
     bind_act (require_lane_phase_in_progress lane phase) (\<lambda>_.
     bind_act (set_workspace_active_phase now root phase) (\<lambda>_.
       set_workspace_lane_focus now root lane)))"

definition start_and_focus_workbench_lane :: "string \<Rightarrow> string \<Rightarrow> string \<Rightarrow> string \<Rightarrow> unit store_act" where
  "start_and_focus_workbench_lane now root lane phase = savepoint (
     bind_act (require_lane_phase_in_progress lane phase) (\<lambda>_.
     bind_act (start_workbench_lane now lane) (\<lambda>_.
     bind_act (set_workspace_active_phase now root phase) (\<lambda>_.
       set_workspace_lane_focus now root lane))))"

definition remove_prepared_workbench_lane :: "string \<Rightarrow> unit store_act" where
  "remove_prepared_workbench_lane t = savepoint (
     bind_act (ask (\<lambda>d. List.find (\<lambda>l. l_text l = t \<and> l_state l = ''prepared'') (lanes_data d))) (\<lambda>row. case row of
       None \<Rightarrow> lane_state_error t
     | Some l \<Rightarrow>
         bind_act (delete_focus (\<lambda>w. focus_lane w = l_id l)) (\<lambda>_.
         bind_act (delete_lanes (\<lambda>l. l_text l = t \<and> l_state l = ''prepared'')) (\<lambda>removed.
           if removed \<noteq> 1 then err (LaneChanged t) else ok ()))))"

section \<open>Goals\<close>

definition add_goal ::
  "'k frac \<Rightarrow> string \<Rightarrow> string \<Rightarrow> string \<Rightarrow> string option \<Rightarrow> 8 word option \<Rightarrow> string option \<Rightarrow> string option \<Rightarrow>
   string option \<Rightarrow> string option \<Rightarrow> string list \<Rightarrow> string store_act" where
  "add_goal F phase goal label rfc target kind description started_at slug aliases =
     bind_act (resolve_phase phase) (\<lambda>p.
     bind_act (append_sort_key F goals_table p) (\<lambda>key.
     bind_act (insert_goal \<lparr>g_id = 0, g_text = goal, g_label = label, g_status = ''pending'', g_phase = p,
       g_kind = Some (case kind of None \<Rightarrow> ''regular'' | Some k \<Rightarrow> k), g_rfc = rfc, g_target_stage = map_option uint target,
       g_started_at = started_at, g_description = description, g_completion_log = None, g_slug = slug, g_key = Some key\<rparr>) (\<lambda>i.
     bind_act (for_each (insert_alias GoalKind i) aliases) (\<lambda>_. ok goal))))"

definition update_goal_status :: "string \<Rightarrow> string \<Rightarrow> unit store_act" where
  "update_goal_status t status =
     expect_rows ''Goal'' t (update_goals (\<lambda>g. g_text g = t) (g_status_update (\<lambda>_. status)))"

definition add_strike_goal :: "'k frac \<Rightarrow> string \<Rightarrow> string \<Rightarrow> string \<Rightarrow> string \<Rightarrow> string \<Rightarrow> string store_act" where
  "add_strike_goal F now phase goal label description =
     bind_act (add_goal F phase goal label None None (Some ''strike'') (Some description) (Some now) None []) (\<lambda>i.
     bind_act (update_goal_status goal ''in-progress'') (\<lambda>_. ok i))"

definition remove_goal :: "string \<Rightarrow> unit store_act" where
  "remove_goal t =
     bind_act (ask (goal_row_id t)) (\<lambda>row. bind_act (delete_entity_aliases GoalKind row) (\<lambda>_.
       expect_rows ''Goal'' t (delete_goal t)))"

definition update_goal_label :: "string \<Rightarrow> string \<Rightarrow> unit store_act" where
  "update_goal_label t label = expect_rows ''Goal'' t (update_goals (\<lambda>g. g_text g = t) (g_label_update (\<lambda>_. label)))"

definition update_goal_completion_log :: "string \<Rightarrow> string \<Rightarrow> unit store_act" where
  "update_goal_completion_log t log =
     expect_rows ''Goal'' t (update_goals (\<lambda>g. g_text g = t) (g_completion_log_update (\<lambda>_. Some log)))"

definition reorder_goal :: "'k frac \<Rightarrow> string \<Rightarrow> string \<Rightarrow> unit store_act" where
  "reorder_goal F t position =
     bind_act (found (\<lambda>d. map_option g_phase (List.find (\<lambda>g. g_text g = t) (goals_data d))) (NotFoundError ''Goal'' t))
       (reorder_entity F goals_table t position)"

definition move_goal_to_phase_position :: "'k frac \<Rightarrow> string \<Rightarrow> string \<Rightarrow> string option \<Rightarrow> unit store_act" where
  "move_goal_to_phase_position F t phase position =
     bind_act (found (phase_row_id phase) (NotFoundError ''Target phase'' phase)) (\<lambda>p.
       move_entity_to_parent F goals_table t position p ''Goal'')"

definition move_goal_to_phase :: "'k frac \<Rightarrow> string \<Rightarrow> string \<Rightarrow> unit store_act" where
  "move_goal_to_phase F t phase = move_goal_to_phase_position F t phase None"

end
