(* ===== verification/Plan_Tasks.thy ===== *)
theory Plan_Tasks
  imports Plan_Writer
begin

text \<open>
  Tasks and how they are named: \<open>sqlite_writer.rs\<close> resolves a task by its text id, by an alias
  or by a goal-qualified \<open>goal::task\<close> form of either, refuses a handle any of these forms of
  which another task owns, and renames a task by turning its old handle into an alias.
\<close>

section \<open>References\<close>

record resolved_task =
  rt_row :: int
  rt_task :: string
  rt_title :: string
  rt_goal :: string
  rt_phase :: string
  rt_phase_status :: string

definition goal_qualified :: "string \<Rightarrow> string \<Rightarrow> string" where
  "goal_qualified g t = g @ ''::'' @ t"

definition entity_aliases_for_row :: "entity_kind \<Rightarrow> int \<Rightarrow> store \<Rightarrow> string list" where
  "entity_aliases_for_row k i d = map a_alias (filter (\<lambda>a. a_kind a = k \<and> a_entity a = i) (entity_aliases d))"

definition resolve_goal_row_id :: "string \<Rightarrow> store \<Rightarrow> int option" where
  "resolve_goal_row_id reference d =
     (case goal_row_id reference d of
        Some i \<Rightarrow> Some i
      | None \<Rightarrow> map_option a_entity (List.find (\<lambda>a. a_kind a = GoalKind \<and> a_alias a = reference) (entity_aliases d)))"

text \<open>The inner join of a task with its goal and phase.\<close>

definition task_context :: "store \<Rightarrow> task_row \<Rightarrow> resolved_task option" where
  "task_context d t =
     Option.bind (List.find (\<lambda>g. g_id g = t_goal t) (goals_data d)) (\<lambda>g.
       map_option (\<lambda>p. \<lparr>rt_row = t_id t, rt_task = t_text t, rt_title = t_title t, rt_goal = g_text g, rt_phase = p_text p,
           rt_phase_status = p_status p\<rparr>)
         (List.find (\<lambda>p. p_id p = g_phase g) (phases_data d)))"

definition query_task_reference :: "string \<Rightarrow> int option \<Rightarrow> bool \<Rightarrow> store \<Rightarrow> resolved_task option" where
  "query_task_reference reference goal use_alias d =
     (let hit = (\<lambda>t. (if use_alias then reference \<in> set (entity_aliases_for_row TaskKind (t_id t) d) else t_text t = reference)
          \<and> (case goal of None \<Rightarrow> True | Some g \<Rightarrow> t_goal t = g))
      in case List.map_filter (\<lambda>t. if hit t then task_context d t else None) (tasks_data d) of
          [] \<Rightarrow> None | x # _ \<Rightarrow> Some x)"

definition first_some :: "'a option \<Rightarrow> 'a option \<Rightarrow> 'a option" where
  "first_some x y = (case x of None \<Rightarrow> y | Some _ \<Rightarrow> x)"

definition resolve_task_reference :: "string \<Rightarrow> store \<Rightarrow> resolved_task option" where
  "resolve_task_reference reference d =
     first_some
       (case split_once ''::'' reference of
          None \<Rightarrow> None
        | Some (g, t) \<Rightarrow> Option.bind (resolve_goal_row_id g d) (\<lambda>i.
            first_some (query_task_reference t (Some i) False d) (query_task_reference t (Some i) True d)))
       (first_some (query_task_reference reference None False d) (query_task_reference reference None True d))"

definition resolve_task_row :: "string \<Rightarrow> int store_act" where
  "resolve_task_row t = found (\<lambda>d. map_option rt_row (resolve_task_reference t d)) (NotFoundError ''Task'' t)"

definition resolve_goal_reference :: "string \<Rightarrow> string option store_act" where
  "resolve_goal_reference reference =
     bind_act (ask (resolve_goal_row_id reference)) (\<lambda>row. case row of
       None \<Rightarrow> ok None
     | Some i \<Rightarrow> bind_act (found (\<lambda>d. map_option g_text (List.find (\<lambda>g. g_id g = i) (goals_data d))) (RowNotFound i)) (\<lambda>t. ok (Some t)))"

text \<open>The rows a handle is owned by: the union of the six queries.\<close>

definition task_handle_owners :: "string \<Rightarrow> store \<Rightarrow> int list" where
  "task_handle_owners h d =
     remdups (map t_id (filter (\<lambda>t. t_text t = h) (tasks_data d))
       @ map a_entity (filter (\<lambda>a. a_kind a = TaskKind \<and> a_alias a = h) (entity_aliases d))
       @ map t_id (filter (\<lambda>t.
           list_ex (\<lambda>g. g_id g = t_goal t \<and> goal_qualified (g_text g) (t_text t) = h) (goals_data d)
         \<or> list_ex (\<lambda>ga. goal_qualified ga (t_text t) = h) (entity_aliases_for_row GoalKind (t_goal t) d)
         \<or> list_ex (\<lambda>g. g_id g = t_goal t \<and>
               list_ex (\<lambda>ta. goal_qualified (g_text g) ta = h) (entity_aliases_for_row TaskKind (t_id t) d)) (goals_data d)
         \<or> list_ex (\<lambda>ga. list_ex (\<lambda>ta. goal_qualified ga ta = h) (entity_aliases_for_row TaskKind (t_id t) d))
             (entity_aliases_for_row GoalKind (t_goal t) d)) (tasks_data d)))"

definition goal_reference_handles :: "int \<Rightarrow> string list store_act" where
  "goal_reference_handles i =
     bind_act (ask (entity_aliases_for_row GoalKind i)) (\<lambda>handles.
     bind_act (found (\<lambda>d. map_option g_text (List.find (\<lambda>g. g_id g = i) (goals_data d))) (RowNotFound i)) (\<lambda>t.
       ok (handles @ [t])))"

definition task_handle_conflicts :: "int \<Rightarrow> string \<Rightarrow> int option \<Rightarrow> bool store_act" where
  "task_handle_conflicts goal h allowed =
     bind_act (goal_reference_handles goal) (\<lambda>goal_handles.
       ask (\<lambda>d. list_ex (\<lambda>r. list_ex (\<lambda>owner. Some owner \<noteq> allowed) (task_handle_owners r d))
         (h # map (\<lambda>g. goal_qualified g h) goal_handles)))"

definition task_handle_conflicts_for_goal :: "string \<Rightarrow> string \<Rightarrow> int \<Rightarrow> bool store_act" where
  "task_handle_conflicts_for_goal goal h row =
     bind_act (found (resolve_goal_row_id goal) (NotFoundError ''Goal'' goal)) (\<lambda>g. task_handle_conflicts g h (Some row))"

section \<open>Operations\<close>

definition add_task :: "'k frac \<Rightarrow> string \<Rightarrow> string \<Rightarrow> string \<Rightarrow> string option \<Rightarrow> string store_act" where
  "add_task F goal task title notes =
     bind_act (resolve_goal goal) (\<lambda>g.
     bind_act (task_handle_conflicts g task None) (\<lambda>conflict.
       if conflict then err (InvalidHandle task)
       else bind_act (append_sort_key F tasks_table g) (\<lambda>key.
       bind_act (insert_task \<lparr>t_id = 0, t_text = task, t_title = title, t_status = ''pending'', t_goal = g, t_completed_at = None,
         t_completion_log = None, t_slug = None, t_key = Some key, t_notes = notes, t_started_at = None\<rparr>) (\<lambda>_. ok task))))"

definition rename_task_handle :: "int \<Rightarrow> string \<Rightarrow> string \<Rightarrow> unit store_act" where
  "rename_task_handle row old new =
     bind_act (found (\<lambda>d. Option.bind (List.find (\<lambda>t. t_id t = row) (tasks_data d)) (\<lambda>t.
         List.find (\<lambda>g. g_id g = t_goal t) (goals_data d))) (RowNotFound row)) (\<lambda>g.
     bind_act (ask (\<lambda>d. entity_aliases_for_row TaskKind row d @ [old])) (\<lambda>task_handles.
     bind_act (ask (\<lambda>d. entity_aliases_for_row GoalKind (g_id g) d @ [g_text g])) (\<lambda>goal_handles.
     bind_act (ask (\<lambda>d. filter (\<lambda>r. task_handle_owners r d \<noteq> [] \<and> list_all (\<lambda>o'. o' = row) (task_handle_owners r d))
         (bset_of (concat (map (\<lambda>t. t # map (\<lambda>g. goal_qualified g t) goal_handles) task_handles))))) (\<lambda>owned.
       savepoint (
         bind_act (delete_aliases (\<lambda>a. a_kind a = TaskKind \<and> a_entity a = row \<and> a_alias a = new)) (\<lambda>_.
         bind_act (demand (\<lambda>d. list_all (\<lambda>t. t_text t = new \<longrightarrow> t_id t = row) (tasks_data d)
             \<or> \<not> list_ex (\<lambda>t. t_id t = row \<and> t_text t = old) (tasks_data d)) SqlConstraint) (\<lambda>_.
         bind_act (update_tasks (\<lambda>t. t_id t = row \<and> t_text t = old) (t_text_update (\<lambda>_. new))) (\<lambda>renamed.
           if renamed \<noteq> 1 then err (TaskChanged old)
           else
             bind_act (for_each (\<lambda>r. change (entity_refs_update (map (\<lambda>x.
               if ref_type x = ''task'' \<and> ref_entity x = Some r then x\<lparr>ref_entity := Some new\<rparr> else x)))) owned) (\<lambda>_.
               insert_alias TaskKind row old)))))))))"

definition remove_task_by_row_id :: "int \<Rightarrow> unit store_act" where
  "remove_task_by_row_id row =
     bind_act (delete_aliases (\<lambda>a. a_kind a = TaskKind \<and> a_entity a = row)) (\<lambda>_.
     bind_act (delete_task row) (\<lambda>n. if n = 0 then err (RowNotFound row) else ok ()))"

definition expect_task :: "int \<Rightarrow> nat store_act \<Rightarrow> unit store_act" where
  "expect_task row m = bind_act m (\<lambda>n. if n = 0 then err (RowNotFound row) else ok ())"

definition update_task_status_by_row_id :: "string \<Rightarrow> int \<Rightarrow> string \<Rightarrow> unit store_act" where
  "update_task_status_by_row_id now row status =
     expect_task row
       (if status = ''in-progress'' then
          update_tasks (\<lambda>t. t_id t = row) (\<lambda>t. t\<lparr>t_status := status,
            t_started_at := (case t_started_at t of Some x \<Rightarrow> Some x | None \<Rightarrow> Some now)\<rparr>)
        else update_tasks (\<lambda>t. t_id t = row) (t_status_update (\<lambda>_. status)))"

definition update_task_title_by_row_id :: "int \<Rightarrow> string \<Rightarrow> unit store_act" where
  "update_task_title_by_row_id row title = expect_task row (update_tasks (\<lambda>t. t_id t = row) (t_title_update (\<lambda>_. title)))"

definition complete_task_by_row_id :: "string \<Rightarrow> int \<Rightarrow> string \<Rightarrow> unit store_act" where
  "complete_task_by_row_id now row log =
     expect_task row (update_tasks (\<lambda>t. t_id t = row) (\<lambda>t. t\<lparr>t_status := ''completed'', t_completion_log := Some log,
       t_completed_at := Some now\<rparr>))"

definition task_exists :: "int \<Rightarrow> unit store_act" where
  "task_exists row = demand (\<lambda>d. row \<in> set (map t_id (tasks_data d))) SqlConstraint"

definition add_task_log_by_row_id :: "int \<Rightarrow> string \<Rightarrow> string \<Rightarrow> unit store_act" where
  "add_task_log_by_row_id row kind message = bind_act (task_exists row) (\<lambda>_.
     change (task_logs_update (\<lambda>ls. ls @ [\<lparr>log_task = row, log_kind = kind, log_message = message\<rparr>])))"

definition reorder_task_by_row_id :: "'k frac \<Rightarrow> int \<Rightarrow> string \<Rightarrow> unit store_act" where
  "reorder_task_by_row_id F row position =
     bind_act (found (\<lambda>d. List.find (\<lambda>t. t_id t = row) (tasks_data d)) (RowNotFound row)) (\<lambda>t.
       reorder_entity F tasks_table (t_text t) position (t_goal t))"

text \<open>The same by reference.\<close>

definition remove_task :: "string \<Rightarrow> unit store_act" where
  "remove_task t = bind_act (resolve_task_row t) remove_task_by_row_id"

definition update_task_status :: "string \<Rightarrow> string \<Rightarrow> string \<Rightarrow> unit store_act" where
  "update_task_status now t status = bind_act (resolve_task_row t) (\<lambda>row. update_task_status_by_row_id now row status)"

definition update_task_title :: "string \<Rightarrow> string \<Rightarrow> unit store_act" where
  "update_task_title t title = bind_act (resolve_task_row t) (\<lambda>row. update_task_title_by_row_id row title)"

definition complete_task :: "string \<Rightarrow> string \<Rightarrow> string \<Rightarrow> unit store_act" where
  "complete_task now t log = bind_act (resolve_task_row t) (\<lambda>row. complete_task_by_row_id now row log)"

definition add_task_log :: "string \<Rightarrow> string \<Rightarrow> string \<Rightarrow> unit store_act" where
  "add_task_log t kind message = bind_act (resolve_task_row t) (\<lambda>row. add_task_log_by_row_id row kind message)"

definition add_task_verification :: "string \<Rightarrow> string \<Rightarrow> string option \<Rightarrow> string \<Rightarrow> string option \<Rightarrow> unit store_act" where
  "add_task_verification t kind command result detail =
     bind_act (resolve_task_row t) (\<lambda>row. bind_act (task_exists row) (\<lambda>_.
       change (task_verifications_update (\<lambda>vs. vs @ [\<lparr>v_task = row, v_kind = kind, v_command = command, v_result = result,
         v_details = detail\<rparr>]))))"

definition reorder_task :: "'k frac \<Rightarrow> string \<Rightarrow> string \<Rightarrow> unit store_act" where
  "reorder_task F t position = bind_act (resolve_task_row t) (\<lambda>row. reorder_task_by_row_id F row position)"

end
