(* ===== verification/Plan_Invariants.thy ===== *)
theory Plan_Invariants
  imports Plan_Tasks
begin

text \<open>
  What every write to the plan keeps: ids and text ids are unique, foreign keys and aliases name
  rows that exist, every row satisfies its table's checks, and a workspace focuses a lane only
  while the lane's phase is in progress.
\<close>

section \<open>The invariant\<close>

definition kind_ids :: "entity_kind \<Rightarrow> store \<Rightarrow> int list" where
  "kind_ids k d = (case k of EpochKind \<Rightarrow> map e_id (epochs_data d) | PhaseKind \<Rightarrow> map p_id (phases_data d)
     | GoalKind \<Rightarrow> map g_id (goals_data d) | TaskKind \<Rightarrow> map t_id (tasks_data d))"

definition unique_ok :: "store \<Rightarrow> bool" where
  "unique_ok d \<longleftrightarrow>
     distinct (map e_id (epochs_data d)) \<and> distinct (map e_text (epochs_data d)) \<and>
     distinct (map p_id (phases_data d)) \<and> distinct (map p_text (phases_data d)) \<and>
     distinct (map g_id (goals_data d)) \<and> distinct (map g_text (goals_data d)) \<and>
     distinct (map t_id (tasks_data d)) \<and> distinct (map t_text (tasks_data d)) \<and>
     distinct (map l_id (lanes_data d)) \<and> distinct (map l_text (lanes_data d)) \<and>
     distinct (map (\<lambda>a. (a_kind a, a_alias a)) (entity_aliases d)) \<and>
     distinct (map pin_root (active_phase_data d)) \<and> distinct (map focus_root (lane_focus_data d))"

definition refers :: "('a \<Rightarrow> int) \<Rightarrow> 'a list \<Rightarrow> ('b \<Rightarrow> int) \<Rightarrow> 'b list \<Rightarrow> bool" where
  "refers fk xs pk ys \<longleftrightarrow> set (map fk xs) \<subseteq> set (map pk ys)"

definition foreign_ok :: "store \<Rightarrow> bool" where
  "foreign_ok d \<longleftrightarrow>
     refers p_epoch (phases_data d) e_id (epochs_data d) \<and>
     refers g_phase (goals_data d) p_id (phases_data d) \<and>
     refers t_goal (tasks_data d) g_id (goals_data d) \<and>
     refers r_phase (phase_rfcs_data d) p_id (phases_data d) \<and>
     refers l_phase (lanes_data d) p_id (phases_data d) \<and>
     refers pin_phase (active_phase_data d) p_id (phases_data d) \<and>
     refers focus_lane (lane_focus_data d) l_id (lanes_data d) \<and>
     refers log_task (task_logs d) t_id (tasks_data d) \<and>
     refers v_task (task_verifications d) t_id (tasks_data d)"

definition aliases_of_kind :: "entity_kind \<Rightarrow> store \<Rightarrow> alias_row list" where
  "aliases_of_kind k d = filter (\<lambda>a. a_kind a = k) (entity_aliases d)"

definition aliases_ok :: "store \<Rightarrow> bool" where
  "aliases_ok d \<longleftrightarrow>
     refers a_entity (aliases_of_kind EpochKind d) e_id (epochs_data d) \<and>
     refers a_entity (aliases_of_kind PhaseKind d) p_id (phases_data d) \<and>
     refers a_entity (aliases_of_kind GoalKind d) g_id (goals_data d) \<and>
     refers a_entity (aliases_of_kind TaskKind d) t_id (tasks_data d)"

definition checks_ok :: "store \<Rightarrow> bool" where
  "checks_ok d \<longleftrightarrow> list_all phase_check (phases_data d) \<and> list_all goal_check (goals_data d) \<and>
     list_all task_check (tasks_data d) \<and> list_all rfc_check (phase_rfcs_data d) \<and> list_all lane_check (lanes_data d)"

definition store_ok :: "store \<Rightarrow> bool" where
  "store_ok d \<longleftrightarrow> unique_ok d \<and> foreign_ok d \<and> aliases_ok d \<and> checks_ok d"

lemmas store_defs = store_ok_def unique_ok_def foreign_ok_def refers_def aliases_ok_def aliases_of_kind_def checks_ok_def

lemma store_ok_empty: "store_ok empty_store"
  by (simp add: store_defs empty_store_def)

section \<open>Statements\<close>

lemma next_id_fresh: "next_id is \<notin> set is"
proof -
  have "x \<le> foldr max is 0" if "x \<in> set is" for x using that by (induction "is") auto
  then show ?thesis unfolding next_id_def by force
qed

lemma next_id_fresh_map [simp]: "next_id (map f xs) \<notin> f ` set xs"
  using next_id_fresh [of "map f xs"] by simp

lemma map_upd: "(\<And>r. h (f r) = h r) \<Longrightarrow> map h (upd P f xs) = map h xs"
  by (simp add: upd_def)

lemma image_upd: "(\<And>r. h (f r) = h r) \<Longrightarrow> h ` set (upd P f xs) = h ` set xs"
  using map_upd [of h f P xs] by (metis list.set_map)

lemma set_upd: "set (upd P f xs) = f ` {r \<in> set xs. P r} \<union> {r \<in> set xs. \<not> P r}"
  by (auto simp: upd_def)

lemma list_all_upd: "list_all good xs \<Longrightarrow> \<not> list_ex (\<lambda>r. P r \<and> \<not> good (f r)) xs \<Longrightarrow> list_all good (upd P f xs)"
  by (auto simp: upd_def list_all_iff list_ex_iff)

lemma wp_update_rows:
  "wp (update_rows get put good P f) Q E d =
     (if list_ex (\<lambda>r. P r \<and> \<not> good (f r)) (get d) then E d else Q (length (filter P (get d))) (put (upd P f) d))"
  by (simp add: wp_def update_rows_def)

lemma wp_bindI: "wp m Q' E w \<Longrightarrow> (\<And>x w. Q' x w \<Longrightarrow> wp (f x) Q E w) \<Longrightarrow> wp (bind_act m f) Q E w"
  by (simp, rule wp_mono)

lemma keeps_update_epochs [keeps_intros]:
  "(\<And>r. e_id (f r) = e_id r) \<Longrightarrow> (\<And>r. e_text (f r) = e_text r) \<Longrightarrow> keeps store_ok (update_epochs P f)"
  unfolding update_epochs_def
  by (rule keepsI) (auto simp: wp_update_rows store_defs map_upd image_upd)

lemma wp_update_phases:
  assumes "store_ok d" "\<And>r. p_id (f r) = p_id r" "\<And>r. p_text (f r) = p_text r"
    "\<And>r. p_epoch (f r) = p_epoch r \<or> p_epoch (f r) \<in> e_id ` set (epochs_data d)"
  shows "wp (update_phases P f) (\<lambda>_. store_ok) store_ok d"
proof -
  have "p_epoch ` set (upd P f (phases_data d)) \<subseteq> e_id ` set (epochs_data d)"
    using assms(1,4) by (auto simp: set_upd store_defs) (metis image_eqI subsetD)?
  with assms(1-3) show ?thesis
    unfolding update_phases_def
    by (auto simp: wp_update_rows store_defs map_upd image_upd list_all_upd)
qed

lemma wp_update_goals:
  assumes "store_ok d" "\<And>r. g_id (f r) = g_id r" "\<And>r. g_text (f r) = g_text r"
    "\<And>r. g_phase (f r) = g_phase r \<or> g_phase (f r) \<in> p_id ` set (phases_data d)"
  shows "wp (update_goals P f) (\<lambda>_. store_ok) store_ok d"
proof -
  have "g_phase ` set (upd P f (goals_data d)) \<subseteq> p_id ` set (phases_data d)"
    using assms(1,4) by (auto simp: set_upd store_defs) (metis image_eqI subsetD)?
  with assms(1-3) show ?thesis
    unfolding update_goals_def
    by (auto simp: wp_update_rows store_defs map_upd image_upd list_all_upd)
qed

lemma wp_update_tasks:
  assumes "store_ok d" "\<And>r. t_id (f r) = t_id r" "distinct (map t_text (upd P f (tasks_data d)))"
    "\<And>r. t_goal (f r) = t_goal r \<or> t_goal (f r) \<in> g_id ` set (goals_data d)"
  shows "wp (update_tasks P f) (\<lambda>_. store_ok) store_ok d"
proof -
  have "t_goal ` set (upd P f (tasks_data d)) \<subseteq> g_id ` set (goals_data d)"
    using assms(1,4) by (auto simp: set_upd store_defs) (metis image_eqI subsetD)?
  with assms(1-3) show ?thesis
    unfolding update_tasks_def
    by (auto simp: wp_update_rows store_defs map_upd image_upd list_all_upd)
qed

lemma keeps_update_phases [keeps_intros]:
  "(\<And>r. p_id (f r) = p_id r) \<Longrightarrow> (\<And>r. p_text (f r) = p_text r) \<Longrightarrow> (\<And>r. p_epoch (f r) = p_epoch r) \<Longrightarrow>
   keeps store_ok (update_phases P f)"
  by (rule keepsI, rule wp_update_phases) auto

lemma keeps_update_goals [keeps_intros]:
  "(\<And>r. g_id (f r) = g_id r) \<Longrightarrow> (\<And>r. g_text (f r) = g_text r) \<Longrightarrow> (\<And>r. g_phase (f r) = g_phase r) \<Longrightarrow>
   keeps store_ok (update_goals P f)"
  by (rule keepsI, rule wp_update_goals) auto

lemma keeps_update_tasks [keeps_intros]:
  "(\<And>r. t_id (f r) = t_id r) \<Longrightarrow> (\<And>r. t_text (f r) = t_text r) \<Longrightarrow> (\<And>r. t_goal (f r) = t_goal r) \<Longrightarrow>
   keeps store_ok (update_tasks P f)"
  by (rule keepsI, rule wp_update_tasks) (auto simp: map_upd store_defs)

lemma keeps_update_lanes [keeps_intros]:
  "(\<And>r. l_id (f r) = l_id r) \<Longrightarrow> (\<And>r. l_text (f r) = l_text r) \<Longrightarrow> (\<And>r. l_phase (f r) = l_phase r) \<Longrightarrow>
   keeps store_ok (update_lanes P f)"
  unfolding update_lanes_def
  by (rule keepsI) (auto simp: wp_update_rows store_defs map_upd image_upd list_all_upd)

text \<open>An insert yields the id of a row that exists.\<close>

lemma check_ids [simp]:
  "phase_check (p\<lparr>p_id := i\<rparr>) = phase_check p" "goal_check (g\<lparr>g_id := i\<rparr>) = goal_check g"
  "task_check (t\<lparr>t_id := i\<rparr>) = task_check t" "rfc_check (r\<lparr>r_id := i\<rparr>) = rfc_check r"
  "lane_check (l\<lparr>l_id := i\<rparr>) = lane_check l"
  by (simp_all add: phase_check_def goal_check_def task_check_def rfc_check_def lane_check_def)

lemma wp_insert_epoch:
  "store_ok d \<Longrightarrow> wp (insert_epoch r) (\<lambda>i d. store_ok d \<and> i \<in> set (kind_ids EpochKind d)) store_ok d"
  unfolding insert_epoch_def by (auto simp: store_defs kind_ids_def)

lemma wp_insert_phase:
  "store_ok d \<Longrightarrow> wp (insert_phase r) (\<lambda>i d. store_ok d \<and> i \<in> set (kind_ids PhaseKind d)) store_ok d"
  unfolding insert_phase_def by (auto simp: store_defs kind_ids_def)

lemma wp_insert_goal:
  "store_ok d \<Longrightarrow> wp (insert_goal r) (\<lambda>i d. store_ok d \<and> i \<in> set (kind_ids GoalKind d)) store_ok d"
  unfolding insert_goal_def by (auto simp: store_defs kind_ids_def)

lemma wp_insert_task:
  "store_ok d \<Longrightarrow> wp (insert_task r) (\<lambda>i d. store_ok d \<and> i \<in> set (kind_ids TaskKind d)) store_ok d"
  unfolding insert_task_def by (auto simp: store_defs kind_ids_def)

lemma keeps_insert_rfc [keeps_intros]: "keeps store_ok (insert_phase_rfc r)"
  unfolding insert_phase_rfc_def by (rule keepsI) (auto simp: store_defs)

lemma keeps_insert_lane [keeps_intros]: "keeps store_ok (insert_lane r)"
  unfolding insert_lane_def by (rule keepsI) (auto simp: store_defs)

lemma wp_insert_alias:
  "store_ok d \<Longrightarrow> i \<in> set (kind_ids k d) \<Longrightarrow>
   wp (insert_alias k i a) (\<lambda>_ d. store_ok d \<and> i \<in> set (kind_ids k d)) store_ok d"
  unfolding insert_alias_def by (cases k) (auto simp: store_defs kind_ids_def)

lemma wp_insert_aliases:
  assumes "store_ok d" "i \<in> set (kind_ids k d)"
  shows "wp (for_each (insert_alias k i) as) (\<lambda>_. store_ok) store_ok d"
  by (rule wp_for_each [where I = "\<lambda>d. store_ok d \<and> i \<in> set (kind_ids k d)"])
    (use assms wp_insert_alias in auto)

section \<open>Deletes\<close>

lemma refers_filter:
  "refers fk xs pk ys \<Longrightarrow> (\<And>x. x \<in> set xs \<Longrightarrow> P x \<Longrightarrow> fk x \<notin> D) \<Longrightarrow>
   refers fk (filter P xs) pk (filter (\<lambda>y. pk y \<notin> D) ys)"
  unfolding refers_def by force

lemma refers_keep: "refers fk xs pk ys \<Longrightarrow> (\<And>x. x \<in> set xs \<Longrightarrow> fk x \<notin> D) \<Longrightarrow>
   refers fk xs pk (filter (\<lambda>y. pk y \<notin> D) ys)"
  unfolding refers_def by force

lemma refers_filter_left: "refers fk xs pk ys \<Longrightarrow> refers fk (filter P xs) pk ys"
  unfolding refers_def by auto

lemmas drop_defs = drop_epochs_def drop_phases_def drop_goals_def drop_tasks_def

lemma drop_unique: "unique_ok d \<Longrightarrow> unique_ok (drop_epochs is d)" "unique_ok d \<Longrightarrow> unique_ok (drop_phases is d)"
  "unique_ok d \<Longrightarrow> unique_ok (drop_goals is d)" "unique_ok d \<Longrightarrow> unique_ok (drop_tasks is d)"
  by (simp_all add: unique_ok_def drop_defs distinct_map_filter)

lemma drop_checks: "checks_ok d \<Longrightarrow> checks_ok (drop_epochs is d)" "checks_ok d \<Longrightarrow> checks_ok (drop_phases is d)"
  "checks_ok d \<Longrightarrow> checks_ok (drop_goals is d)" "checks_ok d \<Longrightarrow> checks_ok (drop_tasks is d)"
  by (simp_all add: checks_ok_def drop_defs list_all_iff)

text \<open>Which rows a deletion takes, and that no alias names one of them.\<close>

definition unaliased :: "entity_kind \<Rightarrow> int list \<Rightarrow> store \<Rightarrow> bool" where
  "unaliased k is d \<longleftrightarrow> (\<forall>a \<in> set (entity_aliases d). a_kind a = k \<longrightarrow> a_entity a \<notin> set is)"

lemma drop_tasks_ok:
  assumes "store_ok d" "unaliased TaskKind is d"
  shows "store_ok (drop_tasks is d)"
proof -
  have "foreign_ok (drop_tasks is d)"
    using assms(1) unfolding store_ok_def foreign_ok_def drop_defs
    by (auto intro!: refers_filter refers_keep intro: refers_filter_left)
  moreover have "aliases_ok (drop_tasks is d)"
    using assms unfolding store_ok_def aliases_ok_def aliases_of_kind_def drop_defs unaliased_def
    by (auto intro!: refers_keep)
  ultimately show ?thesis using assms(1) by (simp add: store_ok_def drop_unique drop_checks)
qed

lemma drop_goals_ok:
  assumes "store_ok d" "unaliased GoalKind is d" "unaliased TaskKind (tasks_under is d) d"
  shows "store_ok (drop_goals is d)"
proof -
  have "foreign_ok (drop_goals is d)"
    using assms(1) unfolding store_ok_def foreign_ok_def drop_defs
    by (auto intro!: refers_filter refers_keep intro: refers_filter_left)
  moreover have "aliases_ok (drop_goals is d)"
    using assms unfolding store_ok_def aliases_ok_def aliases_of_kind_def drop_defs unaliased_def tasks_under_def
    by (auto intro!: refers_keep)
  ultimately show ?thesis using assms(1) by (simp add: store_ok_def drop_unique drop_checks)
qed

lemma drop_phases_ok:
  assumes "store_ok d" "unaliased PhaseKind is d" "unaliased GoalKind (goals_under is d) d"
    "unaliased TaskKind (tasks_under (goals_under is d) d) d" "unrestricted is d"
  shows "store_ok (drop_phases is d)"
proof -
  have "foreign_ok (drop_phases is d)"
    using assms(1,5) unfolding store_ok_def foreign_ok_def drop_defs unrestricted_def list_all_iff
    by (auto intro!: refers_filter refers_keep intro: refers_filter_left)
  moreover have "aliases_ok (drop_phases is d)"
    using assms(1-4) unfolding store_ok_def aliases_ok_def aliases_of_kind_def drop_defs unaliased_def tasks_under_def goals_under_def
    by (auto intro!: refers_keep)
  ultimately show ?thesis using assms(1) by (simp add: store_ok_def drop_unique drop_checks)
qed

lemma drop_epochs_ok:
  assumes "store_ok d" "unaliased EpochKind is d" "unaliased PhaseKind (phases_under is d) d"
    "unaliased GoalKind (goals_under (phases_under is d) d) d"
    "unaliased TaskKind (tasks_under (goals_under (phases_under is d) d) d) d" "unrestricted (phases_under is d) d"
  shows "store_ok (drop_epochs is d)"
proof -
  have "foreign_ok (drop_epochs is d)"
    using assms(1,6) unfolding store_ok_def foreign_ok_def drop_defs unrestricted_def phases_under_def list_all_iff
    by (auto intro!: refers_filter refers_keep intro: refers_filter_left)
  moreover have "aliases_ok (drop_epochs is d)"
    using assms(1-5) unfolding store_ok_def aliases_ok_def aliases_of_kind_def drop_defs unaliased_def
      tasks_under_def goals_under_def phases_under_def
    by (auto intro!: refers_keep)
  ultimately show ?thesis using assms(1) by (simp add: store_ok_def drop_unique drop_checks)
qed

end
