(* ===== verification/Plan_Keeps.thy ===== *)
theory Plan_Keeps
  imports Plan_Invariants
begin

text \<open>
  Every operation of the writer keeps the invariant of the store.
\<close>

section \<open>Deletes with their aliases\<close>

lemma store_ok_fewer_aliases: "store_ok d \<Longrightarrow> store_ok (entity_aliases_update (filter P) d)"
  by (auto simp: store_ok_def unique_ok_def foreign_ok_def aliases_ok_def aliases_of_kind_def checks_ok_def
      distinct_map_filter refers_def)

lemma keeps_delete_aliases [keeps_intros]: "keeps store_ok (delete_aliases P)"
  by (rule keepsI) (simp add: delete_aliases_def store_ok_fewer_aliases)

lemma wp_delete_kind_aliases:
  "wp (delete_kind_aliases k q) Q E d =
     Q () (entity_aliases_update (filter (\<lambda>x. \<not> (a_kind x = k \<and> a_entity x \<in> set (q d)))) d)"
  by (simp add: delete_kind_aliases_def delete_aliases_def)

lemma under_aliases [simp]:
  "phases_under is (entity_aliases_update f d) = phases_under is d"
  "goals_under is (entity_aliases_update f d) = goals_under is d"
  "tasks_under is (entity_aliases_update f d) = tasks_under is d"
  "unrestricted is (entity_aliases_update f d) = unrestricted is d"
  by (simp_all add: phases_under_def goals_under_def tasks_under_def unrestricted_def)

lemma unaliased_update:
  "unaliased k is (entity_aliases_update f d) \<longleftrightarrow> (\<forall>a \<in> set (f (entity_aliases d)). a_kind a = k \<longrightarrow> a_entity a \<notin> set is)"
  by (simp add: unaliased_def)

text \<open>What deleting the aliases of an entity leaves: the store with fewer aliases, none on the way down.\<close>

lemma wp_delete_epoch_aliases:
  assumes "\<And>P d'. d' = entity_aliases_update (filter P) d \<Longrightarrow> unaliased EpochKind [i] d' \<Longrightarrow> unaliased PhaseKind (phases_under [i] d') d' \<Longrightarrow>
    unaliased GoalKind (goals_under (phases_under [i] d') d') d' \<Longrightarrow>
    unaliased TaskKind (tasks_under (goals_under (phases_under [i] d') d') d') d' \<Longrightarrow> Q () d'"
  shows "wp (delete_entity_aliases EpochKind (Some i)) Q E d"
  by (simp add: delete_entity_aliases_def wp_delete_kind_aliases comp_def, rule assms)
    (auto simp: unaliased_update fun_eq_iff intro: arg_cong [where f = "\<lambda>g. entity_aliases_update g d"])

lemma wp_delete_phase_aliases:
  assumes "\<And>P d'. d' = entity_aliases_update (filter P) d \<Longrightarrow> unaliased PhaseKind [i] d' \<Longrightarrow> unaliased GoalKind (goals_under [i] d') d' \<Longrightarrow>
    unaliased TaskKind (tasks_under (goals_under [i] d') d') d' \<Longrightarrow> Q () d'"
  shows "wp (delete_entity_aliases PhaseKind (Some i)) Q E d"
  by (simp add: delete_entity_aliases_def wp_delete_kind_aliases comp_def, rule assms)
    (auto simp: unaliased_update fun_eq_iff intro: arg_cong [where f = "\<lambda>g. entity_aliases_update g d"])

lemma wp_delete_goal_aliases:
  assumes "\<And>P d'. d' = entity_aliases_update (filter P) d \<Longrightarrow> unaliased GoalKind [i] d' \<Longrightarrow> unaliased TaskKind (tasks_under [i] d') d' \<Longrightarrow> Q () d'"
  shows "wp (delete_entity_aliases GoalKind (Some i)) Q E d"
  by (simp add: delete_entity_aliases_def wp_delete_kind_aliases comp_def, rule assms)
    (auto simp: unaliased_update fun_eq_iff intro: arg_cong [where f = "\<lambda>g. entity_aliases_update g d"])

lemma found_unique:
  "distinct (map text rows) \<Longrightarrow>
   filter (\<lambda>r. text r = t) rows = (case List.find (\<lambda>r. text r = t) rows of None \<Rightarrow> [] | Some r \<Rightarrow> [r])"
proof (induction rows)
  case (Cons r rows)
  then show ?case by (auto simp: filter_empty_conv split: option.splits dest!: find_SomeD) (metis image_eqI)?
qed simp

section \<open>Removing an entity\<close>

lemmas store_ok_unique = store_ok_def unique_ok_def

lemma keeps_remove_epoch [keeps_intros]: "keeps store_ok (remove_epoch t)"
proof (rule keepsI)
  fix d assume d: "store_ok d"
  then have u: "filter (\<lambda>e. e_text e = t) (epochs_data d) =
      (case List.find (\<lambda>e. e_text e = t) (epochs_data d) of None \<Rightarrow> [] | Some e \<Rightarrow> [e])"
    by (intro found_unique) (simp add: store_ok_unique)
  show "wp (remove_epoch t) (\<lambda>_. store_ok) store_ok d"
  proof (cases "List.find (\<lambda>e. e_text e = t) (epochs_data d)")
    case None
    with d u show ?thesis
      by (simp add: remove_epoch_def epoch_row_id_def delete_entity_aliases_def expect_rows_def delete_epoch_def drop_epochs_ok
          unaliased_def phases_under_def unrestricted_def goals_under_def tasks_under_def list_all_iff)
  next
    case (Some e)
    with d u show ?thesis
      unfolding remove_epoch_def
      by (simp add: epoch_row_id_def)
        (rule wp_delete_epoch_aliases, auto simp: expect_rows_def delete_epoch_def drop_epochs_ok store_ok_fewer_aliases phases_under_def)
  qed
qed

lemma keeps_remove_phase [keeps_intros]: "keeps store_ok (remove_phase t)"
proof (rule keepsI)
  fix d assume d: "store_ok d"
  then have u: "filter (\<lambda>e. p_text e = t) (phases_data d) =
      (case List.find (\<lambda>e. p_text e = t) (phases_data d) of None \<Rightarrow> [] | Some e \<Rightarrow> [e])"
    by (intro found_unique) (simp add: store_ok_unique)
  show "wp (remove_phase t) (\<lambda>_. store_ok) store_ok d"
  proof (cases "List.find (\<lambda>e. p_text e = t) (phases_data d)")
    case None
    with d u show ?thesis
      by (simp add: remove_phase_def phase_row_id_def delete_entity_aliases_def expect_rows_def delete_phase_def drop_phases_ok
          unaliased_def unrestricted_def goals_under_def tasks_under_def list_all_iff)
  next
    case (Some e)
    with d u show ?thesis
      unfolding remove_phase_def
      by (simp add: phase_row_id_def)
        (rule wp_delete_phase_aliases, auto simp: expect_rows_def delete_phase_def drop_phases_ok store_ok_fewer_aliases)
  qed
qed

lemma keeps_remove_goal [keeps_intros]: "keeps store_ok (remove_goal t)"
proof (rule keepsI)
  fix d assume d: "store_ok d"
  then have u: "filter (\<lambda>e. g_text e = t) (goals_data d) =
      (case List.find (\<lambda>e. g_text e = t) (goals_data d) of None \<Rightarrow> [] | Some e \<Rightarrow> [e])"
    by (intro found_unique) (simp add: store_ok_unique)
  show "wp (remove_goal t) (\<lambda>_. store_ok) store_ok d"
  proof (cases "List.find (\<lambda>e. g_text e = t) (goals_data d)")
    case None
    with d u show ?thesis
      by (simp add: remove_goal_def goal_row_id_def delete_entity_aliases_def expect_rows_def delete_goal_def drop_goals_ok
          unaliased_def tasks_under_def list_all_iff)
  next
    case (Some e)
    with d u show ?thesis
      unfolding remove_goal_def
      by (simp add: goal_row_id_def)
        (rule wp_delete_goal_aliases, auto simp: expect_rows_def delete_goal_def drop_goals_ok store_ok_fewer_aliases)
  qed
qed

lemma keeps_remove_task_by_row_id [keeps_intros]: "keeps store_ok (remove_task_by_row_id row)"
  by (rule keepsI)
    (auto simp: remove_task_by_row_id_def delete_aliases_def delete_task_def intro!: drop_tasks_ok store_ok_fewer_aliases
      simp: unaliased_update)

section \<open>Small steps\<close>

lemma keeps_expect_rows [keeps_intros]: "keeps store_ok m \<Longrightarrow> keeps store_ok (expect_rows label t m)"
  unfolding expect_rows_def by (intro keeps_intros) (auto intro: keeps_intros)

lemma keeps_expect_task [keeps_intros]: "keeps store_ok m \<Longrightarrow> keeps store_ok (expect_task row m)"
  unfolding expect_task_def by (intro keeps_intros) (auto intro: keeps_intros)

lemma keeps_resolve [keeps_intros]: "keeps store_ok (resolve_epoch t)" "keeps store_ok (resolve_phase t)"
  "keeps store_ok (resolve_goal t)" "keeps store_ok (resolve_lane t)" "keeps store_ok (resolve_task_row t)"
  "keeps store_ok (lane_state_error t)" "keeps store_ok (require_lane_phase_in_progress t p)"
  unfolding resolve_epoch_def resolve_phase_def resolve_goal_def resolve_lane_def resolve_task_row_def lane_state_error_def
    require_lane_phase_in_progress_def
  by (intro keeps_intros; auto intro: keeps_intros split: option.split)+

lemma keeps_delete_focus [keeps_intros]: "keeps store_ok (delete_focus P)"
  by (rule keepsI) (auto simp: delete_focus_def store_defs distinct_map_filter)

lemma keeps_delete_lanes [keeps_intros]: "keeps store_ok (delete_lanes P)"
proof (rule keepsI)
  fix d assume d: "store_ok d"
  let ?is = "map l_id (filter P (lanes_data d))"
  have "l \<in> set (lanes_data d) \<Longrightarrow> l_id l \<notin> set ?is \<longleftrightarrow> \<not> P l" for l
    using d by (auto simp: store_ok_unique dest: eq_key_imp_eq_value inj_onD [OF distinct_map [THEN iffD1, THEN conjunct2]])
  then have "filter (\<lambda>l. \<not> P l) (lanes_data d) = filter (\<lambda>l. l_id l \<notin> set ?is) (lanes_data d)"
    by (auto intro: filter_cong)
  then have "refers focus_lane (filter (\<lambda>w. focus_lane w \<notin> set ?is) (lane_focus_data d)) l_id (filter (\<lambda>l. \<not> P l) (lanes_data d))"
    using d by (simp only:) (rule refers_filter, auto simp: store_ok_def foreign_ok_def)
  with d show "wp (delete_lanes P) (\<lambda>_. store_ok) store_ok d"
    by (simp add: delete_lanes_def store_ok_def unique_ok_def foreign_ok_def aliases_ok_def aliases_of_kind_def checks_ok_def
      distinct_map_filter refers_filter_left list_all_iff)
qed

lemma keeps_clear_focus_on [keeps_intros]: "keeps store_ok (clear_focus_on q)"
  unfolding clear_focus_on_def by (intro keeps_intros)

section \<open>Epochs and phases\<close>

text \<open>An insert together with the aliases of the new row.\<close>

lemma keeps_insert_aliased:
  assumes "\<And>d. store_ok d \<Longrightarrow> wp m (\<lambda>i d. store_ok d \<and> i \<in> set (kind_ids k d)) store_ok d"
  shows "keeps store_ok (bind_act m (\<lambda>i. bind_act (for_each (insert_alias k i) as) (\<lambda>_. ok x)))"
  by (rule keepsI, rule wp_bindI, erule assms, simp, rule wp_mono, rule wp_insert_aliases) auto

lemmas keeps_inserts = keeps_insert_aliased [OF wp_insert_epoch] keeps_insert_aliased [OF wp_insert_phase]
  keeps_insert_aliased [OF wp_insert_goal]

lemma keeps_insert_task [keeps_intros]: "keeps store_ok (insert_task r)"
  by (rule keepsI, rule wp_mono, erule wp_insert_task) auto

lemma keeps_append_sort_key [keeps_intros]: "keeps store_ok (append_sort_key F T i)"
  unfolding append_sort_key_def by (intro keeps_intros)

lemma keeps_add_epoch [keeps_intros]: "keeps store_ok (add_epoch F tid title slug as)"
  unfolding add_epoch_def by (rule keeps_inserts keeps_basic keeps_bind)+

lemma keeps_add_phase [keeps_intros]: "keeps store_ok (add_phase F tid epoch title kind slug as)"
  unfolding add_phase_def by (rule keeps_inserts keeps_basic keeps_resolve keeps_append_sort_key keeps_bind)+

lemma keeps_update_epoch_reviewed [keeps_intros]: "keeps store_ok (update_epoch_reviewed t b)"
  unfolding update_epoch_reviewed_def by (intro keeps_intros) auto

lemma keeps_update_epoch_title [keeps_intros]: "keeps store_ok (update_epoch_title t title)"
  unfolding update_epoch_title_def by (intro keeps_intros) auto

lemma keeps_bankrupt_epoch [keeps_intros]: "keeps store_ok (bankrupt_epoch t)"
  unfolding bankrupt_epoch_def by (intro keeps_intros) auto

lemma keeps_reorder_epoch [keeps_intros]: "keeps store_ok (reorder_epoch F t position)"
  unfolding reorder_epoch_def by (intro keeps_intros) auto

lemma keeps_update_phase_status [keeps_intros]: "keeps store_ok (update_phase_status now t status)"
  unfolding update_phase_status_def by (intro keeps_intros) (auto intro: keeps_intros)

lemma keeps_update_phase_title [keeps_intros]: "keeps store_ok (update_phase_title t title)"
  unfolding update_phase_title_def by (intro keeps_intros) auto

lemma keeps_replace_phase_rfcs [keeps_intros]: "keeps store_ok (replace_phase_rfcs t rfcs)"
proof -
  have "keeps store_ok (change (phase_rfcs_data_update (filter P)) :: unit store_act)" for P
    by (rule keepsI) (auto simp: store_ok_def unique_ok_def foreign_ok_def aliases_ok_def aliases_of_kind_def checks_ok_def
      refers_filter_left list_all_iff)
  then show ?thesis unfolding replace_phase_rfcs_def by (intro keeps_intros)
qed

lemma keeps_reorder_phase [keeps_intros]: "keeps store_ok (reorder_phase F t position)"
  unfolding reorder_phase_def reorder_entity_def
  by (intro keeps_intros) (auto simp: phases_table_def intro!: keeps_intros)

lemma keeps_reorder_goal [keeps_intros]: "keeps store_ok (reorder_goal F t position)"
  unfolding reorder_goal_def reorder_entity_def
  by (intro keeps_intros) (auto simp: goals_table_def intro!: keeps_intros)

lemma keeps_reorder_task_by_row_id [keeps_intros]: "keeps store_ok (reorder_task_by_row_id F row position)"
  unfolding reorder_task_by_row_id_def reorder_entity_def
  by (intro keeps_intros) (auto simp: tasks_table_def intro!: keeps_intros)

section \<open>Moves\<close>

text \<open>A moved row's new parent is a row that exists.\<close>

lemma keeps_move_phase_to_epoch [keeps_intros]: "keeps store_ok (move_phase_to_epoch F t epoch position)"
proof (rule keepsI)
  fix d assume d: "store_ok d"
  have step: "wp (update_phases P (p_key_update g \<circ> p_epoch_update (\<lambda>_. e)))
      (\<lambda>n. wp (if n = 0 then err x else ok ()) (\<lambda>_. store_ok) store_ok) store_ok d"
    if "epoch_row_id epoch d = Some e" for P g e x
    by (rule wp_mono [OF wp_update_phases]) (use d that in \<open>auto simp: epoch_row_id_def dest!: find_SomeD\<close>)
  from d show "wp (move_phase_to_epoch F t epoch position) (\<lambda>_. store_ok) store_ok d"
    by (auto simp: move_phase_to_epoch_def move_entity_to_parent_def phases_table_def split: option.split sum.split intro!: step)
qed

lemma keeps_move_goal_to_phase_position [keeps_intros]: "keeps store_ok (move_goal_to_phase_position F t phase position)"
proof (rule keepsI)
  fix d assume d: "store_ok d"
  have step: "wp (update_goals P (g_key_update g \<circ> g_phase_update (\<lambda>_. e)))
      (\<lambda>n. wp (if n = 0 then err x else ok ()) (\<lambda>_. store_ok) store_ok) store_ok d"
    if "phase_row_id phase d = Some e" for P g e x
    by (rule wp_mono [OF wp_update_goals]) (use d that in \<open>auto simp: phase_row_id_def dest!: find_SomeD\<close>)
  from d show "wp (move_goal_to_phase_position F t phase position) (\<lambda>_. store_ok) store_ok d"
    by (auto simp: move_goal_to_phase_position_def move_entity_to_parent_def goals_table_def split: option.split sum.split
      intro!: step)
qed

lemma keeps_move_goal_to_phase [keeps_intros]: "keeps store_ok (move_goal_to_phase F t phase)"
  unfolding move_goal_to_phase_def by (intro keeps_intros)

section \<open>Goals and tasks\<close>

lemma keeps_add_goal [keeps_intros]:
  "keeps store_ok (add_goal F phase goal label rfc target kind description started slug as)"
  unfolding add_goal_def by (rule keeps_inserts keeps_basic keeps_resolve keeps_append_sort_key keeps_bind)+

lemma keeps_update_goal_status [keeps_intros]: "keeps store_ok (update_goal_status t status)"
  unfolding update_goal_status_def by (intro keeps_intros) auto

lemma keeps_add_strike_goal [keeps_intros]: "keeps store_ok (add_strike_goal F now phase goal label description)"
  unfolding add_strike_goal_def by (intro keeps_intros)

lemma keeps_update_goal_label [keeps_intros]: "keeps store_ok (update_goal_label t label)"
  unfolding update_goal_label_def by (intro keeps_intros) auto

lemma keeps_update_goal_completion_log [keeps_intros]: "keeps store_ok (update_goal_completion_log t log)"
  unfolding update_goal_completion_log_def by (intro keeps_intros) auto

lemma keeps_task_handle_conflicts [keeps_intros]: "keeps store_ok (task_handle_conflicts g h allowed)"
  unfolding task_handle_conflicts_def goal_reference_handles_def by (intro keeps_intros)

lemma keeps_add_task [keeps_intros]: "keeps store_ok (add_task F goal task title notes)"
  unfolding add_task_def by (intro keeps_intros) (auto intro!: keeps_intros)

lemma keeps_update_task_status_by_row_id [keeps_intros]: "keeps store_ok (update_task_status_by_row_id now row status)"
  unfolding update_task_status_by_row_id_def by (intro keeps_intros) (auto intro!: keeps_intros)

lemma keeps_update_task_title_by_row_id [keeps_intros]: "keeps store_ok (update_task_title_by_row_id row title)"
  unfolding update_task_title_by_row_id_def by (intro keeps_intros) auto

lemma keeps_complete_task_by_row_id [keeps_intros]: "keeps store_ok (complete_task_by_row_id now row log)"
  unfolding complete_task_by_row_id_def by (intro keeps_intros) auto

lemma keeps_add_task_log_by_row_id [keeps_intros]: "keeps store_ok (add_task_log_by_row_id row kind message)"
  by (rule keepsI) (simp add: add_task_log_by_row_id_def task_exists_def store_defs)

lemma keeps_add_task_verification [keeps_intros]: "keeps store_ok (add_task_verification t kind command result detail)"
  unfolding add_task_verification_def
  by (rule keeps_bind, intro keeps_intros, rule keepsI) (simp add: task_exists_def store_defs)

lemmas keeps_by_reference = remove_task_def update_task_status_def update_task_title_def complete_task_def add_task_log_def
  reorder_task_def

lemma keeps_task_by_reference [keeps_intros]: "keeps store_ok (remove_task t)" "keeps store_ok (update_task_status now t status)"
  "keeps store_ok (update_task_title t title)" "keeps store_ok (complete_task now t log)" "keeps store_ok (add_task_log t kind message)"
  "keeps store_ok (reorder_task F t position)"
  unfolding keeps_by_reference by (intro keeps_intros)+

section \<open>Renaming a task\<close>

lemma distinct_upd_one:
  assumes "distinct (map idf xs)" "distinct (map text xs)" "\<forall>x \<in> set xs. text x = new \<longrightarrow> idf x = row"
    "\<And>x. text (f x) = new"
  shows "distinct (map text (upd (\<lambda>x. idf x = row \<and> text x = old) f xs))"
  using assms(1-3)
proof (induction xs)
  case (Cons x xs)
  have "text ` set (upd P f xs) \<subseteq> insert new (text ` set xs)" for P
    using assms(4) by (auto simp: upd_def)
  moreover have "idf x = row \<Longrightarrow> upd (\<lambda>x. idf x = row \<and> text x = old) f xs = xs"
    using Cons.prems(1) by (auto simp: upd_def intro!: map_idI) (metis image_eqI)
  ultimately show ?case
    using Cons assms(4) by (auto simp: upd_def image_iff) (metis image_eqI)?
qed (simp add: upd_def)

lemma keeps_refs [keeps_intros]: "keeps store_ok (change (entity_refs_update g))"
  by (rule keepsI) (auto simp: store_defs)

lemma keeps_rename_task_handle [keeps_intros]: "keeps store_ok (rename_task_handle row old new)"
proof -
  have ins: "keeps (\<lambda>d. store_ok d \<and> row \<in> set (kind_ids TaskKind d)) (for_each (\<lambda>r. change (entity_refs_update (h r))) rs :: unit store_act)" for h rs
    by (intro keeps_intros, rule keepsI) (auto simp: store_defs kind_ids_def)
  have rename: "wp (update_tasks (\<lambda>t. t_id t = row \<and> t_text t = old) (t_text_update (\<lambda>_. new)))
      (\<lambda>n d. store_ok d \<and> (n = 1 \<longrightarrow> row \<in> set (kind_ids TaskKind d))) store_ok d"
    if "store_ok d" "list_all (\<lambda>t. t_text t = new \<longrightarrow> t_id t = row) (tasks_data d)
      \<or> \<not> list_ex (\<lambda>t. t_id t = row \<and> t_text t = old) (tasks_data d)" for d
  proof -
    have same: "upd (\<lambda>t. t_id t = row \<and> t_text t = old) (t_text_update (\<lambda>_. new)) (tasks_data d) = tasks_data d"
      if "\<not> list_ex (\<lambda>t. t_id t = row \<and> t_text t = old) (tasks_data d)"
      using that by (auto simp: upd_def list_ex_iff intro!: map_idI)
    have "distinct (map t_text (upd (\<lambda>t. t_id t = row \<and> t_text t = old) (t_text_update (\<lambda>_. new)) (tasks_data d)))"
    proof (cases "list_ex (\<lambda>t. t_id t = row \<and> t_text t = old) (tasks_data d)")
      case True
      with that show ?thesis by (intro distinct_upd_one) (auto simp: store_ok_unique list_all_iff)
    qed (use that same in \<open>simp add: store_ok_unique\<close>)
    then have "wp (update_tasks (\<lambda>t. t_id t = row \<and> t_text t = old) (t_text_update (\<lambda>_. new))) (\<lambda>_. store_ok) store_ok d"
      using that by (intro wp_update_tasks) auto
    then show ?thesis
      by (auto simp: update_tasks_def wp_update_rows kind_ids_def map_upd image_upd length_Suc_conv filter_eq_Cons_iff)
  qed
  have log: "wp (for_each (\<lambda>r. change (entity_refs_update (h r))) rs :: unit store_act) (\<lambda>_. wp (insert_alias TaskKind row old) (\<lambda>_. store_ok) (\<lambda>_. True)) (\<lambda>_. True) d"
    if "store_ok d" "row \<in> set (kind_ids TaskKind d)" for h rs d
    by (rule wp_mono [OF keeps_wp [OF ins]]) (use that in \<open>auto intro: wp_mono [OF wp_insert_alias]\<close>)
  show ?thesis
    by (rule keepsI)
      (auto simp: rename_task_handle_def delete_aliases_def store_ok_fewer_aliases split: option.split
        intro!: wp_mono [OF rename] log)
qed

section \<open>Focus and lanes\<close>

definition has_phase :: "int \<Rightarrow> store \<Rightarrow> bool" where
  "has_phase p d \<longleftrightarrow> store_ok d \<and> p \<in> set (map p_id (phases_data d))"

definition has_lane :: "int \<Rightarrow> store \<Rightarrow> bool" where
  "has_lane l d \<longleftrightarrow> store_ok d \<and> l \<in> set (map l_id (lanes_data d))"

lemma wp_resolve_phase: "store_ok d \<Longrightarrow> wp (resolve_phase t) has_phase store_ok d"
  by (auto simp: resolve_phase_def phase_row_id_def has_phase_def split: option.split dest!: find_SomeD)

lemma wp_resolve_lane: "store_ok d \<Longrightarrow> wp (resolve_lane t) has_lane store_ok d"
  by (auto simp: resolve_lane_def lane_row_id_def has_lane_def split: option.split dest!: find_SomeD)

lemma keeps_update_pin [keeps_intros]: "keeps (has_phase p) (update_pin w p now)"
  unfolding update_pin_def
  by (rule keepsI) (auto simp: wp_update_rows has_phase_def store_defs map_upd image_upd set_upd)

lemma keeps_insert_pin [keeps_intros]: "keeps (has_phase p) (insert_pin w p now)"
  unfolding insert_pin_def
  by (rule keepsI) (auto simp: has_phase_def store_defs)

lemma keeps_update_focus [keeps_intros]: "keeps (has_lane l) (update_focus w l now)"
  unfolding update_focus_def
  by (rule keepsI) (auto simp: wp_update_rows has_lane_def store_defs map_upd image_upd set_upd)

lemma keeps_insert_focus [keeps_intros]: "keeps (has_lane l) (insert_focus w l now)"
  unfolding insert_focus_def
  by (rule keepsI) (auto simp: has_lane_def store_defs)

lemma keeps_resolved:
  assumes "\<And>d. store_ok d \<Longrightarrow> wp m I store_ok d" "\<And>i. keeps (I i) (f i)" "\<And>i d. I i d \<Longrightarrow> store_ok d"
  shows "keeps store_ok (bind_act m f)"
  by (rule keepsI, rule wp_bindI, erule assms(1), rule wp_mono, rule keeps_wp, rule assms(2)) (auto dest: assms(3))

lemma keeps_set_workspace_active_phase [keeps_intros]: "keeps store_ok (set_workspace_active_phase now w phase)"
  unfolding set_workspace_active_phase_def
  by (rule keeps_resolved, erule wp_resolve_phase, intro keeps_intros)
    (auto intro!: keeps_intros simp: has_phase_def)

lemma keeps_set_workspace_lane_focus [keeps_intros]: "keeps store_ok (set_workspace_lane_focus now w lane)"
  unfolding set_workspace_lane_focus_def
  by (rule keeps_resolved, erule wp_resolve_lane, intro keeps_intros)
    (auto intro!: keeps_intros simp: has_lane_def)

lemma keeps_clear_workspace_active_phase [keeps_intros]: "keeps store_ok (clear_workspace_active_phase w)"
  by (rule keepsI) (auto simp: clear_workspace_active_phase_def store_ok_def unique_ok_def foreign_ok_def aliases_ok_def
    aliases_of_kind_def checks_ok_def distinct_map_filter refers_filter_left)

lemma keeps_clear_workspace_lane_focus [keeps_intros]: "keeps store_ok (clear_workspace_lane_focus w)"
  unfolding clear_workspace_lane_focus_def by (intro keeps_intros)

lemma keeps_add_workbench_lane [keeps_intros]: "keeps store_ok (add_workbench_lane now tid title purpose phase)"
  unfolding add_workbench_lane_def by (intro keeps_intros)

lemma keeps_start_workbench_lane [keeps_intros]: "keeps store_ok (start_workbench_lane now t)"
  unfolding start_workbench_lane_def by (intro keeps_intros) (auto intro: keeps_intros)

lemma keeps_focus_phase_for_workspace [keeps_intros]: "keeps store_ok (focus_phase_for_workspace now w phase)"
  unfolding focus_phase_for_workspace_def by (intro keeps_intros) (auto intro: keeps_intros)

lemma keeps_complete_phase [keeps_intros]: "keeps store_ok (complete_phase_and_clear_lane_focus now t)"
  unfolding complete_phase_and_clear_lane_focus_def by (intro keeps_intros) auto

lemma keeps_focus_workbench_lane [keeps_intros]: "keeps store_ok (focus_workbench_lane now w lane phase)"
  unfolding focus_workbench_lane_def by (intro keeps_intros)

lemma keeps_start_and_focus [keeps_intros]: "keeps store_ok (start_and_focus_workbench_lane now w lane phase)"
  unfolding start_and_focus_workbench_lane_def by (intro keeps_intros)

lemma keeps_remove_prepared [keeps_intros]: "keeps store_ok (remove_prepared_workbench_lane t)"
  unfolding remove_prepared_workbench_lane_def by (intro keeps_intros) (auto intro!: keeps_intros split: option.split)

end
