(* ===== verification/Plan_Ops.thy ===== *)
theory Plan_Ops
  imports Plan_Keeps
begin

text \<open>
  The operations of the plan's writer as data, runs of them from the empty plan, and the
  invariant of the store they keep.
\<close>

section \<open>The operations\<close>

datatype epoch_op =
    AddEpoch string string "string option" "string list"
  | RemoveEpoch string
  | SetReviewed string bool
  | SetEpochTitle string string
  | BankruptEpoch string
  | ReorderEpoch string string

datatype phase_op =
    AddPhase string string string string "string option" "string list"
  | RemovePhase string
  | SetPhaseStatus string string string
  | SetPhaseTitle string string
  | SetPhaseRfcs string "string list"
  | CompletePhase string string
  | ReorderPhase string string
  | MovePhase string string "string option"

datatype lane_op =
    PinPhase string string string
  | UnpinPhase string
  | FocusPhase string string string
  | AddLane string string string string string
  | StartLane string string
  | RemoveLane string
  | FocusLane string string string string
  | StartAndFocusLane string string string string
  | UnfocusLane string
  | SetLaneFocus string string string

datatype goal_op =
    AddGoal string string string "string option" "8 word option" "string option" "string option" "string option" "string option"
      "string list"
  | AddStrike string string string string string
  | RemoveGoal string
  | SetGoalStatus string string
  | SetGoalLabel string string
  | SetGoalLog string string
  | ReorderGoal string string
  | MoveGoal string string "string option"

datatype task_op =
    AddTask string string string "string option"
  | RenameTask int string string
  | RemoveTask string
  | SetTaskStatus string string string
  | SetTaskTitle string string
  | CompleteTask string string string
  | LogTask string string string
  | VerifyTask string string "string option" string "string option"
  | ReorderTask string string
  | RemoveTaskRow int
  | SetTaskRowStatus string int string
  | SetTaskRowTitle int string
  | CompleteTaskRow string int string
  | LogTaskRow int string string
  | ReorderTaskRow int string

datatype plan_op = EpochOp epoch_op | PhaseOp phase_op | LaneOp lane_op | GoalOp goal_op | TaskOp task_op

definition void :: "'a store_act \<Rightarrow> unit store_act" where
  "void m = bind_act m (\<lambda>_. ok ())"

fun epoch_act :: "'k frac \<Rightarrow> epoch_op \<Rightarrow> unit store_act" where
  "epoch_act F (AddEpoch t title slug as) = void (add_epoch F t title slug as)"
| "epoch_act F (RemoveEpoch t) = remove_epoch t"
| "epoch_act F (SetReviewed t b) = update_epoch_reviewed t b"
| "epoch_act F (SetEpochTitle t title) = update_epoch_title t title"
| "epoch_act F (BankruptEpoch t) = bankrupt_epoch t"
| "epoch_act F (ReorderEpoch t pos) = reorder_epoch F t pos"

fun phase_act :: "'k frac \<Rightarrow> phase_op \<Rightarrow> unit store_act" where
  "phase_act F (AddPhase t e title kind slug as) = void (add_phase F t e title kind slug as)"
| "phase_act F (RemovePhase t) = remove_phase t"
| "phase_act F (SetPhaseStatus now t status) = update_phase_status now t status"
| "phase_act F (SetPhaseTitle t title) = update_phase_title t title"
| "phase_act F (SetPhaseRfcs t rfcs) = replace_phase_rfcs t rfcs"
| "phase_act F (CompletePhase now t) = complete_phase_and_clear_lane_focus now t"
| "phase_act F (ReorderPhase t pos) = reorder_phase F t pos"
| "phase_act F (MovePhase t e pos) = move_phase_to_epoch F t e pos"

fun lane_act :: "lane_op \<Rightarrow> unit store_act" where
  "lane_act (PinPhase now w p) = set_workspace_active_phase now w p"
| "lane_act (UnpinPhase w) = clear_workspace_active_phase w"
| "lane_act (FocusPhase now w p) = focus_phase_for_workspace now w p"
| "lane_act (AddLane now t title purpose p) = void (add_workbench_lane now t title purpose p)"
| "lane_act (StartLane now t) = start_workbench_lane now t"
| "lane_act (RemoveLane t) = remove_prepared_workbench_lane t"
| "lane_act (FocusLane now w l p) = focus_workbench_lane now w l p"
| "lane_act (StartAndFocusLane now w l p) = start_and_focus_workbench_lane now w l p"
| "lane_act (UnfocusLane w) = clear_workspace_lane_focus w"
| "lane_act (SetLaneFocus now w l) = set_workspace_lane_focus now w l"

fun goal_act :: "'k frac \<Rightarrow> goal_op \<Rightarrow> unit store_act" where
  "goal_act F (AddGoal p g label rfc target kind desc at slug as) = void (add_goal F p g label rfc target kind desc at slug as)"
| "goal_act F (AddStrike now p g label desc) = void (add_strike_goal F now p g label desc)"
| "goal_act F (RemoveGoal g) = remove_goal g"
| "goal_act F (SetGoalStatus g status) = update_goal_status g status"
| "goal_act F (SetGoalLabel g label) = update_goal_label g label"
| "goal_act F (SetGoalLog g log) = update_goal_completion_log g log"
| "goal_act F (ReorderGoal g pos) = reorder_goal F g pos"
| "goal_act F (MoveGoal g p pos) = move_goal_to_phase_position F g p pos"

fun task_act :: "'k frac \<Rightarrow> task_op \<Rightarrow> unit store_act" where
  "task_act F (AddTask g t title notes) = void (add_task F g t title notes)"
| "task_act F (RenameTask row old new) = rename_task_handle row old new"
| "task_act F (RemoveTask t) = remove_task t"
| "task_act F (SetTaskStatus now t status) = update_task_status now t status"
| "task_act F (SetTaskTitle t title) = update_task_title t title"
| "task_act F (CompleteTask now t log) = complete_task now t log"
| "task_act F (LogTask t kind message) = add_task_log t kind message"
| "task_act F (VerifyTask t kind command result detail) = add_task_verification t kind command result detail"
| "task_act F (ReorderTask t pos) = reorder_task F t pos"
| "task_act F (RemoveTaskRow row) = remove_task_by_row_id row"
| "task_act F (SetTaskRowStatus now row status) = update_task_status_by_row_id now row status"
| "task_act F (SetTaskRowTitle row title) = update_task_title_by_row_id row title"
| "task_act F (CompleteTaskRow now row log) = complete_task_by_row_id now row log"
| "task_act F (LogTaskRow row kind message) = add_task_log_by_row_id row kind message"
| "task_act F (ReorderTaskRow row pos) = reorder_task_by_row_id F row pos"

fun plan_act :: "'k frac \<Rightarrow> plan_op \<Rightarrow> unit store_act" where
  "plan_act F (EpochOp x) = epoch_act F x"
| "plan_act F (PhaseOp x) = phase_act F x"
| "plan_act F (LaneOp x) = lane_act x"
| "plan_act F (GoalOp x) = goal_act F x"
| "plan_act F (TaskOp x) = task_act F x"

text \<open>A run goes on after an error, from what the error leaves.\<close>

definition run_plan :: "'k frac \<Rightarrow> plan_op list \<Rightarrow> store \<Rightarrow> store" where
  "run_plan F ops d = fold (\<lambda>x d. fst (plan_act F x d)) ops d"

lemma run_keeps_these: "(\<And>x. x \<in> set ops \<Longrightarrow> keeps I (plan_act F x)) \<Longrightarrow> I d \<Longrightarrow> I (run_plan F ops d)"
  unfolding run_plan_def by (induction ops arbitrary: d) (auto dest: keepsD)

lemma run_keeps: "(\<And>x. keeps I (plan_act F x)) \<Longrightarrow> I d \<Longrightarrow> I (run_plan F ops d)"
  by (rule run_keeps_these)

lemma keeps_void [keeps_intros]: "keeps I m \<Longrightarrow> keeps I (void m)"
  unfolding void_def by (intro keeps_intros)

section \<open>The store stays consistent\<close>

lemma keeps_plan_act: "keeps store_ok (plan_act F x)"
proof (cases x)
  case (EpochOp y) then show ?thesis by (cases y) (auto intro: keeps_intros)
next
  case (PhaseOp y) then show ?thesis by (cases y) (auto intro: keeps_intros)
next
  case (LaneOp y) then show ?thesis by (cases y) (auto intro: keeps_intros)
next
  case (GoalOp y) then show ?thesis by (cases y) (auto intro: keeps_intros)
next
  case (TaskOp y) then show ?thesis by (cases y) (auto intro: keeps_intros)
qed

lemma run_store_ok: "store_ok (run_plan F ops empty_store)"
  by (rule run_keeps) (rule keeps_plan_act, rule store_ok_empty)

text \<open>
  C17. No sequence of the writer's operations, whether they succeed or fail half way, leaves the
  plan inconsistent: ids and text ids stay unique, every foreign key and every alias names a row
  that exists (so no alias of a deleted epoch, phase, goal or task is left to be resolved or to
  block a new one), and every row satisfies its table's checks.
\<close>
theorem plan_store_invariant: "store_ok (run_plan F ops empty_store)"
  by (rule run_store_ok)

end
