(* ===== verification/Plan_Focus.thy ===== *)
theory Plan_Focus
  imports Plan_Ops
begin

text \<open>
  A workspace focuses a lane only while the lane's phase is in progress: the guards of the focus
  operations establish it, and every write that takes a phase out of that state clears the
  focuses on its lanes.
\<close>

section \<open>The condition\<close>

definition live_phases :: "store \<Rightarrow> int list" where
  "live_phases d = map p_id (filter (\<lambda>p. p_status p = ''in-progress'') (phases_data d))"

definition live_lanes :: "store \<Rightarrow> int list" where
  "live_lanes d = map l_id (filter (\<lambda>l. l_phase l \<in> set (live_phases d)) (lanes_data d))"

text \<open>The workspaces \<open>R\<close> are those whose focus has only been set by operations that look at the phase.\<close>

definition focus_ok :: "(string \<Rightarrow> bool) \<Rightarrow> store \<Rightarrow> bool" where
  "focus_ok R d \<longleftrightarrow> (\<forall>w \<in> set (lane_focus_data d). R (focus_root w) \<longrightarrow> focus_lane w \<in> set (live_lanes d))"

text \<open>Fewer focuses, more live phases and the same lanes keep it.\<close>

lemma live_lanes_mono:
  "lanes_data d' = lanes_data d \<Longrightarrow> set (live_phases d) \<subseteq> set (live_phases d') \<Longrightarrow> set (live_lanes d) \<subseteq> set (live_lanes d')"
  unfolding live_lanes_def by auto

lemma focus_mono:
  "focus_ok R d \<Longrightarrow> set (lane_focus_data d') \<subseteq> set (lane_focus_data d) \<Longrightarrow> set (live_lanes d) \<subseteq> set (live_lanes d') \<Longrightarrow> focus_ok R d'"
  unfolding focus_ok_def by auto

lemma focus_same:
  "focus_ok R d \<Longrightarrow> set (lane_focus_data d') \<subseteq> set (lane_focus_data d) \<Longrightarrow> lanes_data d' = lanes_data d \<Longrightarrow>
   live_phases d' = live_phases d \<Longrightarrow> focus_ok R d'"
  by (rule focus_mono) (auto simp: live_lanes_def)

section \<open>Statements\<close>

lemma live_phases_upd:
  assumes "\<And>r. p_id (f r) = p_id r" "\<And>r. p_status (f r) = p_status r"
  shows "live_phases (phases_data_update (upd P f) d) = live_phases d"
  unfolding live_phases_def by (simp add: upd_def filter_map comp_def assms if_distrib cong: if_cong)

lemma focus_update_phases [keeps_intros]:
  "(\<And>r. p_id (f r) = p_id r) \<Longrightarrow> (\<And>r. p_status (f r) = p_status r) \<Longrightarrow> keeps (focus_ok R) (update_phases P f)"
  unfolding update_phases_def
  by (rule keepsI) (auto simp: wp_update_rows live_phases_upd elim: focus_same)

lemma live_lanes_upd:
  assumes "\<And>r. l_id (f r) = l_id r" "\<And>r. l_phase (f r) = l_phase r"
  shows "live_lanes (lanes_data_update (upd P f) d) = live_lanes d"
  unfolding live_lanes_def live_phases_def by (simp add: upd_def filter_map comp_def assms if_distrib cong: if_cong)

lemma focus_update_lanes [keeps_intros]:
  "(\<And>r. l_id (f r) = l_id r) \<Longrightarrow> (\<And>r. l_phase (f r) = l_phase r) \<Longrightarrow> keeps (focus_ok R) (update_lanes P f)"
  unfolding update_lanes_def
  by (rule keepsI) (auto simp: wp_update_rows live_lanes_upd elim: focus_mono)

definition same_focus :: "store \<Rightarrow> store \<Rightarrow> bool" where
  "same_focus d d' \<longleftrightarrow> lane_focus_data d' = lane_focus_data d \<and> lanes_data d' = lanes_data d \<and> phases_data d' = phases_data d"

lemma keeps_same_focus:
  assumes "\<And>d. wp m (\<lambda>_. same_focus d) (same_focus d) d"
  shows "keeps (focus_ok R) m"
  by (rule keepsI, rule wp_mono, rule assms) (auto simp: same_focus_def focus_ok_def live_lanes_def live_phases_def)

lemma focus_updates [keeps_intros]:
  "keeps (focus_ok R) (update_epochs P1 f1)" "keeps (focus_ok R) (update_goals P2 f2)" "keeps (focus_ok R) (update_tasks P3 f3)"
  "keeps (focus_ok R) (update_pin w p now)"
  unfolding update_epochs_def update_goals_def update_tasks_def update_pin_def
  by (rule keeps_same_focus, simp add: wp_update_rows same_focus_def)+

lemma focus_inserts [keeps_intros]:
  "keeps (focus_ok R) (insert_epoch e)" "keeps (focus_ok R) (insert_goal g)" "keeps (focus_ok R) (insert_task t)"
  "keeps (focus_ok R) (insert_alias k i a)" "keeps (focus_ok R) (insert_phase_rfc r)" "keeps (focus_ok R) (insert_pin w p now)"
  unfolding insert_epoch_def insert_goal_def insert_task_def insert_alias_def insert_phase_rfc_def insert_pin_def
  by (rule keeps_same_focus, simp add: same_focus_def)+

lemma focus_deletes [keeps_intros]:
  "keeps (focus_ok R) (delete_aliases P)" "keeps (focus_ok R) (delete_goal t)" "keeps (focus_ok R) (delete_task i)"
  unfolding delete_aliases_def delete_goal_def delete_task_def
  by (rule keeps_same_focus, simp add: same_focus_def drop_goals_def drop_tasks_def)+

lemma focus_insert_phase [keeps_intros]: "keeps (focus_ok R) (insert_phase r)"
proof -
  have "focus_ok R (phases_data_update (\<lambda>rs. rs @ [r']) d)" if "focus_ok R d" for r' d
    by (rule focus_mono [OF that _ live_lanes_mono]) (auto simp: live_phases_def)
  then show ?thesis unfolding insert_phase_def by (intro keepsI) simp
qed

lemma focus_insert_lane [keeps_intros]: "keeps (focus_ok R) (insert_lane r)"
  unfolding insert_lane_def
  by (rule keepsI) (auto elim!: focus_mono simp: live_lanes_def live_phases_def)

lemma focus_delete_focus [keeps_intros]: "keeps (focus_ok R) (delete_focus P)"
  unfolding delete_focus_def by (rule keepsI) (auto elim!: focus_same simp: live_phases_def)

lemma focus_delete_lanes [keeps_intros]: "keeps (focus_ok R) (delete_lanes P)"
proof (rule keepsI)
  fix d assume d: "focus_ok R d"
  let ?is = "map l_id (filter P (lanes_data d))"
  let ?d = "d\<lparr>lanes_data := filter (\<lambda>l. \<not> P l) (lanes_data d), lane_focus_data := filter (\<lambda>w. focus_lane w \<notin> set ?is) (lane_focus_data d)\<rparr>"
  have "i \<in> set (live_lanes ?d)" if "i \<in> set (live_lanes d)" "i \<notin> set ?is" for i
    using that by (auto simp: live_lanes_def live_phases_def)
  then have "focus_ok R ?d"
    using d by (simp add: focus_ok_def image_subset_iff)
  then show "wp (delete_lanes P) (\<lambda>_. focus_ok R) (focus_ok R) d" by (simp add: delete_lanes_def)
qed

text \<open>A lane restricts the deletion of its phase.\<close>

lemma focus_drop_phases: "focus_ok R d \<Longrightarrow> unrestricted is d \<Longrightarrow> focus_ok R (drop_phases is d)"
  by (erule focus_mono)
    (auto simp: drop_phases_def drop_goals_def drop_tasks_def live_lanes_def live_phases_def unrestricted_def list_all_iff)

lemma focus_delete_phase [keeps_intros]: "keeps (focus_ok R) (delete_phase t)"
  unfolding delete_phase_def by (rule keepsI) (auto simp: focus_drop_phases)

lemma focus_delete_epoch [keeps_intros]: "keeps (focus_ok R) (delete_epoch t)"
proof -
  have "focus_ok R (epochs_data_update f d) = focus_ok R d" "unrestricted is (epochs_data_update f d) = unrestricted is d" for f d "is"
    by (simp_all add: focus_ok_def live_lanes_def live_phases_def unrestricted_def)
  then show ?thesis
    unfolding delete_epoch_def by (intro keepsI) (auto simp: drop_epochs_def intro!: focus_drop_phases)
qed

section \<open>Operations that leave it alone\<close>

lemma focus_same_phases [keeps_intros]: "keeps (focus_ok R) (change (phase_rfcs_data_update g1))" "keeps (focus_ok R) (change (active_phase_data_update g2))"
  "keeps (focus_ok R) (change (entity_refs_update g3))" "keeps (focus_ok R) (change (task_logs_update g4))"
  "keeps (focus_ok R) (change (task_verifications_update g5))"
  by (rule keeps_same_focus, simp add: same_focus_def)+

lemma focus_small [keeps_intros]: "keeps (focus_ok R) m \<Longrightarrow> keeps (focus_ok R) (expect_rows label t m)"
  "keeps (focus_ok R) m' \<Longrightarrow> keeps (focus_ok R) (expect_task row m')"
  unfolding expect_rows_def expect_task_def by ((intro keeps_intros; assumption?); auto intro: keeps_intros)+

lemma focus_resolve [keeps_intros]: "keeps (focus_ok R) (resolve_epoch t)" "keeps (focus_ok R) (resolve_phase t)"
  "keeps (focus_ok R) (resolve_goal t)" "keeps (focus_ok R) (resolve_lane t)" "keeps (focus_ok R) (resolve_task_row t)"
  "keeps (focus_ok R) (lane_state_error t)"
  unfolding resolve_epoch_def resolve_phase_def resolve_goal_def resolve_lane_def resolve_task_row_def lane_state_error_def
  by (intro keeps_intros; auto intro: keeps_intros split: option.split)+

lemma focus_delete_entity_aliases [keeps_intros]: "keeps (focus_ok R) (delete_entity_aliases k r)"
  unfolding delete_entity_aliases_def delete_kind_aliases_def
  by (auto intro!: keeps_intros split: option.split entity_kind.split)

lemma focus_append_sort_key [keeps_intros]: "keeps (focus_ok R) (append_sort_key F T i)"
  unfolding append_sort_key_def by (intro keeps_intros)

lemma focus_epochs [keeps_intros]: "keeps (focus_ok R) (add_epoch F t title slug as)" "keeps (focus_ok R) (remove_epoch t)"
  "keeps (focus_ok R) (update_epoch_reviewed t b)" "keeps (focus_ok R) (update_epoch_title t title)" "keeps (focus_ok R) (reorder_epoch F t pos)"
  unfolding add_epoch_def remove_epoch_def update_epoch_reviewed_def update_epoch_title_def reorder_epoch_def
  by (intro keeps_intros)+

lemma focus_reorder [keeps_intros]: "keeps (focus_ok R) (reorder_phase F t pos)" "keeps (focus_ok R) (reorder_goal F t pos)"
  "keeps (focus_ok R) (reorder_task_by_row_id F row pos)"
  unfolding reorder_phase_def reorder_goal_def reorder_task_by_row_id_def reorder_entity_def
  by (intro keeps_intros; auto simp: phases_table_def goals_table_def tasks_table_def intro!: keeps_intros)+

lemma focus_move [keeps_intros]: "keeps (focus_ok R) (move_phase_to_epoch F t e pos')" "keeps (focus_ok R) (move_goal_to_phase_position F t p pos')"
  unfolding move_phase_to_epoch_def move_goal_to_phase_position_def move_entity_to_parent_def
  by (intro keeps_intros; auto simp: phases_table_def goals_table_def intro!: keeps_intros)+

lemma focus_phases [keeps_intros]: "keeps (focus_ok R) (add_phase F t e title kind slug as)" "keeps (focus_ok R) (remove_phase t)"
  "keeps (focus_ok R) (update_phase_title t title)" "keeps (focus_ok R) (replace_phase_rfcs t rfcs)"
  unfolding add_phase_def remove_phase_def update_phase_title_def replace_phase_rfcs_def
  by (intro keeps_intros; simp)+

lemma focus_goals [keeps_intros]: "keeps (focus_ok R) (add_goal F p g label rfc target kind desc at slug as)"
  "keeps (focus_ok R) (update_goal_status g status)"
  "keeps (focus_ok R) (remove_goal g)" "keeps (focus_ok R) (update_goal_label g label)" "keeps (focus_ok R) (update_goal_completion_log g log)"
  unfolding add_goal_def update_goal_status_def remove_goal_def update_goal_label_def update_goal_completion_log_def
  by (intro keeps_intros)+

lemma focus_strike [keeps_intros]: "keeps (focus_ok R) (add_strike_goal F now p g label desc)"
  unfolding add_strike_goal_def by (intro keeps_intros)

lemma focus_task_rows [keeps_intros]: "keeps (focus_ok R) (remove_task_by_row_id row)" "keeps (focus_ok R) (update_task_status_by_row_id now row status)"
  "keeps (focus_ok R) (update_task_title_by_row_id row title)" "keeps (focus_ok R) (complete_task_by_row_id now row log)"
  "keeps (focus_ok R) (add_task_log_by_row_id row kind message)" "keeps (focus_ok R) (rename_task_handle row old new)"
  unfolding remove_task_by_row_id_def update_task_status_by_row_id_def update_task_title_by_row_id_def complete_task_by_row_id_def
    add_task_log_by_row_id_def rename_task_handle_def task_exists_def
  by (intro keeps_intros; auto intro!: keeps_intros)+

lemma focus_tasks [keeps_intros]: "keeps (focus_ok R) (add_task F g t title notes)" "keeps (focus_ok R) (remove_task t)"
  "keeps (focus_ok R) (update_task_status now t status)" "keeps (focus_ok R) (update_task_title t title)" "keeps (focus_ok R) (complete_task now t log)"
  "keeps (focus_ok R) (add_task_log t kind message)" "keeps (focus_ok R) (add_task_verification t kind command result detail)"
  "keeps (focus_ok R) (reorder_task F t pos)"
  unfolding add_task_def remove_task_def update_task_status_def update_task_title_def complete_task_def add_task_log_def
    add_task_verification_def reorder_task_def task_exists_def task_handle_conflicts_def goal_reference_handles_def
  by (intro keeps_intros; auto intro!: keeps_intros)+

section \<open>Operations that take a phase out of progress\<close>

text \<open>The phases a write changes may stop being live; the focuses on their lanes go with them.\<close>

lemma focus_clear_on:
  assumes "focus_ok R d" "lane_focus_data d' = lane_focus_data d" "lanes_data d' = lanes_data d"
    "\<And>l. l \<in> set (lanes_data d) \<Longrightarrow> l_phase l \<in> set (live_phases d) \<Longrightarrow> l_phase l \<notin> set (live_phases d') \<Longrightarrow> l_id l \<in> set (q d')"
  shows "wp (clear_focus_on q) (\<lambda>_. focus_ok R) E d'"
proof -
  have "i \<in> set (live_lanes d')" if "i \<in> set (live_lanes d)" "i \<notin> set (q d')" for i
    using that assms(3,4) by (auto simp: live_lanes_def)
  moreover have "live_lanes (lane_focus_data_update g d') = live_lanes d'" for g
    by (simp add: live_lanes_def live_phases_def)
  ultimately show ?thesis
    using assms(1,2) by (auto simp: clear_focus_on_def delete_focus_def focus_ok_def)
qed

lemma in_upd: "x \<in> set rs \<Longrightarrow> P x \<Longrightarrow> f x \<in> set (upd P f rs)" "x \<in> set rs \<Longrightarrow> \<not> P x \<Longrightarrow> x \<in> set (upd P f rs)"
  by (auto simp: set_upd)

lemma live_phases_mem: "i \<in> set (live_phases d) \<longleftrightarrow> (\<exists>p \<in> set (phases_data d). p_id p = i \<and> p_status p = ''in-progress'')"
  unfolding live_phases_def by auto

lemma focus_clear_upd:
  assumes "focus_ok R d" "lane_focus_data d' = lane_focus_data d" "lanes_data d' = lanes_data d" "phases_data d' = upd P f (phases_data d)"
    "\<And>l p. l \<in> set (lanes_data d) \<Longrightarrow> p \<in> set (phases_data d) \<Longrightarrow> P p \<Longrightarrow> p_id p = l_phase l \<Longrightarrow>
       f p \<in> set (upd P f (phases_data d)) \<Longrightarrow> l_id l \<in> set (q d')"
  shows "wp (clear_focus_on q) (\<lambda>_. focus_ok R) E d'"
proof (rule focus_clear_on [OF assms(1-3)])
  fix l assume l: "l \<in> set (lanes_data d)" "l_phase l \<in> set (live_phases d)" "l_phase l \<notin> set (live_phases d')"
  then obtain p where p: "p \<in> set (phases_data d)" "p_id p = l_phase l" "p_status p = ''in-progress''"
    by (auto simp: live_phases_mem)
  with l assms(4) have "P p" using in_upd(2) [of p "phases_data d" P f] by (auto simp: live_phases_mem)
  with l p show "l_id l \<in> set (q d')" by (intro assms(5) [of l p]) (auto intro: in_upd)
qed

lemma focus_clear_lanes:
  assumes "focus_ok R d" "lane_focus_data d' = lane_focus_data d" "lanes_data d' = lanes_data d" "phases_data d' = upd P f (phases_data d)"
    "\<And>p. P p \<Longrightarrow> p_id (f p) = p_id p" "\<And>p. P p \<Longrightarrow> Q (f p)"
  shows "wp (clear_focus_on (lanes_of_phases Q)) (\<lambda>_. focus_ok R) E d'"
proof (rule focus_clear_upd [OF assms(1-4)])
  fix l p assume "l \<in> set (lanes_data d)" "P p" "p_id p = l_phase l" "f p \<in> set (upd P f (phases_data d))"
  then show "l_id l \<in> set (lanes_of_phases Q d')"
    using assms(3-6) unfolding lanes_of_phases_def by (auto simp: list_ex_iff intro!: image_eqI [of _ _ l] bexI [of _ "f p"])
qed

lemma focus_bankrupt_epoch [keeps_intros]: "keeps (focus_ok R) (bankrupt_epoch t)"
proof (rule keepsI)
  fix d assume d: "focus_ok R d"
  show "wp (bankrupt_epoch t) (\<lambda>_. focus_ok R) (focus_ok R) d"
    unfolding bankrupt_epoch_def resolve_epoch_def update_phases_def update_goals_def
    by (auto simp: wp_update_rows d split: option.split
      intro!: focus_clear_lanes [OF d])
qed

lemma focus_update_phase_status [keeps_intros]: "keeps (focus_ok R) (update_phase_status now t status)"
proof (rule keepsI)
  fix d assume d: "focus_ok R d"
  have same: "focus_ok R (phases_data_update (upd P f) d)" if "\<And>p. p_id (f p) = p_id p" "\<And>p. p_status (f p) = ''in-progress''" for P f
  proof (rule focus_mono [OF d _ live_lanes_mono])
    have "i \<in> set (live_phases (phases_data_update (upd P f) d))" if "p \<in> set (phases_data d)" "p_id p = i" "p_status p = ''in-progress''" for p i
      using that \<open>\<And>p. p_id (f p) = p_id p\<close> \<open>\<And>p. p_status (f p) = ''in-progress''\<close> in_upd [of p "phases_data d" P f]
      by (cases "P p") (auto simp: live_phases_mem)
    then show "set (live_phases d) \<subseteq> set (live_phases (phases_data_update (upd P f) d))"
      by (auto simp: live_phases_mem)
  qed auto
  show "wp (update_phase_status now t status) (\<lambda>_. focus_ok R) (focus_ok R) d"
    unfolding update_phase_status_def expect_rows_def update_phases_def
    by (auto simp: wp_update_rows d intro!: same focus_clear_lanes [OF d])
qed

lemma focus_complete_phase [keeps_intros]: "keeps (focus_ok R) (complete_phase_and_clear_lane_focus now t)"
proof (rule keepsI)
  fix d assume d: "focus_ok R d"
  show "wp (complete_phase_and_clear_lane_focus now t) (\<lambda>_. focus_ok R) (focus_ok R) d"
    unfolding complete_phase_and_clear_lane_focus_def expect_rows_def update_phases_def resolve_phase_def
    by (auto simp: wp_update_rows d split: option.split intro!: focus_clear_upd [OF d])
qed

section \<open>Lanes and focus\<close>

lemma focus_set_workspace_active_phase [keeps_intros]: "keeps (focus_ok R) (set_workspace_active_phase now w phase)"
  unfolding set_workspace_active_phase_def by (intro keeps_intros) (auto intro!: keeps_intros)

lemma focus_lanes [keeps_intros]: "keeps (focus_ok R) (clear_workspace_active_phase w)"
  "keeps (focus_ok R) (focus_phase_for_workspace now w phase)"
  "keeps (focus_ok R) (add_workbench_lane now t title purpose phase)" "keeps (focus_ok R) (start_workbench_lane now t)"
  "keeps (focus_ok R) (clear_workspace_lane_focus w)" "keeps (focus_ok R) (remove_prepared_workbench_lane t)"
  unfolding clear_workspace_active_phase_def focus_phase_for_workspace_def add_workbench_lane_def start_workbench_lane_def
    clear_workspace_lane_focus_def remove_prepared_workbench_lane_def
  by (intro keeps_intros; auto intro!: keeps_intros split: option.split)+

text \<open>Setting the focus keeps the condition where the lane named is live.\<close>

definition names_live :: "(string \<Rightarrow> bool) \<Rightarrow> string \<Rightarrow> store \<Rightarrow> bool" where
  "names_live R lane d \<longleftrightarrow> focus_ok R d \<and> (\<forall>l. List.find (\<lambda>l. l_text l = lane) (lanes_data d) = Some l \<longrightarrow> l_phase l \<in> set (live_phases d))"

lemma live_pins [simp]: "live_phases (active_phase_data_update g d) = live_phases d" "live_phases (lane_focus_data_update h d) = live_phases d"
  "live_lanes (active_phase_data_update g d) = live_lanes d" "live_lanes (lane_focus_data_update h d) = live_lanes d"
  by (simp_all add: live_phases_def live_lanes_def)

lemma names_live_pin: "keeps (names_live R lane) (set_workspace_active_phase now w phase)"
  unfolding set_workspace_active_phase_def resolve_phase_def update_pin_def insert_pin_def
  by (rule keepsI) (auto simp: wp_update_rows names_live_def focus_ok_def split: option.split)

lemma find_upd:
  "(\<And>x. h (f x) = h x) \<Longrightarrow> List.find (\<lambda>x. h x = k) (upd P f xs) = map_option (\<lambda>x. if P x then f x else x) (List.find (\<lambda>x. h x = k) xs)"
  by (induction xs) (auto simp: upd_def)

lemma names_live_start: "keeps (names_live R lane) (start_workbench_lane now t)"
proof -
  have "live_phases (lanes_data_update g d) = live_phases d" for g d
    by (simp add: live_phases_def)
  then show ?thesis
    unfolding start_workbench_lane_def lane_state_error_def update_lanes_def
    by (intro keepsI) (auto simp: wp_update_rows names_live_def focus_ok_def live_lanes_upd find_upd split: option.split if_splits)
qed

definition lane_live :: "(string \<Rightarrow> bool) \<Rightarrow> int \<Rightarrow> store \<Rightarrow> bool" where
  "lane_live R i d \<longleftrightarrow> focus_ok R d \<and> i \<in> set (live_lanes d)"

lemma lane_live_update: "keeps (lane_live R i) (update_focus w i now)"
  unfolding update_focus_def
  by (rule keepsI) (auto simp: wp_update_rows lane_live_def focus_ok_def set_upd image_subset_iff)

lemma lane_live_insert: "keeps (lane_live R i) (insert_focus w i now)"
  unfolding insert_focus_def
  by (rule keepsI) (auto simp: lane_live_def focus_ok_def)

lemma wp_resolve_live: "names_live R lane d \<Longrightarrow> wp (resolve_lane lane) (lane_live R) (focus_ok R) d"
  by (cases "List.find (\<lambda>l. l_text l = lane) (lanes_data d)")
    (auto simp: resolve_lane_def lane_row_id_def names_live_def lane_live_def live_lanes_def dest: find_SomeD)

lemma lane_live_set:
  "keeps (lane_live R i) (bind_act (update_focus w i now) (\<lambda>n. if n \<noteq> 0 then ok ()
     else bind_act (insert_focus w i now) (\<lambda>inserted. if inserted \<noteq> 0 then ok ()
       else bind_act (update_focus w i now) (\<lambda>n. if n = 0 then err (PinNotSet w) else ok ()))))"
  by (intro keeps_bind lane_live_update) (auto intro!: keeps_intros lane_live_update lane_live_insert)

lemma set_focus_live: "names_live R lane d \<Longrightarrow> wp (set_workspace_lane_focus now w lane) (\<lambda>_. focus_ok R) (focus_ok R) d"
  unfolding set_workspace_lane_focus_def
  by (rule wp_bindI, erule wp_resolve_live, rule wp_mono, erule keeps_wp [OF lane_live_set]) (auto simp: lane_live_def)

lemma wp_require_live:
  "focus_ok R d \<Longrightarrow> wp (require_lane_phase_in_progress lane phase) (\<lambda>_. names_live R lane) (focus_ok R) d"
  unfolding require_lane_phase_in_progress_def
  by (cases "List.find (\<lambda>l. l_text l = lane) (lanes_data d)")
    (auto simp: names_live_def live_phases_mem split: option.split dest!: find_SomeD [where P = "\<lambda>p. p_text p = phase \<and> Q p" for Q])

lemma names_live_focus: "names_live R lane d \<Longrightarrow> focus_ok R d"
  by (simp add: names_live_def)

lemma wp_names_live:
  assumes "names_live R lane d" "keeps (names_live R lane) m"
  shows "wp (bind_act m (\<lambda>_. set_workspace_lane_focus now w lane)) (\<lambda>_. focus_ok R) (focus_ok R) d"
  by (rule wp_bindI, rule wp_mono, rule keeps_wp [OF assms(2,1)]) (auto intro: set_focus_live names_live_focus)

lemma focus_workbench_lane_live [keeps_intros]: "keeps (focus_ok R) (focus_workbench_lane now w lane phase)"
  unfolding focus_workbench_lane_def
  by (rule keeps_savepoint, rule keepsI, rule wp_bindI, erule wp_require_live, rule wp_names_live)
    (auto intro: names_live_pin)

lemma start_and_focus_live [keeps_intros]: "keeps (focus_ok R) (start_and_focus_workbench_lane now w lane phase)"
proof -
  have "wp (bind_act (start_workbench_lane now lane) (\<lambda>_. bind_act (set_workspace_active_phase now w phase)
      (\<lambda>_. set_workspace_lane_focus now w lane))) (\<lambda>_. focus_ok R) (focus_ok R) d" if "names_live R lane d" for d
    by (rule wp_bindI [where Q' = "\<lambda>_. names_live R lane"], rule wp_mono, rule keeps_wp [OF names_live_start that])
      (auto intro: wp_names_live names_live_pin names_live_focus simp del: wp_bind)
  then show ?thesis
    unfolding start_and_focus_workbench_lane_def
    by (intro keeps_savepoint keepsI) (rule wp_bindI, erule wp_require_live, blast)
qed

section \<open>Every operation\<close>

text \<open>Setting the focus of a workspace that is not guarded does not matter to the others.\<close>

lemma focus_set_directly:
  assumes "\<not> R w"
  shows "keeps (focus_ok R) (set_workspace_lane_focus now w lane)"
proof -
  have "keeps (focus_ok R) (update_focus w i now)" for i
    unfolding update_focus_def
    by (rule keepsI) (use assms in \<open>auto simp: wp_update_rows focus_ok_def set_upd image_subset_iff\<close>)
  moreover have "keeps (focus_ok R) (insert_focus w i now)" for i
    unfolding insert_focus_def
    by (rule keepsI) (use assms in \<open>auto simp: focus_ok_def\<close>)
  ultimately show ?thesis
    unfolding set_workspace_lane_focus_def by (intro keeps_intros) (auto intro!: keeps_intros)
qed

definition sets_focus :: "string \<Rightarrow> plan_op \<Rightarrow> bool" where
  "sets_focus root x \<longleftrightarrow> (case x of LaneOp (SetLaneFocus now w lane) \<Rightarrow> w = root | _ \<Rightarrow> False)"

lemma focus_plan_act:
  assumes "\<And>root. sets_focus root x \<Longrightarrow> \<not> R root"
  shows "keeps (focus_ok R) (plan_act F x)"
proof (cases x)
  case (EpochOp y) then show ?thesis by (cases y) (auto intro: keeps_intros)
next
  case (PhaseOp y) then show ?thesis by (cases y) (auto intro: keeps_intros)
next
  case (LaneOp y)
  then show ?thesis
    by (cases y) (use assms in \<open>auto intro: keeps_intros focus_set_directly simp: sets_focus_def\<close>)
next
  case (GoalOp y) then show ?thesis by (cases y) (auto intro: keeps_intros)
next
  case (TaskOp y) then show ?thesis by (cases y) (auto intro: keeps_intros)
qed

lemma focused_lane_exists:
  "w \<in> set (lane_focus_data (run_plan F ops empty_store)) \<Longrightarrow> focus_lane w \<in> l_id ` set (lanes_data (run_plan F ops empty_store))"
  using run_store_ok [of F ops] by (auto simp: store_ok_def foreign_ok_def refers_def)

text \<open>
  C19. However the writer's operations are sequenced, and even when some of them fail, a lane that
  a workspace has in focus exists, and it belongs to a phase that is in progress unless the focus of
  that workspace has been set directly, which does not look at the phase: completing, abandoning,
  deferring or bankrupting the phase, or removing the lane, takes the focus away, and no other
  operation focuses a lane whose phase is in any other state.
\<close>
theorem focus_only_live_lanes:
  "list_all (\<lambda>w. list_ex (\<lambda>l. l_id l = focus_lane w \<and>
       (list_ex (\<lambda>p. p_id p = l_phase l \<and> p_status p = ''in-progress'') (phases_data (run_plan F ops empty_store))
        \<or> list_ex (\<lambda>x. case x of LaneOp (SetLaneFocus now root lane) \<Rightarrow> root = focus_root w | _ \<Rightarrow> False) ops))
     (lanes_data (run_plan F ops empty_store))) (lane_focus_data (run_plan F ops empty_store))"
  unfolding list_all_iff
proof
  let ?d = "run_plan F ops empty_store" and ?R = "\<lambda>root. \<not> list_ex (sets_focus root) ops"
  fix w assume w: "w \<in> set (lane_focus_data ?d)"
  have "keeps (focus_ok ?R) (plan_act F x)" if "x \<in> set ops" for x
    by (rule focus_plan_act) (use that in \<open>auto simp: list_ex_iff\<close>)
  moreover have "focus_ok ?R empty_store" by (simp add: focus_ok_def empty_store_def)
  ultimately have "focus_ok ?R ?d" by (rule run_keeps_these)
  then have live: "focus_lane w \<in> set (live_lanes ?d)" if "?R (focus_root w)"
    using w that by (auto simp: focus_ok_def)
  obtain l where "l \<in> set (lanes_data ?d)" "l_id l = focus_lane w"
    using focused_lane_exists [OF w] by (auto simp: image_iff)
  with live show "list_ex (\<lambda>l. l_id l = focus_lane w \<and>
       (list_ex (\<lambda>p. p_id p = l_phase l \<and> p_status p = ''in-progress'') (phases_data ?d)
        \<or> list_ex (\<lambda>x. case x of LaneOp (SetLaneFocus now root lane) \<Rightarrow> root = focus_root w | _ \<Rightarrow> False) ops)) (lanes_data ?d)"
    unfolding sets_focus_def by (fastforce simp: live_lanes_def live_phases_mem list_ex_iff)
qed

end
