(* ===== verification/Plan_Order.thy ===== *)
theory Plan_Order
  imports Plan_Focus
begin

text \<open>
  Where an entity goes among its siblings. The code computes a key between two neighbours' keys;
  the specification inserts a name into the list of the siblings' names. The laws are those the
  \<open>fractional_index\<close> crate documents: a key survives its text form, and there is a key before and
  after any key and between any two, in the order of the text forms.
\<close>

definition frac_laws :: "'k frac \<Rightarrow> bool" where
  "frac_laws F \<longleftrightarrow> (\<forall>k. key_parse F (key_show F k) = Some k
     \<and> key_show F (key_before F k) < key_show F k \<and> key_show F k < key_show F (key_after F k))
     \<and> (\<forall>a b. key_show F a < key_show F b \<longrightarrow> (\<exists>c. key_between F a b = Some c
           \<and> key_show F a < key_show F c \<and> key_show F c < key_show F b))"

section \<open>The specification: insertion into a list\<close>

definition insert_at :: "nat \<Rightarrow> 'a \<Rightarrow> 'a list \<Rightarrow> 'a list" where
  "insert_at i x xs = take i xs @ x # drop i xs"

definition place_index :: "string \<Rightarrow> string list \<Rightarrow> nat option" where
  "place_index position xs =
     (case strip_prefix ''before:'' position of
        Some anchor \<Rightarrow> index_of anchor xs
      | None \<Rightarrow> (case strip_prefix ''after:'' position of
          Some anchor \<Rightarrow> map_option Suc (index_of anchor xs)
        | None \<Rightarrow>
            (if position = ''top'' then Some 0
             else if position = ''bottom'' then Some (length xs)
             else map_option (\<lambda>i. min i (length xs)) (parse_usize position))))"

definition place :: "string \<Rightarrow> string \<Rightarrow> string list \<Rightarrow> string list option" where
  "place position x xs = map_option (\<lambda>i. insert_at i x xs) (place_index position xs)"

lemma index_of_Some: "index_of x xs = Some i \<Longrightarrow> i < length xs \<and> xs ! i = x"
  unfolding index_of_def Let_def by (auto split: if_splits dest: nth_length_takeWhile)

lemma place_index_bound: "place_index position xs = Some i \<Longrightarrow> i \<le> length xs"
  by (auto simp: place_index_def split: option.splits if_splits dest!: index_of_Some)

section \<open>Keys between neighbours\<close>

text \<open>Sibling rows in order: texts with the text forms of strictly increasing keys.\<close>

definition keyed :: "'k frac \<Rightarrow> (string \<times> string) list \<Rightarrow> bool" where
  "keyed F rows \<longleftrightarrow> (\<forall>r \<in> set rows. snd r \<in> range (key_show F)) \<and> sorted_wrt (<) (map snd rows)"

definition fits :: "'k frac \<Rightarrow> (string \<times> string) list \<Rightarrow> nat \<Rightarrow> 'k \<Rightarrow> bool" where
  "fits F rows i k \<longleftrightarrow> (\<forall>r \<in> set (take i rows). snd r < key_show F k) \<and> (\<forall>r \<in> set (drop i rows). key_show F k < snd r)"

lemma parse_shown: "frac_laws F \<Longrightarrow> s \<in> range (key_show F) \<Longrightarrow> \<exists>k. s = key_show F k \<and> parse_key F s = Inr k"
  by (auto simp: frac_laws_def parse_key_def)

lemma keyed_take: "sorted_wrt (<) (map snd rows) \<Longrightarrow> i < length rows \<Longrightarrow> r \<in> set (take i rows) \<Longrightarrow> snd r < (snd (rows ! i) :: string)"
  by (auto simp: in_set_conv_nth sorted_wrt_iff_nth_less)

lemma keyed_drop:
  assumes "sorted_wrt (<) (map snd rows)" "i < length rows" "r \<in> set (drop i rows)"
  shows "(snd (rows ! i) :: string) \<le> snd r"
proof -
  obtain n where n: "n < length rows - i" "r = rows ! (i + n)"
    using assms(3) by (auto simp: in_set_conv_nth)
  with assms(1,2) show ?thesis
    by (cases "n = 0") (auto simp: sorted_wrt_iff_nth_less intro!: less_imp_le)
qed

lemma key_before_first_fits:
  assumes "frac_laws F" "keyed F rows" "rows \<noteq> []"
  shows "\<exists>k. key_before_first F rows = Inr k \<and> fits F rows 0 k"
proof -
  obtain k where k: "snd (hd rows) = key_show F k" "parse_key F (snd (hd rows)) = Inr k"
    using parse_shown [OF assms(1)] assms(2,3) unfolding keyed_def by (meson hd_in_set)
  have "key_show F (key_before F k) < snd r" if "r \<in> set rows" for r
    using keyed_drop [of rows 0 r] assms that k by (auto simp: keyed_def frac_laws_def hd_conv_nth intro: less_le_trans)
  with k show ?thesis by (auto simp: key_before_first_def fits_def)
qed

lemma key_after_end_fits:
  assumes "frac_laws F" "keyed F rows" "rows \<noteq> []"
  shows "\<exists>k. key_after_end F rows = Inr k \<and> fits F rows (length rows) k"
proof -
  obtain k where k: "snd (last rows) = key_show F k" "parse_key F (snd (last rows)) = Inr k"
    using parse_shown [OF assms(1)] assms(2,3) unfolding keyed_def by (meson last_in_set)
  have le: "snd r \<le> snd (last rows)" if "r \<in> set rows" for r
  proof (cases "r \<in> set (take (length rows - 1) rows)")
    case True
    then show ?thesis using keyed_take [of rows "length rows - 1" r] assms(2,3) by (auto simp: keyed_def last_conv_nth)
  next
    case False
    with that assms(3) show ?thesis
      by (metis append_butlast_last_id butlast_conv_take in_set_butlastD order_refl rotate1.simps(2) set_ConsD set_rotate1)
  qed
  then have "snd r < key_show F (key_after F k)" if "r \<in> set rows" for r
    using le_less_trans [OF le [OF that]] assms(1) k by (auto simp: frac_laws_def)
  with k show ?thesis by (auto simp: key_after_end_def fits_def)
qed

lemma key_between_at_fits:
  assumes "frac_laws F" "keyed F rows" "0 < i" "i < length rows"
  shows "\<exists>k. key_between_at F rows i = Inr k \<and> fits F rows i k"
proof -
  obtain a b where a: "snd (rows ! (i - 1)) = key_show F a" "parse_key F (snd (rows ! (i - 1))) = Inr a"
    and b: "snd (rows ! i) = key_show F b" "parse_key F (snd (rows ! i)) = Inr b"
    using parse_shown [OF assms(1)] assms(2-4) unfolding keyed_def by (metis less_imp_diff_less nth_mem)
  have "key_show F a < key_show F b"
    using a(1) b(1) assms(2-4) sorted_wrt_nth_less [of "(<)" "map snd rows" "i - 1" i] by (simp add: keyed_def)
  then obtain c where c: "key_between F a b = Some c" "key_show F a < key_show F c" "key_show F c < key_show F b"
    using assms(1) unfolding frac_laws_def by blast
  have "snd r \<le> key_show F a" if "r \<in> set (take i rows)" for r
  proof (cases "r \<in> set (take (i - 1) rows)")
    case True
    then show ?thesis using keyed_take [of rows "i - 1" r] assms(2-4) a(1) by (auto simp: keyed_def intro: less_imp_le)
  next
    case False
    moreover have "take i rows = take (i - 1) rows @ [rows ! (i - 1)]"
      using assms(3,4) by (metis Suc_diff_1 less_imp_diff_less take_Suc_conv_app_nth)
    ultimately show ?thesis using that a(1) by auto
  qed
  moreover have "key_show F b \<le> snd r" if "r \<in> set (drop i rows)" for r
    using keyed_drop [of rows i r] assms(2,4) that b(1) by (simp add: keyed_def)
  ultimately show ?thesis
    using a b c by (fastforce simp: key_between_at_def fits_def intro: le_less_trans less_le_trans)
qed

lemma compute_position_fits:
  assumes "frac_laws F" "keyed F rows"
  shows "case place_index position (map fst rows) of
    None \<Rightarrow> \<exists>e. compute_position F position rows = Inl e
  | Some i \<Rightarrow> \<exists>k. compute_position F position rows = Inr k \<and> fits F rows i k"
proof -
  have mid: "\<exists>k. key_between_at F rows i = Inr k \<and> fits F rows i k" if "0 < i" "i < length rows" for i
    using key_between_at_fits assms that by blast
  have top: "\<exists>k. key_before_first F rows = Inr k \<and> fits F rows 0 k" if "rows \<noteq> []"
    using key_before_first_fits assms that by blast
  have bottom: "\<exists>k. key_after_end F rows = Inr k \<and> fits F rows (length rows) k" if "rows \<noteq> []"
    using key_after_end_fits assms that by blast
  have empty: "fits F [] i k" for i k by (simp add: fits_def)
  show ?thesis
  proof (cases "strip_prefix ''before:'' position")
    case (Some anchor)
    then show ?thesis
      using mid top by (cases "index_of anchor (map fst rows)")
        (auto simp: compute_position_def place_index_def simp del: strip_prefix_Some dest!: index_of_Some)
  next
    case before: None
    show ?thesis
    proof (cases "strip_prefix ''after:'' position")
      case (Some anchor)
      show ?thesis
      proof (cases "index_of anchor (map fst rows)")
        case (Some i)
        then have "i < length rows" using index_of_Some by fastforce
        then show ?thesis
          using before \<open>strip_prefix ''after:'' position = Some anchor\<close> Some mid [of "Suc i"] bottom
          by (cases "rows = []"; cases "Suc i = length rows") (auto simp: compute_position_def place_index_def simp del: strip_prefix_Some)
      qed (use before Some in \<open>simp add: compute_position_def place_index_def del: strip_prefix_Some\<close>)
    next
      case None
      show ?thesis
      proof (cases "position = ''top'' \<or> position = ''bottom''")
        case True
        then show ?thesis
          using before None top bottom empty by (cases "rows = []") (auto simp: compute_position_def place_index_def simp del: strip_prefix_Some)
      next
        case False
        show ?thesis
        proof (cases "parse_usize position")
          case (Some i)
          with False before None show ?thesis
            using top bottom empty mid [of i]
            by (cases "rows = []"; cases "i = 0"; cases "length rows \<le> i") (auto simp: compute_position_def place_index_def simp del: strip_prefix_Some min_def)
        qed (use before None False in \<open>simp add: compute_position_def place_index_def del: strip_prefix_Some\<close>)
      qed
    qed
  qed
qed

end
