(* ===== verification/Plan_Order_Keys.thy ===== *)
theory Plan_Order_Keys
  imports Plan_Order
begin

text \<open>
  The tables whose rows are ordered among the rows of one parent, as an interface: what the
  generic statements rely on, and that a reorder or a move under it is the insertion of
  \<^const>\<open>place\<close>, given keys that are distinct among siblings.
\<close>

section \<open>Orders\<close>

definition sibling_order :: "'r ordered_table \<Rightarrow> int \<Rightarrow> store \<Rightarrow> string list" where
  "sibling_order T parent d = map fst (siblings T parent d)"

definition keys_ok :: "'k frac \<Rightarrow> 'r ordered_table \<Rightarrow> 'r list \<Rightarrow> bool" where
  "keys_ok F T rows \<longleftrightarrow> (\<forall>r \<in> set rows. \<exists>k. row_key T r = Some (key_show F k)) \<and> distinct (map (\<lambda>r. (row_parent T r, row_key T r)) rows)"

definition entries :: "'r ordered_table \<Rightarrow> int \<Rightarrow> 'r list \<Rightarrow> (string \<times> string) list" where
  "entries T parent rows = map (\<lambda>r. (row_text T r, the (row_key T r))) (filter (\<lambda>r. row_parent T r = parent \<and> row_key T r \<noteq> None) rows)"

lemma insort_key_map: "insort_key g (f x) (map f xs) = map f (insort_key (g \<circ> f) x xs)"
  by (induction xs) auto

lemma sort_key_map: "sort_key g (map f xs) = map f (sort_key (g \<circ> f) xs)"
  by (induction xs) (auto simp: insort_key_map comp_def)

lemma siblings_entries: "siblings T parent d = sort_key snd (entries T parent (rows_of T d))"
  by (simp add: siblings_def entries_def sort_key_map comp_def)

lemma distinct_entries:
  assumes "keys_ok F T rows"
  shows "distinct (map snd (entries T parent rows))"
proof -
  have "distinct (map (\<lambda>r. (row_parent T r, row_key T r)) (filter (\<lambda>r. row_parent T r = parent \<and> row_key T r \<noteq> None) rows))"
    using assms by (simp add: keys_ok_def distinct_map_filter)
  then show ?thesis by (auto simp: entries_def distinct_map inj_on_def)
qed

lemma sort_key_strict:
  fixes xs :: "('a \<times> string) list"
  assumes "distinct (map snd xs)"
  shows "sorted_wrt (<) (map snd (sort_key snd xs))"
proof -
  have "distinct (map snd (sort_key snd xs))"
    using assms sort_key_map [of "\<lambda>x. x" snd xs] distinct_sort [of "\<lambda>x. x" "map snd xs"] by (simp add: comp_def del: distinct_sort)
  then show ?thesis by (simp add: strict_sorted_iff)
qed

lemma keyed_siblings:
  assumes "keys_ok F T (rows_of T d)"
  shows "keyed F (siblings T parent d)"
  using sort_key_strict [OF distinct_entries [OF assms]] assms
  by (fastforce simp: keyed_def siblings_entries entries_def keys_ok_def)

lemma sorted_unique:
  fixes xs ys :: "('a \<times> string) list"
  assumes "sorted_wrt (<) (map snd xs)" "sorted_wrt (<) (map snd ys)" "set xs = set ys"
  shows "xs = ys"
  using assms by (intro map_sorted_distinct_set_unique [of snd]) (auto simp: strict_sorted_iff distinct_map)

lemma keyed_insert_at:
  assumes "keyed F rows" "fits F rows i k"
  shows "sorted_wrt (<) (map snd (insert_at i (t, key_show F k) rows))"
proof -
  have "sorted_wrt (<) (map snd (take i rows @ drop i rows))" using assms(1) by (simp add: keyed_def)
  then have "sorted_wrt (<) (map snd (take i rows))" "sorted_wrt (<) (map snd (drop i rows))"
    "\<forall>x \<in> set (take i rows). \<forall>y \<in> set (drop i rows). snd x < snd y"
    by (simp_all only: map_append sorted_wrt_append list.set_map) auto
  with assms(2) show ?thesis by (auto simp: insert_at_def fits_def sorted_wrt_append)
qed

lemma keyed_filter: "keyed F rows \<Longrightarrow> keyed F (filter P rows)"
  by (induction rows) (auto simp: keyed_def)

lemma set_insert_at: "set (insert_at i x xs) = insert x (set xs)"
  by (metis append_take_drop_id insert_at_def set_append Un_insert_right list.simps(15))

lemma map_insert_at: "map f (insert_at i x xs) = insert_at i (f x) (map f xs)"
  by (simp add: insert_at_def take_map drop_map)

lemma distinct_upd_key:
  assumes "distinct (map text xs)" "distinct (map h xs)" "\<And>x. x \<in> set xs \<Longrightarrow> text x = t \<Longrightarrow> h (f x) = c" "\<And>x. x \<in> set xs \<Longrightarrow> text x \<noteq> t \<Longrightarrow> h x \<noteq> c"
  shows "distinct (map h (upd (\<lambda>x. text x = t) f xs))"
  using assms
proof (induction xs)
  case (Cons x xs)
  have same: "upd (\<lambda>x. text x = t) f xs = xs" if "text x = t"
    using Cons.prems(1) that by (auto simp: upd_def intro!: map_idI) (metis image_eqI)
  have sub: "h ` set (upd (\<lambda>x. text x = t) f xs) \<subseteq> insert c (h ` set xs)"
    using Cons.prems(3) by (auto simp: upd_def)
  show ?case
  proof (cases "text x = t")
    case True
    then have "c \<notin> h ` set xs" using Cons.prems(1,4) by (auto simp: image_iff) (metis image_eqI)
    with True same Cons.prems show ?thesis by (simp add: upd_def)
  next
    case False
    then have "h x \<notin> set (map h (upd (\<lambda>x. text x = t) f xs))" using sub Cons.prems(2,4) by auto
    moreover have "upd (\<lambda>x. text x = t) f (x # xs) = x # upd (\<lambda>x. text x = t) f xs" using False by (simp add: upd_def)
    ultimately show ?thesis using Cons by simp
  qed
qed (simp add: upd_def)

section \<open>The interface of an ordered table\<close>

locale keyed_rows =
  fixes T :: "'r ordered_table"
  assumes text_set_key [simp]: "row_text T (set_key T s r) = row_text T r"
    and key_set_key [simp]: "row_key T (set_key T s r) = Some s"
    and parent_set_key [simp]: "row_parent T (set_key T s r) = row_parent T r"
    and update_key: "store_ok d \<Longrightarrow> \<exists>d'. update_row T P (set_key T s) d = (d', Inr (length (filter P (rows_of T d))))
      \<and> rows_of T d' = upd P (set_key T s) (rows_of T d)"
    and unique_text: "store_ok d \<Longrightarrow> distinct (map (row_text T) (rows_of T d))"
begin

text \<open>A row given a key that fits among the other rows of a parent stands there, and nowhere else.\<close>

lemma placed:
  assumes rows: "distinct (map (row_text T) (rows_of T d))" "keys_ok F T (rows_of T d)"
    and row: "r \<in> set (rows_of T d)" "row_text T r = t"
    and f: "\<And>r. row_text T (f r) = row_text T r" "\<And>r. row_key T (f r) = Some (key_show F k)" "row_parent T (f r) = p"
    and fits: "fits F (filter (\<lambda>(i, _). i \<noteq> t) (siblings T p d)) i k"
    and d': "rows_of T d' = upd (\<lambda>r. row_text T r = t) f (rows_of T d)"
  shows "siblings T p d' = insert_at i (t, key_show F k) (filter (\<lambda>(i, _). i \<noteq> t) (siblings T p d))"
    and "q \<noteq> p \<Longrightarrow> siblings T q d' = filter (\<lambda>(i, _). i \<noteq> t) (siblings T q d)"
    and "keys_ok F T (rows_of T d')"
proof -
  let ?others = "filter (\<lambda>(i, _). i \<noteq> t) (siblings T p d)"
  have uniq: "x = r" if "x \<in> set (rows_of T d)" "row_text T x = t" for x
    using rows(1) row that by (auto simp: distinct_map dest: inj_onD)
  have others: "snd x \<noteq> key_show F k" if "x \<in> set ?others" for x
    using fits that by (metis append_take_drop_id fits_def set_append Un_iff less_irrefl)
  have other: "(row_parent T x, row_key T x) \<noteq> (p, Some (key_show F k))" if "x \<in> set (rows_of T d)" "row_text T x \<noteq> t" for x
    using others [of "(row_text T x, the (row_key T x))"] that by (force simp: siblings_entries entries_def)
  show ok: "keys_ok F T (rows_of T d')"
    unfolding keys_ok_def d'
  proof
    show "\<forall>x \<in> set (upd (\<lambda>r. row_text T r = t) f (rows_of T d)). \<exists>k. row_key T x = Some (key_show F k)"
      using rows(2) f(2) by (auto simp: set_upd keys_ok_def)
    show "distinct (map (\<lambda>r. (row_parent T r, row_key T r)) (upd (\<lambda>r. row_text T r = t) f (rows_of T d)))"
      by (rule distinct_upd_key [where c = "(p, Some (key_show F k))"])
        (use rows uniq f other in \<open>auto simp: keys_ok_def\<close>)
  qed
  show "siblings T p d' = insert_at i (t, key_show F k) ?others"
  proof (rule sorted_unique)
    show "sorted_wrt (<) (map snd (siblings T p d'))"
      using keyed_siblings [OF ok] by (simp add: keyed_def)
    show "sorted_wrt (<) (map snd (insert_at i (t, key_show F k) ?others))"
      by (rule keyed_insert_at [OF keyed_filter [OF keyed_siblings [OF rows(2)]] fits])
    show "set (siblings T p d') = set (insert_at i (t, key_show F k) ?others)"
    proof -
      have "{x \<in> set (rows_of T d). row_text T x = t} = {r}" using uniq row by blast
      then have rows': "set (rows_of T d') = insert (f r) {x \<in> set (rows_of T d). row_text T x \<noteq> t}"
        by (simp add: d' set_upd)
      have "{x \<in> set (rows_of T d'). row_parent T x = p \<and> row_key T x \<noteq> None} =
          insert (f r) {x \<in> set (rows_of T d). row_text T x \<noteq> t \<and> row_parent T x = p \<and> row_key T x \<noteq> None}"
        using f unfolding rows' by auto
      then have "set (siblings T p d') = insert (t, key_show F k) ((\<lambda>x. (row_text T x, the (row_key T x))) `
          {x \<in> set (rows_of T d). row_text T x \<noteq> t \<and> row_parent T x = p \<and> row_key T x \<noteq> None})"
        using f row(2) by (simp add: siblings_entries entries_def)
      also have "\<dots> = set (insert_at i (t, key_show F k) ?others)"
        by (auto simp: set_insert_at siblings_entries entries_def)
      finally show ?thesis .
    qed
  qed
  show "siblings T q d' = filter (\<lambda>(i, _). i \<noteq> t) (siblings T q d)" if "q \<noteq> p"
  proof -
    have "entries T q (upd (\<lambda>r. row_text T r = t) f xs) = filter (\<lambda>(i, _). i \<noteq> t) (entries T q xs)"
      if "set xs \<subseteq> set (rows_of T d)" for xs
      using that
    proof (induction xs)
      case (Cons x xs)
      then show ?case using uniq [of x] f(3) \<open>q \<noteq> p\<close> by (auto simp: entries_def upd_def)
    qed (simp add: entries_def upd_def)
    then show ?thesis by (simp add: siblings_entries d' filter_sort)
  qed
qed

text \<open>The two generic operations.\<close>

lemma map_fst_others: "map fst (filter (\<lambda>(i, _). i \<noteq> t) xs) = filter (\<lambda>x. x \<noteq> t) (map fst xs)"
  by (simp add: filter_map comp_def case_prod_unfold)

lemma others_names: "map fst (filter (\<lambda>(i, _). i \<noteq> t) (siblings T p d)) = filter (\<lambda>x. x \<noteq> t) (sibling_order T p d)"
  by (simp add: sibling_order_def map_fst_others)

lemma reorder_places:
  assumes "frac_laws F" "store_ok d" "keys_ok F T (rows_of T d)" "r \<in> set (rows_of T d)" "row_text T r = t" "row_parent T r = p"
  shows "case place position t (filter (\<lambda>x. x \<noteq> t) (sibling_order T p d)) of
      None \<Rightarrow> \<exists>e. reorder_entity F T t position p d = (d, Inl e)
    | Some xs \<Rightarrow> \<exists>d'. reorder_entity F T t position p d = (d', Inr ()) \<and> sibling_order T p d' = xs
        \<and> (\<forall>q. q \<noteq> p \<longrightarrow> sibling_order T q d' = filter (\<lambda>x. x \<noteq> t) (sibling_order T q d)) \<and> keys_ok F T (rows_of T d')"
proof -
  let ?others = "filter (\<lambda>(i, _). i \<noteq> t) (siblings T p d)"
  note at = compute_position_fits [OF assms(1) keyed_filter [OF keyed_siblings [OF assms(3)]], of position "\<lambda>(i, _). i \<noteq> t" p,
      unfolded others_names]
  show ?thesis
  proof (cases "place_index position (filter (\<lambda>x. x \<noteq> t) (sibling_order T p d))")
    case None
    with at show ?thesis
      by (auto simp: place_def reorder_entity_def bind_act_def ask_def lift_sum_def)
  next
    case (Some i)
    with at obtain k where k: "compute_position F position ?others = Inr k" "fits F ?others i k" by auto
    obtain d' where d': "update_row T (\<lambda>r. row_text T r = t) (set_key T (key_show F k)) d = (d', Inr (length (filter (\<lambda>r. row_text T r = t) (rows_of T d))))"
        "rows_of T d' = upd (\<lambda>r. row_text T r = t) (set_key T (key_show F k)) (rows_of T d)"
      using update_key [OF assms(2)] by blast
    note new = placed [OF unique_text [OF assms(2)] assms(3-5) _ _ _ k(2) d'(2)]
    have "reorder_entity F T t position p d = (d', Inr ())"
      using k(1) d'(1) by (simp add: reorder_entity_def bind_act_def ask_def lift_sum_def ok_def)
    moreover have "sibling_order T p d' = insert_at i t (filter (\<lambda>x. x \<noteq> t) (sibling_order T p d))"
      using new(1) assms(6) by (simp add: sibling_order_def map_insert_at map_fst_others)
    moreover have "sibling_order T q d' = filter (\<lambda>x. x \<noteq> t) (sibling_order T q d)" if "q \<noteq> p" for q
      using new(2) [of q] assms(6) that by (simp add: sibling_order_def map_fst_others)
    ultimately show ?thesis
      using new(3) assms(6) Some by (auto simp: place_def)
  qed
qed

lemma reorder_keys:
  assumes "frac_laws F" "store_ok d" "keys_ok F T (rows_of T d)" "r \<in> set (rows_of T d)"
  shows "fst (reorder_entity F T (row_text T r) position (row_parent T r) d) = d
    \<or> keys_ok F T (rows_of T (fst (reorder_entity F T (row_text T r) position (row_parent T r) d)))"
  using reorder_places [OF assms refl refl, of position] by (auto split: option.splits)

end

text \<open>A table whose rows also move to another parent.\<close>

locale movable_rows = keyed_rows +
  assumes text_set_parent [simp]: "row_text T (set_parent T i r) = row_text T r"
    and parent_set_parent [simp]: "row_parent T (set_parent T i r) = i"
    and update_place: "store_ok d \<Longrightarrow> \<exists>d'. update_row T P (set_key T s \<circ> set_parent T i) d = (d', Inr (length (filter P (rows_of T d))))
      \<and> rows_of T d' = upd P (set_key T s \<circ> set_parent T i) (rows_of T d)"
begin

lemma move_places:
  assumes "frac_laws F" "store_ok d" "keys_ok F T (rows_of T d)" "r \<in> set (rows_of T d)" "row_text T r = t"
  shows "case place (case position of None \<Rightarrow> ''bottom'' | Some x \<Rightarrow> x) t (filter (\<lambda>x. x \<noteq> t) (sibling_order T p d)) of
      None \<Rightarrow> \<exists>e. move_entity_to_parent F T t position p label d = (d, Inl e)
    | Some xs \<Rightarrow> \<exists>d'. move_entity_to_parent F T t position p label d = (d', Inr ()) \<and> sibling_order T p d' = xs
        \<and> (\<forall>q. q \<noteq> p \<longrightarrow> sibling_order T q d' = filter (\<lambda>x. x \<noteq> t) (sibling_order T q d)) \<and> keys_ok F T (rows_of T d')"
proof -
  let ?position = "case position of None \<Rightarrow> ''bottom'' | Some x \<Rightarrow> x"
  let ?others = "filter (\<lambda>(i, _). i \<noteq> t) (siblings T p d)"
  have "list_ex (\<lambda>r. row_text T r = t) (rows_of T d)" using assms(4,5) by (auto simp: list_ex_iff)
  note move = this move_entity_to_parent_def bind_act_def ask_def lift_sum_def ok_def demand_def
  note at = compute_position_fits [OF assms(1) keyed_filter [OF keyed_siblings [OF assms(3)]], of ?position "\<lambda>(i, _). i \<noteq> t" p,
      unfolded others_names]
  show ?thesis
  proof (cases "place_index ?position (filter (\<lambda>x. x \<noteq> t) (sibling_order T p d))")
    case None
    with at show ?thesis by (auto simp: place_def move)
  next
    case (Some i)
    with at obtain k where k: "compute_position F ?position ?others = Inr k" "fits F ?others i k" by auto
    obtain d' where d': "update_row T (\<lambda>r. row_text T r = t) (set_key T (key_show F k) \<circ> set_parent T p) d
          = (d', Inr (length (filter (\<lambda>r. row_text T r = t) (rows_of T d))))"
        "rows_of T d' = upd (\<lambda>r. row_text T r = t) (set_key T (key_show F k) \<circ> set_parent T p) (rows_of T d)"
      using update_place [OF assms(2)] by blast
    note new = placed [OF unique_text [OF assms(2)] assms(3-5) _ _ _ k(2) d'(2)]
    have "filter (\<lambda>r. row_text T r = t) (rows_of T d) \<noteq> []"
      using assms(4,5) by (auto simp: filter_empty_conv)
    then have "move_entity_to_parent F T t position p label d = (d', Inr ())"
      using k(1) d'(1) by (simp add: move)
    moreover have "sibling_order T p d' = insert_at i t (filter (\<lambda>x. x \<noteq> t) (sibling_order T p d))"
      using new(1) by (simp add: sibling_order_def map_insert_at map_fst_others)
    moreover have "sibling_order T q d' = filter (\<lambda>x. x \<noteq> t) (sibling_order T q d)" if "q \<noteq> p" for q
      using new(2) [of q] that by (simp add: sibling_order_def map_fst_others)
    ultimately show ?thesis
      using new(3) Some by (auto simp: place_def)
  qed
qed

lemma move_keys:
  assumes "frac_laws F" "store_ok d" "keys_ok F T (rows_of T d)"
  shows "fst (move_entity_to_parent F T t position p label d) = d
    \<or> keys_ok F T (rows_of T (fst (move_entity_to_parent F T t position p label d)))"
proof (cases "\<exists>r \<in> set (rows_of T d). row_text T r = t")
  case True
  then obtain r where "r \<in> set (rows_of T d)" "row_text T r = t" by blast
  from move_places [OF assms this, of position p label] show ?thesis by (auto split: option.splits)
next
  case False
  then show ?thesis by (auto simp: move_entity_to_parent_def bind_act_def demand_def list_ex_iff)
qed

end

section \<open>The tables of the plan\<close>

lemma upd_no_fail: "list_all good xs \<Longrightarrow> \<not> list_ex (\<lambda>r. P r \<and> \<not> good r) xs"
  by (auto simp: list_all_iff list_ex_iff)

lemma key_checks [simp]: "phase_check (p_key_update g r) = phase_check r" "phase_check (p_epoch_update h r) = phase_check r"
  "goal_check (g_key_update g r') = goal_check r'" "goal_check (g_phase_update h r') = goal_check r'"
  "task_check (t_key_update g r'') = task_check r''" "task_check (t_goal_update h r'') = task_check r''"
  by (simp_all add: phase_check_def goal_check_def task_check_def)

interpretation phase_order: movable_rows phases_table
  by unfold_locales
    (auto simp: phases_table_def update_phases_def update_rows_def store_ok_def unique_ok_def checks_ok_def upd_no_fail)

interpretation goal_order: movable_rows goals_table
  by unfold_locales
    (auto simp: goals_table_def update_goals_def update_rows_def store_ok_def unique_ok_def checks_ok_def upd_no_fail)

interpretation task_order: keyed_rows tasks_table
  by unfold_locales
    (auto simp: tasks_table_def update_tasks_def update_rows_def store_ok_def unique_ok_def checks_ok_def upd_no_fail)

text \<open>The epochs are ordered as the children of a single parent.\<close>

definition epochs_table :: "epoch_row ordered_table" where
  "epochs_table = \<lparr>rows_of = epochs_data, update_row = update_epochs, row_text = e_text, row_key = Some \<circ> e_key,
     set_key = (\<lambda>k. e_key_update (\<lambda>_. k)), row_parent = (\<lambda>_. 0), set_parent = (\<lambda>_. id)\<rparr>"

interpretation epoch_order: keyed_rows epochs_table
  by unfold_locales (auto simp: epochs_table_def update_epochs_def update_rows_def store_ok_def unique_ok_def list_ex_iff)

lemma reorder_epoch_entity:
  "reorder_epoch F t position = bind_act (found (epoch_row_id t) (NotFoundError ''Epoch'' t)) (\<lambda>_. reorder_entity F epochs_table t position 0)"
proof -
  have "siblings epochs_table 0 = (\<lambda>d. map (\<lambda>e. (e_text e, e_key e)) (sort_key e_key (epochs_data d)))"
    by (simp add: siblings_def epochs_table_def comp_def fun_eq_iff)
  then show ?thesis by (simp add: reorder_epoch_def reorder_entity_def) (simp add: epochs_table_def)
qed

end
