(* ===== verification/Plan_Order_Inv.thy ===== *)
theory Plan_Order_Inv
  imports Plan_Order_Keys
begin

text \<open>
  In every plan the writer produces, siblings have distinct keys, each the text form of a key of
  the crate: an insert goes after the last sibling, a move between two of them.
\<close>

section \<open>The condition\<close>

definition all_keys :: "'k frac \<Rightarrow> store \<Rightarrow> bool" where
  "all_keys F d \<longleftrightarrow> keys_ok F epochs_table (epochs_data d) \<and> keys_ok F phases_table (phases_data d)
     \<and> keys_ok F goals_table (goals_data d) \<and> keys_ok F tasks_table (tasks_data d)"

lemma keys_ok_upd:
  "keys_ok F T rows \<Longrightarrow> (\<And>r. row_parent T (f r) = row_parent T r) \<Longrightarrow> (\<And>r. row_key T (f r) = row_key T r) \<Longrightarrow> keys_ok F T (upd P f rows)"
  by (auto simp: keys_ok_def map_upd set_upd)

lemma keys_ok_filter: "keys_ok F T rows \<Longrightarrow> keys_ok F T (filter P rows)"
  by (auto simp: keys_ok_def distinct_map_filter)

lemma keys_ok_append:
  "keys_ok F T rows \<Longrightarrow> row_key T r = Some (key_show F k) \<Longrightarrow> (row_parent T r, row_key T r) \<notin> (\<lambda>r. (row_parent T r, row_key T r)) ` set rows \<Longrightarrow>
   keys_ok F T (rows @ [r])"
  by (auto simp: keys_ok_def)

section \<open>Statements\<close>

definition same_ranks :: "store \<Rightarrow> store \<Rightarrow> bool" where
  "same_ranks d d' \<longleftrightarrow> epochs_data d' = epochs_data d \<and> phases_data d' = phases_data d \<and> goals_data d' = goals_data d
     \<and> tasks_data d' = tasks_data d"

lemma keeps_same_ranks:
  assumes "\<And>d. wp m (\<lambda>_. same_ranks d) (same_ranks d) d"
  shows "keeps (all_keys F) m"
  by (rule keepsI, rule wp_mono, rule assms) (auto simp: same_ranks_def all_keys_def)

lemma keys_other [keeps_intros]:
  "keeps (all_keys F) (update_pin w p now)" "keeps (all_keys F) (update_focus w p now)" "keeps (all_keys F) (update_lanes P f)"
  "keeps (all_keys F) (insert_pin w p now)" "keeps (all_keys F) (insert_focus w p now)" "keeps (all_keys F) (insert_lane l)"
  "keeps (all_keys F) (insert_alias k i a)" "keeps (all_keys F) (insert_phase_rfc r)" "keeps (all_keys F) (delete_aliases Q)"
  "keeps (all_keys F) (delete_focus R)" "keeps (all_keys F) (delete_lanes P)"
  unfolding update_pin_def update_focus_def update_lanes_def insert_pin_def insert_focus_def insert_lane_def insert_alias_def
    insert_phase_rfc_def delete_aliases_def delete_focus_def delete_lanes_def
  by (rule keeps_same_ranks, simp add: wp_update_rows same_ranks_def)+

lemma keys_update_epochs [keeps_intros]: "(\<And>r. e_key (f r) = e_key r) \<Longrightarrow> keeps (all_keys F) (update_epochs P f)"
  unfolding update_epochs_def
  by (rule keepsI) (auto simp: wp_update_rows all_keys_def epochs_table_def intro!: keys_ok_upd)

lemma keys_update_phases [keeps_intros]:
  "(\<And>r. p_key (f r) = p_key r) \<Longrightarrow> (\<And>r. p_epoch (f r) = p_epoch r) \<Longrightarrow> keeps (all_keys F) (update_phases P f)"
  unfolding update_phases_def
  by (rule keepsI) (auto simp: wp_update_rows all_keys_def phases_table_def intro!: keys_ok_upd)

lemma keys_update_goals [keeps_intros]:
  "(\<And>r. g_key (f r) = g_key r) \<Longrightarrow> (\<And>r. g_phase (f r) = g_phase r) \<Longrightarrow> keeps (all_keys F) (update_goals P f)"
  unfolding update_goals_def
  by (rule keepsI) (auto simp: wp_update_rows all_keys_def goals_table_def intro!: keys_ok_upd)

lemma keys_update_tasks [keeps_intros]:
  "(\<And>r. t_key (f r) = t_key r) \<Longrightarrow> (\<And>r. t_goal (f r) = t_goal r) \<Longrightarrow> keeps (all_keys F) (update_tasks P f)"
  unfolding update_tasks_def
  by (rule keepsI) (auto simp: wp_update_rows all_keys_def tasks_table_def intro!: keys_ok_upd)

lemma keys_deletes [keeps_intros]: "keeps (all_keys F) (delete_epoch t)" "keeps (all_keys F) (delete_phase t)"
  "keeps (all_keys F) (delete_goal t)" "keeps (all_keys F) (delete_task i)"
  unfolding delete_epoch_def delete_phase_def delete_goal_def delete_task_def
  by (rule keepsI, simp add: all_keys_def drop_defs keys_ok_filter)+

text \<open>An insert whose key follows the siblings'.\<close>

definition ranked :: "'k frac \<Rightarrow> 'r ordered_table \<Rightarrow> int \<Rightarrow> string \<Rightarrow> store \<Rightarrow> bool" where
  "ranked F T p s d \<longleftrightarrow> all_keys F d \<and> s \<in> range (key_show F) \<and> (p, Some s) \<notin> (\<lambda>r. (row_parent T r, row_key T r)) ` set (rows_of T d)"

lemma key_after_last_fresh:
  assumes "frac_laws F" "\<forall>s \<in> set keys. s \<in> range (key_show F)"
  shows "\<exists>s. key_after_last F keys = Inr s \<and> s \<in> range (key_show F) \<and> s \<notin> set keys"
proof (cases "keys = []")
  case False
  then obtain k where k: "Max (set keys) = key_show F k" "parse_key F (Max (set keys)) = Inr k"
    using parse_shown [OF assms(1)] assms(2) by (meson List.finite_set Max_in set_empty)
  have "s < key_show F (key_after F k)" if "s \<in> set keys" for s
    using assms(1) k(1) Max_ge [OF List.finite_set that] by (auto simp: frac_laws_def intro: le_less_trans)
  with k False show ?thesis by (auto simp: key_after_last_def)
qed (simp add: key_after_last_def)

lemma sibling_keys:
  assumes "keys_ok F T (rows_of T d)"
  shows "\<forall>s \<in> set (map snd (siblings T p d)). s \<in> range (key_show F)"
    and "s \<notin> set (map snd (siblings T p d)) \<Longrightarrow> (p, Some s) \<notin> (\<lambda>r. (row_parent T r, row_key T r)) ` set (rows_of T d)"
proof -
  show "\<forall>s \<in> set (map snd (siblings T p d)). s \<in> range (key_show F)"
    using keyed_siblings [OF assms, of p] by (auto simp: keyed_def)
  show "s \<notin> set (map snd (siblings T p d)) \<Longrightarrow> (p, Some s) \<notin> (\<lambda>r. (row_parent T r, row_key T r)) ` set (rows_of T d)"
    by (auto simp: siblings_entries entries_def image_iff) (metis option.distinct(1) option.sel)
qed

lemma wp_append_sort_key:
  assumes "frac_laws F" "all_keys F d" "keys_ok F T (rows_of T d)"
  shows "wp (append_sort_key F T p) (ranked F T p) (all_keys F) d"
proof -
  obtain s where "key_after_last F (map snd (siblings T p d)) = Inr s" "s \<in> range (key_show F)" "s \<notin> set (map snd (siblings T p d))"
    using key_after_last_fresh [OF assms(1) sibling_keys(1) [OF assms(3)]] by blast
  with assms(2) sibling_keys(2) [OF assms(3)] show ?thesis
    by (simp add: append_sort_key_def ranked_def)
qed

lemma wp_insert_ranked:
  "ranked F epochs_table 0 (e_key e) d \<Longrightarrow> wp (insert_epoch e) (\<lambda>_. all_keys F) (all_keys F) d"
  "ranked F phases_table (p_epoch p) s d \<Longrightarrow> p_key p = Some s \<Longrightarrow> wp (insert_phase p) (\<lambda>_. all_keys F) (all_keys F) d"
  "ranked F goals_table (g_phase g) s d \<Longrightarrow> g_key g = Some s \<Longrightarrow> wp (insert_goal g) (\<lambda>_. all_keys F) (all_keys F) d"
  "ranked F tasks_table (t_goal t) s d \<Longrightarrow> t_key t = Some s \<Longrightarrow> wp (insert_task t) (\<lambda>_. all_keys F) (all_keys F) d"
  unfolding insert_epoch_def insert_phase_def insert_goal_def insert_task_def
  by (simp, fastforce simp: ranked_def all_keys_def epochs_table_def phases_table_def goals_table_def tasks_table_def
      intro!: keys_ok_append)+

lemma keys_appended:
  assumes "frac_laws F" "\<And>d. all_keys F d \<Longrightarrow> keys_ok F T (rows_of T d)"
    "\<And>s d. ranked F T p s d \<Longrightarrow> wp (m s) (\<lambda>_. all_keys F) (all_keys F) d" "\<And>i. keeps (all_keys F) (rest i)"
  shows "keeps (all_keys F) (bind_act (append_sort_key F T p) (\<lambda>s. bind_act (m s) rest))"
  by (rule keepsI, rule wp_bindI, rule wp_append_sort_key)
    (use assms in \<open>auto intro: wp_mono [OF assms(3)] keeps_wp simp del: wp_bind intro!: wp_bindI\<close>)

lemma keys_small [keeps_intros]: "keeps (all_keys F) m \<Longrightarrow> keeps (all_keys F) (expect_rows label t m)"
  "keeps (all_keys F) m' \<Longrightarrow> keeps (all_keys F) (expect_task row m')"
  unfolding expect_rows_def expect_task_def by ((intro keeps_intros; assumption?); auto intro: keeps_intros)+

lemma keys_resolve [keeps_intros]: "keeps (all_keys F) (resolve_epoch t)" "keeps (all_keys F) (resolve_phase t)"
  "keeps (all_keys F) (resolve_goal t)" "keeps (all_keys F) (resolve_lane t)" "keeps (all_keys F) (resolve_task_row t)"
  "keeps (all_keys F) (lane_state_error t)" "keeps (all_keys F) (require_lane_phase_in_progress t p)"
  unfolding resolve_epoch_def resolve_phase_def resolve_goal_def resolve_lane_def resolve_task_row_def lane_state_error_def
    require_lane_phase_in_progress_def
  by (intro keeps_intros; auto intro: keeps_intros split: option.split)+

lemma keys_add_phase: "frac_laws F \<Longrightarrow> keeps (all_keys F) (add_phase F tid epoch title kind slug as)"
  unfolding add_phase_def
  by (rule keeps_bind [OF keys_resolve(1)], rule keys_appended)
    (auto intro!: keeps_intros wp_insert_ranked(2) simp: all_keys_def phases_table_def)

lemma keys_add_goal: "frac_laws F \<Longrightarrow> keeps (all_keys F) (add_goal F p g label rfc target kind desc at slug as)"
  unfolding add_goal_def
  by (rule keeps_bind [OF keys_resolve(2)], rule keys_appended)
    (auto intro!: keeps_intros wp_insert_ranked(3) simp: all_keys_def goals_table_def)

lemma keys_add_strike: "frac_laws F \<Longrightarrow> keeps (all_keys F) (add_strike_goal F now p g label desc)"
  unfolding add_strike_goal_def update_goal_status_def
  by (auto intro!: keeps_intros keys_add_goal)

lemma keys_add_task: "frac_laws F \<Longrightarrow> keeps (all_keys F) (add_task F g t title notes)"
proof -
  assume F: "frac_laws F"
  have "keeps (all_keys F) (bind_act (append_sort_key F tasks_table i) (\<lambda>key. bind_act (insert_task
      \<lparr>t_id = 0, t_text = t, t_title = title, t_status = ''pending'', t_goal = i, t_completed_at = None,
         t_completion_log = None, t_slug = None, t_key = Some key, t_notes = notes, t_started_at = None\<rparr>) (\<lambda>_. ok t)))" for i
    by (rule keys_appended [OF F]) (auto intro!: keeps_intros wp_insert_ranked(4) simp: all_keys_def tasks_table_def)
  then show ?thesis
    unfolding add_task_def task_handle_conflicts_def goal_reference_handles_def
    by (intro keeps_bind keys_resolve keeps_basic) (auto intro!: keeps_basic)
qed

lemma keys_add_epoch: "frac_laws F \<Longrightarrow> keeps (all_keys F) (add_epoch F t title slug as)"
proof (rule keepsI)
  fix d assume F: "frac_laws F" and d: "all_keys F d"
  let ?keys = "map e_key (epochs_data d)"
  have "\<forall>s \<in> set ?keys. s \<in> range (key_show F)"
    using d by (auto simp: all_keys_def keys_ok_def epochs_table_def)
  then obtain s where s: "key_after_last F ?keys = Inr s" "s \<in> range (key_show F)" "s \<notin> set ?keys"
    using key_after_last_fresh [OF F] by blast
  then have "ranked F epochs_table 0 s d"
    using d by (auto simp: ranked_def epochs_table_def)
  then have "wp (insert_epoch \<lparr>e_id = 0, e_text = t, e_title = title, e_slug = slug, e_reviewed = False, e_key = s\<rparr>)
      (\<lambda>i. wp (bind_act (for_each (insert_alias EpochKind i) as) (\<lambda>_. ok t)) (\<lambda>_. all_keys F) (all_keys F)) (all_keys F) d"
    by (intro wp_mono [OF wp_insert_ranked(1)]) (auto intro!: keeps_wp keeps_intros simp del: wp_bind)
  with s d show "wp (add_epoch F t title slug as) (\<lambda>_. all_keys F) (all_keys F) d"
    by (simp add: add_epoch_def)
qed

section \<open>Moves\<close>

definition ordered :: "'k frac \<Rightarrow> store \<Rightarrow> bool" where
  "ordered F d \<longleftrightarrow> store_ok d \<and> all_keys F d"

lemma keeps_both: "keeps store_ok m \<Longrightarrow> keeps (all_keys F) m \<Longrightarrow> keeps (ordered F) m"
  by (auto simp: keeps_def ordered_def wp_def split: prod.splits sum.splits)

text \<open>A write of one table leaves the others.\<close>

lemma table_frames [keeps_intros]:
  "keeps (\<lambda>d. (phases_data d, goals_data d, tasks_data d) = x1) (update_epochs P1 f1)"
  "keeps (\<lambda>d. (epochs_data d, goals_data d, tasks_data d) = x2) (update_phases P2 f2)"
  "keeps (\<lambda>d. (epochs_data d, phases_data d, tasks_data d) = x3) (update_goals P3 f3)"
  "keeps (\<lambda>d. (epochs_data d, phases_data d, goals_data d) = x4) (update_tasks P4 f4)"
  unfolding update_epochs_def update_phases_def update_goals_def update_tasks_def
  by (rule keepsI, auto simp: wp_update_rows)+

lemma reorder_frames:
  "keeps (\<lambda>d. (phases_data d, goals_data d, tasks_data d) = x1) (reorder_entity F epochs_table t pos p)"
  "keeps (\<lambda>d. (epochs_data d, goals_data d, tasks_data d) = x2) (reorder_entity F phases_table t pos p)"
  "keeps (\<lambda>d. (epochs_data d, phases_data d, tasks_data d) = x3) (reorder_entity F goals_table t pos p)"
  "keeps (\<lambda>d. (epochs_data d, phases_data d, goals_data d) = x4) (reorder_entity F tasks_table t pos p)"
  "keeps (\<lambda>d. (epochs_data d, goals_data d, tasks_data d) = x5) (move_entity_to_parent F phases_table t mpos p label)"
  "keeps (\<lambda>d. (epochs_data d, phases_data d, tasks_data d) = x6) (move_entity_to_parent F goals_table t mpos p label)"
  unfolding reorder_entity_def move_entity_to_parent_def epochs_table_def phases_table_def goals_table_def tasks_table_def
  by (simp, intro keeps_intros; auto intro: keeps_intros)+

lemma table_columns [simp]:
  "rows_of epochs_table = epochs_data" "row_text epochs_table = e_text" "row_parent epochs_table = (\<lambda>_. 0)"
  "rows_of phases_table = phases_data" "row_text phases_table = p_text" "row_parent phases_table = p_epoch"
  "rows_of goals_table = goals_data" "row_text goals_table = g_text" "row_parent goals_table = g_phase"
  "rows_of tasks_table = tasks_data" "row_text tasks_table = t_text" "row_parent tasks_table = t_goal"
  by (simp_all add: epochs_table_def phases_table_def goals_table_def tasks_table_def)

lemma keys_after:
  assumes "fst (m d) = d \<or> keys_ok F T (rows_of T (fst (m d)))" "all_keys F d" "keeps (\<lambda>d'. h d' = h d) m"
    "\<And>d'. h d' = h d \<Longrightarrow> keys_ok F T (rows_of T d') \<Longrightarrow> all_keys F d'"
  shows "wp m (\<lambda>_. all_keys F) (all_keys F) d"
  using assms keepsD [OF assms(3)] by (auto simp: wp_fst)

lemma reordered_keys:
  assumes "frac_laws F" "ordered F d"
  shows "e \<in> set (epochs_data d) \<Longrightarrow> wp (reorder_entity F epochs_table (e_text e) pos 0) (\<lambda>_. all_keys F) (all_keys F) d"
    "p \<in> set (phases_data d) \<Longrightarrow> wp (reorder_entity F phases_table (p_text p) pos (p_epoch p)) (\<lambda>_. all_keys F) (all_keys F) d"
    "g \<in> set (goals_data d) \<Longrightarrow> wp (reorder_entity F goals_table (g_text g) pos (g_phase g)) (\<lambda>_. all_keys F) (all_keys F) d"
    "t \<in> set (tasks_data d) \<Longrightarrow> wp (reorder_entity F tasks_table (t_text t) pos (t_goal t)) (\<lambda>_. all_keys F) (all_keys F) d"
proof -
  have d: "store_ok d" "all_keys F d" using assms(2) by (auto simp: ordered_def)
  show "e \<in> set (epochs_data d) \<Longrightarrow> wp (reorder_entity F epochs_table (e_text e) pos 0) (\<lambda>_. all_keys F) (all_keys F) d"
    using epoch_order.reorder_keys [OF assms(1) d(1), of e pos] d(2)
    by (intro keys_after [OF _ d(2) reorder_frames(1), where T = epochs_table]) (auto simp: all_keys_def)
  show "p \<in> set (phases_data d) \<Longrightarrow> wp (reorder_entity F phases_table (p_text p) pos (p_epoch p)) (\<lambda>_. all_keys F) (all_keys F) d"
    using phase_order.reorder_keys [OF assms(1) d(1), of p pos] d(2)
    by (intro keys_after [OF _ d(2) reorder_frames(2), where T = phases_table]) (auto simp: all_keys_def)
  show "g \<in> set (goals_data d) \<Longrightarrow> wp (reorder_entity F goals_table (g_text g) pos (g_phase g)) (\<lambda>_. all_keys F) (all_keys F) d"
    using goal_order.reorder_keys [OF assms(1) d(1), of g pos] d(2)
    by (intro keys_after [OF _ d(2) reorder_frames(3), where T = goals_table]) (auto simp: all_keys_def)
  show "t \<in> set (tasks_data d) \<Longrightarrow> wp (reorder_entity F tasks_table (t_text t) pos (t_goal t)) (\<lambda>_. all_keys F) (all_keys F) d"
    using task_order.reorder_keys [OF assms(1) d(1), of t pos] d(2)
    by (intro keys_after [OF _ d(2) reorder_frames(4), where T = tasks_table]) (auto simp: all_keys_def)
qed

lemma moved_keys:
  assumes "frac_laws F" "ordered F d"
  shows "wp (move_entity_to_parent F phases_table t pos p label) (\<lambda>_. all_keys F) (all_keys F) d"
    "wp (move_entity_to_parent F goals_table t pos p label) (\<lambda>_. all_keys F) (all_keys F) d"
proof -
  have d: "store_ok d" "all_keys F d" using assms(2) by (auto simp: ordered_def)
  show "wp (move_entity_to_parent F phases_table t pos p label) (\<lambda>_. all_keys F) (all_keys F) d"
    using phase_order.move_keys [OF assms(1) d(1), of t pos p label] d(2)
    by (intro keys_after [OF _ d(2) reorder_frames(5), where T = phases_table]) (auto simp: all_keys_def)
  show "wp (move_entity_to_parent F goals_table t pos p label) (\<lambda>_. all_keys F) (all_keys F) d"
    using goal_order.move_keys [OF assms(1) d(1), of t pos p label] d(2)
    by (intro keys_after [OF _ d(2) reorder_frames(6), where T = goals_table]) (auto simp: all_keys_def)
qed

lemma keeps_ordered:
  assumes "keeps store_ok m" "\<And>d. ordered F d \<Longrightarrow> wp m (\<lambda>_. all_keys F) (all_keys F) d"
  shows "keeps (ordered F) m"
  using assms by (auto simp: keeps_def ordered_def wp_fst)

lemma ordered_moves:
  assumes F: "frac_laws F"
  shows "keeps (ordered F) (reorder_epoch F t pos)" "keeps (ordered F) (reorder_phase F t pos)" "keeps (ordered F) (reorder_goal F t pos)"
    "keeps (ordered F) (reorder_task F t pos)" "keeps (ordered F) (move_phase_to_epoch F t e mpos)"
    "keeps (ordered F) (move_goal_to_phase_position F t p mpos)"
    "keeps (ordered F) (reorder_task_by_row_id F row pos)"
proof -
  show "keeps (ordered F) (reorder_epoch F t pos)"
    by (rule keeps_ordered, rule keeps_reorder_epoch)
      (auto simp: ordered_def reorder_epoch_entity epoch_row_id_def split: option.split dest!: find_SomeD intro!: reordered_keys(1) [OF F])
  show "keeps (ordered F) (reorder_phase F t pos)"
    by (rule keeps_ordered, rule keeps_reorder_phase)
      (auto simp: ordered_def reorder_phase_def split: option.split dest!: find_SomeD intro!: reordered_keys(2) [OF F])
  show "keeps (ordered F) (reorder_goal F t pos)"
    by (rule keeps_ordered, rule keeps_reorder_goal)
      (auto simp: ordered_def reorder_goal_def split: option.split dest!: find_SomeD intro!: reordered_keys(3) [OF F])
  show "keeps (ordered F) (reorder_task F t pos)"
    by (rule keeps_ordered, rule keeps_task_by_reference)
      (auto simp: ordered_def reorder_task_def reorder_task_by_row_id_def resolve_task_row_def split: option.split dest!: find_SomeD
        intro!: reordered_keys(4) [OF F])
  show "keeps (ordered F) (reorder_task_by_row_id F row pos)"
    by (rule keeps_ordered, rule keeps_reorder_task_by_row_id)
      (auto simp: ordered_def reorder_task_by_row_id_def split: option.split dest!: find_SomeD intro!: reordered_keys(4) [OF F])
  show "keeps (ordered F) (move_phase_to_epoch F t e mpos)"
    by (rule keeps_ordered, rule keeps_move_phase_to_epoch)
      (auto simp: ordered_def move_phase_to_epoch_def split: option.split intro!: moved_keys [OF F])
  show "keeps (ordered F) (move_goal_to_phase_position F t p mpos)"
    by (rule keeps_ordered, rule keeps_move_goal_to_phase_position)
      (auto simp: ordered_def move_goal_to_phase_position_def split: option.split intro!: moved_keys [OF F])
qed

section \<open>Operations that leave the order of what stays\<close>

lemma keys_changes [keeps_intros]: "keeps (all_keys F) (change (phase_rfcs_data_update g1))" "keeps (all_keys F) (change (active_phase_data_update g2))"
  "keeps (all_keys F) (change (entity_refs_update g3))" "keeps (all_keys F) (change (task_logs_update g4))"
  "keeps (all_keys F) (change (task_verifications_update g5))"
  by (rule keeps_same_ranks, simp add: same_ranks_def)+

lemma keys_delete_entity_aliases [keeps_intros]: "keeps (all_keys F) (delete_entity_aliases k r)"
  unfolding delete_entity_aliases_def delete_kind_aliases_def
  by (auto intro!: keeps_intros split: option.split entity_kind.split)

lemma keys_epochs [keeps_intros]: "keeps (all_keys F) (remove_epoch t)"
  "keeps (all_keys F) (update_epoch_reviewed t b)" "keeps (all_keys F) (update_epoch_title t title)" "keeps (all_keys F) (bankrupt_epoch t)"
  unfolding remove_epoch_def update_epoch_reviewed_def update_epoch_title_def bankrupt_epoch_def clear_focus_on_def
  by (intro keeps_intros; simp)+

lemma keys_phases [keeps_intros]: "keeps (all_keys F) (remove_phase t)" "keeps (all_keys F) (update_phase_status now t status)"
  "keeps (all_keys F) (update_phase_title t title)" "keeps (all_keys F) (replace_phase_rfcs t rfcs)"
  "keeps (all_keys F) (complete_phase_and_clear_lane_focus now t)"
  unfolding remove_phase_def update_phase_status_def update_phase_title_def replace_phase_rfcs_def
    complete_phase_and_clear_lane_focus_def clear_focus_on_def
  by (intro keeps_intros; auto intro: keeps_intros)+

lemma keys_goals [keeps_intros]: "keeps (all_keys F) (update_goal_status g status)"
  "keeps (all_keys F) (remove_goal g)" "keeps (all_keys F) (update_goal_label g label)" "keeps (all_keys F) (update_goal_completion_log g log)"
  unfolding update_goal_status_def remove_goal_def update_goal_label_def update_goal_completion_log_def
  by (intro keeps_intros; simp)+

lemma keys_task_rows [keeps_intros]: "keeps (all_keys F) (remove_task_by_row_id row)" "keeps (all_keys F) (update_task_status_by_row_id now row status)"
  "keeps (all_keys F) (update_task_title_by_row_id row title)" "keeps (all_keys F) (complete_task_by_row_id now row log)"
  "keeps (all_keys F) (add_task_log_by_row_id row kind message)" "keeps (all_keys F) (rename_task_handle row old new)"
  unfolding remove_task_by_row_id_def update_task_status_by_row_id_def update_task_title_by_row_id_def complete_task_by_row_id_def
    add_task_log_by_row_id_def rename_task_handle_def task_exists_def
  by (intro keeps_intros; auto intro!: keeps_intros)+

lemma keys_tasks [keeps_intros]: "keeps (all_keys F) (remove_task t)"
  "keeps (all_keys F) (update_task_status now t status)" "keeps (all_keys F) (update_task_title t title)" "keeps (all_keys F) (complete_task now t log)"
  "keeps (all_keys F) (add_task_log t kind message)" "keeps (all_keys F) (add_task_verification t kind command result detail)"
  unfolding remove_task_def update_task_status_def update_task_title_def complete_task_def add_task_log_def
    add_task_verification_def task_exists_def
  by (intro keeps_intros; auto intro!: keeps_intros)+

lemma keys_pin [keeps_intros]: "keeps (all_keys F) (set_workspace_active_phase now w phase)"
  "keeps (all_keys F) (set_workspace_lane_focus now w phase)" "keeps (all_keys F) (start_workbench_lane now t)"
  "keeps (all_keys F) (clear_workspace_active_phase w)" "keeps (all_keys F) (clear_workspace_lane_focus w)"
  unfolding set_workspace_active_phase_def set_workspace_lane_focus_def start_workbench_lane_def clear_workspace_active_phase_def
    clear_workspace_lane_focus_def
  by (intro keeps_intros; auto intro!: keeps_intros)+

lemma keys_lanes [keeps_intros]:
  "keeps (all_keys F) (focus_phase_for_workspace now w phase)"
  "keeps (all_keys F) (add_workbench_lane now t title purpose phase)"
  "keeps (all_keys F) (remove_prepared_workbench_lane t)"
  "keeps (all_keys F) (focus_workbench_lane now w lane phase)" "keeps (all_keys F) (start_and_focus_workbench_lane now w lane phase)"
  unfolding focus_phase_for_workspace_def add_workbench_lane_def
    remove_prepared_workbench_lane_def focus_workbench_lane_def start_and_focus_workbench_lane_def
  by (intro keeps_intros; auto intro!: keeps_intros split: option.split)+

section \<open>Every plan\<close>

lemma ordered_plan_act:
  assumes F: "frac_laws F"
  shows "keeps (ordered F) (plan_act F x)"
proof -
  note adds = keys_add_epoch [OF F] keys_add_phase [OF F] keys_add_goal [OF F] keys_add_strike [OF F] keys_add_task [OF F]
  note both = keeps_both [OF keeps_plan_act]
  show ?thesis
  proof (cases x)
    case (EpochOp y)
    then show ?thesis using both [of F F x] by (cases y) (auto intro: keeps_intros adds ordered_moves [OF F])
  next
    case (PhaseOp y)
    then show ?thesis using both [of F F x] by (cases y) (auto intro: keeps_intros adds ordered_moves [OF F])
  next
    case (LaneOp y)
    then show ?thesis using both [of F F x] by (cases y) (auto intro: keeps_intros)
  next
    case (GoalOp y)
    then show ?thesis using both [of F F x] by (cases y) (auto intro: keeps_intros adds ordered_moves [OF F])
  next
    case (TaskOp y)
    then show ?thesis using both [of F F x] by (cases y) (auto intro: keeps_intros adds ordered_moves [OF F])
  qed
qed

lemma ordered_run: "frac_laws F \<Longrightarrow> ordered F (run_plan F ops empty_store)"
  by (rule run_keeps, erule ordered_plan_act)
    (simp add: ordered_def store_ok_empty, simp add: all_keys_def keys_ok_def empty_store_def)

end
