(* ===== verification/Plan_Order_Facts.thy ===== *)
theory Plan_Order_Facts
  imports Plan_Order_Inv
begin

text \<open>
  Reordering and moving in every plan the writer produces, and a set of keys with the laws.
\<close>

section \<open>Keys with the laws\<close>

text \<open>A key is a word over two letters, written with a closing B.\<close>

definition word_show :: "bool list \<Rightarrow> string" where
  "word_show w = map (\<lambda>b. if b then CHR ''B'' else CHR ''A'') w @ ''B''"

definition word_parse :: "string \<Rightarrow> bool list option" where
  "word_parse s = (if s \<noteq> [] \<and> last s = CHR ''B'' \<and> list_all (\<lambda>c. c = CHR ''A'' \<or> c = CHR ''B'') s
     then Some (map (\<lambda>c. c = CHR ''B'') (butlast s)) else None)"

definition word_between :: "bool list \<Rightarrow> bool list \<Rightarrow> bool list option" where
  "word_between a b =
     (if word_show a < word_show b then Some (if take (Suc (length a)) b = a @ [True] then b @ [False] else a @ [True]) else None)"

definition word_frac :: "bool list frac" where
  "word_frac = \<lparr>key_default = [], key_before = (\<lambda>w. w @ [False]), key_after = (\<lambda>w. w @ [True]), key_between = word_between,
     key_parse = word_parse, key_show = word_show\<rparr>"

lemma word_show_simps: "word_show [] = ''B''" "word_show (b # w) = (if b then CHR ''B'' else CHR ''A'') # word_show w"
  by (simp_all add: word_show_def)

lemma char_less [simp]: "CHR ''A'' < CHR ''B''" "\<not> CHR ''B'' < CHR ''A''"
  by (simp_all add: less_char_def)

lemma word_before: "word_show (w @ [False]) < word_show w" by (induction w) (auto simp: word_show_simps)

lemma word_after: "word_show w < word_show (w @ [True])" by (induction w) (auto simp: word_show_simps)

lemma Nil_less_append [simp]: "[] < s @ (c # t :: string)"
  by (cases s) auto

lemma word_above: "take (Suc (length a)) b = a @ [True] \<Longrightarrow> word_show a < word_show (b @ [False])"
proof (induction a arbitrary: b)
  case Nil
  then show ?case by (cases b) (auto simp: word_show_simps word_show_def)
next
  case (Cons x a)
  then show ?case by (cases b) (auto simp: word_show_simps)
qed

lemma word_below:
  "word_show a < word_show b \<Longrightarrow> take (Suc (length a)) b \<noteq> a @ [True] \<Longrightarrow> word_show (a @ [True]) < word_show b"
proof (induction a arbitrary: b)
  case Nil
  then show ?case by (cases b) (auto simp: word_show_simps split: if_splits)
next
  case (Cons x a)
  then show ?case by (cases b) (auto simp: word_show_simps split: if_splits)
qed

lemma word_parse_show: "word_parse (word_show w) = Some w"
proof -
  have "map (\<lambda>c. c = CHR ''B'') (map (\<lambda>b. if b then CHR ''B'' else CHR ''A'') w) = w"
    by (induction w) auto
  then show ?thesis by (auto simp: word_parse_def word_show_def list_all_iff)
qed

lemma word_frac_laws: "frac_laws word_frac"
  by (auto simp: frac_laws_def word_frac_def word_parse_show word_before word_after word_between_def word_above word_below)

section \<open>Reordering and moving\<close>

text \<open>
  C24. Reordering a goal is inserting its name in the list of its phase's other goals: before or
  after the anchor, at either end, or at an index, clamped to the end. In every plan the writer
  produces the order keys always allow it, no other goal changes its place, and a position that
  names no place leaves the plan as it was and is an error.
\<close>
theorem reorder_goal_places:
  assumes "frac_laws F" "d = run_plan F ops empty_store" "List.find (\<lambda>g. g_text g = t) (goals_data d) = Some g"
  shows "case place position t (filter (\<lambda>x. x \<noteq> t) (sibling_order goals_table (g_phase g) d)) of
      None \<Rightarrow> \<exists>e. reorder_goal F t position d = (d, Inl e)
    | Some xs \<Rightarrow> \<exists>d'. reorder_goal F t position d = (d', Inr ()) \<and> sibling_order goals_table (g_phase g) d' = xs
        \<and> (\<forall>q. q \<noteq> g_phase g \<longrightarrow> sibling_order goals_table q d' = filter (\<lambda>x. x \<noteq> t) (sibling_order goals_table q d))"
proof -
  have d: "store_ok d" "keys_ok F goals_table (rows_of goals_table d)"
    using ordered_run [OF assms(1)] assms(2) by (auto simp: ordered_def all_keys_def)
  have g: "g \<in> set (rows_of goals_table d)" "row_text goals_table g = t"
    using find_SomeD [OF assms(3)] by simp_all
  have "reorder_goal F t position d = reorder_entity F goals_table t position (g_phase g) d"
    using assms(3) by (simp add: reorder_goal_def bind_act_def found_def)
  then show ?thesis
    using goal_order.reorder_places [OF assms(1) d g, of "g_phase g" position] by (auto split: option.splits)
qed

text \<open>
  Moving a goal takes its name out of the list of its old phase and inserts it in the list of
  the target phase, at the position given or at the end; every other order stays.
\<close>
theorem move_goal_places:
  assumes "frac_laws F" "d = run_plan F ops empty_store" "t \<in> set (map g_text (goals_data d))" "phase_row_id phase d = Some p"
  shows "case place (case position of None \<Rightarrow> ''bottom'' | Some x \<Rightarrow> x) t (filter (\<lambda>x. x \<noteq> t) (sibling_order goals_table p d)) of
      None \<Rightarrow> \<exists>e. move_goal_to_phase_position F t phase position d = (d, Inl e)
    | Some xs \<Rightarrow> \<exists>d'. move_goal_to_phase_position F t phase position d = (d', Inr ()) \<and> sibling_order goals_table p d' = xs
        \<and> (\<forall>q. q \<noteq> p \<longrightarrow> sibling_order goals_table q d' = filter (\<lambda>x. x \<noteq> t) (sibling_order goals_table q d))"
proof -
  have d: "store_ok d" "keys_ok F goals_table (rows_of goals_table d)"
    using ordered_run [OF assms(1)] assms(2) by (auto simp: ordered_def all_keys_def)
  obtain g where g: "g \<in> set (rows_of goals_table d)" "row_text goals_table g = t"
    using assms(3) by auto
  have "move_goal_to_phase_position F t phase position d = move_entity_to_parent F goals_table t position p ''Goal'' d"
    using assms(4) by (simp add: move_goal_to_phase_position_def bind_act_def found_def)
  then show ?thesis
    using goal_order.move_places [OF assms(1) d g, of position p "''Goal''"] by (auto split: option.splits)
qed

definition demo_ops :: "plan_op list" where
  "demo_ops = [EpochOp (AddEpoch ''e'' ''Epoch'' None []), PhaseOp (AddPhase ''p'' ''e'' ''First'' ''regular'' None []),
     PhaseOp (AddPhase ''q'' ''e'' ''Second'' ''regular'' None []),
     GoalOp (AddGoal ''p'' ''g1'' ''One'' None None None None None None []), GoalOp (AddGoal ''p'' ''g2'' ''Two'' None None None None None None []),
     GoalOp (AddGoal ''p'' ''g3'' ''Three'' None None None None None None []), GoalOp (AddGoal ''q'' ''h'' ''Other'' None None None None None None [])]"

definition demo_plan :: store where
  "demo_plan = run_plan word_frac demo_ops empty_store"

lemma demo_facts:
  "List.find (\<lambda>g. g_text g = ''g3'') (goals_data demo_plan) = Some (goals_data demo_plan ! 2)"
  "g_phase (goals_data demo_plan ! 2) = 1" "phase_row_id ''q'' demo_plan = Some 2"
  "''g1'' \<in> set (map g_text (goals_data demo_plan))"
  "place ''before:g2'' ''g3'' (filter (\<lambda>x. x \<noteq> ''g3'') (sibling_order goals_table 1 demo_plan)) = Some [''g1'', ''g3'', ''g2'']"
  "place ''top'' ''g1'' (filter (\<lambda>x. x \<noteq> ''g1'') (sibling_order goals_table 2 demo_plan)) = Some [''g1'', ''h'']"
  by code_simp+

theorem reorder_goal_places_witness:
  "\<exists>d'. reorder_goal word_frac ''g3'' ''before:g2'' demo_plan = (d', Inr ()) \<and> sibling_order goals_table 1 d' = [''g1'', ''g3'', ''g2'']"
  using reorder_goal_places [OF word_frac_laws demo_plan_def demo_facts(1), of "''before:g2''"]
  unfolding demo_facts by auto

theorem move_goal_places_witness:
  "\<exists>d'. move_goal_to_phase_position word_frac ''g1'' ''q'' (Some ''top'') demo_plan = (d', Inr ())
     \<and> sibling_order goals_table 2 d' = [''g1'', ''h'']"
  using move_goal_places [OF word_frac_laws demo_plan_def demo_facts(4,3), of "Some ''top''"]
  unfolding option.case demo_facts by auto

end
