(* ===== verification/Outcome_Ledger.thy ===== *)
theory Outcome_Ledger
  imports Protocol
begin

text \<open>
  The durable outcomes of daemon requests, \<open>tools/exo/src/daemon_outcomes.rs\<close>: the runtime
  ledger's rows and statements, the responses it answers with, and the transaction that commits
  a project change together with its response. A statement is atomic; that SQLite can be asked
  at all is a flag of each operation.
\<close>

section \<open>Rows\<close>

record ledger_row =
  row_hash :: string
  row_effect :: string
  row_instance :: string
  row_class :: "string option"
  row_response :: "string option"
  row_started :: int
  row_completed :: "int option"

type_synonym ledger = "string \<rightharpoonup> ledger_row"

record atomic_row =
  atomic_hash :: string
  atomic_effect :: string
  atomic_response :: string
  atomic_committed :: int

datatype ledger_error =
    LedgerUnavailable
  | Undecodable
  | Disappeared
  | ReusedPayload
  | UnknownEffect
  | MarkerForOther
  | NotSerializable
  | AlreadyConsumed
  | WriterIncompatible error_body

datatype 'x completion = Completed_response "'x response" | Launch_marker

datatype 'x reservation =
    Reserve_execute
  | Reserve_replay "'x completion"
  | Reserve_in_flight string "recovery_class option"
  | Reserve_conflict

datatype 'x waited = Wait_completed "'x completion" | Wait_timed_out | Wait_released

datatype outcome_state = State_missing | State_in_flight string "recovery_class option" | State_terminal

record request_hashes =
  hash_current :: string
  hash_legacy :: string

definition hashes_match :: "request_hashes \<Rightarrow> string \<Rightarrow> bool" where
  "hashes_match h stored \<longleftrightarrow> stored = hash_current h \<or> stored = hash_legacy h"

definition request_hash :: "'x codec \<Rightarrow> request \<Rightarrow> string option" where
  "request_hash C r = fingerprint C (r\<lparr>req_auth := None\<rparr>)"

definition hashes_of :: "'x codec \<Rightarrow> request \<Rightarrow> request_hashes option" where
  "hashes_of C r = Option.bind (fingerprint C r) (\<lambda>old.
     map_option (\<lambda>new. \<lparr>hash_current = new, hash_legacy = old\<rparr>) (request_hash C r))"

section \<open>Recorded completions\<close>

definition completion_of_text :: "'x codec \<Rightarrow> string \<Rightarrow> 'x completion option" where
  "completion_of_text C s = Option.bind (to_json C s) (\<lambda>v.
     if get_str ''kind'' v = Some ''workbench.launch.completed'' \<and> Option.bind (json_get ''schema_version'' v) as_u64 = Some 1
     then Some Launch_marker
     else map_option Completed_response (to_response C v))"

definition contains_text :: "string \<Rightarrow> string \<Rightarrow> bool" where
  "contains_text p s \<longleftrightarrow> list_ex (\<lambda>n. take (length p) (drop n s) = p) [0..<Suc (length s)]"

definition raw_response_is_workbench_launch :: "'x codec \<Rightarrow> string \<Rightarrow> bool" where
  "raw_response_is_workbench_launch C s =
     (case to_json C s of
        None \<Rightarrow> contains_text ''workbench.launch'' s \<and> contains_text ''#ticket='' s
      | Some v \<Rightarrow> Option.bind (json_get ''result'' v) (get_str ''kind'') = Some ''workbench.launch'')"

section \<open>What a response says\<close>

fun retryable_daemon_busy_details :: "json \<Rightarrow> json option" where
  "retryable_daemon_busy_details v =
     (if get_str ''kind'' v = Some ''daemon.busy'' \<and> get_bool ''retry_with_same_request_id'' v = Some True
         \<and> get_bool ''request_outcome_checked'' v = Some False \<and> get_bool ''retryable'' v = Some True
      then Some v
      else case json_get ''details'' v of None \<Rightarrow> None | Some d \<Rightarrow> retryable_daemon_busy_details d)"

declare retryable_daemon_busy_details.simps [simp del]

definition error_with :: "'x response \<Rightarrow> (error_body \<Rightarrow> bool) \<Rightarrow> bool" where
  "error_with r P \<longleftrightarrow> resp_status r = Error_status \<and> (case resp_error r of None \<Rightarrow> False | Some e \<Rightarrow> P e)"

definition is_retryable_daemon_busy_response :: "'x response \<Rightarrow> bool" where
  "is_retryable_daemon_busy_response r \<longleftrightarrow> error_with r (\<lambda>e. error_kind e = PreconditionFailed
     \<and> Option.bind (error_details e) retryable_daemon_busy_details \<noteq> None)"

definition without_committed_effect :: "'x response \<Rightarrow> 'x response" where
  "without_committed_effect r = r\<lparr>resp_effect := None\<rparr>"

definition normalize_retryable_daemon_busy_response :: "'x response \<Rightarrow> 'x response" where
  "normalize_retryable_daemon_busy_response r = without_committed_effect
     (case resp_error r of
        None \<Rightarrow> r
      | Some e \<Rightarrow> (case Option.bind (error_details e) retryable_daemon_busy_details of
          None \<Rightarrow> r
        | Some d \<Rightarrow> r\<lparr>resp_error := Some (e\<lparr>error_details := Some d\<rparr>)\<rparr>))"

definition normalize_busy_if_needed :: "'x response \<Rightarrow> 'x response" where
  "normalize_busy_if_needed r = (if is_retryable_daemon_busy_response r then normalize_retryable_daemon_busy_response r else r)"

fun contains_recorded_workflow_confirmation :: "json \<Rightarrow> bool" where
  "contains_recorded_workflow_confirmation (JObject kvs) \<longleftrightarrow>
     (case map_of kvs ''workflow_confirmation'' of
        Some (JObject w) \<Rightarrow> get_bool ''evidence_recorded'' (JObject w) = Some True
      | _ \<Rightarrow> False)
     \<or> list_ex (\<lambda>(k, v). contains_recorded_workflow_confirmation v) kvs"
| "contains_recorded_workflow_confirmation (JArray vs) \<longleftrightarrow> list_ex contains_recorded_workflow_confirmation vs"
| "contains_recorded_workflow_confirmation _ = False"

definition atomic_response_commits :: "'x response \<Rightarrow> bool" where
  "atomic_response_commits r \<longleftrightarrow> resp_status r = Ok_status
     \<or> error_with r (\<lambda>e. error_kind e = PreconditionFailed
         \<and> (case error_details e of None \<Rightarrow> False | Some d \<Rightarrow> contains_recorded_workflow_confirmation d))"

definition is_rejected_execution_confirmation :: "'x response \<Rightarrow> bool" where
  "is_rejected_execution_confirmation r \<longleftrightarrow> error_with r (\<lambda>e. error_kind e = ConfirmRequired)"

definition is_transient_execution_confirmation :: "'x response \<Rightarrow> bool" where
  "is_transient_execution_confirmation r \<longleftrightarrow> resp_status r = ConfirmRequired_status \<or> is_rejected_execution_confirmation r"

section \<open>Responses of the ledger\<close>

definition response_error :: "string \<Rightarrow> effect \<Rightarrow> error_code \<Rightarrow> string \<Rightarrow> json \<Rightarrow> 'x response" where
  "response_error i e code message d =
     \<lparr>resp_version = protocol_version, resp_id = i, resp_status = Error_status, resp_result = None,
      resp_error = Some \<lparr>error_kind = code, error_message = message, error_details = Some d\<rparr>, resp_ticket = None,
      resp_extra = None, resp_effect = Some e, resp_trace = None\<rparr>"

definition request_id_conflict_response :: "string \<Rightarrow> effect \<Rightarrow> 'x response" where
  "request_id_conflict_response i e = response_error i e InvalidInput
     (''daemon request id '' @ i @ '' was reused with a different request payload'')
     (JObject [(''kind'', JString ''daemon.request_id_conflict''), (''request_id'', JString i), (''mutation_performed'', JBool False)])"

definition in_flight_response :: "string \<Rightarrow> effect \<Rightarrow> string \<Rightarrow> bool \<Rightarrow> 'x response" where
  "in_flight_response i e owner previous = response_error i e PreconditionFailed
     (if previous
      then ''The daemon was replaced while this request was in progress. Exo preserved the request identity and will not execute it twice, but no completed outcome was recorded.''
      else ''The original daemon request is still in progress. Exo preserved the request identity and did not execute it twice.'')
     (JObject [(''kind'', JString (if previous then ''daemon.request_outcome_indeterminate'' else ''daemon.request_outcome_pending'')),
       (''request_id'', JString i), (''effect'', JString (effect_name e)), (''owner_instance_id'', JString owner),
       (''previous_instance'', JBool previous), (''mutation_replayed'', JBool False)])"

definition launch_unavailable_response :: "string \<Rightarrow> effect \<Rightarrow> 'x response" where
  "launch_unavailable_response i e = response_error i e PreconditionFailed
     ''The original workbench launch cannot be replayed safely. Use a new request ID to issue a fresh one-time enrollment link.''
     (JObject [(''kind'', JString ''workbench.launch_replay_unavailable''), (''request_id'', JString i),
       (''retry_with_new_request_id'', JBool True), (''mutation_replayed'', JBool False)])"

definition ledger_error_text :: "ledger_error \<Rightarrow> string" where
  "ledger_error_text e = (case e of
       LedgerUnavailable \<Rightarrow> ''open daemon outcome ledger'' | Undecodable \<Rightarrow> ''deserialize recorded daemon completion''
     | Disappeared \<Rightarrow> ''daemon outcome reservation disappeared'' | ReusedPayload \<Rightarrow> ''request id was reused with a different payload''
     | UnknownEffect \<Rightarrow> ''unknown recorded daemon effect'' | NotSerializable \<Rightarrow> ''serialize canonical atomic request outcome''
     | MarkerForOther \<Rightarrow> ''workbench launch completion marker was recorded for a non-launch request''
     | AlreadyConsumed \<Rightarrow> ''request execution state was already consumed'' | WriterIncompatible b \<Rightarrow> error_message b)"

definition ledger_error_response :: "string \<Rightarrow> effect \<Rightarrow> string \<Rightarrow> ledger_error \<Rightarrow> bool \<Rightarrow> 'x response" where
  "ledger_error_response i e kind err may =
     (case err of
        WriterIncompatible b \<Rightarrow> response_error i e (error_kind b) (error_message b)
          (case error_details b of None \<Rightarrow> JObject [] | Some d \<Rightarrow> d)
      | _ \<Rightarrow> response_error i e Internal (''daemon request outcome persistence failed: '' @ ledger_error_text err)
          (JObject [(''kind'', JString kind), (''request_id'', JString i), (''effect'', JString (effect_name e)),
            (''mutation_may_have_completed'', JBool may), (''mutation_replayed'', JBool False)]))"

definition generic_replay_response :: "string \<Rightarrow> effect \<Rightarrow> 'x completion \<Rightarrow> 'x response" where
  "generic_replay_response i e c = (case c of Completed_response r \<Rightarrow> r | Launch_marker \<Rightarrow> launch_unavailable_response i e)"

type_synonym 'x launch_cache = "string \<rightharpoonup> 'x response"

definition replay_workbench_launch_completion :: "string \<Rightarrow> effect \<Rightarrow> 'x completion \<Rightarrow> 'x launch_cache \<Rightarrow> 'x response" where
  "replay_workbench_launch_completion i e c cache =
     (case c of
        Completed_response _ \<Rightarrow> launch_unavailable_response i e
      | Launch_marker \<Rightarrow> (case cache i of None \<Rightarrow> launch_unavailable_response i e | Some r \<Rightarrow> r\<lparr>resp_id := i\<rparr>))"

end
