(* ===== verification/Outcome_Ops.thy ===== *)
theory Outcome_Ops
  imports Outcome_Ledger
begin

text \<open>
  The statements of the runtime ledger and of the canonical outcome table,
  \<open>tools/exo/src/daemon_outcomes.rs\<close>. Each is one transaction on one database: a function of
  the table, with a flag that says whether the database answers. Times are the seconds that
  \<open>now_timestamp\<close> returns.
\<close>

definition retention_secs :: int where
  "retention_secs = 7 * 24 * 60 * 60"

section \<open>The runtime ledger\<close>

definition migrate_hash :: "request_hashes \<Rightarrow> string \<Rightarrow> ledger \<Rightarrow> ledger" where
  "migrate_hash h i L =
     (case L i of
        None \<Rightarrow> L
      | Some row \<Rightarrow> if hashes_match h (row_hash row) \<and> row_hash row \<noteq> hash_current h
                    then L(i \<mapsto> row\<lparr>row_hash := hash_current h\<rparr>) else L)"

definition new_row :: "int \<Rightarrow> request_hashes \<Rightarrow> effect \<Rightarrow> recovery_class \<Rightarrow> string \<Rightarrow> ledger_row" where
  "new_row now h e c inst =
     \<lparr>row_hash = hash_current h, row_effect = effect_name e, row_instance = inst, row_class = Some (recovery_class_name c),
      row_response = None, row_started = now, row_completed = None\<rparr>"

definition stored_class :: "ledger_row \<Rightarrow> recovery_class option" where
  "stored_class row = Option.bind (row_class row) recovery_class_from_name"

definition reserve_compatible ::
  "'x codec \<Rightarrow> bool \<Rightarrow> int \<Rightarrow> string \<Rightarrow> request_hashes \<Rightarrow> effect \<Rightarrow> recovery_class \<Rightarrow> string \<Rightarrow> ledger
     \<Rightarrow> (ledger_error + 'x reservation) \<times> ledger" where
  "reserve_compatible C up now i h e c inst L =
     (if \<not> up then (Inl LedgerUnavailable, L)
      else case L i of
        Some row \<Rightarrow>
          if \<not> hashes_match h (row_hash row) then (Inr Reserve_conflict, migrate_hash h i L)
          else (case row_response row of
              Some s \<Rightarrow> (case completion_of_text C s of
                  None \<Rightarrow> (Inl Undecodable, L)
                | Some done_before \<Rightarrow> (Inr (Reserve_replay done_before), migrate_hash h i L))
            | None \<Rightarrow> (Inr (Reserve_in_flight (row_instance row) (stored_class row)), migrate_hash h i L))
      | None \<Rightarrow> (Inr Reserve_execute, L(i \<mapsto> new_row now h e c inst)))"

definition expired :: "int \<Rightarrow> ledger_row \<Rightarrow> bool" where
  "expired now row \<longleftrightarrow> (case (row_completed row, row_response row) of
       (Some t, Some s) \<Rightarrow> t < now - retention_secs \<and> s \<noteq> launch_marker_json
     | _ \<Rightarrow> False)"

definition prune_completed :: "int \<Rightarrow> ledger \<Rightarrow> ledger" where
  "prune_completed now L = (\<lambda>i. case L i of None \<Rightarrow> None | Some row \<Rightarrow> if expired now row then None else Some row)"

text \<open>Recording a completion: the update of a row that is in flight, then maintenance that may
  fail without changing the result.\<close>

definition record_completion :: "bool \<Rightarrow> bool \<Rightarrow> int \<Rightarrow> string \<Rightarrow> string \<Rightarrow> string \<Rightarrow> ledger \<Rightarrow> (ledger_error + unit) \<times> ledger" where
  "record_completion up tidy now i hash s L =
     (if \<not> up then (Inl LedgerUnavailable, L)
      else case L i of
        Some row \<Rightarrow>
          if row_hash row = hash \<and> row_response row = None
          then (let L' = L(i \<mapsto> row\<lparr>row_response := Some s, row_completed := Some now\<rparr>)
                in (Inr (), if tidy then prune_completed now L' else L'))
          else (Inl Disappeared, L)
      | None \<Rightarrow> (Inl Disappeared, L))"

definition complete_outcome :: "'x codec \<Rightarrow> bool \<Rightarrow> bool \<Rightarrow> int \<Rightarrow> string \<Rightarrow> string \<Rightarrow> 'x response \<Rightarrow> ledger \<Rightarrow> (ledger_error + unit) \<times> ledger" where
  "complete_outcome C up tidy now i hash r L =
     (case to_text C r of None \<Rightarrow> (Inl NotSerializable, L) | Some s \<Rightarrow> record_completion up tidy now i hash s L)"

definition complete_workbench_launch_marker :: "bool \<Rightarrow> bool \<Rightarrow> int \<Rightarrow> string \<Rightarrow> string \<Rightarrow> ledger \<Rightarrow> (ledger_error + unit) \<times> ledger" where
  "complete_workbench_launch_marker up tidy now i hash L = record_completion up tidy now i hash launch_marker_json L"

text \<open>One look of the waiting loop at the row: \<open>None\<close> goes round the loop again.\<close>

definition poll_response :: "'x codec \<Rightarrow> bool \<Rightarrow> bool \<Rightarrow> string \<Rightarrow> string \<Rightarrow> ledger \<Rightarrow> (ledger_error + 'x waited) option" where
  "poll_response C up time_left i hash L =
     (if \<not> up then Some (Inl LedgerUnavailable)
      else case L i of
        None \<Rightarrow> Some (Inr Wait_released)
      | Some row \<Rightarrow>
          if row_hash row \<noteq> hash then Some (Inl ReusedPayload)
          else (case row_response row of
              Some s \<Rightarrow> Some (case completion_of_text C s of None \<Rightarrow> Inl Undecodable | Some c \<Rightarrow> Inr (Wait_completed c))
            | None \<Rightarrow> if time_left then None else Some (Inr Wait_timed_out)))"

definition abandon :: "bool \<Rightarrow> string \<Rightarrow> string \<Rightarrow> string \<Rightarrow> ledger \<Rightarrow> (ledger_error + unit) \<times> ledger" where
  "abandon up i hash inst L =
     (if \<not> up then (Inl LedgerUnavailable, L)
      else case L i of
        Some row \<Rightarrow>
          if row_hash row = hash \<and> row_instance row = inst \<and> row_response row = None
          then (Inr (), L(i := None)) else (Inl Disappeared, L)
      | None \<Rightarrow> (Inl Disappeared, L))"

definition runtime_outcome_state :: "bool \<Rightarrow> string \<Rightarrow> request_hashes \<Rightarrow> ledger \<Rightarrow> ledger_error + outcome_state" where
  "runtime_outcome_state up i h L =
     (if \<not> up then Inl LedgerUnavailable
      else Inr (case L i of
        None \<Rightarrow> State_missing
      | Some row \<Rightarrow>
          if \<not> hashes_match h (row_hash row) then State_terminal
          else (case row_response row of
              Some _ \<Rightarrow> State_terminal
            | None \<Rightarrow> State_in_flight (row_instance row) (stored_class row))))"

section \<open>Launch responses written by earlier versions\<close>

definition sanitize_legacy_workbench_launch_responses :: "'x codec \<Rightarrow> ledger \<Rightarrow> ledger" where
  "sanitize_legacy_workbench_launch_responses C L =
     (\<lambda>i. case L i of
        None \<Rightarrow> None
      | Some row \<Rightarrow> (case row_response row of
          None \<Rightarrow> Some row
        | Some s \<Rightarrow> Some (if raw_response_is_workbench_launch C s then row\<lparr>row_response := Some launch_marker_json\<rparr> else row)))"

definition replace_legacy_workbench_launch_response :: "string \<Rightarrow> string \<Rightarrow> string \<Rightarrow> ledger \<Rightarrow> ledger" where
  "replace_legacy_workbench_launch_response i hash s L =
     (case L i of
        Some row \<Rightarrow>
          if row_hash row = hash \<and> row_response row = Some s then L(i \<mapsto> row\<lparr>row_response := Some launch_marker_json\<rparr>) else L
      | None \<Rightarrow> L)"

definition open_ledger :: "'x codec \<Rightarrow> int \<Rightarrow> ledger \<Rightarrow> ledger" where
  "open_ledger C now L = prune_completed now (sanitize_legacy_workbench_launch_responses C L)"

section \<open>Answers found before a request is prepared\<close>

definition confirms :: "request \<Rightarrow> bool" where
  "confirms r \<longleftrightarrow> (case req_auth r of None \<Rightarrow> False | Some a \<Rightarrow> auth_confirm a)"

type_synonym 'x outcome = "'x response \<times> bool"

definition terminal_conflict :: "string \<Rightarrow> effect \<Rightarrow> ledger_row \<Rightarrow> 'x outcome" where
  "terminal_conflict i e row =
     (let r = request_id_conflict_response i e
      in (if stored_class row = None \<or> stored_class row = Some AtomicProjectState then without_committed_effect r else r, False))"

definition terminal_completed ::
  "'x codec \<Rightarrow> bool \<Rightarrow> 'x launch_cache \<Rightarrow> request \<Rightarrow> effect \<Rightarrow> ledger_row \<Rightarrow> string \<Rightarrow> ledger
     \<Rightarrow> (ledger_error + 'x outcome option) \<times> ledger" where
  "terminal_completed C writes cache q e row s L =
     (let legacy = is_workbench_launch_request q \<and> raw_response_is_workbench_launch C s;
          L' = (if legacy then replace_legacy_workbench_launch_response (req_id q) (row_hash row) s L else L)
      in if legacy \<and> \<not> writes then (Inl LedgerUnavailable, L)
         else case (if legacy then Some Launch_marker else completion_of_text C s) of
           None \<Rightarrow> (Inl Undecodable, L')
         | Some c \<Rightarrow>
             if is_workbench_launch_request q
             then (Inr (Some (replay_workbench_launch_completion (req_id q) e c cache, True)), L')
             else (case c of
                 Launch_marker \<Rightarrow> (Inl MarkerForOther, L')
               | Completed_response r \<Rightarrow>
                   if confirms q \<and> is_transient_execution_confirmation r
                   then if writes then (Inr None, L(req_id q := None)) else (Inl LedgerUnavailable, L)
                   else (Inr (Some (r, True)), L')))"

definition terminal_outcome_before_preparation ::
  "'x codec \<Rightarrow> bool \<Rightarrow> bool \<Rightarrow> 'x launch_cache \<Rightarrow> request \<Rightarrow> ledger \<Rightarrow> (ledger_error + 'x outcome option) \<times> ledger" where
  "terminal_outcome_before_preparation C reads writes cache q L =
     (case hashes_of C q of
        None \<Rightarrow> (Inl NotSerializable, L)
      | Some h \<Rightarrow>
          if \<not> reads then (Inl LedgerUnavailable, L)
          else case L (req_id q) of
            None \<Rightarrow> (Inr None, L)
          | Some row \<Rightarrow> (case effect_from_name (row_effect row) of
              None \<Rightarrow> (Inl UnknownEffect, L)
            | Some e \<Rightarrow>
                if \<not> hashes_match h (row_hash row) then (Inr (Some (terminal_conflict (req_id q) e row)), L)
                else (case row_response row of
                    None \<Rightarrow> (Inr None, L)
                  | Some s \<Rightarrow> terminal_completed C writes cache q e row s L)))"

definition reserved_request_recovery ::
  "'x codec \<Rightarrow> bool \<Rightarrow> request \<Rightarrow> ledger \<Rightarrow> ledger_error + (effect \<times> recovery_class) option" where
  "reserved_request_recovery C reads q L =
     (case hashes_of C q of
        None \<Rightarrow> Inl NotSerializable
      | Some h \<Rightarrow>
          if \<not> reads then Inl LedgerUnavailable
          else case L (req_id q) of
            None \<Rightarrow> Inr None
          | Some row \<Rightarrow>
              if row_response row \<noteq> None \<or> \<not> hashes_match h (row_hash row) then Inr None
              else (case effect_from_name (row_effect row) of
                  None \<Rightarrow> Inl UnknownEffect
                | Some e \<Rightarrow> Inr (Some (e, case stored_class row of None \<Rightarrow> ExternalAtMostOnce | Some c \<Rightarrow> c))))"

section \<open>Outcomes committed with the project state\<close>

type_synonym canonical = "string \<rightharpoonup> atomic_row"

definition canonical_atomic_outcome_exists :: "bool \<Rightarrow> string \<Rightarrow> canonical \<Rightarrow> ledger_error + bool" where
  "canonical_atomic_outcome_exists up i K = (if up then Inr (K i \<noteq> None) else Inl LedgerUnavailable)"

definition atomic_request_needs_preparation ::
  "bool \<Rightarrow> bool \<Rightarrow> ledger_error + unit \<Rightarrow> string \<Rightarrow> request_hashes \<Rightarrow> string \<Rightarrow> ledger \<Rightarrow> canonical \<Rightarrow> ledger_error + bool" where
  "atomic_request_needs_preparation up project_up preflight i h inst L K =
     (let s = runtime_outcome_state up i h L
      in case s of
        Inr State_terminal \<Rightarrow> Inr False
      | Inr (State_in_flight owner None) \<Rightarrow> Inr False
      | Inr (State_in_flight owner (Some c)) \<Rightarrow>
          if c \<noteq> AtomicProjectState then Inr False
          else (case preflight of
              Inl e \<Rightarrow> Inl e
            | Inr _ \<Rightarrow> if owner = inst then Inr False else map_sum id Not (canonical_atomic_outcome_exists project_up i K))
      | _ \<Rightarrow> (case preflight of Inl e \<Rightarrow> Inl e | Inr _ \<Rightarrow> map_sum id Not (canonical_atomic_outcome_exists project_up i K)))"

definition prune_canonical_outcomes :: "bool \<Rightarrow> int \<Rightarrow> ledger \<Rightarrow> canonical \<Rightarrow> canonical" where
  "prune_canonical_outcomes up now L K =
     (if \<not> up then K
      else (\<lambda>i. case K i of
        None \<Rightarrow> None
      | Some row \<Rightarrow>
          if atomic_committed row < now - retention_secs
             \<and> \<not> (case L i of None \<Rightarrow> False | Some r \<Rightarrow> row_response r = None)
          then None else Some row))"

record 'x atomic_core =
  core_response :: "'x response"
  core_committed :: bool
  core_replayed :: bool
  core_conflict :: bool

definition with_effect :: "effect \<Rightarrow> 'x response \<Rightarrow> 'x response" where
  "with_effect e r = (case resp_effect r of None \<Rightarrow> r\<lparr>resp_effect := Some e\<rparr> | Some _ \<Rightarrow> r)"

text \<open>The transaction on the project database. The command is the pair of the project state it
  leaves and its response; \<open>begins\<close> and \<open>commits\<close> say whether the transaction can start and
  end. The table admits the effects \<open>write\<close> and \<open>exec\<close>.\<close>

definition execute_atomic_core ::
  "'x codec \<Rightarrow> bool \<Rightarrow> bool \<Rightarrow> int \<Rightarrow> string \<Rightarrow> string \<Rightarrow> effect \<Rightarrow> 'p \<times> 'x response \<Rightarrow> canonical \<Rightarrow> 'p
     \<Rightarrow> (ledger_error + 'x atomic_core) \<times> canonical \<times> 'p" where
  "execute_atomic_core C begins commits now i hash e run K p =
     (if \<not> begins then (Inl LedgerUnavailable, K, p)
      else case K i of
        Some row \<Rightarrow>
          if atomic_hash row \<noteq> hash
          then (Inr \<lparr>core_response = without_committed_effect (request_id_conflict_response i e),
                     core_committed = False, core_replayed = False, core_conflict = True\<rparr>, K, p)
          else (case Option.bind (to_json C (atomic_response row)) (to_response C) of
              None \<Rightarrow> (Inl Undecodable, K, p)
            | Some r \<Rightarrow> (Inr \<lparr>core_response = r, core_committed = True, core_replayed = True, core_conflict = False\<rparr>, K, p))
      | None \<Rightarrow>
          if \<not> atomic_response_commits (snd run)
          then (Inr \<lparr>core_response = without_committed_effect (snd run),
                     core_committed = False, core_replayed = False, core_conflict = False\<rparr>, K, p)
          else (let r = with_effect e (snd run)
                in case to_text C r of
                  None \<Rightarrow> (Inl NotSerializable, K, p)
                | Some s \<Rightarrow>
                    if e = Pure \<or> \<not> commits then (Inl LedgerUnavailable, K, p)
                    else (Inr \<lparr>core_response = r, core_committed = True, core_replayed = False, core_conflict = False\<rparr>,
                          K(i \<mapsto> \<lparr>atomic_hash = hash, atomic_effect = effect_name e, atomic_response = s, atomic_committed = now\<rparr>),
                          fst run)))"

end
