(* ===== verification/Outcome_Flow.thy ===== *)
theory Outcome_Flow
  imports Outcome_Ops
begin

text \<open>
  One daemon request on its way through the ledger: the bodies of \<open>execute\<close>,
  \<open>execute_workbench_launch\<close> and \<open>execute_atomic_project_state_after_compatibility_preflight\<close>
  in \<open>tools/exo/src/daemon_outcomes.rs\<close>, cut where they touch a database or run the command. A
  \<open>point\<close> is where the call stands between two such accesses.
\<close>

datatype flow = External | Launch | Atomic

datatype 'x point =
    At_reserve
  | At_wait string
  | At_execute
  | At_settle "'x response"
  | At_core bool
  | At_finalize bool "'x response" bool
  | At_complete bool "'x response" bool
  | At_abandon "'x response" bool
  | At_release "'x response" bool
  | At_prune "'x response" bool
  | At_done "'x response" bool

definition persistence_failure :: "string \<Rightarrow> effect \<Rightarrow> string \<Rightarrow> ledger_error \<Rightarrow> 'x point" where
  "persistence_failure i e kind err = At_done (ledger_error_response i e kind err False) False"

definition atomic_failure :: "string \<Rightarrow> effect \<Rightarrow> string \<Rightarrow> ledger_error \<Rightarrow> 'x response" where
  "atomic_failure i e kind err = without_committed_effect (ledger_error_response i e kind err False)"

section \<open>External requests\<close>

definition external_after_reserve :: "string \<Rightarrow> effect \<Rightarrow> string \<Rightarrow> bool \<Rightarrow> ledger_error + 'x reservation \<Rightarrow> 'x point" where
  "external_after_reserve i e inst taken res =
     (case res of
        Inl err \<Rightarrow> persistence_failure i e ''daemon.request_outcome_reservation_failed'' err
      | Inr (Reserve_replay c) \<Rightarrow> At_done (generic_replay_response i e c) True
      | Inr Reserve_conflict \<Rightarrow> At_done (request_id_conflict_response i e) False
      | Inr (Reserve_in_flight owner class) \<Rightarrow>
          if owner = inst then At_wait owner else At_done (in_flight_response i e owner True) False
      | Inr Reserve_execute \<Rightarrow>
          if taken then persistence_failure i e ''daemon.request_outcome_execution_state_invalid'' AlreadyConsumed
          else At_execute)"

definition external_after_wait :: "string \<Rightarrow> effect \<Rightarrow> string \<Rightarrow> ledger_error + 'x waited \<Rightarrow> 'x point" where
  "external_after_wait i e owner res =
     (case res of
        Inl err \<Rightarrow> persistence_failure i e ''daemon.request_outcome_lookup_failed'' err
      | Inr (Wait_completed c) \<Rightarrow> At_done (generic_replay_response i e c) True
      | Inr Wait_timed_out \<Rightarrow> At_done (in_flight_response i e owner False) False
      | Inr Wait_released \<Rightarrow> At_reserve)"

text \<open>The command declined to act: it may be sent again under the same identity.\<close>

definition declined :: "'x response \<Rightarrow> bool" where
  "declined r \<longleftrightarrow> is_retryable_daemon_busy_response r \<or> resp_status r = ConfirmRequired_status \<or> is_rejected_execution_confirmation r"

definition withdraw :: "bool \<Rightarrow> string \<Rightarrow> string \<Rightarrow> effect \<Rightarrow> string \<Rightarrow> 'x response \<Rightarrow> ledger \<Rightarrow> 'x response \<times> ledger" where
  "withdraw up i hash e inst r L =
     (case abandon up i hash inst L of
        (Inr _, L') \<Rightarrow> (if is_retryable_daemon_busy_response r then normalize_retryable_daemon_busy_response r else r, L')
      | (Inl err, L') \<Rightarrow> (atomic_failure i e ''daemon.request_outcome_abandon_failed'' err, L'))"

definition external_settle ::
  "'x codec \<Rightarrow> bool \<Rightarrow> bool \<Rightarrow> int \<Rightarrow> string \<Rightarrow> string \<Rightarrow> effect \<Rightarrow> string \<Rightarrow> 'x response \<Rightarrow> ledger \<Rightarrow> 'x response \<times> ledger" where
  "external_settle C up tidy now i hash e inst r L =
     (if declined r then withdraw up i hash e inst r L
      else (case complete_outcome C up tidy now i hash r L of
          (Inr _, L') \<Rightarrow> (r, L')
        | (Inl err, L') \<Rightarrow> (ledger_error_response i e ''daemon.request_outcome_persist_failed'' err True, L')))"

section \<open>Launch requests\<close>

definition launch_after_reserve ::
  "string \<Rightarrow> effect \<Rightarrow> string \<Rightarrow> bool \<Rightarrow> 'x launch_cache \<Rightarrow> ledger_error + 'x reservation \<Rightarrow> 'x point" where
  "launch_after_reserve i e inst taken cache res =
     (case res of
        Inl err \<Rightarrow> persistence_failure i e ''daemon.request_outcome_reservation_failed'' err
      | Inr (Reserve_replay c) \<Rightarrow> At_done (replay_workbench_launch_completion i e c cache) True
      | Inr Reserve_conflict \<Rightarrow> At_done (request_id_conflict_response i e) False
      | Inr (Reserve_in_flight owner class) \<Rightarrow>
          if owner = inst then At_wait owner else At_done (launch_unavailable_response i e) False
      | Inr Reserve_execute \<Rightarrow>
          if taken then persistence_failure i e ''daemon.request_outcome_execution_state_invalid'' AlreadyConsumed
          else At_execute)"

definition launch_after_wait :: "string \<Rightarrow> effect \<Rightarrow> string \<Rightarrow> 'x launch_cache \<Rightarrow> ledger_error + 'x waited \<Rightarrow> 'x point" where
  "launch_after_wait i e owner cache res =
     (case res of
        Inl err \<Rightarrow> persistence_failure i e ''daemon.request_outcome_lookup_failed'' err
      | Inr (Wait_completed c) \<Rightarrow> At_done (replay_workbench_launch_completion i e c cache) True
      | Inr Wait_timed_out \<Rightarrow> At_done (in_flight_response i e owner False) False
      | Inr Wait_released \<Rightarrow> At_reserve)"

text \<open>The response goes to the daemon's memory and a marker to the ledger; \<open>retained\<close> is the
  answer of the callback that keeps it.\<close>

definition launch_settle ::
  "bool \<Rightarrow> bool \<Rightarrow> int \<Rightarrow> ledger_error + unit \<Rightarrow> string \<Rightarrow> string \<Rightarrow> effect \<Rightarrow> string \<Rightarrow> 'x response \<Rightarrow> ledger \<Rightarrow> 'x launch_cache
     \<Rightarrow> 'x response \<times> ledger \<times> 'x launch_cache" where
  "launch_settle up tidy now retained i hash e inst r L cache =
     (if declined r then (case withdraw up i hash e inst r L of (r', L') \<Rightarrow> (r', L', cache))
      else (let kept = (case retained of Inr _ \<Rightarrow> cache(i \<mapsto> r) | Inl _ \<Rightarrow> cache)
        in case complete_workbench_launch_marker up tidy now i hash L of
          (Inl err, L') \<Rightarrow> (ledger_error_response i e ''daemon.request_outcome_persist_failed'' err True, L', kept(i := None))
        | (Inr _, L') \<Rightarrow> (case retained of
              Inl err \<Rightarrow> (ledger_error_response i e ''workbench.launch_replay_cache_failed'' err True, L', kept)
            | Inr _ \<Rightarrow> (r, L', kept))))"

section \<open>Project changes\<close>

definition atomic_after_reserve :: "string \<Rightarrow> effect \<Rightarrow> string \<Rightarrow> ledger_error + 'x reservation \<Rightarrow> 'x point" where
  "atomic_after_reserve i e inst res =
     (case res of
        Inl err \<Rightarrow> At_core False
      | Inr (Reserve_replay c) \<Rightarrow> At_done (generic_replay_response i e c) True
      | Inr Reserve_conflict \<Rightarrow> At_done (without_committed_effect (request_id_conflict_response i e)) False
      | Inr (Reserve_in_flight owner class) \<Rightarrow>
          if owner = inst then At_wait owner
          else if class = Some AtomicProjectState then At_core False
          else At_done (in_flight_response i e owner True) False
      | Inr Reserve_execute \<Rightarrow> At_core True)"

definition atomic_after_wait ::
  "string \<Rightarrow> effect \<Rightarrow> string \<Rightarrow> ledger_error + unit \<Rightarrow> ledger_error + bool \<Rightarrow> ledger_error + 'x waited \<Rightarrow> 'x point" where
  "atomic_after_wait i e owner preflight present res =
     (let failed = \<lambda>err. At_done (atomic_failure i e ''daemon.request_outcome_lookup_failed'' err) False
      in case res of
        Inl err \<Rightarrow> failed err
      | Inr (Wait_completed c) \<Rightarrow> At_done (generic_replay_response i e c) True
      | Inr Wait_timed_out \<Rightarrow> (case preflight of
            Inl err \<Rightarrow> failed err
          | Inr _ \<Rightarrow> (case present of
              Inl err \<Rightarrow> failed err
            | Inr True \<Rightarrow> At_core False
            | Inr False \<Rightarrow> At_done (in_flight_response i e owner False) False))
      | Inr Wait_released \<Rightarrow> failed Disappeared)"

definition leave_atomic :: "bool \<Rightarrow> 'x response \<Rightarrow> bool \<Rightarrow> 'x point" where
  "leave_atomic owns r replayed = (if owns then At_abandon r replayed else At_done r replayed)"

definition atomic_after_core :: "string \<Rightarrow> effect \<Rightarrow> bool \<Rightarrow> ledger_error + 'x atomic_core \<Rightarrow> 'x point" where
  "atomic_after_core i e owns res =
     (case res of
        Inl err \<Rightarrow> leave_atomic owns (atomic_failure i e ''daemon.atomic_request_commit_failed'' err) False
      | Inr a \<Rightarrow>
          if core_conflict a then leave_atomic owns (core_response a) False
          else if core_committed a then At_finalize owns (core_response a) (core_replayed a)
          else At_complete owns (core_response a) (core_replayed a))"

definition atomic_after_finalize :: "bool \<Rightarrow> bool \<Rightarrow> 'x response + 'x response \<Rightarrow> 'x point" where
  "atomic_after_finalize owns replayed res =
     (case res of Inr r \<Rightarrow> At_complete owns r replayed | Inl r \<Rightarrow> leave_atomic owns r replayed)"

text \<open>A response that cannot be recorded gives the reservation back; then the canonical table is
  pruned.\<close>

definition atomic_complete ::
  "'x codec \<Rightarrow> bool \<Rightarrow> bool \<Rightarrow> int \<Rightarrow> string \<Rightarrow> string \<Rightarrow> bool \<Rightarrow> 'x response \<Rightarrow> bool \<Rightarrow> ledger \<Rightarrow> 'x point \<times> ledger" where
  "atomic_complete C up tidy now i hash owns r replayed L =
     (case complete_outcome C up tidy now i hash r L of
        (Inr _, L') \<Rightarrow> (At_prune r replayed, L')
      | (Inl _, L') \<Rightarrow> (if owns then At_release r replayed else At_prune r replayed, L'))"

section \<open>A call\<close>

record 'x call =
  call_flow :: flow
  call_request :: request
  call_hashes :: request_hashes
  call_effect :: effect
  call_instance :: string
  call_point :: "'x point"

definition call_id :: "'x call \<Rightarrow> string" where
  "call_id c = req_id (call_request c)"

definition call_hash :: "'x call \<Rightarrow> string" where
  "call_hash c = hash_current (call_hashes c)"

definition flow_class :: "flow \<Rightarrow> recovery_class" where
  "flow_class f = (case f of Atomic \<Rightarrow> AtomicProjectState | _ \<Rightarrow> ExternalAtMostOnce)"

text \<open>What the environment answers in one step: whether the two databases and the maintenance
  succeed, whether waiting time is left, what the command does and what the callbacks return.\<close>

record ('p, 'x) answers =
  ledger_up :: bool
  ledger_tidy :: bool
  project_begins :: bool
  project_commits :: bool
  time_left :: bool
  command_response :: "'x response"
  command_state :: 'p
  preflight_result :: "ledger_error + unit"
  finalize_result :: "'x response + 'x response"
  retain_result :: "ledger_error + unit"

text \<open>What happened, in order: a command outside the project database ran, or a project change
  was committed, for a request at a time and with a response; a project change ran without
  committing; the callback that finalizes a committed response was given one and returned one; and
  an answer was given.\<close>

datatype 'x event =
    Ran flow request int "'x response"
  | Committed request int "'x response"
  | Refused request "'x response"
  | Finalized request "'x response" "'x response"
  | Answered flow request "'x response" bool

record ('p, 'x) world =
  w_ledger :: ledger
  w_canonical :: canonical
  w_project :: 'p
  w_caches :: "string \<Rightarrow> 'x launch_cache"
  w_calls :: "nat \<rightharpoonup> 'x call"
  w_clock :: int
  w_history :: "'x event list"

definition initial_world :: "'p \<Rightarrow> int \<Rightarrow> ('p, 'x) world" where
  "initial_world p now =
     \<lparr>w_ledger = (\<lambda>_. None), w_canonical = (\<lambda>_. None), w_project = p, w_caches = (\<lambda>_ _. None), w_calls = (\<lambda>_. None),
      w_clock = now, w_history = []\<rparr>"

definition move :: "nat \<Rightarrow> 'x call \<Rightarrow> 'x point \<Rightarrow> ('p, 'x) world \<Rightarrow> ('p, 'x) world" where
  "move k c pt w =
     w\<lparr>w_calls := (w_calls w)(k \<mapsto> c\<lparr>call_point := pt\<rparr>),
       w_history := w_history w @ (case pt of At_done r replayed \<Rightarrow> [Answered (call_flow c) (call_request c) r replayed] | _ \<Rightarrow> [])\<rparr>"

definition after_reserve :: "'x call \<Rightarrow> 'x launch_cache \<Rightarrow> ledger_error + 'x reservation \<Rightarrow> 'x point" where
  "after_reserve c cache res = (case call_flow c of
       External \<Rightarrow> external_after_reserve (call_id c) (call_effect c) (call_instance c) False res
     | Launch \<Rightarrow> launch_after_reserve (call_id c) (call_effect c) (call_instance c) False cache res
     | Atomic \<Rightarrow> atomic_after_reserve (call_id c) (call_effect c) (call_instance c) res)"

definition after_wait :: "('p, 'x) answers \<Rightarrow> 'x call \<Rightarrow> string \<Rightarrow> 'x launch_cache \<Rightarrow> canonical \<Rightarrow> ledger_error + 'x waited \<Rightarrow> 'x point" where
  "after_wait a c owner cache K res = (case call_flow c of
       External \<Rightarrow> external_after_wait (call_id c) (call_effect c) owner res
     | Launch \<Rightarrow> launch_after_wait (call_id c) (call_effect c) owner cache res
     | Atomic \<Rightarrow> atomic_after_wait (call_id c) (call_effect c) owner (preflight_result a)
         (canonical_atomic_outcome_exists (project_begins a) (call_id c) K) res)"

definition step_reserve :: "'x codec \<Rightarrow> ('p, 'x) answers \<Rightarrow> nat \<Rightarrow> 'x call \<Rightarrow> ('p, 'x) world \<Rightarrow> ('p, 'x) world" where
  "step_reserve C a k c w =
     (case reserve_compatible C (ledger_up a) (w_clock w) (call_id c) (call_hashes c) (call_effect c)
             (flow_class (call_flow c)) (call_instance c) (w_ledger w) of
        (res, L') \<Rightarrow> move k c (after_reserve c (w_caches w (call_instance c)) res) (w\<lparr>w_ledger := L'\<rparr>))"

definition step_wait :: "'x codec \<Rightarrow> ('p, 'x) answers \<Rightarrow> nat \<Rightarrow> 'x call \<Rightarrow> string \<Rightarrow> ('p, 'x) world \<Rightarrow> ('p, 'x) world" where
  "step_wait C a k c owner w =
     (case poll_response C (ledger_up a) (time_left a) (call_id c) (call_hash c) (w_ledger w) of
        None \<Rightarrow> w
      | Some res \<Rightarrow> move k c (after_wait a c owner (w_caches w (call_instance c)) (w_canonical w) res) w)"

definition step_execute :: "('p, 'x) answers \<Rightarrow> nat \<Rightarrow> 'x call \<Rightarrow> ('p, 'x) world \<Rightarrow> ('p, 'x) world" where
  "step_execute a k c w =
     move k c (At_settle (command_response a))
       (w\<lparr>w_history := w_history w @ [Ran (call_flow c) (call_request c) (w_clock w) (command_response a)]\<rparr>)"

definition step_settle :: "'x codec \<Rightarrow> ('p, 'x) answers \<Rightarrow> nat \<Rightarrow> 'x call \<Rightarrow> 'x response \<Rightarrow> ('p, 'x) world \<Rightarrow> ('p, 'x) world" where
  "step_settle C a k c r w =
     (if call_flow c = Launch
      then (case launch_settle (ledger_up a) (ledger_tidy a) (w_clock w) (retain_result a) (call_id c) (call_hash c)
                   (call_effect c) (call_instance c) r (w_ledger w) (w_caches w (call_instance c)) of
          (r', L', cache) \<Rightarrow> move k c (At_done r' False)
             (w\<lparr>w_ledger := L', w_caches := (w_caches w)(call_instance c := cache)\<rparr>))
      else (case external_settle C (ledger_up a) (ledger_tidy a) (w_clock w) (call_id c) (call_hash c)
                   (call_effect c) (call_instance c) r (w_ledger w) of
          (r', L') \<Rightarrow> move k c (At_done r' False) (w\<lparr>w_ledger := L'\<rparr>)))"

definition commits_now :: "ledger_error + 'x atomic_core \<Rightarrow> bool" where
  "commits_now res = (case res of Inl _ \<Rightarrow> False | Inr a \<Rightarrow> core_committed a \<and> \<not> core_replayed a)"

definition step_core :: "'x codec \<Rightarrow> ('p, 'x) answers \<Rightarrow> nat \<Rightarrow> 'x call \<Rightarrow> bool \<Rightarrow> ('p, 'x) world \<Rightarrow> ('p, 'x) world" where
  "step_core C a k c owns w =
     (case execute_atomic_core C (project_begins a) (project_commits a) (w_clock w) (call_id c) (call_hash c) (call_effect c)
             (command_state a, command_response a) (w_canonical w) (w_project w) of
        (res, K', p') \<Rightarrow> move k c (atomic_after_core (call_id c) (call_effect c) owns res)
          (w\<lparr>w_canonical := K', w_project := p',
             w_history := w_history w @ (case res of
                 Inl _ \<Rightarrow> []
               | Inr x \<Rightarrow> if commits_now res then [Committed (call_request c) (w_clock w) (core_response x)]
                   else if core_committed x \<or> core_conflict x then [] else [Refused (call_request c) (core_response x)])\<rparr>))"

definition step_finalize :: "('p, 'x) answers \<Rightarrow> nat \<Rightarrow> 'x call \<Rightarrow> bool \<Rightarrow> 'x response \<Rightarrow> bool \<Rightarrow> ('p, 'x) world \<Rightarrow> ('p, 'x) world" where
  "step_finalize a k c owns r replayed w =
     move k c (atomic_after_finalize owns replayed (finalize_result a))
       (w\<lparr>w_history := w_history w @ [Finalized (call_request c) r (case finalize_result a of Inl x \<Rightarrow> x | Inr x \<Rightarrow> x)]\<rparr>)"

definition call_step :: "'x codec \<Rightarrow> ('p, 'x) answers \<Rightarrow> nat \<Rightarrow> 'x call \<Rightarrow> ('p, 'x) world \<Rightarrow> ('p, 'x) world" where
  "call_step C a k c w =
     (case call_point c of
        At_reserve \<Rightarrow> step_reserve C a k c w
      | At_wait owner \<Rightarrow> step_wait C a k c owner w
      | At_execute \<Rightarrow> step_execute a k c w
      | At_settle r \<Rightarrow> step_settle C a k c r w
      | At_core owns \<Rightarrow> step_core C a k c owns w
      | At_finalize owns r replayed \<Rightarrow> step_finalize a k c owns r replayed w
      | At_complete owns r replayed \<Rightarrow>
          (case atomic_complete C (ledger_up a) (ledger_tidy a) (w_clock w) (call_id c) (call_hash c) owns r replayed (w_ledger w) of
             (pt, L') \<Rightarrow> move k c pt (w\<lparr>w_ledger := L'\<rparr>))
      | At_abandon r replayed \<Rightarrow> move k c (At_done r replayed)
          (w\<lparr>w_ledger := snd (abandon (ledger_up a) (call_id c) (call_hash c) (call_instance c) (w_ledger w))\<rparr>)
      | At_release r replayed \<Rightarrow> move k c (At_prune r replayed)
          (w\<lparr>w_ledger := snd (abandon (ledger_up a) (call_id c) (call_hash c) (call_instance c) (w_ledger w))\<rparr>)
      | At_prune r replayed \<Rightarrow> move k c (At_done r replayed)
          (w\<lparr>w_canonical := prune_canonical_outcomes (ledger_up a \<and> project_begins a) (w_clock w) (w_ledger w) (w_canonical w)\<rparr>)
      | At_done r replayed \<Rightarrow> w)"

end
