(* ===== verification/Outcome_World.thy ===== *)
theory Outcome_World
  imports Outcome_Flow
begin

text \<open>
  The daemon over time: requests arrive and their calls interleave at the database accesses of
  \<open>Outcome_Flow\<close>, any access may fail, a daemon instance may die with its calls and its memory,
  and the ledger is opened and probed as \<open>tools/exo/src/daemon_outcomes.rs\<close> does. What every
  reachable world keeps, and from it that no identity acts twice.
\<close>

definition strip_auth :: "request \<Rightarrow> request" where
  "strip_auth q = q\<lparr>req_auth := None\<rparr>"

text \<open>
  A run starts with an empty ledger and an empty table of committed changes, so rows that earlier
  versions wrote are opened and sanitized as the code does but do not occur in a reachable world;
  and the clock, from which the retention is counted, does not go back.\<close>

text \<open>A request's flow depends on what it asks for, not on its authorization.\<close>

definition new_call :: "(request \<Rightarrow> flow) \<Rightarrow> request \<Rightarrow> request_hashes \<Rightarrow> effect \<Rightarrow> string \<Rightarrow> 'x call" where
  "new_call route q h e inst =
     \<lparr>call_flow = route (strip_auth q), call_request = q, call_hashes = h, call_effect = e, call_instance = inst,
      call_point = At_reserve\<rparr>"

definition crash :: "string \<Rightarrow> ('p, 'x) world \<Rightarrow> ('p, 'x) world" where
  "crash inst w =
     w\<lparr>w_calls := (\<lambda>k. case w_calls w k of None \<Rightarrow> None | Some c \<Rightarrow> if call_instance c = inst then None else Some c),
       w_caches := (w_caches w)(inst := (\<lambda>_. None))\<rparr>"

definition probe :: "'x codec \<Rightarrow> (request \<Rightarrow> flow) \<Rightarrow> bool \<Rightarrow> bool \<Rightarrow> string \<Rightarrow> request \<Rightarrow> ('p, 'x) world \<Rightarrow> ('p, 'x) world" where
  "probe C route reads writes inst q w =
     (case terminal_outcome_before_preparation C reads writes (w_caches w inst) q (w_ledger w) of
        (res, L') \<Rightarrow> w\<lparr>w_ledger := L', w_history := w_history w @
          (case res of Inr (Some (r, replayed)) \<Rightarrow> [Answered (route (strip_auth q)) q r replayed] | _ \<Rightarrow> [])\<rparr>)"

inductive daemon_step :: "'x codec \<Rightarrow> (request \<Rightarrow> flow) \<Rightarrow> ('p, 'x) world \<Rightarrow> ('p, 'x) world \<Rightarrow> bool" for C route where
  arrives: "\<lbrakk>w_calls w k = None; hashes_of C q = Some h\<rbrakk>
     \<Longrightarrow> daemon_step C route w (w\<lparr>w_calls := (w_calls w)(k \<mapsto> new_call route q h e inst)\<rparr>)"
| advances: "w_calls w k = Some c \<Longrightarrow> daemon_step C route w (call_step C a k c w)"
| probes: "daemon_step C route w (probe C route reads writes inst q w)"
| crashes: "daemon_step C route w (crash inst w)"
| opens: "daemon_step C route w (w\<lparr>w_ledger := open_ledger C (w_clock w) (w_ledger w)\<rparr>)"
| lapses: "daemon_step C route w (w\<lparr>w_caches := (w_caches w)(inst := (w_caches w inst)(i := None))\<rparr>)"
| ticks: "0 \<le> d \<Longrightarrow> daemon_step C route w (w\<lparr>w_clock := w_clock w + d\<rparr>)"

definition daemon_reachable :: "'x codec \<Rightarrow> (request \<Rightarrow> flow) \<Rightarrow> ('p, 'x) world \<Rightarrow> bool" where
  "daemon_reachable C route w \<longleftrightarrow> (\<exists>p now. (daemon_step C route)\<^sup>*\<^sup>* (initial_world p now) w)"

text \<open>Different requests have different fingerprints.\<close>

definition fingerprint_laws :: "'x codec \<Rightarrow> bool" where
  "fingerprint_laws C \<longleftrightarrow> (\<forall>q q' s. fingerprint C q = Some s \<longrightarrow> fingerprint C q' = Some s \<longrightarrow> q = q')"

section \<open>Identities\<close>

lemma strip_auth_id [simp]: "req_id (strip_auth q) = req_id q" "req_id (q\<lparr>req_auth := x\<rparr>) = req_id q"
  by (simp_all add: strip_auth_def)

lemma strip_auth_idem [simp]: "strip_auth (strip_auth q) = strip_auth q"
  by (simp add: strip_auth_def)

lemma request_hash_strip: "request_hash C q = fingerprint C (strip_auth q)"
  by (simp add: request_hash_def strip_auth_def)

lemma request_hash_inj:
  assumes "fingerprint_laws C" "request_hash C q = Some s" "request_hash C q' = Some s"
  shows "strip_auth q = strip_auth q'"
  using assms unfolding fingerprint_laws_def request_hash_strip by blast

lemma hashes_of_current: "hashes_of C q = Some h \<Longrightarrow> request_hash C q = Some (hash_current h)"
  by (auto simp: hashes_of_def bind_eq_Some_conv)

lemma hashes_match_current:
  assumes "fingerprint_laws C" "hashes_of C q = Some h" "request_hash C q' = Some s" "hashes_match h s"
  shows "s = hash_current h"
proof (cases "s = hash_legacy h")
  case True
  then have "fingerprint C q = Some s"
    using assms(2) by (auto simp: hashes_of_def bind_eq_Some_conv)
  then have "q = strip_auth q'"
    using assms(1,3) unfolding fingerprint_laws_def request_hash_strip by blast
  then have "strip_auth q = q" by simp
  then show ?thesis
    using \<open>fingerprint C q = Some s\<close> hashes_of_current [OF assms(2)] by (simp add: request_hash_strip)
qed (use assms(4) in \<open>simp add: hashes_match_def\<close>)

section \<open>What a reachable world keeps\<close>

definition row_accounted :: "'x codec \<Rightarrow> (request \<Rightarrow> flow) \<Rightarrow> 'x event list \<Rightarrow> request \<Rightarrow> ledger_row \<Rightarrow> bool" where
  "row_accounted C route H q row \<longleftrightarrow>
     (\<forall>s. row_response row = Some s \<longrightarrow>
        s = launch_marker_json \<or> route (strip_auth q) = Atomic
        \<or> route (strip_auth q) = External
          \<and> (\<exists>q' t r. Ran External q' t r \<in> set H \<and> strip_auth q' = strip_auth q \<and> to_text C r = Some s \<and> \<not> declined r))"

definition rows_ok :: "'x codec \<Rightarrow> (request \<Rightarrow> flow) \<Rightarrow> 'x event list \<Rightarrow> ledger \<Rightarrow> bool" where
  "rows_ok C route H L \<longleftrightarrow>
     (\<forall>i row. L i = Some row \<longrightarrow>
        (\<exists>q. req_id q = i \<and> request_hash C q = Some (row_hash row) \<and> row_accounted C route H q row))"

definition routed :: "'x codec \<Rightarrow> (request \<Rightarrow> flow) \<Rightarrow> flow \<Rightarrow> string \<Rightarrow> bool" where
  "routed C route f s \<longleftrightarrow> (\<exists>q. request_hash C q = Some s \<and> route (strip_auth q) = f)"

definition live_row :: "'x codec \<Rightarrow> (request \<Rightarrow> flow) \<Rightarrow> flow \<Rightarrow> int \<Rightarrow> ledger_row \<Rightarrow> bool" where
  "live_row C route f t row \<longleftrightarrow> routed C route f (row_hash row)
     \<and> (f = Launch \<longrightarrow> row_response row \<in> {None, Some launch_marker_json})
     \<and> (\<forall>tc. row_completed row = Some tc \<longrightarrow> t \<le> tc)"

definition lapsed :: "int \<Rightarrow> flow \<Rightarrow> int \<Rightarrow> bool" where
  "lapsed now f t \<longleftrightarrow> f \<noteq> Launch \<and> t + retention_secs < now"

definition remembered :: "'x codec \<Rightarrow> (request \<Rightarrow> flow) \<Rightarrow> int \<Rightarrow> ledger \<Rightarrow> flow \<Rightarrow> string \<Rightarrow> int \<Rightarrow> bool" where
  "remembered C route now L f i t \<longleftrightarrow> lapsed now f t \<or> (\<exists>row. L i = Some row \<and> live_row C route f t row)"

definition point_fits :: "'x call \<Rightarrow> bool" where
  "point_fits c \<longleftrightarrow> (case call_point c of
       At_reserve \<Rightarrow> True | At_wait _ \<Rightarrow> True | At_done _ _ \<Rightarrow> True
     | At_execute \<Rightarrow> call_flow c \<noteq> Atomic | At_settle _ \<Rightarrow> call_flow c \<noteq> Atomic
     | _ \<Rightarrow> call_flow c = Atomic)"

definition holding :: "'x call \<Rightarrow> bool" where
  "holding c \<longleftrightarrow> (case call_point c of At_execute \<Rightarrow> True | At_settle _ \<Rightarrow> True | _ \<Rightarrow> False)"

definition holds_row :: "ledger \<Rightarrow> 'x call \<Rightarrow> bool" where
  "holds_row L c \<longleftrightarrow> (\<exists>row. L (call_id c) = Some row \<and> row_response row = None \<and> row_instance row = call_instance c
     \<and> row_hash row = call_hash c \<and> row_completed row = None)"

text \<open>Before a call runs its command, every earlier act under its identity was declined or has
  lapsed; between running and recording, its own act is the only exception.\<close>

definition sole_run :: "int \<Rightarrow> 'x event list \<Rightarrow> 'x call \<Rightarrow> bool" where
  "sole_run now H c \<longleftrightarrow>
     (\<forall>f q t r. Ran f q t r \<in> set H \<longrightarrow> req_id q = call_id c \<longrightarrow> \<not> declined r \<longrightarrow>
        lapsed now f t \<or> call_point c = At_settle r)
     \<and> (\<forall>r. call_point c = At_settle r \<longrightarrow> (\<exists>t. Ran (call_flow c) (call_request c) t r \<in> set H))"

definition call_ok :: "'x codec \<Rightarrow> (request \<Rightarrow> flow) \<Rightarrow> int \<Rightarrow> 'x event list \<Rightarrow> ledger \<Rightarrow> 'x call \<Rightarrow> bool" where
  "call_ok C route now H L c \<longleftrightarrow>
     hashes_of C (call_request c) = Some (call_hashes c) \<and> call_flow c = route (strip_auth (call_request c))
     \<and> point_fits c \<and> (holding c \<longrightarrow> holds_row L c \<and> sole_run now H c)"

definition runs_ok :: "'x codec \<Rightarrow> (request \<Rightarrow> flow) \<Rightarrow> int \<Rightarrow> 'x event list \<Rightarrow> ledger \<Rightarrow> bool" where
  "runs_ok C route now H L \<longleftrightarrow>
     (\<forall>f q t r. Ran f q t r \<in> set H \<longrightarrow>
        f \<noteq> Atomic \<and> t \<le> now \<and> (declined r \<or> remembered C route now L f (req_id q) t))"

definition spaced :: "'x event \<Rightarrow> 'x event \<Rightarrow> bool" where
  "spaced e e' \<longleftrightarrow> (case e of
     Ran f q t r \<Rightarrow> (case e' of
         Ran f' q' t' r' \<Rightarrow> req_id q' = req_id q \<longrightarrow> declined r \<or> lapsed t' f t
       | _ \<Rightarrow> True)
   | _ \<Rightarrow> True)"

abbreviation at_most_once :: "'x event list \<Rightarrow> bool" where
  "at_most_once \<equiv> sorted_wrt spaced"

definition exclusive :: "(nat \<rightharpoonup> 'x call) \<Rightarrow> bool" where
  "exclusive cs \<longleftrightarrow> (\<forall>k c k' c'. cs k = Some c \<longrightarrow> cs k' = Some c' \<longrightarrow> holding c \<longrightarrow> holding c' \<longrightarrow>
     call_id c = call_id c' \<longrightarrow> k = k')"

definition sound :: "'x codec \<Rightarrow> (request \<Rightarrow> flow) \<Rightarrow> ('p, 'x) world \<Rightarrow> bool" where
  "sound C route w \<longleftrightarrow>
     rows_ok C route (w_history w) (w_ledger w)
     \<and> runs_ok C route (w_clock w) (w_history w) (w_ledger w)
     \<and> (\<forall>k c. w_calls w k = Some c \<longrightarrow> call_ok C route (w_clock w) (w_history w) (w_ledger w) c)
     \<and> exclusive (w_calls w)
     \<and> at_most_once (w_history w)"

end
