(* ===== verification/Outcome_Keeps.thy ===== *)
theory Outcome_Keeps
  imports Outcome_World
begin

text \<open>
  What each statement of \<open>Outcome_Ops\<close> may do to the ledger while calls are between running and
  recording: rows in flight stay for their holders, and a row that remembers an act stays as long
  as the act has to be remembered.
\<close>

definition ledger_safe ::
  "'x codec \<Rightarrow> (request \<Rightarrow> flow) \<Rightarrow> int \<Rightarrow> (string \<Rightarrow> ledger_row \<Rightarrow> bool) \<Rightarrow> (string \<Rightarrow> bool) \<Rightarrow> ledger \<Rightarrow> ledger \<Rightarrow> bool" where
  "ledger_safe C route now X Z L L' \<longleftrightarrow>
     (\<forall>i row. L i = Some row \<longrightarrow> row_response row = None \<longrightarrow> \<not> X i row \<longrightarrow> L' i = Some row)
     \<and> (\<forall>f i t. f \<noteq> Atomic \<longrightarrow> t \<le> now \<longrightarrow> \<not> Z i \<longrightarrow> remembered C route now L f i t \<longrightarrow> remembered C route now L' f i t)"

lemma ledger_safe_refl [simp]: "ledger_safe C route now X Z L L"
  by (simp add: ledger_safe_def)

lemma ledger_safe_trans:
  assumes "ledger_safe C route now X Z L L'" "ledger_safe C route now (\<lambda>_ _. False) (\<lambda>_. False) L' L''"
  shows "ledger_safe C route now X Z L L''"
  using assms unfolding ledger_safe_def by blast

lemma ledger_safe_mono:
  assumes "ledger_safe C route now (\<lambda>_ _. False) (\<lambda>_. False) L L'"
  shows "ledger_safe C route now X Z L L'"
  using assms unfolding ledger_safe_def by blast

section \<open>Changes of one row\<close>

lemma safe_insert: "L i = None \<Longrightarrow> ledger_safe C route now X Z L (L(i \<mapsto> row))"
  by (auto simp: ledger_safe_def remembered_def)

lemma safe_update:
  assumes "L i = Some row" and "row_response row = None \<Longrightarrow> X i row"
    and "\<And>f t. f \<noteq> Atomic \<Longrightarrow> t \<le> now \<Longrightarrow> live_row C route f t row \<Longrightarrow> live_row C route f t row'"
  shows "ledger_safe C route now X Z L (L(i \<mapsto> row'))"
  unfolding ledger_safe_def
proof (intro conjI allI impI)
  fix j r
  assume "L j = Some r" "row_response r = None" "\<not> X j r"
  then show "(L(i \<mapsto> row')) j = Some r"
    using assms(1,2) by auto
next
  fix f j t
  assume *: "f \<noteq> Atomic" "t \<le> now" "\<not> Z j" "remembered C route now L f j t"
  then show "remembered C route now (L(i \<mapsto> row')) f j t"
    using assms(1) assms(3) [OF *(1,2)] unfolding remembered_def by auto
qed

lemma safe_remove:
  assumes "L i = Some row" and "row_response row = None \<Longrightarrow> X i row"
    and "\<And>f t. \<not> Z i \<Longrightarrow> f \<noteq> Atomic \<Longrightarrow> \<not> live_row C route f t row"
  shows "ledger_safe C route now X Z L (L(i := None))"
  unfolding ledger_safe_def
proof (intro conjI allI impI)
  fix j r
  assume "L j = Some r" "row_response r = None" "\<not> X j r"
  then show "(L(i := None)) j = Some r"
    using assms(1,2) by auto
next
  fix f j t
  assume *: "f \<noteq> Atomic" "t \<le> now" "\<not> Z j" "remembered C route now L f j t"
  then show "remembered C route now (L(i := None)) f j t"
    using assms(1) assms(3) [of f t] unfolding remembered_def by auto
qed

section \<open>Maintenance\<close>

lemma prune_completed_Some: "prune_completed now L i = Some row \<longleftrightarrow> L i = Some row \<and> \<not> expired now row"
  by (auto simp: prune_completed_def split: option.splits)

lemma expired_not_live:
  assumes "expired now row" "live_row C route f t row"
  shows "lapsed now f t"
  using assms by (auto simp: expired_def live_row_def lapsed_def split: option.splits)

lemma safe_prune: "ledger_safe C route now X Z L (prune_completed now L)"
proof (rule ledger_safe_mono)
  show "ledger_safe C route now (\<lambda>_ _. False) (\<lambda>_. False) L (prune_completed now L)"
    unfolding ledger_safe_def
  proof (intro conjI allI impI)
    fix i row
    assume "L i = Some row" "row_response row = None"
    then show "prune_completed now L i = Some row"
      by (simp add: prune_completed_Some expired_def split: option.splits)
  next
    fix f i t
    assume "remembered C route now L f i t"
    then show "remembered C route now (prune_completed now L) f i t"
      unfolding remembered_def prune_completed_Some using expired_not_live by blast
  qed
qed

lemma rows_ok_prune: "rows_ok C route H L \<Longrightarrow> rows_ok C route H (prune_completed now L)"
  by (simp add: rows_ok_def prune_completed_Some)

lemma row_accounted_mono:
  "row_accounted C route H q row \<Longrightarrow> set H \<subseteq> set H' \<Longrightarrow> row_accounted C route H' q row"
  unfolding row_accounted_def by (blast dest: subsetD)

lemma rows_ok_mono:
  assumes "rows_ok C route H L" "set H \<subseteq> set H'"
  shows "rows_ok C route H' L"
  unfolding rows_ok_def
proof (intro allI impI)
  fix i row
  assume "L i = Some row"
  then obtain q where "req_id q = i" "request_hash C q = Some (row_hash row)" "row_accounted C route H q row"
    using assms(1) unfolding rows_ok_def by blast
  then show "\<exists>q. req_id q = i \<and> request_hash C q = Some (row_hash row) \<and> row_accounted C route H' q row"
    using row_accounted_mono [OF _ assms(2)] by blast
qed

lemma rows_ok_upd:
  assumes "rows_ok C route H L" "req_id q = i" "request_hash C q = Some (row_hash row)" "row_accounted C route H q row"
  shows "rows_ok C route H (L(i \<mapsto> row))"
  using assms unfolding rows_ok_def by auto

lemma rows_ok_del: "rows_ok C route H L \<Longrightarrow> rows_ok C route H (L(i := None))"
  by (simp add: rows_ok_def)

lemma rows_ok_mark:
  assumes "rows_ok C route H L" "L i = Some row"
  shows "rows_ok C route H (L(i \<mapsto> row\<lparr>row_response := Some launch_marker_json\<rparr>))"
proof -
  obtain q where q: "req_id q = i" "request_hash C q = Some (row_hash row)"
    using assms unfolding rows_ok_def by blast
  show ?thesis
    by (rule rows_ok_upd [OF assms(1) q(1)]) (use q in \<open>simp_all add: row_accounted_def\<close>)
qed

lemma live_row_mark: "live_row C route f t row \<Longrightarrow> live_row C route f t (row\<lparr>row_response := Some launch_marker_json\<rparr>)"
  by (simp add: live_row_def)

lemma safe_sanitize: "ledger_safe C route now X Z L (sanitize_legacy_workbench_launch_responses C L)"
proof (rule ledger_safe_mono)
  let ?S = "sanitize_legacy_workbench_launch_responses C L"
  show "ledger_safe C route now (\<lambda>_ _. False) (\<lambda>_. False) L ?S"
    unfolding ledger_safe_def
  proof (intro conjI allI impI)
    fix i row
    assume "L i = Some row" "row_response row = None"
    then show "?S i = Some row"
      by (simp add: sanitize_legacy_workbench_launch_responses_def)
  next
    fix f i t
    assume *: "remembered C route now L f i t"
    have "\<exists>row'. ?S i = Some row' \<and> live_row C route f t row'" if "L i = Some row" "live_row C route f t row" for row
      using that live_row_mark [OF that(2)]
      by (cases "row_response row") (auto simp: sanitize_legacy_workbench_launch_responses_def)
    then show "remembered C route now ?S f i t"
      using * unfolding remembered_def by blast
  qed
qed

lemma rows_ok_sanitize:
  assumes "rows_ok C route H L"
  shows "rows_ok C route H (sanitize_legacy_workbench_launch_responses C L)"
  unfolding rows_ok_def
proof (intro allI impI)
  fix i row'
  assume row': "sanitize_legacy_workbench_launch_responses C L i = Some row'"
  then obtain row where row: "L i = Some row"
    by (auto simp: sanitize_legacy_workbench_launch_responses_def split: option.splits)
  then obtain q where q: "req_id q = i" "request_hash C q = Some (row_hash row)" "row_accounted C route H q row"
    using assms unfolding rows_ok_def by blast
  have "row' = row \<or> row' = row\<lparr>row_response := Some launch_marker_json\<rparr>"
    using row' row
    by (cases "row_response row") (simp_all add: sanitize_legacy_workbench_launch_responses_def split: if_splits)
  then show "\<exists>q. req_id q = i \<and> request_hash C q = Some (row_hash row') \<and> row_accounted C route H q row'" (is ?thesis)
  proof
    assume "row' = row"
    then show ?thesis using q by blast
  next
    assume "row' = row\<lparr>row_response := Some launch_marker_json\<rparr>"
    then have "row_accounted C route H q row'" "row_hash row' = row_hash row"
      by (simp_all add: row_accounted_def)
    then show ?thesis using q by metis
  qed
qed

section \<open>Reservations\<close>

lemma routed_hash:
  assumes "fingerprint_laws C" "routed C route f s" "request_hash C q = Some s"
  shows "f = route (strip_auth q)"
  using assms request_hash_inj unfolding routed_def by metis

lemma reserve_cases:
  assumes laws: "fingerprint_laws C" and rows: "rows_ok C route H L" and h: "hashes_of C q = Some h" and i: "i = req_id q"
    and res: "reserve_compatible C up now i h e cl inst L = (res, L')"
  obtains (new) "res = Inr Reserve_execute" "L i = None" "L' = L(i \<mapsto> new_row now h e cl inst)"
  | (replay) c row s where "res = Inr (Reserve_replay c)" "L i = Some row" "row_response row = Some s"
      "completion_of_text C s = Some c" "row_hash row = hash_current h" "L' = L"
  | (other) "res \<noteq> Inr Reserve_execute" "\<And>c. res \<noteq> Inr (Reserve_replay c)" "L' = L"
proof (cases "up \<and> L i \<noteq> None")
  case False
  show ?thesis
  proof (cases up)
    case up: True
    then have "L i = None" using False by simp
    then show ?thesis
      using res up by (intro new) (simp_all add: reserve_compatible_def)
  qed (use res in \<open>intro other, auto simp: reserve_compatible_def\<close>)
next
  case True
  then obtain row where row: "L i = Some row" by blast
  then obtain q' where q': "request_hash C q' = Some (row_hash row)"
    using rows unfolding rows_ok_def by blast
  have same: "hashes_match h (row_hash row) \<Longrightarrow> row_hash row = hash_current h"
    using hashes_match_current [OF laws h q'] by blast
  then have mig: "migrate_hash h i L = L"
    using row by (auto simp: migrate_hash_def)
  show ?thesis
  proof (cases "row_response row")
    case None
    then show ?thesis
      using res True row mig by (intro other) (auto simp: reserve_compatible_def split: if_splits)
  next
    case (Some s)
    show ?thesis
    proof (cases "hashes_match h (row_hash row)")
      case False
      then show ?thesis
        using res True row mig by (intro other) (auto simp: reserve_compatible_def)
    next
      case matches: True
      show ?thesis
      proof (cases "completion_of_text C s")
        case None
        then show ?thesis
          using res True row mig matches Some by (intro other) (auto simp: reserve_compatible_def)
      next
        case (Some c)
        then show ?thesis
          using res True row mig matches \<open>row_response row = Some s\<close> same
          by (intro replay) (auto simp: reserve_compatible_def)
      qed
    qed
  qed
qed

section \<open>Recording and giving back\<close>

lemma record_completion_cases:
  assumes "record_completion up tidy now i hash s L = (res, L')"
  obtains (failed) err where "res = Inl err" "L' = L"
  | (recorded) row where "res = Inr ()" "L i = Some row" "row_hash row = hash" "row_response row = None"
      "L' = L(i \<mapsto> row\<lparr>row_response := Some s, row_completed := Some now\<rparr>)
       \<or> L' = prune_completed now (L(i \<mapsto> row\<lparr>row_response := Some s, row_completed := Some now\<rparr>))"
  using assms by (cases "L i") (auto simp: record_completion_def Let_def split: if_splits)

lemma abandon_cases:
  assumes "abandon up i hash inst L = (res, L')"
  obtains (failed) err where "res = Inl err" "L' = L"
  | (removed) row where "res = Inr ()" "L i = Some row" "row_hash row = hash" "row_instance row = inst"
      "row_response row = None" "L' = L(i := None)"
  using assms by (cases "L i") (auto simp: abandon_def split: if_splits)

lemma safe_record:
  assumes "record_completion up tidy now i hash s L = (res, L')"
    and X: "\<And>row. L i = Some row \<Longrightarrow> row_hash row = hash \<Longrightarrow> X i row"
    and launch: "routed C route Launch hash \<Longrightarrow> s = launch_marker_json"
  shows "ledger_safe C route now X Z L L'"
  using assms(1)
proof (cases rule: record_completion_cases)
  case (recorded row)
  let ?L = "L(i \<mapsto> row\<lparr>row_response := Some s, row_completed := Some now\<rparr>)"
  have "ledger_safe C route now X Z L ?L"
    by (rule safe_update [where X = X and L = L and i = i, OF recorded(2)]) (use recorded X launch in \<open>auto simp: live_row_def\<close>)
  then show ?thesis
    using recorded(5) ledger_safe_trans [OF _ safe_prune] by blast
qed simp

lemma rows_ok_record:
  assumes rows: "rows_ok C route H L" and rec: "record_completion up tidy now (req_id q) hash s L = (res, L')"
    and q: "request_hash C q = Some hash"
    and s: "\<And>row. row_response row = Some s \<Longrightarrow> row_accounted C route H q row"
  shows "rows_ok C route H L'"
  using rec
proof (cases rule: record_completion_cases)
  case (recorded row)
  have "rows_ok C route H (L(req_id q \<mapsto> row\<lparr>row_response := Some s, row_completed := Some now\<rparr>))"
    by (rule rows_ok_upd [OF rows refl]) (use recorded q s in auto)
  then show ?thesis
    using recorded(5) rows_ok_prune by blast
qed (use rows in simp)

end
