(* ===== verification/Outcome_Sound.thy ===== *)
theory Outcome_Sound
  imports Outcome_Keeps
begin

text \<open>
  Every step of the daemon keeps \<open>sound\<close>: one frame lemma for the changes that run no command,
  then a short case for each access of a call.
\<close>

definition no_runs :: "'x event list \<Rightarrow> bool" where
  "no_runs es \<longleftrightarrow> (\<forall>f q t r. Ran f q t r \<notin> set es)"

lemma no_runs_simps [simp]:
  "no_runs []" "no_runs (Answered f q r b # es) = no_runs es" "no_runs (Committed q t r # es) = no_runs es"
  "no_runs (Refused q r # es) = no_runs es" "no_runs (Finalized q r x # es) = no_runs es"
  by (auto simp: no_runs_def)

lemma spaced_other [simp]:
  "spaced e (Answered f q r b)" "spaced e (Committed q t r)" "spaced e (Refused q r)" "spaced e (Finalized q r x)"
  "spaced (Answered f q r b) e" "spaced (Committed q t r) e" "spaced (Refused q r) e" "spaced (Finalized q r x) e"
  by (simp_all add: spaced_def split: event.splits)

lemma spaced_ran [simp]: "spaced (Ran f q t r) (Ran f' q' t' r') \<longleftrightarrow> (req_id q' = req_id q \<longrightarrow> declined r \<or> lapsed t' f t)"
  by (simp add: spaced_def)

lemma at_most_once_append:
  assumes "no_runs es" "at_most_once H"
  shows "at_most_once (H @ es)"
proof -
  have other: "spaced x y \<and> spaced y x" if "y \<in> set es" for x y
  proof -
    have "\<And>f q t r. y \<noteq> Ran f q t r" using that assms(1) unfolding no_runs_def by blast
    then show ?thesis by (cases y) auto
  qed
  have "sorted_wrt (\<lambda>x y. y \<in> set es) es"
    by (rule sorted_wrt_mono_rel [of _ "\<lambda>_ _. True"]) (auto simp: sorted_wrt_iff_nth_less)
  then have "at_most_once es"
    by (rule sorted_wrt_mono_rel [rotated]) (use other in blast)
  then show ?thesis
    using assms(2) other by (simp add: sorted_wrt_append)
qed

lemma at_most_once_split:
  assumes "at_most_once (as @ Ran f q t r # bs)" "Ran f' q' t' r' \<in> set bs" "req_id q' = req_id q"
  shows "declined r \<or> lapsed t' f t"
  using assms by (fastforce simp: sorted_wrt_append)

section \<open>Calls\<close>

lemma call_routed:
  assumes "call_ok C route now H L c"
  shows "request_hash C (call_request c) = Some (call_hash c)" "routed C route (call_flow c) (call_hash c)"
  using assms hashes_of_current unfolding call_ok_def call_hash_def routed_def by metis+

lemma holding_flow: "call_ok C route now H L c \<Longrightarrow> holding c \<Longrightarrow> call_flow c \<noteq> Atomic"
  by (auto simp: call_ok_def holding_def point_fits_def split: point.splits)

lemma holder_not_atomic:
  assumes "fingerprint_laws C" "call_ok C route now H L c" "holding c"
  shows "\<not> routed C route Atomic (call_hash c)"
  using routed_hash [OF assms(1) _ call_routed(1) [OF assms(2)]] holding_flow [OF assms(2,3)] assms(2)
  unfolding call_ok_def by metis

lemma call_with_point [simp]:
  "call_id (c\<lparr>call_point := pt\<rparr>) = call_id c" "call_hash (c\<lparr>call_point := pt\<rparr>) = call_hash c"
  by (simp_all add: call_id_def call_hash_def)

lemma move_simps [simp]:
  "w_ledger (move k c pt w) = w_ledger w" "w_canonical (move k c pt w) = w_canonical w" "w_project (move k c pt w) = w_project w"
  "w_clock (move k c pt w) = w_clock w" "w_calls (move k c pt w) = (w_calls w)(k \<mapsto> c\<lparr>call_point := pt\<rparr>)"
  by (simp_all add: move_def)

definition answer_of :: "'x call \<Rightarrow> 'x point \<Rightarrow> 'x event list" where
  "answer_of c pt = (case pt of At_done r replayed \<Rightarrow> [Answered (call_flow c) (call_request c) r replayed] | _ \<Rightarrow> [])"

lemma move_history [simp]: "w_history (move k c pt w) = w_history w @ answer_of c pt"
  by (simp add: move_def answer_of_def)

lemma no_runs_answer [simp]: "no_runs (answer_of c pt)"
  by (simp add: answer_of_def split: point.splits)

lemma exclusive_move:
  assumes "exclusive cs" "cs k = Some c"
    and "holding (c\<lparr>call_point := pt\<rparr>) \<Longrightarrow> holding c \<or> (\<forall>k' d. cs k' = Some d \<longrightarrow> holding d \<longrightarrow> call_id d \<noteq> call_id c)"
  shows "exclusive (cs(k \<mapsto> c\<lparr>call_point := pt\<rparr>))"
  using assms unfolding exclusive_def fun_upd_apply
  by (metis call_with_point(1) option.inject)

section \<open>The frame\<close>

lemma sound_frame:
  assumes S: "sound C route w"
    and safe: "ledger_safe C route (w_clock w) X Z (w_ledger w) (w_ledger w')"
    and rows: "rows_ok C route (w_history w') (w_ledger w')"
    and hist: "w_history w' = w_history w @ es" "no_runs es" and clock: "w_clock w' = w_clock w"
    and Z: "\<And>f q t r. Ran f q t r \<in> set (w_history w) \<Longrightarrow> Z (req_id q) \<Longrightarrow> declined r \<or> lapsed (w_clock w) f t"
    and calls: "\<And>j d. w_calls w' j = Some d \<Longrightarrow>
        w_calls w j = Some d \<and> (\<forall>row. holding d \<longrightarrow> row_hash row = call_hash d \<longrightarrow> \<not> X (call_id d) row)
        \<or> call_ok C route (w_clock w) (w_history w') (w_ledger w') d"
    and excl: "exclusive (w_calls w')"
  shows "sound C route w'"
proof -
  have same: "Ran f q t r \<in> set (w_history w') \<longleftrightarrow> Ran f q t r \<in> set (w_history w)" for f q t r
    using hist by (auto simp: no_runs_def)
  have runs: "runs_ok C route (w_clock w) (w_history w') (w_ledger w')"
    unfolding runs_ok_def
  proof (intro allI impI)
    fix f q t r
    assume ran: "Ran f q t r \<in> set (w_history w')"
    then have old: "f \<noteq> Atomic" "t \<le> w_clock w" "declined r \<or> remembered C route (w_clock w) (w_ledger w) f (req_id q) t"
      using S same unfolding sound_def runs_ok_def by blast+
    have "declined r \<or> remembered C route (w_clock w) (w_ledger w') f (req_id q) t"
    proof (cases "Z (req_id q)")
      case True
      then show ?thesis using Z same ran by (auto simp: remembered_def)
    next
      case False
      then show ?thesis using old safe unfolding ledger_safe_def by blast
    qed
    then show "f \<noteq> Atomic \<and> t \<le> w_clock w \<and> (declined r \<or> remembered C route (w_clock w) (w_ledger w') f (req_id q) t)"
      using old by blast
  qed
  have ok: "call_ok C route (w_clock w) (w_history w') (w_ledger w') d" if "w_calls w' j = Some d" for j d
    using calls [OF that]
  proof
    assume *: "w_calls w j = Some d \<and> (\<forall>row. holding d \<longrightarrow> row_hash row = call_hash d \<longrightarrow> \<not> X (call_id d) row)"
    then have before: "call_ok C route (w_clock w) (w_history w) (w_ledger w) d"
      using S unfolding sound_def by blast
    have "holds_row (w_ledger w') d \<and> sole_run (w_clock w) (w_history w') d" if "holding d"
    proof
      show "holds_row (w_ledger w') d"
        using before that * safe unfolding call_ok_def holds_row_def ledger_safe_def by metis
      show "sole_run (w_clock w) (w_history w') d"
        using before that same unfolding call_ok_def sole_run_def by blast
    qed
    then show ?thesis
      using before unfolding call_ok_def by blast
  qed
  have "at_most_once (w_history w')"
    using S hist at_most_once_append unfolding sound_def by metis
  then show ?thesis
    using rows runs ok excl clock unfolding sound_def by simp
qed

text \<open>A call that moves on without running: the ledger changes safely, and a call that starts
  holding has just inserted its row.\<close>

lemma sound_move:
  assumes S: "sound C route w" and k: "w_calls w k = Some c"
    and safe: "ledger_safe C route (w_clock w) X Z (w_ledger w) (w_ledger v)"
    and rows: "rows_ok C route (w_history w) (w_ledger v)"
    and v: "w_calls v = w_calls w" "w_history v = w_history w @ es" "w_clock v = w_clock w" "no_runs es"
    and Z: "\<And>f q t r. Ran f q t r \<in> set (w_history w) \<Longrightarrow> Z (req_id q) \<Longrightarrow> declined r \<or> lapsed (w_clock w) f t"
    and others: "\<And>j d row. w_calls w j = Some d \<Longrightarrow> j \<noteq> k \<Longrightarrow> holding d \<Longrightarrow> row_hash row = call_hash d \<Longrightarrow> \<not> X (call_id d) row"
    and fits: "point_fits (c\<lparr>call_point := pt\<rparr>)"
    and holds: "holding (c\<lparr>call_point := pt\<rparr>) \<Longrightarrow> pt = At_execute \<and> w_ledger w (call_id c) = None \<and> holds_row (w_ledger v) c"
  shows "sound C route (move k c pt v)"
proof (rule sound_frame [OF S])
  let ?w = "move k c pt v"
  have c: "call_ok C route (w_clock w) (w_history w) (w_ledger w) c"
    using S k unfolding sound_def by blast
  show "ledger_safe C route (w_clock w) X Z (w_ledger w) (w_ledger ?w)"
    using safe by simp
  show "rows_ok C route (w_history ?w) (w_ledger ?w)"
    using rows_ok_mono [OF rows] v(2) by simp
  show "w_history ?w = w_history w @ (es @ answer_of c pt)" "no_runs (es @ answer_of c pt)" "w_clock ?w = w_clock w"
    using v no_runs_answer [of c pt] by (auto simp: no_runs_def)
  show "declined r \<or> lapsed (w_clock w) f t" if "Ran f q t r \<in> set (w_history w)" "Z (req_id q)" for f q t r
    using Z that .
  have new: "sole_run (w_clock w) (w_history ?w) (c\<lparr>call_point := pt\<rparr>)" if "holding (c\<lparr>call_point := pt\<rparr>)"
    unfolding sole_run_def
  proof (intro conjI allI impI)
    fix f q t r
    assume ran: "Ran f q t r \<in> set (w_history ?w)" "req_id q = call_id (c\<lparr>call_point := pt\<rparr>)" "\<not> declined r"
    then have "Ran f q t r \<in> set (w_history w)"
      using v(2,4) no_runs_answer [of c pt] by (auto simp: no_runs_def)
    then have "remembered C route (w_clock w) (w_ledger w) f (call_id c) t"
      using S ran(2,3) unfolding sound_def runs_ok_def by (metis call_with_point(1))
    then show "lapsed (w_clock w) f t \<or> call_point (c\<lparr>call_point := pt\<rparr>) = At_settle r"
      using holds [OF that] by (simp add: remembered_def)
  qed (use holds [OF that] in simp)
  show "w_calls w j = Some d \<and> (\<forall>row. holding d \<longrightarrow> row_hash row = call_hash d \<longrightarrow> \<not> X (call_id d) row)
        \<or> call_ok C route (w_clock w) (w_history ?w) (w_ledger ?w) d" if "w_calls ?w j = Some d" for j d
  proof (cases "j = k")
    case True
    then have d: "d = c\<lparr>call_point := pt\<rparr>" using that by simp
    have "holding d \<longrightarrow> holds_row (w_ledger v) d"
      using holds unfolding d holds_row_def by simp
    then have "call_ok C route (w_clock w) (w_history ?w) (w_ledger ?w) d"
      using c fits new unfolding call_ok_def d by simp
    then show ?thesis ..
  next
    case False
    then show ?thesis using that others v(1) by auto
  qed
  have "holding c \<or> (\<forall>k' d. w_calls w k' = Some d \<longrightarrow> holding d \<longrightarrow> call_id d \<noteq> call_id c)" if "holding (c\<lparr>call_point := pt\<rparr>)"
  proof -
    have "w_ledger w (call_id d) \<noteq> None" if "w_calls w k' = Some d" "holding d" for k' d
      using S that unfolding sound_def call_ok_def holds_row_def by blast
    then show ?thesis using holds [OF that] by metis
  qed
  then show "exclusive (w_calls ?w)"
    using exclusive_move [of "w_calls w" k c pt] S k v(1) unfolding sound_def by simp
qed

end
