(* ===== verification/Outcome_Steps.thy ===== *)
theory Outcome_Steps
  imports Outcome_Sound
begin

text \<open>The cases of a daemon step, and that every reachable world is \<open>sound\<close>.\<close>

lemma completion_of_response: "codec_laws C \<Longrightarrow> to_text C r = Some s \<Longrightarrow> completion_of_text C s = Some (Completed_response r)"
  unfolding codec_laws_def completion_of_text_def get_str_def by (elim conjE allE impE) auto

lemma completion_of_marker: "codec_laws C \<Longrightarrow> completion_of_text C launch_marker_json = Some Launch_marker"
  by (simp add: codec_laws_def completion_of_text_def get_str_def json_get_def as_str_def as_u64_def)

lemma soundD:
  assumes "sound C route w"
  shows "rows_ok C route (w_history w) (w_ledger w)" "runs_ok C route (w_clock w) (w_history w) (w_ledger w)"
    "w_calls w k = Some c \<Longrightarrow> call_ok C route (w_clock w) (w_history w) (w_ledger w) c"
    "exclusive (w_calls w)" "at_most_once (w_history w)"
  using assms by (simp_all add: sound_def)

lemma call_okD:
  assumes "call_ok C route now H L c"
  shows "hashes_of C (call_request c) = Some (call_hashes c)" "call_flow c = route (strip_auth (call_request c))"
    "point_fits c" "holding c \<Longrightarrow> holds_row L c" "holding c \<Longrightarrow> sole_run now H c"
  using assms by (simp_all add: call_ok_def)

lemma holding_simps [simp]:
  "call_point c = At_execute \<Longrightarrow> holding c" "call_point c = At_settle r \<Longrightarrow> holding c"
  "holding (c\<lparr>call_point := pt\<rparr>) \<longleftrightarrow> pt = At_execute \<or> (\<exists>r. pt = At_settle r)"
  by (auto simp: holding_def split: point.splits)

section \<open>Reserving and waiting\<close>

lemmas after_reserve_defs =
  after_reserve_def external_after_reserve_def launch_after_reserve_def atomic_after_reserve_def persistence_failure_def

lemmas after_wait_defs =
  after_wait_def external_after_wait_def launch_after_wait_def atomic_after_wait_def persistence_failure_def Let_def

lemma after_reserve_fits: "point_fits (c\<lparr>call_point := after_reserve c cache res\<rparr>)"
  by (simp add: point_fits_def after_reserve_defs split: flow.splits sum.splits reservation.splits)

lemma after_reserve_holding:
  "holding (c\<lparr>call_point := after_reserve c cache res\<rparr>) \<Longrightarrow> after_reserve c cache res = At_execute \<and> res = Inr Reserve_execute"
  by (auto simp: after_reserve_defs split: flow.splits sum.splits reservation.splits if_splits)

lemma after_wait_fits: "point_fits (c\<lparr>call_point := after_wait a c owner cache K res\<rparr>)"
  by (simp add: point_fits_def after_wait_defs split: flow.splits sum.splits waited.splits bool.splits)

lemma after_wait_not_holding: "\<not> holding (c\<lparr>call_point := after_wait a c owner cache K res\<rparr>)"
  by (simp add: after_wait_defs split: flow.splits sum.splits waited.splits bool.splits)

lemma reserve_sound:
  assumes prints: "fingerprint_laws C" and S: "sound C route w" and k: "w_calls w k = Some c"
  shows "sound C route (step_reserve C a k c w)"
proof -
  have c: "call_ok C route (w_clock w) (w_history w) (w_ledger w) c"
    using soundD(3) [OF S k] .
  obtain res L' where r: "reserve_compatible C (ledger_up a) (w_clock w) (call_id c) (call_hashes c) (call_effect c)
      (flow_class (call_flow c)) (call_instance c) (w_ledger w) = (res, L')"
    by (meson surj_pair)
  have fits: "point_fits (c\<lparr>call_point := after_reserve c (w_caches w (call_instance c)) res\<rparr>)"
    by (rule after_reserve_fits)
  have i: "call_id c = req_id (call_request c)"
    by (simp add: call_id_def)
  have "sound C route (move k c (after_reserve c (w_caches w (call_instance c)) res) (w\<lparr>w_ledger := L'\<rparr>))"
    using prints soundD(1) [OF S] call_okD(1) [OF c] i r
  proof (cases rule: reserve_cases)
    case new
    have "rows_ok C route (w_history w) L'"
      unfolding new(3)
      by (rule rows_ok_upd [OF soundD(1) [OF S], of "call_request c"])
         (use call_routed(1) [OF c] in \<open>simp_all add: i new_row_def row_accounted_def call_hash_def\<close>)
    then show ?thesis
      using after_reserve_holding [of c "w_caches w (call_instance c)" res]
      by (intro sound_move [OF S k, where es = "[]" and X = "\<lambda>_ _. False" and Z = "\<lambda>_. False"])
         (use new fits in \<open>auto simp: safe_insert holds_row_def new_row_def call_hash_def\<close>)
  next
    case replay
    then show ?thesis
      using after_reserve_holding [of c "w_caches w (call_instance c)" res] soundD(1) [OF S]
      by (intro sound_move [OF S k, where es = "[]" and X = "\<lambda>_ _. False" and Z = "\<lambda>_. False"])
         (use fits in auto)
  next
    case other
    then show ?thesis
      using after_reserve_holding [of c "w_caches w (call_instance c)" res] soundD(1) [OF S]
      by (intro sound_move [OF S k, where es = "[]" and X = "\<lambda>_ _. False" and Z = "\<lambda>_. False"])
         (use fits in auto)
  qed
  then show ?thesis
    by (simp add: step_reserve_def r)
qed

text \<open>A step that leaves the ledger and does not hold.\<close>

lemma quiet_sound:
  assumes S: "sound C route w" and k: "w_calls w k = Some c"
    and v: "w_ledger v = w_ledger w" "w_calls v = w_calls w" "w_history v = w_history w @ es" "w_clock v = w_clock w" "no_runs es"
    and pt: "point_fits (c\<lparr>call_point := pt\<rparr>)" "\<not> holding (c\<lparr>call_point := pt\<rparr>)"
  shows "sound C route (move k c pt v)"
  by (rule sound_move [OF S k, where es = es and X = "\<lambda>_ _. False" and Z = "\<lambda>_. False"])
     (use v pt soundD(1) [OF S] in auto)

lemma wait_sound:
  assumes "sound C route w" "w_calls w k = Some c"
  shows "sound C route (step_wait C a k c owner w)"
proof (cases "poll_response C (ledger_up a) (time_left a) (call_id c) (call_hash c) (w_ledger w)")
  case (Some res)
  then show ?thesis
    using quiet_sound [OF assms _ _ _ _ _ after_wait_fits after_wait_not_holding, of w "[]"] by (simp add: step_wait_def)
qed (use assms in \<open>simp add: step_wait_def\<close>)

section \<open>Running\<close>

lemma execute_sound:
  assumes S: "sound C route w" and k: "w_calls w k = Some c" and pt: "call_point c = At_execute"
  shows "sound C route (step_execute a k c w)"
proof -
  let ?r = "command_response a" and ?now = "w_clock w" and ?H = "w_history w" and ?L = "w_ledger w"
  let ?e = "Ran (call_flow c) (call_request c) ?now ?r"
  let ?w = "step_execute a k c w"
  have c: "call_ok C route ?now ?H ?L c" using soundD(3) [OF S k] .
  have hold: "holding c" using pt by simp
  obtain row where row: "?L (call_id c) = Some row" "row_response row = None" "row_hash row = call_hash c" "row_completed row = None"
    using call_okD(4) [OF c hold] unfolding holds_row_def by blast
  have alone: "declined r \<or> lapsed ?now f t" if "Ran f q t r \<in> set ?H" "req_id q = call_id c" for f q t r
    using call_okD(5) [OF c hold] that pt unfolding sole_run_def by auto
  have fields: "w_ledger ?w = ?L" "w_history ?w = ?H @ [?e]" "w_clock ?w = ?now"
      "w_calls ?w = (w_calls w)(k \<mapsto> c\<lparr>call_point := At_settle ?r\<rparr>)"
    by (simp_all add: step_execute_def answer_of_def)
  have rows: "rows_ok C route (?H @ [?e]) ?L"
    by (rule rows_ok_mono [OF soundD(1) [OF S]]) auto
  have once: "at_most_once (?H @ [?e])"
    unfolding sorted_wrt_append
  proof (intro conjI ballI)
    fix x y
    assume "x \<in> set ?H" "y \<in> set [?e]"
    show "spaced x y"
    proof (cases x)
      case (Ran f q t r)
      then show ?thesis
        using alone [of f q t r] \<open>x \<in> set ?H\<close> \<open>y \<in> set [?e]\<close> by (auto simp: call_id_def)
    qed (simp_all add: spaced_def)
  qed (use soundD(5) [OF S] in simp_all)
  have excl: "exclusive ((w_calls w)(k \<mapsto> c\<lparr>call_point := At_settle ?r\<rparr>))"
    by (rule exclusive_move [OF soundD(4) [OF S] k]) (use hold in simp)
  have runs: "runs_ok C route ?now (?H @ [?e]) ?L"
    unfolding runs_ok_def
  proof (intro allI impI)
    fix f q t r
    assume "Ran f q t r \<in> set (?H @ [?e])"
    then consider "Ran f q t r \<in> set ?H" | "f = call_flow c" "q = call_request c" "t = ?now" "r = ?r" by auto
    then show "f \<noteq> Atomic \<and> t \<le> ?now \<and> (declined r \<or> remembered C route ?now ?L f (req_id q) t)"
    proof cases
      case 1
      then show ?thesis using soundD(2) [OF S] unfolding runs_ok_def by blast
    next
      case 2
      have "live_row C route f t row"
        using 2 row call_routed(2) [OF c] by (simp add: live_row_def)
      then show ?thesis
        using 2 row(1) holding_flow [OF c hold] unfolding remembered_def call_id_def by auto
    qed
  qed
  have other: "call_ok C route ?now (?H @ [?e]) ?L d" if d: "w_calls w j = Some d" "j \<noteq> k" for j d
  proof -
    have "call_id d \<noteq> call_id c" if "holding d"
      using soundD(4) [OF S] k d that hold unfolding exclusive_def by blast
    then have "sole_run ?now (?H @ [?e]) d" if "holding d"
      using that call_okD(5) [OF soundD(3) [OF S d(1)] that] unfolding sole_run_def by (auto simp: call_id_def)
    then show ?thesis
      using soundD(3) [OF S d(1)] unfolding call_ok_def by blast
  qed
  have self: "call_ok C route ?now (?H @ [?e]) ?L (c\<lparr>call_point := At_settle ?r\<rparr>)"
  proof -
    have "sole_run ?now (?H @ [?e]) (c\<lparr>call_point := At_settle ?r\<rparr>)"
      using alone unfolding sole_run_def by auto
    moreover have "holds_row ?L (c\<lparr>call_point := At_settle ?r\<rparr>)"
      using call_okD(4) [OF c hold] unfolding holds_row_def by simp
    ultimately show ?thesis
      using c holding_flow [OF c hold] by (simp add: call_ok_def point_fits_def)
  qed
  show ?thesis
    unfolding sound_def fields using rows runs other self excl once by auto
qed

section \<open>Settling\<close>

definition settles_to :: "'x codec \<Rightarrow> bool \<Rightarrow> bool \<Rightarrow> int \<Rightarrow> 'x call \<Rightarrow> 'x response \<Rightarrow> ledger \<Rightarrow> ledger \<Rightarrow> bool" where
  "settles_to C up tidy now c r L L' \<longleftrightarrow>
     (if declined r then L' = snd (abandon up (call_id c) (call_hash c) (call_instance c) L)
      else L' = L \<or> (\<exists>s. (if call_flow c = Launch then s = launch_marker_json else to_text C r = Some s)
                       \<and> L' = snd (record_completion up tidy now (call_id c) (call_hash c) s L)))"

lemma external_settles:
  assumes "external_settle C up tidy now (call_id c) (call_hash c) e (call_instance c) r L = (r', L')" "call_flow c \<noteq> Launch"
  shows "settles_to C up tidy now c r L L'"
proof (cases "declined r")
  case True
  then show ?thesis
    using assms by (auto simp: settles_to_def external_settle_def withdraw_def split: prod.splits sum.splits)
next
  case False
  then show ?thesis
    using assms
    by (cases "to_text C r") (auto simp: settles_to_def external_settle_def complete_outcome_def split: prod.splits sum.splits)
qed

lemma launch_settles:
  assumes "launch_settle up tidy now kept (call_id c) (call_hash c) e (call_instance c) r L cache = (r', L', cache')" "call_flow c = Launch"
  shows "settles_to C up tidy now c r L L'"
proof (cases "declined r")
  case True
  then show ?thesis
    using assms by (auto simp: settles_to_def launch_settle_def withdraw_def split: prod.splits sum.splits)
next
  case False
  then show ?thesis
    using assms
    by (auto simp: settles_to_def launch_settle_def complete_workbench_launch_marker_def Let_def split: prod.splits sum.splits)
qed

lemma settled_move:
  assumes prints: "fingerprint_laws C" and S: "sound C route w" and k: "w_calls w k = Some c" and pt: "call_point c = At_settle r"
    and L': "settles_to C up tidy (w_clock w) c r (w_ledger w) (w_ledger v)"
    and v: "w_calls v = w_calls w" "w_history v = w_history w" "w_clock v = w_clock w"
  shows "sound C route (move k c (At_done r' False) v)"
proof -
  let ?H = "w_history w" and ?now = "w_clock w" and ?L = "w_ledger w" and ?L' = "w_ledger v"
  let ?X = "\<lambda>i (_::ledger_row). i = call_id c" and ?Z = "\<lambda>i. i = call_id c \<and> declined r"
  have c: "call_ok C route ?now ?H ?L c" using soundD(3) [OF S k] .
  have hold: "holding c" using pt by simp
  obtain t where ran: "Ran (call_flow c) (call_request c) t r \<in> set ?H"
    using call_okD(5) [OF c hold] pt unfolding sole_run_def by blast
  note hash = call_routed [OF c]
  have rows: "rows_ok C route ?H ?L" by (rule soundD(1) [OF S])
  have "ledger_safe C route ?now ?X ?Z ?L ?L' \<and> rows_ok C route ?H ?L'"
  proof (cases "declined r")
    case True
    then have L': "?L' = snd (abandon up (call_id c) (call_hash c) (call_instance c) ?L)"
      using L' by (simp add: settles_to_def)
    obtain res L2 where a: "abandon up (call_id c) (call_hash c) (call_instance c) ?L = (res, L2)" by (meson surj_pair)
    then have eq: "?L' = L2" using L' by simp
    from a show ?thesis
    proof (cases rule: abandon_cases)
      case (removed row)
      have "ledger_safe C route ?now ?X ?Z ?L (?L(call_id c := None))"
        by (rule safe_remove [where row = row and X = ?X and Z = ?Z]) (use removed True in auto)
      then show ?thesis using removed eq rows_ok_del [OF rows] by simp
    qed (use eq rows in simp)
  next
    case False
    then consider "?L' = ?L"
      | s where "if call_flow c = Launch then s = launch_marker_json else to_text C r = Some s"
          "?L' = snd (record_completion up tidy ?now (call_id c) (call_hash c) s ?L)"
      using L' by (auto simp: settles_to_def)
    then show ?thesis
    proof cases
      case (2 s)
      obtain res L2 where rec: "record_completion up tidy ?now (call_id c) (call_hash c) s ?L = (res, L2)" by (meson surj_pair)
      have flow: "call_flow c = route (strip_auth (call_request c))" using call_okD(2) [OF c] .
      have "ledger_safe C route ?now ?X ?Z ?L L2"
        by (rule safe_record [OF rec])
           (use routed_hash [OF prints _ hash(1), of route Launch] 2(1) flow in auto)
      moreover have "rows_ok C route ?H L2"
      proof (rule rows_ok_record [OF rows _ hash(1)])
        show "record_completion up tidy ?now (req_id (call_request c)) (call_hash c) s ?L = (res, L2)"
          using rec by (simp add: call_id_def)
        show "row_accounted C route ?H (call_request c) row" if "row_response row = Some s" for row
        proof (cases "call_flow c")
          case External
          then have "to_text C r = Some s" "Ran External (call_request c) t r \<in> set ?H" "route (strip_auth (call_request c)) = External"
            using 2(1) ran flow by simp_all
          then show ?thesis
            using False that unfolding row_accounted_def by auto
        next
          case Launch
          then show ?thesis using 2(1) that unfolding row_accounted_def by simp
        next
          case Atomic
          then show ?thesis using flow by (simp add: row_accounted_def)
        qed
      qed
      ultimately show ?thesis using 2(2) rec by simp
    qed (use rows in simp)
  qed
  then have safe: "ledger_safe C route ?now ?X ?Z ?L ?L'" and rows': "rows_ok C route ?H ?L'" by auto
  show ?thesis
  proof (rule sound_move [OF S k safe rows', where es = "[]"])
    show "declined x \<or> lapsed ?now f t" if "Ran f q t x \<in> set ?H" "req_id q = call_id c \<and> declined r" for f q t x
      using call_okD(5) [OF c hold] that pt unfolding sole_run_def by auto
    show "call_id d \<noteq> call_id c" if "w_calls w j = Some d" "j \<noteq> k" "holding d" for j d
      using soundD(4) [OF S] k that hold unfolding exclusive_def by blast
  qed (use v in \<open>simp_all add: point_fits_def\<close>)
qed

lemma settle_sound:
  assumes "fingerprint_laws C" "sound C route w" "w_calls w k = Some c" "call_point c = At_settle r"
  shows "sound C route (step_settle C a k c r w)"
proof (cases "call_flow c = Launch")
  case True
  obtain r' L' cache where l: "launch_settle (ledger_up a) (ledger_tidy a) (w_clock w) (retain_result a) (call_id c) (call_hash c)
      (call_effect c) (call_instance c) r (w_ledger w) (w_caches w (call_instance c)) = (r', L', cache)"
    by (metis surj_pair)
  then show ?thesis
    using settled_move [OF assms, of "ledger_up a" "ledger_tidy a"
        "w\<lparr>w_ledger := L', w_caches := (w_caches w)(call_instance c := cache)\<rparr>" r'] launch_settles [OF l True, of C] True
    by (simp add: step_settle_def)
next
  case False
  obtain r' L' where e: "external_settle C (ledger_up a) (ledger_tidy a) (w_clock w) (call_id c) (call_hash c)
      (call_effect c) (call_instance c) r (w_ledger w) = (r', L')"
    by (metis surj_pair)
  then show ?thesis
    using settled_move [OF assms, of "ledger_up a" "ledger_tidy a" "w\<lparr>w_ledger := L'\<rparr>" r'] external_settles [OF e False] False
    by (simp add: step_settle_def)
qed

end
