(* ===== verification/Outcome_Reach.thy ===== *)
theory Outcome_Reach
  imports Outcome_Steps
begin

text \<open>The steps of project changes and of the daemon itself; reachable worlds are \<open>sound\<close>.\<close>

section \<open>Project changes\<close>

text \<open>A project change touches only rows of its own fingerprint, which no other kind of request has.\<close>

lemma atomic_hash_routed:
  assumes "sound C route w" "w_calls w k = Some c" "call_flow c = Atomic"
  shows "routed C route Atomic (call_hash c)" "request_hash C (call_request c) = Some (call_hash c)"
    "route (strip_auth (call_request c)) = Atomic"
  using call_routed [OF soundD(3) [OF assms(1,2)]] call_okD(2) [OF soundD(3) [OF assms(1,2)]] assms(3) by simp_all

lemma atomic_move:
  assumes prints: "fingerprint_laws C" and S: "sound C route w" and k: "w_calls w k = Some c"
    and safe: "ledger_safe C route (w_clock w) (\<lambda>_ row. routed C route Atomic (row_hash row)) (\<lambda>_. False) (w_ledger w) (w_ledger v)"
    and rows: "rows_ok C route (w_history w) (w_ledger v)"
    and v: "w_calls v = w_calls w" "w_history v = w_history w" "w_clock v = w_clock w"
    and pt: "point_fits (c\<lparr>call_point := pt\<rparr>)" "\<not> holding (c\<lparr>call_point := pt\<rparr>)"
  shows "sound C route (move k c pt v)"
proof (rule sound_move [OF S k safe rows, where es = "[]"])
  fix j d and row :: ledger_row
  assume "w_calls w j = Some d" "holding d" "row_hash row = call_hash d"
  then show "\<not> routed C route Atomic (row_hash row)"
    using holder_not_atomic [OF prints soundD(3) [OF S]] by simp
qed (use v pt in auto)

lemma safe_abandon_atomic:
  assumes prints: "fingerprint_laws C" and r: "routed C route Atomic hash"
    and a: "abandon up i hash inst L = (res, L')" and rows: "rows_ok C route H L"
  shows "ledger_safe C route now (\<lambda>_ row. routed C route Atomic (row_hash row)) Z L L'" "rows_ok C route H L'"
proof -
  have "ledger_safe C route now (\<lambda>_ row. routed C route Atomic (row_hash row)) Z L L' \<and> rows_ok C route H L'"
    using a
  proof (cases rule: abandon_cases)
    case (removed row)
    have "\<not> live_row C route f t row" if "f \<noteq> Atomic" for f t
    proof
      assume "live_row C route f t row"
      then obtain q where q: "request_hash C q = Some hash" "route (strip_auth q) = f"
        using removed by (auto simp: live_row_def routed_def)
      show False
        using routed_hash [OF prints r q(1)] q(2) that by simp
    qed
    then show ?thesis
      using removed r rows_ok_del [OF rows]
      by (auto intro: safe_remove [where row = row and X = "\<lambda>_ row. routed C route Atomic (row_hash row)"])
  qed (use rows in simp)
  then show "ledger_safe C route now (\<lambda>_ row. routed C route Atomic (row_hash row)) Z L L'" "rows_ok C route H L'"
    by blast+
qed

lemma safe_complete_atomic:
  assumes prints: "fingerprint_laws C" and q: "request_hash C q = Some hash" "route (strip_auth q) = Atomic" "i = req_id q"
    and a: "atomic_complete C up tidy now i hash owns r replayed L = (pt, L')" and rows: "rows_ok C route H L"
  shows "ledger_safe C route now (\<lambda>_ row. routed C route Atomic (row_hash row)) Z L L'" "rows_ok C route H L'"
proof -
  have r: "routed C route Atomic hash" using q by (auto simp: routed_def)
  have "ledger_safe C route now (\<lambda>_ row. routed C route Atomic (row_hash row)) Z L L' \<and> rows_ok C route H L'"
  proof (cases "to_text C r")
    case None
    then show ?thesis using a rows by (simp add: atomic_complete_def complete_outcome_def)
  next
    case (Some s)
    obtain res L2 where rec: "record_completion up tidy now i hash s L = (res, L2)" by (meson surj_pair)
    then have "L' = L2"
      using a Some by (auto simp: atomic_complete_def complete_outcome_def split: sum.splits)
    moreover have "ledger_safe C route now (\<lambda>_ row. routed C route Atomic (row_hash row)) Z L L2"
      by (rule safe_record [OF rec]) (use r routed_hash [OF prints _ q(1), of route Launch] q(2) in auto)
    moreover have "rows_ok C route H L2"
      by (rule rows_ok_record [OF rows _ q(1)]) (use rec q in \<open>auto simp: row_accounted_def\<close>)
    ultimately show ?thesis by simp
  qed
  then show "ledger_safe C route now (\<lambda>_ row. routed C route Atomic (row_hash row)) Z L L'" "rows_ok C route H L'"
    by blast+
qed

lemma core_sound:
  assumes "sound C route w" "w_calls w k = Some c" "call_flow c = Atomic"
  shows "sound C route (step_core C a k c owns w)"
proof -
  obtain res K' p' where e: "execute_atomic_core C (project_begins a) (project_commits a) (w_clock w) (call_id c) (call_hash c)
      (call_effect c) (command_state a, command_response a) (w_canonical w) (w_project w) = (res, K', p')"
    by (metis surj_pair)
  have "point_fits (c\<lparr>call_point := atomic_after_core i e owns res\<rparr>)"
    "\<not> holding (c\<lparr>call_point := atomic_after_core i e owns res\<rparr>)" for i e
    using assms(3) by (auto simp: atomic_after_core_def leave_atomic_def point_fits_def split: sum.splits if_splits)
  then show ?thesis
    unfolding step_core_def e by (auto intro!: quiet_sound [OF assms(1,2)] split: sum.splits)
qed

lemma abandon_sound:
  assumes prints: "fingerprint_laws C" and S: "sound C route w" and k: "w_calls w k = Some c" and f: "call_flow c = Atomic"
    and pt: "point_fits (c\<lparr>call_point := pt\<rparr>)" "\<not> holding (c\<lparr>call_point := pt\<rparr>)"
  shows "sound C route (move k c pt (w\<lparr>w_ledger := snd (abandon up (call_id c) (call_hash c) (call_instance c) (w_ledger w))\<rparr>))"
proof -
  obtain res L' where a: "abandon up (call_id c) (call_hash c) (call_instance c) (w_ledger w) = (res, L')" by (meson surj_pair)
  show ?thesis
    by (rule atomic_move [OF prints S k])
       (use safe_abandon_atomic [OF prints atomic_hash_routed(1) [OF S k f] a soundD(1) [OF S]] pt a in auto)
qed

lemma complete_sound:
  assumes prints: "fingerprint_laws C" and S: "sound C route w" and k: "w_calls w k = Some c" and f: "call_flow c = Atomic"
    and a: "atomic_complete C up tidy (w_clock w) (call_id c) (call_hash c) owns r replayed (w_ledger w) = (pt, L')"
  shows "sound C route (move k c pt (w\<lparr>w_ledger := L'\<rparr>))"
proof -
  have "point_fits (c\<lparr>call_point := pt\<rparr>) \<and> \<not> holding (c\<lparr>call_point := pt\<rparr>)"
    using a f by (auto simp: atomic_complete_def point_fits_def split: prod.splits sum.splits if_splits)
  then show ?thesis
    using safe_complete_atomic [OF prints atomic_hash_routed(2,3) [OF S k f] _ a soundD(1) [OF S]]
    by (intro atomic_move [OF prints S k]) (simp_all add: call_id_def)
qed

lemma call_step_sound:
  assumes "fingerprint_laws C" "sound C route w" "w_calls w k = Some c"
  shows "sound C route (call_step C a k c w)"
proof -
  have fits: "point_fits c" using call_okD(3) [OF soundD(3) [OF assms(2,3)]] .
  show ?thesis
  proof (cases "call_point c")
    case (At_finalize owns r replayed)
    then show ?thesis
      using fits unfolding call_step_def
      by (auto simp: step_finalize_def point_fits_def atomic_after_finalize_def leave_atomic_def
               intro!: quiet_sound [OF assms(2,3)] split: sum.splits)
  next
    case (At_complete owns r replayed)
    then show ?thesis
      using complete_sound [OF assms] fits unfolding call_step_def by (auto simp: point_fits_def split: prod.splits)
  next
    case (At_prune r replayed)
    then show ?thesis
      using fits unfolding call_step_def
      by (auto simp: point_fits_def intro!: quiet_sound [OF assms(2,3), of _ "[]"])
  qed (use fits assms in \<open>simp_all add: call_step_def point_fits_def reserve_sound wait_sound execute_sound settle_sound
         core_sound abandon_sound\<close>)
qed

section \<open>The daemon\<close>

lemma sound_calls:
  assumes S: "sound C route w"
    and safe: "ledger_safe C route (w_clock w) (\<lambda>_ _. False) (\<lambda>_. False) (w_ledger w) (w_ledger w')"
    and rows: "rows_ok C route (w_history w) (w_ledger w')"
    and hist: "w_history w' = w_history w @ es" "no_runs es" and clock: "w_clock w' = w_clock w"
    and calls: "\<And>j d. w_calls w' j = Some d \<Longrightarrow> w_calls w j = Some d"
  shows "sound C route w'"
proof (rule sound_frame [OF S safe _ hist clock])
  show "rows_ok C route (w_history w') (w_ledger w')"
    using rows_ok_mono [OF rows] hist(1) by simp
  show "exclusive (w_calls w')"
    using soundD(4) [OF S] calls unfolding exclusive_def by blast
qed (use calls in auto)

lemma arrives_sound:
  assumes S: "sound C route w" and k: "w_calls w k = None" and h: "hashes_of C q = Some h"
  shows "sound C route (w\<lparr>w_calls := (w_calls w)(k \<mapsto> new_call route q h e inst)\<rparr>)"
proof -
  let ?c = "new_call route q h e inst"
  have ok: "call_ok C route now H L ?c" and not: "\<not> holding ?c" for now H L
    using h by (simp_all add: call_ok_def new_call_def point_fits_def holding_def)
  show ?thesis
  proof (rule sound_frame [OF S, where X = "\<lambda>_ _. False" and Z = "\<lambda>_. False" and es = "[]"])
    have "exclusive ((w_calls w)(k \<mapsto> ?c))"
      using soundD(4) [OF S] not unfolding exclusive_def fun_upd_apply by (metis option.inject)
    then show "exclusive (w_calls (w\<lparr>w_calls := (w_calls w)(k \<mapsto> ?c)\<rparr>))" by simp
  qed (use ok soundD(1) [OF S] in \<open>auto split: if_splits\<close>)
qed

lemma lapsed_mono: "lapsed now f t \<Longrightarrow> now \<le> now' \<Longrightarrow> lapsed now' f t"
  by (auto simp: lapsed_def)

lemma ticks_sound:
  assumes "sound C route w" "0 \<le> d"
  shows "sound C route (w\<lparr>w_clock := w_clock w + d\<rparr>)"
proof -
  have lap: "lapsed (w_clock w) f t \<Longrightarrow> lapsed (w_clock w + d) f t" for f t
    using assms(2) lapsed_mono by simp
  have "runs_ok C route (w_clock w + d) (w_history w) (w_ledger w)"
    using soundD(2) [OF assms(1)] assms(2) lap unfolding runs_ok_def remembered_def by (smt (verit, best))
  moreover have "call_ok C route (w_clock w + d) (w_history w) (w_ledger w) c" if "w_calls w k = Some c" for k c
    using soundD(3) [OF assms(1) that] lap unfolding call_ok_def sole_run_def by blast
  ultimately show ?thesis
    using assms(1) by (simp add: sound_def)
qed

text \<open>A confirmation that was recorded as an outcome is withdrawn only for a project change: no
  other request records one.\<close>

lemma probe_sound:
  assumes codec: "codec_laws C" and prints: "fingerprint_laws C" and S: "sound C route w"
  shows "sound C route (probe C route reads writes inst q w)"
proof -
  let ?L = "w_ledger w" and ?i = "req_id q"
  obtain res L' where t: "terminal_outcome_before_preparation C reads writes (w_caches w inst) q ?L = (res, L')"
    by (meson surj_pair)
  have rows: "rows_ok C route (w_history w) ?L" by (rule soundD(1) [OF S])
  have "ledger_safe C route (w_clock w) (\<lambda>_ _. False) (\<lambda>_. False) ?L L' \<and> rows_ok C route (w_history w) L'"
  proof (cases "L' = ?L")
    case False
    obtain h row e s where h: "hashes_of C q = Some h" "?L ?i = Some row" "hashes_match h (row_hash row)" "row_response row = Some s"
        and tc: "terminal_completed C writes (w_caches w inst) q e row s ?L = (res, L')"
      using t False by (auto simp: terminal_outcome_before_preparation_def split: option.splits if_splits)
    obtain q' where q': "req_id q' = ?i" "request_hash C q' = Some (row_hash row)" "row_accounted C route (w_history w) q' row"
      using rows h(2) unfolding rows_ok_def by blast
    show ?thesis
    proof (cases "L' = ?L(?i \<mapsto> row\<lparr>row_response := Some launch_marker_json\<rparr>)")
      case True
      then show ?thesis
        using rows_ok_mark [OF rows h(2)] h(4)
        by (auto intro!: safe_update [where L = "w_ledger w" and i = "req_id q" and row = row and X = "\<lambda>_ _. False"] live_row_mark h(2))
    next
      case mark: False
      have repl: "replace_legacy_workbench_launch_response ?i (row_hash row) s ?L
          = ?L(?i \<mapsto> row\<lparr>row_response := Some launch_marker_json\<rparr>)"
        using h by (simp add: replace_legacy_workbench_launch_response_def)
      obtain r where r: "completion_of_text C s = Some (Completed_response r)" "is_transient_execution_confirmation r" "L' = ?L(?i := None)"
        using tc False mark unfolding terminal_completed_def Let_def repl
        by (auto split: if_splits option.splits completion.splits)
      have s: "s \<noteq> launch_marker_json"
        using r(1) completion_of_marker [OF codec] by auto
      have "route (strip_auth q') = Atomic"
      proof (rule ccontr)
        assume "route (strip_auth q') \<noteq> Atomic"
        then obtain r' where "to_text C r' = Some s" "\<not> declined r'"
          using q'(3) h(4) s unfolding row_accounted_def by blast
        then show False
          using r(1,2) completion_of_response [OF codec] by (auto simp: declined_def is_transient_execution_confirmation_def)
      qed
      then have "\<not> live_row C route f t row" if "f \<noteq> Atomic" for f t
        using routed_hash [OF prints _ q'(2)] that unfolding live_row_def by blast
      then show ?thesis
        using r(3) rows_ok_del [OF rows] h(4)
        by (auto intro!: safe_remove [where row = row and X = "\<lambda>_ _. False" and Z = "\<lambda>_. False"] h(2))
    qed
  qed (use rows in simp)
  then show ?thesis
    unfolding probe_def t
    by (auto intro!: sound_calls [OF S] split: sum.splits option.splits)
qed

lemma daemon_step_sound:
  assumes "codec_laws C" "fingerprint_laws C" "daemon_step C route w w'" "sound C route w"
  shows "sound C route w'"
  using assms(3)
proof cases
  case (arrives k q h e inst)
  then show ?thesis using arrives_sound [OF assms(4)] by simp
next
  case (advances k c a)
  then show ?thesis using call_step_sound [OF assms(2,4)] by simp
next
  case (probes reads writes inst q)
  then show ?thesis using probe_sound [OF assms(1,2,4)] by simp
next
  case (crashes inst)
  then show ?thesis
    using soundD(1) [OF assms(4)]
    by (intro sound_calls [OF assms(4), where es = "[]"]) (auto simp: crash_def split: option.splits if_splits)
next
  case opens
  then show ?thesis
    using rows_ok_prune [OF rows_ok_sanitize [OF soundD(1) [OF assms(4)]]] ledger_safe_trans [OF safe_sanitize safe_prune]
    by (intro sound_calls [OF assms(4), where es = "[]"]) (auto simp: open_ledger_def)
next
  case (lapses inst i)
  then show ?thesis
    using soundD(1) [OF assms(4)] by (intro sound_calls [OF assms(4), where es = "[]"]) auto
next
  case (ticks d)
  then show ?thesis using ticks_sound [OF assms(4)] by simp
qed

lemma initial_sound: "sound C route (initial_world p now)"
  by (simp add: sound_def initial_world_def rows_ok_def runs_ok_def exclusive_def)

lemma reachable_sound:
  assumes "codec_laws C" "fingerprint_laws C" "daemon_reachable C route w"
  shows "sound C route w"
proof -
  obtain p now where "(daemon_step C route)\<^sup>*\<^sup>* (initial_world p now) w"
    using assms(3) unfolding daemon_reachable_def by blast
  then show ?thesis
  proof (induction rule: rtranclp_induct)
    case base
    show ?case by (rule initial_sound)
  next
    case (step v w)
    show ?case by (rule daemon_step_sound [OF assms(1,2) step.hyps(2) step.IH])
  qed
qed

end
