(* ===== verification/Outcome_Facts.thy ===== *)
theory Outcome_Facts
  imports Outcome_Reach
begin

text \<open>
  What the outcome ledger promises a client that sends a request again: an act outside the
  project database happens once, a project change is committed once, a launch link is never
  written down, a replayed answer is one that was given to the same request, and a retry of an
  interrupted change completes.
\<close>

section \<open>A sample\<close>

definition sample_request :: request where
  "sample_request =
     \<lparr>req_version = protocol_version, req_id = ''r1'',
      req_op = Call_op \<lparr>call_address = Operation_address [''git'', ''push''], call_input = JNull\<rparr>,
      req_workspace_root = None, req_auth = None, req_confirmation = None, req_agent = None\<rparr>"

definition sample_response :: "unit response" where
  "sample_response =
     \<lparr>resp_version = protocol_version, resp_id = ''r1'', resp_status = Ok_status, resp_result = None, resp_error = None,
      resp_ticket = None, resp_extra = None, resp_effect = Some Write, resp_trace = None\<rparr>"

definition sample_codec :: "unit codec" where
  "sample_codec =
     \<lparr>to_text = (\<lambda>r. if r = sample_response then Some ''{}'' else None),
      to_json = (\<lambda>s. if s = ''{}'' then Some JNull
                     else if s = launch_marker_json
                     then Some (JObject [(''kind'', JString ''workbench.launch.completed''), (''schema_version'', JInt 1)]) else None),
      to_response = (\<lambda>v. if v = JNull then Some sample_response else None),
      fingerprint = (\<lambda>q. if q = sample_request then Some ''h1'' else None)\<rparr>"

lemma sample_codec_laws: "codec_laws sample_codec" "fingerprint_laws sample_codec"
  by (auto simp: codec_laws_def fingerprint_laws_def sample_codec_def json_get_def launch_marker_json_def split: if_splits)

lemma sample_hashes: "hashes_of sample_codec sample_request = Some \<lparr>hash_current = ''h1'', hash_legacy = ''h1''\<rparr>"
  by (simp add: hashes_of_def request_hash_def sample_codec_def sample_request_def)

definition sample_answers :: "(nat, unit) answers" where
  "sample_answers =
     \<lparr>ledger_up = True, ledger_tidy = True, project_begins = True, project_commits = True, time_left = False,
      command_response = sample_response, command_state = 7, preflight_result = Inr (), finalize_result = Inr sample_response,
      retain_result = Inr ()\<rparr>"

primrec run_call :: "'x codec \<Rightarrow> ('p, 'x) answers \<Rightarrow> nat \<Rightarrow> nat \<Rightarrow> ('p, 'x) world \<Rightarrow> ('p, 'x) world" where
  "run_call C a k 0 w = w"
| "run_call C a k (Suc n) w = (case w_calls w k of None \<Rightarrow> w | Some c \<Rightarrow> run_call C a k n (call_step C a k c w))"

lemma reachable_initial: "daemon_reachable C route (initial_world p now)"
  unfolding daemon_reachable_def by blast

lemma reachable_step: "daemon_reachable C route w \<Longrightarrow> daemon_step C route w w' \<Longrightarrow> daemon_reachable C route w'"
  unfolding daemon_reachable_def by (meson rtranclp.rtrancl_into_rtrancl)

lemma reachable_run: "daemon_reachable C route w \<Longrightarrow> daemon_reachable C route (run_call C a k n w)"
proof (induction n arbitrary: w)
  case (Suc n)
  then show ?case
    using reachable_step [OF Suc.prems daemon_step.advances] by (cases "w_calls w k") simp_all
qed simp

definition sample_start :: "flow \<Rightarrow> nat \<Rightarrow> (nat, unit) world \<Rightarrow> (nat, unit) world" where
  "sample_start f k w = w\<lparr>w_calls := (w_calls w)(k \<mapsto> new_call (\<lambda>_. f) sample_request
     \<lparr>hash_current = ''h1'', hash_legacy = ''h1''\<rparr> Write ''d1'')\<rparr>"

lemma reachable_start:
  assumes "daemon_reachable sample_codec route w" "w_calls w k = None" "route sample_request = f"
  shows "daemon_reachable sample_codec route (sample_start f k w)"
proof -
  have "new_call (\<lambda>_. f) sample_request h e inst = new_call route sample_request h e inst" for h e inst
    using assms(3) by (simp add: new_call_def strip_auth_def sample_request_def)
  then show ?thesis
    unfolding sample_start_def
    by (metis reachable_step [OF assms(1) daemon_step.arrives [OF assms(2) sample_hashes]])
qed

definition sample_pass :: "int \<Rightarrow> (nat, unit) world \<Rightarrow> (nat, unit) world" where
  "sample_pass d w = (let v = w\<lparr>w_clock := w_clock w + d\<rparr>
     in v\<lparr>w_ledger := open_ledger sample_codec (w_clock v) (w_ledger v)\<rparr>)"

lemma reachable_pass:
  assumes "daemon_reachable sample_codec route w" "0 \<le> d"
  shows "daemon_reachable sample_codec route (sample_pass d w)"
  unfolding sample_pass_def Let_def
  by (rule reachable_step [OF reachable_step [OF assms(1) daemon_step.ticks [OF assms(2)]] daemon_step.opens])

text \<open>An external request runs, seven days and more pass, and it runs again.\<close>

definition sample_external :: "(nat, unit) world" where
  "sample_external = run_call sample_codec sample_answers 1 2 (sample_start External 1 (sample_pass 700000
     (run_call sample_codec sample_answers 0 3 (sample_start External 0 (initial_world 0 0)))))"

lemmas sample_defs =
  sample_start_def sample_pass_def sample_answers_def initial_world_def new_call_def sample_codec_def sample_request_def
  sample_response_def call_step_def step_reserve_def step_execute_def step_settle_def step_core_def reserve_compatible_def
  new_row_def move_def after_reserve_defs call_id_def call_hash_def external_settle_def complete_outcome_def
  record_completion_def prune_completed_def expired_def retention_secs_def declined_def is_retryable_daemon_busy_response_def
  is_rejected_execution_confirmation_def error_with_def open_ledger_def sanitize_legacy_workbench_launch_responses_def
  raw_response_is_workbench_launch_def json_get_def flow_class_def strip_auth_def

lemma sample_text_not_marker [simp]: "''{}'' \<noteq> launch_marker_json" "launch_marker_json \<noteq> ''{}''"
  by (simp_all add: launch_marker_json_def)

lemma sample_external_reachable: "daemon_reachable sample_codec (\<lambda>_. External) sample_external"
  unfolding sample_external_def
  by (intro reachable_run reachable_start reachable_pass reachable_initial) (simp_all add: sample_defs numeral_3_eq_3 Let_def)

lemma sample_external_history:
  "w_history sample_external =
     [Ran External sample_request 0 sample_response, Answered External sample_request sample_response False,
      Ran External sample_request 700000 sample_response]"
  by (simp add: sample_external_def sample_defs numeral_3_eq_3 numeral_2_eq_2 Let_def)

section \<open>Acts happen once\<close>

text \<open>
  C6. A command that acts outside the project database runs at most once under a request identity
  until its outcome is older than seven days, and a launch at most once for ever, unless the
  first run declined to act: whatever daemon instances die, whatever database access fails, and
  however calls of the same identity interleave.\<close>

theorem external_request_runs_once:
  assumes "codec_laws C" "fingerprint_laws C" "daemon_reachable C route w"
    and "w_history w = as @ Ran f q t r # bs @ Ran f' q' t' r' # cs" "req_id q' = req_id q" "\<not> declined r"
  shows "f \<noteq> Launch \<and> t + 7 * 24 * 60 * 60 < t'"
proof -
  have "at_most_once (as @ Ran f q t r # bs @ Ran f' q' t' r' # cs)"
    using soundD(5) [OF reachable_sound [OF assms(1-3)]] assms(4) by simp
  then have "declined r \<or> lapsed t' f t"
    by (rule at_most_once_split [of as f q t r _ f' q' t' r']) (use assms(5) in auto)
  then show ?thesis
    using assms(6) by (simp add: lapsed_def retention_secs_def)
qed

theorem external_request_runs_once_witness: "External \<noteq> Launch \<and> (0::int) + 7 * 24 * 60 * 60 < 700000"
proof (rule external_request_runs_once [OF sample_codec_laws sample_external_reachable])
  show "w_history sample_external =
      [] @ Ran External sample_request 0 sample_response # [Answered External sample_request sample_response False]
        @ Ran External sample_request 700000 sample_response # []"
    by (simp add: sample_external_history)
  show "\<not> declined sample_response"
    by (simp add: declined_def is_retryable_daemon_busy_response_def is_rejected_execution_confirmation_def error_with_def
        sample_response_def)
qed simp

section \<open>Launch links stay in memory\<close>

text \<open>
  C8. The ledger never holds the response of a launch, which carries a bearer ticket: the row of a
  launch request is in flight or holds the fixed completion marker.\<close>

theorem launch_link_never_stored:
  assumes "codec_laws C" "fingerprint_laws C" "daemon_reachable C route w"
    and "w_ledger w i = Some row" "request_hash C q = Some (row_hash row)" "route (q\<lparr>req_auth := None\<rparr>) = Launch"
  shows "row_response row \<in> {None, Some launch_marker_json}"
proof -
  obtain q' where q': "request_hash C q' = Some (row_hash row)" "row_accounted C route (w_history w) q' row"
    using soundD(1) [OF reachable_sound [OF assms(1-3)]] assms(4) unfolding rows_ok_def by blast
  have "route (strip_auth q') = Launch"
    using request_hash_inj [OF assms(2,5) q'(1)] assms(6) by (simp add: strip_auth_def)
  then show ?thesis
    using q'(2) unfolding row_accounted_def by (cases "row_response row") auto
qed

definition sample_launch :: "(nat, unit) world" where
  "sample_launch = run_call sample_codec sample_answers 0 3 (sample_start Launch 0 (initial_world 0 0))"

lemma sample_launch_ledger:
  "w_ledger sample_launch ''r1'' = Some \<lparr>row_hash = ''h1'', row_effect = ''write'', row_instance = ''d1'',
     row_class = Some ''external_at_most_once'', row_response = Some launch_marker_json, row_started = 0, row_completed = Some 0\<rparr>"
  by (simp add: sample_launch_def sample_defs launch_settle_def complete_workbench_launch_marker_def numeral_3_eq_3 Let_def
      effect_name_def recovery_class_name_def)

theorem launch_link_never_stored_witness:
  "Some launch_marker_json \<in> {None, Some launch_marker_json} \<and> w_caches sample_launch ''d1'' ''r1'' = Some sample_response"
proof -
  have "daemon_reachable sample_codec (\<lambda>_. Launch) sample_launch"
    unfolding sample_launch_def
    by (intro reachable_run reachable_start reachable_initial) (simp_all add: initial_world_def)
  note launch_link_never_stored [OF sample_codec_laws this sample_launch_ledger, of sample_request]
  then show ?thesis
    by (simp add: sample_launch_def sample_defs request_hash_def launch_settle_def complete_workbench_launch_marker_def
        numeral_3_eq_3 Let_def)
qed

section \<open>Project changes are committed once\<close>

definition spaced_commit :: "'x event \<Rightarrow> 'x event \<Rightarrow> bool" where
  "spaced_commit e e' \<longleftrightarrow> (case e of
     Committed q t r \<Rightarrow> (case e' of Committed q' t' r' \<Rightarrow> req_id q' = req_id q \<longrightarrow> t + retention_secs < t' | _ \<Rightarrow> True)
   | _ \<Rightarrow> True)"

text \<open>A commit is remembered by its row until the row may be pruned.\<close>

definition commits_ok :: "('p, 'x) world \<Rightarrow> bool" where
  "commits_ok w \<longleftrightarrow>
     sorted_wrt spaced_commit (w_history w)
     \<and> (\<forall>q t r. Committed q t r \<in> set (w_history w) \<longrightarrow>
          t \<le> w_clock w \<and> (t + retention_secs < w_clock w
            \<or> (\<exists>row. w_canonical w (req_id q) = Some row \<and> t \<le> atomic_committed row)))"

definition no_commits :: "'x event list \<Rightarrow> bool" where
  "no_commits es \<longleftrightarrow> (\<forall>q t r. Committed q t r \<notin> set es)"

lemma commits_ok_frame:
  assumes "commits_ok w" "w_history w' = w_history w @ es" "no_commits es" "w_clock w \<le> w_clock w'"
    and "\<And>i row. w_canonical w i = Some row \<Longrightarrow> w_canonical w' i = Some row \<or> atomic_committed row + retention_secs < w_clock w'"
  shows "commits_ok w'"
proof -
  have other: "spaced_commit x y \<and> spaced_commit y x" if "y \<in> set es" for x y
    using that assms(3) unfolding no_commits_def spaced_commit_def by (cases y) (auto split: event.splits)
  have "sorted_wrt spaced_commit es"
    by (rule sorted_wrt_mono_rel [of _ "\<lambda>_ _. True"]) (use other in \<open>auto simp: sorted_wrt_iff_nth_less\<close>)
  then have "sorted_wrt spaced_commit (w_history w')"
    using assms(1,2) other by (simp add: sorted_wrt_append commits_ok_def)
  moreover have "t \<le> w_clock w' \<and> (t + retention_secs < w_clock w'
      \<or> (\<exists>row. w_canonical w' (req_id q) = Some row \<and> t \<le> atomic_committed row))"
    if "Committed q t r \<in> set (w_history w')" for q t r
  proof -
    have "Committed q t r \<in> set (w_history w)"
      using that assms(2,3) by (auto simp: no_commits_def)
    then have t: "t \<le> w_clock w" "t + retention_secs < w_clock w \<or> (\<exists>row. w_canonical w (req_id q) = Some row \<and> t \<le> atomic_committed row)"
      using assms(1) unfolding commits_ok_def by blast+
    then show ?thesis
      using assms(4) assms(5) [of "req_id q"] by fastforce
  qed
  ultimately show ?thesis unfolding commits_ok_def by blast
qed

lemma no_commits_simps [simp]:
  "no_commits []" "no_commits (Answered f q r b # es) = no_commits es" "no_commits (Ran f q t r # es) = no_commits es"
  "no_commits (Refused q r # es) = no_commits es" "no_commits (Finalized q r x # es) = no_commits es"
  by (auto simp: no_commits_def)

lemma no_commits_answer [simp]: "no_commits (answer_of c pt)"
  by (simp add: answer_of_def split: point.splits)

lemma no_commits_append [simp]: "no_commits (es @ es') \<longleftrightarrow> no_commits es \<and> no_commits es'"
  by (auto simp: no_commits_def)

lemma commits_ok_move:
  assumes "commits_ok w" "w_history v = w_history w @ es" "no_commits es" "w_clock v = w_clock w"
    and "\<And>i row. w_canonical w i = Some row \<Longrightarrow> w_canonical v i = Some row \<or> atomic_committed row + retention_secs < w_clock v"
  shows "commits_ok (move k c pt v)"
  by (rule commits_ok_frame [OF assms(1), of _ "es @ answer_of c pt"]) (use assms in auto)

lemma core_commits:
  assumes "execute_atomic_core C begins commits now i hash e run K p = (res, K', p')" "commits_now res"
  obtains s r where "K i = None" "res = Inr r"
    "K' = K(i \<mapsto> \<lparr>atomic_hash = hash, atomic_effect = effect_name e, atomic_response = s, atomic_committed = now\<rparr>)"
proof (cases "K i")
  case (Some row)
  then show ?thesis
    using assms by (auto simp: execute_atomic_core_def commits_now_def split: if_splits option.splits)
next
  case None
  show ?thesis
  proof (cases "begins \<and> atomic_response_commits (snd run) \<and> e \<noteq> Pure \<and> commits")
    case True
    then show ?thesis
      using assms None
      by (cases "to_text C (with_effect e (snd run))")
         (auto simp: execute_atomic_core_def commits_now_def intro: that [OF None])
  next
    case False
    then show ?thesis
      using assms None by (auto simp: execute_atomic_core_def commits_now_def Let_def split: if_splits option.splits)
  qed
qed

lemma commits_ok_core:
  assumes ok: "commits_ok w"
  shows "commits_ok (step_core C a k c owns w)"
proof -
  obtain res K' p' where e: "execute_atomic_core C (project_begins a) (project_commits a) (w_clock w) (call_id c) (call_hash c)
      (call_effect c) (command_state a, command_response a) (w_canonical w) (w_project w) = (res, K', p')"
    by (metis surj_pair)
  show ?thesis
  proof (cases "commits_now res")
    case False
    then have "K' = w_canonical w"
      using e by (auto simp: execute_atomic_core_def commits_now_def Let_def split: if_splits option.splits)
    then show ?thesis
      using False unfolding step_core_def e
      by (auto intro!: commits_ok_move [OF ok] split: sum.splits)
  next
    case True
    then obtain s r where new: "w_canonical w (call_id c) = None" "res = Inr r"
        "K' = (w_canonical w)(call_id c \<mapsto> \<lparr>atomic_hash = call_hash c, atomic_effect = effect_name (call_effect c),
           atomic_response = s, atomic_committed = w_clock w\<rparr>)"
      using core_commits [OF e True] by blast
    let ?e = "Committed (call_request c) (w_clock w) (core_response r)"
    let ?v = "w\<lparr>w_canonical := K', w_project := p', w_history := w_history w @ [?e]\<rparr>"
    have old: "t + retention_secs < w_clock w" if "Committed q t x \<in> set (w_history w)" "req_id q = call_id c" for q t x
      using ok that new(1) unfolding commits_ok_def by fastforce
    have "commits_ok ?v"
      unfolding commits_ok_def
    proof (intro conjI allI impI)
      have "spaced_commit x ?e" if "x \<in> set (w_history w)" for x
        using old that unfolding spaced_commit_def by (auto simp: call_id_def split: event.splits)
      then show "sorted_wrt spaced_commit (w_history ?v)"
        using ok by (simp add: commits_ok_def sorted_wrt_append)
    next
      fix q t x
      assume "Committed q t x \<in> set (w_history ?v)"
      then consider "Committed q t x \<in> set (w_history w)" | "q = call_request c" "t = w_clock w" by auto
      then have "t \<le> w_clock w \<and> (t + retention_secs < w_clock w \<or> (\<exists>row. K' (req_id q) = Some row \<and> t \<le> atomic_committed row))"
      proof cases
        case 1
        then show ?thesis
          using ok new(3) unfolding commits_ok_def by (cases "req_id q = call_id c") auto
      next
        case 2
        then show ?thesis using new(3) by (simp add: call_id_def)
      qed
      then show "t \<le> w_clock ?v"
        "t + retention_secs < w_clock ?v \<or> (\<exists>row. w_canonical ?v (req_id q) = Some row \<and> t \<le> atomic_committed row)"
        by simp_all
    qed
    then show ?thesis
      using True new(2) unfolding step_core_def e
      by (auto intro!: commits_ok_move [where w = ?v and es = "[]"])
  qed
qed

lemma commits_ok_call_step:
  assumes ok: "commits_ok w"
  shows "commits_ok (call_step C a k c w)"
proof (cases "call_point c")
  case At_reserve
  then show ?thesis
    unfolding call_step_def step_reserve_def
    by (auto intro!: commits_ok_move [OF ok, of _ "[]"] split: prod.splits)
next
  case (At_wait owner)
  then show ?thesis
    unfolding call_step_def step_wait_def
    using ok by (auto intro!: commits_ok_move [OF ok, of _ "[]"] split: option.splits)
next
  case At_execute
  then show ?thesis
    unfolding call_step_def step_execute_def
    by (auto intro!: commits_ok_move [OF ok])
next
  case (At_settle r)
  then show ?thesis
    unfolding call_step_def step_settle_def
    by (auto intro!: commits_ok_move [OF ok, of _ "[]"] split: prod.splits)
next
  case (At_core owns)
  then show ?thesis by (simp add: call_step_def commits_ok_core [OF ok])
next
  case (At_finalize owns r replayed)
  then show ?thesis
    unfolding call_step_def step_finalize_def by (auto intro!: commits_ok_move [OF ok])
next
  case (At_prune r replayed)
  then show ?thesis
    unfolding call_step_def
    by (auto intro!: commits_ok_move [OF ok, of _ "[]"] simp: prune_canonical_outcomes_def split: option.splits)
qed (use ok in \<open>auto simp: call_step_def intro!: commits_ok_move [OF ok, of _ "[]"] split: prod.splits\<close>)

lemma commits_ok_step:
  assumes "daemon_step C route w w'" "commits_ok w"
  shows "commits_ok w'"
  using assms(1)
proof cases
  case (advances k c a)
  then show ?thesis using commits_ok_call_step [OF assms(2)] by simp
next
  case (probes reads writes inst q)
  then show ?thesis
    unfolding probes probe_def
    by (auto intro!: commits_ok_frame [OF assms(2)] split: prod.splits sum.splits option.splits)
next
  case (ticks d)
  then show ?thesis by (intro commits_ok_frame [OF assms(2), of _ "[]"]) auto
qed (auto intro!: commits_ok_frame [OF assms(2), of _ "[]"] simp: crash_def)

lemma reachable_commits_ok:
  assumes "daemon_reachable C route w"
  shows "commits_ok w"
proof -
  obtain p now where "(daemon_step C route)\<^sup>*\<^sup>* (initial_world p now) w"
    using assms unfolding daemon_reachable_def by blast
  then show ?thesis
  proof (induction rule: rtranclp_induct)
    case base
    show ?case by (simp add: commits_ok_def initial_world_def)
  next
    case (step v w)
    show ?case by (rule commits_ok_step [OF step.hyps(2) step.IH])
  qed
qed

text \<open>
  C7. A change of the project state commits at most once under a request identity until its
  outcome is older than seven days: the table in the project database decides, so the runtime
  ledger may fail, lose rows or be replaced at any moment.\<close>

theorem project_change_commits_once:
  assumes "daemon_reachable C route w"
    and "w_history w = as @ Committed q t r # bs @ Committed q' t' r' # cs" "req_id q' = req_id q"
  shows "t + 7 * 24 * 60 * 60 < t'"
proof -
  have "sorted_wrt spaced_commit (as @ Committed q t r # bs @ Committed q' t' r' # cs)"
    using reachable_commits_ok [OF assms(1)] assms(2) by (simp add: commits_ok_def)
  then have "spaced_commit (Committed q t r) (Committed q' t' r')"
    by (simp add: sorted_wrt_append)
  then show ?thesis
    using assms(3) by (simp add: spaced_commit_def retention_secs_def)
qed

text \<open>A change commits, is replayed once more when the runtime row is gone, and commits again after
  its own row was pruned.\<close>

definition sample_change :: "nat \<Rightarrow> (nat, unit) world \<Rightarrow> (nat, unit) world" where
  "sample_change k w = run_call sample_codec sample_answers k 5 (sample_start Atomic k w)"

definition sample_changes :: "(nat, unit) world" where
  "sample_changes = sample_change 2 (sample_pass 700000 (sample_change 1 (sample_pass 700000 (sample_change 0 (initial_world 0 0)))))"

lemmas sample_change_defs =
  sample_defs sample_change_def step_finalize_def execute_atomic_core_def atomic_after_core_def atomic_after_finalize_def atomic_complete_def
  with_effect_def commits_now_def atomic_response_commits_def prune_canonical_outcomes_def Let_def

lemma sample_five: "(5::nat) = Suc (Suc (Suc (Suc (Suc 0))))"
  by simp

lemma sample_changes_history:
  "w_history sample_changes =
     [Committed sample_request 0 sample_response, Finalized sample_request sample_response sample_response,
      Answered Atomic sample_request sample_response False,
      Finalized sample_request sample_response sample_response, Answered Atomic sample_request sample_response True,
      Committed sample_request 1400000 sample_response, Finalized sample_request sample_response sample_response,
      Answered Atomic sample_request sample_response False]"
  by (simp add: sample_changes_def sample_change_defs sample_five)

theorem project_change_commits_once_witness: "(0::int) + 7 * 24 * 60 * 60 < 1400000"
proof (rule project_change_commits_once)
  show "daemon_reachable sample_codec (\<lambda>_. Atomic) sample_changes"
    unfolding sample_changes_def sample_change_def
    by (intro reachable_run reachable_start reachable_pass reachable_initial) (simp_all add: sample_change_defs sample_five)
  show "w_history sample_changes = [] @ Committed sample_request 0 sample_response
      # [Finalized sample_request sample_response sample_response, Answered Atomic sample_request sample_response False,
         Finalized sample_request sample_response sample_response, Answered Atomic sample_request sample_response True]
      @ Committed sample_request 1400000 sample_response
      # [Finalized sample_request sample_response sample_response, Answered Atomic sample_request sample_response False]"
    by (simp add: sample_changes_history)
qed simp

end
