(* ===== verification/Outcome_Replay.thy ===== *)
theory Outcome_Replay
  imports Outcome_Facts
begin

text \<open>
  Where replayed answers come from: an invariant on what the ledger, the canonical table, the
  memory of the daemons and the calls under way hold, next to \<open>sound\<close>. Then retries of an
  interrupted change.\<close>

section \<open>Where a replayed answer comes from\<close>

text \<open>The response of the command to a request with the same content: for a launch under the
  identity it is asked with, for a project change the response that refused to commit, or what
  finalizing a response of the committed change returned.\<close>

definition sourced :: "'x event list \<Rightarrow> flow \<Rightarrow> request \<Rightarrow> 'x response \<Rightarrow> bool" where
  "sourced H f q r \<longleftrightarrow> (case f of
       External \<Rightarrow> \<exists>q' t. Ran External q' t r \<in> set H \<and> strip_auth q' = strip_auth q
     | Launch \<Rightarrow> \<exists>q' t x. Ran Launch q' t x \<in> set H \<and> strip_auth q' = strip_auth q \<and> r = x\<lparr>resp_id := req_id q\<rparr>
     | Atomic \<Rightarrow> (\<exists>q'. Refused q' r \<in> set H \<and> strip_auth q' = strip_auth q)
         \<or> (\<exists>q' q'' t x. Finalized q' x r \<in> set H \<and> Committed q'' t x \<in> set H
              \<and> strip_auth q' = strip_auth q \<and> strip_auth q'' = strip_auth q))"

definition honest_replay :: "'x event list \<Rightarrow> flow \<Rightarrow> request \<Rightarrow> 'x response \<Rightarrow> bool" where
  "honest_replay H f q r \<longleftrightarrow> (\<exists>e. r = launch_unavailable_response (req_id q) e) \<or> sourced H f q r"

definition committed_source :: "'x event list \<Rightarrow> request \<Rightarrow> 'x response \<Rightarrow> bool" where
  "committed_source H q x \<longleftrightarrow> (\<exists>q' t. Committed q' t x \<in> set H \<and> strip_auth q' = strip_auth q)"

definition point_sourced :: "'x event list \<Rightarrow> 'x call \<Rightarrow> bool" where
  "point_sourced H c \<longleftrightarrow> (case call_point c of
       At_finalize _ x _ \<Rightarrow> committed_source H (call_request c) x
     | At_complete _ r _ \<Rightarrow> sourced H Atomic (call_request c) r
     | At_release r _ \<Rightarrow> sourced H Atomic (call_request c) r
     | At_prune r _ \<Rightarrow> sourced H Atomic (call_request c) r
     | At_abandon r replayed \<Rightarrow> replayed \<longrightarrow> sourced H Atomic (call_request c) r
     | _ \<Rightarrow> True)"

definition recorded_source :: "'x codec \<Rightarrow> (request \<Rightarrow> flow) \<Rightarrow> 'x event list \<Rightarrow> string \<Rightarrow> string \<Rightarrow> bool" where
  "recorded_source C route H h s \<longleftrightarrow>
     (\<forall>q. request_hash C q = Some h \<longrightarrow> route (strip_auth q) = Atomic \<longrightarrow> (\<exists>r. to_text C r = Some s \<and> sourced H Atomic q r))"

definition canonical_source :: "'x codec \<Rightarrow> 'x event list \<Rightarrow> atomic_row \<Rightarrow> bool" where
  "canonical_source C H row \<longleftrightarrow>
     (\<exists>q t x. Committed q t x \<in> set H \<and> request_hash C q = Some (atomic_hash row) \<and> to_text C x = Some (atomic_response row))"

text \<open>A response in the memory of a daemon is one a launch gave, and its row holds the marker.\<close>

definition cached_source :: "'x codec \<Rightarrow> 'x event list \<Rightarrow> ledger \<Rightarrow> string \<Rightarrow> 'x response \<Rightarrow> bool" where
  "cached_source C H L i x \<longleftrightarrow>
     (\<exists>q t row. Ran Launch q t x \<in> set H \<and> L i = Some row \<and> row_response row = Some launch_marker_json
        \<and> request_hash C q = Some (row_hash row))"

definition replay_ok :: "'x codec \<Rightarrow> (request \<Rightarrow> flow) \<Rightarrow> ('p, 'x) world \<Rightarrow> bool" where
  "replay_ok C route w \<longleftrightarrow>
     (\<forall>i row s. w_ledger w i = Some row \<longrightarrow> row_response row = Some s \<longrightarrow> s \<noteq> launch_marker_json \<longrightarrow>
        recorded_source C route (w_history w) (row_hash row) s)
     \<and> (\<forall>i row. w_canonical w i = Some row \<longrightarrow> canonical_source C (w_history w) row)
     \<and> (\<forall>inst i x. w_caches w inst i = Some x \<longrightarrow> cached_source C (w_history w) (w_ledger w) i x)
     \<and> (\<forall>k c. w_calls w k = Some c \<longrightarrow> point_sourced (w_history w) c)
     \<and> (\<forall>f q r. Answered f q r True \<in> set (w_history w) \<longrightarrow> honest_replay (w_history w) f q r)"

lemma replay_okD:
  assumes "replay_ok C route w"
  shows "w_ledger w i = Some row \<Longrightarrow> row_response row = Some s \<Longrightarrow> s \<noteq> launch_marker_json \<Longrightarrow>
      recorded_source C route (w_history w) (row_hash row) s"
    "w_canonical w i = Some arow \<Longrightarrow> canonical_source C (w_history w) arow"
    "w_caches w inst i = Some x \<Longrightarrow> cached_source C (w_history w) (w_ledger w) i x"
    "w_calls w k = Some c \<Longrightarrow> point_sourced (w_history w) c"
    "Answered f q r True \<in> set (w_history w) \<Longrightarrow> honest_replay (w_history w) f q r"
  using assms unfolding replay_ok_def by blast+

section \<open>A longer history\<close>

lemma sourced_mono: "sourced H f q r \<Longrightarrow> set H \<subseteq> set H' \<Longrightarrow> sourced H' f q r"
  unfolding sourced_def by (cases f) (simp_all, blast+)

lemma honest_replay_mono: "honest_replay H f q r \<Longrightarrow> set H \<subseteq> set H' \<Longrightarrow> honest_replay H' f q r"
  unfolding honest_replay_def using sourced_mono by blast

lemma point_sourced_mono: "point_sourced H c \<Longrightarrow> set H \<subseteq> set H' \<Longrightarrow> point_sourced H' c"
  unfolding point_sourced_def committed_source_def using sourced_mono by (auto split: point.splits)

lemma recorded_source_mono: "recorded_source C route H h s \<Longrightarrow> set H \<subseteq> set H' \<Longrightarrow> recorded_source C route H' h s"
  unfolding recorded_source_def using sourced_mono by blast

lemma canonical_source_mono: "canonical_source C H row \<Longrightarrow> set H \<subseteq> set H' \<Longrightarrow> canonical_source C H' row"
  unfolding canonical_source_def by blast

section \<open>What a statement may do to recorded responses\<close>

text \<open>New responses are markers or accounted for by \<open>new\<close>; a marker stays.\<close>

definition ledger_grows :: "(string \<Rightarrow> string \<Rightarrow> bool) \<Rightarrow> ledger \<Rightarrow> ledger \<Rightarrow> bool" where
  "ledger_grows new L L' \<longleftrightarrow>
     (\<forall>i row' s. L' i = Some row' \<longrightarrow> row_response row' = Some s \<longrightarrow> s \<noteq> launch_marker_json \<longrightarrow>
        (\<exists>row. L i = Some row \<and> row_response row = Some s \<and> row_hash row = row_hash row') \<or> new (row_hash row') s)
     \<and> (\<forall>i row. L i = Some row \<longrightarrow> row_response row = Some launch_marker_json \<longrightarrow>
        (\<exists>row'. L' i = Some row' \<and> row_response row' = Some launch_marker_json \<and> row_hash row' = row_hash row))"

lemma grows_refl [simp]: "ledger_grows new L L"
  by (auto simp: ledger_grows_def)

lemma growsD:
  "ledger_grows new L L' \<Longrightarrow> L' i = Some row' \<Longrightarrow> row_response row' = Some s \<Longrightarrow> s \<noteq> launch_marker_json \<Longrightarrow>
     (\<exists>row. L i = Some row \<and> row_response row = Some s \<and> row_hash row = row_hash row') \<or> new (row_hash row') s"
  "ledger_grows new L L' \<Longrightarrow> L i = Some row \<Longrightarrow> row_response row = Some launch_marker_json \<Longrightarrow>
     \<exists>row'. L' i = Some row' \<and> row_response row' = Some launch_marker_json \<and> row_hash row' = row_hash row"
  unfolding ledger_grows_def by blast+

lemma grows_trans: "ledger_grows new L L' \<Longrightarrow> ledger_grows (\<lambda>_ _. False) L' L'' \<Longrightarrow> ledger_grows new L L''"
  unfolding ledger_grows_def by metis

lemma grows_update:
  assumes "\<And>row. L i = Some row \<Longrightarrow> row_hash row' = row_hash row \<and> (row_response row = Some launch_marker_json \<longrightarrow> row_response row' = Some launch_marker_json)"
    and "\<And>s. row_response row' = Some s \<Longrightarrow> s = launch_marker_json \<or> new (row_hash row') s"
  shows "ledger_grows new L (L(i \<mapsto> row'))"
  using assms unfolding ledger_grows_def by auto

lemma grows_remove: "L i = Some row \<Longrightarrow> row_response row \<noteq> Some launch_marker_json \<Longrightarrow> ledger_grows new L (L(i := None))"
  unfolding ledger_grows_def by auto

lemma grows_prune: "ledger_grows new L (prune_completed now L)"
  unfolding ledger_grows_def prune_completed_Some by (auto simp: expired_def split: option.splits)

lemma grows_sanitize: "ledger_grows new L (sanitize_legacy_workbench_launch_responses C L)"
  unfolding ledger_grows_def
proof (intro conjI allI impI)
  fix i row' s
  assume "sanitize_legacy_workbench_launch_responses C L i = Some row'" "row_response row' = Some s" "s \<noteq> launch_marker_json"
  then show "(\<exists>row. L i = Some row \<and> row_response row = Some s \<and> row_hash row = row_hash row') \<or> new (row_hash row') s"
    by (auto simp: sanitize_legacy_workbench_launch_responses_def split: option.splits if_splits)
next
  fix i row
  assume "L i = Some row" "row_response row = Some launch_marker_json"
  then show "\<exists>row'. sanitize_legacy_workbench_launch_responses C L i = Some row' \<and> row_response row' = Some launch_marker_json \<and> row_hash row' = row_hash row"
    by (simp add: sanitize_legacy_workbench_launch_responses_def)
qed

lemma grows_abandon: "ledger_grows new L (snd (abandon up i hash inst L))"
proof (cases "snd (abandon up i hash inst L) = L")
  case False
  then obtain row where "L i = Some row" "row_response row = None" "snd (abandon up i hash inst L) = L(i := None)"
    by (auto simp: abandon_def split: if_splits option.splits)
  then show ?thesis by (simp add: grows_remove)
qed simp

lemma grows_record:
  assumes "record_completion up tidy now i hash s L = (res, L')" "s = launch_marker_json \<or> new hash s"
  shows "ledger_grows new L L'"
  using assms(1)
proof (cases rule: record_completion_cases)
  case (recorded row)
  have "ledger_grows new L (L(i \<mapsto> row\<lparr>row_response := Some s, row_completed := Some now\<rparr>))"
    by (rule grows_update) (use recorded assms(2) in auto)
  then show ?thesis using recorded(5) grows_trans [OF _ grows_prune] by blast
qed simp

section \<open>The frame\<close>

lemma replay_frame:
  assumes ok: "replay_ok C route w" and hist: "w_history w' = w_history w @ es"
    and ledger: "ledger_grows new (w_ledger w) (w_ledger w')" "\<And>h s. new h s \<Longrightarrow> recorded_source C route (w_history w') h s"
    and canon: "\<And>i row. w_canonical w' i = Some row \<Longrightarrow> w_canonical w i = Some row \<or> canonical_source C (w_history w') row"
    and caches: "\<And>inst i x. w_caches w' inst i = Some x \<Longrightarrow>
        w_caches w inst i = Some x \<or> cached_source C (w_history w') (w_ledger w') i x"
    and calls: "\<And>k c. w_calls w' k = Some c \<Longrightarrow> w_calls w k = Some c \<or> point_sourced (w_history w') c"
    and answers: "\<And>f q r. Answered f q r True \<in> set es \<Longrightarrow> honest_replay (w_history w') f q r"
  shows "replay_ok C route w'"
proof -
  have more: "set (w_history w) \<subseteq> set (w_history w')" by (simp add: hist)
  have "recorded_source C route (w_history w') (row_hash row) s"
    if row: "w_ledger w' i = Some row" "row_response row = Some s" "s \<noteq> launch_marker_json" for i row s
  proof -
    consider row0 where "w_ledger w i = Some row0" "row_response row0 = Some s" "row_hash row0 = row_hash row" | "new (row_hash row) s"
      using growsD(1) [OF ledger(1) row] by blast
    then show ?thesis
      using ledger(2) replay_okD(1) [OF ok] row(3) recorded_source_mono [OF _ more] by cases metis+
  qed
  moreover have "canonical_source C (w_history w') row" if "w_canonical w' i = Some row" for i row
    using canon [OF that] replay_okD(2) [OF ok] canonical_source_mono [OF _ more] by blast
  moreover have "cached_source C (w_history w') (w_ledger w') i x" if "w_caches w' inst i = Some x" for inst i x
    using caches [OF that]
  proof
    assume "w_caches w inst i = Some x"
    from replay_okD(3) [OF ok this] show ?thesis
      using growsD(2) [OF ledger(1), of i] more unfolding cached_source_def by (metis subsetD)
  qed
  moreover have "point_sourced (w_history w') c" if "w_calls w' k = Some c" for k c
    using calls [OF that] replay_okD(4) [OF ok] point_sourced_mono [OF _ more] by blast
  moreover have "honest_replay (w_history w') f q r" if "Answered f q r True \<in> set (w_history w')" for f q r
    using that answers replay_okD(5) [OF ok] honest_replay_mono [OF _ more] unfolding hist by auto
  ultimately show ?thesis unfolding replay_ok_def by blast
qed

lemma answers_at_done: "Answered f q r True \<in> set (answer_of c pt) \<longleftrightarrow> pt = At_done r True \<and> f = call_flow c \<and> q = call_request c"
  by (auto simp: answer_of_def split: point.splits)

lemma replay_move:
  assumes ok: "replay_ok C route w" and v: "w_history v = w_history w @ es" "w_calls v = w_calls w" "\<And>f q r. Answered f q r True \<notin> set es"
    and ledger: "ledger_grows new (w_ledger w) (w_ledger v)" "\<And>h s. new h s \<Longrightarrow> recorded_source C route (w_history v) h s"
    and canon: "\<And>i row. w_canonical v i = Some row \<Longrightarrow> w_canonical w i = Some row \<or> canonical_source C (w_history v) row"
    and caches: "\<And>inst i x. w_caches v inst i = Some x \<Longrightarrow> w_caches w inst i = Some x \<or> cached_source C (w_history v) (w_ledger v) i x"
    and pt: "point_sourced (w_history v) (c\<lparr>call_point := pt\<rparr>)"
      "\<And>r. pt = At_done r True \<Longrightarrow> honest_replay (w_history v) (call_flow c) (call_request c) r"
  shows "replay_ok C route (move k c pt v)"
proof (rule replay_frame [OF ok, where new = new])
  let ?w = "move k c pt v"
  have more: "set (w_history v) \<subseteq> set (w_history ?w)" by simp
  show "w_history ?w = w_history w @ es @ answer_of c pt" using v(1) by simp
  show "ledger_grows new (w_ledger w) (w_ledger ?w)" using ledger(1) by simp
  show "new h s \<Longrightarrow> recorded_source C route (w_history ?w) h s" for h s
    using recorded_source_mono [OF ledger(2) more] .
  show "w_canonical ?w i = Some row \<Longrightarrow> w_canonical w i = Some row \<or> canonical_source C (w_history ?w) row" for i row
    using canon canonical_source_mono [OF _ more] by auto
  show "w_caches ?w inst i = Some x \<Longrightarrow> w_caches w inst i = Some x \<or> cached_source C (w_history ?w) (w_ledger ?w) i x" for inst i x
    using caches [of inst i x] more unfolding cached_source_def by (auto simp: move_def)
  show "w_calls ?w j = Some d \<Longrightarrow> w_calls w j = Some d \<or> point_sourced (w_history ?w) d" for j d
    using point_sourced_mono [OF pt(1) more] v(2) by (auto split: if_splits)
  show "Answered f q r True \<in> set (es @ answer_of c pt) \<Longrightarrow> honest_replay (w_history ?w) f q r" for f q r
    using v(3) honest_replay_mono [OF pt(2) more] by (auto simp: answers_at_done)
qed

text \<open>Most steps leave the two tables and the memory as they are.\<close>

lemma replay_quiet:
  assumes "replay_ok C route w" "w_history v = w_history w @ es" "\<And>f q r. Answered f q r True \<notin> set es"
    and "w_calls v = w_calls w" "w_ledger v = w_ledger w" "w_canonical v = w_canonical w" "w_caches v = w_caches w"
    and "point_sourced (w_history v) (c\<lparr>call_point := pt\<rparr>)"
      "\<And>r. pt = At_done r True \<Longrightarrow> honest_replay (w_history v) (call_flow c) (call_request c) r"
  shows "replay_ok C route (move k c pt v)"
  by (rule replay_move [where new = "\<lambda>_ _. False", OF assms(1,2,4,3)]) (use assms(5-9) in auto)

section \<open>Replaying from the ledger\<close>

lemma replay_honest:
  assumes codec: "codec_laws C" and prints: "fingerprint_laws C" and S: "sound C route w" and ok: "replay_ok C route w"
    and row: "w_ledger w i = Some row" "row_response row = Some s" "completion_of_text C s = Some cc"
    and q: "request_hash C q = Some (row_hash row)" "route (strip_auth q) = f" "f \<noteq> Launch"
  shows "honest_replay (w_history w) f q (generic_replay_response (req_id q) e cc)"
proof (cases "s = launch_marker_json")
  case True
  then have "cc = Launch_marker" using row(3) completion_of_marker [OF codec] by simp
  then show ?thesis unfolding honest_replay_def generic_replay_response_def by auto
next
  case False
  obtain q' where q': "request_hash C q' = Some (row_hash row)" "row_accounted C route (w_history w) q' row"
    using soundD(1) [OF S] row(1) unfolding rows_ok_def by blast
  have same: "strip_auth q' = strip_auth q" by (rule request_hash_inj [OF prints q'(1) q(1)])
  have "\<exists>r. to_text C r = Some s \<and> sourced (w_history w) f q r"
  proof (cases f)
    case External
    then obtain q'' t r where "Ran External q'' t r \<in> set (w_history w)" "strip_auth q'' = strip_auth q'" "to_text C r = Some s"
      using q'(2) row(2) q(2) same False unfolding row_accounted_def by force
    then show ?thesis using same External by (auto simp: sourced_def)
  next
    case Atomic
    then show ?thesis
      using replay_okD(1) [OF ok row(1,2) False] q unfolding recorded_source_def by blast
  qed (use q(3) in simp)
  then show ?thesis
    using row(3) completion_of_response [OF codec] by (auto simp: honest_replay_def generic_replay_response_def)
qed

lemma launch_replay_honest:
  assumes prints: "fingerprint_laws C" and ok: "replay_ok C route w"
    and row: "w_ledger w (req_id q) = Some row" "request_hash C q = Some (row_hash row)"
  shows "honest_replay (w_history w) Launch q (replay_workbench_launch_completion (req_id q) e cc (w_caches w inst))"
proof (cases "\<exists>x. cc = Launch_marker \<and> w_caches w inst (req_id q) = Some x")
  case True
  then obtain x where x: "cc = Launch_marker" "w_caches w inst (req_id q) = Some x" by blast
  obtain q' t where q': "Ran Launch q' t x \<in> set (w_history w)" "request_hash C q' = Some (row_hash row)"
    using replay_okD(3) [OF ok x(2)] row(1) by (auto simp: cached_source_def)
  have "strip_auth q' = strip_auth q" by (rule request_hash_inj [OF prints q'(2) row(2)])
  then have "sourced (w_history w) Launch q (x\<lparr>resp_id := req_id q\<rparr>)"
    using q'(1) by (auto simp: sourced_def)
  then show ?thesis using x by (simp add: honest_replay_def replay_workbench_launch_completion_def)
next
  case False
  then have "replay_workbench_launch_completion (req_id q) e cc (w_caches w inst) = launch_unavailable_response (req_id q) e"
    by (auto simp: replay_workbench_launch_completion_def split: completion.splits option.splits)
  then show ?thesis unfolding honest_replay_def by blast
qed

text \<open>What a call answers when it finds a completed row.\<close>

definition row_replay :: "'x call \<Rightarrow> 'x launch_cache \<Rightarrow> 'x completion \<Rightarrow> 'x response" where
  "row_replay c cache cc = (if call_flow c = Launch then replay_workbench_launch_completion (call_id c) (call_effect c) cc cache
     else generic_replay_response (call_id c) (call_effect c) cc)"

lemma after_reserve_replays: "after_reserve c cache res = At_done r True \<Longrightarrow> \<exists>cc. res = Inr (Reserve_replay cc) \<and> r = row_replay c cache cc"
  by (auto simp: after_reserve_defs row_replay_def split: flow.splits sum.splits reservation.splits if_splits)

lemma after_wait_replays: "after_wait a c owner cache K res = At_done r True \<Longrightarrow> \<exists>cc. res = Inr (Wait_completed cc) \<and> r = row_replay c cache cc"
  by (auto simp: after_wait_defs row_replay_def split: flow.splits sum.splits waited.splits bool.splits)

lemma after_points_sourced:
  "point_sourced H (c\<lparr>call_point := after_reserve c cache res\<rparr>)" "point_sourced H (c\<lparr>call_point := after_wait a c owner cache K res'\<rparr>)"
  by (simp_all add: point_sourced_def after_reserve_defs after_wait_defs
      split: flow.splits sum.splits reservation.splits waited.splits bool.splits)

lemma row_replay_honest:
  assumes "codec_laws C" "fingerprint_laws C" and S: "sound C route w" and ok: "replay_ok C route w" and k: "w_calls w k = Some c"
    and row: "w_ledger w (call_id c) = Some row" "row_response row = Some s" "completion_of_text C s = Some cc" "row_hash row = call_hash c"
  shows "honest_replay (w_history w) (call_flow c) (call_request c) (row_replay c (w_caches w inst) cc)"
proof -
  have c: "call_ok C route (w_clock w) (w_history w) (w_ledger w) c" using soundD(3) [OF S k] .
  have q: "request_hash C (call_request c) = Some (row_hash row)" "route (strip_auth (call_request c)) = call_flow c"
    using call_routed(1) [OF c] call_okD(2) [OF c] row(4) by simp_all
  show ?thesis
  proof (cases "call_flow c = Launch")
    case True
    then show ?thesis
      using launch_replay_honest [OF assms(2) ok, of "call_request c" row] row(1) q(1) by (simp add: row_replay_def call_id_def)
  next
    case False
    then show ?thesis
      using replay_honest [OF assms(1,2) S ok row(1-3) q] by (simp add: row_replay_def call_id_def)
  qed
qed

section \<open>The steps of a call\<close>

lemma replay_reserve:
  assumes codec: "codec_laws C" and prints: "fingerprint_laws C" and S: "sound C route w" and k: "w_calls w k = Some c"
    and ok: "replay_ok C route w"
  shows "replay_ok C route (step_reserve C a k c w)"
proof -
  have c: "call_ok C route (w_clock w) (w_history w) (w_ledger w) c" using soundD(3) [OF S k] .
  obtain res L' where r: "reserve_compatible C (ledger_up a) (w_clock w) (call_id c) (call_hashes c) (call_effect c)
      (flow_class (call_flow c)) (call_instance c) (w_ledger w) = (res, L')"
    by (meson surj_pair)
  have cases: "ledger_grows (\<lambda>_ _. False) (w_ledger w) L' \<and> (\<forall>cc. res = Inr (Reserve_replay cc) \<longrightarrow>
      honest_replay (w_history w) (call_flow c) (call_request c) (row_replay c (w_caches w (call_instance c)) cc))"
    using prints soundD(1) [OF S] call_okD(1) [OF c] call_id_def r
  proof (cases rule: reserve_cases)
    case new
    then show ?thesis by (auto simp: new_row_def intro!: grows_update)
  next
    case (replay cc row s)
    then show ?thesis
      using row_replay_honest [OF codec prints S ok k replay(2-4)] by (simp add: call_hash_def)
  qed auto
  show ?thesis
    unfolding step_reserve_def r prod.case
  proof (rule replay_move [OF ok, where es = "[]" and new = "\<lambda>_ _. False"])
    fix x assume "after_reserve c (w_caches w (call_instance c)) res = At_done x True"
    then show "honest_replay (w_history (w\<lparr>w_ledger := L'\<rparr>)) (call_flow c) (call_request c) x"
      using after_reserve_replays cases by fastforce
  qed (use cases in \<open>simp_all add: after_points_sourced\<close>)
qed

lemma replay_wait:
  assumes codec: "codec_laws C" and prints: "fingerprint_laws C" and S: "sound C route w" and k: "w_calls w k = Some c"
    and ok: "replay_ok C route w"
  shows "replay_ok C route (step_wait C a k c owner w)"
proof (cases "poll_response C (ledger_up a) (time_left a) (call_id c) (call_hash c) (w_ledger w)")
  case (Some res)
  have "replay_ok C route (move k c (after_wait a c owner (w_caches w (call_instance c)) (w_canonical w) res) w)"
  proof (rule replay_quiet [OF ok, of _ "[]"])
    fix x
    assume "after_wait a c owner (w_caches w (call_instance c)) (w_canonical w) res = At_done x True"
    then obtain cc where cc: "res = Inr (Wait_completed cc)" "x = row_replay c (w_caches w (call_instance c)) cc"
      using after_wait_replays by blast
    then obtain row s where row: "w_ledger w (call_id c) = Some row" "row_response row = Some s" "completion_of_text C s = Some cc"
        "row_hash row = call_hash c"
      using Some by (auto simp: poll_response_def split: if_splits option.splits)
    show "honest_replay (w_history w) (call_flow c) (call_request c) x"
      unfolding cc(2) by (rule row_replay_honest [OF codec prints S ok k row])
  qed (simp_all add: after_points_sourced)
  then show ?thesis by (simp add: step_wait_def Some)
qed (use ok in \<open>simp add: step_wait_def\<close>)

text \<open>What a launch leaves in the memory of its daemon.\<close>

lemma launch_cache_after:
  assumes "launch_settle up tidy now retained i hash e inst r L cache = (r', L', cache')" "cache' j = Some x" "cache j \<noteq> Some x"
  shows "j = i \<and> x = r \<and> (\<exists>row. L' i = Some row \<and> row_response row = Some launch_marker_json \<and> row_hash row = hash)"
proof -
  obtain res L2 where m: "record_completion up tidy now i hash launch_marker_json L = (res, L2)" by (meson surj_pair)
  have "\<not> declined r" using assms by (auto simp: launch_settle_def split: prod.splits)
  then have step: "L' = L2" "res = Inr ()" "j = i" "x = r"
    using assms m by (auto simp: launch_settle_def complete_workbench_launch_marker_def Let_def split: sum.splits if_splits)
  from m show ?thesis
    by (cases rule: record_completion_cases) (use step in \<open>auto simp: prune_completed_Some expired_def split: option.splits\<close>)
qed

lemma settled_grows:
  assumes prints: "fingerprint_laws C" and c: "call_ok C route now H L0 c" "call_flow c \<noteq> Atomic" and L': "settles_to C up tidy now c r L L'"
  shows "ledger_grows (\<lambda>h _. h = call_hash c) L L'" "recorded_source C route H' (call_hash c) s"
proof -
  show "ledger_grows (\<lambda>h _. h = call_hash c) L L'"
  proof (cases "declined r")
    case True
    then show ?thesis using L' grows_abandon by (simp add: settles_to_def)
  next
    case False
    then consider "L' = L" | s where "L' = snd (record_completion up tidy now (call_id c) (call_hash c) s L)"
      using L' unfolding settles_to_def by auto
    then show ?thesis
    proof cases
      case (2 s)
      obtain res L2 where rec: "record_completion up tidy now (call_id c) (call_hash c) s L = (res, L2)" by (meson surj_pair)
      show ?thesis using grows_record [OF rec] 2 rec by simp
    qed simp
  qed
  show "recorded_source C route H' (call_hash c) s"
    using routed_hash [OF prints call_routed(2) [OF c(1)]] c(2) by (auto simp: recorded_source_def)
qed

lemma replay_settle:
  assumes prints: "fingerprint_laws C" and S: "sound C route w" and k: "w_calls w k = Some c" and pt: "call_point c = At_settle r"
    and ok: "replay_ok C route w"
  shows "replay_ok C route (step_settle C a k c r w)"
proof -
  have c: "call_ok C route (w_clock w) (w_history w) (w_ledger w) c" using soundD(3) [OF S k] .
  have f: "call_flow c \<noteq> Atomic" using call_okD(3) [OF c] pt by (simp add: point_fits_def)
  obtain t where ran: "Ran (call_flow c) (call_request c) t r \<in> set (w_history w)"
    using call_okD(5) [OF c] pt unfolding sole_run_def by auto
  note grows = settled_grows [OF prints c f]
  show ?thesis
  proof (cases "call_flow c = Launch")
    case True
    obtain r' L' cache where l: "launch_settle (ledger_up a) (ledger_tidy a) (w_clock w) (retain_result a) (call_id c) (call_hash c)
        (call_effect c) (call_instance c) r (w_ledger w) (w_caches w (call_instance c)) = (r', L', cache)"
      by (metis surj_pair)
    let ?v = "w\<lparr>w_ledger := L', w_caches := (w_caches w)(call_instance c := cache)\<rparr>"
    have "w_caches w inst i = Some x \<or> cached_source C (w_history ?v) (w_ledger ?v) i x" if x: "w_caches ?v inst i = Some x" for inst i x
    proof (cases "w_caches w inst i = Some x")
      case False
      then have "cache i = Some x" "w_caches w (call_instance c) i \<noteq> Some x" using x by (auto split: if_splits)
      from launch_cache_after [OF l this] show ?thesis
        using ran True call_routed(1) [OF c] unfolding cached_source_def by auto
    qed simp
    then have "replay_ok C route (move k c (At_done r' False) ?v)"
      by (intro replay_move [OF ok, of _ "[]" "\<lambda>h _. h = call_hash c"])
         (use grows [OF launch_settles [OF l True]] in \<open>simp_all add: point_sourced_def\<close>)
    then show ?thesis by (simp add: step_settle_def True l)
  next
    case False
    obtain r' L' where e: "external_settle C (ledger_up a) (ledger_tidy a) (w_clock w) (call_id c) (call_hash c)
        (call_effect c) (call_instance c) r (w_ledger w) = (r', L')"
      by (metis surj_pair)
    have "replay_ok C route (move k c (At_done r' False) (w\<lparr>w_ledger := L'\<rparr>))"
      by (intro replay_move [OF ok, of _ "[]" "\<lambda>h _. h = call_hash c"])
         (use grows [OF external_settles [OF e False]] in \<open>simp_all add: point_sourced_def\<close>)
    then show ?thesis by (simp add: step_settle_def False e)
  qed
qed

text \<open>A project change: what the transaction answers, and what is kept of it.\<close>

lemma core_outcome:
  assumes "execute_atomic_core C begins commits now i hash e run K p = (res, K', p')"
  obtains (error) err where "res = Inl err" "K' = K"
  | (conflict) x where "res = Inr x" "core_conflict x" "\<not> core_committed x" "K' = K"
  | (stored) x row where "res = Inr x" "\<not> core_conflict x" "core_committed x" "core_replayed x" "K' = K" "K i = Some row"
      "atomic_hash row = hash" "Option.bind (to_json C (atomic_response row)) (to_response C) = Some (core_response x)"
  | (refused) x where "res = Inr x" "\<not> core_conflict x" "\<not> core_committed x" "\<not> core_replayed x" "K' = K"
  | (committed) x row where "res = Inr x" "\<not> core_conflict x" "core_committed x" "\<not> core_replayed x" "K' = K(i \<mapsto> row)"
      "atomic_hash row = hash" "to_text C (core_response x) = Some (atomic_response row)"
proof (cases "K i")
  case (Some row)
  show ?thesis
  proof (cases "begins \<and> atomic_hash row = hash")
    case True
    then show ?thesis
      using assms Some by (cases "Option.bind (to_json C (atomic_response row)) (to_response C)")
        (auto simp: execute_atomic_core_def intro: error stored [OF _ _ _ _ _ Some])
  next
    case False
    then show ?thesis using assms Some by (auto simp: execute_atomic_core_def intro: error conflict split: if_splits)
  qed
next
  case None
  show ?thesis
  proof (cases "begins \<and> atomic_response_commits (snd run) \<and> e \<noteq> Pure \<and> commits")
    case True
    then show ?thesis
      using assms None
      by (cases "to_text C (with_effect e (snd run))") (auto simp: execute_atomic_core_def intro: error committed)
  next
    case False
    then show ?thesis
      using assms None by (auto simp: execute_atomic_core_def Let_def intro: error refused split: if_splits option.splits)
  qed
qed

lemma stored_source:
  assumes codec: "codec_laws C" and prints: "fingerprint_laws C" and "canonical_source C H row"
    and "Option.bind (to_json C (atomic_response row)) (to_response C) = Some r" "request_hash C q = Some (atomic_hash row)"
  shows "committed_source H q r"
proof -
  obtain q' t x where x: "Committed q' t x \<in> set H" "request_hash C q' = Some (atomic_hash row)" "to_text C x = Some (atomic_response row)"
    using assms(3) unfolding canonical_source_def by blast
  obtain v where "to_json C (atomic_response row) = Some v" "to_response C v = Some x"
    using codec x(3) unfolding codec_laws_def by blast
  then have "x = r" using assms(4) by simp
  moreover have "strip_auth q' = strip_auth q" by (rule request_hash_inj [OF prints x(2) assms(5)])
  ultimately show ?thesis using x(1) unfolding committed_source_def by blast
qed

lemma replay_core:
  assumes codec: "codec_laws C" and prints: "fingerprint_laws C" and S: "sound C route w" and k: "w_calls w k = Some c"
    and ok: "replay_ok C route w"
  shows "replay_ok C route (step_core C a k c owns w)"
proof -
  let ?q = "call_request c" and ?H = "w_history w"
  have hash: "request_hash C ?q = Some (call_hash c)" by (rule call_routed(1) [OF soundD(3) [OF S k]])
  obtain res K' p' where e: "execute_atomic_core C (project_begins a) (project_commits a) (w_clock w) (call_id c) (call_hash c)
      (call_effect c) (command_state a, command_response a) (w_canonical w) (w_project w) = (res, K', p')"
    by (metis surj_pair)
  define es where "es = (case res of Inl _ \<Rightarrow> []
      | Inr x \<Rightarrow> if commits_now res then [Committed ?q (w_clock w) (core_response x)]
          else if core_committed x \<or> core_conflict x then [] else [Refused ?q (core_response x)])"
  define pt where "pt = atomic_after_core (call_id c) (call_effect c) owns res"
  have "(\<forall>i row. K' i = Some row \<longrightarrow> w_canonical w i = Some row \<or> canonical_source C (?H @ es) row)
      \<and> point_sourced (?H @ es) (c\<lparr>call_point := pt\<rparr>) \<and> (\<forall>r. pt \<noteq> At_done r True)"
    using e
  proof (cases rule: core_outcome)
    case (stored x row)
    then have "committed_source ?H ?q (core_response x)"
      using stored_source [OF codec prints replay_okD(2) [OF ok stored(6)] stored(8)] hash by simp
    then show ?thesis
      using stored by (auto simp: es_def pt_def commits_now_def atomic_after_core_def point_sourced_def)
  next
    case (committed x row)
    then show ?thesis
      using hash by (auto simp: es_def pt_def commits_now_def atomic_after_core_def point_sourced_def committed_source_def canonical_source_def)
  qed (auto simp: es_def pt_def commits_now_def atomic_after_core_def leave_atomic_def point_sourced_def sourced_def)
  then have "replay_ok C route (move k c pt (w\<lparr>w_canonical := K', w_project := p', w_history := ?H @ es\<rparr>))"
    by (intro replay_move [OF ok, of _ es "\<lambda>_ _. False"]) (auto simp: es_def split: sum.splits if_splits)
  then show ?thesis by (simp add: step_core_def e pt_def es_def)
qed

lemma replay_finalize:
  assumes k: "w_calls w k = Some c" and f: "call_flow c = Atomic" and pt: "call_point c = At_finalize owns x replayed" and ok: "replay_ok C route w"
  shows "replay_ok C route (step_finalize a k c owns x replayed w)"
proof -
  let ?q = "call_request c"
  obtain q' t where q': "Committed q' t x \<in> set (w_history w)" "strip_auth q' = strip_auth ?q"
    using replay_okD(4) [OF ok k] pt by (auto simp: point_sourced_def committed_source_def)
  define r where "r = (case finalize_result a of Inl x \<Rightarrow> x | Inr x \<Rightarrow> x)"
  have "sourced (w_history w @ [Finalized ?q x r]) Atomic ?q r" by (simp add: sourced_def) (use q' in blast)
  then have "replay_ok C route (move k c (atomic_after_finalize owns replayed (finalize_result a)) (w\<lparr>w_history := w_history w @ [Finalized ?q x r]\<rparr>))"
    using f by (intro replay_quiet [OF ok])
      (auto simp: r_def atomic_after_finalize_def leave_atomic_def point_sourced_def honest_replay_def split: sum.splits if_splits)
  then show ?thesis by (simp add: step_finalize_def r_def)
qed

lemma replay_complete:
  assumes prints: "fingerprint_laws C" and S: "sound C route w" and k: "w_calls w k = Some c"
    and pt: "call_point c = At_complete owns r replayed" and ok: "replay_ok C route w"
    and a: "atomic_complete C up tidy (w_clock w) (call_id c) (call_hash c) owns r replayed (w_ledger w) = (pt', L')"
  shows "replay_ok C route (move k c pt' (w\<lparr>w_ledger := L'\<rparr>))"
proof -
  let ?q = "call_request c"
  have hash: "request_hash C ?q = Some (call_hash c)" by (rule call_routed(1) [OF soundD(3) [OF S k]])
  have r: "sourced (w_history w) Atomic ?q r" using replay_okD(4) [OF ok k] pt by (simp add: point_sourced_def)
  let ?new = "\<lambda>h s. h = call_hash c \<and> to_text C r = Some s"
  have grows: "ledger_grows ?new (w_ledger w) L'"
  proof (cases "to_text C r")
    case None
    then show ?thesis using a by (simp add: atomic_complete_def complete_outcome_def)
  next
    case (Some s)
    obtain res L2 where rec: "record_completion up tidy (w_clock w) (call_id c) (call_hash c) s (w_ledger w) = (res, L2)" by (meson surj_pair)
    then have "L' = L2" using a Some by (auto simp: atomic_complete_def complete_outcome_def split: sum.splits)
    then show ?thesis using grows_record [OF rec, of ?new] Some by simp
  qed
  have new: "recorded_source C route (w_history w) h s" if "?new h s" for h s
    unfolding recorded_source_def
  proof (intro allI impI)
    fix q assume "request_hash C q = Some h"
    then have "strip_auth q = strip_auth ?q" using request_hash_inj [OF prints _ hash, of q] that by simp
    then show "\<exists>r. to_text C r = Some s \<and> sourced (w_history w) Atomic q r"
      using r that unfolding sourced_def by auto
  qed
  have pt': "pt' = At_prune r replayed \<or> pt' = At_release r replayed"
    using a by (auto simp: atomic_complete_def split: prod.splits sum.splits if_splits)
  show ?thesis
    by (rule replay_move [OF ok, of _ "[]" ?new]) (use grows new pt' r in \<open>auto simp: point_sourced_def\<close>)
qed

text \<open>The last steps of a project change give its response.\<close>

lemma replay_leave:
  assumes k: "w_calls w k = Some c" and f: "call_flow c = Atomic" and ok: "replay_ok C route w"
    and v: "w_history v = w_history w" "w_calls v = w_calls w" "w_caches v = w_caches w" "ledger_grows (\<lambda>_ _. False) (w_ledger w) (w_ledger v)"
      "\<And>i row. w_canonical v i = Some row \<Longrightarrow> w_canonical w i = Some row"
    and pt: "call_point c = At_abandon r b \<and> pt = At_done r b \<or> call_point c = At_release r b \<and> pt = At_prune r b
      \<or> call_point c = At_prune r b \<and> pt = At_done r b"
  shows "replay_ok C route (move k c pt v)"
proof -
  have "b \<or> pt = At_prune r b \<Longrightarrow> sourced (w_history w) Atomic (call_request c) r"
    using replay_okD(4) [OF ok k] pt by (auto simp: point_sourced_def)
  then show ?thesis
    using pt f v by (intro replay_move [OF ok, of _ "[]" "\<lambda>_ _. False"]) (auto simp: point_sourced_def honest_replay_def)
qed

lemma replay_call_step:
  assumes codec: "codec_laws C" and prints: "fingerprint_laws C" and S: "sound C route w" and k: "w_calls w k = Some c"
    and ok: "replay_ok C route w"
  shows "replay_ok C route (call_step C a k c w)"
proof -
  have fits: "point_fits c" using call_okD(3) [OF soundD(3) [OF S k]] .
  show ?thesis
  proof (cases "call_point c")
    case At_execute
    then show ?thesis
      by (auto simp: call_step_def step_execute_def point_sourced_def intro!: replay_quiet [OF ok])
  next
    case (At_finalize owns r replayed)
    then show ?thesis using replay_finalize [OF k _ At_finalize ok] fits by (simp add: call_step_def point_fits_def)
  next
    case (At_complete owns r replayed)
    then show ?thesis using replay_complete [OF prints S k At_complete ok] by (auto simp: call_step_def split: prod.splits)
  next
    case (At_abandon r b)
    show ?thesis
      unfolding call_step_def At_abandon point.case
      by (rule replay_leave [where r = r and b = b, OF k _ ok]) (use fits At_abandon in \<open>simp_all add: point_fits_def grows_abandon\<close>)
  next
    case (At_release r b)
    show ?thesis
      unfolding call_step_def At_release point.case
      by (rule replay_leave [where r = r and b = b, OF k _ ok]) (use fits At_release in \<open>simp_all add: point_fits_def grows_abandon\<close>)
  next
    case (At_prune r b)
    show ?thesis
      unfolding call_step_def At_prune point.case
      by (rule replay_leave [where r = r and b = b, OF k _ ok]) (use fits At_prune in \<open>auto simp: point_fits_def prune_canonical_outcomes_def split: if_splits option.splits\<close>)
  qed (use assms in \<open>simp_all add: call_step_def replay_reserve replay_wait replay_settle replay_core\<close>)
qed

section \<open>The steps of the daemon\<close>

text \<open>A launch request takes the launch flow, whatever its authorization.\<close>

definition routes_launches :: "(request \<Rightarrow> flow) \<Rightarrow> bool" where
  "routes_launches route \<longleftrightarrow> (\<forall>q. is_workbench_launch_request q \<longrightarrow> route q = Launch)"

lemma launch_request_strip: "is_workbench_launch_request (strip_auth q) = is_workbench_launch_request q"
  by (simp add: is_workbench_launch_request_def request_command_path_def strip_auth_def)

lemma completed_grows:
  assumes codec: "codec_laws C" and row: "L (req_id q) = Some row" "row_response row = Some s"
    and t: "terminal_completed C writes cache q e row s L = (res, L')"
  shows "ledger_grows (\<lambda>_ _. False) L L'"
proof -
  let ?m = "L(req_id q \<mapsto> row\<lparr>row_response := Some launch_marker_json\<rparr>)"
  have m: "replace_legacy_workbench_launch_response (req_id q) (row_hash row) s L = ?m"
    using row by (simp add: replace_legacy_workbench_launch_response_def)
  consider "L' = L" | "L' = ?m" | r where "L' = L(req_id q := None)" "completion_of_text C s = Some (Completed_response r)"
    using t unfolding terminal_completed_def Let_def m by (auto split: if_splits option.splits completion.splits)
  then show ?thesis
  proof cases
    case 2
    then show ?thesis using row by (auto intro!: grows_update)
  next
    case (3 r)
    then have "s \<noteq> launch_marker_json" using completion_of_marker [OF codec] by auto
    then show ?thesis using 3 row by (auto intro!: grows_remove)
  qed simp
qed

lemma completed_replays:
  assumes "terminal_completed C writes cache q e row s L = (Inr (Some (r, True)), L')"
  shows "if is_workbench_launch_request q then \<exists>cc. r = replay_workbench_launch_completion (req_id q) e cc cache
    else completion_of_text C s = Some (Completed_response r)"
  using assms unfolding terminal_completed_def Let_def
  by (auto split: if_splits option.splits completion.splits)

lemma replay_probe:
  assumes codec: "codec_laws C" and prints: "fingerprint_laws C" and route: "routes_launches route" and S: "sound C route w"
    and ok: "replay_ok C route w"
  shows "replay_ok C route (probe C route reads writes inst q w)"
proof -
  let ?f = "route (strip_auth q)" and ?L = "w_ledger w"
  obtain res L' where t: "terminal_outcome_before_preparation C reads writes (w_caches w inst) q ?L = (res, L')" by (meson surj_pair)
  have "ledger_grows (\<lambda>_ _. False) ?L L' \<and> (\<forall>r. res = Inr (Some (r, True)) \<longrightarrow> honest_replay (w_history w) ?f q r)"
  proof (cases "L' = ?L \<and> (\<forall>r. res \<noteq> Inr (Some (r, True)))")
    case False
    then obtain h row e s where h: "hashes_of C q = Some h" "?L (req_id q) = Some row" "hashes_match h (row_hash row)"
        "row_response row = Some s" "terminal_completed C writes (w_caches w inst) q e row s ?L = (res, L')"
      using t by (auto simp: terminal_outcome_before_preparation_def terminal_conflict_def Let_def split: option.splits if_splits)
    obtain q' where q': "request_hash C q' = Some (row_hash row)" "row_accounted C route (w_history w) q' row"
      using soundD(1) [OF S] h(2) unfolding rows_ok_def by blast
    have hash: "request_hash C q = Some (row_hash row)"
      using hashes_match_current [OF prints h(1) q'(1) h(3)] hashes_of_current [OF h(1)] by simp
    have "honest_replay (w_history w) ?f q r" if "res = Inr (Some (r, True))" for r
    proof (cases "is_workbench_launch_request q")
      case True
      then have "?f = Launch" using route launch_request_strip unfolding routes_launches_def by blast
      then show ?thesis
        using completed_replays [of C writes "w_caches w inst" q e row s ?L r L'] h(5) that True launch_replay_honest [OF prints ok h(2) hash]
        by auto
    next
      case False
      then have cc: "completion_of_text C s = Some (Completed_response r)"
        using completed_replays [of C writes "w_caches w inst" q e row s ?L r L'] h(5) that by simp
      have "?f \<noteq> Launch"
        using q'(2) h(4) cc completion_of_marker [OF codec] request_hash_inj [OF prints q'(1) hash] unfolding row_accounted_def by force
      then show ?thesis
        using replay_honest [OF codec prints S ok h(2,4) cc hash refl] by (simp add: generic_replay_response_def)
    qed
    then show ?thesis using completed_grows [OF codec h(2,4,5)] by blast
  qed simp
  then show ?thesis
    unfolding probe_def t prod.case
    by (intro replay_frame [OF ok, where new = "\<lambda>_ _. False"])
       (auto intro: honest_replay_mono split: sum.splits option.splits)
qed

lemma replay_step:
  assumes "codec_laws C" "fingerprint_laws C" "routes_launches route" "daemon_step C route w w'" and S: "sound C route w" and ok: "replay_ok C route w"
  shows "replay_ok C route w'"
  using assms(4)
proof cases
  case (arrives k q h e inst)
  then show ?thesis
    by (intro replay_frame [OF ok, of _ "[]" "\<lambda>_ _. False"]) (auto simp: point_sourced_def new_call_def split: if_splits)
next
  case (advances k c a)
  then show ?thesis using replay_call_step [OF assms(1,2) S _ ok] by simp
next
  case (probes reads writes inst q)
  then show ?thesis using replay_probe [OF assms(1-3) S ok] by simp
next
  case (crashes inst)
  then show ?thesis
    by (intro replay_frame [OF ok, of _ "[]" "\<lambda>_ _. False"]) (auto simp: crash_def split: if_splits option.splits)
next
  case opens
  then show ?thesis
    by (intro replay_frame [OF ok, of _ "[]" "\<lambda>_ _. False"]) (auto simp: open_ledger_def intro: grows_trans grows_sanitize grows_prune)
next
  case (lapses inst i)
  then show ?thesis
    by (intro replay_frame [OF ok, of _ "[]" "\<lambda>_ _. False"]) (auto split: if_splits)
next
  case (ticks d)
  then show ?thesis by (intro replay_frame [OF ok, of _ "[]" "\<lambda>_ _. False"]) auto
qed

lemma reachable_replay_ok:
  assumes "codec_laws C" "fingerprint_laws C" "routes_launches route" "daemon_reachable C route w"
  shows "replay_ok C route w"
proof -
  obtain p now where "(daemon_step C route)\<^sup>*\<^sup>* (initial_world p now) w"
    using assms(4) unfolding daemon_reachable_def by blast
  then have "sound C route w \<and> replay_ok C route w"
  proof (induction rule: rtranclp_induct)
    case base
    show ?case using initial_sound by (auto simp: replay_ok_def initial_world_def)
  next
    case (step v w)
    then show ?case using daemon_step_sound [OF assms(1,2)] replay_step [OF assms(1-3)] by blast
  qed
  then show ?thesis ..
qed

text \<open>
  C9. An answer replayed to a client is the response its own command gave to a request with the same
  content up to authorization, or the refusal to replay a launch: for a launch that response, under
  the identity asked with; for a project change the response that did not commit, or what finalizing
  the response of the committed change returned. A request identity reused for something else is
  never answered with another request's outcome, from either table or from memory.\<close>

theorem replayed_answer_is_recorded:
  assumes "codec_laws C" "fingerprint_laws C" "routes_launches route" "daemon_reachable C route w"
    and "Answered f q r True \<in> set (w_history w)"
  shows "(\<exists>e. r = launch_unavailable_response (req_id q) e)
    \<or> (case f of
        External \<Rightarrow> \<exists>q' t. Ran External q' t r \<in> set (w_history w) \<and> strip_auth q' = strip_auth q
      | Launch \<Rightarrow> \<exists>q' t x. Ran Launch q' t x \<in> set (w_history w) \<and> strip_auth q' = strip_auth q \<and> r = x\<lparr>resp_id := req_id q\<rparr>
      | Atomic \<Rightarrow> (\<exists>q'. Refused q' r \<in> set (w_history w) \<and> strip_auth q' = strip_auth q)
          \<or> (\<exists>q' q'' t x. Finalized q' x r \<in> set (w_history w) \<and> Committed q'' t x \<in> set (w_history w)
               \<and> strip_auth q' = strip_auth q \<and> strip_auth q'' = strip_auth q))"
  using replay_okD(5) [OF reachable_replay_ok [OF assms(1-4)] assms(5)] unfolding honest_replay_def sourced_def .

definition sample_route :: "request \<Rightarrow> flow" where
  "sample_route q = (if is_workbench_launch_request q then Launch else Atomic)"

theorem replayed_answer_is_recorded_witness:
  "Answered Atomic sample_request sample_response True \<in> set (w_history sample_changes)
   \<and> ((\<exists>e. sample_response = launch_unavailable_response (req_id sample_request) e)
    \<or> (\<exists>q'. Refused q' sample_response \<in> set (w_history sample_changes) \<and> strip_auth q' = strip_auth sample_request)
    \<or> (\<exists>q' q'' t x. Finalized q' x sample_response \<in> set (w_history sample_changes) \<and> Committed q'' t x \<in> set (w_history sample_changes)
               \<and> strip_auth q' = strip_auth sample_request \<and> strip_auth q'' = strip_auth sample_request))"
proof
  show replayed: "Answered Atomic sample_request sample_response True \<in> set (w_history sample_changes)"
    by (simp add: sample_changes_history)
  have "routes_launches sample_route" by (simp add: routes_launches_def sample_route_def)
  moreover have "daemon_reachable sample_codec sample_route sample_changes"
    unfolding sample_changes_def sample_change_def
    by (intro reachable_run reachable_start reachable_pass reachable_initial)
       (simp_all add: sample_change_defs sample_five sample_route_def is_workbench_launch_request_def request_command_path_def)
  ultimately show "(\<exists>e. sample_response = launch_unavailable_response (req_id sample_request) e)
    \<or> (\<exists>q'. Refused q' sample_response \<in> set (w_history sample_changes) \<and> strip_auth q' = strip_auth sample_request)
    \<or> (\<exists>q' q'' t x. Finalized q' x sample_response \<in> set (w_history sample_changes) \<and> Committed q'' t x \<in> set (w_history sample_changes)
               \<and> strip_auth q' = strip_auth sample_request \<and> strip_auth q'' = strip_auth sample_request)"
    using replayed_answer_is_recorded [OF sample_codec_laws _ _ replayed] by simp
qed

section \<open>Interrupted changes\<close>

text \<open>The databases answer, and the command's response commits and can be written down.\<close>

definition favourable :: "'x codec \<Rightarrow> ('p, 'x) answers \<Rightarrow> 'x call \<Rightarrow> bool" where
  "favourable C a c \<longleftrightarrow>
     ledger_up a \<and> project_begins a \<and> project_commits a \<and> call_effect c \<noteq> Pure
     \<and> atomic_response_commits (command_response a) \<and> to_text C (with_effect (call_effect c) (command_response a)) \<noteq> None
     \<and> (case finalize_result a of Inl _ \<Rightarrow> False | Inr r \<Rightarrow> to_text C r \<noteq> None)"

text \<open>A change that an earlier daemon left in flight.\<close>

definition interrupted :: "ledger \<Rightarrow> 'x call \<Rightarrow> bool" where
  "interrupted L c \<longleftrightarrow> (\<exists>row. L (call_id c) = Some row \<and> row_response row = None \<and> row_hash row = call_hash c
     \<and> row_instance row \<noteq> call_instance c \<and> stored_class row = Some AtomicProjectState)"

lemma run_call_Suc:
  assumes "w_calls w k = Some c"
  shows "run_call C a k (Suc n) w = run_call C a k n (call_step C a k c w)"
  by (simp add: assms)

lemma interrupted_reserve:
  assumes "interrupted (w_ledger w) c" "call_flow c = Atomic" "ledger_up a"
  shows "step_reserve C a k c w = move k c (At_core False) w"
proof -
  obtain row where row: "w_ledger w (call_id c) = Some row" "row_response row = None" "row_hash row = call_hash c"
     "row_instance row \<noteq> call_instance c" "stored_class row = Some AtomicProjectState"
    using assms(1) unfolding interrupted_def by blast
  then show ?thesis
    using assms(2,3)
    by (simp add: step_reserve_def reserve_compatible_def hashes_match_def migrate_hash_def call_hash_def after_reserve_defs)
qed

text \<open>
  C10. A retry of a project change that an earlier daemon left in flight completes: it runs the
  command and commits when the interrupted transaction had not committed, and otherwise leaves the
  project state alone and replays; either way the answer is recorded in the runtime row.\<close>

theorem interrupted_change_completes:
  assumes "w_calls w k = Some c" "call_flow c = Atomic" "call_point c = At_reserve"
    and "interrupted (w_ledger w) c" "favourable C a c"
    and "\<And>row. w_canonical w (call_id c) = Some row \<Longrightarrow>
           atomic_hash row = call_hash c \<and> Option.bind (to_json C (atomic_response row)) (to_response C) \<noteq> None"
  shows "\<exists>r s row. finalize_result a = Inr r \<and> to_text C r = Some s
    \<and> map_option call_point (w_calls (run_call C a k 5 w) k) = Some (At_done r (w_canonical w (call_id c) \<noteq> None))
    \<and> w_project (run_call C a k 5 w) = (if w_canonical w (call_id c) = None then command_state a else w_project w)
    \<and> w_ledger (run_call C a k 5 w) (call_id c) = Some row \<and> row_response row = Some s"
proof -
  obtain row where row: "w_ledger w (call_id c) = Some row" "row_response row = None" "row_hash row = call_hash c"
    using assms(4) unfolding interrupted_def by blast
  obtain r s where r: "finalize_result a = Inr r" "to_text C r = Some s"
    using assms(5) by (auto simp: favourable_def split: sum.splits)
  obtain t where t: "to_text C (with_effect (call_effect c) (command_response a)) = Some t"
    using assms(5) by (auto simp: favourable_def)
  have up: "ledger_up a" "project_begins a" "project_commits a" "call_effect c \<noteq> Pure" "atomic_response_commits (command_response a)"
    using assms(5) by (simp_all add: favourable_def)
  have "\<exists>K' x. execute_atomic_core C (project_begins a) (project_commits a) (w_clock w) (call_id c) (call_hash c)
      (call_effect c) (command_state a, command_response a) (w_canonical w) (w_project w)
      = (Inr \<lparr>core_response = x, core_committed = True, core_replayed = (w_canonical w (call_id c) \<noteq> None), core_conflict = False\<rparr>, K',
         if w_canonical w (call_id c) = None then command_state a else w_project w)"
    using up t assms(6) by (cases "w_canonical w (call_id c)") (auto simp: execute_atomic_core_def)
  then obtain K' x where core: "execute_atomic_core C (project_begins a) (project_commits a) (w_clock w) (call_id c) (call_hash c)
      (call_effect c) (command_state a, command_response a) (w_canonical w) (w_project w)
      = (Inr \<lparr>core_response = x, core_committed = True, core_replayed = (w_canonical w (call_id c) \<noteq> None), core_conflict = False\<rparr>, K',
         if w_canonical w (call_id c) = None then command_state a else w_project w)"
    by blast
  have id: "call_id (c\<lparr>call_point := pt\<rparr>) = call_id c" "call_hash (c\<lparr>call_point := pt\<rparr>) = call_hash c" for pt
    by simp_all
  show ?thesis
    using assms(1-3) interrupted_reserve [OF assms(4,2) up(1)] core row r up
    by (cases "ledger_tidy a") (simp_all add: Let_def sample_five call_step_def step_core_def step_finalize_def atomic_after_core_def atomic_after_finalize_def atomic_complete_def
        complete_outcome_def record_completion_def prune_completed_def expired_def retention_secs_def)
qed

definition sample_interrupted :: "(nat, unit) world" where
  "sample_interrupted = run_call sample_codec sample_answers 0 1 (sample_start Atomic 0 (initial_world 3 0))"

definition sample_retry :: "unit call" where
  "sample_retry = (new_call (\<lambda>_. Atomic) sample_request \<lparr>hash_current = ''h1'', hash_legacy = ''h1''\<rparr> Write ''d2'')"

definition sample_retried :: "(nat, unit) world" where
  "sample_retried = sample_interrupted\<lparr>w_calls := (w_calls sample_interrupted)(1 \<mapsto> sample_retry)\<rparr>"

theorem interrupted_change_completes_witness:
  "\<exists>r s row. finalize_result sample_answers = Inr r \<and> to_text sample_codec r = Some s
    \<and> map_option call_point (w_calls (run_call sample_codec sample_answers 1 5 sample_retried) 1) = Some (At_done r False)
    \<and> w_project (run_call sample_codec sample_answers 1 5 sample_retried) = 7
    \<and> w_ledger (run_call sample_codec sample_answers 1 5 sample_retried) ''r1'' = Some row \<and> row_response row = Some s"
proof -
  have i: "interrupted (w_ledger sample_retried) sample_retry"
    by (simp add: interrupted_def sample_retried_def sample_interrupted_def sample_retry_def sample_defs stored_class_def)
  have f: "favourable sample_codec sample_answers sample_retry"
    by (simp add: favourable_def sample_retry_def sample_change_defs)
  have none: "w_canonical sample_retried (call_id sample_retry) = None"
    by (simp add: sample_retried_def sample_interrupted_def sample_defs)
  have "w_calls sample_retried 1 = Some sample_retry" "call_flow sample_retry = Atomic" "call_point sample_retry = At_reserve"
    by (simp_all add: sample_retried_def sample_retry_def new_call_def)
  from interrupted_change_completes [OF this i f] none
  have "\<exists>r s row. finalize_result sample_answers = Inr r \<and> to_text sample_codec r = Some s
    \<and> map_option call_point (w_calls (run_call sample_codec sample_answers 1 5 sample_retried) 1) = Some (At_done r False)
    \<and> w_project (run_call sample_codec sample_answers 1 5 sample_retried) = command_state sample_answers
    \<and> w_ledger (run_call sample_codec sample_answers 1 5 sample_retried) (call_id sample_retry) = Some row \<and> row_response row = Some s"
    by simp
  moreover have "command_state sample_answers = 7" "call_id sample_retry = ''r1''"
    by (simp_all add: sample_answers_def sample_retry_def new_call_def call_id_def sample_request_def)
  ultimately show ?thesis by simp
qed

end
