(* ===== verification/Dump_Text.thy ===== *)
theory Dump_Text
  imports Writer_Fence Revision_Store
begin

text \<open>
  The text of a projection, \<open>crates/exosuit-storage/src/dump.rs\<close>: one \<open>INSERT\<close> statement a line,
  the escapes of its literals, and the reader that takes a line apart again. Positions in a text
  are byte positions; a multi-byte character is copied byte by byte.
\<close>

abbreviation quote :: char where "quote \<equiv> CHR 0x27"
abbreviation backslash :: char where "backslash \<equiv> CHR 0x5C"
abbreviation cr :: char where "cr \<equiv> CHR 0x0D"

section \<open>Writing\<close>

definition escape_char :: "char \<Rightarrow> string" where
  "escape_char c =
     (if c = quote then [quote, quote] else if c = backslash then [backslash, backslash]
      else if c = nl then [backslash, CHR ''n''] else if c = cr then [backslash, CHR ''r''] else [c])"

definition sql_escape :: "string \<Rightarrow> string" where
  "sql_escape s = concat (map escape_char s)"

definition hex_digit :: "nat \<Rightarrow> char" where
  "hex_digit n = (if n < 10 then char_of (48 + n) else char_of (55 + n))"

definition hex_encode :: "string \<Rightarrow> string" where
  "hex_encode bytes = concat (map (\<lambda>b. [hex_digit (byte b div 16), hex_digit (byte b mod 16)]) bytes)"

text \<open>How a floating-point number prints is a parameter, from its bits.\<close>

fun value_to_sql :: "(64 word \<Rightarrow> string) \<Rightarrow> sql_value \<Rightarrow> string" where
  "value_to_sql show_real SqlNull = ''NULL''"
| "value_to_sql show_real (SqlInteger i) = show_int (sint i)"
| "value_to_sql show_real (SqlReal f) = show_real f"
| "value_to_sql show_real (SqlText s) = quote # sql_escape s @ [quote]"
| "value_to_sql show_real (SqlBlob b) = CHR ''X'' # quote # hex_encode b @ [quote]"

type_synonym dump_row = "(string \<times> sql_value) list"

definition row_to_insert :: "(64 word \<Rightarrow> string) \<Rightarrow> string \<Rightarrow> dump_row \<Rightarrow> string" where
  "row_to_insert show_real table row =
     ''INSERT INTO '' @ table @ ''('' @ join_with '', '' (map fst row) @ '') VALUES(''
       @ join_with '', '' (map (value_to_sql show_real \<circ> snd) row) @ '');''"

section \<open>Reading\<close>

datatype parsed_value = PNull | PInteger int | PText string

record parsed_insert =
  parsed_columns :: "string list"
  parsed_values :: "parsed_value list"

datatype parse_error =
    NoColumnsOpen | NoColumnsClose | NoValues | NoValuesClose | Unterminated | InvalidInteger string | Unexpected char
  | CountMismatch nat nat | MissingColumn string | NotAString string | UnknownEntity string

text \<open>The body of a quoted text up to its closing quote: its value and what follows.\<close>

fun scan_text :: "string \<Rightarrow> (string \<times> string) option" where
  "scan_text [] = None"
| "scan_text (c # s) =
     (if c = quote then (case s of
          d # t \<Rightarrow> if d = quote then map_option (apfst (Cons quote)) (scan_text t) else Some ([], s)
        | [] \<Rightarrow> Some ([], s))
      else if c = backslash then (case s of
          d # t \<Rightarrow>
            if d = CHR ''n'' then map_option (apfst (Cons nl)) (scan_text t)
            else if d = CHR ''r'' then map_option (apfst (Cons cr)) (scan_text t)
            else if d = backslash then map_option (apfst (Cons backslash)) (scan_text t)
            else map_option (apfst (Cons backslash)) (scan_text s)
        | [] \<Rightarrow> map_option (apfst (Cons backslash)) (scan_text s))
      else map_option (apfst (Cons c)) (scan_text s))"

lemma scan_text_shorter: "scan_text s = Some (a, t) \<Longrightarrow> length t < length s"
proof (induction s arbitrary: a t rule: length_induct)
  case (1 s)
  then obtain c u where s: "s = c # u" by (cases s) auto
  have rest: "length t < length u" if "scan_text u = Some (x, t)" for x
    using 1 that s by simp
  have later: "length t < length v" if "u = d # v" "scan_text v = Some (x, t)" for d v x
    using 1 that s by simp
  have "scan_text (c # u) = Some (a, t)"
    using 1(2) unfolding s .
  then show ?case
    unfolding s scan_text.simps(2) [of c u]
    by (cases u) (use rest in \<open>auto simp del: scan_text.simps(2) split: if_splits dest!: later intro: less_SucI\<close>)
qed

text \<open>The first closing parenthesis outside quotes; the flag says the reader is inside them.\<close>

fun closing_paren :: "bool \<Rightarrow> string \<Rightarrow> nat option" where
  "closing_paren q [] = None"
| "closing_paren False (c # s) = (if c = CHR '')'' then Some 0 else map_option Suc (closing_paren (c = quote) s))"
| "closing_paren True (c # s) =
     (if c \<noteq> quote then map_option Suc (closing_paren True s)
      else case s of
        d # t \<Rightarrow> if d = quote then map_option (\<lambda>n. n + 2) (closing_paren True t) else map_option Suc (closing_paren False s)
      | [] \<Rightarrow> None)"

definition find_closing_paren :: "string \<Rightarrow> nat option" where
  "find_closing_paren s = closing_paren False s"

definition is_separator :: "char \<Rightarrow> bool" where
  "is_separator c \<longleftrightarrow> c = CHR '' '' \<or> c = CHR '',''"

text \<open>The digits of an integer after its first character, which may be a sign.\<close>

definition integer_text :: "string \<Rightarrow> string \<times> string" where
  "integer_text s = (hd s # takeWhile is_digit (tl s), dropWhile is_digit (tl s))"

lemma length_dropWhile_less: "length t < n \<Longrightarrow> length (dropWhile P t) < n"
  using length_dropWhile_le [of P t] by linarith

function parse_values :: "string \<Rightarrow> parse_error + parsed_value list" where
  "parse_values s =
     (case dropWhile (\<lambda>c. c = CHR '' '') s of
        [] \<Rightarrow> Inr []
      | c # t \<Rightarrow>
          if c = quote then (case scan_text t of
              None \<Rightarrow> Inl Unterminated
            | Some (v, r) \<Rightarrow> map_sum id (Cons (PText v)) (parse_values (dropWhile is_separator r)))
          else if take 4 (c # t) = ''NULL'' then map_sum id (Cons PNull) (parse_values (dropWhile is_separator (drop 4 (c # t))))
          else if c = CHR ''-'' \<or> is_digit c then (case parse_i64 (fst (integer_text (c # t))) of
              None \<Rightarrow> Inl (InvalidInteger (fst (integer_text (c # t))))
            | Some i \<Rightarrow> map_sum id (Cons (PInteger i)) (parse_values (dropWhile is_separator (snd (integer_text (c # t))))))
          else Inl (Unexpected c))"
  by pat_completeness auto

termination
proof (relation "measure length")
  show "wf (measure (length :: string \<Rightarrow> nat))" by simp
next
  fix s t and c :: char and p :: "string \<times> string" and v r
  assume *: "dropWhile (\<lambda>c. c = CHR '' '') s = c # t"
  then have len: "length (c # t) \<le> length s"
    using length_dropWhile_le [of "\<lambda>c. c = CHR '' ''" s] by simp
  {
    assume "scan_text t = Some p" "(v, r) = p"
    then have "length r < length t" using scan_text_shorter by blast
    then show "(dropWhile is_separator r, s) \<in> measure length"
      using len length_dropWhile_less [of r "length s" is_separator] by simp
  }
  show "(dropWhile is_separator (drop 4 (c # t)), s) \<in> measure length"
    using len by (simp add: length_dropWhile_less)
  show "(dropWhile is_separator (snd (integer_text (c # t))), s) \<in> measure length" for i
    using len by (simp add: integer_text_def length_dropWhile_less less_Suc_eq_le length_dropWhile_le)
qed

declare parse_values.simps [simp del]

definition parse_insert :: "string \<Rightarrow> parse_error + parsed_insert" where
  "parse_insert line =
     (case split_once ''('' line of
        None \<Rightarrow> Inl NoColumnsOpen
      | Some (_, after_open) \<Rightarrow> (case split_once '')'' after_open of
          None \<Rightarrow> Inl NoColumnsClose
        | Some (cols, after_cols) \<Rightarrow> (case split_once ''VALUES('' after_cols of
            None \<Rightarrow> Inl NoValues
          | Some (_, vals) \<Rightarrow> (case find_closing_paren vals of
              None \<Rightarrow> Inl NoValuesClose
            | Some n \<Rightarrow> and_then (parse_values (take n vals)) (\<lambda>values.
                let columns = map trim (split_at (CHR '','') cols)
                in if length columns \<noteq> length values then Inl (CountMismatch (length columns) (length values))
                   else Inr \<lparr>parsed_columns = columns, parsed_values = values\<rparr>)))))"

end
