(* ===== verification/Dump.thy ===== *)
theory Dump
  imports Dump_Text
begin

text \<open>
  Writing the database as portable text and reading it into another database,
  \<open>crates/exosuit-storage/src/dump.rs\<close>. A table is the list of its rows in the order SQLite
  returns them, each with its rowid; a row gives a value for every column. The columns each table
  has, the defaults of its columns and what its constraints accept are parameters, as is the text
  of a floating-point number.
\<close>

section \<open>The database\<close>

type_synonym stored_row = "string \<Rightarrow> sql_value"

record dump_env =
  show_real :: "64 word \<Rightarrow> string"
  columns_of :: "string \<Rightarrow> string set"
  default_value :: "string \<Rightarrow> string \<Rightarrow> sql_value"
  accepts :: "string \<Rightarrow> (int \<times> stored_row) list \<Rightarrow> stored_row \<Rightarrow> bool"

record portable_db =
  pdb_rows :: "string \<Rightarrow> (int \<times> stored_row) list"
  pdb_generation :: int

datatype dump_error =
    Dump_sqlite string
  | Dump_fk string string int
  | UnknownEntityType string
  | Dump_compatibility compatibility_error

datatype import_error =
    Import_sqlite string
  | Import_parse string nat parse_error
  | Import_fk string string string

section \<open>What is dumped\<close>

text \<open>A table with its columns, the foreign keys among them with the name they get and the table
  they point to, and the columns the rows are sorted by after the keys are resolved.\<close>

record table_spec =
  spec_table :: string
  spec_columns :: "string list"
  spec_fks :: "(string \<times> string \<times> string) list"
  spec_sort :: "string list"

definition entity_spec :: "string \<Rightarrow> string list \<Rightarrow> (string \<times> string \<times> string) list \<Rightarrow> table_spec" where
  "entity_spec t cols fks = \<lparr>spec_table = t, spec_columns = cols, spec_fks = fks, spec_sort = [''text_id'']\<rparr>"

definition operational_spec :: "string \<Rightarrow> string list \<Rightarrow> table_spec" where
  "operational_spec t cols = \<lparr>spec_table = t, spec_columns = cols, spec_fks = [(''task_id'', ''task_text_id'', ''tasks_data'')],
     spec_sort = [''task_text_id'', ''created_at'']\<rparr>"

definition junction_spec :: "string \<Rightarrow> string list \<Rightarrow> (string \<times> string \<times> string) list \<Rightarrow> string list \<Rightarrow> table_spec" where
  "junction_spec t cols fks keys = \<lparr>spec_table = t, spec_columns = cols, spec_fks = fks, spec_sort = keys\<rparr>"

datatype dump_entry = Table_entry table_spec | Alias_entry

definition dump_entries :: "dump_entry list" where
  "dump_entries =
    [Table_entry (entity_spec ''epochs_data'' [''text_id'', ''title'', ''slug'', ''reviewed'', ''sort_key''] []),
     Table_entry (entity_spec ''phases_data''
       [''text_id'', ''title'', ''status'', ''epoch_id'', ''kind'', ''slug'', ''sort_key'', ''completed_at'']
       [(''epoch_id'', ''epoch_text_id'', ''epochs_data'')]),
     Table_entry (entity_spec ''goals_data''
       [''text_id'', ''label'', ''status'', ''phase_id'', ''kind'', ''rfc'', ''target_stage'', ''started_at'', ''description'',
        ''completion_log'', ''slug'', ''sort_key'']
       [(''phase_id'', ''phase_text_id'', ''phases_data'')]),
     Table_entry (entity_spec ''tasks_data''
       [''text_id'', ''title'', ''status'', ''goal_id'', ''completed_at'', ''completion_log'', ''slug'', ''sort_key'', ''notes'', ''started_at'']
       [(''goal_id'', ''goal_text_id'', ''goals_data'')]),
     Table_entry (entity_spec ''ideas_data'' [''text_id'', ''title'', ''description'', ''status'', ''created_at'', ''source''] []),
     Table_entry (entity_spec ''inbox_data''
       [''text_id'', ''created_at'', ''updated_at'', ''status'', ''entity_type'', ''entity_id'', ''source'', ''intent'', ''priority'',
        ''confidence'', ''agent_id'', ''subject'', ''body'', ''action_json'', ''resolution''] []),
     Table_entry (entity_spec ''rfcs_data''
       [''text_id'', ''rfc_number'', ''title'', ''stage'', ''status'', ''feature'', ''slug'', ''file_path'', ''superseded_by'',
        ''supersedes'', ''withdrawal_reason'', ''archived_reason'', ''consolidated_into'', ''created_at'', ''updated_at''] []),
     Table_entry (entity_spec ''workbench_lanes_data''
       [''text_id'', ''title'', ''intent'', ''state'', ''execution_phase_id'', ''created_at'', ''updated_at'']
       [(''execution_phase_id'', ''execution_phase_text_id'', ''phases_data'')]),
     Table_entry (entity_spec ''axioms'' [''text_id'', ''scope'', ''principle'', ''rationale'', ''notes'', ''created_at''] []),
     Table_entry (operational_spec ''task_logs'' [''task_id'', ''kind'', ''message'', ''created_at'']),
     Table_entry (operational_spec ''task_verifications'' [''task_id'', ''kind'', ''command'', ''result'', ''details'', ''created_at'']),
     Table_entry (junction_spec ''phase_rfcs_data'' [''phase_id'', ''rfc_id'', ''target'', ''relation'']
       [(''phase_id'', ''phase_text_id'', ''phases_data'')] [''phase_text_id'', ''rfc_id'']),
     Alias_entry,
     Table_entry (junction_spec ''axiom_implications'' [''axiom_id'', ''implication'', ''sort_key'']
       [(''axiom_id'', ''axiom_text_id'', ''axioms'')] [''axiom_text_id'', ''sort_key'']),
     Table_entry (junction_spec ''axiom_tags'' [''axiom_id'', ''tag'']
       [(''axiom_id'', ''axiom_text_id'', ''axioms'')] [''axiom_text_id'', ''tag'']),
     Table_entry (junction_spec ''idea_tags'' [''idea_id'', ''tag'']
       [(''idea_id'', ''idea_text_id'', ''ideas_data'')] [''idea_text_id'', ''tag'']),
     Table_entry (junction_spec ''idea_task_refs'' [''idea_id'', ''task_ref'']
       [(''idea_id'', ''idea_text_id'', ''ideas_data'')] [''idea_text_id'', ''task_ref'']),
     Table_entry (junction_spec ''rfc_relations'' [''rfc_id'', ''related_rfc'', ''relation'']
       [(''rfc_id'', ''rfc_text_id'', ''rfcs_data'')] [''rfc_text_id'', ''related_rfc'', ''relation''])]"

section \<open>Rows\<close>

definition as_text :: "sql_value \<Rightarrow> string option" where
  "as_text v = (case v of SqlText s \<Rightarrow> Some s | _ \<Rightarrow> None)"

text \<open>The text ids of a table by rowid; a row without a textual one is an error.\<close>

definition build_text_id_map :: "dump_env \<Rightarrow> portable_db \<Rightarrow> string \<Rightarrow> dump_error + (int \<rightharpoonup> string)" where
  "build_text_id_map E d t =
     (if ''text_id'' \<in> columns_of E t \<and> list_all (\<lambda>(_, row). as_text (row ''text_id'') \<noteq> None) (pdb_rows d t)
      then Inr (map_of (map (\<lambda>(i, row). (i, the (as_text (row ''text_id'')))) (pdb_rows d t)))
      else Inl (Dump_sqlite t))"

definition read_rows :: "dump_env \<Rightarrow> portable_db \<Rightarrow> string \<Rightarrow> string list \<Rightarrow> dump_error + dump_row list" where
  "read_rows E d t cols =
     (if set cols \<subseteq> columns_of E t then Inr (map (\<lambda>(_, row). map (\<lambda>c. (c, row c)) cols) (pdb_rows d t))
      else Inl (Dump_sqlite t))"

type_synonym id_maps = "string \<rightharpoonup> (int \<rightharpoonup> string)"

definition resolve_fk :: "(int \<rightharpoonup> string) \<Rightarrow> string \<Rightarrow> string \<Rightarrow> int \<Rightarrow> dump_error + string" where
  "resolve_fk m t c rowid = (case m rowid of None \<Rightarrow> Inl (Dump_fk t c rowid) | Some s \<Rightarrow> Inr s)"

text \<open>One foreign key: the first entry with the old name gets the new name and the text id. An
  entry that is neither an integer nor null stays.\<close>

fun resolve_entry :: "(int \<rightharpoonup> string) \<Rightarrow> string \<Rightarrow> string \<Rightarrow> string \<Rightarrow> dump_row \<Rightarrow> dump_error + dump_row" where
  "resolve_entry m t old new [] = Inr []"
| "resolve_entry m t old new ((c, v) # row) =
     (if c \<noteq> old then map_sum id (Cons (c, v)) (resolve_entry m t old new row)
      else case v of
        SqlInteger i \<Rightarrow> map_sum id (\<lambda>s. (new, SqlText s) # row) (resolve_fk m t old (sint i))
      | SqlNull \<Rightarrow> Inr ((new, v) # row)
      | _ \<Rightarrow> Inr ((c, v) # row))"

fun resolve_row_fks :: "id_maps \<Rightarrow> string \<Rightarrow> (string \<times> string \<times> string) list \<Rightarrow> dump_row \<Rightarrow> dump_error + dump_row" where
  "resolve_row_fks M t [] row = Inr row"
| "resolve_row_fks M t ((old, new, target) # fks) row =
     and_then (resolve_entry (case M target of None \<Rightarrow> Map.empty | Some m \<Rightarrow> m) t old new row) (resolve_row_fks M t fks)"

fun map_result :: "('a \<Rightarrow> 'e + 'b) \<Rightarrow> 'a list \<Rightarrow> 'e + 'b list" where
  "map_result f [] = Inr []"
| "map_result f (x # xs) = and_then (f x) (\<lambda>y. map_sum id (Cons y) (map_result f xs))"

definition sort_key_from_row :: "dump_env \<Rightarrow> string \<Rightarrow> dump_row \<Rightarrow> string" where
  "sort_key_from_row E c row =
     (case map_of row c of
        None \<Rightarrow> []
      | Some (SqlText s) \<Rightarrow> s
      | Some (SqlInteger i) \<Rightarrow> show_int (sint i)
      | Some SqlNull \<Rightarrow> []
      | Some v \<Rightarrow> value_to_sql (show_real E) v)"

definition sort_rows :: "dump_env \<Rightarrow> string list \<Rightarrow> dump_row list \<Rightarrow> dump_row list" where
  "sort_rows E keys = sort_key (\<lambda>row. map (\<lambda>c. sort_key_from_row E c row) keys)"

definition rows_text :: "dump_env \<Rightarrow> string \<Rightarrow> dump_row list \<Rightarrow> string" where
  "rows_text E t rows = concat (map (\<lambda>row. row_to_insert (show_real E) t row @ [nl]) rows)"

definition dumped_rows :: "dump_env \<Rightarrow> portable_db \<Rightarrow> id_maps \<Rightarrow> table_spec \<Rightarrow> dump_error + dump_row list" where
  "dumped_rows E d M sp =
     and_then (read_rows E d (spec_table sp) (spec_columns sp)) (\<lambda>rows.
     and_then (map_result (resolve_row_fks M (spec_table sp) (spec_fks sp)) rows) (\<lambda>rows.
     Inr (sort_rows E (spec_sort sp) rows)))"

definition entity_type_table :: "string \<Rightarrow> string option" where
  "entity_type_table s =
     (if s = ''epoch'' then Some ''epochs_data'' else if s = ''phase'' then Some ''phases_data''
      else if s = ''goal'' then Some ''goals_data'' else if s = ''task'' then Some ''tasks_data'' else None)"

text \<open>A malformed or orphaned alias is skipped; an unknown entity type stops the dump.\<close>

definition resolve_alias :: "id_maps \<Rightarrow> stored_row \<Rightarrow> dump_error + dump_row list" where
  "resolve_alias M row =
     (case row ''entity_type'' of
        SqlText ty \<Rightarrow> (case row ''entity_id'' of
            SqlInteger i \<Rightarrow> (case entity_type_table ty of
                None \<Rightarrow> Inl (UnknownEntityType ty)
              | Some t \<Rightarrow> (case (case M t of None \<Rightarrow> Map.empty | Some m \<Rightarrow> m) (sint i) of
                  None \<Rightarrow> Inr []
                | Some s \<Rightarrow> Inr [[(''entity_type'', SqlText ty), (''entity_text_id'', SqlText s), (''alias'', row ''alias'')]]))
          | _ \<Rightarrow> Inr [])
      | _ \<Rightarrow> Inr [])"

definition dumped_aliases :: "dump_env \<Rightarrow> portable_db \<Rightarrow> id_maps \<Rightarrow> dump_error + dump_row list" where
  "dumped_aliases E d M =
     (if {''entity_type'', ''entity_id'', ''alias''} \<subseteq> columns_of E ''entity_aliases''
      then map_sum id (sort_rows E [''entity_type'', ''alias''] \<circ> concat)
             (map_result (resolve_alias M \<circ> snd) (pdb_rows d ''entity_aliases''))
      else Inl (Dump_sqlite ''entity_aliases''))"

section \<open>Dumping\<close>

definition mapped_tables :: "string list" where
  "mapped_tables = [''epochs_data'', ''phases_data'', ''goals_data'', ''tasks_data'', ''ideas_data'', ''axioms'', ''rfcs_data'']"

definition build_id_maps :: "dump_env \<Rightarrow> portable_db \<Rightarrow> dump_error + id_maps" where
  "build_id_maps E d =
     map_sum id map_of (map_result (\<lambda>t. map_sum id (Pair t) (build_text_id_map E d t)) mapped_tables)"

definition entry_table :: "dump_entry \<Rightarrow> string" where
  "entry_table e = (case e of Table_entry sp \<Rightarrow> spec_table sp | Alias_entry \<Rightarrow> ''entity_aliases'')"

definition entry_rows :: "dump_env \<Rightarrow> portable_db \<Rightarrow> id_maps \<Rightarrow> dump_entry \<Rightarrow> dump_error + dump_row list" where
  "entry_rows E d M e = (case e of Table_entry sp \<Rightarrow> dumped_rows E d M sp | Alias_entry \<Rightarrow> dumped_aliases E d M)"

definition dump_entry_text :: "dump_env \<Rightarrow> portable_db \<Rightarrow> id_maps \<Rightarrow> dump_entry \<Rightarrow> dump_error + string \<times> string" where
  "dump_entry_text E d M e =
     and_then (entry_rows E d M e) (\<lambda>rows.
       if entry_table e = ''epochs_data''
       then (case with_projection_generation (rows_text E ''epochs_data'' rows) (pdb_generation d) of
           Inl err \<Rightarrow> Inl (Dump_compatibility err)
         | Inr s \<Rightarrow> Inr (''epochs_data'', s))
       else Inr (entry_table e, rows_text E (entry_table e) rows))"

definition dump_tables :: "dump_env \<Rightarrow> portable_db \<Rightarrow> dump_error + (string \<times> string) list" where
  "dump_tables E d = and_then (build_id_maps E d) (\<lambda>M. map_result (dump_entry_text E d M) dump_entries)"

section \<open>Importing\<close>

type_synonym rowid_maps = "string \<rightharpoonup> (string \<rightharpoonup> int)"

definition entity_fk_mappings :: "(string \<times> string \<times> string) list" where
  "entity_fk_mappings =
    [(''epoch_text_id'', ''epoch_id'', ''epochs_data''), (''phase_text_id'', ''phase_id'', ''phases_data''),
     (''goal_text_id'', ''goal_id'', ''goals_data''), (''task_text_id'', ''task_id'', ''tasks_data''),
     (''idea_text_id'', ''idea_id'', ''ideas_data''), (''axiom_text_id'', ''axiom_id'', ''axioms''),
     (''execution_phase_text_id'', ''execution_phase_id'', ''phases_data'')]"

definition has_text_id_column :: "string \<Rightarrow> bool" where
  "has_text_id_column t \<longleftrightarrow> t \<in> {''epochs_data'', ''phases_data'', ''goals_data'', ''tasks_data'', ''ideas_data'', ''inbox_data'',
     ''rfcs_data'', ''workbench_lanes_data'', ''axioms''}"

fun stored_value :: "parsed_value \<Rightarrow> sql_value" where
  "stored_value PNull = SqlNull"
| "stored_value (PInteger i) = SqlInteger (of_int i)"
| "stored_value (PText s) = SqlText s"

definition next_rowid :: "(int \<times> 'r) list \<Rightarrow> int" where
  "next_rowid rows = (if rows = [] then 1 else Max (fst ` set rows) + 1)"

definition execute_insert ::
  "dump_env \<Rightarrow> string \<Rightarrow> string list \<Rightarrow> parsed_value list \<Rightarrow> portable_db \<Rightarrow> import_error + portable_db" where
  "execute_insert E t cols vals d =
     (let rows = pdb_rows d t;
          row = (\<lambda>c. case map_of (zip cols vals) c of Some v \<Rightarrow> stored_value v | None \<Rightarrow> default_value E t c)
      in if set cols \<subseteq> columns_of E t \<and> next_rowid rows < 2 ^ 63 \<and> accepts E t rows row
         then Inr (d\<lparr>pdb_rows := (pdb_rows d)(t := rows @ [(next_rowid rows, row)])\<rparr>)
         else Inl (Import_sqlite t))"

definition lookup_rowid :: "rowid_maps \<Rightarrow> string \<Rightarrow> string \<Rightarrow> string \<Rightarrow> string \<Rightarrow> import_error + int" where
  "lookup_rowid R t c target s =
     (case R target of
        None \<Rightarrow> Inl (Import_fk t c s)
      | Some m \<Rightarrow> (case m s of None \<Rightarrow> Inl (Import_fk t c s) | Some i \<Rightarrow> Inr i))"

definition real_column :: "rowid_maps \<Rightarrow> string \<Rightarrow> string \<times> parsed_value \<Rightarrow> import_error + string \<times> parsed_value" where
  "real_column R t = (\<lambda>(c, v).
     case map_of entity_fk_mappings c of
       None \<Rightarrow> Inr (c, v)
     | Some (real, target) \<Rightarrow> (case v of
         PText s \<Rightarrow> map_sum id (\<lambda>i. (real, PInteger i)) (lookup_rowid R t c target s)
       | _ \<Rightarrow> Inr (real, v)))"

definition import_regular_row :: "dump_env \<Rightarrow> rowid_maps \<Rightarrow> string \<Rightarrow> parsed_insert \<Rightarrow> portable_db \<Rightarrow> import_error + portable_db" where
  "import_regular_row E R t p d =
     and_then (map_result (real_column R t) (zip (parsed_columns p) (parsed_values p))) (\<lambda>cvs.
       execute_insert E t (map fst cvs) (map snd cvs) d)"

definition parsed_text :: "parsed_insert \<Rightarrow> string \<Rightarrow> import_error + string" where
  "parsed_text p c =
     (case map_of (zip (parsed_columns p) (parsed_values p)) c of
        None \<Rightarrow> Inl (Import_parse ''entity_aliases'' 0 (MissingColumn c))
      | Some (PText s) \<Rightarrow> Inr s
      | Some _ \<Rightarrow> Inl (Import_parse ''entity_aliases'' 0 (NotAString c)))"

definition import_entity_alias_row :: "dump_env \<Rightarrow> rowid_maps \<Rightarrow> parsed_insert \<Rightarrow> portable_db \<Rightarrow> import_error + portable_db" where
  "import_entity_alias_row E R p d =
     (if ''entity_type'' \<notin> set (parsed_columns p) then Inl (Import_parse ''entity_aliases'' 0 (MissingColumn ''entity_type''))
      else if ''entity_text_id'' \<notin> set (parsed_columns p) then Inl (Import_parse ''entity_aliases'' 0 (MissingColumn ''entity_text_id''))
      else and_then (parsed_text p ''entity_type'') (\<lambda>ty.
           and_then (parsed_text p ''entity_text_id'') (\<lambda>s.
             case entity_type_table ty of
               None \<Rightarrow> Inl (Import_parse ''entity_aliases'' 0 (UnknownEntity ty))
             | Some target \<Rightarrow> and_then (lookup_rowid R ''entity_aliases'' ''entity_text_id'' target s) (\<lambda>i.
                 let cvs = map (\<lambda>(c, v). if c = ''entity_text_id'' then (''entity_id'', PInteger i) else (c, v))
                             (zip (parsed_columns p) (parsed_values p))
                 in execute_insert E ''entity_aliases'' (map fst cvs) (map snd cvs) d))))"

definition import_line :: "dump_env \<Rightarrow> rowid_maps \<Rightarrow> string \<Rightarrow> nat \<Rightarrow> string \<Rightarrow> portable_db \<Rightarrow> import_error + portable_db" where
  "import_line E R t n l d =
     (let line = trim l
      in if line = [] \<or> starts_with line ''--'' then Inr d
         else case parse_insert line of
           Inl e \<Rightarrow> Inl (Import_parse t n e)
         | Inr p \<Rightarrow> if t = ''entity_aliases'' then import_entity_alias_row E R p d else import_regular_row E R t p d)"

fun import_lines :: "dump_env \<Rightarrow> rowid_maps \<Rightarrow> string \<Rightarrow> nat \<Rightarrow> string list \<Rightarrow> portable_db \<Rightarrow> import_error + portable_db" where
  "import_lines E R t n [] d = Inr d"
| "import_lines E R t n (l # ls) d = and_then (import_line E R t n l d) (import_lines E R t (Suc n) ls)"

definition build_reverse_text_id_map :: "portable_db \<Rightarrow> string \<Rightarrow> import_error + (string \<rightharpoonup> int)" where
  "build_reverse_text_id_map d t =
     (if list_all (\<lambda>(_, row). as_text (row ''text_id'') \<noteq> None) (pdb_rows d t)
      then Inr (map_of (rev (map (\<lambda>(i, row). (the (as_text (row ''text_id'')), i)) (pdb_rows d t))))
      else Inl (Import_sqlite t))"

definition import_single_table :: "dump_env \<Rightarrow> string \<Rightarrow> string \<Rightarrow> portable_db \<times> rowid_maps \<Rightarrow> import_error + portable_db \<times> rowid_maps" where
  "import_single_table E t txt = (\<lambda>(d, R).
     and_then (import_lines E R t 1 (text_lines txt) d) (\<lambda>d'.
       if has_text_id_column t then map_sum id (\<lambda>m. (d', R(t \<mapsto> m))) (build_reverse_text_id_map d' t) else Inr (d', R)))"

fun import_all :: "dump_env \<Rightarrow> (string \<times> string) list \<Rightarrow> portable_db \<times> rowid_maps \<Rightarrow> import_error + portable_db \<times> rowid_maps" where
  "import_all E [] s = Inr s"
| "import_all E ((t, txt) # dumps) s =
     (if is_blank txt then import_all E dumps s else and_then (import_single_table E t txt s) (import_all E dumps))"

definition import_tables :: "dump_env \<Rightarrow> (string \<times> string) list \<Rightarrow> portable_db \<Rightarrow> import_error + portable_db" where
  "import_tables E dumps d = map_sum id fst (import_all E dumps (d, Map.empty))"

end
