(* ===== verification/Dump_Text_Facts.thy ===== *)
theory Dump_Text_Facts
  imports Dump_Text
begin

text \<open>A statement that is written is read back: escapes, values, columns and whole lines.\<close>

section \<open>Escaped texts\<close>

lemma sql_escape_simps [simp]: "sql_escape [] = []" "sql_escape (c # s) = escape_char c @ sql_escape s"
  by (simp_all add: sql_escape_def)

abbreviation no_quote :: "string \<Rightarrow> bool" where
  "no_quote r \<equiv> (case r of [] \<Rightarrow> True | c # _ \<Rightarrow> c \<noteq> quote)"

lemma scan_escaped: "no_quote r \<Longrightarrow> scan_text (sql_escape t @ quote # r) = Some (t, r)"
proof (induction t)
  case Nil
  then show ?case by (cases r) auto
next
  case (Cons c t)
  then show ?case by (auto simp: escape_char_def)
qed

lemma closing_escaped:
  "no_quote r \<Longrightarrow> closing_paren True (sql_escape t @ quote # r) = map_option (\<lambda>n. n + length (sql_escape t) + 1) (closing_paren False r)"
proof (induction t)
  case Nil
  then show ?case by (cases r) (simp_all add: map_option_case)
next
  case (Cons c t)
  then show ?case
    by (cases "closing_paren False r") (auto simp: escape_char_def)
qed

section \<open>Values\<close>

fun parsed_of :: "sql_value \<Rightarrow> parsed_value option" where
  "parsed_of SqlNull = Some PNull"
| "parsed_of (SqlInteger i) = Some (PInteger (sint i))"
| "parsed_of (SqlText s) = Some (PText s)"
| "parsed_of _ = None"

definition plain_value :: "sql_value \<Rightarrow> bool" where
  "plain_value v \<longleftrightarrow> parsed_of v \<noteq> None"

lemma show_int_digits:
  obtains "show_int i = CHR ''-'' # show_nat (nat (- i))" | c t where "show_int i = c # t" "is_digit c" "list_all is_digit t"
proof (cases "i < 0")
  case True
  then show ?thesis using that(1) by (simp add: show_int_def)
next
  case False
  then show ?thesis
    using that(2) show_nat_digits [of "nat i"] by (cases "show_nat (nat i)") (auto simp: show_int_def)
qed

lemma digit_not: "is_digit c \<Longrightarrow> c \<noteq> quote \<and> c \<noteq> CHR '')'' \<and> c \<noteq> CHR '' '' \<and> c \<noteq> CHR '','' \<and> c \<noteq> CHR ''-'' \<and> c \<noteq> CHR ''N''"
  by (auto simp: is_digit_def)

lemma closing_digits:
  "list_all is_digit t \<Longrightarrow> closing_paren False (t @ r) = map_option (\<lambda>n. n + length t) (closing_paren False r)"
  by (induction t) (auto simp: digit_not option.map_comp comp_def option.map_ident)

lemma closing_int: "closing_paren False (show_int i @ r) = map_option (\<lambda>n. n + length (show_int i)) (closing_paren False r)"
  by (cases i rule: show_int_digits)
     (use show_nat_digits [of "nat (- i)"] in \<open>auto simp: closing_digits digit_not option.map_comp comp_def\<close>)

lemma closing_value:
  assumes "plain_value v" "no_quote r"
  shows "closing_paren False (value_to_sql sr v @ r) = map_option (\<lambda>n. n + length (value_to_sql sr v)) (closing_paren False r)"
  using assms
  by (cases v) (auto simp: plain_value_def closing_int closing_escaped option.map_comp comp_def)

lemma take_while_digits: "list_all is_digit t \<Longrightarrow> r = [] \<or> \<not> is_digit (hd r) \<Longrightarrow> takeWhile is_digit (t @ r) = t \<and> dropWhile is_digit (t @ r) = r"
  by (induction t) (cases r; auto)+

lemma integer_text_int:
  assumes "r = [] \<or> \<not> is_digit (hd r)"
  shows "integer_text (show_int i @ r) = (show_int i, r)"
  by (cases i rule: show_int_digits)
     (use assms show_nat_digits [of "nat (- i)"] take_while_digits in \<open>auto simp: integer_text_def\<close>)

lemma parse_sint: "parse_i64 (show_int (sint (i :: 64 word))) = Some (sint i)"
  using sint_ge [of i] sint_lt [of i] by (intro parse_show_int) auto

lemma parse_value:
  assumes "parsed_of v = Some p" "r = [] \<or> hd r = CHR '',''"
  shows "parse_values (value_to_sql sr v @ r) = map_sum id (Cons p) (parse_values (dropWhile is_separator r))"
proof (cases v)
  case SqlNull
  then show ?thesis using assms by (subst parse_values.simps) (auto simp: eval_nat_numeral)
next
  case (SqlInteger i)
  have sep: "r = [] \<or> \<not> is_digit (hd r)" using assms(2) by (auto simp: is_digit_def)
  obtain c t where ct: "show_int (sint i) = c # t" "c = CHR ''-'' \<or> is_digit c"
    by (cases "sint i" rule: show_int_digits) auto
  then have c: "c \<noteq> CHR '' ''" "c \<noteq> quote" "c \<noteq> CHR ''N''" by (auto dest: digit_not)
  have it: "integer_text (c # t @ r) = (c # t, r)"
    using integer_text_int [OF sep, of "sint i"] ct(1) by simp
  show ?thesis
    using SqlInteger assms(1) ct c it parse_sint [of i] by (subst parse_values.simps) auto
next
  case (SqlText t)
  have "no_quote r" using assms(2) by (cases r) auto
  then show ?thesis
    using SqlText assms(1) by (subst parse_values.simps) (simp add: scan_escaped)
qed (use assms(1) in auto)

lemma join_cons: "ss \<noteq> [] \<Longrightarrow> join_with sep (s # ss) = s @ sep @ join_with sep ss"
  by (cases ss) auto

lemma value_head: "plain_value v \<Longrightarrow> \<exists>c t. value_to_sql sr v = c # t \<and> \<not> is_separator c"
proof (cases v)
  case (SqlInteger i)
  then show ?thesis
    by (cases "sint i" rule: show_int_digits) (auto simp: is_separator_def dest: digit_not)
qed (auto simp: plain_value_def is_separator_def)

lemma parse_joined:
  "list_all plain_value vs \<Longrightarrow> parse_values (join_with '', '' (map (value_to_sql sr) vs)) = Inr (map (the \<circ> parsed_of) vs)"
proof (induction vs)
  case Nil
  show ?case by (subst parse_values.simps) simp
next
  case (Cons v vs)
  then obtain p where p: "parsed_of v = Some p" by (auto simp: plain_value_def)
  show ?case
  proof (cases vs)
    case Nil
    then show ?thesis
      using parse_value [OF p, of "[]" sr] Cons p by simp
  next
    case (Cons w ws)
    then obtain c t where "value_to_sql sr w = c # t" "\<not> is_separator c"
      using value_head \<open>list_all plain_value (v # vs)\<close> by fastforce
    then have "dropWhile is_separator ('', '' @ join_with '', '' (map (value_to_sql sr) vs)) = join_with '', '' (map (value_to_sql sr) vs)"
      using Cons by (cases ws) (simp_all add: is_separator_def)
    then show ?thesis
      using parse_value [OF p, of "'', '' @ join_with '', '' (map (value_to_sql sr) vs)" sr] Cons Cons.IH \<open>list_all plain_value (v # vs)\<close> p
      by (simp add: join_cons)
  qed
qed

lemma closing_joined:
  assumes "list_all plain_value vs"
  shows "find_closing_paren (join_with '', '' (map (value_to_sql sr) vs) @ CHR '')'' # r)
    = Some (length (join_with '', '' (map (value_to_sql sr) vs)))"
  using assms
proof (induction vs)
  case (Cons v vs)
  show ?case
  proof (cases vs)
    case Nil
    then show ?thesis using Cons by (simp add: find_closing_paren_def closing_value)
  next
    case (Cons w ws)
    then show ?thesis
      using Cons.IH \<open>list_all plain_value (v # vs)\<close> by (simp add: find_closing_paren_def closing_value join_cons)
  qed
qed (simp add: find_closing_paren_def)

section \<open>Lines\<close>

definition name_char :: "char \<Rightarrow> bool" where
  "name_char c \<longleftrightarrow> 97 \<le> byte c \<and> byte c \<le> 122 \<or> c = CHR ''_''"

definition plain_name :: "string \<Rightarrow> bool" where
  "plain_name s \<longleftrightarrow> s \<noteq> [] \<and> list_all name_char s"

definition visible :: "char \<Rightarrow> bool" where
  "visible c \<longleftrightarrow> 33 \<le> byte c \<and> byte c \<le> 126"

lemma space_len_visible: "visible (hd s) \<Longrightarrow> s \<noteq> [] \<Longrightarrow> space_len s = 0"
  by (cases s) (auto simp: space_len_def visible_def split: list.splits)

lemma trim_visible:
  assumes "s \<noteq> []" "visible (hd s)" "visible (last s)" "2 \<le> length s \<longrightarrow> visible (s ! (length s - 2))"
    "3 \<le> length s \<longrightarrow> visible (s ! (length s - 3))"
  shows "trim s = s"
proof -
  have hd: "hd (drop (length s - n) s) = s ! (length s - n)" if "1 \<le> n" "n \<le> length s" for n
    using that by (intro hd_drop_conv_nth) auto
  have "space_len (drop (length s - n) s) = 0" if "n \<in> {1, 2, 3}" "n \<le> length s" for n
    using that hd [of n] assms by (intro space_len_visible) (auto simp: last_conv_nth)
  then have "space_len_end s = 0"
    using assms(1) by (auto simp: space_len_end_def Suc_le_eq)
  then show ?thesis
    using assms(1,2) by (simp add: trim_def trim_start.simps [of s] trim_end.simps [of s] space_len_visible)
qed

lemma trim_all_visible: "s \<noteq> [] \<Longrightarrow> list_all visible s \<Longrightarrow> trim s = s"
  by (rule trim_visible) (auto simp: list_all_length hd_conv_nth last_conv_nth)

lemma trim_space: "s \<noteq> [] \<Longrightarrow> list_all visible s \<Longrightarrow> trim (CHR '' '' # s) = s"
proof -
  assume s: "s \<noteq> []" "list_all visible s"
  have "space_len (CHR '' '' # s) = 1"
    by (simp add: space_len_def split: list.splits)
  then show ?thesis
    using trim_all_visible [OF s] by (simp add: trim_def trim_start.simps [of "CHR '' '' # s"])
qed

lemma name_char_visible: "name_char c \<Longrightarrow> visible c \<and> c \<noteq> CHR '','' \<and> c \<noteq> CHR '')'' \<and> c \<noteq> CHR ''('' \<and> c \<noteq> nl"
  by (auto simp: name_char_def visible_def)

lemma plain_name_visible: "plain_name s \<Longrightarrow> s \<noteq> [] \<and> list_all visible s"
  using name_char_visible by (auto simp: plain_name_def list_all_iff)

lemma split_at_none: "d \<notin> set s \<Longrightarrow> split_at d s = [s]"
  by (induction s) auto

lemma split_at_append: "d \<notin> set s \<Longrightarrow> split_at d (s @ d # t) = s # split_at d t"
  by (induction s) auto

lemma split_columns:
  "list_all plain_name cs \<Longrightarrow> cs \<noteq> [] \<Longrightarrow> map trim (split_at (CHR '','') (join_with '', '' cs)) = cs
     \<and> map trim (split_at (CHR '','') (CHR '' '' # join_with '', '' cs)) = cs"
proof (induction cs)
  case (Cons c cs)
  have c: "plain_name c" "CHR '','' \<notin> set c" "CHR '','' \<notin> set (CHR '' '' # c)"
    using Cons(2) name_char_visible by (auto simp: plain_name_def list_all_iff)
  have t: "trim c = c" "trim (CHR '' '' # c) = c"
    using plain_name_visible [OF c(1)] trim_all_visible trim_space by blast+
  show ?case
  proof (cases cs)
    case Nil
    then show ?thesis
      using split_at_none [OF c(2)] split_at_none [OF c(3)] t by simp
  next
    case (Cons e es)
    then have "join_with '', '' (c # cs) = c @ CHR '','' # CHR '' '' # join_with '', '' cs"
      by (simp add: join_cons)
    then show ?thesis
      using Cons.IH Cons Cons.prems split_at_append [OF c(2), of "CHR '' '' # join_with '', '' cs"]
        split_at_append [OF c(3), of "CHR '' '' # join_with '', '' cs"] t by simp
  qed
qed simp

lemma set_join: "set (join_with sep ss) \<subseteq> (\<Union>s\<in>set ss. set s) \<union> set sep"
  by (induction ss rule: join_with.induct) auto

lemma parse_row:
  assumes "list_all name_char t" "row \<noteq> []" "list_all plain_name (map fst row)" "list_all plain_value (map snd row)"
  shows "parse_insert (row_to_insert sr t row) =
    Inr \<lparr>parsed_columns = map fst row, parsed_values = map (the \<circ> parsed_of) (map snd row)\<rparr>"
proof -
  let ?cols = "join_with '', '' (map fst row)" and ?vals = "join_with '', '' (map (value_to_sql sr) (map snd row))"
  have line: "row_to_insert sr t row = (''INSERT INTO '' @ t) @ CHR ''('' # (?cols @ CHR '')'' # '' VALUES('' @ ?vals @ CHR '')'' # '';'')"
    by (simp add: row_to_insert_def)
  have "CHR ''('' \<notin> set (''INSERT INTO '' @ t)"
    using assms(1) name_char_visible by (auto simp: list_all_iff)
  then have one: "split_once ''('' (row_to_insert sr t row) = Some (''INSERT INTO '' @ t, ?cols @ CHR '')'' # '' VALUES('' @ ?vals @ CHR '')'' # '';'')"
    unfolding line by (rule split_once_char)
  have "CHR '')'' \<notin> (\<Union>s\<in>set (map fst row). set s)"
    using assms(3) name_char_visible by (fastforce simp: list_all_iff plain_name_def)
  then have "CHR '')'' \<notin> set ?cols"
    using set_join [of "'', ''" "map fst row"] by auto
  then have two: "split_once '')'' (?cols @ CHR '')'' # '' VALUES('' @ ?vals @ CHR '')'' # '';'')
      = Some (?cols, '' VALUES('' @ ?vals @ CHR '')'' # '';'')"
    by (rule split_once_char)
  have three: "split_once ''VALUES('' ('' VALUES('' @ ?vals @ CHR '')'' # '';'') = Some ('' '', ?vals @ CHR '')'' # '';'')"
    by (simp add: strip_prefix_def)
  have vals: "find_closing_paren (?vals @ CHR '')'' # '';'') = Some (length ?vals)"
    by (rule closing_joined [OF assms(4)])
  have "parse_insert (row_to_insert sr t row) = and_then (parse_values (take (length ?vals) (?vals @ CHR '')'' # '';''))) (\<lambda>values.
      let columns = map trim (split_at (CHR '','') ?cols)
      in if length columns \<noteq> length values then Inl (CountMismatch (length columns) (length values))
         else Inr \<lparr>parsed_columns = columns, parsed_values = values\<rparr>)"
    by (simp only: parse_insert_def one two three vals option.case prod.case)
  then show ?thesis
    using parse_joined [OF assms(4), of sr] split_columns [OF assms(3)] assms(2) by simp
qed

end
