(* ===== verification/Dump_Rows.thy ===== *)
theory Dump_Rows
  imports Dump Dump_Text_Facts
begin

text \<open>
  One dumped row and its import: the row that is inserted is dumped as the same line again, when
  the rowids the import looks up belong to the text ids the line names.
\<close>

section \<open>Well-formed tables\<close>

definition good_spec :: "table_spec \<Rightarrow> bool" where
  "good_spec sp \<longleftrightarrow>
     list_all name_char (spec_table sp) \<and> spec_table sp \<noteq> ''entity_aliases''
     \<and> spec_columns sp \<noteq> [] \<and> distinct (spec_columns sp) \<and> list_all plain_name (spec_columns sp)
     \<and> list_all (\<lambda>c. map_of entity_fk_mappings c = None) (spec_columns sp)
     \<and> (has_text_id_column (spec_table sp) \<longrightarrow> ''text_id'' \<in> set (spec_columns sp) \<and> (\<forall>fk \<in> set (spec_fks sp). fst fk \<noteq> ''text_id''))
     \<and> (case spec_fks sp of
          [] \<Rightarrow> True
        | [(old, new, target)] \<Rightarrow> old \<in> set (spec_columns sp) \<and> new \<notin> set (spec_columns sp) \<and> plain_name new \<and> new \<noteq> ''text_id''
            \<and> map_of entity_fk_mappings new = Some (old, target) \<and> target \<in> set mapped_tables \<and> target \<noteq> spec_table sp
        | _ \<Rightarrow> False)"

definition good_entry :: "dump_entry \<Rightarrow> bool" where
  "good_entry e \<longleftrightarrow> (case e of Table_entry sp \<Rightarrow> good_spec sp | Alias_entry \<Rightarrow> True)"

lemmas spec_defs = entity_spec_def operational_spec_def junction_spec_def

lemma good_entries: "list_all good_entry (butlast dump_entries)"
  by (simp add: dump_entries_def good_entry_def good_spec_def spec_defs name_char_def plain_name_def entity_fk_mappings_def
      has_text_id_column_def mapped_tables_def)

section \<open>The dump of a row\<close>

definition row_dump :: "dump_entry \<Rightarrow> id_maps \<Rightarrow> stored_row \<Rightarrow> dump_error + dump_row list" where
  "row_dump e M row = (case e of
       Table_entry sp \<Rightarrow> map_sum id (\<lambda>r. [r]) (resolve_row_fks M (spec_table sp) (spec_fks sp) (map (\<lambda>c. (c, row c)) (spec_columns sp)))
     | Alias_entry \<Rightarrow> resolve_alias M row)"

definition entry_sort :: "dump_entry \<Rightarrow> string list" where
  "entry_sort e = (case e of Table_entry sp \<Rightarrow> spec_sort sp | Alias_entry \<Rightarrow> [''entity_type'', ''alias''])"

definition entry_columns :: "dump_entry \<Rightarrow> string set" where
  "entry_columns e = (case e of Table_entry sp \<Rightarrow> set (spec_columns sp) | Alias_entry \<Rightarrow> {''entity_type'', ''entity_id'', ''alias''})"

lemma map_result_map: "map_result f (map g xs) = map_result (f \<circ> g) xs"
  by (induction xs) simp_all

lemma map_result_single: "map_result (\<lambda>x. map_sum id (\<lambda>r. [r]) (f x)) xs = map_sum id (map (\<lambda>r. [r])) (map_result f xs)"
proof (induction xs)
  case (Cons x xs)
  then show ?case by (cases "f x"; cases "map_result f xs") auto
qed simp

lemma concat_singles [simp]: "concat (map (\<lambda>r. [r]) xs) = xs"
  by (induction xs) simp_all

lemma entry_rows_eq:
  "entry_rows E d M e =
     (if entry_columns e \<subseteq> columns_of E (entry_table e)
      then map_sum id (sort_rows E (entry_sort e) \<circ> concat) (map_result (row_dump e M \<circ> snd) (pdb_rows d (entry_table e)))
      else Inl (Dump_sqlite (entry_table e)))"
proof (cases e)
  case (Table_entry sp)
  let ?f = "\<lambda>x. resolve_row_fks M (spec_table sp) (spec_fks sp) (map (\<lambda>c. (c, snd x c)) (spec_columns sp))"
  have eq: "row_dump e M \<circ> snd = (\<lambda>x. map_sum id (\<lambda>r. [r]) (?f x))"
    by (simp add: Table_entry row_dump_def fun_eq_iff)
  have "map_result (resolve_row_fks M (spec_table sp) (spec_fks sp)) (map (\<lambda>(_, row). map (\<lambda>c. (c, row c)) (spec_columns sp)) (pdb_rows d (spec_table sp)))
      = map_result ?f (pdb_rows d (spec_table sp))"
    by (simp add: map_result_map comp_def split_def)
  then show ?thesis
    unfolding eq map_result_single
    by (cases "map_result ?f (pdb_rows d (spec_table sp))")
       (simp_all add: Table_entry entry_rows_def dumped_rows_def read_rows_def entry_columns_def entry_table_def entry_sort_def)
next
  case Alias_entry
  have "row_dump Alias_entry M = resolve_alias M" by (simp add: row_dump_def fun_eq_iff)
  then show ?thesis
    by (simp add: Alias_entry entry_rows_def dumped_aliases_def entry_columns_def entry_table_def entry_sort_def)
qed

text \<open>What one foreign key does to a row.\<close>

definition resolved_columns :: "string \<Rightarrow> string \<Rightarrow> sql_value \<Rightarrow> stored_row \<Rightarrow> string list \<Rightarrow> dump_row" where
  "resolved_columns old name v row cols = map (\<lambda>c. if c = old then (name, v) else (c, row c)) cols"

lemma resolved_columns_other: "old \<notin> set cols \<Longrightarrow> resolved_columns old name v row cols = map (\<lambda>c. (c, row c)) cols"
  unfolding resolved_columns_def by (intro map_cong) auto

definition fk_value :: "(int \<rightharpoonup> string) \<Rightarrow> string \<Rightarrow> string \<Rightarrow> string \<Rightarrow> sql_value \<Rightarrow> dump_error + (string \<times> sql_value)" where
  "fk_value m t old new v = (case v of
       SqlInteger i \<Rightarrow> map_sum id (\<lambda>s. (new, SqlText s)) (resolve_fk m t old (sint i))
     | SqlNull \<Rightarrow> Inr (new, SqlNull)
     | _ \<Rightarrow> Inr (old, v))"

lemma resolve_entry_map:
  "distinct cols \<Longrightarrow> old \<in> set cols \<Longrightarrow>
     resolve_entry m t old new (map (\<lambda>c. (c, row c)) cols)
     = map_sum id (\<lambda>(name, v). resolved_columns old name v row cols) (fk_value m t old new (row old))"
proof (induction cols)
  case (Cons c cols)
  show ?case
  proof (cases "c = old")
    case True
    then have "old \<notin> set cols" using Cons by simp
    have eq: "resolved_columns old name v row (c # cols) = (name, v) # map (\<lambda>c. (c, row c)) cols" for name v
      using resolved_columns_other [OF \<open>old \<notin> set cols\<close>] True by (simp add: resolved_columns_def)
    show ?thesis
      unfolding eq using True
      by (auto simp: fk_value_def resolve_fk_def split: sql_value.splits option.splits)
  next
    case False
    then have "resolved_columns old name v row (c # cols) = (c, row c) # resolved_columns old name v row cols" for name v
      by (simp add: resolved_columns_def)
    then show ?thesis
      using Cons False by (cases "fk_value m t old new (row old)") auto
  qed
qed simp

section \<open>Rowids and text ids\<close>

definition text_ids :: "portable_db \<Rightarrow> string \<Rightarrow> (int \<rightharpoonup> string)" where
  "text_ids d t = map_of (map (\<lambda>(i, row). (i, the (as_text (row ''text_id'')))) (pdb_rows d t))"

definition id_maps_of :: "portable_db \<Rightarrow> id_maps" where
  "id_maps_of d t = (if t \<in> set mapped_tables then Some (text_ids d t) else None)"

text \<open>The import's maps lead to rows with the text id looked up, and know every text id.\<close>

definition maps_fit :: "rowid_maps \<Rightarrow> portable_db \<Rightarrow> string \<Rightarrow> bool" where
  "maps_fit R d t \<longleftrightarrow>
     (\<forall>m s i. R t = Some m \<longrightarrow> m s = Some i \<longrightarrow> text_ids d t i = Some s \<and> 0 < i \<and> i < 2 ^ 63)
     \<and> (\<forall>i s. text_ids d t i = Some s \<longrightarrow> (\<exists>m. R t = Some m \<and> m s \<noteq> None))"

lemma stored_parsed: "plain_value v \<Longrightarrow> stored_value (the (parsed_of v)) = v"
  by (cases v) (simp_all add: plain_value_def)

section \<open>Importing the line of a row\<close>

definition rejects :: "dump_env \<Rightarrow> string \<Rightarrow> bool" where
  "rejects E t \<longleftrightarrow> (\<exists>rows row. \<not> accepts E t rows row)"

text \<open>The outcome of importing one line into a table: refused by the database, or a row is appended
  that is dumped as that line.\<close>

definition lands :: "dump_env \<Rightarrow> dump_entry \<Rightarrow> id_maps \<Rightarrow> portable_db \<Rightarrow> dump_row \<Rightarrow> import_error + portable_db \<Rightarrow> bool" where
  "lands E e M d r res \<longleftrightarrow>
     res = Inl (Import_sqlite (entry_table e)) \<and> rejects E (entry_table e)
     \<or> (\<exists>row. res = Inr (d\<lparr>pdb_rows := (pdb_rows d)(entry_table e :=
               pdb_rows d (entry_table e) @ [(next_rowid (pdb_rows d (entry_table e)), row)])\<rparr>)
          \<and> row_dump e M row = Inr [r])"

definition has_room :: "portable_db \<Rightarrow> string \<Rightarrow> bool" where
  "has_room d t \<longleftrightarrow> next_rowid (pdb_rows d t) < 2 ^ 63"

lemma insert_lands:
  assumes "has_room d (entry_table e)" "set cols \<subseteq> columns_of E (entry_table e)"
    and "row_dump e M (\<lambda>c. case map_of (zip cols vals) c of Some v \<Rightarrow> stored_value v | None \<Rightarrow> default_value E (entry_table e) c) = Inr [r]"
  shows "lands E e M d r (execute_insert E (entry_table e) cols vals d)"
  using assms by (auto simp: lands_def execute_insert_def rejects_def has_room_def Let_def)

lemma resolve_single:
  "resolve_row_fks M t [(old, new, target)] row = resolve_entry (case M target of None \<Rightarrow> Map.empty | Some m \<Rightarrow> m) t old new row"
  by (cases "resolve_entry (case M target of None \<Rightarrow> Map.empty | Some m \<Rightarrow> m) t old new row") simp_all

lemma map_result_pure: "(\<And>x. x \<in> set xs \<Longrightarrow> f x = Inr (g x)) \<Longrightarrow> map_result f xs = Inr (map g xs)"
  by (induction xs) auto

lemma map_of_zip_cols: "distinct cols \<Longrightarrow> c \<in> set cols \<Longrightarrow> map_of (zip cols (map f cols)) c = Some (f c)"
  by (induction cols) auto

text \<open>A regular table: the foreign key of the line is looked up, the other columns are kept.\<close>

lemma zip_parsed:
  "map_result f (zip (map fst r) (map (the \<circ> parsed_of) (map snd r))) = map_result (\<lambda>(c, v). f (c, the (parsed_of v))) r"
  by (induction r) (auto simp: comp_def)

text \<open>How the entry of the key comes back: the pair the import puts under the old column is
  resolved to the entry again.\<close>

lemma fk_returns:
  assumes v: "fk_value m t old new w = Inr (name, v)" and plain: "plain_value w"
    and new: "map_of entity_fk_mappings new = Some (old, target)" and old: "map_of entity_fk_mappings old = None"
    and fits: "maps_fit R d target" "ran m \<subseteq> ran (text_ids d target)"
  obtains x where "real_column R t (name, the (parsed_of v)) = Inr (old, x)"
    "fk_value (text_ids d target) t old new (stored_value x) = Inr (name, v)" "plain_value v" "name = new \<or> name = old"
proof (cases w)
  case (SqlInteger i)
  then obtain s where s: "m (sint i) = Some s" "name = new" "v = SqlText s"
    using v by (auto simp: fk_value_def resolve_fk_def split: option.splits)
  then have "s \<in> ran (text_ids d target)" using fits(2) by (auto simp: ran_def)
  then obtain k where "text_ids d target k = Some s" by (auto simp: ran_def)
  then obtain mm j where j: "R target = Some mm" "mm s = Some j"
    using fits(1) unfolding maps_fit_def by blast
  then have "text_ids d target j = Some s" "0 < j" "j < 2 ^ 63"
    using fits(1) unfolding maps_fit_def by blast+
  then have "fk_value (text_ids d target) t old new (stored_value (PInteger j)) = Inr (name, v)"
    using s by (simp add: fk_value_def resolve_fk_def sint_rowid)
  moreover have "real_column R t (name, the (parsed_of v)) = Inr (old, PInteger j)"
    using s j new by (simp add: real_column_def lookup_rowid_def)
  ultimately show ?thesis using that s by (simp add: plain_value_def)
next
  case SqlNull
  then have "name = new" "v = SqlNull" using v by (simp_all add: fk_value_def)
  then show ?thesis using that [of PNull] new by (simp add: real_column_def fk_value_def plain_value_def)
next
  case (SqlText s)
  then have "name = old" "v = SqlText s" using v by (simp_all add: fk_value_def)
  then show ?thesis using that [of "PText s"] old by (simp add: real_column_def fk_value_def plain_value_def)
qed (use plain in \<open>simp_all add: plain_value_def\<close>)

lemma import_regular_lands:
  assumes room: "has_room d (spec_table sp)" and good: "good_spec sp" and cols: "set (spec_columns sp) \<subseteq> columns_of E (spec_table sp)"
    and r: "resolve_row_fks M (spec_table sp) (spec_fks sp) (map (\<lambda>c. (c, row c)) (spec_columns sp)) = Inr r"
    and plain: "\<And>c. c \<in> set (spec_columns sp) \<Longrightarrow> plain_value (row c)"
    and fits: "\<And>old new target. spec_fks sp = [(old, new, target)] \<Longrightarrow> maps_fit R d target
        \<and> ran (case M target of None \<Rightarrow> Map.empty | Some m \<Rightarrow> m) \<subseteq> ran (text_ids d target)"
  shows "lands E (Table_entry sp) (id_maps_of d) d r
           (import_regular_row E R (spec_table sp) \<lparr>parsed_columns = map fst r, parsed_values = map (the \<circ> parsed_of) (map snd r)\<rparr> d)
         \<and> list_all plain_name (map fst r) \<and> list_all plain_value (map snd r) \<and> r \<noteq> []"
proof -
  let ?e = "Table_entry sp" and ?cs = "spec_columns sp" and ?t = "spec_table sp"
  have good': "?cs \<noteq> []" "distinct ?cs" "list_all plain_name ?cs" "\<And>c. c \<in> set ?cs \<Longrightarrow> map_of entity_fk_mappings c = None"
    using good by (auto simp: good_spec_def list_all_iff)
  have keep: "real_column R ?t (c, v) = Inr (c, v)" if "c \<in> set ?cs" for c v
    using good'(4) [OF that] by (simp add: real_column_def)
  have inserts: "lands E ?e (id_maps_of d) d r
       (import_regular_row E R ?t \<lparr>parsed_columns = map fst r, parsed_values = map (the \<circ> parsed_of) (map snd r)\<rparr> d)"
    if real: "map_result (\<lambda>(c, v). real_column R ?t (c, the (parsed_of v))) r = Inr (map (\<lambda>c. (c, f c)) ?cs)"
      and again: "\<And>row'. (\<And>c. c \<in> set ?cs \<Longrightarrow> row' c = stored_value (f c)) \<Longrightarrow> row_dump ?e (id_maps_of d) row' = Inr [r]" for f
  proof -
    have "import_regular_row E R ?t \<lparr>parsed_columns = map fst r, parsed_values = map (the \<circ> parsed_of) (map snd r)\<rparr> d
        = execute_insert E (entry_table ?e) ?cs (map f ?cs) d"
      using real by (simp only: import_regular_row_def zip_parsed parsed_insert.simps) (simp add: comp_def entry_table_def)
    moreover have "lands E ?e (id_maps_of d) d r (execute_insert E (entry_table ?e) ?cs (map f ?cs) d)"
      using cols room by (intro insert_lands again) (simp_all add: entry_table_def map_of_zip_cols [OF good'(2)])
    ultimately show ?thesis by simp
  qed
  show ?thesis
  proof (cases "spec_fks sp")
    case Nil
    then have req: "r = map (\<lambda>c. (c, row c)) ?cs" using r by simp
    have "map_result (\<lambda>(c, v). real_column R ?t (c, the (parsed_of v))) r = Inr (map (\<lambda>c. (c, the (parsed_of (row c)))) ?cs)"
      unfolding req map_result_map by (intro map_result_pure) (simp add: keep)
    moreover have "row_dump ?e (id_maps_of d) row' = Inr [r]" if "\<And>c. c \<in> set ?cs \<Longrightarrow> row' c = stored_value (the (parsed_of (row c)))" for row'
      using that plain by (simp add: row_dump_def Nil req stored_parsed)
    moreover have "list_all plain_name (map fst r) \<and> list_all plain_value (map snd r) \<and> r \<noteq> []"
      using good'(1,3) plain by (simp add: req comp_def list_all_iff)
    ultimately show ?thesis
      using inserts [of "\<lambda>c. the (parsed_of (row c))"] by blast
  next
    case (Cons fk fks)
    then obtain old new target where fk: "spec_fks sp = [(old, new, target)]"
      using good by (cases fk; cases fks) (auto simp: good_spec_def)
    then have old: "old \<in> set ?cs" "new \<notin> set ?cs" "plain_name new" "map_of entity_fk_mappings new = Some (old, target)"
        "target \<in> set mapped_tables"
      using good by (auto simp: good_spec_def)
    let ?m = "case M target of None \<Rightarrow> Map.empty | Some m \<Rightarrow> m"
    have "resolve_entry ?m ?t old new (map (\<lambda>c. (c, row c)) ?cs) = Inr r"
      using r by (simp only: fk resolve_single)
    then obtain name v where nv: "fk_value ?m ?t old new (row old) = Inr (name, v)" "r = resolved_columns old name v row ?cs"
      by (auto simp: resolve_entry_map [OF good'(2) old(1)] map_sum_def split: sum.splits)
    obtain x where x: "real_column R ?t (name, the (parsed_of v)) = Inr (old, x)"
        "fk_value (text_ids d target) ?t old new (stored_value x) = Inr (name, v)" "plain_value v" "name = new \<or> name = old"
      using fk_returns [OF nv(1) plain [OF old(1)] old(4) good'(4) [OF old(1)]] fits [OF fk] by blast
    let ?f = "\<lambda>c. if c = old then x else the (parsed_of (row c))"
    have "map_result (\<lambda>(c, v). real_column R ?t (c, the (parsed_of v))) r = Inr (map (\<lambda>c. (c, ?f c)) ?cs)"
      unfolding nv(2) resolved_columns_def map_result_map by (intro map_result_pure) (auto simp: x(1) keep)
    moreover have "row_dump ?e (id_maps_of d) row' = Inr [r]" if row': "\<And>c. c \<in> set ?cs \<Longrightarrow> row' c = stored_value (?f c)" for row'
    proof -
      have "resolved_columns old name v row' ?cs = r"
        unfolding nv(2) resolved_columns_def using row' plain by (auto simp: stored_parsed)
      moreover have "fk_value (text_ids d target) ?t old new (row' old) = Inr (name, v)"
        using row' [OF old(1)] x(2) by simp
      ultimately show ?thesis
        using old(5) by (simp add: row_dump_def fk resolve_single resolve_entry_map [OF good'(2) old(1)] id_maps_of_def del: resolve_row_fks.simps)
    qed
    moreover have "list_all plain_name (map fst r) \<and> list_all plain_value (map snd r) \<and> r \<noteq> []"
      unfolding nv(2) resolved_columns_def using good'(1,3) old plain x(3,4) by (auto simp: list_all_iff)
    ultimately show ?thesis
      using inserts [of ?f] by simp
  qed
qed

section \<open>Importing the line of an alias\<close>

lemma import_alias_lands:
  assumes room: "has_room d ''entity_aliases''" and cols: "{''entity_type'', ''entity_id'', ''alias''} \<subseteq> columns_of E ''entity_aliases''"
    and r: "resolve_alias M row = Inr rs" "r \<in> set rs" and plain: "plain_value (row ''alias'')"
    and fits: "\<And>ty target. entity_type_table ty = Some target \<Longrightarrow> maps_fit R d target
        \<and> ran (case M target of None \<Rightarrow> Map.empty | Some m \<Rightarrow> m) \<subseteq> ran (text_ids d target)"
  shows "lands E Alias_entry (id_maps_of d) d r
           (import_entity_alias_row E R \<lparr>parsed_columns = map fst r, parsed_values = map (the \<circ> parsed_of) (map snd r)\<rparr> d)
         \<and> list_all plain_name (map fst r) \<and> list_all plain_value (map snd r) \<and> r \<noteq> []"
proof -
  obtain ty i target s where ty: "row ''entity_type'' = SqlText ty" "row ''entity_id'' = SqlInteger i" "entity_type_table ty = Some target"
      "(case M target of None \<Rightarrow> Map.empty | Some m \<Rightarrow> m) (sint i) = Some s"
      "r = [(''entity_type'', SqlText ty), (''entity_text_id'', SqlText s), (''alias'', row ''alias'')]"
    using r by (auto simp: resolve_alias_def split: sql_value.splits option.splits)
  have target: "target \<in> set mapped_tables"
    using ty(3) by (auto simp: entity_type_table_def mapped_tables_def split: if_splits)
  have "s \<in> ran (text_ids d target)"
    using fits [OF ty(3)] ty(4) by (auto simp: ran_def)
  then obtain m j where j: "R target = Some m" "m s = Some j" "text_ids d target j = Some s" "0 < j" "j < 2 ^ 63"
    using fits [OF ty(3)] unfolding maps_fit_def by (fastforce simp: ran_def)
  let ?cols = "[''entity_type'', ''entity_id'', ''alias'']" and ?vals = "[PText ty, PInteger j, the (parsed_of (row ''alias''))]"
  have "import_entity_alias_row E R \<lparr>parsed_columns = map fst r, parsed_values = map (the \<circ> parsed_of) (map snd r)\<rparr> d
      = execute_insert E ''entity_aliases'' ?cols ?vals d"
    using ty(3,5) j(1,2) by (simp add: import_entity_alias_row_def parsed_text_def lookup_rowid_def)
  moreover have "lands E Alias_entry (id_maps_of d) d r (execute_insert E (entry_table Alias_entry) ?cols ?vals d)"
  proof (rule insert_lands)
    show "row_dump Alias_entry (id_maps_of d)
        (\<lambda>c. case map_of (zip ?cols ?vals) c of Some v \<Rightarrow> stored_value v | None \<Rightarrow> default_value E (entry_table Alias_entry) c) = Inr [r]"
      using ty(3,5) j target stored_parsed [OF plain]
      by (simp add: row_dump_def resolve_alias_def id_maps_of_def sint_rowid)
  qed (use cols room in \<open>simp_all add: entry_table_def\<close>)
  ultimately show ?thesis
    using plain ty(5) by (simp add: entry_table_def plain_name_def name_char_def plain_value_def)
qed

end
