(* ===== verification/Dump_Lines.thy ===== *)
theory Dump_Lines
  imports Dump_Rows
begin

text \<open>The lines of a table and their import.\<close>

section \<open>A written line\<close>

lemma digits_last: "list_all is_digit s \<Longrightarrow> s \<noteq> [] \<Longrightarrow> visible (last s)"
  by (auto simp: list_all_iff is_digit_def visible_def dest!: last_in_set)

lemma int_last: "show_int k \<noteq> [] \<and> visible (last (show_int k))"
proof (cases k rule: show_int_digits)
  case 1
  then show ?thesis
    using show_nat_digits [of "nat (- k)"] digits_last by simp
next
  case (2 c t)
  then have "list_all is_digit (show_int k)" "show_int k \<noteq> []" by simp_all
  then show ?thesis using digits_last by blast
qed

lemma value_last: "plain_value v \<Longrightarrow> value_to_sql sr v \<noteq> [] \<and> visible (last (value_to_sql sr v))"
  using int_last by (cases v) (auto simp: plain_value_def visible_def)

lemma join_last: "ss \<noteq> [] \<Longrightarrow> last ss \<noteq> [] \<Longrightarrow> join_with sep ss \<noteq> [] \<and> last (join_with sep ss) = last (last ss)"
proof (induction ss)
  case (Cons s ss)
  then show ?case by (cases ss) (auto simp: join_cons)
qed simp

lemma trim_line:
  assumes "r \<noteq> []" "list_all plain_value (map snd r)"
  shows "trim (row_to_insert sr t r) = row_to_insert sr t r"
proof -
  let ?vals = "join_with '', '' (map (value_to_sql sr \<circ> snd) r)"
  have "plain_value (snd (last r))" using assms by (simp add: list_all_iff)
  then have v: "?vals \<noteq> []" "visible (last ?vals)"
    using join_last [of "map (value_to_sql sr \<circ> snd) r" "'', ''"] value_last assms(1) by (auto simp: last_map)
  let ?pre = "''INSERT INTO '' @ t @ ''('' @ join_with '', '' (map fst r) @ '') VALUES('' @ butlast ?vals"
  have line: "row_to_insert sr t r = ?pre @ [last ?vals, CHR '')'', CHR '';'']"
    using v(1) by (simp add: row_to_insert_def)
  have "hd (row_to_insert sr t r) = CHR ''I''" by (simp add: row_to_insert_def)
  then show ?thesis
    by (intro trim_visible) (use v(2) in \<open>simp_all add: line visible_def nth_append\<close>)
qed

lemma escape_no_nl: "nl \<notin> set (sql_escape s)"
  by (induction s) (auto simp: escape_char_def)

lemma value_no_nl: "plain_value v \<Longrightarrow> nl \<notin> set (value_to_sql sr v)"
proof (cases v)
  case (SqlInteger i)
  have "nl \<notin> set (show_int k)" for k
    by (cases k rule: show_int_digits)
       (use show_nat_digits [of "nat (- k)"] in \<open>auto simp: list_all_iff is_digit_def\<close>)
  then show ?thesis using SqlInteger by simp
qed (use escape_no_nl in \<open>auto simp: plain_value_def\<close>)

lemma not_in_join: "c \<notin> set sep \<Longrightarrow> (\<And>s. s \<in> set ss \<Longrightarrow> c \<notin> set s) \<Longrightarrow> c \<notin> set (join_with sep ss)"
  using set_join by fast

lemma line_no_nl:
  assumes "list_all name_char t" "list_all plain_name (map fst r)" "list_all plain_value (map snd r)"
  shows "nl \<notin> set (row_to_insert sr t r)"
proof -
  have "nl \<notin> set t" "\<And>c. c \<in> set (map fst r) \<Longrightarrow> nl \<notin> set c"
    using assms(1,2) name_char_visible by (auto simp: list_all_iff plain_name_def)
  moreover have "nl \<notin> set v" if "v \<in> set (map (value_to_sql sr \<circ> snd) r)" for v
    using that assms(3) value_no_nl by (auto simp: list_all_iff)
  ultimately have "nl \<notin> set (join_with '', '' (map fst r))" "nl \<notin> set (join_with '', '' (map (value_to_sql sr \<circ> snd) r))"
    by (intro not_in_join; simp)+
  then show ?thesis
    using \<open>nl \<notin> set t\<close> by (simp add: row_to_insert_def)
qed

definition good_rows :: "string \<Rightarrow> dump_row list \<Rightarrow> bool" where
  "good_rows t rs \<longleftrightarrow> list_all name_char t
     \<and> (\<forall>r\<in>set rs. list_all plain_name (map fst r) \<and> list_all plain_value (map snd r) \<and> r \<noteq> [])"

lemma lines_of_rows: "good_rows t rs \<Longrightarrow> text_lines (rows_text E t rs) = map (row_to_insert (show_real E) t) rs"
proof (induction rs)
  case (Cons r rs)
  have "nl \<notin> set (row_to_insert (show_real E) t r)"
    using Cons.prems line_no_nl unfolding good_rows_def by (metis list.set_intros(1))
  moreover have "strip_cr (row_to_insert (show_real E) t r) = row_to_insert (show_real E) t r"
    by (simp add: strip_cr_def row_to_insert_def)
  moreover have "good_rows t rs" using Cons.prems by (simp add: good_rows_def)
  ultimately show ?case
    using Cons.IH text_lines_cons by (simp add: rows_text_def)
qed (simp add: rows_text_def text_lines_def)

section \<open>Importing the rows of a table\<close>

definition import_row :: "dump_env \<Rightarrow> rowid_maps \<Rightarrow> dump_entry \<Rightarrow> dump_row \<Rightarrow> portable_db \<Rightarrow> import_error + portable_db" where
  "import_row E R e r d =
     (let p = \<lparr>parsed_columns = map fst r, parsed_values = map (the \<circ> parsed_of) (map snd r)\<rparr>
      in case e of Table_entry sp \<Rightarrow> import_regular_row E R (spec_table sp) p d | Alias_entry \<Rightarrow> import_entity_alias_row E R p d)"

lemma import_line_row:
  assumes "good_entry e" "list_all name_char (entry_table e)"
    and "list_all plain_name (map fst r)" "list_all plain_value (map snd r)" "r \<noteq> []"
  shows "import_line E R (entry_table e) n (row_to_insert (show_real E) (entry_table e) r) d = import_row E R e r d"
proof -
  have "\<not> starts_with (row_to_insert (show_real E) (entry_table e) r) ''--''" "row_to_insert (show_real E) (entry_table e) r \<noteq> []"
    by (simp_all add: row_to_insert_def starts_with_def strip_prefix_def)
  moreover have "spec_table sp \<noteq> ''entity_aliases''" if "e = Table_entry sp" for sp
    using assms(1) that by (simp add: good_entry_def good_spec_def)
  ultimately show ?thesis
    using parse_row [OF assms(2,5,3,4), of "show_real E"] trim_line [OF assms(5,4), of "show_real E" "entry_table e"]
    by (cases e) (simp_all add: import_line_def import_row_def Let_def entry_table_def)
qed

definition targets :: "dump_entry \<Rightarrow> string set" where
  "targets e = (case e of
       Table_entry sp \<Rightarrow> (\<lambda>fk. snd (snd fk)) ` set (spec_fks sp)
     | Alias_entry \<Rightarrow> {''epochs_data'', ''phases_data'', ''goals_data'', ''tasks_data''})"

lemma resolve_fks_cong:
  "(\<And>fk. fk \<in> set fks \<Longrightarrow> M (snd (snd fk)) = M' (snd (snd fk))) \<Longrightarrow> resolve_row_fks M t fks row = resolve_row_fks M' t fks row"
proof (induction fks arbitrary: row)
  case (Cons fk fks)
  obtain a b c where fk: "fk = (a, b, c)" by (cases fk)
  have "M c = M' c" using Cons.prems [of fk] by (simp add: fk)
  then show ?case using Cons by (simp add: fk and_then_def split: sum.splits)
qed simp

lemma row_dump_cong:
  assumes "\<And>t. t \<in> targets e \<Longrightarrow> M t = M' t"
  shows "row_dump e M row = row_dump e M' row"
proof (cases e)
  case (Table_entry sp)
  then have "resolve_row_fks M (spec_table sp) (spec_fks sp) x = resolve_row_fks M' (spec_table sp) (spec_fks sp) x" for x
    using assms by (intro resolve_fks_cong) (auto simp: targets_def)
  then show ?thesis by (simp add: Table_entry row_dump_def)
next
  case Alias_entry
  have "M t = M' t" if "entity_type_table ty = Some t" for ty t
    using that assms Alias_entry by (auto simp: entity_type_table_def targets_def split: if_splits)
  then show ?thesis
    by (auto simp: Alias_entry row_dump_def resolve_alias_def split: sql_value.splits option.splits)
qed

definition ids_ok :: "(int \<times> 'r) list \<Rightarrow> bool" where
  "ids_ok rows \<longleftrightarrow> distinct (map fst rows) \<and> (\<forall>i \<in> fst ` set rows. 0 < i \<and> i < 2 ^ 63 \<and> i \<le> int (length rows))"

lemma ids_ok_Nil [simp]: "ids_ok []"
  by (simp add: ids_ok_def)

lemma ids_ok_next: "ids_ok rows \<Longrightarrow> next_rowid rows \<le> int (length rows) + 1"
  by (auto simp: ids_ok_def next_rowid_def)

lemma ids_ok_snoc:
  assumes "ids_ok rows" "next_rowid rows < 2 ^ 63"
  shows "ids_ok (rows @ [(next_rowid rows, row)])"
proof -
  have "i < next_rowid rows" if "i \<in> fst ` set rows" for i
    using that Max_ge [of "fst ` set rows" i] by (auto simp: next_rowid_def)
  moreover have "0 < next_rowid rows"
  proof (cases rows)
    case (Cons x xs)
    then have "fst x \<in> fst ` set rows" by simp
    then show ?thesis using calculation assms(1) unfolding ids_ok_def by force
  qed (simp add: next_rowid_def)
  ultimately show ?thesis
    using assms ids_ok_next [OF assms(1)] by (fastforce simp: ids_ok_def dest: less_imp_neq)
qed

text \<open>The rows of one entry, imported into a table: all land, or the database refuses one.\<close>

definition rows_land :: "dump_env \<Rightarrow> dump_entry \<Rightarrow> dump_row list \<Rightarrow> portable_db \<Rightarrow> import_error + portable_db \<Rightarrow> bool" where
  "rows_land E e rs d res \<longleftrightarrow>
     res = Inl (Import_sqlite (entry_table e)) \<and> rejects E (entry_table e)
     \<or> (\<exists>new. res = Inr (d\<lparr>pdb_rows := (pdb_rows d)(entry_table e := pdb_rows d (entry_table e) @ new)\<rparr>)
          \<and> ids_ok (pdb_rows d (entry_table e) @ new)
          \<and> map_result (row_dump e (id_maps_of d) \<circ> snd) new = Inr (map (\<lambda>r. [r]) rs))"

lemma id_maps_of_other: "t \<noteq> u \<Longrightarrow> id_maps_of (d\<lparr>pdb_rows := (pdb_rows d)(u := rows)\<rparr>) t = id_maps_of d t"
  by (simp add: id_maps_of_def text_ids_def)

lemma import_lines_land:
  assumes good: "good_entry e" "good_rows (entry_table e) rs" "entry_table e \<notin> targets e"
    and step: "\<And>d' r. r \<in> set rs \<Longrightarrow> (\<And>t. t \<noteq> entry_table e \<Longrightarrow> pdb_rows d' t = pdb_rows d t) \<Longrightarrow>
        has_room d' (entry_table e) \<Longrightarrow> lands E e (id_maps_of d') d' r (import_row E R e r d')"
    and ids: "ids_ok (pdb_rows d (entry_table e))" and size: "int (length (pdb_rows d (entry_table e)) + length rs) < 2 ^ 63"
  shows "rows_land E e rs d (import_lines E R (entry_table e) n (map (row_to_insert (show_real E) (entry_table e)) rs) d)"
  using good(2) step ids size
proof (induction rs arbitrary: d n)
  case Nil
  have "d\<lparr>pdb_rows := (pdb_rows d)(entry_table e := pdb_rows d (entry_table e) @ [])\<rparr> = d" by simp
  then show ?case
    using Nil by (auto simp: rows_land_def intro!: exI [of _ "[]"])
next
  case (Cons r rs)
  let ?t = "entry_table e"
  have line: "import_line E R ?t n (row_to_insert (show_real E) ?t r) d = import_row E R e r d"
    using Cons.prems(1) by (intro import_line_row [OF good(1)]) (auto simp: good_rows_def)
  have room: "next_rowid (pdb_rows d ?t) < 2 ^ 63"
    using ids_ok_next [OF Cons.prems(3)] Cons.prems(4) by simp
  then have "lands E e (id_maps_of d) d r (import_row E R e r d)"
    using Cons.prems(2) by (simp add: has_room_def)
  then consider "import_row E R e r d = Inl (Import_sqlite ?t)" "rejects E ?t"
    | row where "import_row E R e r d = Inr (d\<lparr>pdb_rows := (pdb_rows d)(?t := pdb_rows d ?t @ [(next_rowid (pdb_rows d ?t), row)])\<rparr>)"
        "row_dump e (id_maps_of d) row = Inr [r]"
    unfolding lands_def by blast
  then show ?case
  proof cases
    case 1
    then show ?thesis by (simp add: rows_land_def line)
  next
    case (2 row)
    let ?d = "d\<lparr>pdb_rows := (pdb_rows d)(?t := pdb_rows d ?t @ [(next_rowid (pdb_rows d ?t), row)])\<rparr>"
    have same: "row_dump e (id_maps_of ?d) = row_dump e (id_maps_of d)"
      using good(3) by (intro ext row_dump_cong id_maps_of_other) auto
    have "rows_land E e rs ?d (import_lines E R ?t (Suc n) (map (row_to_insert (show_real E) ?t) rs) ?d)"
    proof (rule Cons.IH)
      show "good_rows ?t rs" using Cons.prems(1) by (simp add: good_rows_def)
      show "lands E e (id_maps_of d') d' r' (import_row E R e r' d')"
        if "r' \<in> set rs" "\<And>t. t \<noteq> ?t \<Longrightarrow> pdb_rows d' t = pdb_rows ?d t" "has_room d' ?t" for d' r'
        using Cons.prems(2) [of r' d'] that by simp
      show "int (length (pdb_rows ?d ?t) + length rs) < 2 ^ 63" using Cons.prems(4) by simp
      show "ids_ok (pdb_rows ?d ?t)"
        using ids_ok_snoc [OF Cons.prems(3) room] by simp
    qed
    then show ?thesis
      using 2 unfolding rows_land_def same by (fastforce simp: line)
  qed
qed

end
