(* ===== verification/Dump_Facts.thy ===== *)
theory Dump_Facts
  imports Dump_Lines Writer_Fence_Facts
begin

text \<open>
  A projection is lossless: reading a dump into an empty database and dumping that gives the
  same text, unless the database refuses a row. And where it is not: a relation between RFCs is
  dumped under a column the reader does not know.
\<close>

section \<open>What the source database holds\<close>

definition portable_entry :: "portable_db \<Rightarrow> dump_entry \<Rightarrow> bool" where
  "portable_entry d e \<longleftrightarrow> int (length (pdb_rows d (entry_table e))) < 2 ^ 63 \<and> (case e of
       Table_entry sp \<Rightarrow> list_all (\<lambda>(_, row). list_all (\<lambda>c. plain_value (row c)) (spec_columns sp)
         \<and> (has_text_id_column (spec_table sp) \<longrightarrow> as_text (row ''text_id'') \<noteq> None)) (pdb_rows d (spec_table sp))
     | Alias_entry \<Rightarrow> list_all (\<lambda>(_, row). plain_value (row ''alias'')) (pdb_rows d ''entity_aliases''))"

definition portable :: "portable_db \<Rightarrow> bool" where
  "portable d \<longleftrightarrow> list_all (portable_entry d) dump_entries \<and> pdb_rows d ''rfc_relations'' = []"

section \<open>Results of lists\<close>

lemma map_result_Inr: "map_result f xs = Inr ys \<Longrightarrow> length ys = length xs \<and> (\<forall>x\<in>set xs. \<exists>y\<in>set ys. f x = Inr y) \<and> (\<forall>y\<in>set ys. \<exists>x\<in>set xs. f x = Inr y)"
  by (induction xs arbitrary: ys) (auto simp: and_then_Inr_conv map_sum_def split: sum.splits)

lemma map_result_append: "map_result f (xs @ ys) = and_then (map_result f xs) (\<lambda>as. map_sum id (\<lambda>bs. as @ bs) (map_result f ys))"
proof (induction xs)
  case Nil
  show ?case by (cases "map_result f ys") simp_all
next
  case (Cons x xs)
  then show ?case
    by (cases "f x"; cases "map_result f xs"; cases "map_result f ys") simp_all
qed

lemma map_result_cong: "(\<And>x. x \<in> set xs \<Longrightarrow> f x = g x) \<Longrightarrow> map_result f xs = map_result g xs"
  by (induction xs) auto

section \<open>Sorting\<close>

lemma sort_rows_again [simp]: "sort_rows E keys (sort_rows E keys rs) = sort_rows E keys rs"
  unfolding sort_rows_def by (intro sort_key_id_if_sorted) simp

lemma set_sort_rows [simp]: "set (sort_rows E keys rs) = set rs"
  by (simp add: sort_rows_def)

text \<open>Rows that are dumped as an already sorted list are dumped in their order.\<close>

lemma entry_rows_again:
  assumes "entry_rows E d M e = Inr rs" and "map_result (row_dump e M' \<circ> snd) (pdb_rows d' (entry_table e)) = Inr (map (\<lambda>r. [r]) rs)"
  shows "entry_rows E d' M' e = Inr rs"
proof -
  obtain xss where "rs = sort_rows E (entry_sort e) (concat xss)" "entry_columns e \<subseteq> columns_of E (entry_table e)"
    using assms(1) by (auto simp: entry_rows_eq map_sum_def split: if_splits sum.splits)
  then show ?thesis
    using assms(2) by (simp add: entry_rows_eq)
qed

section \<open>Text ids\<close>

lemma text_id_dumped:
  assumes "good_spec sp" "has_text_id_column (spec_table sp)" "row_dump (Table_entry sp) M row = Inr [r]"
  shows "map_of r ''text_id'' = Some (row ''text_id'')"
proof -
  have cols: "''text_id'' \<in> set (spec_columns sp)" "distinct (spec_columns sp)" "\<forall>fk\<in>set (spec_fks sp). fst fk \<noteq> ''text_id''"
    using assms(1,2) by (auto simp: good_spec_def)
  have plain: "map_of (map (\<lambda>c. if c = old then (name, v) else (c, row c)) cs) ''text_id'' = Some (row ''text_id'')"
    if "''text_id'' \<in> set cs" "old \<noteq> ''text_id''" "name \<noteq> ''text_id''" for old name v and cs :: "string list"
    using that by (induction cs) auto
  show ?thesis
  proof (cases "spec_fks sp")
    case Nil
    then have "r = map (\<lambda>c. (c, row c)) (spec_columns sp)" using assms(3) by (simp add: row_dump_def)
    then show ?thesis using cols by (simp add: map_of_map_keys [symmetric] map_of_eq_Some_iff comp_def image_iff)
  next
    case (Cons fk fks)
    then obtain old new target where fk: "spec_fks sp = [(old, new, target)]"
      using assms(1) by (cases fk; cases fks) (auto simp: good_spec_def)
    then have old: "old \<in> set (spec_columns sp)" "new \<noteq> ''text_id''" "old \<noteq> ''text_id''"
      using assms(1) cols by (auto simp: good_spec_def)
    obtain name v where "r = resolved_columns old name v row (spec_columns sp)" "name = new \<or> name = old"
      using assms(3)
      by (auto simp: row_dump_def fk resolve_single resolve_entry_map [OF cols(2) old(1)] map_sum_def fk_value_def resolve_fk_def
          simp del: resolve_row_fks.simps split: sum.splits sql_value.splits option.splits)
    then show ?thesis
      using plain [OF cols(1) old(3)] old by (auto simp: resolved_columns_def)
  qed
qed

definition text_rows :: "portable_db \<Rightarrow> string \<Rightarrow> bool" where
  "text_rows d t \<longleftrightarrow> list_all (\<lambda>(_, row). as_text (row ''text_id'') \<noteq> None) (pdb_rows d t)"

definition text_values :: "portable_db \<Rightarrow> string \<Rightarrow> sql_value set" where
  "text_values d t = (\<lambda>(_, row). row ''text_id'') ` set (pdb_rows d t)"

lemma text_values_dumped:
  assumes "good_spec sp" "has_text_id_column (spec_table sp)"
    and "map_result (row_dump (Table_entry sp) M \<circ> snd) (pdb_rows d (spec_table sp)) = Inr xss"
  shows "Some ` text_values d (spec_table sp) = (\<lambda>r. map_of r ''text_id'') ` set (concat xss)"
proof -
  have single: "\<exists>r. xs = [r]" if "row_dump (Table_entry sp) M row = Inr xs" for row xs
    using that by (auto simp: row_dump_def map_sum_def split: sum.splits)
  show ?thesis
  proof (intro set_eqI iffI)
    fix x
    assume "x \<in> Some ` text_values d (spec_table sp)"
    then obtain i row where row: "(i, row) \<in> set (pdb_rows d (spec_table sp))" "x = Some (row ''text_id'')"
      by (auto simp: text_values_def)
    then obtain xs where xs: "xs \<in> set xss" "row_dump (Table_entry sp) M row = Inr xs"
      using map_result_Inr [OF assms(3)] by fastforce
    then obtain r where r: "xs = [r]" using single by blast
    then have "map_of r ''text_id'' = x"
      using text_id_dumped [OF assms(1,2), of M row r] xs row(2) by auto
    moreover have "r \<in> set (concat xss)" using xs(1) unfolding r by force
    ultimately show "x \<in> (\<lambda>r. map_of r ''text_id'') ` set (concat xss)" by blast
  next
    fix x
    assume "x \<in> (\<lambda>r. map_of r ''text_id'') ` set (concat xss)"
    then obtain xs r where r: "xs \<in> set xss" "r \<in> set xs" "x = map_of r ''text_id''" by auto
    then obtain i row where row: "(i, row) \<in> set (pdb_rows d (spec_table sp))" "row_dump (Table_entry sp) M row = Inr xs"
      using map_result_Inr [OF assms(3)] by fastforce
    then have "xs = [r]" using single r(2) by fastforce
    then show "x \<in> Some ` text_values d (spec_table sp)"
      using text_id_dumped [OF assms(1,2)] row r(3) by (force simp: text_values_def)
  qed
qed

lemma text_rows_values: "text_rows d t \<longleftrightarrow> (\<forall>v\<in>text_values d t. as_text v \<noteq> None)"
  by (auto simp: text_rows_def text_values_def list_all_iff)

lemma ran_text_ids:
  assumes "ids_ok (pdb_rows d t)"
  shows "ran (text_ids d t) = (the \<circ> as_text) ` text_values d t"
proof -
  have "distinct (map fst (map (\<lambda>(i, row). (i, the (as_text (row ''text_id'')))) (pdb_rows d t)))"
    using assms by (simp add: ids_ok_def comp_def split_def)
  then show ?thesis
    unfolding text_ids_def by (subst ran_distinct) (force simp: text_values_def image_iff split_def)+
qed

lemma ran_text_ids_subset: "ran (text_ids d t) \<subseteq> (the \<circ> as_text) ` text_values d t"
  unfolding text_ids_def using map_of_SomeD by (fastforce simp: ran_def text_values_def)

text \<open>The map built after a table was imported fits it.\<close>

lemma reverse_map_fits:
  assumes "build_reverse_text_id_map d t = Inr m" "ids_ok (pdb_rows d t)"
  shows "maps_fit (R(t \<mapsto> m)) d t"
proof -
  let ?txt = "\<lambda>row :: stored_row. the (as_text (row ''text_id''))"
  have m: "m = map_of (rev (map (\<lambda>(i, row). (?txt row, i)) (pdb_rows d t)))"
    using assms(1) by (simp add: build_reverse_text_id_map_def split: if_splits)
  have dist: "distinct (map fst (map (\<lambda>(i, row). (i, ?txt row)) (pdb_rows d t)))"
    using assms(2) by (simp add: ids_ok_def comp_def split_def)
  have one: "text_ids d t i = Some s \<and> 0 < i \<and> i < 2 ^ 63" if "m s = Some i" for s i
  proof -
    have "(s, i) \<in> set (rev (map (\<lambda>(i, row). (?txt row, i)) (pdb_rows d t)))"
      using that map_of_SomeD unfolding m by fast
    then obtain row where row: "(i, row) \<in> set (pdb_rows d t)" "s = ?txt row" by auto
    then have "(i, s) \<in> set (map (\<lambda>(i, row). (i, ?txt row)) (pdb_rows d t))" by force
    then have "text_ids d t i = Some s"
      unfolding text_ids_def using map_of_is_SomeI [OF dist] by blast
    moreover have "i \<in> fst ` set (pdb_rows d t)" using row(1) by force
    ultimately show ?thesis using assms(2) unfolding ids_ok_def by blast
  qed
  have two: "m s \<noteq> None" if "text_ids d t i = Some s" for i s
  proof -
    have "(i, s) \<in> set (map (\<lambda>(i, row). (i, ?txt row)) (pdb_rows d t))"
      using that unfolding text_ids_def by (rule map_of_SomeD)
    then have "s \<in> fst ` set (rev (map (\<lambda>(i, row). (?txt row, i)) (pdb_rows d t)))" by force
    then show ?thesis unfolding m by (simp add: map_of_eq_None_iff del: set_rev)
  qed
  show ?thesis
    unfolding maps_fit_def using one two by auto
qed

lemma maps_fit_empty: "pdb_rows d t = [] \<Longrightarrow> R t = None \<Longrightarrow> maps_fit R d t"
  by (simp add: maps_fit_def text_ids_def)

end
