(* ===== verification/Dump_Round.thy ===== *)
theory Dump_Round
  imports Dump_Facts
begin

text \<open>The round trip of a whole database.\<close>

section \<open>The maps of a database\<close>

lemma build_text_id_map_eq:
  "build_text_id_map E d t = (if ''text_id'' \<in> columns_of E t \<and> text_rows d t then Inr (text_ids d t) else Inl (Dump_sqlite t))"
  by (simp add: build_text_id_map_def text_rows_def text_ids_def)

lemma build_id_maps_eq:
  "build_id_maps E d = Inr M \<longleftrightarrow> (\<forall>t\<in>set mapped_tables. ''text_id'' \<in> columns_of E t \<and> text_rows d t) \<and> M = id_maps_of d"
proof -
  have ok: "map_result (\<lambda>t. map_sum id (Pair t) (build_text_id_map E d t)) ts = Inr ps
      \<longleftrightarrow> (\<forall>t\<in>set ts. ''text_id'' \<in> columns_of E t \<and> text_rows d t) \<and> ps = map (\<lambda>t. (t, text_ids d t)) ts" for ts ps
  proof
    let ?f = "\<lambda>t. map_sum id (Pair t) (build_text_id_map E d t)"
    assume ok: "map_result ?f ts = Inr ps"
    have each: "''text_id'' \<in> columns_of E t \<and> text_rows d t" if t: "t \<in> set ts" for t
    proof -
      obtain y where "?f t = Inr y" using map_result_Inr [OF ok] t by blast
      then show ?thesis by (auto simp: build_text_id_map_eq split: if_splits)
    qed
    then have "map_result ?f ts = Inr (map (\<lambda>t. (t, text_ids d t)) ts)"
      by (intro map_result_pure) (simp add: build_text_id_map_eq)
    then show "(\<forall>t\<in>set ts. ''text_id'' \<in> columns_of E t \<and> text_rows d t) \<and> ps = map (\<lambda>t. (t, text_ids d t)) ts"
      using each ok by simp
  qed (auto intro!: map_result_pure simp: build_text_id_map_eq)
  have "map_of (map (\<lambda>t. (t, text_ids d t)) ts) u = (if u \<in> set ts then Some (text_ids d u) else None)" for ts u
    by (induction ts) auto
  then have mo: "map_of (map (\<lambda>t. (t, text_ids d t)) mapped_tables) = id_maps_of d"
    by (simp add: id_maps_of_def fun_eq_iff)
  show ?thesis
  proof (cases "map_result (\<lambda>t. map_sum id (Pair t) (build_text_id_map E d t)) mapped_tables")
    case (Inl e)
    then show ?thesis
      using ok [of mapped_tables "map (\<lambda>t. (t, text_ids d t)) mapped_tables"] by (auto simp: build_id_maps_def)
  next
    case (Inr ps)
    then show ?thesis
      using ok [of mapped_tables ps] mo by (auto simp: build_id_maps_def)
  qed
qed

section \<open>One table\<close>

definition fits_targets :: "rowid_maps \<Rightarrow> portable_db \<Rightarrow> portable_db \<Rightarrow> dump_entry \<Rightarrow> bool" where
  "fits_targets R d d' e \<longleftrightarrow> (\<forall>t\<in>targets e. maps_fit R d' t \<and> ran (text_ids d t) \<subseteq> ran (text_ids d' t))"

lemma row_of_entry:
  assumes "entry_rows E d M e = Inr rs" "r \<in> set rs"
  obtains i row xs where "(i, row) \<in> set (pdb_rows d (entry_table e))" "row_dump e M row = Inr xs" "r \<in> set xs"
proof -
  obtain xss where xss: "map_result (row_dump e M \<circ> snd) (pdb_rows d (entry_table e)) = Inr xss" "rs = sort_rows E (entry_sort e) (concat xss)"
    using assms(1) by (auto simp: entry_rows_eq map_sum_def split: if_splits sum.splits)
  then obtain xs where "xs \<in> set xss" "r \<in> set xs" using assms(2) by auto
  then show ?thesis
    using that map_result_Inr [OF xss(1)] by fastforce
qed

lemma row_dump_length: "row_dump e M row = Inr xs \<Longrightarrow> length xs \<le> 1"
  by (cases e) (auto simp: row_dump_def resolve_alias_def map_sum_def split: sum.splits sql_value.splits option.splits)

lemma map_result_length: "map_result f xs = Inr ys \<Longrightarrow> (\<And>x y. f x = Inr y \<Longrightarrow> length y \<le> 1) \<Longrightarrow> length (concat ys) \<le> length xs"
proof (induction xs arbitrary: ys)
  case (Cons x xs)
  then obtain y zs where "f x = Inr y" "map_result f xs = Inr zs" "ys = y # zs"
    by (auto simp: and_then_Inr_conv map_sum_def split: sum.splits)
  then show ?case
    using Cons.IH [of zs] Cons.prems(2) [of x y] Cons.prems(2) by fastforce
qed simp

lemma entry_rows_length:
  assumes "entry_rows E d M e = Inr rs"
  shows "length rs \<le> length (pdb_rows d (entry_table e))"
proof -
  obtain xss where xss: "map_result (row_dump e M \<circ> snd) (pdb_rows d (entry_table e)) = Inr xss" "rs = sort_rows E (entry_sort e) (concat xss)"
    using assms by (auto simp: entry_rows_eq map_sum_def split: if_splits sum.splits)
  then show ?thesis
    using map_result_length [OF xss(1)] row_dump_length by (fastforce simp: sort_rows_def)
qed

lemma row_lands:
  assumes good: "good_entry e" and rows: "entry_rows E d (id_maps_of d) e = Inr rs" "r \<in> set rs"
    and port: "portable_entry d e" and fits: "fits_targets R d d' e" and room: "has_room d' (entry_table e)"
  shows "lands E e (id_maps_of d') d' r (import_row E R e r d')"
    "list_all plain_name (map fst r) \<and> list_all plain_value (map snd r) \<and> r \<noteq> []"
proof -
  obtain i row xs where row: "(i, row) \<in> set (pdb_rows d (entry_table e))" "row_dump e (id_maps_of d) row = Inr xs" "r \<in> set xs"
    using row_of_entry [OF rows] by blast
  have cols: "entry_columns e \<subseteq> columns_of E (entry_table e)"
    using rows(1) by (auto simp: entry_rows_eq split: if_splits)
  have sub: "maps_fit R d' t \<and> ran (case id_maps_of d t of None \<Rightarrow> Map.empty | Some m \<Rightarrow> m) \<subseteq> ran (text_ids d' t)" if "t \<in> targets e" for t
    using fits that unfolding fits_targets_def id_maps_of_def by auto
  have "lands E e (id_maps_of d') d' r (import_row E R e r d')
      \<and> list_all plain_name (map fst r) \<and> list_all plain_value (map snd r) \<and> r \<noteq> []"
  proof (cases e)
    case (Table_entry sp)
    have "resolve_row_fks (id_maps_of d) (spec_table sp) (spec_fks sp) (map (\<lambda>c. (c, row c)) (spec_columns sp)) = Inr r"
      using row(2,3) by (auto simp: Table_entry row_dump_def map_sum_def split: sum.splits)
    moreover have "plain_value (row c)" if "c \<in> set (spec_columns sp)" for c
      using port row(1) that by (auto simp: Table_entry portable_entry_def entry_table_def list_all_iff)
    moreover have "target \<in> targets e" if "spec_fks sp = [(old, new, target)]" for old new target
      using that by (simp add: Table_entry targets_def)
    ultimately show ?thesis
      using import_regular_lands [of d' sp E "id_maps_of d" row r R] good cols sub room
      by (simp add: Table_entry good_entry_def entry_columns_def entry_table_def import_row_def Let_def)
  next
    case Alias_entry
    have "plain_value (row ''alias'')"
      using port row(1) by (auto simp: Alias_entry portable_entry_def entry_table_def list_all_iff)
    moreover have "target \<in> targets e" if "entity_type_table ty = Some target" for ty target
      using that by (auto simp: Alias_entry targets_def entity_type_table_def split: if_splits)
    ultimately show ?thesis
      using import_alias_lands [of d' E "id_maps_of d" row xs r R] cols sub row room
      by (simp add: Alias_entry entry_columns_def entry_table_def import_row_def Let_def row_dump_def)
  qed
  then show "lands E e (id_maps_of d') d' r (import_row E R e r d')"
    "list_all plain_name (map fst r) \<and> list_all plain_value (map snd r) \<and> r \<noteq> []" by blast+
qed

text \<open>What an imported table owes the later ones and the second dump.\<close>

definition entry_done :: "dump_env \<Rightarrow> portable_db \<Rightarrow> portable_db \<Rightarrow> rowid_maps \<Rightarrow> dump_entry \<Rightarrow> bool" where
  "entry_done E d d' R e \<longleftrightarrow>
     entry_rows E d' (id_maps_of d') e = entry_rows E d (id_maps_of d) e
     \<and> (has_text_id_column (entry_table e) \<longrightarrow> text_rows d' (entry_table e) \<and> maps_fit R d' (entry_table e)
          \<and> ran (text_ids d (entry_table e)) \<subseteq> ran (text_ids d' (entry_table e)))"

definition changes_only :: "string \<Rightarrow> portable_db \<times> rowid_maps \<Rightarrow> portable_db \<times> rowid_maps \<Rightarrow> bool" where
  "changes_only t s s' \<longleftrightarrow> (\<forall>u. u \<noteq> t \<longrightarrow> pdb_rows (fst s') u = pdb_rows (fst s) u \<and> snd s' u = snd s u)
     \<and> pdb_generation (fst s') = pdb_generation (fst s)"

definition entry_result :: "dump_env \<Rightarrow> portable_db \<Rightarrow> portable_db \<times> rowid_maps \<Rightarrow> dump_entry \<Rightarrow> import_error + portable_db \<times> rowid_maps \<Rightarrow> bool" where
  "entry_result E d s e res \<longleftrightarrow>
     res = Inl (Import_sqlite (entry_table e)) \<and> rejects E (entry_table e)
     \<or> (\<exists>d' R'. res = Inr (d', R') \<and> changes_only (entry_table e) s (d', R') \<and> entry_done E d d' R' e)"

lemma text_ids_only: "pdb_rows d t = pdb_rows d' t \<Longrightarrow> text_ids d t = text_ids d' t"
  by (simp add: text_ids_def)

lemma good_spec_fks:
  assumes "good_spec sp" "(old, new, target) \<in> set (spec_fks sp)"
  shows "spec_fks sp = [(old, new, target)] \<and> target \<noteq> spec_table sp"
proof (cases "spec_fks sp")
  case (Cons fk fks)
  then show ?thesis using assms by (cases fk; cases fks) (auto simp: good_spec_def)
qed (use assms in simp)

lemma entry_targets_not_self: "good_entry e \<Longrightarrow> entry_table e \<notin> targets e"
  by (cases e) (auto simp: good_entry_def targets_def entry_table_def dest: good_spec_fks)

lemma alias_no_text_id: "good_entry e \<Longrightarrow> has_text_id_column (entry_table e) \<Longrightarrow> \<exists>sp. e = Table_entry sp \<and> good_spec sp \<and> has_text_id_column (spec_table sp)"
  by (cases e) (auto simp: good_entry_def entry_table_def has_text_id_column_def)

text \<open>Rows that were imported in full make the entry done.\<close>

lemma imported_text_rows:
  assumes good: "good_entry e" and rows: "entry_rows E d (id_maps_of d) e = Inr rs" and port: "portable_entry d e"
    and again: "map_result (row_dump e (id_maps_of d') \<circ> snd) (pdb_rows d' (entry_table e)) = Inr (map (\<lambda>r. [r]) rs)"
    and ids: "ids_ok (pdb_rows d' (entry_table e))" and has: "has_text_id_column (entry_table e)"
  shows "text_rows d' (entry_table e) \<and> ran (text_ids d (entry_table e)) \<subseteq> ran (text_ids d' (entry_table e))"
proof -
  obtain sp where sp: "e = Table_entry sp" "good_spec sp" "has_text_id_column (spec_table sp)"
    using alias_no_text_id [OF good has] by blast
  obtain xss where xss: "map_result (row_dump e (id_maps_of d) \<circ> snd) (pdb_rows d (spec_table sp)) = Inr xss" "rs = sort_rows E (entry_sort e) (concat xss)"
    using rows by (auto simp: entry_rows_eq map_sum_def sp(1) entry_table_def split: if_splits sum.splits)
  have "Some ` text_values d (spec_table sp) = (\<lambda>r. map_of r ''text_id'') ` set rs"
    using text_values_dumped [OF sp(2,3)] xss sp(1) by simp
  moreover have "Some ` text_values d' (spec_table sp) = (\<lambda>r. map_of r ''text_id'') ` set rs"
    using text_values_dumped [OF sp(2,3), of "id_maps_of d'" d'] again sp(1) by (simp add: entry_table_def)
  ultimately have same: "text_values d' (spec_table sp) = text_values d (spec_table sp)"
    by (metis inj_image_eq_iff inj_Some)
  have "text_rows d (spec_table sp)"
    using port sp by (auto simp: portable_entry_def text_rows_def list_all_iff)
  then have "text_rows d' (spec_table sp)"
    using same by (simp add: text_rows_values)
  moreover have "ran (text_ids d (spec_table sp)) \<subseteq> ran (text_ids d' (spec_table sp))"
    using ran_text_ids_subset [of d "spec_table sp"] ran_text_ids [of d' "spec_table sp"] ids same sp(1) by (simp add: entry_table_def)
  ultimately show ?thesis by (simp add: sp(1) entry_table_def)
qed

lemma entry_done_rows:
  assumes "good_entry e" "entry_rows E d (id_maps_of d) e = Inr rs" "portable_entry d e"
    and "map_result (row_dump e (id_maps_of d') \<circ> snd) (pdb_rows d' (entry_table e)) = Inr (map (\<lambda>r. [r]) rs)"
    and "ids_ok (pdb_rows d' (entry_table e))"
    and "has_text_id_column (entry_table e) \<Longrightarrow> maps_fit R d' (entry_table e)"
  shows "entry_done E d d' R e"
  unfolding entry_done_def
  using entry_rows_again [OF assms(2,4)] imported_text_rows [OF assms(1-5)] assms(2,6) by simp

end
