(* ===== verification/Dump_Import.thy ===== *)
theory Dump_Import
  imports Dump_Round
begin

text \<open>The import of a whole dump, table by table.\<close>

section \<open>Texts that are not blank\<close>

lemma first_of_three:
  fixes f :: "nat \<Rightarrow> nat"
  shows "(if a \<and> f 1 = 1 then 1 else if b \<and> f 2 = 2 then 2 else if c \<and> f 3 = 3 then 3 else 0) = k \<Longrightarrow> k \<noteq> 0 \<Longrightarrow> f k \<noteq> 0"
  by (auto split: if_splits)

lemma space_len_end_space: "space_len_end s \<noteq> 0 \<Longrightarrow> space_len (drop (length s - space_len_end s) s) \<noteq> 0"
  by (rule first_of_three [where f = "\<lambda>n. space_len (drop (length s - n) s)", OF space_len_end_def [symmetric]])

lemma trim_end_visible: "s \<noteq> [] \<Longrightarrow> visible (hd s) \<Longrightarrow> trim_end s \<noteq> []"
proof (induction s rule: trim_end.induct)
  case (1 s)
  let ?k = "space_len_end s"
  show ?case
  proof (cases "?k = 0")
    case True
    then show ?thesis using 1 by (subst trim_end.simps) simp
  next
    case False
    have "?k \<noteq> length s"
    proof
      assume "?k = length s"
      then have "space_len s \<noteq> 0"
        using space_len_end_space [OF False] by simp
      then show False using space_len_visible [of s] 1(2,3) by simp
    qed
    then have "0 < length s - ?k"
      using space_len_end_le [of s] by linarith
    then have "take (length s - ?k) s \<noteq> []" "hd (take (length s - ?k) s) = hd s"
      using 1(2) by (simp_all only: hd_take take_eq_Nil) simp
    then have "trim_end (take (length s - ?k) s) \<noteq> []"
      using 1(1) [OF False] 1(3) by simp
    moreover have "trim_end s = trim_end (take (length s - ?k) s)"
      using trim_end.simps [of s] False by simp
    ultimately show ?thesis by simp
  qed
qed

lemma not_blank: "s \<noteq> [] \<Longrightarrow> visible (hd s) \<Longrightarrow> \<not> is_blank s"
  using trim_end_visible [of s] by (simp add: is_blank_def trim_def trim_start.simps [of s] space_len_visible)

lemma blank_Nil: "is_blank []"
  by (simp add: is_blank_def trim_def trim_start.simps trim_end.simps space_len_end_def)

section \<open>The text of an entry\<close>

lemma epochs_text:
  assumes "good_rows ''epochs_data'' rs" "with_projection_generation (rows_text E ''epochs_data'' rs) g = Inr s"
  shows "\<exists>h. s = h @ nl # rows_text E ''epochs_data'' rs \<and> nl \<notin> set h \<and> strip_cr h = h
    \<and> trim h = h \<and> starts_with h ''--'' \<and> visible (hd s) \<and> s \<noteq> []"
proof -
  let ?h = "projection_generation_prefix @ show_int g"
  have "0 \<le> g"
    using assms(2) by (auto simp: with_projection_generation_def render_projection_generation_header_def split: if_splits)
  then have digits: "list_all is_digit (show_int g)" "show_int g \<noteq> []"
    using show_nat_digits [of "nat g"] by (simp_all add: show_int_def)
  have body: "projection_body (rows_text E ''epochs_data'' rs) = rows_text E ''epochs_data'' rs"
    using lines_of_rows [OF assms(1), of E]
    by (cases rs) (simp_all add: projection_body_def rows_text_def row_to_insert_def starts_with_def strip_prefix_def projection_generation_prefix_def)
  have s: "s = ?h @ nl # rows_text E ''epochs_data'' rs"
    using assms(2) body by (auto simp: with_projection_generation_def render_projection_generation_header_def Let_def split: if_splits)
  have "nl \<notin> set (show_int g)" using digits(1) by (auto simp: list_all_iff is_digit_def)
  then have "nl \<notin> set ?h" by (simp add: projection_generation_prefix_def)
  moreover have "strip_cr ?h = ?h"
    using digits by (auto simp: strip_cr_def list_all_iff is_digit_def dest!: last_in_set)
  moreover have "trim ?h = ?h"
  proof -
    have vis: "list_all visible (''n='' @ show_int g)"
      using digits(1) by (auto simp: list_all_iff is_digit_def visible_def)
    obtain p where p: "?h = p @ ''n='' @ show_int g" "visible (hd ?h)" "?h \<noteq> []"
      by (simp add: projection_generation_prefix_def visible_def)
    have tail: "visible (?h ! (length ?h - n))" if "n \<in> {1, 2, 3}" for n
    proof -
      have "n \<le> length (''n='' @ show_int g)" using that digits(2) by (cases "show_int g") auto
      then have "?h ! (length ?h - n) = (''n='' @ show_int g) ! (length (''n='' @ show_int g) - n)"
        unfolding p(1) by (auto simp: nth_append)
      moreover have "length (''n='' @ show_int g) - n < length (''n='' @ show_int g)" using that by auto
      ultimately show ?thesis using vis by (simp only: list_all_length)
    qed
    show ?thesis
      using p(2,3) tail [of 1] tail [of 2] tail [of 3] by (intro trim_visible) (simp_all add: last_conv_nth)
  qed
  moreover have "starts_with ?h ''--''" "visible (hd s)" "s \<noteq> []"
    by (simp_all add: s projection_generation_prefix_def starts_with_def strip_prefix_def visible_def)
  ultimately show ?thesis using s by blast
qed

lemma rows_text_Nil [simp]: "rows_text E t [] = []"
  by (simp add: rows_text_def)

lemma rows_text_start: "rs \<noteq> [] \<Longrightarrow> rows_text E t rs \<noteq> [] \<and> visible (hd (rows_text E t rs))"
  by (cases rs) (simp_all add: rows_text_def row_to_insert_def visible_def)

text \<open>Importing an entry's text is importing its lines, or nothing when there are no rows.\<close>

lemma import_text:
  assumes written: "dump_entry_text E d M e = Inr (t, s)" and rows: "entry_rows E d M e = Inr rs" and good: "good_rows (entry_table e) rs"
  shows "t = entry_table e
    \<and> ((\<exists>n. import_all E [(t, s)] (d', R) = and_then (import_lines E R t n (map (row_to_insert (show_real E) t) rs) d') (\<lambda>d''.
            if has_text_id_column t then map_sum id (\<lambda>m. (d'', R(t \<mapsto> m))) (build_reverse_text_id_map d'' t) else Inr (d'', R)))
       \<or> rs = [] \<and> import_all E [(t, s)] (d', R) = Inr (d', R))"
proof -
  have one: "import_all E [(t, s)] (d', R) = (if is_blank s then Inr (d', R) else import_single_table E t s (d', R))" for t s
    by (cases "import_single_table E t s (d', R)") simp_all
  show ?thesis
  proof (cases "entry_table e = ''epochs_data''")
    case True
    then have t: "t = ''epochs_data''" "with_projection_generation (rows_text E ''epochs_data'' rs) (pdb_generation d) = Inr s"
      using written rows by (auto simp: dump_entry_text_def split: sum.splits)
    obtain h where h: "s = h @ nl # rows_text E ''epochs_data'' rs" "nl \<notin> set h" "strip_cr h = h" "trim h = h"
        "starts_with h ''--''" "visible (hd s)" "s \<noteq> []"
      using epochs_text [OF _ t(2)] good True by auto
    have "text_lines s = h # map (row_to_insert (show_real E) t) rs"
      using lines_of_rows [of t rs E] good True t(1) h(2,3) by (simp add: h(1) text_lines_cons)
    moreover have "import_line E R t 1 h d' = Inr d'"
      using h(4,5) by (simp add: import_line_def)
    ultimately show ?thesis
      using not_blank [OF h(7,6)] True t(1) by (auto simp: one import_single_table_def simp del: import_all.simps)
  next
    case False
    then have t: "t = entry_table e" "s = rows_text E t rs"
      using written rows by (auto simp: dump_entry_text_def)
    show ?thesis
    proof (cases "rs = []")
      case True
      then show ?thesis using t blank_Nil by (simp add: one del: import_all.simps)
    next
      case rs: False
      have "text_lines s = map (row_to_insert (show_real E) t) rs"
        using lines_of_rows [of t rs E] good t by simp
      then show ?thesis
        using not_blank rows_text_start [OF rs] t by (auto simp: one import_single_table_def simp del: import_all.simps)
    qed
  qed
qed

lemma import_entry:
  assumes good: "good_entry e" and name: "list_all name_char (entry_table e)" and written: "dump_entry_text E d (id_maps_of d) e = Inr (t, s)" and port: "portable_entry d e"
    and fits: "fits_targets R d d' e" and fresh: "pdb_rows d' (entry_table e) = []" "R (entry_table e) = None"
  shows "t = entry_table e" "entry_result E d (d', R) e (import_all E [(t, s)] (d', R))"
proof -
  let ?t = "entry_table e"
  obtain rs where rows: "entry_rows E d (id_maps_of d) e = Inr rs"
    using written by (auto simp: dump_entry_text_def and_then_Inr_conv)
  have land: "list_all plain_name (map fst r) \<and> list_all plain_value (map snd r) \<and> r \<noteq> []" if "r \<in> set rs" for r
    using row_lands(2) [OF good rows that port fits] fresh by (simp add: has_room_def next_rowid_def)
  then have gr: "good_rows ?t rs" using name by (simp add: good_rows_def)
  show t: "t = ?t" using import_text [OF written rows gr] by blast
  have lines: "rows_land E e rs d' (import_lines E R ?t n (map (row_to_insert (show_real E) ?t) rs) d')" for n
  proof (rule import_lines_land [OF good gr entry_targets_not_self [OF good]])
    show "lands E e (id_maps_of v) v r (import_row E R e r v)"
      if "r \<in> set rs" "\<And>t. t \<noteq> ?t \<Longrightarrow> pdb_rows v t = pdb_rows d' t" "has_room v ?t" for v r
    proof (rule row_lands(1) [OF good rows that(1) port])
      have "text_ids v u = text_ids d' u \<and> maps_fit R v u = maps_fit R d' u" if "u \<in> targets e" for u
      proof -
        have "u \<noteq> ?t" using that entry_targets_not_self [OF good] by blast
        then have "text_ids v u = text_ids d' u" using \<open>\<And>t. t \<noteq> ?t \<Longrightarrow> pdb_rows v t = pdb_rows d' t\<close> text_ids_only by blast
        then show ?thesis by (simp add: maps_fit_def)
      qed
      then show "fits_targets R d v e" using fits by (simp add: fits_targets_def)
    qed (rule that(3))
    show "int (length (pdb_rows d' ?t) + length rs) < 2 ^ 63"
      using entry_rows_length [OF rows] port fresh by (simp add: portable_entry_def)
  qed (simp add: fresh)
  show "entry_result E d (d', R) e (import_all E [(t, s)] (d', R))"
  proof (cases "rs = [] \<and> import_all E [(t, s)] (d', R) = Inr (d', R)")
    case True
    have "entry_done E d d' R e"
      by (rule entry_done_rows [OF good rows port]) (use True fresh maps_fit_empty in auto)
    then show ?thesis
      using True by (auto simp: entry_result_def changes_only_def)
  next
    case False
    then obtain n where imp: "import_all E [(t, s)] (d', R) = and_then (import_lines E R ?t n (map (row_to_insert (show_real E) ?t) rs) d') (\<lambda>d''.
            if has_text_id_column ?t then map_sum id (\<lambda>m. (d'', R(?t \<mapsto> m))) (build_reverse_text_id_map d'' ?t) else Inr (d'', R))"
      using import_text [OF written rows gr] t by blast
    from lines [of n] show ?thesis
      unfolding rows_land_def
    proof (elim disjE exE conjE)
      assume "import_lines E R ?t n (map (row_to_insert (show_real E) ?t) rs) d' = Inl (Import_sqlite ?t)" "rejects E ?t"
      then show ?thesis unfolding entry_result_def imp by simp
    next
      fix new
      let ?d = "d'\<lparr>pdb_rows := (pdb_rows d')(?t := pdb_rows d' ?t @ new)\<rparr>"
      assume res: "import_lines E R ?t n (map (row_to_insert (show_real E) ?t) rs) d' = Inr ?d"
        and ids: "ids_ok (pdb_rows d' ?t @ new)"
        and new: "map_result (row_dump e (id_maps_of d') \<circ> snd) new = Inr (map (\<lambda>r. [r]) rs)"
      have same: "row_dump e (id_maps_of ?d) = row_dump e (id_maps_of d')"
        using entry_targets_not_self [OF good] by (intro ext row_dump_cong id_maps_of_other) auto
      have again: "map_result (row_dump e (id_maps_of ?d) \<circ> snd) (pdb_rows ?d ?t) = Inr (map (\<lambda>r. [r]) rs)"
        unfolding same using new fresh by simp
      have ids': "ids_ok (pdb_rows ?d ?t)" using ids by simp
      have finish: "entry_result E d (d', R) e (Inr (?d, R'))"
        if "entry_done E d ?d R' e" "\<And>u. u \<noteq> ?t \<Longrightarrow> R' u = R u" for R'
        using that by (auto simp: entry_result_def changes_only_def)
      show ?thesis
      proof (cases "has_text_id_column ?t")
        case has: True
        have "entry_done E d ?d (R(?t \<mapsto> m)) e" if "build_reverse_text_id_map ?d ?t = Inr m" for m
          by (rule entry_done_rows [OF good rows port again ids']) (rule reverse_map_fits [OF that ids'])
        moreover have "\<exists>m. build_reverse_text_id_map ?d ?t = Inr m"
          using imported_text_rows [OF good rows port again ids' has] by (simp add: build_reverse_text_id_map_def text_rows_def)
        ultimately show ?thesis
          unfolding imp using finish by (auto simp: res has)
      next
        case False
        have "entry_done E d ?d R e"
          by (rule entry_done_rows [OF good rows port again ids']) (use False in simp)
        then show ?thesis unfolding imp using finish [of R] by (simp add: res False)
      qed
    qed
  qed
qed

end
