(* ===== verification/Dump_Whole.thy ===== *)
theory Dump_Whole
  imports Dump_Import
begin

text \<open>
  The projection is lossless: reading a dump into an empty database and dumping that gives the
  same text, unless the database refuses a row. The one exception are the relations between RFCs,
  which are dumped under a column the reader does not know.
\<close>

section \<open>The order of the tables\<close>

text \<open>Every table comes after the tables its foreign keys point to, and once.\<close>

fun in_order :: "string set \<Rightarrow> dump_entry list \<Rightarrow> bool" where
  "in_order seen [] \<longleftrightarrow> True"
| "in_order seen (e # es) \<longleftrightarrow>
     entry_table e \<notin> seen \<and> targets e \<subseteq> Collect has_text_id_column \<inter> seen \<and> in_order (insert (entry_table e) seen) es"

lemma entries_in_order: "in_order {} (butlast dump_entries)"
  by (simp add: dump_entries_def spec_defs targets_def entry_table_def has_text_id_column_def entity_type_table_def)

lemma entries_named: "list_all (\<lambda>e. list_all name_char (entry_table e)) dump_entries"
  by (simp add: dump_entries_def spec_defs entry_table_def name_char_def)

lemma mapped_entries: "set mapped_tables \<subseteq> {t. has_text_id_column t \<and> t \<in> entry_table ` set (butlast dump_entries)}"
  by (simp add: dump_entries_def spec_defs entry_table_def mapped_tables_def has_text_id_column_def)

lemma last_entry: "dump_entries \<noteq> [] \<and> entry_table (last dump_entries) = ''rfc_relations'' \<and> ''rfc_relations'' \<notin> entry_table ` set (butlast dump_entries)"
  by (simp add: dump_entries_def spec_defs entry_table_def)

section \<open>Imports table by table\<close>

lemma import_all_append: "import_all E (xs @ ys) s = and_then (import_all E xs s) (import_all E ys)"
proof (induction xs arbitrary: s)
  case (Cons x xs)
  show ?case
    by (cases x; cases "import_single_table E (fst x) (snd x) s") (simp_all add: Cons)
qed simp

lemma entry_rows_other:
  assumes "pdb_rows d'' (entry_table e) = pdb_rows d' (entry_table e)" "\<And>t. t \<in> targets e \<Longrightarrow> pdb_rows d'' t = pdb_rows d' t"
  shows "entry_rows E d'' (id_maps_of d'') e = entry_rows E d' (id_maps_of d') e"
proof -
  have "id_maps_of d'' t = id_maps_of d' t" if "t \<in> targets e" for t
    using text_ids_only [OF assms(2) [OF that]] by (simp add: id_maps_of_def)
  then have "row_dump e (id_maps_of d'') = row_dump e (id_maps_of d')"
    by (intro ext row_dump_cong)
  then show ?thesis by (simp add: entry_rows_eq assms(1))
qed

lemma entry_done_other:
  assumes "entry_done E d d' R e" "changes_only u (d', R) (d'', R'')" "u \<noteq> entry_table e" "u \<notin> targets e"
  shows "entry_done E d d'' R'' e"
proof -
  have same: "pdb_rows d'' t = pdb_rows d' t" "R'' t = R t" if "t \<noteq> u" for t
    using assms(2) that by (auto simp: changes_only_def)
  have "entry_rows E d'' (id_maps_of d'') e = entry_rows E d' (id_maps_of d') e"
    using assms(3,4) by (intro entry_rows_other same(1)) auto
  moreover have "text_ids d'' (entry_table e) = text_ids d' (entry_table e)"
    using assms(3) by (intro text_ids_only same(1)) auto
  ultimately show ?thesis
    using assms(1,3) same by (simp add: entry_done_def text_rows_def maps_fit_def)
qed

text \<open>What holds between two tables: those read so far are finished, the others untouched.\<close>

definition between :: "dump_env \<Rightarrow> portable_db \<Rightarrow> dump_entry list \<Rightarrow> dump_entry list \<Rightarrow> portable_db \<times> rowid_maps \<Rightarrow> bool" where
  "between E d ds es = (\<lambda>(d', R).
     (\<forall>e\<in>set ds. entry_done E d d' R e \<and> targets e \<subseteq> entry_table ` set ds)
     \<and> (\<forall>e\<in>set es. pdb_rows d' (entry_table e) = [] \<and> R (entry_table e) = None))"

lemma between_fits:
  assumes "between E d ds es (d', R)" "targets e \<subseteq> Collect has_text_id_column \<inter> entry_table ` set ds"
  shows "fits_targets R d d' e"
  using assms by (fastforce simp: between_def fits_targets_def entry_done_def)

lemma between_step:
  assumes "between E d ds (e # es) s" "in_order (entry_table ` set ds) (e # es)"
    and "changes_only (entry_table e) s (d'', R'')" "entry_done E d d'' R'' e"
  shows "between E d (ds @ [e]) es (d'', R'')"
proof -
  obtain d' R where s: "s = (d', R)" by (cases s)
  have new: "entry_table e \<notin> entry_table ` set ds" "targets e \<subseteq> entry_table ` set ds" using assms(2) by auto
  have later: "entry_table u \<noteq> entry_table e" if "u \<in> set es" for u
  proof -
    have "in_order seen us \<Longrightarrow> u \<in> set us \<Longrightarrow> entry_table u \<notin> seen" for seen us
      by (induction seen us rule: in_order.induct) auto
    then show ?thesis using assms(2) that by auto
  qed
  have "entry_done E d d'' R'' u \<and> targets u \<subseteq> entry_table ` set (ds @ [e])" if "u \<in> set ds" for u
    using assms(1,3) that new by (auto simp: between_def s intro!: entry_done_other [of E d d' R u "entry_table e" d'' R''])
  moreover have "pdb_rows d'' (entry_table u) = [] \<and> R'' (entry_table u) = None" if "u \<in> set es" for u
    using assms(1,3) later [OF that] that by (auto simp: between_def s changes_only_def)
  ultimately show ?thesis
    using assms(4) new by (auto simp: between_def)
qed

lemma import_entries:
  assumes "between E d ds es s" "in_order (entry_table ` set ds) es"
    and "list_all (\<lambda>e. good_entry e \<and> list_all name_char (entry_table e) \<and> portable_entry d e) es"
    and "map_result (dump_entry_text E d (id_maps_of d)) es = Inr dumps"
  shows "(\<exists>t. import_all E dumps s = Inl (Import_sqlite t) \<and> rejects E t)
    \<or> (\<exists>d'' R''. import_all E dumps s = Inr (d'', R'') \<and> between E d (ds @ es) [] (d'', R'')
         \<and> (\<forall>t. t \<notin> entry_table ` set es \<longrightarrow> pdb_rows d'' t = pdb_rows (fst s) t))"
  using assms
proof (induction es arbitrary: ds s dumps)
  case Nil
  then show ?case by (cases s) simp
next
  case (Cons e es)
  obtain d' R where s: "s = (d', R)" by (cases s)
  obtain t content rest where dumps: "dumps = (t, content) # rest" "dump_entry_text E d (id_maps_of d) e = Inr (t, content)"
      "map_result (dump_entry_text E d (id_maps_of d)) es = Inr rest"
    using Cons.prems(4) by (auto simp: and_then_Inr_conv map_sum_def split: sum.splits)
  have split: "import_all E dumps s = and_then (import_all E [(t, content)] s) (import_all E rest)"
    using import_all_append [of E "[(t, content)]" rest s] dumps(1) by simp
  have "entry_result E d s e (import_all E [(t, content)] s)"
    unfolding s using Cons.prems(1-3) dumps(2) between_fits
    by (intro import_entry(2)) (auto simp: between_def s)
  then consider "import_all E [(t, content)] s = Inl (Import_sqlite (entry_table e))" "rejects E (entry_table e)"
    | d1 R1 where "import_all E [(t, content)] s = Inr (d1, R1)" "changes_only (entry_table e) s (d1, R1)" "entry_done E d d1 R1 e"
    unfolding entry_result_def by blast
  then show ?case
  proof cases
    case 1
    then show ?thesis unfolding split by auto
  next
    case (2 d1 R1)
    have "between E d (ds @ [e]) es (d1, R1)"
      using between_step [OF Cons.prems(1,2) 2(2,3)] .
    moreover have "in_order (entry_table ` set (ds @ [e])) es" using Cons.prems(2) by simp
    moreover have "pdb_rows d1 u = pdb_rows (fst s) u" if "u \<noteq> entry_table e" for u
      using 2(2) that by (auto simp: changes_only_def)
    ultimately show ?thesis
      using Cons.IH [of "ds @ [e]" "(d1, R1)" rest] Cons.prems(3) dumps(3) unfolding split 2(1) by auto
  qed
qed

section \<open>The round trip\<close>

lemma dump_tables_eq:
  "dump_tables E d = Inr dumps \<longleftrightarrow>
     (\<forall>t\<in>set mapped_tables. ''text_id'' \<in> columns_of E t \<and> text_rows d t)
     \<and> map_result (dump_entry_text E d (id_maps_of d)) dump_entries = Inr dumps"
proof (cases "build_id_maps E d")
  case (Inl e)
  then show ?thesis
    using build_id_maps_eq [of E d "id_maps_of d"] by (auto simp: dump_tables_def)
next
  case (Inr M)
  moreover from this have "M = id_maps_of d" "\<forall>t\<in>set mapped_tables. ''text_id'' \<in> columns_of E t \<and> text_rows d t"
    using build_id_maps_eq [of E d M] by blast+
  ultimately show ?thesis by (simp add: dump_tables_def)
qed

text \<open>A table without rows is written as the empty text.\<close>

lemma no_rows_no_text:
  assumes "dump_entry_text E d M e = Inr (t, content)" "pdb_rows d (entry_table e) = []" "entry_table e \<noteq> ''epochs_data''"
  shows "content = []"
  using assms by (auto simp: dump_entry_text_def entry_rows_eq and_then_Inr_conv sort_rows_def split: if_splits)

lemma dump_again:
  assumes "between E d (butlast dump_entries) [] (d', R)" "pdb_rows d ''rfc_relations'' = []" "pdb_rows d' ''rfc_relations'' = []"
    and "dump_tables E d = Inr dumps"
  shows "dump_tables E (d'\<lparr>pdb_generation := pdb_generation d\<rparr>) = Inr dumps"
proof -
  let ?d = "d'\<lparr>pdb_generation := pdb_generation d\<rparr>"
  have ids: "id_maps_of ?d = id_maps_of d'" by (simp add: id_maps_of_def text_ids_def fun_eq_iff)
  have finished: "entry_done E d d' R e" if "e \<in> set (butlast dump_entries)" for e
    using assms(1) that by (simp add: between_def)
  have "text_rows ?d t" if "t \<in> set mapped_tables" for t
    using mapped_entries finished that by (fastforce simp: entry_done_def text_rows_def)
  moreover have "dump_entry_text E ?d (id_maps_of ?d) e = dump_entry_text E d (id_maps_of d) e" if e: "e \<in> set dump_entries" for e
  proof -
    have "entry_rows E d' (id_maps_of d') e = entry_rows E d (id_maps_of d) e"
    proof (cases "e \<in> set (butlast dump_entries)")
      case True
      then show ?thesis using finished by (simp add: entry_done_def)
    next
      case False
      then have "e = last dump_entries"
        using e last_entry by (metis append_butlast_last_id in_set_conv_decomp rotate1.simps(2) set_ConsD set_rotate1)
      then show ?thesis using last_entry assms(2,3) by (simp add: entry_rows_eq)
    qed
    moreover have "entry_rows E ?d (id_maps_of ?d) e = entry_rows E d' (id_maps_of d') e"
      unfolding ids by (simp add: entry_rows_eq)
    moreover have "pdb_generation ?d = pdb_generation d" by simp
    ultimately show ?thesis unfolding dump_entry_text_def by (simp only:)
  qed
  ultimately show ?thesis
    using assms(4) unfolding dump_tables_eq by (simp cong: map_result_cong)
qed

text \<open>
  C3. The projection is lossless. When no value to be dumped is a floating-point number or a blob,
  and there are no relations between RFCs, reading a dump into an empty database and dumping that
  database at the same generation gives the dump again: the only failure is that the database
  itself refuses a row.
\<close>

theorem projection_lossless:
  assumes "portable d" "pdb_rows d0 = (\<lambda>_. [])" "dump_tables E d = Inr dumps"
  shows "(\<exists>d'. import_tables E dumps d0 = Inr d' \<and> dump_tables E (d'\<lparr>pdb_generation := pdb_generation d\<rparr>) = Inr dumps)
    \<or> (\<exists>t. import_tables E dumps d0 = Inl (Import_sqlite t) \<and> rejects E t)"
proof -
  let ?es = "butlast dump_entries" and ?f = "dump_entry_text E d (id_maps_of d)"
  have entries: "dump_entries = ?es @ [last dump_entries]" using last_entry by simp
  obtain xs t content where dumps: "dumps = xs @ [(t, content)]" "map_result ?f ?es = Inr xs" "?f (last dump_entries) = Inr (t, content)"
    using assms(3) unfolding dump_tables_eq by (subst (asm) entries) (auto simp: map_result_append and_then_Inr_conv map_sum_def split: sum.splits)
  have "content = []"
    using no_rows_no_text [OF dumps(3)] last_entry assms(1) by (simp add: portable_def)
  then have split: "import_all E dumps s = import_all E xs s" for s
    by (cases "import_all E xs s") (simp_all add: dumps(1) import_all_append blank_Nil)
  have "between E d [] ?es (d0, Map.empty)"
    using assms(2) by (simp add: between_def)
  moreover have "list_all (\<lambda>e. good_entry e \<and> list_all name_char (entry_table e) \<and> portable_entry d e) ?es"
    using good_entries entries_named assms(1) in_set_butlastD unfolding portable_def list_all_iff by fast
  ultimately consider t where "import_all E xs (d0, Map.empty) = Inl (Import_sqlite t)" "rejects E t"
    | d' R where "import_all E xs (d0, Map.empty) = Inr (d', R)" "between E d ?es [] (d', R)" "pdb_rows d' ''rfc_relations'' = []"
    using import_entries [OF _ _ _ dumps(2), of "[]" "(d0, Map.empty)"] entries_in_order last_entry assms(2) by fastforce
  then show ?thesis
  proof cases
    case 1
    then show ?thesis by (simp add: import_tables_def split)
  next
    case (2 d' R)
    have "dump_tables E (d'\<lparr>pdb_generation := pdb_generation d\<rparr>) = Inr dumps"
      using dump_again [OF 2(2) _ 2(3) assms(3)] assms(1) by (simp add: portable_def)
    then show ?thesis by (simp add: import_tables_def split 2(1))
  qed
qed

definition sample_env :: dump_env where
  "sample_env = \<lparr>show_real = (\<lambda>_. ''0.0''), columns_of = (\<lambda>t. if t = ''rfc_relations'' then {''rfc_id'', ''related_rfc'', ''relation''} else UNIV),
     default_value = (\<lambda>_ _. SqlNull), accepts = (\<lambda>_ _ _. True)\<rparr>"

definition sample_db :: "dump_row list \<Rightarrow> portable_db" where
  "sample_db relations = \<lparr>pdb_rows =
     (\<lambda>t. if t = ''epochs_data'' then [(7, \<lambda>c. if c = ''text_id'' then SqlText ''e'' else SqlNull)]
        else if t = ''phases_data'' then [(3, \<lambda>c. if c = ''text_id'' then SqlText [CHR 0x27, nl] else if c = ''epoch_id'' then SqlInteger 7 else SqlNull)]
        else if t = ''rfcs_data'' then [(2, \<lambda>c. if c = ''text_id'' then SqlText ''r'' else SqlNull)]
        else if t = ''rfc_relations'' then map (\<lambda>r. (1, \<lambda>c. case map_of r c of Some v \<Rightarrow> v | None \<Rightarrow> SqlNull)) relations
        else []),
     pdb_generation = 5\<rparr>"

definition sample_relation :: dump_row where
  "sample_relation = [(''rfc_id'', SqlInteger 2), (''related_rfc'', SqlText ''s''), (''relation'', SqlText ''extends'')]"

lemmas sample_defs = sample_relation_def sample_env_def sample_db_def dump_entry_text_def entry_rows_eq entry_columns_def row_dump_def entry_table_def
  entry_sort_def spec_defs with_projection_generation_def render_projection_generation_header_def text_rows_def as_text_def
  mapped_tables_def Let_def max_writer_generation_def id_maps_of_def text_ids_def resolve_fk_def

lemma map_result_total: "(\<exists>ys. map_result f xs = Inr ys) \<longleftrightarrow> list_all (\<lambda>x. \<not> isl (f x)) xs"
proof (induction xs)
  case (Cons x xs)
  then show ?case
    by (cases "f x"; cases "map_result f xs") auto
qed simp

lemma dumps_exist: "(\<exists>dumps. dump_tables E d = Inr dumps) \<longleftrightarrow>
    list_all (\<lambda>t. ''text_id'' \<in> columns_of E t \<and> text_rows d t) mapped_tables
    \<and> list_all (\<lambda>e. \<not> isl (dump_entry_text E d (id_maps_of d) e)) dump_entries"
  unfolding dump_tables_eq by (simp add: map_result_total [symmetric] list_all_iff)

lemma sample_dumps:
  assumes "relations = [] \<or> relations = [sample_relation]"
  shows "\<exists>dumps. dump_tables sample_env (sample_db relations) = Inr dumps"
  unfolding dumps_exist
proof
  show "list_all (\<lambda>t. ''text_id'' \<in> columns_of sample_env t \<and> text_rows (sample_db relations) t) mapped_tables"
    by (simp add: sample_defs)
  show "list_all (\<lambda>e. \<not> isl (dump_entry_text sample_env (sample_db relations) (id_maps_of (sample_db relations)) e)) dump_entries"
    using assms by (elim disjE) (simp_all add: dump_entries_def sample_defs)
qed

lemma sample_portable: "portable (sample_db [])"
  by (simp add: portable_def dump_entries_def portable_entry_def sample_db_def entry_table_def spec_defs plain_value_def has_text_id_column_def as_text_def)

lemma projection_lossless_witness:
  "\<exists>dumps d'. dump_tables sample_env (sample_db []) = Inr dumps \<and> import_tables sample_env dumps \<lparr>pdb_rows = (\<lambda>_. []), pdb_generation = 0\<rparr> = Inr d'
     \<and> dump_tables sample_env (d'\<lparr>pdb_generation := 5\<rparr>) = Inr dumps"
proof -
  obtain dumps where dumps: "dump_tables sample_env (sample_db []) = Inr dumps"
    using sample_dumps [of "[]"] by auto
  have "\<not> rejects sample_env t" for t
    by (simp add: rejects_def sample_env_def)
  moreover have "pdb_generation (sample_db []) = 5" by (simp add: sample_db_def)
  ultimately show ?thesis
    using projection_lossless [OF sample_portable _ dumps, of "\<lparr>pdb_rows = (\<lambda>_. []), pdb_generation = 0\<rparr>"] dumps by auto
qed

section \<open>Relations between RFCs\<close>

text \<open>
  C38. A dump with a relation between RFCs cannot be read back: the relation is written under the
  column of the text id, which is not among the columns the reader translates, and the table has
  no such column.
\<close>

theorem rfc_relation_not_readable:
  assumes "dump_tables E d = Inr dumps" "pdb_rows d ''rfc_relations'' \<noteq> []" "''rfc_text_id'' \<notin> columns_of E ''rfc_relations''"
    and "list_all (\<lambda>(_, row). \<exists>i. row ''rfc_id'' = SqlInteger i \<and> plain_value (row ''related_rfc'') \<and> plain_value (row ''relation''))
           (pdb_rows d ''rfc_relations'')"
  shows "\<exists>e. import_tables E dumps d0 = Inl e"
proof -
  let ?t = "''rfc_relations''" and ?e = "last dump_entries" and ?f = "dump_entry_text E d (id_maps_of d)"
  let ?row = "\<lambda>s row. [(''rfc_text_id'', SqlText s), (''related_rfc'', row ''related_rfc''), (''relation'', row ''relation'')]"
  have entries: "dump_entries = butlast dump_entries @ [?e]" using last_entry by simp
  obtain xs t content where dumps: "dumps = xs @ [(t, content)]" "?f ?e = Inr (t, content)"
    using assms(1) unfolding dump_tables_eq by (subst (asm) entries) (auto simp: map_result_append and_then_Inr_conv map_sum_def split: sum.splits)
  have last: "?e = Table_entry (junction_spec ?t [''rfc_id'', ''related_rfc'', ''relation'']
       [(''rfc_id'', ''rfc_text_id'', ''rfcs_data'')] [''rfc_text_id'', ''related_rfc'', ''relation''])"
    by (simp add: dump_entries_def)
  obtain rs where rs: "entry_rows E d (id_maps_of d) ?e = Inr rs" "t = ?t" "content = rows_text E ?t rs"
    using dumps(2) last_entry by (auto simp: dump_entry_text_def and_then_Inr_conv)
  have shape: "\<exists>s row. r = ?row s row \<and> plain_value (row ''related_rfc'') \<and> plain_value (row ''relation'')" if mem: "r \<in> set rs" for r
  proof -
    obtain i row ys where "(i, row) \<in> set (pdb_rows d ?t)" "row_dump ?e (id_maps_of d) row = Inr ys" "r \<in> set ys"
      by (rule row_of_entry [OF rs(1) mem]) (use last_entry in simp)
    then show ?thesis
      using assms(4) by (fastforce simp: last junction_spec_def row_dump_def list_all_iff resolve_fk_def map_sum_def split: sum.splits option.splits)
  qed
  have good: "good_rows ?t rs"
    using shape by (fastforce simp: good_rows_def name_char_def plain_name_def plain_value_def)
  have "rs \<noteq> []"
  proof -
    obtain xss where xss: "map_result (row_dump ?e (id_maps_of d) \<circ> snd) (pdb_rows d ?t) = Inr xss" "rs = sort_rows E (entry_sort ?e) (concat xss)"
      using rs(1) last_entry by (auto simp: entry_rows_eq map_sum_def split: if_splits sum.splits)
    have "ys \<noteq> []" if "ys \<in> set xss" for ys
      using map_result_Inr [OF xss(1)] that by (fastforce simp: last row_dump_def map_sum_def split: sum.splits)
    moreover have "xss \<noteq> []" using map_result_Inr [OF xss(1)] assms(2) by auto
    ultimately have "set (concat xss) \<noteq> {}" by (cases xss) auto
    then show ?thesis using set_sort_rows [of E "entry_sort ?e" "concat xss"] xss(2) by (metis list.set(1))
  qed
  then obtain r rs' where r: "rs = r # rs'" by (cases rs) auto
  then obtain s row where row: "r = ?row s row" "plain_value (row ''related_rfc'')" "plain_value (row ''relation'')"
    using shape [of r] by auto
  have line: "import_line E R ?t 1 (row_to_insert (show_real E) ?t r) d' = Inl (Import_sqlite ?t)" for R d'
    using good assms(3) parse_row [of ?t r "show_real E"] trim_line [of r "show_real E" ?t]
    by (simp add: r row(1) good_rows_def import_line_def import_regular_row_def Let_def execute_insert_def real_column_def
        entity_fk_mappings_def row_to_insert_def starts_with_def strip_prefix_def)
  show ?thesis
  proof (cases "import_all E xs (d0, Map.empty)")
    case (Inr v)
    have lines: "text_lines content = row_to_insert (show_real E) ?t r # map (row_to_insert (show_real E) ?t) rs'"
      using lines_of_rows [OF good, of E] by (simp add: rs(3) r)
    have "\<not> is_blank content"
      using rows_text_start [of rs E ?t] not_blank by (simp add: rs(3) r)
    then show ?thesis
      using Inr line lines
      by (cases v) (simp add: import_tables_def dumps(1) rs(2) import_all_append import_single_table_def del: One_nat_def)
  qed (simp add: import_tables_def dumps(1) import_all_append)
qed

lemma rfc_relation_not_readable_witness:
  "\<exists>dumps e. dump_tables sample_env (sample_db [sample_relation]) = Inr dumps
    \<and> import_tables sample_env dumps \<lparr>pdb_rows = (\<lambda>_. []), pdb_generation = 0\<rparr> = Inl e"
proof -
  obtain dumps where dumps: "dump_tables sample_env (sample_db [sample_relation]) = Inr dumps"
    using sample_dumps [of "[sample_relation]"] by (auto simp: sample_relation_def)
  show ?thesis
    using rfc_relation_not_readable [OF dumps] dumps
    by (simp add: sample_relation_def sample_env_def sample_db_def plain_value_def)
qed

end
