(* ===== verification/Command_Spec.thy ===== *)
theory Command_Spec
  imports Protocol
begin

text \<open>
  The description of the command tree, \<open>tools/exo/src/command/command_spec.rs\<close>: namespaces,
  operations, their arguments with kinds and value types, and how the tree is assembled from the
  registered commands and the generated namespaces. The generated namespaces, the registered
  commands and the table of tool metadata are parameters. Strings are UTF-8 bytes.
\<close>

section \<open>Arguments\<close>

datatype arg_kind = Flag_kind | Option_kind | Positional_kind

datatype value_type = Bool_type | Int_type | Float_type | String_type | Path_type | Json_type | Enum_type "string list"

record arg_spec =
  arg_id :: string
  arg_name :: string
  arg_description :: string
  arg_kind :: arg_kind
  arg_type :: value_type
  arg_optional :: bool
  arg_default :: "string option"
  arg_short :: "string option"
  arg_repeatable :: bool

definition flag_arg :: "string \<Rightarrow> string \<Rightarrow> arg_spec" where
  "flag_arg i descr = \<lparr>arg_id = i, arg_name = i, arg_description = descr, arg_kind = Flag_kind, arg_type = Bool_type,
     arg_optional = True, arg_default = Some ''false'', arg_short = None, arg_repeatable = False\<rparr>"

definition option_arg :: "string \<Rightarrow> string \<Rightarrow> value_type \<Rightarrow> arg_spec" where
  "option_arg i descr ty = \<lparr>arg_id = i, arg_name = i, arg_description = descr, arg_kind = Option_kind, arg_type = ty,
     arg_optional = False, arg_default = None, arg_short = None, arg_repeatable = False\<rparr>"

definition positional_arg :: "string \<Rightarrow> string \<Rightarrow> value_type \<Rightarrow> arg_spec" where
  "positional_arg i descr ty = \<lparr>arg_id = i, arg_name = i, arg_description = descr, arg_kind = Positional_kind, arg_type = ty,
     arg_optional = False, arg_default = None, arg_short = None, arg_repeatable = False\<rparr>"

definition optional_arg :: "arg_spec \<Rightarrow> arg_spec" where
  "optional_arg a = a\<lparr>arg_optional := True\<rparr>"

definition default_arg :: "string \<Rightarrow> arg_spec \<Rightarrow> arg_spec" where
  "default_arg s a = a\<lparr>arg_default := Some s, arg_optional := True\<rparr>"

definition short_arg :: "string \<Rightarrow> arg_spec \<Rightarrow> arg_spec" where
  "short_arg c a = a\<lparr>arg_short := Some c\<rparr>"

definition repeatable_arg :: "arg_spec \<Rightarrow> arg_spec" where
  "repeatable_arg a = a\<lparr>arg_repeatable := True\<rparr>"

section \<open>Operations and namespaces\<close>

record lm_tool_metadata =
  tool_display_name :: "string option"
  tool_model_description :: "string option"
  tool_user_description :: "string option"
  tool_icon :: "string option"
  tool_when_clause :: "string option"
  tool_reference_name :: "string option"
  tool_tags :: "string list option"
  tool_in_prompt :: "bool option"
  tool_sets :: "string list option"

record operation_spec =
  op_name :: string
  op_description :: string
  op_effect :: effect
  op_recovery :: recovery_class
  op_upgrade_gate :: bool
  op_args :: "arg_spec list"
  op_example :: "string option"
  op_lm_tool :: "lm_tool_metadata option"

definition operation_new :: "string \<Rightarrow> string \<Rightarrow> effect \<Rightarrow> operation_spec" where
  "operation_new n descr e = \<lparr>op_name = n, op_description = descr, op_effect = e,
     op_recovery = (if e = Pure then ReplayableRead else ExternalAtMostOnce),
     op_upgrade_gate = False, op_args = [], op_example = None, op_lm_tool = None\<rparr>"

definition with_arg_spec :: "arg_spec \<Rightarrow> operation_spec \<Rightarrow> operation_spec" where
  "with_arg_spec a p = p\<lparr>op_args := op_args p @ [a]\<rparr>"

definition is_zero_arg :: "operation_spec \<Rightarrow> bool" where
  "is_zero_arg p \<longleftrightarrow> op_effect p = Pure \<and> list_all (\<lambda>a. arg_optional a \<or> arg_default a \<noteq> None) (op_args p)"

definition full_name :: "string \<Rightarrow> operation_spec \<Rightarrow> string" where
  "full_name n p = n @ ''.'' @ op_name p"

record namespace_spec =
  ns_name :: string
  ns_description :: string
  ns_operations :: "(string, operation_spec) bmap"

definition namespace_new :: "string \<Rightarrow> string \<Rightarrow> namespace_spec" where
  "namespace_new n descr = \<lparr>ns_name = n, ns_description = descr, ns_operations = []\<rparr>"

definition with_operation :: "operation_spec \<Rightarrow> namespace_spec \<Rightarrow> namespace_spec" where
  "with_operation p n = n\<lparr>ns_operations := bmap_insert (op_name p) p (ns_operations n)\<rparr>"

section \<open>The command tree\<close>

record command_spec =
  spec_version :: nat
  spec_namespaces :: "(string, namespace_spec) bmap"
  spec_root_operations :: "(string, operation_spec) bmap"
  spec_operation_count :: "nat option"

definition spec_new :: command_spec where
  "spec_new = \<lparr>spec_version = 1, spec_namespaces = [], spec_root_operations = [], spec_operation_count = None\<rparr>"

definition spec_namespace :: "command_spec \<Rightarrow> string \<Rightarrow> namespace_spec option" where
  "spec_namespace S n = map_of (spec_namespaces S) n"

definition namespace_operation :: "namespace_spec \<Rightarrow> string \<Rightarrow> operation_spec option" where
  "namespace_operation n p = map_of (ns_operations n) p"

definition spec_operation :: "command_spec \<Rightarrow> string \<Rightarrow> string \<Rightarrow> operation_spec option" where
  "spec_operation S n p =
     (if n = [] then map_of (spec_root_operations S) p
      else Option.bind (spec_namespace S n) (\<lambda>ns. namespace_operation ns p))"

definition iter_all_operations :: "command_spec \<Rightarrow> (string \<times> string \<times> operation_spec) list" where
  "iter_all_operations S =
     map (\<lambda>(p, x). ([], p, x)) (spec_root_operations S)
     @ concat (map (\<lambda>(n, ns). map (\<lambda>(p, x). (n, p, x)) (ns_operations ns)) (spec_namespaces S))"

definition zero_arg_operations :: "command_spec \<Rightarrow> (string \<times> operation_spec) list" where
  "zero_arg_operations S =
     concat (map (\<lambda>(n, ns). map (Pair n) (filter is_zero_arg (map snd (ns_operations ns)))) (spec_namespaces S))"

section \<open>Assembling the tree\<close>

text \<open>What a registered command says of itself.\<close>

record registered_command =
  cmd_namespace :: string
  cmd_operation :: string
  cmd_description :: string
  cmd_effect :: effect
  cmd_recovery :: recovery_class

type_synonym metadata_table = "string \<Rightarrow> string \<Rightarrow> lm_tool_metadata option"

definition registered_operation :: "metadata_table \<Rightarrow> registered_command \<Rightarrow> operation_spec" where
  "registered_operation T c = (operation_new (cmd_operation c) (cmd_description c) (cmd_effect c))
     \<lparr>op_lm_tool := T (cmd_namespace c) (cmd_operation c)\<rparr>"

definition add_registered :: "metadata_table \<Rightarrow> registered_command \<Rightarrow> command_spec \<Rightarrow> command_spec" where
  "add_registered T c S =
     (if cmd_namespace c = []
      then S\<lparr>spec_root_operations := bmap_insert (cmd_operation c) (registered_operation T c) (spec_root_operations S)\<rparr>
      else let ns = (case spec_namespace S (cmd_namespace c) of
                  Some ns \<Rightarrow> ns
                | None \<Rightarrow> namespace_new (cmd_namespace c) (cmd_namespace c @ '' operations''))
           in S\<lparr>spec_namespaces := bmap_insert (cmd_namespace c)
                  (ns\<lparr>ns_operations := bmap_insert (cmd_operation c) (registered_operation T c) (ns_operations ns)\<rparr>)
                  (spec_namespaces S)\<rparr>)"

definition inherit_tool :: "operation_spec option \<Rightarrow> operation_spec \<Rightarrow> operation_spec" where
  "inherit_tool old p = (case old of
       Some x \<Rightarrow> if op_lm_tool p = None then p\<lparr>op_lm_tool := op_lm_tool x\<rparr> else p
     | None \<Rightarrow> p)"

definition merge_exospec :: "namespace_spec \<Rightarrow> command_spec \<Rightarrow> command_spec" where
  "merge_exospec ns S =
     S\<lparr>spec_namespaces := bmap_insert (ns_name ns)
         (case spec_namespace S (ns_name ns) of
            None \<Rightarrow> ns
          | Some old \<Rightarrow> ns\<lparr>ns_operations := map (\<lambda>(p, x). (p, inherit_tool (namespace_operation old p) x)) (ns_operations ns)\<rparr>)
         (spec_namespaces S)\<rparr>"

definition merge_exospec_root :: "namespace_spec \<Rightarrow> command_spec \<Rightarrow> command_spec" where
  "merge_exospec_root ns S =
     fold (\<lambda>(p, x) S. S\<lparr>spec_root_operations :=
         bmap_insert p (inherit_tool (map_of (spec_root_operations S) p) x) (spec_root_operations S)\<rparr>)
       (ns_operations ns) S"

definition bmap_change :: "'k \<Rightarrow> ('v \<Rightarrow> 'v) \<Rightarrow> ('k, 'v) bmap \<Rightarrow> ('k, 'v) bmap" where
  "bmap_change k f m = map (\<lambda>(j, v). if j = k then (j, f v) else (j, v)) m"

definition set_runtime :: "registered_command \<Rightarrow> operation_spec \<Rightarrow> operation_spec" where
  "set_runtime c p = p\<lparr>op_effect := cmd_effect c, op_recovery := cmd_recovery c\<rparr>"

definition reapply_runtime :: "registered_command \<Rightarrow> command_spec \<Rightarrow> command_spec" where
  "reapply_runtime c S =
     (if cmd_namespace c = []
      then S\<lparr>spec_root_operations := bmap_change (cmd_operation c) (set_runtime c) (spec_root_operations S)\<rparr>
      else S\<lparr>spec_namespaces := bmap_change (cmd_namespace c)
               (\<lambda>ns. ns\<lparr>ns_operations := bmap_change (cmd_operation c) (set_runtime c) (ns_operations ns)\<rparr>) (spec_namespaces S)\<rparr>)"

definition count_operations :: "command_spec \<Rightarrow> command_spec" where
  "count_operations S =
     S\<lparr>spec_operation_count := Some (sum_list (map (\<lambda>(_, ns). length (ns_operations ns)) (spec_namespaces S))
        + length (spec_root_operations S))\<rparr>"

definition from_registry ::
  "metadata_table \<Rightarrow> namespace_spec list \<Rightarrow> namespace_spec \<Rightarrow> registered_command list \<Rightarrow> command_spec" where
  "from_registry T generated generated_root registry =
     count_operations (fold reapply_runtime registry
       (merge_exospec_root generated_root (fold merge_exospec generated (fold (add_registered T) registry spec_new))))"

section \<open>Typed values\<close>

datatype 'f typed_value =
    TBool bool
  | TInt int
  | TFloat 'f
  | TString string
  | TPath string
  | TJson string
  | TEnum string
  | TArray "'f typed_value list"

definition typed_str :: "'f typed_value \<Rightarrow> string option" where
  "typed_str v = (case v of TString s \<Rightarrow> Some s | TPath s \<Rightarrow> Some s | _ \<Rightarrow> None)"

definition typed_bool :: "'f typed_value \<Rightarrow> bool option" where
  "typed_bool v = (case v of TBool b \<Rightarrow> Some b | _ \<Rightarrow> None)"

definition typed_int :: "'f typed_value \<Rightarrow> int option" where
  "typed_int v = (case v of TInt i \<Rightarrow> Some i | _ \<Rightarrow> None)"

definition typed_json :: "'f typed_value \<Rightarrow> string option" where
  "typed_json v = (case v of TJson s \<Rightarrow> Some s | _ \<Rightarrow> None)"

text \<open>A value is of a type: what every reader of arguments relies on.\<close>

fun has_type :: "'f typed_value \<Rightarrow> value_type \<Rightarrow> bool" where
  "has_type (TBool b) Bool_type \<longleftrightarrow> True"
| "has_type (TInt i) Int_type \<longleftrightarrow> - (2 ^ 63) \<le> i \<and> i < 2 ^ 63"
| "has_type (TFloat x) Float_type \<longleftrightarrow> True"
| "has_type (TString s) String_type \<longleftrightarrow> True"
| "has_type (TPath s) Path_type \<longleftrightarrow> True"
| "has_type (TJson s) Json_type \<longleftrightarrow> True"
| "has_type (TEnum s) (Enum_type vs) \<longleftrightarrow> s \<in> set vs"
| "has_type _ _ \<longleftrightarrow> False"

section \<open>Invocations\<close>

datatype frontend = Argv_frontend | ToolJson | Dsl | ClapBridge

record invocation_source =
  source_frontend :: frontend
  source_tokens :: "string list option"
  source_input :: "string option"

record 'f invocation =
  inv_namespace :: string
  inv_operation :: string
  inv_args :: "(string, 'f typed_value) bmap"
  inv_occurrences :: "(string, nat) bmap"
  inv_source :: "invocation_source option"

definition invocation_new :: "string \<Rightarrow> string \<Rightarrow> 'f invocation" where
  "invocation_new n p = \<lparr>inv_namespace = n, inv_operation = p, inv_args = [], inv_occurrences = [], inv_source = None\<rparr>"

definition insert_arg :: "string \<Rightarrow> 'f typed_value \<Rightarrow> 'f invocation \<Rightarrow> 'f invocation" where
  "insert_arg k v call = call\<lparr>inv_args := bmap_insert k v (inv_args call)\<rparr>"

definition occurrence :: "'f invocation \<Rightarrow> string \<Rightarrow> nat" where
  "occurrence call k = (case map_of (inv_occurrences call) k of None \<Rightarrow> 0 | Some n \<Rightarrow> n)"

text \<open>The counter is 32 bits wide and saturates.\<close>

definition bump_occurrence :: "string \<Rightarrow> 'f invocation \<Rightarrow> 'f invocation" where
  "bump_occurrence k call = call\<lparr>inv_occurrences := bmap_insert k (min (occurrence call k + 1) (2 ^ 32 - 1)) (inv_occurrences call)\<rparr>"

definition underscores_to_hyphens :: "string \<Rightarrow> string" where
  "underscores_to_hyphens s = map (\<lambda>c. if c = CHR ''_'' then CHR ''-'' else c) s"

definition get_arg :: "'f invocation \<Rightarrow> string \<Rightarrow> 'f typed_value option" where
  "get_arg call k =
     (case map_of (inv_args call) k of
        Some v \<Rightarrow> Some v
      | None \<Rightarrow> map_of (inv_args call) (underscores_to_hyphens k))"

end
