(* ===== verification/Command_Router.thy ===== *)
theory Command_Router
  imports Command_Spec Command_Text Complex_Main
begin

text \<open>
  Routing tokens to an operation of the command tree, the router of
  \<open>tools/exo/src/command/router.rs\<close>: the diagnostics with their context, the suggestions by edit
  distance, and the router's own reading of flags and positionals. A confidence is a rational
  instead of a 32-bit float; the characters of a string are its UTF-8 sequences; the variants of
  an enumeration have nothing for the debug format to escape.
\<close>

section \<open>Edit distance\<close>

definition continuation_byte :: "char \<Rightarrow> bool" where
  "continuation_byte c \<longleftrightarrow> 128 \<le> byte c \<and> byte c < 192"

function utf8_chars :: "string \<Rightarrow> string list" where
  "utf8_chars [] = []"
| "utf8_chars (c # s) = (c # takeWhile continuation_byte s) # utf8_chars (dropWhile continuation_byte s)"
  by pat_completeness auto

termination
  by (relation "measure length") (simp_all add: less_Suc_eq_le length_dropWhile_le)

text \<open>The cells of a row of the matrix from the row above and the cell to the left.\<close>

fun lev_cells :: "'c \<Rightarrow> 'c list \<Rightarrow> nat list \<Rightarrow> nat \<Rightarrow> nat list" where
  "lev_cells x (y # ys) (corner # up # row) left =
     (let cell = min (min (up + 1) (left + 1)) (corner + (if x \<noteq> y then 1 else 0))
      in cell # lev_cells x ys (up # row) cell)"
| "lev_cells x _ _ left = []"

fun lev_rows :: "'c list \<Rightarrow> 'c list \<Rightarrow> nat \<Rightarrow> nat list \<Rightarrow> nat list" where
  "lev_rows [] b i row = row"
| "lev_rows (x # a) b i row = lev_rows a b (i + 1) ((i + 1) # lev_cells x b row (i + 1))"

definition levenshtein :: "'c list \<Rightarrow> 'c list \<Rightarrow> nat" where
  "levenshtein a b =
     (if a = [] then length b else if b = [] then length a
      else last (lev_rows a b 0 [0..<Suc (length b)]))"

section \<open>Diagnostics\<close>

datatype routing_code =
    UnknownNamespace | UnknownOperation | UnknownFlag | MissingRequiredArg
  | InvalidArgType | AmbiguousCommand | UnsupportedShellFeature | TooManyPositionals

record routing_context =
  ctx_path :: "string list option"
  ctx_available :: "string list"
  ctx_expected :: "string option"
  ctx_actual :: "string option"

record routing_suggestion =
  sug_label :: string
  sug_replacement :: string
  sug_confidence :: rat

record routing_diagnostic =
  rd_code :: routing_code
  rd_message :: string
  rd_token :: "nat option"
  rd_context :: "routing_context option"
  rd_suggestions :: "routing_suggestion list"

definition routing_error :: "routing_code \<Rightarrow> string \<Rightarrow> routing_diagnostic" where
  "routing_error c m = \<lparr>rd_code = c, rd_message = m, rd_token = None, rd_context = None, rd_suggestions = []\<rparr>"

definition at_token :: "nat \<Rightarrow> routing_diagnostic \<Rightarrow> routing_diagnostic" where
  "at_token i d = d\<lparr>rd_token := Some i\<rparr>"

definition in_context :: "string list option \<Rightarrow> string list \<Rightarrow> string option \<Rightarrow> string option \<Rightarrow> routing_diagnostic \<Rightarrow> routing_diagnostic" where
  "in_context path available expected actual d = d\<lparr>rd_context :=
     Some \<lparr>ctx_path = path, ctx_available = available, ctx_expected = expected, ctx_actual = actual\<rparr>\<rparr>"

definition suggesting :: "routing_suggestion \<Rightarrow> routing_diagnostic \<Rightarrow> routing_diagnostic" where
  "suggesting s d = d\<lparr>rd_suggestions := rd_suggestions d @ [s]\<rparr>"

text \<open>The keys that are near the input, nearest first, at most three.\<close>

definition near_keys :: "(string \<Rightarrow> string) \<Rightarrow> string list \<Rightarrow> string \<Rightarrow> routing_suggestion list" where
  "near_keys command keys input =
     take 3 (sort_key (\<lambda>s. - sug_confidence s)
       (List.map_filter (\<lambda>k. let d = levenshtein (utf8_chars input) (utf8_chars k) in
            if d \<le> 2 then Some \<lparr>sug_label = ''Did you mean '' @ in_quotes k @ ''?'', sug_replacement = command k,
                                sug_confidence = 1 - of_nat d / 3\<rparr> else None) keys))"

definition suggest_namespaces :: "command_spec \<Rightarrow> string \<Rightarrow> routing_suggestion list" where
  "suggest_namespaces S input = near_keys (\<lambda>k. ''exo '' @ k) (map fst (spec_namespaces S)) input"

definition suggest_operations :: "namespace_spec \<Rightarrow> string \<Rightarrow> routing_suggestion list" where
  "suggest_operations n input = near_keys (\<lambda>k. ''exo '' @ ns_name n @ '' '' @ k) (map fst (ns_operations n)) input"

definition first_or :: "routing_suggestion \<Rightarrow> routing_suggestion list \<Rightarrow> routing_suggestion" where
  "first_or d xs = (case xs of [] \<Rightarrow> d | x # _ \<Rightarrow> x)"

section \<open>Arguments after the operation\<close>

definition note_arg :: "string \<Rightarrow> 'f typed_value \<Rightarrow> 'f invocation \<Rightarrow> 'f invocation" where
  "note_arg k v call = call\<lparr>inv_args := bmap_insert k v (inv_args call),
     inv_occurrences := bmap_insert k (occurrence call k + 1) (inv_occurrences call)\<rparr>"

definition positionals_of :: "operation_spec \<Rightarrow> arg_spec list" where
  "positionals_of p = filter (\<lambda>a. arg_kind a = Positional_kind) (op_args p)"

definition too_many :: "string \<Rightarrow> string \<Rightarrow> operation_spec \<Rightarrow> nat \<Rightarrow> nat \<Rightarrow> string \<Rightarrow> routing_diagnostic" where
  "too_many n o' p i k token =
     (if positionals_of p = []
      then in_context (Some [n, o']) [] None (Some token) (at_token (2 + i)
             (routing_error TooManyPositionals (''Command '' @ in_quotes (n @ '' '' @ o') @ '' does not accept positional arguments'')))
      else at_token (2 + i) (routing_error TooManyPositionals
             (''Too many positional arguments (expected '' @ show_nat (length (positionals_of p)) @ '', got '' @ show_nat (k + 1) @ ''+)'')))"

text \<open>One pass over the tokens; \<open>i\<close> counts tokens, \<open>k\<close> positionals.\<close>

fun route_args ::
  "string \<Rightarrow> string \<Rightarrow> operation_spec \<Rightarrow> nat \<Rightarrow> nat \<Rightarrow> string list \<Rightarrow> 'f invocation \<Rightarrow> routing_diagnostic + 'f invocation" where
  "route_args n o' p i k [] call = Inr call"
| "route_args n o' p i k (t # ts) call =
     (case strip_prefix ''--'' t of
        Some name \<Rightarrow> (case find (\<lambda>a. arg_name a = name) (op_args p) of
            Some a \<Rightarrow>
              if arg_kind a = Flag_kind then route_args n o' p (i + 1) k ts (note_arg name (TBool True) call)
              else (case ts of
                  [] \<Rightarrow> Inl (at_token (2 + i) (routing_error MissingRequiredArg (''Option '' @ in_quotes (''--'' @ name) @ '' requires a value'')))
                | v # us \<Rightarrow> route_args n o' p (i + 2) k us (note_arg name (TString v) call))
          | None \<Rightarrow> Inl (in_context (Some [n, o'])
                (map (\<lambda>a. ''--'' @ arg_name a) (filter (\<lambda>a. arg_kind a \<noteq> Positional_kind) (op_args p))) None (Some t)
                (at_token (2 + i) (routing_error UnknownFlag (''Unknown flag '' @ in_quotes (''--'' @ name))))))
      | None \<Rightarrow>
          if starts_with t ''-'' \<and> length t = 2
          then (case find (\<lambda>a. arg_short a = Some (tl t)) (op_args p) of
              Some a \<Rightarrow> route_args n o' p (i + 1) k ts (note_arg (arg_name a) (TBool True) call)
            | None \<Rightarrow> Inl (at_token (2 + i) (routing_error UnknownFlag (''Unknown short flag '' @ in_quotes t))))
          else if length (positionals_of p) \<le> k then Inl (too_many n o' p i k t)
          else route_args n o' p (i + 1) (k + 1) ts (note_arg (arg_name (positionals_of p ! k)) (TString t) call))"

section \<open>Routing\<close>

definition value_type_debug :: "value_type \<Rightarrow> string" where
  "value_type_debug ty = (case ty of
       Bool_type \<Rightarrow> ''Bool'' | Int_type \<Rightarrow> ''Int'' | Float_type \<Rightarrow> ''Float'' | String_type \<Rightarrow> ''String'' | Path_type \<Rightarrow> ''Path''
     | Json_type \<Rightarrow> ''Json'' | Enum_type vs \<Rightarrow> ''Enum(['' @ join_with '', '' (map (\<lambda>v. quote2 # v @ [quote2]) vs) @ ''])'')"

definition missing_arg :: "string \<Rightarrow> string \<Rightarrow> operation_spec \<Rightarrow> 'f invocation \<Rightarrow> arg_spec option" where
  "missing_arg n o' p call =
     find (\<lambda>a. \<not> arg_optional a \<and> arg_default a = None \<and> map_of (inv_args call) (arg_name a) = None) (op_args p)"

definition route_operation :: "string \<Rightarrow> string \<Rightarrow> operation_spec \<Rightarrow> string list \<Rightarrow> routing_diagnostic + 'f invocation" where
  "route_operation n o' p rest =
     and_then (route_args n o' p 0 0 rest (invocation_new n o')) (\<lambda>call.
       case missing_arg n o' p call of
         Some a \<Rightarrow> Inl (in_context (Some [n, o']) [] (Some (value_type_debug (arg_type a))) None
              (routing_error MissingRequiredArg (''Missing required argument: '' @ in_quotes (arg_name a))))
       | None \<Rightarrow> Inr (call\<lparr>inv_source := Some \<lparr>source_frontend = Argv_frontend, source_tokens = Some (n # o' # rest),
              source_input = None\<rparr>\<rparr>))"

definition no_command :: "command_spec \<Rightarrow> routing_diagnostic" where
  "no_command S = in_context None (map fst (spec_namespaces S)) None None (routing_error UnknownNamespace ''No command specified'')"

definition unknown_namespace :: "command_spec \<Rightarrow> string \<Rightarrow> routing_diagnostic" where
  "unknown_namespace S n =
     suggesting (first_or \<lparr>sug_label = ''List available commands'', sug_replacement = ''exo --help'', sug_confidence = 1 / 2\<rparr> (suggest_namespaces S n))
       (in_context None (map fst (spec_namespaces S)) None (Some n) (at_token 0
         (routing_error UnknownNamespace (''Unknown namespace: '' @ in_quotes n))))"

definition no_operation :: "string \<Rightarrow> namespace_spec \<Rightarrow> routing_diagnostic" where
  "no_operation n ns = in_context (Some [n]) (map fst (ns_operations ns)) None None
     (routing_error UnknownOperation (''No operation specified for '' @ in_quotes n))"

definition unknown_operation :: "string \<Rightarrow> namespace_spec \<Rightarrow> string \<Rightarrow> routing_diagnostic" where
  "unknown_operation n ns o' =
     suggesting (first_or \<lparr>sug_label = ''Show namespace help'', sug_replacement = ''exo '' @ n @ '' --help'', sug_confidence = 1 / 2\<rparr> (suggest_operations ns o'))
       (in_context (Some [n]) (map fst (ns_operations ns)) None (Some o') (at_token 1
         (routing_error UnknownOperation (''Unknown operation '' @ in_quotes o' @ '' in namespace '' @ in_quotes n))))"

definition route :: "command_spec \<Rightarrow> string list \<Rightarrow> routing_diagnostic + 'f invocation" where
  "route S toks =
     (case toks of
        [] \<Rightarrow> Inl (no_command S)
      | n # ts \<Rightarrow> (case spec_namespace S n of
          None \<Rightarrow> Inl (unknown_namespace S n)
        | Some ns \<Rightarrow> (case ts of
            [] \<Rightarrow> Inl (no_operation n ns)
          | o' # rest \<Rightarrow> (case namespace_operation ns o' of
              None \<Rightarrow> Inl (unknown_operation n ns o')
            | Some p \<Rightarrow> route_operation n o' p rest))))"

end
