(* ===== verification/Edit_Distance.thy ===== *)
theory Edit_Distance
  imports Command_Router
begin

text \<open>
  The router's edit distance is the least number of single-character edits between two names. The
  proof goes over the textbook recursion, which the matrix tabulates on prefixes.
\<close>

section \<open>Edits\<close>

inductive edit :: "'c list \<Rightarrow> 'c list \<Rightarrow> bool" where
  insert_char: "edit a (x # a)"
| delete_char: "edit (x # a) a"
| replace_char: "edit (x # a) (y # a)"
| keep_char: "edit a b \<Longrightarrow> edit (x # a) (x # b)"

fun edit_dist :: "'c list \<Rightarrow> 'c list \<Rightarrow> nat" where
  "edit_dist [] b = length b"
| "edit_dist (x # a) [] = Suc (length a)"
| "edit_dist (x # a) (y # b) = min (min (edit_dist a (y # b) + 1) (edit_dist (x # a) b + 1)) (edit_dist a b + (if x \<noteq> y then 1 else 0))"

lemma dist_Nil [simp]: "edit_dist a [] = length a"
  by (cases a) simp_all

lemma dist_Cons_left: "edit_dist (x # a) b \<le> edit_dist a b + 1"
  by (cases b) auto

lemma dist_Cons_right: "edit_dist a (y # b) \<le> edit_dist a b + 1"
  by (cases a) auto

lemma min3_cases: "min (min a b) c \<in> {a, b, c}" for a b c :: nat
  by (simp add: min_def)

lemma dist_length: "length b \<le> edit_dist a b + length a \<and> length a \<le> edit_dist a b + length b"
  by (induction a b rule: edit_dist.induct) (auto simp: min_def)

lemma dist_drop: "edit_dist a b \<le> edit_dist (x # a) b + 1" "edit_dist a b \<le> edit_dist a (y # b) + 1"
proof -
  have "edit_dist a b \<le> edit_dist (x # a) b + 1 \<and> edit_dist a b \<le> edit_dist a (y # b) + 1" for x y
  proof (induction a b arbitrary: x y rule: edit_dist.induct)
    case (3 u a v b)
    have right: "edit_dist (u # a) (v # b) \<le> edit_dist (u # a) b + 1" and left: "edit_dist (u # a) (v # b) \<le> edit_dist a (v # b) + 1"
      by (rule dist_Cons_right, rule dist_Cons_left)
    have "edit_dist (x # u # a) (v # b) \<in> {edit_dist (u # a) (v # b) + 1, edit_dist (x # u # a) b + 1, edit_dist (u # a) b + (if x \<noteq> v then 1 else 0)}"
      unfolding edit_dist.simps(3) [of x "u # a"] by (rule min3_cases)
    then have "edit_dist (u # a) (v # b) \<le> edit_dist (x # u # a) (v # b) + 1"
      using right conjunct1 [OF 3(2) [of x undefined]] by (auto simp del: edit_dist.simps)
    moreover have "edit_dist (u # a) (y # v # b) \<in> {edit_dist a (y # v # b) + 1, edit_dist (u # a) (v # b) + 1, edit_dist a (v # b) + (if u \<noteq> y then 1 else 0)}"
      unfolding edit_dist.simps(3) [of u a y] by (rule min3_cases)
    then have "edit_dist (u # a) (v # b) \<le> edit_dist (u # a) (y # v # b) + 1"
      using left conjunct2 [OF 3(1) [of undefined y]] by (auto simp del: edit_dist.simps)
    ultimately show ?case by blast
  next
    case (1 b)
    then show ?case using dist_length [of b "[x]"] by simp
  next
    case (2 u a)
    then show ?case using dist_length [of "[y]" "u # a"] by simp
  qed
  then show "edit_dist a b \<le> edit_dist (x # a) b + 1" "edit_dist a b \<le> edit_dist a (y # b) + 1" by blast+
qed

lemma dist_replace: "edit_dist (x # a) b \<le> edit_dist (y # a) b + 1"
proof (induction b)
  case (Cons z b)
  then show ?case using dist_Cons_left [of x a "z # b"] by (auto simp: min_def)
qed simp

lemma dist_edit: "edit a a' \<Longrightarrow> edit_dist a b \<le> edit_dist a' b + 1"
proof (induction arbitrary: b rule: edit.induct)
  case (keep_char a a' x)
  show ?case
  proof (induction b)
    case Nil
    then show ?case using keep_char.IH [of "[]"] by simp
  next
    case (Cons y b)
    then show ?case using keep_char.IH [of b] keep_char.IH [of "y # b"] by (auto simp: min_def)
  qed
qed (fact dist_drop(1) dist_Cons_left dist_replace)+

lemma edits_bound: "(edit ^^ n) a b \<Longrightarrow> edit_dist a b \<le> n"
proof (induction n arbitrary: a)
  case 0
  have "edit_dist b b = 0" for b :: "'a list" by (induction b) simp_all
  then show ?case using 0 by simp
next
  case (Suc n)
  then obtain a' where "edit a a'" "(edit ^^ n) a' b"
    by (meson relpowp_Suc_D2)
  then show ?case using dist_edit [of a a' b] Suc.IH [of a'] by simp
qed

lemma keep_edits: "(edit ^^ n) a b \<Longrightarrow> (edit ^^ n) (x # a) (x # b)"
  by (induction n arbitrary: b) (auto intro: edit.intros)

lemma edits_dist: "(edit ^^ edit_dist a b) a b"
proof (induction a b rule: edit_dist.induct)
  case (1 b)
  show ?case by (induction b) (auto intro: edit.intros)
next
  case (2 x a)
  have "(edit ^^ length a) a []"  for a :: "'a list"
  proof (induction a)
    case (Cons x a)
    then show ?case using relpowp_Suc_I2 [of edit "x # a" a "length a" "[]"] by (simp add: delete_char)
  qed simp
  from this [of "x # a"] show ?case by simp
next
  case (3 x a y b)
  have "(edit ^^ Suc (edit_dist a (y # b))) (x # a) (y # b)"
    using relpowp_Suc_I2 [OF delete_char 3(1)] .
  moreover have "(edit ^^ Suc (edit_dist (x # a) b)) (x # a) (y # b)"
    using relpowp_Suc_I [OF 3(2) insert_char] .
  moreover have "(edit ^^ (edit_dist a b + (if x \<noteq> y then 1 else 0))) (x # a) (y # b)"
    using relpowp_Suc_I [OF keep_edits [OF 3(3)] replace_char] keep_edits [OF 3(3)] by auto
  ultimately show ?case by (auto simp: min_def)
qed

lemma least_edits: "(LEAST n. (edit ^^ n) a b) = edit_dist a b"
  using edits_dist edits_bound by (rule Least_equality)

section \<open>Edits from the other end\<close>

lemma edit_append: "edit a b \<Longrightarrow> edit (a @ c) (b @ c)"
  by (induction rule: edit.induct) (auto intro: edit.intros)

lemma edit_last: "edit (a @ s) (a @ t)" if "edit s t"
  by (induction a) (auto intro: edit.intros that)

lemma edit_rev: "edit a b \<Longrightarrow> edit (rev a) (rev b)"
proof (induction rule: edit.induct)
  case (insert_char a x)
  then show ?case using edit_last [of "[]" "[x]" "rev a"] edit.insert_char [of "[]" x] by simp
next
  case (delete_char x a)
  then show ?case using edit_last [of "[x]" "[]" "rev a"] edit.delete_char [of x "[]"] by simp
next
  case (replace_char x a y)
  then show ?case using edit_last [of "[x]" "[y]" "rev a"] edit.replace_char [of x "[]" y] by simp
qed (simp add: edit_append)

lemma edits_rev: "(edit ^^ n) a b \<Longrightarrow> (edit ^^ n) (rev a) (rev b)"
  by (induction n arbitrary: b) (auto intro: edit_rev)

lemma dist_rev: "edit_dist (rev a) (rev b) = edit_dist a b"
  using edits_bound [OF edits_rev [OF edits_dist [of a b]]] edits_bound [OF edits_rev [OF edits_dist [of "rev a" "rev b"]]] by simp

section \<open>The matrix\<close>

abbreviation prefix_dist :: "'c list \<Rightarrow> 'c list \<Rightarrow> nat" where
  "prefix_dist p q \<equiv> edit_dist (rev p) (rev q)"

lemma row_split:
  "map (\<lambda>j. f (q @ take j (y # ys))) [0..<Suc (length (y # ys))]
   = f q # map (\<lambda>j. f ((q @ [y]) @ take j ys)) [0..<Suc (length ys)]"
  by (simp only: upt_conv_Cons zero_less_Suc list.map map_Suc_upt [symmetric] length_Cons) simp

lemma lev_cells_row:
  "left = prefix_dist (p @ [x]) q \<Longrightarrow>
   left # lev_cells x ys (map (\<lambda>j. prefix_dist p (q @ take j ys)) [0..<Suc (length ys)]) left
   = map (\<lambda>j. prefix_dist (p @ [x]) (q @ take j ys)) [0..<Suc (length ys)]"
proof (induction ys arbitrary: q left)
  case (Cons y ys)
  have up: "map (\<lambda>j. prefix_dist p ((q @ [y]) @ take j ys)) [0..<Suc (length ys)]
      = prefix_dist p (q @ [y]) # map (\<lambda>j. prefix_dist p ((q @ [y]) @ take j ys)) [1..<Suc (length ys)]"
    by (subst upt_conv_Cons) simp_all
  have cell: "min (min (prefix_dist p (q @ [y]) + 1) (left + 1)) (prefix_dist p q + (if x \<noteq> y then 1 else 0)) = prefix_dist (p @ [x]) (q @ [y])"
    using Cons.prems by simp
  show ?case
    using Cons.IH [OF refl, of "q @ [y]"] Cons.prems
    unfolding row_split [of "prefix_dist p"] row_split [of "prefix_dist (p @ [x])"] up lev_cells.simps Let_def cell by simp
qed simp

lemma lev_rows_prefix:
  "i = length p \<Longrightarrow> lev_rows a b i (map (\<lambda>j. prefix_dist p (take j b)) [0..<Suc (length b)])
   = map (\<lambda>j. prefix_dist (p @ a) (take j b)) [0..<Suc (length b)]"
proof (induction a arbitrary: p i)
  case (Cons x a)
  have "(i + 1) # lev_cells x b (map (\<lambda>j. prefix_dist p (take j b)) [0..<Suc (length b)]) (i + 1)
      = map (\<lambda>j. prefix_dist (p @ [x]) (take j b)) [0..<Suc (length b)]"
    using lev_cells_row [of "i + 1" p x "[]" b] Cons.prems by simp
  then show ?case using Cons.IH [of "i + 1" "p @ [x]"] Cons.prems by simp
qed simp

lemma levenshtein_dist: "levenshtein a b = edit_dist a b"
proof (cases "a = [] \<or> b = []")
  case False
  have "map (\<lambda>j. prefix_dist [] (take j b)) [0..<Suc (length b)] = [0..<Suc (length b)]"
    by (rule nth_equalityI) (auto simp: nth_append)
  then have "lev_rows a b 0 [0..<Suc (length b)] = map (\<lambda>j. prefix_dist a (take j b)) [0..<Suc (length b)]"
    using lev_rows_prefix [of 0 "[]" a b] by simp
  then show ?thesis using False dist_rev [of a b] by (simp add: levenshtein_def)
qed (auto simp: levenshtein_def)

text \<open>
  C37. The distance the router computes row by row is the least number of insertions, deletions and
  replacements of a character that lead from the one name to the other.
\<close>

theorem levenshtein_is_least_edits: "levenshtein a b = (LEAST n. (edit ^^ n) a b)"
  by (simp add: levenshtein_dist least_edits)

end
