(* ===== verification/Argv_Compiler.thy ===== *)
theory Argv_Compiler
  imports Command_Router
begin

text \<open>
  Compiling an argument vector to an invocation, \<open>tools/exo/src/argv_compiler.rs\<close> with
  \<open>shell_ops.rs\<close> and \<open>diagnostics.rs\<close>: shell operators are refused, the operation is found, and its
  arguments are read by their specification. Reading a float and checking JSON text are the
  standard library's and \<open>serde_json\<close>'s: parameters.
\<close>

record 'f value_env =
  read_float :: "string \<Rightarrow> 'f option"
  float_of_int :: "int \<Rightarrow> 'f"
  float_of_json :: "string \<Rightarrow> 'f"
  json_of_float :: "'f \<Rightarrow> string option"
  json_of_text :: "string \<Rightarrow> json option"
  text_of_json :: "json \<Rightarrow> string"

section \<open>Shell operators\<close>

datatype shell_operator = Pipe | RedirectOut | RedirectOutAppend | RedirectIn | HereDoc | AndAnd | OrOr | Semicolon
  | SubstitutionDollarParen | SubstitutionBackticks

definition operator_rank :: "shell_operator \<Rightarrow> nat" where
  "operator_rank k = (case k of Pipe \<Rightarrow> 0 | RedirectOut \<Rightarrow> 1 | RedirectOutAppend \<Rightarrow> 2 | RedirectIn \<Rightarrow> 3 | HereDoc \<Rightarrow> 4
     | AndAnd \<Rightarrow> 5 | OrOr \<Rightarrow> 6 | Semicolon \<Rightarrow> 7 | SubstitutionDollarParen \<Rightarrow> 8 | SubstitutionBackticks \<Rightarrow> 9)"

record operator_hit =
  hit_kind :: shell_operator
  hit_index :: nat
  hit_token :: string

definition classify_shell_operator_token :: "string \<Rightarrow> shell_operator option" where
  "classify_shell_operator_token t =
     (if t = ''|'' then Some Pipe else if t = ''>'' then Some RedirectOut else if t = ''>>'' then Some RedirectOutAppend
      else if t = ''<'' then Some RedirectIn else if t = ''<<'' then Some HereDoc else if t = ''&&'' then Some AndAnd
      else if t = ''||'' then Some OrOr else if t = '';'' then Some Semicolon
      else if t = ''$('' then Some SubstitutionDollarParen else if t = [backtick] then Some SubstitutionBackticks else None)"

definition detect_shell_operators :: "string list \<Rightarrow> operator_hit list" where
  "detect_shell_operators argv =
     sort_key (\<lambda>h. (hit_index h, operator_rank (hit_kind h), hit_token h))
       (List.map_filter (\<lambda>(i, t). map_option (\<lambda>k. \<lparr>hit_kind = k, hit_index = i, hit_token = t\<rparr>) (classify_shell_operator_token t))
          (enumerate 0 argv))"

section \<open>Diagnostics\<close>

datatype diagnostic_code = ShellOperator | UnknownFlag_code | InvalidFlag | MissingValue | InvalidValue | TooManyPositionals_code
  | MissingRequired | NonRepeatable | AmbiguousSubcommand

definition code_rank :: "diagnostic_code \<Rightarrow> nat" where
  "code_rank c = (case c of ShellOperator \<Rightarrow> 0 | UnknownFlag_code \<Rightarrow> 1 | InvalidFlag \<Rightarrow> 2 | MissingValue \<Rightarrow> 3 | InvalidValue \<Rightarrow> 4
     | TooManyPositionals_code \<Rightarrow> 5 | MissingRequired \<Rightarrow> 6 | NonRepeatable \<Rightarrow> 7 | AmbiguousSubcommand \<Rightarrow> 8)"

record diagnostic =
  diag_code :: diagnostic_code
  diag_message :: string
  diag_span :: "nat option"
  diag_suggestions :: "(string \<times> string) list"

definition diagnostic_new :: "diagnostic_code \<Rightarrow> string \<Rightarrow> nat option \<Rightarrow> diagnostic" where
  "diagnostic_new c m i = \<lparr>diag_code = c, diag_message = m, diag_span = i, diag_suggestions = []\<rparr>"

definition sort_diagnostics :: "diagnostic list \<Rightarrow> diagnostic list" where
  "sort_diagnostics = sort_key (\<lambda>d. (code_rank (diag_code d), case diag_span d of None \<Rightarrow> 2 ^ 64 - 1 | Some i \<Rightarrow> i, diag_message d))"

definition shell_operator_label :: "shell_operator \<Rightarrow> string" where
  "shell_operator_label k = (case k of Pipe \<Rightarrow> ''pipe'' | RedirectOut \<Rightarrow> ''redirect_out'' | RedirectOutAppend \<Rightarrow> ''redirect_out_append''
     | RedirectIn \<Rightarrow> ''redirect_in'' | HereDoc \<Rightarrow> ''heredoc'' | AndAnd \<Rightarrow> ''and_and'' | OrOr \<Rightarrow> ''or_or'' | Semicolon \<Rightarrow> ''semicolon''
     | SubstitutionDollarParen \<Rightarrow> ''substitution_dollar_paren'' | SubstitutionBackticks \<Rightarrow> ''substitution_backticks'')"

definition suggestion_for_shell_operator :: "shell_operator \<Rightarrow> string" where
  "suggestion_for_shell_operator k = (case k of
       Pipe \<Rightarrow> ''Use --limit or --filter flags instead of piping to head/grep''
     | RedirectOut \<Rightarrow> ''Use --output <file> flag instead of shell redirection''
     | RedirectOutAppend \<Rightarrow> ''Use --output <file> flag instead of shell redirection''
     | RedirectIn \<Rightarrow> ''Use --input <file> flag instead of shell redirection''
     | HereDoc \<Rightarrow> ''Use --input <file> or pass content via stdin''
     | AndAnd \<Rightarrow> ''Run commands separately; each exo command is atomic''
     | OrOr \<Rightarrow> ''Run commands separately; each exo command is atomic''
     | Semicolon \<Rightarrow> ''Run commands separately; each exo command is atomic''
     | SubstitutionDollarParen \<Rightarrow> ''Use explicit values instead of shell substitution''
     | SubstitutionBackticks \<Rightarrow> ''Use explicit values instead of shell substitution'')"

definition diagnostics_for_shell_operators :: "operator_hit list \<Rightarrow> diagnostic list" where
  "diagnostics_for_shell_operators hits =
     sort_diagnostics (map (\<lambda>h. \<lparr>diag_code = ShellOperator,
         diag_message = ''Unsupported shell operator token '' @ in_quotes (hit_token h) @ '' ('' @ shell_operator_label (hit_kind h) @ '')'',
         diag_span = Some (hit_index h),
         diag_suggestions = [(''Remove shell operator and use CLI flags instead'', suggestion_for_shell_operator (hit_kind h))]\<rparr>) hits)"

section \<open>Values\<close>

definition parse_value :: "'f value_env \<Rightarrow> value_type \<Rightarrow> string \<Rightarrow> 'f typed_value option" where
  "parse_value V ty t =
     (case ty of
        Bool_type \<Rightarrow> if t = ''true'' then Some (TBool True) else if t = ''false'' then Some (TBool False) else None
      | Int_type \<Rightarrow> map_option TInt (parse_i64 t)
      | Float_type \<Rightarrow> map_option TFloat (read_float V t)
      | String_type \<Rightarrow> Some (TString t)
      | Path_type \<Rightarrow> Some (TPath t)
      | Json_type \<Rightarrow> map_option (\<lambda>_. TJson t) (json_of_text V t)
      | Enum_type vs \<Rightarrow> if t \<in> set vs then Some (TEnum t) else None)"

definition display_arg :: "arg_spec \<Rightarrow> string" where
  "display_arg a =
     (if arg_kind a = Positional_kind then (if arg_name a = [] then arg_id a else arg_name a)
      else if arg_name a \<noteq> [] then ''--'' @ arg_name a
      else case arg_short a of Some c \<Rightarrow> ''-'' @ c | None \<Rightarrow> arg_id a)"

section \<open>Reading the arguments\<close>

record 'f args_state =
  args_call :: "'f invocation"
  args_diagnostics :: "diagnostic list"
  args_positionals :: "(nat \<times> string) list"

definition complain :: "diagnostic_code \<Rightarrow> string \<Rightarrow> nat option \<Rightarrow> 'f args_state \<Rightarrow> 'f args_state" where
  "complain c m i st = st\<lparr>args_diagnostics := args_diagnostics st @ [diagnostic_new c m i]\<rparr>"

definition provide :: "arg_spec \<Rightarrow> 'f typed_value \<Rightarrow> 'f args_state \<Rightarrow> 'f args_state" where
  "provide a v st = st\<lparr>args_call := insert_arg (arg_id a) v (bump_occurrence (arg_id a) (args_call st))\<rparr>"

definition take_value :: "'f value_env \<Rightarrow> arg_spec \<Rightarrow> string \<Rightarrow> string \<Rightarrow> nat \<Rightarrow> 'f args_state \<Rightarrow> 'f args_state" where
  "take_value V a t target i st =
     (case parse_value V (arg_type a) t of
        Some v \<Rightarrow> provide a v st
      | None \<Rightarrow> complain InvalidValue (''Invalid value '' @ in_quotes t @ '' for '' @ target) (Some i) st)"

text \<open>The last argument with a name wins; one without a name has no long form.\<close>

definition by_long :: "arg_spec list \<Rightarrow> string \<Rightarrow> arg_spec option" where
  "by_long as n = (if n = [] then None else find (\<lambda>a. arg_name a = n) (rev as))"

definition by_short :: "arg_spec list \<Rightarrow> char \<Rightarrow> arg_spec option" where
  "by_short as c = find (\<lambda>a. arg_short a = Some [c]) (rev as)"

definition long_name :: "string \<Rightarrow> string \<times> string option" where
  "long_name long = (case split_once ''='' long of None \<Rightarrow> (long, None) | Some (n, v) \<Rightarrow> (n, Some v))"

text \<open>An option takes the value after the equals sign or the next token; a flag takes none. The
  result says whether the next token was taken.\<close>

definition read_named ::
  "'f value_env \<Rightarrow> arg_spec \<Rightarrow> string \<Rightarrow> string option \<Rightarrow> nat \<Rightarrow> string list \<Rightarrow> 'f args_state \<Rightarrow> 'f args_state \<times> bool" where
  "read_named V a target inline i ts st =
     (case arg_kind a of
        Flag_kind \<Rightarrow> (provide a (TBool True) st, False)
      | Option_kind \<Rightarrow> (case inline of
            Some v \<Rightarrow> (take_value V a v target i st, False)
          | None \<Rightarrow> (case ts of
              [] \<Rightarrow> (complain MissingValue (''Missing value for '' @ target) (Some i) st, False)
            | v # _ \<Rightarrow> (take_value V a v target (i + 1) st, True)))
      | Positional_kind \<Rightarrow> (complain InvalidFlag (target @ '' is not a flag'') (Some i) st, False))"

definition scan_token ::
  "'f value_env \<Rightarrow> arg_spec list \<Rightarrow> nat \<Rightarrow> string \<Rightarrow> string list \<Rightarrow> 'f args_state \<Rightarrow> 'f args_state \<times> bool" where
  "scan_token V as i t ts st =
     (case strip_prefix ''--'' t of
        Some long \<Rightarrow> (let target = in_quotes (''--'' @ fst (long_name long)) in
          case by_long as (fst (long_name long)) of
            None \<Rightarrow> (complain UnknownFlag_code (''Unknown flag '' @ target) (Some i) st, False)
          | Some a \<Rightarrow> read_named V a target (snd (long_name long)) i ts st)
      | None \<Rightarrow>
          if starts_with t ''-'' \<and> length t = 2
          then (case by_short as (t ! 1) of
              None \<Rightarrow> (complain UnknownFlag_code (''Unknown flag '' @ in_quotes t) (Some i) st, False)
            | Some a \<Rightarrow> read_named V a (in_quotes t) None i ts st)
          else (st\<lparr>args_positionals := args_positionals st @ [(i, t)]\<rparr>, False))"

fun scan_args :: "'f value_env \<Rightarrow> arg_spec list \<Rightarrow> nat \<Rightarrow> string list \<Rightarrow> 'f args_state \<Rightarrow> 'f args_state" where
  "scan_args V as i [] st = st"
| "scan_args V as i (t # ts) st =
     (if t = ''--'' then st\<lparr>args_positionals := args_positionals st @ enumerate (i + 1) ts\<rparr>
      else case scan_token V as i t ts st of
        (st', taken) \<Rightarrow> scan_args V as (if taken then i + 2 else i + 1) (if taken then tl ts else ts) st')"

definition check_excess :: "arg_spec list \<Rightarrow> 'f args_state \<Rightarrow> 'f args_state" where
  "check_excess ps st =
     (if length ps < length (args_positionals st)
      then case args_positionals st ! length ps of (i, t) \<Rightarrow>
        complain TooManyPositionals_code (''Unexpected positional argument '' @ in_quotes t) (Some i) st
      else st)"

fun assign_positionals :: "'f value_env \<Rightarrow> arg_spec list \<Rightarrow> (nat \<times> string) list \<Rightarrow> 'f args_state \<Rightarrow> 'f args_state" where
  "assign_positionals V [] ps st = st"
| "assign_positionals V (a # as) [] st =
     assign_positionals V as [] (if arg_optional a then st else complain MissingRequired ''Missing required positional argument'' None st)"
| "assign_positionals V (a # as) ((i, t) # ps) st = assign_positionals V as ps (take_value V a t ''positional'' i st)"

definition check_count :: "arg_spec \<Rightarrow> 'f args_state \<Rightarrow> 'f args_state" where
  "check_count a st =
     (let n = occurrence (args_call st) (arg_id a);
          st = (if \<not> arg_optional a \<and> n = 0
                then complain MissingRequired (''Missing required argument '' @ in_quotes (display_arg a)) None st else st)
      in if \<not> arg_repeatable a \<and> 1 < n
         then complain NonRepeatable (''Argument '' @ in_quotes (display_arg a) @ '' is not repeatable'') None st else st)"

definition apply_default :: "'f value_env \<Rightarrow> arg_spec \<Rightarrow> 'f args_state \<Rightarrow> 'f args_state" where
  "apply_default V a st =
     (if map_of (inv_args (args_call st)) (arg_id a) \<noteq> None then st
      else case Option.bind (arg_default a) (parse_value V (arg_type a)) of
        None \<Rightarrow> st
      | Some v \<Rightarrow> st\<lparr>args_call := insert_arg (arg_id a) v (args_call st)\<rparr>)"

definition compile_args :: "'f value_env \<Rightarrow> operation_spec \<Rightarrow> string list \<Rightarrow> nat \<Rightarrow> 'f invocation \<Rightarrow> 'f args_state" where
  "compile_args V p argv offset call =
     (let as = op_args p;
          st = scan_args V as offset argv \<lparr>args_call = call, args_diagnostics = [], args_positionals = []\<rparr>;
          st = check_excess (positionals_of p) st;
          st = assign_positionals V (positionals_of p) (args_positionals st) st
      in fold (apply_default V) as (fold check_count as st))"

section \<open>Finding the operation\<close>

fun strip_global_format_args :: "string list \<Rightarrow> string list" where
  "strip_global_format_args [] = []"
| "strip_global_format_args (t # ts) =
     (if t = ''--format'' \<and> ts \<noteq> [] then strip_global_format_args (tl ts)
      else if starts_with t ''--format='' then strip_global_format_args ts
      else t # strip_global_format_args ts)"

definition optionalize_flat_spec :: "command_spec \<Rightarrow> command_spec" where
  "optionalize_flat_spec S =
     S\<lparr>spec_namespaces := map (\<lambda>(n, ns). (n, ns\<lparr>ns_operations :=
         map (\<lambda>(k, p). (k, p\<lparr>op_args := map optional_arg (op_args p)\<rparr>)) (ns_operations ns)\<rparr>)) (spec_namespaces S)\<rparr>"

text \<open>The longest run of tokens after the namespace that names an operation, and its length.\<close>

definition longest_operation :: "namespace_spec option \<Rightarrow> string list \<Rightarrow> (string \<times> nat) option" where
  "longest_operation n rest =
     (case n of
        None \<Rightarrow> None
      | Some ns \<Rightarrow> map_option (\<lambda>k. (join_with ''.'' (take k rest), k))
          (find (\<lambda>k. namespace_operation ns (join_with ''.'' (take k rest)) \<noteq> None) (rev [1..<Suc (length rest)])))"

definition route_tokens_from_argv :: "string list \<Rightarrow> command_spec \<Rightarrow> string list \<times> nat list \<times> nat" where
  "route_tokens_from_argv argv S =
     (let path = enumerate 0 (takeWhile (\<lambda>t. \<not> starts_with t ''-'') argv)
      in case (if path \<noteq> [] \<and> snd (hd path) = ''exo'' then tl path else path) of
        [] \<Rightarrow> ([], [], 0)
      | (i, n) # rest \<Rightarrow>
          if map_of (spec_root_operations S) n \<noteq> None then ([n], [i], i + 1)
          else (case rest of
              [] \<Rightarrow> (case spec_namespace S n of
                  Some ns \<Rightarrow> (case ns_operations ns of
                      [(k, _)] \<Rightarrow> ([n, k], [i, i], i + 1)
                    | _ \<Rightarrow> ([n], [i], i + 1))
                | None \<Rightarrow> ([n], [i], i + 1))
            | (j, t) # _ \<Rightarrow> (case longest_operation (spec_namespace S n) (map snd rest) of
                  None \<Rightarrow> ([n, t], [i, j], j + 1)
                | Some (k, len) \<Rightarrow> ([n, k], [i, j], fst (rest ! (len - 1)) + 1))))"

definition routing_code_to_legacy :: "routing_code \<Rightarrow> diagnostic_code" where
  "routing_code_to_legacy c = (case c of
       UnknownFlag \<Rightarrow> UnknownFlag_code | MissingRequiredArg \<Rightarrow> MissingRequired | InvalidArgType \<Rightarrow> InvalidValue
     | TooManyPositionals \<Rightarrow> TooManyPositionals_code | UnsupportedShellFeature \<Rightarrow> ShellOperator
     | UnknownNamespace \<Rightarrow> AmbiguousSubcommand | UnknownOperation \<Rightarrow> AmbiguousSubcommand | AmbiguousCommand \<Rightarrow> AmbiguousSubcommand)"

definition routing_diagnostic_to_legacy :: "nat list \<Rightarrow> routing_diagnostic \<Rightarrow> diagnostic" where
  "routing_diagnostic_to_legacy indices d =
     \<lparr>diag_code = routing_code_to_legacy (rd_code d), diag_message = rd_message d,
      diag_span = (case rd_token d of None \<Rightarrow> None | Some i \<Rightarrow> if i < length indices then Some (indices ! i) else None),
      diag_suggestions = map (\<lambda>s. (sug_label s, sug_replacement s)) (rd_suggestions d)\<rparr>"

section \<open>Compiling\<close>

record 'f compilation =
  compiled_call :: "'f invocation option"
  compiled_diagnostics :: "diagnostic list"
  compiled_help :: "json option"

definition root_help :: json where
  "root_help = JObject [(''address'', JObject [(''kind'', JString ''root'')])]"

definition steering_for_shell_operators :: "operator_hit list \<Rightarrow> json option" where
  "steering_for_shell_operators hits = (if hits = [] then None else Some root_help)"

definition finish_compilation :: "'f args_state \<Rightarrow> 'f compilation" where
  "finish_compilation st =
     (let ds = sort_diagnostics (args_diagnostics st)
      in \<lparr>compiled_call = (if ds = [] then Some (args_call st) else None), compiled_diagnostics = ds, compiled_help = None\<rparr>)"

definition compile_operation ::
  "'f value_env \<Rightarrow> operation_spec \<Rightarrow> string \<Rightarrow> string \<Rightarrow> string list \<Rightarrow> nat \<Rightarrow> 'f compilation" where
  "compile_operation V p n k argv start = finish_compilation (compile_args V p (drop start argv) start (invocation_new n k))"

definition compile_routed :: "'f value_env \<Rightarrow> command_spec \<Rightarrow> string list \<Rightarrow> string \<Rightarrow> string \<Rightarrow> nat \<Rightarrow> 'f compilation" where
  "compile_routed V S argv n k start =
     (case spec_operation S n k of
        Some p \<Rightarrow> compile_operation V p n k argv start
      | None \<Rightarrow> \<lparr>compiled_call = None, compiled_diagnostics = [diagnostic_new AmbiguousSubcommand
            (''Unknown operation '' @ in_quotes k @ '' in namespace '' @ in_quotes n) None], compiled_help = None\<rparr>)"

definition compile_argv_v2 :: "'f value_env \<Rightarrow> command_spec \<Rightarrow> string list \<Rightarrow> 'f compilation" where
  "compile_argv_v2 V S argv =
     (let argv = strip_global_format_args argv; hits = detect_shell_operators argv
      in if hits \<noteq> []
         then \<lparr>compiled_call = None, compiled_diagnostics = diagnostics_for_shell_operators hits,
               compiled_help = steering_for_shell_operators hits\<rparr>
         else case route_tokens_from_argv argv S of (toks, indices, start) \<Rightarrow>
           (case (if length toks = 1 then map_of (spec_root_operations S) (hd toks) else None) of
              Some p \<Rightarrow> compile_operation V p [] (hd toks) argv start
            | None \<Rightarrow> (case (route (optionalize_flat_spec S) toks :: routing_diagnostic + 'f invocation) of
                Inl d \<Rightarrow> \<lparr>compiled_call = None, compiled_diagnostics = [routing_diagnostic_to_legacy indices d], compiled_help = None\<rparr>
              | Inr call \<Rightarrow> compile_routed V S argv (inv_namespace call) (inv_operation call) start)))"

end
