(* ===== verification/Invocation_Json.thy ===== *)
theory Invocation_Json
  imports Argv_Compiler
begin

text \<open>
  Invocations as JSON, the machine channel of \<open>tools/exo/src/command/router.rs\<close>: an invocation is
  written as an object of its arguments, and an object is read back by the operation's
  specification with lenient coercions and defaults. Reading and writing JSON text and floats are
  parameters.
\<close>

section \<open>Writing\<close>

fun to_json_value :: "'f value_env \<Rightarrow> 'f typed_value \<Rightarrow> json" where
  "to_json_value V (TBool b) = JBool b"
| "to_json_value V (TInt i) = JInt i"
| "to_json_value V (TFloat x) = (case json_of_float V x of Some s \<Rightarrow> JFloat s | None \<Rightarrow> JNull)"
| "to_json_value V (TString s) = JString s"
| "to_json_value V (TPath s) = JString s"
| "to_json_value V (TEnum s) = JString s"
| "to_json_value V (TJson s) = (case json_of_text V s of Some v \<Rightarrow> v | None \<Rightarrow> JString s)"
| "to_json_value V (TArray vs) = JArray (map (to_json_value V) vs)"

definition to_json_input :: "'f value_env \<Rightarrow> 'f invocation \<Rightarrow> json" where
  "to_json_input V call = JObject (map (\<lambda>(k, v). (k, to_json_value V v)) (inv_args call))"

section \<open>Reading a value\<close>

definition as_i64 :: "json \<Rightarrow> int option" where
  "as_i64 v = (case v of JInt i \<Rightarrow> if - (2 ^ 63) \<le> i \<and> i < 2 ^ 63 then Some i else None | _ \<Rightarrow> None)"

definition as_f64 :: "'f value_env \<Rightarrow> json \<Rightarrow> 'f option" where
  "as_f64 V v = (case v of JInt i \<Rightarrow> Some (float_of_int V i) | JFloat s \<Rightarrow> Some (float_of_json V s) | _ \<Rightarrow> None)"

definition or_else :: "'a option \<Rightarrow> 'a option \<Rightarrow> 'a option" where
  "or_else a b = (case a of Some x \<Rightarrow> Some x | None \<Rightarrow> b)"

definition invalid_arg_type :: "'f value_env \<Rightarrow> arg_spec \<Rightarrow> string \<Rightarrow> json \<Rightarrow> routing_diagnostic" where
  "invalid_arg_type V a expected v = in_context None [] (Some expected) (Some (text_of_json V v))
     (routing_error InvalidArgType (''Expected '' @ expected @ '' for argument '' @ in_quotes (arg_name a)))"

definition invalid_variant :: "string \<Rightarrow> string list \<Rightarrow> arg_spec \<Rightarrow> string \<Rightarrow> routing_diagnostic" where
  "invalid_variant what vs a t = in_context None vs (Some (''enum('' @ join_with '', '' vs @ '')'')) (Some t)
     (routing_error InvalidArgType (what @ in_quotes t @ '' for argument '' @ in_quotes (arg_name a)))"

definition some_or :: "'e \<Rightarrow> 'a option \<Rightarrow> 'e + 'a" where
  "some_or e x = (case x of None \<Rightarrow> Inl e | Some y \<Rightarrow> Inr y)"

definition lenient_bool :: "string \<Rightarrow> bool option" where
  "lenient_bool s = (if s \<in> {''true'', ''1'', ''yes''} then Some True else if s \<in> {''false'', ''0'', ''no''} then Some False else None)"

definition element_text :: "'f value_env \<Rightarrow> json \<Rightarrow> string" where
  "element_text V v = (case as_str v of Some s \<Rightarrow> s | None \<Rightarrow> text_of_json V v)"

definition typed_from_json :: "'f value_env \<Rightarrow> json \<Rightarrow> arg_spec \<Rightarrow> routing_diagnostic + 'f typed_value" where
  "typed_from_json V v a =
     (case arg_type a of
        Bool_type \<Rightarrow> some_or (invalid_arg_type V a ''boolean'' v)
          (map_option TBool (or_else (as_bool v) (Option.bind (as_str v) lenient_bool)))
      | Int_type \<Rightarrow> some_or (invalid_arg_type V a ''integer'' v)
          (map_option TInt (or_else (as_i64 v) (Option.bind (as_str v) (\<lambda>s. parse_i64 s))))
      | Float_type \<Rightarrow> some_or (invalid_arg_type V a ''number'' v)
          (map_option TFloat (or_else (as_f64 V v) (Option.bind (as_str v) (read_float V))))
      | String_type \<Rightarrow> (case v of
            JString s \<Rightarrow> Inr (TString s)
          | JArray vs \<Rightarrow> if vs = [] then Inl (invalid_arg_type V a ''non-empty string or array'' v)
              else Inr (TString (join_with '','' (map (element_text V) vs)))
          | _ \<Rightarrow> Inl (invalid_arg_type V a ''string'' v))
      | Path_type \<Rightarrow> some_or (invalid_arg_type V a ''string'' v) (map_option TPath (as_str v))
      | Json_type \<Rightarrow> Inr (TJson (text_of_json V v))
      | Enum_type vs \<Rightarrow> (case as_str v of
            None \<Rightarrow> Inl (invalid_arg_type V a ''string'' v)
          | Some t \<Rightarrow> if t \<in> set vs then Inr (TEnum t) else Inl (invalid_variant ''Invalid enum value '' vs a t)))"

definition invalid_default_value :: "arg_spec \<Rightarrow> string \<Rightarrow> string \<Rightarrow> routing_diagnostic" where
  "invalid_default_value a expected t = in_context None [] (Some expected) (Some t)
     (routing_error InvalidArgType (''Invalid default value for argument '' @ in_quotes (arg_name a)))"

definition typed_value_from_default :: "'f value_env \<Rightarrow> arg_spec \<Rightarrow> routing_diagnostic + 'f typed_value" where
  "typed_value_from_default V a =
     (case arg_default a of
        None \<Rightarrow> Inl (routing_error InvalidArgType (''Missing default value for argument '' @ in_quotes (arg_name a)))
      | Some t \<Rightarrow> (case arg_type a of
            Bool_type \<Rightarrow> some_or (invalid_default_value a ''boolean'' t)
              (if t = ''true'' then Some (TBool True) else if t = ''false'' then Some (TBool False) else None)
          | Int_type \<Rightarrow> some_or (invalid_default_value a ''integer'' t) (map_option TInt (parse_i64 t))
          | Float_type \<Rightarrow> some_or (invalid_default_value a ''number'' t) (map_option TFloat (read_float V t))
          | String_type \<Rightarrow> Inr (TString t)
          | Path_type \<Rightarrow> Inr (TPath t)
          | Json_type \<Rightarrow> Inr (TJson t)
          | Enum_type vs \<Rightarrow> if t \<in> set vs then Inr (TEnum t) else Inl (invalid_variant ''Invalid default enum value '' vs a t)))"

section \<open>Reading an invocation\<close>

text \<open>A key is the id or the name of an argument, also with hyphens for underscores, or its short form.\<close>

definition key_matches :: "string \<Rightarrow> arg_spec \<Rightarrow> bool" where
  "key_matches key a \<longleftrightarrow>
     arg_id a = key \<or> arg_name a = key \<or> arg_id a = underscores_to_hyphens key \<or> arg_name a = underscores_to_hyphens key
     \<or> length key = 1 \<and> arg_short a = Some key"

definition unknown_argument :: "string list \<Rightarrow> operation_spec \<Rightarrow> string \<Rightarrow> routing_diagnostic" where
  "unknown_argument path p key = in_context (Some path) (map arg_id (op_args p)) None (Some key)
     (routing_error UnknownFlag (''Unknown argument: '' @ in_quotes key))"

type_synonym 'f given_args = "(string, 'f typed_value) bmap \<times> (string, nat) bmap"

fun read_fields ::
  "'f value_env \<Rightarrow> string list \<Rightarrow> operation_spec \<Rightarrow> (string \<times> json) list \<Rightarrow> 'f given_args \<Rightarrow> routing_diagnostic + 'f given_args" where
  "read_fields V path p [] given = Inr given"
| "read_fields V path p ((key, v) # entries) given =
     (case find (key_matches key) (op_args p) of
        None \<Rightarrow> Inl (unknown_argument path p key)
      | Some a \<Rightarrow> and_then (typed_from_json V v a) (\<lambda>t.
          read_fields V path p entries (bmap_insert (arg_id a) t (fst given), bmap_insert (arg_id a) 1 (snd given))))"

fun fill_defaults ::
  "'f value_env \<Rightarrow> string list \<Rightarrow> arg_spec list \<Rightarrow> (string, 'f typed_value) bmap \<Rightarrow> routing_diagnostic + (string, 'f typed_value) bmap" where
  "fill_defaults V path [] args' = Inr args'"
| "fill_defaults V path (a # as) args' =
     (if map_of args' (arg_id a) \<noteq> None then fill_defaults V path as args'
      else if arg_default a \<noteq> None
      then and_then (typed_value_from_default V a) (\<lambda>t. fill_defaults V path as (bmap_insert (arg_id a) t args'))
      else if arg_optional a then fill_defaults V path as args'
      else Inl (in_context (Some path) [] (Some (value_type_debug (arg_type a))) None
             (routing_error MissingRequiredArg (''Missing required argument: '' @ in_quotes (arg_name a)))))"

definition find_operation :: "command_spec \<Rightarrow> string \<Rightarrow> string \<Rightarrow> routing_diagnostic + operation_spec \<times> string list" where
  "find_operation S n k =
     (if n = [] then (case map_of (spec_root_operations S) k of
          Some p \<Rightarrow> Inr (p, [k])
        | None \<Rightarrow> Inl (in_context None (map fst (spec_root_operations S)) None (Some k)
            (routing_error UnknownOperation (''Unknown root operation '' @ in_quotes k))))
      else case spec_namespace S n of
        None \<Rightarrow> Inl (in_context None (map fst (spec_namespaces S)) None (Some n)
          (routing_error UnknownNamespace (''Unknown namespace: '' @ in_quotes n)))
      | Some ns \<Rightarrow> (case namespace_operation ns k of
            Some p \<Rightarrow> Inr (p, [n, k])
          | None \<Rightarrow> Inl (in_context (Some [n]) (map fst (ns_operations ns)) None (Some k)
              (routing_error UnknownOperation (''Unknown operation '' @ in_quotes k @ '' in namespace '' @ in_quotes n)))))"

definition invocation_from_json ::
  "'f value_env \<Rightarrow> command_spec \<Rightarrow> json \<Rightarrow> string \<Rightarrow> string \<Rightarrow> routing_diagnostic + 'f invocation" where
  "invocation_from_json V S input n k =
     and_then (find_operation S n k) (\<lambda>(p, path).
       case input of
         JObject entries \<Rightarrow>
           and_then (read_fields V path p entries ([], [])) (\<lambda>(given, counts).
           and_then (fill_defaults V path (op_args p) given) (\<lambda>args'.
             Inr \<lparr>inv_namespace = n, inv_operation = k, inv_args = args', inv_occurrences = counts,
               inv_source = Some \<lparr>source_frontend = ToolJson, source_tokens = None, source_input = Some (text_of_json V input)\<rparr>\<rparr>))
       | _ \<Rightarrow> Inl (in_context (Some path) [] (Some ''object'') (Some (text_of_json V input))
           (routing_error InvalidArgType ''Expected JSON object for invocation arguments'')))"

end
