(* ===== verification/Argv_Facts.thy ===== *)
theory Argv_Facts
  imports Invocation_Json
begin

text \<open>
  What a compiled invocation carries: every argument is declared by its operation and has the
  declared type, none is missing, and none is given twice unless it may be.
\<close>

section \<open>Values\<close>

lemma parse_value_typed: "parse_value V ty t = Some v \<Longrightarrow> has_type v ty"
  by (cases ty) (auto simp: parse_value_def split: if_splits dest!: parse_int_bounds)

section \<open>The state of reading\<close>

definition args_typed :: "arg_spec list \<Rightarrow> 'f invocation \<Rightarrow> bool" where
  "args_typed as call \<longleftrightarrow> bmap_ok (inv_args call)
     \<and> (\<forall>k v. map_of (inv_args call) k = Some v \<longrightarrow> (\<exists>a\<in>set as. arg_id a = k \<and> has_type v (arg_type a)))
     \<and> (\<forall>k. occurrence call k \<noteq> 0 \<longrightarrow> map_of (inv_args call) k \<noteq> None)"

definition flags_bool :: "arg_spec list \<Rightarrow> bool" where
  "flags_bool as \<longleftrightarrow> list_all (\<lambda>a. arg_kind a = Flag_kind \<longrightarrow> arg_type a = Bool_type) as"

lemma occurrence_simps [simp]:
  "occurrence (insert_arg k v call) j = occurrence call j"
  "occurrence (bump_occurrence k call) j = (if j = k then min (occurrence call k + 1) (2 ^ 32 - 1) else occurrence call j)"
  by (simp_all add: occurrence_def insert_arg_def bump_occurrence_def)

lemma inv_args_simps [simp]:
  "inv_args (insert_arg k v call) = bmap_insert k v (inv_args call)"
  "inv_args (bump_occurrence k call) = inv_args call"
  "inv_namespace (insert_arg k v call) = inv_namespace call" "inv_operation (insert_arg k v call) = inv_operation call"
  "inv_namespace (bump_occurrence k call) = inv_namespace call" "inv_operation (bump_occurrence k call) = inv_operation call"
  by (simp_all add: insert_arg_def bump_occurrence_def)

lemma typed_new [simp]: "args_typed as (invocation_new n k)"
  by (simp add: args_typed_def invocation_new_def occurrence_def)

lemma typed_insert: "args_typed as call \<Longrightarrow> a \<in> set as \<Longrightarrow> has_type v (arg_type a) \<Longrightarrow> args_typed as (insert_arg (arg_id a) v call)"
  by (auto simp: args_typed_def)

lemma typed_provide:
  "args_typed as (args_call st) \<Longrightarrow> a \<in> set as \<Longrightarrow> has_type v (arg_type a) \<Longrightarrow> args_typed as (args_call (provide a v st))"
  by (auto simp: args_typed_def provide_def)

lemma typed_take: "args_typed as (args_call st) \<Longrightarrow> a \<in> set as \<Longrightarrow> args_typed as (args_call (take_value V a t target i st))"
  by (auto simp: take_value_def complain_def intro: typed_provide parse_value_typed split: option.splits)

lemma call_complain [simp]: "args_call (complain c m i st) = args_call st"
  by (simp add: complain_def)

lemma by_long_mem: "by_long as n = Some a \<Longrightarrow> a \<in> set as"
  by (auto simp: by_long_def dest!: find_SomeD split: if_splits)

lemma by_short_mem: "by_short as c = Some a \<Longrightarrow> a \<in> set as"
  by (auto simp: by_short_def dest!: find_SomeD)

lemma flag_typed: "flags_bool as \<Longrightarrow> a \<in> set as \<Longrightarrow> arg_kind a = Flag_kind \<Longrightarrow> has_type (TBool b) (arg_type a)"
  by (auto simp: flags_bool_def list_all_iff)

lemmas typed_steps = typed_provide typed_take flag_typed by_long_mem by_short_mem

lemma typed_named:
  "flags_bool as \<Longrightarrow> args_typed as (args_call st) \<Longrightarrow> a \<in> set as
   \<Longrightarrow> args_typed as (args_call (fst (read_named V a target inline i ts st)))"
  by (auto simp: read_named_def intro: typed_steps split: arg_kind.split option.split list.split)

lemma typed_token:
  "flags_bool as \<Longrightarrow> args_typed as (args_call st) \<Longrightarrow> args_typed as (args_call (fst (scan_token V as i t ts st)))"
  by (auto simp: scan_token_def Let_def intro!: typed_named intro: by_long_mem by_short_mem split: option.split)

lemma typed_scan:
  "flags_bool as \<Longrightarrow> args_typed as (args_call st) \<Longrightarrow> args_typed as (args_call (scan_args V as i ts st))"
proof (induction V as i ts st rule: scan_args.induct)
  case (2 V as i t ts st)
  then show ?case
    using typed_token [of as st V i t ts] by (cases "scan_token V as i t ts st") auto
qed simp

lemma typed_positionals:
  "set ps \<subseteq> set as \<Longrightarrow> args_typed as (args_call st) \<Longrightarrow> args_typed as (args_call (assign_positionals V ps toks st))"
  by (induction V ps toks st rule: assign_positionals.induct) (auto intro: typed_take)

lemma call_excess [simp]: "args_call (check_excess ps st) = args_call st"
  by (simp add: check_excess_def split: prod.split)

section \<open>The checks of the counts\<close>

definition count_complaints :: "'f invocation \<Rightarrow> arg_spec \<Rightarrow> bool" where
  "count_complaints call a \<longleftrightarrow> \<not> arg_optional a \<and> occurrence call (arg_id a) = 0 \<or> \<not> arg_repeatable a \<and> 1 < occurrence call (arg_id a)"

lemma check_count_diagnostics:
  "args_call (check_count a st) = args_call st
   \<and> (args_diagnostics (check_count a st) = [] \<longleftrightarrow> args_diagnostics st = [] \<and> \<not> count_complaints (args_call st) a)"
  by (auto simp: check_count_def Let_def count_complaints_def complain_def)

lemma check_counts_diagnostics:
  "args_call (fold check_count as st) = args_call st
   \<and> (args_diagnostics (fold check_count as st) = [] \<longleftrightarrow> args_diagnostics st = [] \<and> (\<forall>a\<in>set as. \<not> count_complaints (args_call st) a))"
  by (induction as arbitrary: st) (auto simp: check_count_diagnostics)

section \<open>Defaults\<close>

lemma apply_default_diagnostics [simp]: "args_diagnostics (apply_default V a st) = args_diagnostics st"
  by (simp add: apply_default_def split: option.split)

lemma apply_defaults_diagnostics [simp]: "args_diagnostics (fold (apply_default V) as st) = args_diagnostics st"
  by (induction as arbitrary: st) simp_all

lemma apply_default_typed:
  assumes "args_typed as (args_call st)" "a \<in> set as"
  shows "args_typed as (args_call (apply_default V a st))"
proof (cases "map_of (inv_args (args_call st)) (arg_id a) = None \<and> Option.bind (arg_default a) (parse_value V (arg_type a)) \<noteq> None")
  case True
  then obtain s v where "parse_value V (arg_type a) s = Some v"
      "apply_default V a st = st\<lparr>args_call := insert_arg (arg_id a) v (args_call st)\<rparr>"
    by (auto simp: apply_default_def split: option.splits bind_splits)
  then show ?thesis using typed_insert [OF assms] parse_value_typed by force
qed (use assms(1) in \<open>auto simp: apply_default_def split: option.splits\<close>)

lemma apply_default_frame:
  "occurrence (args_call (apply_default V a st)) k = occurrence (args_call st) k"
  "inv_namespace (args_call (apply_default V a st)) = inv_namespace (args_call st)"
  "inv_operation (args_call (apply_default V a st)) = inv_operation (args_call st)"
  "map_of (inv_args (args_call st)) k \<noteq> None \<Longrightarrow> map_of (inv_args (args_call (apply_default V a st))) k \<noteq> None"
  by (auto simp: apply_default_def split: option.split)

lemma apply_defaults_typed:
  "set bs \<subseteq> set as \<Longrightarrow> args_typed as (args_call st) \<Longrightarrow>
   args_typed as (args_call (fold (apply_default V) bs st))
   \<and> (\<forall>k. occurrence (args_call (fold (apply_default V) bs st)) k = occurrence (args_call st) k)
   \<and> (\<forall>k. map_of (inv_args (args_call st)) k \<noteq> None \<longrightarrow> map_of (inv_args (args_call (fold (apply_default V) bs st))) k \<noteq> None)"
proof (induction bs arbitrary: st)
  case (Cons a bs)
  then show ?case
    using Cons.IH [of "apply_default V a st"] apply_default_frame [where V = V and a = a and st = st] apply_default_typed [where V = V and a = a and st = st] by simp
qed simp

section \<open>Compiled arguments\<close>

definition arguments_fit :: "operation_spec \<Rightarrow> 'f invocation \<Rightarrow> bool" where
  "arguments_fit p call \<longleftrightarrow> args_typed (op_args p) call
     \<and> (\<forall>a\<in>set (op_args p). (\<not> arg_optional a \<longrightarrow> map_of (inv_args call) (arg_id a) \<noteq> None)
          \<and> (\<not> arg_repeatable a \<longrightarrow> occurrence call (arg_id a) \<le> 1))"

lemma compile_args_fit:
  assumes "flags_bool (op_args p)" "args_diagnostics (compile_args V p argv i (invocation_new n k)) = []"
  shows "arguments_fit p (args_call (compile_args V p argv i (invocation_new n k)))"
proof -
  let ?as = "op_args p" and ?ps = "positionals_of p"
  let ?st0 = "\<lparr>args_call = invocation_new n k, args_diagnostics = [], args_positionals = []\<rparr>"
  let ?st1 = "check_excess ?ps (scan_args V ?as i argv ?st0)"
  let ?st2 = "assign_positionals V ?ps (args_positionals ?st1) ?st1"
  let ?st3 = "fold check_count ?as ?st2"
  have all: "compile_args V p argv i (invocation_new n k) = fold (apply_default V) ?as ?st3"
    by (simp add: compile_args_def Let_def)
  have "set ?ps \<subseteq> set ?as" by (auto simp: positionals_of_def)
  then have "args_typed ?as (args_call ?st2)"
    using typed_scan [OF assms(1), of ?st0] by (intro typed_positionals) simp_all
  then have typed: "args_typed ?as (args_call ?st3)" and same: "args_call ?st3 = args_call ?st2"
    using check_counts_diagnostics [of ?as ?st2] by simp_all
  have counts: "\<not> count_complaints (args_call ?st3) a" if "a \<in> set ?as" for a
    using assms(2) that check_counts_diagnostics [of ?as ?st2] unfolding all same by simp
  have given: "map_of (inv_args (args_call ?st3)) (arg_id a) \<noteq> None" if "a \<in> set ?as" "\<not> arg_optional a" for a
    using counts [OF that(1)] that(2) typed by (auto simp: count_complaints_def args_typed_def)
  have once: "occurrence (args_call ?st3) (arg_id a) \<le> 1" if "a \<in> set ?as" "\<not> arg_repeatable a" for a
    using counts [OF that(1)] that(2) by (auto simp: count_complaints_def)
  show ?thesis
    unfolding all arguments_fit_def using apply_defaults_typed [OF order_refl typed, of V] given once by simp
qed

end
