(* ===== verification/Command_Facts.thy ===== *)
theory Command_Facts
  imports Argv_Facts
begin

text \<open>
  The command compiler as a whole: what a successful compilation means, and that the invocation it
  gives survives being sent as JSON.
\<close>

section \<open>The path of an invocation\<close>

definition same_path :: "'f args_state \<Rightarrow> 'f args_state \<Rightarrow> bool" where
  "same_path st st' \<longleftrightarrow> inv_namespace (args_call st') = inv_namespace (args_call st) \<and> inv_operation (args_call st') = inv_operation (args_call st)"

named_theorems path_intros "steps that keep the path of the invocation"

lemma path_refl [path_intros]: "same_path st st"
  by (simp add: same_path_def)

lemma path_trans: "same_path st st' \<Longrightarrow> same_path st' st'' \<Longrightarrow> same_path st st''"
  by (simp add: same_path_def)

lemma path_steps [path_intros]:
  "same_path st (complain c m i st)" "same_path st (provide a v st)" "same_path st (take_value V a t target j st)"
  "same_path st (st\<lparr>args_positionals := ps\<rparr>)" "same_path st (apply_default V a st)" "same_path st (check_count a st)"
  "same_path st (check_excess as st)"
  by (simp_all add: same_path_def provide_def take_value_def check_count_def check_excess_def apply_default_frame Let_def split: option.split prod.split)

lemma path_named: "same_path st (fst (read_named V a target inline i ts st))"
  by (auto simp: read_named_def intro: path_intros split: arg_kind.split option.split list.split)

lemma path_token: "same_path st (fst (scan_token V as i t ts st))"
  by (auto simp: scan_token_def Let_def intro: path_intros path_named split: option.split)

lemma path_scan: "same_path st (scan_args V as i ts st)"
proof (induction V as i ts st rule: scan_args.induct)
  case (2 V as i t ts st)
  then show ?case
    using path_token [of st V as i t ts] by (cases "scan_token V as i t ts st") (auto intro: path_intros path_trans)
qed (simp add: path_refl)

lemma path_positionals: "same_path st (assign_positionals V as ps st)"
  by (induction V as ps st rule: assign_positionals.induct) (auto intro: path_intros path_trans)

lemma path_fold: "(\<And>a st. same_path st (f a st)) \<Longrightarrow> same_path st (fold f as st)"
  by (induction as arbitrary: st) (auto intro: path_refl path_trans)

lemma path_compile_args:
  "inv_namespace (args_call (compile_args V p argv i call)) = inv_namespace call"
  "inv_operation (args_call (compile_args V p argv i call)) = inv_operation call"
proof -
  let ?st0 = "\<lparr>args_call = call, args_diagnostics = [], args_positionals = []\<rparr>"
  let ?st1 = "scan_args V (op_args p) i argv ?st0"
  let ?st2 = "check_excess (positionals_of p) ?st1"
  let ?st3 = "assign_positionals V (positionals_of p) (args_positionals ?st2) ?st2"
  have "same_path ?st0 ?st1" by (rule path_scan)
  moreover have "same_path ?st1 ?st2" by (rule path_steps)
  moreover have "same_path ?st2 ?st3" by (rule path_positionals)
  moreover have "same_path ?st3 (fold check_count (op_args p) ?st3)" by (rule path_fold) (rule path_steps)
  moreover have "same_path (fold check_count (op_args p) ?st3) (compile_args V p argv i call)"
    unfolding compile_args_def Let_def by (rule path_fold) (rule path_steps)
  ultimately have "same_path ?st0 (compile_args V p argv i call)"
    by (blast intro: path_trans)
  then show "inv_namespace (args_call (compile_args V p argv i call)) = inv_namespace call"
    "inv_operation (args_call (compile_args V p argv i call)) = inv_operation call"
    by (simp_all add: same_path_def)
qed

section \<open>A successful compilation\<close>

lemma sort_diagnostics_Nil: "sort_diagnostics ds = [] \<longleftrightarrow> ds = []"
proof -
  have "set (sort_diagnostics ds) = set ds" by (simp add: sort_diagnostics_def)
  then show ?thesis by (metis set_empty)
qed

lemma finished_call:
  "compiled_call (finish_compilation st) = Some call \<longleftrightarrow> args_diagnostics st = [] \<and> call = args_call st"
  by (auto simp: finish_compilation_def Let_def sort_diagnostics_Nil)

lemma compiled_callD:
  fixes V :: "'f value_env"
  assumes "compiled_call (compile_argv_v2 V S argv) = Some call"
  obtains p start where
    "spec_operation S (inv_namespace call) (inv_operation call) = Some p"
    "args_diagnostics (compile_args V p (drop start (strip_global_format_args argv)) start (invocation_new (inv_namespace call) (inv_operation call))) = []"
    "call = args_call (compile_args V p (drop start (strip_global_format_args argv)) start (invocation_new (inv_namespace call) (inv_operation call)))"
    "detect_shell_operators (strip_global_format_args argv) = []"
proof -
  note result = that
  let ?argv = "strip_global_format_args argv"
  have path: "inv_namespace (invocation_new n k) = n" "inv_operation (invocation_new n k) = k" for n k
    by (simp_all add: invocation_new_def)
  have operation: thesis if c: "compiled_call (compile_operation V p n k ?argv start) = Some call" "spec_operation S n k = Some p"
      and h: "detect_shell_operators ?argv = []" for p n k start
  proof -
    have call: "args_diagnostics (compile_args V p (drop start ?argv) start (invocation_new n k)) = []"
        "call = args_call (compile_args V p (drop start ?argv) start (invocation_new n k))"
      using c(1) by (simp_all add: compile_operation_def finished_call)
    then have nk: "inv_namespace call = n" "inv_operation call = k"
      by (simp_all add: path_compile_args path)
    show thesis
      by (rule result [of p start, unfolded nk, OF c(2) call h])
  qed
  obtain toks indices start where r: "route_tokens_from_argv ?argv S = (toks, indices, start)"
    by (cases "route_tokens_from_argv ?argv S") auto
  have h: "detect_shell_operators ?argv = []"
    using assms by (auto simp: compile_argv_v2_def Let_def split: if_splits)
  show thesis
  proof (cases "if length toks = 1 then map_of (spec_root_operations S) (hd toks) else None")
    case (Some p)
    have "spec_operation S [] (hd toks) = Some p"
      using Some by (auto simp: spec_operation_def split: if_splits)
    moreover have "compiled_call (compile_operation V p [] (hd toks) ?argv start) = Some call"
      using assms Some h r by (simp add: compile_argv_v2_def Let_def)
    ultimately show thesis using operation h by blast
  next
    case None
    then obtain c :: "'f invocation" where "compiled_call (compile_routed V S ?argv (inv_namespace c) (inv_operation c) start) = Some call"
      using assms h r by (auto simp: compile_argv_v2_def Let_def split: sum.splits)
    then obtain p where "spec_operation S (inv_namespace c) (inv_operation c) = Some p"
        "compiled_call (compile_operation V p (inv_namespace c) (inv_operation c) ?argv start) = Some call"
      by (auto simp: compile_routed_def split: option.splits)
    then show thesis using operation h by blast
  qed
qed

section \<open>Types\<close>

definition flags_bool_spec :: "command_spec \<Rightarrow> bool" where
  "flags_bool_spec S \<longleftrightarrow> list_all (\<lambda>(n, k, p). flags_bool (op_args p)) (iter_all_operations S)"

lemma spec_operation_mem: "spec_operation S n k = Some p \<Longrightarrow> (n, k, p) \<in> set (iter_all_operations S)"
  by (auto simp: spec_operation_def iter_all_operations_def spec_namespace_def namespace_operation_def
      split: if_splits bind_splits dest!: map_of_SomeD) force+

text \<open>
  C11. Every argument of a compiled invocation is declared by the operation it names and has a value
  of the declared type, every required argument is there, and none that is not repeatable was given
  twice, for a tree in which flags are booleans.
\<close>

theorem compiled_arguments_typed:
  assumes "flags_bool_spec S" "compiled_call (compile_argv_v2 V S argv) = Some call"
  shows "\<exists>p. spec_operation S (inv_namespace call) (inv_operation call) = Some p \<and> arguments_fit p call"
proof -
  obtain p start where p: "spec_operation S (inv_namespace call) (inv_operation call) = Some p"
    "args_diagnostics (compile_args V p (drop start (strip_global_format_args argv)) start (invocation_new (inv_namespace call) (inv_operation call))) = []"
    "call = args_call (compile_args V p (drop start (strip_global_format_args argv)) start (invocation_new (inv_namespace call) (inv_operation call)))"
    using compiled_callD [OF assms(2)] by metis
  have "flags_bool (op_args p)"
    using assms(1) spec_operation_mem [OF p(1)] by (auto simp: flags_bool_spec_def list_all_iff)
  then show ?thesis
    using p compile_args_fit by metis
qed

section \<open>Flags\<close>

text \<open>
  C40. A flag takes no value: a value given to it with an equals sign is dropped without a
  diagnostic, so that a flag given as false compiles like the flag given, to true.
\<close>

theorem flag_value_ignored:
  assumes "by_long (op_args p) n = Some a" "arg_kind a = Flag_kind" "CHR ''='' \<notin> set n"
  shows "compile_args V p ((''--'' @ n @ ''='' @ v) # ts) i call = compile_args V p ((''--'' @ n) # ts) i call
    \<and> scan_token V (op_args p) i (''--'' @ n @ ''='' @ v) ts st = (provide a (TBool True) st, False)"
proof -
  have n: "n \<noteq> []" using assms(1) by (auto simp: by_long_def)
  have "long_name (n @ ''='' @ v) = (n, Some v)" "long_name n = (n, None)"
    using split_once_char [OF assms(3), of v] split_once_none [OF assms(3)] by (simp_all add: long_name_def)
  then have tokens: "scan_token V (op_args p) i (''--'' @ n @ ''='' @ v) ts st = (provide a (TBool True) st, False)"
      "scan_token V (op_args p) i (''--'' @ n) ts st = (provide a (TBool True) st, False)" for st
    using assms(1,2) by (simp_all add: scan_token_def strip_prefix_def read_named_def)
  then show ?thesis
    using n tokens [of "\<lparr>args_call = call, args_diagnostics = [], args_positionals = []\<rparr>"] by (simp add: compile_args_def)
qed

end
