(* ===== verification/Command_Json.thy ===== *)
theory Command_Json
  imports Command_Facts
begin

text \<open>A compiled invocation sent as JSON is the same invocation at the other end.\<close>

section \<open>What the channel relies on\<close>

text \<open>Every id finds its own argument first, and every default is a value of its argument.\<close>

definition operation_clear :: "'f value_env \<Rightarrow> operation_spec \<Rightarrow> bool" where
  "operation_clear V p \<longleftrightarrow> flags_bool (op_args p)
     \<and> list_all (\<lambda>a. find (key_matches (arg_id a)) (op_args p) = Some a) (op_args p)
     \<and> list_all (\<lambda>a. case arg_default a of None \<Rightarrow> True | Some s \<Rightarrow> parse_value V (arg_type a) s \<noteq> None) (op_args p)"

definition spec_clear :: "'f value_env \<Rightarrow> command_spec \<Rightarrow> bool" where
  "spec_clear V S \<longleftrightarrow> list_all (\<lambda>(n, k, p). operation_clear V p) (iter_all_operations S)"

text \<open>A float is read back as it was written.\<close>

definition float_laws :: "'f value_env \<Rightarrow> bool" where
  "float_laws V \<longleftrightarrow> (\<forall>x s. json_of_float V x = Some s \<longrightarrow> float_of_json V s = x)"

definition finite_floats :: "'f value_env \<Rightarrow> 'f invocation \<Rightarrow> bool" where
  "finite_floats V call \<longleftrightarrow> list_all (\<lambda>(k, v). case v of TFloat x \<Rightarrow> json_of_float V x \<noteq> None | _ \<Rightarrow> True) (inv_args call)"

text \<open>JSON text arrives in the form its value is printed in.\<close>

definition canonical :: "'f value_env \<Rightarrow> 'f typed_value \<Rightarrow> 'f typed_value" where
  "canonical V v = (case v of TJson s \<Rightarrow> TJson (text_of_json V (to_json_value V v)) | _ \<Rightarrow> v)"

section \<open>One value\<close>

lemma typed_value_returns:
  assumes "has_type v (arg_type a)" "float_laws V" "\<And>x. v = TFloat x \<Longrightarrow> json_of_float V x \<noteq> None"
  shows "typed_from_json V (to_json_value V v) a = Inr (canonical V v)"
  using assms
  by (cases "(v, arg_type a)" rule: has_type.cases)
     (auto simp: typed_from_json_def canonical_def some_or_def or_else_def as_bool_def as_i64_def as_f64_def as_str_def float_laws_def)

section \<open>All values\<close>

lemma bmap_insert_last: "(\<And>j. j \<in> fst ` set m \<Longrightarrow> j < k) \<Longrightarrow> bmap_insert k v m = m @ [(k, v)]"
  by (induction k v m rule: bmap_insert.induct) (force dest: order_less_asym)+

lemma read_fields_returns:
  assumes "list_all (\<lambda>a. find (key_matches (arg_id a)) (op_args p) = Some a) (op_args p)" "float_laws V"
    and "\<And>k v. (k, v) \<in> set m \<Longrightarrow> (\<exists>a\<in>set (op_args p). arg_id a = k \<and> has_type v (arg_type a))"
    and "\<And>k x. (k, TFloat x) \<in> set m \<Longrightarrow> json_of_float V x \<noteq> None"
    and "bmap_ok (n @ map (apsnd (canonical V)) m)"
  shows "\<exists>counts'. read_fields V path p (map (apsnd (to_json_value V)) m) (n, counts) = Inr (n @ map (apsnd (canonical V)) m, counts')"
  using assms(3-5)
proof (induction m arbitrary: n counts)
  case (Cons kv m)
  obtain k v where kv: "kv = (k, v)" by (cases kv)
  obtain a where a: "a \<in> set (op_args p)" "arg_id a = k" "has_type v (arg_type a)"
    using Cons.prems(1) [of k v] kv by auto
  have found: "find (key_matches k) (op_args p) = Some a"
    using assms(1) a(1,2) by (auto simp: list_all_iff)
  have returned: "typed_from_json V (to_json_value V v) a = Inr (canonical V v)"
    using typed_value_returns [OF a(3) assms(2)] Cons.prems(2) [of k] kv by auto
  have "bmap_insert k (canonical V v) n = n @ [(k, canonical V v)]"
    using Cons.prems(3) kv by (intro bmap_insert_last) (auto simp: bmap_ok_def sorted_wrt_append)
  moreover have "\<exists>counts'. read_fields V path p (map (apsnd (to_json_value V)) m) (n @ [(k, canonical V v)], c)
      = Inr ((n @ [(k, canonical V v)]) @ map (apsnd (canonical V)) m, counts')" for c
  proof (rule Cons.IH)
    show "\<exists>a\<in>set (op_args p). arg_id a = j \<and> has_type w (arg_type a)" if "(j, w) \<in> set m" for j w
      by (rule Cons.prems(1)) (use that in simp)
    show "json_of_float V x \<noteq> None" if "(j, TFloat x) \<in> set m" for j x
      by (rule Cons.prems(2) [of j]) (use that in simp)
    show "bmap_ok ((n @ [(k, canonical V v)]) @ map (apsnd (canonical V)) m)"
      using Cons.prems(3) kv by simp
  qed
  ultimately show ?case
    using found returned a(2) kv by simp
qed simp

lemma fill_defaults_done:
  "(\<And>a. a \<in> set as \<Longrightarrow> map_of m (arg_id a) \<noteq> None \<or> arg_default a = None \<and> arg_optional a) \<Longrightarrow> fill_defaults V path as m = Inr m"
proof (induction as)
  case (Cons a as)
  have "fill_defaults V path as m = Inr m" by (rule Cons.IH) (rule Cons.prems, simp)
  moreover have "map_of m (arg_id a) \<noteq> None \<or> arg_default a = None \<and> arg_optional a" by (rule Cons.prems) simp
  ultimately show ?case by auto
qed simp

section \<open>Defaults of the compiler\<close>

lemma apply_default_given:
  assumes "Option.bind (arg_default a) (parse_value V (arg_type a)) \<noteq> None"
  shows "map_of (inv_args (args_call (apply_default V a st))) (arg_id a) \<noteq> None"
  using assms by (auto simp: apply_default_def split: option.splits)

lemma apply_defaults_given:
  "a \<in> set as \<Longrightarrow> Option.bind (arg_default a) (parse_value V (arg_type a)) \<noteq> None \<Longrightarrow>
   map_of (inv_args (args_call (fold (apply_default V) as st))) (arg_id a) \<noteq> None"
proof (induction as arbitrary: st)
  case (Cons b as)
  have keep: "map_of (inv_args (args_call st)) k \<noteq> None \<Longrightarrow> map_of (inv_args (args_call (fold (apply_default V) as st))) k \<noteq> None" for st k
    by (induction as arbitrary: st) (simp_all add: apply_default_frame del: not_None_eq)
  show ?case
  proof (cases "a = b")
    case True
    then show ?thesis using keep [OF apply_default_given [OF Cons.prems(2)]] by simp
  next
    case False
    then show ?thesis using Cons by simp
  qed
qed simp

lemma compile_args_defaults:
  "a \<in> set (op_args p) \<Longrightarrow> Option.bind (arg_default a) (parse_value V (arg_type a)) \<noteq> None \<Longrightarrow>
   map_of (inv_args (args_call (compile_args V p argv i call))) (arg_id a) \<noteq> None"
  by (simp add: compile_args_def Let_def apply_defaults_given del: not_None_eq)

section \<open>The channel\<close>

lemma find_operation_Some: "spec_operation S n k = Some p \<Longrightarrow> \<exists>path. find_operation S n k = Inr (p, path)"
  by (auto simp: spec_operation_def find_operation_def split: if_splits bind_splits)

text \<open>
  C12. A compiled invocation survives the machine channel: writing its arguments as JSON and reading
  them by the same tree gives the same operation with the same arguments, JSON text up to printing.
  Floats have to be finite, ids unambiguous and defaults valid.
\<close>

theorem machine_call_round_trip:
  assumes "spec_clear V S" "float_laws V" "compiled_call (compile_argv_v2 V S argv) = Some call" "finite_floats V call"
  shows "\<exists>call'. invocation_from_json V S (to_json_input V call) (inv_namespace call) (inv_operation call) = Inr call'
    \<and> inv_namespace call' = inv_namespace call \<and> inv_operation call' = inv_operation call
    \<and> inv_args call' = map (apsnd (canonical V)) (inv_args call)"
proof -
  obtain p start where p: "spec_operation S (inv_namespace call) (inv_operation call) = Some p"
    "args_diagnostics (compile_args V p (drop start (strip_global_format_args argv)) start (invocation_new (inv_namespace call) (inv_operation call))) = []"
    "call = args_call (compile_args V p (drop start (strip_global_format_args argv)) start (invocation_new (inv_namespace call) (inv_operation call)))"
    using compiled_callD [OF assms(3)] by metis
  have clear: "operation_clear V p"
    using assms(1) spec_operation_mem [OF p(1)] by (auto simp: spec_clear_def list_all_iff)
  then have fit: "arguments_fit p call"
    using p(2,3) compile_args_fit unfolding operation_clear_def by metis
  let ?m = "inv_args call"
  have ok: "bmap_ok ?m" and typed: "\<And>k v. map_of ?m k = Some v \<Longrightarrow> \<exists>a\<in>set (op_args p). arg_id a = k \<and> has_type v (arg_type a)"
    using fit by (auto simp: arguments_fit_def args_typed_def)
  have keys: "map fst (map (apsnd (canonical V)) ?m) = map fst ?m" by (simp add: comp_def)
  obtain counts where fields: "read_fields V path p (map (apsnd (to_json_value V)) ?m) ([], []) = Inr (map (apsnd (canonical V)) ?m, counts path)" for path
  proof -
    have "\<exists>c. read_fields V path p (map (apsnd (to_json_value V)) ?m) ([], []) = Inr ([] @ map (apsnd (canonical V)) ?m, c)" for path
    proof (rule read_fields_returns)
      have "distinct (map fst ?m)" using ok by (simp add: bmap_ok_def strict_sorted_iff)
      then show "\<exists>a\<in>set (op_args p). arg_id a = k \<and> has_type v (arg_type a)" if "(k, v) \<in> set ?m" for k v
        using typed that by simp
      show "json_of_float V x \<noteq> None" if "(k, TFloat x) \<in> set ?m" for k x
        using assms(4) that by (force simp: finite_floats_def list_all_iff)
      show "bmap_ok ([] @ map (apsnd (canonical V)) ?m)"
        using ok keys by (simp add: bmap_ok_def)
    qed (use clear assms(2) in \<open>auto simp: operation_clear_def\<close>)
    then show thesis using that by (metis append_Nil)
  qed
  have "fill_defaults V path (op_args p) (map (apsnd (canonical V)) ?m) = Inr (map (apsnd (canonical V)) ?m)" for path
  proof (rule fill_defaults_done)
    fix a
    assume a: "a \<in> set (op_args p)"
    have same: "map_of (map (apsnd (canonical V)) ?m) k = None \<longleftrightarrow> map_of ?m k = None" for k
      by (simp add: map_of_eq_None_iff image_image)
    have "map_of ?m (arg_id a) \<noteq> None" if "arg_default a \<noteq> None"
    proof -
      have "Option.bind (arg_default a) (parse_value V (arg_type a)) \<noteq> None"
        using clear a that by (auto simp: operation_clear_def list_all_iff)
      then show ?thesis using compile_args_defaults [OF a] p(3) by metis
    qed
    moreover have "map_of ?m (arg_id a) \<noteq> None" if "\<not> arg_optional a"
      using fit a that by (simp add: arguments_fit_def)
    ultimately show "map_of (map (apsnd (canonical V)) ?m) (arg_id a) \<noteq> None \<or> arg_default a = None \<and> arg_optional a"
      unfolding same by blast
  qed
  moreover obtain path where "find_operation S (inv_namespace call) (inv_operation call) = Inr (p, path)"
    using find_operation_Some [OF p(1)] by blast
  moreover have "to_json_input V call = JObject (map (apsnd (to_json_value V)) ?m)"
    by (simp add: to_json_input_def apsnd_def map_prod_def)
  ultimately show ?thesis
    using fields by (simp add: invocation_from_json_def)
qed

end
