(* ===== verification/Command_Samples.thy ===== *)
theory Command_Samples
  imports Command_Json
begin

text \<open>A small command tree, an argument vector for it, and the properties of the compiler on them.\<close>

definition demo_values :: "int value_env" where
  "demo_values = \<lparr>read_float = (\<lambda>_. None), float_of_int = id, float_of_json = (\<lambda>_. 0), json_of_float = (\<lambda>_. None),
     json_of_text = (\<lambda>s. if s = ''null'' then Some JNull else None), text_of_json = (\<lambda>_. ''null'')\<rparr>"

definition demo_operation :: operation_spec where
  "demo_operation = with_arg_spec (optional_arg (option_arg ''data'' ''d'' Json_type)) (with_arg_spec (flag_arg ''force'' ''d'')
     (with_arg_spec (short_arg ''n'' (default_arg ''10'' (option_arg ''limit'' ''d'' Int_type)))
       (with_arg_spec (positional_arg ''label'' ''d'' String_type) (operation_new ''add'' ''d'' Write))))"

definition demo_spec :: command_spec where
  "demo_spec = spec_new\<lparr>spec_namespaces := [(''task'', with_operation demo_operation (namespace_new ''task'' ''d''))]\<rparr>"

definition demo_argv :: "string list" where
  "demo_argv = [''exo'', ''task'', ''add'', ''x'', ''--format'', ''json'', ''-n'', ''5'', ''--data=null'']"

definition demo_call :: "int invocation" where
  "demo_call = \<lparr>inv_namespace = ''task'', inv_operation = ''add'',
     inv_args = [(''data'', TJson ''null''), (''force'', TBool False), (''label'', TString ''x''), (''limit'', TInt 5)],
     inv_occurrences = [(''data'', 1), (''label'', 1), (''limit'', 1)], inv_source = None\<rparr>"

lemmas demo_defs = demo_values_def demo_operation_def demo_spec_def demo_argv_def demo_call_def operation_new_def with_arg_spec_def
  flag_arg_def option_arg_def positional_arg_def optional_arg_def default_arg_def short_arg_def namespace_new_def with_operation_def spec_new_def

lemma demo_routed: "route_tokens_from_argv (strip_global_format_args demo_argv) demo_spec = ([''task'', ''add''], [1, 2], 3)"
  by (simp add: demo_defs route_tokens_from_argv_def starts_with_def strip_prefix_def longest_operation_def spec_namespace_def namespace_operation_def upt_rec)

lemma demo_route: "route (optionalize_flat_spec demo_spec) [''task'', ''add''] = Inr ((invocation_new ''task'' ''add'' :: int invocation)
     \<lparr>inv_source := Some \<lparr>source_frontend = Argv_frontend, source_tokens = Some [''task'', ''add''], source_input = None\<rparr>\<rparr>)"
  by (simp add: demo_defs route_def optionalize_flat_spec_def spec_namespace_def namespace_operation_def route_operation_def missing_arg_def)

lemmas token_defs = scan_token_def strip_prefix_def starts_with_def by_short_def by_long_def long_name_def read_named_def take_value_def parse_value_def
  parse_int_def parse_nat_def is_digit_def digits_value_def digit_value_def

lemma demo_tokens:
  "scan_token demo_values (op_args demo_operation) i ''x'' ts st = (st\<lparr>args_positionals := args_positionals st @ [(i, ''x'')]\<rparr>, False)"
  "scan_token demo_values (op_args demo_operation) i ''-n'' [''5'', t] st
   = (provide (short_arg ''n'' (default_arg ''10'' (option_arg ''limit'' ''d'' Int_type))) (TInt 5) st, True)"
  "scan_token demo_values (op_args demo_operation) i ''--data=null'' ts st
   = (provide (optional_arg (option_arg ''data'' ''d'' Json_type)) (TJson ''null'') st, False)"
  by (simp_all add: demo_defs token_defs)

lemma demo_args: "compile_args demo_values demo_operation [''x'', ''-n'', ''5'', ''--data=null''] 3 (invocation_new ''task'' ''add'')
    = \<lparr>args_call = demo_call, args_diagnostics = [], args_positionals = [(3, ''x'')]\<rparr>"
proof -
  let ?start = "\<lparr>args_call = (invocation_new ''task'' ''add'' :: int invocation), args_diagnostics = [], args_positionals = []\<rparr>"
  let ?read = "\<lparr>args_call = \<lparr>inv_namespace = ''task'', inv_operation = ''add'', inv_args = [(''data'', TJson ''null''), (''limit'', TInt 5)],
     inv_occurrences = [(''data'', 1), (''limit'', 1)], inv_source = None\<rparr>, args_diagnostics = [], args_positionals = [(3, ''x'')]\<rparr>"
  let ?given = "\<lparr>args_call = demo_call\<lparr>inv_args := [(''data'', TJson ''null''), (''label'', TString ''x''), (''limit'', TInt 5)]\<rparr>,
     args_diagnostics = [], args_positionals = [(3, ''x'')]\<rparr>"
  have f1: "scan_args demo_values (op_args demo_operation) 3 [''x'', ''-n'', ''5'', ''--data=null''] ?start = ?read"
    by (simp add: demo_tokens provide_def insert_arg_def bump_occurrence_def occurrence_def invocation_new_def
       short_arg_def default_arg_def option_arg_def optional_arg_def)
  have f2: "assign_positionals demo_values (positionals_of demo_operation) [(3, ''x'')] (check_excess (positionals_of demo_operation) ?read) = ?given"
    by (simp add: demo_defs positionals_of_def check_excess_def take_value_def parse_value_def provide_def insert_arg_def bump_occurrence_def occurrence_def)
  have f3: "fold check_count (op_args demo_operation) ?given = ?given"
    by (simp add: demo_defs check_count_def occurrence_def Let_def)
  have f4: "fold (apply_default demo_values) (op_args demo_operation) ?given = \<lparr>args_call = demo_call, args_diagnostics = [], args_positionals = [(3, ''x'')]\<rparr>"
    by (simp add: demo_defs apply_default_def parse_value_def insert_arg_def)
  have f5: "args_positionals (check_excess (positionals_of demo_operation) ?read) = [(3, ''x'')]"
    by (simp add: demo_defs positionals_of_def check_excess_def)
  show ?thesis
    by (simp only: compile_args_def Let_def f1 f5 f2 f3 f4)
qed

lemma demo_operation_found: "spec_operation demo_spec ''task'' ''add'' = Some demo_operation"
proof -
  have "op_name demo_operation = ''add''" by (simp add: demo_operation_def with_arg_spec_def operation_new_def)
  then show ?thesis
    by (simp add: spec_operation_def spec_namespace_def namespace_operation_def demo_spec_def spec_new_def with_operation_def namespace_new_def)
qed

lemma demo_compiles: "compiled_call (compile_argv_v2 demo_values demo_spec demo_argv) = Some demo_call"
proof -
  have argv: "strip_global_format_args demo_argv = [''exo'', ''task'', ''add'', ''x'', ''-n'', ''5'', ''--data=null'']"
    by (simp add: demo_argv_def starts_with_def strip_prefix_def)
  then have "detect_shell_operators (strip_global_format_args demo_argv) = []"
    by (simp add: detect_shell_operators_def classify_shell_operator_token_def List.map_filter_simps)
  moreover have "compile_routed demo_values demo_spec (strip_global_format_args demo_argv) ''task'' ''add'' 3
      = finish_compilation \<lparr>args_call = demo_call, args_diagnostics = [], args_positionals = [(3, ''x'')]\<rparr>"
    unfolding argv
    by (simp add: compile_routed_def compile_operation_def demo_args demo_operation_found)
  ultimately show ?thesis
    using demo_routed demo_route by (simp add: compile_argv_v2_def invocation_new_def finished_call)
qed

section \<open>The properties on the sample\<close>

lemma demo_operations: "iter_all_operations demo_spec = [(''task'', ''add'', demo_operation)]"
proof -
  have "op_name demo_operation = ''add''" by (simp add: demo_operation_def with_arg_spec_def operation_new_def)
  then show ?thesis
    by (simp add: iter_all_operations_def demo_spec_def spec_new_def with_operation_def namespace_new_def)
qed

lemma compiled_arguments_typed_witness:
  "compiled_call (compile_argv_v2 demo_values demo_spec demo_argv) = Some demo_call
   \<and> (\<exists>p. spec_operation demo_spec ''task'' ''add'' = Some p \<and> arguments_fit p demo_call)"
proof -
  have "flags_bool_spec demo_spec"
    by (simp add: flags_bool_spec_def demo_operations) (simp add: flags_bool_def demo_defs)
  moreover have "inv_namespace demo_call = ''task''" "inv_operation demo_call = ''add''" by (simp_all add: demo_call_def)
  ultimately show ?thesis
    using compiled_arguments_typed [OF _ demo_compiles] demo_compiles by simp
qed

lemma machine_call_round_trip_witness:
  "\<exists>call'. invocation_from_json demo_values demo_spec (to_json_input demo_values demo_call) ''task'' ''add'' = Inr call'
     \<and> inv_namespace call' = ''task'' \<and> inv_operation call' = ''add'' \<and> inv_args call' = inv_args demo_call"
proof -
  have "spec_clear demo_values demo_spec"
    by (simp add: spec_clear_def demo_operations)
       (simp add: operation_clear_def flags_bool_def demo_defs key_matches_def underscores_to_hyphens_def parse_value_def
         parse_int_def parse_nat_def is_digit_def digits_value_def digit_value_def)
  moreover have "float_laws demo_values" "finite_floats demo_values demo_call"
    by (simp_all add: float_laws_def finite_floats_def demo_values_def demo_call_def)
  moreover have "inv_namespace demo_call = ''task''" "inv_operation demo_call = ''add''"
      "map (apsnd (canonical demo_values)) (inv_args demo_call) = inv_args demo_call"
    by (simp_all add: demo_call_def canonical_def demo_values_def)
  ultimately show ?thesis
    using machine_call_round_trip [OF _ _ demo_compiles] by metis
qed

lemma flag_value_ignored_witness:
  "compile_args demo_values demo_operation [''x'', ''-n'', ''5'', ''--data=null''] 3 (invocation_new ''task'' ''add'')
     = \<lparr>args_call = demo_call, args_diagnostics = [], args_positionals = [(3, ''x'')]\<rparr>
   \<and> compile_args demo_values demo_operation [''--force=false'', ''x''] 3 (invocation_new ''task'' ''add'')
     = compile_args demo_values demo_operation [''--force'', ''x''] 3 (invocation_new ''task'' ''add'')"
proof -
  have "by_long (op_args demo_operation) ''force'' = Some (flag_arg ''force'' ''d'')" "arg_kind (flag_arg ''force'' ''d'') = Flag_kind"
    by (simp_all add: demo_defs by_long_def)
  then show ?thesis
    using flag_value_ignored [of demo_operation "''force''" "flag_arg ''force'' ''d''" demo_values "''false''" "[''x'']" 3 "invocation_new ''task'' ''add''"]
      demo_args by simp
qed

end
