(* ===== verification/Command_Spec_Facts.thy ===== *)
theory Command_Spec_Facts
  imports Command_Spec
begin

text \<open>What the assembled command tree says of an operation.\<close>

lemma map_of_bmap_change: "map_of (bmap_change k f m) j = (if j = k then map_option f (map_of m j) else map_of m j)"
  by (induction m) (auto simp: bmap_change_def)

definition command_address :: "registered_command \<Rightarrow> string \<times> string" where
  "command_address c = (cmd_namespace c, cmd_operation c)"

lemma spec_operation_reapply:
  "spec_operation (reapply_runtime c S) n k =
     (if command_address c = (n, k) then map_option (set_runtime c) (spec_operation S n k) else spec_operation S n k)"
  by (cases "map_of (spec_namespaces S) n")
     (auto simp: spec_operation_def spec_namespace_def namespace_operation_def reapply_runtime_def command_address_def map_of_bmap_change)

lemma spec_operation_count: "spec_operation (count_operations S) n k = spec_operation S n k"
  by (simp add: spec_operation_def spec_namespace_def count_operations_def)

definition with_runtime :: "registered_command option \<Rightarrow> operation_spec \<Rightarrow> operation_spec" where
  "with_runtime c p = (case c of None \<Rightarrow> p | Some c \<Rightarrow> set_runtime c p)"

lemma spec_operation_reapply_all:
  "distinct (map command_address cs) \<Longrightarrow>
   spec_operation (fold reapply_runtime cs S) n k
   = map_option (with_runtime (List.find (\<lambda>c. command_address c = (n, k)) cs)) (spec_operation S n k)"
proof (induction cs arbitrary: S)
  case Nil
  show ?case by (cases "spec_operation S n k") (simp_all add: with_runtime_def)
next
  case (Cons c cs)
  show ?case
  proof (cases "command_address c = (n, k)")
    case True
    then have "List.find (\<lambda>c. command_address c = (n, k)) cs = None"
      using Cons.prems by (auto simp: find_None_iff image_iff)
    then show ?thesis
      using Cons True by (cases "spec_operation S n k") (simp_all add: spec_operation_reapply with_runtime_def)
  next
    case False
    then show ?thesis using Cons by (simp add: spec_operation_reapply)
  qed
qed

definition merged_spec :: "metadata_table \<Rightarrow> namespace_spec list \<Rightarrow> namespace_spec \<Rightarrow> registered_command list \<Rightarrow> command_spec" where
  "merged_spec T generated generated_root registry =
     merge_exospec_root generated_root (fold merge_exospec generated (fold (add_registered T) registry spec_new))"

text \<open>
  In the assembled tree an operation has the arguments and texts of the merged specifications,
  and effect and recovery class of the registered command at its address; an operation nobody
  registered keeps what its specification says, and no operation appears or disappears.
\<close>

theorem registry_decides_runtime:
  assumes "distinct (map command_address registry)"
  shows "spec_operation (from_registry T generated generated_root registry) n k
    = map_option (with_runtime (List.find (\<lambda>c. command_address c = (n, k)) registry))
        (spec_operation (merged_spec T generated generated_root registry) n k)"
  using spec_operation_reapply_all [OF assms] by (simp add: from_registry_def merged_spec_def spec_operation_count)

lemma registry_decides_runtime_witness:
  "map_option op_effect (spec_operation
     (from_registry (\<lambda>_ _. None) [with_operation (operation_new ''add'' ''d'' Pure) (namespace_new ''task'' ''d'')] (namespace_new [] ''d'')
        [\<lparr>cmd_namespace = ''task'', cmd_operation = ''add'', cmd_description = ''r'', cmd_effect = Write, cmd_recovery = AtomicProjectState\<rparr>])
     ''task'' ''add'') = Some Write"
  by (subst registry_decides_runtime)
     (simp_all add: command_address_def merged_spec_def merge_exospec_root_def merge_exospec_def with_operation_def namespace_new_def
       operation_new_def spec_operation_def spec_namespace_def namespace_operation_def add_registered_def spec_new_def registered_operation_def
       inherit_tool_def with_runtime_def set_runtime_def)

end
