(* ===== verification/Rfc_Text.thy ===== *)
theory Rfc_Text
  imports Prelude
begin

text \<open>
  The text of RFC documents, \<open>tools/exo/src/rfc.rs\<close>: names of files, the anchor comment, the title, and
  the relations and metadata an author writes as lines of Markdown. The patterns are matched as the
  \<open>regex\<close> crate documents them; the digits of \<open>\d\<close> are the ASCII ones, and what counts as a word character
  outside ASCII is a parameter \<open>W\<close> of the definitions that look for word boundaries. Patterns that ignore case
  fold the ASCII letters only.
\<close>

section \<open>Strings\<close>

definition ends_in :: "string \<Rightarrow> string \<Rightarrow> bool" where
  "ends_in s p \<longleftrightarrow> starts_with (rev s) (rev p)"

definition strip_suffix_or :: "string \<Rightarrow> string \<Rightarrow> string" where
  "strip_suffix_or p s = (if ends_in s p then take (length s - length p) s else s)"

definition strip_prefix_or :: "string \<Rightarrow> string \<Rightarrow> string" where
  "strip_prefix_or p s = (case strip_prefix p s of Some r \<Rightarrow> r | None \<Rightarrow> s)"

text \<open>\<open>trim_start_matches\<close> and \<open>trim_matches\<close> with a character.\<close>

definition drop_char :: "char \<Rightarrow> string \<Rightarrow> string" where
  "drop_char c s = dropWhile (\<lambda>x. x = c) s"

definition cut_char :: "char \<Rightarrow> string \<Rightarrow> string" where
  "cut_char c s = rev (drop_char c (rev (drop_char c s)))"

definition lower :: "string \<Rightarrow> string" where
  "lower s = map ascii_lower s"

text \<open>The first of several prefixes that fits.\<close>

fun strip_first :: "string list \<Rightarrow> string \<Rightarrow> string option" where
  "strip_first [] s = None"
| "strip_first (p # ps) s = (case strip_prefix p s of Some r \<Rightarrow> Some r | None \<Rightarrow> strip_first ps s)"

definition parse_u8 :: "string \<Rightarrow> nat option" where
  "parse_u8 s = (case parse_nat (case s of CHR ''+'' # t \<Rightarrow> t | _ \<Rightarrow> s) of
     Some n \<Rightarrow> if n \<le> 255 then Some n else None | None \<Rightarrow> None)"

text \<open>Keeps the first of equal elements.\<close>

fun nub_on :: "('a \<Rightarrow> 'k) \<Rightarrow> 'a list \<Rightarrow> 'a list \<Rightarrow> 'a list" where
  "nub_on key seen [] = seen"
| "nub_on key seen (x # xs) = nub_on key (if key x \<in> key ` set seen then seen else seen @ [x]) xs"

section \<open>File names and paths\<close>

definition extract_rfc_number_from_filename :: "string \<Rightarrow> string option" where
  "extract_rfc_number_from_filename f =
     (let stem = strip_suffix_or ''.md'' f; digits = takeWhile is_digit stem; rest = dropWhile is_digit stem
      in if digits = [] then None
         else if rest = [] \<or> starts_with rest ''-'' \<or> starts_with rest ''_'' then Some digits else None)"

definition parse_rfc_number :: "string \<Rightarrow> int option" where
  "parse_rfc_number f = Option.bind (extract_rfc_number_from_filename f) parse_i64"

definition parse_slug :: "string \<Rightarrow> string" where
  "parse_slug f = (let stem = strip_suffix_or ''.md'' f
     in case split_once ''-'' stem of Some (_, b) \<Rightarrow> b | None \<Rightarrow> stem)"

text \<open>The components of a relative path without \<open>..\<close>.\<close>

definition path_parts :: "string \<Rightarrow> string list" where
  "path_parts p = filter (\<lambda>w. w \<noteq> [] \<and> w \<noteq> ''.'') (split_slash p)"

definition stage_of_part :: "string \<Rightarrow> nat option" where
  "stage_of_part w = Option.bind (strip_prefix ''stage-'' w) parse_u8"

definition parse_stage :: "string \<Rightarrow> nat" where
  "parse_stage p = (case List.map_filter stage_of_part (path_parts p) of n # _ \<Rightarrow> n | [] \<Rightarrow> 0)"

definition parse_status :: "string \<Rightarrow> string" where
  "parse_status p = (case filter (\<lambda>w. w = ''archive'' \<or> w = ''withdrawn'') (path_parts p) of
     w # _ \<Rightarrow> if w = ''archive'' then ''archived'' else ''withdrawn'' | [] \<Rightarrow> ''active'')"

definition parent_name :: "string \<Rightarrow> string option" where
  "parent_name p = (let parts = butlast (path_parts p) in if parts = [] then None else Some (last parts))"

definition infer_stage_from_path :: "string \<Rightarrow> nat option" where
  "infer_stage_from_path p = Option.bind (parent_name p) stage_of_part"

definition workspace_collection_kind :: "string \<Rightarrow> string" where
  "workspace_collection_kind p = (case parent_name p of
       None \<Rightarrow> ''legacy-flat''
     | Some c \<Rightarrow> if c = ''withdrawn'' \<or> c = ''archive'' \<or> starts_with c ''stage-'' then c else ''legacy-flat'')"

definition is_managed_rfc_collection :: "string \<Rightarrow> bool" where
  "is_managed_rfc_collection c \<longleftrightarrow> c = ''archive'' \<or> c = ''withdrawn''
     \<or> (case stage_of_part c of Some n \<Rightarrow> n \<le> 4 | None \<Rightarrow> False)"

abbreviation skip_rfc_files :: "string list" where
  "skip_rfc_files \<equiv> [''0000-template.md'', ''README.md'']"

definition is_legacy_flat_rfc_filename :: "string \<Rightarrow> bool" where
  "is_legacy_flat_rfc_filename f \<longleftrightarrow> f \<notin> set skip_rfc_files \<and> parse_rfc_number f \<noteq> None"

text \<open>\<open>Path::extension\<close> of a name: what follows its last dot, unless that dot comes first.\<close>

definition extension :: "string \<Rightarrow> string option" where
  "extension f = (let e = takeWhile (\<lambda>c. c \<noteq> CHR ''.'') (rev f)
     in if length e + 1 < length f then Some (rev e) else None)"

definition is_rfc_document_path :: "string list \<Rightarrow> bool" where
  "is_rfc_document_path relative = (case relative of
       [f] \<Rightarrow> extension f = Some ''md'' \<and> is_legacy_flat_rfc_filename f
     | [c, f] \<Rightarrow> extension f = Some ''md'' \<and> is_managed_rfc_collection c
     | _ \<Rightarrow> False)"

fun slug_loop :: "string \<Rightarrow> bool \<Rightarrow> string \<Rightarrow> string" where
  "slug_loop out dash [] = out"
| "slug_loop out dash (c # s) =
     (let d = ascii_lower c
      in if is_alnum d then slug_loop (out @ [d]) False s
         else if out \<noteq> [] \<and> \<not> dash then slug_loop (out @ ''-'') True s
         else slug_loop out dash s)"

definition slugify :: "string \<Rightarrow> string" where
  "slugify s = rev (drop_char (CHR ''-'') (rev (slug_loop [] False s)))"

section \<open>Anchor and title\<close>

text \<open>A non-empty run of characters that satisfy a predicate, and the rest.\<close>

definition run_of :: "(char \<Rightarrow> bool) \<Rightarrow> string \<Rightarrow> (string \<times> string) option" where
  "run_of P s = (if takeWhile P s = [] then None else Some (takeWhile P s, dropWhile P s))"

definition strict_anchor :: "string \<Rightarrow> (string \<times> string) option" where
  "strict_anchor s =
     Option.bind (strip_prefix ''<!-- exo:'' s) (\<lambda>s.
     Option.bind (run_of is_digit s) (\<lambda>(digits, s).
     Option.bind (strip_prefix '' ulid:'' s) (\<lambda>s.
     Option.bind (run_of is_alnum s) (\<lambda>(ulid, s).
       if starts_with s '' -->'' then Some (digits, ulid) else None))))"

fun until_space_or_close :: "string \<Rightarrow> string" where
  "until_space_or_close [] = []"
| "until_space_or_close (c # s) =
     (if space_len (c # s) \<noteq> 0 \<or> c = CHR ''>'' then c # s else until_space_or_close s)"

definition loose_anchor_ulid :: "string \<Rightarrow> string option" where
  "loose_anchor_ulid s =
     Option.bind (strip_prefix ''<!--'' s) (\<lambda>s.
     Option.bind (strip_prefix ''exo:'' (trim_start s)) (\<lambda>s.
       let t = until_space_or_close s
       in if t = s \<or> space_len t = 0 then None
          else Option.bind (strip_prefix ''ulid:'' (trim_start t)) (\<lambda>s.
            Option.bind (run_of is_alnum s) (\<lambda>(ulid, s).
              if starts_with (trim_start s) ''-->'' then Some ulid else None))))"

definition has_anchor :: "string \<Rightarrow> bool" where
  "has_anchor s = (case strip_prefix ''<!--'' s of Some t \<Rightarrow> starts_with (trim_start t) ''exo:'' | None \<Rightarrow> False)"

definition extract_anchor_ulid :: "string \<Rightarrow> string option" where
  "extract_anchor_ulid s = (case strict_anchor s of Some (_, ulid) \<Rightarrow> Some ulid | None \<Rightarrow> loose_anchor_ulid s)"

definition extract_partial_anchor_rfc_number :: "string \<Rightarrow> int option" where
  "extract_partial_anchor_rfc_number s =
     Option.bind (strip_prefix ''<!--'' s) (\<lambda>s.
     Option.bind (strip_prefix ''exo:'' (trim_start s)) (\<lambda>s.
     Option.bind (run_of is_digit s) (\<lambda>(digits, s).
       if starts_with s ''-->''
         \<or> space_len s \<noteq> 0 \<and> CHR ''>'' \<in> set s \<and> ends_in (takeWhile (\<lambda>c. c \<noteq> CHR ''>'') s) ''--''
       then parse_i64 digits else None)))"

definition extract_anchor_rfc_number :: "string \<Rightarrow> int option" where
  "extract_anchor_rfc_number s = (case strict_anchor s of
     Some (digits, _) \<Rightarrow> parse_i64 digits | None \<Rightarrow> extract_partial_anchor_rfc_number s)"


text \<open>
  \<open>(?m)^#\s+(?:RFC\s+\d+:\s*)?(.+)$\<close>: white space may run over the end of a line, and a part that
  matched too much white space gives back the last that a title can start with. Such a title is
  white space, and trimmed to nothing.
\<close>

definition first_line :: "string \<Rightarrow> string" where
  "first_line s = takeWhile (\<lambda>c. c \<noteq> nl) s"

definition line_char :: "string \<Rightarrow> bool" where
  "line_char s \<longleftrightarrow> list_ex (\<lambda>c. c \<noteq> nl) s"

definition after_rfc_number :: "string \<Rightarrow> string option" where
  "after_rfc_number s =
     Option.bind (strip_prefix ''RFC'' s) (\<lambda>s.
       if space_len s = 0 then None
       else Option.bind (run_of is_digit (trim_start s)) (\<lambda>(_, s). strip_prefix '':'' s))"

definition title_at :: "string \<Rightarrow> string option" where
  "title_at s =
     (if space_len s = 0 then None
      else let r = trim_start s
      in if r = [] then (if line_char (drop (space_len s) s) then Some [] else None)
         else case after_rfc_number r of
             None \<Rightarrow> Some (trim (first_line r))
           | Some t \<Rightarrow>
               if trim_start t \<noteq> [] then Some (trim (first_line (trim_start t)))
               else if line_char t then Some [] else Some (trim (first_line r)))"

function extract_h1_title :: "string \<Rightarrow> string option" where
  "extract_h1_title [] = None"
| "extract_h1_title (c # s) =
     (case (if c = CHR ''#'' then title_at s else None) of
        Some t \<Rightarrow> Some t
      | None \<Rightarrow> (case split_once_nl (c # s) of Some (_, rest) \<Rightarrow> extract_h1_title rest | None \<Rightarrow> None))"
  by pat_completeness auto

termination
  by (relation "measure length") (auto dest!: split_once_nl_SomeD split: if_splits option.splits simp: Cons_eq_append_conv)

section \<open>Relations between documents\<close>

text \<open>A word character at the head of a text.\<close>

definition word_here :: "(string \<Rightarrow> bool) \<Rightarrow> string \<Rightarrow> bool" where
  "word_here W s = (case s of [] \<Rightarrow> False
     | c # t \<Rightarrow> if byte c < 128 then is_alnum c \<or> c = CHR ''_'' else W (c # takeWhile (\<lambda>d. 128 \<le> byte d \<and> byte d < 192) t))"

text \<open>Whether the character before the rest of a text is a word character, after one more byte.\<close>

definition word_before :: "(string \<Rightarrow> bool) \<Rightarrow> bool \<Rightarrow> string \<Rightarrow> bool" where
  "word_before W prev s = (case s of c # _ \<Rightarrow> if 128 \<le> byte c \<and> byte c < 192 then prev else word_here W s | [] \<Rightarrow> prev)"

text \<open>\<open>RFC\s*([0-9]{1,6})\b\<close> in either case, and \<open>([0-9]{4,6})\b\<close>.\<close>

definition digits_within :: "(string \<Rightarrow> bool) \<Rightarrow> nat \<Rightarrow> string \<Rightarrow> (string \<times> string) option" where
  "digits_within W least s = Option.bind (run_of is_digit s) (\<lambda>(digits, rest).
     if least \<le> length digits \<and> length digits \<le> 6 \<and> \<not> word_here W rest then Some (digits, rest) else None)"

definition rfc_ref_here :: "(string \<Rightarrow> bool) \<Rightarrow> string \<Rightarrow> (string \<times> string) option" where
  "rfc_ref_here W s = (if lower (take 3 s) = ''rfc'' then digits_within W 1 (trim_start (drop 3 s)) else None)"

definition bare_ref_here :: "(string \<Rightarrow> bool) \<Rightarrow> string \<Rightarrow> (string \<times> string) option" where
  "bare_ref_here W s = digits_within W 4 s"

text \<open>The matches of such a pattern after a word boundary, from left to right. A match ends with a digit.\<close>

fun refs_within :: "nat \<Rightarrow> (string \<Rightarrow> bool) \<Rightarrow> (string \<Rightarrow> (string \<times> string) option) \<Rightarrow> bool \<Rightarrow> string \<Rightarrow> string list" where
  "refs_within 0 W pat prev s = []"
| "refs_within (Suc n) W pat prev s =
     (case s of [] \<Rightarrow> []
      | _ # t \<Rightarrow> (case (if prev then None else pat s) of
            Some (digits, rest) \<Rightarrow> digits # refs_within n W pat True rest
          | None \<Rightarrow> refs_within n W pat (word_before W prev s) t))"

definition extract_ordered_relation_ids :: "(string \<Rightarrow> bool) \<Rightarrow> (string \<Rightarrow> (string \<times> string) option) \<Rightarrow> string \<Rightarrow> string list" where
  "extract_ordered_relation_ids W pat s = nub_on id [] (refs_within (Suc (length s)) W pat False s)"

definition unquote :: "string \<Rightarrow> string" where
  "unquote s = trim (cut_char (CHR 0x27) (cut_char (CHR 0x22) (trim (cut_char (CHR ''|'') (trim s)))))"

definition clean_relationship_value :: "(string \<Rightarrow> bool) \<Rightarrow> string \<Rightarrow> string" where
  "clean_relationship_value W s =
     (let s = unquote (drop_char (CHR ''*'') (drop_char (CHR ''|'') (drop_char (CHR '':'') (drop_char (CHR ''*'') (unquote s)))));
          refs = extract_ordered_relation_ids W (rfc_ref_here W) s
      in if refs \<noteq> [] then join_with '', '' refs
         else join_with '', '' (extract_ordered_relation_ids W (bare_ref_here W)
                (trim (case strip_first [''RFC '', ''RFC''] s of Some r \<Rightarrow> r | None \<Rightarrow> s))))"

definition relationship_id_key :: "string \<Rightarrow> string" where
  "relationship_id_key s =
     (let s = trim (strip_prefix_or ''RFC '' (trim s))
      in case parse_nat (case s of CHR ''+'' # t \<Rightarrow> t | _ \<Rightarrow> s) of
           Some n \<Rightarrow> if int n < 2 ^ 64 then show_nat n else s
         | None \<Rightarrow> s)"

definition split_ids :: "string \<Rightarrow> string list" where
  "split_ids s = filter (\<lambda>w. w \<noteq> []) (map trim (split_at (CHR '','') s))"

definition merge_relationship_value :: "string option \<Rightarrow> string \<Rightarrow> string option" where
  "merge_relationship_value slot v =
     (if v = [] then slot
      else let ids = nub_on relationship_id_key (case slot of Some s \<Rightarrow> split_ids s | None \<Rightarrow> []) (split_ids v)
      in if ids = [] then slot else Some (join_with '', '' ids))"

definition normalize_relationship_line :: "string \<Rightarrow> string" where
  "normalize_relationship_line s =
     trim (drop_char (CHR ''|'') (trim (drop_char (CHR ''-'') (trim (drop_char (CHR ''>'') (trim s))))))"

abbreviation warning_sign :: string where
  "warning_sign \<equiv> [CHR 0xE2, CHR 0x9A, CHR 0xA0, CHR 0xEF, CHR 0xB8, CHR 0x8F]"

definition bold :: "string \<Rightarrow> string" where
  "bold label = ''**'' @ label @ ''**''"

definition some_text :: "string \<Rightarrow> string option" where
  "some_text s = (if s = [] then None else Some s)"

definition relationship_line_cleaned_value :: "(string \<Rightarrow> bool) \<Rightarrow> string \<Rightarrow> string \<Rightarrow> string option option" where
  "relationship_line_cleaned_value W l label =
     Option.bind (strip_first [label, bold label, ''**'' @ warning_sign @ '' '' @ label] (normalize_relationship_line l)) (\<lambda>s.
       case strip_first ['':'', ''**:'', ''|'', '' '', '': ''] s of
         Some v \<Rightarrow> Some (some_text (clean_relationship_value W v)) | None \<Rightarrow> None)"

definition supersedes_section_intro_value :: "(string \<Rightarrow> bool) \<Rightarrow> string \<Rightarrow> string option option" where
  "supersedes_section_intro_value W l =
     (let s = normalize_relationship_line l
      in if starts_with (lower s) ''this rfc supersedes''
         then (case strip_prefix '':'' (trim_start (drop 19 s)) of
             Some v \<Rightarrow> Some (some_text (clean_relationship_value W v)) | None \<Rightarrow> None)
         else None)"

definition metadata_line_value :: "string \<Rightarrow> string \<Rightarrow> string option" where
  "metadata_line_value l label =
     Option.bind (strip_first [label, bold label] (normalize_relationship_line l)) (\<lambda>s.
     Option.bind (strip_first ['':'', ''**:'', ''|''] (trim_start s)) (\<lambda>v. some_text (trim (cut_char (CHR ''|'') (trim v)))))"

end
