(* ===== verification/Rfc_Document.thy ===== *)
theory Rfc_Document
  imports Rfc_Text
begin

text \<open>
  RFC documents, \<open>tools/exo/src/rfc.rs\<close>: the relations and the metadata a document declares, the record
  it stands for, and the texts the lifecycle commands write. The front matter of a document is dead
  for documents that start with their anchor, and it is read all the same.
\<close>

section \<open>Superseded by\<close>

fun mentions_rfc :: "(string \<Rightarrow> bool) \<Rightarrow> bool \<Rightarrow> string \<Rightarrow> bool" where
  "mentions_rfc W prev [] \<longleftrightarrow> False"
| "mentions_rfc W prev (c # s) \<longleftrightarrow>
     \<not> prev \<and> lower (take 3 (c # s)) = ''rfc'' \<and> run_of is_digit (trim_start (drop 3 (c # s))) \<noteq> None
     \<or> mentions_rfc W (word_before W prev (c # s)) s"

text \<open>What is left of a text after a link to an RFC, and after an RFC with its title.\<close>

definition after_link :: "(string \<Rightarrow> bool) \<Rightarrow> string \<Rightarrow> string option" where
  "after_link W s =
     Option.bind (strip_prefix ''['' s) (\<lambda>t.
     Option.bind (strip_prefix '']('' (dropWhile (\<lambda>c. c \<noteq> CHR '']'') t)) (\<lambda>u.
     Option.bind (run_of (\<lambda>c. c \<noteq> CHR '')'') u) (\<lambda>(_, v).
       if mentions_rfc W False (takeWhile (\<lambda>c. c \<noteq> CHR '']'') t) then strip_prefix '')'' v else None)))"

definition after_title :: "string \<Rightarrow> string" where
  "after_title s = (case strip_prefix '':'' s of
       None \<Rightarrow> s
     | Some t \<Rightarrow> (case run_of (\<lambda>c. c \<notin> {CHR ''.'', CHR '';'', nl}) t of Some (_, u) \<Rightarrow> u | None \<Rightarrow> s))"

definition after_named_rfc :: "string \<Rightarrow> string option" where
  "after_named_rfc s =
     (if lower (take 3 s) \<noteq> ''rfc'' then None
      else map_option (\<lambda>(digits, rest). after_title (drop 6 digits @ rest)) (run_of is_digit (trim_start (drop 3 s))))"

text \<open>The words and the white space before a target, and what follows the target.\<close>

definition superseded_by_here :: "(string \<Rightarrow> bool) \<Rightarrow> string \<Rightarrow> (string \<times> string) option" where
  "superseded_by_here W s =
     (if lower (take 10 s) = ''superseded'' \<and> space_len (drop 10 s) \<noteq> 0
      then let t = trim_start (drop 10 s)
           in if lower (take 2 t) = ''by'' \<and> space_len (drop 2 t) \<noteq> 0
              then let u = trim_start (drop 2 t)
                   in map_option (Pair (take (length s - length u) s))
                        (case after_link W u of Some v \<Rightarrow> Some v | None \<Rightarrow> after_named_rfc u)
              else None
      else None)"

text \<open>The text before the first match, its words, its target and the text after it.\<close>

fun find_superseded_by :: "(string \<Rightarrow> bool) \<Rightarrow> string \<Rightarrow> (string \<times> string \<times> string \<times> string) option" where
  "find_superseded_by W [] = None"
| "find_superseded_by W (c # s) =
     (case superseded_by_here W (c # s) of
        Some (k, rest) \<Rightarrow> Some ([], k, take (length (c # s) - length k - length rest) (drop (length k) (c # s)), rest)
      | None \<Rightarrow> map_option (\<lambda>(before, r). (c # before, r)) (find_superseded_by W s))"

definition superseded_by_target_value :: "(string \<Rightarrow> bool) \<Rightarrow> string \<Rightarrow> string option" where
  "superseded_by_target_value W l =
     (case find_superseded_by W l of
        Some (_, k, target, _) \<Rightarrow> some_text (clean_relationship_value W (k @ target)) | None \<Rightarrow> None)"

definition superseded_by_status_or_reason_value :: "(string \<Rightarrow> bool) \<Rightarrow> string \<Rightarrow> string option" where
  "superseded_by_status_or_reason_value W l =
     (case List.map_filter (\<lambda>label. Option.bind (metadata_line_value l label) (\<lambda>v.
            if contains ''superseded by'' (lower v) then superseded_by_target_value W v else None)) [''Status'', ''Reason'', ''Note''] of
        v # _ \<Rightarrow> Some v | [] \<Rightarrow> None)"

definition superseded_by_sentence_value :: "(string \<Rightarrow> bool) \<Rightarrow> string \<Rightarrow> string option" where
  "superseded_by_sentence_value W l =
     (let s = normalize_relationship_line l
      in if starts_with (lower s) ''this rfc has been superseded by'' then superseded_by_target_value W s else None)"

section \<open>Relations\<close>

record relations =
  rel_superseded_by :: "string option"
  rel_supersedes :: "string option"
  rel_superseded_by_declared :: bool
  rel_supersedes_declared :: bool

definition no_relations :: relations where
  "no_relations = \<lparr>rel_superseded_by = None, rel_supersedes = None, rel_superseded_by_declared = False, rel_supersedes_declared = False\<rparr>"

definition note_superseded_by :: "string option \<Rightarrow> relations \<Rightarrow> relations" where
  "note_superseded_by v r = r\<lparr>rel_superseded_by_declared := True,
     rel_superseded_by := (case v of Some s \<Rightarrow> merge_relationship_value (rel_superseded_by r) s | None \<Rightarrow> rel_superseded_by r)\<rparr>"

definition note_supersedes :: "string option \<Rightarrow> relations \<Rightarrow> relations" where
  "note_supersedes v r = r\<lparr>rel_supersedes_declared := True,
     rel_supersedes := (case v of Some s \<Rightarrow> merge_relationship_value (rel_supersedes r) s | None \<Rightarrow> rel_supersedes r)\<rparr>"

definition front_matter_relation :: "(string \<Rightarrow> bool) \<Rightarrow> string \<Rightarrow> relations \<Rightarrow> relations" where
  "front_matter_relation W l r = (case split_once '':'' l of
       None \<Rightarrow> r
     | Some (k, v) \<Rightarrow>
         if trim k \<in> {''superseded_by'', ''superseded-by''} then note_superseded_by (Some (clean_relationship_value W v)) r
         else if trim k = ''supersedes'' then note_supersedes (Some (clean_relationship_value W v)) r else r)"

definition front_matter_relations :: "(string \<Rightarrow> bool) \<Rightarrow> string \<Rightarrow> relations" where
  "front_matter_relations W s =
     (case Option.bind (strip_prefix (''---'' @ [nl]) (trim_start s)) (split_once (nl # ''---'')) of
        None \<Rightarrow> no_relations
      | Some (front, _) \<Rightarrow> fold (front_matter_relation W) (text_lines front) no_relations)"

abbreviation fence_marks :: "string list" where
  "fence_marks \<equiv> [replicate 3 (CHR 0x60), ''~~~'']"

definition is_fence :: "string \<Rightarrow> bool" where
  "is_fence l \<longleftrightarrow> strip_first fence_marks (trim_start l) \<noteq> None"

definition maybe :: "('v \<Rightarrow> 'a \<Rightarrow> 'a) \<Rightarrow> 'v option \<Rightarrow> 'a \<Rightarrow> 'a" where
  "maybe f v x = (case v of Some y \<Rightarrow> f y x | None \<Rightarrow> x)"

text \<open>The relations one trimmed line declares; the flag says that a list of superseded RFCs follows.\<close>

definition relation_line :: "(string \<Rightarrow> bool) \<Rightarrow> string \<Rightarrow> relations \<Rightarrow> relations" where
  "relation_line W l r =
     maybe (\<lambda>v. note_superseded_by (Some v)) (superseded_by_sentence_value W l)
       (maybe (\<lambda>v. note_superseded_by (Some v)) (superseded_by_status_or_reason_value W l)
         (maybe note_supersedes (supersedes_section_intro_value W l)
           (maybe note_supersedes (relationship_line_cleaned_value W l ''Supersedes'')
             (maybe note_superseded_by (relationship_line_cleaned_value W l ''Superseded by'') r))))"

fun relation_lines :: "(string \<Rightarrow> bool) \<Rightarrow> bool \<Rightarrow> bool \<Rightarrow> string list \<Rightarrow> relations \<Rightarrow> relations" where
  "relation_lines W collect fence [] r = r"
| "relation_lines W collect fence (l # ls) r =
     (if is_fence l then relation_lines W collect (\<not> fence) ls r
      else if fence then relation_lines W collect fence ls r
      else let t = trim l
           in if collect \<and> (starts_with t ''- '' \<or> starts_with t ''* '')
              then relation_lines W collect fence ls (note_supersedes (Some (clean_relationship_value W t)) r)
              else relation_lines W (collect \<and> t = [] \<or> supersedes_section_intro_value W t = Some None) fence ls (relation_line W t r))"

definition extract_rfc_relationships :: "(string \<Rightarrow> bool) \<Rightarrow> string \<Rightarrow> relations" where
  "extract_rfc_relationships W s = relation_lines W False False (text_lines s) (front_matter_relations W s)"

section \<open>Metadata\<close>

record declared_value =
  dv_value :: "string option"
  dv_declared :: bool

definition absent :: declared_value where
  "absent = \<lparr>dv_value = None, dv_declared = False\<rparr>"

definition declares :: "string option \<Rightarrow> declared_value" where
  "declares v = \<lparr>dv_value = v, dv_declared = True\<rparr>"

text \<open>What one line declares under a label.\<close>

definition declared_in_line :: "string \<Rightarrow> string \<Rightarrow> string option option" where
  "declared_in_line l label =
     Option.bind (strip_first [label, bold label] (normalize_relationship_line l)) (\<lambda>s.
       map_option (\<lambda>v. some_text (trim (cut_char (CHR ''|'') (trim v)))) (strip_first ['':'', ''**:'', ''|''] (trim_start s)))"

fun declared_in :: "string list \<Rightarrow> string \<Rightarrow> declared_value" where
  "declared_in [] label = absent"
| "declared_in (l # ls) label = (case declared_in_line l label of Some v \<Rightarrow> declares v | None \<Rightarrow> declared_in ls label)"

definition declared_metadata_value :: "string \<Rightarrow> string \<Rightarrow> declared_value" where
  "declared_metadata_value s label = declared_in (text_lines s) label"

definition unquoted :: "string \<Rightarrow> string" where
  "unquoted s = (let q = dropWhile (\<lambda>c. c = CHR 0x22 \<or> c = CHR 0x27) in rev (q (rev (q s))))"

fun yaml_value :: "string list \<Rightarrow> string \<Rightarrow> declared_value" where
  "yaml_value [] key = absent"
| "yaml_value (l # ls) key =
     (if trim l = ''---'' then absent
      else case split_once '':'' l of
          Some (k, v) \<Rightarrow> if trim k = key then declares (some_text (unquoted (trim v))) else yaml_value ls key
        | None \<Rightarrow> yaml_value ls key)"

definition declared_metadata_value_with_yaml :: "string \<Rightarrow> string \<Rightarrow> string \<Rightarrow> string \<Rightarrow> declared_value" where
  "declared_metadata_value_with_yaml metadata s label key =
     (let v = declared_metadata_value metadata label
      in if dv_declared v then v
         else case text_lines s of
             l # ls \<Rightarrow> if trim l = ''---'' then yaml_value ls key else absent
           | [] \<Rightarrow> absent)"

definition first_declared_value :: "declared_value \<Rightarrow> declared_value option \<Rightarrow> declared_value" where
  "first_declared_value v w = (if dv_declared v then v else case w of Some u \<Rightarrow> u | None \<Rightarrow> absent)"

text \<open>The lines between the title and the first section, without fenced text.\<close>

fun preamble_lines :: "bool \<Rightarrow> string list \<Rightarrow> string list" where
  "preamble_lines fence [] = []"
| "preamble_lines fence (l # ls) =
     (if is_fence l then preamble_lines (\<not> fence) ls
      else if fence then preamble_lines fence ls
      else if starts_with (trim_start l) ''## '' then []
      else l # preamble_lines fence ls)"

definition rfc_metadata_preamble :: "string \<Rightarrow> string" where
  "rfc_metadata_preamble s =
     join_with [nl] (preamble_lines False (tl (dropWhile (\<lambda>l. \<not> starts_with l ''# '') (text_lines s))))"

fun lifecycle_in :: "string list \<Rightarrow> string option" where
  "lifecycle_in [] = None"
| "lifecycle_in (l # ls) = (case map_option lower (metadata_line_value l ''Status'') of
       None \<Rightarrow> lifecycle_in ls
     | Some v \<Rightarrow> if contains ''archived'' v then Some ''archived''
         else if contains ''withdrawn'' v then Some ''withdrawn'' else lifecycle_in ls)"

definition declared_lifecycle_status :: "string \<Rightarrow> string option" where
  "declared_lifecycle_status s = lifecycle_in (text_lines s)"

section \<open>Stages\<close>

text \<open>The maximal runs of characters that satisfy a predicate.\<close>

fun runs_of :: "(char \<Rightarrow> bool) \<Rightarrow> string \<Rightarrow> string \<Rightarrow> string list" where
  "runs_of P acc [] = (if acc = [] then [] else [acc])"
| "runs_of P acc (c # s) =
     (if P c then runs_of P (acc @ [c]) s else if acc = [] then runs_of P [] s else acc # runs_of P [] s)"

definition small_stage :: "string \<Rightarrow> nat option" where
  "small_stage w = (case parse_u8 w of Some n \<Rightarrow> if n \<le> 4 then Some n else None | None \<Rightarrow> None)"

definition first_of :: "'a list \<Rightarrow> 'a option" where
  "first_of xs = (case xs of x # _ \<Rightarrow> Some x | [] \<Rightarrow> None)"

definition parse_declared_stage :: "string \<Rightarrow> nat option" where
  "parse_declared_stage v = first_of (List.map_filter small_stage (runs_of is_digit [] v))"

fun stage_words :: "string \<Rightarrow> nat option" where
  "stage_words [] = None"
| "stage_words (c # s) =
     (case strip_prefix ''stage'' (c # s) of
        None \<Rightarrow> stage_words s
      | Some t \<Rightarrow>
          (let u = dropWhile (\<lambda>c. byte c \<in> {9, 10, 12, 13, 32} \<or> c \<in> {CHR '':'', CHR ''='', CHR ''-''}) t
           in case (if takeWhile is_digit u = [] then None else small_stage (takeWhile is_digit u)) of
                Some n \<Rightarrow> Some n | None \<Rightarrow> stage_words s))"

definition has_positive_lifecycle_keyword :: "string \<Rightarrow> string \<Rightarrow> bool" where
  "has_positive_lifecycle_keyword v keyword =
     (let ws = runs_of is_alnum [] v
      in list_ex (\<lambda>(i, w). w = keyword \<and> \<not> list_ex (\<lambda>u. u \<in> {''not'', ''never'', ''no''}) (drop (i - 2) (take i ws))) (enumerate 0 ws))"

definition legacy_stage_from_status :: "string \<Rightarrow> nat option" where
  "legacy_stage_from_status metadata =
     (case map_option lower (dv_value (declared_metadata_value metadata ''Status'')) of
        None \<Rightarrow> None
      | Some v \<Rightarrow> (case stage_words v of
            Some n \<Rightarrow> Some n
          | None \<Rightarrow> let has = has_positive_lifecycle_keyword v in
              if has ''stable'' then Some 4
              else if has ''candidate'' \<or> has ''implemented'' then Some 3
              else if has ''draft'' then Some 2
              else if has ''proposal'' \<or> has ''accepted'' then Some 1
              else if has ''idea'' \<or> has ''strawman'' then Some 0 else None))"

definition or_stage :: "'a option \<Rightarrow> 'a option \<Rightarrow> 'a option" where
  "or_stage a b = (case a of Some x \<Rightarrow> Some x | None \<Rightarrow> b)"

definition retired_rfc_stage_from_document :: "string \<Rightarrow> nat option \<Rightarrow> nat \<Rightarrow> nat" where
  "retired_rfc_stage_from_document s historical fallback =
     (let metadata = rfc_metadata_preamble s; marker = declared_metadata_value metadata ''Stage'';
          known = (if dv_declared marker then or_stage (Option.bind (dv_value marker) parse_declared_stage) historical
            else or_stage historical
              (or_stage (Option.bind (dv_value (declared_metadata_value_with_yaml metadata s ''Stage'' ''stage'')) parse_declared_stage)
                (legacy_stage_from_status metadata)))
      in case known of Some n \<Rightarrow> n | None \<Rightarrow> fallback)"

section \<open>Records and parsing\<close>

record rfc_record =
  rr_text_id :: string
  rr_number :: int
  rr_title :: string
  rr_stage :: nat
  rr_status :: string
  rr_feature :: "string option"
  rr_slug :: string
  rr_path :: string
  rr_superseded_by :: "string option"
  rr_supersedes :: "string option"
  rr_withdrawal_reason :: "string option"
  rr_archived_reason :: "string option"
  rr_consolidated_into :: "string option"

record rfc_document =
  doc_text_id :: string
  doc_number :: int
  doc_title :: string
  doc_stage :: nat
  doc_status :: string
  doc_status_declared :: bool
  doc_slug :: string
  doc_path :: string
  doc_superseded_by :: declared_value
  doc_supersedes :: declared_value
  doc_filename_number :: int
  doc_stage_source :: string
  doc_conflict :: bool
  doc_feature :: declared_value
  doc_withdrawal_reason :: declared_value
  doc_archived_reason :: declared_value
  doc_consolidated_into :: declared_value

definition or_error :: "string \<Rightarrow> 'a option \<Rightarrow> string + 'a" where
  "or_error e x = (case x of None \<Rightarrow> Inl e | Some y \<Rightarrow> Inr y)"

definition resolved_stage :: "string \<Rightarrow> string \<Rightarrow> string \<Rightarrow> declared_value \<Rightarrow> rfc_record option \<Rightarrow> nat" where
  "resolved_stage path status metadata marker existing =
     (if status = ''active'' then parse_stage path
      else case or_stage (Option.bind (dv_value marker) parse_declared_stage)
          (if dv_declared marker then None else legacy_stage_from_status metadata) of
        Some n \<Rightarrow> n
      | None \<Rightarrow> (case existing of Some r \<Rightarrow> rr_stage r | None \<Rightarrow> 0))"

text \<open>Whether the markers of a document contradict its place.\<close>

definition metadata_conflict :: "string \<Rightarrow> string \<Rightarrow> string \<Rightarrow> declared_value \<Rightarrow> bool" where
  "metadata_conflict path status metadata marker \<longleftrightarrow>
     (case declared_lifecycle_status metadata of Some s \<Rightarrow> s \<noteq> status | None \<Rightarrow> False)
     \<or> dv_declared marker \<and> Option.bind (dv_value marker) parse_declared_stage = None
     \<or> status = ''active'' \<and> (case Option.bind (dv_value marker) parse_declared_stage of
          Some n \<Rightarrow> n \<noteq> parse_stage path | None \<Rightarrow> False)"

definition consolidation :: "(string \<Rightarrow> bool) \<Rightarrow> declared_value \<Rightarrow> declared_value" where
  "consolidation W v = (if dv_declared v
     then v\<lparr>dv_value := Option.bind (dv_value v) (\<lambda>s. some_text (clean_relationship_value W s))\<rparr> else v)"

definition document_of ::
  "(string \<Rightarrow> bool) \<Rightarrow> string \<Rightarrow> string \<Rightarrow> string \<Rightarrow> rfc_record option \<Rightarrow> int \<Rightarrow> string \<Rightarrow> int \<Rightarrow> rfc_document" where
  "document_of W path filename s existing filename_number text_id number =
     (let metadata = rfc_metadata_preamble s; relations = extract_rfc_relationships W s; status = parse_status path;
          marker = declared_metadata_value_with_yaml metadata s ''Stage'' ''stage'';
          reason = declared_metadata_value metadata ''Reason''
      in \<lparr>doc_text_id = text_id, doc_number = number,
          doc_title = (case extract_h1_title s of Some t \<Rightarrow> t | None \<Rightarrow> ''RFC '' @ show_int number),
          doc_stage = resolved_stage path status metadata marker existing,
          doc_status = status,
          doc_status_declared = (declared_lifecycle_status metadata = Some status),
          doc_slug = parse_slug filename, doc_path = path,
          doc_superseded_by = \<lparr>dv_value = rel_superseded_by relations, dv_declared = rel_superseded_by_declared relations\<rparr>,
          doc_supersedes = \<lparr>dv_value = rel_supersedes relations, dv_declared = rel_supersedes_declared relations\<rparr>,
          doc_filename_number = filename_number,
          doc_stage_source = (if status = ''active'' then ''path''
             else if Option.bind (dv_value marker) parse_declared_stage \<noteq> None then ''marker'' else ''legacy''),
          doc_conflict = metadata_conflict path status metadata marker,
          doc_feature = declared_metadata_value_with_yaml metadata s ''Feature'' ''feature'',
          doc_withdrawal_reason = first_declared_value (declared_metadata_value metadata ''Withdrawal reason'')
             (if status = ''withdrawn'' then Some reason else None),
          doc_archived_reason = first_declared_value (declared_metadata_value metadata ''Archived reason'')
             (if status = ''archived'' then Some reason else None),
          doc_consolidated_into = consolidation W (declared_metadata_value metadata ''Consolidated into'')\<rparr>)"

definition parse_rfc_document ::
  "(string \<Rightarrow> bool) \<Rightarrow> string \<Rightarrow> string \<Rightarrow> rfc_record option \<Rightarrow> string + rfc_document" where
  "parse_rfc_document W path s existing =
     and_then (or_error (''Invalid RFC filename: '' @ path) (file_name path)) (\<lambda>filename.
       if \<not> has_anchor s then Inl (''RFC file missing anchor comment: '' @ path)
       else and_then (or_error (''Could not parse RFC number from '' @ filename) (parse_rfc_number filename)) (\<lambda>filename_number.
         and_then (or_error (''RFC file has invalid anchor ULID: '' @ path) (extract_anchor_ulid s)) (\<lambda>text_id.
         and_then (or_error (''RFC file has invalid anchor number: '' @ path) (extract_anchor_rfc_number s)) (\<lambda>number.
           Inr (document_of W path filename s existing filename_number text_id number)))))"

section \<open>Writing documents\<close>

definition anchor_line :: "int \<Rightarrow> string \<Rightarrow> string" where
  "anchor_line number text_id = ''<!-- exo:'' @ show_int number @ '' ulid:'' @ text_id @ '' -->''"

definition render_anchor_rfc_content :: "int \<Rightarrow> string \<Rightarrow> string \<Rightarrow> string \<Rightarrow> string" where
  "render_anchor_rfc_content number text_id title body =
     anchor_line number text_id @ [nl, nl] @ ''# RFC '' @ show_int number @ '': '' @ title @ [nl, nl] @ drop_char nl body @ [nl]"

definition render_existing_anchor_rfc_content :: "string \<Rightarrow> string \<Rightarrow> string \<Rightarrow> string \<Rightarrow> string" where
  "render_existing_anchor_rfc_content anchor i title body =
     anchor @ [nl, nl] @ ''# RFC '' @ i @ '': '' @ title @ [nl, nl] @ cut_char nl body @ [nl]"

definition render_anchor_line_content :: "string \<Rightarrow> string \<Rightarrow> string" where
  "render_anchor_line_content anchor body = anchor @ [nl, nl] @ cut_char nl body @ [nl]"

definition split_anchor_and_body :: "string \<Rightarrow> string + string \<times> string" where
  "split_anchor_and_body s =
     (if \<not> has_anchor s then Inl ''RFC file is missing the required anchor comment''
      else Inr (first_line s, drop_char nl (drop (length (first_line s)) s)))"

definition format_rfc_metadata_marker :: "string \<Rightarrow> string \<Rightarrow> string" where
  "format_rfc_metadata_marker label v = ''- '' @ bold label @ '':'' @ (if v = [] then [] else '' '' @ v)"

definition metadata_marker_is_replaced :: "string \<Rightarrow> string \<Rightarrow> bool" where
  "metadata_marker_is_replaced l label =
     list_ex (\<lambda>k. declared_in_line l k \<noteq> None)
       (if label = ''Reason'' then [''Reason'', ''Withdrawal reason'', ''Archived reason''] else [label])"

definition unlines :: "string list \<Rightarrow> string" where
  "unlines ls = concat (map (\<lambda>l. l @ [nl]) ls)"

text \<open>The lines after the title: markers that are replaced go as long as no section has begun, and
  the blank lines before the first line that stays. The flags: fence, preamble, spacing.\<close>

fun keep_unmarked :: "(string \<times> string) list \<Rightarrow> bool \<Rightarrow> bool \<Rightarrow> bool \<Rightarrow> string list \<Rightarrow> string list" where
  "keep_unmarked ms fence pre skip [] = []"
| "keep_unmarked ms fence pre skip (l # ls) =
     (let fence' = (if is_fence l then \<not> fence else fence);
          pre' = (if \<not> is_fence l \<and> \<not> fence' \<and> starts_with (trim_start l) ''## '' then False else pre)
      in if pre' \<and> \<not> fence' \<and> list_ex (\<lambda>(label, _). metadata_marker_is_replaced l label) ms
         then keep_unmarked ms fence' pre' skip ls
         else if skip \<and> trim l = [] then keep_unmarked ms fence' pre' skip ls
         else l # keep_unmarked ms fence' pre' False ls)"

definition marker_lines :: "(string \<times> string) list \<Rightarrow> string list" where
  "marker_lines ms = map (\<lambda>(label, v). format_rfc_metadata_marker label v) ms"

definition prefix_markers :: "(string \<times> string) list \<Rightarrow> string \<Rightarrow> string" where
  "prefix_markers ms s =
     (case Option.bind (strip_prefix ''<!-- exo:'' s) split_once_nl of
        Some (anchor_rest, remaining) \<Rightarrow>
          ''<!-- exo:'' @ anchor_rest @ [nl, nl]
          @ (case extract_anchor_rfc_number s of
               Some n \<Rightarrow> ''# RFC '' @ show_int n @ '': RFC '' @ show_int n @ [nl, nl] | None \<Rightarrow> [])
          @ unlines (marker_lines ms) @ [nl] @ drop_char nl remaining
      | None \<Rightarrow> unlines (marker_lines ms) @ [nl] @ drop_char nl s)"

definition upsert_rfc_metadata_markers :: "string \<Rightarrow> (string \<times> string) list \<Rightarrow> string" where
  "upsert_rfc_metadata_markers s ms =
     (if ms = [] then s
      else let ls = text_lines s; head = takeWhile (\<lambda>l. \<not> starts_with l ''# '') ls
      in case dropWhile (\<lambda>l. \<not> starts_with l ''# '') ls of
           title # rest \<Rightarrow> unlines (head @ [title, []] @ marker_lines ms @ [[]] @ keep_unmarked ms False True True rest)
         | [] \<Rightarrow> prefix_markers ms s)"

definition materialize_rfc_lifecycle_metadata_content :: "string \<Rightarrow> string \<Rightarrow> nat \<Rightarrow> string option \<Rightarrow> string" where
  "materialize_rfc_lifecycle_metadata_content s status stage reason =
     upsert_rfc_metadata_markers s [(''Status'', status), (''Stage'', show_nat stage),
       (''Reason'', case reason of Some r \<Rightarrow> r | None \<Rightarrow> [])]"

definition retired_rfc_reason_from_document :: "string \<Rightarrow> string \<Rightarrow> string option" where
  "retired_rfc_reason_from_document s status =
     (let metadata = rfc_metadata_preamble s
      in or_stage (dv_value (declared_metadata_value metadata (if status = ''withdrawn'' then ''Withdrawal reason'' else ''Archived reason'')))
           (dv_value (declared_metadata_value metadata ''Reason'')))"

definition retired_rfc_lifecycle_metadata_is_portable :: "string \<Rightarrow> string \<Rightarrow> bool" where
  "retired_rfc_lifecycle_metadata_is_portable s status \<longleftrightarrow>
     (if status \<noteq> ''withdrawn'' \<and> status \<noteq> ''archived'' then True
      else let metadata = rfc_metadata_preamble s in
        declared_lifecycle_status metadata = Some status
        \<and> Option.bind (dv_value (declared_metadata_value metadata ''Stage'')) parse_declared_stage \<noteq> None
        \<and> dv_declared (first_declared_value
            (declared_metadata_value metadata (if status = ''withdrawn'' then ''Withdrawal reason'' else ''Archived reason''))
            (Some (declared_metadata_value metadata ''Reason''))))"

end
