(* ===== verification/Rfc_Store.thy ===== *)
theory Rfc_Store
  imports Rfc_Document
begin

text \<open>
  The tables behind RFCs (migrations V015 and V022) and the statements on them in
  \<open>sqlite_writer.rs\<close> and \<open>sqlite_loader.rs\<close>: the records all workspaces share, and for each workspace
  the snapshot, the observations and the diagnostics of its own documents. A statement that a
  constraint refuses fails, and the savepoint around it leaves the store as it was. Times of
  creation and update, row ids and the table of relations are left out.
\<close>

record rfc_snapshot =
  snap_root :: string
  snap_branch :: "string option"
  snap_head :: string
  snap_digest :: string
  snap_ref :: "string option"
  snap_oid :: "string option"
  snap_observed_at :: string

record rfc_observation =
  obs_root :: string
  obs_text_id :: string
  obs_number :: int
  obs_title :: string
  obs_stage :: nat
  obs_stage_source :: string
  obs_status :: string
  obs_slug :: string
  obs_path :: string
  obs_feature :: declared_value
  obs_superseded_by :: declared_value
  obs_supersedes :: declared_value
  obs_withdrawal_reason :: declared_value
  obs_archived_reason :: declared_value
  obs_consolidated_into :: declared_value
  obs_branch :: "string option"
  obs_head :: string
  obs_observed_at :: string

record rfc_diagnostic =
  wd_root :: string
  wd_path :: string
  wd_code :: string
  wd_text_id :: "string option"
  wd_number :: "int option"
  wd_message :: string
  wd_observed_at :: string

record rfc_store =
  st_rfcs :: "rfc_record list"
  st_quarantine :: "string \<rightharpoonup> rfc_record \<times> string"
  st_baseline :: "(string \<times> string) option"
  st_snapshots :: "string \<rightharpoonup> rfc_snapshot"
  st_observations :: "rfc_observation list"
  st_diagnostics :: "rfc_diagnostic list"

section \<open>Shared records\<close>

definition load_rfcs :: "rfc_store \<Rightarrow> rfc_record list" where
  "load_rfcs d = sort_key rr_number (st_rfcs d)"

definition rfc_with_id :: "string \<Rightarrow> rfc_record list \<Rightarrow> rfc_record option" where
  "rfc_with_id t rs = find (\<lambda>r. rr_text_id r = t) rs"

definition valid_status :: "string \<Rightarrow> bool" where
  "valid_status s \<longleftrightarrow> s \<in> {''active'', ''archived'', ''withdrawn''}"

definition row_valid :: "rfc_record \<Rightarrow> bool" where
  "row_valid r \<longleftrightarrow> rr_stage r \<le> 4 \<and> valid_status (rr_status r)"

definition upsert_rfc_on :: "rfc_record \<Rightarrow> rfc_store \<Rightarrow> string + rfc_store" where
  "upsert_rfc_on r d =
     (if rfc_with_id (rr_text_id r) (st_rfcs d) \<noteq> None
      then if row_valid r then Inr (d\<lparr>st_rfcs := map (\<lambda>x. if rr_text_id x = rr_text_id r then r else x) (st_rfcs d)\<rparr>)
           else Inl ''Failed to update RFC metadata''
      else if row_valid r then Inr (d\<lparr>st_rfcs := st_rfcs d @ [r]\<rparr>)
           else Inl (''RFC metadata could not be upserted for '' @ rr_text_id r))"

definition delete_rfc_row :: "string \<Rightarrow> rfc_store \<Rightarrow> rfc_store" where
  "delete_rfc_row t d = d\<lparr>st_rfcs := filter (\<lambda>r. rr_text_id r \<noteq> t) (st_rfcs d)\<rparr>"

definition delete_rfc :: "string \<Rightarrow> rfc_store \<Rightarrow> string + rfc_store" where
  "delete_rfc t d = (if rfc_with_id t (st_rfcs d) = None then Inl (''RFC not found: '' @ t) else Inr (delete_rfc_row t d))"

definition upsert_rfc :: "rfc_record \<Rightarrow> rfc_store \<Rightarrow> string + rfc_store" where
  "upsert_rfc r d = upsert_rfc_on r d"

definition update_rfc_stage :: "string \<Rightarrow> nat \<Rightarrow> string \<Rightarrow> rfc_store \<Rightarrow> string + rfc_store" where
  "update_rfc_stage t stage path d =
     (if rfc_with_id t (st_rfcs d) = None then Inl (''RFC not found: '' @ t)
      else if 4 < stage then Inl ''Failed to update RFC stage''
      else Inr (d\<lparr>st_rfcs := map (\<lambda>x. if rr_text_id x = t then x\<lparr>rr_stage := stage, rr_path := path\<rparr> else x) (st_rfcs d)\<rparr>))"

fun upsert_rfcs :: "rfc_record list \<Rightarrow> rfc_store \<Rightarrow> string + rfc_store" where
  "upsert_rfcs [] d = Inr d"
| "upsert_rfcs (r # rs) d = and_then (upsert_rfc_on r d) (upsert_rfcs rs)"

definition quarantine_rfc :: "string \<Rightarrow> rfc_record \<Rightarrow> rfc_store \<Rightarrow> rfc_store" where
  "quarantine_rfc reason r d = delete_rfc_row (rr_text_id r) (d\<lparr>st_quarantine := (st_quarantine d)(rr_text_id r \<mapsto> (r, reason))\<rparr>)"

definition writer_reconcile_canonical ::
  "rfc_record list \<Rightarrow> rfc_record list \<Rightarrow> string list \<Rightarrow> string \<times> string \<Rightarrow> bool \<Rightarrow> rfc_store \<Rightarrow> string + rfc_store" where
  "writer_reconcile_canonical changed quarantined relinked canonical establish d =
     and_then (upsert_rfcs changed d) (\<lambda>d.
       let d = d\<lparr>st_quarantine := st_quarantine d |` (- set relinked)\<rparr>;
           d = fold (quarantine_rfc (if establish then ''missing_from_initial_canonical_tree'' else ''missing_from_canonical_history'')) quarantined d
       in if \<not> establish then Inr d
          else if st_baseline d \<noteq> None then Inl ''Failed to record RFC canonical baseline''
          else Inr (d\<lparr>st_baseline := Some canonical\<rparr>))"

section \<open>Workspaces\<close>

definition load_observations :: "string \<Rightarrow> rfc_store \<Rightarrow> rfc_observation list" where
  "load_observations w d = sort_key (\<lambda>x. (obs_number x, obs_path x)) (filter (\<lambda>x. obs_root x = w) (st_observations d))"

definition load_diagnostics :: "string \<Rightarrow> rfc_store \<Rightarrow> rfc_diagnostic list" where
  "load_diagnostics w d = sort_key (\<lambda>x. (wd_path x, wd_code x)) (filter (\<lambda>x. wd_root x = w) (st_diagnostics d))"

text \<open>The constraints on one more observation or diagnostic.\<close>

definition observation_fits :: "rfc_store \<Rightarrow> rfc_observation \<Rightarrow> bool" where
  "observation_fits d x \<longleftrightarrow>
     obs_stage x \<le> 4 \<and> valid_status (obs_status x) \<and> obs_stage_source x \<in> {''path'', ''marker'', ''legacy''}
     \<and> obs_root x \<in> dom (st_snapshots d)
     \<and> list_all (\<lambda>y. obs_root y = obs_root x \<longrightarrow> obs_text_id y \<noteq> obs_text_id x \<and> obs_path y \<noteq> obs_path x) (st_observations d)"

definition diagnostic_fits :: "rfc_store \<Rightarrow> rfc_diagnostic \<Rightarrow> bool" where
  "diagnostic_fits d x \<longleftrightarrow> wd_root x \<in> dom (st_snapshots d)
     \<and> list_all (\<lambda>y. (wd_root y, wd_path y, wd_code y) \<noteq> (wd_root x, wd_path x, wd_code x)) (st_diagnostics d)"

fun insert_observations :: "rfc_observation list \<Rightarrow> rfc_store \<Rightarrow> string + rfc_store" where
  "insert_observations [] d = Inr d"
| "insert_observations (x # xs) d =
     (if observation_fits d x then insert_observations xs (d\<lparr>st_observations := st_observations d @ [x]\<rparr>)
      else Inl ''Failed to insert RFC workspace observation'')"

fun insert_diagnostics :: "rfc_diagnostic list \<Rightarrow> rfc_store \<Rightarrow> string + rfc_store" where
  "insert_diagnostics [] d = Inr d"
| "insert_diagnostics (x # xs) d =
     (if diagnostic_fits d x then insert_diagnostics xs (d\<lparr>st_diagnostics := st_diagnostics d @ [x]\<rparr>)
      else Inl ''Failed to insert RFC workspace diagnostic'')"

definition replace_rfc_workspace_snapshot ::
  "rfc_snapshot \<Rightarrow> rfc_observation list \<Rightarrow> rfc_diagnostic list \<Rightarrow> rfc_store \<Rightarrow> string + rfc_store" where
  "replace_rfc_workspace_snapshot s xs ds d =
     (if length (snap_digest s) \<noteq> 32
      then Inl (if st_snapshots d (snap_root s) = None then ''Failed to insert RFC workspace snapshot'' else ''Failed to update RFC workspace snapshot'')
      else and_then (insert_observations xs
             (d\<lparr>st_snapshots := (st_snapshots d)(snap_root s \<mapsto> s),
                st_diagnostics := filter (\<lambda>x. wd_root x \<noteq> snap_root s) (st_diagnostics d),
                st_observations := filter (\<lambda>x. obs_root x \<noteq> snap_root s) (st_observations d)\<rparr>))
           (insert_diagnostics ds))"

end
