(* ===== verification/Rfc_Reconcile.thy ===== *)
theory Rfc_Reconcile
  imports Rfc_Store
begin

text \<open>
  What a workspace sees of the RFCs, \<open>tools/exo/src/rfc.rs\<close>: the records of the canonical git tree are
  shared by all workspaces, the documents of a workspace are observed and lie over them. Git is a
  parameter: which refs it resolves, the documents of the canonical tree and whether its history ever
  held an anchor. SHA-256 and the clock are parameters too. A repository in which no canonical tree
  is found falls back to reconciling with the workspace itself: of that, the write of a command is
  modelled, and the statements the reconciliation is made of, but not which of them it chooses.
\<close>

section \<open>The canonical tree\<close>

record git_queries =
  resolve_ref :: "string \<Rightarrow> string option"
  inside_work_tree :: "string option"
  remote_head_lines :: "string list"
  worktree_lines :: "string list"

datatype reconcile_source = Canonical string string | PreserveShared | WorkspaceFallback

definition resolve_canonical_ref :: "git_queries \<Rightarrow> string \<Rightarrow> (string \<times> string) option" where
  "resolve_canonical_ref G n = Option.bind (resolve_ref G n) (\<lambda>oid. if trim oid = [] then None else Some (n, trim oid))"

definition first_resolved :: "git_queries \<Rightarrow> string list \<Rightarrow> (string \<times> string) option" where
  "first_resolved G ns = first_of (List.map_filter (resolve_canonical_ref G) ns)"

definition canonical_reconcile_source :: "git_queries \<Rightarrow> reconcile_source" where
  "canonical_reconcile_source G =
     (case resolve_canonical_ref G ''refs/remotes/origin/HEAD'' of
        Some (n, oid) \<Rightarrow> Canonical n oid
      | None \<Rightarrow>
          if map_option trim (inside_work_tree G) \<noteq> Some ''true'' then WorkspaceFallback
          else (case List.map_filter (resolve_canonical_ref G) (filter (\<lambda>n. n \<noteq> ''refs/remotes/origin/HEAD'') (remote_head_lines G)) of
              [(n, oid)] \<Rightarrow> Canonical n oid
            | _ # _ \<Rightarrow> PreserveShared
            | [] \<Rightarrow> (case first_resolved G [''refs/heads/main'', ''refs/heads/master''] of
                  Some (n, oid) \<Rightarrow> Canonical n oid
                | None \<Rightarrow>
                    if length (filter (\<lambda>l. starts_with l ''worktree '') (worktree_lines G)) = 1
                    then (case resolve_canonical_ref G ''HEAD'' of Some (n, oid) \<Rightarrow> Canonical n oid | None \<Rightarrow> WorkspaceFallback)
                    else PreserveShared)))"

definition canonical_source_identity :: "reconcile_source \<Rightarrow> string option \<times> string option" where
  "canonical_source_identity s = (case s of Canonical n oid \<Rightarrow> (Some n, Some oid) | _ \<Rightarrow> (None, None))"

section \<open>Reconciling the shared records\<close>

record reconcile_result =
  inserted :: nat
  updated :: nat
  deleted :: nat
  unchanged :: nat

definition compatibility_value :: "declared_value \<Rightarrow> string option \<Rightarrow> string option" where
  "compatibility_value v existing = (if dv_declared v then dv_value v else existing)"

definition canonical_rfc_record :: "rfc_document \<Rightarrow> rfc_record option \<Rightarrow> rfc_record" where
  "canonical_rfc_record p existing =
     \<lparr>rr_text_id = doc_text_id p, rr_number = doc_number p, rr_title = doc_title p, rr_stage = doc_stage p, rr_status = doc_status p,
      rr_feature = compatibility_value (doc_feature p) (Option.bind existing rr_feature),
      rr_slug = doc_slug p, rr_path = doc_path p,
      rr_superseded_by = compatibility_value (doc_superseded_by p) (Option.bind existing rr_superseded_by),
      rr_supersedes = compatibility_value (doc_supersedes p) (Option.bind existing rr_supersedes),
      rr_withdrawal_reason = (if doc_status p = ''withdrawn''
         then compatibility_value (doc_withdrawal_reason p) (Option.bind existing rr_withdrawal_reason) else None),
      rr_archived_reason = (if doc_status p = ''archived''
         then compatibility_value (doc_archived_reason p) (Option.bind existing rr_archived_reason) else None),
      rr_consolidated_into = compatibility_value (doc_consolidated_into p) (Option.bind existing rr_consolidated_into)\<rparr>"

definition document_usable :: "rfc_document \<Rightarrow> bool" where
  "document_usable p \<longleftrightarrow> \<not> doc_conflict p \<and> doc_filename_number p = doc_number p"

text \<open>A document of the tree that parses and does not contradict itself.\<close>

definition read_blob :: "(string \<Rightarrow> bool) \<Rightarrow> rfc_record list \<Rightarrow> string \<times> string \<Rightarrow> rfc_document option" where
  "read_blob W existing blob =
     (case parse_rfc_document W (fst blob) (snd blob) (Option.bind (extract_anchor_ulid (snd blob)) (\<lambda>t. rfc_with_id t existing)) of
        Inr p \<Rightarrow> if document_usable p then Some p else None
      | Inl _ \<Rightarrow> None)"

definition anchor_unique :: "rfc_document list \<Rightarrow> rfc_document \<Rightarrow> bool" where
  "anchor_unique ps p \<longleftrightarrow> length (filter (\<lambda>q. doc_text_id q = doc_text_id p) ps) = 1"

definition reconcile_canonical_rfcs ::
  "(string \<Rightarrow> bool) \<Rightarrow> (string \<Rightarrow> bool) \<Rightarrow> (string \<times> string) list \<Rightarrow> string \<times> string \<Rightarrow> rfc_store \<Rightarrow> string + rfc_store \<times> reconcile_result" where
  "reconcile_canonical_rfcs W history blobs canonical d =
     (let existing = load_rfcs d;
          parsed = List.map_filter (read_blob W existing) blobs;
          usable = filter (anchor_unique parsed) parsed;
          records = map (\<lambda>p. (rfc_with_id (doc_text_id p) existing, canonical_rfc_record p (rfc_with_id (doc_text_id p) existing))) usable;
          changed = map snd (filter (\<lambda>(old, r). old \<noteq> Some r) records);
          anchors = List.map_filter (\<lambda>b. extract_anchor_ulid (snd b)) blobs;
          establish = (st_baseline d = None);
          quarantined = filter (\<lambda>r. rr_text_id r \<notin> set anchors \<and> (establish \<or> \<not> history (rr_text_id r))) existing
      in map_sum id (\<lambda>d'. (d', \<lparr>inserted = length (filter (\<lambda>(old, _). old = None) records),
             updated = length (filter (\<lambda>(old, r). old \<noteq> None \<and> old \<noteq> Some r) records),
             deleted = length quarantined,
             unchanged = length blobs - length changed\<rparr>))
           (writer_reconcile_canonical changed quarantined (bset_of (map doc_text_id usable)) canonical establish d))"

section \<open>Observing the documents of a workspace\<close>

definition be_bytes64 :: "nat \<Rightarrow> string" where
  "be_bytes64 n = rev (le_bytes64 (of_nat n))"

definition digest_field :: "string \<Rightarrow> string" where
  "digest_field s = be_bytes64 (length s) @ s"

definition workspace_document_digest :: "(string \<Rightarrow> string) \<Rightarrow> (string \<times> string) list \<Rightarrow> string" where
  "workspace_document_digest sha docs =
     sha (concat (map (\<lambda>(path, s). digest_field path @ digest_field (workspace_collection_kind path) @ digest_field (sha s)) docs))"

text \<open>Well-formed UTF-8.\<close>

fun valid_utf8 :: "nat list \<Rightarrow> bool" where
  "valid_utf8 [] \<longleftrightarrow> True"
| "valid_utf8 (b # bs) \<longleftrightarrow>
     (let cont = (\<lambda>x. 128 \<le> x \<and> x < 192) in
      if b < 128 then valid_utf8 bs
      else if 194 \<le> b \<and> b \<le> 223 then (case bs of x # r \<Rightarrow> cont x \<and> valid_utf8 r | _ \<Rightarrow> False)
      else if 224 \<le> b \<and> b \<le> 239 then (case bs of x # y # r \<Rightarrow>
             cont x \<and> cont y \<and> (b = 224 \<longrightarrow> 160 \<le> x) \<and> (b = 237 \<longrightarrow> x < 160) \<and> valid_utf8 r | _ \<Rightarrow> False)
      else if 240 \<le> b \<and> b \<le> 244 then (case bs of x # y # z # r \<Rightarrow>
             cont x \<and> cont y \<and> cont z \<and> (b = 240 \<longrightarrow> 144 \<le> x) \<and> (b = 244 \<longrightarrow> x < 144) \<and> valid_utf8 r | _ \<Rightarrow> False)
      else False)"

record observe_env =
  oe_word :: "string \<Rightarrow> bool"
  oe_sha :: "string \<Rightarrow> string"
  oe_now :: string
  oe_branch :: "string option"
  oe_head :: string

definition workspace_observation_from_parsed :: "observe_env \<Rightarrow> string \<Rightarrow> rfc_document \<Rightarrow> rfc_observation" where
  "workspace_observation_from_parsed V w p =
     \<lparr>obs_root = w, obs_text_id = doc_text_id p, obs_number = doc_number p, obs_title = doc_title p, obs_stage = doc_stage p,
      obs_stage_source = doc_stage_source p, obs_status = doc_status p, obs_slug = doc_slug p, obs_path = doc_path p,
      obs_feature = doc_feature p, obs_superseded_by = doc_superseded_by p, obs_supersedes = doc_supersedes p,
      obs_withdrawal_reason = doc_withdrawal_reason p, obs_archived_reason = doc_archived_reason p,
      obs_consolidated_into = doc_consolidated_into p, obs_branch = oe_branch V, obs_head = oe_head V, obs_observed_at = oe_now V\<rparr>"

definition workspace_diagnostic :: "observe_env \<Rightarrow> string \<Rightarrow> string \<Rightarrow> string \<Rightarrow> string \<Rightarrow> string \<Rightarrow> rfc_diagnostic" where
  "workspace_diagnostic V w path code s message =
     \<lparr>wd_root = w, wd_path = path, wd_code = code, wd_text_id = extract_anchor_ulid s, wd_number = extract_anchor_rfc_number s,
      wd_message = message, wd_observed_at = oe_now V\<rparr>"

definition invalid_utf8_diagnostic :: "observe_env \<Rightarrow> string \<Rightarrow> string \<Rightarrow> rfc_diagnostic" where
  "invalid_utf8_diagnostic V w path =
     \<lparr>wd_root = w, wd_path = path, wd_code = ''invalid_utf8'', wd_text_id = None, wd_number = None,
      wd_message = ''RFC document contains non-UTF-8 bytes: '' @ path, wd_observed_at = oe_now V\<rparr>"

text \<open>A document on disk: a usable document with its text, or what is wrong with it.\<close>

definition read_document :: "observe_env \<Rightarrow> string \<Rightarrow> rfc_record list \<Rightarrow> string \<times> string \<Rightarrow> rfc_diagnostic + rfc_document \<times> string" where
  "read_document V w shared doc =
     (case doc of (path, s) \<Rightarrow>
        if \<not> valid_utf8 (map byte s) then Inl (invalid_utf8_diagnostic V w path)
        else (case parse_rfc_document (oe_word V) path s (Option.bind (extract_anchor_ulid s) (\<lambda>t. rfc_with_id t shared)) of
            Inr p \<Rightarrow> if document_usable p then Inr (p, s)
              else Inl (workspace_diagnostic V w path ''metadata_conflict'' s
                (''RFC document metadata conflicts with its path or lifecycle at '' @ path))
          | Inl e \<Rightarrow> Inl (workspace_diagnostic V w path ''parse_error'' s e)))"

definition preserve_workspace_optional_override :: "declared_value \<Rightarrow> declared_value \<Rightarrow> string option \<Rightarrow> declared_value" where
  "preserve_workspace_optional_override v previous canonical =
     (if \<not> dv_declared v \<and> dv_declared previous \<and> dv_value previous \<noteq> canonical then declares (dv_value previous) else v)"

definition preserve_overrides :: "rfc_observation option \<Rightarrow> rfc_record option \<Rightarrow> rfc_observation \<Rightarrow> rfc_observation" where
  "preserve_overrides previous canonical x =
     (case previous of None \<Rightarrow> x
      | Some y \<Rightarrow> x\<lparr>
          obs_feature := preserve_workspace_optional_override (obs_feature x) (obs_feature y) (Option.bind canonical rr_feature),
          obs_superseded_by := preserve_workspace_optional_override (obs_superseded_by x) (obs_superseded_by y) (Option.bind canonical rr_superseded_by),
          obs_supersedes := preserve_workspace_optional_override (obs_supersedes x) (obs_supersedes y) (Option.bind canonical rr_supersedes),
          obs_withdrawal_reason := preserve_workspace_optional_override (obs_withdrawal_reason x) (obs_withdrawal_reason y) (Option.bind canonical rr_withdrawal_reason),
          obs_archived_reason := preserve_workspace_optional_override (obs_archived_reason x) (obs_archived_reason y) (Option.bind canonical rr_archived_reason),
          obs_consolidated_into := preserve_workspace_optional_override (obs_consolidated_into x) (obs_consolidated_into y) (Option.bind canonical rr_consolidated_into)\<rparr>)"

definition observation_with_id :: "string \<Rightarrow> rfc_observation list \<Rightarrow> rfc_observation option" where
  "observation_with_id t xs = find (\<lambda>x. obs_text_id x = t) xs"

definition snapshot_current :: "rfc_snapshot \<Rightarrow> rfc_snapshot \<Rightarrow> bool" where
  "snapshot_current old s \<longleftrightarrow> snap_branch old = snap_branch s \<and> snap_head old = snap_head s \<and> snap_digest old = snap_digest s
     \<and> snap_ref old = snap_ref s \<and> snap_oid old = snap_oid s"

definition overrides_apply :: "rfc_snapshot \<Rightarrow> rfc_snapshot \<Rightarrow> bool" where
  "overrides_apply old s \<longleftrightarrow> snap_branch old = snap_branch s
     \<and> (snap_branch s \<noteq> None \<or> snap_head old = snap_head s \<or> snap_digest old = snap_digest s)"

definition new_snapshot :: "observe_env \<Rightarrow> string \<Rightarrow> reconcile_source \<Rightarrow> (string \<times> string) list \<Rightarrow> rfc_snapshot" where
  "new_snapshot V w source docs =
     \<lparr>snap_root = w, snap_branch = oe_branch V, snap_head = oe_head V, snap_digest = workspace_document_digest (oe_sha V) docs,
      snap_ref = fst (canonical_source_identity source), snap_oid = snd (canonical_source_identity source), snap_observed_at = oe_now V\<rparr>"

definition usable_documents :: "observe_env \<Rightarrow> string \<Rightarrow> rfc_record list \<Rightarrow> (string \<times> string) list \<Rightarrow> (rfc_document \<times> string) list" where
  "usable_documents V w shared docs = List.map_filter (\<lambda>doc. case read_document V w shared doc of Inr p \<Rightarrow> Some p | Inl _ \<Rightarrow> None) docs"

definition previous_observations :: "string \<Rightarrow> rfc_snapshot \<Rightarrow> rfc_store \<Rightarrow> rfc_observation list" where
  "previous_observations w s d = (case st_snapshots d w of
     Some old \<Rightarrow> if overrides_apply old s then load_observations w d else [] | None \<Rightarrow> [])"

definition observe_documents :: "observe_env \<Rightarrow> string \<Rightarrow> rfc_snapshot \<Rightarrow> (string \<times> string) list \<Rightarrow> rfc_store \<Rightarrow> rfc_observation list" where
  "observe_documents V w s docs d =
     (let shared = load_rfcs d; usable = usable_documents V w shared docs
      in map (\<lambda>(p, _). preserve_overrides (observation_with_id (doc_text_id p) (previous_observations w s d)) (rfc_with_id (doc_text_id p) shared)
                (workspace_observation_from_parsed V w p))
           (filter (\<lambda>(p, _). anchor_unique (map fst usable) p) usable))"

definition diagnose_documents :: "observe_env \<Rightarrow> string \<Rightarrow> (string \<times> string) list \<Rightarrow> rfc_store \<Rightarrow> rfc_diagnostic list" where
  "diagnose_documents V w docs d =
     (let shared = load_rfcs d; usable = usable_documents V w shared docs
      in List.map_filter (\<lambda>doc. case read_document V w shared doc of Inl x \<Rightarrow> Some x | Inr _ \<Rightarrow> None) docs
         @ map (\<lambda>(p, s). workspace_diagnostic V w (doc_path p) ''duplicate_anchor'' s
               (''RFC anchor '' @ doc_text_id p @ '' appears in multiple workspace documents''))
             (filter (\<lambda>(p, _). \<not> anchor_unique (map fst usable) p) usable))"

definition refresh_workspace_rfc_snapshot ::
  "observe_env \<Rightarrow> string \<Rightarrow> reconcile_source \<Rightarrow> (string \<times> string) list \<Rightarrow> rfc_store \<Rightarrow> string + rfc_store" where
  "refresh_workspace_rfc_snapshot V w source docs d =
     (let s = new_snapshot V w source docs
      in if (case st_snapshots d w of Some old \<Rightarrow> snapshot_current old s | None \<Rightarrow> False) then Inr d
         else replace_rfc_workspace_snapshot s (observe_documents V w s docs d) (diagnose_documents V w docs d) d)"

section \<open>The effective view\<close>

record rfc_provenance =
  prov_source :: string
  prov_workspace :: string
  prov_canonical :: string
  prov_branch :: "string option"
  prov_head :: "string option"
  prov_ref :: "string option"
  prov_oid :: "string option"
  prov_differs :: bool

definition composed_optional_value :: "declared_value \<Rightarrow> string option \<Rightarrow> string option" where
  "composed_optional_value v canonical = (if dv_declared v then dv_value v else canonical)"

definition effective_record_from_observation :: "rfc_observation \<Rightarrow> rfc_record option \<Rightarrow> rfc_record" where
  "effective_record_from_observation x canonical =
     \<lparr>rr_text_id = obs_text_id x, rr_number = obs_number x, rr_title = obs_title x, rr_stage = obs_stage x, rr_status = obs_status x,
      rr_feature = composed_optional_value (obs_feature x) (Option.bind canonical rr_feature),
      rr_slug = obs_slug x, rr_path = obs_path x,
      rr_superseded_by = composed_optional_value (obs_superseded_by x) (Option.bind canonical rr_superseded_by),
      rr_supersedes = composed_optional_value (obs_supersedes x) (Option.bind canonical rr_supersedes),
      rr_withdrawal_reason = composed_optional_value (obs_withdrawal_reason x) (Option.bind canonical rr_withdrawal_reason),
      rr_archived_reason = composed_optional_value (obs_archived_reason x) (Option.bind canonical rr_archived_reason),
      rr_consolidated_into = composed_optional_value (obs_consolidated_into x) (Option.bind canonical rr_consolidated_into)\<rparr>"

definition observed_entry :: "rfc_snapshot \<Rightarrow> rfc_record list \<Rightarrow> rfc_observation \<Rightarrow> rfc_record \<times> rfc_provenance" where
  "observed_entry s shared x =
     (let canonical = rfc_with_id (obs_text_id x) shared; r = effective_record_from_observation x canonical
      in (r, \<lparr>prov_source = ''workspace'', prov_workspace = ''present'',
            prov_canonical = (if canonical \<noteq> None then ''present'' else ''unpublished''),
            prov_branch = obs_branch x, prov_head = Some (obs_head x), prov_ref = snap_ref s, prov_oid = snap_oid s,
            prov_differs = (canonical \<noteq> Some r)\<rparr>))"

definition shared_entry :: "rfc_snapshot \<Rightarrow> rfc_record \<Rightarrow> rfc_record \<times> rfc_provenance" where
  "shared_entry s r =
     (r, \<lparr>prov_source = ''canonical'', prov_workspace = ''absent'', prov_canonical = ''present'',
          prov_branch = snap_branch s, prov_head = Some (snap_head s), prov_ref = snap_ref s, prov_oid = snap_oid s, prov_differs = False\<rparr>)"

definition compose_effective_rfc_view :: "string \<Rightarrow> rfc_store \<Rightarrow> string + (rfc_record \<times> rfc_provenance) list" where
  "compose_effective_rfc_view w d =
     (case st_snapshots d w of
        None \<Rightarrow> Inl (''RFC workspace snapshot missing for '' @ w)
      | Some s \<Rightarrow>
          let shared = load_rfcs d; xs = load_observations w d
          in Inr (sort_key (\<lambda>e. (rr_number (fst e), rr_path (fst e)))
               (map (observed_entry s shared) xs
                @ map (shared_entry s) (filter (\<lambda>r. rr_text_id r \<notin> set (map obs_text_id xs)) shared))))"

definition select_effective_rfc_by_number :: "(rfc_record \<times> rfc_provenance) list \<Rightarrow> int \<Rightarrow> string + (rfc_record \<times> rfc_provenance) option" where
  "select_effective_rfc_by_number es n =
     (case filter (\<lambda>e. rr_number (fst e) = n) es of
        [] \<Rightarrow> Inr None
      | [e] \<Rightarrow> Inr (Some e)
      | es \<Rightarrow> Inl (''RFC '' @ show_int n @ '' is ambiguous in this workspace: ''
          @ join_with '', '' (map (\<lambda>e. rr_path (fst e) @ '' ('' @ rr_text_id (fst e) @ '')'') es)))"

section \<open>Commands that change a record\<close>

definition apply_workspace_optional_override :: "declared_value \<Rightarrow> string option \<Rightarrow> string option \<Rightarrow> declared_value" where
  "apply_workspace_optional_override v desired canonical =
     (if dv_declared v \<or> desired \<noteq> canonical then declares desired else v)"

definition override_observation :: "rfc_record \<Rightarrow> rfc_record option \<Rightarrow> rfc_observation \<Rightarrow> rfc_observation" where
  "override_observation r canonical x =
     x\<lparr>obs_number := rr_number r, obs_title := rr_title r, obs_stage := rr_stage r, obs_status := rr_status r,
       obs_slug := rr_slug r, obs_path := rr_path r,
       obs_feature := apply_workspace_optional_override (obs_feature x) (rr_feature r) (Option.bind canonical rr_feature),
       obs_superseded_by := apply_workspace_optional_override (obs_superseded_by x) (rr_superseded_by r) (Option.bind canonical rr_superseded_by),
       obs_supersedes := apply_workspace_optional_override (obs_supersedes x) (rr_supersedes r) (Option.bind canonical rr_supersedes),
       obs_withdrawal_reason := apply_workspace_optional_override (obs_withdrawal_reason x) (rr_withdrawal_reason r) (Option.bind canonical rr_withdrawal_reason),
       obs_archived_reason := apply_workspace_optional_override (obs_archived_reason x) (rr_archived_reason r) (Option.bind canonical rr_archived_reason),
       obs_consolidated_into := apply_workspace_optional_override (obs_consolidated_into x) (rr_consolidated_into r) (Option.bind canonical rr_consolidated_into)\<rparr>"

text \<open>The write of a command. In a repository with a canonical tree, or with several candidates for
  one, the workspace's documents are observed, and its observation of the RFC is brought to the record;
  otherwise the record is shared at once and the documents are observed after that.\<close>

definition persist_rfc_record ::
  "observe_env \<Rightarrow> string \<Rightarrow> reconcile_source \<Rightarrow> (string \<times> string) list \<Rightarrow> rfc_record \<Rightarrow> rfc_store \<Rightarrow> string + rfc_store" where
  "persist_rfc_record V w source docs r d =
     (if source = WorkspaceFallback
      then and_then (upsert_rfc r d) (refresh_workspace_rfc_snapshot V w source docs)
      else and_then (refresh_workspace_rfc_snapshot V w source docs d) (\<lambda>d.
        case st_snapshots d w of
          None \<Rightarrow> Inl (''RFC workspace snapshot missing for '' @ w)
        | Some s \<Rightarrow>
            let canonical = rfc_with_id (rr_text_id r) (load_rfcs d); xs = load_observations w d
            in if observation_with_id (rr_text_id r) xs = None
               then Inl (''RFC '' @ show_int (rr_number r) @ '' ('' @ rr_text_id r @ '') is not a valid document in the current workspace snapshot'')
               else replace_rfc_workspace_snapshot s
                      (map (\<lambda>x. if obs_text_id x = rr_text_id r then override_observation r canonical x else x) xs) (load_diagnostics w d) d))"

section \<open>New numbers\<close>

definition rfc_number_or_zero :: "string \<Rightarrow> nat" where
  "rfc_number_or_zero f = (case Option.bind (extract_rfc_number_from_filename f) parse_nat of
     Some n \<Rightarrow> if n < 2 ^ 32 then n else 0 | None \<Rightarrow> 0)"

text \<open>The names are those of the Markdown files the collection holds; the sum is one of 32 bits.\<close>

definition get_next_rfc_id :: "string list \<Rightarrow> nat" where
  "get_next_rfc_id names = (fold max (map rfc_number_or_zero (filter (\<lambda>f. f \<notin> set skip_rfc_files) names)) 0 + 1) mod 2 ^ 32"

definition get_next_effective_rfc_id :: "string list \<Rightarrow> (rfc_record \<times> rfc_provenance) list \<Rightarrow> string + int" where
  "get_next_effective_rfc_id names es =
     (let top = (if es = [] then 0 else fold max (map (\<lambda>e. rr_number (fst e)) (tl es)) (rr_number (fst (hd es))))
      in if top = 2 ^ 63 - 1 then Inl ''RFC number space is exhausted''
         else Inr (max (int (get_next_rfc_id names)) (top + 1)))"

text \<open>A number is written with at least five digits.\<close>

definition format_rfc_number :: "int \<Rightarrow> string" where
  "format_rfc_number n =
     (let sign = (if n < 0 then ''-'' else []); digits = show_nat (nat \<bar>n\<bar>)
      in sign @ replicate (5 - length sign - length digits) (CHR ''0'') @ digits)"

definition create_record :: "string \<Rightarrow> string \<Rightarrow> int \<Rightarrow> string \<Rightarrow> string \<Rightarrow> nat \<Rightarrow> rfc_record" where
  "create_record number_text text_id number title feature stage =
     \<lparr>rr_text_id = text_id, rr_number = number, rr_title = title, rr_stage = stage, rr_status = ''active'', rr_feature = Some feature,
      rr_slug = slugify title,
      rr_path = ''docs/rfcs/stage-'' @ show_nat stage @ ''/'' @ number_text @ ''-'' @ slugify title @ ''.md'',
      rr_superseded_by = None, rr_supersedes = None, rr_withdrawal_reason = None, rr_archived_reason = None, rr_consolidated_into = None\<rparr>"

definition create_rfc ::
  "string list \<Rightarrow> (rfc_record \<times> rfc_provenance) list \<Rightarrow> string \<Rightarrow> string option \<Rightarrow> string \<Rightarrow> nat \<Rightarrow> string \<Rightarrow> string option
   \<Rightarrow> string + rfc_record \<times> string" where
  "create_rfc names es title i feature stage text_id body =
     and_then (case i of Some t \<Rightarrow> Inr t | None \<Rightarrow> map_sum id format_rfc_number (get_next_effective_rfc_id names es)) (\<lambda>t.
     and_then (or_error (''RFC IDs must be numeric: '' @ t) (parse_i64 t)) (\<lambda>number.
       if list_ex (\<lambda>e. rr_number (fst e) = number) es
       then Inl (''RFC '' @ t @ '' already exists in the effective workspace view'')
       else Inr (create_record t text_id number title feature stage,
              render_anchor_rfc_content number text_id title (case body of Some b \<Rightarrow> b | None \<Rightarrow> ''Write your RFC content here.''))))"

section \<open>Everything that happens to the store\<close>

text \<open>The last three are the writer's own statements on the shared records, which the reconciliation with a
  workspace is made of.\<close>

datatype rfc_op =
    ReconcileShared "string \<Rightarrow> bool" "string \<Rightarrow> bool" "(string \<times> string) list" "string \<times> string"
  | Observe observe_env string reconcile_source "(string \<times> string) list"
  | Change observe_env string reconcile_source "(string \<times> string) list" rfc_record
  | Upsert rfc_record
  | Restage string nat string
  | Discard string

definition rfc_do :: "rfc_op \<Rightarrow> rfc_store \<Rightarrow> string + rfc_store" where
  "rfc_do m d = (case m of
       ReconcileShared W history blobs canonical \<Rightarrow> map_sum id fst (reconcile_canonical_rfcs W history blobs canonical d)
     | Observe V w source docs \<Rightarrow> refresh_workspace_rfc_snapshot V w source docs d
     | Change V w source docs r \<Rightarrow> persist_rfc_record V w source docs r d
     | Upsert r \<Rightarrow> upsert_rfc r d
     | Restage t stage path \<Rightarrow> update_rfc_stage t stage path d
     | Discard t \<Rightarrow> delete_rfc t d)"

text \<open>What an operation leaves when it fails: the first of the two writes of a command may stand.\<close>

definition rfc_left :: "rfc_op \<Rightarrow> rfc_store \<Rightarrow> rfc_store" where
  "rfc_left m d = (case m of
       Change V w source docs r \<Rightarrow>
         (case (if source = WorkspaceFallback then upsert_rfc r d else refresh_workspace_rfc_snapshot V w source docs d) of
            Inr d' \<Rightarrow> d' | Inl _ \<Rightarrow> d)
     | _ \<Rightarrow> d)"

definition rfc_step :: "rfc_op \<Rightarrow> rfc_store \<Rightarrow> rfc_store" where
  "rfc_step m d = (case rfc_do m d of Inr d' \<Rightarrow> d' | Inl _ \<Rightarrow> rfc_left m d)"

definition empty_rfcs :: rfc_store where
  "empty_rfcs = \<lparr>st_rfcs = [], st_quarantine = Map.empty, st_baseline = None, st_snapshots = Map.empty, st_observations = [], st_diagnostics = []\<rparr>"

definition run_rfcs :: "rfc_op list \<Rightarrow> rfc_store \<Rightarrow> rfc_store" where
  "run_rfcs ops d = fold rfc_step ops d"

end
