(* ===== verification/Rfc_View.thy ===== *)
theory Rfc_View
  imports Rfc_Reconcile
begin

text \<open>
  What the effective view of a workspace shows: every RFC once, its own usable document first, the
  shared record otherwise, and of the optional values the document's, else an earlier override's,
  else the shared record's. Observing one workspace changes nothing another one sees.
\<close>

section \<open>The store's invariant\<close>

definition rfc_store_ok :: "rfc_store \<Rightarrow> bool" where
  "rfc_store_ok d \<longleftrightarrow> distinct (map rr_text_id (st_rfcs d)) \<and> distinct (map (\<lambda>x. (obs_root x, obs_text_id x)) (st_observations d))
     \<and> (\<forall>w s. st_snapshots d w = Some s \<longrightarrow> snap_root s = w)"

lemma find_unique:
  assumes "distinct (map f xs)"
  shows "find (\<lambda>x. f x = k) xs = Some x \<longleftrightarrow> x \<in> set xs \<and> f x = k"
  using assms by (induction xs) (auto split: if_splits simp: image_iff)

lemma find_none: "find (\<lambda>x. f x = k) xs = None \<longleftrightarrow> k \<notin> f ` set xs"
  by (auto simp: find_None_iff)

lemma filter_unique:
  assumes "distinct (map f xs)"
  shows "filter (\<lambda>x. f x = k) xs = (case find (\<lambda>x. f x = k) xs of Some x \<Rightarrow> [x] | None \<Rightarrow> [])"
  using assms
proof (induction xs)
  case (Cons x xs)
  have "f x = k \<Longrightarrow> find (\<lambda>x. f x = k) xs = None" using Cons.prems by (simp only: find_none) auto
  then show ?case using Cons by auto
qed simp

lemma load_rfcs_simps [simp]: "set (load_rfcs d) = set (st_rfcs d)" "distinct (map rr_text_id (load_rfcs d)) = distinct (map rr_text_id (st_rfcs d))"
  by (simp_all add: load_rfcs_def distinct_map) 

lemma set_load_observations [simp]: "set (load_observations w d) = {x \<in> set (st_observations d). obs_root x = w}"
  by (auto simp: load_observations_def)

lemma load_observations_distinct: "rfc_store_ok d \<Longrightarrow> distinct (map obs_text_id (load_observations w d))"
  by (auto simp: rfc_store_ok_def load_observations_def distinct_map inj_on_def)

definition shared_rfc :: "rfc_store \<Rightarrow> string \<Rightarrow> rfc_record option" where
  "shared_rfc d t = rfc_with_id t (load_rfcs d)"

lemma shared_rfc_Some: "rfc_store_ok d \<Longrightarrow> shared_rfc d t = Some r \<longleftrightarrow> r \<in> set (st_rfcs d) \<and> rr_text_id r = t"
  by (simp add: shared_rfc_def rfc_with_id_def rfc_store_ok_def find_unique)

lemma shared_rfc_None: "shared_rfc d t = None \<longleftrightarrow> t \<notin> rr_text_id ` set (st_rfcs d)"
  by (simp add: shared_rfc_def rfc_with_id_def find_none)

section \<open>Entries of a view\<close>

definition entries_for :: "string \<Rightarrow> (rfc_record \<times> rfc_provenance) list \<Rightarrow> rfc_record list" where
  "entries_for t es = filter (\<lambda>r. rr_text_id r = t) (map fst es)"

lemma entries_for_append [simp]: "entries_for t (as @ bs) = entries_for t as @ entries_for t bs"
  by (simp add: entries_for_def)

lemma effective_record_id [simp]: "rr_text_id (effective_record_from_observation x c) = obs_text_id x"
  by (simp add: effective_record_from_observation_def)

lemma fst_entries [simp]:
  "fst (observed_entry s shared x) = effective_record_from_observation x (rfc_with_id (obs_text_id x) shared)"
  "fst (shared_entry s r) = r"
  by (simp_all add: observed_entry_def shared_entry_def Let_def)

lemma filter_sort_key_singleton: "length (filter P xs) \<le> 1 \<Longrightarrow> filter P (sort_key k xs) = filter P xs"
  by (simp add: filter_sort) (metis (no_types, lifting) One_nat_def le_Suc_eq length_0_conv le_zero_eq length_Suc_conv list.simps(8) sort_key_simps insort_key.simps(1))

lemma compose_entries:
  assumes ok: "rfc_store_ok d" and view: "compose_effective_rfc_view w d = Inr es"
  shows "entries_for t es = (case observation_with_id t (load_observations w d) of
      Some x \<Rightarrow> [effective_record_from_observation x (shared_rfc d t)]
    | None \<Rightarrow> (case shared_rfc d t of Some r \<Rightarrow> [r] | None \<Rightarrow> []))"
proof -
  let ?xs = "load_observations w d"
  obtain s where es: "es = sort_key (\<lambda>e. (rr_number (fst e), rr_path (fst e))) (map (observed_entry s (load_rfcs d)) ?xs
      @ map (shared_entry s) (filter (\<lambda>r. rr_text_id r \<notin> set (map obs_text_id ?xs)) (load_rfcs d)))" (is "_ = sort_key _ ?es")
    using view by (auto simp: compose_effective_rfc_view_def Let_def split: option.splits)
  have dx: "distinct (map obs_text_id ?xs)" by (rule load_observations_distinct [OF ok])
  have dr: "distinct (map rr_text_id (load_rfcs d))" using ok by (simp add: rfc_store_ok_def)
  have "filter (\<lambda>r. rr_text_id r = t) (map fst (map (observed_entry s (load_rfcs d)) ?xs))
      = (case observation_with_id t ?xs of Some x \<Rightarrow> [effective_record_from_observation x (shared_rfc d t)] | None \<Rightarrow> [])"
  proof (cases "observation_with_id t ?xs")
    case (Some x)
    then have "obs_text_id x = t" by (simp add: observation_with_id_def find_unique [OF dx])
    then show ?thesis
      using Some filter_unique [OF dx, of t] by (simp add: filter_map comp_def observation_with_id_def shared_rfc_def)
  qed (use filter_unique [OF dx, of t] in \<open>simp add: filter_map comp_def observation_with_id_def\<close>)
  moreover have "filter (\<lambda>r. rr_text_id r = t) (map fst (map (shared_entry s) (filter (\<lambda>r. rr_text_id r \<notin> set (map obs_text_id ?xs)) (load_rfcs d))))
      = (case observation_with_id t ?xs of Some x \<Rightarrow> [] | None \<Rightarrow> (case shared_rfc d t of Some r \<Rightarrow> [r] | None \<Rightarrow> []))"
  proof (cases "observation_with_id t ?xs")
    case None
    then have "t \<notin> obs_text_id ` set ?xs" by (simp only: observation_with_id_def find_none not_False_eq_True)
    then have "filter (\<lambda>r. rr_text_id r = t \<and> rr_text_id r \<notin> obs_text_id ` set ?xs) (load_rfcs d) = filter (\<lambda>r. rr_text_id r = t) (load_rfcs d)"
      by (metis (mono_tags, lifting) filter_cong)
    then show ?thesis
      using None filter_unique [OF dr, of t]
      by (simp add: filter_map comp_def shared_rfc_def rfc_with_id_def conj_commute split: option.splits)
  next
    case (Some x)
    then have "t \<in> obs_text_id ` set ?xs" by (auto simp: observation_with_id_def find_unique [OF dx])
    then show ?thesis using Some by (auto simp: filter_map comp_def filter_empty_conv)
  qed
  ultimately have all: "filter (\<lambda>r. rr_text_id r = t) (map fst ?es) = (case observation_with_id t ?xs of
      Some x \<Rightarrow> [effective_record_from_observation x (shared_rfc d t)]
    | None \<Rightarrow> (case shared_rfc d t of Some r \<Rightarrow> [r] | None \<Rightarrow> []))"
    by (simp split: option.splits)
  have "length (filter (\<lambda>r. rr_text_id r = t) (map fst ?es)) \<le> 1"
    unfolding all by (simp split: option.splits)
  then have "length (filter (\<lambda>e. rr_text_id (fst e) = t) ?es) \<le> 1"
    by (simp only: filter_map length_map comp_def)
  then have "filter (\<lambda>e. rr_text_id (fst e) = t) es = filter (\<lambda>e. rr_text_id (fst e) = t) ?es"
    unfolding es by (rule filter_sort_key_singleton)
  then show ?thesis
    using all by (simp add: entries_for_def filter_map comp_def)
qed


section \<open>Writes\<close>

lemma insert_observations_Inr:
  "insert_observations xs d = Inr d' \<Longrightarrow> rfc_store_ok d \<Longrightarrow>
   d' = d\<lparr>st_observations := st_observations d @ xs\<rparr> \<and> rfc_store_ok d'"
proof (induction xs arbitrary: d)
  case (Cons x xs)
  then have fits: "observation_fits d x" and rest: "insert_observations xs (d\<lparr>st_observations := st_observations d @ [x]\<rparr>) = Inr d'"
    by (auto split: if_splits)
  have "rfc_store_ok (d\<lparr>st_observations := st_observations d @ [x]\<rparr>)"
    using Cons.prems(2) fits by (auto simp: rfc_store_ok_def observation_fits_def list_all_iff)
  note IH = Cons.IH [OF rest this]
  have "d' = d\<lparr>st_observations := st_observations d @ x # xs\<rparr>" using conjunct1 [OF IH] by simp
  then show ?case using conjunct2 [OF IH] by blast
qed simp

lemma insert_diagnostics_Inr:
  "insert_diagnostics xs d = Inr d' \<Longrightarrow> d' = d\<lparr>st_diagnostics := st_diagnostics d @ xs\<rparr>"
proof (induction xs arbitrary: d)
  case (Cons x xs)
  then have "insert_diagnostics xs (d\<lparr>st_diagnostics := st_diagnostics d @ [x]\<rparr>) = Inr d'" by (simp split: if_splits)
  then show ?case by (drule_tac Cons.IH) simp
qed simp

lemma replace_snapshot_Inr:
  assumes "replace_rfc_workspace_snapshot s xs ds d = Inr d'" "rfc_store_ok d"
  shows "d' = d\<lparr>st_snapshots := (st_snapshots d)(snap_root s \<mapsto> s),
      st_diagnostics := filter (\<lambda>x. wd_root x \<noteq> snap_root s) (st_diagnostics d) @ ds,
      st_observations := filter (\<lambda>x. obs_root x \<noteq> snap_root s) (st_observations d) @ xs\<rparr> \<and> rfc_store_ok d'"
proof -
  let ?d = "d\<lparr>st_snapshots := (st_snapshots d)(snap_root s \<mapsto> s),
      st_diagnostics := filter (\<lambda>x. wd_root x \<noteq> snap_root s) (st_diagnostics d),
      st_observations := filter (\<lambda>x. obs_root x \<noteq> snap_root s) (st_observations d)\<rparr>"
  obtain d1 where d1: "insert_observations xs ?d = Inr d1" "insert_diagnostics ds d1 = Inr d'"
    using assms(1) by (auto simp: replace_rfc_workspace_snapshot_def and_then_Inr_conv split: if_splits)
  have "rfc_store_ok ?d" using assms(2) by (auto simp: rfc_store_ok_def distinct_map inj_on_def)
  note d1' = insert_observations_Inr [OF d1(1) this]
  have eq: "d' = d1\<lparr>st_diagnostics := st_diagnostics d1 @ ds\<rparr>" by (rule insert_diagnostics_Inr [OF d1(2)])
  have "rfc_store_ok d'" using conjunct2 [OF d1'] by (simp add: eq rfc_store_ok_def)
  then show ?thesis using conjunct1 [OF d1'] eq by simp
qed

definition written_by :: "string \<Rightarrow> rfc_observation list \<Rightarrow> bool" where
  "written_by w xs \<longleftrightarrow> list_all (\<lambda>x. obs_root x = w) xs"

lemma load_replaced:
  assumes "replace_rfc_workspace_snapshot s xs ds d = Inr d'" "rfc_store_ok d" "written_by (snap_root s) xs"
  shows "load_observations (snap_root s) d' = sort_key (\<lambda>x. (obs_number x, obs_path x)) xs"
    and "w \<noteq> snap_root s \<Longrightarrow> load_observations w d' = load_observations w d"
    and "load_rfcs d' = load_rfcs d"
    and "st_snapshots d' = (st_snapshots d)(snap_root s \<mapsto> s)"
    and "rfc_store_ok d'"
proof -
  have d': "d' = d\<lparr>st_snapshots := (st_snapshots d)(snap_root s \<mapsto> s),
      st_diagnostics := filter (\<lambda>x. wd_root x \<noteq> snap_root s) (st_diagnostics d) @ ds,
      st_observations := filter (\<lambda>x. obs_root x \<noteq> snap_root s) (st_observations d) @ xs\<rparr>" "rfc_store_ok d'"
    using replace_snapshot_Inr [OF assms(1,2)] by blast+
  have xs: "filter (\<lambda>x. obs_root x = snap_root s) xs = xs" "w \<noteq> snap_root s \<Longrightarrow> filter (\<lambda>x. obs_root x = w) xs = []" for w
    using assms(3) by (auto simp: written_by_def list_all_iff filter_id_conv filter_empty_conv)
  show "rfc_store_ok d'" by (rule d'(2))
  show "load_observations (snap_root s) d' = sort_key (\<lambda>x. (obs_number x, obs_path x)) xs"
    by (simp add: d'(1) load_observations_def xs filter_empty_conv)
  show "w \<noteq> snap_root s \<Longrightarrow> load_observations w d' = load_observations w d"
    by (simp add: d'(1) load_observations_def xs) (metis (mono_tags, lifting) filter_cong)
  show "load_rfcs d' = load_rfcs d" "st_snapshots d' = (st_snapshots d)(snap_root s \<mapsto> s)"
    by (simp_all add: d'(1) load_rfcs_def)
qed

section \<open>Observing documents\<close>

lemma preserve_overrides_simps [simp]:
  "obs_root (preserve_overrides y c x) = obs_root x" "obs_text_id (preserve_overrides y c x) = obs_text_id x"
  by (simp_all add: preserve_overrides_def split: option.splits)

lemma observed_root: "written_by w (observe_documents V w s docs d)"
  by (auto simp: written_by_def observe_documents_def Let_def list_all_iff workspace_observation_from_parsed_def)

lemma snap_root_new [simp]: "snap_root (new_snapshot V w source docs) = w"
  by (simp add: new_snapshot_def)

definition observed_afresh :: "observe_env \<Rightarrow> string \<Rightarrow> reconcile_source \<Rightarrow> (string \<times> string) list \<Rightarrow> rfc_store \<Rightarrow> bool" where
  "observed_afresh V w source docs d \<longleftrightarrow>
     (case st_snapshots d w of Some old \<Rightarrow> \<not> snapshot_current old (new_snapshot V w source docs) | None \<Rightarrow> True)"

lemma refresh_cases:
  assumes "refresh_workspace_rfc_snapshot V w source docs d = Inr d'"
  obtains "d' = d" "\<not> observed_afresh V w source docs d"
  | "observed_afresh V w source docs d"
    "replace_rfc_workspace_snapshot (new_snapshot V w source docs)
       (observe_documents V w (new_snapshot V w source docs) docs d) (diagnose_documents V w docs d) d = Inr d'"
  using assms by (auto simp: refresh_workspace_rfc_snapshot_def observed_afresh_def Let_def split: if_splits option.splits)

lemma refresh_effect:
  assumes "refresh_workspace_rfc_snapshot V w source docs d = Inr d'" "rfc_store_ok d"
  shows "rfc_store_ok d'" "load_rfcs d' = load_rfcs d" "v \<noteq> w \<Longrightarrow> load_observations v d' = load_observations v d"
    "v \<noteq> w \<Longrightarrow> st_snapshots d' v = st_snapshots d v" "st_snapshots d' w \<noteq> None"
proof -
  show "rfc_store_ok d'" "load_rfcs d' = load_rfcs d"
    using assms(1) by (rule refresh_cases; simp add: assms(2) load_replaced [OF _ assms(2)] observed_root)+
  show "v \<noteq> w \<Longrightarrow> load_observations v d' = load_observations v d" "v \<noteq> w \<Longrightarrow> st_snapshots d' v = st_snapshots d v"
    using assms(1) by (rule refresh_cases; simp add: load_replaced [OF _ assms(2)] observed_root)+
  show "st_snapshots d' w \<noteq> None"
    using assms(1) by (rule refresh_cases) (auto simp: observed_afresh_def load_replaced [OF _ assms(2)] observed_root split: option.splits)
qed

section \<open>The layers of a view\<close>

text \<open>The specification: identity, title, stage, status and place come from the document; an optional value
  is the document's if it declares one, else the one a command set earlier, else the shared one.\<close>

definition layered :: "declared_value \<Rightarrow> declared_value option \<Rightarrow> string option \<Rightarrow> string option" where
  "layered doc old canonical =
     (if dv_declared doc then dv_value doc
      else case old of Some v \<Rightarrow> if dv_declared v then dv_value v else canonical | None \<Rightarrow> canonical)"

definition layered_record :: "rfc_document \<Rightarrow> rfc_observation option \<Rightarrow> rfc_record option \<Rightarrow> rfc_record" where
  "layered_record p old c =
     \<lparr>rr_text_id = doc_text_id p, rr_number = doc_number p, rr_title = doc_title p, rr_stage = doc_stage p, rr_status = doc_status p,
      rr_feature = layered (doc_feature p) (map_option obs_feature old) (Option.bind c rr_feature),
      rr_slug = doc_slug p, rr_path = doc_path p,
      rr_superseded_by = layered (doc_superseded_by p) (map_option obs_superseded_by old) (Option.bind c rr_superseded_by),
      rr_supersedes = layered (doc_supersedes p) (map_option obs_supersedes old) (Option.bind c rr_supersedes),
      rr_withdrawal_reason = layered (doc_withdrawal_reason p) (map_option obs_withdrawal_reason old) (Option.bind c rr_withdrawal_reason),
      rr_archived_reason = layered (doc_archived_reason p) (map_option obs_archived_reason old) (Option.bind c rr_archived_reason),
      rr_consolidated_into = layered (doc_consolidated_into p) (map_option obs_consolidated_into old) (Option.bind c rr_consolidated_into)\<rparr>"

lemma composed_preserved:
  "layered (preserve_workspace_optional_override v u c) None c = layered v (Some u) c"
  by (auto simp: preserve_workspace_optional_override_def layered_def declares_def)

lemma composed_observed: "composed_optional_value v c = layered v None c"
  by (simp add: composed_optional_value_def layered_def)

lemma effective_layered:
  "effective_record_from_observation (preserve_overrides old c (workspace_observation_from_parsed V w p)) c = layered_record p old c"
  by (cases old) (simp_all add: effective_record_from_observation_def preserve_overrides_def workspace_observation_from_parsed_def
      layered_record_def composed_preserved composed_observed)

definition documents_for :: "observe_env \<Rightarrow> string \<Rightarrow> string \<Rightarrow> (string \<times> string) list \<Rightarrow> rfc_store \<Rightarrow> rfc_document list" where
  "documents_for V w t docs d = filter (\<lambda>p. doc_text_id p = t) (map fst (usable_documents V w (load_rfcs d) docs))"

lemma observed_set:
  "set (observe_documents V w s docs d) =
     {preserve_overrides (observation_with_id t (previous_observations w s d)) (shared_rfc d t) (workspace_observation_from_parsed V w p) | t p.
        documents_for V w t docs d = [p]}"
  (is "?L = ?R")
proof -
  let ?U = "usable_documents V w (load_rfcs d) docs"
  have unique: "documents_for V w (doc_text_id p) docs d = [p]" if "(p, s') \<in> set ?U" "anchor_unique (map fst ?U) p" for p s'
  proof -
    note prem = that
    have "length (documents_for V w (doc_text_id p) docs d) = 1"
      using prem(2) by (simp add: anchor_unique_def documents_for_def)
    then obtain q where q: "documents_for V w (doc_text_id p) docs d = [q]" by (auto simp: length_Suc_conv)
    have "p \<in> set (documents_for V w (doc_text_id p) docs d)" using prem(1) by (force simp: documents_for_def)
    then show ?thesis using q by simp
  qed
  have "?L \<subseteq> ?R"
    using unique by (fastforce simp: observe_documents_def Let_def shared_rfc_def)
  moreover have "?R \<subseteq> ?L"
  proof
    fix x assume "x \<in> ?R"
    then obtain t p where p: "documents_for V w t docs d = [p]"
      "x = preserve_overrides (observation_with_id t (previous_observations w s d)) (shared_rfc d t) (workspace_observation_from_parsed V w p)" by blast
    then have "p \<in> set (documents_for V w t docs d)" by simp
    then obtain s' where s': "(p, s') \<in> set ?U" and t: "doc_text_id p = t" by (auto simp: documents_for_def)
    have "anchor_unique (map fst ?U) p" using p(1) t by (simp add: anchor_unique_def documents_for_def)
    then show "x \<in> ?L" using s' p(2) t by (force simp: observe_documents_def Let_def shared_rfc_def)
  qed
  ultimately show ?thesis by blast
qed

lemma document_for_id: "documents_for V w t docs d = [p] \<Longrightarrow> doc_text_id p = t"
proof -
  assume "documents_for V w t docs d = [p]"
  then have "p \<in> set (documents_for V w t docs d)" by simp
  then show ?thesis by (auto simp: documents_for_def)
qed

lemma fresh_observation:
  assumes ok: "rfc_store_ok d" and "refresh_workspace_rfc_snapshot V w source docs d = Inr d'" and fresh: "observed_afresh V w source docs d"
  shows "observation_with_id t (load_observations w d') = (case documents_for V w t docs d of
      [p] \<Rightarrow> Some (preserve_overrides (observation_with_id t (previous_observations w (new_snapshot V w source docs) d)) (shared_rfc d t)
               (workspace_observation_from_parsed V w p))
    | _ \<Rightarrow> None)"
proof -
  let ?s = "new_snapshot V w source docs"
  have r: "replace_rfc_workspace_snapshot ?s (observe_documents V w ?s docs d) (diagnose_documents V w docs d) d = Inr d'"
    using assms(2) fresh by (auto elim: refresh_cases)
  have load: "set (load_observations w d') = set (observe_documents V w ?s docs d)"
    using load_replaced(1) [OF r ok] observed_root by (metis set_sort snap_root_new)
  have ok': "rfc_store_ok d'" by (rule refresh_effect(1) [OF assms(2) ok])
  note found = find_unique [OF load_observations_distinct [OF ok'], folded observation_with_id_def, of t w]
  show ?thesis
  proof (cases "\<exists>p. documents_for V w t docs d = [p]")
    case True
    then obtain p where p: "documents_for V w t docs d = [p]" by blast
    have "preserve_overrides (observation_with_id t (previous_observations w ?s d)) (shared_rfc d t) (workspace_observation_from_parsed V w p)
        \<in> set (load_observations w d')" using p by (auto simp: load observed_set simp del: set_load_observations)
    then show ?thesis
      using p document_for_id [OF p] by (simp add: found) (simp add: workspace_observation_from_parsed_def)
  next
    case False
    have "observation_with_id t (load_observations w d') = None"
      using False document_for_id
      by (auto simp: observation_with_id_def find_none load observed_set workspace_observation_from_parsed_def simp del: set_load_observations)
    then show ?thesis using False by (auto split: list.splits)
  qed
qed

end
