(* ===== verification/Rfc_Shared.thy ===== *)
theory Rfc_Shared
  imports Rfc_View
begin

text \<open>
  Reconciling the shared records with the canonical tree: what every statement, and the whole, does
  to the record under an id, that the store's invariant holds of every store the operations reach,
  and that reconciling twice with the same tree is reconciling once.
\<close>

section \<open>Rows by id\<close>

lemma option_iffI: "(\<And>x. a = Some x \<longleftrightarrow> b = Some x) \<Longrightarrow> a = b"
  by (cases a; cases b) auto

lemma shared_put:
  assumes "rfc_store_ok d" "rfc_store_ok d'" "set (st_rfcs d') = insert r {x \<in> set (st_rfcs d). rr_text_id x \<noteq> rr_text_id r}"
  shows "shared_rfc d' t = (if t = rr_text_id r then Some r else shared_rfc d t)"
  by (rule option_iffI) (auto simp: shared_rfc_Some assms)

lemma shared_drop:
  assumes "rfc_store_ok d" "rfc_store_ok d'" "set (st_rfcs d') = {x \<in> set (st_rfcs d). rr_text_id x \<noteq> u}"
  shows "shared_rfc d' t = (if t = u then None else shared_rfc d t)"
  by (rule option_iffI) (auto simp: shared_rfc_Some assms)

definition only_rfcs :: "rfc_store \<Rightarrow> rfc_store \<Rightarrow> bool" where
  "only_rfcs d d' \<longleftrightarrow> st_quarantine d' = st_quarantine d \<and> st_baseline d' = st_baseline d
     \<and> st_snapshots d' = st_snapshots d \<and> st_observations d' = st_observations d \<and> st_diagnostics d' = st_diagnostics d"

lemma upsert_row:
  assumes "upsert_rfc_on r d = Inr d'" "rfc_store_ok d"
  shows "rfc_store_ok d'" "shared_rfc d' t = (if t = rr_text_id r then Some r else shared_rfc d t)" "only_rfcs d d'"
proof -
  have "rfc_store_ok d' \<and> set (st_rfcs d') = insert r {x \<in> set (st_rfcs d). rr_text_id x \<noteq> rr_text_id r} \<and> only_rfcs d d'"
  proof (cases "rfc_with_id (rr_text_id r) (st_rfcs d)")
    case None
    then have "rr_text_id r \<notin> rr_text_id ` set (st_rfcs d)" by (simp add: rfc_with_id_def find_none)
    then have "{x \<in> set (st_rfcs d). rr_text_id x \<noteq> rr_text_id r} = set (st_rfcs d)" "rr_text_id r \<notin> set (map rr_text_id (st_rfcs d))"
      by (auto intro: imageI) (metis imageI)
    then show ?thesis
      using assms None by (auto simp: upsert_rfc_on_def rfc_store_ok_def only_rfcs_def split: if_splits)
  next
    case (Some x)
    then have x: "x \<in> set (st_rfcs d)" "rr_text_id x = rr_text_id r" by (auto simp: rfc_with_id_def dest: find_SomeD)
    have ids: "map rr_text_id (map (\<lambda>x. if rr_text_id x = rr_text_id r then r else x) rs) = map rr_text_id rs" for rs
      by (induction rs) auto
    show ?thesis
      using assms Some x ids by (auto simp: upsert_rfc_on_def rfc_store_ok_def only_rfcs_def simp del: map_map split: if_splits)
  qed
  then show "rfc_store_ok d'" "shared_rfc d' t = (if t = rr_text_id r then Some r else shared_rfc d t)" "only_rfcs d d'"
    using shared_put [OF assms(2)] by blast+
qed

lemma upsert_rows:
  assumes "upsert_rfcs rs d = Inr d'" "rfc_store_ok d" "distinct (map rr_text_id rs)"
  shows "rfc_store_ok d' \<and> only_rfcs d d' \<and> shared_rfc d' t = (case rfc_with_id t rs of Some r \<Rightarrow> Some r | None \<Rightarrow> shared_rfc d t)"
  using assms
proof (induction rs arbitrary: d)
  case Nil
  then show ?case by (simp add: only_rfcs_def rfc_with_id_def)
next
  case (Cons r rs)
  then obtain d1 where d1: "upsert_rfc_on r d = Inr d1" "upsert_rfcs rs d1 = Inr d'" by (auto simp: and_then_Inr_conv)
  note u = upsert_row [OF d1(1) Cons.prems(2)]
  have IH: "rfc_store_ok d' \<and> only_rfcs d1 d' \<and> shared_rfc d' t = (case rfc_with_id t rs of Some r \<Rightarrow> Some r | None \<Rightarrow> shared_rfc d1 t)"
    using Cons.IH [OF d1(2) u(1)] Cons.prems(3) by simp
  have "only_rfcs d d'" using u(3) IH by (simp add: only_rfcs_def)
  moreover have "rfc_with_id t rs = None" if "t = rr_text_id r"
    using Cons.prems(3) that by (simp add: rfc_with_id_def find_none)
  ultimately show ?case using IH u(2) by (cases "t = rr_text_id r") (auto simp: rfc_with_id_def split: option.splits)
qed

lemma quarantine_row:
  assumes "rfc_store_ok d"
  shows "rfc_store_ok (quarantine_rfc reason r d)"
    "shared_rfc (quarantine_rfc reason r d) t = (if t = rr_text_id r then None else shared_rfc d t)"
    "st_quarantine (quarantine_rfc reason r d) = (st_quarantine d)(rr_text_id r \<mapsto> (r, reason))"
    "st_baseline (quarantine_rfc reason r d) = st_baseline d"
proof -
  show ok: "rfc_store_ok (quarantine_rfc reason r d)"
    using assms by (auto simp: rfc_store_ok_def quarantine_rfc_def delete_rfc_row_def distinct_map inj_on_def)
  show "shared_rfc (quarantine_rfc reason r d) t = (if t = rr_text_id r then None else shared_rfc d t)"
    by (rule shared_drop [OF assms ok]) (auto simp: quarantine_rfc_def delete_rfc_row_def)
qed (simp_all add: quarantine_rfc_def delete_rfc_row_def)

lemma quarantine_rows:
  assumes "rfc_store_ok d" "distinct (map rr_text_id rs)"
  shows "rfc_store_ok (fold (quarantine_rfc reason) rs d)
    \<and> shared_rfc (fold (quarantine_rfc reason) rs d) t = (if rfc_with_id t rs \<noteq> None then None else shared_rfc d t)
    \<and> st_quarantine (fold (quarantine_rfc reason) rs d) t = (case rfc_with_id t rs of Some r \<Rightarrow> Some (r, reason) | None \<Rightarrow> st_quarantine d t)
    \<and> st_baseline (fold (quarantine_rfc reason) rs d) = st_baseline d"
  using assms
proof (induction rs arbitrary: d)
  case (Cons r rs)
  then have "rfc_with_id (rr_text_id r) rs = None" by (simp add: rfc_with_id_def find_none)
  then show ?case
    using Cons.IH [OF quarantine_row(1) [OF Cons.prems(1)]] Cons.prems by (auto simp: rfc_with_id_def quarantine_row split: option.splits)
qed (simp add: rfc_with_id_def)

lemma set_rfc_store_fields:
  "shared_rfc (d\<lparr>st_quarantine := q\<rparr>) t = shared_rfc d t" "shared_rfc (d\<lparr>st_baseline := b\<rparr>) t = shared_rfc d t"
  "rfc_store_ok (d\<lparr>st_quarantine := q\<rparr>) = rfc_store_ok d" "rfc_store_ok (d\<lparr>st_baseline := b\<rparr>) = rfc_store_ok d"
  by (simp_all add: shared_rfc_def load_rfcs_def rfc_store_ok_def)

lemma writer_reconciles:
  assumes "writer_reconcile_canonical changed quarantined relinked canonical establish d = Inr d'"
    "rfc_store_ok d" "distinct (map rr_text_id changed)" "distinct (map rr_text_id quarantined)"
  shows "rfc_store_ok d'" "establish \<or> st_baseline d \<noteq> None \<Longrightarrow> st_baseline d' \<noteq> None"
    "shared_rfc d' t = (if rfc_with_id t quarantined \<noteq> None then None
       else case rfc_with_id t changed of Some r \<Rightarrow> Some r | None \<Rightarrow> shared_rfc d t)"
    "rfc_with_id t quarantined = Some r \<Longrightarrow> map_option fst (st_quarantine d' t) = Some r"
    "t \<in> set relinked \<Longrightarrow> rfc_with_id t quarantined = None \<Longrightarrow> st_quarantine d' t = None"
proof -
  let ?reason = "if establish then ''missing_from_initial_canonical_tree'' else ''missing_from_canonical_history''"
  obtain d1 where d1: "upsert_rfcs changed d = Inr d1"
    using assms(1) by (auto simp: writer_reconcile_canonical_def and_then_Inr_conv)
  note u = upsert_rows [OF d1 assms(2,3), of t]
  let ?d1 = "d1\<lparr>st_quarantine := st_quarantine d1 |` (- set relinked)\<rparr>"
  define d2 where "d2 = fold (quarantine_rfc ?reason) quarantined ?d1"
  have q: "rfc_store_ok d2" "shared_rfc d2 t = (if rfc_with_id t quarantined \<noteq> None then None else shared_rfc d1 t)"
      "st_quarantine d2 t = (case rfc_with_id t quarantined of Some r \<Rightarrow> Some (r, ?reason) | None \<Rightarrow> (st_quarantine d1 |` (- set relinked)) t)"
      "st_baseline d2 = st_baseline d"
  proof -
    have "rfc_store_ok ?d1" using u by (simp add: set_rfc_store_fields)
    note Q = quarantine_rows [OF this assms(4), of ?reason t, folded d2_def]
    have f: "shared_rfc ?d1 t = shared_rfc d1 t" "st_quarantine ?d1 = st_quarantine d1 |` (- set relinked)" "st_baseline ?d1 = st_baseline d"
      using u by (simp_all add: set_rfc_store_fields only_rfcs_def)
    show "rfc_store_ok d2" using Q by blast
    show "shared_rfc d2 t = (if rfc_with_id t quarantined \<noteq> None then None else shared_rfc d1 t)" using Q unfolding f by blast
    show "st_quarantine d2 t = (case rfc_with_id t quarantined of Some r \<Rightarrow> Some (r, ?reason) | None \<Rightarrow> (st_quarantine d1 |` (- set relinked)) t)"
      using Q unfolding f by blast
    show "st_baseline d2 = st_baseline d" using Q unfolding f by blast
  qed
  have d': "d' = (if establish then d2\<lparr>st_baseline := Some canonical\<rparr> else d2)"
    using assms(1) d1 by (auto simp: writer_reconcile_canonical_def Let_def d2_def split: if_splits)
  show "rfc_store_ok d'" "establish \<or> st_baseline d \<noteq> None \<Longrightarrow> st_baseline d' \<noteq> None"
    using q(1,4) by (auto simp: d' set_rfc_store_fields)
  have same: "shared_rfc d' t = shared_rfc d2 t" "st_quarantine d' t = st_quarantine d2 t" by (auto simp: d' set_rfc_store_fields)
  show "shared_rfc d' t = (if rfc_with_id t quarantined \<noteq> None then None
      else case rfc_with_id t changed of Some r \<Rightarrow> Some r | None \<Rightarrow> shared_rfc d t)"
    using q(2) u by (simp add: same)
  show "rfc_with_id t quarantined = Some r \<Longrightarrow> map_option fst (st_quarantine d' t) = Some r"
    and "t \<in> set relinked \<Longrightarrow> rfc_with_id t quarantined = None \<Longrightarrow> st_quarantine d' t = None"
    using q(3) by (simp_all add: same restrict_map_def)
qed

section \<open>Reading documents again\<close>

lemma resolved_again:
  "rr_stage r = resolved_stage path status metadata marker e \<Longrightarrow>
   resolved_stage path status metadata marker (Some r) = resolved_stage path status metadata marker e"
  by (auto simp: resolved_stage_def split: option.splits)

lemma document_of_again:
  "rr_stage r = doc_stage (document_of W path f s e n t m) \<Longrightarrow> document_of W path f s (Some r) n t m = document_of W path f s e n t m"
  by (simp add: document_of_def Let_def resolved_again)

lemma document_usable_of: "document_usable (document_of W path f s e n t m) = document_usable (document_of W path f s e' n t m)"
  by (simp add: document_usable_def document_of_def Let_def)

lemma parse_cases:
  obtains (refused) m where "\<And>e. parse_rfc_document W path s e = Inl m"
  | (parsed) f n t m where "\<And>e. parse_rfc_document W path s e = Inr (document_of W path f s e n t m)" "extract_anchor_ulid s = Some t"
proof -
  have step: "(\<exists>m. \<forall>e. parse_rfc_document W path s e = Inl m)
      \<or> (\<exists>f n t m. (\<forall>e. parse_rfc_document W path s e = Inr (document_of W path f s e n t m)) \<and> extract_anchor_ulid s = Some t)"
  proof (cases "file_name path")
    case None
    then show ?thesis by (simp only: parse_rfc_document_def or_error_def option.case and_then_simps) blast
  next
    case (Some f)
    note f = this
    show ?thesis
    proof (cases "has_anchor s \<and> parse_rfc_number f \<noteq> None \<and> extract_anchor_ulid s \<noteq> None \<and> extract_anchor_rfc_number s \<noteq> None")
      case True
      then obtain n t m where "has_anchor s" "parse_rfc_number f = Some n" "extract_anchor_ulid s = Some t" "extract_anchor_rfc_number s = Some m" by blast
      then have "parse_rfc_document W path s e = Inr (document_of W path f s e n t m)" for e
        using f by (simp only: parse_rfc_document_def or_error_def option.case and_then_simps not_True_eq_False if_False)
      then show ?thesis using \<open>extract_anchor_ulid s = Some t\<close> by blast
    next
      case False
      then consider "\<not> has_anchor s" | "has_anchor s" "parse_rfc_number f = None"
        | n where "has_anchor s" "parse_rfc_number f = Some n" "extract_anchor_ulid s = None"
        | n t where "has_anchor s" "parse_rfc_number f = Some n" "extract_anchor_ulid s = Some t" "extract_anchor_rfc_number s = None"
        by blast
      then have "\<exists>m. \<forall>e. parse_rfc_document W path s e = Inl m"
        using f by cases (simp_all only: parse_rfc_document_def or_error_def option.case and_then_simps not_False_eq_True not_True_eq_False if_True if_False, blast+)
      then show ?thesis ..
    qed
  qed
  then show ?thesis using that by blast
qed

lemma document_of_id [simp]: "doc_text_id (document_of W path f s e n t m) = t"
  by (simp add: document_of_def Let_def)

lemma read_blob_id: "read_blob W ex b = Some p \<Longrightarrow> extract_anchor_ulid (snd b) = Some (doc_text_id p)"
  by (rule parse_cases [of W "fst b" "snd b"]) (auto simp: read_blob_def split: if_splits)

lemma read_blob_none: "read_blob W ex b = None \<Longrightarrow> read_blob W ex' b = None"
proof (rule parse_cases [of W "fst b" "snd b"])
  fix f n t m
  assume none: "read_blob W ex b = None" and p: "\<And>e. parse_rfc_document W (fst b) (snd b) e = Inr (document_of W (fst b) f (snd b) e n t m)"
  have "document_usable (document_of W (fst b) f (snd b) (Option.bind (extract_anchor_ulid (snd b)) (\<lambda>t. rfc_with_id t ex')) n t m)
      = document_usable (document_of W (fst b) f (snd b) (Option.bind (extract_anchor_ulid (snd b)) (\<lambda>t. rfc_with_id t ex)) n t m)"
    by (rule document_usable_of)
  then show ?thesis using none by (simp add: read_blob_def p split: if_splits)
qed (simp add: read_blob_def)

lemma read_blob_again:
  assumes "read_blob W ex b = Some p"
    "rfc_with_id (doc_text_id p) ex' = rfc_with_id (doc_text_id p) ex
     \<or> (\<exists>r. rfc_with_id (doc_text_id p) ex' = Some r \<and> rr_stage r = doc_stage p)"
  shows "read_blob W ex' b = Some p"
proof (rule parse_cases [of W "fst b" "snd b"])
  fix f n t m
  assume p: "\<And>e. parse_rfc_document W (fst b) (snd b) e = Inr (document_of W (fst b) f (snd b) e n t m)" "extract_anchor_ulid (snd b) = Some t"
  have "p = document_of W (fst b) f (snd b) (rfc_with_id t ex) n t m" "document_usable p"
    using assms(1) by (auto simp: read_blob_def p split: if_splits)
  moreover have "document_of W (fst b) f (snd b) (rfc_with_id t ex') n t m = document_of W (fst b) f (snd b) (rfc_with_id t ex) n t m"
    using assms(2) document_of_again [of _ W "fst b" f "snd b" "rfc_with_id t ex" n t m] calculation(1) by auto
  ultimately show ?thesis by (simp add: read_blob_def p)
qed (use assms(1) in \<open>auto simp: read_blob_def\<close>)

lemma compatibility_again [simp]: "compatibility_value v (compatibility_value v e) = compatibility_value v e"
  by (simp add: compatibility_value_def)

lemma canonical_again: "canonical_rfc_record p (Some (canonical_rfc_record p e)) = canonical_rfc_record p e"
  by (simp add: canonical_rfc_record_def)

lemma canonical_record_simps [simp]: "rr_text_id (canonical_rfc_record p e) = doc_text_id p" "rr_stage (canonical_rfc_record p e) = doc_stage p"
  by (simp_all add: canonical_rfc_record_def)

section \<open>Documents with an anchor of their own\<close>

lemma distinct_by_count: "(\<And>k. length (filter (\<lambda>x. f x = k) xs) \<le> 1) \<Longrightarrow> distinct (map f xs)"
proof (induction xs)
  case (Cons x xs)
  have few: "length (filter (\<lambda>y. f y = k) xs) \<le> 1" for k
    using Cons.prems [of k] by (simp split: if_splits)
  have "filter (\<lambda>y. f y = f x) xs = []"
    using Cons.prems [of "f x"] by simp
  then show ?case using Cons.IH [OF few] by (auto simp: filter_empty_conv)
qed simp

definition tree_documents :: "(string \<Rightarrow> bool) \<Rightarrow> (string \<times> string) list \<Rightarrow> rfc_store \<Rightarrow> rfc_document list" where
  "tree_documents W blobs d = List.map_filter (read_blob W (load_rfcs d)) blobs"

definition tree_usable :: "(string \<Rightarrow> bool) \<Rightarrow> (string \<times> string) list \<Rightarrow> rfc_store \<Rightarrow> rfc_document list" where
  "tree_usable W blobs d = filter (anchor_unique (tree_documents W blobs d)) (tree_documents W blobs d)"

definition tree_anchors :: "(string \<times> string) list \<Rightarrow> string set" where
  "tree_anchors blobs = set (List.map_filter (\<lambda>b. extract_anchor_ulid (snd b)) blobs)"

lemma tree_documents_Some: "p \<in> set (tree_documents W blobs d) \<longleftrightarrow> (\<exists>b \<in> set blobs. read_blob W (load_rfcs d) b = Some p)"
  by (force simp: tree_documents_def map_filter_def)

lemma tree_anchor: "p \<in> set (tree_documents W blobs d) \<Longrightarrow> doc_text_id p \<in> tree_anchors blobs"
  by (auto simp: tree_documents_Some tree_anchors_def map_filter_def dest!: read_blob_id intro!: image_eqI)

lemma tree_usable_id:
  "filter (\<lambda>p. doc_text_id p = t) (tree_usable W blobs d)
     = (case filter (\<lambda>p. doc_text_id p = t) (tree_documents W blobs d) of [p] \<Rightarrow> [p] | _ \<Rightarrow> [])"
proof -
  let ?ps = "tree_documents W blobs d"
  have "filter (\<lambda>p. doc_text_id p = t) (tree_usable W blobs d)
      = filter (\<lambda>p. length (filter (\<lambda>q. doc_text_id q = t) ?ps) = 1) (filter (\<lambda>p. doc_text_id p = t) ?ps)"
    unfolding tree_usable_def anchor_unique_def by (simp add: conj_commute cong: conj_cong)
  then show ?thesis by (simp split: list.splits)
qed

lemma tree_usable_distinct: "distinct (map doc_text_id (tree_usable W blobs d))"
  by (rule distinct_by_count) (simp add: tree_usable_id split: list.splits)

section \<open>What is written\<close>

definition tree_records :: "(string \<Rightarrow> bool) \<Rightarrow> (string \<times> string) list \<Rightarrow> rfc_store \<Rightarrow> (rfc_record option \<times> rfc_record) list" where
  "tree_records W blobs d =
     map (\<lambda>p. (shared_rfc d (doc_text_id p), canonical_rfc_record p (shared_rfc d (doc_text_id p)))) (tree_usable W blobs d)"

definition changed_records :: "(string \<Rightarrow> bool) \<Rightarrow> (string \<times> string) list \<Rightarrow> rfc_store \<Rightarrow> rfc_record list" where
  "changed_records W blobs d = map snd (filter (\<lambda>(old, r). old \<noteq> Some r) (tree_records W blobs d))"

definition unrooted_records :: "(string \<Rightarrow> bool) \<Rightarrow> (string \<times> string) list \<Rightarrow> rfc_store \<Rightarrow> rfc_record list" where
  "unrooted_records history blobs d =
     filter (\<lambda>r. rr_text_id r \<notin> tree_anchors blobs \<and> (st_baseline d = None \<or> \<not> history (rr_text_id r))) (load_rfcs d)"

lemma reconcile_writes:
  "reconcile_canonical_rfcs W history blobs canonical d =
     map_sum id (\<lambda>d'. (d', \<lparr>inserted = length (filter (\<lambda>(old, _). old = None) (tree_records W blobs d)),
        updated = length (filter (\<lambda>(old, r). old \<noteq> None \<and> old \<noteq> Some r) (tree_records W blobs d)),
        deleted = length (unrooted_records history blobs d),
        unchanged = length blobs - length (changed_records W blobs d)\<rparr>))
     (writer_reconcile_canonical (changed_records W blobs d) (unrooted_records history blobs d)
        (bset_of (map doc_text_id (tree_usable W blobs d))) canonical (st_baseline d = None) d)"
  by (simp only: reconcile_canonical_rfcs_def Let_def tree_documents_def [symmetric] tree_usable_def [symmetric]
      shared_rfc_def [symmetric] tree_records_def [symmetric] changed_records_def [symmetric] tree_anchors_def [symmetric]
      unrooted_records_def [symmetric])

lemma changed_ids: "distinct (map rr_text_id (changed_records W blobs d))"
proof -
  have "map rr_text_id (map snd (tree_records W blobs d)) = map doc_text_id (tree_usable W blobs d)"
    by (simp add: tree_records_def comp_def)
  then have "distinct (map (rr_text_id \<circ> snd) (tree_records W blobs d))" using tree_usable_distinct by (simp only: map_map)
  then have "distinct (map (rr_text_id \<circ> snd) (filter (\<lambda>(old, r). old \<noteq> Some r) (tree_records W blobs d)))"
    by (rule distinct_map_filter)
  then show ?thesis by (simp only: changed_records_def map_map)
qed

lemma unrooted_ids: "rfc_store_ok d \<Longrightarrow> distinct (map rr_text_id (unrooted_records history blobs d))"
  unfolding unrooted_records_def by (rule distinct_map_filter) (simp add: rfc_store_ok_def)

lemma changed_Some:
  "rfc_with_id t (changed_records W blobs d) = Some r \<longleftrightarrow>
   (\<exists>p \<in> set (tree_usable W blobs d). doc_text_id p = t \<and> r = canonical_rfc_record p (shared_rfc d t) \<and> shared_rfc d t \<noteq> Some r)"
  unfolding rfc_with_id_def find_unique [OF changed_ids] by (force simp: changed_records_def tree_records_def)

lemma unrooted_Some:
  "rfc_store_ok d \<Longrightarrow> rfc_with_id t (unrooted_records history blobs d) = Some r \<longleftrightarrow>
   shared_rfc d t = Some r \<and> t \<notin> tree_anchors blobs \<and> (st_baseline d = None \<or> \<not> history t)"
  unfolding rfc_with_id_def by (simp add: find_unique unrooted_ids shared_rfc_Some) (auto simp: unrooted_records_def)

text \<open>The record under an id, as the canonical tree decides it.\<close>

definition decided_record ::
  "(string \<Rightarrow> bool) \<Rightarrow> (string \<Rightarrow> bool) \<Rightarrow> (string \<times> string) list \<Rightarrow> rfc_store \<Rightarrow> string \<Rightarrow> rfc_record option" where
  "decided_record W history blobs d t =
     (case filter (\<lambda>p. doc_text_id p = t) (tree_documents W blobs d) of
        [p] \<Rightarrow> Some (canonical_rfc_record p (shared_rfc d t))
      | _ \<Rightarrow> if t \<in> tree_anchors blobs \<or> (st_baseline d \<noteq> None \<and> history t) then shared_rfc d t else None)"

lemma usable_cases:
  obtains (one) p where "filter (\<lambda>p. doc_text_id p = t) (tree_documents W blobs d) = [p]" "p \<in> set (tree_usable W blobs d)"
    "doc_text_id p = t" "\<And>q. q \<in> set (tree_usable W blobs d) \<Longrightarrow> doc_text_id q = t \<Longrightarrow> q = p" "t \<in> tree_anchors blobs"
  | (other) "\<And>p. filter (\<lambda>p. doc_text_id p = t) (tree_documents W blobs d) \<noteq> [p]"
    "\<And>q. q \<in> set (tree_usable W blobs d) \<Longrightarrow> doc_text_id q \<noteq> t"
proof (cases "\<exists>p. filter (\<lambda>p. doc_text_id p = t) (tree_documents W blobs d) = [p]")
  case True
  then obtain p where p: "filter (\<lambda>p. doc_text_id p = t) (tree_documents W blobs d) = [p]" by blast
  then have f: "filter (\<lambda>p. doc_text_id p = t) (tree_usable W blobs d) = [p]" by (simp add: tree_usable_id)
  have all: "{q \<in> set (tree_usable W blobs d). doc_text_id q = t} = {p}"
    using arg_cong [OF f, of set] by simp
  have "set (filter (\<lambda>p. doc_text_id p = t) (tree_documents W blobs d)) = {p}" by (simp only: p set_simps)
  then have "p \<in> set (tree_documents W blobs d)" "doc_text_id p = t" by auto
  then show ?thesis using one [OF p] all tree_anchor [of p W blobs d] by blast
next
  case False
  then have f: "filter (\<lambda>p. doc_text_id p = t) (tree_usable W blobs d) = []" by (auto simp: tree_usable_id split: list.splits)
  show ?thesis using other False f by (auto simp: filter_empty_conv)
qed

lemma not_singleton: "(\<And>p. xs \<noteq> [p]) \<Longrightarrow> (case xs of [p] \<Rightarrow> f p | _ \<Rightarrow> y) = y"
  by (cases xs rule: remdups_adj.cases) auto

lemma reconcile_effect:
  assumes "reconcile_canonical_rfcs W history blobs canonical d = Inr (d', res)" and ok: "rfc_store_ok d"
  shows "rfc_store_ok d'" "st_baseline d' \<noteq> None" "shared_rfc d' t = decided_record W history blobs d t"
    "shared_rfc d t = Some r \<Longrightarrow> shared_rfc d' t = None \<Longrightarrow> map_option fst (st_quarantine d' t) = Some r"
    "t \<in> doc_text_id ` set (tree_usable W blobs d) \<Longrightarrow> st_quarantine d' t = None"
proof -
  have w: "writer_reconcile_canonical (changed_records W blobs d) (unrooted_records history blobs d)
      (bset_of (map doc_text_id (tree_usable W blobs d))) canonical (st_baseline d = None) d = Inr d'"
    using assms(1) unfolding reconcile_writes
    by (cases "writer_reconcile_canonical (changed_records W blobs d) (unrooted_records history blobs d)
      (bset_of (map doc_text_id (tree_usable W blobs d))) canonical (st_baseline d = None) d") simp_all
  note eff = writer_reconciles [OF w ok changed_ids unrooted_ids [OF ok]]
  show "rfc_store_ok d'" by (rule eff(1))
  show "st_baseline d' \<noteq> None" by (rule eff(2)) blast
  have gone: "rfc_with_id t (unrooted_records history blobs d) = None" if rooted: "t \<in> tree_anchors blobs \<or> (st_baseline d \<noteq> None \<and> history t)" for t
  proof (rule ccontr)
    assume "rfc_with_id t (unrooted_records history blobs d) \<noteq> None"
    then obtain r where "rfc_with_id t (unrooted_records history blobs d) = Some r" by blast
    then show False using rooted unfolding unrooted_Some [OF ok] by blast
  qed
  show dec: "shared_rfc d' t = decided_record W history blobs d t"
  proof (cases rule: usable_cases [of t W blobs d])
    case (one p)
    have "rfc_with_id t (unrooted_records history blobs d) = None" using gone one(5) by blast
    moreover have "(case rfc_with_id t (changed_records W blobs d) of Some r \<Rightarrow> Some r | None \<Rightarrow> shared_rfc d t) = Some (canonical_rfc_record p (shared_rfc d t))"
    proof (cases "rfc_with_id t (changed_records W blobs d)")
      case None
      then have "shared_rfc d t = Some (canonical_rfc_record p (shared_rfc d t))" using changed_Some [of t W blobs d] one(2,3) by fastforce
      then show ?thesis using None by simp
    next
      case (Some r)
      then show ?thesis using changed_Some [of t W blobs d r] one(4) by auto
    qed
    ultimately show ?thesis by (simp only: eff(3) decided_record_def one(1) list.case if_False simp_thms)
  next
    case other
    let ?rooted = "t \<in> tree_anchors blobs \<or> (st_baseline d \<noteq> None \<and> history t)"
    have c: "rfc_with_id t (changed_records W blobs d) = None"
      using changed_Some [of t W blobs d] other(2) by (cases "rfc_with_id t (changed_records W blobs d)") auto
    have dec: "decided_record W history blobs d t = (if ?rooted then shared_rfc d t else None)"
      unfolding decided_record_def by (rule not_singleton) (rule other(1))
    show ?thesis
    proof (cases ?rooted)
      case True
      show ?thesis by (simp only: eff(3) c dec gone [OF True] True option.case if_True if_False simp_thms)
    next
      case False
      then have "rfc_with_id t (unrooted_records history blobs d) = None \<Longrightarrow> shared_rfc d t = None"
        using unrooted_Some [OF ok, of t history blobs] by (cases "shared_rfc d t") fastforce+
      then show ?thesis by (cases "rfc_with_id t (unrooted_records history blobs d) = None") (simp_all only: eff(3) c dec False option.case if_True if_False simp_thms)
    qed
  qed
  show "map_option fst (st_quarantine d' t) = Some r" if lost: "shared_rfc d t = Some r" "shared_rfc d' t = None"
  proof (rule eff(4))
    show "rfc_with_id t (unrooted_records history blobs d) = Some r"
      using lost(2) lost(1) unfolding dec decided_record_def unrooted_Some [OF ok] by (auto split: list.splits if_splits)
  qed
  show "st_quarantine d' t = None" if used: "t \<in> doc_text_id ` set (tree_usable W blobs d)"
  proof (rule eff(5))
    show "t \<in> set (bset_of (map doc_text_id (tree_usable W blobs d)))" using used by simp
    have "t \<in> tree_anchors blobs" using used tree_anchor by (auto simp: tree_usable_def)
    then show "rfc_with_id t (unrooted_records history blobs d) = None" using gone by blast
  qed
qed

section \<open>Reachable stores\<close>

lemma persist_effect:
  assumes "persist_rfc_record V w source docs r d = Inr d'" "rfc_store_ok d" "source \<noteq> WorkspaceFallback"
  obtains d1 s x where "refresh_workspace_rfc_snapshot V w source docs d = Inr d1" "st_snapshots d1 w = Some s"
    "observation_with_id (rr_text_id r) (load_observations w d1) = Some x"
    "replace_rfc_workspace_snapshot s
       (map (\<lambda>x. if obs_text_id x = rr_text_id r then override_observation r (shared_rfc d (rr_text_id r)) x else x) (load_observations w d1))
       (load_diagnostics w d1) d1 = Inr d'"
proof -
  obtain d1 where d1: "refresh_workspace_rfc_snapshot V w source docs d = Inr d1"
    using assms(1,3) by (auto simp: persist_rfc_record_def and_then_Inr_conv)
  then have loads: "rfc_with_id (rr_text_id r) (load_rfcs d1) = shared_rfc d (rr_text_id r)"
    using refresh_effect(2) [OF d1 assms(2)] by (simp add: shared_rfc_def)
  show ?thesis
    using assms(1,3) that [OF d1] unfolding persist_rfc_record_def d1 and_then_simps Let_def loads
    by (auto split: option.splits if_splits)
qed

lemma override_root [simp]: "obs_root (override_observation r c x) = obs_root x" "obs_text_id (override_observation r c x) = obs_text_id x"
  by (simp_all add: override_observation_def)

lemma rfc_store_ok_empty: "rfc_store_ok empty_rfcs"
  by (simp add: rfc_store_ok_def empty_rfcs_def)

lemma persist_ok:
  assumes "persist_rfc_record V w source docs r d = Inr d'" "rfc_store_ok d" "source \<noteq> WorkspaceFallback"
  shows "rfc_store_ok d'" "load_rfcs d' = load_rfcs d" "v \<noteq> w \<Longrightarrow> load_observations v d' = load_observations v d"
    "v \<noteq> w \<Longrightarrow> st_snapshots d' v = st_snapshots d v" "st_snapshots d' w \<noteq> None"
proof -
  obtain d1 s x where d1: "refresh_workspace_rfc_snapshot V w source docs d = Inr d1" "st_snapshots d1 w = Some s"
    "replace_rfc_workspace_snapshot s
       (map (\<lambda>x. if obs_text_id x = rr_text_id r then override_observation r (shared_rfc d (rr_text_id r)) x else x) (load_observations w d1))
       (load_diagnostics w d1) d1 = Inr d'"
    by (rule persist_effect [OF assms]) blast
  note e = refresh_effect [OF d1(1) assms(2)]
  have s: "snap_root s = w" using e(1) d1(2) by (simp add: rfc_store_ok_def)
  have "written_by (snap_root s)
      (map (\<lambda>x. if obs_text_id x = rr_text_id r then override_observation r (shared_rfc d (rr_text_id r)) x else x) (load_observations w d1))"
    by (auto simp: written_by_def list_all_iff s)
  note l = load_replaced [OF d1(3) e(1) this, unfolded s]
  show "rfc_store_ok d'" by (rule l(5))
  show "load_rfcs d' = load_rfcs d" using l(3) e(2) by simp
  show "v \<noteq> w \<Longrightarrow> load_observations v d' = load_observations v d" using l(2) e(3) by simp
  show "v \<noteq> w \<Longrightarrow> st_snapshots d' v = st_snapshots d v" using l(4) e(4) by simp
  show "st_snapshots d' w \<noteq> None" using l(4) by simp
qed

lemma fallback_ok:
  assumes "persist_rfc_record V w WorkspaceFallback docs r d = Inr d'" "rfc_store_ok d"
  shows "rfc_store_ok d'" "shared_rfc d' (rr_text_id r) = Some r"
proof -
  obtain d1 where d1: "upsert_rfc_on r d = Inr d1" "refresh_workspace_rfc_snapshot V w WorkspaceFallback docs d1 = Inr d'"
    using assms(1) by (auto simp: persist_rfc_record_def upsert_rfc_def and_then_Inr_conv)
  note u = upsert_row [OF d1(1) assms(2)]
  note e = refresh_effect [OF d1(2) u(1)]
  show "rfc_store_ok d'" by (rule e(1))
  show "shared_rfc d' (rr_text_id r) = Some r" using u(2) e(2) by (simp add: shared_rfc_def)
qed

lemma run_rfcs_simps [simp]: "run_rfcs [] d = d" "run_rfcs (m # ops) d = run_rfcs ops (rfc_step m d)"
  by (simp_all add: run_rfcs_def)

lemma statements_ok:
  "update_rfc_stage t stage path d = Inr d' \<Longrightarrow> rfc_store_ok d \<Longrightarrow> rfc_store_ok d'"
  "delete_rfc t d = Inr d' \<Longrightarrow> rfc_store_ok d \<Longrightarrow> rfc_store_ok d'"
proof -
  have ids: "map rr_text_id (map (\<lambda>x. if rr_text_id x = t then x\<lparr>rr_stage := stage, rr_path := path\<rparr> else x) rs) = map rr_text_id rs" for rs
    by (induction rs) auto
  show "update_rfc_stage t stage path d = Inr d' \<Longrightarrow> rfc_store_ok d \<Longrightarrow> rfc_store_ok d'"
    by (auto simp: update_rfc_stage_def rfc_store_ok_def ids simp del: map_map split: if_splits)
  show "delete_rfc t d = Inr d' \<Longrightarrow> rfc_store_ok d \<Longrightarrow> rfc_store_ok d'"
    by (auto simp: delete_rfc_def delete_rfc_row_def rfc_store_ok_def distinct_map_filter split: if_splits)
qed

lemma rfc_do_ok: "rfc_do m d = Inr d' \<Longrightarrow> rfc_store_ok d \<Longrightarrow> rfc_store_ok d'"
proof (cases m)
  case (ReconcileShared W history blobs canonical)
  assume "rfc_do m d = Inr d'" "rfc_store_ok d"
  then show ?thesis
    using reconcile_effect(1) [of W history blobs canonical d d'] ReconcileShared
    by (cases "reconcile_canonical_rfcs W history blobs canonical d") (auto simp: rfc_do_def)
next
  case (Change V w source docs r)
  assume "rfc_do m d = Inr d'" "rfc_store_ok d"
  then show ?thesis
    using Change persist_ok(1) fallback_ok(1) by (cases "source = WorkspaceFallback") (auto simp: rfc_do_def)
qed (auto simp: rfc_do_def upsert_rfc_def intro: refresh_effect(1) upsert_row(1) statements_ok)

lemma rfc_step_ok: "rfc_store_ok d \<Longrightarrow> rfc_store_ok (rfc_step m d)"
proof (cases "rfc_do m d")
  case (Inl e)
  assume "rfc_store_ok d"
  then have "rfc_store_ok (rfc_left m d)"
    by (auto simp: rfc_left_def upsert_rfc_def intro: refresh_effect(1) upsert_row(1) split: rfc_op.split sum.split)
  then show ?thesis by (simp add: rfc_step_def Inl)
qed (simp add: rfc_step_def rfc_do_ok)

lemma run_rfcs_keeps: "rfc_store_ok d \<Longrightarrow> rfc_store_ok (run_rfcs ops d)"
  by (induction ops arbitrary: d) (auto simp: rfc_step_ok)

lemma reachable_ok: "rfc_store_ok (run_rfcs ops empty_rfcs)"
  by (rule run_rfcs_keeps [OF rfc_store_ok_empty])

end
