(* ===== verification/Rfc_Facts.thy ===== *)
theory Rfc_Facts
  imports Rfc_Shared
begin

text \<open>
  What holds of the RFC store: reconciling settles and loses nothing, workspaces do not see each
  other, a view lays a document over the shared record, and a command's record is what its
  workspace shows next.
\<close>

section \<open>Reconciling again\<close>

lemma usable_decided:
  assumes "p \<in> set (tree_usable W blobs d)"
  shows "decided_record W history blobs d (doc_text_id p) = Some (canonical_rfc_record p (shared_rfc d (doc_text_id p)))"
proof (cases rule: usable_cases [of "doc_text_id p" W blobs d])
  case (one q)
  then have "p = q" using assms by blast
  then show ?thesis using one(1) by (simp add: decided_record_def)
qed (use assms in auto)

lemma read_again:
  assumes "reconcile_canonical_rfcs W history blobs canonical d = Inr (d', res)" "rfc_store_ok d" "b \<in> set blobs"
  shows "read_blob W (load_rfcs d') b = read_blob W (load_rfcs d) b"
proof (cases "read_blob W (load_rfcs d) b")
  case None
  then show ?thesis using read_blob_none by metis
next
  case (Some p)
  then have p: "p \<in> set (tree_documents W blobs d)" using assms(3) by (auto simp: tree_documents_Some)
  have dec: "shared_rfc d' (doc_text_id p) = decided_record W history blobs d (doc_text_id p)"
    by (rule reconcile_effect(3) [OF assms(1,2)])
  have "shared_rfc d' (doc_text_id p) = shared_rfc d (doc_text_id p) \<or> (\<exists>r. shared_rfc d' (doc_text_id p) = Some r \<and> rr_stage r = doc_stage p)"
  proof (cases rule: usable_cases [of "doc_text_id p" W blobs d])
    case (one q)
    have "p \<in> set (filter (\<lambda>q. doc_text_id q = doc_text_id p) (tree_documents W blobs d))" using p by simp
    then have "p = q" by (simp only: one(1)) simp
    then show ?thesis using usable_decided [of p W blobs d history] one(2) dec by simp
  next
    case other
    have "decided_record W history blobs d (doc_text_id p) = shared_rfc d (doc_text_id p)"
      unfolding decided_record_def using tree_anchor [OF p] by (subst not_singleton) (use other(1) in \<open>simp_all\<close>)
    then show ?thesis using dec by simp
  qed
  then show ?thesis using read_blob_again [OF Some, of "load_rfcs d'"] Some by (simp add: shared_rfc_def)
qed

lemma same_map_filter: "(\<And>x. x \<in> set xs \<Longrightarrow> f x = g x) \<Longrightarrow> List.map_filter f xs = List.map_filter g xs"
  by (induction xs) (simp_all add: List.map_filter_simps split: option.split)

lemma documents_again:
  assumes "reconcile_canonical_rfcs W history blobs canonical d = Inr (d', res)" "rfc_store_ok d"
  shows "tree_documents W blobs d' = tree_documents W blobs d" "tree_usable W blobs d' = tree_usable W blobs d"
proof -
  show "tree_documents W blobs d' = tree_documents W blobs d"
    unfolding tree_documents_def using read_again [OF assms] by (rule same_map_filter)
  then show "tree_usable W blobs d' = tree_usable W blobs d" by (simp add: tree_usable_def)
qed

lemma nothing_changed:
  assumes "reconcile_canonical_rfcs W history blobs canonical d = Inr (d', res)" "rfc_store_ok d"
  shows "list_all (\<lambda>(old, r). old = Some r) (tree_records W blobs d')" "changed_records W blobs d' = []" "unrooted_records history blobs d' = []"
proof -
  have ok: "rfc_store_ok d'" by (rule reconcile_effect(1) [OF assms])
  show all: "list_all (\<lambda>(old, r). old = Some r) (tree_records W blobs d')"
    using usable_decided [of _ W blobs d history]
    by (auto simp: tree_records_def list_all_iff documents_again [OF assms] reconcile_effect(3) [OF assms] canonical_again)
  then show "changed_records W blobs d' = []" by (auto simp: changed_records_def list_all_iff filter_empty_conv)
  have "rfc_with_id t (unrooted_records history blobs d') = None" for t
  proof (rule ccontr)
    assume "rfc_with_id t (unrooted_records history blobs d') \<noteq> None"
    then obtain r where "shared_rfc d' t = Some r" "t \<notin> tree_anchors blobs" "st_baseline d' = None \<or> \<not> history t"
      using unrooted_Some [OF ok, of t history blobs] by auto
    then have r: "decided_record W history blobs d t = Some r" "t \<notin> tree_anchors blobs" "\<not> history t"
      using reconcile_effect(2,3) [OF assms] by metis+
    show False
    proof (cases rule: usable_cases [of t W blobs d])
      case (one p)
      then show ?thesis using r(2) by blast
    next
      case other
      have "decided_record W history blobs d t = None"
        unfolding decided_record_def using r(2,3) by (subst not_singleton) (use other(1) in \<open>simp_all\<close>)
      then show ?thesis using r(1) by simp
    qed
  qed
  then show "unrooted_records history blobs d' = []"
    unfolding rfc_with_id_def by (metis find_none imageI list.set_intros(1) neq_Nil_conv)
qed

lemma reconcile_twice:
  assumes "reconcile_canonical_rfcs W history blobs canonical d = Inr (d', res)" "rfc_store_ok d"
  shows "reconcile_canonical_rfcs W history blobs canonical d'
    = Inr (d', \<lparr>inserted = 0, updated = 0, deleted = 0, unchanged = length blobs\<rparr>)"
proof -
  have base: "(st_baseline d' = None) = False" using reconcile_effect(2) [OF assms] by simp
  have "st_quarantine d' |` (- set (bset_of (map doc_text_id (tree_usable W blobs d')))) = st_quarantine d'"
  proof
    fix t show "(st_quarantine d' |` (- set (bset_of (map doc_text_id (tree_usable W blobs d'))))) t = st_quarantine d' t"
      using reconcile_effect(5) [OF assms, of t] by (simp add: restrict_map_def documents_again [OF assms])
  qed
  then have "writer_reconcile_canonical [] [] (bset_of (map doc_text_id (tree_usable W blobs d'))) canonical False d' = Inr d'"
    by (simp add: writer_reconcile_canonical_def Let_def)
  moreover have "filter (\<lambda>(old, _). old = None) (tree_records W blobs d') = []"
    "filter (\<lambda>(old, r). old \<noteq> None \<and> old \<noteq> Some r) (tree_records W blobs d') = []"
    using nothing_changed(1) [OF assms] by (auto simp: list_all_iff filter_empty_conv)
  ultimately show ?thesis by (simp only: reconcile_writes nothing_changed(2,3) [OF assms] base) simp
qed

section \<open>What a view depends on\<close>

text \<open>The operations of other workspaces that do not write the shared records.\<close>

definition elsewhere :: "string \<Rightarrow> rfc_op \<Rightarrow> bool" where
  "elsewhere v m \<longleftrightarrow> (case m of
       Observe _ w _ _ \<Rightarrow> w \<noteq> v | Change _ w source _ _ \<Rightarrow> w \<noteq> v \<and> source \<noteq> WorkspaceFallback | _ \<Rightarrow> False)"

lemma view_cong:
  "load_rfcs d' = load_rfcs d \<Longrightarrow> load_observations v d' = load_observations v d \<Longrightarrow> st_snapshots d' v = st_snapshots d v \<Longrightarrow>
   compose_effective_rfc_view v d' = compose_effective_rfc_view v d"
  by (simp only: compose_effective_rfc_view_def)

lemma elsewhere_unseen:
  assumes "elsewhere v m" "rfc_store_ok d"
  shows "load_rfcs (rfc_step m d) = load_rfcs d \<and> compose_effective_rfc_view v (rfc_step m d) = compose_effective_rfc_view v d"
proof (cases m)
  case (Observe V w source docs)
  then show ?thesis
    using assms by (cases "rfc_do m d")
      (auto simp: rfc_step_def elsewhere_def rfc_do_def rfc_left_def refresh_effect intro!: view_cong)
next
  case (Change V w source docs r)
  then show ?thesis
    using assms by (cases "rfc_do m d"; cases "refresh_workspace_rfc_snapshot V w source docs d")
      (auto simp: rfc_step_def elsewhere_def rfc_do_def rfc_left_def refresh_effect persist_ok intro!: view_cong)
qed (use assms in \<open>simp_all add: elsewhere_def\<close>)

text \<open>Steps over states an invariant holds of, each with what it leaves, failed or not.\<close>

locale isolated_steps =
  fixes step :: "'m \<Rightarrow> 's \<Rightarrow> 's" and ok :: "'s \<Rightarrow> bool" and outside :: "'m \<Rightarrow> bool" and seen :: "'s \<Rightarrow> 'v"
  assumes keeps_ok: "ok d \<Longrightarrow> ok (step m d)"
    and unseen: "outside m \<Longrightarrow> ok d \<Longrightarrow> seen (step m d) = seen d"
begin

lemma run_unseen: "list_all outside ops \<Longrightarrow> ok d \<Longrightarrow> seen (fold step ops d) = seen d"
  by (induction ops arbitrary: d) (simp_all add: keeps_ok unseen)

end

interpretation rfc_steps: isolated_steps rfc_step rfc_store_ok "elsewhere v" "\<lambda>d. (load_rfcs d, compose_effective_rfc_view v d)" for v
  by unfold_locales (simp_all add: rfc_step_ok elsewhere_unseen)

lemma run_elsewhere_unseen:
  "list_all (elsewhere v) ops \<Longrightarrow> rfc_store_ok d \<Longrightarrow>
   load_rfcs (run_rfcs ops d) = load_rfcs d \<and> compose_effective_rfc_view v (run_rfcs ops d) = compose_effective_rfc_view v d"
  using rfc_steps.run_unseen [of v ops d] by (simp add: run_rfcs_def)

lemma run_rfcs_append [simp]: "run_rfcs (as @ bs) d = run_rfcs bs (run_rfcs as d)"
  by (simp add: run_rfcs_def)

text \<open>The optional values of an observation after a command has set them.\<close>

lemma apply_composed: "composed_optional_value (apply_workspace_optional_override v desired canonical) canonical = desired"
  by (simp add: composed_optional_value_def apply_workspace_optional_override_def declares_def)

lemma effective_override:
  "obs_text_id x = rr_text_id r \<Longrightarrow> effective_record_from_observation (override_observation r c x) c = r"
  by (simp add: effective_record_from_observation_def override_observation_def apply_composed)

lemma persist_observation:
  assumes "persist_rfc_record V w source docs r d = Inr d'" and ok: "rfc_store_ok d" and "source \<noteq> WorkspaceFallback"
  obtains x where "obs_text_id x = rr_text_id r"
    "observation_with_id (rr_text_id r) (load_observations w d') = Some (override_observation r (shared_rfc d (rr_text_id r)) x)"
proof -
  let ?new = "\<lambda>x. if obs_text_id x = rr_text_id r then override_observation r (shared_rfc d (rr_text_id r)) x else x"
  obtain d1 s x where d1: "refresh_workspace_rfc_snapshot V w source docs d = Inr d1" "st_snapshots d1 w = Some s"
    "observation_with_id (rr_text_id r) (load_observations w d1) = Some x"
    "replace_rfc_workspace_snapshot s (map ?new (load_observations w d1)) (load_diagnostics w d1) d1 = Inr d'"
    by (rule persist_effect [OF assms])
  note e = refresh_effect(1) [OF d1(1) ok]
  have s: "snap_root s = w" using e d1(2) by (simp add: rfc_store_ok_def)
  have "written_by w (map ?new (load_observations w d1))" by (auto simp: written_by_def list_all_iff)
  then have l: "set (load_observations w d') = ?new ` set (load_observations w d1)"
    by (simp only: load_replaced(1) [OF d1(4) e, unfolded s] set_sort set_map)
  have x: "x \<in> set (load_observations w d1)" "obs_text_id x = rr_text_id r"
    using d1(3) unfolding observation_with_id_def find_unique [OF load_observations_distinct [OF e]] by blast+
  have "override_observation r (shared_rfc d (rr_text_id r)) x = ?new x" using x(2) by simp
  then have "override_observation r (shared_rfc d (rr_text_id r)) x \<in> set (load_observations w d')"
    unfolding l using x(1) by (rule image_eqI)
  then have "observation_with_id (rr_text_id r) (load_observations w d') = Some (override_observation r (shared_rfc d (rr_text_id r)) x)"
    unfolding observation_with_id_def find_unique [OF load_observations_distinct [OF persist_ok(1) [OF assms]]] using x(2) by simp
  then show ?thesis using that x(2) by blast
qed

lemma view_exists: "st_snapshots d w \<noteq> None \<Longrightarrow> \<exists>es. compose_effective_rfc_view w d = Inr es"
  by (auto simp: compose_effective_rfc_view_def Let_def)

lemma fresh_snapshot:
  assumes "refresh_workspace_rfc_snapshot V w source docs d = Inr d'" "rfc_store_ok d" "observed_afresh V w source docs d"
  shows "st_snapshots d' w = Some (new_snapshot V w source docs)"
  using assms(1) by (rule refresh_cases) (use assms(3) in \<open>simp_all add: load_replaced(4) [OF _ assms(2)] observed_root\<close>)

lemma view_of_documents:
  assumes ok: "rfc_store_ok d" and r: "refresh_workspace_rfc_snapshot V w source docs d = Inr d'" and fresh: "observed_afresh V w source docs d"
    and view: "compose_effective_rfc_view w d' = Inr es"
  shows "entries_for t es = (case documents_for V w t docs d of
      [p] \<Rightarrow> [layered_record p (observation_with_id t (previous_observations w (new_snapshot V w source docs) d)) (shared_rfc d t)]
    | _ \<Rightarrow> (case shared_rfc d t of Some r \<Rightarrow> [r] | None \<Rightarrow> []))"
proof -
  have shared: "shared_rfc d' t = shared_rfc d t" using refresh_effect(2) [OF r ok] by (simp add: shared_rfc_def)
  note es = compose_entries [OF refresh_effect(1) [OF r ok] view, of t, unfolded fresh_observation [OF ok r fresh] shared]
  show ?thesis
  proof (cases "\<exists>p. documents_for V w t docs d = [p]")
    case True
    then obtain p where p: "documents_for V w t docs d = [p]" by blast
    show ?thesis by (simp only: es p list.case option.case effective_layered)
  next
    case False
    then show ?thesis unfolding es by (simp add: not_singleton)
  qed
qed

lemma dropped_declaration:
  assumes ok: "rfc_store_ok d" and r1: "refresh_workspace_rfc_snapshot V w source docs d = Inr d1" and f1: "observed_afresh V w source docs d"
    and r2: "refresh_workspace_rfc_snapshot V' w source' docs' d1 = Inr d2" and f2: "observed_afresh V' w source' docs' d1"
    and branch: "oe_branch V = Some b" "oe_branch V' = Some b"
    and p: "documents_for V w t docs d = [p]" "dv_declared (doc_superseded_by p)"
    and q: "documents_for V' w t docs' d1 = [q]" "\<not> dv_declared (doc_superseded_by q)"
    and view: "compose_effective_rfc_view w d2 = Inr es"
  shows "map rr_superseded_by (entries_for t es) = [dv_value (doc_superseded_by p)]"
proof -
  let ?old = "observation_with_id t (previous_observations w (new_snapshot V w source docs) d)"
  have ok1: "rfc_store_ok d1" by (rule refresh_effect(1) [OF r1 ok])
  have "previous_observations w (new_snapshot V' w source' docs') d1 = load_observations w d1"
    unfolding previous_observations_def fresh_snapshot [OF r1 ok f1] by (simp add: overrides_apply_def new_snapshot_def branch)
  then have old: "observation_with_id t (previous_observations w (new_snapshot V' w source' docs') d1)
      = Some (preserve_overrides ?old (shared_rfc d t) (workspace_observation_from_parsed V w p))"
    unfolding fresh_observation [OF ok r1 f1, of t] by (simp only: fresh_observation [OF ok r1 f1] p(1) list.case)
  have kept: "obs_superseded_by (preserve_overrides o' c (workspace_observation_from_parsed V w p)) = doc_superseded_by p" for o' c
    by (simp add: preserve_overrides_def preserve_workspace_optional_override_def workspace_observation_from_parsed_def p(2) split: option.splits)
  have es: "entries_for t es = [layered_record q (Some (preserve_overrides ?old (shared_rfc d t) (workspace_observation_from_parsed V w p))) (shared_rfc d1 t)]"
    by (simp only: view_of_documents [OF ok1 r2 f2 view] q(1) list.case old)
  show ?thesis by (simp add: es layered_record_def layered_def kept p(2) q(2))
qed

end
