(* ===== verification/Rfc_Laws.thy ===== *)
theory Rfc_Laws
  imports Rfc_Facts
begin

text \<open>
  The properties of the RFC store, each over every store its operations can reach. They are tried
  on a repository with one RFC document, small enough to follow by hand: how it parses, and what
  observing it writes, with and without a superseding RFC.
\<close>

section \<open>A repository with one RFC\<close>

definition rfc_text :: string where
  "rfc_text = ''<!-- exo:7 ulid:a1 -->'' @ [nl] @ ''# RFC 7: T'' @ [nl]"

definition sample_superseded :: string where
  "sample_superseded = rfc_text @ ''- **Superseded by**: RFC 9'' @ [nl]"

definition sample_env :: "string \<Rightarrow> observe_env" where
  "sample_env head = \<lparr>oe_word = (\<lambda>_. False), oe_sha = (\<lambda>s. take 32 (rev s @ replicate 32 (CHR ''0''))), oe_now = ''now'', oe_branch = Some ''main'', oe_head = head\<rparr>"

definition sample_source :: reconcile_source where
  "sample_source = Canonical ''refs/heads/main'' ''c0''"

lemma sample_source_canonical [simp]: "sample_source \<noteq> WorkspaceFallback"
  by (simp add: sample_source_def)

definition sample_docs :: "string \<Rightarrow> (string \<times> string) list" where
  "sample_docs s = [(''stage-1/7-t.md'', s)]"

definition sample_parsed :: "string option \<Rightarrow> rfc_document" where
  "sample_parsed superseded = \<lparr>doc_text_id = ''a1'', doc_number = 7, doc_title = ''T'', doc_stage = 1, doc_status = ''active'', doc_status_declared = False,
     doc_slug = ''t'', doc_path = ''stage-1/7-t.md'',
     doc_superseded_by = (case superseded of None \<Rightarrow> absent | Some v \<Rightarrow> declares (Some v)), doc_supersedes = absent,
     doc_filename_number = 7, doc_stage_source = ''path'', doc_conflict = False, doc_feature = absent,
     doc_withdrawal_reason = absent, doc_archived_reason = absent, doc_consolidated_into = absent\<rparr>"

lemma parsed_text: "parse_rfc_document (\<lambda>_. False) ''stage-1/7-t.md'' rfc_text None = Inr (sample_parsed None)"
  by code_simp

lemma parsed_superseded: "parse_rfc_document (\<lambda>_. False) ''stage-1/7-t.md'' sample_superseded None = Inr (sample_parsed (Some ''9''))"
  by code_simp

lemma utf8_samples: "valid_utf8 (map byte rfc_text)" "valid_utf8 (map byte sample_superseded)"
  by code_simp+

definition sample_document :: "string option \<Rightarrow> string" where
  "sample_document v = (case v of None \<Rightarrow> rfc_text | Some _ \<Rightarrow> sample_superseded)"

abbreviation observes :: "string \<Rightarrow> string option \<Rightarrow> rfc_store \<Rightarrow> string + rfc_store" where
  "observes h v \<equiv> refresh_workspace_rfc_snapshot (sample_env h) ''w'' sample_source (sample_docs (sample_document v))"

lemma no_shared: "Option.bind x (\<lambda>t. rfc_with_id t []) = None"
  by (cases x) (simp_all add: rfc_with_id_def)

lemma sample_read:
  assumes "v \<in> {None, Some ''9''}"
  shows "read_document (sample_env h) ''w'' [] (''stage-1/7-t.md'', sample_document v) = Inr (sample_parsed v, sample_document v)"
    "read_blob (\<lambda>_. False) [] (''stage-1/7-t.md'', sample_document v) = Some (sample_parsed v)"
proof -
  have u: "document_usable (sample_parsed v)" by (simp add: document_usable_def sample_parsed_def)
  have w: "oe_word (sample_env h) = (\<lambda>_. False)" by (simp add: sample_env_def)
  show "read_document (sample_env h) ''w'' [] (''stage-1/7-t.md'', sample_document v) = Inr (sample_parsed v, sample_document v)"
    "read_blob (\<lambda>_. False) [] (''stage-1/7-t.md'', sample_document v) = Some (sample_parsed v)"
    using assms u by (elim insertE emptyE; simp add: read_document_def read_blob_def no_shared w sample_document_def parsed_text parsed_superseded utf8_samples)+
qed

lemma sample_usable:
  "v \<in> {None, Some ''9''} \<Longrightarrow>
   usable_documents (sample_env h) ''w'' [] (sample_docs (sample_document v)) = [(sample_parsed v, sample_document v)]"
  by (simp only: usable_documents_def sample_docs_def List.map_filter_simps sample_read sum.case option.case)

lemma sample_id [simp]: "doc_text_id (sample_parsed v) = ''a1''" "doc_title (sample_parsed v) = ''T''"
  by (simp_all add: sample_parsed_def)

lemma sample_documents_for:
  "v \<in> {None, Some ''9''} \<Longrightarrow> load_rfcs d = [] \<Longrightarrow> documents_for (sample_env h) ''w'' ''a1'' (sample_docs (sample_document v)) d = [sample_parsed v]"
  by (simp only: documents_for_def sample_usable) simp

lemma sample_diagnostics:
  "v \<in> {None, Some ''9''} \<Longrightarrow> load_rfcs d = [] \<Longrightarrow> diagnose_documents (sample_env h) ''w'' (sample_docs (sample_document v)) d = []"
  unfolding diagnose_documents_def Let_def by (simp only: sample_usable) (simp add: sample_docs_def List.map_filter_simps sample_read anchor_unique_def)

lemma sample_observations:
  "v \<in> {None, Some ''9''} \<Longrightarrow> load_rfcs d = [] \<Longrightarrow> observe_documents (sample_env h) ''w'' s (sample_docs (sample_document v)) d
     = [preserve_overrides (observation_with_id ''a1'' (previous_observations ''w'' s d)) None (workspace_observation_from_parsed (sample_env h) ''w'' (sample_parsed v))]"
  unfolding observe_documents_def Let_def by (simp only: sample_usable) (simp add: anchor_unique_def rfc_with_id_def)

lemma sample_digest: "length (snap_digest (new_snapshot (sample_env h) w source docs)) = 32"
  by (simp add: new_snapshot_def workspace_document_digest_def sample_env_def)

text \<open>An observation with the sample's stage and status fits a snapshot that holds no other.\<close>

lemma replace_one:
  "length (snap_digest s) = 32 \<Longrightarrow> obs_stage x \<le> 4 \<Longrightarrow> valid_status (obs_status x) \<Longrightarrow> obs_stage_source x = ''path'' \<Longrightarrow>
   obs_root x = snap_root s \<Longrightarrow> \<exists>d'. replace_rfc_workspace_snapshot s [x] [] d = Inr d'"
  by (simp add: replace_rfc_workspace_snapshot_def observation_fits_def list_all_iff)

lemma preserve_overrides_fields [simp]:
  "obs_stage (preserve_overrides y c x) = obs_stage x" "obs_status (preserve_overrides y c x) = obs_status x"
  "obs_stage_source (preserve_overrides y c x) = obs_stage_source x"
  by (simp_all add: preserve_overrides_def split: option.splits)

lemma sample_observes:
  assumes "v \<in> {None, Some ''9''}" "load_rfcs d = []"
  shows "\<exists>d'. observes h v d = Inr d'"
proof -
  let ?s = "new_snapshot (sample_env h) ''w'' sample_source (sample_docs (sample_document v))"
  let ?x = "preserve_overrides (observation_with_id ''a1'' (previous_observations ''w'' ?s d)) None (workspace_observation_from_parsed (sample_env h) ''w'' (sample_parsed v))"
  have "\<exists>d'. replace_rfc_workspace_snapshot ?s [?x] [] d = Inr d'"
    by (rule replace_one) (simp_all add: sample_digest workspace_observation_from_parsed_def sample_parsed_def valid_status_def)
  then show ?thesis
    unfolding refresh_workspace_rfc_snapshot_def Let_def sample_observations [OF assms] sample_diagnostics [OF assms] by (simp split: option.split)
qed

definition sample_record :: rfc_record where
  "sample_record = \<lparr>rr_text_id = ''a1'', rr_number = 7, rr_title = ''T'', rr_stage = 2, rr_status = ''active'', rr_feature = Some ''F'',
     rr_slug = ''t'', rr_path = ''stage-2/7-t.md'', rr_superseded_by = None, rr_supersedes = None,
     rr_withdrawal_reason = None, rr_archived_reason = None, rr_consolidated_into = None\<rparr>"

definition older_record :: rfc_record where
  "older_record = sample_record\<lparr>rr_text_id := ''old''\<rparr>"

section \<open>Reconciling with the canonical tree\<close>

lemma sample_tree:
  assumes "shared_rfc d ''a1'' = None"
  shows "tree_documents (\<lambda>_. False) (sample_docs (sample_document None)) d = [sample_parsed None]"
    "tree_anchors (sample_docs (sample_document None)) = {''a1''}"
proof -
  have read: "read_blob (\<lambda>_. False) [] (''stage-1/7-t.md'', sample_document None) = Some (sample_parsed None)" by (rule sample_read) simp
  have "rfc_with_id (doc_text_id (sample_parsed None)) (load_rfcs d) = rfc_with_id (doc_text_id (sample_parsed None)) []"
    using assms by (simp add: shared_rfc_def) (simp add: rfc_with_id_def)
  then have "read_blob (\<lambda>_. False) (load_rfcs d) (''stage-1/7-t.md'', sample_document None) = Some (sample_parsed None)"
    using read_blob_again [OF read] by blast
  then show "tree_documents (\<lambda>_. False) (sample_docs (sample_document None)) d = [sample_parsed None]"
    by (simp add: tree_documents_def sample_docs_def List.map_filter_simps)
  show "tree_anchors (sample_docs (sample_document None)) = {''a1''}"
    using read_blob_id [OF read] by (simp add: tree_anchors_def sample_docs_def List.map_filter_simps)
qed

lemma quarantine_baseline: "st_baseline (fold (quarantine_rfc reason) rs d) = st_baseline d"
  by (induction rs arbitrary: d) (simp_all add: quarantine_rfc_def delete_rfc_row_def)

lemma sample_reconciles:
  assumes "shared_rfc d ''a1'' = None"
  shows "\<exists>d' res. reconcile_canonical_rfcs (\<lambda>_. False) history (sample_docs (sample_document None)) canonical d = Inr (d', res)"
    "decided_record (\<lambda>_. False) history (sample_docs (sample_document None)) d ''a1'' = Some (canonical_rfc_record (sample_parsed None) None)"
proof -
  let ?blobs = "sample_docs (sample_document None)"
  note parsed = sample_tree(1) [OF assms]
  have "tree_usable (\<lambda>_. False) ?blobs d = [sample_parsed None]"
    unfolding tree_usable_def parsed by (simp add: anchor_unique_def)
  then have changed: "changed_records (\<lambda>_. False) ?blobs d = [canonical_rfc_record (sample_parsed None) None]"
    by (simp add: changed_records_def tree_records_def assms)
  have "row_valid (canonical_rfc_record (sample_parsed None) None)"
    by (simp add: row_valid_def canonical_rfc_record_def sample_parsed_def valid_status_def)
  then obtain d1 where "upsert_rfcs [canonical_rfc_record (sample_parsed None) None] d = Inr d1" "st_baseline d1 = st_baseline d"
    by (cases "rfc_with_id (doc_text_id (sample_parsed None)) (st_rfcs d)") (simp_all add: upsert_rfc_on_def)
  then show "\<exists>d' res. reconcile_canonical_rfcs (\<lambda>_. False) history ?blobs canonical d = Inr (d', res)"
    unfolding reconcile_writes changed writer_reconcile_canonical_def
    by (cases "st_baseline d") (simp_all add: Let_def quarantine_baseline del: upsert_rfcs.simps)
  show "decided_record (\<lambda>_. False) history ?blobs d ''a1'' = Some (canonical_rfc_record (sample_parsed None) None)"
    by (simp add: decided_record_def parsed assms)
qed

lemma sample_unshared: "shared_rfc empty_rfcs ''a1'' = None"
  by (simp add: shared_rfc_def load_rfcs_def empty_rfcs_def rfc_with_id_def)

text \<open>
  C15. Reconciling settles: after a reconciliation with a canonical tree has succeeded, in any
  store the operations can reach, reconciling again with the same tree succeeds, writes nothing
  and counts every document as unchanged.
\<close>
theorem reconcile_settles:
  assumes "reconcile_canonical_rfcs W history blobs canonical (run_rfcs ops empty_rfcs) = Inr (d', res)"
  shows "reconcile_canonical_rfcs W history blobs canonical d' = Inr (d', \<lparr>inserted = 0, updated = 0, deleted = 0, unchanged = length blobs\<rparr>)"
  by (rule reconcile_twice [OF assms reachable_ok])

lemma reconcile_settles_witness:
  "\<exists>d' res. reconcile_canonical_rfcs (\<lambda>_. False) (\<lambda>_. False) (sample_docs (sample_document None)) (''refs/heads/main'', ''c0'') empty_rfcs = Inr (d', res)
     \<and> reconcile_canonical_rfcs (\<lambda>_. False) (\<lambda>_. False) (sample_docs (sample_document None)) (''refs/heads/main'', ''c0'') d'
     = Inr (d', \<lparr>inserted = 0, updated = 0, deleted = 0, unchanged = 1\<rparr>)"
proof -
  obtain d' res where "reconcile_canonical_rfcs (\<lambda>_. False) (\<lambda>_. False) (sample_docs (sample_document None)) (''refs/heads/main'', ''c0'') (run_rfcs [] empty_rfcs) = Inr (d', res)"
    using sample_reconciles(1) [OF sample_unshared] by (metis run_rfcs_simps(1))
  with reconcile_settles [OF this] show ?thesis by (auto simp: sample_docs_def)
qed

text \<open>
  C16. What a reconciliation decides about every id: a document of the tree that is valid and alone
  with its anchor replaces the shared record, optional values it does not declare aside; a record
  whose anchor is in the tree, or, once there is a baseline, anywhere in its history, stays as it
  was; any other record leaves the shared ones, and then the quarantine holds it. No record is lost.
\<close>
theorem reconcile_decides:
  assumes "reconcile_canonical_rfcs W history blobs canonical (run_rfcs ops empty_rfcs) = Inr (d', res)"
  shows "shared_rfc d' t = decided_record W history blobs (run_rfcs ops empty_rfcs) t
    \<and> (shared_rfc (run_rfcs ops empty_rfcs) t = Some r \<longrightarrow> shared_rfc d' t = None \<longrightarrow> map_option fst (st_quarantine d' t) = Some r)"
  using reconcile_effect [OF assms reachable_ok] by blast

lemma reconcile_decides_witness:
  "\<exists>d' res. reconcile_canonical_rfcs (\<lambda>_. False) (\<lambda>_. True) (sample_docs (sample_document None)) (''refs/heads/main'', ''c0'')
       (run_rfcs [Upsert older_record] empty_rfcs) = Inr (d', res)
     \<and> map_option rr_title (shared_rfc d' ''a1'') = Some ''T''
     \<and> shared_rfc d' ''old'' = None \<and> map_option fst (st_quarantine d' ''old'') = Some older_record"
proof -
  define d where "d = run_rfcs [Upsert older_record] empty_rfcs"
  have d: "load_rfcs d = [older_record]" "st_baseline d = None"
    by (simp_all add: d_def rfc_step_def rfc_do_def upsert_rfc_def upsert_rfc_on_def empty_rfcs_def rfc_with_id_def row_valid_def valid_status_def
        older_record_def sample_record_def load_rfcs_def)
  have old: "shared_rfc d ''old'' = Some older_record" "shared_rfc d ''a1'' = None"
    by (simp_all add: shared_rfc_def d rfc_with_id_def older_record_def)
  obtain d' res where run: "reconcile_canonical_rfcs (\<lambda>_. False) (\<lambda>_. True) (sample_docs (sample_document None)) (''refs/heads/main'', ''c0'') d = Inr (d', res)"
    by (metis sample_reconciles(1) [OF old(2)])
  note decided = reconcile_decides [OF run [unfolded d_def], folded d_def]
  have "decided_record (\<lambda>_. False) (\<lambda>_. True) (sample_docs (sample_document None)) d ''old'' = None"
    using sample_tree [OF old(2)] by (simp add: decided_record_def d)
  then show ?thesis
    unfolding d_def [symmetric]
    using run decided [of "''old''" older_record] decided [of "''a1''"] sample_reconciles(2) [OF old(2)] by (auto simp: canonical_rfc_record_def old)
qed

section \<open>What a workspace shows\<close>

text \<open>
  C18. Workspaces do not see each other: whatever is observed and changed in other workspaces of a
  repository with a canonical tree, in any order, failures included, the shared records and the view
  of this workspace stay the same.
\<close>
theorem workspaces_isolated:
  assumes "list_all (elsewhere v) ops"
  shows "compose_effective_rfc_view v (run_rfcs (earlier @ ops) empty_rfcs) = compose_effective_rfc_view v (run_rfcs earlier empty_rfcs)
    \<and> load_rfcs (run_rfcs (earlier @ ops) empty_rfcs) = load_rfcs (run_rfcs earlier empty_rfcs)"
  using run_elsewhere_unseen [OF assms reachable_ok] by simp

lemma workspaces_isolated_witness:
  "compose_effective_rfc_view ''v'' (run_rfcs [Observe (sample_env ''h1'') ''v'' sample_source (sample_docs rfc_text),
       Change (sample_env ''h1'') ''w'' sample_source (sample_docs rfc_text) sample_record] empty_rfcs)
   = compose_effective_rfc_view ''v'' (run_rfcs [Observe (sample_env ''h1'') ''v'' sample_source (sample_docs rfc_text)] empty_rfcs)"
  using workspaces_isolated [of "''v''" "[Change (sample_env ''h1'') ''w'' sample_source (sample_docs rfc_text) sample_record]"
    "[Observe (sample_env ''h1'') ''v'' sample_source (sample_docs rfc_text)]"] by (simp add: elsewhere_def)

text \<open>
  C14. A view lays documents over records: once the documents of a workspace are observed afresh,
  its view exists and shows every RFC once. An RFC with exactly one valid document has the
  document's identity, title, stage, status and place, and of each optional value the declared one,
  else the one an earlier observation of the branch still overrides, else the shared one; an RFC
  without such a document is shown as the shared record.
\<close>
theorem view_layers_documents:
  assumes "d = run_rfcs ops empty_rfcs" and "refresh_workspace_rfc_snapshot V w source docs d = Inr d'" and "observed_afresh V w source docs d"
  shows "\<exists>es. compose_effective_rfc_view w d' = Inr es \<and> entries_for t es = (case documents_for V w t docs d of
      [p] \<Rightarrow> [layered_record p (observation_with_id t (previous_observations w (new_snapshot V w source docs) d)) (shared_rfc d t)]
    | _ \<Rightarrow> (case shared_rfc d t of Some r \<Rightarrow> [r] | None \<Rightarrow> []))"
  using view_exists [OF refresh_effect(5) [OF assms(2) reachable_ok [of ops, folded assms(1)]]]
    view_of_documents [OF reachable_ok [of ops, folded assms(1)] assms(2,3)] by blast

lemma sample_afresh: "observed_afresh V w source docs empty_rfcs" "load_rfcs empty_rfcs = []"
  by (simp_all add: observed_afresh_def empty_rfcs_def load_rfcs_def)

lemma view_layers_documents_witness:
  "\<exists>d' es. observes ''h1'' (Some ''9'') empty_rfcs = Inr d' \<and> compose_effective_rfc_view ''w'' d' = Inr es \<and> map rr_title (entries_for ''a1'' es) = [''T'']"
proof -
  obtain d' where d': "observes ''h1'' (Some ''9'') empty_rfcs = Inr d'" using sample_observes [OF _ sample_afresh(2)] by blast
  obtain es where "compose_effective_rfc_view ''w'' d' = Inr es" "map rr_title (entries_for ''a1'' es) = [''T'']"
    using view_layers_documents [of empty_rfcs "[]", OF _ d' sample_afresh(1), of "''a1''"]
    by (auto simp: sample_documents_for [OF _ sample_afresh(2)] layered_record_def)
  then show ?thesis using d' by (intro exI conjI)
qed

text \<open>
  C20. What a command has set is what its workspace shows next: when a changed record has been
  persisted, the view of that workspace exists and its one entry for the RFC is exactly the record,
  cleared values included, whatever the document declares and the shared record says. In a
  repository without a canonical tree the shared record is exactly the record.
\<close>
theorem command_shows_its_record:
  assumes "persist_rfc_record V w source docs r (run_rfcs ops empty_rfcs) = Inr d'"
  shows "if source = WorkspaceFallback then shared_rfc d' (rr_text_id r) = Some r
    else \<exists>es. compose_effective_rfc_view w d' = Inr es \<and> entries_for (rr_text_id r) es = [r]"
proof (cases "source = WorkspaceFallback")
  case True
  then show ?thesis using fallback_ok(2) [OF _ reachable_ok] assms by simp
next
  case False
  let ?d = "run_rfcs ops empty_rfcs"
  note ok = persist_ok [OF assms reachable_ok False]
  obtain es where es: "compose_effective_rfc_view w d' = Inr es" using view_exists [OF ok(5)] by blast
  obtain x where x: "obs_text_id x = rr_text_id r"
    "observation_with_id (rr_text_id r) (load_observations w d') = Some (override_observation r (shared_rfc ?d (rr_text_id r)) x)"
    by (rule persist_observation [OF assms reachable_ok False])
  have "shared_rfc d' (rr_text_id r) = shared_rfc ?d (rr_text_id r)" using ok(2) by (simp add: shared_rfc_def)
  then show ?thesis using False es compose_entries [OF ok(1) es, of "rr_text_id r"] x effective_override [OF x(1)] by simp
qed

lemma sample_persists:
  "\<exists>d'. persist_rfc_record (sample_env ''h1'') ''w'' sample_source (sample_docs (sample_document None)) sample_record empty_rfcs = Inr d'"
proof -
  let ?s = "new_snapshot (sample_env ''h1'') ''w'' sample_source (sample_docs (sample_document None))"
  let ?x = "workspace_observation_from_parsed (sample_env ''h1'') ''w'' (sample_parsed None)"
  obtain d1 where d1: "observes ''h1'' None empty_rfcs = Inr d1" using sample_observes [OF _ sample_afresh(2)] by blast
  have none: "observation_with_id ''a1'' (previous_observations ''w'' ?s empty_rfcs) = None"
    by (simp add: previous_observations_def empty_rfcs_def observation_with_id_def)
  have "replace_rfc_workspace_snapshot ?s [?x] [] empty_rfcs = Inr d1"
    using d1 by (rule refresh_cases)
      (simp_all add: sample_afresh sample_observations [OF _ sample_afresh(2)] sample_diagnostics [OF _ sample_afresh(2)] none preserve_overrides_def)
  note l = load_replaced [OF this rfc_store_ok_empty] replace_snapshot_Inr [OF this rfc_store_ok_empty]
  have "load_observations ''w'' d1 = [?x]" "st_snapshots d1 ''w'' = Some ?s" "load_diagnostics ''w'' d1 = []"
    using l by (simp_all add: written_by_def workspace_observation_from_parsed_def load_diagnostics_def empty_rfcs_def)
  then have "persist_rfc_record (sample_env ''h1'') ''w'' sample_source (sample_docs (sample_document None)) sample_record empty_rfcs
      = replace_rfc_workspace_snapshot ?s [override_observation sample_record (rfc_with_id ''a1'' (load_rfcs d1)) ?x] [] d1"
    by (simp add: persist_rfc_record_def d1 Let_def observation_with_id_def sample_record_def workspace_observation_from_parsed_def)
  moreover have "\<exists>d'. replace_rfc_workspace_snapshot ?s [override_observation sample_record (rfc_with_id ''a1'' (load_rfcs d1)) ?x] [] d1 = Inr d'"
    by (rule replace_one) (simp_all add: sample_digest override_observation_def sample_record_def workspace_observation_from_parsed_def
        sample_parsed_def valid_status_def)
  ultimately show ?thesis by simp
qed

lemma command_shows_its_record_witness:
  "\<exists>d' es. persist_rfc_record (sample_env ''h1'') ''w'' sample_source (sample_docs (sample_document None)) sample_record empty_rfcs = Inr d'
     \<and> compose_effective_rfc_view ''w'' d' = Inr es \<and> entries_for ''a1'' es = [sample_record]"
proof -
  obtain d' where "persist_rfc_record (sample_env ''h1'') ''w'' sample_source (sample_docs (sample_document None)) sample_record (run_rfcs [] empty_rfcs) = Inr d'"
    using sample_persists by auto
  with command_shows_its_record [OF this] show ?thesis by (auto simp: sample_record_def)
qed

text \<open>
  C39. A declaration removed from a document does not leave the view: on the same branch, a workspace
  whose document once declared by which RFC it is superseded goes on showing that value after the
  document has dropped it, until another value is declared or set.
\<close>
theorem dropped_declaration_stays:
  assumes "d = run_rfcs ops empty_rfcs" and "refresh_workspace_rfc_snapshot V w source docs d = Inr d1" and "observed_afresh V w source docs d"
    and "refresh_workspace_rfc_snapshot V' w source' docs' d1 = Inr d2" and "observed_afresh V' w source' docs' d1"
    and "oe_branch V = Some b" and "oe_branch V' = Some b"
    and "documents_for V w t docs d = [p]" and "dv_declared (doc_superseded_by p)"
    and "documents_for V' w t docs' d1 = [q]" and "\<not> dv_declared (doc_superseded_by q)"
  shows "\<exists>es. compose_effective_rfc_view w d2 = Inr es \<and> map rr_superseded_by (entries_for t es) = [dv_value (doc_superseded_by p)]"
proof -
  have ok: "rfc_store_ok d" using reachable_ok assms(1) by simp
  obtain es where "compose_effective_rfc_view w d2 = Inr es"
    using view_exists [OF refresh_effect(5) [OF assms(4) refresh_effect(1) [OF assms(2) ok]]] by blast
  then show ?thesis using dropped_declaration [OF ok assms(2-11)] by blast
qed

lemma dropped_declaration_stays_witness:
  "\<exists>d1 d2 es. observes ''h1'' (Some ''9'') empty_rfcs = Inr d1 \<and> observes ''h2'' None d1 = Inr d2
     \<and> compose_effective_rfc_view ''w'' d2 = Inr es \<and> map rr_superseded_by (entries_for ''a1'' es) = [Some ''9'']"
proof -
  obtain d1 where d1: "observes ''h1'' (Some ''9'') empty_rfcs = Inr d1" using sample_observes [OF _ sample_afresh(2)] by blast
  have shared: "load_rfcs d1 = []" using refresh_effect(2) [OF d1 rfc_store_ok_empty] sample_afresh(2) by simp
  obtain d2 where d2: "observes ''h2'' None d1 = Inr d2" using sample_observes [OF _ shared] by blast
  have snap: "st_snapshots d1 ''w'' = Some (new_snapshot (sample_env ''h1'') ''w'' sample_source (sample_docs (sample_document (Some ''9''))))"
    by (rule fresh_snapshot [OF d1 rfc_store_ok_empty sample_afresh(1)])
  have afresh: "observed_afresh (sample_env ''h2'') ''w'' sample_source (sample_docs (sample_document None)) d1"
    unfolding observed_afresh_def snap by (simp add: snapshot_current_def new_snapshot_def sample_env_def)
  have "\<exists>es. compose_effective_rfc_view ''w'' d2 = Inr es \<and> map rr_superseded_by (entries_for ''a1'' es) = [dv_value (doc_superseded_by (sample_parsed (Some ''9'')))]"
    by (rule dropped_declaration_stays [of empty_rfcs "[]", OF _ d1 sample_afresh(1) d2 afresh _ _ sample_documents_for [OF _ sample_afresh(2)] _ sample_documents_for [OF _ shared]])
      (simp_all add: sample_env_def sample_parsed_def declares_def absent_def)
  then show ?thesis using d1 d2 by (simp add: sample_parsed_def declares_def)
qed

end
