(* ===== verification/Rfc_Edit.thy ===== *)
theory Rfc_Edit
  imports Rfc_Reconcile
begin

text \<open>
  What the lifecycle commands write, \<open>tools/exo/src/rfc.rs\<close>: the text of a document that is edited,
  promoted, withdrawn, archived or superseded, and the record its workspace keeps of it. The move of
  the file, the front matter parser (parameters of the edit) and the checks for repair debt before a
  command are left out.
\<close>

section \<open>Lines with their ends\<close>

fun split_inclusive :: "string \<Rightarrow> string \<Rightarrow> string list" where
  "split_inclusive acc [] = (if acc = [] then [] else [acc])"
| "split_inclusive acc (c # s) = (if c = nl then (acc @ [c]) # split_inclusive [] s else split_inclusive (acc @ [c]) s)"

section \<open>Headings\<close>

definition rfc_heading :: "string \<Rightarrow> string \<Rightarrow> string" where
  "rfc_heading i title = ''# RFC '' @ i @ '': '' @ title"

fun replace_heading :: "string \<Rightarrow> string list \<Rightarrow> string list" where
  "replace_heading h [] = []"
| "replace_heading h (l # ls) = (if starts_with l ''# '' then (h @ [nl]) # ls else l # replace_heading h ls)"

definition replace_first_h1_line :: "string \<Rightarrow> string \<Rightarrow> string" where
  "replace_first_h1_line body h = concat (replace_heading h (split_inclusive [] body))"

definition update_first_h1_title :: "string \<Rightarrow> string \<Rightarrow> string \<Rightarrow> string" where
  "update_first_h1_title body i title =
     (if list_ex (\<lambda>l. starts_with l ''# '') (text_lines body) then replace_first_h1_line body (rfc_heading i title)
      else [nl, nl] @ rfc_heading i title @ [nl] @ body)"

fun identity_headings :: "string \<Rightarrow> string \<Rightarrow> bool \<Rightarrow> string list \<Rightarrow> string list" where
  "identity_headings h title replaced [] = []"
| "identity_headings h title replaced (l # ls) =
     (if starts_with l ''# '' \<and> \<not> replaced then (h @ [nl]) # identity_headings h title True ls
      else if starts_with l ''# '' \<and> extract_h1_title (strip_suffix_or [nl] l) = Some title then identity_headings h title replaced ls
      else l # identity_headings h title replaced ls)"

definition update_rfc_identity_headings :: "string \<Rightarrow> string \<Rightarrow> string \<Rightarrow> string" where
  "update_rfc_identity_headings body i title =
     (let h = rfc_heading i title; ls = split_inclusive [] body
      in if list_ex (\<lambda>l. starts_with l ''# '') ls then concat (identity_headings h title False ls)
         else [nl, nl] @ h @ [nl] @ body)"

definition clean_title :: "string \<Rightarrow> string" where
  "clean_title t = trim (cut_char (CHR ''*'') (trim t))"

section \<open>Stage and lifecycle markers\<close>

text \<open>A line with the first number after the word \<open>Stage\<close> replaced.\<close>

definition restaged_line :: "nat \<Rightarrow> string \<Rightarrow> string option" where
  "restaged_line stage l =
     Option.bind (split_once ''Stage'' l) (\<lambda>(before, after).
       case dropWhile (\<lambda>c. \<not> is_digit c) after of
         [] \<Rightarrow> None
       | rest \<Rightarrow> Some (before @ ''Stage'' @ takeWhile (\<lambda>c. \<not> is_digit c) after @ show_nat stage @ dropWhile is_digit rest))"

fun restage :: "nat \<Rightarrow> bool \<Rightarrow> bool \<Rightarrow> bool \<Rightarrow> bool \<Rightarrow> string list \<Rightarrow> string list" where
  "restage stage h1 fence pre replaced [] = []"
| "restage stage h1 fence pre replaced (l # ls) =
     (if \<not> h1 then l # restage stage (starts_with (trim_start l) ''# '') fence pre replaced ls
      else if is_fence l then l # restage stage h1 (\<not> fence) pre replaced ls
      else let pre' = (pre \<and> (fence \<or> \<not> starts_with (trim_start l) ''## ''))
      in case (if pre' \<and> \<not> fence \<and> \<not> replaced \<and> dv_declared (declared_metadata_value l ''Stage'') then restaged_line stage l else None) of
           Some k \<Rightarrow> k # restage stage h1 fence pre' True ls
         | None \<Rightarrow> l # restage stage h1 fence pre' replaced ls)"

definition update_declared_stage_marker :: "string \<Rightarrow> nat \<Rightarrow> string" where
  "update_declared_stage_marker s stage = concat (restage stage False False True False (split_inclusive [] s))"

definition backfill_rfc_lifecycle_metadata_content :: "string \<Rightarrow> string \<Rightarrow> nat \<Rightarrow> string option \<Rightarrow> string" where
  "backfill_rfc_lifecycle_metadata_content s status stage reason =
     (let metadata = rfc_metadata_preamble s; withdrawn = (lower status = ''withdrawn'');
          label = (if withdrawn then ''Withdrawal reason'' else ''Archived reason'');
          specific = declared_metadata_value metadata label; generic = declared_metadata_value metadata ''Reason'';
          available = or_stage (dv_value specific) (or_stage (dv_value generic)
            (case reason of Some r \<Rightarrow> if trim r = [] then None else Some r | None \<Rightarrow> None));
          reasons = (case available of
              Some v \<Rightarrow> (if dv_declared specific \<and> dv_value specific = None then [(label, v)] else [])
                @ (if dv_declared generic \<and> dv_value generic = None then [(''Reason'', v)] else [])
                @ (if \<not> dv_declared specific \<and> \<not> dv_declared generic then [(''Reason'', v)] else [])
            | None \<Rightarrow> if \<not> dv_declared specific \<and> \<not> dv_declared generic then [(''Reason'', [])] else []);
          stages = (if Option.bind (dv_value (declared_metadata_value metadata ''Stage'')) parse_declared_stage = None
            then [(''Stage'', show_nat stage)] else []);
          statuses = (if declared_lifecycle_status metadata \<noteq> Some (if withdrawn then ''withdrawn'' else ''archived'')
            then [(''Status'', status)] else [])
      in upsert_rfc_metadata_markers s (statuses @ stages @ reasons))"

section \<open>Relation markers\<close>

definition merge_relationship_refs :: "string option list \<Rightarrow> string" where
  "merge_relationship_refs vs =
     join_with '', '' (nub_on relationship_id_key []
       (map (\<lambda>i. trim (strip_prefix_or ''RFC '' i)) (concat (map split_ids (List.map_filter id vs)))))"

definition format_rfc_relationship_refs :: "string \<Rightarrow> string" where
  "format_rfc_relationship_refs v = join_with '', '' (map (\<lambda>p. if starts_with p ''RFC '' then p else ''RFC '' @ p) (split_ids v))"

definition format_relationship_marker :: "string \<Rightarrow> string \<Rightarrow> string" where
  "format_relationship_marker label v = ''- '' @ bold label @ '': '' @ format_rfc_relationship_refs v"

definition relationship_table_row_cleaned_value :: "(string \<Rightarrow> bool) \<Rightarrow> string \<Rightarrow> string \<Rightarrow> string option option" where
  "relationship_table_row_cleaned_value W l label =
     (if starts_with (trim l) ''|'' then relationship_line_cleaned_value W l label else None)"

definition render_relationship_table_row :: "string \<Rightarrow> string \<Rightarrow> string \<Rightarrow> string" where
  "render_relationship_table_row l label v =
     take (length l - length (trim_start l)) l @ ''| '' @ bold label @ '' | '' @ format_rfc_relationship_refs v @ '' |''"

text \<open>The words before the target stay. A value is made of numbers, so nothing in it refers to a group.\<close>

definition replace_rfc_refs_in_line :: "(string \<Rightarrow> bool) \<Rightarrow> string \<Rightarrow> string \<Rightarrow> string" where
  "replace_rfc_refs_in_line W l v = (case find_superseded_by W l of
     Some (before, k, _, rest) \<Rightarrow> before @ k @ format_rfc_relationship_refs v @ rest | None \<Rightarrow> l)"

datatype source_replacement = CompactMarker | PreserveLine string

definition relationship_source_replacement :: "(string \<Rightarrow> bool) \<Rightarrow> string \<Rightarrow> string \<Rightarrow> string \<Rightarrow> source_replacement option" where
  "relationship_source_replacement W l label v =
     (if relationship_table_row_cleaned_value W l label \<noteq> None then Some (PreserveLine (render_relationship_table_row l label v))
      else if label = ''Superseded by''
        \<and> (superseded_by_status_or_reason_value W l \<noteq> None \<or> superseded_by_sentence_value W l \<noteq> None)
      then Some (PreserveLine (replace_rfc_refs_in_line W l v))
      else if relationship_line_cleaned_value W l label \<noteq> None then Some CompactMarker else None)"

text \<open>The lines with the marker in place, and whether it is.\<close>

fun place_marker :: "(string \<Rightarrow> bool) \<Rightarrow> string \<Rightarrow> string \<Rightarrow> bool \<Rightarrow> bool \<Rightarrow> string list \<Rightarrow> string list \<times> bool" where
  "place_marker W label v source placed [] = ([], placed)"
| "place_marker W label v source placed (l # ls) =
     (let marker = format_relationship_marker label v; go = (\<lambda>front placed. let (rest, b) = place_marker W label v source placed ls in (front @ rest, b))
      in case relationship_source_replacement W l label v of
           Some CompactMarker \<Rightarrow> go (if placed then [] else [marker]) True
         | Some (PreserveLine k) \<Rightarrow> go [k] True
         | None \<Rightarrow> if \<not> source \<and> \<not> placed \<and> starts_with l ''# RFC '' then go [l, [], marker, []] True else go [l] placed)"

definition upsert_rfc_relationship_marker :: "(string \<Rightarrow> bool) \<Rightarrow> string \<Rightarrow> string \<Rightarrow> string \<Rightarrow> string" where
  "upsert_rfc_relationship_marker W s label v =
     (let ls = text_lines s; source = list_ex (\<lambda>l. relationship_source_replacement W l label v \<noteq> None) ls;
          (out, placed) = place_marker W label v source False ls
      in if placed then unlines out
         else (if out = [] then [nl] else unlines out) @ [nl] @ format_relationship_marker label v @ [nl])"

section \<open>Finding a document\<close>

definition validate_rfc_id :: "string \<Rightarrow> string + int" where
  "validate_rfc_id i =
     (if i = [] \<or> \<not> list_all is_digit i then Inl (''Invalid RFC ID: '' @ i)
      else or_error (''Invalid RFC ID: '' @ i) (parse_rfc_number i))"

text \<open>The documents of the collection, by path and file name, in the order of the walk.\<close>

definition find_optional_rfc_file :: "(string \<times> string) list \<Rightarrow> string \<Rightarrow> string + string option" where
  "find_optional_rfc_file docs i =
     and_then (validate_rfc_id i) (\<lambda>n.
       case filter (\<lambda>(_, name). name \<notin> set skip_rfc_files \<and> parse_rfc_number name = Some n) docs of
         [] \<Rightarrow> Inr None
       | [(path, _)] \<Rightarrow> Inr (Some path)
       | ds \<Rightarrow> Inl (''RFC '' @ i @ '' is ambiguous; multiple files matched:'' @ [nl] @ ''  - '' @ join_with ([nl] @ ''  - '') (map fst ds)))"

definition find_rfc_file :: "string \<Rightarrow> (string \<times> string) list \<Rightarrow> string \<Rightarrow> string + string" where
  "find_rfc_file rfc_root docs i =
     and_then (find_optional_rfc_file docs i) (\<lambda>found. or_error (''RFC '' @ i @ '' not found under '' @ rfc_root) found)"

section \<open>Records after a command\<close>

definition default_rfc_record :: "rfc_document \<Rightarrow> rfc_record" where
  "default_rfc_record p =
     \<lparr>rr_text_id = doc_text_id p, rr_number = doc_number p, rr_title = doc_title p, rr_stage = doc_stage p, rr_status = doc_status p,
      rr_feature = None, rr_slug = doc_slug p, rr_path = doc_path p, rr_superseded_by = None, rr_supersedes = None,
      rr_withdrawal_reason = None, rr_archived_reason = None, rr_consolidated_into = None\<rparr>"

definition load_rfc_record_by_text_id :: "(rfc_record \<times> rfc_provenance) list \<Rightarrow> string \<Rightarrow> rfc_record option" where
  "load_rfc_record_by_text_id es t = rfc_with_id t (map fst es)"

definition load_rfc_record_by_text_or_number :: "(rfc_record \<times> rfc_provenance) list \<Rightarrow> rfc_document \<Rightarrow> string + rfc_record option" where
  "load_rfc_record_by_text_or_number es p = (case load_rfc_record_by_text_id es (doc_text_id p) of
     Some r \<Rightarrow> Inr (Some r)
   | None \<Rightarrow> map_sum id (map_option fst) (select_effective_rfc_by_number es (doc_number p)))"

definition known_record :: "rfc_document \<Rightarrow> rfc_record option \<Rightarrow> rfc_record" where
  "known_record p r = (case r of Some r \<Rightarrow> r | None \<Rightarrow> default_rfc_record p)"

definition sync_parsed_relationships :: "rfc_document \<Rightarrow> bool \<Rightarrow> rfc_record \<Rightarrow> rfc_record" where
  "sync_parsed_relationships p clear r =
     r\<lparr>rr_superseded_by := (if dv_declared (doc_superseded_by p) \<or> clear then dv_value (doc_superseded_by p) else rr_superseded_by r),
       rr_supersedes := (if dv_declared (doc_supersedes p) \<or> clear then dv_value (doc_supersedes p) else rr_supersedes r)\<rparr>"

definition take_identity :: "rfc_document \<Rightarrow> rfc_record \<Rightarrow> rfc_record" where
  "take_identity p r = r\<lparr>rr_text_id := doc_text_id p, rr_title := doc_title p, rr_stage := doc_stage p, rr_status := doc_status p,
     rr_slug := doc_slug p, rr_path := doc_path p\<rparr>"

definition edit_record :: "rfc_document \<Rightarrow> rfc_record option \<Rightarrow> string option \<Rightarrow> bool \<Rightarrow> rfc_record" where
  "edit_record p existing feature clear =
     (let r = sync_parsed_relationships p clear (take_identity p (known_record p existing))
      in case feature of Some f \<Rightarrow> r\<lparr>rr_feature := Some f\<rparr> | None \<Rightarrow> r)"

definition identity_record :: "rfc_document \<Rightarrow> rfc_record option \<Rightarrow> bool \<Rightarrow> rfc_record" where
  "identity_record p existing renumber =
     (let r = take_identity p (sync_parsed_relationships p False (known_record p existing))
      in if renumber then r\<lparr>rr_number := doc_number p\<rparr> else r)"

definition retired_record :: "rfc_document \<Rightarrow> rfc_record option \<Rightarrow> bool \<Rightarrow> nat \<Rightarrow> string option \<Rightarrow> rfc_record" where
  "retired_record p existing withdraw stage reason =
     (take_identity p (sync_parsed_relationships p False (known_record p existing)))
       \<lparr>rr_stage := max (doc_stage p) stage,
        rr_withdrawal_reason := (if withdraw then reason else None), rr_archived_reason := (if withdraw then None else reason)\<rparr>"

text \<open>The record and the text of the superseded document, then of the superseding one.\<close>

definition superseded_by_record :: "rfc_document \<Rightarrow> rfc_record option \<Rightarrow> string \<Rightarrow> rfc_record" where
  "superseded_by_record p existing other =
     (take_identity p (sync_parsed_relationships p False (known_record p existing)))\<lparr>rr_superseded_by := Some other\<rparr>"

definition superseded_ids :: "rfc_document \<Rightarrow> rfc_record option \<Rightarrow> string \<Rightarrow> string" where
  "superseded_ids p existing i =
     merge_relationship_refs [dv_value (doc_supersedes p),
       if dv_declared (doc_supersedes p) then None else rr_supersedes (sync_parsed_relationships p False (known_record p existing)), Some i]"

definition supersedes_record :: "rfc_document \<Rightarrow> rfc_record option \<Rightarrow> string \<Rightarrow> rfc_record" where
  "supersedes_record p existing i =
     (take_identity p (sync_parsed_relationships p False (known_record p existing)))\<lparr>rr_supersedes := Some (superseded_ids p existing i)\<rparr>"

section \<open>Commands on a document\<close>

text \<open>Withdrawing and archiving: the stage and the reason that are kept, and the new text. \<open>stored\<close> is
  the stage of the record the view has under the document's anchor.\<close>

definition retired_stage :: "string \<Rightarrow> string \<Rightarrow> nat option \<Rightarrow> nat" where
  "retired_stage path s stored =
     (if parse_status path \<in> {''withdrawn'', ''archived''} then retired_rfc_stage_from_document s stored (parse_stage path) else parse_stage path)"

definition retired_reason :: "string \<Rightarrow> string \<Rightarrow> string option \<Rightarrow> string option" where
  "retired_reason path s reason = (case reason of
     Some r \<Rightarrow> Some r
   | None \<Rightarrow> if parse_status path \<in> {''withdrawn'', ''archived''} then retired_rfc_reason_from_document s (parse_status path) else None)"

definition retired_text :: "bool \<Rightarrow> string \<Rightarrow> string \<Rightarrow> nat option \<Rightarrow> string option \<Rightarrow> string" where
  "retired_text withdraw path s stored reason =
     materialize_rfc_lifecycle_metadata_content s (if withdraw then ''Withdrawn'' else ''Archived'')
       (retired_stage path s stored) (retired_reason path s reason)"

text \<open>The new text of an edit with a title or a body; the old title comes with it.\<close>

definition edited_text :: "string \<Rightarrow> string \<Rightarrow> string \<Rightarrow> string option \<Rightarrow> string option \<Rightarrow> string + string" where
  "edited_text s i old_title title body =
     and_then (split_anchor_and_body s) (\<lambda>(anchor, existing_body).
       let new_title = (case title of Some t \<Rightarrow> t | None \<Rightarrow> old_title)
       in Inr (case body of
            None \<Rightarrow> render_anchor_line_content anchor (drop_char nl (update_first_h1_title existing_body i new_title))
          | Some b \<Rightarrow> render_existing_anchor_rfc_content anchor i new_title b))"

text \<open>Promotion: the next stage and the text that agrees with it.\<close>

definition promoted :: "string \<Rightarrow> nat \<Rightarrow> string \<Rightarrow> string \<Rightarrow> string \<Rightarrow> string + nat \<times> string" where
  "promoted number stage i path s =
     (if 4 \<le> stage then Inl (''RFC '' @ number @ '' is already at Stage 4 (Stable).'')
      else and_then (or_error (''RFC '' @ i @ '' is missing an anchor ULID in '' @ path) (extract_anchor_ulid s)) (\<lambda>_.
        Inr (stage + 1, update_declared_stage_marker s (stage + 1))))"

end
