(* ===== verification/Rfc_Create.thy ===== *)
theory Rfc_Create
  imports Rfc_Edit
begin

text \<open>
  Creating an RFC: the document that is written reads back with its anchor, its number and its
  title, and the number is new to the view. Before that, trimming and lines, as the proofs about
  documents need them: text that begins and ends with a character of one byte that is not white
  space is trimmed, and lines without a line end or a carriage return are written and read back.
\<close>

section \<open>Trimming\<close>

text \<open>A character of one byte that is not white space.\<close>

definition solid :: "char \<Rightarrow> bool" where
  "solid c \<longleftrightarrow> byte c < 128 \<and> byte c \<noteq> 32 \<and> \<not> (9 \<le> byte c \<and> byte c \<le> 13)"

lemma space_len_solid: "solid c \<Longrightarrow> space_len (c # s) = 0"
proof -
  assume "solid c"
  then have b: "\<not> (9 \<le> byte c \<and> byte c \<le> 13 \<or> byte c = 32)" "byte c \<noteq> 194" "byte c \<noteq> 225" "byte c \<noteq> 226" "byte c \<noteq> 227"
    unfolding solid_def by arith+
  show ?thesis
    unfolding space_len_def take_Suc_Cons numeral_3_eq_3 list.map list.case if_not_P [OF b(1)] by (simp add: b(2-5) split: list.split)
qed

lemma trim_start_solid: "solid c \<Longrightarrow> trim_start (c # s) = c # s"
  by (subst trim_start.simps) (simp add: space_len_solid)

lemma trim_start_space: "trim_start (CHR '' '' # s) = trim_start s"
  by (subst trim_start.simps) (simp add: space_len_def)

lemma space_len_two: "solid c \<Longrightarrow> space_len [b, c] \<noteq> 2"
proof -
  assume "solid c"
  then have "byte c \<noteq> 133" "byte c \<noteq> 160" unfolding solid_def by arith+
  then show ?thesis by (simp add: space_len_def)
qed

lemma space_len_three: "solid c \<Longrightarrow> space_len [a, b, c] \<noteq> 3"
proof -
  assume "solid c"
  then have "byte c < 128" unfolding solid_def by arith
  then have "byte c \<noteq> 128" "\<not> 128 \<le> byte c" "byte c \<notin> {168, 169, 175}" "byte c \<noteq> 159" by auto
  then show ?thesis by (simp add: space_len_def)
qed

lemma space_len_end_solid: "solid c \<Longrightarrow> space_len_end (s @ [c]) = 0"
proof -
  assume c: "solid c"
  have two: "space_len (drop (length (s @ [c]) - 2) (s @ [c])) \<noteq> 2" if long: "2 \<le> length (s @ [c])"
  proof -
    obtain t b where "s = t @ [b]" using long by (cases s rule: rev_cases) auto
    then show ?thesis using space_len_two [OF c] by simp
  qed
  have three: "space_len (drop (length (s @ [c]) - 3) (s @ [c])) \<noteq> 3" if long: "3 \<le> length (s @ [c])"
  proof -
    obtain t b where t: "s = t @ [b]" using long by (cases s rule: rev_cases) auto
    then obtain u a where "t = u @ [a]" using long by (cases t rule: rev_cases) auto
    then show ?thesis using t space_len_three [OF c] by simp
  qed
  have "space_len [c] = 0" by (rule space_len_solid [OF c])
  then show ?thesis using two three by (auto simp: space_len_end_def)
qed

lemma trim_end_solid: "solid c \<Longrightarrow> trim_end (s @ [c]) = s @ [c]"
  by (subst trim_end.simps) (simp add: space_len_end_solid)

lemma trim_solid: "s \<noteq> [] \<Longrightarrow> solid (hd s) \<Longrightarrow> solid (last s) \<Longrightarrow> trim s = s"
proof -
  assume s: "s \<noteq> []" "solid (hd s)" "solid (last s)"
  have "trim_start s = s" using s(1,2) by (cases s) (simp_all add: trim_start_solid)
  moreover have "trim_end s = s" using s(1,3) trim_end_solid [of "last s" "butlast s"] by simp
  ultimately show ?thesis by (simp add: trim_def)
qed

lemma trim_blank: "trim (CHR '' '' # s) = trim s"
  by (simp add: trim_def trim_start_space)

lemma trim_end_keeps_hd: "solid c \<Longrightarrow> \<exists>t. trim_end (c # s) = c # t"
proof (induction "length s" arbitrary: s rule: less_induct)
  case less
  show ?case
  proof (cases "space_len_end (c # s) = 0")
    case True
    then show ?thesis by (subst trim_end.simps) simp
  next
    case False
    let ?n = "space_len_end (c # s)"
    have "?n \<noteq> length (c # s)"
    proof
      assume n: "?n = length (c # s)"
      then have "space_len (c # s) = length (c # s)"
        using False by (auto simp: space_len_end_def split: if_splits)
      then show False using space_len_solid [OF less.prems] by simp
    qed
    then have n: "?n \<le> length s" using space_len_end_le [of "c # s"] by simp
    then have take: "take (length (c # s) - ?n) (c # s) = c # take (length s - ?n) s" by (simp add: Suc_diff_le)
    have "trim_end (c # s) = trim_end (c # take (length s - ?n) s)"
      using False by (subst trim_end.simps) (simp add: take [simplified])
    moreover have "length (take (length s - ?n) s) < length s" using False n by simp
    ultimately show ?thesis using less.hyps less.prems by simp
  qed
qed

lemma trim_keeps_hd: "solid c \<Longrightarrow> \<exists>t. trim (c # s) = c # t"
  by (simp add: trim_def trim_start_solid trim_end_keeps_hd)

section \<open>Lines\<close>

definition plain_line :: "string \<Rightarrow> bool" where
  "plain_line l \<longleftrightarrow> nl \<notin> set l \<and> CHR 0x0D \<notin> set l"

lemma strip_cr_plain: "plain_line l \<Longrightarrow> strip_cr l = l"
  by (metis last_in_set plain_line_def strip_cr_def)

lemma text_lines_unlines: "list_all plain_line ls \<Longrightarrow> text_lines (unlines ls) = ls"
proof (induction ls)
  case Nil
  then show ?case by (simp add: unlines_def text_lines_def)
next
  case (Cons l ls)
  then have "plain_line l" "text_lines (unlines ls) = ls" by simp_all
  then show ?case using text_lines_cons [of l "unlines ls"] by (simp add: unlines_def strip_cr_plain plain_line_def)
qed

lemma lines_from_plain: "CHR 0x0D \<notin> set s \<Longrightarrow> plain_line acc \<Longrightarrow> list_all plain_line (lines_from acc s)"
proof (induction s arbitrary: acc)
  case (Cons c s)
  then show ?case by (cases "c = nl") (auto simp: strip_cr_plain plain_line_def)
qed simp

lemma text_lines_plain: "CHR 0x0D \<notin> set s \<Longrightarrow> list_all plain_line (text_lines s)"
  unfolding text_lines_def by (rule lines_from_plain) (simp_all add: plain_line_def)

lemma text_lines_joined:
  "list_all plain_line ls \<Longrightarrow> text_lines (join_with [nl] ls) = (if ls \<noteq> [] \<and> last ls = [] then butlast ls else ls)"
proof (induction ls rule: induct_list012)
  case (2 l)
  have "lines_from [] l = (if l = [] then [] else [l])" using lines_from_append [of l "[]" "[]"] 2 by (simp add: plain_line_def)
  then show ?case by (simp add: text_lines_def)
next
  case (3 l k ls)
  then have "plain_line l" "text_lines (join_with [nl] (k # ls)) = (if last (k # ls) = [] then butlast (k # ls) else k # ls)" by simp_all
  then show ?case using text_lines_cons [of l "join_with [nl] (k # ls)"] by (simp add: strip_cr_plain plain_line_def)
qed (simp add: text_lines_def)

lemma run_append: "p \<noteq> [] \<Longrightarrow> list_all P p \<Longrightarrow> \<not> P c \<Longrightarrow> run_of P (p @ c # s) = Some (p, c # s)"
proof -
  assume a: "p \<noteq> []" "list_all P p" "\<not> P c"
  then have "takeWhile P (p @ c # s) = p" "dropWhile P (p @ c # s) = c # s"
    by (simp_all add: list_all_iff takeWhile_append2 dropWhile_append2)
  then show ?thesis using a(1) by (simp add: run_of_def)
qed

lemma run_none: "\<not> P c \<Longrightarrow> run_of P (c # s) = None"
  by (simp add: run_of_def)

lemma digits_of_int: "0 \<le> n \<Longrightarrow> show_int n \<noteq> [] \<and> list_all is_digit (show_int n)"
  using show_nat_digits [of "nat n"] by (simp add: show_int_def)

lemma solid_alnum: "is_alnum c \<Longrightarrow> solid c"
  unfolding is_alnum_def is_digit_def solid_def by arith

lemma space_len_blank: "space_len (CHR '' '' # s) = 1"
  by (simp add: space_len_def)

lemma trim_start_alnum: "is_alnum c \<Longrightarrow> trim_start (c # s) = c # s"
  by (rule trim_start_solid) (rule solid_alnum)

lemma strip_prefix_Cons: "strip_prefix (c # p) (c # s) = strip_prefix p s" "strip_prefix [] s = Some s"
  by (simp_all add: strip_prefix_def)

lemma created_anchor:
  assumes n: "0 \<le> n" and t: "text_id \<noteq> []" "list_all is_alnum text_id"
  shows "strict_anchor (anchor_line n text_id @ s) = Some (show_int n, text_id)"
proof -
  have d: "run_of is_digit (show_int n @ CHR '' '' # u) = Some (show_int n, CHR '' '' # u)" for u
    by (rule run_append) (use digits_of_int [OF n] in \<open>simp_all add: is_digit_def\<close>)
  have u: "run_of is_alnum (text_id @ CHR '' '' # u) = Some (text_id, CHR '' '' # u)" for u
    by (rule run_append) (use t in \<open>simp_all add: is_alnum_def is_digit_def\<close>)
  show ?thesis by (simp add: strict_anchor_def anchor_line_def strip_prefix_Cons d u starts_with_def)
qed

lemma negative_anchor:
  assumes n: "n < 0"
  shows "extract_anchor_rfc_number (anchor_line n text_id @ s) = None"
proof -
  obtain v where v: "show_int n = CHR ''-'' # v" using n by (simp add: show_int_def)
  have d: "run_of is_digit (CHR ''-'' # u) = None" for u by (simp add: run_of_def is_digit_def)
  have e: "trim_start (CHR ''e'' # u) = CHR ''e'' # u" for u by (rule trim_start_alnum) (simp add: is_alnum_def)
  show ?thesis
    by (simp add: extract_anchor_rfc_number_def strict_anchor_def extract_partial_anchor_rfc_number_def anchor_line_def v
        strip_prefix_Cons d e trim_start_space)
qed

lemma created_has_anchor: "has_anchor (anchor_line n text_id @ s)"
proof -
  have e: "trim_start (CHR ''e'' # u) = CHR ''e'' # u" for u by (rule trim_start_alnum) (simp add: is_alnum_def)
  show ?thesis by (simp add: has_anchor_def anchor_line_def strip_prefix_Cons e trim_start_space starts_with_def)
qed

lemma created_title:
  assumes n: "0 \<le> n" and t: "nl \<notin> set text_id" and title: "title = c # rest" "is_alnum c" "nl \<notin> set title" "trim title = title"
  shows "extract_h1_title (anchor_line n text_id @ [nl, nl] @ ''# RFC '' @ show_int n @ '': '' @ title @ nl # s) = Some title"
proof -
  have line: "nl \<notin> set (anchor_line n text_id)"
    using t digits_of_int [OF n] by (auto simp: anchor_line_def list_all_iff is_digit_def)
  have d: "run_of is_digit (show_int n @ CHR '':'' # u) = Some (show_int n, CHR '':'' # u)" for u
    by (rule run_append) (use digits_of_int [OF n] in \<open>simp_all add: is_digit_def\<close>)
  obtain k ks where k: "show_int n = k # ks" "is_digit k" using digits_of_int [OF n] by (cases "show_int n") auto
  have k': "trim_start (k # u) = k # u" for u by (rule trim_start_alnum) (simp add: is_alnum_def k(2))
  have R: "trim_start (CHR ''R'' # u) = CHR ''R'' # u" for u by (rule trim_start_alnum) (simp add: is_alnum_def)
  have after: "after_rfc_number (''RFC '' @ show_int n @ '': '' @ title @ nl # s) = Some (CHR '' '' # title @ nl # s)"
    using d [of "CHR '' '' # title @ nl # s"] k'
    by (simp add: after_rfc_number_def strip_prefix_Cons space_len_blank trim_start_space k(1))
  have first: "first_line (title @ nl # s) = title" unfolding first_line_def by (subst takeWhile_append2) (use title(3) in auto)
  have start: "trim_start (CHR '' '' # title @ nl # s) = title @ nl # s"
    by (simp add: trim_start_space title(1) trim_start_alnum [OF title(2)])
  have "title_at ('' RFC '' @ show_int n @ '': '' @ title @ nl # s) = Some title"
    using after by (simp add: title_at_def space_len_blank trim_start_space R Let_def start [unfolded trim_start_space] first title(4))
  then have h: "extract_h1_title (CHR ''#'' # '' RFC '' @ show_int n @ '': '' @ title @ nl # s) = Some title"
    by (simp only: extract_h1_title.simps if_True refl option.case)
  have skip: "extract_h1_title (a @ nl # u) = extract_h1_title u" if "nl \<notin> set a" "a = [] \<or> hd a \<noteq> CHR ''#''" for a u
    using split_once_nl_append [OF that(1), of u] that(2) by (cases a) auto
  have "anchor_line n text_id \<noteq> [] \<and> hd (anchor_line n text_id) \<noteq> CHR ''#''" by (simp add: anchor_line_def)
  then have "extract_h1_title (anchor_line n text_id @ nl # nl # u) = extract_h1_title u" for u
    using skip [OF line] skip [of "[]"] by simp
  then show ?thesis using h by simp
qed

text \<open>What can be created: the number and the text of the new document.\<close>

lemma create_cases:
  assumes "create_rfc names es title i feature stage text_id body = Inr (r, s)"
  obtains b where "s = render_anchor_rfc_content (rr_number r) text_id title b" "rr_text_id r = text_id" "rr_title r = title"
    "rr_number r \<le> 2 ^ 63 - 1" "\<not> list_ex (\<lambda>e. rr_number (fst e) = rr_number r) es"
proof -
  obtain t number where t: "parse_i64 t = Some number" "\<not> list_ex (\<lambda>e. rr_number (fst e) = number) es"
    "r = create_record t text_id number title feature stage"
    "s = render_anchor_rfc_content number text_id title (case body of Some b \<Rightarrow> b | None \<Rightarrow> ''Write your RFC content here.'')"
    using assms by (auto simp: create_rfc_def and_then_Inr_conv or_error_def split: if_splits option.splits)
  then show ?thesis using parse_int_bounds [OF t(1)] by (intro that) (auto simp: create_record_def)
qed

text \<open>
  C22. A created document reads back: when an RFC is created with an alphanumeric anchor and a
  trimmed title of one line that begins with a letter or a digit, its number is new to the view and
  its text has an anchor; when the number is not negative, the anchor is read back as the RFC's own
  number and identity and the heading as its title. The anchor of a negative number,
  which is accepted, cannot be read.
\<close>
theorem created_rfc_reads_back:
  assumes "create_rfc names es title i feature stage text_id body = Inr (r, s)"
    and "text_id \<noteq> []" and "list_all is_alnum text_id"
    and "title = c # rest" and "is_alnum c" and "nl \<notin> set title" and "trim title = title"
  shows "\<not> list_ex (\<lambda>e. rr_number (fst e) = rr_number r) es \<and> has_anchor s
    \<and> (if 0 \<le> rr_number r
       then extract_anchor_rfc_number s = Some (rr_number r) \<and> extract_anchor_ulid s = Some (rr_text_id r) \<and> extract_h1_title s = Some (rr_title r)
       else extract_anchor_rfc_number s = None)"
proof -
  obtain b where b: "s = render_anchor_rfc_content (rr_number r) text_id title b" "rr_text_id r = text_id" "rr_title r = title"
    "rr_number r \<le> 2 ^ 63 - 1" "\<not> list_ex (\<lambda>e. rr_number (fst e) = rr_number r) es"
    by (rule create_cases [OF assms(1)])
  have one_line: "nl \<notin> set text_id" using assms(3) by (auto simp: list_all_iff is_alnum_def is_digit_def)
  obtain u where u: "s = anchor_line (rr_number r) text_id @ [nl, nl] @ ''# RFC '' @ show_int (rr_number r) @ '': '' @ title @ nl # u"
    using b(1) by (simp add: render_anchor_rfc_content_def)
  show ?thesis
  proof (cases "0 \<le> rr_number r")
    case True
    note a = created_anchor [OF True assms(2,3)]
    have "extract_anchor_rfc_number s = Some (rr_number r)"
      unfolding extract_anchor_rfc_number_def u a using True b(4) by (simp add: parse_show_int)
    moreover have "extract_anchor_ulid s = Some text_id" unfolding extract_anchor_ulid_def u a by simp
    moreover have "extract_h1_title s = Some title" unfolding u by (rule created_title [OF True one_line assms(4-7)])
    ultimately show ?thesis using True b(2,3,5) created_has_anchor by (simp add: u)
  next
    case False
    then show ?thesis using b(5) created_has_anchor negative_anchor by (simp add: u)
  qed
qed

lemma created_rfc_reads_back_witness:
  "\<exists>r s. create_rfc [] [] ''T'' (Some ''7'') ''F'' 0 ''a1'' None = Inr (r, s) \<and> extract_anchor_rfc_number s = Some 7"
proof -
  have p: "parse_i64 ''7'' = Some 7" by (simp add: parse_int_def parse_nat_def digits_value_def digit_value_def is_digit_def)
  have t: "trim ''T'' = ''T''" by code_simp
  have list_ex_base: "list_ex P [] = False" for P :: "rfc_record \<times> rfc_provenance \<Rightarrow> bool" by simp
  obtain r s where rs: "create_rfc [] [] ''T'' (Some ''7'') ''F'' 0 ''a1'' None = Inr (r, s)" "rr_number r = 7"
    by (simp only: create_rfc_def option.case and_then_simps or_error_def p list_ex_base if_False) (simp add: create_record_def)
  have "list_all is_alnum ''a1''" "is_alnum (CHR ''T'')" by (simp_all add: is_alnum_def is_digit_def)
  with created_rfc_reads_back [OF rs(1) _ _ refl _ _ t] rs show ?thesis by auto
qed

end
