(* ===== verification/Rfc_Retire.thy ===== *)
theory Rfc_Retire
  imports Rfc_Create Rfc_Shared
begin

text \<open>
  Withdrawing and archiving write markers into a document; whatever it declared before, parsing it
  in its new place gives back the status, the stage and the reason that were written.
\<close>

section \<open>Lines that declare nothing\<close>

lemma normalize_solid: "solid c \<Longrightarrow> c \<notin> {CHR ''>'', CHR ''-'', CHR ''|''} \<Longrightarrow> \<exists>t. normalize_relationship_line (c # s) = c # t"
proof -
  assume c: "solid c" "c \<notin> {CHR ''>'', CHR ''-'', CHR ''|''}"
  obtain t1 where 1: "trim (c # s) = c # t1" using trim_keeps_hd [OF c(1)] by blast
  obtain t2 where 2: "trim (c # t1) = c # t2" using trim_keeps_hd [OF c(1)] by blast
  obtain t3 where 3: "trim (c # t2) = c # t3" using trim_keeps_hd [OF c(1)] by blast
  obtain t4 where 4: "trim (c # t3) = c # t4" using trim_keeps_hd [OF c(1)] by blast
  show ?thesis using c(2) by (simp add: normalize_relationship_line_def drop_char_def 1 2 3 4)
qed

lemma trim_trim_start: "trim (trim_start s) = trim s"
proof -
  have "trim_start (trim_start s) = trim_start s"
  proof (induction s rule: trim_start.induct)
    case (1 s)
    show ?case
    proof (cases "s = [] \<or> space_len s = 0")
      case True
      then have "trim_start s = s" by (subst trim_start.simps) simp
      then show ?thesis by simp
    next
      case False
      then have "trim_start s = trim_start (drop (space_len s) s)" by (subst trim_start.simps) simp
      then show ?thesis using 1 False by simp
    qed
  qed
  then show ?thesis by (simp add: trim_def)
qed

lemma normalize_trim_start: "normalize_relationship_line (trim_start s) = normalize_relationship_line s"
  by (simp add: normalize_relationship_line_def trim_trim_start)

lemma fence_start: "is_fence l \<Longrightarrow> \<exists>c s. trim_start l = c # s \<and> (c = CHR 0x60 \<or> c = CHR ''~'')"
  by (auto simp: is_fence_def numeral_3_eq_3 split: option.splits)

text \<open>The labels of the markers.\<close>

definition lifecycle_labels :: "string set" where
  "lifecycle_labels = {''Status'', ''Stage'', ''Reason'', ''Withdrawal reason'', ''Archived reason''}"

lemma strip_prefix_other: "x \<noteq> c \<Longrightarrow> strip_prefix (x # p) (c # s) = None"
  by (simp add: strip_prefix_def)

lemma fence_declares_nothing: "is_fence l \<Longrightarrow> label \<in> lifecycle_labels \<Longrightarrow> declared_in_line l label = None"
proof -
  assume l: "is_fence l" "label \<in> lifecycle_labels"
  obtain c s where c: "trim_start l = c # s" "c = CHR 0x60 \<or> c = CHR ''~''" using fence_start [OF l(1)] by blast
  then have "solid c" "c \<notin> {CHR ''>'', CHR ''-'', CHR ''|''}" by (auto simp: solid_def)
  then obtain t where "normalize_relationship_line l = c # t"
    using normalize_solid [of c s] normalize_trim_start [of l] c(1) by auto
  moreover have "strip_first [label, bold label] (c # t) = None"
    using l(2) c(2) unfolding lifecycle_labels_def bold_def
    by (elim insertE emptyE disjE; hypsubst; simp add: strip_prefix_other)
  ultimately show ?thesis by (simp add: declared_in_line_def)
qed

lemma fence_not_blank: "is_fence l \<Longrightarrow> trim l \<noteq> []"
proof -
  assume "is_fence l"
  then obtain c s where c: "trim_start l = c # s" "solid c" using fence_start [of l] by (auto simp: solid_def)
  then show ?thesis using trim_keeps_hd [of c s] trim_trim_start [of l] by auto
qed

lemma declares_nothing_empty: "label \<in> lifecycle_labels \<Longrightarrow> declared_in_line [] label = None"
  unfolding lifecycle_labels_def by (elim insertE emptyE; hypsubst) code_simp+

abbreviation lifecycle_markers :: "string \<Rightarrow> string \<Rightarrow> string \<Rightarrow> (string \<times> string) list" where
  "lifecycle_markers status stage reason \<equiv> [(''Status'', status), (''Stage'', stage), (''Reason'', reason)]"

lemma replaced_declares:
  "list_ex (\<lambda>(label, _). metadata_marker_is_replaced l label) (lifecycle_markers a b c) \<longleftrightarrow> (\<exists>label \<in> lifecycle_labels. declared_in_line l label \<noteq> None)"
  by (auto simp: metadata_marker_is_replaced_def lifecycle_labels_def)

lemma kept_declare_nothing:
  "k \<in> set (preamble_lines fence (keep_unmarked (lifecycle_markers a b c) fence True skip ls)) \<Longrightarrow> label \<in> lifecycle_labels \<Longrightarrow> declared_in_line k label = None"
proof (induction ls arbitrary: fence skip)
  case (Cons l ls)
  let ?ms = "lifecycle_markers a b c"
  let ?replaced = "list_ex (\<lambda>(label, _). metadata_marker_is_replaced l label) ?ms"
  show ?case
  proof (cases "is_fence l")
    case True
    have "\<not> ?replaced" unfolding replaced_declares using fence_declares_nothing [OF True] by simp
    then have "keep_unmarked ?ms fence True skip (l # ls) = l # keep_unmarked ?ms (\<not> fence) True False ls"
      using True fence_not_blank [OF True] by simp
    then show ?thesis using Cons True by simp
  next
    case plain: False
    show ?thesis
    proof (cases "\<not> fence \<and> starts_with (trim_start l) ''## ''")
      case True
      then have "keep_unmarked ?ms fence True skip (l # ls) = (if skip \<and> trim l = [] then keep_unmarked ?ms fence False skip ls else l # keep_unmarked ?ms fence False False ls)"
        using plain by simp
      moreover have "trim l \<noteq> []"
      proof -
        obtain s where "trim_start l = CHR ''#'' # s" using True by (auto simp: starts_with_def)
        then show ?thesis using trim_keeps_hd [of "CHR ''#''" s] trim_trim_start [of l] by (auto simp: solid_def)
      qed
      ultimately show ?thesis using Cons.prems(1) True plain by simp
    next
      case False
      show ?thesis
      proof (cases "fence")
        case True
        then show ?thesis using Cons plain by (auto split: if_splits)
      next
        case open_text: False
        show ?thesis
        proof (cases ?replaced)
          case True
          then show ?thesis using Cons plain False open_text by (simp add: Let_def) 
        next
          case kept: False
          then have "declared_in_line l label = None" using Cons.prems(2) unfolding replaced_declares by blast
          then show ?thesis using Cons plain False open_text kept by (auto simp: Let_def split: if_splits)
        qed
      qed
    qed
  qed
qed simp

section \<open>The lines of the markers\<close>

definition status_marker :: "bool \<Rightarrow> string" where
  "status_marker w = format_rfc_metadata_marker ''Status'' (if w then ''Withdrawn'' else ''Archived'')"

definition stage_marker :: "nat \<Rightarrow> string" where
  "stage_marker n = format_rfc_metadata_marker ''Stage'' (show_nat n)"

definition reason_marker :: "string option \<Rightarrow> string" where
  "reason_marker r = format_rfc_metadata_marker ''Reason'' (case r of Some v \<Rightarrow> v | None \<Rightarrow> [])"

definition edge :: "char \<Rightarrow> bool" where
  "edge c \<longleftrightarrow> solid c \<and> c \<noteq> CHR ''|''"

text \<open>A reason that is written as one line: none, or one that neither begins nor ends with white space,
  a bar or a character of several bytes.\<close>

definition one_line_reason :: "string option \<Rightarrow> bool" where
  "one_line_reason r \<longleftrightarrow> (case r of Some v \<Rightarrow> v \<noteq> [] \<and> plain_line v \<and> edge (hd v) \<and> edge (last v) | None \<Rightarrow> True)"

lemma cut_bars: "v \<noteq> [] \<Longrightarrow> edge (hd v) \<Longrightarrow> edge (last v) \<Longrightarrow> cut_char (CHR ''|'') v = v"
proof -
  assume v: "v \<noteq> []" "edge (hd v)" "edge (last v)"
  have "dropWhile (\<lambda>x. x = CHR ''|'') v = v" using v(1,2) by (cases v) (auto simp: edge_def)
  moreover have "dropWhile (\<lambda>x. x = CHR ''|'') (rev v) = rev v" using v(1,3) by (cases v rule: rev_cases) (auto simp: edge_def)
  ultimately show ?thesis by (simp add: cut_char_def drop_char_def)
qed

lemma normalize_marker:
  assumes "v \<noteq> []" "edge (last v)"
  shows "normalize_relationship_line (format_rfc_metadata_marker label v) = bold label @ '': '' @ v"
proof -
  have t: "trim (c # s @ v) = c # s @ v" if "solid c" for c s
    by (rule trim_solid) (use assms that in \<open>simp_all add: edge_def\<close>)
  have solid: "solid (CHR ''-'')" "solid (CHR ''*'')" by (simp_all add: solid_def)
  show ?thesis
    using assms(1) t [OF solid(1), of "'' '' @ bold label @ '': ''"] t [OF solid(2), of "''*'' @ label @ ''**: ''"]
    by (simp add: format_rfc_metadata_marker_def normalize_relationship_line_def drop_char_def trim_blank bold_def)
qed

lemma strip_label:
  "label \<in> lifecycle_labels \<Longrightarrow> l \<in> lifecycle_labels \<Longrightarrow>
   strip_first [label, bold label] (bold l @ s) = (if label = l then Some s else None)"
  unfolding lifecycle_labels_def by (elim insertE emptyE; hypsubst; simp add: bold_def strip_prefix_def)

lemma marker_declares:
  assumes "label \<in> lifecycle_labels" "l \<in> lifecycle_labels" and v: "v \<noteq> []" "edge (hd v)" "edge (last v)"
  shows "declared_in_line (format_rfc_metadata_marker l v) label = (if label = l then Some (Some v) else None)"
proof -
  have tv: "trim v = v" by (rule trim_solid) (use v in \<open>simp_all add: edge_def\<close>)
  have c: "trim_start (CHR '':'' # s) = CHR '':'' # s" for s by (rule trim_start_solid) (simp add: solid_def)
  have q: "trim_start ('': '' @ v) = '': '' @ v" using c [of "'' '' @ v"] by simp
  have k: "strip_first ['':'', ''**:'', ''|''] ('': '' @ v) = Some ('' '' @ v)" by (simp add: strip_prefix_def)
  have w: "trim ('' '' @ v) = v" using trim_blank [of v] tv by simp
  show ?thesis
    unfolding declared_in_line_def normalize_marker [OF v(1,3)] strip_label [OF assms(1,2)]
    by (cases "label = l") (simp_all only: q k w tv cut_bars [OF v] some_text_def v(1) refl if_False if_True bind.bind_lunit bind.bind_lzero option.map)
qed

lemma metadata_line_declares: "metadata_line_value l label = Option.bind (declared_in_line l label) id"
  by (cases "strip_first [label, bold label] (normalize_relationship_line l)")
    (simp_all add: metadata_line_value_def declared_in_line_def Let_def bind_map_option comp_def)

lemma edge_words: "edge (hd (if w then ''Withdrawn'' else ''Archived''))" "edge (last (if w then ''Withdrawn'' else ''Archived''))"
  by (simp_all add: edge_def solid_def)

lemma small_cases: "n \<le> 4 \<Longrightarrow> n \<in> {0, 1, 2, 3, 4 :: nat}"
  by auto

lemma edge_small: "n \<le> 4 \<Longrightarrow> edge (hd (show_nat n)) \<and> edge (last (show_nat n))"
  by (drule small_cases; elim insertE emptyE; hypsubst; code_simp)

lemma declared_small: "n \<le> 4 \<Longrightarrow> parse_declared_stage (show_nat n) = Some n"
  by (drule small_cases; elim insertE emptyE; hypsubst; code_simp)

lemma reason_marker_declares:
  assumes "one_line_reason r" "label \<in> {''Reason'', ''Withdrawal reason'', ''Archived reason''}"
  shows "declared_in_line (reason_marker r) label = (if label = ''Reason'' then Some r else None)"
proof (cases r)
  case None
  have "declared_in_line (reason_marker None) ''Reason'' = Some None" "declared_in_line (reason_marker None) ''Withdrawal reason'' = None"
    "declared_in_line (reason_marker None) ''Archived reason'' = None" by code_simp+
  then show ?thesis using None assms(2) by auto
next
  case (Some v)
  then show ?thesis
    using marker_declares [of label "''Reason''" v] assms by (auto simp: reason_marker_def one_line_reason_def lifecycle_labels_def)
qed

section \<open>The preamble of a retired document\<close>

definition retired_markers :: "bool \<Rightarrow> nat \<Rightarrow> string option \<Rightarrow> (string \<times> string) list" where
  "retired_markers w n r = lifecycle_markers (if w then ''Withdrawn'' else ''Archived'') (show_nat n) (case r of Some v \<Rightarrow> v | None \<Rightarrow> [])"

lemma marker_lines_retired: "marker_lines (retired_markers w n r) = [status_marker w, stage_marker n, reason_marker r]"
  by (simp add: marker_lines_def retired_markers_def status_marker_def stage_marker_def reason_marker_def)

lemma dash_line: "l = CHR ''-'' # s \<Longrightarrow> \<not> is_fence l \<and> \<not> starts_with (trim_start l) ''## ''"
proof -
  assume l: "l = CHR ''-'' # s"
  have "trim_start l = l" unfolding l by (rule trim_start_solid) (simp add: solid_def)
  then show ?thesis using l by (simp add: is_fence_def starts_with_def strip_prefix_def numeral_3_eq_3)
qed

lemma marker_dash: "\<exists>s. format_rfc_metadata_marker label v = CHR ''-'' # s"
  by (simp add: format_rfc_metadata_marker_def)

lemma empty_line: "\<not> is_fence []" "\<not> starts_with (trim_start []) ''## ''"
  by (simp_all add: is_fence_def starts_with_def strip_prefix_def trim_start.simps numeral_3_eq_3)

lemma kept_line: "x \<in> set (keep_unmarked ms fence pre skip ls) \<Longrightarrow> x \<in> set ls"
proof (induction ls arbitrary: fence pre skip)
  case (Cons l ls)
  then show ?case by (auto simp: Let_def split: if_splits)
qed simp

lemma kept_lines: "set (keep_unmarked ms fence pre skip ls) \<subseteq> set ls"
  using kept_line by blast

lemma preamble_marker: "preamble_lines False (format_rfc_metadata_marker label v # ls) = format_rfc_metadata_marker label v # preamble_lines False ls"
  "preamble_lines False ([] # ls) = [] # preamble_lines False ls"
proof -
  obtain t where "format_rfc_metadata_marker label v = CHR ''-'' # t" using marker_dash by blast
  then have "\<not> is_fence (format_rfc_metadata_marker label v) \<and> \<not> starts_with (trim_start (format_rfc_metadata_marker label v)) ''## ''" by (rule dash_line)
  then show "preamble_lines False (format_rfc_metadata_marker label v # ls) = format_rfc_metadata_marker label v # preamble_lines False ls" by simp
qed (simp add: empty_line)

lemma preamble_subset: "set (preamble_lines fence ls) \<subseteq> set ls"
  by (induction fence ls rule: preamble_lines.induct) auto

lemma marker_plain: "plain_line v \<Longrightarrow> label \<in> lifecycle_labels \<Longrightarrow> plain_line (format_rfc_metadata_marker label v)"
  by (auto simp: format_rfc_metadata_marker_def plain_line_def bold_def lifecycle_labels_def)

lemma retired_plain:
  assumes "one_line_reason r"
  shows "plain_line (status_marker w)" "plain_line (stage_marker n)" "plain_line (reason_marker r)"
proof -
  have "plain_line (show_nat n)"
    using show_nat_digits [of n] by (auto simp: plain_line_def list_all_iff is_digit_def)
  then show "plain_line (stage_marker n)" by (simp add: stage_marker_def marker_plain lifecycle_labels_def)
  show "plain_line (status_marker w)" unfolding status_marker_def by (rule marker_plain) (auto simp: plain_line_def lifecycle_labels_def)
  show "plain_line (reason_marker r)"
    unfolding reason_marker_def by (rule marker_plain) (use assms in \<open>auto simp: one_line_reason_def plain_line_def lifecycle_labels_def split: option.splits\<close>)
qed

text \<open>The preamble of the new text, line by line.\<close>

definition new_preamble :: "string \<Rightarrow> bool \<Rightarrow> nat \<Rightarrow> string option \<Rightarrow> string list" where
  "new_preamble s w n r = [] # status_marker w # stage_marker n # reason_marker r # []
     # preamble_lines False (keep_unmarked (retired_markers w n r) False True True (tl (dropWhile (\<lambda>l. \<not> starts_with l ''# '') (text_lines s))))"

lemma retired_preamble:
  assumes "CHR 0x0D \<notin> set s" and "list_ex (\<lambda>l. starts_with l ''# '') (text_lines s)" and r: "one_line_reason r"
  shows "rfc_metadata_preamble (upsert_rfc_metadata_markers s (retired_markers w n r)) = join_with [nl] (new_preamble s w n r)"
    "list_all plain_line (new_preamble s w n r)"
proof -
  let ?ms = "retired_markers w n r" and ?t = "\<lambda>l. \<not> starts_with l ''# ''"
  let ?head = "takeWhile ?t (text_lines s)"
  have "dropWhile ?t (text_lines s) \<noteq> []" using assms(2) by (auto simp: list_ex_iff dropWhile_eq_Nil_conv)
  then obtain title rest where d: "dropWhile ?t (text_lines s) = title # rest" by (cases "dropWhile ?t (text_lines s)") auto
  then have title: "starts_with title ''# ''" using hd_dropWhile [of ?t "text_lines s"] by simp
  let ?keep = "keep_unmarked ?ms False True True rest"
  let ?L = "?head @ [title, []] @ marker_lines ?ms @ [[]] @ ?keep"
  have all: "list_all plain_line (text_lines s)" by (rule text_lines_plain [OF assms(1)])
  have sub: "set ?head \<subseteq> set (text_lines s)" "set (title # rest) \<subseteq> set (text_lines s)"
    using set_takeWhileD [of _ ?t "text_lines s"] set_dropWhileD [of _ ?t "text_lines s"] unfolding d by blast+
  have plain: "list_all plain_line ?head" "plain_line title" "list_all plain_line rest"
    using all sub by (auto simp: list_all_iff)
  have keep: "list_all plain_line ?keep" using plain(3) kept_lines [of ?ms False True True rest] by (auto simp: list_all_iff)
  have empty: "plain_line []" by (simp add: plain_line_def)
  have "upsert_rfc_metadata_markers s ?ms = unlines ?L"
    unfolding upsert_rfc_metadata_markers_def Let_def d by (simp add: retired_markers_def)
  moreover have "list_all plain_line ?L"
    using plain keep empty retired_plain [OF r] by (simp add: marker_lines_retired)
  ultimately have lines: "text_lines (upsert_rfc_metadata_markers s ?ms) = ?L" by (simp add: text_lines_unlines)
  have "dropWhile ?t ?L = [title, []] @ marker_lines ?ms @ [[]] @ ?keep"
  proof -
    have "\<forall>l \<in> set ?head. ?t l" using set_takeWhileD [of _ ?t "text_lines s"] by blast
    then show ?thesis using title by (simp add: dropWhile_append2)
  qed
  then have "rfc_metadata_preamble (upsert_rfc_metadata_markers s ?ms) = join_with [nl] (preamble_lines False ([] # marker_lines ?ms @ [] # ?keep))"
    unfolding rfc_metadata_preamble_def lines by simp
  moreover have "preamble_lines False ([] # marker_lines ?ms @ [] # ?keep) = [] # marker_lines ?ms @ [] # preamble_lines False ?keep"
    by (simp only: marker_lines_retired status_marker_def stage_marker_def reason_marker_def append_Cons append_Nil preamble_marker)
  ultimately show "rfc_metadata_preamble (upsert_rfc_metadata_markers s ?ms) = join_with [nl] (new_preamble s w n r)"
    by (simp add: new_preamble_def d marker_lines_retired)
  show "list_all plain_line (new_preamble s w n r)"
    using keep preamble_subset [of False ?keep] empty retired_plain [OF r] by (auto simp: new_preamble_def d list_all_iff)
qed

section \<open>Reading the markers back\<close>

lemma declared_in_snoc: "declared_in_line k label = None \<Longrightarrow> declared_in (ls @ [k]) label = declared_in ls label"
  by (induction ls) (auto split: option.splits)

lemma lifecycle_in_snoc: "metadata_line_value k ''Status'' = None \<Longrightarrow> lifecycle_in (ls @ [k]) = lifecycle_in ls"
  by (induction ls) (auto split: option.splits)

lemma declared_in_absent: "(\<And>l. l \<in> set ls \<Longrightarrow> declared_in_line l label = None) \<Longrightarrow> declared_in ls label = absent"
  by (induction ls) simp_all

lemma declared_joined:
  assumes "list_all plain_line ls" "label \<in> lifecycle_labels"
  shows "declared_metadata_value (join_with [nl] ls) label = declared_in ls label"
proof (cases "ls \<noteq> [] \<and> last ls = []")
  case True
  then have "ls = butlast ls @ [[]]" by (metis append_butlast_last_id)
  then have "declared_in ls label = declared_in (butlast ls) label" using declared_in_snoc [OF declares_nothing_empty [OF assms(2)]] by metis
  then show ?thesis using True by (simp add: declared_metadata_value_def text_lines_joined [OF assms(1)])
qed (auto simp: declared_metadata_value_def text_lines_joined [OF assms(1)])

lemma lifecycle_joined:
  assumes "list_all plain_line ls"
  shows "declared_lifecycle_status (join_with [nl] ls) = lifecycle_in ls"
proof (cases "ls \<noteq> [] \<and> last ls = []")
  case True
  have none: "metadata_line_value [] ''Status'' = None"
    by (simp add: metadata_line_declares declares_nothing_empty lifecycle_labels_def)
  have "ls = butlast ls @ [[]]" using True by (metis append_butlast_last_id)
  then have "lifecycle_in ls = lifecycle_in (butlast ls)" using lifecycle_in_snoc [OF none] by metis
  then show ?thesis using True by (simp add: declared_lifecycle_status_def text_lines_joined [OF assms])
qed (auto simp: declared_lifecycle_status_def text_lines_joined [OF assms])

definition retired_word :: "string \<Rightarrow> string option" where
  "retired_word v = (if contains ''archived'' (lower v) then Some ''archived'' else if contains ''withdrawn'' (lower v) then Some ''withdrawn'' else None)"

lemma retired_status_words: "retired_word ''Withdrawn'' = Some ''withdrawn''" "retired_word ''Archived'' = Some ''archived''"
  by code_simp+

lemma lifecycle_hit:
  "metadata_line_value k ''Status'' = None \<Longrightarrow> metadata_line_value l ''Status'' = Some (if w then ''Withdrawn'' else ''Archived'') \<Longrightarrow>
   lifecycle_in (k # l # ls) = retired_word (if w then ''Withdrawn'' else ''Archived'')"
  using retired_status_words by (cases w) (auto simp: retired_word_def split: if_splits)

lemma new_preamble_declares:
  assumes n: "n \<le> 4" and r: "one_line_reason r"
  shows "lifecycle_in (new_preamble s w n r) = Some (if w then ''withdrawn'' else ''archived'')"
    "declared_in (new_preamble s w n r) ''Stage'' = declares (Some (show_nat n))"
    "declared_in (new_preamble s w n r) ''Reason'' = declares r"
    "label \<in> {''Withdrawal reason'', ''Archived reason''} \<Longrightarrow> declared_in (new_preamble s w n r) label = absent"
proof -
  have status: "declared_in_line (status_marker w) label = (if label = ''Status'' then Some (Some (if w then ''Withdrawn'' else ''Archived'')) else None)"
    if "label \<in> lifecycle_labels" for label
    unfolding status_marker_def by (rule marker_declares [OF that _ _ edge_words]) (simp_all add: lifecycle_labels_def)
  have stage: "declared_in_line (stage_marker n) label = (if label = ''Stage'' then Some (Some (show_nat n)) else None)"
    if "label \<in> lifecycle_labels" for label
    unfolding stage_marker_def by (rule marker_declares [OF that]) (use edge_small [OF n] show_nat_digits [of n] in \<open>simp_all add: lifecycle_labels_def\<close>)
  have labels: "''Status'' \<in> lifecycle_labels" "''Stage'' \<in> lifecycle_labels" "''Reason'' \<in> lifecycle_labels"
    "''Withdrawal reason'' \<in> lifecycle_labels" "''Archived reason'' \<in> lifecycle_labels"
    by (simp_all add: lifecycle_labels_def)
  note none = declares_nothing_empty
  have "metadata_line_value [] ''Status'' = None" by (simp add: metadata_line_declares none labels)
  moreover have "metadata_line_value (status_marker w) ''Status'' = Some (if w then ''Withdrawn'' else ''Archived'')"
    by (simp add: metadata_line_declares status labels)
  ultimately have "lifecycle_in (new_preamble s w n r) = retired_word (if w then ''Withdrawn'' else ''Archived'')"
    unfolding new_preamble_def by (rule lifecycle_hit)
  then show "lifecycle_in (new_preamble s w n r) = Some (if w then ''withdrawn'' else ''archived'')" by (simp add: retired_status_words)
  show "declared_in (new_preamble s w n r) ''Stage'' = declares (Some (show_nat n))"
    unfolding new_preamble_def by (simp add: none status stage labels)
  show "declared_in (new_preamble s w n r) ''Reason'' = declares r"
    unfolding new_preamble_def by (simp add: none status stage labels reason_marker_declares [OF r])
  show "declared_in (new_preamble s w n r) label = absent" if l: "label \<in> {''Withdrawal reason'', ''Archived reason''}"
  proof (rule declared_in_absent)
    fix k assume "k \<in> set (new_preamble s w n r)"
    then consider "k = []" | "k = status_marker w" | "k = stage_marker n" | "k = reason_marker r"
      | "k \<in> set (preamble_lines False (keep_unmarked (retired_markers w n r) False True True (tl (dropWhile (\<lambda>l. \<not> starts_with l ''# '') (text_lines s)))))"
      by (auto simp: new_preamble_def)
    then show "declared_in_line k label = None"
    proof cases
      case 5
      then show ?thesis unfolding retired_markers_def by (rule kept_declare_nothing) (use l labels in auto)
    qed (use l labels none status stage reason_marker_declares [OF r] in auto)
  qed
qed

section \<open>The retired document\<close>

text \<open>
  C21. What withdrawing and archiving write reads back: for a document with a title line and no
  carriage returns, whatever its preamble declared before, the new text, parsed in the folder of
  its new status, has the stage that was kept, as a marker, agrees with its folder, declares the
  reason that was given, or found, or none, and counts as portable.
\<close>
theorem retired_document_reads_back:
  assumes "CHR 0x0D \<notin> set s" and "list_ex (\<lambda>l. starts_with l ''# '') (text_lines s)"
    and "retired_stage path s stored \<le> 4" and "one_line_reason (retired_reason path s reason)"
    and "parse_status path' = (if w then ''withdrawn'' else ''archived'')"
    and "parse_rfc_document W path' (retired_text w path s stored reason) existing = Inr p"
  shows "doc_stage p = retired_stage path s stored \<and> doc_stage_source p = ''marker'' \<and> doc_status_declared p \<and> \<not> doc_conflict p
    \<and> (if w then doc_withdrawal_reason p else doc_archived_reason p) = declares (retired_reason path s reason)
    \<and> retired_rfc_lifecycle_metadata_is_portable (retired_text w path s stored reason) (if w then ''withdrawn'' else ''archived'')"
proof -
  define n r s' where "n = retired_stage path s stored" and "r = retired_reason path s reason" and "s' = retired_text w path s stored reason"
  note n = assms(3) [folded n_def] and r = assms(4) [folded r_def]
  have s': "s' = upsert_rfc_metadata_markers s (retired_markers w n r)"
    by (simp add: s'_def n_def r_def retired_text_def materialize_rfc_lifecycle_metadata_content_def retired_markers_def)
  note pre = retired_preamble [where w = w and n = n, OF assms(1,2) r, folded s']
  note d = new_preamble_declares [OF n r, where s = s and w = w]
  note v = declared_joined [OF pre(2), folded pre(1)]
  have stage: "declared_metadata_value (rfc_metadata_preamble s') ''Stage'' = declares (Some (show_nat n))" by (simp add: v d(2) lifecycle_labels_def)
  have reason: "declared_metadata_value (rfc_metadata_preamble s') ''Reason'' = declares r" by (simp add: v d(3) lifecycle_labels_def)
  have other: "declared_metadata_value (rfc_metadata_preamble s') ''Withdrawal reason'' = absent"
    "declared_metadata_value (rfc_metadata_preamble s') ''Archived reason'' = absent" by (simp_all add: v d(4) lifecycle_labels_def)
  have status: "declared_lifecycle_status (rfc_metadata_preamble s') = Some (if w then ''withdrawn'' else ''archived'')"
    using lifecycle_joined [OF pre(2), folded pre(1)] d(1) by simp
  have marker: "declared_metadata_value_with_yaml (rfc_metadata_preamble s') s' ''Stage'' ''stage'' = declares (Some (show_nat n))"
    by (simp add: declared_metadata_value_with_yaml_def stage declares_def)
  obtain f fn t m where p: "p = document_of W path' f s' existing fn t m"
    using assms(6) unfolding s'_def [symmetric] by (cases rule: parse_cases [of W path' s']) auto
  have bind: "Option.bind (dv_value (declares (Some (show_nat n)))) parse_declared_stage = Some n" by (simp add: declares_def declared_small [OF n])
  have dv: "dv_declared (declares x)" "\<not> dv_declared absent" for x by (simp_all add: declares_def absent_def)
  have "doc_stage p = n" "doc_stage_source p = ''marker''" "doc_status_declared p" "\<not> doc_conflict p"
    by (simp_all add: p document_of_def Let_def assms(5) marker resolved_stage_def metadata_conflict_def bind status dv or_stage_def)
  moreover have "(if w then doc_withdrawal_reason p else doc_archived_reason p) = declares r"
    by (simp add: p document_of_def Let_def assms(5) reason other first_declared_value_def dv)
  moreover have "retired_rfc_lifecycle_metadata_is_portable s' (if w then ''withdrawn'' else ''archived'')"
    by (cases w) (simp_all add: retired_rfc_lifecycle_metadata_is_portable_def Let_def status stage bind other reason first_declared_value_def dv)
  ultimately show ?thesis by (simp add: n_def r_def s'_def)
qed

definition retiring_text :: string where
  "retiring_text = ''<!-- exo:7 ulid:a1 -->'' @ [nl] @ ''# RFC 7: T'' @ [nl] @ ''- **Withdrawal reason**: Old'' @ [nl]"

definition retired_sample :: string where
  "retired_sample = retired_text True ''stage-1/7-t.md'' retiring_text None (Some ''No need'')"

lemma retired_sample_parses: "\<exists>p. parse_rfc_document (\<lambda>_. False) ''withdrawn/7-t.md'' retired_sample None = Inr p"
proof -
  have "text_lines retiring_text = [anchor_line 7 ''a1'', ''# RFC 7: T'', ''- **Withdrawal reason**: Old'']" by code_simp
  then have "\<exists>s. retired_sample = anchor_line 7 ''a1'' @ s"
    by (simp add: retired_sample_def retired_text_def materialize_rfc_lifecycle_metadata_content_def upsert_rfc_metadata_markers_def
        anchor_line_def starts_with_def strip_prefix_def unlines_def)
  then obtain s where s: "retired_sample = anchor_line 7 ''a1'' @ s" by blast
  have "strict_anchor retired_sample = Some (show_int 7, ''a1'')"
    unfolding s by (rule created_anchor) (simp_all add: is_alnum_def is_digit_def)
  then have b: "has_anchor retired_sample" "extract_anchor_ulid retired_sample = Some ''a1''" "extract_anchor_rfc_number retired_sample = Some 7"
    using created_has_anchor [of 7 "''a1''" s] parse_show_int [of "- (2 ^ 63)" 7 "2 ^ 63 - 1"]
    by (simp_all add: extract_anchor_ulid_def extract_anchor_rfc_number_def s)
  have c: "file_name ''withdrawn/7-t.md'' = Some ''7-t.md''" "parse_rfc_number ''7-t.md'' = Some 7" by code_simp+
  show ?thesis
    by (simp only: parse_rfc_document_def or_error_def b c option.case and_then_simps not_True_eq_False if_False) blast
qed

lemma retired_document_reads_back_witness:
  "\<exists>p. parse_rfc_document (\<lambda>_. False) ''withdrawn/7-t.md'' retired_sample None = Inr p
     \<and> doc_stage p = 1 \<and> doc_withdrawal_reason p = declares (Some ''No need'')"
proof -
  obtain p where p: "parse_rfc_document (\<lambda>_. False) ''withdrawn/7-t.md'' retired_sample None = Inr p" using retired_sample_parses by blast
  have e: "retired_stage ''stage-1/7-t.md'' retiring_text None = 1" "retired_reason ''stage-1/7-t.md'' retiring_text (Some ''No need'') = Some ''No need''"
    "one_line_reason (Some ''No need'')" "parse_status ''withdrawn/7-t.md'' = ''withdrawn''" "CHR 0x0D \<notin> set retiring_text"
    "list_ex (\<lambda>l. starts_with l ''# '') (text_lines retiring_text)"
    by code_simp+
  show ?thesis
    using retired_document_reads_back [OF e(5,6), of "''stage-1/7-t.md''" None "Some ''No need''" "''withdrawn/7-t.md''" True, folded retired_sample_def, OF _ _ _ p] p e
    by simp
qed

end
