(* ===== verification/Spec2Isabelle.thy ===== *)
theory Spec2Isabelle
  imports Command_Text_Facts Phase_Owner_Facts Runtime_Reads Collection_Facts Reactive_Table_Facts Writer_Fence_Facts Request_Scope Merge_Driver_Facts
    State_Machine_Facts Plan_Focus Plan_Order_Facts Outcome_Replay Dump_Whole Edit_Distance Command_Samples Command_Spec_Facts
    Rfc_Laws Rfc_Retire
begin

text \<open>
  A verification library for Exosuit, the project-management tool \<open>exo\<close> and the crates under it.

  \<^bold>\<open>The program.\<close> \<open>exo\<close> keeps the plan of a project (epochs, phases, goals, tasks, lanes) in a SQLite
  database. A command line or a JSON message is compiled against a tree of command specifications
  to an invocation; a daemon executes it inside a request-scoped transaction, records its outcome
  in a ledger so that a retry does not act twice, and answers. Every write goes through reactive
  virtual tables, which keep a revision per row and per row set; readers record what they saw as a
  trace, and a trace is valid as long as none of its revisions moved. The database is projected to
  sorted SQL text that is committed to git; another worktree or another version of the tool
  imports it, merges it and is fenced off from databases it does not understand.

  \<^bold>\<open>The theories, bottom up.\<close> \<open>Prelude\<close> holds what all share: results as sums with \<open>and_then\<close>, sets of
  the code's hash maps, ordered maps (\<open>bmap\<close>, an association list with distinct sorted keys),
  decimal printing and parsing at 64 bits, prefixes, lines and trimming. A Rust integer is a
  \<open>word\<close> where its width matters and a \<open>nat\<close> or \<open>int\<close> with the bound written out elsewhere; a
  string is the list of its UTF-8 bytes; \<open>Result\<close> is a sum with the error on the left.

  \<^item> \<open>Reactive_Core\<close>, \<open>Engine\<close>, \<open>Engine_Facts\<close>: \<open>crates/exosuit-reactivity-core\<close> and the engine of
    \<open>crates/exosuit-reactivity\<close>. The engine's maps are fields of one record; every public operation
    is a state transformer, \<open>engine_step\<close> collects them and \<open>engine_invariant\<close> holds in every
    reachable state. Lookups recurse through derived cells: fuel bounds the call depth,
    \<open>lookup_terminates\<close> shows that the rank of a cell is enough, and a self-dependent root, which
    the code does not exclude, is shown to diverge.
  \<^item> \<open>Runtime\<close>, \<open>Runtime_Facts\<close>, \<open>Runtime_Reads\<close>: cells, computed values, resources. A closure is a tree
    of the calls it makes. \<open>read_is_current\<close>: in worlds without removed cells,
    resources, hysteresis and grace what is read is the value of the closure on the present cells,
    whatever was cached; a counterexample shows what a removed cell does.
  \<^item> \<open>Collections\<close>, \<open>Collection_Facts\<close>: \<open>crates/exosuit-core\<close>. A sequence refines a list and a map a
    finite map, and traces notice exactly the changes.
  \<^item> \<open>Revision_Store\<close>, \<open>Revision_Store_Facts\<close>, \<open>Reactive_Table\<close>, \<open>Reactive_Table_Facts\<close>:
    \<open>crates/exosuit-storage/src/revisions.rs\<close>, \<open>trace.rs\<close> and \<open>vtab/reactive.rs\<close>. What SQLite executes on
    a shadow table is a parameter with laws (\<open>engine_ok\<close>); after every callback the stored revisions
    are those of the rows, cascades included.
  \<^item> \<open>Request_Scope\<close>: \<open>request_transaction.rs\<close>. A request commits as a whole or leaves the database as
    it was, nested uses included.
  \<^item> \<open>Writer_Fence\<close>, \<open>Writer_Fence_Facts\<close>: \<open>compatibility.rs\<close> and \<open>migrations.rs\<close>; processes take and
    probe leases in a step relation.
  \<^item> \<open>Merge_Driver\<close>, \<open>Merge_Driver_Facts\<close>: the structural merge of projections in
    \<open>tools/exo/src/merge_driver.rs\<close>, key by key and row by row a three-way merge.
  \<^item> \<open>Dump_Text\<close>, \<open>Dump\<close> and \<open>Dump_Text_Facts\<close>, \<open>Dump_Rows\<close>, \<open>Dump_Lines\<close>, \<open>Dump_Facts\<close>, \<open>Dump_Round\<close>,
    \<open>Dump_Import\<close>, \<open>Dump_Whole\<close>: \<open>crates/exosuit-storage/src/dump.rs\<close>. The proof of losslessness goes
    from one value to one row, one line, one table and the whole text.
  \<^item> \<open>Plan_Store\<close>, \<open>Act\<close>, \<open>Plan_State\<close>, \<open>Plan_Tasks\<close>, \<open>Plan_Writer\<close> and \<open>Plan_Invariants\<close>, \<open>Plan_Keeps\<close>,
    \<open>Plan_Ops\<close>, \<open>Plan_Focus\<close>, \<open>Plan_Order\<close>, \<open>Plan_Order_Keys\<close>, \<open>Plan_Order_Inv\<close>, \<open>Plan_Order_Facts\<close>: the
    tables of migrations V001 to V024 and \<open>SqliteWriter\<close> of \<open>context/sqlite_writer.rs\<close>. An \<open>act\<close> reads
    and writes the store and may fail half way, a savepoint takes it back; \<open>wp\<close> is its weakest
    precondition and \<open>keeps\<close> its preservation calculus. \<open>run_plan\<close> is a run of the writer from the
    empty plan. Order keys are those of the \<open>fractional_index\<close> crate: a parameter with laws, and
    reordering refines insertion into a list of names.
  \<^item> \<open>Phase_Owner\<close>, \<open>Phase_Owner_Facts\<close>: \<open>phase_owner.rs\<close>; the moves of other processes between two
    statements are an arbitrary function of the step number.
  \<^item> \<open>Steering\<close>, \<open>State_Machine\<close>, \<open>State_Machine_Facts\<close>: \<open>steering.rs\<close>, \<open>failure.rs\<close>, \<open>state_machine.rs\<close>
    and \<open>upgrade/mod.rs\<close>: the primary state of a project and the gate in front of every command.
  \<^item> \<open>Protocol\<close>, \<open>Outcome_Ledger\<close>, \<open>Outcome_Ops\<close>, \<open>Outcome_Flow\<close>, \<open>Outcome_World\<close> and \<open>Outcome_Keeps\<close>,
    \<open>Outcome_Steps\<close>, \<open>Outcome_Reach\<close>, \<open>Outcome_Sound\<close>, \<open>Outcome_Replay\<close>, \<open>Outcome_Facts\<close>: the envelopes
    of \<open>api/protocol.rs\<close> and \<open>daemon_outcomes.rs\<close>. A request is a program counter over the database
    accesses of the three ways the ledger executes it; \<open>daemon_step\<close> interleaves requests,
    crashes, failing statements and maintenance; \<open>sound\<close> and, on where replayed answers come from,
    \<open>replay_ok\<close> are the invariants of reachable worlds.
  \<^item> \<open>Command_Text\<close>, \<open>Command_Text_Facts\<close>: \<open>cli_quote.rs\<close>, \<open>command_text.rs\<close>, \<open>command_reference.rs\<close>.
  \<^item> \<open>Command_Spec\<close>, \<open>Command_Router\<close>, \<open>Argv_Compiler\<close>, \<open>Invocation_Json\<close> and \<open>Argv_Facts\<close>,
    \<open>Command_Facts\<close>, \<open>Command_Json\<close>, \<open>Command_Spec_Facts\<close>, \<open>Command_Samples\<close>, \<open>Edit_Distance\<close>:
    \<open>command/command_spec.rs\<close>, \<open>command/router.rs\<close>, \<open>argv_compiler.rs\<close>, \<open>shell_ops.rs\<close>, \<open>diagnostics.rs\<close>. A
    compiled invocation is typed by its operation, survives the JSON channel, and the suggestions'
    distance is the least number of edits.
  \<^item> \<open>Rfc_Text\<close>, \<open>Rfc_Document\<close>, \<open>Rfc_Store\<close>, \<open>Rfc_Reconcile\<close>, \<open>Rfc_Edit\<close> and \<open>Rfc_View\<close>, \<open>Rfc_Shared\<close>,
    \<open>Rfc_Facts\<close>, \<open>Rfc_Create\<close>, \<open>Rfc_Laws\<close>, \<open>Rfc_Retire\<close>: \<open>tools/exo/src/rfc.rs\<close> with the
    tables of migrations V015 and V022. \<open>Rfc_Text\<close> has the names, anchors, titles and patterns,
    \<open>Rfc_Document\<close> what a document declares (\<open>parse_rfc_document\<close>) and the markers that are written into
    it, \<open>Rfc_Store\<close> the statements of \<open>sqlite_writer.rs\<close> and \<open>sqlite_loader.rs\<close>, \<open>Rfc_Reconcile\<close> the shared
    records, the observations of a workspace and the effective view, \<open>Rfc_Edit\<close> the texts and records of
    the lifecycle commands. The lemmas show that reconciling settles and decides every shared record,
    that a view lays a workspace's documents over the shared records and shows a command's record
    next, that workspaces are isolated, and that created and retired documents read back as written.
    Git's answers, SHA-256, the clock, the YAML of front matter and the word characters outside ASCII
    are parameters; patterns that ignore case fold ASCII letters only.

  \<^bold>\<open>Interfaces.\<close> Where one component relies on another, a locale states the contract and is
  interpreted on the model's definitions: \<open>state_provider\<close> (what validation of a trace relies on; the
  engine and the SQLite store provide it), \<open>reader\<close> (what a computed value may call), \<open>list_collection\<close>
  (append and read back), \<open>keyed_rows\<close> and its extension \<open>movable_rows\<close> (the ordered tables of the plan),
  \<open>isolated_steps\<close> (steps that keep an invariant, and what they leave unseen by others; the operations on RFCs).

  \<^bold>\<open>Bounds and fuel.\<close> Revisions are 64-bit counters, and the laws about them carry the assumption
  that the counter has not wrapped; occurrence counters saturate at 32 bits as the code's do. Fuel
  occurs only in the engine's and the runtime's mutual recursion; the theorems there produce the
  fuel that is enough. Everything else is structurally recursive or has a measure.

  \<^bold>\<open>Parameters.\<close> Hash functions, TOML and JSON text, floats, SQLite's execution on shadow tables,
  the key crate, git and the clock are arguments of the definitions that use them. What the code
  relies on is a named predicate (\<open>engine_ok\<close>, \<open>frac_laws\<close>, \<open>serde_ok\<close> and so on); each witness
  instantiates it with a concrete function.

  \<^bold>\<open>Not modelled.\<close> The sockets, process control and health files of the daemon, the HTTP host of the
  workbench and its browser pairings, MCP, git and GitHub access, rendering for the terminal, the
  hook runner, the history analyser and the TypeScript packages: their behaviour is I/O, or text
  for a reader. The individual commands under \<open>tools/exo/src/command\<close> are glue between the compiler,
  the writer and the output, which are modelled. Of the steering only its vocabulary is modelled,
  not its derivation from the state of the world; of the writer not the inbox, ideas and axioms. Of the RFCs the repair
  of malformed or misplaced documents, the moves of files, the legacy reader, the lock file, the cache of
  recent reconciliations and, on a repository without a canonical tree, the choice of the statements
  that its reconciliation with the workspace makes are left out; the statements themselves are
  operations of the store, and a command's write without a canonical tree is modelled. Runs of the
  daemon start with an empty ledger, so that rows of earlier versions do not occur, and its clock
  does not go back; reading the revision counters does not fail.
\<close>

end
